(* ===== verification/Px4_Prelude.thy ===== *)
theory Px4_Prelude
  imports Main "HOL-Library.Word"
begin

text \<open>
  Shared vocabulary of the development: the machine integers of the C sources as words of
  their width, the register flag operations (test, set and clear of a mask), the
  little-endian view of a 32-bit and of a 64-bit value as bytes (the ARM targets of the
  firmware are little-endian, and the sources cast \<open>uint32_t *\<close> to \<open>uint8_t *\<close>), and the
  generic facts on words, lists and iterated steps that the component theories use.
\<close>

unbundle bit_operations_syntax

type_synonym u8 = "8 word"
type_synonym u16 = "16 word"
type_synonym u32 = "32 word"
type_synonym u64 = "64 word"

named_theorems flag_simps \<open>rewriting of register flags: test, set and clear of masks\<close>
named_theorems byte_simps \<open>little-endian bytes of words and back\<close>
named_theorems frame_simps \<open>what an operation leaves unchanged\<close>

section \<open>Flags of a register\<close>

text \<open>\<open>r & m\<close> as a condition, \<open>r |= m\<close> and \<open>r &= ~m\<close>.\<close>

definition has_flag :: "'a::len word \<Rightarrow> 'a word \<Rightarrow> bool" where
  "has_flag r m \<longleftrightarrow> r AND m \<noteq> 0"

definition set_flag :: "'a::len word \<Rightarrow> 'a word \<Rightarrow> 'a word" where
  "set_flag r m = r OR m"

definition clr_flag :: "'a::len word \<Rightarrow> 'a word \<Rightarrow> 'a word" where
  "clr_flag r m = r AND NOT m"

lemma has_flag_bits: "has_flag r m \<longleftrightarrow> (\<exists>n. bit r n \<and> bit m n)"
  by (auto simp: has_flag_def bit_eq_iff bit_simps intro: bit_imp_le_length)

lemma has_flag_bit: "has_flag r (push_bit n 1) \<longleftrightarrow> bit r n"
  by (simp add: has_flag_def bit_iff_and_push_bit_not_eq_0)

lemma bit_set_flag [flag_simps]: "bit (set_flag r m) n \<longleftrightarrow> bit r n \<or> bit m n"
  by (simp add: set_flag_def bit_simps)

lemma bit_clr_flag [flag_simps]: "bit (clr_flag r m) n \<longleftrightarrow> bit r n \<and> \<not> bit m n"
proof -
  have "bit r n \<Longrightarrow> n < LENGTH('a)" by (rule bit_imp_le_length)
  then show ?thesis by (auto simp: clr_flag_def bit_simps)
qed

lemma has_flag_set [flag_simps]: "has_flag (set_flag r m) m' \<longleftrightarrow> has_flag r m' \<or> has_flag m m'"
  by (auto simp: has_flag_bits bit_set_flag)

lemma has_flag_set_same [flag_simps]: "has_flag (set_flag r m) m \<longleftrightarrow> m \<noteq> 0"
  by (auto simp: has_flag_set) (auto simp: has_flag_def)

lemma has_flag_clr_disjoint: "m AND m' = 0 \<Longrightarrow> has_flag (clr_flag r m) m' \<longleftrightarrow> has_flag r m'"
  by (auto simp: has_flag_bits bit_clr_flag bit_eq_iff bit_simps) (metis bit_imp_le_length)

lemma has_flag_clr_same [flag_simps]: "\<not> has_flag (clr_flag r m) m"
  by (auto simp: has_flag_bits bit_clr_flag)

lemma has_flag_clr_subset: "m' AND NOT m = 0 \<Longrightarrow> \<not> has_flag (clr_flag r m) m'"
  by (auto simp: has_flag_bits bit_clr_flag bit_eq_iff bit_simps dest: bit_imp_le_length)

lemma has_flag_mono: "has_flag r m \<Longrightarrow> m AND m' = m \<Longrightarrow> has_flag r m'"
  by (auto simp: has_flag_bits bit_eq_iff bit_and_iff) (metis bit_imp_le_length)

lemma has_flag_clr_mono: "has_flag (clr_flag r m) m' \<Longrightarrow> has_flag r m'"
  by (auto simp: has_flag_bits bit_clr_flag)

section \<open>Little-endian bytes\<close>

definition bytes_of_u32 :: "u32 \<Rightarrow> u8 list" where
  "bytes_of_u32 w = [ucast w, ucast (drop_bit 8 w), ucast (drop_bit 16 w), ucast (drop_bit 24 w)]"

definition u32_of_bytes :: "u8 list \<Rightarrow> u32" where
  "u32_of_bytes bs = ucast (bs ! 0) OR push_bit 8 (ucast (bs ! 1))
     OR push_bit 16 (ucast (bs ! 2)) OR push_bit 24 (ucast (bs ! 3))"

lemma bit_u8_beyond: "8 \<le> n \<Longrightarrow> \<not> bit (b :: u8) n"
  by (auto dest: bit_imp_le_length)

lemma bit_u8D: "bit (b :: u8) n \<Longrightarrow> n < 8"
  by (auto dest: bit_imp_le_length)

lemma bit_0xff: "bit (0xff :: u32) k \<longleftrightarrow> k < 8"
proof -
  have "(0xff :: u32) = mask 8" by (simp add: mask_eq_exp_minus_1)
  then show ?thesis by (simp only: bit_mask_iff) auto
qed

lemma length_bytes_of_u32 [simp]: "length (bytes_of_u32 w) = 4"
  by (simp add: bytes_of_u32_def)

lemma u32_of_bytes_of_u32 [byte_simps, simp]: "u32_of_bytes (bytes_of_u32 w) = w"
proof (rule bit_word_eqI)
  fix n assume "n < LENGTH(32)"
  then have n: "n < 32" by simp
  consider "n < 8" | "8 \<le> n" "n < 16" | "16 \<le> n" "n < 24" | "24 \<le> n" using n by linarith
  then show "bit (u32_of_bytes (bytes_of_u32 w)) n = bit w n"
    using n by cases (auto simp: u32_of_bytes_def bytes_of_u32_def bit_simps)
qed

lemma bytes_of_u32_inject: "bytes_of_u32 v = bytes_of_u32 w \<longleftrightarrow> v = w"
  by (metis u32_of_bytes_of_u32)

lemma bytes_of_u32_of_bytes:
  assumes "length bs = 4"
  shows "bytes_of_u32 (u32_of_bytes bs) = bs"
proof -
  obtain a b c d where "bs = [a, b, c, d]"
    using assms by (auto simp: length_Suc_conv numeral_eq_Suc)
  moreover have "ucast (u32_of_bytes [a, b, c, d]) = a"
    "ucast (drop_bit 8 (u32_of_bytes [a, b, c, d])) = b"
    "ucast (drop_bit 16 (u32_of_bytes [a, b, c, d])) = c"
    "ucast (drop_bit 24 (u32_of_bytes [a, b, c, d])) = d"
    by (auto intro!: bit_word_eqI simp: u32_of_bytes_def bit_simps bit_u8_beyond)
  ultimately show ?thesis by (simp add: bytes_of_u32_def)
qed

section \<open>Exclusive or and iterated steps\<close>

lemma xor_left_cancel: "c XOR a = c XOR b \<longleftrightarrow> a = (b :: 'a::len word)"
  by (auto simp: bit_eq_iff bit_simps)

lemma xor_right_cancel: "a XOR c = b XOR c \<longleftrightarrow> a = (b :: 'a::len word)"
  by (auto simp: bit_eq_iff bit_simps)


lemma nth_update_if: "xs[i := x] ! j = (if i = j \<and> i < length xs then x else xs ! j)"
  by (cases "i < length xs") (auto simp: list_update_beyond)

lemma funpow_8: "(f ^^ 8) x = f (f (f (f (f (f (f (f x)))))))"
  by (simp add: numeral_eq_Suc)

lemma funpow_keeps: "(\<And>x. P x \<Longrightarrow> P (f x)) \<Longrightarrow> P x \<Longrightarrow> P ((f ^^ n) x)"
  by (induction n) simp_all

lemma funpow_inj:
  fixes f :: "'a \<Rightarrow> 'a"
  assumes "\<And>x y. f x = f y \<Longrightarrow> x = y" and "(f ^^ n) x = (f ^^ n) y"
  shows "x = y"
proof -
  have "inj f" by (rule injI) (rule assms(1))
  then have "inj (f ^^ n)" by (rule inj_fn)
  then show ?thesis using assms(2) by (rule injD)
qed

section \<open>Countdowns\<close>

text \<open>
  What a client of a software timer relies on: as long as the invariant holds, a tick takes
  one unit off what is left, and nothing else does.  The firmware has several such timers
  (the scheduler of the CAN bootloader, the millisecond timers of the serial bootloader).
\<close>

locale countdown =
  fixes tick :: "'s \<Rightarrow> 's"
    and left :: "'s \<Rightarrow> nat"
    and inv :: "'s \<Rightarrow> bool"
  assumes tick_inv: "inv s \<Longrightarrow> inv (tick s)"
    and tick_left: "inv s \<Longrightarrow> left (tick s) = left s - 1"
begin

lemma ticks_inv: "inv s \<Longrightarrow> inv ((tick ^^ k) s)"
  by (induction k) (auto intro: tick_inv)

lemma ticks_left: "inv s \<Longrightarrow> left ((tick ^^ k) s) = left s - k"
  by (induction k) (simp_all add: tick_left ticks_inv)

lemma runs_out: "inv s \<Longrightarrow> left ((tick ^^ k) s) = 0 \<longleftrightarrow> left s \<le> k"
  by (simp add: ticks_left)

end

end
