(* ===== verification/Crc.thy ===== *)
theory Crc
  imports Px4_Prelude
begin

text \<open>
  The checksums of the firmware: \<open>crc16_add\<close>, \<open>crc16_signature\<close>, \<open>crc32_signature\<close> and
  \<open>crc64_add_word\<close> of \<open>src/lib/systemlib/crc.c\<close>, and the table driven \<open>crc32\<close> of the serial
  bootloader (\<open>bootloader/common/bl.c\<close>).  The locale \<open>crc_register\<close> states what a client of
  a checksum relies on (the register step is linear and injective), \<open>crc_window\<close> adds how
  the bytes of one register width line up; both are interpreted on the three registers of
  the sources, and the error detection facts are proved once inside them.
\<close>

section \<open>Definitions\<close>

text \<open>One bit of the CRC-16-CCITT register, then a byte, then a buffer.\<close>

definition crc16_step :: "u16 \<Rightarrow> u16" where
  "crc16_step crc = (if crc AND 0x8000 \<noteq> 0 then push_bit 1 crc XOR 0x1021 else push_bit 1 crc)"

definition crc16_add :: "u16 \<Rightarrow> u8 \<Rightarrow> u16" where
  "crc16_add crc value = (crc16_step ^^ 8) (crc XOR push_bit 8 (ucast value))"

definition CRC16_INITIAL :: u16 where "CRC16_INITIAL = 0xFFFF"
definition CRC16_OUTPUT_XOR :: u16 where "CRC16_OUTPUT_XOR = 0"

definition crc16_signature :: "u16 \<Rightarrow> nat \<Rightarrow> u8 list \<Rightarrow> u16" where
  "crc16_signature initial n bytes = foldl crc16_add initial (take n bytes) XOR CRC16_OUTPUT_XOR"

text \<open>
  The reflected CRC-32: the body of the inner loop computes the mask \<open>-(acc & 1)\<close> and
  applies it to the polynomial.
\<close>

definition crc32_step :: "u32 \<Rightarrow> u32" where
  "crc32_step acc = (let xor_mask = - (acc AND 1) in drop_bit 1 acc XOR (0xedb88320 AND xor_mask))"

definition crc32_byte :: "u32 \<Rightarrow> u8 \<Rightarrow> u32" where
  "crc32_byte acc b = (crc32_step ^^ 8) (acc XOR ucast b)"

definition crc32_signature :: "u32 \<Rightarrow> nat \<Rightarrow> u8 list \<Rightarrow> u32" where
  "crc32_signature acc n bytes = foldl crc32_byte acc (take n bytes)"

text \<open>The CRC-64-WE register; a word is added as its four bytes in memory order.\<close>

definition CRC64_INITIAL :: u64 where "CRC64_INITIAL = 0xFFFFFFFFFFFFFFFF"
definition CRC64_OUTPUT_XOR :: u64 where "CRC64_OUTPUT_XOR = 0xFFFFFFFFFFFFFFFF"

definition crc64_step :: "u64 \<Rightarrow> u64" where
  "crc64_step crc = (if crc AND push_bit 63 1 \<noteq> 0 then push_bit 1 crc XOR 0x42F0E1EBA9EA3693
     else push_bit 1 crc)"

definition crc64_byte :: "u64 \<Rightarrow> u8 \<Rightarrow> u64" where
  "crc64_byte crc b = (crc64_step ^^ 8) (crc XOR push_bit 56 (ucast b))"

definition crc64_add_word :: "u64 \<Rightarrow> u32 \<Rightarrow> u64" where
  "crc64_add_word crc value = foldl crc64_byte crc (bytes_of_u32 value)"

text \<open>
  The table driven \<open>crc32\<close> of \<open>bl.c\<close>.  The table is a static array that the first call
  fills: a zero at index 1 means that it has not been generated yet.  The function takes
  the table and returns it with the checksum.
\<close>

definition bl_crc_bit :: "u32 \<Rightarrow> u32" where
  "bl_crc_bit c = (if c AND 1 \<noteq> 0 then 0xedb88320 XOR drop_bit 1 c else drop_bit 1 c)"

definition bl_crctab :: "u32 list" where
  "bl_crctab = map (\<lambda>i. (bl_crc_bit ^^ 8) (word_of_nat i)) [0..<256]"

definition crctab_zero :: "u32 list" where
  "crctab_zero = replicate 256 0"

definition bl_crc32 :: "u8 list \<Rightarrow> u32 \<Rightarrow> u32 list \<Rightarrow> u32 \<times> u32 list" where
  "bl_crc32 src state crctab =
     (let tab = (if crctab ! 1 = 0 then bl_crctab else crctab)
      in (foldl (\<lambda>s b. tab ! unat ((s XOR ucast b) AND 0xff) XOR drop_bit 8 s) state src, tab))"

text \<open>
  \<open>crc32part\<close> of the C library (\<open>lib_crc32.c\<close>), which has its table as a constant; the
  coprocessor computes the checksum of its own firmware with it.
\<close>

definition crc32_tab :: "u32 list" where
  "crc32_tab = [
    0x00000000, 0x77073096, 0xee0e612c, 0x990951ba, 0x076dc419, 0x706af48f, 0xe963a535, 0x9e6495a3,
    0x0edb8832, 0x79dcb8a4, 0xe0d5e91e, 0x97d2d988, 0x09b64c2b, 0x7eb17cbd, 0xe7b82d07, 0x90bf1d91,
    0x1db71064, 0x6ab020f2, 0xf3b97148, 0x84be41de, 0x1adad47d, 0x6ddde4eb, 0xf4d4b551, 0x83d385c7,
    0x136c9856, 0x646ba8c0, 0xfd62f97a, 0x8a65c9ec, 0x14015c4f, 0x63066cd9, 0xfa0f3d63, 0x8d080df5,
    0x3b6e20c8, 0x4c69105e, 0xd56041e4, 0xa2677172, 0x3c03e4d1, 0x4b04d447, 0xd20d85fd, 0xa50ab56b,
    0x35b5a8fa, 0x42b2986c, 0xdbbbc9d6, 0xacbcf940, 0x32d86ce3, 0x45df5c75, 0xdcd60dcf, 0xabd13d59,
    0x26d930ac, 0x51de003a, 0xc8d75180, 0xbfd06116, 0x21b4f4b5, 0x56b3c423, 0xcfba9599, 0xb8bda50f,
    0x2802b89e, 0x5f058808, 0xc60cd9b2, 0xb10be924, 0x2f6f7c87, 0x58684c11, 0xc1611dab, 0xb6662d3d,
    0x76dc4190, 0x01db7106, 0x98d220bc, 0xefd5102a, 0x71b18589, 0x06b6b51f, 0x9fbfe4a5, 0xe8b8d433,
    0x7807c9a2, 0x0f00f934, 0x9609a88e, 0xe10e9818, 0x7f6a0dbb, 0x086d3d2d, 0x91646c97, 0xe6635c01,
    0x6b6b51f4, 0x1c6c6162, 0x856530d8, 0xf262004e, 0x6c0695ed, 0x1b01a57b, 0x8208f4c1, 0xf50fc457,
    0x65b0d9c6, 0x12b7e950, 0x8bbeb8ea, 0xfcb9887c, 0x62dd1ddf, 0x15da2d49, 0x8cd37cf3, 0xfbd44c65,
    0x4db26158, 0x3ab551ce, 0xa3bc0074, 0xd4bb30e2, 0x4adfa541, 0x3dd895d7, 0xa4d1c46d, 0xd3d6f4fb,
    0x4369e96a, 0x346ed9fc, 0xad678846, 0xda60b8d0, 0x44042d73, 0x33031de5, 0xaa0a4c5f, 0xdd0d7cc9,
    0x5005713c, 0x270241aa, 0xbe0b1010, 0xc90c2086, 0x5768b525, 0x206f85b3, 0xb966d409, 0xce61e49f,
    0x5edef90e, 0x29d9c998, 0xb0d09822, 0xc7d7a8b4, 0x59b33d17, 0x2eb40d81, 0xb7bd5c3b, 0xc0ba6cad,
    0xedb88320, 0x9abfb3b6, 0x03b6e20c, 0x74b1d29a, 0xead54739, 0x9dd277af, 0x04db2615, 0x73dc1683,
    0xe3630b12, 0x94643b84, 0x0d6d6a3e, 0x7a6a5aa8, 0xe40ecf0b, 0x9309ff9d, 0x0a00ae27, 0x7d079eb1,
    0xf00f9344, 0x8708a3d2, 0x1e01f268, 0x6906c2fe, 0xf762575d, 0x806567cb, 0x196c3671, 0x6e6b06e7,
    0xfed41b76, 0x89d32be0, 0x10da7a5a, 0x67dd4acc, 0xf9b9df6f, 0x8ebeeff9, 0x17b7be43, 0x60b08ed5,
    0xd6d6a3e8, 0xa1d1937e, 0x38d8c2c4, 0x4fdff252, 0xd1bb67f1, 0xa6bc5767, 0x3fb506dd, 0x48b2364b,
    0xd80d2bda, 0xaf0a1b4c, 0x36034af6, 0x41047a60, 0xdf60efc3, 0xa867df55, 0x316e8eef, 0x4669be79,
    0xcb61b38c, 0xbc66831a, 0x256fd2a0, 0x5268e236, 0xcc0c7795, 0xbb0b4703, 0x220216b9, 0x5505262f,
    0xc5ba3bbe, 0xb2bd0b28, 0x2bb45a92, 0x5cb36a04, 0xc2d7ffa7, 0xb5d0cf31, 0x2cd99e8b, 0x5bdeae1d,
    0x9b64c2b0, 0xec63f226, 0x756aa39c, 0x026d930a, 0x9c0906a9, 0xeb0e363f, 0x72076785, 0x05005713,
    0x95bf4a82, 0xe2b87a14, 0x7bb12bae, 0x0cb61b38, 0x92d28e9b, 0xe5d5be0d, 0x7cdcefb7, 0x0bdbdf21,
    0x86d3d2d4, 0xf1d4e242, 0x68ddb3f8, 0x1fda836e, 0x81be16cd, 0xf6b9265b, 0x6fb077e1, 0x18b74777,
    0x88085ae6, 0xff0f6a70, 0x66063bca, 0x11010b5c, 0x8f659eff, 0xf862ae69, 0x616bffd3, 0x166ccf45,
    0xa00ae278, 0xd70dd2ee, 0x4e048354, 0x3903b3c2, 0xa7672661, 0xd06016f7, 0x4969474d, 0x3e6e77db,
    0xaed16a4a, 0xd9d65adc, 0x40df0b66, 0x37d83bf0, 0xa9bcae53, 0xdebb9ec5, 0x47b2cf7f, 0x30b5ffe9,
    0xbdbdf21c, 0xcabac28a, 0x53b39330, 0x24b4a3a6, 0xbad03605, 0xcdd70693, 0x54de5729, 0x23d967bf,
    0xb3667a2e, 0xc4614ab8, 0x5d681b02, 0x2a6f2b94, 0xb40bbe37, 0xc30c8ea1, 0x5a05df1b, 0x2d02ef8d]"

definition crc32part :: "u8 list \<Rightarrow> u32 \<Rightarrow> u32" where
  "crc32part src crc32val =
     foldl (\<lambda>c b. crc32_tab ! unat ((c AND 0xff) XOR ucast b) XOR drop_bit 8 c) crc32val src"

section \<open>What a checksum register promises\<close>

text \<open>
  The step of a register is linear.  The table of what eight steps do to a byte then doubles: its
  upper half is the lower half, each entry changed by the entry of the new leading bit.
\<close>

lemma word_of_nat_add_power:
  assumes "i < 2 ^ k"
  shows "(word_of_nat (i + 2 ^ k) :: 'w::len word) = push_bit k 1 XOR word_of_nat i"
proof -
  have "take_bit k i = i" using assms by (simp add: take_bit_nat_eq_self_iff)
  moreover have "take_bit k i AND push_bit k 1 = 0"
    by (rule bit_eqI) (auto simp: bit_simps)
  ultimately have "i + push_bit k 1 = i XOR push_bit k 1"
    by (simp only: disjunctive_add_eq_xor)
  then show ?thesis by (simp add: push_bit_eq_mult of_nat_xor_eq xor.commute flip: of_nat_add)
qed

lemma upt_double: "[0..<2 ^ Suc k] = [0..<2 ^ k] @ map (\<lambda>i. i + 2 ^ k) [0..<2 ^ k]"
proof -
  have "[0..<2 ^ Suc k] = [0..<2 ^ k] @ [2 ^ k..<2 ^ k + 2 ^ k]"
    by (simp add: upt_add_eq_append [symmetric] mult_2)
  then show ?thesis by (simp add: map_add_upt)
qed

locale linear_step =
  fixes step :: "'w::len word \<Rightarrow> 'w word"
  assumes step_xor: "step (x XOR y) = step x XOR step y"
begin

lemma step_pow_xor: "(step ^^ n) (x XOR y) = (step ^^ n) x XOR (step ^^ n) y"
  by (induction n arbitrary: x y) (simp_all add: step_xor)

lemma step_pow_0: "(step ^^ n) 0 = 0"
  using step_pow_xor [of n 0 0] by simp

definition table :: "nat \<Rightarrow> 'w word list" where
  "table k = map (\<lambda>i. (step ^^ 8) (word_of_nat i)) [0..<2 ^ k]"

lemma table_0: "table 0 = [0]"
  by (simp add: table_def step_pow_0)

lemma table_Suc: "table (Suc k) = table k @ map (\<lambda>t. (step ^^ 8) (push_bit k 1) XOR t) (table k)"
proof -
  have "(step ^^ 8) (word_of_nat (i + 2 ^ k)) = (step ^^ 8) (push_bit k 1) XOR (step ^^ 8) (word_of_nat i)"
    if "i < 2 ^ k" for i
    using that by (simp only: word_of_nat_add_power step_pow_xor)
  then show ?thesis
    unfolding table_def upt_double map_append map_map o_def by (simp del: of_nat_add push_bit_of_1)
qed

lemma table_8: "table 8 = table (Suc (Suc (Suc (Suc (Suc (Suc (Suc (Suc 0))))))))"
  by (simp add: eval_nat_numeral)

end

locale crc_register = linear_step step
  for step :: "'w::len word \<Rightarrow> 'w word" +
  fixes inject :: "u8 \<Rightarrow> 'w word"
    and add :: "'w word \<Rightarrow> u8 \<Rightarrow> 'w word"
  assumes add_eq: "add c b = (step ^^ 8) (c XOR inject b)"
    and step_inj: "step x = step y \<Longrightarrow> x = y"
    and inject_inj: "inject a = inject b \<Longrightarrow> a = b"
begin

lemma step_pow_inj: "(step ^^ n) x = (step ^^ n) y \<Longrightarrow> x = y"
  by (rule funpow_inj [of step]) (rule step_inj)

lemma add_inj_state: "add c b = add d b \<Longrightarrow> c = d"
  unfolding add_eq by (drule step_pow_inj) (simp add: xor_right_cancel)

lemma add_inj_byte: "add c a = add c b \<Longrightarrow> a = b"
  unfolding add_eq by (drule step_pow_inj) (simp add: xor_left_cancel inject_inj)

lemma fold_inj_state: "foldl add c bs = foldl add d bs \<Longrightarrow> c = d"
  by (induction bs arbitrary: c d) (auto dest: add_inj_state)

lemma middle_byte_detected: "foldl add c (xs @ a # ys) = foldl add c (xs @ b # ys) \<longleftrightarrow> a = b"
  by (auto dest!: fold_inj_state add_inj_byte)

lemma one_byte_detected:
  assumes "i < length bs"
  shows "foldl add c (bs[i := b]) = foldl add c bs \<longleftrightarrow> bs ! i = b"
proof
  assume "foldl add c (bs[i := b]) = foldl add c bs"
  then have "foldl add c (take i bs @ b # drop (Suc i) bs)
      = foldl add c (take i bs @ bs ! i # drop (Suc i) bs)"
    using assms by (simp add: upd_conv_take_nth_drop id_take_nth_drop [symmetric])
  then show "bs ! i = b" by (auto dest!: fold_inj_state add_inj_byte)
next
  assume "bs ! i = b"
  then show "foldl add c (bs[i := b]) = foldl add c bs" by (metis list_update_id)
qed

end

text \<open>
  \<open>slot k b\<close> is where the byte that is added \<open>k\<close> bytes later will meet the register: eight
  steps move it one slot down.  Up to a register width of bytes is then added in one go.
\<close>

locale crc_window = crc_register step inject add
  for step :: "'w::len word \<Rightarrow> 'w word" and inject add +
  fixes slot :: "nat \<Rightarrow> u8 \<Rightarrow> 'w word"
    and get :: "nat \<Rightarrow> 'w word \<Rightarrow> u8"
    and width :: nat
  assumes slot_0: "slot 0 b = inject b"
    and slot_Suc: "Suc k < width \<Longrightarrow> (step ^^ 8) (slot (Suc k) b) = slot k b"
    and get_xor: "get k (x XOR y) = get k x XOR get k y"
    and get_0: "get k 0 = 0"
    and get_slot: "j < width \<Longrightarrow> k < width \<Longrightarrow> get k (slot j b) = (if j = k then b else 0)"
begin

primrec pack :: "nat \<Rightarrow> u8 list \<Rightarrow> 'w word" where
  "pack k [] = 0"
| "pack k (b # bs) = slot k b XOR pack (Suc k) bs"

lemma pack_down: "k + length bs < width \<Longrightarrow> (step ^^ 8) (pack (Suc k) bs) = pack k bs"
  by (induction bs arbitrary: k) (simp_all add: step_pow_xor step_pow_0 slot_Suc)

lemma fold_pack:
  "length bs \<le> width \<Longrightarrow> foldl add c bs = (step ^^ (8 * length bs)) (c XOR pack 0 bs)"
proof (induction bs arbitrary: c)
  case Nil
  then show ?case by simp
next
  case (Cons b bs)
  have "foldl add c (b # bs) = (step ^^ (8 * length bs)) (add c b XOR pack 0 bs)"
    using Cons by simp
  also have "add c b XOR pack 0 bs = (step ^^ 8) (c XOR inject b XOR pack 1 bs)"
    using pack_down [of 0 bs] Cons.prems by (simp add: add_eq step_pow_xor xor.assoc)
  finally have "foldl add c (b # bs)
      = (step ^^ (8 * length bs + 8)) (c XOR inject b XOR pack 1 bs)"
    by (simp add: funpow_add)
  then show ?case by (simp add: slot_0 add.commute xor.assoc)
qed

lemma get_pack:
  "j + length bs \<le> width \<Longrightarrow> k < width \<Longrightarrow>
     get k (pack j bs) = (if j \<le> k \<and> k < j + length bs then bs ! (k - j) else 0)"
  by (induction bs arbitrary: j) (auto simp: get_xor get_0 get_slot nth_Cons' Suc_diff_le)

lemma burst_detected:
  assumes "length as = length bs" and "length bs \<le> width"
    and "foldl add c (xs @ as @ ys) = foldl add c (xs @ bs @ ys)"
  shows "as = bs"
proof (rule nth_equalityI)
  have "foldl add (foldl add c xs) as = foldl add (foldl add c xs) bs"
    by (rule fold_inj_state [of _ ys]) (use assms(3) in simp)
  then have "(step ^^ (8 * length bs)) (foldl add c xs XOR pack 0 as)
      = (step ^^ (8 * length bs)) (foldl add c xs XOR pack 0 bs)"
    using assms(1,2) by (simp add: fold_pack)
  then have "foldl add c xs XOR pack 0 as = foldl add c xs XOR pack 0 bs"
    by (rule step_pow_inj)
  then have eq: "pack 0 as = pack 0 bs" by (simp add: xor_left_cancel)
  fix i assume i: "i < length as"
  then have "get i (pack 0 as) = as ! i" "get i (pack 0 bs) = bs ! i"
    using assms(1,2) by (simp_all add: get_pack)
  then show "as ! i = bs ! i" using eq by simp
qed (rule assms(1))

end

section \<open>The three registers\<close>

text \<open>The least significant bit leaves the CRC-32 register, the most significant one the others.\<close>

lemma neg_and_1: "- (acc AND 1 :: u32) = (if bit acc 0 then -1 else 0)"
  by (auto simp: and_one_eq bit_0 odd_iff_mod_2_eq_one)

lemma crc32_step_eq: "crc32_step x = drop_bit 1 x XOR (if bit x 0 then 0xedb88320 else 0)"
  by (simp add: crc32_step_def Let_def neg_and_1)

lemma crc16_step_eq: "crc16_step x = push_bit 1 x XOR (if bit x 15 then 0x1021 else 0)"
  using bit_iff_and_push_bit_not_eq_0 [of x 15] by (simp add: crc16_step_def)

lemma crc64_step_eq: "crc64_step x = push_bit 1 x XOR (if bit x 63 then 0x42F0E1EBA9EA3693 else 0)"
  using bit_iff_and_push_bit_not_eq_0 [of x 63] by (simp add: crc64_step_def)

lemma bl_crc_bit_eq: "bl_crc_bit = crc32_step"
proof (rule ext)
  fix x show "bl_crc_bit x = crc32_step x"
    using bit_iff_and_push_bit_not_eq_0 [of x 0]
    by (simp add: bl_crc_bit_def crc32_step_eq xor.commute)
qed

lemma msb_step_xor:
  "push_bit 1 (x XOR y) XOR (if bit (x XOR y) n then p else 0) =
     (push_bit 1 x XOR (if bit x n then p else 0)) XOR (push_bit 1 y XOR (if bit y n then p else 0))"
  for x y p :: "'a::len word"
  by (auto simp: bit_eq_iff bit_simps)

lemma lsb_step_xor:
  "drop_bit 1 (x XOR y) XOR (if bit (x XOR y) 0 then p else 0) =
     (drop_bit 1 x XOR (if bit x 0 then p else 0)) XOR (drop_bit 1 y XOR (if bit y 0 then p else 0))"
  for x y p :: "'a::len word"
  by (auto simp: bit_eq_iff bit_simps)

lemma msb_step_inj:
  fixes x y p :: "'a::len word"
  assumes eq: "push_bit 1 x XOR (if bit x n then p else 0) = push_bit 1 y XOR (if bit y n then p else 0)"
    and "bit p 0" and n: "Suc n = LENGTH('a)"
  shows "x = y"
proof -
  have "bit x n = bit y n"
    using arg_cong [OF eq, of "\<lambda>w. bit w 0"] \<open>bit p 0\<close>
    by (auto simp: bit_xor_iff bit_0 even_xor_iff split: if_splits)
  then have low: "push_bit 1 x = push_bit 1 y" using eq by (simp add: xor_right_cancel)
  show ?thesis
  proof (rule bit_word_eqI)
    fix k assume "k < LENGTH('a)"
    then consider "k = n" | "Suc k < LENGTH('a)" using n by linarith
    then show "bit x k = bit y k"
    proof cases
      case 1
      then show ?thesis using \<open>bit x n = bit y n\<close> by simp
    next
      case 2
      then have "bit (push_bit 1 z) (Suc k) = bit z k" for z :: "'a word"
        by (subst bit_push_bit_iff) simp
      then show ?thesis using low by metis
    qed
  qed
qed

lemma lsb_step_inj:
  fixes x y p :: "'a::len word"
  assumes eq: "drop_bit 1 x XOR (if bit x 0 then p else 0) = drop_bit 1 y XOR (if bit y 0 then p else 0)"
    and "bit p n" and n: "Suc n = LENGTH('a)"
  shows "x = y"
proof -
  have top: "\<not> bit z (Suc n)" for z :: "'a word" using n by (auto dest: bit_imp_le_length)
  have "bit x 0 = bit y 0"
    using arg_cong [OF eq, of "\<lambda>w. bit w n"] \<open>bit p n\<close> n top
    by (auto simp: bit_simps split: if_splits)
  then have high: "drop_bit 1 x = drop_bit 1 y" using eq by (simp add: xor_right_cancel)
  show ?thesis
  proof (rule bit_word_eqI)
    fix k
    show "bit x k = bit y k"
      using \<open>bit x 0 = bit y 0\<close> arg_cong [OF high, of "\<lambda>w. bit w (k - 1)"]
      by (cases k) (auto simp: bit_simps)
  qed
qed


text \<open>A register in which no bit reaches the feedback end just shifts.\<close>

lemma crc32_pow_shift: "(\<And>k. k < n \<Longrightarrow> \<not> bit x k) \<Longrightarrow> (crc32_step ^^ n) x = drop_bit n x"
proof (induction n)
  case 0
  then show ?case by simp
next
  case (Suc n)
  then have "(crc32_step ^^ n) x = drop_bit n x" by simp
  moreover have "\<not> bit (drop_bit n x) 0" using Suc.prems [of n] by (simp add: bit_simps)
  ultimately show ?case using crc32_step_eq [of "drop_bit n x"] by simp
qed

lemma crc16_pow_shift: "(\<And>k. 16 \<le> k + n \<Longrightarrow> \<not> bit x k) \<Longrightarrow> (crc16_step ^^ n) x = push_bit n x"
proof (induction n)
  case 0
  then show ?case by simp
next
  case (Suc n)
  then have "(crc16_step ^^ n) x = push_bit n x" by simp
  moreover have "\<not> bit (push_bit n x) 15" using Suc.prems [of "15 - n"] by (auto simp: bit_simps)
  ultimately show ?case using crc16_step_eq [of "push_bit n x"] by simp
qed

lemma crc64_pow_shift: "(\<And>k. 64 \<le> k + n \<Longrightarrow> \<not> bit x k) \<Longrightarrow> (crc64_step ^^ n) x = push_bit n x"
proof (induction n)
  case 0
  then show ?case by simp
next
  case (Suc n)
  then have "(crc64_step ^^ n) x = push_bit n x" by simp
  moreover have "\<not> bit (push_bit n x) 63" using Suc.prems [of "63 - n"] by (auto simp: bit_simps)
  ultimately show ?case using crc64_step_eq [of "push_bit n x"] by simp
qed

lemma get_push_slot:
  fixes b :: u8
  assumes "8 * j + 8 \<le> LENGTH('w::len)"
  shows "ucast (drop_bit (8 * k) (push_bit (8 * j) (ucast b :: 'w word))) = (if j = k then b else 0 :: u8)"
proof (rule bit_word_eqI)
  fix n assume "n < LENGTH(8)"
  then have n: "n < 8" by simp
  show "bit (ucast (drop_bit (8 * k) (push_bit (8 * j) (ucast b :: 'w word))) :: u8) n
      = bit (if j = k then b else 0 :: u8) n"
  proof (cases "j = k")
    case True
    then show ?thesis using n assms by (auto simp: bit_simps)
  next
    case False
    then consider "k < j" | "j < k" by linarith
    then show ?thesis
    proof cases
      case 1
      then have "8 * k + 8 \<le> 8 * j" by linarith
      then show ?thesis using n False by (auto simp: bit_simps)
    next
      case 2
      then have "8 \<le> 8 * k + n - 8 * j" by linarith
      then show ?thesis using n False by (auto simp: bit_simps bit_u8_beyond)
    qed
  qed
qed

lemma slot_inj:
  fixes a b :: u8
  assumes "push_bit (8 * j) (ucast a :: 'w word) = push_bit (8 * j) (ucast b)"
    and "8 * j + 8 \<le> LENGTH('w::len)"
  shows "a = b"
  using arg_cong [OF assms(1), of "\<lambda>w. ucast (drop_bit (8 * j) w) :: u8"]
    get_push_slot [OF assms(2), of j a] get_push_slot [OF assms(2), of j b] by simp

lemma get_xor_slot: "ucast (drop_bit n (x XOR y)) = (ucast (drop_bit n x) XOR ucast (drop_bit n y) :: u8)"
  for x y :: "'w::len word"
  by (auto intro!: bit_word_eqI simp: bit_simps)

interpretation crc32r: crc_window crc32_step "\<lambda>b. ucast b" crc32_byte
  "\<lambda>k b. push_bit (8 * k) (ucast b)" "\<lambda>k w. ucast (drop_bit (8 * k) w)" 4
proof (unfold_locales, goal_cases)
  case (2 c b) show ?case by (rule crc32_byte_def)
next
  case (1 x y) show ?case unfolding crc32_step_eq by (rule lsb_step_xor)
next
  case (3 x y) then show ?case unfolding crc32_step_eq by (rule lsb_step_inj [where n = 31]) simp_all
next
  case (4 a b) then show ?case using slot_inj [of 0 a b, where 'w = 32] by simp
next
  case (5 b) show ?case by simp
next
  case (6 k b)
  have "(crc32_step ^^ 8) (push_bit (8 * Suc k) (ucast b)) = drop_bit 8 (push_bit (8 * Suc k) (ucast b))"
    by (rule crc32_pow_shift) (simp add: bit_simps)
  also have "\<dots> = push_bit (8 * k) (ucast b)"
    using 6 by (auto intro!: bit_word_eqI simp: bit_simps dest!: bit_u8D)
  finally show ?case .
next
  case (7 k x y) show ?case by (rule get_xor_slot)
next
  case (8 k) show ?case by simp
next
  case (9 j k b) then show ?case by (intro get_push_slot) simp
qed

interpretation crc16r: crc_window crc16_step "\<lambda>b. push_bit 8 (ucast b)" crc16_add
  "\<lambda>k b. push_bit (8 * (1 - k)) (ucast b)" "\<lambda>k w. ucast (drop_bit (8 * (1 - k)) w)" 2
proof (unfold_locales, goal_cases)
  case (2 c b) show ?case by (rule crc16_add_def)
next
  case (1 x y) show ?case unfolding crc16_step_eq by (rule msb_step_xor)
next
  case (3 x y) then show ?case unfolding crc16_step_eq by (rule msb_step_inj [where n = 15]) simp_all
next
  case (4 a b) then show ?case using slot_inj [of 1 a b, where 'w = 16] by simp
next
  case (5 b) show ?case by simp
next
  case (6 k b)
  then have "k = 0" by simp
  moreover have "(crc16_step ^^ 8) (ucast b) = push_bit 8 (ucast b)"
    by (rule crc16_pow_shift) (simp add: bit_simps bit_u8_beyond)
  ultimately show ?case by simp
next
  case (7 k x y) show ?case by (rule get_xor_slot)
next
  case (8 k) show ?case by simp
next
  case (9 j k b)
  then have "(1 - j = 1 - k) = (j = k)" by auto
  then show ?case using get_push_slot [of "1 - j" "1 - k" b, where 'w = 16] by simp
qed

interpretation crc64r: crc_window crc64_step "\<lambda>b. push_bit 56 (ucast b)" crc64_byte
  "\<lambda>k b. push_bit (8 * (7 - k)) (ucast b)" "\<lambda>k w. ucast (drop_bit (8 * (7 - k)) w)" 8
proof (unfold_locales, goal_cases)
  case (2 c b) show ?case by (rule crc64_byte_def)
next
  case (1 x y) show ?case unfolding crc64_step_eq by (rule msb_step_xor)
next
  case (3 x y) then show ?case unfolding crc64_step_eq by (rule msb_step_inj [where n = 63]) simp_all
next
  case (4 a b) then show ?case using slot_inj [of 7 a b, where 'w = 64] by simp
next
  case (5 b) show ?case by simp
next
  case (6 k b)
  then have k: "8 * (7 - k) = 8 * (7 - Suc k) + 8" by linarith
  have "(crc64_step ^^ 8) (push_bit (8 * (7 - Suc k)) (ucast b)) = push_bit 8 (push_bit (8 * (7 - Suc k)) (ucast b))"
    by (rule crc64_pow_shift) (auto simp: bit_simps bit_u8_beyond)
  then show ?case using k by (simp add: push_bit_push_bit add.commute)
next
  case (7 k x y) show ?case by (rule get_xor_slot)
next
  case (8 k) show ?case by simp
next
  case (9 j k b)
  then have "(7 - j = 7 - k) = (j = k)" by auto
  then show ?case using get_push_slot [of "7 - j" "7 - k" b, where 'w = 64] by simp
qed

section \<open>The table and the signatures\<close>

lemma crc32_signature_append:
  "crc32_signature acc (length xs + length ys) (xs @ ys)
     = crc32_signature (crc32_signature acc (length xs) xs) (length ys) ys"
  by (simp add: crc32_signature_def)

lemma crc32_signature_all: "crc32_signature acc (length bs) bs = foldl crc32_byte acc bs"
  by (simp add: crc32_signature_def)

lemma crc16_signature_all: "crc16_signature acc (length bs) bs = foldl crc16_add acc bs"
  by (simp add: crc16_signature_def CRC16_OUTPUT_XOR_def)

lemma crctab_byte:
  "bl_crctab ! unat ((s XOR ucast b) AND 0xff) XOR drop_bit 8 s = crc32_byte s b"
proof -
  let ?x = "s XOR ucast b"
  have "unat (?x AND 0xff) \<le> unat (0xff :: u32)"
    by (rule word_and_le1 [THEN word_le_nat_alt [THEN iffD1]])
  then have tab: "bl_crctab ! unat (?x AND 0xff) = (crc32_step ^^ 8) (?x AND 0xff)"
    by (simp add: bl_crctab_def bl_crc_bit_eq)
  have split: "?x = (?x AND 0xff) XOR (?x AND NOT 0xff)"
    by (auto simp: bit_eq_iff bit_simps bit_0xff)
  have "crc32_byte s b = (crc32_step ^^ 8) ((?x AND 0xff) XOR (?x AND NOT 0xff))"
    unfolding crc32_byte_def by (subst split) (rule refl)
  also have "\<dots> = bl_crctab ! unat (?x AND 0xff) XOR (crc32_step ^^ 8) (?x AND NOT 0xff)"
    by (simp add: crc32r.step_pow_xor tab)
  also have "(crc32_step ^^ 8) (?x AND NOT 0xff) = drop_bit 8 (?x AND NOT 0xff)"
    by (rule crc32_pow_shift) (unfold bit_and_iff bit_not_iff bit_0xff, simp)
  also have "drop_bit 8 (?x AND NOT 0xff) = drop_bit 8 s"
    unfolding bit_eq_iff bit_drop_bit_eq o_apply bit_and_iff bit_not_iff bit_0xff
    by (auto simp: bit_simps bit_u8_beyond dest: bit_imp_le_length)
  finally show ?thesis by simp
qed

lemma crc32_powers:
  "(crc32_step ^^ 8) (push_bit 0 1) = 0x77073096" "(crc32_step ^^ 8) (push_bit (Suc 0) 1) = 0xee0e612c"
  "(crc32_step ^^ 8) (push_bit 2 1) = 0x076dc419" "(crc32_step ^^ 8) (push_bit 3 1) = 0x0edb8832"
  "(crc32_step ^^ 8) (push_bit 4 1) = 0x1db71064" "(crc32_step ^^ 8) (push_bit 5 1) = 0x3b6e20c8"
  "(crc32_step ^^ 8) (push_bit 6 1) = 0x76dc4190" "(crc32_step ^^ 8) (push_bit 7 1) = 0xedb88320"
  unfolding funpow_8 by (simp_all add: crc32_step_eq bit_numeral_rec)

lemma crc32_tab_eq: "crc32_tab = bl_crctab"
proof -
  have "bl_crctab = crc32r.table 8"
    by (simp add: bl_crctab_def crc32r.table_def bl_crc_bit_eq)
  also have "\<dots> = crc32_tab"
    unfolding crc32r.table_8 crc32r.table_Suc crc32r.table_0 crc32_tab_def
    using crc32_powers by (simp add: eval_nat_numeral)
  finally show ?thesis by (rule sym)
qed

lemma crc32_index: "(c AND 0xff) XOR ucast (b :: u8) = (c XOR ucast b) AND (0xff :: u32)"
proof (rule bit_word_eqI)
  fix n
  show "bit ((c AND 0xff) XOR ucast b) n = bit ((c XOR ucast b) AND 0xff) n"
    unfolding bit_xor_iff bit_and_iff bit_0xff by (auto simp: bit_simps dest: bit_u8D)
qed

lemma crc32part_eq: "crc32part src c = foldl crc32_byte c src"
proof -
  have "(\<lambda>c b. crc32_tab ! unat ((c AND 0xff) XOR ucast b) XOR drop_bit 8 c) = crc32_byte"
    by (intro ext) (simp only: crc32_tab_eq crc32_index crctab_byte)
  then show ?thesis by (simp only: crc32part_def)
qed

text \<open>
  The published check values of the two catalogued registers, over the digits 1 to 9.
\<close>

lemma crc16_check_value:
  "crc16_signature CRC16_INITIAL 9 [0x31, 0x32, 0x33, 0x34, 0x35, 0x36, 0x37, 0x38, 0x39] = 0x29B1"
  by (simp add: crc16_signature_def crc16_add_def crc16_step_def funpow_8 CRC16_INITIAL_def
      CRC16_OUTPUT_XOR_def)

lemma crc64_check_value:
  "foldl crc64_byte CRC64_INITIAL [0x31, 0x32, 0x33, 0x34, 0x35, 0x36, 0x37, 0x38, 0x39]
     XOR CRC64_OUTPUT_XOR = 0x62EC59E3F1A4F00A"
  by (simp add: crc64_byte_def crc64_step_def funpow_8 CRC64_INITIAL_def CRC64_OUTPUT_XOR_def)

section \<open>Properties\<close>

text \<open>
  C12. The table driven checksum of the serial bootloader computes, byte for byte, the bitwise
  CRC-32 of the system library, whether this call generates its table or finds it generated,
  and it leaves the generated table behind.
\<close>

theorem bl_crc32_is_crc32_signature:
  assumes "crctab ! 1 = 0 \<or> crctab = bl_crctab"
  shows "bl_crc32 src state crctab = (crc32_signature state (length src) src, bl_crctab)"
proof -
  have "(\<lambda>s b. bl_crctab ! unat ((s XOR ucast b) AND 0xff) XOR drop_bit 8 s) = crc32_byte"
    by (intro ext) (rule crctab_byte)
  then show ?thesis using assms by (auto simp: bl_crc32_def Let_def crc32_signature_all)
qed

theorem bl_crc32_is_crc32_signature_witness:
  "crctab_zero ! 1 = 0 \<and>
   bl_crc32 [0x31, 0x32] 0 crctab_zero = (crc32_signature 0 2 [0x31, 0x32], bl_crctab)"
  using bl_crc32_is_crc32_signature [of crctab_zero "[0x31, 0x32]" 0]
  by (simp add: crctab_zero_def numeral_2_eq_2)

text \<open>
  The table driven checksum of the C library, whose table is a constant of 256 entries, is
  the bitwise CRC-32 of the system library as well.
\<close>

theorem crc32part_is_crc32_signature: "crc32part src c = crc32_signature c (length src) src"
  unfolding crc32_signature_all by (rule crc32part_eq)

text \<open>
  C13. The CRC-32 that guards firmware blocks detects every error burst of up to four bytes:
  two images that differ only inside a window of at most four bytes have the same signature
  exactly when they are equal.
\<close>

theorem crc32_detects_burst:
  assumes "length as = length bs" and "length bs \<le> 4"
  shows "crc32_signature acc (length (xs @ as @ ys)) (xs @ as @ ys)
       = crc32_signature acc (length (xs @ bs @ ys)) (xs @ bs @ ys) \<longleftrightarrow> as = bs"
  unfolding crc32_signature_all by (rule iffI, rule crc32r.burst_detected [OF assms]) simp_all

theorem crc32_detects_burst_witness:
  "crc32_signature 0 (length [1, 2, 3, 4, 5, 6, 7 :: u8]) [1, 2, 3, 4, 5, 6, 7]
     \<noteq> crc32_signature 0 (length [1, 2, 0xff, 0, 0, 0xff, 7 :: u8]) [1, 2, 0xff, 0, 0, 0xff, 7]"
  using crc32_detects_burst [of "[3, 4, 5, 6]" "[0xff, 0, 0, 0xff]" 0 "[1, 2]" "[7]"] by simp

text \<open>
  The CRC-16 of a multi-frame CAN transfer detects every error burst of up to two bytes
  in the payload.
\<close>

lemma crc16_detects_burst:
  assumes "length as = length bs" and "length bs \<le> 2"
  shows "crc16_signature initial (length (xs @ as @ ys)) (xs @ as @ ys)
       = crc16_signature initial (length (xs @ bs @ ys)) (xs @ bs @ ys) \<longleftrightarrow> as = bs"
  unfolding crc16_signature_all by (rule iffI, rule crc16r.burst_detected [OF assms]) simp_all

end
