(* ===== verification/App_Shared.thy ===== *)
theory App_Shared
  imports Crc
begin

text \<open>
  The mailbox in which a bootloader and an application leave each other the bus speed and
  the node id across a reset: \<open>src/drivers/bootloaders/boot_app_shared.c\<close>.  The five CAN
  filter registers it lives in (\<open>signature_LOC\<close>, \<open>bus_speed_LOC\<close>, \<open>node_id_LOC\<close>,
  \<open>crc_LoLOC\<close>, \<open>crc_HiLOC\<close>) are the record \<open>shared_regs\<close>; an operation takes the registers
  and returns them.  The locale \<open>mailbox\<close> is the contract that both sides rely on.
\<close>

section \<open>Definitions\<close>

datatype eRole = Invalid | App | BootLoader

record bootloader_app_shared =
  sh_crc :: u64
  sh_signature :: u32
  sh_bus_speed :: u32
  sh_node_id :: u32

record shared_regs =
  signature_LOC :: u32
  bus_speed_LOC :: u32
  node_id_LOC :: u32
  crc_LoLOC :: u32
  crc_HiLOC :: u32

definition BOOTLOADER_COMMON_APP_SIGNATURE :: u32 where
  "BOOTLOADER_COMMON_APP_SIGNATURE = 0xB0A04150"
definition BOOTLOADER_COMMON_BOOTLOADER_SIGNATURE :: u32 where
  "BOOTLOADER_COMMON_BOOTLOADER_SIGNATURE = 0xB0A0424C"

text \<open>The two halves of the union \<open>crc\<close>: \<open>ul[CRC_L]\<close> and \<open>ul[CRC_H]\<close>.\<close>

definition crc_ul_L :: "u64 \<Rightarrow> u32" where "crc_ul_L ull = ucast ull"
definition crc_ul_H :: "u64 \<Rightarrow> u32" where "crc_ul_H ull = ucast (drop_bit 32 ull)"
definition crc_ull :: "u32 \<Rightarrow> u32 \<Rightarrow> u64" where "crc_ull l h = ucast l OR push_bit 32 (ucast h)"

definition shared_read :: "shared_regs \<Rightarrow> bootloader_app_shared" where
  "shared_read r = \<lparr>sh_crc = crc_ull (crc_LoLOC r) (crc_HiLOC r), sh_signature = signature_LOC r,
     sh_bus_speed = bus_speed_LOC r, sh_node_id = node_id_LOC r\<rparr>"

definition shared_write :: "bootloader_app_shared \<Rightarrow> shared_regs" where
  "shared_write p = \<lparr>signature_LOC = sh_signature p, bus_speed_LOC = sh_bus_speed p,
     node_id_LOC = sh_node_id p, crc_LoLOC = crc_ul_L (sh_crc p), crc_HiLOC = crc_ul_H (sh_crc p)\<rparr>"

definition calulate_signature :: "bootloader_app_shared \<Rightarrow> u64" where
  "calulate_signature p =
     (let crc = crc64_add_word CRC64_INITIAL (sh_signature p);
          crc = crc64_add_word crc (sh_bus_speed p);
          crc = crc64_add_word crc (sh_node_id p)
      in crc XOR CRC64_OUTPUT_XOR)"

definition bootloader_app_shared_init :: "eRole \<Rightarrow> bootloader_app_shared" where
  "bootloader_app_shared_init role =
     (let p = \<lparr>sh_crc = 0, sh_signature = 0, sh_bus_speed = 0, sh_node_id = 0\<rparr>
      in if role \<noteq> Invalid
         then p\<lparr>sh_signature := (if role = App then BOOTLOADER_COMMON_APP_SIGNATURE
                                 else BOOTLOADER_COMMON_BOOTLOADER_SIGNATURE)\<rparr>
         else p)"

text \<open>
  The caller's structure is an argument and a result, since it is written only on success;
  the boolean is the return value, true for \<open>OK\<close> and false for \<open>-EBADR\<close>.
\<close>

definition bootloader_app_shared_read ::
  "bootloader_app_shared \<Rightarrow> eRole \<Rightarrow> shared_regs \<Rightarrow> bool \<times> bootloader_app_shared" where
  "bootloader_app_shared_read shared role regs =
     (let working = shared_read regs
      in if (if role = App then sh_signature working = BOOTLOADER_COMMON_APP_SIGNATURE
             else sh_signature working = BOOTLOADER_COMMON_BOOTLOADER_SIGNATURE)
            \<and> sh_crc working = calulate_signature working
         then (True, working) else (False, shared))"

definition bootloader_app_shared_write ::
  "bootloader_app_shared \<Rightarrow> eRole \<Rightarrow> shared_regs \<Rightarrow> shared_regs" where
  "bootloader_app_shared_write shared role regs =
     (let working = shared\<lparr>sh_signature := (if role = App then BOOTLOADER_COMMON_APP_SIGNATURE
                                           else BOOTLOADER_COMMON_BOOTLOADER_SIGNATURE)\<rparr>
      in shared_write (working\<lparr>sh_crc := calulate_signature working\<rparr>))"

definition bootloader_app_shared_invalidate :: "shared_regs \<Rightarrow> shared_regs" where
  "bootloader_app_shared_invalidate regs = shared_write (bootloader_app_shared_init Invalid)"

section \<open>The contract of a mailbox\<close>

text \<open>
  A message of one side is what the other side reads, a message is never taken for one of
  one's own, and nothing is read after an invalidation.
\<close>

locale mailbox =
  fixes post :: "'m \<Rightarrow> 'side \<Rightarrow> 's \<Rightarrow> 's"
    and fetch :: "'side \<Rightarrow> 's \<Rightarrow> 'm option"
    and wipe :: "'s \<Rightarrow> 's"
    and payload :: "'m \<Rightarrow> 'p"
  assumes fetch_post: "map_option payload (fetch a (post m b s)) = (if a = b then Some (payload m) else None)"
    and fetch_wipe: "fetch a (wipe s) = None"
begin

lemma relay:
  assumes "fetch a s = Some m" and "a \<noteq> b"
  shows "map_option payload (fetch b (post m b (wipe s))) = Some (payload m)
    \<and> fetch a (post m b (wipe s)) = None"
  using assms fetch_post [of b m b "wipe s"] fetch_post [of a m b "wipe s"] by simp

end

section \<open>Lemmas\<close>

lemma crc_ull_halves [simp]: "crc_ull (crc_ul_L x) (crc_ul_H x) = x"
  by (auto simp: crc_ull_def crc_ul_L_def crc_ul_H_def bit_eq_iff bit_simps)

lemma shared_read_write [simp]: "shared_read (shared_write p) = p"
  by (simp add: shared_read_def shared_write_def)

lemma calulate_signature_fold:
  "calulate_signature p =
     foldl crc64_byte CRC64_INITIAL
       (bytes_of_u32 (sh_signature p) @ (bytes_of_u32 (sh_bus_speed p) @ bytes_of_u32 (sh_node_id p)) @ [])
     XOR CRC64_OUTPUT_XOR"
  by (simp add: calulate_signature_def Let_def crc64_add_word_def)

lemma calulate_signature_crc_irrelevant [simp]:
  "calulate_signature (p\<lparr>sh_crc := c\<rparr>) = calulate_signature p"
  by (simp add: calulate_signature_def)

lemma calulate_signature_inj:
  assumes "sh_signature p = sh_signature q" and "calulate_signature p = calulate_signature q"
  shows "sh_bus_speed p = sh_bus_speed q \<and> sh_node_id p = sh_node_id q"
proof -
  let ?bs = "\<lambda>p. bytes_of_u32 (sh_bus_speed p) @ bytes_of_u32 (sh_node_id p)"
  have "foldl crc64_byte CRC64_INITIAL (bytes_of_u32 (sh_signature q) @ ?bs p @ [])
      = foldl crc64_byte CRC64_INITIAL (bytes_of_u32 (sh_signature q) @ ?bs q @ [])"
    using assms unfolding calulate_signature_fold xor_right_cancel by simp
  then have "?bs p = ?bs q" by (rule crc64r.burst_detected [rotated 2]) simp_all
  then show ?thesis by (simp add: bytes_of_u32_inject)
qed

lemma signatures_differ: "BOOTLOADER_COMMON_APP_SIGNATURE \<noteq> BOOTLOADER_COMMON_BOOTLOADER_SIGNATURE"
  "BOOTLOADER_COMMON_APP_SIGNATURE \<noteq> 0" "BOOTLOADER_COMMON_BOOTLOADER_SIGNATURE \<noteq> 0"
  by (simp_all add: BOOTLOADER_COMMON_APP_SIGNATURE_def BOOTLOADER_COMMON_BOOTLOADER_SIGNATURE_def)

lemma app_shared_read_write:
  "bootloader_app_shared_read out a (bootloader_app_shared_write p b regs) =
     (if (a = App) = (b = App)
      then (True, p\<lparr>sh_signature := sh_signature (bootloader_app_shared_init b),
                    sh_crc := calulate_signature
                      (p\<lparr>sh_signature := sh_signature (bootloader_app_shared_init b)\<rparr>)\<rparr>)
      else (False, out))" if "b \<noteq> Invalid"
  using that signatures_differ
  by (auto simp: bootloader_app_shared_read_def bootloader_app_shared_write_def Let_def
      bootloader_app_shared_init_def)

lemma app_shared_read_invalidated:
  "bootloader_app_shared_read out a (bootloader_app_shared_invalidate regs) = (False, out)"
  using signatures_differ
  by (auto simp: bootloader_app_shared_read_def bootloader_app_shared_invalidate_def Let_def
      bootloader_app_shared_init_def)

text \<open>
  The two sides as a boolean (is it the application), and a read as an option that carries
  the structure it delivers.
\<close>

definition side_role :: "bool \<Rightarrow> eRole" where
  "side_role app = (if app then App else BootLoader)"

definition shared_fetch :: "bool \<Rightarrow> shared_regs \<Rightarrow> bootloader_app_shared option" where
  "shared_fetch app regs =
     (let (ok, m) = bootloader_app_shared_read (bootloader_app_shared_init Invalid) (side_role app) regs
      in if ok then Some m else None)"

interpretation shmail: mailbox "\<lambda>m app. bootloader_app_shared_write m (side_role app)" shared_fetch
  bootloader_app_shared_invalidate "\<lambda>m. (sh_bus_speed m, sh_node_id m)"
proof
  fix a b m s
  show "map_option (\<lambda>m. (sh_bus_speed m, sh_node_id m))
          (shared_fetch a (bootloader_app_shared_write m (side_role b) s))
        = (if a = b then Some (sh_bus_speed m, sh_node_id m) else None)"
    by (simp add: shared_fetch_def side_role_def app_shared_read_write)
next
  fix a s
  show "shared_fetch a (bootloader_app_shared_invalidate s) = None"
    by (simp add: shared_fetch_def app_shared_read_invalidated)
qed

section \<open>Properties\<close>

text \<open>
  The hand-over between bootloader and application: what one side writes is what a reader
  of that role gets (bus speed and node id), a reader of the other role gets \<open>-EBADR\<close> with its
  structure untouched, and after \<open>bootloader_app_shared_invalidate\<close> every reader gets \<open>-EBADR\<close>.
\<close>

theorem app_shared_handover:
  "(let (ok, m) = bootloader_app_shared_read out (side_role a)
                    (bootloader_app_shared_write p (side_role b) regs)
    in (ok = (a = b)) \<and>
       (if ok then sh_bus_speed m = sh_bus_speed p \<and> sh_node_id m = sh_node_id p else m = out)) \<and>
   bootloader_app_shared_read out role (bootloader_app_shared_invalidate regs) = (False, out)"
  by (simp add: side_role_def app_shared_read_write app_shared_read_invalidated)

text \<open>
  A corrupted hand-over is rejected: when the signature and checksum registers still hold
  what was written, the reader accepts exactly when the bus speed and the node id are those
  that were written, whatever happened to these two registers.
\<close>

theorem app_shared_detects_corruption:
  "fst (bootloader_app_shared_read out (side_role a)
     ((bootloader_app_shared_write p (side_role a) regs)\<lparr>bus_speed_LOC := s, node_id_LOC := n\<rparr>))
   \<longleftrightarrow> s = sh_bus_speed p \<and> n = sh_node_id p"
proof -
  let ?w = "p\<lparr>sh_signature := sh_signature (bootloader_app_shared_init (side_role a))\<rparr>"
  let ?c = "?w\<lparr>sh_bus_speed := s, sh_node_id := n\<rparr>"
  have "calulate_signature ?w = calulate_signature ?c \<longleftrightarrow> s = sh_bus_speed p \<and> n = sh_node_id p"
  proof
    assume "calulate_signature ?w = calulate_signature ?c"
    then show "s = sh_bus_speed p \<and> n = sh_node_id p"
      using calulate_signature_inj [of ?w ?c] by simp
  qed simp
  moreover have "calulate_signature (shared_read ((bootloader_app_shared_write p (side_role a) regs)
      \<lparr>bus_speed_LOC := s, node_id_LOC := n\<rparr>)) = calulate_signature ?c"
    by (simp add: calulate_signature_def shared_read_def bootloader_app_shared_write_def Let_def
        shared_write_def bootloader_app_shared_init_def side_role_def)
  ultimately show ?thesis
    by (cases a) (auto simp: bootloader_app_shared_read_def bootloader_app_shared_write_def Let_def
        shared_read_def shared_write_def bootloader_app_shared_init_def side_role_def)
qed

end
