(* ===== verification/Bl_Timer.thy ===== *)
theory Bl_Timer
  imports Px4_Prelude
begin

text \<open>
  The timers that schedule the CAN bootloader: \<open>canbootloader/sched/timer.c\<close>.  The static
  array \<open>timers\<close> and the counter \<open>sys_tic\<close> are the record \<open>bl_sched\<close>, whose last field is
  whatever the callbacks act on.  A callback is a value of a type of the client's; the
  argument \<open>call\<close> of the tick says what calling it does, to the timers as well.
  Every operation runs inside a critical section of the source, so each is one step.
\<close>

section \<open>Definitions\<close>

record 'cb bl_timer =
  tm_cb :: "'cb option"
  tm_context :: u32
  tm_count :: u32
  tm_reload :: u32
  tm_ctl :: u32

record ('cb, 'e) bl_sched =
  sys_tic :: u32
  timers :: "'cb bl_timer list"
  bl_env :: 'e

definition modeOneShot :: u32 where "modeOneShot = 1"
definition modeRepeating :: u32 where "modeRepeating = 2"
definition modeTimeout :: u32 where "modeTimeout = 3"
definition modeMsk :: u32 where "modeMsk = 0x3"
definition running :: u32 where "running = 0x40"
definition inuse :: u32 where "inuse = 0x80"

lemmas timer_flags = modeOneShot_def modeRepeating_def modeTimeout_def modeMsk_def running_def inuse_def

definition zero_timer :: "'cb bl_timer" where
  "zero_timer = \<lparr>tm_cb = None, tm_context = 0, tm_count = 0, tm_reload = 0, tm_ctl = 0\<rparr>"

definition put_timer :: "nat \<Rightarrow> ('cb bl_timer \<Rightarrow> 'cb bl_timer) \<Rightarrow> ('cb, 'e) bl_sched \<Rightarrow> ('cb, 'e) bl_sched" where
  "put_timer t f s = s\<lparr>timers := (timers s)[t := f (timers s ! t)]\<rparr>"

definition timer_tic :: "('cb, 'e) bl_sched \<Rightarrow> u32" where
  "timer_tic s = sys_tic s"

type_synonym ('cb, 'e) cb_call = "'cb \<Rightarrow> nat \<Rightarrow> u32 \<Rightarrow> ('cb, 'e) bl_sched \<Rightarrow> ('cb, 'e) bl_sched"

definition call_user :: "('cb, 'e) cb_call \<Rightarrow> 'cb bl_timer \<Rightarrow> nat \<Rightarrow> ('cb, 'e) bl_sched \<Rightarrow> ('cb, 'e) bl_sched" where
  "call_user call user t s = (case tm_cb user of None \<Rightarrow> s | Some f \<Rightarrow> call f t (tm_context user) s)"

text \<open>The body of the loop for one timer, then the loop from the last timer to the first.\<close>

definition process_timer ::
  "('cb, 'e) cb_call \<Rightarrow> u32 \<Rightarrow> nat \<Rightarrow> ('cb, 'e) bl_sched \<Rightarrow> ('cb, 'e) bl_sched" where
  "process_timer call ms_elapsed t s =
     (let tm = timers s ! t in
      if tm_ctl tm AND (inuse OR running) = inuse OR running then
        if tm_count tm \<noteq> 0 then
          if tm_count tm > ms_elapsed then put_timer t (\<lambda>tm. tm\<lparr>tm_count := tm_count tm - ms_elapsed\<rparr>) s
          else
            let s = put_timer t (\<lambda>tm. tm\<lparr>tm_count := 0\<rparr>) s;
                mode = tm_ctl tm AND NOT (inuse OR running) in
            if mode = modeOneShot then
              call_user call (timers s ! t) t (put_timer t (\<lambda>_. zero_timer) s)
            else if mode = modeRepeating then
              let s = put_timer t (\<lambda>tm. tm\<lparr>tm_count := tm_reload tm\<rparr>) s
              in call_user call (timers s ! t) t s
            else if mode = modeTimeout then call_user call (timers s ! t) t s
            else s
        else s
      else s)"

definition nxsched_process_timer ::
  "('cb, 'e) cb_call \<Rightarrow> u32 \<Rightarrow> ('cb, 'e) bl_sched \<Rightarrow> ('cb, 'e) bl_sched" where
  "nxsched_process_timer call ms_elapsed s =
     foldl (\<lambda>s t. process_timer call ms_elapsed t s) (s\<lparr>sys_tic := sys_tic s + 1\<rparr>)
       (rev [0..<length (timers s)])"

text \<open>
  The scan of \<open>timer_allocate\<close> runs from the last slot to the first; an exhausted scan leaves
  the unsigned 8-bit index at its wrap-around, 255.
\<close>

fun free_timer :: "'cb bl_timer list \<Rightarrow> nat \<Rightarrow> nat option" where
  "free_timer ts 0 = None"
| "free_timer ts (Suc t) = (if tm_ctl (ts ! t) AND inuse = 0 then Some t else free_timer ts t)"

definition timer_allocate ::
  "u32 \<Rightarrow> u32 \<Rightarrow> ('cb \<times> u32) option \<Rightarrow> ('cb, 'e) bl_sched \<Rightarrow> u8 \<times> ('cb, 'e) bl_sched" where
  "timer_allocate mode msfromnow fc s =
     (case free_timer (timers s) (length (timers s)) of
        None \<Rightarrow> (-1, s)
      | Some t \<Rightarrow> (word_of_nat t,
          put_timer t (\<lambda>_. \<lparr>tm_cb = map_option fst fc,
            tm_context = (case fc of None \<Rightarrow> 0 | Some f \<Rightarrow> snd f),
            tm_count = msfromnow, tm_reload = msfromnow,
            tm_ctl = mode AND (modeMsk OR running) OR inuse\<rparr>) s))"

definition timer_free :: "u8 \<Rightarrow> ('cb, 'e) bl_sched \<Rightarrow> ('cb, 'e) bl_sched" where
  "timer_free tid s = put_timer (unat tid) (\<lambda>_. zero_timer) s"

definition timer_start :: "u8 \<Rightarrow> ('cb, 'e) bl_sched \<Rightarrow> ('cb, 'e) bl_sched" where
  "timer_start tid s = put_timer (unat tid)
     (\<lambda>tm. tm\<lparr>tm_count := tm_reload tm, tm_ctl := set_flag (tm_ctl tm) running\<rparr>) s"

definition timer_stop :: "u8 \<Rightarrow> ('cb, 'e) bl_sched \<Rightarrow> ('cb, 'e) bl_sched" where
  "timer_stop tid s = put_timer (unat tid) (\<lambda>tm. tm\<lparr>tm_ctl := clr_flag (tm_ctl tm) running\<rparr>) s"

definition timer_expired :: "u8 \<Rightarrow> ('cb, 'e) bl_sched \<Rightarrow> bool" where
  "timer_expired tid s =
     (let tm = timers s ! unat tid in has_flag (tm_ctl tm) running \<and> tm_count tm = 0)"

definition timer_restart :: "u8 \<Rightarrow> u32 \<Rightarrow> ('cb, 'e) bl_sched \<Rightarrow> ('cb, 'e) bl_sched" where
  "timer_restart tid ms s = put_timer (unat tid)
     (\<lambda>tm. tm\<lparr>tm_count := ms, tm_reload := ms, tm_ctl := set_flag (tm_ctl tm) running\<rparr>) s"

text \<open>A reference to a counter is the index of its timer; \<open>timer_ref_expired\<close> reads through it.\<close>

definition timer_ref :: "u8 \<Rightarrow> nat" where
  "timer_ref tid = unat tid"

definition timer_ref_expired :: "nat \<Rightarrow> ('cb, 'e) bl_sched \<Rightarrow> bool" where
  "timer_ref_expired ref s = (tm_count (timers s ! ref) = 0)"

definition timer_init :: "('cb, 'e) bl_sched \<Rightarrow> ('cb, 'e) bl_sched" where
  "timer_init s = s\<lparr>sys_tic := 0, timers := replicate (length (timers s)) zero_timer\<rparr>"

section \<open>Lemmas\<close>

lemma timers_put_timer [simp]: "timers (put_timer t f s) = (timers s)[t := f (timers s ! t)]"
  "bl_env (put_timer t f s) = bl_env s" "sys_tic (put_timer t f s) = sys_tic s"
  by (simp_all add: put_timer_def)

lemma free_timer_None: "free_timer ts n = None \<longleftrightarrow> (\<forall>t<n. tm_ctl (ts ! t) AND inuse \<noteq> 0)"
  by (induction n) (auto simp: less_Suc_eq)

lemma free_timer_Some:
  "free_timer ts n = Some t \<longleftrightarrow>
     t < n \<and> tm_ctl (ts ! t) AND inuse = 0 \<and> (\<forall>u<n. t < u \<longrightarrow> tm_ctl (ts ! u) AND inuse \<noteq> 0)"
  by (induction n) (auto simp: less_Suc_eq)

text \<open>
  The abstract behaviour of one slot in a tick: its new content, and the callback it issues.
\<close>

definition slot_tick :: "u32 \<Rightarrow> 'cb bl_timer \<Rightarrow> 'cb bl_timer \<times> ('cb \<times> u32) option" where
  "slot_tick ms tm =
     (let mode = tm_ctl tm AND NOT (inuse OR running);
          cb = map_option (\<lambda>f. (f, tm_context tm)) (tm_cb tm) in
      if tm_ctl tm AND (inuse OR running) \<noteq> inuse OR running \<or> tm_count tm = 0 then (tm, None)
      else if tm_count tm > ms then (tm\<lparr>tm_count := tm_count tm - ms\<rparr>, None)
      else if mode = modeOneShot then (zero_timer, cb)
      else if mode = modeRepeating then (tm\<lparr>tm_count := tm_reload tm\<rparr>, cb)
      else if mode = modeTimeout then (tm\<lparr>tm_count := 0\<rparr>, cb)
      else (tm\<lparr>tm_count := 0\<rparr>, None))"

definition issue :: "('cb, 'e) cb_call \<Rightarrow> nat \<Rightarrow> ('cb \<times> u32) option \<Rightarrow> ('cb, 'e) bl_sched \<Rightarrow> ('cb, 'e) bl_sched" where
  "issue call t c s = (case c of None \<Rightarrow> s | Some (f, ctx) \<Rightarrow> call f t ctx s)"

lemma process_timer_slot:
  assumes "t < length (timers s)"
  shows "process_timer call ms t s =
    (let (tm, c) = slot_tick ms (timers s ! t) in issue call t c (put_timer t (\<lambda>_. tm) s))"
proof -
  have same: "s\<lparr>timers := timers s\<rparr> = s" by simp
  show ?thesis using assms
    by (auto simp: process_timer_def slot_tick_def issue_def call_user_def Let_def put_timer_def same
        timer_flags split: option.splits if_splits)
qed

text \<open>
  When callbacks leave the timers alone, a tick is: every slot makes its own step, and the
  callbacks that are due are called from the last slot to the first.
\<close>

definition quiet :: "('cb, 'e) cb_call \<Rightarrow> bool" where
  "quiet call \<longleftrightarrow> (\<forall>f t c s. timers (call f t c s) = timers s \<and> sys_tic (call f t c s) = sys_tic s)"

lemma issue_quiet [simp]:
  "quiet call \<Longrightarrow> timers (issue call t c s) = timers s \<and> sys_tic (issue call t c s) = sys_tic s"
  by (auto simp: issue_def quiet_def split: option.splits)

lemma process_down:
  assumes "quiet call" and "n \<le> length (timers s)"
  shows "timers (foldl (\<lambda>s t. process_timer call ms t s) s (rev [0..<n]))
      = map (fst \<circ> slot_tick ms) (take n (timers s)) @ drop n (timers s)"
  using assms(2)
proof (induction n arbitrary: s)
  case 0
  then show ?case by simp
next
  case (Suc n)
  let ?s = "process_timer call ms n s"
  have ts: "timers ?s = (timers s)[n := fst (slot_tick ms (timers s ! n))]"
    using Suc.prems assms(1) by (simp add: process_timer_slot split_beta Let_def)
  have "timers (foldl (\<lambda>s t. process_timer call ms t s) s (rev [0..<Suc n]))
      = map (fst \<circ> slot_tick ms) (take n (timers ?s)) @ drop n (timers ?s)"
    using Suc ts by simp
  then show ?case using Suc.prems
    by (simp add: ts take_Suc_conv_app_nth drop_update_swap Cons_nth_drop_Suc [symmetric])
qed

lemma tick_slots:
  "quiet call \<Longrightarrow> timers (nxsched_process_timer call ms s) = map (fst \<circ> slot_tick ms) (timers s)"
  using process_down [of call "length (timers s)" "s\<lparr>sys_tic := sys_tic s + 1\<rparr>" ms]
  by (simp add: nxsched_process_timer_def)


text \<open>
  One running timeout timer is a countdown in whole ticks: what is left of \<open>c\<close> milliseconds
  is \<open>c\<close> divided by the tick, rounded up.
\<close>

definition ticks_left :: "u32 \<Rightarrow> nat \<Rightarrow> ('cb, 'e) bl_sched \<Rightarrow> nat" where
  "ticks_left ms t s = (unat (tm_count (timers s ! t)) + unat ms - 1) div unat ms"

definition armed :: "('cb, 'e) cb_call \<Rightarrow> u32 \<Rightarrow> nat \<Rightarrow> ('cb, 'e) bl_sched \<Rightarrow> bool" where
  "armed call ms t s \<longleftrightarrow> quiet call \<and> 0 < ms \<and> t < length (timers s) \<and>
     tm_ctl (timers s ! t) = modeTimeout OR inuse OR running"

lemma ceil_div_later:
  fixes c m :: nat
  assumes "0 < m" and "m < c"
  shows "(c - 1) div m = (c + m - 1) div m - 1"
proof -
  have "(c + m - 1) div m = ((c - 1) + m) div m"
    by (rule arg_cong [where f = "\<lambda>x. x div m"]) (use assms in simp)
  also have "\<dots> = (c - 1) div m + 1" using assms(1) by (intro div_add_self2) simp
  finally show ?thesis by simp
qed

lemma ceil_div_last:
  fixes c m :: nat
  assumes "0 < m" and "c \<le> m"
  shows "(c + m - 1) div m \<le> 1"
proof -
  have "c + m - 1 < 2 * m" using assms by simp
  then have "(c + m - 1) div m < 2" using assms(1) by (simp add: div_less_iff_less_mult)
  then show ?thesis by simp
qed

lemma armed_slot:
  "tm_ctl tm = modeTimeout OR inuse OR running \<Longrightarrow>
     fst (slot_tick ms tm) = tm\<lparr>tm_count := (if tm_count tm > ms then tm_count tm - ms else 0)\<rparr>"
  by (auto simp: slot_tick_def Let_def timer_flags)

interpretation timeout_timer: countdown "nxsched_process_timer call ms" "ticks_left ms t" "armed call ms t"
  for call ms t
proof
  fix s :: "('a, 'b) bl_sched"
  assume armed: "armed call ms t s"
  then show "armed call ms t (nxsched_process_timer call ms s)"
    by (simp add: armed_def tick_slots armed_slot)
  have "0 < unat ms" using armed by (simp add: armed_def unat_gt_0 word_gt_0)
  then show "ticks_left ms t (nxsched_process_timer call ms s) = ticks_left ms t s - 1"
    using armed ceil_div_later [of "unat ms" "unat (tm_count (timers s ! t))"]
      ceil_div_last [of "unat ms" "unat (tm_count (timers s ! t))"]
    by (simp add: armed_def ticks_left_def tick_slots armed_slot word_less_nat_alt unat_sub_if_size)
qed

lemma ticks_left_le:
  assumes "0 < ms"
  shows "ticks_left ms t s \<le> k \<longleftrightarrow> unat (tm_count (timers s ! t)) \<le> k * unat ms"
proof -
  have "0 < unat ms" using assms by (simp add: unat_gt_0 word_gt_0)
  then have "ticks_left ms t s \<le> k \<longleftrightarrow> unat (tm_count (timers s ! t)) + unat ms - 1 < Suc k * unat ms"
    by (simp add: ticks_left_def less_Suc_eq_le [symmetric] div_less_iff_less_mult)
  also have "\<dots> \<longleftrightarrow> unat (tm_count (timers s ! t)) \<le> k * unat ms" using \<open>0 < unat ms\<close> by auto
  finally show ?thesis .
qed

lemma ticks_left_0: "armed call ms t s \<Longrightarrow> ticks_left ms t s = 0 \<longleftrightarrow> tm_count (timers s ! t) = 0"
  using ticks_left_le [of ms t s 0] by (auto simp: armed_def unat_eq_0)

text \<open>A callback that acts on the client's part of the state only.\<close>

definition env_call :: "('cb \<Rightarrow> nat \<Rightarrow> u32 \<Rightarrow> 'e \<Rightarrow> 'e) \<Rightarrow> ('cb, 'e) cb_call" where
  "env_call g f t c s = s\<lparr>bl_env := g f t c (bl_env s)\<rparr>"

lemma quiet_env_call [simp]: "quiet (env_call g)"
  by (simp add: quiet_def env_call_def)

definition due :: "('cb \<Rightarrow> nat \<Rightarrow> u32 \<Rightarrow> 'e \<Rightarrow> 'e) \<Rightarrow> u32 \<Rightarrow> 'cb bl_timer list \<Rightarrow> nat \<Rightarrow> 'e \<Rightarrow> 'e" where
  "due g ms ts t e = (case snd (slot_tick ms (ts ! t)) of None \<Rightarrow> e | Some (f, c) \<Rightarrow> g f t c e)"

lemma process_timer_env:
  assumes "t < length (timers s)"
  shows "process_timer (env_call g) ms t s =
    s\<lparr>timers := (timers s)[t := fst (slot_tick ms (timers s ! t))], bl_env := due g ms (timers s) t (bl_env s)\<rparr>"
  using assms
  by (simp add: process_timer_slot split_beta Let_def issue_def env_call_def due_def put_timer_def
      split: option.split)

lemma due_update [simp]: "t < u \<Longrightarrow> due g ms (ts[u := x]) t = due g ms ts t"
  by (simp add: due_def fun_eq_iff)

lemma process_down_env:
  "n \<le> length (timers s) \<Longrightarrow>
     bl_env (foldl (\<lambda>s t. process_timer (env_call g) ms t s) s (rev [0..<n]))
       = foldl (\<lambda>e t. due g ms (timers s) t e) (bl_env s) (rev [0..<n])
     \<and> sys_tic (foldl (\<lambda>s t. process_timer (env_call g) ms t s) s (rev [0..<n])) = sys_tic s"
proof (induction n arbitrary: s)
  case (Suc n)
  have "foldl (\<lambda>e t. due g ms ((timers s)[n := x]) t e) e (rev [0..<n])
      = foldl (\<lambda>e t. due g ms (timers s) t e) e (rev [0..<n])" for x e
    by (rule foldl_cong) simp_all
  with Suc show ?case by (simp add: process_timer_env)
qed simp

section \<open>Properties\<close>


definition demo_sched :: "(unit, nat) bl_sched" where
  "demo_sched = \<lparr>sys_tic = 0, timers = [zero_timer, zero_timer\<lparr>tm_ctl := modeTimeout OR inuse\<rparr>], bl_env = 0\<rparr>"


text \<open>
  The walk over the timers refines the slot by slot specification: every slot makes its
  own step (count down, reload, free itself, or stay expired), the tick counter advances by
  one modulo \<open>2 ^ 32\<close>, and the callbacks due are called exactly once each, in the order from
  the last slot to the first.
\<close>

theorem tick_refines_slots:
  "nxsched_process_timer (env_call g) ms s =
     s\<lparr>sys_tic := sys_tic s + 1, timers := map (fst \<circ> slot_tick ms) (timers s),
       bl_env := foldl (\<lambda>e t. due g ms (timers s) t e) (bl_env s) (rev [0..<length (timers s)])\<rparr>"
  using tick_slots [of "env_call g" ms s]
    process_down_env [of "length (timers s)" "s\<lparr>sys_tic := sys_tic s + 1\<rparr>" g ms]
  by (simp add: nxsched_process_timer_def)

text \<open>
  \<open>timer_allocate\<close> takes the highest free slot and no other, initialises it, and leaves the
  rest alone; only when every slot is in use does it fail, and the failure value is 255.
\<close>

theorem timer_allocate_spec:
  assumes "length (timers s) \<le> 128"
  shows "case timer_allocate mode ms fc s of (tid, s') \<Rightarrow>
    if \<forall>t<length (timers s). tm_ctl (timers s ! t) AND inuse \<noteq> 0 then tid = 255 \<and> s' = s
    else unat tid < length (timers s) \<and> tm_ctl (timers s ! unat tid) AND inuse = 0
      \<and> (\<forall>u<length (timers s). unat tid < u \<longrightarrow> tm_ctl (timers s ! u) AND inuse \<noteq> 0)
      \<and> (\<forall>u. u \<noteq> unat tid \<longrightarrow> timers s' ! u = timers s ! u)
      \<and> tm_ctl (timers s' ! unat tid) AND inuse \<noteq> 0 \<and> tm_count (timers s' ! unat tid) = ms
      \<and> (has_flag mode running \<longleftrightarrow> has_flag (tm_ctl (timers s' ! unat tid)) running)"
proof (cases "free_timer (timers s) (length (timers s))")
  case None
  then have "\<forall>t<length (timers s). tm_ctl (timers s ! t) AND inuse \<noteq> 0"
    by (simp only: free_timer_None)
  with None show ?thesis by (simp add: timer_allocate_def)
next
  case (Some t)
  then have t: "t < length (timers s)" "tm_ctl (timers s ! t) AND inuse = 0"
    "\<forall>u<length (timers s). t < u \<longrightarrow> tm_ctl (timers s ! u) AND inuse \<noteq> 0"
    by (simp_all add: free_timer_Some)
  have idx: "unat (word_of_nat t :: u8) = t"
    using t(1) assms by (simp add: unat_of_nat)
  have "(mode AND (modeMsk OR running) OR inuse) AND inuse \<noteq> 0"
    by (rule notI, drule arg_cong [of _ _ "\<lambda>w. bit w 7"]) (simp add: bit_simps timer_flags)
  moreover have "has_flag (mode AND (modeMsk OR running) OR inuse) running \<longleftrightarrow> has_flag mode running"
    using has_flag_bit [of _ 6, where 'a = 32] by (simp add: timer_flags bit_simps)
  moreover have "\<not> (\<forall>t<length (timers s). tm_ctl (timers s ! t) AND inuse \<noteq> 0)"
    using t by blast
  ultimately show ?thesis using t idx by (auto simp: timer_allocate_def Some)
qed

theorem timer_allocate_spec_witness:
  "length (timers demo_sched) \<le> 128 \<and> fst (timer_allocate modeOneShot 50 None demo_sched) = 0"
  using timer_allocate_spec [of demo_sched modeOneShot 50 None]
  by (simp add: timer_allocate_def demo_sched_def zero_timer_def timer_flags)

end
