(* ===== verification/Bl_Ring.thy ===== *)
theory Bl_Ring
  imports Px4_Prelude
begin

text \<open>
  The receive ring of the serial bootloader (\<open>buf_put\<close> and \<open>buf_get\<close> in
  \<open>bootloader/common/bl.c\<close>), and its refinement of a bounded queue.
\<close>

section \<open>The receive ring\<close>

text \<open>\<open>rx_buf\<close> with its indices \<open>head\<close> and \<open>tail\<close>.\<close>

record rx_ring =
  rx_head :: nat
  rx_tail :: nat
  rx_buf :: "u8 list"

definition buf_put :: "u8 \<Rightarrow> rx_ring \<Rightarrow> rx_ring" where
  "buf_put b r =
     (let nxt = (rx_head r + 1) mod 256 in
      if nxt \<noteq> rx_tail r then r\<lparr>rx_buf := (rx_buf r)[rx_head r := b], rx_head := nxt\<rparr> else r)"

definition buf_get :: "rx_ring \<Rightarrow> u8 option \<times> rx_ring" where
  "buf_get r =
     (if rx_tail r \<noteq> rx_head r then (Some (rx_buf r ! rx_tail r), r\<lparr>rx_tail := (rx_tail r + 1) mod 256\<rparr>)
      else (None, r))"

section \<open>The ring as a queue\<close>

text \<open>The bytes that a number of reads yield.\<close>

fun drain :: "('q \<Rightarrow> 'a option \<times> 'q) \<Rightarrow> nat \<Rightarrow> 'q \<Rightarrow> 'a list" where
  "drain get 0 q = []"
| "drain get (Suc n) q = (case get q of (None, q) \<Rightarrow> drain get n q | (Some x, q) \<Rightarrow> x # drain get n q)"

text \<open>
  What the reader of the ring relies on: bytes come out in the order in which they went in; a
  byte that finds the ring full is dropped.
\<close>

locale bounded_queue =
  fixes put :: "'a \<Rightarrow> 'q \<Rightarrow> 'q" and get :: "'q \<Rightarrow> 'a option \<times> 'q"
    and items :: "'q \<Rightarrow> 'a list" and ok :: "'q \<Rightarrow> bool" and cap :: nat
  assumes put_ok: "ok q \<Longrightarrow> ok (put x q)"
    and put_items: "ok q \<Longrightarrow> items (put x q) = (if length (items q) < cap then items q @ [x] else items q)"
    and get_ok: "ok q \<Longrightarrow> ok (snd (get q))"
    and get_items: "ok q \<Longrightarrow> get q = (case items q of [] \<Rightarrow> (None, q) | x # xs \<Rightarrow> (Some x, snd (get q)))
      \<and> items (snd (get q)) = tl (items q)"
begin

lemma puts: "ok q \<Longrightarrow> ok (fold put xs q) \<and> items (fold put xs q) = items q @ take (cap - length (items q)) xs"
proof (induction xs arbitrary: q)
  case (Cons x xs)
  show ?case
  proof (cases "length (items q) < cap")
    case True
    then have "cap - length (items q) = Suc (cap - Suc (length (items q)))" by simp
    then show ?thesis using Cons True put_ok [of q x] put_items [of q x] by simp
  next
    case False
    then show ?thesis using Cons put_ok [of q x] put_items [of q x] by simp
  qed
qed simp

lemma drain_items: "ok q \<Longrightarrow> drain get n q = take n (items q)"
proof (induction n arbitrary: q)
  case (Suc n)
  then show ?case using get_items [of q] get_ok [of q]
    by (cases "items q") (auto split: prod.split)
qed simp

end

definition ring_ok :: "rx_ring \<Rightarrow> bool" where
  "ring_ok r \<longleftrightarrow> rx_head r < 256 \<and> rx_tail r < 256 \<and> length (rx_buf r) = 256"

definition ring_items :: "rx_ring \<Rightarrow> u8 list" where
  "ring_items r = map (\<lambda>i. rx_buf r ! ((rx_tail r + i) mod 256)) [0..<(rx_head r + 256 - rx_tail r) mod 256]"

lemma mod_window:
  "t < 256 \<Longrightarrow> h < 256 \<Longrightarrow> t \<noteq> h \<Longrightarrow>
     (h + 256 - (t + 1) mod 256) mod 256 = (h + 256 - t) mod 256 - (1 :: nat) \<and> 0 < (h + 256 - t) mod (256 :: nat)"
  by (auto simp: mod_if)

lemma mod_grow:
  "t < 256 \<Longrightarrow> h < 256 \<Longrightarrow> (h + 1) mod 256 \<noteq> t \<Longrightarrow>
     ((h + 1) mod 256 + 256 - t) mod 256 = (h + 256 - t) mod 256 + (1 :: nat)
       \<and> (t + (h + 256 - t) mod 256) mod 256 = (h :: nat)"
  by (auto simp: mod_if split: if_splits)

lemma mod_inside:
  assumes "t < 256" and "h < 256" and "i < (h + 256 - t) mod (256 :: nat)"
  shows "(t + i) mod 256 \<noteq> h"
proof (cases "t \<le> h")
  case True
  then have "(h + 256 - t) mod 256 = h - t" using assms(2) by (simp add: mod_if)
  then show ?thesis using assms by simp
next
  case False
  then have "(h + 256 - t) mod 256 = h + 256 - t" using assms by simp
  then have "t + i < h + 256" using assms by simp
  then show ?thesis using assms(1) False by (cases "t + i < 256") (auto simp: mod_if)
qed

lemma ring_length: "length (ring_items r) = (rx_head r + 256 - rx_tail r) mod 256"
  by (simp add: ring_items_def)

lemma buf_put_full:
  assumes "ring_ok r"
  shows "(rx_head r + 1) mod 256 = rx_tail r \<longleftrightarrow> \<not> length (ring_items r) < 255"
  using assms by (auto simp: ring_ok_def ring_length mod_if)

lemma buf_put_items:
  assumes "ring_ok r"
  shows "ring_items (buf_put b r) = (if length (ring_items r) < 255 then ring_items r @ [b] else ring_items r)"
proof (cases "(rx_head r + 1) mod 256 = rx_tail r")
  case True
  then show ?thesis using buf_put_full [OF assms] by (simp add: buf_put_def)
next
  case False
  let ?n = "(rx_head r + 256 - rx_tail r) mod 256"
  have g: "((rx_head r + 1) mod 256 + 256 - rx_tail r) mod 256 = ?n + 1" "(rx_tail r + ?n) mod 256 = rx_head r"
    using mod_grow [OF _ _ False] assms by (simp_all add: ring_ok_def)
  have old: "(rx_tail r + i) mod 256 \<noteq> rx_head r" if "i < ?n" for i
    using mod_inside [OF _ _ that] assms by (simp add: ring_ok_def)
  have "ring_items (buf_put b r) = map (\<lambda>i. (rx_buf r)[rx_head r := b] ! ((rx_tail r + i) mod 256)) [0..<?n + 1]"
    using False g(1) by (simp add: ring_items_def buf_put_def Let_def)
  also have "\<dots> = ring_items r @ [b]"
    using assms old g(2) not_sym [OF old] by (auto simp: ring_items_def ring_ok_def)
  finally show ?thesis using buf_put_full [OF assms] False by simp
qed

lemma buf_get_items:
  assumes "ring_ok r"
  shows "buf_get r = (case ring_items r of [] \<Rightarrow> (None, r) | x # xs \<Rightarrow> (Some x, snd (buf_get r)))
    \<and> ring_items (snd (buf_get r)) = tl (ring_items r)"
proof (cases "rx_tail r = rx_head r")
  case True
  then show ?thesis by (simp add: buf_get_def ring_items_def)
next
  case False
  let ?n = "(rx_head r + 256 - rx_tail r) mod 256"
  have w: "(rx_head r + 256 - (rx_tail r + 1) mod 256) mod 256 = ?n - 1" "0 < ?n"
    using mod_window [OF _ _ False] assms by (simp_all add: ring_ok_def)
  have idx: "((rx_tail r + 1) mod 256 + i) mod 256 = (rx_tail r + Suc i) mod 256" for i
    by (simp add: mod_add_left_eq)
  have n: "?n = Suc (?n - 1)" using w(2) by simp
  have "ring_items r = rx_buf r ! rx_tail r # map (\<lambda>i. rx_buf r ! ((rx_tail r + Suc i) mod 256)) [0..<?n - 1]"
    using assms by (subst ring_items_def, subst n) (simp add: upt_conv_Cons map_Suc_upt [symmetric] ring_ok_def o_def del: upt_Suc)
  moreover have "ring_items (snd (buf_get r)) = map (\<lambda>i. rx_buf r ! ((rx_tail r + Suc i) mod 256)) [0..<?n - 1]"
    using False w(1) idx by (simp add: ring_items_def buf_get_def)
  ultimately show ?thesis using False by (simp add: buf_get_def)
qed

interpretation rxq: bounded_queue buf_put buf_get ring_items ring_ok 255
proof (unfold_locales, goal_cases)
  case (1 r b)
  then show ?case by (simp add: buf_put_def ring_ok_def Let_def)
next
  case (2 r b)
  then show ?case by (rule buf_put_items)
next
  case (3 r)
  then show ?case by (simp add: buf_get_def ring_ok_def)
next
  case (4 r)
  then show ?case by (rule buf_get_items)
qed

section \<open>Properties\<close>

text \<open>
  The receive ring is a queue of at most 255 bytes: whatever is put into it, reads return
  the bytes in order, what it held before first, and only bytes that find it full are lost.
\<close>

theorem rx_ring_is_queue:
  assumes "ring_ok r"
  shows "drain buf_get n (fold buf_put bs r) = take n (ring_items r @ take (255 - length (ring_items r)) bs)"
  using rxq.puts [OF assms, of bs] rxq.drain_items [of "fold buf_put bs r" n] by simp

theorem rx_ring_is_queue_witness:
  "drain buf_get 2 (fold buf_put [7, 8, 9] \<lparr>rx_head = 255, rx_tail = 255, rx_buf = replicate 256 0\<rparr>) = [7, 8]"
  using rx_ring_is_queue [of "\<lparr>rx_head = 255, rx_tail = 255, rx_buf = replicate 256 0\<rparr>" 2 "[7, 8, 9]"]
  by (simp add: ring_ok_def ring_items_def)

end
