(* ===== verification/Bl_Flash.thy ===== *)
theory Bl_Flash
  imports Px4_Prelude
begin

text \<open>
  The flash of the serial bootloader: the page programming and block erase of the STM32H7
  (\<open>arch/arm/src/stm32h7/stm32_flash.c\<close>), the cache of two lines in front of it
  (\<open>bootloader/common/lib/flash_cache.c\<close>) and the access functions of
  \<open>bootloader/stm/stm32_common/main.c\<close>.

  The flash controller itself is hardware: its state is the type \<open>'d\<close> and its behaviour the
  record \<open>flash_dev\<close>.  Addresses are natural numbers; every address the code forms lies below
  the end of the flash, so the sums of the code do not wrap.  A function that would block for
  ever on the semaphore of a bank yields \<open>None\<close>.
\<close>

section \<open>The controller\<close>

datatype hw_result = Hw_ok | Hw_timeout | Hw_ecc

text \<open>
  What the code sees of the hardware: a read of an aligned word; whether the controller is idle;
  the result of programming a page of eight words, of the ECC flags when a page is read back, and
  of the erase of a block.
\<close>

record 'd flash_dev =
  dev_read :: "'d \<Rightarrow> nat \<Rightarrow> u32"
  dev_ready :: "'d \<Rightarrow> bool"
  dev_program :: "nat \<Rightarrow> u32 list \<Rightarrow> 'd \<Rightarrow> hw_result \<times> 'd"
  dev_ecc :: "nat \<Rightarrow> 'd \<Rightarrow> bool"
  dev_erase :: "nat \<Rightarrow> 'd \<Rightarrow> bool \<times> 'd"
  NBLOCKS :: nat
  APP_LOAD :: nat
  FLASH_SECTORS :: nat
  FIRST_SECTOR_TO_ERASE :: nat

text \<open>A cache line, and the state: the two lines, the device and the semaphores of the banks.\<close>

record flash_cache_line =
  fc_index :: u32
  fc_start :: nat
  fc_words :: "u32 list"

record 'd flash_st =
  line0 :: flash_cache_line
  line1 :: flash_cache_line
  dev :: 'd
  sem1 :: bool
  sem2 :: bool

abbreviation EIO :: int where "EIO \<equiv> 5"
abbreviation EFAULT :: int where "EFAULT \<equiv> 14"

definition STM32_FLASH_BANK1 :: nat where "STM32_FLASH_BANK1 = 0x08000000"
definition STM32_FLASH_BANK2 :: nat where "STM32_FLASH_BANK2 = 0x08100000"
definition FLASH_SECTOR_SIZE :: nat where "FLASH_SECTOR_SIZE = 128 * 1024"
definition FLASH_PAGE_SIZE :: nat where "FLASH_PAGE_SIZE = 32"

definition FLASH_NPAGES :: "'d flash_dev \<Rightarrow> nat" where
  "FLASH_NPAGES D = FLASH_SECTOR_SIZE * NBLOCKS D div FLASH_PAGE_SIZE"

text \<open>The banks: \<open>False\<close> is the first, \<open>True\<close> the second.\<close>

definition bank_base :: "bool \<Rightarrow> nat" where
  "bank_base b = (if b then STM32_FLASH_BANK2 else STM32_FLASH_BANK1)"

definition bank_stpage :: "'d flash_dev \<Rightarrow> bool \<Rightarrow> nat" where
  "bank_stpage D b = (if b then FLASH_NPAGES D div 2 else 0)"

definition stm32h7_flash_size :: "'d flash_dev \<Rightarrow> nat" where
  "stm32h7_flash_size D = FLASH_SECTOR_SIZE * NBLOCKS D"

definition stm32h7_flash_bank :: "'d flash_dev \<Rightarrow> nat \<Rightarrow> bool option" where
  "stm32h7_flash_bank D address =
     (if address < STM32_FLASH_BANK1 \<or> address \<ge> STM32_FLASH_BANK1 + stm32h7_flash_size D then None
      else Some (NBLOCKS D > 1 \<and> address \<ge> STM32_FLASH_BANK2))"

definition getreg8 :: "'d flash_dev \<Rightarrow> 'd \<Rightarrow> nat \<Rightarrow> u8" where
  "getreg8 D d a = bytes_of_u32 (dev_read D d (a - a mod 4)) ! (a mod 4)"

text \<open>The byte loop at the end reads one and the same byte for each of the remaining bytes.\<close>

definition stm32h7_israngeerased :: "'d flash_dev \<Rightarrow> nat \<Rightarrow> nat \<Rightarrow> 'd \<Rightarrow> int" where
  "stm32h7_israngeerased D startaddress sz d =
     (if stm32h7_flash_bank D startaddress = None \<or> stm32h7_flash_bank D (startaddress + sz) = None then - EIO
      else let bwritten = length (filter (\<lambda>i. dev_read D d (startaddress + 4 * i) \<noteq> 0xffffffff) [0..<sz div 4])
           in int (if getreg8 D d (startaddress + 4 * (sz div 4)) \<noteq> 0xff then bwritten + sz mod 4 else bwritten))"

section \<open>Programming and erasing\<close>

definition sem_taken :: "bool \<Rightarrow> 'd flash_st \<Rightarrow> bool" where
  "sem_taken b st = (if b then sem2 st else sem1 st)"

definition sem_set :: "bool \<Rightarrow> bool \<Rightarrow> 'd flash_st \<Rightarrow> 'd flash_st" where
  "sem_set b v st = (if b then st\<lparr>sem2 := v\<rparr> else st\<lparr>sem1 := v\<rparr>)"

definition up_progmem_getaddress :: "'d flash_dev \<Rightarrow> nat \<Rightarrow> nat" where
  "up_progmem_getaddress D page =
     (if page \<ge> FLASH_NPAGES D then 0xffffffff
      else case stm32h7_flash_bank D (STM32_FLASH_BANK1 + page * FLASH_PAGE_SIZE) of
        None \<Rightarrow> 0
      | Some b \<Rightarrow> bank_base b + (page - bank_stpage D b) * FLASH_PAGE_SIZE)"

definition up_progmem_ispageerased :: "'d flash_dev \<Rightarrow> nat \<Rightarrow> 'd \<Rightarrow> int" where
  "up_progmem_ispageerased D page d =
     (if page \<ge> FLASH_NPAGES D then - EFAULT
      else int (length (filter (\<lambda>i. getreg8 D d (up_progmem_getaddress D page + i) \<noteq> 0xff) [0..<FLASH_PAGE_SIZE])))"

definition up_progmem_eraseblock :: "'d flash_dev \<Rightarrow> nat \<Rightarrow> 'd flash_st \<Rightarrow> (int \<times> 'd flash_st) option" where
  "up_progmem_eraseblock D block st =
     (let block_address = STM32_FLASH_BANK1 + block * FLASH_SECTOR_SIZE in
      if block \<ge> NBLOCKS D then Some (- EFAULT, st)
      else case stm32h7_flash_bank D block_address of
        None \<Rightarrow> None
      | Some b \<Rightarrow>
          if sem_taken b st then None
          else let st = sem_set b True st in
            if \<not> dev_ready D (dev st) then Some (- EIO, st)
            else (case dev_erase D block_address (dev st) of
              (False, d) \<Rightarrow> Some (- EIO, st\<lparr>dev := d\<rparr>)
            | (True, d) \<Rightarrow>
                Some (if stm32h7_israngeerased D block_address FLASH_SECTOR_SIZE d = 0
                      then int FLASH_SECTOR_SIZE else - EIO, sem_set b False (st\<lparr>dev := d\<rparr>))))"

fun program_pages :: "'d flash_dev \<Rightarrow> nat \<Rightarrow> nat \<Rightarrow> u32 list \<Rightarrow> 'd \<Rightarrow> hw_result \<times> 'd" where
  "program_pages D 0 faddr ll d = (Hw_ok, d)"
| "program_pages D (Suc pcount) faddr ll d =
     (case dev_program D faddr (take 8 ll) d of
        (Hw_ok, d) \<Rightarrow> program_pages D pcount (faddr + FLASH_PAGE_SIZE) (drop 8 ll) d
      | (r, d) \<Rightarrow> (r, d))"

fun verify_pages :: "'d flash_dev \<Rightarrow> nat \<Rightarrow> nat \<Rightarrow> u32 list \<Rightarrow> 'd \<Rightarrow> bool" where
  "verify_pages D 0 faddr ll d = True"
| "verify_pages D (Suc pcount) faddr ll d =
     (if map (\<lambda>i. dev_read D d (faddr + 4 * i)) [0..<8] \<noteq> take 8 ll then False
      else if dev_ecc D faddr d then False
      else verify_pages D pcount (faddr + FLASH_PAGE_SIZE) (drop 8 ll) d)"

text \<open>
  The write of \<open>count\<close> bytes: only whole pages are programmed and verified, the count is what is
  returned in any case.  A time-out leaves with the semaphore taken.
\<close>

definition up_progmem_write ::
  "'d flash_dev \<Rightarrow> nat \<Rightarrow> u32 list \<Rightarrow> nat \<Rightarrow> 'd flash_st \<Rightarrow> (int \<times> 'd flash_st) option" where
  "up_progmem_write D addr buf count st =
     (let pcount = count div FLASH_PAGE_SIZE in
      case stm32h7_flash_bank D addr of
        None \<Rightarrow> Some (- EFAULT, st)
      | Some b \<Rightarrow>
          if addr < bank_base b \<or> addr + count > bank_base b + stm32h7_flash_size D div 2 then Some (- EFAULT, st)
          else if sem_taken b st then None
          else let st = sem_set b True st in
            if \<not> dev_ready D (dev st) then Some (- EIO, st)
            else (case program_pages D pcount addr buf (dev st) of
              (Hw_timeout, d) \<Rightarrow> Some (- EIO, st\<lparr>dev := d\<rparr>)
            | (Hw_ecc, d) \<Rightarrow> Some (- EIO, sem_set b False (st\<lparr>dev := d\<rparr>))
            | (Hw_ok, d) \<Rightarrow>
                Some (if verify_pages D pcount addr buf d then int count else - EIO,
                      sem_set b False (st\<lparr>dev := d\<rparr>))))"

section \<open>The cache\<close>

abbreviation FC_NUMBER_WORDS :: nat where "FC_NUMBER_WORDS \<equiv> 8"
abbreviation FC_LAST_WORD :: nat where "FC_LAST_WORD \<equiv> 7"
abbreviation FC_CLEAN :: u32 where "FC_CLEAN \<equiv> 0xffffffff"

definition FC_TAG :: "nat \<Rightarrow> nat" where "FC_TAG a = a - a mod 32"
definition FC_ADDR2INDX :: "nat \<Rightarrow> nat" where "FC_ADDR2INDX a = a div 4 mod FC_NUMBER_WORDS"

definition fcl_reset :: flash_cache_line where
  "fcl_reset = \<lparr>fc_index = 0xffffffff, fc_start = 0xffffffff, fc_words = replicate 8 0xffffffff\<rparr>"

definition fc_reset :: "'d flash_dev \<Rightarrow> 'd flash_st \<Rightarrow> 'd flash_st" where
  "fc_reset D st = st\<lparr>line0 := fcl_reset\<lparr>fc_start := APP_LOAD D\<rparr>, line1 := fcl_reset\<rparr>"

text \<open>The line of an address: \<open>Some False\<close> is line 0, \<open>Some True\<close> line 1.\<close>

definition fc_line_select :: "nat \<Rightarrow> 'd flash_st \<Rightarrow> bool option" where
  "fc_line_select address st =
     (if fc_start (line0 st) = FC_TAG address then Some False
      else if fc_start (line1 st) = FC_TAG address then Some True else None)"

definition fc_is_dirty :: "flash_cache_line \<Rightarrow> bool" where
  "fc_is_dirty fl \<longleftrightarrow> fc_index fl \<noteq> FC_CLEAN"

definition fc_flush :: "'d flash_dev \<Rightarrow> flash_cache_line \<Rightarrow> 'd flash_st \<Rightarrow> (int \<times> 'd flash_st) option" where
  "fc_flush D fl st =
     (let bytes = unat ((fc_index fl + 1) * 4) in
      case up_progmem_write D (fc_start fl) (fc_words fl) bytes st of
        None \<Rightarrow> None
      | Some (rv, st) \<Rightarrow> Some (if rv = int bytes then 0 else rv, st))"

definition fc_write :: "'d flash_dev \<Rightarrow> nat \<Rightarrow> u32 \<Rightarrow> 'd flash_st \<Rightarrow> (int \<times> 'd flash_st) option" where
  "fc_write D address word st =
     (let fc = fc_line_select address st; index = FC_ADDR2INDX address;
          (fc, st) = (if fc = None \<and> index = 0
                      then (Some True, st\<lparr>line1 := (line1 st)\<lparr>fc_start := address\<rparr>\<rparr>) else (fc, st)) in
      case fc of
        None \<Rightarrow> Some (0, st)
      | Some False \<Rightarrow>
          let st = st\<lparr>line0 := (line0 st)\<lparr>fc_words := (fc_words (line0 st))[index := word]\<rparr>\<rparr> in
          if index = 0 \<and> fc_index (line0 st) = 7 then
            (case (if fc_is_dirty (line1 st) then fc_flush D (line1 st) st else Some (0, st)) of
              None \<Rightarrow> None
            | Some (rv, st) \<Rightarrow>
                if rv \<noteq> 0 then Some (- 1, st\<lparr>line1 := fcl_reset\<rparr>)
                else map_option (\<lambda>(rv, st). (rv, st\<lparr>line0 := fcl_reset\<rparr>)) (fc_flush D (line0 st) st))
          else Some (0, st\<lparr>line0 := (line0 st)\<lparr>fc_index := word_of_nat index\<rparr>\<rparr>)
      | Some True \<Rightarrow>
          Some (0, st\<lparr>line1 := (line1 st)\<lparr>fc_words := (fc_words (line1 st))[index := word],
                                           fc_index := word_of_nat index\<rparr>\<rparr>))"

definition fc_read :: "'d flash_dev \<Rightarrow> nat \<Rightarrow> 'd flash_st \<Rightarrow> (u32 \<times> 'd flash_st) option" where
  "fc_read D address st =
     (let rv = dev_read D (dev st) address; index = FC_ADDR2INDX address in
      case fc_line_select address st of
        None \<Rightarrow> Some (rv, st)
      | Some False \<Rightarrow> Some (fc_words (line0 st) ! index, st)
      | Some True \<Rightarrow>
          let rv = fc_words (line1 st) ! index in
          if index = FC_LAST_WORD then
            (case fc_flush D (line1 st) st of
              None \<Rightarrow> None
            | Some (r, st) \<Rightarrow>
                if r \<noteq> 0 then Some (rv XOR 0xffffffff, st) else Some (rv, st\<lparr>line1 := fcl_reset\<rparr>))
          else Some (rv, st))"

section \<open>The access functions of the bootloader\<close>

definition arch_flash_unlock :: "'d flash_dev \<Rightarrow> 'd flash_st \<Rightarrow> 'd flash_st" where
  "arch_flash_unlock D st = fc_reset D st"

definition flash_func_sector_size :: "'d flash_dev \<Rightarrow> nat \<Rightarrow> nat" where
  "flash_func_sector_size D sector = (if sector \<le> FLASH_SECTORS D then 128 * 1024 else 0)"

definition flash_func_erase_sector :: "'d flash_dev \<Rightarrow> nat \<Rightarrow> 'd flash_st \<Rightarrow> 'd flash_st option" where
  "flash_func_erase_sector D sector st =
     (if sector > FLASH_SECTORS D \<or> sector < FIRST_SECTOR_TO_ERASE D then Some st
      else let blank = (up_progmem_ispageerased D sector (dev st) = 0) in
        if \<not> blank then map_option snd (up_progmem_eraseblock D sector st) else Some st)"

definition flash_func_write_word :: "'d flash_dev \<Rightarrow> nat \<Rightarrow> u32 \<Rightarrow> 'd flash_st \<Rightarrow> 'd flash_st option" where
  "flash_func_write_word D address word st = map_option snd (fc_write D (address + APP_LOAD D) word st)"

definition flash_func_read_word :: "'d flash_dev \<Rightarrow> nat \<Rightarrow> 'd flash_st \<Rightarrow> (u32 \<times> 'd flash_st) option" where
  "flash_func_read_word D address st =
     (if address mod 4 \<noteq> 0 then Some (0, st) else fc_read D (address + APP_LOAD D) st)"

text \<open>
  The inner loop of the programming command (\<open>bl.c\<close>) over the two access functions: each word is
  written and read back at once.  The flag tells whether all of them were read back.
\<close>

fun prog_loop ::
  "(nat \<Rightarrow> u32 \<Rightarrow> 's \<Rightarrow> 's option) \<Rightarrow> (nat \<Rightarrow> 's \<Rightarrow> (u32 \<times> 's) option) \<Rightarrow> nat \<Rightarrow> u32 list \<Rightarrow> 's
     \<Rightarrow> (bool \<times> nat \<times> 's) option" where
  "prog_loop wr rd address [] s = Some (True, address, s)"
| "prog_loop wr rd address (w # ws) s =
     (case wr address w s of
        None \<Rightarrow> None
      | Some s \<Rightarrow>
          (case rd address s of
             None \<Rightarrow> None
           | Some (r, s) \<Rightarrow> if r \<noteq> w then Some (False, address, s) else prog_loop wr rd (address + 4) ws s))"

section \<open>Programming a page\<close>

text \<open>
  What is relied on of the flash: the controller gets ready, an erased page takes what is
  programmed without touching other pages, and no ECC error shows up when it is read back.
\<close>

definition erased :: "'d flash_dev \<Rightarrow> nat \<Rightarrow> 'd \<Rightarrow> bool" where
  "erased D a d \<longleftrightarrow> (\<forall>i < 8. dev_read D d (a + 4 * i) = 0xffffffff)"

definition dev_ok :: "'d flash_dev \<Rightarrow> bool" where
  "dev_ok D \<longleftrightarrow>
     (\<forall>d. dev_ready D d) \<and> (\<forall>a d. \<not> dev_ecc D a d) \<and>
     (\<forall>a ws d. a mod 32 = 0 \<longrightarrow> length ws = 8 \<longrightarrow> erased D a d \<longrightarrow>
        fst (dev_program D a ws d) = Hw_ok \<and>
        (\<forall>i < 8. dev_read D (snd (dev_program D a ws d)) (a + 4 * i) = ws ! i) \<and>
        (\<forall>x. x < a \<or> a + 32 \<le> x \<longrightarrow> dev_read D (snd (dev_program D a ws d)) x = dev_read D d x))"

lemma dev_okD:
  assumes "dev_ok D" and "a mod 32 = 0" and "length ws = 8" and "erased D a d"
  shows "fst (dev_program D a ws d) = Hw_ok"
    and "\<And>i. i < 8 \<Longrightarrow> dev_read D (snd (dev_program D a ws d)) (a + 4 * i) = ws ! i"
    and "\<And>x. x < a \<or> a + 32 \<le> x \<Longrightarrow> dev_read D (snd (dev_program D a ws d)) x = dev_read D d x"
proof -
  have c: "fst (dev_program D a ws d) = Hw_ok \<and>
      (\<forall>i < 8. dev_read D (snd (dev_program D a ws d)) (a + 4 * i) = ws ! i) \<and>
      (\<forall>x. x < a \<or> a + 32 \<le> x \<longrightarrow> dev_read D (snd (dev_program D a ws d)) x = dev_read D d x)"
    by (rule assms(1) [unfolded dev_ok_def, THEN conjunct2, THEN conjunct2, THEN spec, THEN spec, THEN spec,
          THEN mp, THEN mp, THEN mp, OF assms(2-4)])
  show "fst (dev_program D a ws d) = Hw_ok" using c by blast
  show "\<And>i. i < 8 \<Longrightarrow> dev_read D (snd (dev_program D a ws d)) (a + 4 * i) = ws ! i" using c by blast
  show "\<And>x. x < a \<or> a + 32 \<le> x \<Longrightarrow> dev_read D (snd (dev_program D a ws d)) x = dev_read D d x" using c by blast
qed

text \<open>A device of 2 MB whose application area of \<open>cap\<close> words starts on a page boundary.\<close>

definition board_ok :: "'d flash_dev \<Rightarrow> nat \<Rightarrow> bool" where
  "board_ok D cap \<longleftrightarrow> NBLOCKS D = 16 \<and> APP_LOAD D mod 32 = 0 \<and> STM32_FLASH_BANK1 \<le> APP_LOAD D \<and>
     APP_LOAD D + 4 * cap \<le> STM32_FLASH_BANK1 + 16 * FLASH_SECTOR_SIZE \<and> cap mod 8 = 0"

lemma tag_index:
  assumes "b mod 32 = 0"
  shows "FC_TAG (4 * n + b) = b + 32 * (n div 8)" "FC_ADDR2INDX (4 * n + b) = n mod 8"
proof -
  obtain q where b: "b = 32 * q" using assms by auto
  have "(4 * n + b) mod 32 = 4 * (n mod 8)"
    using mult_mod_right [of 4 n 8] by (simp add: b)
  moreover have "4 * n + b = b + 32 * (n div 8) + 4 * (n mod 8)" using mult_div_mod_eq [of 8 n] by linarith
  ultimately show "FC_TAG (4 * n + b) = b + 32 * (n div 8)" unfolding FC_TAG_def by linarith
  have "(4 * n + b) div 4 = n + 8 * q" by (simp add: b)
  then show "FC_ADDR2INDX (4 * n + b) = n mod 8" by (simp add: FC_ADDR2INDX_def)
qed

lemma page_fits:
  assumes "board_ok D cap" and "8 * q + 8 \<le> cap" and "a = APP_LOAD D + 32 * q"
  obtains b where "stm32h7_flash_bank D a = Some b" "bank_base b \<le> a"
    "a + 32 \<le> bank_base b + stm32h7_flash_size D div 2"
proof -
  have "APP_LOAD D mod 32 = 0" "0x8000000 \<le> APP_LOAD D" "APP_LOAD D + 4 * cap \<le> 0x8200000" "NBLOCKS D = 16"
    using assms(1) by (simp_all add: board_ok_def STM32_FLASH_BANK1_def FLASH_SECTOR_SIZE_def)
  then have a: "a mod 32 = 0" "0x8000000 \<le> a" "a + 32 \<le> 0x8200000"
    using assms(2,3) by auto
  have "a + 32 \<le> 0x8100000" if "a < 0x8100000"
  proof -
    obtain k where "a = 32 * k" using a(1) by auto
    then show ?thesis using that by simp
  qed
  then show ?thesis
    using that [of "a \<ge> 0x8100000"] a \<open>NBLOCKS D = 16\<close>
    by (simp add: stm32h7_flash_bank_def bank_base_def STM32_FLASH_BANK1_def STM32_FLASH_BANK2_def
        stm32h7_flash_size_def FLASH_SECTOR_SIZE_def)
qed

definition sems_free :: "'d flash_st \<Rightarrow> bool" where
  "sems_free st \<longleftrightarrow> \<not> sem1 st \<and> \<not> sem2 st"

lemma sem_cycle: "sems_free st \<Longrightarrow> sem_set b False ((sem_set b True st)\<lparr>dev := d\<rparr>) = st\<lparr>dev := d\<rparr>"
  by (cases st) (simp add: sem_set_def sems_free_def)

lemma write_page:
  assumes "dev_ok D" and "board_ok D cap" and "8 * q + 8 \<le> cap" and "a = APP_LOAD D + 32 * q"
    and "sems_free st" and "length ws = 8" and "erased D a (dev st)"
  shows "up_progmem_write D a ws 32 st = Some (32, st\<lparr>dev := snd (dev_program D a ws (dev st))\<rparr>)"
proof -
  obtain b where b: "stm32h7_flash_bank D a = Some b" "bank_base b \<le> a"
    "a + 32 \<le> bank_base b + stm32h7_flash_size D div 2"
    using page_fits [OF assms(2,3,4)] .
  have "a mod 32 = 0" using assms(2,4) by (auto simp: board_ok_def)
  note p = dev_okD [OF assms(1) this assms(6,7)]
  have r: "dev_ready D (dev st)" "\<not> dev_ecc D a (snd (dev_program D a ws (dev st)))"
    using assms(1) by (simp_all add: dev_ok_def)
  have "map (\<lambda>i. dev_read D (snd (dev_program D a ws (dev st))) (a + 4 * i)) [0..<8] = ws"
    using p(2) assms(6) by (intro nth_equalityI) simp_all
  moreover have "program_pages D 1 a ws (dev st) = (Hw_ok, snd (dev_program D a ws (dev st)))"
    using p(1) assms(6) by (simp add: split_beta split: hw_result.split)
  moreover have "dev (sem_set b True st) = dev st" by (simp add: sem_set_def)
  moreover have "\<not> sem_taken b st" using assms(5) by (simp add: sem_taken_def sems_free_def)
  ultimately show ?thesis
    using b r assms(6) sem_cycle [OF assms(5)]
    by (simp add: up_progmem_write_def FLASH_PAGE_SIZE_def)
qed

text \<open>Less than a page is not programmed, but reported as written.\<close>

lemma write_fragment:
  assumes "dev_ok D" and "board_ok D cap" and "8 * q + 8 \<le> cap" and "a = APP_LOAD D + 32 * q"
    and "sems_free st" and "n < 32"
  shows "up_progmem_write D a ws n st = Some (int n, st)"
proof -
  obtain b where b: "stm32h7_flash_bank D a = Some b" "bank_base b \<le> a"
    "a + 32 \<le> bank_base b + stm32h7_flash_size D div 2"
    using page_fits [OF assms(2,3,4)] .
  have "dev (sem_set b True st) = dev st" by (simp add: sem_set_def)
  moreover have "\<not> sem_taken b st" using assms(5) by (simp add: sem_taken_def sems_free_def)
  moreover have "st\<lparr>dev := dev st\<rparr> = st" by simp
  ultimately show ?thesis
    using b assms(1,6) sem_cycle [OF assms(5), of b "dev st"]
    by (simp add: up_progmem_write_def FLASH_PAGE_SIZE_def dev_ok_def)
qed

section \<open>The interface of the bootloader to the flash\<close>

text \<open>
  The contract of the access functions while an image is uploaded: the words arrive one after
  the other, each is read back at once, and what has been accepted is \<open>holds ws s\<close>.
\<close>

locale word_store =
  fixes wr :: "nat \<Rightarrow> u32 \<Rightarrow> 's \<Rightarrow> 's option"
    and rd :: "nat \<Rightarrow> 's \<Rightarrow> (u32 \<times> 's) option"
    and holds :: "u32 list \<Rightarrow> 's \<Rightarrow> bool"
    and cap :: nat
  assumes append_word: "holds ws s \<Longrightarrow> length ws < cap \<Longrightarrow>
    \<exists>s' s''. wr (4 * length ws) w s = Some s' \<and> rd (4 * length ws) s' = Some (w, s'') \<and> holds (ws @ [w]) s''"
begin

lemma append_words:
  "holds ws s \<Longrightarrow> length ws + length vs \<le> cap \<Longrightarrow>
     \<exists>s'. prog_loop wr rd (4 * length ws) vs s = Some (True, 4 * (length ws + length vs), s') \<and> holds (ws @ vs) s'"
proof (induction vs arbitrary: ws s)
  case (Cons v vs)
  obtain s' s'' where w: "wr (4 * length ws) v s = Some s'" "rd (4 * length ws) s' = Some (v, s'')"
    "holds (ws @ [v]) s''"
    using append_word [OF Cons.prems(1), of v] Cons.prems(2) by auto
  then show ?case using Cons.IH [OF w(3)] Cons.prems(2) by (simp add: add.commute)
qed simp

lemma append_packets:
  "holds ws s \<Longrightarrow> length ws + length (concat vss) \<le> cap \<Longrightarrow>
     \<exists>s'. holds (ws @ concat vss) s' \<and>
       foldl (\<lambda>r vs. Option.bind r (\<lambda>(ok, a, s). if ok then prog_loop wr rd a vs s else Some (ok, a, s)))
         (Some (True, 4 * length ws, s)) vss = Some (True, 4 * (length ws + length (concat vss)), s')"
proof (induction vss arbitrary: ws s)
  case (Cons vs vss)
  obtain s' where "prog_loop wr rd (4 * length ws) vs s = Some (True, 4 * (length ws + length vs), s')"
    "holds (ws @ vs) s'"
    using append_words [OF Cons.prems(1), of vs] Cons.prems(2) by auto
  then show ?case using Cons.IH [of "ws @ vs" s'] Cons.prems(2) by (simp add: add.assoc)
qed simp

end

text \<open>
  What the cache and the flash hold after the words \<open>ws\<close>: the first eight in line 0 and not in
  flash, full pages behind them in flash, the rest in line 1.
\<close>

definition line0_of :: "nat \<Rightarrow> u32 list \<Rightarrow> flash_cache_line" where
  "line0_of b ws = \<lparr>fc_index = (if ws = [] then FC_CLEAN else word_of_nat (min (length ws) 8 - 1)), fc_start = b,
     fc_words = take 8 (ws @ replicate 8 0xffffffff)\<rparr>"

definition line1_of :: "nat \<Rightarrow> u32 list \<Rightarrow> flash_cache_line" where
  "line1_of b ws =
     (if length ws < 8 \<or> length ws mod 8 = 0 then fcl_reset
      else \<lparr>fc_index = word_of_nat (length ws mod 8 - 1), fc_start = b + 32 * (length ws div 8),
            fc_words = take 8 (drop (8 * (length ws div 8)) ws @ replicate 8 0xffffffff)\<rparr>)"

definition flash_of :: "'d flash_dev \<Rightarrow> nat \<Rightarrow> u32 list \<Rightarrow> 'd \<Rightarrow> bool" where
  "flash_of D cap ws d \<longleftrightarrow>
     (\<forall>i < cap. dev_read D d (APP_LOAD D + 4 * i)
        = (if 8 \<le> i \<and> i < 8 * (length ws div 8) then ws ! i else 0xffffffff))"

definition staged :: "'d flash_dev \<Rightarrow> nat \<Rightarrow> u32 list \<Rightarrow> 'd flash_st \<Rightarrow> bool" where
  "staged D cap ws st \<longleftrightarrow> dev_ok D \<and> board_ok D cap \<and> length ws \<le> cap \<and> sems_free st \<and>
     line0 st = line0_of (APP_LOAD D) ws \<and> line1 st = line1_of (APP_LOAD D) ws \<and> flash_of D cap ws (dev st)"

lemma take_put:
  "length ws = k \<Longrightarrow> k < 8 \<Longrightarrow>
     (take 8 (ws @ replicate 8 x))[k := w] = take 8 ((ws @ [w]) @ replicate 8 (x :: u32))"
  by (rule nth_equalityI) (auto simp: nth_append nth_list_update)

lemma not_reset_tag: "b mod 32 = 0 \<Longrightarrow> b + 32 * q \<noteq> (0xffffffff :: nat)"
  by presburger

lemma staged_facts:
  assumes "staged D cap ws st"
  shows "APP_LOAD D mod 32 = 0" "dev_ok D" "board_ok D cap" "sems_free st" "length ws \<le> cap"
    "line0 st = line0_of (APP_LOAD D) ws" "line1 st = line1_of (APP_LOAD D) ws" "flash_of D cap ws (dev st)"
  using assms by (simp_all add: staged_def board_ok_def)

lemma line_starts [simp]:
  "fc_start (line0_of b ws) = b" "fc_start fcl_reset = 0xffffffff" "fc_index fcl_reset = FC_CLEAN"
  "fc_words fcl_reset = replicate 8 0xffffffff" "length (fc_words (line0_of b ws)) = 8"
  "length (fc_words (line1_of b ws)) = 8"
  by (simp_all add: line0_of_def line1_of_def fcl_reset_def)

lemma stage_line0:
  assumes "staged D cap ws st" and "length ws < 8" and "length ws < cap"
  shows "\<exists>s'. flash_func_write_word D (4 * length ws) w st = Some s' \<and>
    flash_func_read_word D (4 * length ws) s' = Some (w, s') \<and> staged D cap (ws @ [w]) s'"
proof -
  note f = staged_facts [OF assms(1)]
  let ?n = "length ws" and ?b = "APP_LOAD D"
  let ?s = "st\<lparr>line0 := line0_of ?b (ws @ [w])\<rparr>"
  have ti: "FC_TAG (4 * ?n + ?b) = ?b" "FC_ADDR2INDX (4 * ?n + ?b) = ?n"
    using tag_index [OF f(1), of ?n] assms(2) by simp_all
  have new: "(line0_of ?b ws)\<lparr>fc_words := (fc_words (line0_of ?b ws))[?n := w], fc_index := word_of_nat ?n\<rparr>
      = line0_of ?b (ws @ [w])"
    using take_put [OF refl assms(2), of _ w] assms(2) by (simp add: line0_of_def)
  have no_commit: "\<not> (?n = 0 \<and> fc_index (line0_of ?b ws) = 7)" by (simp add: line0_of_def)
  have "fc_write D (4 * ?n + ?b) w st = Some (0, ?s)"
    using ti new f(6) by (simp add: fc_write_def fc_line_select_def Let_def no_commit del: length_0_conv)
  moreover have "fc_words (line0_of ?b (ws @ [w])) ! ?n = w"
    using assms(2) by (simp add: line0_of_def nth_append)
  moreover have "line1_of ?b (ws @ [w]) = line1_of ?b ws"
  proof -
    have "length (ws @ [w]) < 8 \<or> length (ws @ [w]) mod 8 = 0" using assms(2) by (cases "?n = 7") auto
    then show ?thesis using assms(2) by (simp only: line1_of_def simp_thms if_True)
  qed
  moreover have "flash_of D cap (ws @ [w]) (dev st)"
  proof -
    have "8 * (length (ws @ [w]) div 8) \<le> 8" "?n div 8 = 0" using assms(2) by auto
    then show ?thesis using f(8) by (auto simp: flash_of_def)
  qed
  ultimately show ?thesis
    using f ti assms(3)
    by (simp add: flash_func_write_word_def flash_func_read_word_def fc_read_def fc_line_select_def staged_def
        sems_free_def Let_def)
qed

lemma line1_start: "length ws \<ge> 8 \<Longrightarrow> length ws mod 8 \<noteq> 0 \<Longrightarrow> fc_start (line1_of b ws) = b + 32 * (length ws div 8)"
  by (simp add: line1_of_def)

lemma line0_full: "length ws \<ge> 8 \<Longrightarrow> line0_of b (ws @ vs) = line0_of b ws"
  by (cases ws) (simp_all add: line0_of_def)

lemma below_pages: "i < 8 * (n div 8) \<Longrightarrow> i < (n :: nat)"
  by presburger

lemma flash_of_append:
  assumes "length (ws @ [w]) div 8 = length ws div 8"
  shows "flash_of D cap (ws @ [w]) d = flash_of D cap ws d"
proof -
  have "(ws @ [w]) ! i = ws ! i" if "i < 8 * (length ws div 8)" for i
    using below_pages [OF that] by (simp add: nth_append)
  then show ?thesis unfolding flash_of_def assms by auto
qed

lemma first_of_line: "take 8 ([w] @ replicate 8 x) = (replicate 8 x)[0 := w :: u32]"
  by (simp add: eval_nat_numeral)

lemma stage_fresh_line:
  assumes "staged D cap ws st" and "length ws \<ge> 8" and "length ws mod 8 = 0" and "length ws < cap"
  shows "\<exists>s'. flash_func_write_word D (4 * length ws) w st = Some s' \<and>
    flash_func_read_word D (4 * length ws) s' = Some (w, s') \<and> staged D cap (ws @ [w]) s'"
proof -
  note f = staged_facts [OF assms(1)]
  let ?n = "length ws" and ?b = "APP_LOAD D"
  let ?s = "st\<lparr>line1 := line1_of ?b (ws @ [w])\<rparr>"
  have ti: "FC_TAG (4 * ?n + ?b) = ?b + 32 * (?n div 8)" "FC_ADDR2INDX (4 * ?n + ?b) = 0"
    using tag_index [OF f(1), of ?n] assms(3) by simp_all
  have n: "Suc ?n mod 8 = 1" "Suc ?n div 8 = ?n div 8" "?n div 8 > 0" "32 * (?n div 8) = 4 * ?n"
    using assms(2,3) by (auto simp: mod_Suc div_Suc)
  have drop: "drop (8 * (?n div 8)) (ws @ [w]) = [w]" using assms(3) n(4) by simp
  have l1: "line1 st = fcl_reset" using f(7) assms(3) by (simp add: line1_of_def)
  have new: "\<lparr>fc_index = 0, fc_start = 4 * ?n + ?b, fc_words = (replicate 8 0xffffffff)[0 := w]\<rparr> = line1_of ?b (ws @ [w])"
    using n assms(2) by (simp add: line1_of_def drop first_of_line [symmetric])
  have "fc_write D (4 * ?n + ?b) w st = Some (0, ?s)"
    using ti f(6) n(3) l1 not_reset_tag [OF f(1), of "?n div 8"] new [symmetric]
    by (simp add: fc_write_def fc_line_select_def Let_def fcl_reset_def)
  moreover have "fc_words (line1_of ?b (ws @ [w])) ! 0 = w" by (simp add: new [symmetric])
  moreover have "fc_start (line1_of ?b (ws @ [w])) = ?b + 32 * (?n div 8)" using n(4) by (simp add: new [symmetric])
  ultimately show ?thesis
    using f ti assms(2,4) n(2,3) flash_of_append [of ws w D cap "dev st"]
    by (simp add: flash_func_write_word_def flash_func_read_word_def fc_read_def fc_line_select_def staged_def
        sems_free_def Let_def line0_full)
qed

lemma line1_grow:
  assumes "length ws \<ge> 8" and "length ws mod 8 \<noteq> 0" and "fl = line1_of b ws"
  shows "fl\<lparr>fc_words := (fc_words fl)[length ws mod 8 := w], fc_index := word_of_nat (length ws mod 8)\<rparr>
    = \<lparr>fc_index = word_of_nat (length ws mod 8), fc_start = b + 32 * (length ws div 8),
        fc_words = take 8 (drop (8 * (length ws div 8)) (ws @ [w]) @ replicate 8 0xffffffff)\<rparr>"
proof -
  let ?q = "8 * (length ws div 8)"
  have l: "length (drop ?q ws) = length ws mod 8" by (simp add: minus_mult_div_eq_mod)
  have "drop ?q (ws @ [w]) = drop ?q ws @ [w]" by simp
  then show ?thesis using take_put [OF l, of _ w] assms by (simp add: line1_of_def)
qed

lemma write_line1:
  assumes "staged D cap ws st" and "length ws \<ge> 8" and "length ws mod 8 \<noteq> 0"
  shows "flash_func_write_word D (4 * length ws) w st = Some (st\<lparr>line1 :=
    \<lparr>fc_index = word_of_nat (length ws mod 8), fc_start = APP_LOAD D + 32 * (length ws div 8),
     fc_words = take 8 (drop (8 * (length ws div 8)) (ws @ [w]) @ replicate 8 0xffffffff)\<rparr>\<rparr>)"
proof -
  note f = staged_facts [OF assms(1)]
  have "length ws div 8 > 0" using assms(2) by (simp add: div_greater_zero_iff)
  then show ?thesis
    unfolding line1_grow [OF assms(2,3) refl, symmetric]
    using f(6) tag_index [OF f(1), of "length ws"] assms(3) line1_start [OF assms(2,3)] f(7)
    by (simp add: flash_func_write_word_def fc_write_def fc_line_select_def Let_def)
qed

lemma stage_line1:
  assumes "staged D cap ws st" and "length ws \<ge> 8" and "length ws mod 8 \<noteq> 0" and "length ws mod 8 \<noteq> 7"
    and "length ws < cap"
  shows "\<exists>s'. flash_func_write_word D (4 * length ws) w st = Some s' \<and>
    flash_func_read_word D (4 * length ws) s' = Some (w, s') \<and> staged D cap (ws @ [w]) s'"
proof -
  note f = staged_facts [OF assms(1)]
  let ?n = "length ws" and ?b = "APP_LOAD D"
  have n: "Suc ?n mod 8 = Suc (?n mod 8)" "Suc ?n div 8 = ?n div 8" "?n div 8 > 0"
    using assms(2-4) by (auto simp: mod_Suc div_Suc)
  have new: "\<lparr>fc_index = word_of_nat (?n mod 8), fc_start = ?b + 32 * (?n div 8),
     fc_words = take 8 (drop (8 * (?n div 8)) (ws @ [w]) @ replicate 8 0xffffffff)\<rparr> = line1_of ?b (ws @ [w])"
    using assms(2) by (simp add: line1_of_def n)
  have "fc_words (line1_of ?b (ws @ [w])) ! (?n mod 8) = w"
    unfolding new [symmetric] by (simp add: nth_append minus_mult_div_eq_mod)
  moreover have "fc_start (line1_of ?b (ws @ [w])) = ?b + 32 * (?n div 8)" unfolding new [symmetric] by simp
  ultimately show ?thesis
    using f tag_index [OF f(1), of ?n] assms(2,4,5) n flash_of_append [of ws w D cap "dev st"]
      write_line1 [OF assms(1-3), of w, unfolded new]
    by (simp add: flash_func_read_word_def fc_read_def fc_line_select_def staged_def
        sems_free_def Let_def line0_full)
qed

lemma page_programmed:
  assumes "dev_ok D" and "board_ok D cap" and "flash_of D cap ws d" and "length ws = 8 * q + 7"
    and "8 * q + 8 \<le> cap" and "q > 0" and "a = APP_LOAD D + 32 * q"
    and "vs = take 8 (drop (8 * q) (ws @ [w]) @ replicate 8 0xffffffff)"
  shows "erased D a d" and "flash_of D cap (ws @ [w]) (snd (dev_program D a vs d))"
proof -
  show e: "erased D a d"
    unfolding erased_def
  proof (intro allI impI)
    fix i :: nat assume "i < 8"
    then have "dev_read D d (APP_LOAD D + 4 * (8 * q + i)) = 0xffffffff"
      using assms(3) [unfolded flash_of_def, rule_format, of "8 * q + i"] assms(4,5) by simp
    then show "dev_read D d (a + 4 * i) = 0xffffffff" using assms(7) by (simp add: add.assoc)
  qed
  have vs: "length vs = 8" "\<And>i. i < 8 \<Longrightarrow> vs ! i = (ws @ [w]) ! (8 * q + i)"
    using assms(4,8) by (simp_all add: nth_append)
  have "a mod 32 = 0" using assms(2,7) by (auto simp: board_ok_def)
  note p = dev_okD(2,3) [OF assms(1) this vs(1) e]
  show "flash_of D cap (ws @ [w]) (snd (dev_program D a vs d))"
    unfolding flash_of_def
  proof (intro allI impI)
    fix i assume i: "i < cap"
    let ?x = "APP_LOAD D + 4 * i"
    have n: "length (ws @ [w]) div 8 = Suc q" "length ws div 8 = q" using assms(4) by auto
    consider "i < 8 * q" | "8 * q \<le> i" "i < 8 * q + 8" | "8 * q + 8 \<le> i" by linarith
    then show "dev_read D (snd (dev_program D a vs d)) ?x
        = (if 8 \<le> i \<and> i < 8 * (length (ws @ [w]) div 8) then (ws @ [w]) ! i else 0xffffffff)"
    proof cases
      case 1
      then have "dev_read D (snd (dev_program D a vs d)) ?x = dev_read D d ?x" using assms(7) by (intro p(2)) simp
      then show ?thesis using 1 i assms(3,4) n by (simp add: flash_of_def nth_append)
    next
      case 2
      have "dev_read D (snd (dev_program D a vs d)) (a + 4 * (i - 8 * q)) = vs ! (i - 8 * q)"
        using 2 by (intro p(1)) simp
      moreover have "a + 4 * (i - 8 * q) = ?x" using 2 assms(7) by simp
      ultimately show ?thesis using 2 vs(2) [of "i - 8 * q"] n assms(6) by simp
    next
      case 3
      then have "dev_read D (snd (dev_program D a vs d)) ?x = dev_read D d ?x" using assms(7) by (intro p(2)) simp
      then show ?thesis using 3 i assms(3) n by (simp add: flash_of_def)
    qed
  qed
qed

lemma flush_page:
  assumes "dev_ok D" and "board_ok D cap" and "8 * q + 8 \<le> cap" and "fc_start fl = APP_LOAD D + 32 * q"
    and "sems_free st" and "length (fc_words fl) = 8" and "fc_index fl = 7" and "erased D (fc_start fl) (dev st)"
  shows "fc_flush D fl st = Some (0, st\<lparr>dev := snd (dev_program D (fc_start fl) (fc_words fl) (dev st))\<rparr>)"
  using write_page [OF assms(1-5,6,8)] assms(7) by (simp add: fc_flush_def)

lemma stage_full_line:
  assumes "staged D cap ws st" and "length ws \<ge> 8" and "length ws mod 8 = 7" and "length ws < cap"
  shows "\<exists>s' s''. flash_func_write_word D (4 * length ws) w st = Some s' \<and>
    flash_func_read_word D (4 * length ws) s' = Some (w, s'') \<and> staged D cap (ws @ [w]) s''"
proof -
  note f = staged_facts [OF assms(1)]
  let ?n = "length ws" and ?b = "APP_LOAD D"
  define q where "q = ?n div 8"
  let ?fl = "\<lparr>fc_index = word_of_nat (?n mod 8), fc_start = ?b + 32 * q,
     fc_words = take 8 (drop (8 * q) (ws @ [w]) @ replicate 8 0xffffffff)\<rparr>"
  let ?s = "st\<lparr>line1 := ?fl\<rparr>"
  have n: "?n = 8 * q + 7" "q > 0" using assms(2,3) mult_div_mod_eq [of 8 ?n] by (simp_all add: q_def div_greater_zero_iff)
  have "cap mod 8 = 0" using f(3) by (simp add: board_ok_def)
  then have cap: "8 * q + 8 \<le> cap" using assms(4) n(1) by presburger
  note p = page_programmed(1) [OF f(2,3,8) n(1) cap n(2) refl refl]
    page_programmed(2) [OF f(2,3,8) n(1) cap n(2) refl refl, of w]
  have wr: "flash_func_write_word D (4 * ?n) w st = Some ?s"
    using write_line1 [OF assms(1,2), of w] assms(3) by (simp add: q_def)
  have sel: "fc_line_select (4 * ?n + ?b) ?s = Some True" "FC_ADDR2INDX (4 * ?n + ?b) = 7"
    using tag_index [OF f(1), of ?n] f(6) n(2) assms(3) by (simp_all add: fc_line_select_def flip: q_def)
  have flush: "fc_flush D ?fl ?s = Some (0, ?s\<lparr>dev := snd (dev_program D (?b + 32 * q) (fc_words ?fl) (dev st))\<rparr>)"
    using flush_page [OF f(2,3) cap, of ?fl ?s] p(1) f(4) n(1) assms(3) by (simp add: sems_free_def)
  have w: "fc_words ?fl ! 7 = w" using n(1) by (simp add: nth_append)
  have "line1_of ?b (ws @ [w]) = fcl_reset" using n(1) by (simp add: line1_of_def)
  then have "staged D cap (ws @ [w]) (?s\<lparr>dev := snd (dev_program D (?b + 32 * q) (fc_words ?fl) (dev st)),
      line1 := fcl_reset\<rparr>)"
    using f p(2) assms(2,4) by (simp add: staged_def sems_free_def line0_full)
  moreover have "flash_func_read_word D (4 * ?n) ?s
      = Some (w, ?s\<lparr>dev := snd (dev_program D (?b + 32 * q) (fc_words ?fl) (dev st)), line1 := fcl_reset\<rparr>)"
    using sel flush w by (simp add: flash_func_read_word_def fc_read_def Let_def)
  ultimately show ?thesis using wr by blast
qed

interpretation flash_store: word_store "flash_func_write_word D" "flash_func_read_word D" "staged D cap" cap
  for D :: "'d flash_dev" and cap
proof
  fix ws st w assume s: "staged D cap ws st" "length ws < cap"
  consider "length ws < 8" | "length ws \<ge> 8" "length ws mod 8 = 0" | "length ws \<ge> 8" "length ws mod 8 = 7"
    | "length ws \<ge> 8" "length ws mod 8 \<noteq> 0" "length ws mod 8 \<noteq> 7" by linarith
  then show "\<exists>s' s''. flash_func_write_word D (4 * length ws) w st = Some s' \<and>
      flash_func_read_word D (4 * length ws) s' = Some (w, s'') \<and> staged D cap (ws @ [w]) s''"
  proof cases
    case 1 from stage_line0 [OF s(1) this s(2), of w] show ?thesis by blast
  next
    case 2 from stage_fresh_line [OF s(1) this s(2), of w] show ?thesis by blast
  next
    case 3 from stage_full_line [OF s(1) this s(2), of w] show ?thesis .
  next
    case 4 from stage_line1 [OF s(1) this s(2), of w] show ?thesis by blast
  qed
qed

section \<open>Committing the image\<close>

lemma flush_fragment:
  assumes "staged D cap ws st" and "8 \<le> length ws" and "length ws mod 8 \<noteq> 0" and "sems_free st'"
  shows "fc_flush D (line1_of (APP_LOAD D) ws) st' = Some (0, st')"
proof -
  note f = staged_facts [OF assms(1)]
  let ?n = "length ws" and ?q = "length ws div 8"
  have "cap mod 8 = 0" using f(3) by (simp add: board_ok_def)
  moreover have "8 * ?q + ?n mod 8 = ?n" by simp
  ultimately have cap: "8 * ?q + 8 \<le> cap" using f(5) assms(3) by presburger
  have k: "0 < ?n mod 8" "?n mod 8 < 8" using assms(3) by simp_all
  have "unat ((word_of_nat (?n mod 8 - 1) + 1 :: u32) * 4) = 4 * (?n mod 8)"
  proof -
    have "(word_of_nat (?n mod 8 - 1) + 1 :: u32) * 4 = word_of_nat (4 * (?n mod 8))"
      using k(1) by simp
    moreover have "unat (word_of_nat (4 * (?n mod 8)) :: u32) = 4 * (?n mod 8)"
      using k(2) by (simp only: unat_of_nat) simp
    ultimately show ?thesis by (simp only:)
  qed
  then show ?thesis
    using write_fragment [OF f(2,3) cap refl assms(4), of "4 * (?n mod 8)"] assms(2,3) k(2)
    by (simp add: fc_flush_def line1_of_def Let_def)
qed

lemma commit_line0:
  fixes w :: u32
  assumes "staged D cap ws st" and "8 \<le> length ws"
  defines "vs \<equiv> (take 8 ws)[0 := w]"
  shows "erased D (APP_LOAD D) (dev st)"
    and "fc_flush D ((line0_of (APP_LOAD D) ws)\<lparr>fc_words := vs\<rparr>) (st\<lparr>line0 := l\<rparr>)
      = Some (0, st\<lparr>line0 := l, dev := snd (dev_program D (APP_LOAD D) vs (dev st))\<rparr>)"
proof -
  note f = staged_facts [OF assms(1)]
  have cap: "8 \<le> cap" using f(5) assms(2) by simp
  show e: "erased D (APP_LOAD D) (dev st)" using f(8) cap by (simp add: erased_def flash_of_def)
  have "ws \<noteq> []" "min (length ws) 8 - 1 = 7" using assms(2) by auto
  then show "fc_flush D ((line0_of (APP_LOAD D) ws)\<lparr>fc_words := vs\<rparr>) (st\<lparr>line0 := l\<rparr>)
      = Some (0, st\<lparr>line0 := l, dev := snd (dev_program D (APP_LOAD D) vs (dev st))\<rparr>)"
    using flush_page [OF f(2,3), of 0 "(line0_of (APP_LOAD D) ws)\<lparr>fc_words := vs\<rparr>" "st\<lparr>line0 := l\<rparr>"]
      f(4) cap e assms(2) by (simp add: sems_free_def line0_of_def vs_def)
qed

lemma commit_first_word:
  assumes "staged D cap ws st" and "8 \<le> length ws"
  shows "\<exists>s'. flash_func_write_word D 0 w st = Some s' \<and> flash_func_read_word D 0 s' = Some (w, s') \<and>
    (\<forall>i < cap. dev_read D (dev s') (APP_LOAD D + 4 * i)
       = (if i < 8 * (length ws div 8) then (ws[0 := w]) ! i else 0xffffffff))"
proof -
  note f = staged_facts [OF assms(1)]
  let ?b = "APP_LOAD D" and ?vs = "(take 8 ws)[0 := w]"
  let ?l = "(line0_of ?b ws)\<lparr>fc_words := ?vs\<rparr>"
  let ?d = "snd (dev_program D ?b ?vs (dev st))"
  note c = commit_line0(1) [OF assms] commit_line0(2) [OF assms, of w]
  have ti: "FC_TAG ?b = ?b" "FC_ADDR2INDX ?b = 0" using tag_index [OF f(1), of 0] by simp_all
  have idx: "fc_index (line0_of ?b ws) = 7" "fc_words (line0_of ?b ws) = take 8 ws"
    using assms(2) by (auto simp: line0_of_def)
  have r: "line1_of ?b ws = fcl_reset" if "length ws mod 8 = 0" using that by (simp add: line1_of_def)
  have "sems_free (st\<lparr>line0 := ?l\<rparr>)" using f(4) by (simp add: sems_free_def)
  then have frag: "(if fc_is_dirty (line1 st) then fc_flush D (line1 st) (st\<lparr>line0 := ?l\<rparr>) else Some (0, st\<lparr>line0 := ?l\<rparr>))
      = Some (0, st\<lparr>line0 := ?l\<rparr>)"
    using flush_fragment [OF assms(1,2)] f(7) r by (cases "length ws mod 8 = 0") (simp_all add: fc_is_dirty_def)
  let ?s = "st\<lparr>line0 := fcl_reset, dev := ?d\<rparr>"
  have "fc_write D ?b w st = Some (0, ?s)"
    using f(6) ti idx frag c(2) [of ?l]
    by (cases "fc_is_dirty (line1 st)") (simp_all add: fc_write_def fc_line_select_def Let_def)
  then have wr: "flash_func_write_word D 0 w st = Some ?s" by (simp add: flash_func_write_word_def)
  have vs: "length ?vs = 8" using assms(2) by simp
  note p = dev_okD [OF f(2,1) vs c(1)]
  have rd: "dev_read D ?d (?b + 4 * i) = (if i < 8 * (length ws div 8) then (ws[0 := w]) ! i else 0xffffffff)"
    if "i < cap" for i
  proof (cases "i < 8")
    case True
    then have "i < 8 * (length ws div 8)" using assms(2) by presburger
    moreover have "0 < length ws" using assms(2) by linarith
    ultimately show ?thesis using p(2) [OF True] True assms(2) by (auto simp: nth_list_update)
  next
    case False
    then show ?thesis using p(3) [of "?b + 4 * i"] f(8) that by (simp add: flash_of_def)
  qed
  have "?b \<noteq> 0xffffffff" using not_reset_tag [OF f(1), of 0] by simp
  moreover have "fc_start (line1 st) \<noteq> ?b"
    using f(7) assms(2) not_reset_tag [OF f(1), of 0] by (auto simp: line1_of_def div_greater_zero_iff)
  ultimately have "flash_func_read_word D 0 ?s = Some (w, ?s)"
    using ti p(2) [of 0] assms(2) by (simp add: flash_func_read_word_def fc_read_def fc_line_select_def Let_def)
  then show ?thesis using wr rd by auto
qed

section \<open>The first word is not touched by the way\<close>

text \<open>
  Programming affects one page only, and an erase leaves an erased word erased.  As long as the
  first line caches the start of the application, nothing but the write of the first word with a
  full first line programs that page.
\<close>

definition dev_local :: "'d flash_dev \<Rightarrow> bool" where
  "dev_local D \<longleftrightarrow>
     (\<forall>a ws d x. x < a \<or> a + 32 \<le> x \<longrightarrow> dev_read D (snd (dev_program D a ws d)) x = dev_read D d x) \<and>
     (\<forall>a d x. dev_read D d x = 0xffffffff \<longrightarrow> dev_read D (snd (dev_erase D a d)) x = 0xffffffff)"

definition shielded :: "'d flash_dev \<Rightarrow> 'd flash_st \<Rightarrow> bool" where
  "shielded D f \<longleftrightarrow> fc_start (line0 f) = APP_LOAD D \<and> fc_start (line1 f) \<noteq> APP_LOAD D \<and>
     (fc_index (line1 f) = FC_CLEAN \<or> fc_index (line1 f) \<le> 7)"

definition withheld :: "'d flash_dev \<Rightarrow> 'd flash_st \<Rightarrow> bool" where
  "withheld D f \<longleftrightarrow> shielded D f \<and> dev_read D (dev f) (APP_LOAD D) = 0xffffffff"

lemma write_elsewhere:
  assumes "dev_local D" and "up_progmem_write D a ws n f = Some (r, f')" and "n \<le> 32" and "a mod 32 = 0"
    and "a \<noteq> APP_LOAD D" and "APP_LOAD D mod 32 = 0"
  shows "line0 f' = line0 f" and "line1 f' = line1 f"
    and "dev_read D (dev f') (APP_LOAD D) = dev_read D (dev f) (APP_LOAD D)"
proof -
  have far: "APP_LOAD D < a \<or> a + 32 \<le> APP_LOAD D" using assms(4-6) by presburger
  have p: "dev_read D (snd (program_pages D (n div 32) a ws d)) (APP_LOAD D) = dev_read D d (APP_LOAD D)" for d
  proof (cases "n = 32")
    case True
    obtain r d' where dp: "dev_program D a (take 8 ws) d = (r, d')" by (cases "dev_program D a (take 8 ws) d")
    have "dev_read D (snd (dev_program D a (take 8 ws) d)) (APP_LOAD D) = dev_read D d (APP_LOAD D)"
      using assms(1) far unfolding dev_local_def by blast
    then have "dev_read D d' (APP_LOAD D) = dev_read D d (APP_LOAD D)" by (simp add: dp)
    moreover have "n div 32 = Suc 0" using True by simp
    ultimately show ?thesis by (cases r) (simp_all add: dp)
  next
    case False
    then have "n div 32 = 0" using assms(3) by simp
    then show ?thesis by simp
  qed
  show "line0 f' = line0 f" "line1 f' = line1 f"
    using assms(2) by (auto simp: up_progmem_write_def Let_def sem_set_def split: option.splits if_splits prod.splits hw_result.splits)
  show "dev_read D (dev f') (APP_LOAD D) = dev_read D (dev f) (APP_LOAD D)"
    using assms(2) p [of "dev f"]
    by (auto simp: up_progmem_write_def Let_def sem_set_def FLASH_PAGE_SIZE_def
        split: option.splits if_splits prod.splits hw_result.splits)
qed

lemma flush_elsewhere:
  assumes "dev_local D" and "fc_flush D fl f = Some (r, f')" and "fc_start fl mod 32 = 0"
    and "fc_start fl \<noteq> APP_LOAD D" and "APP_LOAD D mod 32 = 0" and "fc_index fl = FC_CLEAN \<or> fc_index fl \<le> 7"
  shows "line0 f' = line0 f" and "line1 f' = line1 f"
    and "dev_read D (dev f') (APP_LOAD D) = dev_read D (dev f) (APP_LOAD D)"
proof -
  have n: "unat ((fc_index fl + 1) * 4) \<le> 32"
  proof (cases "fc_index fl = FC_CLEAN")
    case False
    then have "unat (fc_index fl) \<le> 7" using assms(6) by (simp add: word_le_nat_alt)
    then have "unat ((fc_index fl + 1) * 4) = (unat (fc_index fl) + 1) * 4" by (simp add: unat_word_ariths)
    with \<open>unat (fc_index fl) \<le> 7\<close> show ?thesis by simp
  qed simp
  obtain r' where "up_progmem_write D (fc_start fl) (fc_words fl) (unat ((fc_index fl + 1) * 4)) f = Some (r', f')"
    using assms(2) by (auto simp: fc_flush_def Let_def split: option.splits)
  from write_elsewhere [OF assms(1) this n assms(3,4,5)]
  show "line0 f' = line0 f" "line1 f' = line1 f"
    "dev_read D (dev f') (APP_LOAD D) = dev_read D (dev f) (APP_LOAD D)" .
qed

lemma read_keeps_shield:
  assumes "dev_local D" and "APP_LOAD D mod 32 = 0" and "shielded D f"
    and "flash_func_read_word D a f = Some (w, f')"
  shows "shielded D f' \<and> line0 f' = line0 f \<and> dev_read D (dev f') (APP_LOAD D) = dev_read D (dev f) (APP_LOAD D)"
proof (cases "a mod 4 = 0 \<and> fc_line_select (a + APP_LOAD D) f = Some True \<and> FC_ADDR2INDX (a + APP_LOAD D) = 7")
  case True
  have start: "fc_start (line1 f) mod 32 = 0" "fc_start (line1 f) \<noteq> APP_LOAD D"
    using True assms(3) by (auto simp: fc_line_select_def FC_TAG_def shielded_def minus_mod_eq_mult_div split: if_splits)
  have idx: "fc_index (line1 f) = FC_CLEAN \<or> fc_index (line1 f) \<le> 7" using assms(3) by (simp add: shielded_def)
  obtain r f1 where fl: "fc_flush D (line1 f) f = Some (r, f1)" "f' = (if r \<noteq> 0 then f1 else f1\<lparr>line1 := fcl_reset\<rparr>)"
    using assms(4) True by (auto simp: flash_func_read_word_def fc_read_def Let_def split: option.splits if_splits)
  have "APP_LOAD D \<noteq> 0xffffffff" using not_reset_tag [OF assms(2), of 0] by simp
  then show ?thesis
    using flush_elsewhere [OF assms(1) fl(1) start assms(2) idx] fl(2) assms(3) by (auto simp: shielded_def)
next
  case False
  then have "f' = f"
    using assms(4) by (auto simp: flash_func_read_word_def fc_read_def Let_def split: option.splits if_splits bool.splits)
  then show ?thesis using assms(3) by simp
qed

lemma read_keeps_withheld:
  assumes "dev_local D" and "APP_LOAD D mod 32 = 0" and "withheld D f"
    and "flash_func_read_word D a f = Some (w, f')"
  shows "withheld D f' \<and> line0 f' = line0 f"
  using read_keeps_shield [OF assms(1,2) _ assms(4)] assms(3) by (auto simp: withheld_def)

lemma write_keeps_withheld:
  assumes "APP_LOAD D mod 32 = 0" and "withheld D f" and "a mod 4 = 0" and "a \<noteq> 0 \<or> fc_index (line0 f) \<noteq> 7"
    and "flash_func_write_word D a w f = Some f'"
  shows "withheld D f'" and "fc_index (line0 f') = (if a < 32 then word_of_nat (a div 4) else fc_index (line0 f))"
proof -
  obtain n where a: "a = 4 * n" using assms(3) by auto
  have ti: "FC_TAG (a + APP_LOAD D) = APP_LOAD D + 32 * (n div 8)" "FC_ADDR2INDX (a + APP_LOAD D) = n mod 8"
    using tag_index [OF assms(1), of n] a by simp_all
  have idx: "(word_of_nat (n mod 8) :: u32) \<le> 7" by (simp add: word_le_nat_alt unat_of_nat)
  have "withheld D f' \<and> fc_index (line0 f') = (if a < 32 then word_of_nat (a div 4) else fc_index (line0 f))"
  proof (cases "n < 8")
    case True
    then have "fc_line_select (a + APP_LOAD D) f = Some False" "n mod 8 = n"
      using ti assms(2) by (simp_all add: fc_line_select_def withheld_def shielded_def)
    moreover have "\<not> (n = 0 \<and> fc_index (line0 f) = 7)" using assms(4) a by auto
    ultimately show ?thesis
      using assms(2,5) ti a True
      by (auto simp: flash_func_write_word_def fc_write_def Let_def withheld_def shielded_def)
  next
    case False
    then have "fc_line_select (a + APP_LOAD D) f \<noteq> Some False" "n div 8 > 0"
      using ti assms(2) by (auto simp: fc_line_select_def withheld_def shielded_def div_greater_zero_iff)
    then show ?thesis
      using assms(2,5) ti a False idx
      by (cases "fc_line_select (a + APP_LOAD D) f")
        (auto simp: flash_func_write_word_def fc_write_def Let_def withheld_def shielded_def split: if_splits)
  qed
  then show "withheld D f'" "fc_index (line0 f') = (if a < 32 then word_of_nat (a div 4) else fc_index (line0 f))"
    by simp_all
qed

lemma erase_keeps_withheld:
  assumes "dev_local D" and "withheld D f" and "flash_func_erase_sector D i f = Some f'"
  shows "withheld D f' \<and> line0 f' = line0 f"
proof -
  have e: "dev_read D (snd (dev_erase D a d)) x = 0xffffffff" if "dev_read D d x = 0xffffffff" for a d x
    using assms(1) that unfolding dev_local_def by blast
  show ?thesis
    using assms(2,3) e [of "dev f"]
    by (auto simp: flash_func_erase_sector_def up_progmem_eraseblock_def sem_set_def withheld_def shielded_def Let_def
        split: if_splits option.splits prod.splits bool.splits) (metis snd_conv)+
qed

lemma erase_keeps_shield:
  "flash_func_erase_sector D i f = Some f' \<Longrightarrow> shielded D f' = shielded D f \<and> line0 f' = line0 f"
  by (auto simp: flash_func_erase_sector_def up_progmem_eraseblock_def sem_set_def shielded_def Let_def
      split: if_splits option.splits prod.splits bool.splits)

lemma unlock_shielded:
  "APP_LOAD D mod 32 = 0 \<Longrightarrow>
     shielded D (arch_flash_unlock D f) \<and> fc_index (line0 (arch_flash_unlock D f)) = FC_CLEAN"
  using not_reset_tag [of "APP_LOAD D" 0] by (simp add: shielded_def arch_flash_unlock_def fc_reset_def)

lemma unlock_withheld:
  "APP_LOAD D mod 32 = 0 \<Longrightarrow> dev_read D (dev f) (APP_LOAD D) = 0xffffffff \<Longrightarrow>
     withheld D (arch_flash_unlock D f) \<and> fc_index (line0 (arch_flash_unlock D f)) \<noteq> 7"
  using not_reset_tag [of "APP_LOAD D" 0]
  by (simp add: withheld_def shielded_def arch_flash_unlock_def fc_reset_def)

lemma prog_keeps_withheld:
  assumes "dev_local D" and "APP_LOAD D mod 32 = 0"
  shows "prog_loop (flash_func_write_word D) (flash_func_read_word D) a ws f = Some (ok, a', f') \<Longrightarrow>
    withheld D f \<Longrightarrow> a mod 4 = 0 \<Longrightarrow> a = 0 \<longrightarrow> fc_index (line0 f) \<noteq> 7 \<Longrightarrow>
    withheld D f' \<and> a' mod 4 = 0 \<and> (a' = 0 \<longrightarrow> fc_index (line0 f') \<noteq> 7)"
proof (induction ws arbitrary: a f)
  case (Cons w ws)
  obtain f1 r f2 where s: "flash_func_write_word D a w f = Some f1" "flash_func_read_word D a f1 = Some (r, f2)"
    using Cons.prems(1) by (auto split: option.splits)
  have wr: "withheld D f1" "fc_index (line0 f1) = (if a < 32 then word_of_nat (a div 4) else fc_index (line0 f))"
    using write_keeps_withheld [OF assms(2) Cons.prems(2,3) _ s(1)] Cons.prems(4) by auto
  have rd: "withheld D f2" "line0 f2 = line0 f1" using read_keeps_withheld [OF assms wr(1) s(2)] by auto
  show ?case
  proof (cases "r = w")
    case True
    then show ?thesis using Cons.IH [of "a + 4" f2] Cons.prems s rd by (auto simp: mod_add_eq)
  next
    case False
    then show ?thesis using Cons.prems s rd wr(2) by auto
  qed
qed simp

text \<open>The programming commands of an upload, one list of words per command.\<close>

definition prog_packets ::
  "'d flash_dev \<Rightarrow> u32 list list \<Rightarrow> 'd flash_st \<Rightarrow> (bool \<times> nat \<times> 'd flash_st) option" where
  "prog_packets D packets st =
     foldl (\<lambda>r ws. Option.bind r (\<lambda>(ok, a, s).
         if ok then prog_loop (flash_func_write_word D) (flash_func_read_word D) a ws s else Some (ok, a, s)))
       (Some (True, 0, st)) packets"

definition app_erased :: "'d flash_dev \<Rightarrow> nat \<Rightarrow> 'd flash_st \<Rightarrow> bool" where
  "app_erased D cap st \<longleftrightarrow> (\<forall>i < cap. dev_read D (dev st) (APP_LOAD D + 4 * i) = 0xffffffff)"

lemma staged_empty:
  "dev_ok D \<Longrightarrow> board_ok D cap \<Longrightarrow> sems_free st \<Longrightarrow> app_erased D cap st \<Longrightarrow> staged D cap [] (arch_flash_unlock D st)"
  by (simp add: staged_def arch_flash_unlock_def fc_reset_def sems_free_def line0_of_def line1_of_def fcl_reset_def
      flash_of_def app_erased_def)

lemma staged_packets:
  assumes "staged D cap [] st" and "length (concat packets) \<le> cap"
  shows "\<exists>s. prog_packets D packets st = Some (True, 4 * length (concat packets), s) \<and> staged D cap (concat packets) s"
  using flash_store.append_packets [OF assms(1), of packets] assms(2) by (auto simp: prog_packets_def)

lemma staged_first_erased: "staged D cap ws st \<Longrightarrow> 0 < cap \<Longrightarrow> dev_read D (dev st) (APP_LOAD D) = 0xffffffff"
  by (auto simp: staged_def flash_of_def dest!: spec [of _ 0])

text \<open>A flash that does what is relied on, with the application area behind the first block.\<close>

definition demo_dev :: "(nat \<Rightarrow> u32) flash_dev" where
  "demo_dev = \<lparr>dev_read = \<lambda>d a. d a, dev_ready = \<lambda>d. True,
     dev_program = \<lambda>a ws d. (Hw_ok, \<lambda>x. if a \<le> x \<and> x < a + 32 then ws ! ((x - a) div 4) else d x),
     dev_ecc = \<lambda>a d. False,
     dev_erase = \<lambda>a d. (True, \<lambda>x. if a \<le> x \<and> x < a + 128 * 1024 then 0xffffffff else d x),
     NBLOCKS = 16, APP_LOAD = 0x8020000, FLASH_SECTORS = 15, FIRST_SECTOR_TO_ERASE = 1\<rparr>"

definition demo_flash :: "(nat \<Rightarrow> u32) flash_st" where
  "demo_flash = \<lparr>line0 = fcl_reset, line1 = fcl_reset, dev = \<lambda>_. 0xffffffff, sem1 = False, sem2 = False\<rparr>"

lemma demo_dev_ok: "dev_ok demo_dev" "board_ok demo_dev 64" "sems_free demo_flash" "app_erased demo_dev 64 demo_flash"
  by (auto simp: dev_ok_def demo_dev_def board_ok_def sems_free_def demo_flash_def app_erased_def
      STM32_FLASH_BANK1_def FLASH_SECTOR_SIZE_def)

text \<open>Between whole pages every word of the image can be read without side effects.\<close>

lemma staged_read:
  assumes "staged D cap ws st" and "length ws mod 8 = 0" and "i < cap"
  shows "flash_func_read_word D (4 * i) st = Some (if i < length ws then ws ! i else 0xffffffff, st)"
proof -
  note f = staged_facts [OF assms(1)]
  have ti: "FC_TAG (4 * i + APP_LOAD D) = APP_LOAD D + 32 * (i div 8)" "FC_ADDR2INDX (4 * i + APP_LOAD D) = i mod 8"
    using tag_index [OF f(1), of i] .
  have l1: "line1 st = fcl_reset" using f(7) assms(2) by (simp add: line1_of_def)
  have n: "8 * (length ws div 8) = length ws" using assms(2) by auto
  show ?thesis
  proof (cases "i < 8")
    case True
    then have "fc_line_select (4 * i + APP_LOAD D) st = Some False" using ti(1) f(6) by (simp add: fc_line_select_def)
    moreover have "fc_words (line0 st) ! i = (if i < length ws then ws ! i else 0xffffffff)"
      using True f(6) by (simp add: line0_of_def nth_append)
    ultimately show ?thesis using True ti(2) by (simp add: flash_func_read_word_def fc_read_def)
  next
    case False
    then have "i div 8 > 0" by (simp add: div_greater_zero_iff)
    then have "fc_line_select (4 * i + APP_LOAD D) st = None"
      using ti(1) f(6) l1 not_reset_tag [OF f(1), of "i div 8"] by (simp add: fc_line_select_def)
    moreover have "dev_read D (dev st) (4 * i + APP_LOAD D) = (if i < length ws then ws ! i else 0xffffffff)"
      using f(8) assms(3) False n by (simp add: flash_of_def add.commute)
    ultimately show ?thesis by (simp add: flash_func_read_word_def fc_read_def)
  qed
qed

section \<open>Properties\<close>



text \<open>
  The words behind the last whole page of an image are lost: every word is read back
  correctly while it is sent, the first word is accepted and read back, but what does not fill a
  page is never programmed.
\<close>

theorem upload_loses_fragment:
  assumes "dev_ok D" and "board_ok D cap" and "sems_free st" and "app_erased D cap st"
    and "concat packets = 0xffffffff # ws" and "length ws < cap" and "8 \<le> length (first # ws)"
  shows "\<exists>s s'. prog_packets D packets (arch_flash_unlock D st) = Some (True, 4 * length (first # ws), s)
    \<and> flash_func_write_word D 0 first s = Some s' \<and> flash_func_read_word D 0 s' = Some (first, s')
    \<and> (\<forall>i. 8 * (length (first # ws) div 8) \<le> i \<and> i < length (first # ws) \<longrightarrow>
         dev_read D (dev s') (APP_LOAD D + 4 * i) = 0xffffffff)"
proof -
  obtain s where s: "prog_packets D packets (arch_flash_unlock D st) = Some (True, 4 * length (first # ws), s)"
    "staged D cap (0xffffffff # ws) s"
    using staged_packets [OF staged_empty [OF assms(1-4)], of packets] assms(5,6) by auto
  then show ?thesis using commit_first_word [OF s(2), of first] assms(6,7) by fastforce
qed

theorem upload_loses_fragment_witness:
  "\<exists>s s'. prog_packets demo_dev [[0xffffffff, 2, 3, 4, 5, 6, 7, 8, 9]] (arch_flash_unlock demo_dev demo_flash)
       = Some (True, 36, s)
     \<and> flash_func_write_word demo_dev 0 1 s = Some s' \<and> dev_read demo_dev (dev s') 0x8020020 = 0xffffffff"
proof -
  have "APP_LOAD demo_dev = 0x8020000" by (simp add: demo_dev_def)
  then show ?thesis
    using upload_loses_fragment [OF demo_dev_ok, of "[[0xffffffff, 2, 3, 4, 5, 6, 7, 8, 9]]" "[2, 3, 4, 5, 6, 7, 8, 9]" 1]
    by (auto dest!: spec [of _ 8])
qed

end
