(* ===== verification/Bl_Serial.thy ===== *)
theory Bl_Serial
  imports Crc Bl_Flash "HOL-Library.Monad_Syntax"
begin

text \<open>
  The serial bootloader (\<open>bootloader/common/bl.c\<close>): byte input and output over USB or USART, the
  millisecond timers, the answers and the command loop with every command of the protocol.

  What happens outside is a list of happenings, ticks of the millisecond timer and bytes that
  arrive; whenever the program polls in vain, the next of them takes place.  \<open>None\<close> means that
  the program still waits when the list ends, or that it blocks in the flash driver.
\<close>

section \<open>State\<close>

datatype iface = NONE | USART | USB

datatype led_state = LED_BLINK | LED_ON | LED_OFF

datatype bl_event =
    Sent iface "u8 list"
  | Led_on nat
  | Led_off nat
  | Led_toggle nat
  | Systic_init

datatype happening = Tick | Rx iface u8

abbreviation TIMER_BL_WAIT :: nat where "TIMER_BL_WAIT \<equiv> 0"
abbreviation TIMER_CIN :: nat where "TIMER_CIN \<equiv> 1"
abbreviation TIMER_LED :: nat where "TIMER_LED \<equiv> 2"
abbreviation TIMER_DELAY :: nat where "TIMER_DELAY \<equiv> 3"
abbreviation LED_ACTIVITY :: nat where "LED_ACTIVITY \<equiv> 1"
abbreviation LED_BOOTLOADER :: nat where "LED_BOOTLOADER \<equiv> 2"

text \<open>The board: what \<open>board_info\<close> and the configuration header say, and the identification words.\<close>

record 'd bl_board =
  board_dev :: "'d flash_dev"
  board_type :: u32
  board_rev :: u32
  fw_size :: nat
  usb_enabled :: bool
  usart_enabled :: bool
  read_sn :: "nat \<Rightarrow> u32"
  SN_MAX_LENGTH :: nat
  mcu_idcode :: u32
  BOOT_DELAY_ADDRESS :: "nat option"

text \<open>
  The state: flash, drivers (bytes received and not yet read), the static variables of \<open>bl.c\<close>
  and the local variables of the command loop.
\<close>

record 'd bl =
  flash :: "'d flash_st"
  usb_rx :: "u8 list"
  usart_rx :: "u8 list"
  bl_type :: iface
  last_input :: iface
  timers :: "nat list"
  led_st :: led_state
  cin_count :: u32
  crctab :: "u32 list"
  flash_buffer :: "u8 list"
  bl_state :: u32
  address :: nat
  first_word :: u32
  bl_timeout :: nat
  bl_out :: "bl_event list"
  happenings :: "happening list"

abbreviation PROTO_INSYNC :: u8 where "PROTO_INSYNC \<equiv> 0x12"
abbreviation PROTO_EOC :: u8 where "PROTO_EOC \<equiv> 0x20"
abbreviation PROTO_OK :: u8 where "PROTO_OK \<equiv> 0x10"
abbreviation PROTO_FAILED :: u8 where "PROTO_FAILED \<equiv> 0x11"
abbreviation PROTO_INVALID :: u8 where "PROTO_INVALID \<equiv> 0x13"
abbreviation PROTO_GET_SYNC :: u8 where "PROTO_GET_SYNC \<equiv> 0x21"
abbreviation PROTO_GET_DEVICE :: u8 where "PROTO_GET_DEVICE \<equiv> 0x22"
abbreviation PROTO_CHIP_ERASE :: u8 where "PROTO_CHIP_ERASE \<equiv> 0x23"
abbreviation PROTO_PROG_MULTI :: u8 where "PROTO_PROG_MULTI \<equiv> 0x27"
abbreviation PROTO_GET_CRC :: u8 where "PROTO_GET_CRC \<equiv> 0x29"
abbreviation PROTO_GET_OTP :: u8 where "PROTO_GET_OTP \<equiv> 0x2a"
abbreviation PROTO_GET_SN :: u8 where "PROTO_GET_SN \<equiv> 0x2b"
abbreviation PROTO_GET_CHIP :: u8 where "PROTO_GET_CHIP \<equiv> 0x2c"
abbreviation PROTO_SET_DELAY :: u8 where "PROTO_SET_DELAY \<equiv> 0x2d"
abbreviation PROTO_GET_CHIP_DES :: u8 where "PROTO_GET_CHIP_DES \<equiv> 0x2e"
abbreviation PROTO_BOOT :: u8 where "PROTO_BOOT \<equiv> 0x30"
abbreviation PROTO_DEBUG :: u8 where "PROTO_DEBUG \<equiv> 0x31"

abbreviation STATE_PROTO_GET_SYNC :: u32 where "STATE_PROTO_GET_SYNC \<equiv> 0x1"
abbreviation STATE_PROTO_GET_DEVICE :: u32 where "STATE_PROTO_GET_DEVICE \<equiv> 0x2"
abbreviation STATE_PROTO_CHIP_ERASE :: u32 where "STATE_PROTO_CHIP_ERASE \<equiv> 0x4"
abbreviation STATE_PROTO_PROG_MULTI :: u32 where "STATE_PROTO_PROG_MULTI \<equiv> 0x8"
abbreviation STATE_PROTO_GET_CRC :: u32 where "STATE_PROTO_GET_CRC \<equiv> 0x10"
abbreviation STATE_PROTO_GET_SN :: u32 where "STATE_PROTO_GET_SN \<equiv> 0x40"
abbreviation STATE_PROTO_GET_CHIP :: u32 where "STATE_PROTO_GET_CHIP \<equiv> 0x80"
abbreviation STATE_PROTO_GET_CHIP_DES :: u32 where "STATE_PROTO_GET_CHIP_DES \<equiv> 0x100"
abbreviation STATE_ALLOWS_ERASE :: u32 where "STATE_ALLOWS_ERASE \<equiv> STATE_PROTO_GET_SYNC OR STATE_PROTO_GET_DEVICE"
abbreviation STATE_ALLOWS_REBOOT :: u32 where
  "STATE_ALLOWS_REBOOT \<equiv> STATE_ALLOWS_ERASE OR STATE_PROTO_PROG_MULTI OR STATE_PROTO_GET_CRC"

definition bl_emit :: "bl_event \<Rightarrow> 'd bl \<Rightarrow> 'd bl" where
  "bl_emit e s = s\<lparr>bl_out := e # bl_out s\<rparr>"

definition SET_BL_STATE :: "u32 \<Rightarrow> 'd bl \<Rightarrow> 'd bl" where
  "SET_BL_STATE m s = s\<lparr>bl_state := bl_state s OR m\<rparr>"

section \<open>Bytes, timers and answers\<close>

definition cin :: "'d bl_board \<Rightarrow> 'd bl \<Rightarrow> u8 option \<times> 'd bl" where
  "cin B s =
     (if (bl_type s = NONE \<or> bl_type s = USB) \<and> usb_enabled B \<and> usb_rx s \<noteq> [] then
        (Some (hd (usb_rx s)), s\<lparr>usb_rx := tl (usb_rx s), last_input := USB\<rparr>)
      else if (bl_type s = NONE \<or> bl_type s = USART) \<and> usart_enabled B \<and> usart_rx s \<noteq> [] then
        (Some (hd (usart_rx s)), s\<lparr>usart_rx := tl (usart_rx s), last_input := USART\<rparr>)
      else (None, s))"

definition cout :: "u8 list \<Rightarrow> 'd bl \<Rightarrow> 'd bl" where
  "cout buf s = (case bl_type s of NONE \<Rightarrow> s | i \<Rightarrow> bl_emit (Sent i buf) s)"

definition sys_tick_handler :: "'d bl \<Rightarrow> 'd bl" where
  "sys_tick_handler s =
     (let s = s\<lparr>timers := map (\<lambda>t. if t > 0 then t - 1 else t) (timers s)\<rparr> in
      if led_st s = LED_BLINK \<and> timers s ! TIMER_LED = 0
      then (bl_emit (Led_toggle LED_BOOTLOADER) s)\<lparr>timers := (timers s)[TIMER_LED := 50]\<rparr> else s)"

definition happen :: "happening \<Rightarrow> 'd bl \<Rightarrow> 'd bl" where
  "happen h s =
     (case h of
        Tick \<Rightarrow> sys_tick_handler s
      | Rx USB b \<Rightarrow> s\<lparr>usb_rx := usb_rx s @ [b]\<rparr>
      | Rx USART b \<Rightarrow> s\<lparr>usart_rx := usart_rx s @ [b]\<rparr>
      | Rx NONE b \<Rightarrow> s)"

fun delay_loop :: "happening list \<Rightarrow> 'd bl \<Rightarrow> 'd bl option" where
  "delay_loop hs s =
     (if timers s ! TIMER_DELAY > 0
      then (case hs of [] \<Rightarrow> None | h # hs \<Rightarrow> delay_loop hs (happen h s))
      else Some (s\<lparr>happenings := hs\<rparr>))"

definition delay :: "nat \<Rightarrow> 'd bl \<Rightarrow> 'd bl option" where
  "delay msec s = delay_loop (happenings s) (s\<lparr>timers := (timers s)[TIMER_DELAY := msec]\<rparr>)"

definition led_set :: "led_state \<Rightarrow> 'd bl \<Rightarrow> 'd bl" where
  "led_set state s =
     (let s = s\<lparr>led_st := state\<rparr> in
      case state of
        LED_OFF \<Rightarrow> bl_emit (Led_off LED_BOOTLOADER) s
      | LED_ON \<Rightarrow> bl_emit (Led_on LED_BOOTLOADER) s
      | LED_BLINK \<Rightarrow> s\<lparr>timers := (timers s)[TIMER_LED := 0]\<rparr>)"

definition sync_response :: "'d bl \<Rightarrow> 'd bl" where "sync_response s = cout [PROTO_INSYNC, PROTO_OK] s"
definition invalid_response :: "'d bl \<Rightarrow> 'd bl" where "invalid_response s = cout [PROTO_INSYNC, PROTO_INVALID] s"
definition failure_response :: "'d bl \<Rightarrow> 'd bl" where "failure_response s = cout [PROTO_INSYNC, PROTO_FAILED] s"

fun cin_loop :: "'d bl_board \<Rightarrow> happening list \<Rightarrow> 'd bl \<Rightarrow> (u8 option \<times> 'd bl) option" where
  "cin_loop B hs s =
     (case cin B s of
        (Some c, s) \<Rightarrow> Some (Some c, s\<lparr>cin_count := cin_count s + 1, happenings := hs\<rparr>)
      | (None, s) \<Rightarrow>
          if timers s ! TIMER_CIN > 0
          then (case hs of [] \<Rightarrow> None | h # hs \<Rightarrow> cin_loop B hs (happen h s))
          else Some (None, s\<lparr>happenings := hs\<rparr>))"

definition cin_wait :: "'d bl_board \<Rightarrow> nat \<Rightarrow> 'd bl \<Rightarrow> (u8 option \<times> 'd bl) option" where
  "cin_wait B timeout s = cin_loop B (happenings s) (s\<lparr>timers := (timers s)[TIMER_CIN := timeout]\<rparr>)"

definition wait_for_eoc :: "'d bl_board \<Rightarrow> nat \<Rightarrow> 'd bl \<Rightarrow> (bool \<times> 'd bl) option" where
  "wait_for_eoc B timeout s = map_option (\<lambda>(c, s). (c = Some PROTO_EOC, s)) (cin_wait B timeout s)"

definition cout_word :: "u32 \<Rightarrow> 'd bl \<Rightarrow> 'd bl" where
  "cout_word v s = cout (bytes_of_u32 v) s"

fun cin_bytes :: "'d bl_board \<Rightarrow> nat \<Rightarrow> nat \<Rightarrow> 'd bl \<Rightarrow> (u8 list option \<times> 'd bl) option" where
  "cin_bytes B 0 timeout s = Some (Some [], s)"
| "cin_bytes B (Suc n) timeout s =
     do {
       (c, s) \<leftarrow> cin_wait B timeout s;
       case c of
         None \<Rightarrow> Some (None, s)
       | Some c \<Rightarrow> map_option (\<lambda>(cs, s). (map_option (Cons c) cs, s)) (cin_bytes B n timeout s)
     }"

definition cin_word :: "'d bl_board \<Rightarrow> nat \<Rightarrow> 'd bl \<Rightarrow> (u32 option \<times> 'd bl) option" where
  "cin_word B timeout s = map_option (\<lambda>(bs, s). (map_option u32_of_bytes bs, s)) (cin_bytes B 4 timeout s)"

declare cin_loop.simps [simp del] delay_loop.simps [simp del]

section \<open>The commands\<close>

text \<open>
  How a command ends: \<open>Sync\<close> is the break out of the switch, \<open>Bad\<close> and \<open>Failed\<close> are the jumps to
  \<open>cmd_bad\<close> and \<open>cmd_fail\<close>, \<open>Ignored\<close> the \<open>continue\<close> and \<open>Leave\<close> the return to the caller.
\<close>

datatype 'd outcome = Sync "'d bl" | Bad "'d bl" | Failed "'d bl" | Ignored "'d bl" | Leave "'d bl"

text \<open>Access to the flash from the command loop.\<close>

definition bl_read_word :: "'d bl_board \<Rightarrow> nat \<Rightarrow> 'd bl \<Rightarrow> (u32 \<times> 'd bl) option" where
  "bl_read_word B a s = map_option (\<lambda>(w, f). (w, s\<lparr>flash := f\<rparr>)) (flash_func_read_word (board_dev B) a (flash s))"

definition bl_write_word :: "'d bl_board \<Rightarrow> nat \<Rightarrow> u32 \<Rightarrow> 'd bl \<Rightarrow> 'd bl option" where
  "bl_write_word B a w s = map_option (\<lambda>f. s\<lparr>flash := f\<rparr>) (flash_func_write_word (board_dev B) a w (flash s))"

definition cmd_get_sync :: "'d bl_board \<Rightarrow> 'd bl \<Rightarrow> 'd outcome option" where
  "cmd_get_sync B s =
     do {
       (eoc, s) \<leftarrow> wait_for_eoc B 2 s;
       if \<not> eoc then Some (Bad s) else Some (Sync (SET_BL_STATE STATE_PROTO_GET_SYNC s))
     }"

fun vec_area :: "'d bl_board \<Rightarrow> nat list \<Rightarrow> 'd bl \<Rightarrow> 'd bl option" where
  "vec_area B [] s = Some s"
| "vec_area B (p # ps) s =
     do {
       (bytes, s) \<leftarrow> bl_read_word B (p * 4) s;
       vec_area B ps (cout (bytes_of_u32 bytes) s)
     }"

definition BL_PROTOCOL_VERSION :: u32 where "BL_PROTOCOL_VERSION = 5"

definition cmd_get_device :: "'d bl_board \<Rightarrow> 'd bl \<Rightarrow> 'd outcome option" where
  "cmd_get_device B s =
     do {
       (arg, s) \<leftarrow> cin_wait B 1000 s;
       case arg of
         None \<Rightarrow> Some (Bad s)
       | Some arg \<Rightarrow>
           do {
             (eoc, s) \<leftarrow> wait_for_eoc B 2 s;
             if \<not> eoc then Some (Bad s)
             else if arg = 1 then
               Some (Sync (SET_BL_STATE STATE_PROTO_GET_DEVICE (cout (bytes_of_u32 BL_PROTOCOL_VERSION) s)))
             else if arg = 2 then
               Some (Sync (SET_BL_STATE STATE_PROTO_GET_DEVICE (cout (bytes_of_u32 (board_type B)) s)))
             else if arg = 3 then
               Some (Sync (SET_BL_STATE STATE_PROTO_GET_DEVICE (cout (bytes_of_u32 (board_rev B)) s)))
             else if arg = 4 then
               Some (Sync (SET_BL_STATE STATE_PROTO_GET_DEVICE (cout (bytes_of_u32 (word_of_nat (fw_size B))) s)))
             else if arg = 5 then
               map_option (\<lambda>s. Sync (SET_BL_STATE STATE_PROTO_GET_DEVICE s)) (vec_area B [7, 8, 9, 10] s)
             else Some (Bad s)
           }
     }"

text \<open>The sectors are erased from 0 up to the first one that has no size.\<close>

fun erase_sectors :: "'d flash_dev \<Rightarrow> nat list \<Rightarrow> 'd flash_st \<Rightarrow> 'd flash_st option" where
  "erase_sectors D [] f = Some f"
| "erase_sectors D (i # is) f = Option.bind (flash_func_erase_sector D i f) (erase_sectors D is)"

definition sectors :: "'d flash_dev \<Rightarrow> nat list" where
  "sectors D = takeWhile (\<lambda>i. flash_func_sector_size D i \<noteq> 0) [0..<FLASH_SECTORS D + 2]"

text \<open>The addresses of the words of the application area.\<close>

definition word_addrs :: "nat \<Rightarrow> nat list" where
  "word_addrs n = map (\<lambda>i. 4 * i) [0..<(n + 3) div 4]"

fun verify_erase :: "'d bl_board \<Rightarrow> nat list \<Rightarrow> 'd bl \<Rightarrow> (bool \<times> 'd bl) option" where
  "verify_erase B [] s = Some (True, s)"
| "verify_erase B (a # as) s =
     do {
       (w, s) \<leftarrow> bl_read_word B a (s\<lparr>address := a\<rparr>);
       if w \<noteq> 0xffffffff then Some (False, s) else verify_erase B as s
     }"

definition cmd_chip_erase :: "'d bl_board \<Rightarrow> 'd bl \<Rightarrow> 'd outcome option" where
  "cmd_chip_erase B s =
     do {
       (eoc, s) \<leftarrow> wait_for_eoc B 2 s;
       if \<not> eoc then Some (Bad s)
       else if bl_state s AND STATE_ALLOWS_ERASE \<noteq> STATE_ALLOWS_ERASE then Some (Bad s)
       else
         do {
           let s = led_set LED_ON s;
           f \<leftarrow> erase_sectors (board_dev B) (sectors (board_dev B)) (arch_flash_unlock (board_dev B) (flash s));
           let s = led_set LED_OFF (s\<lparr>flash := f\<rparr>);
           (blank, s) \<leftarrow> verify_erase B (word_addrs (fw_size B)) s;
           if \<not> blank then Some (Failed s)
           else Some (Sync (led_set LED_BLINK (SET_BL_STATE STATE_PROTO_CHIP_ERASE (s\<lparr>address := 0\<rparr>))))
         }
     }"

text \<open>The bytes of a programming command go to \<open>flash_buffer\<close> one by one.\<close>

fun fill_buffer :: "'d bl_board \<Rightarrow> nat \<Rightarrow> nat \<Rightarrow> 'd bl \<Rightarrow> (bool \<times> 'd bl) option" where
  "fill_buffer B i 0 s = Some (True, s)"
| "fill_buffer B i (Suc n) s =
     do {
       (c, s) \<leftarrow> cin_wait B 1000 s;
       case c of
         None \<Rightarrow> Some (False, s)
       | Some c \<Rightarrow> fill_buffer B (Suc i) n (s\<lparr>flash_buffer := (flash_buffer s)[i := c]\<rparr>)
     }"

definition buffer_word :: "u8 list \<Rightarrow> nat \<Rightarrow> u32" where
  "buffer_word b i = u32_of_bytes (take 4 (drop (4 * i) b))"

text \<open>
  At address 0 the first word is kept back and replaced by one that can be overwritten later.
\<close>

definition defer_first :: "'d bl \<Rightarrow> 'd bl" where
  "defer_first s =
     (if address s = 0
      then s\<lparr>first_word := buffer_word (flash_buffer s) 0,
             flash_buffer := bytes_of_u32 0xffffffff @ drop 4 (flash_buffer s)\<rparr>
      else s)"

definition cmd_prog_multi :: "'d bl_board \<Rightarrow> 'd bl \<Rightarrow> 'd outcome option" where
  "cmd_prog_multi B s =
     do {
       (arg, s) \<leftarrow> cin_wait B 50 s;
       case arg of
         None \<Rightarrow> Some (Bad s)
       | Some arg \<Rightarrow>
           if unat arg mod 4 \<noteq> 0 then Some (Bad s)
           else if address s + unat arg > fw_size B then Some (Bad s)
           else if unat arg > 256 then Some (Bad s)
           else
             do {
               (got, s) \<leftarrow> fill_buffer B 0 (unat arg) s;
               if \<not> got then Some (Bad s)
               else
                 do {
                   (eoc, s) \<leftarrow> wait_for_eoc B 200 s;
                   if \<not> eoc then Some (Bad s)
                   else
                     do {
                       let s = defer_first s;
                       (ok, a, s) \<leftarrow> prog_loop (bl_write_word B) (bl_read_word B) (address s)
                         (map (buffer_word (flash_buffer s)) [0..<unat arg div 4]) s;
                       let s = s\<lparr>address := a\<rparr>;
                       if \<not> ok then Some (Failed s) else Some (Sync (SET_BL_STATE STATE_PROTO_PROG_MULTI s))
                     }
                 }
             }
     }"

fun crc_words :: "'d bl_board \<Rightarrow> nat list \<Rightarrow> u32 \<Rightarrow> 'd bl \<Rightarrow> (u32 \<times> 'd bl) option" where
  "crc_words B [] acc s = Some (acc, s)"
| "crc_words B (p # ps) acc s =
     do {
       (bytes, s) \<leftarrow> (if p = 0 \<and> first_word s \<noteq> 0xffffffff then Some (first_word s, s) else bl_read_word B p s);
       let (acc, tab) = bl_crc32 (bytes_of_u32 bytes) acc (crctab s);
       crc_words B ps acc (s\<lparr>crctab := tab\<rparr>)
     }"

definition cmd_get_crc :: "'d bl_board \<Rightarrow> 'd bl \<Rightarrow> 'd outcome option" where
  "cmd_get_crc B s =
     do {
       (eoc, s) \<leftarrow> wait_for_eoc B 2 s;
       if \<not> eoc then Some (Bad s)
       else
         do {
           (acc, s) \<leftarrow> crc_words B (word_addrs (fw_size B)) 0 s;
           Some (Sync (SET_BL_STATE STATE_PROTO_GET_CRC (cout_word acc s)))
         }
     }"

definition flash_func_read_otp :: "nat \<Rightarrow> u32" where "flash_func_read_otp a = 0"

definition cmd_get_otp :: "'d bl_board \<Rightarrow> 'd bl \<Rightarrow> 'd outcome option" where
  "cmd_get_otp B s =
     do {
       (index, s) \<leftarrow> cin_word B 100 s;
       case index of
         None \<Rightarrow> Some (Bad s)
       | Some index \<Rightarrow>
           do {
             (eoc, s) \<leftarrow> wait_for_eoc B 2 s;
             if \<not> eoc then Some (Bad s) else Some (Sync (cout_word (flash_func_read_otp (unat index)) s))
           }
     }"

definition cmd_get_sn :: "'d bl_board \<Rightarrow> 'd bl \<Rightarrow> 'd outcome option" where
  "cmd_get_sn B s =
     do {
       (index, s) \<leftarrow> cin_word B 100 s;
       case index of
         None \<Rightarrow> Some (Bad s)
       | Some index \<Rightarrow>
           do {
             (eoc, s) \<leftarrow> wait_for_eoc B 2 s;
             if \<not> eoc then Some (Bad s)
             else if unat index mod 4 \<noteq> 0 \<or> unat index > SN_MAX_LENGTH B - 4 then Some (Bad s)
             else Some (Sync (SET_BL_STATE STATE_PROTO_GET_SN (cout_word (read_sn B (unat index)) s)))
           }
     }"

definition cmd_get_chip :: "'d bl_board \<Rightarrow> 'd bl \<Rightarrow> 'd outcome option" where
  "cmd_get_chip B s =
     do {
       (eoc, s) \<leftarrow> wait_for_eoc B 2 s;
       if \<not> eoc then Some (Bad s)
       else Some (Sync (SET_BL_STATE STATE_PROTO_GET_CHIP (cout_word (mcu_idcode B) s)))
     }"

definition str_bytes :: "string \<Rightarrow> u8 list" where
  "str_bytes cs = map of_char cs"

definition mcu_descriptions :: "(u32 \<times> string) list" where
  "mcu_descriptions = [(0, ''STM32???????''), (0x450, ''STM32H7[4|5]x'')]"

definition silicon_revs :: "(u32 \<times> string) list" where
  "silicon_revs = [(0x1003, ''Y''), (0x2001, ''X''), (0x2003, ''V''), (0x1001, ''Z'')]"

definition get_mcu_desc :: "u32 \<Rightarrow> nat \<Rightarrow> u8 list" where
  "get_mcu_desc idcode mx =
     (let mcuid = idcode AND 0xFFF; revid = drop_bit 16 (idcode AND 0xFFFF0000);
          des = (case find (\<lambda>d. fst d = mcuid) mcu_descriptions of
                   None \<Rightarrow> snd (mcu_descriptions ! 0) | Some d \<Rightarrow> snd d);
          rev = (case find (\<lambda>r. fst r = revid) silicon_revs of None \<Rightarrow> ''?'' | Some r \<Rightarrow> snd r)
      in take (mx - 1) (str_bytes (des @ '','' @ rev)))"

definition MAX_DES_LENGTH :: nat where "MAX_DES_LENGTH = 20"

definition cmd_get_chip_des :: "'d bl_board \<Rightarrow> 'd bl \<Rightarrow> 'd outcome option" where
  "cmd_get_chip_des B s =
     do {
       (eoc, s) \<leftarrow> wait_for_eoc B 2 s;
       if \<not> eoc then Some (Bad s)
       else
         let buffer = get_mcu_desc (mcu_idcode B) MAX_DES_LENGTH
         in Some (Sync (SET_BL_STATE STATE_PROTO_GET_CHIP_DES
                     (cout buffer (cout_word (word_of_nat (length buffer)) s))))
     }"

definition BOOT_DELAY_SIGNATURE1 :: u32 where "BOOT_DELAY_SIGNATURE1 = 0x92c2ecff"
definition BOOT_DELAY_SIGNATURE2 :: u32 where "BOOT_DELAY_SIGNATURE2 = 0xc5057d5d"
definition BOOT_DELAY_MAX :: u8 where "BOOT_DELAY_MAX = 30"

definition cmd_set_delay :: "'d bl_board \<Rightarrow> nat \<Rightarrow> 'd bl \<Rightarrow> 'd outcome option" where
  "cmd_set_delay B a s =
     do {
       (v, s) \<leftarrow> cin_wait B 100 s;
       case v of
         None \<Rightarrow> Some (Bad s)
       | Some boot_delay \<Rightarrow>
           if boot_delay > BOOT_DELAY_MAX then Some (Bad s)
           else
             do {
               (eoc, s) \<leftarrow> wait_for_eoc B 2 s;
               if \<not> eoc then Some (Bad s)
               else
                 do {
                   (sig1, s) \<leftarrow> bl_read_word B a s;
                   (sig2, s) \<leftarrow> bl_read_word B (a + 4) s;
                   if sig1 \<noteq> BOOT_DELAY_SIGNATURE1 \<or> sig2 \<noteq> BOOT_DELAY_SIGNATURE2 then Some (Bad s)
                   else
                     do {
                       let v = (BOOT_DELAY_SIGNATURE1 AND 0xFFFFFF00) OR ucast boot_delay;
                       s \<leftarrow> bl_write_word B a v s;
                       (r, s) \<leftarrow> bl_read_word B a s;
                       Some (if r \<noteq> v then Failed s else Sync s)
                     }
                 }
             }
     }"

definition cmd_boot :: "'d bl_board \<Rightarrow> 'd bl \<Rightarrow> 'd outcome option" where
  "cmd_boot B s =
     do {
       (eoc, s) \<leftarrow> wait_for_eoc B 1000 s;
       if \<not> eoc then Some (Bad s)
       else if first_word s \<noteq> 0xffffffff \<and> bl_state s AND STATE_ALLOWS_REBOOT \<noteq> STATE_ALLOWS_REBOOT then Some (Bad s)
       else
         do {
           (ok, s) \<leftarrow>
             (if first_word s \<noteq> 0xffffffff then
                do {
                  s \<leftarrow> bl_write_word B 0 (first_word s) s;
                  (r, s) \<leftarrow> bl_read_word B 0 s;
                  if r \<noteq> first_word s then Some (False, s) else Some (True, s\<lparr>first_word := 0xffffffff\<rparr>)
                }
              else Some (True, s));
           if \<not> ok then Some (Failed s) else map_option Leave (delay 100 (sync_response s))
         }
     }"

section \<open>The command loop\<close>

definition bl_dispatch :: "'d bl_board \<Rightarrow> u8 \<Rightarrow> 'd bl \<Rightarrow> 'd outcome option" where
  "bl_dispatch B c s =
     (if c = PROTO_GET_SYNC then cmd_get_sync B s
      else if c = PROTO_GET_DEVICE then cmd_get_device B s
      else if c = PROTO_CHIP_ERASE then cmd_chip_erase B s
      else if c = PROTO_PROG_MULTI then cmd_prog_multi B s
      else if c = PROTO_GET_CRC then cmd_get_crc B s
      else if c = PROTO_GET_OTP then cmd_get_otp B s
      else if c = PROTO_GET_SN then cmd_get_sn B s
      else if c = PROTO_GET_CHIP then cmd_get_chip B s
      else if c = PROTO_GET_CHIP_DES then cmd_get_chip_des B s
      else if c = PROTO_SET_DELAY then
        (case BOOT_DELAY_ADDRESS B of None \<Rightarrow> Some (Ignored s) | Some a \<Rightarrow> cmd_set_delay B a s)
      else if c = PROTO_BOOT then cmd_boot B s
      else if c = PROTO_DEBUG then Some (Sync s)
      else Some (Ignored s))"

text \<open>What follows the switch: the answers and, after an accepted command, the choice of the port.\<close>

definition after_command :: "'d outcome \<Rightarrow> 'd bl" where
  "after_command r =
     (case r of
        Sync s \<Rightarrow> sync_response (s\<lparr>bl_timeout := 0, bl_type := (if bl_type s = NONE then last_input s else bl_type s)\<rparr>)
      | Bad s \<Rightarrow> (invalid_response s)\<lparr>bl_state := 0\<rparr>
      | Failed s \<Rightarrow> failure_response s
      | Ignored s \<Rightarrow> s
      | Leave s \<Rightarrow> s)"

text \<open>
  The wait for a command byte: \<open>Inl\<close> is the return because of the time-out.  A poll in vain lets
  the next thing happen.
\<close>

fun await_command :: "'d bl_board \<Rightarrow> happening list \<Rightarrow> 'd bl \<Rightarrow> ('d bl + u8 \<times> 'd bl) option" where
  "await_command B hs s =
     (if bl_timeout s \<noteq> 0 \<and> timers s ! TIMER_BL_WAIT = 0 then Some (Inl (s\<lparr>happenings := hs\<rparr>))
      else case cin_wait B 0 (s\<lparr>happenings := hs\<rparr>) of
        None \<Rightarrow> None
      | Some (Some c, s) \<Rightarrow> Some (Inr (c, s))
      | Some (None, s) \<Rightarrow> (case hs of [] \<Rightarrow> None | h # hs \<Rightarrow> await_command B hs (happen h s)))"

declare await_command.simps [simp del]

text \<open>One turn of the loop; \<open>Inl\<close> is the return to the caller.\<close>

definition bl_iter :: "'d bl_board \<Rightarrow> 'd bl \<Rightarrow> ('d bl + 'd bl) option" where
  "bl_iter B s =
     (let s = bl_emit (Led_off LED_ACTIVITY) s in
      case await_command B (happenings s) s of
        None \<Rightarrow> None
      | Some (Inl s) \<Rightarrow> Some (Inl s)
      | Some (Inr (c, s)) \<Rightarrow>
          map_option (\<lambda>r. case r of Leave s \<Rightarrow> Inl s | r \<Rightarrow> Inr (after_command r))
            (bl_dispatch B c (bl_emit (Led_on LED_ACTIVITY) s)))"

partial_function (option) bl_loop :: "'d bl_board \<Rightarrow> 'd bl \<Rightarrow> 'd bl option" where
  "bl_loop B s =
     (case bl_iter B s of
        None \<Rightarrow> None
      | Some (Inl s) \<Rightarrow> Some s
      | Some (Inr s) \<Rightarrow> bl_loop B s)"

definition bl_enter :: "'d bl_board \<Rightarrow> nat \<Rightarrow> 'd bl \<Rightarrow> 'd bl" where
  "bl_enter B timeout s =
     (let s = s\<lparr>bl_type := NONE, bl_state := 0, address := fw_size B, first_word := 0xffffffff, bl_timeout := timeout\<rparr>;
          s = bl_emit Systic_init s;
          s = (if timeout \<noteq> 0 then s\<lparr>timers := (timers s)[TIMER_BL_WAIT := timeout]\<rparr> else s)
      in led_set LED_BLINK s)"

definition bootloader :: "'d bl_board \<Rightarrow> nat \<Rightarrow> 'd bl \<Rightarrow> 'd bl option" where
  "bootloader B timeout s = bl_loop B (bl_enter B timeout s)"

section \<open>What input and output leave alone\<close>

text \<open>The part of the state that waiting, answering and blinking do not change.\<close>

definition core :: "'d bl \<Rightarrow> 'd flash_st \<times> u32 list \<times> u8 list \<times> u32 \<times> nat \<times> u32 \<times> nat" where
  "core s = (flash s, crctab s, flash_buffer s, bl_state s, address s, first_word s, bl_timeout s)"

lemma core_fields:
  "core s = core s' \<Longrightarrow> flash s = flash s'" "core s = core s' \<Longrightarrow> bl_state s = bl_state s'"
  "core s = core s' \<Longrightarrow> address s = address s'" "core s = core s' \<Longrightarrow> first_word s = first_word s'"
  "core s = core s' \<Longrightarrow> flash_buffer s = flash_buffer s'" "core s = core s' \<Longrightarrow> crctab s = crctab s'"
  by (simp_all add: core_def)

lemma core_simps [simp]:
  "core (bl_emit e s) = core s" "core (cout bs s) = core s" "core (cout_word w s) = core s"
  "core (led_set l s) = core s" "core (happen h s) = core s" "core (sync_response s) = core s"
  "core (s\<lparr>happenings := hs\<rparr>) = core s" "core (s\<lparr>timers := ts\<rparr>) = core s" "core (s\<lparr>cin_count := n\<rparr>) = core s"
  "core (s\<lparr>cin_count := n, happenings := hs\<rparr>) = core s"
  by (simp_all add: core_def bl_emit_def cout_def cout_word_def led_set_def happen_def sys_tick_handler_def
      sync_response_def Let_def split: iface.split led_state.split happening.split)

lemma cin_core: "core (snd (cin B s)) = core s"
  by (simp add: cin_def core_def)

lemma cin_loop_core: "cin_loop B hs s = Some (c, s') \<Longrightarrow> core s' = core s"
proof (induction hs arbitrary: s)
  case Nil
  then show ?case using cin_core [of B s]
    by (auto simp: cin_loop.simps [of B "[]"] split: prod.splits option.splits if_splits)
next
  case (Cons h hs)
  then show ?case using cin_core [of B s]
    by (auto simp: cin_loop.simps [of B "h # hs"] split: prod.splits option.splits if_splits)
qed

lemma cin_wait_core: "cin_wait B t s = Some (c, s') \<Longrightarrow> core s' = core s"
  using cin_loop_core [of B] by (fastforce simp: cin_wait_def)

lemma wait_for_eoc_core: "wait_for_eoc B t s = Some (e, s') \<Longrightarrow> core s' = core s"
  using cin_wait_core [of B t s] by (auto simp: wait_for_eoc_def)

lemma cin_bytes_core: "cin_bytes B n t s = Some (bs, s') \<Longrightarrow> core s' = core s"
proof (induction n arbitrary: s bs)
  case (Suc n)
  then obtain c s1 where c: "cin_wait B t s = Some (c, s1)" by (auto simp: bind_eq_Some_conv)
  show ?case
    using Suc c cin_wait_core [OF c] by (cases c) auto
qed simp

lemma cin_word_core: "cin_word B t s = Some (w, s') \<Longrightarrow> core s' = core s"
  using cin_bytes_core [of B 4 t s] by (auto simp: cin_word_def)

lemma delay_core: "delay t s = Some s' \<Longrightarrow> core s' = core s"
proof -
  have "delay_loop hs s = Some s' \<Longrightarrow> core s' = core s" for hs s
  proof (induction hs arbitrary: s)
    case Nil
    then show ?case by (auto simp: delay_loop.simps [of "[]"] split: if_splits)
  next
    case (Cons h hs)
    then show ?case by (auto simp: delay_loop.simps [of "h # hs"] split: if_splits)
  qed
  then show "delay t s = Some s' \<Longrightarrow> ?thesis" by (fastforce simp: delay_def)
qed

lemma await_core: "await_command B hs s = Some (Inr (c, s')) \<Longrightarrow> core s' = core s"
proof (induction hs arbitrary: s)
  case Nil
  then show ?case using cin_wait_core [of B 0 "s\<lparr>happenings := []\<rparr>"]
    by (auto simp: await_command.simps [of B "[]"] split: option.splits if_splits)
next
  case (Cons h hs)
  obtain r where r: "cin_wait B 0 (s\<lparr>happenings := h # hs\<rparr>) = Some r"
    using Cons.prems by (auto simp: await_command.simps [of B "h # hs"] split: if_splits option.splits)
  obtain b s1 where r': "r = (b, s1)" by (cases r)
  have "core s1 = core s" using cin_wait_core [of B 0 "s\<lparr>happenings := h # hs\<rparr>"] r r' by simp
  then show ?case using Cons r r'
    by (cases b) (auto simp: await_command.simps [of B "h # hs"] split: if_splits)
qed

lemmas io_core = cin_wait_core wait_for_eoc_core cin_word_core delay_core cin_bytes_core

section \<open>What a command does to the protocol state\<close>

lemma bl_read_flash: "bl_read_word B a s = Some (w, s') \<longleftrightarrow>
    (\<exists>f. flash_func_read_word (board_dev B) a (flash s) = Some (w, f) \<and> s' = s\<lparr>flash := f\<rparr>)"
  by (auto simp: bl_read_word_def)

lemma bl_write_flash: "bl_write_word B a w s = Some s' \<longleftrightarrow>
    (\<exists>f. flash_func_write_word (board_dev B) a w (flash s) = Some f \<and> s' = s\<lparr>flash := f\<rparr>)"
  by (auto simp: bl_write_word_def)

lemma prog_loop_flash:
  "prog_loop (bl_write_word B) (bl_read_word B) a ws s =
     map_option (\<lambda>(ok, a, f). (ok, a, s\<lparr>flash := f\<rparr>))
       (prog_loop (flash_func_write_word (board_dev B)) (flash_func_read_word (board_dev B)) a ws (flash s))"
proof (induction ws arbitrary: a s)
  case (Cons w ws)
  show ?case
    by (auto simp: bl_write_word_def [of B a w s] bl_read_word_def [of B a] Cons split: option.split)
qed simp

text \<open>The protocol state that an accepted command adds.\<close>

definition state_bit :: "u8 \<Rightarrow> u32" where
  "state_bit c =
     (if c = PROTO_GET_SYNC then STATE_PROTO_GET_SYNC
      else if c = PROTO_GET_DEVICE then STATE_PROTO_GET_DEVICE
      else if c = PROTO_CHIP_ERASE then STATE_PROTO_CHIP_ERASE
      else if c = PROTO_PROG_MULTI then STATE_PROTO_PROG_MULTI
      else if c = PROTO_GET_CRC then STATE_PROTO_GET_CRC
      else if c = PROTO_GET_SN then STATE_PROTO_GET_SN
      else if c = PROTO_GET_CHIP then STATE_PROTO_GET_CHIP
      else if c = PROTO_GET_CHIP_DES then STATE_PROTO_GET_CHIP_DES
      else 0)"

definition state_after :: "u32 \<Rightarrow> u8 \<Rightarrow> 'd outcome \<Rightarrow> bool" where
  "state_after st c r =
     (case r of
        Sync s \<Rightarrow> bl_state s = st OR state_bit c
      | Bad s \<Rightarrow> True
      | Failed s \<Rightarrow> bl_state s = st
      | Ignored s \<Rightarrow> bl_state s = st
      | Leave s \<Rightarrow> bl_state s = st)"

lemma state_simps [simp]:
  "bl_state (SET_BL_STATE m s) = bl_state s OR m" "bl_state (cout bs s) = bl_state s"
  "bl_state (cout_word w s) = bl_state s" "bl_state (led_set l s) = bl_state s"
  "flash (SET_BL_STATE m s) = flash s" "flash (cout bs s) = flash s" "flash (cout_word w s) = flash s"
  "flash (led_set l s) = flash s" "address (SET_BL_STATE m s) = address s" "address (cout bs s) = address s"
  "address (cout_word w s) = address s" "address (led_set l s) = address s"
  by (simp_all add: SET_BL_STATE_def core_fields [OF core_simps(2)] core_fields [OF core_simps(3)]
      core_fields [OF core_simps(4)])

lemma vec_area_state: "vec_area B ps s = Some s' \<Longrightarrow> bl_state s' = bl_state s \<and> address s' = address s"
proof (induction ps arbitrary: s)
  case (Cons p ps)
  then obtain w f where "bl_read_word B (p * 4) s = Some (w, s\<lparr>flash := f\<rparr>)"
    "vec_area B ps (cout (bytes_of_u32 w) (s\<lparr>flash := f\<rparr>)) = Some s'"
    by (auto simp: bind_eq_Some_conv bl_read_flash)
  then show ?case using Cons.IH by simp
qed simp

lemma verify_erase_state: "verify_erase B as s = Some (ok, s') \<Longrightarrow> bl_state s' = bl_state s"
proof (induction as arbitrary: s)
  case (Cons a as)
  then obtain w f where "bl_read_word B a (s\<lparr>address := a\<rparr>) = Some (w, s\<lparr>address := a, flash := f\<rparr>)"
    "(if w \<noteq> 0xffffffff then Some (False, s\<lparr>address := a, flash := f\<rparr>)
      else verify_erase B as (s\<lparr>address := a, flash := f\<rparr>)) = Some (ok, s')"
    by (auto simp: bind_eq_Some_conv bl_read_flash)
  then show ?case using Cons.IH [of "s\<lparr>address := a, flash := f\<rparr>"] by (auto split: if_splits)
qed simp

lemma fill_buffer_state:
  "fill_buffer B i n s = Some (ok, s') \<Longrightarrow> bl_state s' = bl_state s \<and> address s' = address s \<and> flash s' = flash s"
proof (induction n arbitrary: i s)
  case (Suc n)
  then obtain c s1 where c: "cin_wait B 1000 s = Some (c, s1)" by (auto simp: bind_eq_Some_conv)
  show ?case using Suc c core_fields [OF cin_wait_core [OF c]] by (cases c) auto
qed simp

lemma crc_words_state:
  "crc_words B ps acc s = Some (v, s') \<Longrightarrow> bl_state s' = bl_state s \<and> address s' = address s"
proof (induction ps arbitrary: acc s)
  case (Cons p ps)
  obtain w s1 where w: "(if p = 0 \<and> first_word s \<noteq> 0xffffffff then Some (first_word s, s) else bl_read_word B p s)
      = Some (w, s1)"
    using Cons.prems by (auto simp: bind_eq_Some_conv)
  then have "bl_state s1 = bl_state s" "address s1 = address s" by (auto simp: bl_read_flash split: if_splits)
  then show ?case using Cons w by (auto simp: Let_def split_beta split: if_splits)
qed simp

lemma defer_state [simp]:
  "bl_state (defer_first s) = bl_state s" "address (defer_first s) = address s" "flash (defer_first s) = flash s"
  by (simp_all add: defer_first_def)

definition keeps :: "'d bl \<Rightarrow> 'd bl \<Rightarrow> bool" where
  "keeps s s' \<longleftrightarrow> bl_state s' = bl_state s \<and> flash s' = flash s \<and> address s' = address s \<and> first_word s' = first_word s"

lemma core_keeps: "core s' = core s \<Longrightarrow> keeps s s'"
  by (simp add: core_def keeps_def)

lemmas io_keeps = cin_wait_core [THEN core_keeps] wait_for_eoc_core [THEN core_keeps]
  cin_word_core [THEN core_keeps] delay_core [THEN core_keeps]

lemma simple_commands_state:
  "cmd_get_sync B s = Some r \<Longrightarrow> state_after (bl_state s) PROTO_GET_SYNC r"
  "cmd_get_otp B s = Some r \<Longrightarrow> state_after (bl_state s) PROTO_GET_OTP r"
  "cmd_get_sn B s = Some r \<Longrightarrow> state_after (bl_state s) PROTO_GET_SN r"
  "cmd_get_chip B s = Some r \<Longrightarrow> state_after (bl_state s) PROTO_GET_CHIP r"
  "cmd_get_chip_des B s = Some r \<Longrightarrow> state_after (bl_state s) PROTO_GET_CHIP_DES r"
  by (auto simp: cmd_get_sync_def cmd_get_otp_def cmd_get_sn_def cmd_get_chip_def cmd_get_chip_des_def
      bind_eq_Some_conv state_after_def state_bit_def keeps_def Let_def dest!: io_keeps split: if_splits option.splits)

lemma get_device_state: "cmd_get_device B s = Some r \<Longrightarrow> state_after (bl_state s) PROTO_GET_DEVICE r"
  by (auto simp: cmd_get_device_def bind_eq_Some_conv state_after_def state_bit_def keeps_def simp del: vec_area.simps
      dest!: io_keeps vec_area_state split: if_splits option.splits)

lemma chip_erase_state: "cmd_chip_erase B s = Some r \<Longrightarrow> state_after (bl_state s) PROTO_CHIP_ERASE r"
  by (auto simp: cmd_chip_erase_def bind_eq_Some_conv state_after_def state_bit_def keeps_def Let_def
      dest!: io_keeps verify_erase_state split: if_splits)

lemma prog_multi_state: "cmd_prog_multi B s = Some r \<Longrightarrow> state_after (bl_state s) PROTO_PROG_MULTI r"
  by (auto simp: cmd_prog_multi_def bind_eq_Some_conv state_after_def state_bit_def keeps_def Let_def prog_loop_flash
      dest!: io_keeps fill_buffer_state split: if_splits option.splits)

lemma get_crc_state: "cmd_get_crc B s = Some r \<Longrightarrow> state_after (bl_state s) PROTO_GET_CRC r"
  by (auto simp: cmd_get_crc_def bind_eq_Some_conv state_after_def state_bit_def keeps_def
      dest!: io_keeps crc_words_state split: if_splits)

lemma set_delay_state: "cmd_set_delay B a s = Some r \<Longrightarrow> state_after (bl_state s) PROTO_SET_DELAY r"
  by (auto simp: cmd_set_delay_def bind_eq_Some_conv state_after_def state_bit_def keeps_def Let_def
      bl_read_flash bl_write_flash dest!: io_keeps split: if_splits option.splits)

lemma sync_response_keeps [simp]:
  "bl_state (sync_response s) = bl_state s" "flash (sync_response s) = flash s" "address (sync_response s) = address s"
  by (simp_all add: sync_response_def)

lemma boot_state: "cmd_boot B s = Some r \<Longrightarrow> state_after (bl_state s) PROTO_BOOT r"
  by (auto simp: cmd_boot_def bind_eq_Some_conv state_after_def state_bit_def keeps_def
      bl_read_flash bl_write_flash dest!: io_keeps split: if_splits)

lemma dispatch_state: "bl_dispatch B c s = Some r \<Longrightarrow> state_after (bl_state s) c r"
  using simple_commands_state [of B s r] get_device_state [of B s r] chip_erase_state [of B s r] prog_multi_state [of B s r]
    get_crc_state [of B s r] boot_state [of B s r] set_delay_state [of B _ s r]
  by (auto simp: bl_dispatch_def state_after_def state_bit_def split: if_splits option.splits)

end
