(* ===== verification/Bl_Session.thy ===== *)
theory Bl_Session
  imports Bl_Serial
begin

text \<open>
  Sessions with the serial bootloader: runs of its command loop, the order of commands it
  insists on, and what it promises about the flash until the image is complete.
\<close>

section \<open>Runs of the command loop\<close>

text \<open>
  A turn that processes a command: the command byte and how it ended.  A run is the list of these
  turns, the latest first.
\<close>

datatype verdict = V_ok | V_bad | V_fail | V_ignored

definition verdict_of :: "'d outcome \<Rightarrow> verdict option" where
  "verdict_of r =
     (case r of Sync s \<Rightarrow> Some V_ok | Bad s \<Rightarrow> Some V_bad | Failed s \<Rightarrow> Some V_fail
      | Ignored s \<Rightarrow> Some V_ignored | Leave s \<Rightarrow> None)"

definition bl_turn :: "'d bl_board \<Rightarrow> 'd bl \<Rightarrow> (u8 \<times> 'd outcome) option" where
  "bl_turn B s =
     (let s = bl_emit (Led_off LED_ACTIVITY) s in
      case await_command B (happenings s) s of
        Some (Inr (c, s)) \<Rightarrow> map_option (Pair c) (bl_dispatch B c (bl_emit (Led_on LED_ACTIVITY) s))
      | _ \<Rightarrow> None)"

lemma bl_iter_turn:
  "bl_turn B s = Some (c, r) \<Longrightarrow> bl_iter B s = Some (case r of Leave s \<Rightarrow> Inl s | r \<Rightarrow> Inr (after_command r))"
  by (auto simp: bl_turn_def bl_iter_def Let_def split: option.splits sum.splits prod.splits)

inductive bl_run :: "'d bl_board \<Rightarrow> 'd bl \<Rightarrow> (u8 \<times> verdict) list \<Rightarrow> 'd bl \<Rightarrow> bool" for B s0 where
  start: "bl_run B s0 [] s0"
| turn: "bl_run B s0 tr s \<Longrightarrow> bl_turn B s = Some (c, r) \<Longrightarrow> verdict_of r = Some v
    \<Longrightarrow> bl_run B s0 ((c, v) # tr) (after_command r)"

inductive_cases bl_runE: "bl_run B s0 ((c, v) # tr) s"

lemma bl_turn_state:
  assumes "bl_turn B s = Some (c, r)"
  obtains s1 where "core s1 = core s" and "bl_dispatch B c s1 = Some r"
  using assms await_core [of B "happenings s" "bl_emit (Led_off LED_ACTIVITY) s"]
  by (auto simp: bl_turn_def Let_def bl_emit_def split: option.splits sum.splits)
     (metis bl_emit_def core_simps(1))

text \<open>The commands accepted since the last invalid one.\<close>

definition accepted_since :: "(u8 \<times> verdict) list \<Rightarrow> u8 set" where
  "accepted_since tr = fst ` {e \<in> set (takeWhile (\<lambda>e. snd e \<noteq> V_bad) tr). snd e = V_ok}"

lemma accepted_since_Cons:
  "accepted_since ((c, v) # tr) = (if v = V_bad then {} else if v = V_ok then insert c (accepted_since tr) else accepted_since tr)"
  by (auto simp: accepted_since_def image_iff)

definition state_of :: "u8 set \<Rightarrow> nat \<Rightarrow> bool" where
  "state_of cs n \<longleftrightarrow> (\<exists>c \<in> cs. bit (state_bit c) n)"

lemma after_command_state:
  "verdict_of r = Some v \<Longrightarrow> state_after st c r \<Longrightarrow>
     bl_state (after_command r) = (if v = V_bad then 0 else if v = V_ok then st OR state_bit c else st)"
  by (auto simp: verdict_of_def state_after_def after_command_def invalid_response_def failure_response_def
      split: outcome.splits)

text \<open>The protocol state is exactly the set of commands accepted since the last invalid one.\<close>

lemma run_state: "bl_run B s0 tr s \<Longrightarrow> bl_state s0 = 0 \<Longrightarrow> bit (bl_state s) n = state_of (accepted_since tr) n"
proof (induction rule: bl_run.induct)
  case start
  then show ?case by (simp add: state_of_def accepted_since_def)
next
  case (turn tr s c r v)
  obtain s1 where "core s1 = core s" "bl_dispatch B c s1 = Some r" using bl_turn_state [OF turn.hyps(2)] .
  then have "state_after (bl_state s) c r" using dispatch_state [of B c s1 r] core_fields(2) [of s1 s] by simp
  from after_command_state [OF turn.hyps(3) this] turn.IH turn.prems show ?case
    by (auto simp: accepted_since_Cons state_of_def bit_or_iff)
qed

definition outcome_state :: "'d outcome \<Rightarrow> 'd bl" where
  "outcome_state r = (case r of Sync s \<Rightarrow> s | Bad s \<Rightarrow> s | Failed s \<Rightarrow> s | Ignored s \<Rightarrow> s | Leave s \<Rightarrow> s)"

lemma state_bit_bits:
  "bit (state_bit c) 0 \<longleftrightarrow> c = PROTO_GET_SYNC" "bit (state_bit c) 1 \<longleftrightarrow> c = PROTO_GET_DEVICE"
  "bit (state_bit c) 3 \<longleftrightarrow> c = PROTO_PROG_MULTI" "bit (state_bit c) 4 \<longleftrightarrow> c = PROTO_GET_CRC"
  by (simp_all add: state_bit_def)

lemma mask_bits: "x AND m = m \<Longrightarrow> bit m n \<Longrightarrow> bit (x :: u32) n"
  by (metis bit_and_iff)

lemma erase_refused:
  "cmd_chip_erase B s = Some r \<Longrightarrow> bl_state s AND STATE_ALLOWS_ERASE \<noteq> STATE_ALLOWS_ERASE \<Longrightarrow>
     flash (outcome_state r) = flash s"
  by (auto simp: cmd_chip_erase_def bind_eq_Some_conv outcome_state_def keeps_def dest!: io_keeps split: if_splits)

lemma boot_refused:
  "cmd_boot B s = Some r \<Longrightarrow> first_word s \<noteq> 0xffffffff \<Longrightarrow> bl_state s AND STATE_ALLOWS_REBOOT \<noteq> STATE_ALLOWS_REBOOT \<Longrightarrow>
     \<exists>s'. r = Bad s' \<and> flash s' = flash s"
  by (auto simp: cmd_boot_def bind_eq_Some_conv keeps_def dest!: io_keeps split: if_splits)

lemma run_accepted:
  assumes "bl_run B s0 tr s" and "bl_state s0 = 0"
  shows "bl_state s AND STATE_ALLOWS_ERASE = STATE_ALLOWS_ERASE \<Longrightarrow> {PROTO_GET_SYNC, PROTO_GET_DEVICE} \<subseteq> accepted_since tr"
    and "bl_state s AND STATE_ALLOWS_REBOOT = STATE_ALLOWS_REBOOT \<Longrightarrow>
      {PROTO_GET_SYNC, PROTO_GET_DEVICE, PROTO_PROG_MULTI, PROTO_GET_CRC} \<subseteq> accepted_since tr"
proof -
  have b: "bit (bl_state s) n \<Longrightarrow> \<exists>c \<in> accepted_since tr. bit (state_bit c) n" for n
    using run_state [OF assms, of n] by (simp add: state_of_def)
  have m: "bit (3 :: u32) 0" "bit (3 :: u32) 1" "bit (0x1b :: u32) 0" "bit (0x1b :: u32) 1" "bit (0x1b :: u32) 3" "bit (0x1b :: u32) 4"
    by simp_all
  show "bl_state s AND STATE_ALLOWS_ERASE = STATE_ALLOWS_ERASE \<Longrightarrow> {PROTO_GET_SYNC, PROTO_GET_DEVICE} \<subseteq> accepted_since tr"
    using b [of 0] b [of 1] mask_bits [OF _ m(1), of "bl_state s"] mask_bits [OF _ m(2), of "bl_state s"]
    by (auto simp: state_bit_bits simp del: One_nat_def)
  show "bl_state s AND STATE_ALLOWS_REBOOT = STATE_ALLOWS_REBOOT \<Longrightarrow>
      {PROTO_GET_SYNC, PROTO_GET_DEVICE, PROTO_PROG_MULTI, PROTO_GET_CRC} \<subseteq> accepted_since tr"
    using b [of 0] b [of 1] b [of 3] b [of 4] mask_bits [OF _ m(3), of "bl_state s"] mask_bits [OF _ m(4), of "bl_state s"]
      mask_bits [OF _ m(5), of "bl_state s"] mask_bits [OF _ m(6), of "bl_state s"]
    by (auto simp: state_bit_bits simp del: One_nat_def)
qed

lemma bl_enter_state [simp]:
  "bl_state (bl_enter B t s) = 0" "flash (bl_enter B t s) = flash s" "address (bl_enter B t s) = fw_size B"
  by (simp_all add: bl_enter_def Let_def bl_emit_def)

section \<open>The first word is withheld until the boot command\<close>

text \<open>The board data that matters: page alignment, and a boot delay behind the first page.\<close>

definition bl_board_ok :: "'d bl_board \<Rightarrow> bool" where
  "bl_board_ok B \<longleftrightarrow> dev_local (board_dev B) \<and> APP_LOAD (board_dev B) mod 32 = 0 \<and> fw_size B mod 4 = 0 \<and>
     (\<forall>a. BOOT_DELAY_ADDRESS B = Some a \<longrightarrow> 32 \<le> a \<and> a mod 4 = 0)"

definition bl_withheld :: "'d bl_board \<Rightarrow> 'd bl \<Rightarrow> bool" where
  "bl_withheld B s \<longleftrightarrow> withheld (board_dev B) (flash s) \<and> address s mod 4 = 0 \<and>
     (address s = 0 \<longrightarrow> fc_index (line0 (flash s)) \<noteq> 7)"

lemma bl_withheld_core: "flash s = flash s' \<Longrightarrow> address s = address s' \<Longrightarrow> bl_withheld B s = bl_withheld B s'"
  by (simp add: bl_withheld_def)

lemma keeps_withheld: "keeps s s' \<Longrightarrow> bl_withheld B s' = bl_withheld B s"
  by (simp add: bl_withheld_def keeps_def)

lemma bl_read_withheld:
  assumes "bl_board_ok B" and "bl_withheld B s" and "bl_read_word B a s = Some (w, s')"
  shows "bl_withheld B s' \<and> address s' = address s \<and> first_word s' = first_word s \<and> line0 (flash s') = line0 (flash s)"
  using assms read_keeps_withheld [of "board_dev B" "flash s" a w]
  by (auto simp: bl_board_ok_def bl_withheld_def bl_read_flash)

lemma vec_area_withheld:
  assumes "bl_board_ok B"
  shows "bl_withheld B s \<Longrightarrow> vec_area B ps s = Some s' \<Longrightarrow> bl_withheld B s'"
proof (induction ps arbitrary: s)
  case (Cons p ps)
  then obtain w s1 where "bl_read_word B (p * 4) s = Some (w, s1)" "vec_area B ps (cout (bytes_of_u32 w) s1) = Some s'"
    by (auto simp: bind_eq_Some_conv)
  moreover from this have "bl_withheld B s1" using bl_read_withheld [OF assms Cons.prems(1)] by blast
  ultimately show ?case using Cons.IH [of "cout (bytes_of_u32 w) s1"] by (simp add: bl_withheld_def)
qed simp

lemma erase_sectors_withheld:
  assumes "dev_local D"
  shows "withheld D f \<Longrightarrow> erase_sectors D is f = Some f' \<Longrightarrow> withheld D f' \<and> line0 f' = line0 f"
proof (induction "is" arbitrary: f)
  case (Cons i "is")
  then obtain f1 where "flash_func_erase_sector D i f = Some f1" "erase_sectors D is f1 = Some f'"
    by (auto simp: bind_eq_Some_conv)
  then show ?case using Cons.IH [of f1] erase_keeps_withheld [OF assms Cons.prems(1)] by auto
qed simp

lemma verify_erase_withheld:
  assumes "bl_board_ok B" and "\<forall>a \<in> set as. a mod 4 = 0"
  shows "withheld (board_dev B) (flash s) \<Longrightarrow> fc_index (line0 (flash s)) \<noteq> 7 \<Longrightarrow> address s mod 4 = 0 \<Longrightarrow>
    verify_erase B as s = Some (ok, s') \<Longrightarrow> bl_withheld B s' \<and> fc_index (line0 (flash s')) \<noteq> 7"
  using assms(2)
proof (induction as arbitrary: s)
  case Nil
  then show ?case by (simp add: bl_withheld_def)
next
  case (Cons a as)
  obtain w s1 where r: "bl_read_word B a (s\<lparr>address := a\<rparr>) = Some (w, s1)"
    "(if w \<noteq> 0xffffffff then Some (False, s1) else verify_erase B as s1) = Some (ok, s')"
    using Cons.prems(4) by (auto simp: bind_eq_Some_conv)
  have "bl_withheld B (s\<lparr>address := a\<rparr>)" using Cons.prems by (simp add: bl_withheld_def)
  from bl_read_withheld [OF assms(1) this r(1)] Cons.prems
  have "bl_withheld B s1" "fc_index (line0 (flash s1)) \<noteq> 7" "address s1 mod 4 = 0" by auto
  then show ?case using Cons.IH [of s1] r(2) Cons.prems(5) by (auto simp: bl_withheld_def split: if_splits)
qed

lemma crc_words_withheld:
  assumes "bl_board_ok B"
  shows "bl_withheld B s \<Longrightarrow> crc_words B ps acc s = Some (v, s') \<Longrightarrow> bl_withheld B s'"
proof (induction ps arbitrary: acc s)
  case (Cons p ps)
  obtain w s1 where w: "(if p = 0 \<and> first_word s \<noteq> 0xffffffff then Some (first_word s, s) else bl_read_word B p s)
      = Some (w, s1)"
    using Cons.prems(2) by (auto simp: bind_eq_Some_conv)
  then have "bl_withheld B s1"
    using Cons.prems(1) bl_read_withheld [OF assms Cons.prems(1), of p] by (auto split: if_splits)
  then have "bl_withheld B (s1\<lparr>crctab := tab\<rparr>)" for tab by (simp add: bl_withheld_def)
  then show ?case using Cons.IH Cons.prems(2) w by (auto simp: Let_def split_beta split: if_splits)
qed simp

lemma withheld_simps [simp]:
  "bl_withheld B (SET_BL_STATE m s) = bl_withheld B s" "bl_withheld B (cout bs s) = bl_withheld B s"
  "bl_withheld B (cout_word w s) = bl_withheld B s" "bl_withheld B (led_set l s) = bl_withheld B s"
  by (simp_all add: bl_withheld_def)

lemmas io_withheld = io_keeps [THEN keeps_withheld]

lemma simple_commands_withheld:
  "bl_withheld B s \<Longrightarrow> cmd_get_sync B s = Some r \<Longrightarrow> bl_withheld B (outcome_state r)"
  "bl_withheld B s \<Longrightarrow> cmd_get_otp B s = Some r \<Longrightarrow> bl_withheld B (outcome_state r)"
  "bl_withheld B s \<Longrightarrow> cmd_get_sn B s = Some r \<Longrightarrow> bl_withheld B (outcome_state r)"
  "bl_withheld B s \<Longrightarrow> cmd_get_chip B s = Some r \<Longrightarrow> bl_withheld B (outcome_state r)"
  "bl_withheld B s \<Longrightarrow> cmd_get_chip_des B s = Some r \<Longrightarrow> bl_withheld B (outcome_state r)"
  by (auto simp: cmd_get_sync_def cmd_get_otp_def cmd_get_sn_def cmd_get_chip_def cmd_get_chip_des_def
      bind_eq_Some_conv outcome_state_def Let_def dest!: io_withheld [where B = B] split: if_splits option.splits)

lemma get_device_withheld:
  assumes "bl_board_ok B" and "bl_withheld B s" and "cmd_get_device B s = Some r"
  shows "bl_withheld B (outcome_state r)"
  using assms(2,3) vec_area_withheld [OF assms(1)]
  by (auto simp: cmd_get_device_def bind_eq_Some_conv outcome_state_def
      simp del: vec_area.simps dest!: io_withheld [where B = B] split: if_splits option.splits)

text \<open>What the two commands that write amount to on flash and program address.\<close>

lemma chip_erase_effect:
  assumes "cmd_chip_erase B s = Some r"
  shows "flash (outcome_state r) = flash s \<and> address (outcome_state r) = address s \<or>
    (\<exists>f s2 ok s3. erase_sectors (board_dev B) (sectors (board_dev B)) (arch_flash_unlock (board_dev B) (flash s)) = Some f \<and>
      flash s2 = f \<and> address s2 = address s \<and> verify_erase B (word_addrs (fw_size B)) s2 = Some (ok, s3) \<and>
      flash (outcome_state r) = flash s3 \<and> (address (outcome_state r) = address s3 \<or> address (outcome_state r) = 0))"
proof -
  obtain e s1 where e: "wait_for_eoc B 2 s = Some (e, s1)" using assms by (auto simp: cmd_chip_erase_def bind_eq_Some_conv)
  have k: "flash s1 = flash s" "address s1 = address s" using io_keeps(2) [OF e] by (simp_all add: keeps_def)
  show ?thesis
  proof (cases "e \<and> bl_state s1 AND STATE_ALLOWS_ERASE = STATE_ALLOWS_ERASE")
    case False
    then have "r = Bad s1" using assms e by (cases e) (simp_all add: cmd_chip_erase_def)
    then show ?thesis using k by (simp add: outcome_state_def)
  next
    case True
    obtain f where f: "erase_sectors (board_dev B) (sectors (board_dev B)) (arch_flash_unlock (board_dev B) (flash s)) = Some f"
      using assms e k True by (auto simp: cmd_chip_erase_def bind_eq_Some_conv Let_def)
    let ?s2 = "led_set LED_OFF ((led_set LED_ON s1)\<lparr>flash := f\<rparr>)"
    obtain ok s3 where "verify_erase B (word_addrs (fw_size B)) ?s2 = Some (ok, s3)"
      "r = (if \<not> ok then Failed s3 else Sync (led_set LED_BLINK (SET_BL_STATE STATE_PROTO_CHIP_ERASE (s3\<lparr>address := 0\<rparr>))))"
      using assms e k True f by (auto simp: cmd_chip_erase_def bind_eq_Some_conv Let_def split: if_splits)
    then show ?thesis using f k by (intro disjI2 exI [of _ f] exI [of _ ?s2]) (auto simp: outcome_state_def)
  qed
qed

lemma prog_multi_effect:
  assumes "cmd_prog_multi B s = Some r"
  shows "flash (outcome_state r) = flash s \<and> address (outcome_state r) = address s \<or>
    (\<exists>ws ok. prog_loop (flash_func_write_word (board_dev B)) (flash_func_read_word (board_dev B)) (address s) ws (flash s)
       = Some (ok, address (outcome_state r), flash (outcome_state r)))"
  using assms
  by (auto simp: cmd_prog_multi_def bind_eq_Some_conv outcome_state_def keeps_def Let_def prog_loop_flash
      dest!: io_keeps fill_buffer_state split: if_splits option.splits)

lemma chip_erase_withheld:
  assumes "bl_board_ok B" and "bl_withheld B s" and "cmd_chip_erase B s = Some r"
  shows "bl_withheld B (outcome_state r)"
proof (cases "flash (outcome_state r) = flash s \<and> address (outcome_state r) = address s")
  case True
  then show ?thesis using assms(2) by (simp add: bl_withheld_def)
next
  case False
  then obtain f s2 ok s3 where
    e: "erase_sectors (board_dev B) (sectors (board_dev B)) (arch_flash_unlock (board_dev B) (flash s)) = Some f"
    "flash s2 = f" "address s2 = address s" "verify_erase B (word_addrs (fw_size B)) s2 = Some (ok, s3)"
    and r: "flash (outcome_state r) = flash s3" "address (outcome_state r) = address s3 \<or> address (outcome_state r) = 0"
    using chip_erase_effect [OF assms(3)] by metis
  have "APP_LOAD (board_dev B) mod 32 = 0" "dev_local (board_dev B)" using assms(1) by (simp_all add: bl_board_ok_def)
  then have "withheld (board_dev B) f \<and> fc_index (line0 f) \<noteq> 7"
    using unlock_withheld [of "board_dev B" "flash s"] erase_sectors_withheld [OF _ _ e(1)] assms(2)
    by (auto simp: bl_withheld_def withheld_def shielded_def)
  then have "bl_withheld B s3 \<and> fc_index (line0 (flash s3)) \<noteq> 7"
    using verify_erase_withheld [OF assms(1) _ _ _ _ e(4)] e(2,3) assms(2) by (simp add: word_addrs_def bl_withheld_def)
  then show ?thesis using r by (auto simp: bl_withheld_def)
qed

lemma prog_multi_withheld:
  assumes "bl_board_ok B" and "bl_withheld B s" and "cmd_prog_multi B s = Some r"
  shows "bl_withheld B (outcome_state r)"
proof (cases "flash (outcome_state r) = flash s \<and> address (outcome_state r) = address s")
  case True
  then show ?thesis using assms(2) by (simp add: bl_withheld_def)
next
  case False
  then obtain ws ok where
    "prog_loop (flash_func_write_word (board_dev B)) (flash_func_read_word (board_dev B)) (address s) ws (flash s)
      = Some (ok, address (outcome_state r), flash (outcome_state r))"
    using prog_multi_effect [OF assms(3)] by metis
  from prog_keeps_withheld [OF _ _ this] show ?thesis using assms(1,2) by (simp add: bl_withheld_def bl_board_ok_def)
qed

lemma get_crc_withheld:
  assumes "bl_board_ok B" and "bl_withheld B s" and "cmd_get_crc B s = Some r"
  shows "bl_withheld B (outcome_state r)"
  using assms(2,3) crc_words_withheld [OF assms(1)]
  by (auto simp: cmd_get_crc_def bind_eq_Some_conv outcome_state_def dest!: io_withheld [where B = B] split: if_splits)

lemma bl_write_withheld:
  assumes "bl_board_ok B" and "bl_withheld B s" and "32 \<le> a" and "a mod 4 = 0" and "bl_write_word B a w s = Some s'"
  shows "bl_withheld B s'"
proof -
  obtain f where f: "flash_func_write_word (board_dev B) a w (flash s) = Some f" "s' = s\<lparr>flash := f\<rparr>"
    using assms(5) by (auto simp: bl_write_flash)
  then show ?thesis
    using write_keeps_withheld [OF _ _ assms(4) _ f(1)] assms(1-3) by (simp add: bl_withheld_def bl_board_ok_def)
qed

lemma set_delay_withheld:
  assumes "bl_board_ok B" and "bl_withheld B s" and "BOOT_DELAY_ADDRESS B = Some a" and "cmd_set_delay B a s = Some r"
  shows "bl_withheld B (outcome_state r)"
proof -
  have a: "32 \<le> a" "a mod 4 = 0" using assms(1,3) by (simp_all add: bl_board_ok_def)
  note rd = bl_read_withheld [OF assms(1), THEN conjunct1] and wr = bl_write_withheld [OF assms(1) _ a]
  obtain v s1 where v: "cin_wait B 100 s = Some (v, s1)" using assms(4) by (auto simp: cmd_set_delay_def bind_eq_Some_conv)
  have s1: "bl_withheld B s1" using assms(2) io_withheld(1) [OF v] by simp
  show ?thesis
  proof (cases "v = None \<or> the v > BOOT_DELAY_MAX")
    case True
    then have "r = Bad s1" using assms(4) v by (auto simp: cmd_set_delay_def split: option.splits)
    then show ?thesis using s1 by (simp add: outcome_state_def)
  next
    case False
    then obtain d where d: "v = Some d" "\<not> d > BOOT_DELAY_MAX" by auto
    obtain e s2 where e: "wait_for_eoc B 2 s1 = Some (e, s2)"
      using assms(4) v d by (auto simp: cmd_set_delay_def bind_eq_Some_conv)
    have s2: "bl_withheld B s2" using s1 io_withheld(2) [OF e] by simp
    show ?thesis
    proof (cases e)
      case False
      then have "r = Bad s2" using assms(4) v d e by (auto simp: cmd_set_delay_def)
      then show ?thesis using s2 by (simp add: outcome_state_def)
    next
      case True
      obtain sig1 s3 sig2 s4 where s: "bl_read_word B a s2 = Some (sig1, s3)" "bl_read_word B (a + 4) s3 = Some (sig2, s4)"
        using assms(4) v d e True by (auto simp: cmd_set_delay_def bind_eq_Some_conv)
      have s4: "bl_withheld B s4" using rd [OF rd [OF s2 s(1)] s(2)] .
      let ?w = "(BOOT_DELAY_SIGNATURE1 AND 0xFFFFFF00) OR ucast d"
      have "r = Bad s4 \<or> (\<exists>s5 x s6. bl_write_word B a ?w s4 = Some s5 \<and> bl_read_word B a s5 = Some (x, s6) \<and>
          outcome_state r = s6)"
        using assms(4) v d e True s
        by (auto simp: cmd_set_delay_def bind_eq_Some_conv outcome_state_def Let_def split: if_splits)
      then show ?thesis
      proof (elim disjE exE conjE)
        fix s5 x s6
        assume "bl_write_word B a ?w s4 = Some s5" and "bl_read_word B a s5 = Some (x, s6)" and "outcome_state r = s6"
        then show ?thesis using rd [OF wr [OF s4]] by simp
      qed (simp add: outcome_state_def s4)
    qed
  qed
qed

lemma dispatch_withheld:
  assumes "bl_board_ok B" and "bl_withheld B s" and "bl_dispatch B c s = Some r" and "c \<noteq> PROTO_BOOT"
  shows "bl_withheld B (outcome_state r)"
  using assms simple_commands_withheld [OF assms(2)] get_device_withheld [OF assms(1,2)] chip_erase_withheld [OF assms(1,2)]
    prog_multi_withheld [OF assms(1,2)] get_crc_withheld [OF assms(1,2)] set_delay_withheld [OF assms(1,2)]
  by (auto simp: bl_dispatch_def outcome_state_def split: if_splits option.splits)

lemma after_command_withheld: "bl_withheld B (after_command r) = bl_withheld B (outcome_state r)"
  by (auto simp: after_command_def outcome_state_def sync_response_def invalid_response_def failure_response_def
      bl_withheld_def split: outcome.split)

lemma run_withheld:
  assumes "bl_board_ok B" and "bl_withheld B s0"
  shows "bl_run B s0 tr s \<Longrightarrow> PROTO_BOOT \<notin> fst ` set tr \<Longrightarrow> bl_withheld B s"
proof (induction rule: bl_run.induct)
  case (turn tr s c r v)
  obtain s1 where s1: "core s1 = core s" "bl_dispatch B c s1 = Some r" using bl_turn_state [OF turn.hyps(2)] .
  have "bl_withheld B s1" using turn.IH turn.prems keeps_withheld [OF core_keeps [OF s1(1)]] by auto
  then show ?case using dispatch_withheld [OF assms(1) _ s1(2)] turn.prems by (auto simp: after_command_withheld)
qed (rule assms(2))

lemma erase_accepted:
  assumes "cmd_chip_erase B s = Some (Sync s')"
  obtains f s2 s3 where "erase_sectors (board_dev B) (sectors (board_dev B)) (arch_flash_unlock (board_dev B) (flash s)) = Some f"
    "flash s2 = f" "verify_erase B (word_addrs (fw_size B)) s2 = Some (True, s3)" "flash s' = flash s3" "address s' = 0"
proof -
  obtain e s1 where e: "wait_for_eoc B 2 s = Some (e, s1)" using assms by (auto simp: cmd_chip_erase_def bind_eq_Some_conv)
  have "flash s1 = flash s" using io_keeps(2) [OF e] by (simp add: keeps_def)
  then have "\<exists>f s3. erase_sectors (board_dev B) (sectors (board_dev B)) (arch_flash_unlock (board_dev B) (flash s)) = Some f \<and>
      verify_erase B (word_addrs (fw_size B)) (led_set LED_OFF ((led_set LED_ON s1)\<lparr>flash := f\<rparr>)) = Some (True, s3) \<and>
      flash s' = flash s3 \<and> address s' = 0"
    using assms e by (auto simp: cmd_chip_erase_def bind_eq_Some_conv Let_def split: if_splits)
  then obtain f s3 where "erase_sectors (board_dev B) (sectors (board_dev B)) (arch_flash_unlock (board_dev B) (flash s)) = Some f"
    "verify_erase B (word_addrs (fw_size B)) (led_set LED_OFF ((led_set LED_ON s1)\<lparr>flash := f\<rparr>)) = Some (True, s3)"
    "flash s' = flash s3" "address s' = 0" by blast
  then show thesis by (intro that [of f "led_set LED_OFF ((led_set LED_ON s1)\<lparr>flash := f\<rparr>)" s3]) simp_all
qed

lemma verify_erase_shield:
  assumes "dev_local (board_dev B)" and "APP_LOAD (board_dev B) mod 32 = 0"
  shows "shielded (board_dev B) (flash s) \<Longrightarrow> verify_erase B as s = Some (ok, s') \<Longrightarrow>
    shielded (board_dev B) (flash s') \<and> line0 (flash s') = line0 (flash s)"
proof (induction as arbitrary: s)
  case (Cons a as)
  obtain w f where r: "flash_func_read_word (board_dev B) a (flash s) = Some (w, f)"
    "(if w \<noteq> 0xffffffff then Some (False, s\<lparr>address := a, flash := f\<rparr>)
      else verify_erase B as (s\<lparr>address := a, flash := f\<rparr>)) = Some (ok, s')"
    using Cons.prems(2) by (auto simp: bind_eq_Some_conv bl_read_flash)
  have "shielded (board_dev B) f \<and> line0 f = line0 (flash s)" using read_keeps_shield [OF assms Cons.prems(1) r(1)] by simp
  then show ?case using Cons.IH [of "s\<lparr>address := a, flash := f\<rparr>"] r(2) by (auto split: if_splits)
qed simp

lemma erase_sectors_shield:
  "shielded D f \<Longrightarrow> erase_sectors D is f = Some f' \<Longrightarrow> shielded D f' \<and> line0 f' = line0 f"
proof (induction "is" arbitrary: f)
  case (Cons i "is")
  then obtain f1 where "flash_func_erase_sector D i f = Some f1" "erase_sectors D is f1 = Some f'"
    by (auto simp: bind_eq_Some_conv)
  then show ?case using Cons.IH [of f1] erase_keeps_shield [of D i f f1] Cons.prems(1) by auto
qed simp

lemma erase_shields:
  assumes "bl_board_ok B" and "cmd_chip_erase B s = Some (Sync s')"
    and "dev_read (board_dev B) (dev (flash s')) (APP_LOAD (board_dev B)) = 0xffffffff"
  shows "bl_withheld B s'"
proof -
  have b: "dev_local (board_dev B)" "APP_LOAD (board_dev B) mod 32 = 0" using assms(1) by (simp_all add: bl_board_ok_def)
  obtain f s2 s3 where e: "erase_sectors (board_dev B) (sectors (board_dev B)) (arch_flash_unlock (board_dev B) (flash s)) = Some f"
    "flash s2 = f" "verify_erase B (word_addrs (fw_size B)) s2 = Some (True, s3)" "flash s' = flash s3" "address s' = 0"
    using erase_accepted [OF assms(2)] .
  have "shielded (board_dev B) f \<and> fc_index (line0 f) \<noteq> 7"
    using erase_sectors_shield [OF _ e(1)] unlock_shielded [OF b(2), of "flash s"] by simp
  then have "shielded (board_dev B) (flash s3) \<and> fc_index (line0 (flash s3)) \<noteq> 7"
    using verify_erase_shield [OF b _ e(3)] e(2) by simp
  then show ?thesis using e(4,5) assms(3) by (simp add: bl_withheld_def withheld_def)
qed

lemma verify_erase_staged:
  assumes "staged (board_dev B) cap [] (flash s)" and "\<forall>a \<in> set as. a mod 4 = 0 \<and> a div 4 < cap"
  shows "\<exists>a. verify_erase B as s = Some (True, s\<lparr>address := a\<rparr>)"
  using assms
proof (induction as arbitrary: s)
  case Nil
  have "s = s\<lparr>address := address s\<rparr>" by simp
  then show ?case by (intro exI [of _ "address s"]) simp
next
  case (Cons a as)
  have "bl_read_word B a (s\<lparr>address := a\<rparr>) = Some (0xffffffff, s\<lparr>address := a\<rparr>)"
    using staged_read [OF Cons.prems(1), of "a div 4"] Cons.prems(2) by (auto simp: bl_read_word_def)
  then show ?case using Cons.IH [of "s\<lparr>address := a\<rparr>"] Cons.prems by simp
qed

section \<open>A board to try it on\<close>

definition demo_board :: "(nat \<Rightarrow> u32) bl_board" where
  "demo_board = \<lparr>board_dev = demo_dev, board_type = 50, board_rev = 0, fw_size = 32, usb_enabled = True, usart_enabled = True,
     read_sn = \<lambda>a. word_of_nat a, SN_MAX_LENGTH = 12, mcu_idcode = 0x20036450, BOOT_DELAY_ADDRESS = None\<rparr>"

definition demo_bl :: "u8 list \<Rightarrow> u32 \<Rightarrow> (nat \<Rightarrow> u32) bl" where
  "demo_bl bytes st = \<lparr>flash = demo_flash, usb_rx = bytes, usart_rx = [], bl_type = NONE, last_input = NONE, timers = [0, 0, 0, 0],
     led_st = LED_OFF, cin_count = 0, crctab = crctab_zero, flash_buffer = replicate 256 0, bl_state = st, address = 32,
     first_word = 0xffffffff, bl_timeout = 0, bl_out = [], happenings = []\<rparr>"

lemma demo_board_ok: "bl_board_ok demo_board"
  by (auto simp: bl_board_ok_def demo_board_def demo_dev_def dev_local_def)

lemma usb_byte:
  assumes "usb_enabled B" and "bl_type s \<noteq> USART" and "usb_rx s = b # bs"
  shows "cin_wait B t s = Some (Some b, s\<lparr>timers := (timers s)[TIMER_CIN := t], usb_rx := bs, last_input := USB,
    cin_count := cin_count s + 1\<rparr>)"
proof -
  have "bl_type s = NONE \<or> bl_type s = USB" using assms(2) by (cases "bl_type s") simp_all
  then show ?thesis using assms by (auto simp: cin_wait_def cin_loop.simps cin_def)
qed

lemma usb_command:
  assumes "usb_enabled B" and "bl_type s \<noteq> USART" and "usb_rx s = c # bs" and "bl_timeout s = 0"
  shows "await_command B hs s = Some (Inr (c, s\<lparr>happenings := hs, timers := (timers s)[TIMER_CIN := 0], usb_rx := bs,
    last_input := USB, cin_count := cin_count s + 1\<rparr>))"
  using assms usb_byte [of B "s\<lparr>happenings := hs\<rparr>" c bs 0] by (simp add: await_command.simps)

lemma usb_eoc:
  "usb_enabled B \<Longrightarrow> bl_type s \<noteq> USART \<Longrightarrow> usb_rx s = PROTO_EOC # bs \<Longrightarrow>
     wait_for_eoc B t s = Some (True, s\<lparr>timers := (timers s)[TIMER_CIN := t], usb_rx := bs, last_input := USB,
       cin_count := cin_count s + 1\<rparr>)"
  by (simp add: wait_for_eoc_def usb_byte)

lemma demo_blank: "flash_func_erase_sector demo_dev i (arch_flash_unlock demo_dev demo_flash) = Some (arch_flash_unlock demo_dev demo_flash)"
proof -
  have "bytes_of_u32 0xffffffff = [0xff, 0xff, 0xff, 0xff]" by (simp add: bytes_of_u32_def)
  then have "bytes_of_u32 0xffffffff ! (x mod 4) = 0xff" for x
  proof -
    have "x mod 4 \<in> {0, 1, 2, 3}" by auto
    then show ?thesis using \<open>bytes_of_u32 0xffffffff = _\<close> by auto
  qed
  then have "getreg8 demo_dev (dev (arch_flash_unlock demo_dev demo_flash)) x = 0xff" for x
    by (simp add: getreg8_def demo_dev_def demo_flash_def arch_flash_unlock_def fc_reset_def)
  moreover have "FLASH_NPAGES demo_dev = 65536"
    by (simp add: FLASH_NPAGES_def demo_dev_def FLASH_SECTOR_SIZE_def FLASH_PAGE_SIZE_def)
  moreover have "FLASH_SECTORS demo_dev = 15" by (simp add: demo_dev_def)
  ultimately show ?thesis by (simp add: flash_func_erase_sector_def up_progmem_ispageerased_def)
qed

lemma demo_erase_sectors:
  "erase_sectors demo_dev is (arch_flash_unlock demo_dev demo_flash) = Some (arch_flash_unlock demo_dev demo_flash)"
  by (induction "is") (simp_all add: demo_blank)

lemma demo_erase_turn:
  "\<exists>s'. bl_turn demo_board (demo_bl [PROTO_CHIP_ERASE, PROTO_EOC] 3) = Some (PROTO_CHIP_ERASE, Sync s') \<and>
     flash s' = arch_flash_unlock demo_dev demo_flash"
proof -
  have dev: "board_dev demo_board = demo_dev" "usb_enabled demo_board" "fw_size demo_board = 32" by (simp_all add: demo_board_def)
  have st: "staged demo_dev 64 [] (arch_flash_unlock demo_dev demo_flash)" by (rule staged_empty [OF demo_dev_ok])
  have v: "\<exists>a. verify_erase demo_board (word_addrs 32) s = Some (True, s\<lparr>address := a\<rparr>)"
    if "flash s = arch_flash_unlock demo_dev demo_flash" for s
    using verify_erase_staged [of demo_board 64 s "word_addrs 32"] st that by (auto simp: dev word_addrs_def)
  let ?s = "bl_emit (Led_off LED_ACTIVITY) (demo_bl [PROTO_CHIP_ERASE, PROTO_EOC] 3)"
  have "usb_rx ?s = [PROTO_CHIP_ERASE, PROTO_EOC]" "bl_type ?s = NONE" "bl_timeout ?s = 0" by (simp_all add: bl_emit_def demo_bl_def)
  then obtain s1 where a: "await_command demo_board (happenings ?s) ?s = Some (Inr (PROTO_CHIP_ERASE, s1))"
      "usb_rx s1 = [PROTO_EOC]" "bl_type s1 = NONE"
    using usb_command [of demo_board ?s PROTO_CHIP_ERASE "[PROTO_EOC]" "happenings ?s"] dev(2) by simp
  let ?s1 = "bl_emit (Led_on LED_ACTIVITY) s1"
  have "\<exists>s2. wait_for_eoc demo_board 2 ?s1 = Some (True, s2)"
    using usb_eoc [of demo_board ?s1 "[]" 2] a(2,3) dev(2) by (simp add: bl_emit_def)
  moreover have st1: "bl_state ?s1 = 3" "flash ?s1 = demo_flash"
    using core_fields(1,2) [OF await_core [OF a(1)]] by (simp_all add: bl_emit_def demo_bl_def)
  ultimately obtain s2 where e: "wait_for_eoc demo_board 2 ?s1 = Some (True, s2)" "bl_state s2 = 3" "flash s2 = demo_flash"
    using io_keeps(2) by (metis keeps_def)
  define s3 where "s3 = led_set LED_OFF ((led_set LED_ON s2)\<lparr>flash := arch_flash_unlock demo_dev demo_flash\<rparr>)"
  have "flash s3 = arch_flash_unlock demo_dev demo_flash" by (simp add: s3_def)
  then obtain x where x: "verify_erase demo_board (word_addrs 32) s3 = Some (True, s3\<lparr>address := x\<rparr>)" using v by blast
  have "cmd_chip_erase demo_board ?s1 = Some (Sync (led_set LED_BLINK (SET_BL_STATE STATE_PROTO_CHIP_ERASE (s3\<lparr>address := 0\<rparr>))))"
    using x by (simp add: cmd_chip_erase_def e dev demo_erase_sectors s3_def Let_def del: One_nat_def)
  then have "bl_turn demo_board (demo_bl [PROTO_CHIP_ERASE, PROTO_EOC] 3)
      = Some (PROTO_CHIP_ERASE, Sync (led_set LED_BLINK (SET_BL_STATE STATE_PROTO_CHIP_ERASE (s3\<lparr>address := 0\<rparr>))))"
    by (simp add: bl_turn_def Let_def a(1) bl_dispatch_def del: One_nat_def)
  then show ?thesis by (auto simp: s3_def)
qed

text \<open>From an accepted erase on the first word stays erased until a boot command.\<close>

lemma withheld_until_boot:
  assumes "bl_board_ok B" and "bl_turn B s = Some (PROTO_CHIP_ERASE, Sync s')"
    and "dev_read (board_dev B) (dev (flash s')) (APP_LOAD (board_dev B)) = 0xffffffff"
    and "bl_run B (after_command (Sync s')) tr s''" and "PROTO_BOOT \<notin> fst ` set tr"
  shows "dev_read (board_dev B) (dev (flash s'')) (APP_LOAD (board_dev B)) = 0xffffffff"
proof -
  obtain s1 where s1: "bl_dispatch B PROTO_CHIP_ERASE s1 = Some (Sync s')" using bl_turn_state [OF assms(2)] .
  then have "bl_withheld B s'" using erase_shields [OF assms(1) _ assms(3)] by (simp add: bl_dispatch_def)
  then have "bl_withheld B (after_command (Sync s'))" by (simp add: after_command_withheld outcome_state_def)
  from run_withheld [OF assms(1) this assms(4,5)] show ?thesis by (simp add: bl_withheld_def withheld_def)
qed

section \<open>Properties\<close>

text \<open>
  C40. The order of commands is enforced over whole sessions: an erase touches the flash only if
  the host got a sync and a device answer since the last invalid command, and the withheld first
  word is committed, or the loop left with one pending, only if programming and a checksum
  request were accepted as well.
\<close>

theorem handshake_required:
  assumes "bl_run B (bl_enter B timeout s0) tr s" and "bl_turn B s = Some (c, r)"
  shows "(c = PROTO_CHIP_ERASE \<and> flash (outcome_state r) \<noteq> flash s \<longrightarrow>
      {PROTO_GET_SYNC, PROTO_GET_DEVICE} \<subseteq> accepted_since tr)
    \<and> (c = PROTO_BOOT \<and> first_word s \<noteq> 0xffffffff \<and> (flash (outcome_state r) \<noteq> flash s \<or> verdict_of r = None) \<longrightarrow>
      {PROTO_GET_SYNC, PROTO_GET_DEVICE, PROTO_PROG_MULTI, PROTO_GET_CRC} \<subseteq> accepted_since tr)"
proof -
  obtain s1 where s1: "core s1 = core s" "bl_dispatch B c s1 = Some r" using bl_turn_state [OF assms(2)] .
  note acc = run_accepted [OF assms(1) bl_enter_state(1)]
  have eq: "bl_state s1 = bl_state s" "flash s1 = flash s" "first_word s1 = first_word s" using s1(1) by (simp_all add: core_def)
  show ?thesis
  proof (intro conjI impI; elim conjE)
    assume c: "c = PROTO_CHIP_ERASE" and ch: "flash (outcome_state r) \<noteq> flash s"
    have "cmd_chip_erase B s1 = Some r" using s1(2) c by (simp add: bl_dispatch_def)
    then have "bl_state s AND STATE_ALLOWS_ERASE = STATE_ALLOWS_ERASE" using erase_refused [of B s1 r] ch eq by auto
    then show "{PROTO_GET_SYNC, PROTO_GET_DEVICE} \<subseteq> accepted_since tr" using acc by simp
  next
    assume c: "c = PROTO_BOOT" and w: "first_word s \<noteq> 0xffffffff" and ch: "flash (outcome_state r) \<noteq> flash s \<or> verdict_of r = None"
    have b: "cmd_boot B s1 = Some r" using s1(2) c by (simp add: bl_dispatch_def)
    have "bl_state s AND STATE_ALLOWS_REBOOT = STATE_ALLOWS_REBOOT"
    proof (rule ccontr)
      assume "bl_state s AND STATE_ALLOWS_REBOOT \<noteq> STATE_ALLOWS_REBOOT"
      then obtain s' where "r = Bad s'" "flash s' = flash s" using boot_refused [OF b] eq w by auto
      then show False using ch by (simp add: outcome_state_def verdict_of_def)
    qed
    then show "{PROTO_GET_SYNC, PROTO_GET_DEVICE, PROTO_PROG_MULTI, PROTO_GET_CRC} \<subseteq> accepted_since tr" using acc by simp
  qed
qed

theorem handshake_required_witness:
  "bl_turn demo_board (bl_enter demo_board 0 (demo_bl [PROTO_CHIP_ERASE, PROTO_EOC] 3)) = Some (PROTO_CHIP_ERASE,
      the (map_option snd (bl_turn demo_board (bl_enter demo_board 0 (demo_bl [PROTO_CHIP_ERASE, PROTO_EOC] 3)))))
    \<and> flash (outcome_state (the (map_option snd (bl_turn demo_board (bl_enter demo_board 0 (demo_bl [PROTO_CHIP_ERASE, PROTO_EOC] 3))))))
      = demo_flash"
proof -
  let ?s = "bl_enter demo_board 0 (demo_bl [PROTO_CHIP_ERASE, PROTO_EOC] 3)"
  let ?e = "bl_emit (Led_off LED_ACTIVITY) ?s"
  have "usb_rx ?e = [PROTO_CHIP_ERASE, PROTO_EOC]" "bl_type ?e = NONE" "bl_timeout ?e = 0" "usb_enabled demo_board"
    by (simp_all add: bl_enter_def bl_emit_def led_set_def demo_bl_def Let_def demo_board_def)
  then obtain s1 where a: "await_command demo_board (happenings ?e) ?e = Some (Inr (PROTO_CHIP_ERASE, s1))"
      "usb_rx s1 = [PROTO_EOC]" "bl_type s1 = NONE"
    using usb_command [of demo_board ?e PROTO_CHIP_ERASE "[PROTO_EOC]" "happenings ?e"] by simp
  have "\<exists>s2. wait_for_eoc demo_board 2 (bl_emit (Led_on LED_ACTIVITY) s1) = Some (True, s2)"
    using usb_eoc [of demo_board "bl_emit (Led_on LED_ACTIVITY) s1" "[]" 2] a(2,3)
    by (simp add: bl_emit_def demo_board_def)
  moreover have st: "bl_state (bl_emit (Led_on LED_ACTIVITY) s1) = 0"
    using core_fields(2) [OF await_core [OF a(1)]] by (simp add: bl_emit_def)
  ultimately obtain s2 where e: "wait_for_eoc demo_board 2 (bl_emit (Led_on LED_ACTIVITY) s1) = Some (True, s2)" "bl_state s2 = 0"
    using io_keeps(2) by (metis keeps_def)
  then have r: "bl_turn demo_board ?s = Some (PROTO_CHIP_ERASE, Bad s2)"
    by (simp add: bl_turn_def a(1) bl_dispatch_def cmd_chip_erase_def Let_def del: One_nat_def)
  have "accepted_since [] = {}" by (simp add: accepted_since_def)
  then have "flash s2 = flash ?s"
    using handshake_required [OF bl_run.start r] by (simp add: outcome_state_def)
  then show ?thesis using r by (simp add: outcome_state_def) (simp add: demo_bl_def)
qed

end
