(* ===== verification/Bl_Wait.thy ===== *)
theory Bl_Wait
  imports Bl_Session
begin

text \<open>
  Time in the command loop of the serial bootloader: the time-out without a host, and how the
  loop can be left when there is none.
\<close>

section \<open>Time and the host\<close>

interpretation bl_wait: countdown sys_tick_handler "\<lambda>s. timers s ! TIMER_BL_WAIT" "\<lambda>s. length (timers s) = 4"
  by unfold_locales (auto simp: sys_tick_handler_def Let_def bl_emit_def)

text \<open>No byte is waiting and the timers are there.\<close>

definition line_quiet :: "'d bl \<Rightarrow> bool" where
  "line_quiet s \<longleftrightarrow> usb_rx s = [] \<and> usart_rx s = [] \<and> length (timers s) = 4"

lemma quiet_poll: "line_quiet s \<Longrightarrow> cin_wait B 0 s = Some (None, s\<lparr>timers := (timers s)[TIMER_CIN := 0]\<rparr>)"
  by (simp add: line_quiet_def cin_wait_def cin_loop.simps cin_def)

lemma quiet_tick: "line_quiet s \<Longrightarrow> line_quiet (happen Tick s)"
  by (simp add: line_quiet_def happen_def sys_tick_handler_def Let_def bl_emit_def)

lemma await_quiet:
  assumes "line_quiet s" and "bl_timeout s \<noteq> 0" and "timers s ! TIMER_BL_WAIT > 0"
  shows "await_command B (h # hs) s = await_command B hs (happen h (s\<lparr>happenings := h # hs, timers := (timers s)[TIMER_CIN := 0]\<rparr>))"
    and "await_command B [] s = None"
  using assms quiet_poll [of "s\<lparr>happenings := h # hs\<rparr>" B] quiet_poll [of "s\<lparr>happenings := []\<rparr>" B]
  by (simp_all add: await_command.simps [of B "h # hs"] await_command.simps [of B "[]"] line_quiet_def)

lemma await_timeout:
  assumes "line_quiet s" and "bl_timeout s \<noteq> 0"
  shows "\<exists>s'. await_command B (replicate (timers s ! TIMER_BL_WAIT) Tick @ hs) s = Some (Inl s') \<and> happenings s' = hs \<and> core s' = core s"
  using assms
proof (induction "timers s ! TIMER_BL_WAIT" arbitrary: s)
  case 0
  then have "await_command B hs s = Some (Inl (s\<lparr>happenings := hs\<rparr>))" by (simp add: await_command.simps [of B hs])
  then show ?case using 0 by simp
next
  case (Suc n)
  let ?hs = "replicate n Tick @ hs"
  define s1 where "s1 = s\<lparr>happenings := Tick # ?hs, timers := (timers s)[TIMER_CIN := 0]\<rparr>"
  have q: "line_quiet s1" "bl_timeout s1 \<noteq> 0" "timers s1 ! TIMER_BL_WAIT = Suc n" "core s1 = core s"
    using Suc by (simp_all add: s1_def line_quiet_def core_def)
  have "timers (happen Tick s1) ! TIMER_BL_WAIT = n"
    using bl_wait.tick_left [of s1] q by (simp add: line_quiet_def happen_def)
  moreover have "bl_timeout (happen Tick s1) \<noteq> 0" using q(2) core_simps(5) [of Tick s1] by (simp add: core_def)
  ultimately obtain s' where "await_command B ?hs (happen Tick s1) = Some (Inl s')" "happenings s' = hs" "core s' = core (happen Tick s1)"
    using Suc(1) [of "happen Tick s1"] quiet_tick [OF q(1)] by auto
  moreover have "await_command B (Tick # ?hs) s = await_command B ?hs (happen Tick s1)"
    unfolding s1_def by (rule await_quiet(1)) (use Suc in auto)
  ultimately show ?case using Suc(2) q(4) by (metis append_Cons core_simps(5) replicate_Suc)
qed

lemma await_early:
  assumes "line_quiet s" and "bl_timeout s \<noteq> 0" and "n < timers s ! TIMER_BL_WAIT"
  shows "await_command B (replicate n Tick) s = None"
  using assms
proof (induction n arbitrary: s)
  case 0
  then show ?case using await_quiet(2) [of s B] by simp
next
  case (Suc n)
  define s1 where "s1 = s\<lparr>happenings := Tick # replicate n Tick, timers := (timers s)[TIMER_CIN := 0]\<rparr>"
  have q: "line_quiet s1" "bl_timeout s1 \<noteq> 0" "timers s1 ! TIMER_BL_WAIT = timers s ! TIMER_BL_WAIT"
    using Suc by (simp_all add: s1_def line_quiet_def)
  have "timers (happen Tick s1) ! TIMER_BL_WAIT = timers s ! TIMER_BL_WAIT - 1"
    using bl_wait.tick_left [of s1] q by (simp add: line_quiet_def happen_def)
  moreover have "bl_timeout (happen Tick s1) \<noteq> 0" using q(2) core_simps(5) [of Tick s1] by (simp add: core_def)
  ultimately have "await_command B (replicate n Tick) (happen Tick s1) = None"
    using Suc.IH [of "happen Tick s1"] quiet_tick [OF q(1)] Suc.prems(3) by simp
  then show ?case using await_quiet(1) [of s B Tick "replicate n Tick"] Suc.prems by (simp add: s1_def)
qed

lemma enter_quiet:
  fixes s :: "'d bl" and B :: "'d bl_board"
  assumes "line_quiet s" and "timeout \<noteq> 0"
  defines "e \<equiv> bl_emit (Led_off LED_ACTIVITY) (bl_enter B timeout s)"
  shows "line_quiet e" "bl_timeout e = timeout" "timers e ! TIMER_BL_WAIT = timeout" "happenings e = happenings s" "flash e = flash s"
  using assms by (simp_all add: line_quiet_def bl_enter_def bl_emit_def led_set_def Let_def)

text \<open>A command keeps the time-out; only the boot command leaves the loop.\<close>

lemma core_timeout: "core s = core s' \<Longrightarrow> bl_timeout s = bl_timeout s'"
  by (simp add: core_def)

lemmas io_timeout = cin_wait_core [THEN core_timeout] wait_for_eoc_core [THEN core_timeout] cin_word_core [THEN core_timeout]
  delay_core [THEN core_timeout]

lemma timeout_simps [simp]:
  "bl_timeout (SET_BL_STATE m s) = bl_timeout s" "bl_timeout (cout bs s) = bl_timeout s" "bl_timeout (cout_word w s) = bl_timeout s"
  "bl_timeout (led_set l s) = bl_timeout s" "bl_timeout (defer_first s) = bl_timeout s" "bl_timeout (sync_response s) = bl_timeout s"
  using core_timeout [OF core_simps(2)] core_timeout [OF core_simps(3)] core_timeout [OF core_simps(4)] core_timeout [OF core_simps(6)]
  by (simp_all add: SET_BL_STATE_def defer_first_def)

lemma vec_area_timeout: "vec_area B ps s = Some s' \<Longrightarrow> bl_timeout s' = bl_timeout s"
  by (induction ps arbitrary: s) (auto simp: bind_eq_Some_conv bl_read_flash)

lemma verify_erase_timeout: "verify_erase B as s = Some (ok, s') \<Longrightarrow> bl_timeout s' = bl_timeout s"
proof (induction as arbitrary: s)
  case (Cons a as)
  then obtain w f where "bl_read_word B a (s\<lparr>address := a\<rparr>) = Some (w, s\<lparr>address := a, flash := f\<rparr>)"
    "(if w \<noteq> 0xffffffff then Some (False, s\<lparr>address := a, flash := f\<rparr>)
      else verify_erase B as (s\<lparr>address := a, flash := f\<rparr>)) = Some (ok, s')"
    by (auto simp: bind_eq_Some_conv bl_read_flash)
  then show ?case using Cons.IH [of "s\<lparr>address := a, flash := f\<rparr>"] by (auto split: if_splits)
qed simp

lemma fill_buffer_timeout: "fill_buffer B i n s = Some (ok, s') \<Longrightarrow> bl_timeout s' = bl_timeout s"
proof (induction n arbitrary: i s)
  case (Suc n)
  then obtain c s1 where c: "cin_wait B 1000 s = Some (c, s1)" by (auto simp: bind_eq_Some_conv)
  show ?case using Suc c io_timeout(1) [OF c] by (cases c) auto
qed simp

lemma crc_words_timeout: "crc_words B ps acc s = Some (v, s') \<Longrightarrow> bl_timeout s' = bl_timeout s"
proof (induction ps arbitrary: acc s)
  case (Cons p ps)
  obtain w s1 where w: "(if p = 0 \<and> first_word s \<noteq> 0xffffffff then Some (first_word s, s) else bl_read_word B p s)
      = Some (w, s1)"
    using Cons.prems by (auto simp: bind_eq_Some_conv)
  then have "bl_timeout s1 = bl_timeout s" by (auto simp: bl_read_flash split: if_splits)
  then show ?case using Cons w by (auto simp: Let_def split_beta split: if_splits)
qed simp

definition same_timeout :: "'d bl \<Rightarrow> 'd outcome \<Rightarrow> bool" where
  "same_timeout s r \<longleftrightarrow> bl_timeout (outcome_state r) = bl_timeout s"

lemma same_timeoutI:
  "bl_timeout s' = bl_timeout s \<Longrightarrow> same_timeout s (Sync s')" "bl_timeout s' = bl_timeout s \<Longrightarrow> same_timeout s (Bad s')"
  "bl_timeout s' = bl_timeout s \<Longrightarrow> same_timeout s (Failed s')" "bl_timeout s' = bl_timeout s \<Longrightarrow> same_timeout s (Leave s')"
  by (simp_all add: same_timeout_def outcome_state_def)

lemma set_delay_timeout: "cmd_set_delay B a s = Some r \<Longrightarrow> same_timeout s r"
  by (auto simp: cmd_set_delay_def bind_eq_Some_conv Let_def bl_read_flash bl_write_flash
      intro!: same_timeoutI dest!: io_timeout split: if_splits option.splits)

lemma simple_timeout:
  "cmd_get_sync B s = Some r \<Longrightarrow> same_timeout s r" "cmd_get_otp B s = Some r \<Longrightarrow> same_timeout s r"
  "cmd_get_sn B s = Some r \<Longrightarrow> same_timeout s r" "cmd_get_chip B s = Some r \<Longrightarrow> same_timeout s r"
  "cmd_get_chip_des B s = Some r \<Longrightarrow> same_timeout s r"
  by (auto simp: cmd_get_sync_def cmd_get_otp_def cmd_get_sn_def cmd_get_chip_def cmd_get_chip_des_def
      bind_eq_Some_conv Let_def intro!: same_timeoutI dest!: io_timeout split: if_splits option.splits)

lemma device_timeout: "cmd_get_device B s = Some r \<Longrightarrow> same_timeout s r"
  by (auto simp: cmd_get_device_def bind_eq_Some_conv simp del: vec_area.simps intro!: same_timeoutI
      dest!: io_timeout vec_area_timeout split: if_splits option.splits)

lemma erase_timeout: "cmd_chip_erase B s = Some r \<Longrightarrow> same_timeout s r"
  by (auto simp: cmd_chip_erase_def bind_eq_Some_conv Let_def intro!: same_timeoutI
      dest!: io_timeout verify_erase_timeout split: if_splits)

lemma prog_timeout: "cmd_prog_multi B s = Some r \<Longrightarrow> same_timeout s r"
  by (auto simp: cmd_prog_multi_def bind_eq_Some_conv Let_def prog_loop_flash intro!: same_timeoutI
      dest!: io_timeout fill_buffer_timeout split: if_splits option.splits)

lemma crc_timeout: "cmd_get_crc B s = Some r \<Longrightarrow> same_timeout s r"
  by (auto simp: cmd_get_crc_def bind_eq_Some_conv intro!: same_timeoutI dest!: io_timeout crc_words_timeout split: if_splits)

lemma boot_timeout: "cmd_boot B s = Some r \<Longrightarrow> same_timeout s r"
  by (auto simp: cmd_boot_def bind_eq_Some_conv bl_read_flash bl_write_flash intro!: same_timeoutI dest!: io_timeout split: if_splits)

lemma dispatch_timeout: "bl_dispatch B c s = Some r \<Longrightarrow> same_timeout s r"
  using simple_timeout [of B s r] device_timeout [of B s r] erase_timeout [of B s r] prog_timeout [of B s r]
    crc_timeout [of B s r] boot_timeout [of B s r] set_delay_timeout [of B _ s r]
  by (auto simp: bl_dispatch_def same_timeout_def outcome_state_def split: if_splits option.splits)

lemma dispatch_leave: "bl_dispatch B c s = Some (Leave s') \<Longrightarrow> c = PROTO_BOOT"
  by (auto simp: bl_dispatch_def cmd_get_sync_def cmd_get_otp_def cmd_get_sn_def cmd_get_chip_def cmd_get_chip_des_def
      cmd_get_device_def cmd_chip_erase_def cmd_prog_multi_def cmd_get_crc_def cmd_set_delay_def bind_eq_Some_conv Let_def
      split: if_splits option.splits)

lemma after_timeout: "bl_timeout (outcome_state r) = 0 \<Longrightarrow> bl_timeout (after_command r) = 0"
  by (auto simp: after_command_def outcome_state_def invalid_response_def failure_response_def split: outcome.splits)

text \<open>A session from its first command, and the end of a loop that has no time-out.\<close>

lemma bl_run_front:
  assumes "bl_turn B s = Some (c, r)" and "verdict_of r = Some v"
  shows "bl_run B (after_command r) tr s' \<Longrightarrow> bl_run B s (tr @ [(c, v)]) s'"
proof (induction rule: bl_run.induct)
  case start
  then show ?case using bl_run.turn [OF bl_run.start assms] by simp
next
  case (turn tr s1 c1 r1 v1)
  then show ?case using bl_run.turn [of B s "tr @ [(c, v)]" s1 c1 r1 v1] by simp
qed

lemma iter_turn:
  assumes "bl_iter B s = Some x" and "bl_timeout s = 0"
  obtains c r where "bl_turn B s = Some (c, r)" and "x = (case r of Leave s \<Rightarrow> Inl s | r \<Rightarrow> Inr (after_command r))"
    and "bl_timeout (outcome_state r) = 0"
proof -
  let ?s = "bl_emit (Led_off LED_ACTIVITY) s"
  have t: "bl_timeout ?s = 0" using assms(2) by (simp add: bl_emit_def)
  have no: "await_command B hs s1 = Some (Inl s2) \<Longrightarrow> bl_timeout s1 = 0 \<Longrightarrow> False" for hs s1 s2
  proof (induction hs arbitrary: s1)
    case Nil
    then show ?case by (auto simp: await_command.simps [of B "[]"] split: option.splits)
  next
    case (Cons h hs)
    then obtain s3 where "cin_wait B 0 (s1\<lparr>happenings := h # hs\<rparr>) = Some (None, s3)" "await_command B hs (happen h s3) = Some (Inl s2)"
      by (auto simp: await_command.simps [of B "h # hs"] split: option.splits)
    moreover from this have "bl_timeout (happen h s3) = 0"
      using io_timeout(1) [of B 0 "s1\<lparr>happenings := h # hs\<rparr>"] core_timeout [OF core_simps(5) [of h s3]] Cons.prems(2) by simp
    ultimately show ?case using Cons.IH by blast
  qed
  obtain y where y: "await_command B (happenings ?s) ?s = Some y" using assms(1) by (auto simp: bl_iter_def Let_def split: option.splits)
  obtain c s1 where y': "y = Inr (c, s1)" using no [of "happenings ?s" ?s] y t by (cases y) auto
  obtain r where r: "bl_dispatch B c (bl_emit (Led_on LED_ACTIVITY) s1) = Some r"
    using assms(1) y y' by (auto simp: bl_iter_def Let_def)
  have "bl_timeout s1 = 0" using await_core [of B "happenings ?s" ?s c s1] y y' t core_timeout by metis
  then have "bl_timeout (outcome_state r) = 0" using dispatch_timeout [OF r] by (simp add: same_timeout_def bl_emit_def)
  moreover have "bl_turn B s = Some (c, r)" using y y' r by (simp add: bl_turn_def Let_def)
  moreover have "x = (case r of Leave s \<Rightarrow> Inl s | r \<Rightarrow> Inr (after_command r))" using bl_iter_turn calculation(2) assms(1) by fastforce
  ultimately show thesis using that by blast
qed

lemma bl_loop_leaves:
  assumes "bl_loop B s = Some s'" and "bl_timeout s = 0"
  shows "\<exists>tr s1. bl_run B s tr s1 \<and> bl_turn B s1 = Some (PROTO_BOOT, Leave s')"
  using assms
proof (induction rule: bl_loop.raw_induct [rotated, consumes 1, case_names body])
  case (body loop B s s')
  obtain x where x: "bl_iter B s = Some x" using body.hyps by (auto split: option.splits)
  obtain c r where cr: "bl_turn B s = Some (c, r)" "x = (case r of Leave s \<Rightarrow> Inl s | r \<Rightarrow> Inr (after_command r))"
    "bl_timeout (outcome_state r) = 0" using iter_turn [OF x body.prems] .
  show ?case
  proof (cases "verdict_of r")
    case None
    then obtain s2 where r: "r = Leave s2" by (cases r) (auto simp: verdict_of_def)
    then have "s2 = s'" using body.hyps x cr(2) by simp
    moreover obtain s1 where "bl_dispatch B c s1 = Some r" using bl_turn_state [OF cr(1)] .
    ultimately show ?thesis using cr(1) r dispatch_leave [of B c] bl_run.start by metis
  next
    case (Some v)
    then have "x = Inr (after_command r)" using cr(2) by (cases r) (auto simp: verdict_of_def)
    then have "loop B (after_command r) = Some s'" using body.hyps x by simp
    then obtain tr s1 where "bl_run B (after_command r) tr s1" "bl_turn B s1 = Some (PROTO_BOOT, Leave s')"
      using body.IH after_timeout [OF cr(3)] by blast
    then show ?thesis using bl_run_front [OF cr(1) Some] by blast
  qed
qed

interpretation bl_delay: countdown sys_tick_handler "\<lambda>s. timers s ! TIMER_DELAY" "\<lambda>s. length (timers s) = 4"
  by unfold_locales (auto simp: sys_tick_handler_def Let_def bl_emit_def)

lemma delay_ticks:
  assumes "length (timers s) = 4" and "happenings s = replicate n Tick @ hs"
  shows "\<exists>s'. delay n s = Some s' \<and> happenings s' = hs \<and> core s' = core s"
proof -
  have "delay_loop (replicate k Tick @ hs) s = Some ((sys_tick_handler ^^ k) s\<lparr>happenings := hs\<rparr>)"
    if "length (timers s) = 4" "timers s ! TIMER_DELAY = k" for k and s :: "'a bl"
    using that
  proof (induction k arbitrary: s)
    case 0
    then show ?case by (simp add: delay_loop.simps [of hs])
  next
    case (Suc k)
    have "delay_loop (Tick # replicate k Tick @ hs) s = delay_loop (replicate k Tick @ hs) (sys_tick_handler s)"
      using Suc.prems by (simp add: delay_loop.simps [of "Tick # replicate k Tick @ hs"] happen_def)
    then show ?case using Suc bl_delay.tick_inv [of s] bl_delay.tick_left [of s] by (simp add: funpow_swap1)
  qed
  note loop = this [of "s\<lparr>timers := (timers s)[TIMER_DELAY := n]\<rparr>" n]
  then obtain s' where d: "delay n s = Some s'" "happenings s' = hs"
    using assms by (auto simp: delay_def)
  then show ?thesis using delay_core [OF d(1)] by blast
qed

text \<open>A boot command over USB with nothing pending: the loop is left after the answer and its delay.\<close>

lemma usb_boot_turn:
  assumes "usb_enabled S" and "bl_type s = NONE" and "usb_rx s = [PROTO_BOOT, PROTO_EOC]" and "bl_timeout s = 0" and "length (timers s) = 4"
    and "first_word s = 0xffffffff" and "happenings s = replicate 100 Tick"
  shows "\<exists>s'. bl_loop S s = Some s' \<and> core s' = core s"
proof -
  let ?s = "bl_emit (Led_off LED_ACTIVITY) s"
  obtain s1 where a: "await_command S (happenings ?s) ?s = Some (Inr (PROTO_BOOT, s1))" "usb_rx s1 = [PROTO_EOC]" "bl_type s1 = NONE"
      "length (timers s1) = 4" "happenings s1 = happenings s"
    using usb_command [of S ?s PROTO_BOOT "[PROTO_EOC]" "happenings ?s"] assms(1-5) by (simp add: bl_emit_def)
  let ?s1 = "bl_emit (Led_on LED_ACTIVITY) s1"
  obtain s2 where e: "wait_for_eoc S 1000 ?s1 = Some (True, s2)" "length (timers s2) = 4" "happenings s2 = happenings s" "bl_type s2 = NONE"
    using usb_eoc [of S ?s1 "[]" 1000] assms(1) a(2-5) by (simp add: bl_emit_def)
  have c: "core s2 = core s" using await_core [OF a(1)] wait_for_eoc_core [OF e(1)] by simp
  have sr: "sync_response s2 = s2" using e(4) by (simp add: sync_response_def cout_def)
  obtain s3 where d: "delay 100 s2 = Some s3" "core s3 = core s2"
    using delay_ticks [OF e(2), of 100 "[]"] e(3) assms(7) by auto
  have "first_word s2 = 0xffffffff" using core_fields(4) [OF c] assms(6) by simp
  then have "cmd_boot S ?s1 = Some (Leave s3)" using e(1) d(1) sr by (simp add: cmd_boot_def del: One_nat_def)
  then have "bl_iter S s = Some (Inl s3)" using a(1) by (simp add: bl_iter_def Let_def bl_dispatch_def del: One_nat_def)
  then have "bl_loop S s = Some s3" by (subst bl_loop.simps) simp
  then show ?thesis using d(2) c by simp
qed

section \<open>Properties\<close>

text \<open>
  C39. Termination of the command loop without a host: as long as no byte arrives, \<open>bootloader\<close> with a
  time-out returns after exactly that many ticks, with the flash untouched, and not before.
\<close>

theorem bootloader_times_out:
  assumes "line_quiet s" and "timeout \<noteq> 0"
  shows "(\<forall>hs. happenings s = replicate timeout Tick @ hs \<longrightarrow>
      (\<exists>s'. bootloader B timeout s = Some s' \<and> happenings s' = hs \<and> flash s' = flash s))
    \<and> (\<forall>n < timeout. happenings s = replicate n Tick \<longrightarrow> bootloader B timeout s = None)"
proof -
  let ?e = "bl_emit (Led_off LED_ACTIVITY) (bl_enter B timeout s)"
  note q = enter_quiet [OF assms, of B]
  have b: "bootloader B timeout s = (case await_command B (happenings s) ?e of Some (Inl s') \<Rightarrow> Some s' | None \<Rightarrow> None
      | Some (Inr _) \<Rightarrow> bl_loop B (bl_enter B timeout s))"
    unfolding bootloader_def using q(4)
    by (subst bl_loop.simps) (simp add: bl_iter_def Let_def bl_loop.simps split: option.split sum.split)
  show ?thesis
  proof (intro conjI allI impI)
    fix hs assume h: "happenings s = replicate timeout Tick @ hs"
    obtain s' where s': "await_command B (replicate timeout Tick @ hs) ?e = Some (Inl s')" "happenings s' = hs" "core s' = core ?e"
      using await_timeout [OF q(1), of B hs] q(2,3) assms(2) by auto
    have "flash s' = flash s" using core_fields(1) [OF s'(3)] q(5) by simp
    then show "\<exists>s'. bootloader B timeout s = Some s' \<and> happenings s' = hs \<and> flash s' = flash s"
      using b h s'(1,2) by simp
  next
    fix n assume "n < timeout" "happenings s = replicate n Tick"
    then show "bootloader B timeout s = None" using await_early [OF q(1), of n B] q(2,3) b by simp
  qed
qed

theorem bootloader_times_out_witness:
  "\<exists>s'. bootloader demo_board 5000 ((demo_bl [] 0)\<lparr>happenings := replicate 5000 Tick\<rparr>) = Some s' \<and> flash s' = demo_flash"
  using bootloader_times_out [of "(demo_bl [] 0)\<lparr>happenings := replicate 5000 Tick\<rparr>" 5000 demo_board]
  by (auto simp: line_quiet_def demo_bl_def)

end
