(* ===== verification/Sw_Crypto.thy ===== *)
theory Sw_Crypto
  imports Px4_Prelude
begin

text \<open>
  The software crypto backend of the secure bootloader: the key store compiled into the image
  (\<open>px4_sw_crypto/stub_keystore/stub_keystore.c\<close>) and the wrapper with its key cache
  (\<open>px4_sw_crypto/sw_crypto/crypto.c\<close>).  The keys of the build, the memory allocator and the
  Ed25519 check of the Monocypher library are arguments.
\<close>

section \<open>State\<close>

datatype crypto_algorithm = CRYPTO_NONE | CRYPTO_ED25519 | CRYPTO_XCHACHA20 | CRYPTO_AES | CRYPTO_RSA_OAEP

text \<open>
  What the backend calls: the keys, whether the \<open>k\<close>-th allocation (of a number of bytes) succeeds,
  and the check of a signature (first) with a public key (second) over a message (third).
\<close>

record crypto_env =
  public_keys :: "u8 list list"
  malloc_ok :: "nat \<Rightarrow> nat \<Rightarrow> bool"
  ed25519_check :: "u8 list \<Rightarrow> u8 list \<Rightarrow> u8 list \<Rightarrow> bool"

record volatile_key =
  key_size :: nat
  key :: "u8 list option"

record crypto_st =
  crypto_open_count :: int
  keystore_open_count :: int
  key_cache :: "volatile_key list"
  mallocs :: nat

record crypto_session =
  handle :: int
  algorithm :: crypto_algorithm
  keystore_handle :: int

text \<open>A pointer to a key: the null pointer, the bytes of a key, or memory that was given back.\<close>

datatype key_ptr = Null | Key "u8 list" | Freed

abbreviation KEY_CACHE_LEN :: nat where "KEY_CACHE_LEN \<equiv> 16"

abbreviation no_key :: volatile_key where "no_key \<equiv> \<lparr>key_size = 0, key = None\<rparr>"

section \<open>The key store\<close>

definition keystore_open :: "crypto_st \<Rightarrow> int \<times> crypto_st" where
  "keystore_open st = (let n = keystore_open_count st + 1 in (n, st\<lparr>keystore_open_count := n\<rparr>))"

definition keystore_close :: "crypto_st \<Rightarrow> crypto_st" where
  "keystore_close st = st\<lparr>keystore_open_count := keystore_open_count st - 1\<rparr>"

text \<open>
  The size of a key and the bytes put into the buffer; the buffer is absent (a null pointer) or
  has a size.
\<close>

definition keystore_get_key :: "crypto_env \<Rightarrow> nat \<Rightarrow> nat option \<Rightarrow> nat \<times> u8 list" where
  "keystore_get_key E idx key_buf =
     (if idx < length (public_keys E)
      then let k = public_keys E ! idx in
        case key_buf of
          None \<Rightarrow> (length k, [])
        | Some key_buf_size \<Rightarrow> if key_buf_size \<ge> length k then (length k, k) else (0, [])
      else (0, []))"

section \<open>The crypto wrapper\<close>

definition clear_key_cache :: "crypto_st \<Rightarrow> crypto_st" where
  "clear_key_cache st = st\<lparr>key_cache := replicate KEY_CACHE_LEN no_key\<rparr>"

definition crypto_init :: "crypto_st \<Rightarrow> crypto_st" where
  "crypto_init st = clear_key_cache st"

text \<open>The length and the pointer, and the state with what the cache has learnt.\<close>

definition crypto_get_key_ptr :: "crypto_env \<Rightarrow> nat \<Rightarrow> crypto_st \<Rightarrow> nat \<times> key_ptr \<times> crypto_st" where
  "crypto_get_key_ptr E key_idx st =
     (if key_idx \<ge> KEY_CACHE_LEN then (0, Null, st)
      else case key (key_cache st ! key_idx) of
        Some k \<Rightarrow> (key_size (key_cache st ! key_idx), Key k, st)
      | None \<Rightarrow>
          let len = fst (keystore_get_key E key_idx None);
              (ret, st) =
                (if len > 0 then
                   let ok = malloc_ok E (mallocs st) len; st = st\<lparr>mallocs := mallocs st + 1\<rparr> in
                   if ok then
                     (case keystore_get_key E key_idx (Some len) of
                        (n, k) \<Rightarrow>
                          if n > 0
                          then (Key k, st\<lparr>key_cache := (key_cache st)[key_idx := \<lparr>key_size = len, key = Some k\<rparr>]\<rparr>)
                          else (Freed, st))
                   else (Null, st)
                 else (Null, st))
          in (key_size (key_cache st ! key_idx), ret, st))"

definition crypto_open :: "crypto_algorithm \<Rightarrow> crypto_st \<Rightarrow> crypto_session \<times> crypto_st" where
  "crypto_open alg st =
     (let (k, st) = keystore_open st in
      if k > 0
      then (\<lparr>handle = crypto_open_count st + 1, algorithm = alg, keystore_handle = k\<rparr>,
            st\<lparr>crypto_open_count := crypto_open_count st + 1\<rparr>)
      else (\<lparr>handle = 0, algorithm = alg, keystore_handle = k\<rparr>, st))"

definition crypto_close :: "crypto_st \<Rightarrow> crypto_st" where
  "crypto_close st = keystore_close (st\<lparr>crypto_open_count := crypto_open_count st - 1\<rparr>)"

definition crypto_signature_check ::
  "crypto_env \<Rightarrow> crypto_session \<Rightarrow> u8 \<Rightarrow> u8 list \<Rightarrow> u8 list \<Rightarrow> crypto_st \<Rightarrow> bool \<times> crypto_st" where
  "crypto_signature_check E h key_index signature message st =
     (let (keylen, public_key, st) =
            (if handle h > 0 then crypto_get_key_ptr E (unat key_index) st else (0, Null, st)) in
      if keylen = 0 then (False, st)
      else case (algorithm h, public_key) of
        (CRYPTO_ED25519, Key k) \<Rightarrow> (ed25519_check E signature k message, st)
      | _ \<Rightarrow> (False, st))"

section \<open>The cache and the sessions\<close>

text \<open>Every cached key is the key of the store; sessions are balanced and counted alike.\<close>

definition cached :: "crypto_env \<Rightarrow> nat \<Rightarrow> volatile_key \<Rightarrow> bool" where
  "cached E i v \<longleftrightarrow> v = no_key \<or>
     (i < length (public_keys E) \<and> public_keys E ! i \<noteq> [] \<and> v = \<lparr>key_size = length (public_keys E ! i), key = Some (public_keys E ! i)\<rparr>)"

definition crypto_ok :: "crypto_env \<Rightarrow> crypto_st \<Rightarrow> bool" where
  "crypto_ok E st \<longleftrightarrow> length (key_cache st) = KEY_CACHE_LEN \<and> (\<forall>i < KEY_CACHE_LEN. cached E i (key_cache st ! i)) \<and>
     crypto_open_count st \<ge> 0 \<and> keystore_open_count st \<ge> 0"

text \<open>The key that a signature check with an index uses.\<close>

definition usable_key :: "crypto_env \<Rightarrow> nat \<Rightarrow> bool" where
  "usable_key E i \<longleftrightarrow> i < KEY_CACHE_LEN \<and> i < length (public_keys E) \<and> public_keys E ! i \<noteq> []"

lemma init_ok: "crypto_open_count st \<ge> 0 \<Longrightarrow> keystore_open_count st \<ge> 0 \<Longrightarrow> crypto_ok E (crypto_init st)"
  by (simp add: crypto_ok_def crypto_init_def clear_key_cache_def cached_def)

lemma get_key_cases:
  "keystore_get_key E i None = (if i < length (public_keys E) then length (public_keys E ! i) else 0, [])"
  "i < length (public_keys E) \<Longrightarrow>
     keystore_get_key E i (Some (length (public_keys E ! i))) = (length (public_keys E ! i), public_keys E ! i)"
  by (simp_all add: keystore_get_key_def Let_def)

lemma get_key_ptr:
  assumes "crypto_ok E st" and "crypto_get_key_ptr E i st = (len, p, st')"
  shows "crypto_ok E st'"
    and "len > 0 \<Longrightarrow> usable_key E i \<and> p = Key (public_keys E ! i)"
    and "usable_key E i \<Longrightarrow> (\<And>k n. malloc_ok E k n) \<Longrightarrow> len > 0"
    and "crypto_open_count st' = crypto_open_count st" and "keystore_open_count st' = keystore_open_count st"
proof -
  let ?k = "public_keys E ! i" and ?v = "key_cache st ! i"
  have *: "crypto_ok E st' \<and> (len > 0 \<longrightarrow> usable_key E i \<and> p = Key ?k) \<and>
      (usable_key E i \<longrightarrow> (\<forall>k n. malloc_ok E k n) \<longrightarrow> len > 0) \<and>
      crypto_open_count st' = crypto_open_count st \<and> keystore_open_count st' = keystore_open_count st"
  proof (cases "i < KEY_CACHE_LEN")
    case False
    then show ?thesis using assms by (auto simp: crypto_get_key_ptr_def usable_key_def)
  next
    case i: True
    then have c: "cached E i ?v" using assms(1) by (simp add: crypto_ok_def)
    show ?thesis
    proof (cases "?v = no_key")
      case False
      then have v: "i < length (public_keys E)" "?k \<noteq> []" "?v = \<lparr>key_size = length ?k, key = Some ?k\<rparr>"
        using c by (auto simp: cached_def)
      then show ?thesis using assms i by (auto simp: crypto_get_key_ptr_def usable_key_def)
    next
      case True
      show ?thesis
      proof (cases "usable_key E i \<and> malloc_ok E (mallocs st) (length ?k)")
        case True
        then have u: "i < length (public_keys E)" "?k \<noteq> []" by (simp_all add: usable_key_def)
        have "cached E i \<lparr>key_size = length ?k, key = Some ?k\<rparr>" using u by (simp add: cached_def)
        then have "crypto_ok E (st\<lparr>mallocs := mallocs st + 1, key_cache := (key_cache st)[i := \<lparr>key_size = length ?k, key = Some ?k\<rparr>]\<rparr>)"
          using assms(1) by (simp add: crypto_ok_def nth_update_if)
        then show ?thesis
          using assms i u True \<open>?v = no_key\<close> by (auto simp: crypto_get_key_ptr_def get_key_cases Let_def crypto_ok_def)
      next
        case False
        then show ?thesis
          using assms i \<open>?v = no_key\<close>
          by (auto simp: crypto_get_key_ptr_def get_key_cases(1) usable_key_def Let_def crypto_ok_def split: if_splits)
      qed
    qed
  qed
  show "crypto_ok E st'" "len > 0 \<Longrightarrow> usable_key E i \<and> p = Key ?k"
    "crypto_open_count st' = crypto_open_count st" "keystore_open_count st' = keystore_open_count st"
    using * by simp_all
  show "len > 0" if "usable_key E i" "\<And>k n. malloc_ok E k n" using * that by simp
qed

text \<open>One check as its callers make it: a session of its own, opened before and closed after.\<close>

definition check_once :: "crypto_env \<Rightarrow> crypto_algorithm \<Rightarrow> u8 \<Rightarrow> u8 list \<Rightarrow> u8 list \<Rightarrow> crypto_st \<Rightarrow> bool \<times> crypto_st" where
  "check_once E alg k sg msg st =
     (let (h, st) = crypto_open alg st; (ret, st) = crypto_signature_check E h k sg msg st in (ret, crypto_close st))"

definition genuine :: "crypto_env \<Rightarrow> crypto_algorithm \<Rightarrow> u8 \<Rightarrow> u8 list \<Rightarrow> u8 list \<Rightarrow> bool" where
  "genuine E alg k sg msg \<longleftrightarrow> alg = CRYPTO_ED25519 \<and> usable_key E (unat k) \<and> ed25519_check E sg (public_keys E ! unat k) msg"

lemma open_ok:
  assumes "crypto_ok E st" and "crypto_open alg st = (h, st')"
  shows "handle h > 0" "algorithm h = alg" "crypto_ok E st'"
    "crypto_open_count st' = crypto_open_count st + 1" "keystore_open_count st' = keystore_open_count st + 1"
  using assms by (auto simp: crypto_open_def keystore_open_def crypto_ok_def Let_def)

lemma close_ok:
  "crypto_ok E st \<Longrightarrow> crypto_open_count st > 0 \<Longrightarrow> keystore_open_count st > 0 \<Longrightarrow> crypto_ok E (crypto_close st)"
  by (simp add: crypto_ok_def crypto_close_def keystore_close_def)

lemma signature_check:
  assumes "crypto_ok E st" and "handle h > 0" and "crypto_signature_check E h k sg msg st = (ret, st')"
  shows "crypto_ok E st'" "crypto_open_count st' = crypto_open_count st" "keystore_open_count st' = keystore_open_count st"
    "ret \<Longrightarrow> genuine E (algorithm h) k sg msg"
    "genuine E (algorithm h) k sg msg \<Longrightarrow> (\<And>i n. malloc_ok E i n) \<Longrightarrow> ret"
proof -
  obtain len p st1 where g: "crypto_get_key_ptr E (unat k) st = (len, p, st1)" by (cases "crypto_get_key_ptr E (unat k) st") auto
  note g' = get_key_ptr [OF assms(1) g]
  have r: "st' = st1" "ret \<longleftrightarrow> len > 0 \<and> algorithm h = CRYPTO_ED25519 \<and> (\<exists>b. p = Key b \<and> ed25519_check E sg b msg)"
    using assms(2,3) g by (auto simp: crypto_signature_check_def split: if_splits crypto_algorithm.splits key_ptr.splits)
  show "crypto_ok E st'" "crypto_open_count st' = crypto_open_count st" "keystore_open_count st' = keystore_open_count st"
    using g'(1,4,5) r(1) by simp_all
  show "ret \<Longrightarrow> genuine E (algorithm h) k sg msg" using g'(2) r(2) by (auto simp: genuine_def)
  show "genuine E (algorithm h) k sg msg \<Longrightarrow> (\<And>i n. malloc_ok E i n) \<Longrightarrow> ret"
    using g'(2,3) r(2) by (auto simp: genuine_def)
qed

lemma check_once:
  assumes "crypto_ok E st" and "check_once E alg k sg msg st = (ret, st')"
  shows "crypto_ok E st'" "crypto_open_count st' = crypto_open_count st" "keystore_open_count st' = keystore_open_count st"
    "ret \<Longrightarrow> genuine E alg k sg msg" "genuine E alg k sg msg \<Longrightarrow> (\<And>i n. malloc_ok E i n) \<Longrightarrow> ret"
proof -
  obtain h st1 where o: "crypto_open alg st = (h, st1)" by (cases "crypto_open alg st")
  note o' = open_ok [OF assms(1) o]
  obtain r st2 where c: "crypto_signature_check E h k sg msg st1 = (r, st2)" by (cases "crypto_signature_check E h k sg msg st1")
  note c' = signature_check [OF o'(3,1) c]
  have e: "ret = r" "st' = crypto_close st2" using assms(2) o c by (auto simp: check_once_def)
  have nn: "crypto_open_count st \<ge> 0" "keystore_open_count st \<ge> 0" using assms(1) by (simp_all add: crypto_ok_def)
  show "crypto_ok E st'" using close_ok [OF c'(1)] c'(2,3) o'(4,5) nn e(2) by simp
  show "crypto_open_count st' = crypto_open_count st" "keystore_open_count st' = keystore_open_count st"
    using c'(2,3) o'(4,5) e(2) by (simp_all add: crypto_close_def keystore_close_def)
  show "ret \<Longrightarrow> genuine E alg k sg msg" "genuine E alg k sg msg \<Longrightarrow> (\<And>i n. malloc_ok E i n) \<Longrightarrow> ret"
    using c'(4,5) o'(2) e(1) by simp_all
qed

section \<open>The contract of a signature check\<close>

text \<open>
  What the loader of an image relies on: a check that says yes is right, whatever checks came
  before, and its state stays sound.
\<close>

locale verifier =
  fixes check :: "u8 \<Rightarrow> u8 list \<Rightarrow> u8 list \<Rightarrow> 's \<Rightarrow> bool \<times> 's"
    and sound :: "'s \<Rightarrow> bool"
    and valid :: "u8 \<Rightarrow> u8 list \<Rightarrow> u8 list \<Rightarrow> bool"
  assumes check_sound: "sound s \<Longrightarrow> sound (snd (check k sg msg s))"
    and check_valid: "sound s \<Longrightarrow> fst (check k sg msg s) \<Longrightarrow> valid k sg msg"
begin

lemma check_cases:
  assumes "check k sg msg s = (r, s')" and "sound s"
  shows "sound s'" "r \<Longrightarrow> valid k sg msg"
  using assms check_sound [of s k sg msg] check_valid [of s k sg msg] by simp_all

end

interpretation sw: verifier "check_once E alg" "crypto_ok E" "genuine E alg"
  for E alg
proof unfold_locales
  fix s k sg msg
  assume "crypto_ok E s"
  then show "crypto_ok E (snd (check_once E alg k sg msg s))" using check_once(1) [of E s alg k sg msg] by (metis prod.collapse)
next
  fix s k sg msg
  assume "crypto_ok E s" "fst (check_once E alg k sg msg s)"
  then show "genuine E alg k sg msg" using check_once(4) [of E s alg k sg msg] by (metis prod.collapse)
qed

end
