(* ===== verification/Bl_Toc.thy ===== *)
theory Bl_Toc
  imports Sw_Crypto
begin

text \<open>
  The table of contents of a firmware image (\<open>include/image_toc.h\<close>, \<open>bootloader/common/image_toc.c\<close>),
  the check of an entry (\<open>bootloader/common/crypto.c\<close>) and the loop of \<open>jump_to_app\<close> in
  \<open>bootloader/common/bl.c\<close> that checks, copies and selects what is started.

  Addresses are 32-bit words and the arithmetic on pointers is theirs; memory is read byte by byte.
\<close>

section \<open>Memory\<close>

type_synonym mem = "u32 \<Rightarrow> u8"

definition mem_bytes :: "mem \<Rightarrow> u32 \<Rightarrow> nat \<Rightarrow> u8 list" where
  "mem_bytes m a n = map (\<lambda>i. m (a + word_of_nat i)) [0..<n]"

definition mem_u32 :: "mem \<Rightarrow> u32 \<Rightarrow> u32" where
  "mem_u32 m a = u32_of_bytes (mem_bytes m a 4)"

text \<open>The bytes that \<open>memcpy\<close> changes.\<close>

definition memcpy :: "u32 \<Rightarrow> u32 \<Rightarrow> u32 \<Rightarrow> mem \<Rightarrow> mem \<Rightarrow> mem" where
  "memcpy target source n from m = (\<lambda>a. if a - target < n then from (source + (a - target)) else m a)"

section \<open>The table\<close>

record image_toc_entry =
  start :: u32
  end_addr :: u32
  target :: u32
  signature_idx :: u8
  signature_key :: u8
  encryption_key :: u8
  flags1 :: u8

text \<open>What the board configuration says.\<close>

record toc_cfg =
  app_load :: u32
  flash_size :: u32
  delay_address :: u32
  TOC_VERSION :: u32

abbreviation MAX_TOC_ENTRIES :: nat where "MAX_TOC_ENTRIES \<equiv> 32"
abbreviation TOC_FLAG1_BOOT :: u8 where "TOC_FLAG1_BOOT \<equiv> 0x1"
abbreviation TOC_FLAG1_VTORS :: u8 where "TOC_FLAG1_VTORS \<equiv> 0x2"
abbreviation TOC_FLAG1_CHECK_SIGNATURE :: u8 where "TOC_FLAG1_CHECK_SIGNATURE \<equiv> 0x4"
abbreviation TOC_FLAG1_DECRYPT :: u8 where "TOC_FLAG1_DECRYPT \<equiv> 0x8"
abbreviation TOC_FLAG1_COPY :: u8 where "TOC_FLAG1_COPY \<equiv> 0x10"

definition TOC_START_MAGIC :: u32 where "TOC_START_MAGIC = 0x00434f54"
definition TOC_END_MAGIC :: u32 where "TOC_END_MAGIC = 0x00444e45"

definition FLASH_START_ADDRESS :: "toc_cfg \<Rightarrow> u32" where
  "FLASH_START_ADDRESS C = app_load C AND NOT (flash_size C - 1)"

definition FLASH_END_ADDRESS :: "toc_cfg \<Rightarrow> u32" where
  "FLASH_END_ADDRESS C = FLASH_START_ADDRESS C + flash_size C"

text \<open>An entry has 24 bytes: the name, three pointers, four single bytes and a reserved word.\<close>

definition entry_addr :: "u32 \<Rightarrow> nat \<Rightarrow> u32" where
  "entry_addr toc i = toc + 24 * word_of_nat i"

definition toc_entry :: "mem \<Rightarrow> u32 \<Rightarrow> nat \<Rightarrow> image_toc_entry" where
  "toc_entry m toc i =
     (let a = entry_addr toc i in
      \<lparr>start = mem_u32 m (a + 4), end_addr = mem_u32 m (a + 8), target = mem_u32 m (a + 12),
       signature_idx = m (a + 16), signature_key = m (a + 17), encryption_key = m (a + 18), flags1 = m (a + 19)\<rparr>)"

function count_entries :: "toc_cfg \<Rightarrow> mem \<Rightarrow> u32 \<Rightarrow> nat \<Rightarrow> nat" where
  "count_entries C m toc i =
     (if i < MAX_TOC_ENTRIES \<and> entry_addr toc i \<le> FLASH_END_ADDRESS C - 4 \<and> mem_u32 m (entry_addr toc i) \<noteq> TOC_END_MAGIC
      then count_entries C m toc (i + 1) else i)"
  by pat_completeness auto

termination count_entries
  by (relation "measure (\<lambda>(C, m, toc, i). MAX_TOC_ENTRIES - i)") auto

declare count_entries.simps [simp del]

text \<open>The address and the number of the entries.\<close>

definition find_toc :: "toc_cfg \<Rightarrow> mem \<Rightarrow> (u32 \<times> nat) option" where
  "find_toc C m =
     (let toc_start = app_load C + delay_address C + 8; entry = toc_start + 8 in
      if mem_u32 m toc_start = TOC_START_MAGIC \<and> mem_u32 m (toc_start + 4) \<le> TOC_VERSION C
      then let i = count_entries C m entry 0; e = toc_entry m entry 0 in
        if i \<le> MAX_TOC_ENTRIES \<and> i > 0 \<and> start e = app_load C \<and> end_addr e \<le> FLASH_END_ADDRESS C - 4 \<and> end_addr e > start e
        then let sig_idx = signature_idx e; g = toc_entry m entry (unat sig_idx) in
          if sig_idx > 0 \<and> unat sig_idx < MAX_TOC_ENTRIES \<and> start g \<ge> end_addr e
            \<and> end_addr g \<le> FLASH_END_ADDRESS C \<and> end_addr g > start g
          then Some (entry, i) else None
        else None
      else None)"

definition get_base_addr :: "image_toc_entry \<Rightarrow> u32" where
  "get_base_addr e = (if has_flag (flags1 e) TOC_FLAG1_DECRYPT \<or> has_flag (flags1 e) TOC_FLAG1_COPY then target e else start e)"

section \<open>Checking and starting\<close>

text \<open>
  \<open>check\<close> is a signature check with the index of the key, the signature (64 bytes for Ed25519) and
  the message.
\<close>

definition verify_app ::
  "(u8 \<Rightarrow> u8 list \<Rightarrow> u8 list \<Rightarrow> 's \<Rightarrow> bool \<times> 's) \<Rightarrow> mem \<Rightarrow> u32 \<Rightarrow> nat \<Rightarrow> 's \<Rightarrow> bool \<times> 's" where
  "verify_app check m toc idx s =
     (let e = toc_entry m toc idx; g = toc_entry m toc (unat (signature_idx e)) in
      check (signature_key e) (mem_bytes m (start g) 64) (mem_bytes m (start e) (unat (end_addr e - start e))) s)"

definition decrypt_app :: "mem \<Rightarrow> u32 \<Rightarrow> nat \<Rightarrow> bool" where
  "decrypt_app m toc idx = False"

text \<open>What the loop over the entries changes: RAM, the state of the checks and the two addresses.\<close>

record 's toc_st =
  ram :: mem
  checker :: 's
  app_base :: u32
  vec_base :: u32

text \<open>
  \<open>view\<close> is the memory that a content of the RAM makes together with the flash.  A copy changes
  the RAM only: the flash is written through its controller.
\<close>

definition toc_step ::
  "(u8 \<Rightarrow> u8 list \<Rightarrow> u8 list \<Rightarrow> 's \<Rightarrow> bool \<times> 's) \<Rightarrow> (mem \<Rightarrow> mem) \<Rightarrow> u32 \<Rightarrow> nat \<Rightarrow> 's toc_st \<Rightarrow> 's toc_st" where
  "toc_step check view toc i t =
     (let m = view (ram t); e = toc_entry m toc i;
          (ok, c) = (if i \<noteq> 0 \<and> has_flag (flags1 e) TOC_FLAG1_CHECK_SIGNATURE then verify_app check m toc i (checker t)
                     else (True, checker t));
          t = t\<lparr>checker := c\<rparr>
      in if \<not> ok then t
         else if has_flag (flags1 e) TOC_FLAG1_DECRYPT \<and> \<not> decrypt_app m toc i then t
         else
           let t = (if has_flag (flags1 e) TOC_FLAG1_COPY
                    then t\<lparr>ram := memcpy (target e) (start e) (end_addr e - start e) m (ram t)\<rparr> else t);
               e = toc_entry (view (ram t)) toc i;
               t = (if has_flag (flags1 e) TOC_FLAG1_BOOT then t\<lparr>app_base := get_base_addr e\<rparr> else t);
               t = (if has_flag (flags1 e) TOC_FLAG1_VTORS then t\<lparr>vec_base := get_base_addr e\<rparr> else t)
           in t)"

definition toc_loop ::
  "(u8 \<Rightarrow> u8 list \<Rightarrow> u8 list \<Rightarrow> 's \<Rightarrow> bool \<times> 's) \<Rightarrow> (mem \<Rightarrow> mem) \<Rightarrow> u32 \<Rightarrow> nat \<Rightarrow> 's toc_st \<Rightarrow> 's toc_st" where
  "toc_loop check view toc len t = fold (toc_step check view toc) [0..<len] t"

text \<open>
  The part of \<open>jump_to_app\<close> for images with a table: the vectors and the base of the application
  to start, or nothing.
\<close>

definition toc_boot ::
  "toc_cfg \<Rightarrow> (u8 \<Rightarrow> u8 list \<Rightarrow> u8 list \<Rightarrow> 's \<Rightarrow> bool \<times> 's) \<Rightarrow> (mem \<Rightarrow> mem) \<Rightarrow> mem \<Rightarrow> 's \<Rightarrow> (u32 \<times> u32) option \<times> mem \<times> 's" where
  "toc_boot C check view r s =
     (case find_toc C (view r) of
        None \<Rightarrow> (None, r, s)
      | Some (toc, len) \<Rightarrow>
          (case verify_app check (view r) toc 0 s of
             (False, s) \<Rightarrow> (None, r, s)
           | (True, s) \<Rightarrow>
               let t = toc_loop check view toc len \<lparr>ram = r, checker = s, app_base = 0, vec_base = 0\<rparr> in
               if app_base t = 0 then (None, ram t, checker t)
               else (Some (if vec_base t = 0 then app_base t else vec_base t, app_base t), ram t, checker t)))"

section \<open>What the table guarantees\<close>

lemma count_entries_bounds:
  "i \<le> MAX_TOC_ENTRIES \<Longrightarrow> i \<le> count_entries C m toc i \<and> count_entries C m toc i \<le> MAX_TOC_ENTRIES \<and>
     (\<forall>j. i \<le> j \<and> j < count_entries C m toc i \<longrightarrow>
        entry_addr toc j \<le> FLASH_END_ADDRESS C - 4 \<and> mem_u32 m (entry_addr toc j) \<noteq> TOC_END_MAGIC)"
proof (induction C m toc i rule: count_entries.induct)
  case (1 C m toc i)
  show ?case
  proof (cases "i < MAX_TOC_ENTRIES \<and> entry_addr toc i \<le> FLASH_END_ADDRESS C - 4 \<and> mem_u32 m (entry_addr toc i) \<noteq> TOC_END_MAGIC")
    case True
    then have e: "count_entries C m toc i = count_entries C m toc (i + 1)" by (simp add: count_entries.simps [of C m toc i])
    have ih: "i + 1 \<le> count_entries C m toc (i + 1)" "count_entries C m toc (i + 1) \<le> MAX_TOC_ENTRIES"
      "\<And>j. i + 1 \<le> j \<Longrightarrow> j < count_entries C m toc (i + 1) \<Longrightarrow>
        entry_addr toc j \<le> FLASH_END_ADDRESS C - 4 \<and> mem_u32 m (entry_addr toc j) \<noteq> TOC_END_MAGIC"
      using "1.IH" [OF True] True by simp_all
    have "entry_addr toc j \<le> FLASH_END_ADDRESS C - 4 \<and> mem_u32 m (entry_addr toc j) \<noteq> TOC_END_MAGIC"
      if "i \<le> j" "j < count_entries C m toc i" for j
      using ih(3) [of j] True that e by (cases "j = i") simp_all
    then show ?thesis using ih(1,2) e by simp
  next
    case False
    then have "count_entries C m toc i = i" by (auto simp: count_entries.simps [of C m toc i])
    then show ?thesis using "1.prems" by auto
  qed
qed

text \<open>An accepted table: where it is, how long, and where its first application and signature lie.\<close>

lemma find_tocD:
  assumes "find_toc C m = Some (toc, len)"
  defines "e \<equiv> toc_entry m toc 0"
  defines "g \<equiv> toc_entry m toc (unat (signature_idx e))"
  shows "toc = app_load C + delay_address C + 16" "0 < len" "len \<le> MAX_TOC_ENTRIES" "len = count_entries C m toc 0"
    "start e = app_load C" "start e < end_addr e" "end_addr e \<le> FLASH_END_ADDRESS C - 4"
    "signature_idx e > 0" "unat (signature_idx e) < MAX_TOC_ENTRIES"
    "end_addr e \<le> start g" "start g < end_addr g" "end_addr g \<le> FLASH_END_ADDRESS C"
  using assms by (auto simp: find_toc_def Let_def ac_simps split: if_splits)

text \<open>
  An entry that may be started: it is marked bootable, needs no decryption and, unless it is the
  first one or asks for no check, its signature holds in the memory that the loop saw.
\<close>

definition entry_ok ::
  "(u8 \<Rightarrow> u8 list \<Rightarrow> u8 list \<Rightarrow> bool) \<Rightarrow> mem \<Rightarrow> u32 \<Rightarrow> nat \<Rightarrow> bool" where
  "entry_ok valid m toc i \<longleftrightarrow>
     (let e = toc_entry m toc i; g = toc_entry m toc (unat (signature_idx e)) in
      valid (signature_key e) (mem_bytes m (start g) 64) (mem_bytes m (start e) (unat (end_addr e - start e))))"

definition startable ::
  "(u8 \<Rightarrow> u8 list \<Rightarrow> u8 list \<Rightarrow> bool) \<Rightarrow> (mem \<Rightarrow> mem) \<Rightarrow> u32 \<Rightarrow> nat \<Rightarrow> u8 \<Rightarrow> u32 \<Rightarrow> bool" where
  "startable valid view toc i flag base \<longleftrightarrow>
     (\<exists>r r'. let e = toc_entry (view r) toc i; e' = toc_entry (view r') toc i in
        \<not> has_flag (flags1 e) TOC_FLAG1_DECRYPT \<and>
        (i \<noteq> 0 \<and> has_flag (flags1 e) TOC_FLAG1_CHECK_SIGNATURE \<longrightarrow> entry_ok valid (view r) toc i) \<and>
        has_flag (flags1 e') flag \<and> base = get_base_addr e')"

context verifier
begin

lemma verify_app_ok:
  assumes "verify_app check m toc i s = (r, s')" and "sound s"
  shows "sound s'" "r \<Longrightarrow> entry_ok valid m toc i"
  using assms check_cases by (auto simp: verify_app_def entry_ok_def Let_def)

lemma toc_step_sound:
  assumes "sound (checker t)"
  shows "sound (checker (toc_step check view toc i t))"
    and "app_base (toc_step check view toc i t) = app_base t \<or>
      startable valid view toc i TOC_FLAG1_BOOT (app_base (toc_step check view toc i t))"
    and "vec_base (toc_step check view toc i t) = vec_base t \<or>
      startable valid view toc i TOC_FLAG1_VTORS (vec_base (toc_step check view toc i t))"
proof -
  let ?e = "toc_entry (view (ram t)) toc i"
  let ?needs = "i \<noteq> 0 \<and> has_flag (flags1 ?e) TOC_FLAG1_CHECK_SIGNATURE"
  obtain ok c where v: "(if ?needs then verify_app check (view (ram t)) toc i (checker t) else (True, checker t)) = (ok, c)"
    by fastforce
  then have c: "sound c" "ok \<Longrightarrow> ?needs \<Longrightarrow> entry_ok valid (view (ram t)) toc i"
    using verify_app_ok [of "view (ram t)" toc i "checker t" ok c] assms by (auto split: if_splits)
  define r' where "r' = (if has_flag (flags1 ?e) TOC_FLAG1_COPY
    then memcpy (target ?e) (start ?e) (end_addr ?e - start ?e) (view (ram t)) (ram t) else ram t)"
  let ?e' = "toc_entry (view r') toc i"
  have step: "toc_step check view toc i t =
    (if \<not> ok \<or> has_flag (flags1 ?e) TOC_FLAG1_DECRYPT then t\<lparr>checker := c\<rparr>
     else t\<lparr>checker := c, ram := r',
        app_base := (if has_flag (flags1 ?e') TOC_FLAG1_BOOT then get_base_addr ?e' else app_base t),
        vec_base := (if has_flag (flags1 ?e') TOC_FLAG1_VTORS then get_base_addr ?e' else vec_base t)\<rparr>)"
    using v by (auto simp: toc_step_def decrypt_app_def Let_def r'_def)
  then show "sound (checker (toc_step check view toc i t))" using c(1) by simp
  have st: "startable valid view toc i flag (get_base_addr ?e')"
    if "ok" "\<not> has_flag (flags1 ?e) TOC_FLAG1_DECRYPT" "has_flag (flags1 ?e') flag" for flag
    unfolding startable_def Let_def using that c(2) by (intro exI [of _ "ram t"] exI [of _ r']) auto
  show "app_base (toc_step check view toc i t) = app_base t \<or>
      startable valid view toc i TOC_FLAG1_BOOT (app_base (toc_step check view toc i t))"
    "vec_base (toc_step check view toc i t) = vec_base t \<or>
      startable valid view toc i TOC_FLAG1_VTORS (vec_base (toc_step check view toc i t))"
    unfolding step using st by auto
qed

lemma toc_loop_sound:
  assumes "sound (checker t)"
  shows "sound (checker (toc_loop check view toc len t)) \<and>
    (app_base (toc_loop check view toc len t) = app_base t \<or>
      (\<exists>i < len. startable valid view toc i TOC_FLAG1_BOOT (app_base (toc_loop check view toc len t)))) \<and>
    (vec_base (toc_loop check view toc len t) = vec_base t \<or>
      (\<exists>i < len. startable valid view toc i TOC_FLAG1_VTORS (vec_base (toc_loop check view toc len t))))"
proof (induction len)
  case 0
  then show ?case using assms by (simp add: toc_loop_def)
next
  case (Suc len)
  let ?t = "toc_loop check view toc len t"
  have "toc_loop check view toc (Suc len) t = toc_step check view toc len ?t" by (simp add: toc_loop_def)
  moreover note toc_step_sound [of ?t view toc len]
  ultimately show ?case using Suc by (metis less_Suc_eq)
qed

lemma toc_boot_keeps: "toc_boot C check view r s = (x, r', s') \<Longrightarrow> sound s \<Longrightarrow> sound s'"
  using toc_loop_sound verify_app_ok(1)
  by (fastforce simp: toc_boot_def Let_def split: option.splits prod.splits bool.splits if_splits)

lemma toc_boot_sound:
  assumes "toc_boot C check view r s = (Some (vec, app), r', s')" and "sound s"
  shows "\<exists>toc len. find_toc C (view r) = Some (toc, len) \<and> entry_ok valid (view r) toc 0 \<and> sound s' \<and>
    (\<exists>i < len. startable valid view toc i TOC_FLAG1_BOOT app) \<and>
    (vec = app \<or> (\<exists>i < len. startable valid view toc i TOC_FLAG1_VTORS vec))"
proof -
  obtain toc len where f: "find_toc C (view r) = Some (toc, len)"
    using assms(1) by (auto simp: toc_boot_def split: option.splits)
  obtain ok s1 where v: "verify_app check (view r) toc 0 s = (ok, s1)" by fastforce
  let ?t = "toc_loop check view toc len \<lparr>ram = r, checker = s1, app_base = 0, vec_base = 0\<rparr>"
  have r: "ok" "app_base ?t \<noteq> 0" "app = app_base ?t" "vec = (if vec_base ?t = 0 then app_base ?t else vec_base ?t)" "s' = checker ?t"
    using assms(1) f v by (auto simp: toc_boot_def Let_def split: bool.splits if_splits)
  have "entry_ok valid (view r) toc 0" "sound s1" using verify_app_ok [OF v assms(2)] r(1) by auto
  then show ?thesis using toc_loop_sound [of "\<lparr>ram = r, checker = s1, app_base = 0, vec_base = 0\<rparr>" view toc len] f r
    by (auto split: if_splits)
qed

end

end
