(* ===== verification/Bl_Boot.thy ===== *)
theory Bl_Boot
  imports Bl_Wait Bl_Toc
begin

text \<open>
  The start-up of the serial bootloader (\<open>bootloader_main\<close> and the board tests in
  \<open>bootloader/stm/stm32_common/main.c\<close>) and the start of the application (\<open>jump_to_app\<close> in
  \<open>bootloader/common/bl.c\<close>), with and without a table of contents.
\<close>

section \<open>Board and state\<close>

text \<open>The force-bootloader pins: none, two that may be strapped together, or one with its active level.\<close>

datatype force_pin = No_pin | Two_pins | One_pin bool

text \<open>
  The configuration of the board, and the levels that the pins have at each read.  The two device
  masks are those that \<open>cin\<close> tests.
\<close>

record 'd boot_board =
  serial :: "'d bl_board"
  use_toc :: bool
  use_security :: bool
  crypto_conf :: crypto_env
  SIGNING_ALGORITHM :: crypto_algorithm
  BOARD_FLASH_SIZE :: u32
  IMAGE_TOC_VERSION :: u32
  BOOTLOADER_DELAY :: nat
  POWER_DOWN_SIGNATURE :: "u32 option"
  boot_fail_detect :: bool
  force_pins :: force_pin
  interface_usb :: bool
  vbus_sensed :: bool
  interface_usart :: bool
  break_detect :: bool
  BOOT_DEVICES_SELECTION :: u32
  BOOT_DEVICES_FILTER_ONUSB :: u32
  USB0_DEV :: u32
  SERIAL0_DEV :: u32
  pin_level :: "nat \<Rightarrow> bool"
  rx_level :: "nat \<Rightarrow> bool"
  vbus :: bool

datatype boot_event = Board_init | Cinit iface | Flash_lock | Systic_deinit | Cfini | Clock_deinit | Board_deinit | Setvtor u32

record 'd boot =
  bls :: "'d bl"
  rtc :: u32
  boot_ram :: mem
  crypto :: crypto_st
  usb_connected :: bool
  pin_reads :: nat
  rx_reads :: nat
  boot_out :: "boot_event list"

text \<open>How the bootloader ends: waiting for the power to go, or with the application started (its
  vector table, stack pointer and entry point).\<close>

datatype 'd boot_end = Hung "'d boot" | Started "u32 \<times> u32 \<times> u32" "'d boot"

definition BOOT_RTC_SIGNATURE :: u32 where "BOOT_RTC_SIGNATURE = 0xb007b007"

definition board_get_rtc_signature :: "'d boot \<Rightarrow> u32" where "board_get_rtc_signature s = rtc s"
definition board_set_rtc_signature :: "u32 \<Rightarrow> 'd boot \<Rightarrow> 'd boot" where "board_set_rtc_signature sig s = s\<lparr>rtc := sig\<rparr>"

definition boot_emit :: "boot_event \<Rightarrow> 'd boot \<Rightarrow> 'd boot" where "boot_emit e s = s\<lparr>boot_out := e # boot_out s\<rparr>"

section \<open>Pins\<close>

text \<open>Reads of a pin, samples taken and votes for the wanted level.\<close>

fun sample_pin :: "(nat \<Rightarrow> bool) \<Rightarrow> bool \<Rightarrow> nat \<Rightarrow> nat \<times> nat \<times> nat \<Rightarrow> nat \<times> nat \<times> nat" where
  "sample_pin lv want 0 x = x"
| "sample_pin lv want (Suc n) (r, samples, vote) =
     sample_pin lv want n (r + 1, samples + 1, if lv r = want then vote + 1 else vote)"

definition board_test_force_pin :: "'d boot_board \<Rightarrow> 'd boot \<Rightarrow> bool \<times> 'd boot" where
  "board_test_force_pin B s =
     (case force_pins B of
        No_pin \<Rightarrow> (False, s)
      | Two_pins \<Rightarrow>
          (case ((\<lambda>x. sample_pin (pin_level B) False 20 (sample_pin (pin_level B) True 20 x)) ^^ 10) (pin_reads s, 0, 0) of
             (r, samples, vote) \<Rightarrow> (vote * 100 > samples * 90, s\<lparr>pin_reads := r\<rparr>))
      | One_pin level \<Rightarrow>
          (case sample_pin (pin_level B) level 200 (pin_reads s, 0, 0) of
             (r, samples, vote) \<Rightarrow> (vote * 100 > samples * 90, s\<lparr>pin_reads := r\<rparr>)))"

text \<open>
  The break test takes a sample at each overflow of the counter, up to 60 of them, and stops at 18
  low ones in a row.
\<close>

function break_loop :: "(nat \<Rightarrow> bool) \<Rightarrow> nat \<Rightarrow> nat \<Rightarrow> nat \<Rightarrow> nat \<times> nat" where
  "break_loop lv cnt low r =
     (if cnt < 60 then
        let low = (if \<not> lv r then low + 1 else 0) in
        if low \<ge> 18 then (low, r + 1) else break_loop lv (cnt + 1) low (r + 1)
      else (low, r))"
  by pat_completeness auto

termination break_loop
  by (relation "measure (\<lambda>(lv, cnt, low, r). 60 - cnt)") auto

declare break_loop.simps [simp del]

definition board_test_usart_receiving_break :: "'d boot_board \<Rightarrow> 'd boot \<Rightarrow> bool \<times> 'd boot" where
  "board_test_usart_receiving_break B s =
     (if break_detect B
      then case break_loop (rx_level B) 0 0 (rx_reads s) of (low, r) \<Rightarrow> (low \<ge> 18, s\<lparr>rx_reads := r\<rparr>)
      else (False, s))"

definition usart_break :: "'d boot_board \<Rightarrow> 'd boot \<Rightarrow> bool \<times> 'd boot" where
  "usart_break B s = (if interface_usart B then board_test_usart_receiving_break B s else (False, s))"

definition board_get_devices :: "'d boot_board \<Rightarrow> 'd boot \<Rightarrow> u32" where
  "board_get_devices B s =
     (if usb_connected s then BOOT_DEVICES_SELECTION B AND BOOT_DEVICES_FILTER_ONUSB B else BOOT_DEVICES_SELECTION B)"

text \<open>The board as \<open>cin\<close> sees it while the command loop runs.\<close>

definition serial_now :: "'d boot_board \<Rightarrow> 'd boot \<Rightarrow> 'd bl_board" where
  "serial_now B s = (serial B)\<lparr>
     usb_enabled := interface_usb B \<and> has_flag (board_get_devices B s) (USB0_DEV B),
     usart_enabled := interface_usart B \<and> has_flag (board_get_devices B s) (SERIAL0_DEV B)\<rparr>"

section \<open>Starting the application\<close>

text \<open>Memory as the processor reads it: the flash at its addresses and RAM elsewhere.\<close>

definition mem_of :: "'d flash_dev \<Rightarrow> 'd \<Rightarrow> mem \<Rightarrow> mem" where
  "mem_of D d r a =
     (if STM32_FLASH_BANK1 \<le> unat a \<and> unat a < STM32_FLASH_BANK1 + stm32h7_flash_size D then getreg8 D d (unat a) else r a)"

definition boot_view :: "'d boot_board \<Rightarrow> 'd boot \<Rightarrow> mem \<Rightarrow> mem" where
  "boot_view B s = mem_of (board_dev (serial B)) (dev (flash (bls s)))"

definition app_addr :: "'d boot_board \<Rightarrow> u32" where
  "app_addr B = word_of_nat (APP_LOAD (board_dev (serial B)))"

definition boot_toc_cfg :: "'d boot_board \<Rightarrow> toc_cfg" where
  "boot_toc_cfg B = \<lparr>app_load = app_addr B, flash_size = BOARD_FLASH_SIZE B,
     delay_address = (case BOOT_DELAY_ADDRESS (serial B) of None \<Rightarrow> 0 | Some a \<Rightarrow> word_of_nat a), TOC_VERSION = IMAGE_TOC_VERSION B\<rparr>"

text \<open>Without security every check passes.\<close>

definition boot_check :: "'d boot_board \<Rightarrow> u8 \<Rightarrow> u8 list \<Rightarrow> u8 list \<Rightarrow> crypto_st \<Rightarrow> bool \<times> crypto_st" where
  "boot_check B = (if use_security B then check_once (crypto_conf B) (SIGNING_ALGORITHM B) else (\<lambda>_ _ _ c. (True, c)))"

definition arch_do_jump :: "mem \<Rightarrow> u32 \<Rightarrow> u32 \<times> u32" where
  "arch_do_jump m app = (mem_u32 m app, mem_u32 m (app + 4))"

text \<open>Which vectors and which application: both at the load address, or what the table says.\<close>

definition select_app :: "'d boot_board \<Rightarrow> 'd boot \<Rightarrow> (u32 \<times> u32) option \<times> 'd boot" where
  "select_app B s =
     (if use_toc B then
        let c = (if use_security B then crypto_init (crypto s) else crypto s);
            (r, m, c) = toc_boot (boot_toc_cfg B) (boot_check B) (boot_view B s) (boot_ram s) c
        in (r, s\<lparr>boot_ram := m, crypto := c\<rparr>)
      else
        let entry = mem_u32 (boot_view B s (boot_ram s)) (app_addr B + 4) in
        if entry < app_addr B then (None, s)
        else if entry \<ge> app_addr B + word_of_nat (fw_size (serial B)) then (None, s)
        else (Some (app_addr B, app_addr B), s))"

definition jump_to_app :: "'d boot_board \<Rightarrow> 'd boot \<Rightarrow> (u32 \<times> u32 \<times> u32) option \<times> 'd boot" where
  "jump_to_app B s =
     (if mem_u32 (boot_view B s (boot_ram s)) (app_addr B) = 0xffffffff then (None, s)
      else case select_app B s of
        (None, s) \<Rightarrow> (None, s)
      | (Some (vec, app), s) \<Rightarrow>
          let s = fold boot_emit [Flash_lock, Systic_deinit, Cfini, Clock_deinit, Board_deinit, Setvtor vec] s
          in (Some (vec, arch_do_jump (boot_view B s (boot_ram s)) app), s))"

section \<open>The main program\<close>

definition boot_read_word :: "'d boot_board \<Rightarrow> nat \<Rightarrow> 'd boot \<Rightarrow> (u32 \<times> 'd boot) option" where
  "boot_read_word B a s = map_option (\<lambda>(w, b). (w, s\<lparr>bls := b\<rparr>)) (bl_read_word (serial B) a (bls s))"

text \<open>The boot delay: \<open>(try_boot, timeout)\<close> as the signature in the image changes them.\<close>

definition check_boot_delay :: "'d boot_board \<Rightarrow> bool \<times> nat \<Rightarrow> 'd boot \<Rightarrow> ((bool \<times> nat) \<times> 'd boot) option" where
  "check_boot_delay B p s =
     (case BOOT_DELAY_ADDRESS (serial B) of
        None \<Rightarrow> Some (p, s)
      | Some a \<Rightarrow>
          do {
            (sig1, s) \<leftarrow> boot_read_word B a s;
            (sig2, s) \<leftarrow> boot_read_word B (a + 4) s;
            let boot_delay = unat (sig1 AND 0xFF);
            Some (if sig2 = BOOT_DELAY_SIGNATURE2 \<and> sig1 AND 0xFFFFFF00 = BOOT_DELAY_SIGNATURE1 AND 0xFFFFFF00
                    \<and> boot_delay \<le> unat BOOT_DELAY_MAX
                  then ((False, max (snd p) (boot_delay * 1000)), s) else (p, s))
          })"

partial_function (option) boot_loop :: "'d boot_board \<Rightarrow> nat \<Rightarrow> 'd boot \<Rightarrow> 'd boot_end option" where
  "boot_loop B timeout s =
     (case bootloader (serial_now B s) timeout (bls s) of
        None \<Rightarrow> None
      | Some b \<Rightarrow>
          (let (forced, s) = board_test_force_pin B (s\<lparr>bls := b\<rparr>) in
           if forced then boot_loop B timeout s
           else let (brk, s) = usart_break B s in
             if brk then boot_loop B timeout s
             else let s = (if boot_fail_detect B then board_set_rtc_signature BOOT_RTC_SIGNATURE s else s) in
               (case jump_to_app B s of
                  (Some j, s) \<Rightarrow> Some (Started j s)
                | (None, s) \<Rightarrow> boot_loop B 0 s)))"

text \<open>The first part of \<open>bootloader_main\<close>: whether to boot at once, and the time-out.\<close>

definition rtc_request :: "'d boot_board \<Rightarrow> 'd boot \<Rightarrow> (bool \<times> nat) \<times> 'd boot" where
  "rtc_request B s =
     (if board_get_rtc_signature s = BOOT_RTC_SIGNATURE then ((False, 0), board_set_rtc_signature 0 s)
      else ((True, BOOTLOADER_DELAY B), s))"

definition sense_usb :: "'d boot_board \<Rightarrow> bool \<Rightarrow> 'd boot \<Rightarrow> bool \<times> 'd boot" where
  "sense_usb B try_boot s =
     (if interface_usb B
      then if vbus_sensed B
           then if vbus B then (False, s\<lparr>usb_connected := True\<rparr>) else (try_boot, s)
           else (False, s)
      else (try_boot, s))"

definition sense_inputs :: "'d boot_board \<Rightarrow> bool \<times> nat \<Rightarrow> 'd boot \<Rightarrow> (bool \<times> nat) \<times> 'd boot" where
  "sense_inputs B p s =
     (let (forced, s) = board_test_force_pin B s;
          (try_boot, s) = sense_usb B (fst p \<and> \<not> forced) s;
          (brk, s) = usart_break B s
      in ((try_boot \<and> \<not> brk, snd p), s))"

definition boot_plan :: "'d boot_board \<Rightarrow> 'd boot \<Rightarrow> ((bool \<times> nat) \<times> 'd boot) option" where
  "boot_plan B s =
     do {
       let (p, s) = rtc_request B (boot_emit Board_init s);
       (p, s) \<leftarrow> check_boot_delay B p s;
       Some (sense_inputs B p s)
     }"

definition start_interfaces :: "'d boot_board \<Rightarrow> 'd boot \<Rightarrow> 'd boot" where
  "start_interfaces B s =
     (let s = (if interface_usart B then boot_emit (Cinit USART) s else s) in
      if interface_usb B then boot_emit (Cinit USB) s else s)"

definition bootloader_main :: "'d boot_board \<Rightarrow> 'd boot \<Rightarrow> 'd boot_end option" where
  "bootloader_main B s =
     (if POWER_DOWN_SIGNATURE B = Some (board_get_rtc_signature s) then Some (Hung (board_set_rtc_signature 0 s))
      else
        do {
          ((try_boot, timeout), s) \<leftarrow> boot_plan B s;
          if try_boot then
            (let s = (if boot_fail_detect B then board_set_rtc_signature BOOT_RTC_SIGNATURE s else s) in
             (case jump_to_app B s of
                (Some j, s) \<Rightarrow> Some (Started j s)
              | (None, s) \<Rightarrow> boot_loop B 0 (start_interfaces B (board_set_rtc_signature BOOT_RTC_SIGNATURE s))))
          else boot_loop B timeout (start_interfaces B s)
        })"

section \<open>Reading the image\<close>

text \<open>The application area of the board: aligned, in flash, and not at the end of the address space.\<close>

definition boot_board_ok :: "'d boot_board \<Rightarrow> bool" where
  "boot_board_ok B \<longleftrightarrow>
     (let D = board_dev (serial B) in
      APP_LOAD D mod 4 = 0 \<and> STM32_FLASH_BANK1 \<le> APP_LOAD D \<and> 8 \<le> fw_size (serial B) \<and>
      APP_LOAD D + fw_size (serial B) \<le> STM32_FLASH_BANK1 + stm32h7_flash_size D \<and>
      STM32_FLASH_BANK1 + stm32h7_flash_size D < 2 ^ 32 \<and> (use_security B \<longrightarrow> use_toc B))"

lemma mem_of_word:
  assumes "a mod 4 = 0" and "STM32_FLASH_BANK1 \<le> a" and "a + 4 \<le> STM32_FLASH_BANK1 + stm32h7_flash_size D"
    and "STM32_FLASH_BANK1 + stm32h7_flash_size D < 2 ^ 32"
  shows "mem_u32 (mem_of D d r) (word_of_nat a) = dev_read D d a"
proof -
  have b: "mem_of D d r (word_of_nat a + word_of_nat i) = bytes_of_u32 (dev_read D d a) ! i" if "i < 4" for i
  proof -
    have u: "unat (word_of_nat a + word_of_nat i :: u32) = a + i"
      using assms(3,4) that by (simp add: unat_of_nat of_nat_add [symmetric] take_bit_nat_eq_self del: of_nat_add)
    have "(a + i) mod 4 = i" using assms(1) that by (metis mod_add_left_eq add_0 mod_less)
    then have "a + i - (a + i) mod 4 = a" by simp
    then show ?thesis using \<open>(a + i) mod 4 = i\<close> assms(2,3) that u by (simp add: mem_of_def getreg8_def)
  qed
  then have "mem_bytes (mem_of D d r) (word_of_nat a) 4 = bytes_of_u32 (dev_read D d a)"
    by (intro nth_equalityI) (simp_all add: mem_bytes_def)
  then show ?thesis by (simp add: mem_u32_def)
qed

lemma app_words:
  assumes "boot_board_ok B"
  defines "D \<equiv> board_dev (serial B)"
  shows "mem_u32 (boot_view B s r) (app_addr B) = dev_read D (dev (flash (bls s))) (APP_LOAD D)"
    and "mem_u32 (boot_view B s r) (app_addr B + 4) = dev_read D (dev (flash (bls s))) (APP_LOAD D + 4)"
    and "unat (app_addr B) = APP_LOAD D"
    and "unat (app_addr B + word_of_nat (fw_size (serial B))) = APP_LOAD D + fw_size (serial B)"
proof -
  note ok = assms(1) [unfolded boot_board_ok_def Let_def, folded D_def]
  have 4: "app_addr B + 4 = word_of_nat (APP_LOAD D + 4)" by (simp add: app_addr_def D_def)
  have a4: "(APP_LOAD D + 4) mod 4 = 0" using ok by simp
  show "mem_u32 (boot_view B s r) (app_addr B) = dev_read D (dev (flash (bls s))) (APP_LOAD D)"
    using mem_of_word [of "APP_LOAD D" D] ok by (simp add: boot_view_def app_addr_def D_def)
  show "mem_u32 (boot_view B s r) (app_addr B + 4) = dev_read D (dev (flash (bls s))) (APP_LOAD D + 4)"
    unfolding 4 using mem_of_word [OF a4, of D] ok by (simp add: boot_view_def D_def)
  show "unat (app_addr B) = APP_LOAD D" "unat (app_addr B + word_of_nat (fw_size (serial B))) = APP_LOAD D + fw_size (serial B)"
    using ok by (simp_all add: app_addr_def D_def unat_of_nat of_nat_add [symmetric] take_bit_nat_eq_self del: of_nat_add)
qed

section \<open>Where a start comes from\<close>

lemma emit_fields [frame_simps]:
  "bls (boot_emit e s) = bls s" "boot_ram (boot_emit e s) = boot_ram s" "crypto (boot_emit e s) = crypto s"
  by (simp_all add: boot_emit_def)

lemma emits_fields [frame_simps]:
  "bls (fold boot_emit es s) = bls s" "boot_ram (fold boot_emit es s) = boot_ram s" "crypto (fold boot_emit es s) = crypto s"
  by (induction es arbitrary: s) (simp_all add: frame_simps)

lemma start_interfaces_frame [frame_simps]:
  "bls (start_interfaces B s) = bls s" "crypto (start_interfaces B s) = crypto s"
  by (simp_all add: start_interfaces_def Let_def frame_simps)

lemma rtc_frame [frame_simps]:
  "bls (board_set_rtc_signature sig s) = bls s" "crypto (board_set_rtc_signature sig s) = crypto s"
  "bls (snd (rtc_request B s)) = bls s" "crypto (snd (rtc_request B s)) = crypto s"
  by (simp_all add: board_set_rtc_signature_def rtc_request_def)

lemma pins_frame [frame_simps]:
  "bls (snd (board_test_force_pin B s)) = bls s" "crypto (snd (board_test_force_pin B s)) = crypto s"
  "bls (snd (usart_break B s)) = bls s" "crypto (snd (usart_break B s)) = crypto s"
  "bls (snd (sense_usb B x s)) = bls s" "crypto (snd (sense_usb B x s)) = crypto s"
  by (simp_all add: board_test_force_pin_def usart_break_def board_test_usart_receiving_break_def sense_usb_def split_beta
      split: force_pin.split)

lemma delay_frame:
  "check_boot_delay B p s = Some (p', s') \<Longrightarrow> crypto s' = crypto s"
  by (auto simp: check_boot_delay_def boot_read_word_def bind_eq_Some_conv Let_def split: option.splits if_splits)

lemma plan_frame: "boot_plan B s = Some (p, s') \<Longrightarrow> crypto s' = crypto s"
  by (auto simp: boot_plan_def sense_inputs_def Let_def split_beta bind_eq_Some_conv frame_simps dest!: delay_frame)

definition sessions_ok :: "'d boot_board \<Rightarrow> 'd boot \<Rightarrow> bool" where
  "sessions_ok B s \<longleftrightarrow> use_security B \<longrightarrow> crypto_open_count (crypto s) \<ge> 0 \<and> keystore_open_count (crypto s) \<ge> 0"


text \<open>What a check in the chosen configuration stands for.\<close>

definition boot_valid :: "'d boot_board \<Rightarrow> u8 \<Rightarrow> u8 list \<Rightarrow> u8 list \<Rightarrow> bool" where
  "boot_valid B k sg msg \<longleftrightarrow> (use_security B \<longrightarrow> genuine (crypto_conf B) (SIGNING_ALGORITHM B) k sg msg)"

definition boot_crypto_ok :: "'d boot_board \<Rightarrow> crypto_st \<Rightarrow> bool" where
  "boot_crypto_ok B c \<longleftrightarrow> (use_security B \<longrightarrow> crypto_ok (crypto_conf B) c)"

interpretation boot: verifier "boot_check B" "boot_crypto_ok B" "boot_valid B" for B
  by unfold_locales (auto simp: boot_check_def boot_crypto_ok_def boot_valid_def intro: sw.check_sound sw.check_valid)

lemma select_toc:
  assumes "use_toc B" and "sessions_ok B s" and "select_app B s = (x, s')"
  shows "sessions_ok B s'" and "bls s' = bls s"
    and "x = Some (vec, app) \<Longrightarrow> \<exists>toc len. find_toc (boot_toc_cfg B) (boot_view B s (boot_ram s)) = Some (toc, len) \<and>
      entry_ok (boot_valid B) (boot_view B s (boot_ram s)) toc 0 \<and>
      (\<exists>i < len. startable (boot_valid B) (boot_view B s) toc i TOC_FLAG1_BOOT app)"
proof -
  let ?c = "if use_security B then crypto_init (crypto s) else crypto s"
  obtain m c where t: "toc_boot (boot_toc_cfg B) (boot_check B) (boot_view B s) (boot_ram s) ?c = (x, m, c)"
    and s': "s' = s\<lparr>boot_ram := m, crypto := c\<rparr>"
    using assms(1,3) by (auto simp: select_app_def Let_def split: prod.splits)
  have ok: "boot_crypto_ok B ?c" using assms(2) init_ok by (simp add: boot_crypto_ok_def sessions_ok_def)
  show "sessions_ok B s'" "bls s' = bls s"
    using boot.toc_boot_keeps [OF t ok] s' by (simp_all add: boot_crypto_ok_def crypto_ok_def sessions_ok_def)
  show "x = Some (vec, app) \<Longrightarrow> \<exists>toc len. find_toc (boot_toc_cfg B) (boot_view B s (boot_ram s)) = Some (toc, len) \<and>
      entry_ok (boot_valid B) (boot_view B s (boot_ram s)) toc 0 \<and>
      (\<exists>i < len. startable (boot_valid B) (boot_view B s) toc i TOC_FLAG1_BOOT app)"
    using boot.toc_boot_sound [of "boot_toc_cfg B" B "boot_view B s" "boot_ram s" ?c vec app m c] t ok by auto
qed


lemma select_frame: "select_app B s = (x, s') \<Longrightarrow> bls s' = bls s"
  by (auto simp: select_app_def Let_def split: if_splits prod.splits)

lemma select_sessions:
  assumes "select_app B s = (x, s')" and "sessions_ok B s"
  shows "sessions_ok B s'"
proof (cases "use_toc B")
  case True
  then show ?thesis using select_toc(1) assms by blast
next
  case False
  then have "s' = s" using assms(1) by (auto simp: select_app_def Let_def split: if_splits)
  then show ?thesis using assms(2) by simp
qed

text \<open>A jump: the first word is programmed, something was selected, and the processor reads its vectors.\<close>

lemma jump_cases:
  assumes "jump_to_app B s = (x, s')"
  obtains "x = None" "s' = s"
  | s1 where "x = None" "select_app B s = (None, s')"
  | vec app s1 where "mem_u32 (boot_view B s (boot_ram s)) (app_addr B) \<noteq> 0xffffffff"
      "select_app B s = (Some (vec, app), s1)" "bls s' = bls s" "boot_ram s' = boot_ram s1" "crypto s' = crypto s1"
      "x = Some (vec, arch_do_jump (boot_view B s (boot_ram s1)) app)"
proof -
  obtain y s1 where y: "select_app B s = (y, s1)" by fastforce
  then have b: "bls s1 = bls s" by (rule select_frame)
  show thesis
  proof (cases "mem_u32 (boot_view B s (boot_ram s)) (app_addr B) = 0xffffffff")
    case True
    then show thesis using assms that(1) by (simp add: jump_to_app_def)
  next
    case False
    show thesis
    proof (cases y)
      case None
      then show thesis using assms False y that(2) by (simp add: jump_to_app_def)
    next
      case (Some va)
      obtain vec app where va: "va = (vec, app)" by fastforce
      let ?s2 = "fold boot_emit [Flash_lock, Systic_deinit, Cfini, Clock_deinit, Board_deinit, Setvtor vec] s1"
      have "s' = ?s2" "x = Some (vec, arch_do_jump (boot_view B ?s2 (boot_ram ?s2)) app)"
        using assms False y Some va by (auto simp: jump_to_app_def Let_def)
      then show thesis using that(3) [of vec app s1] False y Some va b by (simp add: emit_fields boot_view_def)
    qed
  qed
qed

lemma jump_frame: "jump_to_app B s = (x, s') \<Longrightarrow> bls s' = bls s"
  by (erule jump_cases) (auto dest: select_frame)

lemma jump_sessions: "jump_to_app B s = (x, s') \<Longrightarrow> sessions_ok B s \<Longrightarrow> sessions_ok B s'"
  by (erule jump_cases) (auto dest: select_sessions simp: sessions_ok_def)

text \<open>Whatever is started was started by a jump, from a state whose crypto sessions are balanced.\<close>

definition started_by :: "'d boot_board \<Rightarrow> (u32 \<times> u32 \<times> u32) \<Rightarrow> 'd boot \<Rightarrow> bool" where
  "started_by B j s' \<longleftrightarrow> (\<exists>s. sessions_ok B s \<and> jump_to_app B s = (Some j, s'))"

lemma sessions_frame: "crypto s = crypto s' \<Longrightarrow> sessions_ok B s = sessions_ok B s'"
  by (simp add: sessions_ok_def)

lemma boot_loop_started:
  assumes "boot_loop B timeout s = Some e" and "sessions_ok B s"
  shows "\<exists>j s'. e = Started j s' \<and> started_by B j s'"
  using assms
proof (induction rule: boot_loop.raw_induct [rotated, consumes 1, case_names body])
  case (body loop B timeout s e)
  obtain b where b: "bootloader (serial_now B s) timeout (bls s) = Some b" using body.hyps by (auto split: option.splits)
  obtain f s1 where f: "board_test_force_pin B (s\<lparr>bls := b\<rparr>) = (f, s1)" by fastforce
  obtain k s2 where k: "usart_break B s1 = (k, s2)" by fastforce
  define s3 where "s3 = (if boot_fail_detect B then board_set_rtc_signature BOOT_RTC_SIGNATURE s2 else s2)"
  obtain x s4 where x: "jump_to_app B s3 = (x, s4)" by fastforce
  have c: "sessions_ok B s1" "sessions_ok B s2" "sessions_ok B s3"
    using body.prems pins_frame(2) [of B "s\<lparr>bls := b\<rparr>"] pins_frame(4) [of B s1] f k
    by (auto simp: sessions_ok_def s3_def rtc_frame)
  then have c4: "sessions_ok B s4" using jump_sessions [OF x] by simp
  have "(if f then loop B timeout s1 else if k then loop B timeout s2
      else case x of Some j \<Rightarrow> Some (Started j s4) | None \<Rightarrow> loop B 0 s4) = Some e"
    using body.hyps b f k x by (auto simp: s3_def Let_def split: option.splits if_splits)
  then show ?case using body.IH c c4 x by (auto simp: started_by_def split: if_splits option.splits)
qed

lemma main_started:
  assumes "bootloader_main B s = Some (Started j s')" and "sessions_ok B s"
  shows "started_by B j s'"
proof -
  obtain tb t s1 where p: "boot_plan B s = Some ((tb, t), s1)" using assms(1)
    by (auto simp: bootloader_main_def bind_eq_Some_conv split: if_splits)
  have c: "sessions_ok B s1" using plan_frame [OF p] assms(2) sessions_frame by metis
  define s2 where "s2 = (if boot_fail_detect B then board_set_rtc_signature BOOT_RTC_SIGNATURE s1 else s1)"
  obtain x s3 where x: "jump_to_app B s2 = (x, s3)" by fastforce
  have c2: "sessions_ok B s2" using c by (simp add: s2_def sessions_ok_def rtc_frame)
  let ?s4 = "start_interfaces B (board_set_rtc_signature BOOT_RTC_SIGNATURE s3)"
  have c4: "sessions_ok B ?s4" "sessions_ok B (start_interfaces B s1)"
    using jump_sessions [OF x c2] c by (simp_all add: sessions_ok_def frame_simps)
  have "(if tb then case x of Some j \<Rightarrow> Some (Started j s3) | None \<Rightarrow> boot_loop B 0 ?s4
      else boot_loop B t (start_interfaces B s1)) = Some (Started j s')"
    using assms(1) p x by (auto simp: bootloader_main_def s2_def Let_def split: if_splits option.splits)
  then consider "x = Some j" "s3 = s'" | t' s5 where "boot_loop B t' s5 = Some (Started j s')" "sessions_ok B s5"
    using c4 by (auto split: if_splits option.splits)
  then show ?thesis
  proof cases
    case 1
    then show ?thesis using x c2 by (auto simp: started_by_def)
  next
    case 2
    then show ?thesis using boot_loop_started by blast
  qed
qed

section \<open>What the board tests decide\<close>

definition votes :: "(nat \<Rightarrow> bool) \<Rightarrow> nat \<Rightarrow> nat" where
  "votes P n = length (filter P [0..<n])"

lemma votes_0 [simp]: "votes P 0 = 0"
  by (simp add: votes_def)

lemma votes_add: "votes P (n + m) = votes P n + votes (\<lambda>k. P (n + k)) m"
proof -
  have "[n..<n + m] = map (\<lambda>k. n + k) [0..<m]" by (induction m) simp_all
  then have "length (filter P [n..<n + m]) = votes (\<lambda>k. P (n + k)) m" by (simp add: votes_def filter_map o_def)
  then show ?thesis by (simp add: votes_def upt_add_eq_append [of 0 n m])
qed

lemma votes_cong: "(\<And>k. k < n \<Longrightarrow> P k = Q k) \<Longrightarrow> votes P n = votes Q n"
  by (auto simp: votes_def intro!: arg_cong [where f = length] filter_cong)

lemma sample_pin_votes: "sample_pin lv want n (r, c, v) = (r + n, c + n, v + votes (\<lambda>k. lv (r + k) = want) n)"
proof (induction n arbitrary: r c v)
  case (Suc n)
  have "votes (\<lambda>k. lv (r + k) = want) (1 + n) = votes (\<lambda>k. lv (r + k) = want) 1 + votes (\<lambda>k. lv (r + (1 + k)) = want) n"
    by (rule votes_add)
  then show ?case using Suc by (simp add: votes_def)
qed simp

lemma cycles_votes:
  "((\<lambda>x. sample_pin lv False 20 (sample_pin lv True 20 x)) ^^ n) (r, 0, 0)
     = (r + 40 * n, 40 * n, votes (\<lambda>k. lv (r + k) = (k mod 40 < 20)) (40 * n))"
proof (induction n)
  case (Suc n)
  have m: "(40 * n + k) mod 40 = k" if "k < 40" for k using that by simp
  have "votes (\<lambda>k. lv (r + k) = (k mod 40 < 20)) (40 * n + (20 + 20))
      = votes (\<lambda>k. lv (r + k) = (k mod 40 < 20)) (40 * n) + (votes (\<lambda>k. lv (r + (40 * n + k)) = ((40 * n + k) mod 40 < 20)) 20
        + votes (\<lambda>k. lv (r + (40 * n + (20 + k))) = ((40 * n + (20 + k)) mod 40 < 20)) 20)"
    by (simp only: votes_add)
  moreover have "votes (\<lambda>k. lv (r + (40 * n + k)) = ((40 * n + k) mod 40 < 20)) 20 = votes (\<lambda>k. lv (r + 40 * n + k) = True) 20"
    by (rule votes_cong) (simp add: add.assoc m)
  moreover have "votes (\<lambda>k. lv (r + (40 * n + (20 + k))) = ((40 * n + (20 + k)) mod 40 < 20)) 20 = votes (\<lambda>k. lv (r + 40 * n + 20 + k) = False) 20"
    by (rule votes_cong) (subst m, simp_all add: add.assoc)
  ultimately show ?case using Suc by (simp add: sample_pin_votes algebra_simps)
qed simp

text \<open>
  The pins ask for the bootloader: more than nine tenths of the samples agree with what is driven,
  or with the active level.
\<close>

definition strapped :: "'d boot_board \<Rightarrow> nat \<Rightarrow> bool" where
  "strapped B r =
     (case force_pins B of
        No_pin \<Rightarrow> False
      | Two_pins \<Rightarrow> votes (\<lambda>k. pin_level B (r + k) = (k mod 40 < 20)) 400 > 360
      | One_pin level \<Rightarrow> votes (\<lambda>k. pin_level B (r + k) = level) 200 > 180)"

lemma force_pin_strapped: "fst (board_test_force_pin B s) = strapped B (pin_reads s)"
  by (simp add: board_test_force_pin_def strapped_def cycles_votes sample_pin_votes split: force_pin.split)

text \<open>The receive line was low for nine bit times: 18 samples in a row within the 60 that are taken.\<close>

definition line_low :: "(nat \<Rightarrow> bool) \<Rightarrow> nat \<Rightarrow> nat \<Rightarrow> bool" where
  "line_low lv a b \<longleftrightarrow> (\<exists>j \<ge> a. j + 18 \<le> b \<and> (\<forall>k < 18. \<not> lv (j + k)))"

lemma line_low_skip:
  assumes "lv r" and "a \<le> r" and "r < a + 18"
  shows "line_low lv a b \<longleftrightarrow> line_low lv (r + 1) b"
proof
  assume "line_low lv a b"
  then obtain j where j: "a \<le> j" "j + 18 \<le> b" "\<And>k. k < 18 \<Longrightarrow> \<not> lv (j + k)" by (auto simp: line_low_def)
  have "\<not> j \<le> r"
  proof
    assume "j \<le> r"
    then have "r - j < 18" "j + (r - j) = r" using j(1) assms(2,3) by auto
    then show False using j(3) [of "r - j"] assms(1) by simp
  qed
  then show "line_low lv (r + 1) b" using j(2,3) unfolding line_low_def by (intro exI [of _ j]) auto
next
  assume "line_low lv (r + 1) b"
  then obtain j where "r + 1 \<le> j" "j + 18 \<le> b" "\<forall>k < 18. \<not> lv (j + k)" by (auto simp: line_low_def)
  then show "line_low lv a b" using assms(2) unfolding line_low_def by (intro exI [of _ j]) auto
qed

lemma break_loop_line_low:
  "cnt \<le> 60 \<Longrightarrow> low < 18 \<Longrightarrow> low \<le> r \<Longrightarrow> (\<forall>k. r - low \<le> k \<and> k < r \<longrightarrow> \<not> lv k) \<Longrightarrow>
     fst (break_loop lv cnt low r) \<ge> 18 \<longleftrightarrow> line_low lv (r - low) (r + (60 - cnt))"
proof (induction lv cnt low r rule: break_loop.induct)
  case (1 lv cnt low r)
  show ?case
  proof (cases "cnt < 60")
    case False
    then have "break_loop lv cnt low r = (low, r)" by (simp add: break_loop.simps [of lv cnt])
    then show ?thesis using "1.prems" False by (auto simp: line_low_def)
  next
    case c: True
    let ?low = "if \<not> lv r then low + 1 else 0"
    show ?thesis
    proof (cases "?low \<ge> 18")
      case True
      then have l: "\<not> lv r" "low = 17" using "1.prems"(2) by (auto split: if_splits)
      have "\<not> lv (r - low + k)" if "k < 18" for k
      proof (cases "k = 17")
        case True
        then show ?thesis using "1.prems"(3) l by simp
      next
        case False
        then have "r - low \<le> r - low + k" "r - low + k < r" using "1.prems"(3) l that by auto
        then show ?thesis using "1.prems"(4) by blast
      qed
      then have "line_low lv (r - low) (r + (60 - cnt))"
        unfolding line_low_def using c l "1.prems"(3) by (intro exI [of _ "r - low"]) auto
      then show ?thesis using True c by (simp add: break_loop.simps [of lv cnt])
    next
      case False
      have e: "break_loop lv cnt low r = break_loop lv (cnt + 1) ?low (r + 1)"
        using c False by (simp add: break_loop.simps [of lv cnt] Let_def)
      have ih: "fst (break_loop lv (cnt + 1) ?low (r + 1)) \<ge> 18 \<longleftrightarrow> line_low lv (r + 1 - ?low) (r + 1 + (60 - (cnt + 1)))"
      proof (rule "1.IH" [OF c refl False])
        show "cnt + 1 \<le> 60" "?low < 18" "?low \<le> r + 1" using c False "1.prems"(3) by auto
        show "\<forall>k. r + 1 - ?low \<le> k \<and> k < r + 1 \<longrightarrow> \<not> lv k"
        proof (cases "lv r")
          case False
          have "\<not> lv k" if "r - low \<le> k" "k < r + 1" for k
            using "1.prems"(4) that False by (cases "k = r") auto
          then show ?thesis using False by simp
        qed auto
      qed
      have n: "r + 1 + (60 - (cnt + 1)) = r + (60 - cnt)" using c by simp
      have "line_low lv (r + 1 - ?low) (r + (60 - cnt)) \<longleftrightarrow> line_low lv (r - low) (r + (60 - cnt))"
      proof (cases "lv r")
        case False
        then show ?thesis by simp
      next
        case lr: True
        then have "line_low lv (r - low) b \<longleftrightarrow> line_low lv (r + 1) b" for b
          using line_low_skip [of lv r "r - low" b] "1.prems"(2) by simp
        then show ?thesis using lr by simp
      qed
      then show ?thesis using ih [unfolded n] by (simp only: e)
    qed
  qed
qed

definition break_seen :: "'d boot_board \<Rightarrow> nat \<Rightarrow> bool" where
  "break_seen B r \<longleftrightarrow> interface_usart B \<and> break_detect B \<and> line_low (rx_level B) r (r + 60)"

lemma usart_break_seen: "fst (usart_break B s) = break_seen B (rx_reads s)"
proof -
  have "fst (break_loop (rx_level B) 0 0 (rx_reads s)) \<ge> 18 \<longleftrightarrow> line_low (rx_level B) (rx_reads s) (rx_reads s + 60)"
    using break_loop_line_low [of 0 0 "rx_reads s" "rx_level B"] by (simp add: not_less [symmetric])
  then show ?thesis by (simp add: usart_break_def break_seen_def board_test_usart_receiving_break_def split_beta)
qed

text \<open>The delay that the image asks for, from its two signature words.\<close>

definition delay_asked :: "u32 \<Rightarrow> u32 \<Rightarrow> nat option" where
  "delay_asked sig1 sig2 =
     (if sig2 = BOOT_DELAY_SIGNATURE2 \<and> sig1 AND 0xFFFFFF00 = BOOT_DELAY_SIGNATURE1 AND 0xFFFFFF00 \<and> unat (sig1 AND 0xFF) \<le> unat BOOT_DELAY_MAX
      then Some (unat (sig1 AND 0xFF)) else None)"

definition image_delay :: "'d boot_board \<Rightarrow> 'd boot \<Rightarrow> nat option" where
  "image_delay B s =
     (case BOOT_DELAY_ADDRESS (serial B) of
        None \<Rightarrow> None
      | Some a \<Rightarrow>
          (case boot_read_word B a s of
             None \<Rightarrow> None
           | Some (sig1, s) \<Rightarrow> (case boot_read_word B (a + 4) s of None \<Rightarrow> None | Some (sig2, s) \<Rightarrow> delay_asked sig1 sig2)))"

lemma check_boot_delay_asked:
  assumes "check_boot_delay B p s = Some (p', s')"
  shows "p' = (case image_delay B s of None \<Rightarrow> p | Some d \<Rightarrow> (False, max (snd p) (d * 1000)))"
    and "pin_reads s' = pin_reads s" "rx_reads s' = rx_reads s"
  using assms by (auto simp: check_boot_delay_def image_delay_def delay_asked_def bind_eq_Some_conv Let_def boot_read_word_def
      split: option.splits if_splits)

lemma usb_asks: "fst (sense_usb B x s) \<longleftrightarrow> x \<and> \<not> (interface_usb B \<and> (vbus_sensed B \<longrightarrow> vbus B))"
  by (simp add: sense_usb_def)

lemma reads_frame:
  "rx_reads (snd (sense_usb B x s)) = rx_reads s" "rx_reads (snd (board_test_force_pin B s)) = rx_reads s"
  by (simp_all add: sense_usb_def board_test_force_pin_def split_beta split: force_pin.split)

lemma image_delay_cong: "bls s = bls s' \<Longrightarrow> image_delay B s = image_delay B s'"
  by (simp add: image_delay_def boot_read_word_def split: option.split)


lemma plan_on_request:
  assumes "boot_plan B s = Some (p, s')" and "rtc s = BOOT_RTC_SIGNATURE" and "image_delay B s = None"
  shows "p = (False, 0)"
proof -
  have r: "fst (rtc_request B (boot_emit Board_init s)) = (False, 0)" "bls (snd (rtc_request B (boot_emit Board_init s))) = bls s"
    using assms(2) by (simp_all add: rtc_request_def board_get_rtc_signature_def board_set_rtc_signature_def boot_emit_def)
  obtain p' s2 where d: "check_boot_delay B (False, 0) (snd (rtc_request B (boot_emit Board_init s))) = Some (p', s2)"
    and p: "sense_inputs B p' s2 = (p, s')"
    using assms(1) r(1) by (auto simp: boot_plan_def bind_eq_Some_conv split_beta)
  have "p' = (False, 0)" using check_boot_delay_asked(1) [OF d] image_delay_cong [OF r(2), of B] assms(3) by simp
  then show ?thesis using p by (auto simp: sense_inputs_def sense_usb_def split_beta Let_def split: if_splits)
qed

lemma start_usb: "usb_connected (start_interfaces B s) = usb_connected s"
  by (simp add: start_interfaces_def boot_emit_def Let_def)

lemma serial_now_start [simp]: "serial_now B (start_interfaces B s) = serial_now B s"
  by (simp add: serial_now_def board_get_devices_def start_usb)

end
