(* ===== verification/Bl_Start.thy ===== *)
theory Bl_Start
  imports Bl_Boot
begin

text \<open>
  What the serial bootloader starts and when: the properties of \<open>bootloader_main\<close> and
  \<open>jump_to_app\<close>, with small images that are started with and without a table of contents.
\<close>

section \<open>An image to start\<close>

definition demo_boot_board :: "(nat \<Rightarrow> u32) boot_board" where
  "demo_boot_board = \<lparr>serial = demo_board, use_toc = False, use_security = False,
     crypto_conf = \<lparr>public_keys = [replicate 32 1], malloc_ok = \<lambda>_ _. True, ed25519_check = \<lambda>_ _ _. True\<rparr>,
     SIGNING_ALGORITHM = CRYPTO_ED25519, BOARD_FLASH_SIZE = 0x200000, IMAGE_TOC_VERSION = 1, BOOTLOADER_DELAY = 5000,
     POWER_DOWN_SIGNATURE = None, boot_fail_detect = False, force_pins = No_pin, interface_usb = False, vbus_sensed = False,
     interface_usart = False, break_detect = False, BOOT_DEVICES_SELECTION = 3, BOOT_DEVICES_FILTER_ONUSB = 1, USB0_DEV = 1,
     SERIAL0_DEV = 2, pin_level = \<lambda>_. False, rx_level = \<lambda>_. True, vbus = False\<rparr>"

definition demo_boot :: "(nat \<Rightarrow> u32) \<Rightarrow> u8 list \<Rightarrow> u32 \<Rightarrow> (nat \<Rightarrow> u32) boot" where
  "demo_boot img bytes sig = \<lparr>bls = (demo_bl bytes 0)\<lparr>flash := demo_flash\<lparr>dev := img\<rparr>\<rparr>, rtc = sig, boot_ram = \<lambda>_. 0,
     crypto = \<lparr>crypto_open_count = 0, keystore_open_count = 0, key_cache = replicate 16 no_key, mallocs = 0\<rparr>,
     usb_connected = False, pin_reads = 0, rx_reads = 0, boot_out = []\<rparr>"

definition demo_image :: "nat \<Rightarrow> u32" where
  "demo_image a = (if a = 0x8020000 then 0x20020000 else if a = 0x8020004 then 0x8020011 else 0xffffffff)"

lemma demo_word:
  assumes "a mod 4 = 0" and "0x8000000 \<le> a" and "a < 0x8200000"
  shows "mem_u32 (mem_of demo_dev d r) (word_of_nat a) = d a"
proof -
  have s: "STM32_FLASH_BANK1 = 0x8000000" "stm32h7_flash_size demo_dev = 0x200000"
    by (simp_all add: STM32_FLASH_BANK1_def stm32h7_flash_size_def demo_dev_def FLASH_SECTOR_SIZE_def)
  have "a + 4 \<le> 0x8200000" using assms by presburger
  then have "mem_u32 (mem_of demo_dev d r) (word_of_nat a) = dev_read demo_dev d a"
    using assms s by (intro mem_of_word) simp_all
  then show ?thesis by (simp add: demo_dev_def)
qed

lemma demo_boot_board_ok: "boot_board_ok demo_boot_board" "app_addr demo_boot_board = 0x8020000"
  by (simp_all add: boot_board_ok_def demo_boot_board_def demo_board_def demo_dev_def app_addr_def Let_def STM32_FLASH_BANK1_def
      stm32h7_flash_size_def FLASH_SECTOR_SIZE_def)

lemma demo_view: "boot_view demo_boot_board (demo_boot img bytes sig) = mem_of demo_dev img"
  by (simp add: boot_view_def demo_boot_board_def demo_board_def demo_boot_def)

lemma demo_jump_any:
  assumes "dev (flash (bls s)) = demo_image"
  shows "\<exists>s'. jump_to_app demo_boot_board s = (Some (0x8020000, 0x20020000, 0x8020011), s')"
proof -
  have v: "boot_view demo_boot_board s1 = mem_of demo_dev demo_image" if "bls s1 = bls s" for s1 :: "(nat \<Rightarrow> u32) boot"
    using assms that by (simp add: boot_view_def demo_boot_board_def demo_board_def)
  have w: "mem_u32 (mem_of demo_dev demo_image r) 0x8020000 = 0x20020000" "mem_u32 (mem_of demo_dev demo_image r) 0x8020004 = 0x8020011" for r
    using demo_word [of "0x8020000" demo_image r] demo_word [of "0x8020004" demo_image r] by (simp_all add: demo_image_def)
  have c: "use_toc demo_boot_board = False" "fw_size (serial demo_boot_board) = 32" by (simp_all add: demo_boot_board_def demo_board_def)
  show ?thesis
    by (simp add: jump_to_app_def select_app_def Let_def v emit_fields demo_boot_board_ok c w arch_do_jump_def)
qed

lemma demo_main:
  "\<exists>s'. bootloader_main demo_boot_board (demo_boot demo_image [] 0) = Some (Started (0x8020000, 0x20020000, 0x8020011) s')"
proof -
  let ?s = "boot_emit Board_init (demo_boot demo_image [] 0)"
  have "boot_plan demo_boot_board (demo_boot demo_image [] 0) = Some ((True, 5000), ?s)"
    by (simp add: boot_plan_def rtc_request_def board_get_rtc_signature_def check_boot_delay_def sense_inputs_def sense_usb_def
        board_test_force_pin_def usart_break_def demo_boot_board_def demo_board_def demo_boot_def boot_emit_def BOOT_RTC_SIGNATURE_def)
  moreover have "\<exists>s'. jump_to_app demo_boot_board ?s = (Some (0x8020000, 0x20020000, 0x8020011), s')"
    by (rule demo_jump_any) (simp_all add: emit_fields demo_boot_def)
  moreover have "POWER_DOWN_SIGNATURE demo_boot_board = None" "boot_fail_detect demo_boot_board = False"
    by (simp_all add: demo_boot_board_def)
  ultimately show ?thesis by (auto simp: bootloader_main_def Let_def)
qed

definition demo_signed_board :: "(nat \<Rightarrow> u32) boot_board" where
  "demo_signed_board = demo_boot_board\<lparr>use_toc := True, use_security := True,
     serial := demo_board\<lparr>BOOT_DELAY_ADDRESS := Some 0x20\<rparr>\<rparr>"

definition demo_signed_image :: "nat \<Rightarrow> u32" where
  "demo_signed_image a = (case map_of [(0x8020000, 0x20020000), (0x8020004, 0x8020011), (0x8020028, 0x00434f54), (0x802002c, 1),
     (0x8020034, 0x8020000), (0x8020038, 0x8020100), (0x8020040, 0x01000001),
     (0x802004c, 0x8020100), (0x8020050, 0x8020140), (0x8020058, 0), (0x8020060, 0x00444e45)] a of Some w \<Rightarrow> w | None \<Rightarrow> 0xffffffff)"

lemma demo_signed_byte:
  "mem_of demo_dev demo_signed_image r 0x8020040 = 1" "mem_of demo_dev demo_signed_image r 0x8020041 = 0"
  "mem_of demo_dev demo_signed_image r 0x8020042 = 0" "mem_of demo_dev demo_signed_image r 0x8020043 = 1"
  "mem_of demo_dev demo_signed_image r 0x8020058 = 0" "mem_of demo_dev demo_signed_image r 0x802005b = 0"
  by (simp_all add: mem_of_def getreg8_def demo_dev_def demo_signed_image_def STM32_FLASH_BANK1_def stm32h7_flash_size_def
      FLASH_SECTOR_SIZE_def bytes_of_u32_def)

lemma demo_signed_word:
  assumes "a mod 4 = 0" and "0x8000000 \<le> a" and "a < 0x8200000"
  shows "mem_u32 (mem_of demo_dev demo_signed_image r) (word_of_nat a) = demo_signed_image a"
  using demo_word [OF assms] .

lemmas demo_signed_words = demo_signed_word [of "0x8020000"] demo_signed_word [of "0x8020004"] demo_signed_word [of "0x8020028"]
  demo_signed_word [of "0x802002c"] demo_signed_word [of "0x8020030"] demo_signed_word [of "0x8020034"] demo_signed_word [of "0x8020038"]
  demo_signed_word [of "0x802003c"] demo_signed_word [of "0x8020048"] demo_signed_word [of "0x802004c"] demo_signed_word [of "0x8020050"]
  demo_signed_word [of "0x8020054"] demo_signed_word [of "0x8020060"]

lemma demo_signed_cfg:
  "boot_toc_cfg demo_signed_board = \<lparr>app_load = 0x8020000, flash_size = 0x200000, delay_address = 0x20, TOC_VERSION = 1\<rparr>"
  "FLASH_END_ADDRESS (boot_toc_cfg demo_signed_board) = 0x8200000"
  by (simp_all add: boot_toc_cfg_def app_addr_def demo_signed_board_def demo_boot_board_def demo_board_def demo_dev_def
      FLASH_END_ADDRESS_def FLASH_START_ADDRESS_def)

lemma demo_signed_toc:
  "find_toc (boot_toc_cfg demo_signed_board) (mem_of demo_dev demo_signed_image r) = Some (0x8020030, 2)"
proof -
  let ?m = "mem_of demo_dev demo_signed_image r" and ?C = "boot_toc_cfg demo_signed_board"
  have "count_entries ?C ?m 0x8020030 2 = 2"
    using demo_signed_words by (simp add: count_entries.simps [of _ _ _ 2] entry_addr_def TOC_END_MAGIC_def demo_signed_image_def)
  then have "count_entries ?C ?m 0x8020030 1 = 2"
    using demo_signed_words demo_signed_cfg(2)
    by (simp add: count_entries.simps [of _ _ _ 1] entry_addr_def TOC_END_MAGIC_def demo_signed_image_def del: One_nat_def)
  then have "count_entries ?C ?m 0x8020030 0 = 2"
    using demo_signed_words demo_signed_cfg(2)
    by (simp add: count_entries.simps [of _ _ _ 0] entry_addr_def TOC_END_MAGIC_def demo_signed_image_def)
  then show ?thesis
    using demo_signed_words demo_signed_cfg demo_signed_byte
    by (simp add: find_toc_def Let_def toc_entry_def entry_addr_def TOC_START_MAGIC_def demo_signed_image_def)
qed

lemma demo_signed_check:
  assumes "boot_crypto_ok demo_signed_board c"
  shows "\<exists>c'. boot_check demo_signed_board 0 sg msg c = (True, c') \<and> boot_crypto_ok demo_signed_board c'"
proof -
  let ?E = "crypto_conf demo_signed_board"
  have b: "use_security demo_signed_board" "SIGNING_ALGORITHM demo_signed_board = CRYPTO_ED25519" "\<And>i n. malloc_ok ?E i n"
    "public_keys ?E = [replicate 32 1]" "\<And>a b c. ed25519_check ?E a b c"
    by (simp_all add: demo_signed_board_def demo_boot_board_def)
  have ok: "crypto_ok ?E c" using assms b(1) by (simp add: boot_crypto_ok_def)
  obtain r c' where r: "check_once ?E CRYPTO_ED25519 0 sg msg c = (r, c')" by fastforce
  have "genuine ?E CRYPTO_ED25519 0 sg msg" by (simp add: genuine_def usable_key_def b)
  then have "r" "crypto_ok ?E c'" using check_once(1,5) [OF ok r] b(3) by auto
  then show ?thesis using r b(1,2) by (simp add: boot_check_def boot_crypto_ok_def)
qed

lemma demo_signed_boot:
  assumes "boot_crypto_ok demo_signed_board c"
  shows "\<exists>r' c'. toc_boot (boot_toc_cfg demo_signed_board) (boot_check demo_signed_board) (mem_of demo_dev demo_signed_image) r c
    = (Some (0x8020000, 0x8020000), r', c')"
proof -
  let ?v = "mem_of demo_dev demo_signed_image" and ?k = "boot_check demo_signed_board"
  have e0: "signature_key (toc_entry (?v r) 0x8020030 0) = 0" for r
    using demo_signed_byte by (simp add: toc_entry_def entry_addr_def Let_def)
  obtain c1 where c1: "verify_app ?k (?v r) 0x8020030 0 c = (True, c1)"
    using demo_signed_check [OF assms] e0 [of r] unfolding verify_app_def Let_def by metis
  have f: "flags1 (toc_entry (?v r) 0x8020030 0) = 1" "start (toc_entry (?v r) 0x8020030 0) = 0x8020000"
    "flags1 (toc_entry (?v r) 0x8020030 1) = 0" for r
    using demo_signed_byte demo_signed_words by (simp_all add: toc_entry_def entry_addr_def Let_def demo_signed_image_def)
  have "toc_loop ?k ?v 0x8020030 2 \<lparr>ram = r, checker = c1, app_base = 0, vec_base = 0\<rparr>
      = \<lparr>ram = r, checker = c1, app_base = 0x8020000, vec_base = 0\<rparr>"
    using f by (simp add: toc_loop_def numeral_2_eq_2 toc_step_def has_flag_def get_base_addr_def Let_def)
  then show ?thesis using c1 demo_signed_toc [of r] by (simp add: toc_boot_def Let_def)
qed

lemma demo_signed_main:
  "\<exists>s'. bootloader_main demo_signed_board (demo_boot demo_signed_image [] 0) = Some (Started (0x8020000, 0x20020000, 0x8020011) s')"
proof -
  let ?B = demo_signed_board and ?s = "boot_emit Board_init (demo_boot demo_signed_image [] 0)"
  have r: "boot_read_word ?B 0x20 ?s = Some (0xffffffff, ?s)" "boot_read_word ?B 0x24 ?s = Some (0xffffffff, ?s)"
    by (simp_all add: boot_read_word_def bl_read_word_def flash_func_read_word_def fc_read_def fc_line_select_def FC_TAG_def
        demo_signed_board_def demo_boot_board_def demo_board_def demo_boot_def demo_bl_def boot_emit_def demo_flash_def fcl_reset_def
        demo_dev_def demo_signed_image_def)
  have "boot_plan ?B (demo_boot demo_signed_image [] 0) = Some ((True, 5000), ?s)"
    using r by (simp add: boot_plan_def rtc_request_def board_get_rtc_signature_def check_boot_delay_def sense_inputs_def sense_usb_def
        board_test_force_pin_def usart_break_def demo_signed_board_def demo_boot_board_def demo_board_def demo_boot_def boot_emit_def
        BOOT_RTC_SIGNATURE_def BOOT_DELAY_SIGNATURE2_def)
  moreover have "\<exists>s'. jump_to_app ?B ?s = (Some (0x8020000, 0x20020000, 0x8020011), s')"
  proof -
    have v: "boot_view ?B s1 = mem_of demo_dev demo_signed_image" if "bls s1 = bls ?s" for s1 :: "(nat \<Rightarrow> u32) boot"
      using that by (simp add: boot_view_def demo_signed_board_def demo_boot_board_def demo_board_def demo_boot_def emit_fields)
    have c: "use_toc ?B" "use_security ?B" "app_addr ?B = 0x8020000"
      by (simp_all add: demo_signed_board_def demo_boot_board_def app_addr_def demo_board_def demo_dev_def)
    have "boot_crypto_ok ?B (crypto_init (crypto ?s))"
      using init_ok by (simp add: boot_crypto_ok_def emit_fields demo_boot_def)
    then obtain r' c' where "toc_boot (boot_toc_cfg ?B) (boot_check ?B) (boot_view ?B ?s) (boot_ram ?s) (crypto_init (crypto ?s))
        = (Some (0x8020000, 0x8020000), r', c')"
      using demo_signed_boot v [OF refl] by metis
    then show ?thesis
      using demo_signed_words
      by (simp add: jump_to_app_def select_app_def Let_def c v emit_fields arch_do_jump_def demo_signed_image_def)
  qed
  moreover have "POWER_DOWN_SIGNATURE ?B = None" "boot_fail_detect ?B = False"
    by (simp_all add: demo_signed_board_def demo_boot_board_def)
  ultimately show ?thesis by (auto simp: bootloader_main_def Let_def)
qed

definition demo_usb_board :: "(nat \<Rightarrow> u32) boot_board" where
  "demo_usb_board = demo_boot_board\<lparr>interface_usb := True\<rparr>"

definition demo_forced :: "(nat \<Rightarrow> u32) boot" where
  "demo_forced = (demo_boot demo_image [PROTO_BOOT, PROTO_EOC] BOOT_RTC_SIGNATURE)\<lparr>bls :=
     (bls (demo_boot demo_image [PROTO_BOOT, PROTO_EOC] 0))\<lparr>happenings := replicate 100 Tick\<rparr>\<rparr>"

lemma demo_jump_usb: "jump_to_app demo_usb_board s = jump_to_app demo_boot_board s"
proof -
  have "boot_view demo_usb_board = boot_view demo_boot_board" "boot_toc_cfg demo_usb_board = boot_toc_cfg demo_boot_board"
    "boot_check demo_usb_board = boot_check demo_boot_board" "app_addr demo_usb_board = app_addr demo_boot_board"
    "serial demo_usb_board = serial demo_boot_board" "use_toc demo_usb_board = use_toc demo_boot_board"
    "use_security demo_usb_board = use_security demo_boot_board"
    by (simp_all add: fun_eq_iff boot_view_def boot_toc_cfg_def boot_check_def app_addr_def demo_usb_board_def)
  then show ?thesis by (simp only: jump_to_app_def select_app_def)
qed

lemma demo_forced_main: "\<exists>s'. bootloader_main demo_usb_board demo_forced = Some (Started (0x8020000, 0x20020000, 0x8020011) s')"
proof -
  let ?B = demo_usb_board
  obtain s1 where p: "boot_plan ?B demo_forced = Some ((False, 0), s1)" "bls s1 = bls demo_forced" "usb_connected s1 = False"
    by (simp add: boot_plan_def rtc_request_def board_get_rtc_signature_def board_set_rtc_signature_def check_boot_delay_def
        sense_inputs_def sense_usb_def board_test_force_pin_def usart_break_def demo_usb_board_def demo_boot_board_def demo_board_def
        demo_forced_def demo_boot_def boot_emit_def)
  let ?S = "serial_now ?B s1"
  have "usb_enabled ?S" using p(3)
    by (simp add: serial_now_def board_get_devices_def has_flag_def demo_usb_board_def demo_boot_board_def)
  then obtain b where b: "bl_loop ?S (bl_enter ?S 0 (bls s1)) = Some b" "core b = core (bl_enter ?S 0 (bls s1))"
    using usb_boot_turn [of ?S "bl_enter ?S 0 (bls s1)"] p(2)
    by (auto simp: bl_enter_def bl_emit_def led_set_def Let_def demo_forced_def demo_boot_def demo_bl_def)
  have "flash b = flash (bls demo_forced)" using core_fields(1) [OF b(2)] p(2) bl_enter_state by (simp add: bl_enter_def bl_emit_def led_set_def Let_def)
  then have "dev (flash b) = demo_image" by (simp add: demo_forced_def demo_boot_def)
  then obtain s' where j: "jump_to_app ?B ((start_interfaces ?B s1)\<lparr>bls := b\<rparr>) = (Some (0x8020000, 0x20020000, 0x8020011), s')"
    using demo_jump_any [of "(start_interfaces ?B s1)\<lparr>bls := b\<rparr>"] demo_jump_usb by auto
  have c: "force_pins ?B = No_pin" "interface_usart ?B = False" "boot_fail_detect ?B = False" "POWER_DOWN_SIGNATURE ?B = None"
    by (simp_all add: demo_usb_board_def demo_boot_board_def)
  have "boot_loop ?B 0 (start_interfaces ?B s1) = Some (Started (0x8020000, 0x20020000, 0x8020011) s')"
    using b(1) j c by (subst boot_loop.simps) (simp add: bootloader_def board_test_force_pin_def usart_break_def frame_simps)
  then show ?thesis using p(1) c(4) by (simp add: bootloader_main_def)
qed

section \<open>Properties\<close>

text \<open>
  The decision at start-up, on every branch: the application is tried at once exactly when the
  real-time clock register holds no request, the image asks for no delay, the pins are not
  strapped, no USB host is there and the serial line shows no break; the time-out of the command
  loop is the larger of the configured one (none after a request) and the delay of the image.
\<close>

theorem boot_decision:
  assumes "boot_plan B s = Some ((try_boot, timeout), s')"
  shows "(try_boot \<longleftrightarrow> rtc s \<noteq> BOOT_RTC_SIGNATURE \<and> image_delay B s = None \<and> \<not> strapped B (pin_reads s) \<and>
      \<not> (interface_usb B \<and> (vbus_sensed B \<longrightarrow> vbus B)) \<and> \<not> break_seen B (rx_reads s))
    \<and> timeout = max (if rtc s = BOOT_RTC_SIGNATURE then 0 else BOOTLOADER_DELAY B)
        (case image_delay B s of None \<Rightarrow> 0 | Some d \<Rightarrow> d * 1000)"
proof -
  obtain p s1 where r: "rtc_request B (boot_emit Board_init s) = (p, s1)" by fastforce
  then have p: "p = (if rtc s = BOOT_RTC_SIGNATURE then (False, 0) else (True, BOOTLOADER_DELAY B))"
    "bls s1 = bls s" "pin_reads s1 = pin_reads s" "rx_reads s1 = rx_reads s"
    by (auto simp: rtc_request_def board_get_rtc_signature_def board_set_rtc_signature_def boot_emit_def split: if_splits)
  obtain p' s2 where d: "check_boot_delay B p s1 = Some (p', s2)" and "sense_inputs B p' s2 = ((try_boot, timeout), s')"
    using assms r by (auto simp: boot_plan_def bind_eq_Some_conv)
  then have "try_boot \<longleftrightarrow> fst p' \<and> \<not> strapped B (pin_reads s) \<and> \<not> (interface_usb B \<and> (vbus_sensed B \<longrightarrow> vbus B)) \<and> \<not> break_seen B (rx_reads s)"
    "timeout = snd p'"
    using check_boot_delay_asked(2,3) [OF d] p(3,4)
    by (auto simp: sense_inputs_def split_beta Let_def force_pin_strapped usart_break_seen usb_asks reads_frame)
  moreover have "image_delay B s1 = image_delay B s" by (rule image_delay_cong) (rule p(2))
  ultimately show ?thesis using check_boot_delay_asked(1) [OF d] p(1) by (auto split: option.splits)
qed

theorem boot_decision_witness:
  "\<exists>p s'. boot_plan demo_boot_board (demo_boot demo_image [] BOOT_RTC_SIGNATURE) = Some (p, s') \<and> p = (False, 0)"
proof -
  let ?s = "demo_boot demo_image [] BOOT_RTC_SIGNATURE"
  obtain t n s' where p: "boot_plan demo_boot_board ?s = Some ((t, n), s')"
    by (simp add: boot_plan_def rtc_request_def check_boot_delay_def sense_inputs_def split_beta demo_boot_board_def demo_board_def Let_def)
  have "image_delay demo_boot_board ?s = None" "rtc ?s = BOOT_RTC_SIGNATURE"
    by (simp_all add: image_delay_def demo_boot_board_def demo_board_def demo_boot_def)
  then show ?thesis using boot_decision [OF p] p by simp
qed





text \<open>
  A request in the real-time clock register is honoured: unless the image asks for a delay, the
  bootloader then starts nothing before a host has given a boot command in a session that began
  without a time-out.
\<close>

theorem request_waits_for_host:
  assumes "rtc s = BOOT_RTC_SIGNATURE" and "POWER_DOWN_SIGNATURE B \<noteq> Some BOOT_RTC_SIGNATURE" and "image_delay B s = None"
    and "bootloader_main B s = Some e"
  shows "\<exists>p s1 tr b b'. boot_plan B s = Some (p, s1) \<and> bl_run (serial_now B s1) (bl_enter (serial_now B s1) 0 (bls s1)) tr b \<and>
    bl_turn (serial_now B s1) b = Some (PROTO_BOOT, Leave b')"
proof -
  obtain p s1 where p: "boot_plan B s = Some (p, s1)"
    using assms(1,2,4) by (auto simp: bootloader_main_def board_get_rtc_signature_def bind_eq_Some_conv split: if_splits)
  have "p = (False, 0)" by (rule plan_on_request [OF p assms(1,3)])
  then have "boot_loop B 0 (start_interfaces B s1) = Some e"
    using assms(1,2,4) p by (simp add: bootloader_main_def board_get_rtc_signature_def)
  then obtain b' where "bootloader (serial_now B s1) 0 (bls s1) = Some b'"
    by (subst (asm) boot_loop.simps) (auto simp: frame_simps split: option.splits)
  moreover have "bl_timeout (bl_enter (serial_now B s1) 0 (bls s1)) = 0" by (simp add: bl_enter_def Let_def bl_emit_def led_set_def)
  ultimately show ?thesis using bl_loop_leaves p unfolding bootloader_def by blast
qed

theorem request_waits_for_host_witness:
  "\<exists>p s1 tr b b'. boot_plan demo_usb_board demo_forced = Some (p, s1) \<and>
     bl_run (serial_now demo_usb_board s1) (bl_enter (serial_now demo_usb_board s1) 0 (bls s1)) tr b \<and>
     bl_turn (serial_now demo_usb_board s1) b = Some (PROTO_BOOT, Leave b')"
proof -
  have "rtc demo_forced = BOOT_RTC_SIGNATURE" "POWER_DOWN_SIGNATURE demo_usb_board \<noteq> Some BOOT_RTC_SIGNATURE"
    "image_delay demo_usb_board demo_forced = None"
    by (simp_all add: demo_forced_def demo_boot_def demo_usb_board_def demo_boot_board_def image_delay_def demo_board_def)
  then show ?thesis using request_waits_for_host demo_forced_main by blast
qed



end
