(* ===== verification/Stm32f4_Flash.thy ===== *)
theory Stm32f4_Flash
  imports Px4_Prelude
begin

text \<open>
  The flash driver of the STM32F4 (\<open>arch/arm/src/stm32/stm32f20xxf40xx_flash.c\<close> of NuttX), which the
  parameter storage uses: pages of different sizes, erase of a page and programming by half-words.

  The flash array is hardware: its state is the type \<open>'d\<close> and its behaviour the record
  \<open>f4_dev\<close>.  The waits for the controller to get ready are part of its operations, and the
  semaphore, which every path gives back, is left out.  Addresses are natural numbers; the sums of
  the code stay below the end of the flash.
\<close>

section \<open>The driver\<close>

text \<open>
  Reading a byte, programming a half-word (with the error flag that the driver tests) and erasing a
  page; the sizes of the pages.
\<close>

record 'd f4_dev =
  f4_read :: "'d \<Rightarrow> nat \<Rightarrow> u8"
  f4_prog16 :: "nat \<Rightarrow> u8 \<times> u8 \<Rightarrow> 'd \<Rightarrow> bool \<times> 'd"
  f4_erase :: "nat \<Rightarrow> 'd \<Rightarrow> 'd"
  FLASH_SIZES :: "nat list"

definition STM32_FLASH_BASE :: nat where "STM32_FLASH_BASE = 0x08000000"

definition STM32_FLASH_NPAGES :: "'d f4_dev \<Rightarrow> nat" where "STM32_FLASH_NPAGES D = length (FLASH_SIZES D)"

definition STM32_FLASH_SIZE :: "'d f4_dev \<Rightarrow> nat" where "STM32_FLASH_SIZE D = sum_list (FLASH_SIZES D)"

abbreviation F4_EIO :: int where "F4_EIO \<equiv> 5"
abbreviation F4_EFAULT :: int where "F4_EFAULT \<equiv> 14"
abbreviation F4_EINVAL :: int where "F4_EINVAL \<equiv> 22"
abbreviation F4_EROFS :: int where "F4_EROFS \<equiv> 30"

definition up_progmem_pagesize_f4 :: "'d f4_dev \<Rightarrow> nat \<Rightarrow> nat" where
  "up_progmem_pagesize_f4 D page = (if page \<ge> STM32_FLASH_NPAGES D then 0 else FLASH_SIZES D ! page)"

fun page_loop :: "'d f4_dev \<Rightarrow> nat list \<Rightarrow> nat \<Rightarrow> nat \<Rightarrow> int" where
  "page_loop D [] page_end addr = - F4_EFAULT"
| "page_loop D (i # is) page_end addr =
     (let page_end = page_end + up_progmem_pagesize_f4 D i in if page_end > addr then int i else page_loop D is page_end addr)"

definition flash_offset :: "nat \<Rightarrow> nat" where
  "flash_offset addr = (if addr \<ge> STM32_FLASH_BASE then addr - STM32_FLASH_BASE else addr)"

definition up_progmem_getpage_f4 :: "'d f4_dev \<Rightarrow> nat \<Rightarrow> int" where
  "up_progmem_getpage_f4 D addr =
     (let addr = flash_offset addr in
      if addr \<ge> STM32_FLASH_SIZE D then - F4_EFAULT else page_loop D [0..<STM32_FLASH_NPAGES D] 0 addr)"

definition up_progmem_getaddress_f4 :: "'d f4_dev \<Rightarrow> nat \<Rightarrow> nat" where
  "up_progmem_getaddress_f4 D page =
     (if page \<ge> STM32_FLASH_NPAGES D then 2 ^ 32 - 1
      else fold (\<lambda>i base. base + up_progmem_pagesize_f4 D i) [0..<page] STM32_FLASH_BASE)"

definition up_progmem_ispageerased_f4 :: "'d f4_dev \<Rightarrow> nat \<Rightarrow> 'd \<Rightarrow> int" where
  "up_progmem_ispageerased_f4 D page d =
     (if page \<ge> STM32_FLASH_NPAGES D then - F4_EFAULT
      else int (length (filter (\<lambda>i. f4_read D d (up_progmem_getaddress_f4 D page + i) \<noteq> 0xff) [0..<up_progmem_pagesize_f4 D page])))"

definition up_progmem_eraseblock_f4 :: "'d f4_dev \<Rightarrow> nat \<Rightarrow> 'd \<Rightarrow> int \<times> 'd" where
  "up_progmem_eraseblock_f4 D block d =
     (if block \<ge> STM32_FLASH_NPAGES D then (- F4_EFAULT, d)
      else let d = f4_erase D block d in
        (if up_progmem_ispageerased_f4 D block d = 0 then int (up_progmem_pagesize_f4 D block) else - F4_EIO, d))"

text \<open>The loop over the half-words: the error to return, if any.\<close>

fun program_hwords :: "'d f4_dev \<Rightarrow> nat \<Rightarrow> u8 list \<Rightarrow> 'd \<Rightarrow> int option \<times> 'd" where
  "program_hwords D addr (lo # hi # bs) d =
     (let (err, d) = f4_prog16 D addr (lo, hi) d in
      if err then (Some (- F4_EROFS), d)
      else if (f4_read D d addr, f4_read D d (addr + 1)) \<noteq> (lo, hi) then (Some (- F4_EIO), d)
      else program_hwords D (addr + 2) bs d)"
| "program_hwords D addr _ d = (None, d)"

definition up_progmem_write_f4 :: "'d f4_dev \<Rightarrow> nat \<Rightarrow> u8 list \<Rightarrow> 'd \<Rightarrow> int \<times> 'd" where
  "up_progmem_write_f4 D addr buf d =
     (if odd (length buf) then (- F4_EINVAL, d)
      else if flash_offset addr + length buf > STM32_FLASH_SIZE D then (- F4_EFAULT, d)
      else case program_hwords D (flash_offset addr + STM32_FLASH_BASE) buf d of
        (Some e, d) \<Rightarrow> (e, d)
      | (None, d) \<Rightarrow> (int (length buf), d))"

section \<open>The flash array\<close>

text \<open>
  What the data sheet promises: programming can clear bits, and a half-word that only clears bits is
  stored without an error; no other address changes; an erased page reads as ones.
\<close>

definition clears :: "u8 \<Rightarrow> u8 \<Rightarrow> bool" where
  "clears old new \<longleftrightarrow> old AND new = new"

definition in_page :: "'d f4_dev \<Rightarrow> nat \<Rightarrow> nat \<Rightarrow> bool" where
  "in_page D p x \<longleftrightarrow> up_progmem_getaddress_f4 D p \<le> x \<and> x < up_progmem_getaddress_f4 D p + up_progmem_pagesize_f4 D p"

definition f4_ok :: "'d f4_dev \<Rightarrow> bool" where
  "f4_ok D \<longleftrightarrow>
     (\<forall>a lo hi d. a mod 2 = 0 \<longrightarrow> clears (f4_read D d a) lo \<longrightarrow> clears (f4_read D d (a + 1)) hi \<longrightarrow>
        \<not> fst (f4_prog16 D a (lo, hi) d) \<and>
        f4_read D (snd (f4_prog16 D a (lo, hi) d)) = (f4_read D d)(a := lo, a + 1 := hi)) \<and>
     (\<forall>a v d x. x \<noteq> a \<longrightarrow> x \<noteq> a + 1 \<longrightarrow> f4_read D (snd (f4_prog16 D a v d)) x = f4_read D d x) \<and>
     (\<forall>p d x. p < STM32_FLASH_NPAGES D \<longrightarrow> f4_read D (f4_erase D p d) x = (if in_page D p x then 0xff else f4_read D d x))"

text \<open>Bytes, half-words and words in memory, in little-endian order.\<close>

definition bytes_of_u16 :: "u16 \<Rightarrow> u8 list" where
  "bytes_of_u16 w = [ucast w, ucast (drop_bit 8 w)]"

definition u16_of_bytes :: "u8 list \<Rightarrow> u16" where
  "u16_of_bytes bs = ucast (bs ! 0) OR push_bit 8 (ucast (bs ! 1))"

definition mem_list :: "(nat \<Rightarrow> u8) \<Rightarrow> nat \<Rightarrow> nat \<Rightarrow> u8 list" where
  "mem_list m a n = map (\<lambda>i. m (a + i)) [0..<n]"

definition w32 :: "(nat \<Rightarrow> u8) \<Rightarrow> nat \<Rightarrow> u32" where "w32 m a = u32_of_bytes (mem_list m a 4)"
definition w16 :: "(nat \<Rightarrow> u8) \<Rightarrow> nat \<Rightarrow> u16" where "w16 m a = u16_of_bytes (mem_list m a 2)"

text \<open>A range of memory holds the given bytes.\<close>

primrec holds :: "(nat \<Rightarrow> u8) \<Rightarrow> nat \<Rightarrow> u8 list \<Rightarrow> bool" where
  "holds m a [] \<longleftrightarrow> True"
| "holds m a (b # bs) \<longleftrightarrow> m a = b \<and> holds m (a + 1) bs"

lemma holds_append: "holds m a (xs @ ys) \<longleftrightarrow> holds m a xs \<and> holds m (a + length xs) ys"
  by (induction xs arbitrary: a) auto

lemma holds_nth: "holds m a bs \<longleftrightarrow> (\<forall>i < length bs. m (a + i) = bs ! i)"
proof (induction bs arbitrary: a)
  case (Cons b bs)
  have "(\<forall>i < length (b # bs). m (a + i) = (b # bs) ! i) \<longleftrightarrow> m a = b \<and> (\<forall>i < length bs. m (a + 1 + i) = bs ! i)"
    by (auto simp: nth_Cons less_Suc_eq_0_disj)
  then show ?case using Cons [of "a + 1"] by simp
qed simp

lemma holds_cong:
  assumes "\<And>x. a \<le> x \<Longrightarrow> x < a + length bs \<Longrightarrow> m x = m' x"
  shows "holds m a bs = holds m' a bs"
  using assms by (simp add: holds_nth)

lemma holds_map: "holds m a bs \<longleftrightarrow> map (\<lambda>i. m (a + i)) [0..<length bs] = bs"
proof -
  have "map (\<lambda>i. m (a + i)) [0..<length bs] = bs \<longleftrightarrow> (\<forall>i < length bs. m (a + i) = bs ! i)"
    by (subst list_eq_iff_nth_eq) simp
  then show ?thesis by (simp add: holds_nth)
qed

lemma u16_of_bytes_of_u16 [simp]: "u16_of_bytes (bytes_of_u16 w) = w"
proof (rule bit_word_eqI)
  fix n assume "n < LENGTH(16)"
  then have n: "n < 16" by simp
  then show "bit (u16_of_bytes (bytes_of_u16 w)) n = bit w n"
    by (cases "n < 8") (auto simp: u16_of_bytes_def bytes_of_u16_def bit_simps)
qed

lemma length_bytes_of_u16 [simp]: "length (bytes_of_u16 w) = 2"
  by (simp add: bytes_of_u16_def)

lemma mem_list_holds: "holds m a bs \<Longrightarrow> mem_list m a (length bs) = bs"
  by (simp add: mem_list_def holds_map)

lemma w32_holds: "holds m a (bytes_of_u32 w) \<Longrightarrow> w32 m a = w"
  using mem_list_holds [of m a "bytes_of_u32 w"] by (simp add: w32_def)

lemma w16_holds: "holds m a (bytes_of_u16 w) \<Longrightarrow> w16 m a = w"
  using mem_list_holds [of m a "bytes_of_u16 w"] by (simp add: w16_def)

section \<open>What the driver does\<close>

lemma program_hwords_ok:
  assumes "f4_ok D"
  shows "a mod 2 = 0 \<Longrightarrow> even (length bs) \<Longrightarrow> (\<forall>i < length bs. clears (f4_read D d (a + i)) (bs ! i)) \<Longrightarrow>
    \<exists>d'. program_hwords D a bs d = (None, d') \<and> holds (f4_read D d') a bs \<and>
      (\<forall>x. \<not> (a \<le> x \<and> x < a + length bs) \<longrightarrow> f4_read D d' x = f4_read D d x)"
proof (induction bs arbitrary: a d rule: induct_list012)
  case (3 lo hi bs)
  define d1 where "d1 = snd (f4_prog16 D a (lo, hi) d)"
  have c: "clears (f4_read D d a) lo" "clears (f4_read D d (a + 1)) hi"
    using "3.prems"(3) [rule_format, of 0] "3.prems"(3) [rule_format, of 1] by simp_all
  have p: "f4_prog16 D a (lo, hi) d = (False, d1)" "f4_read D d1 = (f4_read D d)(a := lo, a + 1 := hi)"
    using assms "3.prems"(1) c by (auto simp: f4_ok_def d1_def prod_eq_iff)
  have r: "f4_read D d1 a = lo" "f4_read D d1 (a + 1) = hi" using p(2) by simp_all
  have "clears (f4_read D d1 (a + 2 + i)) (bs ! i)" if "i < length bs" for i
    using "3.prems"(3) [rule_format, of "Suc (Suc i)"] that p(2) by simp
  then obtain d' where d': "program_hwords D (a + 2) bs d1 = (None, d')" "holds (f4_read D d') (a + 2) bs"
    "\<And>x. \<not> (a + 2 \<le> x \<and> x < a + 2 + length bs) \<Longrightarrow> f4_read D d' x = f4_read D d1 x"
    using "3.IH"(1) [of "a + 2" d1] "3.prems"(1,2) by auto
  have "program_hwords D a (lo # hi # bs) d = (None, d')" using p(1) r d'(1) by (simp add: Let_def)
  moreover have "holds (f4_read D d') a (lo # hi # bs)" using d'(2) d'(3) [of a] d'(3) [of "a + 1"] r by (simp add: numeral_2_eq_2)
  moreover have "f4_read D d' x = f4_read D d x" if "\<not> (a \<le> x \<and> x < a + length (lo # hi # bs))" for x
    using d'(3) [of x] p(2) that by auto
  ultimately show ?case by blast
qed auto

lemma write_ok:
  assumes "f4_ok D" and "a mod 2 = 0" and "even (length bs)" and "STM32_FLASH_BASE \<le> a"
    and "a + length bs \<le> STM32_FLASH_BASE + STM32_FLASH_SIZE D" and "\<forall>i < length bs. clears (f4_read D d (a + i)) (bs ! i)"
  obtains d' where "up_progmem_write_f4 D a bs d = (int (length bs), d')" and "holds (f4_read D d') a bs"
    and "\<And>x. \<not> (a \<le> x \<and> x < a + length bs) \<Longrightarrow> f4_read D d' x = f4_read D d x"
proof -
  obtain d' where "program_hwords D a bs d = (None, d')" "holds (f4_read D d') a bs"
      "\<forall>x. \<not> (a \<le> x \<and> x < a + length bs) \<longrightarrow> f4_read D d' x = f4_read D d x"
    using program_hwords_ok [OF assms(1-3,6)] by blast
  then show thesis using that [of d'] assms(3-5) by (auto simp: up_progmem_write_f4_def flash_offset_def)
qed

section \<open>Pages\<close>

lemma getaddress_sum:
  "p < STM32_FLASH_NPAGES D \<Longrightarrow> up_progmem_getaddress_f4 D p = STM32_FLASH_BASE + sum_list (take p (FLASH_SIZES D))"
proof -
  assume p: "p < STM32_FLASH_NPAGES D"
  have "fold (\<lambda>i base. base + up_progmem_pagesize_f4 D i) [0..<k] b = b + sum_list (take k (FLASH_SIZES D))"
    if "k \<le> length (FLASH_SIZES D)" for k b
    using that by (induction k) (simp_all add: take_Suc_conv_app_nth up_progmem_pagesize_f4_def STM32_FLASH_NPAGES_def)
  then show ?thesis using p by (simp add: up_progmem_getaddress_f4_def STM32_FLASH_NPAGES_def)
qed

lemma sum_take_mono: "i \<le> j \<Longrightarrow> sum_list (take i xs) \<le> sum_list (take j (xs :: nat list))"
proof -
  assume "i \<le> j"
  then have "take j xs = take i xs @ take (j - i) (drop i xs)" by (metis take_add le_add_diff_inverse)
  then show ?thesis by simp
qed

lemma page_end_sum: "p < length xs \<Longrightarrow> sum_list (take p xs) + xs ! p = sum_list (take (Suc p) (xs :: nat list))"
  by (simp add: take_Suc_conv_app_nth)

lemma page_bounds:
  assumes "p < STM32_FLASH_NPAGES D"
  shows "STM32_FLASH_BASE \<le> up_progmem_getaddress_f4 D p"
    "up_progmem_getaddress_f4 D p + up_progmem_pagesize_f4 D p \<le> STM32_FLASH_BASE + STM32_FLASH_SIZE D"
proof -
  have "sum_list (take (Suc p) (FLASH_SIZES D)) \<le> STM32_FLASH_SIZE D"
    using sum_take_mono [of "Suc p" "length (FLASH_SIZES D)" "FLASH_SIZES D"] assms
    by (simp add: STM32_FLASH_SIZE_def STM32_FLASH_NPAGES_def)
  then show "STM32_FLASH_BASE \<le> up_progmem_getaddress_f4 D p"
    "up_progmem_getaddress_f4 D p + up_progmem_pagesize_f4 D p \<le> STM32_FLASH_BASE + STM32_FLASH_SIZE D"
    using getaddress_sum [OF assms] page_end_sum [of p "FLASH_SIZES D"] assms
    by (simp_all add: up_progmem_pagesize_f4_def STM32_FLASH_NPAGES_def)
qed

lemma pages_disjoint:
  assumes "p < STM32_FLASH_NPAGES D" and "q < STM32_FLASH_NPAGES D" and "in_page D p x" and "in_page D q x"
  shows "p = q"
proof -
  have e: "up_progmem_getaddress_f4 D i + up_progmem_pagesize_f4 D i \<le> up_progmem_getaddress_f4 D j"
    if "i < j" "j < STM32_FLASH_NPAGES D" for i j
    using getaddress_sum [of i D] getaddress_sum [of j D] page_end_sum [of i "FLASH_SIZES D"]
      sum_take_mono [of "Suc i" j "FLASH_SIZES D"] that
    by (simp add: up_progmem_pagesize_f4_def STM32_FLASH_NPAGES_def)
  show ?thesis
    using e [of p q] e [of q p] assms by (cases p q rule: linorder_cases) (auto simp: in_page_def)
qed

lemma page_loop_finds:
  assumes "p < STM32_FLASH_NPAGES D" and "sum_list (take p (FLASH_SIZES D)) \<le> addr" and "addr < sum_list (take (Suc p) (FLASH_SIZES D))"
  shows "k \<le> p \<Longrightarrow> page_loop D [k..<STM32_FLASH_NPAGES D] (sum_list (take k (FLASH_SIZES D))) addr = int p"
proof (induction "p - k" arbitrary: k)
  case 0
  then have k: "k = p" by simp
  then show ?case using assms page_end_sum [of p "FLASH_SIZES D"]
    by (simp add: upt_conv_Cons up_progmem_pagesize_f4_def STM32_FLASH_NPAGES_def Let_def)
next
  case (Suc n)
  then have k: "k < p" by simp
  have e: "sum_list (take k (FLASH_SIZES D)) + up_progmem_pagesize_f4 D k = sum_list (take (Suc k) (FLASH_SIZES D))"
    using page_end_sum [of k "FLASH_SIZES D"] k assms(1) by (simp add: up_progmem_pagesize_f4_def STM32_FLASH_NPAGES_def)
  have "sum_list (take (Suc k) (FLASH_SIZES D)) \<le> addr" using sum_take_mono [of "Suc k" p "FLASH_SIZES D"] k assms(2) by simp
  then show ?case using Suc(1) [of "Suc k"] Suc(2) k assms(1) e by (simp add: upt_conv_Cons Let_def)
qed

lemma getpage_getaddress:
  assumes "p < STM32_FLASH_NPAGES D" and "up_progmem_pagesize_f4 D p > 0"
  shows "up_progmem_getpage_f4 D (up_progmem_getaddress_f4 D p) = int p"
proof -
  let ?o = "sum_list (take p (FLASH_SIZES D))"
  have o: "flash_offset (up_progmem_getaddress_f4 D p) = ?o" using getaddress_sum [OF assms(1)] by (simp add: flash_offset_def)
  have l: "?o < sum_list (take (Suc p) (FLASH_SIZES D))"
    using page_end_sum [of p "FLASH_SIZES D"] assms by (simp add: up_progmem_pagesize_f4_def STM32_FLASH_NPAGES_def split: if_splits)
  have "?o < STM32_FLASH_SIZE D" using page_bounds(2) [OF assms(1)] assms(2) getaddress_sum [OF assms(1)] by simp
  then show ?thesis using o page_loop_finds [OF assms(1) order_refl l, of 0] by (simp add: up_progmem_getpage_f4_def Let_def)
qed

lemma erase_ok:
  assumes "f4_ok D" and "p < STM32_FLASH_NPAGES D"
  obtains d' where "up_progmem_eraseblock_f4 D p d = (int (up_progmem_pagesize_f4 D p), d')"
    and "\<And>x. f4_read D d' x = (if in_page D p x then 0xff else f4_read D d x)"
proof -
  have r: "f4_read D (f4_erase D p d) x = (if in_page D p x then 0xff else f4_read D d x)" for x
    using assms by (simp add: f4_ok_def)
  have "filter (\<lambda>i. f4_read D (f4_erase D p d) (up_progmem_getaddress_f4 D p + i) \<noteq> 0xff) [0..<up_progmem_pagesize_f4 D p] = []"
    by (simp add: r filter_empty_conv in_page_def)
  then have "up_progmem_ispageerased_f4 D p (f4_erase D p d) = 0" using assms(2) by (simp add: up_progmem_ispageerased_f4_def)
  then have "up_progmem_eraseblock_f4 D p d = (int (up_progmem_pagesize_f4 D p), f4_erase D p d)"
    using assms(2) by (simp add: up_progmem_eraseblock_f4_def Let_def)
  then show thesis using that r by blast
qed

section \<open>What any write leaves alone\<close>

text \<open>A write, with or without an error, stays in its range; a write that succeeds has stored its bytes.\<close>

lemma program_hwords_frame:
  assumes "f4_ok D"
  shows "\<not> (a \<le> x \<and> x < a + length bs) \<Longrightarrow> f4_read D (snd (program_hwords D a bs d)) x = f4_read D d x"
proof (induction bs arbitrary: a d rule: induct_list012)
  case (3 lo hi bs)
  obtain err d1 where p: "f4_prog16 D a (lo, hi) d = (err, d1)" by fastforce
  have "f4_read D (snd (f4_prog16 D a (lo, hi) d)) x = f4_read D d x"
    using assms "3.prems" by (auto simp: f4_ok_def)
  then have s: "f4_read D d1 x = f4_read D d x" by (simp add: p)
  have "f4_read D (snd (program_hwords D (a + 2) bs d1)) x = f4_read D d1 x"
    by (rule "3.IH"(1)) (use "3.prems" in auto)
  then show ?case using s by (simp add: p)
qed simp_all

lemma program_hwords_holds:
  assumes "f4_ok D"
  shows "even (length bs) \<Longrightarrow> program_hwords D a bs d = (None, d') \<Longrightarrow> holds (f4_read D d') a bs"
proof (induction bs arbitrary: a d rule: induct_list012)
  case (3 lo hi bs)
  obtain err d1 where p: "f4_prog16 D a (lo, hi) d = (err, d1)" by fastforce
  have r: "f4_read D d1 a = lo" "f4_read D d1 (a + 1) = hi" and k: "program_hwords D (a + 2) bs d1 = (None, d')"
    using "3.prems"(2) by (auto simp: p Let_def split: if_splits)
  have "f4_read D d' x = f4_read D d1 x" if "x < a + 2" for x
    using program_hwords_frame [OF assms, of "a + 2" x bs d1] that k by simp
  moreover have "even (length bs)" using "3.prems"(1) by simp
  ultimately show ?case using "3.IH"(1) [OF _ k] r by (simp add: numeral_2_eq_2)
qed simp_all

text \<open>An erased word that is written with ones stays erased, whatever comes behind it.\<close>

lemma program_hwords_blank:
  assumes "f4_ok D" and "a mod 2 = 0" and "holds (f4_read D d) a (replicate 4 0xff)" and "\<forall>i < min 4 (length bs). bs ! i = 0xff"
  shows "holds (f4_read D (snd (program_hwords D a bs d))) a (replicate 4 0xff)"
proof -
  have step: "\<not> fst (f4_prog16 D c (0xff, 0xff) e) \<and> f4_read D (snd (f4_prog16 D c (0xff, 0xff) e)) = f4_read D e"
    if "c mod 2 = 0" "f4_read D e c = 0xff" "f4_read D e (c + 1) = 0xff" for c e
  proof -
    have "clears (f4_read D e c) 0xff" "clears (f4_read D e (c + 1)) 0xff" using that by (simp_all add: clears_def)
    then have "\<not> fst (f4_prog16 D c (0xff, 0xff) e)"
      "f4_read D (snd (f4_prog16 D c (0xff, 0xff) e)) = (f4_read D e)(c := 0xff, c + 1 := 0xff)"
      using assms(1) that(1) by (auto simp: f4_ok_def)
    then show ?thesis using that by (auto simp: fun_eq_iff)
  qed
  have m: "f4_read D d a = 0xff" "f4_read D d (a + 1) = 0xff" "f4_read D d (a + 2) = 0xff" "f4_read D d (a + 3) = 0xff"
    using assms(3) by (simp_all add: numeral_eq_Suc)
  consider "length bs < 2" | x y rest where "bs = x # y # rest" by (cases bs rule: remdups_adj.cases) auto
  then show ?thesis
  proof cases
    case 1
    then have "program_hwords D a bs d = (None, d)" by (cases bs rule: remdups_adj.cases) auto
    then show ?thesis using assms(3) by simp
  next
    case 2
    have xy: "x = 0xff" "y = 0xff" using assms(4) [rule_format, of 0] assms(4) [rule_format, of 1] 2 by simp_all
    obtain d1 where d1: "f4_prog16 D a (0xff, 0xff) d = (False, d1)" "f4_read D d1 = f4_read D d"
      using step [OF assms(2) m(1,2)] by (cases "f4_prog16 D a (0xff, 0xff) d") auto
    have e: "program_hwords D a bs d = program_hwords D (a + 2) rest d1" using 2 xy d1 m by simp
    consider "length rest < 2" | u v more where "rest = u # v # more" by (cases rest rule: remdups_adj.cases) auto
    then show ?thesis
    proof cases
      case 1
      then have "program_hwords D (a + 2) rest d1 = (None, d1)" by (cases rest rule: remdups_adj.cases) auto
      then show ?thesis using assms(3) e d1(2) by simp
    next
      case uv: 2
      have "u = 0xff" "v = 0xff" using assms(4) [rule_format, of 2] assms(4) [rule_format, of 3] 2 uv by (simp_all add: numeral_eq_Suc)
      moreover have e2: "(a + 2) mod 2 = 0" using assms(2) by simp
      moreover obtain d2 where d2: "f4_prog16 D (a + 2) (0xff, 0xff) d1 = (False, d2)" "f4_read D d2 = f4_read D d1"
        using step [OF e2, of d1] m d1(2) by (cases "f4_prog16 D (a + 2) (0xff, 0xff) d1") (auto simp: numeral_eq_Suc)
      ultimately have "program_hwords D (a + 2) rest d1 = program_hwords D (a + 4) more d2" using uv m d1 by (simp add: numeral_eq_Suc)
      moreover have "f4_read D (snd (program_hwords D (a + 4) more d2)) z = f4_read D d z" if "z < a + 4" for z
        using program_hwords_frame [OF assms(1), of "a + 4" z more d2] that d1(2) d2(2) by simp
      ultimately show ?thesis using e m by (simp add: numeral_eq_Suc)
    qed
  qed
qed

lemma write_frame:
  assumes "f4_ok D" and "STM32_FLASH_BASE \<le> a" and "\<not> (a \<le> x \<and> x < a + length bs)"
  shows "f4_read D (snd (up_progmem_write_f4 D a bs d)) x = f4_read D d x"
  using program_hwords_frame [OF assms(1,3), of d] assms(2)
  by (auto simp: up_progmem_write_f4_def flash_offset_def split: prod.splits option.splits)

lemma write_holds:
  assumes "f4_ok D" and "STM32_FLASH_BASE \<le> a" and "up_progmem_write_f4 D a bs d = (int (length bs), d')"
  shows "holds (f4_read D d') a bs"
proof -
  have neg: "e < 0" if "program_hwords D c bs d = (Some e, d2)" for c d2 e
    using that by (induction D c bs d rule: program_hwords.induct) (auto simp: Let_def split: if_splits prod.splits)
  obtain r d2 where p: "program_hwords D a bs d = (r, d2)" by fastforce
  then have "even (length bs) \<and> r = None \<and> d2 = d'"
    using assms(2,3) neg [of a] by (auto simp: up_progmem_write_f4_def flash_offset_def split: if_splits option.splits)
  then show ?thesis using program_hwords_holds [OF assms(1)] p by blast
qed

lemma write_blank:
  assumes "f4_ok D" and "STM32_FLASH_BASE \<le> a" and "a mod 2 = 0" and "holds (f4_read D d) a (replicate 4 0xff)"
    and "\<forall>i < min 4 (length bs). bs ! i = 0xff"
  shows "holds (f4_read D (snd (up_progmem_write_f4 D a bs d))) a (replicate 4 0xff)"
  using program_hwords_blank [OF assms(1,3,4,5)] assms(2,4)
  by (auto simp: up_progmem_write_f4_def flash_offset_def split: prod.splits option.splits)

section \<open>The page of an address\<close>

lemma page_loop_inside:
  assumes "page_loop D [k..<STM32_FLASH_NPAGES D] (sum_list (take k (FLASH_SIZES D))) addr = int p"
    and "sum_list (take k (FLASH_SIZES D)) \<le> addr"
  shows "k \<le> p \<and> p < STM32_FLASH_NPAGES D \<and> sum_list (take p (FLASH_SIZES D)) \<le> addr \<and> addr < sum_list (take (Suc p) (FLASH_SIZES D))"
  using assms
proof (induction "STM32_FLASH_NPAGES D - k" arbitrary: k)
  case (Suc n)
  then have k: "k < STM32_FLASH_NPAGES D" by simp
  have e: "sum_list (take k (FLASH_SIZES D)) + up_progmem_pagesize_f4 D k = sum_list (take (Suc k) (FLASH_SIZES D))"
    using page_end_sum [of k "FLASH_SIZES D"] k by (simp add: up_progmem_pagesize_f4_def STM32_FLASH_NPAGES_def)
  show ?case
  proof (cases "sum_list (take (Suc k) (FLASH_SIZES D)) > addr")
    case True
    then show ?thesis using Suc.prems k e by (simp add: upt_conv_Cons Let_def)
  next
    case False
    then have "page_loop D [Suc k..<STM32_FLASH_NPAGES D] (sum_list (take (Suc k) (FLASH_SIZES D))) addr = int p"
      using Suc.prems(1) k e by (simp add: upt_conv_Cons Let_def)
    moreover have "n = STM32_FLASH_NPAGES D - Suc k" using Suc.hyps(2) by simp
    ultimately show ?thesis using Suc.hyps(1) [of "Suc k"] False by simp
  qed
qed simp

lemma getpage_in_page:
  assumes "up_progmem_getpage_f4 D a = int p" and "STM32_FLASH_BASE \<le> a"
  shows "p < STM32_FLASH_NPAGES D" "in_page D p a"
proof -
  have "p < STM32_FLASH_NPAGES D \<and> sum_list (take p (FLASH_SIZES D)) \<le> a - STM32_FLASH_BASE \<and>
      a - STM32_FLASH_BASE < sum_list (take (Suc p) (FLASH_SIZES D))"
    using assms page_loop_inside [of D 0 "a - STM32_FLASH_BASE" p]
    by (simp add: up_progmem_getpage_f4_def flash_offset_def Let_def split: if_splits)
  then show "p < STM32_FLASH_NPAGES D" "in_page D p a"
    using getaddress_sum [of p D] page_end_sum [of p "FLASH_SIZES D"] assms(2)
    by (auto simp: in_page_def up_progmem_pagesize_f4_def STM32_FLASH_NPAGES_def)
qed

lemma pages_in_order:
  assumes "p < q" and "q < STM32_FLASH_NPAGES D" and "in_page D p x" and "in_page D q y"
  shows "x < up_progmem_getaddress_f4 D q" "x < y"
proof -
  have "up_progmem_getaddress_f4 D p + up_progmem_pagesize_f4 D p \<le> up_progmem_getaddress_f4 D q"
    using getaddress_sum [of p D] getaddress_sum [of q D] page_end_sum [of p "FLASH_SIZES D"]
      sum_take_mono [of "Suc p" q "FLASH_SIZES D"] assms(1,2)
    by (simp add: up_progmem_pagesize_f4_def STM32_FLASH_NPAGES_def)
  then show "x < up_progmem_getaddress_f4 D q" "x < y" using assms(3,4) by (auto simp: in_page_def)
qed

section \<open>An instance\<close>

text \<open>A flash array as the data sheet describes it: a function from addresses to bytes.\<close>

definition ram_f4 :: "nat list \<Rightarrow> (nat \<Rightarrow> u8) f4_dev" where
  "ram_f4 sizes = \<lparr>f4_read = (\<lambda>d. d),
     f4_prog16 = (\<lambda>a (lo, hi) d. (False, d(a := d a AND lo, a + 1 := d (a + 1) AND hi))),
     f4_erase = (\<lambda>p d x. if STM32_FLASH_BASE + sum_list (take p sizes) \<le> x \<and> x < STM32_FLASH_BASE + sum_list (take p sizes) + sizes ! p
        then 0xff else d x),
     FLASH_SIZES = sizes\<rparr>"

lemma ram_f4_sizes [simp]: "STM32_FLASH_NPAGES (ram_f4 sizes) = length sizes" "FLASH_SIZES (ram_f4 sizes) = sizes"
  by (simp_all add: STM32_FLASH_NPAGES_def ram_f4_def)

lemma ram_f4_ok: "f4_ok (ram_f4 sizes)"
proof -
  have "in_page (ram_f4 sizes) p x \<longleftrightarrow> STM32_FLASH_BASE + sum_list (take p sizes) \<le> x \<and> x < STM32_FLASH_BASE + sum_list (take p sizes) + sizes ! p"
    if "p < STM32_FLASH_NPAGES (ram_f4 sizes)" for p x
    using that getaddress_sum [OF that] by (auto simp: in_page_def up_progmem_pagesize_f4_def STM32_FLASH_NPAGES_def ram_f4_def)
  then show ?thesis by (auto simp: f4_ok_def ram_f4_def clears_def fun_eq_iff)
qed

end
