(* ===== verification/Flashfs.thy ===== *)
theory Flashfs
  imports Crc Stm32f4_Flash "HOL-Library.Monad_Syntax"
begin

text \<open>
  The parameter storage in flash (\<open>src/lib/parameters/flashparams/flashfs.c\<close>): files are entries
  with a header and a checksum that are appended to the sectors of a map; an update marks the old entry
  erased and writes a new one behind it, or at the start of the next sector.

  Pointers are natural numbers.  \<open>None\<close> means that a search never ends or that the code uses a null
  pointer.  The caller's buffer is the list of its bytes; the header that the code writes in front of them and the
  padding behind them are part of what is programmed.
\<close>

section \<open>Entries\<close>

record sector_descriptor =
  sd_page :: nat
  sd_size :: nat
  sd_address :: nat

record 'd flashfs =
  fdev :: 'd
  sector_map :: "sector_descriptor list option"
  working_buffer :: "u8 list option"
  working_buffer_size :: u16
  working_buffer_static :: bool
  last_erased :: int

definition MagicSig :: u32 where "MagicSig = 0xaa553cc3"
definition BlankSig :: u32 where "BlankSig = 0xffffffff"
definition SizeMask :: u16 where "SizeMask = 0x0003"
definition MaskEntry :: u16 where "MaskEntry = NOT SizeMask"
definition BlankEntry :: u16 where "BlankEntry = 0xffff"
definition ValidEntry :: u16 where "ValidEntry = 0xa5ac AND NOT SizeMask"
definition ErasedEntry :: u16 where "ErasedEntry = 0"
definition parameters_token :: u32 where "parameters_token = 0x6d726170"

abbreviation ENOENT :: int where "ENOENT \<equiv> 2"
abbreviation ENXIO :: int where "ENXIO \<equiv> 6"
abbreviation ENOMEM :: int where "ENOMEM \<equiv> 12"
abbreviation ENOSPC :: int where "ENOSPC \<equiv> 28"

text \<open>The fields of the packed header at a pointer: 4, 2, 4, 2 and 4 bytes.\<close>

abbreviation HEADER :: nat where "HEADER \<equiv> 16"

definition fe_magic :: "(nat \<Rightarrow> u8) \<Rightarrow> nat \<Rightarrow> u32" where "fe_magic m pf = w32 m pf"
definition fe_flag :: "(nat \<Rightarrow> u8) \<Rightarrow> nat \<Rightarrow> u16" where "fe_flag m pf = w16 m (pf + 4)"
definition fe_crc :: "(nat \<Rightarrow> u8) \<Rightarrow> nat \<Rightarrow> u32" where "fe_crc m pf = w32 m (pf + 6)"
definition fe_size :: "(nat \<Rightarrow> u8) \<Rightarrow> nat \<Rightarrow> u16" where "fe_size m pf = w16 m (pf + 10)"
definition fe_token :: "(nat \<Rightarrow> u8) \<Rightarrow> nat \<Rightarrow> u32" where "fe_token m pf = w32 m (pf + 12)"

definition blank_flash :: "(nat \<Rightarrow> u8) \<Rightarrow> nat \<Rightarrow> bool" where "blank_flash m pf \<longleftrightarrow> w32 m pf = BlankSig"

definition blank_check :: "(nat \<Rightarrow> u8) \<Rightarrow> nat \<Rightarrow> nat \<Rightarrow> bool" where
  "blank_check m pf new_size \<longleftrightarrow> (\<forall>i \<in> set [0..<new_size div 4]. blank_flash m (pf + 4 * i))"

definition valid_magic :: "(nat \<Rightarrow> u8) \<Rightarrow> nat \<Rightarrow> bool" where "valid_magic m pm \<longleftrightarrow> w32 m pm = MagicSig"
definition blank_magic :: "(nat \<Rightarrow> u8) \<Rightarrow> nat \<Rightarrow> bool" where "blank_magic m pm \<longleftrightarrow> w32 m pm = BlankSig"
definition erased_entry :: "(nat \<Rightarrow> u8) \<Rightarrow> nat \<Rightarrow> bool" where "erased_entry m fi \<longleftrightarrow> fe_flag m fi AND MaskEntry = ErasedEntry"
definition blank_entry :: "(nat \<Rightarrow> u8) \<Rightarrow> nat \<Rightarrow> bool" where
  "blank_entry m fi \<longleftrightarrow> fe_magic m fi = BlankSig \<and> fe_flag m fi = BlankEntry"
definition valid_entry :: "(nat \<Rightarrow> u8) \<Rightarrow> nat \<Rightarrow> bool" where "valid_entry m fi \<longleftrightarrow> fe_flag m fi AND MaskEntry = ValidEntry"
definition entry_size_adjust :: "(nat \<Rightarrow> u8) \<Rightarrow> nat \<Rightarrow> u16" where "entry_size_adjust m fi = fe_flag m fi AND SizeMask"
definition next_entry :: "(nat \<Rightarrow> u8) \<Rightarrow> nat \<Rightarrow> nat" where "next_entry m fi = fi + unat (fe_size m fi)"
definition entry_data :: "nat \<Rightarrow> nat" where "entry_data fi = fi + HEADER"
definition entry_data_length :: "(nat \<Rightarrow> u8) \<Rightarrow> nat \<Rightarrow> u16" where
  "entry_data_length m fi = fe_size m fi - (16 + entry_size_adjust m fi)"
definition entry_crc_start :: "nat \<Rightarrow> nat" where "entry_crc_start fi = fi + 10"
definition entry_crc_length :: "(nat \<Rightarrow> u8) \<Rightarrow> nat \<Rightarrow> u16" where "entry_crc_length m fi = fe_size m fi - 10"

definition crc_good :: "(nat \<Rightarrow> u8) \<Rightarrow> nat \<Rightarrow> bool" where
  "crc_good m pf \<longleftrightarrow> fe_crc m pf = crc32part (mem_list m (entry_crc_start pf) (unat (entry_crc_length m pf))) 0"

section \<open>Searching\<close>

text \<open>
  The search in one sector, whose last word is at \<open>pe\<close>: \<open>Some None\<close> goes on with the next sector.
  After an entry with a wrong checksum the code falls out of the loop body.
\<close>

partial_function (option) find_in_sector :: "(nat \<Rightarrow> u8) \<Rightarrow> u32 \<Rightarrow> nat \<Rightarrow> nat \<Rightarrow> nat option option" where
  "find_in_sector m token pe pmagic =
     (if pmagic = pe then Some None
      else if \<not> valid_magic m pmagic then find_in_sector m token pe (pmagic + 4)
      else if crc_good m pmagic then
        if valid_entry m pmagic \<and> fe_token m pmagic = token then Some (Some pmagic)
        else if blank_entry m (next_entry m pmagic) then Some None
        else find_in_sector m token pe (next_entry m pmagic)
      else Some None)"

definition sector_last :: "sector_descriptor \<Rightarrow> nat" where
  "sector_last s = sd_address s + 4 * (sd_size s div 4) - 4"

fun find_entry :: "(nat \<Rightarrow> u8) \<Rightarrow> u32 \<Rightarrow> sector_descriptor list \<Rightarrow> nat option option" where
  "find_entry m token [] = Some None"
| "find_entry m token (s # ss) =
     do {
       r \<leftarrow> find_in_sector m token (sector_last s) (sd_address s);
       case r of Some pf \<Rightarrow> Some (Some pf) | None \<Rightarrow> find_entry m token ss
     }"

text \<open>The body of the loop moves on behind a good entry, or by a word, and every turn by a word more.\<close>

definition free_step :: "(nat \<Rightarrow> u8) \<Rightarrow> nat \<Rightarrow> nat" where
  "free_step m pmagic =
     (if valid_magic m pmagic then if crc_good m pmagic then next_entry m pmagic else pmagic + 4 else pmagic)"

partial_function (option) free_in_sector :: "(nat \<Rightarrow> u8) \<Rightarrow> u16 \<Rightarrow> nat \<Rightarrow> nat \<Rightarrow> nat option option" where
  "free_in_sector m required pe pmagic =
     (let pmagic = free_step m pmagic in
      if blank_magic m pmagic \<and> blank_entry m pmagic \<and> blank_check m pmagic (unat required) then Some (Some pmagic)
      else if pmagic + 4 = pe then Some None
      else free_in_sector m required pe (pmagic + 4))"

fun find_free :: "(nat \<Rightarrow> u8) \<Rightarrow> u16 \<Rightarrow> sector_descriptor list \<Rightarrow> nat option option" where
  "find_free m required [] = Some None"
| "find_free m required (s # ss) =
     do {
       r \<leftarrow> free_in_sector m required (sector_last s) (sd_address s);
       case r of Some pf \<Rightarrow> Some (Some pf) | None \<Rightarrow> find_free m required ss
     }"

section \<open>Sectors\<close>

text \<open>Sectors are identified by their index in the map.\<close>

definition get_next_sector_descriptor :: "sector_descriptor list \<Rightarrow> nat \<Rightarrow> nat" where
  "get_next_sector_descriptor ss s = (if s + 1 < length ss then s + 1 else 0)"

definition get_sector_info :: "sector_descriptor list \<Rightarrow> nat \<Rightarrow> nat option" where
  "get_sector_info ss current =
     find (\<lambda>s. sd_address (ss ! s) \<le> current \<and> current \<le> sd_address (ss ! s) + sd_size (ss ! s) - 1) [0..<length ss]"

definition erase_sector :: "'d f4_dev \<Rightarrow> sector_descriptor \<Rightarrow> nat \<Rightarrow> 'd flashfs \<Rightarrow> int \<times> 'd flashfs" where
  "erase_sector D sm pf st =
     (let block = up_progmem_getpage_f4 D pf in
      if block > 0 \<and> block = int (sd_page sm) then
        (case up_progmem_eraseblock_f4 D (nat block) (fdev st) of
           (sz, d) \<Rightarrow> (if sz < 0 \<or> sz \<noteq> int (sd_size sm) then sz else 0, st\<lparr>last_erased := int (sd_page sm), fdev := d\<rparr>))
      else (0, st))"

definition erase_entry :: "'d f4_dev \<Rightarrow> nat \<Rightarrow> 'd flashfs \<Rightarrow> int \<times> 'd flashfs" where
  "erase_entry D pf st =
     (case up_progmem_write_f4 D (pf + 4) (bytes_of_u16 ErasedEntry) (fdev st) of (rv, d) \<Rightarrow> (rv, st\<lparr>fdev := d\<rparr>))"

text \<open>The sector to leave, or none if there is room behind the entry.\<close>

definition check_free_space_in_sector :: "(nat \<Rightarrow> u8) \<Rightarrow> sector_descriptor list \<Rightarrow> nat \<Rightarrow> nat \<Rightarrow> nat option option" where
  "check_free_space_in_sector m ss pf new_size =
     do {
       s \<leftarrow> get_sector_info ss pf;
       let psector_first = sd_address (ss ! s);
       let psector_last = psector_first + sd_size (ss ! s) - 1;
       let pnext_end = (if valid_magic m pf then next_entry m pf else pf) + new_size;
       Some (if pnext_end \<ge> psector_first \<and> pnext_end \<le> psector_last then None else Some s)
     }"

section \<open>Operations\<close>

definition fs_mem :: "'d f4_dev \<Rightarrow> 'd flashfs \<Rightarrow> nat \<Rightarrow> u8" where "fs_mem D st = f4_read D (fdev st)"

text \<open>The result and, on success, where the data lie and how many bytes they are.\<close>

definition parameter_flashfs_read :: "'d f4_dev \<Rightarrow> u32 \<Rightarrow> 'd flashfs \<Rightarrow> (int \<times> (nat \<times> nat) option) option" where
  "parameter_flashfs_read D token st =
     (case sector_map st of
        None \<Rightarrow> Some (- ENXIO, None)
      | Some ss \<Rightarrow>
          do {
            r \<leftarrow> find_entry (fs_mem D st) token ss;
            Some (case r of
                None \<Rightarrow> (- ENOENT, None)
              | Some pf \<Rightarrow> let n = unat (entry_data_length (fs_mem D st) pf) in (int n, Some (entry_data pf, n)))
          })"

definition size_adjust :: "nat \<Rightarrow> nat" where
  "size_adjust n = (n + 3) div 4 * 4 - n"

definition total_size :: "nat \<Rightarrow> nat" where
  "total_size buf_size = buf_size + HEADER + size_adjust (buf_size + HEADER)"

text \<open>Where the new entry goes: a pointer, or an error; the old entry and the sector are erased on the way.\<close>

definition place_entry :: "'d f4_dev \<Rightarrow> u32 \<Rightarrow> nat \<Rightarrow> sector_descriptor list \<Rightarrow> 'd flashfs \<Rightarrow> ((int + nat) \<times> 'd flashfs) option" where
  "place_entry D token new_size ss st =
     do {
       e \<leftarrow> find_entry (fs_mem D st) token ss;
       case e of
         None \<Rightarrow>
           do {
             f \<leftarrow> find_free (fs_mem D st) (word_of_nat new_size) ss;
             Some (case f of None \<Rightarrow> (Inl (- ENOSPC), st) | Some pf \<Rightarrow> (Inr pf, st))
           }
       | Some pf \<Rightarrow>
           do {
             c \<leftarrow> check_free_space_in_sector (fs_mem D st) ss pf new_size;
             case c of
               None \<Rightarrow>
                 let (rv, st) = erase_entry D pf st in
                 Some (if rv < 0 then (Inl rv, st) else (Inr (next_entry (fs_mem D st) pf), st))
             | Some s \<Rightarrow>
                 let current = ss ! get_next_sector_descriptor ss s in
                 if sd_size current < new_size then Some (Inl (- ENOSPC), st)
                 else let (rv, st) = erase_entry D pf st in
                   if rv < 0 then Some (Inl rv, st)
                   else let pf = sd_address current in
                     Some (Inr pf, if blank_check (fs_mem D st) pf new_size then st else snd (erase_sector D current pf st))
           }
     }"

text \<open>
  The bytes of an entry: header, data and padding.  The size field has 16 bits, so the checksum covers and the
  driver programs the size modulo 65536.
\<close>

definition size_field :: "u8 list \<Rightarrow> u16" where
  "size_field data = word_of_nat (total_size (length data))"

definition entry_body :: "u32 \<Rightarrow> u8 list \<Rightarrow> u8 list" where
  "entry_body token data =
     bytes_of_u16 (size_field data) @ bytes_of_u32 token @ data @ replicate (size_adjust (length data + HEADER)) 0xff"

definition entry_bytes :: "u16 \<Rightarrow> u32 \<Rightarrow> u8 list \<Rightarrow> u8 list" where
  "entry_bytes flag token data =
     bytes_of_u32 MagicSig @ bytes_of_u16 flag @
     bytes_of_u32 (crc32part (take (unat (size_field data - 10)) (entry_body token data)) 0) @ entry_body token data"

definition valid_flag :: "u8 list \<Rightarrow> u16" where
  "valid_flag data = ValidEntry + word_of_nat (size_adjust (length data + HEADER))"

definition parameter_flashfs_write :: "'d f4_dev \<Rightarrow> u32 \<Rightarrow> u8 list \<Rightarrow> 'd flashfs \<Rightarrow> (int \<times> 'd flashfs) option" where
  "parameter_flashfs_write D token data st =
     (case sector_map st of
        None \<Rightarrow> Some (- ENXIO, st)
      | Some ss \<Rightarrow>
          do {
            (p, st) \<leftarrow> place_entry D token (total_size (length data)) ss st;
            case p of
              Inl e \<Rightarrow> Some (e, st)
            | Inr pf \<Rightarrow>
                (case up_progmem_write_f4 D pf (take (unat (size_field data)) (entry_bytes (valid_flag data) token data)) (fdev st) of
                   (rv, d) \<Rightarrow>
                     let system_bytes = int (HEADER + size_adjust (length data + HEADER)) in
                     Some (if rv \<ge> system_bytes then rv - system_bytes else rv, st\<lparr>fdev := d\<rparr>))
          })"

definition parameter_flashfs_free :: "'d flashfs \<Rightarrow> 'd flashfs" where
  "parameter_flashfs_free st =
     (if \<not> working_buffer_static st \<and> working_buffer st \<noteq> None
      then st\<lparr>working_buffer := None, working_buffer_size := 0\<rparr> else st)"

text \<open>\<open>mem_ok\<close> says whether the allocation succeeds; the result is the size that the caller may use.\<close>

definition parameter_flashfs_alloc :: "bool \<Rightarrow> nat \<Rightarrow> 'd flashfs \<Rightarrow> int \<times> nat \<times> 'd flashfs" where
  "parameter_flashfs_alloc mem_ok buf_size st =
     (if sector_map st = None then (- ENXIO, buf_size, st)
      else
        let st = (if \<not> working_buffer_static st
                  then let n = word_of_nat (buf_size + HEADER) in
                    st\<lparr>working_buffer_size := n, working_buffer := (if mem_ok then Some (replicate (unat n) 0) else None)\<rparr>
                  else st)
        in if working_buffer st = None then (- ENOMEM, buf_size, st\<lparr>working_buffer_size := 0\<rparr>)
           else (0, unat (working_buffer_size st) - HEADER,
                 st\<lparr>working_buffer := Some (replicate (unat (working_buffer_size st)) 0xff)\<rparr>))"

fun erase_all :: "'d f4_dev \<Rightarrow> sector_descriptor list \<Rightarrow> int \<Rightarrow> 'd flashfs \<Rightarrow> int \<times> 'd flashfs" where
  "erase_all D [] rv st = (rv, st)"
| "erase_all D (s # ss) rv st =
     (let (sz, st) = erase_sector D s (sd_address s) st in
      if sz \<noteq> 0 then (sz, st) else erase_all D ss (rv + int (sd_size s)) st)"

definition parameter_flashfs_erase :: "'d f4_dev \<Rightarrow> 'd flashfs \<Rightarrow> int \<times> 'd flashfs" where
  "parameter_flashfs_erase D st =
     (case sector_map st of None \<Rightarrow> (- ENXIO, st) | Some ss \<Rightarrow> erase_all D ss 0 st)"

definition parameter_flashfs_init ::
  "'d f4_dev \<Rightarrow> sector_descriptor list \<Rightarrow> u8 list option \<Rightarrow> 'd flashfs \<Rightarrow> (int \<times> 'd flashfs) option" where
  "parameter_flashfs_init D fconfig buffer st =
     (let size = (case buffer of None \<Rightarrow> 0 | Some b \<Rightarrow> length b);
          st = st\<lparr>sector_map := Some fconfig, working_buffer_static := buffer \<noteq> None, working_buffer := buffer,
                  working_buffer_size := word_of_nat size, last_erased := - 1\<rparr>
      in do {
        e \<leftarrow> find_entry (fs_mem D st) parameters_token fconfig;
        case e of
          Some pf \<Rightarrow> Some (0, st)
        | None \<Rightarrow>
            do {
              f \<leftarrow> find_free (fs_mem D st) (word_of_nat (total_size size)) fconfig;
              Some (case f of None \<Rightarrow> parameter_flashfs_erase D st | Some pf \<Rightarrow> (0, st))
            }
      })"

end
