(* ===== verification/Flashfs_Log.thy ===== *)
theory Flashfs_Log
  imports Flashfs
begin

text \<open>
  The layout that the parameter storage keeps: a sector is a log of entries, of which at most the last is alive,
  followed by blank flash.  The lemmas follow the searches, the marking of an entry, the erase of a sector and
  the writing of an entry on this layout; \<open>stores\<close> relates the state to the contents of the one file.
\<close>

section \<open>Bytes of an entry\<close>

lemma size_adjust_less: "size_adjust n < 4"
  by (simp add: size_adjust_def)

lemma total_size_bounds: "total_size n mod 4 = 0" "n + 16 \<le> total_size n" "total_size n < n + 20"
proof -
  have "size_adjust (n + 16) + (n + 16) = (n + 16 + 3) div 4 * 4" by (simp add: size_adjust_def)
  then show "total_size n mod 4 = 0" by (simp add: total_size_def ac_simps)
  show "n + 16 \<le> total_size n" "total_size n < n + 20" using size_adjust_less [of "n + 16"] by (simp_all add: total_size_def)
qed

lemma length_entry_body: "length (entry_body t d) = total_size (length d) - 10"
  by (simp add: entry_body_def total_size_def)

text \<open>An entry with any checksum.\<close>

definition entry_with :: "u32 \<Rightarrow> u16 \<Rightarrow> u32 \<Rightarrow> u8 list \<Rightarrow> u8 list" where
  "entry_with crc f t d = bytes_of_u32 MagicSig @ bytes_of_u16 f @ bytes_of_u32 crc @ entry_body t d"

lemma length_entry_with [simp]: "length (entry_with crc f t d) = total_size (length d)"
  using total_size_bounds(2) [of "length d"] by (simp add: entry_with_def length_entry_body)

lemma length_entry_bytes [simp]: "length (entry_bytes f t d) = total_size (length d)"
  using total_size_bounds(2) [of "length d"] by (simp add: entry_bytes_def length_entry_body)

lemma size_field_small:
  assumes "total_size (length d) < 65536"
  shows "unat (size_field d) = total_size (length d)" "unat (size_field d - 10) = length (entry_body t d)"
proof -
  show u: "unat (size_field d) = total_size (length d)"
    using assms by (simp add: size_field_def unat_of_nat take_bit_nat_eq_self)
  have "(10 :: u16) \<le> size_field d" using u total_size_bounds(2) [of "length d"] by (simp add: word_le_nat_alt)
  then show "unat (size_field d - 10) = length (entry_body t d)" using u by (simp add: unat_sub length_entry_body)
qed

lemma entry_with_fields:
  assumes "holds m p (entry_with crc f t d)" and "total_size (length d) < 65536"
  shows "valid_magic m p" "fe_magic m p = MagicSig" "fe_flag m p = f" "unat (fe_size m p) = total_size (length d)" "fe_token m p = t"
    "crc_good m p \<longleftrightarrow> crc = crc32part (entry_body t d) 0" "next_entry m p = p + total_size (length d)" "holds m (entry_data p) d"
proof -
  let ?n = "total_size (length d)"
  have h: "holds m p (bytes_of_u32 MagicSig)" "holds m (p + 4) (bytes_of_u16 f)"
    "holds m (p + 6) (bytes_of_u32 crc)" "holds m (p + 10) (entry_body t d)"
    using assms(1) by (simp_all add: entry_with_def holds_append ac_simps)
  then have b: "holds m (p + 10) (bytes_of_u16 (size_field d))" "holds m (p + 12) (bytes_of_u32 t)" "holds m (p + 16) d"
    by (simp_all add: entry_body_def holds_append ac_simps)
  show "valid_magic m p" "fe_magic m p = MagicSig" "fe_flag m p = f" "fe_token m p = t" "holds m (entry_data p) d"
    using h b by (simp_all add: valid_magic_def fe_magic_def fe_flag_def fe_token_def w32_holds w16_holds entry_data_def)
  have s: "fe_size m p = size_field d" using b(1) by (simp add: fe_size_def w16_holds)
  then show u: "unat (fe_size m p) = ?n" using size_field_small(1) [OF assms(2)] by simp
  then show "next_entry m p = p + ?n" by (simp add: next_entry_def)
  have "unat (entry_crc_length m p) = ?n - 10" using size_field_small(2) [OF assms(2), of t] by (simp add: s entry_crc_length_def length_entry_body)
  then have "mem_list m (entry_crc_start p) (unat (entry_crc_length m p)) = entry_body t d"
    using mem_list_holds [OF h(4)] by (simp add: entry_crc_start_def length_entry_body)
  then show "crc_good m p \<longleftrightarrow> crc = crc32part (entry_body t d) 0" using h(3) by (simp add: crc_good_def fe_crc_def w32_holds)
qed

lemma entry_bytes_with:
  "total_size (length d) < 65536 \<Longrightarrow> entry_bytes f t d = entry_with (crc32part (entry_body t d) 0) f t d"
  using size_field_small(2) [of d t] by (simp add: entry_bytes_def entry_with_def)

lemma entry_fields:
  assumes "holds m p (entry_bytes f t d)" and "total_size (length d) < 65536"
  shows "valid_magic m p" "fe_magic m p = MagicSig" "fe_flag m p = f" "unat (fe_size m p) = total_size (length d)" "fe_token m p = t"
    "crc_good m p" "next_entry m p = p + total_size (length d)" "holds m (entry_data p) d"
  using entry_with_fields [OF assms(1) [unfolded entry_bytes_with [OF assms(2)]] assms(2)] by simp_all

lemma flags:
  "valid_flag d AND MaskEntry = ValidEntry" "valid_flag d AND SizeMask = word_of_nat (size_adjust (length d + HEADER))"
  "ErasedEntry AND MaskEntry \<noteq> ValidEntry"
proof -
  consider "size_adjust (length d + HEADER) = 0" | "size_adjust (length d + HEADER) = 1" | "size_adjust (length d + HEADER) = 2"
    | "size_adjust (length d + HEADER) = 3" using size_adjust_less [of "length d + HEADER"] by linarith
  then show "valid_flag d AND MaskEntry = ValidEntry" "valid_flag d AND SizeMask = word_of_nat (size_adjust (length d + HEADER))"
    by (cases; simp add: valid_flag_def ValidEntry_def MaskEntry_def SizeMask_def)+
  show "ErasedEntry AND MaskEntry \<noteq> ValidEntry" by (simp add: ErasedEntry_def MaskEntry_def ValidEntry_def SizeMask_def)
qed

lemma data_length:
  assumes "holds m p (entry_bytes (valid_flag d) t d)" and "total_size (length d) < 65536"
  shows "unat (entry_data_length m p) = length d"
proof -
  note e = entry_fields [OF assms]
  let ?a = "size_adjust (length d + HEADER)"
  have a: "entry_size_adjust m p = word_of_nat ?a" using e(3) flags(2) [of d] by (simp add: entry_size_adjust_def)
  have s: "fe_size m p = word_of_nat (total_size (length d))" using arg_cong [OF e(4), of "word_of_nat :: nat \<Rightarrow> u16"] by simp
  have "entry_data_length m p = word_of_nat (total_size (length d)) - (16 + word_of_nat ?a)"
    by (simp add: entry_data_length_def a s)
  also have "\<dots> = word_of_nat (length d)" by (simp add: total_size_def)
  finally show ?thesis using assms(2) total_size_bounds(2) [of "length d"] by (simp add: unat_of_nat take_bit_nat_eq_self)
qed

section \<open>The log of a sector\<close>

text \<open>
  A sector is a log of entries, each alive or erased, followed by blank flash, of which at least a
  word is left.
\<close>

type_synonym log = "(bool \<times> u8 list) list"

definition log_entry :: "u32 \<Rightarrow> bool \<times> u8 list \<Rightarrow> u8 list" where
  "log_entry t e = entry_bytes (if fst e then valid_flag (snd e) else ErasedEntry) t (snd e)"

definition log_bytes :: "u32 \<Rightarrow> log \<Rightarrow> u8 list" where
  "log_bytes t log = concat (map (log_entry t) log)"

definition small :: "log \<Rightarrow> bool" where
  "small log \<longleftrightarrow> (\<forall>e \<in> set log. total_size (length (snd e)) < 65536)"

definition dead :: "log \<Rightarrow> bool" where
  "dead log \<longleftrightarrow> (\<forall>e \<in> set log. \<not> fst e)"

lemma log_simps [simp]:
  "log_bytes t [] = []" "log_bytes t (e # log) = log_entry t e @ log_bytes t log"
  "log_bytes t (log @ log') = log_bytes t log @ log_bytes t log'"
  "small []" "small (e # log) \<longleftrightarrow> total_size (length (snd e)) < 65536 \<and> small log" "small (log @ log') \<longleftrightarrow> small log \<and> small log'"
  "dead []" "dead (e # log) \<longleftrightarrow> \<not> fst e \<and> dead log" "dead (log @ log') \<longleftrightarrow> dead log \<and> dead log'"
  "length (log_entry t e) = total_size (length (snd e))"
  by (auto simp: log_bytes_def small_def dead_def log_entry_def)

lemma log_length_mod4: "length (log_bytes t log) mod 4 = 0"
  using total_size_bounds(1) by (induction log) (auto simp: mod_add_eq [symmetric])

lemma blank_words:
  assumes "holds m p (replicate k 0xff)"
  shows "4 \<le> k \<Longrightarrow> w32 m p = BlankSig" and "6 \<le> k \<Longrightarrow> w16 m (p + 4) = BlankEntry"
proof -
  have e: "m (p + i) = 0xff" if "i < k" for i using assms that by (simp add: holds_nth)
  have "replicate 4 (0xff :: u8) = [0xff, 0xff, 0xff, 0xff]" "replicate 2 (0xff :: u8) = [0xff, 0xff]"
    by (simp_all add: numeral_eq_Suc)
  then have "bytes_of_u32 BlankSig = replicate 4 0xff" "bytes_of_u16 BlankEntry = replicate 2 0xff"
    by (simp_all add: bytes_of_u32_def bytes_of_u16_def BlankSig_def BlankEntry_def)
  then show "4 \<le> k \<Longrightarrow> w32 m p = BlankSig" "6 \<le> k \<Longrightarrow> w16 m (p + 4) = BlankEntry"
    using e by (intro w32_holds w16_holds; simp add: holds_nth add.assoc)+
qed

lemma magic_not_blank: "MagicSig \<noteq> BlankSig"
  by (simp add: MagicSig_def BlankSig_def)

lemma hunt_blank: "holds m p (replicate (4 * Suc n) 0xff) \<Longrightarrow> find_in_sector m t (p + 4 * n) p = Some None"
proof (induction n arbitrary: p)
  case 0
  then show ?case by (subst find_in_sector.simps) simp
next
  case (Suc n)
  have "w32 m p = BlankSig" by (rule blank_words(1) [OF Suc.prems]) simp
  then have "\<not> valid_magic m p" using magic_not_blank by (simp add: valid_magic_def)
  moreover have "replicate (4 * Suc (Suc n)) (0xff :: u8) = replicate 4 0xff @ replicate (4 * Suc n) 0xff"
    by (simp add: replicate_add [symmetric])
  then have "holds m (p + 4) (replicate (4 * Suc n) 0xff)" using Suc.prems by (simp add: holds_append del: replicate_Suc mult_Suc_right)
  ultimately show ?case using Suc.IH [of "p + 4"]
    by (subst find_in_sector.simps) (simp add: add.assoc)
qed

lemma entry_of_log:
  assumes "holds m p (log_entry t e)" and "total_size (length (snd e)) < 65536"
  shows "valid_magic m p" "fe_magic m p = MagicSig" "crc_good m p" "next_entry m p = p + total_size (length (snd e))"
    "fe_token m p = t" "valid_entry m p \<longleftrightarrow> fst e" "\<not> blank_entry m p"
  using entry_fields [OF assms(1) [unfolded log_entry_def] assms(2)] flags(1) [of "snd e"] flags(3) magic_not_blank
  by (auto simp: valid_entry_def blank_entry_def split: if_splits)

lemma skip_dead:
  assumes "holds m p (log_bytes t log @ replicate (4 * Suc n) 0xff)" and "dead log" and "small log"
  shows "find_in_sector m t (p + length (log_bytes t log) + 4 * n) p = Some None"
  using assms
proof (induction log arbitrary: p)
  case Nil
  then show ?case using hunt_blank [of m p n t] by simp
next
  case (Cons e log)
  have h: "holds m p (log_entry t e)" "holds m (p + total_size (length (snd e))) (log_bytes t log @ replicate (4 * Suc n) 0xff)"
    using Cons.prems(1) by (simp_all add: holds_append ac_simps del: replicate.simps mult_Suc_right)
  note f = entry_of_log [OF h(1)]
  have ih: "find_in_sector m t (p + total_size (length (snd e)) + length (log_bytes t log) + 4 * n) (p + total_size (length (snd e))) = Some None"
    by (rule Cons.IH [OF h(2)]) (use Cons.prems in auto)
  have "p \<noteq> p + length (log_bytes t (e # log)) + 4 * n" using total_size_bounds(2) [of "length (snd e)"] by simp
  then show ?case using f Cons.prems(2,3) ih
    by (subst find_in_sector.simps) (simp add: ac_simps)
qed

lemma find_live:
  assumes "holds m p (log_bytes t (log @ [(True, d)]) @ replicate (4 * Suc n) 0xff)" and "dead log" and "small (log @ [(True, d)])"
  shows "find_in_sector m t (p + length (log_bytes t (log @ [(True, d)])) + 4 * n) p = Some (Some (p + length (log_bytes t log)))"
  using assms
proof (induction log arbitrary: p)
  case Nil
  then have "holds m p (log_entry t (True, d))" by (simp add: holds_append)
  note f = entry_of_log [OF this]
  have "p \<noteq> p + length (log_bytes t ([] @ [(True, d)])) + 4 * n" using total_size_bounds(2) [of "length d"] by simp
  then show ?case using f Nil.prems(3) by (subst find_in_sector.simps) simp
next
  case (Cons e log)
  let ?q = "p + total_size (length (snd e))"
  have h: "holds m p (log_entry t e)" "holds m ?q (log_bytes t (log @ [(True, d)]) @ replicate (4 * Suc n) 0xff)"
    using Cons.prems(1) by (simp_all add: holds_append ac_simps del: replicate.simps mult_Suc_right)
  note f = entry_of_log [OF h(1)]
  have "\<not> blank_entry m ?q"
  proof (cases log)
    case Nil
    then have "holds m ?q (log_entry t (True, d))" using h(2) by (simp add: holds_append)
    then show ?thesis using entry_of_log(7) Cons.prems(3) by fastforce
  next
    case (Cons e' log')
    then have "holds m ?q (log_entry t e')" using h(2) by (simp add: holds_append)
    then show ?thesis using entry_of_log(7) Cons.prems(3) Cons by fastforce
  qed
  moreover have "find_in_sector m t (?q + length (log_bytes t (log @ [(True, d)])) + 4 * n) ?q = Some (Some (?q + length (log_bytes t log)))"
    by (rule Cons.IH [OF h(2)]) (use Cons.prems in auto)
  moreover have "p \<noteq> p + length (log_bytes t ((e # log) @ [(True, d)])) + 4 * n" using total_size_bounds(2) [of "length (snd e)"] by simp
  ultimately show ?case using f Cons.prems(2,3)
    by (subst find_in_sector.simps) (simp add: ac_simps)
qed

section \<open>The store\<close>

definition sector_ok :: "'d f4_dev \<Rightarrow> sector_descriptor \<Rightarrow> bool" where
  "sector_ok D s \<longleftrightarrow> 0 < sd_page s \<and> sd_page s < STM32_FLASH_NPAGES D \<and> sd_size s = up_progmem_pagesize_f4 D (sd_page s) \<and>
     sd_address s = up_progmem_getaddress_f4 D (sd_page s) \<and> 0 < sd_size s \<and> sd_size s mod 4 = 0 \<and> sd_address s mod 4 = 0"

definition sector_holds :: "(nat \<Rightarrow> u8) \<Rightarrow> u32 \<Rightarrow> sector_descriptor \<Rightarrow> log \<Rightarrow> bool" where
  "sector_holds m t s log \<longleftrightarrow> small log \<and> length (log_bytes t log) + 4 \<le> sd_size s \<and>
     holds m (sd_address s) (log_bytes t log @ replicate (sd_size s - length (log_bytes t log)) 0xff)"

lemma sector_room:
  assumes "sector_holds m t s log" and "sd_size s mod 4 = 0"
  obtains n where "sd_size s - length (log_bytes t log) = 4 * Suc n" and "sector_last s = sd_address s + length (log_bytes t log) + 4 * n"
proof -
  have l: "length (log_bytes t log) + 4 \<le> sd_size s" using assms(1) by (simp add: sector_holds_def)
  have "(sd_size s - length (log_bytes t log)) mod 4 = 0" using assms(2) log_length_mod4 [of t log] l by (simp add: mod_diff_eq [symmetric] dvd_imp_mod_0 mod_eq_0_iff_dvd dvd_diff_nat)
  then obtain k where k: "sd_size s - length (log_bytes t log) = 4 * k" by (auto simp: mod_eq_0_iff_dvd elim: dvdE)
  then obtain n where n: "k = Suc n" using l by (cases k) auto
  have "sd_size s div 4 * 4 = sd_size s" using assms(2) by (simp add: mod_eq_0_iff_dvd)
  then have "sector_last s = sd_address s + length (log_bytes t log) + 4 * n" using k n l by (simp add: sector_last_def mult.commute)
  then show thesis using that k n by blast
qed

lemma find_in_dead: "sector_holds m t s log \<Longrightarrow> sd_size s mod 4 = 0 \<Longrightarrow> dead log \<Longrightarrow>
    find_in_sector m t (sector_last s) (sd_address s) = Some None"
proof -
  assume a: "sector_holds m t s log" "sd_size s mod 4 = 0" "dead log"
  obtain n where n: "sd_size s - length (log_bytes t log) = 4 * Suc n" "sector_last s = sd_address s + length (log_bytes t log) + 4 * n"
    using sector_room [OF a(1,2)] .
  then show ?thesis using skip_dead [of m "sd_address s" t log n] a by (simp add: sector_holds_def)
qed

lemma find_in_live: "sector_holds m t s (log @ [(True, d)]) \<Longrightarrow> sd_size s mod 4 = 0 \<Longrightarrow> dead log \<Longrightarrow>
    find_in_sector m t (sector_last s) (sd_address s) = Some (Some (sd_address s + length (log_bytes t log)))"
proof -
  assume a: "sector_holds m t s (log @ [(True, d)])" "sd_size s mod 4 = 0" "dead log"
  obtain n where n: "sd_size s - length (log_bytes t (log @ [(True, d)])) = 4 * Suc n"
      "sector_last s = sd_address s + length (log_bytes t (log @ [(True, d)])) + 4 * n"
    using sector_room [OF a(1,2)] .
  then show ?thesis using find_live [of m "sd_address s" t log d n] a unfolding sector_holds_def by metis
qed

definition map_ok :: "'d f4_dev \<Rightarrow> sector_descriptor list \<Rightarrow> bool" where
  "map_ok D ss \<longleftrightarrow> f4_ok D \<and> ss \<noteq> [] \<and> distinct (map sd_page ss) \<and> (\<forall>s \<in> set ss. sector_ok D s)"

definition logs_ok :: "'d f4_dev \<Rightarrow> u32 \<Rightarrow> sector_descriptor list \<Rightarrow> 'd flashfs \<Rightarrow> log list \<Rightarrow> bool" where
  "logs_ok D t ss st logs \<longleftrightarrow> sector_map st = Some ss \<and> length logs = length ss \<and>
     (\<forall>i < length ss. sector_holds (fs_mem D st) t (ss ! i) (logs ! i))"

lemma sector_holdsI:
  assumes "small log" and "length (log_bytes t log) = n" and "n + 4 \<le> sd_size s" and "holds m (sd_address s) (log_bytes t log)"
    and "holds m (sd_address s + n) (replicate (sd_size s - n) 0xff)"
  shows "sector_holds m t s log"
  using assms by (simp add: sector_holds_def holds_append)

lemma sector_holds_cong:
  assumes "\<And>x. sd_address s \<le> x \<Longrightarrow> x < sd_address s + sd_size s \<Longrightarrow> m x = m' x"
  shows "sector_holds m t s log = sector_holds m' t s log"
proof -
  have "holds m (sd_address s) (log_bytes t log @ replicate (sd_size s - length (log_bytes t log)) 0xff) =
      holds m' (sd_address s) (log_bytes t log @ replicate (sd_size s - length (log_bytes t log)) 0xff)"
    if "length (log_bytes t log) \<le> sd_size s" by (rule holds_cong) (use assms that in simp)
  then show ?thesis by (auto simp: sector_holds_def)
qed

lemma in_sector:
  assumes "map_ok D ss" and "i < length ss"
  shows "in_page D (sd_page (ss ! i)) x \<longleftrightarrow> sd_address (ss ! i) \<le> x \<and> x < sd_address (ss ! i) + sd_size (ss ! i)"
  using assms nth_mem [OF assms(2)] by (auto simp: map_ok_def sector_ok_def in_page_def)

lemma sectors_disjoint:
  assumes "map_ok D ss" and "i < length ss" and "j < length ss"
    and "in_page D (sd_page (ss ! i)) x" and "in_page D (sd_page (ss ! j)) x"
  shows "i = j"
proof -
  have "sd_page (ss ! i) = sd_page (ss ! j)"
    using pages_disjoint [OF _ _ assms(4,5)] assms(1) nth_mem [OF assms(2)] nth_mem [OF assms(3)]
    by (auto simp: map_ok_def sector_ok_def)
  then show ?thesis using assms(1-3) by (auto simp: map_ok_def distinct_conv_nth)
qed

text \<open>A change inside one sector leaves the other logs alone.\<close>

lemma logs_ok_update:
  assumes "map_ok D ss" and "logs_ok D t ss st logs" and "k < length ss" and "sector_map st' = sector_map st"
    and "\<And>x. \<not> in_page D (sd_page (ss ! k)) x \<Longrightarrow> fs_mem D st' x = fs_mem D st x"
    and "sector_holds (fs_mem D st') t (ss ! k) log"
  shows "logs_ok D t ss st' (logs[k := log])"
proof -
  have "sector_holds (fs_mem D st') t (ss ! i) (logs[k := log] ! i)" if i: "i < length ss" for i
  proof (cases "i = k")
    case True
    then show ?thesis using assms(2,3,6) by (simp add: logs_ok_def)
  next
    case False
    then have "fs_mem D st' x = fs_mem D st x" if "in_page D (sd_page (ss ! i)) x" for x
      using assms(5) [of x] sectors_disjoint [OF assms(1) i assms(3) that] by blast
    then show ?thesis
      using sector_holds_cong [of "ss ! i" "fs_mem D st'" "fs_mem D st"] in_sector [OF assms(1) i] assms(2) i False
      by (simp add: logs_ok_def)
  qed
  then show ?thesis using assms(2,4) by (simp add: logs_ok_def)
qed

section \<open>Changes of the flash\<close>

lemma clears_simps: "clears 0xff b" "clears b 0"
proof -
  have "bit (0xff :: u8) n" if "n < 8" for n
  proof -
    have "(0xff :: u8) = mask 8" by (simp add: mask_eq_exp_minus_1)
    then show ?thesis using that by (simp only: bit_mask_iff) simp
  qed
  then have "0xff AND b = b" by (intro bit_word_eqI) (auto simp: bit_and_iff)
  then show "clears 0xff b" "clears b 0" by (simp_all add: clears_def)
qed

lemma sector_in_flash:
  assumes "map_ok D ss" and "k < length ss"
  shows "STM32_FLASH_BASE \<le> sd_address (ss ! k)" "sd_address (ss ! k) + sd_size (ss ! k) \<le> STM32_FLASH_BASE + STM32_FLASH_SIZE D"
    "sd_address (ss ! k) mod 4 = 0" "sd_size (ss ! k) mod 4 = 0" "0 < sd_size (ss ! k)"
  using page_bounds [of "sd_page (ss ! k)" D] assms(1) nth_mem [OF assms(2)] by (auto simp: map_ok_def sector_ok_def)

lemma program_range:
  assumes "map_ok D ss" and "k < length ss" and "a mod 2 = 0" and "even (length bs)"
    and "sd_address (ss ! k) \<le> a" and "a + length bs \<le> sd_address (ss ! k) + sd_size (ss ! k)"
    and "\<forall>i < length bs. clears (fs_mem D st (a + i)) (bs ! i)"
  obtains d' where "up_progmem_write_f4 D a bs (fdev st) = (int (length bs), d')" and "holds (f4_read D d') a bs"
    and "\<And>x. \<not> (a \<le> x \<and> x < a + length bs) \<Longrightarrow> f4_read D d' x = fs_mem D st x"
proof -
  note f = sector_in_flash [OF assms(1,2)]
  have "f4_ok D" using assms(1) by (simp add: map_ok_def)
  then show thesis
    by (rule write_ok [OF _ assms(3,4), of D "fdev st"]) (use f assms(5-7) that in \<open>auto simp: fs_mem_def\<close>)
qed

lemma append_entry:
  assumes "map_ok D ss" and "logs_ok D t ss st logs" and "k < length ss" and "total_size (length data) < 65536"
    and "length (log_bytes t (logs ! k)) + total_size (length data) + 4 \<le> sd_size (ss ! k)"
  obtains d' where "up_progmem_write_f4 D (sd_address (ss ! k) + length (log_bytes t (logs ! k)))
      (entry_bytes (valid_flag data) t data) (fdev st) = (int (total_size (length data)), d')"
    and "logs_ok D t ss (st\<lparr>fdev := d'\<rparr>) (logs[k := logs ! k @ [(True, data)]])"
proof -
  let ?n = "length (log_bytes t (logs ! k))"
  let ?s = "ss ! k"
  let ?a = "sd_address ?s + ?n"
  let ?e = "entry_bytes (valid_flag data) t data"
  note f = sector_in_flash [OF assms(1,3)]
  have h: "small (logs ! k)" "holds (fs_mem D st) (sd_address ?s) (log_bytes t (logs ! k))"
    "holds (fs_mem D st) ?a (replicate (sd_size ?s - ?n) 0xff)"
    using assms(2,3) by (auto simp: logs_ok_def sector_holds_def holds_append)
  have "even (total_size (length data))" using total_size_bounds(1) [of "length data"] by presburger
  moreover have "?a mod 2 = 0" using f(3) log_length_mod4 [of t "logs ! k"] by presburger
  ultimately have a: "?a mod 2 = 0" "even (length ?e)" by simp_all
  have b: "fs_mem D st (?a + i) = 0xff" if "i < sd_size ?s - ?n" for i
    using h(3) that by (simp add: holds_nth)
  obtain d' where d': "up_progmem_write_f4 D ?a ?e (fdev st) = (int (length ?e), d')" "holds (f4_read D d') ?a ?e"
    "\<And>x. \<not> (?a \<le> x \<and> x < ?a + length ?e) \<Longrightarrow> f4_read D d' x = fs_mem D st x"
    by (rule program_range [OF assms(1,3) a, of st]) (use assms(5) b clears_simps(1) in auto)
  have r: "fs_mem D (st\<lparr>fdev := d'\<rparr>) = f4_read D d'" by (simp add: fs_mem_def fun_eq_iff)
  have "holds (f4_read D d') (sd_address ?s) (log_bytes t (logs ! k))"
    using h(2) holds_cong [of "sd_address ?s" "log_bytes t (logs ! k)" "f4_read D d'" "fs_mem D st"] d'(3) by auto
  moreover have "holds (f4_read D d') (?a + total_size (length data)) (replicate (sd_size ?s - (?n + total_size (length data))) 0xff)"
    using b d'(3) by (simp add: holds_nth add.assoc)
  moreover have "holds (f4_read D d') (sd_address ?s) (log_bytes t (logs ! k @ [(True, data)]))"
    using calculation(1) d'(2) by (simp add: holds_append log_entry_def)
  ultimately have "sector_holds (f4_read D d') t ?s (logs ! k @ [(True, data)])"
    using h(1) assms(4,5) by (intro sector_holdsI [of _ _ "?n + total_size (length data)"]) (simp_all add: add.assoc)
  moreover have "f4_read D d' x = fs_mem D st x" if "\<not> in_page D (sd_page ?s) x" for x
    using that in_sector [OF assms(1,3), of x] assms(5) by (intro d'(3)) auto
  ultimately have "logs_ok D t ss (st\<lparr>fdev := d'\<rparr>) (logs[k := logs ! k @ [(True, data)]])"
    by (intro logs_ok_update [OF assms(1-3)]) (simp_all add: r)
  then show thesis using that d'(1) by simp
qed

lemma erase_log_entry:
  assumes "map_ok D ss" and "logs_ok D t ss st logs" and "k < length ss" and "logs ! k = log @ [(True, d)]"
  obtains st' where "erase_entry D (sd_address (ss ! k) + length (log_bytes t log)) st = (2, st')"
    and "logs_ok D t ss st' (logs[k := log @ [(False, d)]])"
proof -
  let ?s = "ss ! k"
  let ?a = "sd_address ?s + length (log_bytes t log)"
  let ?z = "bytes_of_u16 ErasedEntry"
  note f = sector_in_flash [OF assms(1,3)]
  define tl where "tl = bytes_of_u32 (crc32part (take (unat (size_field d - 10)) (entry_body t d)) 0) @ entry_body t d"
  have e: "log_entry t (b, d) = bytes_of_u32 MagicSig @ bytes_of_u16 (if b then valid_flag d else ErasedEntry) @ tl" for b
    by (simp add: log_entry_def entry_bytes_def tl_def)
  have l: "log_bytes t (log @ [(b, d)]) @ r =
      (log_bytes t log @ bytes_of_u32 MagicSig) @ bytes_of_u16 (if b then valid_flag d else ErasedEntry) @ tl @ r" for b r
    by (simp add: e)
  have n: "total_size (length d) = 6 + length tl" using arg_cong [OF e [of True], of length] by simp
  let ?r = "replicate (sd_size ?s - length (log_bytes t (log @ [(True, d)]))) (0xff :: u8)"
  have h: "small (log @ [(True, d)])" "length (log_bytes t log) + (6 + length tl) + 4 \<le> sd_size ?s"
    "holds (fs_mem D st) (sd_address ?s) (log_bytes t log @ bytes_of_u32 MagicSig)" "holds (fs_mem D st) (?a + 6) (tl @ ?r)"
    using assms(2-4) n by (auto simp: logs_ok_def sector_holds_def holds_append e ac_simps)
  have a: "(?a + 4) mod 2 = 0" using f(3) log_length_mod4 [of t log] by presburger
  have z: "?z ! i = 0" if "i < 2" for i using that by (cases i) (auto simp: bytes_of_u16_def ErasedEntry_def less_Suc_eq)
  obtain d' where d': "up_progmem_write_f4 D (?a + 4) ?z (fdev st) = (int (length ?z), d')" "holds (f4_read D d') (?a + 4) ?z"
    "\<And>x. \<not> (?a + 4 \<le> x \<and> x < ?a + 4 + length ?z) \<Longrightarrow> f4_read D d' x = fs_mem D st x"
    by (rule program_range [OF assms(1,3) a, of ?z st]) (use h(2) z clears_simps(2) in auto)
  have r: "fs_mem D (st\<lparr>fdev := d'\<rparr>) = f4_read D d'" by (simp add: fs_mem_def fun_eq_iff)
  have "holds (f4_read D d') (sd_address ?s) (log_bytes t log @ bytes_of_u32 MagicSig)"
    using h(3) holds_cong [of "sd_address ?s" "log_bytes t log @ bytes_of_u32 MagicSig" "f4_read D d'" "fs_mem D st"] d'(3) by simp
  moreover have "holds (f4_read D d') (?a + 6) (tl @ ?r)"
    using h(4) holds_cong [of "?a + 6" "tl @ ?r" "f4_read D d'" "fs_mem D st"] d'(3) by simp
  moreover have "holds (f4_read D d') (sd_address ?s) (log_bytes t (log @ [(False, d)]))"
    using calculation d'(2) l [of False "[]"] by (simp add: holds_append ac_simps)
  ultimately have "sector_holds (f4_read D d') t ?s (log @ [(False, d)])"
    using h(1,2) n by (intro sector_holdsI [of _ _ "length (log_bytes t log) + (6 + length tl)"]) (simp_all add: holds_append add.assoc)
  moreover have "f4_read D d' x = fs_mem D st x" if "\<not> in_page D (sd_page ?s) x" for x
    using that in_sector [OF assms(1,3), of x] h(2) by (intro d'(3)) auto
  ultimately have "logs_ok D t ss (st\<lparr>fdev := d'\<rparr>) (logs[k := log @ [(False, d)]])"
    by (intro logs_ok_update [OF assms(1-3)]) (simp_all add: r)
  then show thesis using that d'(1) by (simp add: erase_entry_def)
qed

lemma erase_sector_ok:
  assumes "f4_ok D" and "sector_ok D s"
  obtains st' where "erase_sector D s (sd_address s) st = (0, st')" and "sector_map st' = sector_map st"
    and "\<And>x. fs_mem D st' x = (if in_page D (sd_page s) x then 0xff else fs_mem D st x)"
proof -
  have p: "sd_page s < STM32_FLASH_NPAGES D" "sd_size s = up_progmem_pagesize_f4 D (sd_page s)" using assms(2) by (simp_all add: sector_ok_def)
  obtain d' where d': "up_progmem_eraseblock_f4 D (sd_page s) (fdev st) = (int (sd_size s), d')"
      "\<And>x. f4_read D d' x = (if in_page D (sd_page s) x then 0xff else fs_mem D st x)"
    by (rule erase_ok [OF assms(1) p(1), of "fdev st"]) (simp add: p(2) fs_mem_def)
  have "up_progmem_getpage_f4 D (sd_address s) = int (sd_page s)" using assms(2) getpage_getaddress [of "sd_page s" D] by (simp add: sector_ok_def)
  then have "erase_sector D s (sd_address s) st = (0, st\<lparr>last_erased := int (sd_page s), fdev := d'\<rparr>)"
    using assms(2) d'(1) by (simp add: erase_sector_def sector_ok_def Let_def)
  then show thesis using that d'(2) by (simp add: fs_mem_def)
qed

lemma erased_sector:
  assumes "map_ok D ss" and "k < length ss" and "\<And>x. in_page D (sd_page (ss ! k)) x \<Longrightarrow> m x = 0xff"
  shows "sector_holds m t (ss ! k) []"
proof -
  have "4 \<le> sd_size (ss ! k)" using sector_in_flash(4,5) [OF assms(1,2)] by presburger
  then show ?thesis using assms(3) in_sector [OF assms(1,2)] by (simp add: sector_holds_def holds_nth)
qed

lemma erase_log:
  assumes "map_ok D ss" and "logs_ok D t ss st logs" and "k < length ss"
  obtains st' where "erase_sector D (ss ! k) (sd_address (ss ! k)) st = (0, st')" and "logs_ok D t ss st' (logs[k := []])"
proof -
  have s: "f4_ok D" "sector_ok D (ss ! k)" using assms(1) nth_mem [OF assms(3)] by (auto simp: map_ok_def)
  obtain st' where st': "erase_sector D (ss ! k) (sd_address (ss ! k)) st = (0, st')" "sector_map st' = sector_map st"
      "\<And>x. fs_mem D st' x = (if in_page D (sd_page (ss ! k)) x then 0xff else fs_mem D st x)"
    using erase_sector_ok [OF s, of st] by blast
  have "logs_ok D t ss st' (logs[k := []])"
    by (rule logs_ok_update [OF assms st'(2)]) (use st'(3) erased_sector [OF assms(1,3)] in auto)
  then show thesis using that st'(1) by blast
qed

section \<open>Searching the sectors\<close>

lemma find_entry_none: "(\<And>s. s \<in> set ss \<Longrightarrow> find_in_sector m t (sector_last s) (sd_address s) = Some None) \<Longrightarrow> find_entry m t ss = Some None"
  by (induction ss) simp_all

lemma find_entry_nth:
  assumes "k < length ss" and "\<And>i. i < k \<Longrightarrow> find_in_sector m t (sector_last (ss ! i)) (sd_address (ss ! i)) = Some None"
    and "find_in_sector m t (sector_last (ss ! k)) (sd_address (ss ! k)) = Some (Some pf)"
  shows "find_entry m t ss = Some (Some pf)"
  using assms
proof (induction ss arbitrary: k)
  case (Cons s ss)
  show ?case
  proof (cases k)
    case (Suc j)
    have "find_in_sector m t (sector_last (ss ! i)) (sd_address (ss ! i)) = Some None" if "i < j" for i
      using Cons.prems(2) [of "Suc i"] that Suc by simp
    then have "find_entry m t ss = Some (Some pf)" using Cons.IH [of j] Cons.prems(1,3) Suc by simp
    then show ?thesis using Cons.prems(2) [of 0] Suc by simp
  qed (use Cons.prems in simp)
qed simp

lemma find_none_live:
  assumes "map_ok D ss" and "logs_ok D t ss st logs" and "\<And>i. i < length ss \<Longrightarrow> dead (logs ! i)"
  shows "find_entry (fs_mem D st) t ss = Some None"
proof (rule find_entry_none)
  fix s assume "s \<in> set ss"
  then obtain i where "i < length ss" "s = ss ! i" by (auto simp: in_set_conv_nth)
  then show "find_in_sector (fs_mem D st) t (sector_last s) (sd_address s) = Some None"
    using assms sector_in_flash(4) [OF assms(1)] by (auto simp: logs_ok_def intro: find_in_dead)
qed

lemma find_the_live:
  assumes "map_ok D ss" and "logs_ok D t ss st logs" and "k < length ss" and "logs ! k = log @ [(True, d)]" and "dead log"
    and "\<And>i. i < length ss \<Longrightarrow> i \<noteq> k \<Longrightarrow> dead (logs ! i)"
  shows "find_entry (fs_mem D st) t ss = Some (Some (sd_address (ss ! k) + length (log_bytes t log)))"
proof (rule find_entry_nth [OF assms(3)])
  have h: "sector_holds (fs_mem D st) t (ss ! i) (logs ! i)" "sd_size (ss ! i) mod 4 = 0" if "i < length ss" for i
    using assms(2) sector_in_flash(4) [OF assms(1)] that by (auto simp: logs_ok_def)
  show "find_in_sector (fs_mem D st) t (sector_last (ss ! i)) (sd_address (ss ! i)) = Some None" if "i < k" for i
    using find_in_dead [OF h] assms(3,6) that by simp
  show "find_in_sector (fs_mem D st) t (sector_last (ss ! k)) (sd_address (ss ! k)) = Some (Some (sd_address (ss ! k) + length (log_bytes t log)))"
    using find_in_live [OF _ _ assms(5)] h [OF assms(3)] assms(4) by simp
qed

lemma blank_check_blank:
  assumes "holds m p (replicate k 0xff)" and "n \<le> k"
  shows "blank_check m p n"
proof -
  have "blank_flash m (p + 4 * i)" if "i < n div 4" for i
  proof -
    have "4 * i + (k - 4 * i) = k" "4 \<le> k - 4 * i" using that assms(2) by linarith+
    then have "holds m (p + 4 * i) (replicate (k - 4 * i) 0xff)"
      using assms(1) holds_append [of m p "replicate (4 * i) 0xff" "replicate (k - 4 * i) 0xff"] by (simp add: replicate_add [symmetric])
    then show ?thesis using blank_words(1) \<open>4 \<le> k - 4 * i\<close> by (simp add: blank_flash_def)
  qed
  then show ?thesis by (simp add: blank_check_def)
qed

lemma blank_check_log:
  assumes "sector_holds m t s log" and "4 \<le> n" and "n \<le> sd_size s"
  shows "blank_check m (sd_address s) n \<longleftrightarrow> log = []"
proof (cases log)
  case Nil
  then show ?thesis using assms blank_check_blank [of m "sd_address s" "sd_size s" n] by (simp add: sector_holds_def)
next
  case (Cons e l)
  then have "holds m (sd_address s) (log_entry t e)" "total_size (length (snd e)) < 65536"
    using assms(1) by (simp_all add: sector_holds_def holds_append)
  then have "\<not> blank_flash m (sd_address s + 4 * 0)"
    using entry_of_log(1) [of m "sd_address s" t e] magic_not_blank by (simp add: blank_flash_def valid_magic_def)
  moreover have "0 < n div 4" using assms(2) by simp
  ultimately show ?thesis using Cons by (auto simp: blank_check_def intro!: bexI [of _ 0])
qed

lemma find_free_first:
  assumes "sector_holds m t s []" and "8 \<le> sd_size s" and "unat n \<le> sd_size s"
  shows "find_free m n (s # ss) = Some (Some (sd_address s))"
proof -
  have b: "holds m (sd_address s) (replicate (sd_size s) 0xff)" using assms(1) by (simp add: sector_holds_def)
  have "w32 m (sd_address s) = BlankSig" "w16 m (sd_address s + 4) = BlankEntry" using blank_words [OF b] assms(2,3) by simp_all
  then have "free_step m (sd_address s) = sd_address s" "blank_magic m (sd_address s)" "blank_entry m (sd_address s)"
    using magic_not_blank by (simp_all add: free_step_def valid_magic_def blank_magic_def blank_entry_def fe_magic_def fe_flag_def)
  moreover have "blank_check m (sd_address s) (unat n)" using blank_check_blank [OF b assms(3)] .
  ultimately have "free_in_sector m n (sector_last s) (sd_address s) = Some (Some (sd_address s))"
    by (subst free_in_sector.simps) simp
  then show ?thesis by simp
qed

lemma get_sector_info_nth:
  assumes "map_ok D ss" and "k < length ss" and "sd_address (ss ! k) \<le> p" and "p < sd_address (ss ! k) + sd_size (ss ! k)"
  shows "get_sector_info ss p = Some k"
proof -
  let ?in = "\<lambda>i. sd_address (ss ! i) \<le> p \<and> p \<le> sd_address (ss ! i) + sd_size (ss ! i) - 1"
  have e: "?in i \<longleftrightarrow> in_page D (sd_page (ss ! i)) p" if "i < length ss" for i
    using in_sector [OF assms(1) that, of p] sector_in_flash(5) [OF assms(1) that] by auto
  have "in_page D (sd_page (ss ! k)) p" using in_sector [OF assms(1,2), of p] assms(3,4) by simp
  then have u: "?in i \<longleftrightarrow> i = k" if "i < length ss" for i
    using e [OF that] sectors_disjoint [OF assms(1) that assms(2)] by blast
  have "find ?in [0..<length ss] = Some k"
    unfolding find_Some_iff by (rule exI [of _ k]) (use u assms(2) in simp)
  then show ?thesis by (simp add: get_sector_info_def)
qed

lemma check_room:
  assumes "map_ok D ss" and "logs_ok D t ss st logs" and "k < length ss" and "logs ! k = log @ [(True, d)]" and "n mod 4 = 0"
  shows "check_free_space_in_sector (fs_mem D st) ss (sd_address (ss ! k) + length (log_bytes t log)) n =
    Some (if length (log_bytes t (logs ! k)) + n + 4 \<le> sd_size (ss ! k) then None else Some k)"
proof -
  let ?a = "sd_address (ss ! k) + length (log_bytes t log)"
  have s: "sector_holds (fs_mem D st) t (ss ! k) (log @ [(True, d)])" using assms(2-4) by (auto simp: logs_ok_def)
  then have h: "holds (fs_mem D st) ?a (log_entry t (True, d))" "total_size (length d) < 65536"
      "length (log_bytes t log) + total_size (length d) + 4 \<le> sd_size (ss ! k)"
    by (simp_all add: sector_holds_def holds_append)
  have g: "get_sector_info ss ?a = Some k" by (rule get_sector_info_nth [OF assms(1,3)]) (use h(3) in auto)
  have e: "valid_magic (fs_mem D st) ?a" "next_entry (fs_mem D st) ?a = sd_address (ss ! k) + length (log_bytes t (logs ! k))"
    using entry_of_log(1,4) [OF h(1)] h(2) assms(4) by simp_all
  have m: "(length (log_bytes t (logs ! k)) + n) mod 4 = 0" using log_length_mod4 [of t "logs ! k"] assms(5) by presburger
  have z: "sd_size (ss ! k) mod 4 = 0" using sector_in_flash(4) [OF assms(1,3)] .
  have "length (log_bytes t (logs ! k)) + n < sd_size (ss ! k) \<longleftrightarrow> length (log_bytes t (logs ! k)) + n + 4 \<le> sd_size (ss ! k)"
    using m z by presburger
  then show ?thesis using g e sector_in_flash(5) [OF assms(1,3)] by (auto simp: check_free_space_in_sector_def Let_def)
qed

section \<open>The file\<close>

text \<open>The contents of the file, if it exists: the only live entry, which is the last of its sector.\<close>

definition only_live :: "log list \<Rightarrow> nat \<Rightarrow> u8 list \<Rightarrow> bool" where
  "only_live logs k d \<longleftrightarrow> k < length logs \<and> (\<exists>log. logs ! k = log @ [(True, d)] \<and> dead log) \<and> (\<forall>i < length logs. i \<noteq> k \<longrightarrow> dead (logs ! i))"

definition contents :: "log list \<Rightarrow> u8 list option \<Rightarrow> bool" where
  "contents logs v \<longleftrightarrow> (case v of None \<Rightarrow> logs ! 0 = [] \<and> (\<forall>i < length logs. dead (logs ! i)) | Some d \<Rightarrow> \<exists>k. only_live logs k d)"

definition stores :: "'d f4_dev \<Rightarrow> u32 \<Rightarrow> sector_descriptor list \<Rightarrow> 'd flashfs \<Rightarrow> u8 list option \<Rightarrow> bool" where
  "stores D t ss st v \<longleftrightarrow> map_ok D ss \<and> (\<exists>logs. logs_ok D t ss st logs \<and> contents logs v)"

definition fits :: "sector_descriptor list \<Rightarrow> u8 list \<Rightarrow> bool" where
  "fits ss data \<longleftrightarrow> total_size (length data) < 65536 \<and> (\<forall>s \<in> set ss. total_size (length data) + 4 \<le> sd_size s)"

lemma write_at:
  assumes "map_ok D ss" and "place_entry D t (total_size (length data)) ss st = Some (Inr pf, st1)" and "sector_map st = Some ss"
    and "logs_ok D t ss st1 logs" and "\<And>i. i < length ss \<Longrightarrow> dead (logs ! i)" and "k < length ss"
    and "pf = sd_address (ss ! k) + length (log_bytes t (logs ! k))" and "total_size (length data) < 65536"
    and "length (log_bytes t (logs ! k)) + total_size (length data) + 4 \<le> sd_size (ss ! k)"
  shows "\<exists>st'. parameter_flashfs_write D t data st = Some (int (length data), st') \<and> stores D t ss st' (Some data)"
proof -
  obtain d' where d': "up_progmem_write_f4 D pf (entry_bytes (valid_flag data) t data) (fdev st1) = (int (total_size (length data)), d')"
      "logs_ok D t ss (st1\<lparr>fdev := d'\<rparr>) (logs[k := logs ! k @ [(True, data)]])"
    using append_entry [OF assms(1,4,6,8,9)] assms(7) by metis
  have l: "length logs = length ss" using assms(4) by (simp add: logs_ok_def)
  have "only_live (logs[k := logs ! k @ [(True, data)]]) k data" using assms(5,6) l by (simp add: only_live_def)
  then have "stores D t ss (st1\<lparr>fdev := d'\<rparr>) (Some data)" using assms(1) d'(2) by (auto simp: stores_def contents_def)
  moreover have "parameter_flashfs_write D t data st = Some (int (length data), st1\<lparr>fdev := d'\<rparr>)"
    using assms(2,3) d'(1) size_field_small(1) [OF assms(8)]
    by (simp add: parameter_flashfs_write_def Let_def total_size_def)
  ultimately show ?thesis by blast
qed

lemma write_first:
  assumes "map_ok D ss" and "logs_ok D t ss st logs" and "contents logs None" and "fits ss data"
  shows "\<exists>st'. parameter_flashfs_write D t data st = Some (int (length data), st') \<and> stores D t ss st' (Some data)"
proof -
  let ?n = "total_size (length data)"
  have l: "length logs = length ss" "sector_map st = Some ss" using assms(2) by (simp_all add: logs_ok_def)
  then have dead: "dead (logs ! i)" if "i < length ss" for i using assms(3) that by (simp add: contents_def)
  obtain s ss' where ss: "ss = s # ss'" using assms(1) by (cases ss) (auto simp: map_ok_def)
  have f: "?n < 65536" "?n + 4 \<le> sd_size s" using assms(4) ss by (simp_all add: fits_def)
  have u: "unat (word_of_nat ?n :: u16) = ?n" using f(1) by (simp add: unat_of_nat take_bit_nat_eq_self)
  have "sector_holds (fs_mem D st) t s []" using assms(2,3) ss by (auto simp: logs_ok_def contents_def)
  moreover have "8 \<le> sd_size s" using f(2) total_size_bounds(2) [of "length data"] by simp
  ultimately have "find_free (fs_mem D st) (word_of_nat ?n) ss = Some (Some (sd_address s))"
    using find_free_first [of "fs_mem D st" t s "word_of_nat ?n" ss'] u f ss by simp
  then have "place_entry D t ?n ss st = Some (Inr (sd_address s), st)"
    using find_none_live [OF assms(1,2) dead] by (simp add: place_entry_def)
  then show ?thesis
    by (rule write_at [OF assms(1) _ l(2) assms(2) dead, where k = 0]) (use f ss assms(3) in \<open>auto simp: contents_def\<close>)
qed

lemma write_again:
  assumes "map_ok D ss" and "logs_ok D t ss st logs" and "only_live logs k d" and "fits ss data"
  shows "\<exists>st'. parameter_flashfs_write D t data st = Some (int (length data), st') \<and> stores D t ss st' (Some data)"
proof -
  let ?n = "total_size (length data)"
  have l: "length logs = length ss" "sector_map st = Some ss" using assms(2) by (simp_all add: logs_ok_def)
  obtain log where log: "k < length ss" "logs ! k = log @ [(True, d)]" "dead log" "\<And>i. i < length ss \<Longrightarrow> i \<noteq> k \<Longrightarrow> dead (logs ! i)"
    using assms(3) l by (auto simp: only_live_def)
  have f: "?n < 65536" "?n + 4 \<le> sd_size (ss ! i)" if "i < length ss" for i using assms(4) that by (simp_all add: fits_def)
  let ?pf = "sd_address (ss ! k) + length (log_bytes t log)"
  obtain st1 where st1: "erase_entry D ?pf st = (2, st1)" "logs_ok D t ss st1 (logs[k := log @ [(False, d)]])"
    using erase_log_entry [OF assms(1,2) log(1,2)] .
  let ?logs = "logs[k := log @ [(False, d)]]"
  have dead: "dead (?logs ! i)" if "i < length ss" for i using log that l by (cases "i = k") simp_all
  note found = find_the_live [OF assms(1,2) log]
  note room = check_room [OF assms(1,2) log(1,2) total_size_bounds(1), of "length data"]
  have len: "length (log_bytes t (?logs ! k)) = length (log_bytes t (logs ! k))" using log(1,2) l by simp
  show ?thesis
  proof (cases "length (log_bytes t (logs ! k)) + ?n + 4 \<le> sd_size (ss ! k)")
    case True
    have "sector_holds (fs_mem D st1) t (ss ! k) (log @ [(False, d)])" using st1(2) log(1) l by (auto simp: logs_ok_def)
    then have "holds (fs_mem D st1) ?pf (log_entry t (False, d))" "total_size (length d) < 65536"
      by (simp_all add: sector_holds_def holds_append)
    then have "next_entry (fs_mem D st1) ?pf = sd_address (ss ! k) + length (log_bytes t (?logs ! k))"
      using entry_of_log(4) [of "fs_mem D st1" ?pf t "(False, d)"] log(1) l by simp
    then have "place_entry D t ?n ss st = Some (Inr (sd_address (ss ! k) + length (log_bytes t (?logs ! k))), st1)"
      using found room True st1(1) by (simp add: place_entry_def)
    then show ?thesis
      by (rule write_at [OF assms(1) _ l(2) st1(2) dead log(1)]) (use f [OF log(1)] True len in auto)
  next
    case False
    define j where "j = get_next_sector_descriptor ss k"
    have j: "j < length ss" using log(1) by (auto simp: j_def get_next_sector_descriptor_def)
    have s: "sector_holds (fs_mem D st1) t (ss ! j) (?logs ! j)" using st1(2) j by (simp add: logs_ok_def)
    have c: "blank_check (fs_mem D st1) (sd_address (ss ! j)) ?n \<longleftrightarrow> ?logs ! j = []"
      by (rule blank_check_log [OF s]) (use f(2) [OF j] total_size_bounds(2) [of "length data"] in auto)
    obtain st2 where st2: "erase_sector D (ss ! j) (sd_address (ss ! j)) st1 = (0, st2)" "logs_ok D t ss st2 (?logs[j := []])"
      using erase_log [OF assms(1) st1(2) j] .
    define st3 where "st3 = (if ?logs ! j = [] then st1 else st2)"
    have "logs_ok D t ss st3 (?logs[j := []])"
      using st1(2) st2(2) by (cases "?logs ! j = []") (simp_all add: st3_def list_update_same_conv [THEN iffD2] l j)
    moreover have "place_entry D t ?n ss st = Some (Inr (sd_address (ss ! j)), st3)"
      using found room False st1(1) st2(1) c f(2) [OF j] by (simp add: place_entry_def st3_def j_def [symmetric] Let_def)
    moreover have "dead (?logs[j := []] ! i)" if "i < length ss" for i using dead [OF that] that l by (cases "i = j") simp_all
    ultimately show ?thesis
      using write_at [OF assms(1) _ l(2), of t data "sd_address (ss ! j)" st3 "?logs[j := []]" j] f [OF j] j l by simp
  qed
qed

lemma write_stores:
  assumes "stores D t ss st v" and "fits ss data"
  shows "\<exists>st'. parameter_flashfs_write D t data st = Some (int (length data), st') \<and> stores D t ss st' (Some data)"
proof -
  obtain logs where s: "map_ok D ss" "logs_ok D t ss st logs" "contents logs v" using assms(1) by (auto simp: stores_def)
  show ?thesis
  proof (cases v)
    case None
    then show ?thesis using write_first [OF s(1,2) _ assms(2)] s(3) by simp
  next
    case (Some d)
    then obtain k where "only_live logs k d" using s(3) by (auto simp: contents_def)
    then show ?thesis using write_again [OF s(1,2) _ assms(2)] by blast
  qed
qed

lemma read_stored:
  assumes "stores D t ss st (Some d)"
  shows "\<exists>a. parameter_flashfs_read D t st = Some (int (length d), Some (a, length d)) \<and> mem_list (fs_mem D st) a (length d) = d"
proof -
  obtain logs k where s: "map_ok D ss" "logs_ok D t ss st logs" "only_live logs k d" using assms by (auto simp: stores_def contents_def)
  then obtain log where log: "k < length ss" "logs ! k = log @ [(True, d)]" "dead log" "\<And>i. i < length ss \<Longrightarrow> i \<noteq> k \<Longrightarrow> dead (logs ! i)"
    by (auto simp: only_live_def logs_ok_def)
  let ?pf = "sd_address (ss ! k) + length (log_bytes t log)"
  have "sector_holds (fs_mem D st) t (ss ! k) (log @ [(True, d)])" using s(2) log(1,2) by (auto simp: logs_ok_def)
  then have h: "holds (fs_mem D st) ?pf (entry_bytes (valid_flag d) t d)" "total_size (length d) < 65536"
    by (simp_all add: sector_holds_def holds_append log_entry_def)
  have "parameter_flashfs_read D t st = Some (int (length d), Some (entry_data ?pf, length d))"
    using find_the_live [OF s(1,2) log] data_length [OF h] s(2) by (simp add: parameter_flashfs_read_def logs_ok_def Let_def)
  then show ?thesis using mem_list_holds [OF entry_fields(8) [OF h]] by blast
qed

lemma read_absent:
  assumes "stores D t ss st None"
  shows "parameter_flashfs_read D t st = Some (- ENOENT, None)"
proof -
  obtain logs where s: "map_ok D ss" "logs_ok D t ss st logs" "contents logs None" using assms by (auto simp: stores_def)
  then have "find_entry (fs_mem D st) t ss = Some None" by (intro find_none_live [OF s(1,2)]) (simp add: contents_def logs_ok_def)
  then show ?thesis using s(2) by (simp add: parameter_flashfs_read_def logs_ok_def)
qed

end
