(* ===== verification/Flashfs_Store.thy ===== *)
theory Flashfs_Store
  imports Flashfs_Log
begin

text \<open>
  The parameter storage as a store of one file: erase, writes, reads and starts, the interface \<open>file_store\<close>
  with its interpretation on \<open>flashfs.c\<close>, and the properties of the component.
\<close>

section \<open>Erasing and starting\<close>

lemma erase_all_ok:
  assumes "f4_ok D" and "\<forall>s \<in> set ss. sector_ok D s"
  shows "\<exists>st'. erase_all D ss rv st = (rv + int (sum_list (map sd_size ss)), st') \<and> sector_map st' = sector_map st \<and>
    (\<forall>x. fs_mem D st' x = (if \<exists>s \<in> set ss. in_page D (sd_page s) x then 0xff else fs_mem D st x))"
  using assms(2)
proof (induction ss arbitrary: rv st)
  case (Cons s ss)
  obtain st1 where st1: "erase_sector D s (sd_address s) st = (0, st1)" "sector_map st1 = sector_map st"
      "\<And>x. fs_mem D st1 x = (if in_page D (sd_page s) x then 0xff else fs_mem D st x)"
    by (rule erase_sector_ok [OF assms(1), of s st]) (use Cons.prems in auto)
  obtain st' where st': "erase_all D ss (rv + int (sd_size s)) st1 = (rv + int (sd_size s) + int (sum_list (map sd_size ss)), st')"
      "sector_map st' = sector_map st1"
      "\<forall>x. fs_mem D st' x = (if \<exists>s \<in> set ss. in_page D (sd_page s) x then 0xff else fs_mem D st1 x)"
    using Cons.IH [of "rv + int (sd_size s)" st1] Cons.prems by auto
  have "erase_all D (s # ss) rv st = (rv + int (sum_list (map sd_size (s # ss))), st')" using st1(1) st'(1) by simp
  moreover have "fs_mem D st' x = (if \<exists>s \<in> set (s # ss). in_page D (sd_page s) x then 0xff else fs_mem D st x)" for x
    using st'(3) [rule_format, of x] st1(3) [of x] by auto
  ultimately show ?case using st1(2) st'(2) by auto
qed simp

lemma erase_stores:
  assumes "map_ok D ss" and "sector_map st = Some ss"
  shows "\<exists>st'. parameter_flashfs_erase D st = (int (sum_list (map sd_size ss)), st') \<and> stores D t ss st' None"
proof -
  have m: "f4_ok D" "\<forall>s \<in> set ss. sector_ok D s" "ss \<noteq> []" using assms(1) by (simp_all add: map_ok_def)
  obtain st' where st': "erase_all D ss 0 st = (int (sum_list (map sd_size ss)), st')" "sector_map st' = Some ss"
      "\<forall>x. fs_mem D st' x = (if \<exists>s \<in> set ss. in_page D (sd_page s) x then 0xff else fs_mem D st x)"
    using erase_all_ok [OF m(1,2), of 0 st] assms(2) by auto
  have "sector_holds (fs_mem D st') t (ss ! k) []" if k: "k < length ss" for k
    by (rule erased_sector [OF assms(1) k]) (use st'(3) nth_mem [OF k] in auto)
  then have "logs_ok D t ss st' (replicate (length ss) [])" using st'(2) by (simp add: logs_ok_def)
  moreover have "contents (replicate (length ss) []) None" using m(3) by (simp add: contents_def)
  ultimately show ?thesis using st'(1) assms by (auto simp: stores_def parameter_flashfs_erase_def)
qed

text \<open>A start finds the file in the flash of the last run.\<close>

lemma init_keeps:
  assumes "stores D parameters_token ss st (Some d)" and "fdev st0 = fdev st"
  shows "\<exists>st'. parameter_flashfs_init D ss buffer st0 = Some (0, st') \<and> fdev st' = fdev st \<and> stores D parameters_token ss st' (Some d)"
proof -
  obtain logs k where s: "map_ok D ss" "logs_ok D parameters_token ss st logs" "only_live logs k d"
    using assms(1) by (auto simp: stores_def contents_def)
  define st' where "st' = st0\<lparr>sector_map := Some ss, working_buffer_static := buffer \<noteq> None, working_buffer := buffer,
                  working_buffer_size := word_of_nat (case buffer of None \<Rightarrow> 0 | Some b \<Rightarrow> length b), last_erased := - 1\<rparr>"
  have f: "fdev st' = fdev st" "sector_map st' = Some ss" using assms(2) by (simp_all add: st'_def)
  then have "logs_ok D parameters_token ss st' logs" using s(2) by (simp add: logs_ok_def fs_mem_def fun_eq_iff)
  then have k: "stores D parameters_token ss st' (Some d)" using s(1,3) by (auto simp: stores_def contents_def)
  obtain pf where "find_entry (fs_mem D st') parameters_token ss = Some (Some pf)"
    using read_stored [OF k] f(2) by (auto simp: parameter_flashfs_read_def bind_eq_Some_conv split: option.splits)
  then have "parameter_flashfs_init D ss buffer st0 = Some (0, st')"
    unfolding parameter_flashfs_init_def Let_def st'_def [symmetric] by simp
  then show ?thesis using f(1) k by blast
qed

section \<open>The store as an interface\<close>

text \<open>A sequence of updates with the results of each.\<close>

primrec save_all :: "('v \<Rightarrow> 's \<Rightarrow> (int \<times> 's) option) \<Rightarrow> 'v list \<Rightarrow> 's \<Rightarrow> (int list \<times> 's) option" where
  "save_all save [] s = Some ([], s)"
| "save_all save (x # xs) s = do { (r, s) \<leftarrow> save x s; (rs, s) \<leftarrow> save_all save xs s; Some (r # rs, s) }"

text \<open>
  What the users of a store of one file rely on: an update that fits is reported with its size and kept, and what
  is kept is what is read.
\<close>

locale file_store =
  fixes ok :: "'s \<Rightarrow> 'v option \<Rightarrow> bool"
    and save :: "'v \<Rightarrow> 's \<Rightarrow> (int \<times> 's) option"
    and load :: "'s \<Rightarrow> 'v option option"
    and fit :: "'v \<Rightarrow> bool"
    and bytes :: "'v \<Rightarrow> int"
  assumes save_ok: "ok s v \<Longrightarrow> fit x \<Longrightarrow> \<exists>s'. save x s = Some (bytes x, s') \<and> ok s' (Some x)"
    and load_ok: "ok s v \<Longrightarrow> load s = Some v"
begin

lemma save_all_ok:
  assumes "ok s v" and "\<forall>x \<in> set xs. fit x"
  shows "\<exists>s'. save_all save xs s = Some (map bytes xs, s') \<and> ok s' (if xs = [] then v else Some (last xs))"
  using assms
proof (induction xs arbitrary: s v)
  case (Cons x xs)
  obtain s1 where s1: "save x s = Some (bytes x, s1)" "ok s1 (Some x)" using save_ok [OF Cons.prems(1)] Cons.prems(2) by auto
  then obtain s' where "save_all save xs s1 = Some (map bytes xs, s')" "ok s' (if xs = [] then Some x else Some (last xs))"
    using Cons.IH Cons.prems(2) by fastforce
  then show ?case using s1(1) by (simp split: if_splits)
qed simp

lemma last_save_loads:
  assumes "ok s v" and "\<forall>x \<in> set xs. fit x"
  shows "\<exists>s'. save_all save xs s = Some (map bytes xs, s') \<and> ok s' (if xs = [] then v else Some (last xs)) \<and>
    load s' = Some (if xs = [] then v else Some (last xs))"
  using save_all_ok [OF assms] load_ok by blast

end

text \<open>Reading a file through the pointer that \<^const>\<open>parameter_flashfs_read\<close> returns.\<close>

definition read_file :: "'d f4_dev \<Rightarrow> u32 \<Rightarrow> 'd flashfs \<Rightarrow> u8 list option option" where
  "read_file D t st = map_option (\<lambda>(rv, p). map_option (\<lambda>(a, n). mem_list (fs_mem D st) a n) p) (parameter_flashfs_read D t st)"

lemma read_file_stored:
  assumes "stores D t ss st v"
  shows "read_file D t st = Some v"
proof (cases v)
  case None
  then show ?thesis using read_absent [of D t ss st] assms by (simp add: read_file_def)
next
  case (Some d)
  then show ?thesis using read_stored [of D t ss st d] assms by (auto simp: read_file_def)
qed

interpretation flash_file: file_store "stores D t ss" "parameter_flashfs_write D t" "read_file D t" "fits ss" "\<lambda>d. int (length d)"
  for D :: "'d f4_dev" and t ss
  by unfold_locales (fact write_stores, fact read_file_stored)

section \<open>A flash in memory\<close>

section \<open>Properties\<close>

text \<open>
  C34. The parameter file is a register: after \<open>parameter_flashfs_erase\<close>, whatever the flash held before, any sequence
  of \<open>parameter_flashfs_write\<close> of files that fit into a sector reports the size of each, and \<open>parameter_flashfs_read\<close> returns
  the last of them, or no file if there was none, also after the next start with \<open>parameter_flashfs_init\<close>.  The
  sequence passes through full sectors, the step to the next sector, the erase of a sector that is not
  blank and the return to the first.
\<close>

theorem flashfs_last_write_wins:
  assumes "map_ok D ss" and "sector_map st = Some ss" and "\<forall>d \<in> set ds. fits ss d"
  shows "\<exists>st0 st1. parameter_flashfs_erase D st = (int (sum_list (map sd_size ss)), st0) \<and>
    save_all (parameter_flashfs_write D parameters_token) ds st0 = Some (map (\<lambda>d. int (length d)) ds, st1) \<and>
    read_file D parameters_token st1 = Some (if ds = [] then None else Some (last ds)) \<and>
    (ds \<noteq> [] \<longrightarrow> (\<forall>buffer boot. fdev boot = fdev st1 \<longrightarrow>
      (\<exists>st2. parameter_flashfs_init D ss buffer boot = Some (0, st2) \<and> read_file D parameters_token st2 = Some (Some (last ds)))))"
proof -
  obtain st0 where st0: "parameter_flashfs_erase D st = (int (sum_list (map sd_size ss)), st0)" "stores D parameters_token ss st0 None"
    using erase_stores [OF assms(1,2)] by blast
  obtain st1 where st1: "save_all (parameter_flashfs_write D parameters_token) ds st0 = Some (map (\<lambda>d. int (length d)) ds, st1)"
      "stores D parameters_token ss st1 (if ds = [] then None else Some (last ds))"
      "read_file D parameters_token st1 = Some (if ds = [] then None else Some (last ds))"
    using flash_file.last_save_loads [OF st0(2) assms(3)] by blast
  have "\<exists>st2. parameter_flashfs_init D ss buffer boot = Some (0, st2) \<and> read_file D parameters_token st2 = Some (Some (last ds))"
    if "ds \<noteq> []" "fdev boot = fdev st1" for buffer boot
    using init_keeps [of D ss st1 "last ds" boot buffer] st1(2) that read_file_stored by fastforce
  then show ?thesis using st0(1) st1(1,3) by blast
qed

definition two_pages :: "sector_descriptor list" where
  "two_pages = [\<lparr>sd_page = 1, sd_size = 32, sd_address = 0x08000020\<rparr>, \<lparr>sd_page = 2, sd_size = 32, sd_address = 0x08000040\<rparr>]"

lemma two_pages_ok: "map_ok (ram_f4 [32, 32, 32]) two_pages"
proof -
  have "up_progmem_getaddress_f4 (ram_f4 [32, 32, 32]) 1 = 0x08000020" "up_progmem_getaddress_f4 (ram_f4 [32, 32, 32]) 2 = 0x08000040"
    by (simp_all add: getaddress_sum STM32_FLASH_BASE_def)
  then show ?thesis using ram_f4_ok by (simp add: map_ok_def two_pages_def sector_ok_def up_progmem_pagesize_f4_def)
qed

lemma flashfs_last_write_wins_witness:
  "\<exists>st0 st1. save_all (parameter_flashfs_write (ram_f4 [32, 32, 32]) parameters_token) [[1], [2, 3], [4]] st0 = Some ([1, 2, 1], st1) \<and>
     read_file (ram_f4 [32, 32, 32]) parameters_token st1 = Some (Some [4])"
  using flashfs_last_write_wins [OF two_pages_ok, of "\<lparr>fdev = (\<lambda>_. 7), sector_map = Some two_pages, working_buffer = None,
      working_buffer_size = 0, working_buffer_static = False, last_erased = 0\<rparr>" "[[1], [2, 3], [4]]"]
  by (auto simp: fits_def two_pages_def total_size_def size_adjust_def)

text \<open>
  An entry whose checksum does not match hides every entry behind it: the search leaves the sector.  After a write that
  was cut short, valid entries behind the torn one, such as those of the writes that follow, are not found.
\<close>

theorem torn_entry_hides_sector:
  assumes "holds m (sd_address s) (log_bytes t log @ entry_with crc f t d)" and "small log" and "dead log"
    and "total_size (length d) < 65536" and "crc \<noteq> crc32part (entry_body t d) 0"
    and "sd_address s + length (log_bytes t log) < sector_last s"
  shows "find_entry m t (s # ss) = find_entry m t ss"
proof -
  have "find_in_sector m t pe p = Some None"
    if "holds m p (log_bytes t log @ entry_with crc f t d)" "small log" "dead log" "p + length (log_bytes t log) < pe" for pe p
    using that
  proof (induction log arbitrary: p)
    case Nil
    then have "valid_magic m p" "\<not> crc_good m p" using entry_with_fields [of m p crc f t d] assms(4,5) by simp_all
    then show ?case using Nil by (subst find_in_sector.simps) simp
  next
    case (Cons e log)
    then have "holds m p (log_entry t e)" "total_size (length (snd e)) < 65536" by (simp_all add: holds_append)
    note f = entry_of_log [OF this]
    have "find_in_sector m t pe (p + total_size (length (snd e))) = Some None"
      using Cons.prems by (intro Cons.IH) (simp_all add: holds_append add.assoc)
    moreover have "p \<noteq> pe" using Cons.prems(4) by simp
    ultimately show ?case using f Cons.prems(3) by (subst find_in_sector.simps) simp
  qed
  then show ?thesis using assms by simp
qed

definition torn_flash :: "nat \<Rightarrow> u8" where
  "torn_flash x = (entry_with (crc32part (entry_body 7 [1, 2]) 0 + 1) (valid_flag [1, 2]) 7 [1, 2] @ entry_bytes (valid_flag [3]) 7 [3]) ! x"

lemma torn_entry_hides_sector_witness:
  "valid_magic torn_flash 20 \<and> crc_good torn_flash 20 \<and> valid_entry torn_flash 20 \<and> fe_token torn_flash 20 = 7 \<and>
   find_entry torn_flash 7 [\<lparr>sd_page = 1, sd_size = 40, sd_address = 0\<rparr>] = Some None"
proof -
  let ?torn = "entry_with (crc32part (entry_body 7 [1, 2]) 0 + 1) (valid_flag [1, 2]) 7 [1, 2]"
  let ?good = "entry_bytes (valid_flag [3]) 7 [3]"
  have n: "total_size (length [1 :: u8, 2]) = 20" "total_size (length [3 :: u8]) = 20" by (simp_all add: total_size_def size_adjust_def)
  have "holds torn_flash 0 (?torn @ ?good)" by (simp add: holds_nth torn_flash_def)
  then have h: "holds torn_flash 0 ?torn" "holds torn_flash 20 ?good" using n(1) by (simp_all only: holds_append length_entry_with) simp_all
  have "find_entry torn_flash 7 (\<lparr>sd_page = 1, sd_size = 40, sd_address = 0\<rparr> # []) = find_entry torn_flash 7 []"
    by (rule torn_entry_hides_sector [where log = "[]" and crc = "crc32part (entry_body 7 [1, 2]) 0 + 1" and d = "[1, 2]" and f = "valid_flag [1, 2]"])
      (use h(1) n(1) in \<open>simp_all add: sector_last_def\<close>)
  then show ?thesis using entry_fields(1,3,5,6) [OF h(2)] flags(1) [of "[3]"] n(2) by (simp add: valid_entry_def)
qed

end
