(* ===== verification/Can_Uavcan.thy ===== *)
theory Can_Uavcan
  imports Crc Bl_Timer "HOL-Library.Monad_Syntax"
begin

text \<open>
  The transfers of the CAN bootloader: \<open>canbootloader/protocol/uavcan.c\<close>.  A transfer is cut into frames of at
  most seven bytes and a tail byte; a transfer of several frames starts with a checksum.

  The CAN driver is the record \<open>can_driver\<close> of its operations on a state of type \<open>'w\<close>.  The state of the
  bootloader is that of its timers, whose environment carries the variables of \<open>uavcan.c\<close> and is extended by those of
  the main program.  The receiver polls, and interrupts come in between: the argument \<open>isr\<close> says what they do at
  every turn of the loop.  \<open>None\<close> means that the code does not return or that its behaviour is undefined.
\<close>

section \<open>Identifiers and tail bytes\<close>

text \<open>Bit fields: position and length as in \<open>uavcan_can_id_defs.h\<close>.\<close>

definition get_field :: "nat \<Rightarrow> nat \<Rightarrow> 'a::len word \<Rightarrow> 'a word" where
  "get_field pos n w = take_bit n (drop_bit pos w)"

definition field_mask :: "nat \<Rightarrow> nat \<Rightarrow> 'a::len word" where
  "field_mask pos n = push_bit pos (mask n)"

definition put_field :: "nat \<Rightarrow> nat \<Rightarrow> 'a::len word \<Rightarrow> 'a word \<Rightarrow> 'a word" where
  "put_field pos n v w = (w AND NOT (field_mask pos n)) OR push_bit pos (take_bit n v)"

record uavcan_protocol =
  id_u32 :: u32
  tail_u8 :: u8

definition MaskUavCanMessageTypeID :: u32 where "MaskUavCanMessageTypeID = field_mask 8 16"
definition MaskUavCanMessageServiceNotMessage :: u32 where "MaskUavCanMessageServiceNotMessage = field_mask 7 1"
definition MaskUavCanMessageSourceNodeID :: u32 where "MaskUavCanMessageSourceNodeID = field_mask 0 7"
definition MaskUavCanServiceTypeID :: u32 where "MaskUavCanServiceTypeID = field_mask 16 8"
definition MaskUavCanServiceRequestNotResponse :: u32 where "MaskUavCanServiceRequestNotResponse = field_mask 15 1"
definition MaskUavCanServiceDestinationNodeID :: u32 where "MaskUavCanServiceDestinationNodeID = field_mask 8 7"
definition MaskUavCanStartOfTransfer :: u8 where "MaskUavCanStartOfTransfer = field_mask 7 1"
definition MaskUavCanEndOfTransfer :: u8 where "MaskUavCanEndOfTransfer = field_mask 6 1"
definition MaskUavCanToggle :: u8 where "MaskUavCanToggle = field_mask 5 1"
definition MaskUavCanTransferID :: u8 where "MaskUavCanTransferID = field_mask 0 5"

definition SingleFrameTailInit :: u8 where "SingleFrameTailInit = MaskUavCanStartOfTransfer OR MaskUavCanEndOfTransfer"
definition MultiFrameTailInit :: u8 where "MultiFrameTailInit = MaskUavCanStartOfTransfer"
definition BadTailState :: u8 where "BadTailState = MaskUavCanStartOfTransfer OR MaskUavCanToggle"

abbreviation MaxUserPayloadLength :: nat where "MaxUserPayloadLength \<equiv> 7"
abbreviation PayloadOffsetCRCdata :: nat where "PayloadOffsetCRCdata \<equiv> 2"

definition source_node_id :: "uavcan_protocol \<Rightarrow> u8" where "source_node_id p = ucast (get_field 0 7 (id_u32 p))"
definition service_not_message :: "uavcan_protocol \<Rightarrow> bool" where "service_not_message p \<longleftrightarrow> bit (id_u32 p) 7"
definition ser_priority :: "uavcan_protocol \<Rightarrow> u8" where "ser_priority p = ucast (get_field 24 5 (id_u32 p))"

definition set_source_node_id :: "u8 \<Rightarrow> uavcan_protocol \<Rightarrow> uavcan_protocol" where
  "set_source_node_id v p = p\<lparr>id_u32 := put_field 0 7 (ucast v) (id_u32 p)\<rparr>"
definition set_dest_node_id :: "u8 \<Rightarrow> uavcan_protocol \<Rightarrow> uavcan_protocol" where
  "set_dest_node_id v p = p\<lparr>id_u32 := put_field 8 7 (ucast v) (id_u32 p)\<rparr>"
definition set_priority :: "u8 \<Rightarrow> uavcan_protocol \<Rightarrow> uavcan_protocol" where
  "set_priority v p = p\<lparr>id_u32 := put_field 24 5 (ucast v) (id_u32 p)\<rparr>"
definition set_discriminator :: "u16 \<Rightarrow> uavcan_protocol \<Rightarrow> uavcan_protocol" where
  "set_discriminator v p = p\<lparr>id_u32 := put_field 10 14 (ucast v) (id_u32 p)\<rparr>"

definition tail_transfer_id :: "uavcan_protocol \<Rightarrow> u8" where "tail_transfer_id p = get_field 0 5 (tail_u8 p)"
definition tail_toggle :: "uavcan_protocol \<Rightarrow> bool" where "tail_toggle p \<longleftrightarrow> bit (tail_u8 p) 5"
definition tail_eot :: "uavcan_protocol \<Rightarrow> bool" where "tail_eot p \<longleftrightarrow> bit (tail_u8 p) 6"
definition tail_sot :: "uavcan_protocol \<Rightarrow> bool" where "tail_sot p \<longleftrightarrow> bit (tail_u8 p) 7"

definition set_transfer_id :: "u8 \<Rightarrow> uavcan_protocol \<Rightarrow> uavcan_protocol" where
  "set_transfer_id v p = p\<lparr>tail_u8 := put_field 0 5 v (tail_u8 p)\<rparr>"
definition set_toggle :: "bool \<Rightarrow> uavcan_protocol \<Rightarrow> uavcan_protocol" where
  "set_toggle v p = p\<lparr>tail_u8 := put_field 5 1 (of_bool v) (tail_u8 p)\<rparr>"
definition set_eot :: "bool \<Rightarrow> uavcan_protocol \<Rightarrow> uavcan_protocol" where
  "set_eot v p = p\<lparr>tail_u8 := put_field 6 1 (of_bool v) (tail_u8 p)\<rparr>"
definition set_sot :: "bool \<Rightarrow> uavcan_protocol \<Rightarrow> uavcan_protocol" where
  "set_sot v p = p\<lparr>tail_u8 := put_field 7 1 (of_bool v) (tail_u8 p)\<rparr>"

section \<open>The table of data types\<close>

datatype uavcan_dsdl = DSDLMsgAllocation | DSDLMsgNodeStatus | DSDLReqGetNodeInfo | DSDLRspGetNodeInfo
  | DSDLReqBeginFirmwareUpdate | DSDLRspBeginFirmwareUpdate | DSDLReqGetInfo | DSDLRspGetInfo
  | DSDLReqRead | DSDLRspRead | DSDLMsgLogMessage

record dsdl_t =
  prototype_id :: u32
  signature_crc16 :: u16
  intail :: u8
  outtail :: u8
  mailbox :: u8
  fifo :: u8

definition UAVCAN_DSDL_MESG_DEF :: "u32 \<Rightarrow> u16 \<Rightarrow> u8 \<Rightarrow> u8 \<Rightarrow> u8 \<Rightarrow> u8 \<Rightarrow> dsdl_t" where
  "UAVCAN_DSDL_MESG_DEF dtid sig mb ff inb outb =
     \<lparr>prototype_id = put_field 8 16 dtid 0, signature_crc16 = sig, intail = inb, outtail = outb, mailbox = mb, fifo = ff\<rparr>"

definition UAVCAN_DSDL_SREQ_DEF :: "u32 \<Rightarrow> u16 \<Rightarrow> u8 \<Rightarrow> u8 \<Rightarrow> u8 \<Rightarrow> u8 \<Rightarrow> dsdl_t" where
  "UAVCAN_DSDL_SREQ_DEF dtid sig mb ff inb outb =
     \<lparr>prototype_id = put_field 7 1 1 (put_field 15 1 1 (put_field 16 8 dtid 0)), signature_crc16 = sig,
      intail = inb, outtail = outb, mailbox = mb, fifo = ff\<rparr>"

definition UAVCAN_DSDL_SRSP_DEF :: "u32 \<Rightarrow> u16 \<Rightarrow> u8 \<Rightarrow> u8 \<Rightarrow> u8 \<Rightarrow> u8 \<Rightarrow> dsdl_t" where
  "UAVCAN_DSDL_SRSP_DEF dtid sig mb ff inb outb =
     \<lparr>prototype_id = put_field 7 1 1 (put_field 16 8 dtid 0), signature_crc16 = sig,
      intail = inb, outtail = outb, mailbox = mb, fifo = ff\<rparr>"

fun dsdl_table :: "uavcan_dsdl \<Rightarrow> dsdl_t" where
  "dsdl_table DSDLMsgAllocation = UAVCAN_DSDL_MESG_DEF 1 0xf258 0 0 MultiFrameTailInit SingleFrameTailInit"
| "dsdl_table DSDLMsgNodeStatus = UAVCAN_DSDL_MESG_DEF 341 0xbe5f 1 3 SingleFrameTailInit SingleFrameTailInit"
| "dsdl_table DSDLReqGetNodeInfo = UAVCAN_DSDL_SREQ_DEF 1 0xd9a7 1 1 SingleFrameTailInit MultiFrameTailInit"
| "dsdl_table DSDLRspGetNodeInfo = UAVCAN_DSDL_SRSP_DEF 1 0xd9a7 1 1 SingleFrameTailInit MultiFrameTailInit"
| "dsdl_table DSDLReqBeginFirmwareUpdate = UAVCAN_DSDL_SREQ_DEF 40 0x729e 0 0 MultiFrameTailInit SingleFrameTailInit"
| "dsdl_table DSDLRspBeginFirmwareUpdate = UAVCAN_DSDL_SRSP_DEF 40 0x729e 0 0 MultiFrameTailInit SingleFrameTailInit"
| "dsdl_table DSDLReqGetInfo = UAVCAN_DSDL_SREQ_DEF 45 0x14b9 0 0 SingleFrameTailInit MultiFrameTailInit"
| "dsdl_table DSDLRspGetInfo = UAVCAN_DSDL_SRSP_DEF 45 0x14b9 0 0 SingleFrameTailInit MultiFrameTailInit"
| "dsdl_table DSDLReqRead = UAVCAN_DSDL_SREQ_DEF 48 0x2f12 0 0 SingleFrameTailInit MultiFrameTailInit"
| "dsdl_table DSDLRspRead = UAVCAN_DSDL_SRSP_DEF 48 0x2f12 0 0 SingleFrameTailInit MultiFrameTailInit"
| "dsdl_table DSDLMsgLogMessage = UAVCAN_DSDL_MESG_DEF 16383 0x4570 0 0 0 SingleFrameTailInit"

section \<open>State\<close>

text \<open>The driver: a received frame is its identifier, its length field and eight bytes.\<close>

record 'w can_driver =
  can_rx :: "u8 \<Rightarrow> 'w \<Rightarrow> (u32 \<times> nat \<times> u8 list) option \<times> 'w"
  can_tx :: "u32 \<Rightarrow> u8 list \<Rightarrow> u8 \<Rightarrow> 'w \<Rightarrow> u8 \<times> 'w"
  can_cancel_on_error :: "u8 \<Rightarrow> 'w \<Rightarrow> 'w"

record 'w uavcan =
  g_uavcan_priority :: u8
  g_this_node_id :: u8
  g_server_node_id :: u8
  log_transfer_id :: u8
  allocation_transfer_id :: u8
  can :: 'w

type_synonym ('cb, 'w, 'x) can_state = "('cb, ('w, 'x) uavcan_scheme) bl_sched"

definition upd_env :: "('e \<Rightarrow> 'e) \<Rightarrow> ('cb, 'e) bl_sched \<Rightarrow> ('cb, 'e) bl_sched" where
  "upd_env f s = s\<lparr>bl_env := f (bl_env s)\<rparr>"

definition with_can :: "('w \<Rightarrow> 'r \<times> 'w) \<Rightarrow> ('cb, 'w, 'x) can_state \<Rightarrow> 'r \<times> ('cb, 'w, 'x) can_state" where
  "with_can f s = (case f (can (bl_env s)) of (r, w) \<Rightarrow> (r, upd_env (\<lambda>e. e\<lparr>can := w\<rparr>) s))"

definition UavcanOk :: u8 where "UavcanOk = 0"
definition UavcanBootTimeout :: u8 where "UavcanBootTimeout = 1"
definition UavcanError :: u8 where "UavcanError = 3"

abbreviation ANY_NODE_ID :: u8 where "ANY_NODE_ID \<equiv> 0"

section \<open>Masks and protocol headers\<close>

datatype uavcan_transfer_stage = Initialization | OnStartOfTransfer

fun uavcan_init_comapare_masks :: "uavcan_transfer_stage \<Rightarrow> uavcan_protocol \<Rightarrow> uavcan_protocol \<Rightarrow> uavcan_protocol" where
  "uavcan_init_comapare_masks OnStartOfTransfer protocol masks =
     masks\<lparr>id_u32 := id_u32 masks OR MaskUavCanMessageSourceNodeID, tail_u8 := tail_u8 masks OR MaskUavCanTransferID\<rparr>"
| "uavcan_init_comapare_masks Initialization protocol masks =
     \<lparr>id_u32 =
        (if service_not_message protocol then
           MaskUavCanServiceTypeID OR MaskUavCanServiceRequestNotResponse OR MaskUavCanServiceDestinationNodeID
           OR MaskUavCanMessageServiceNotMessage
           OR (if source_node_id protocol \<noteq> ANY_NODE_ID then MaskUavCanMessageSourceNodeID else 0)
         else if source_node_id protocol = ANY_NODE_ID then MaskUavCanMessageTypeID OR MaskUavCanMessageServiceNotMessage
         else MaskUavCanMessageTypeID OR MaskUavCanMessageServiceNotMessage OR MaskUavCanMessageSourceNodeID),
      tail_u8 = MaskUavCanToggle OR MaskUavCanStartOfTransfer\<rparr>"

definition load_dsdl_protocol ::
  "uavcan_dsdl \<Rightarrow> bool \<Rightarrow> uavcan_protocol \<Rightarrow> u8 \<Rightarrow> ('cb, 'w, 'x) can_state \<Rightarrow> dsdl_t \<times> uavcan_protocol" where
  "load_dsdl_protocol dsdl rx_not_tx protocol that_node_id s =
     (let D = dsdl_table dsdl;
          p = set_priority (g_uavcan_priority (bl_env s)) (protocol\<lparr>id_u32 := prototype_id D\<rparr>);
          p = p\<lparr>tail_u8 := tail_u8 p AND MaskUavCanTransferID\<rparr>;
          service = bit (prototype_id D) 7;
          this = g_this_node_id (bl_env s)
      in (D,
        if rx_not_tx then
          let p = p\<lparr>tail_u8 := tail_u8 p OR intail D\<rparr>
          in if service then set_source_node_id that_node_id (set_dest_node_id this p) else p
        else
          let p = set_source_node_id this (p\<lparr>tail_u8 := tail_u8 p OR outtail D\<rparr>)
          in if service then set_dest_node_id that_node_id p else p))"

section \<open>Sending\<close>

definition uavcan_tx ::
  "'w can_driver \<Rightarrow> uavcan_protocol \<Rightarrow> u8 list \<Rightarrow> u8 \<Rightarrow> ('cb, 'w, 'x) can_state \<Rightarrow> u8 \<times> ('cb, 'w, 'x) can_state" where
  "uavcan_tx K protocol frame_data mb s = with_can (can_tx K (id_u32 protocol) (frame_data @ [tail_u8 protocol]) mb) s"

text \<open>The loop over the bytes: \<open>payload\<close> holds what is collected for the next frame.\<close>

fun tx_loop ::
  "'w can_driver \<Rightarrow> u8 \<Rightarrow> u8 list \<Rightarrow> u8 list \<Rightarrow> uavcan_protocol \<Rightarrow> ('cb, 'w, 'x) can_state \<Rightarrow> u8 \<times> uavcan_protocol \<times> ('cb, 'w, 'x) can_state" where
  "tx_loop K mb payload [] protocol s = (UavcanOk, protocol, s)"
| "tx_loop K mb payload (b # bs) protocol s =
     (let payload = payload @ [b];
          protocol = set_eot (bs = []) protocol
      in if length payload = MaxUserPayloadLength \<or> tail_eot protocol then
           case uavcan_tx K protocol payload mb s of
             (rv, s) \<Rightarrow>
               if rv \<noteq> UavcanOk then (rv, protocol, s)
               else tx_loop K mb [] bs (set_sot False (set_toggle (\<not> tail_toggle protocol) protocol)) s
         else tx_loop K mb payload bs protocol s)"

definition uavcan_tx_dsdl ::
  "'w can_driver \<Rightarrow> uavcan_dsdl \<Rightarrow> uavcan_protocol \<Rightarrow> u8 list \<Rightarrow> ('cb, 'w, 'x) can_state \<Rightarrow> u8 \<times> uavcan_protocol \<times> ('cb, 'w, 'x) can_state" where
  "uavcan_tx_dsdl K dsdl protocol transfer s =
     (case load_dsdl_protocol dsdl False protocol (source_node_id protocol) s of
        (D, protocol) \<Rightarrow>
          let payload =
            (if length transfer > MaxUserPayloadLength then
               let transfer_crc = crc16_signature (signature_crc16 D) (length transfer) transfer
               in [ucast transfer_crc, ucast (drop_bit 8 transfer_crc)]
             else [])
          in tx_loop K (mailbox D) payload transfer protocol s)"

section \<open>Receiving\<close>

record rx_state =
  rx_p :: uavcan_protocol
  rx_masks :: uavcan_protocol
  rx_transfer :: "u8 list"
  rx_crc :: u16
  rx_total :: u32

definition uavcan_make_uint16 :: "u8 \<Rightarrow> u8 \<Rightarrow> u16" where
  "uavcan_make_uint16 d0 d1 = push_bit 8 (ucast d1) OR ucast d0"

definition frame_matches :: "uavcan_protocol \<Rightarrow> rx_state \<Rightarrow> bool" where
  "frame_matches rx r \<longleftrightarrow>
     tail_u8 rx AND BadTailState \<noteq> BadTailState \<and>
     (id_u32 rx XOR id_u32 (rx_p r)) AND id_u32 (rx_masks r) = 0 \<and>
     (tail_u8 rx XOR tail_u8 (rx_p r)) AND tail_u8 (rx_masks r) = 0"

text \<open>Start of a transfer: the new state, the index of the data in the payload and their length.\<close>

definition rx_start :: "uavcan_protocol \<Rightarrow> u8 list \<Rightarrow> u32 \<Rightarrow> rx_state \<Rightarrow> rx_state \<times> nat \<times> u32" where
  "rx_start rx payload rx_length r =
     (if tail_sot rx then
        let p = set_transfer_id (tail_transfer_id rx) (set_source_node_id (source_node_id rx) (set_sot False (rx_p r)));
            r = r\<lparr>rx_p := p, rx_total := 0, rx_masks := uavcan_init_comapare_masks OnStartOfTransfer p (rx_masks r)\<rparr>
        in if \<not> tail_eot rx
           then (r\<lparr>rx_crc := uavcan_make_uint16 (payload ! 0) (payload ! 1)\<rparr>, PayloadOffsetCRCdata, rx_length - 2)
           else (r, 0, rx_length)
      else (r, 0, rx_length))"

definition rx_copy :: "u8 list \<Rightarrow> nat \<Rightarrow> u32 \<Rightarrow> u32 \<Rightarrow> rx_state \<Rightarrow> rx_state" where
  "rx_copy payload payload_index rx_length in_length r =
     (if rx_total r + rx_length \<le> in_length then
        r\<lparr>rx_transfer := take (unat (rx_total r)) (rx_transfer r) @ take (unat rx_length) (drop payload_index payload)
                          @ drop (unat (rx_total r + rx_length)) (rx_transfer r),
          rx_total := rx_total r + rx_length\<rparr>
      else r)"

text \<open>What the loop does with a frame that matches; the boolean says whether it ends the transfer.\<close>

definition rx_accept :: "u32 \<Rightarrow> uavcan_protocol \<Rightarrow> u8 list \<Rightarrow> u32 \<Rightarrow> rx_state \<Rightarrow> bool \<times> rx_state" where
  "rx_accept in_length rx payload rx_length r =
     (case rx_start rx payload rx_length r of
        (r, payload_index, rx_length) \<Rightarrow>
          let ahead = tail_transfer_id rx > tail_transfer_id (rx_p r) \<or> rx_total r \<ge> in_length;
              behind = tail_transfer_id rx < tail_transfer_id (rx_p r);
              r' = (if ahead
                    then r\<lparr>rx_masks := uavcan_init_comapare_masks Initialization (rx_p r) (rx_masks r),
                           rx_p := set_toggle False (set_sot True (rx_p r))\<rparr>
                    else r)
          in if \<not> ahead \<and> behind then (False, r)
             else
               let r = rx_copy payload payload_index rx_length in_length r';
                   r = r\<lparr>rx_p := set_toggle (\<not> tail_toggle (rx_p r)) (rx_p r)\<rparr>
               in (tail_eot rx, r))"

definition rx_turn ::
  "'w can_driver \<Rightarrow> (('cb, 'w, 'x) can_state \<Rightarrow> ('cb, 'w, 'x) can_state option) \<Rightarrow> u8 \<Rightarrow> u32 \<Rightarrow> u8 \<Rightarrow> u32 \<Rightarrow>
   rx_state \<Rightarrow> ('cb, 'w, 'x) can_state \<Rightarrow> (uavcan_protocol option \<times> rx_state \<times> ('cb, 'w, 'x) can_state) option" where
  "rx_turn K isr ff in_length timer timeout_ms r s =
     do {
       s \<leftarrow> isr s;
       case with_can (can_rx K ff) s of
         (None, s) \<Rightarrow> Some (None, r, s)
       | (Some (i, dlc, payload), s) \<Rightarrow>
           if dlc = 0 \<or> dlc > 8 then None
           else
             let rx = \<lparr>id_u32 = i, tail_u8 = payload ! (dlc - 1)\<rparr>
             in if \<not> frame_matches rx r then Some (None, r, s)
                else
                  let s = timer_restart timer timeout_ms s
                  in case rx_accept in_length rx payload (word_of_nat (dlc - 1)) r of
                       (eot, r) \<Rightarrow> Some (if eot then Some rx else None, r, s)
     }"

partial_function (option) rx_loop ::
  "'w can_driver \<Rightarrow> (('cb, 'w, 'x) can_state \<Rightarrow> ('cb, 'w, 'x) can_state option) \<Rightarrow> u8 \<Rightarrow> u32 \<Rightarrow> u8 \<Rightarrow> u32 \<Rightarrow>
   rx_state \<Rightarrow> ('cb, 'w, 'x) can_state \<Rightarrow> (uavcan_protocol option \<times> rx_state \<times> ('cb, 'w, 'x) can_state) option" where
  "rx_loop K isr ff in_length timer timeout_ms r s =
     do {
       (rx, r, s) \<leftarrow> rx_turn K isr ff in_length timer timeout_ms r s;
       if rx \<noteq> None \<or> timer_expired timer s then Some (rx, r, s)
       else rx_loop K isr ff in_length timer timeout_ms r s
     }"

definition modeStarted :: u32 where "modeStarted = 0x40"

text \<open>Result: the error, the protocol, the buffer and the length received.\<close>

definition uavcan_rx_dsdl ::
  "'w can_driver \<Rightarrow> (('cb, 'w, 'x) can_state \<Rightarrow> ('cb, 'w, 'x) can_state option) \<Rightarrow> uavcan_dsdl \<Rightarrow> uavcan_protocol \<Rightarrow> u8 list \<Rightarrow> u32 \<Rightarrow> u32 \<Rightarrow>
   ('cb, 'w, 'x) can_state \<Rightarrow> ((u8 \<times> uavcan_protocol \<times> u8 list \<times> u32) \<times> ('cb, 'w, 'x) can_state) option" where
  "uavcan_rx_dsdl K isr dsdl protocol transfer in_length timeout_ms s =
     (case load_dsdl_protocol dsdl True protocol (source_node_id protocol) s of
        (D, protocol) \<Rightarrow>
          case timer_allocate (modeTimeout OR modeStarted) timeout_ms None s of
            (timer, s) \<Rightarrow>
              let masks = uavcan_init_comapare_masks Initialization protocol \<lparr>id_u32 = 0, tail_u8 = 0\<rparr> in
              do {
                (rx, r, s) \<leftarrow> rx_loop K isr (fifo D) in_length timer timeout_ms
                  \<lparr>rx_p = protocol, rx_masks = masks, rx_transfer = transfer, rx_crc = 0, rx_total = 0\<rparr> s;
                let s = timer_free timer s;
                Some (case rx of
                  None \<Rightarrow> ((UavcanError, rx_p r, rx_transfer r, in_length), s)
                | Some rx \<Rightarrow>
                    ((if tail_sot rx \<or> rx_crc r = crc16_signature (signature_crc16 D) (unat (rx_total r)) (rx_transfer r)
                      then UavcanOk else UavcanError, rx_p r, rx_transfer r, rx_total r), s))
              })"

section \<open>Messages\<close>

text \<open>
  The node information: the fixed part, the certificate and the name, which is moved up behind the
  certificate.
\<close>

record uavcan_GetNodeInfo_response =
  nodes_status :: "u8 list"
  software_version :: "u8 list"
  hardware_version :: "u8 list"
  certificate_of_authenticity_length :: nat
  node_name :: "u8 list"
  name_length :: nat

abbreviation FixedSizeGetNodeInfo :: nat where "FixedSizeGetNodeInfo \<equiv> 7 + 15 + 19"

definition uavcan_pack_GetNodeInfo_response :: "uavcan_GetNodeInfo_response \<Rightarrow> u8 list" where
  "uavcan_pack_GetNodeInfo_response response =
     (let contiguous_length = FixedSizeGetNodeInfo + certificate_of_authenticity_length response
      in take contiguous_length (nodes_status response @ software_version response @ hardware_version response)
         @ take (name_length response) (node_name response))"

definition uavcan_pack_LogMessage :: "u8 \<Rightarrow> u8 list \<Rightarrow> u8 list \<Rightarrow> u8 list" where
  "uavcan_pack_LogMessage level source text =
     ((push_bit 5 level AND field_mask 5 3) OR (4 AND field_mask 0 5)) # source @ text"

definition debug_log_source :: "u8 list" where "debug_log_source = [0x42, 0x6f, 0x6f, 0x74]"

definition uavcan_tx_log_message ::
  "'w can_driver \<Rightarrow> u8 \<Rightarrow> u8 \<Rightarrow> u8 \<Rightarrow> ('cb, 'w, 'x) can_state \<Rightarrow> ('cb, 'w, 'x) can_state" where
  "uavcan_tx_log_message K level stage status s =
     (let p = set_transfer_id (log_transfer_id (bl_env s)) \<lparr>id_u32 = 0, tail_u8 = 0\<rparr>;
          s = upd_env (\<lambda>e. e\<lparr>log_transfer_id := log_transfer_id e + 1\<rparr>) s
      in case load_dsdl_protocol DSDLMsgLogMessage False p 0 s of
           (D, p) \<Rightarrow> snd (uavcan_tx K p (uavcan_pack_LogMessage level debug_log_source [stage, status]) (mailbox D) s))"

abbreviation MAX_LENGTH_OF_UNIQUE_ID_IN_REQUEST :: nat where "MAX_LENGTH_OF_UNIQUE_ID_IN_REQUEST \<equiv> 6"

definition uavcan_tx_allocation_message ::
  "'w can_driver \<Rightarrow> u8 \<Rightarrow> u8 list \<Rightarrow> nat \<Rightarrow> u16 \<Rightarrow> ('cb, 'w, 'x) can_state \<Rightarrow> ('cb, 'w, 'x) can_state" where
  "uavcan_tx_allocation_message K requested_node_id unique_id unique_id_offset random s =
     (let p = set_transfer_id (allocation_transfer_id (bl_env s)) \<lparr>id_u32 = 0, tail_u8 = 0\<rparr>;
          s = upd_env (\<lambda>e. e\<lparr>allocation_transfer_id := allocation_transfer_id e + 1\<rparr>) s
      in case load_dsdl_protocol DSDLMsgAllocation False p 0 s of
           (D, p) \<Rightarrow>
             let p = set_discriminator random p;
                 max_copy = min MAX_LENGTH_OF_UNIQUE_ID_IN_REQUEST (length unique_id - unique_id_offset);
                 b0 = (push_bit 1 requested_node_id AND field_mask 1 7) OR (if unique_id_offset \<noteq> 0 then 0 else field_mask 0 1);
                 s = snd (uavcan_tx K p (b0 # take max_copy (drop unique_id_offset unique_id)) (mailbox D) s)
             in upd_env (\<lambda>e. e\<lparr>can := can_cancel_on_error K (mailbox D) (can e)\<rparr>) s)"

end
