(* ===== verification/Can_Transfer.thy ===== *)
theory Can_Transfer
  imports Can_Uavcan
begin

text \<open>
  The transfers of the CAN bootloader arrive: the frames of a transfer as a function of its header and its bytes, the
  sender that sends them, the receiver that follows them frame by frame, and the properties of the two together.
\<close>

section \<open>Bit fields\<close>

named_theorems can_simps \<open>bits of identifiers and tail bytes\<close>

lemma bit_field_mask: "bit (field_mask pos n :: 'a::len word) k \<longleftrightarrow> pos \<le> k \<and> k < pos + n \<and> k < LENGTH('a)"
  by (auto simp: field_mask_def bit_push_bit_iff bit_mask_iff)

lemma bit_put_field:
  "bit (put_field pos n v w :: 'a::len word) k \<longleftrightarrow> (if pos \<le> k \<and> k < pos + n then bit v (k - pos) else bit w k) \<and> k < LENGTH('a)"
  by (auto simp: put_field_def bit_field_mask bit_simps dest: bit_imp_le_length)

lemma bit_get_field: "bit (get_field pos n w :: 'a::len word) k \<longleftrightarrow> k < n \<and> bit w (pos + k)"
  by (auto simp: get_field_def bit_simps dest: bit_imp_le_length)

lemma tail_bits [can_simps]:
  "bit (tail_u8 (set_transfer_id v p)) k \<longleftrightarrow> (if k < 5 then bit v k else bit (tail_u8 p) k) \<and> k < 8"
  "bit (tail_u8 (set_toggle b p)) k \<longleftrightarrow> (if k = 5 then b else bit (tail_u8 p) k) \<and> k < 8"
  "bit (tail_u8 (set_eot b p)) k \<longleftrightarrow> (if k = 6 then b else bit (tail_u8 p) k) \<and> k < 8"
  "bit (tail_u8 (set_sot b p)) k \<longleftrightarrow> (if k = 7 then b else bit (tail_u8 p) k) \<and> k < 8"
  by (auto simp: set_transfer_id_def set_toggle_def set_eot_def set_sot_def bit_put_field bit_simps)

lemma tail_ids [can_simps]:
  "id_u32 (set_transfer_id v p) = id_u32 p" "id_u32 (set_toggle b p) = id_u32 p" "id_u32 (set_eot b p) = id_u32 p"
  "id_u32 (set_sot b p) = id_u32 p" "tail_u8 (set_source_node_id v p) = tail_u8 p" "tail_u8 (set_dest_node_id v p) = tail_u8 p"
  "tail_u8 (set_priority v p) = tail_u8 p"
  by (simp_all add: set_transfer_id_def set_toggle_def set_eot_def set_sot_def set_source_node_id_def set_dest_node_id_def set_priority_def)

lemma id_bits [can_simps]:
  "bit (id_u32 (set_source_node_id v p)) k \<longleftrightarrow> (if k < 7 then bit v k else bit (id_u32 p) k) \<and> k < 32"
  "bit (id_u32 (set_dest_node_id v p)) k \<longleftrightarrow> (if 8 \<le> k \<and> k < 15 then bit v (k - 8) else bit (id_u32 p) k) \<and> k < 32"
  "bit (id_u32 (set_priority v p)) k \<longleftrightarrow> (if 24 \<le> k \<and> k < 29 then bit v (k - 24) else bit (id_u32 p) k) \<and> k < 32"
  by (auto simp: set_source_node_id_def set_dest_node_id_def set_priority_def bit_put_field bit_simps)

lemma tail_fields [can_simps]:
  "tail_eot (set_eot b p) = b" "tail_eot (set_toggle b p) = tail_eot p" "tail_eot (set_sot b p) = tail_eot p" "tail_eot (set_transfer_id v p) = tail_eot p"
  "tail_sot (set_sot b p) = b" "tail_sot (set_toggle b p) = tail_sot p" "tail_sot (set_eot b p) = tail_sot p" "tail_sot (set_transfer_id v p) = tail_sot p"
  "tail_toggle (set_toggle b p) = b" "tail_toggle (set_sot b p) = tail_toggle p" "tail_toggle (set_eot b p) = tail_toggle p"
  "tail_toggle (set_transfer_id v p) = tail_toggle p"
  by (simp_all add: tail_eot_def tail_sot_def tail_toggle_def tail_bits)

lemma protocol_eqI: "id_u32 p = id_u32 q \<Longrightarrow> (\<And>k. k < 8 \<Longrightarrow> bit (tail_u8 p) k = bit (tail_u8 q) k) \<Longrightarrow> p = q"
  for p q :: uavcan_protocol
  by (rule uavcan_protocol.equality) (auto intro: bit_word_eqI)

lemma set_eot_again [can_simps]: "set_eot a (set_eot b p) = set_eot a p"
  by (rule protocol_eqI) (auto simp: can_simps)

section \<open>The frames of a transfer\<close>

definition next_frame :: "uavcan_protocol \<Rightarrow> uavcan_protocol" where
  "next_frame p = set_sot False (set_toggle (\<not> tail_toggle p) p)"

lemma next_frame_eot: "next_frame (set_eot b p) = set_eot b (next_frame p)"
  by (rule protocol_eqI) (auto simp: next_frame_def can_simps)

function frames :: "uavcan_protocol \<Rightarrow> u8 list \<Rightarrow> (u32 \<times> u8 list) list" where
  "frames p bs =
     (if length bs \<le> 7 then [(id_u32 p, bs @ [tail_u8 (set_eot True p)])]
      else (id_u32 p, take 7 bs @ [tail_u8 (set_eot False p)]) # frames (next_frame p) (drop 7 bs))"
  by pat_completeness auto
termination by (relation "measure (length \<circ> snd)") auto

declare frames.simps [simp del]

lemma id_next_frame [can_simps]: "id_u32 (next_frame p) = id_u32 p" by (simp add: next_frame_def can_simps)

lemma frames_eot: "frames (set_eot b p) bs = frames p bs"
proof (induction p bs arbitrary: b rule: frames.induct)
  case (1 p bs)
  show ?case
  proof (cases "length bs \<le> 7")
    case False
    then have "frames (next_frame (set_eot b p)) (drop 7 bs) = frames (next_frame p) (drop 7 bs)"
      using "1.IH" by (simp add: next_frame_eot)
    then show ?thesis using False by (subst (1 2) frames.simps) (simp add: can_simps)
  qed (subst (1 2) frames.simps, simp add: can_simps)
qed

text \<open>A bus that takes every frame, and queues of received frames.\<close>

record bus =
  sent :: "(u32 \<times> u8 list) list"
  queue :: "u8 \<Rightarrow> (u32 \<times> u8 list) list"

definition pad :: "u8 list \<Rightarrow> u8 list" where
  "pad d = d @ replicate (8 - length d) 0"

definition bus_driver :: "bus can_driver" where
  "bus_driver = \<lparr>can_rx = (\<lambda>f w. case queue w f of [] \<Rightarrow> (None, w) | (i, d) # q \<Rightarrow> (Some (i, length d, pad d), w\<lparr>queue := (queue w)(f := q)\<rparr>)),
     can_tx = (\<lambda>i d mb w. (UavcanOk, w\<lparr>sent := sent w @ [(i, d)]\<rparr>)), can_cancel_on_error = (\<lambda>mb w. w)\<rparr>"

definition add_sent :: "(u32 \<times> u8 list) list \<Rightarrow> ('cb, bus, 'x) can_state \<Rightarrow> ('cb, bus, 'x) can_state" where
  "add_sent fs = upd_env (\<lambda>e. e\<lparr>can := (can e)\<lparr>sent := sent (can e) @ fs\<rparr>\<rparr>)"

lemma add_sent_add: "add_sent fs (add_sent gs s) = add_sent (gs @ fs) s"
  by (simp add: add_sent_def upd_env_def)

lemma bus_tx: "uavcan_tx bus_driver p d mb s = (UavcanOk, add_sent [(id_u32 p, d @ [tail_u8 p])] s)"
  by (simp add: uavcan_tx_def with_can_def bus_driver_def add_sent_def upd_env_def)

lemma tx_loop_frames:
  "length payload < 7 \<Longrightarrow> bs \<noteq> [] \<Longrightarrow>
   \<exists>p'. tx_loop bus_driver mb payload bs p s = (UavcanOk, p', add_sent (frames p (payload @ bs)) s)"
proof (induction bs arbitrary: payload p s)
  case (Cons b bs)
  show ?case
  proof (cases "bs = []")
    case True
    then show ?thesis using Cons.prems by (simp add: Let_def can_simps bus_tx frames.simps [of p "payload @ [b]"])
  next
    case False
    show ?thesis
    proof (cases "length payload = 6")
      case full: True
      let ?p = "set_eot False p"
      obtain p' where "tx_loop bus_driver mb [] bs (next_frame ?p) (add_sent [(id_u32 p, (payload @ [b]) @ [tail_u8 ?p])] s) =
          (UavcanOk, p', add_sent (frames (next_frame ?p) bs) (add_sent [(id_u32 p, (payload @ [b]) @ [tail_u8 ?p])] s))"
        using Cons.IH [of "[]" "next_frame ?p"] False by auto
      moreover have "frames p (payload @ b # bs) = (id_u32 p, (payload @ [b]) @ [tail_u8 ?p]) # frames (next_frame p) bs"
        using full False by (subst frames.simps) (cases bs, auto)
      moreover have "set_sot False (set_toggle (\<not> tail_toggle p) ?p) = next_frame ?p" by (simp add: next_frame_def can_simps)
      ultimately show ?thesis using full False
        by (simp add: Let_def can_simps bus_tx next_frame_eot frames_eot add_sent_add)
    next
      case False
      then obtain p' where "tx_loop bus_driver mb (payload @ [b]) bs (set_eot False p) s =
          (UavcanOk, p', add_sent (frames (set_eot False p) ((payload @ [b]) @ bs)) s)"
        using Cons.IH [of "payload @ [b]" "set_eot False p" s] Cons.prems \<open>bs \<noteq> []\<close> by auto
      then show ?thesis using False \<open>bs \<noteq> []\<close> by (simp add: Let_def can_simps frames_eot)
    qed
  qed
qed simp

section \<open>Receiving frames\<close>

definition pop :: "u8 \<Rightarrow> ('cb, bus, 'x) can_state \<Rightarrow> ('cb, bus, 'x) can_state" where
  "pop ff = upd_env (\<lambda>e. e\<lparr>can := (can e)\<lparr>queue := (queue (can e))(ff := tl (queue (can e) ff))\<rparr>\<rparr>)"

lemma pop_simps [simp]:
  "queue (can (bl_env (pop ff s))) ff = tl (queue (can (bl_env s)) ff)" "timers (pop ff s) = timers s"
  by (simp_all add: pop_def upd_env_def)

lemma restart_simps [simp]:
  "bl_env (timer_restart t ms s) = bl_env s" "length (timers (timer_restart t ms s)) = length (timers s)"
  by (simp_all add: timer_restart_def)

lemma not_expired_restarted:
  "unat t < length (timers s) \<Longrightarrow> 0 < ms \<Longrightarrow> \<not> timer_expired t (timer_restart t ms s)"
  by (auto simp: timer_expired_def timer_restart_def Let_def)

lemma pad_nth: "0 < length d \<Longrightarrow> pad d ! (length d - 1) = last d"
  by (cases d rule: rev_cases) (auto simp: pad_def nth_append)

lemma rx_turn_frame:
  assumes "queue (can (bl_env s)) ff = (i, d) # q" and "0 < length d" and "length d \<le> 8" and "frame_matches \<lparr>id_u32 = i, tail_u8 = last d\<rparr> r"
  shows "rx_turn bus_driver Some ff in_len timer ms r s =
    (case rx_accept in_len \<lparr>id_u32 = i, tail_u8 = last d\<rparr> (pad d) (word_of_nat (length d - 1)) r of
       (eot, r') \<Rightarrow> Some (if eot then Some \<lparr>id_u32 = i, tail_u8 = last d\<rparr> else None, r', timer_restart timer ms (pop ff s)))"
proof -
  have "with_can (can_rx bus_driver ff) s = (Some (i, length d, pad d), pop ff s)"
    using assms(1) by (simp add: with_can_def bus_driver_def pop_def upd_env_def)
  then show ?thesis using assms(2-4) pad_nth [of d] by (simp add: rx_turn_def Let_def split: prod.splits)
qed

text \<open>Behind the first frame: the receiver expects the sender's header up to the end of transfer bit.\<close>

definition follows :: "rx_state \<Rightarrow> uavcan_protocol \<Rightarrow> bool" where
  "follows r p \<longleftrightarrow> (\<forall>k<8. k \<noteq> 6 \<longrightarrow> bit (tail_u8 (rx_p r)) k = bit (tail_u8 p) k) \<and> \<not> tail_sot p \<and>
     (id_u32 p XOR id_u32 (rx_p r)) AND id_u32 (rx_masks r) = 0 \<and> \<not> bit (tail_u8 (rx_masks r)) 6"

lemma bit_BadTailState: "bit BadTailState k \<longleftrightarrow> k = 7 \<or> k = 5"
  by (auto simp: BadTailState_def MaskUavCanStartOfTransfer_def MaskUavCanToggle_def bit_field_mask bit_or_iff)

lemma not_bad_tail: "\<not> bit t 7 \<or> \<not> bit t 5 \<Longrightarrow> t AND BadTailState \<noteq> BadTailState" for t :: u8
proof
  assume a: "\<not> bit t 7 \<or> \<not> bit t 5" and e: "t AND BadTailState = BadTailState"
  have "bit (t AND BadTailState) 7" "bit (t AND BadTailState) 5" unfolding e by (simp_all add: bit_BadTailState)
  then show False using a by (simp add: bit_and_iff)
qed

lemma masked_equal:
  "(\<And>k. bit m k \<Longrightarrow> bit a k = bit b k) \<Longrightarrow> (a XOR b) AND m = 0" for a b m :: "'a::len word"
proof (rule bit_word_eqI)
  fix k assume "\<And>k. bit m k \<Longrightarrow> bit a k = bit b k"
  then show "bit ((a XOR b) AND m) k = bit 0 k" by (auto simp: bit_simps)
qed

lemma follows_matches:
  assumes "follows r p"
  shows "frame_matches \<lparr>id_u32 = id_u32 p, tail_u8 = tail_u8 (set_eot e p)\<rparr> r"
    "tail_transfer_id \<lparr>id_u32 = id_u32 p, tail_u8 = tail_u8 (set_eot e p)\<rparr> = tail_transfer_id (rx_p r)"
    "\<not> tail_sot \<lparr>id_u32 = id_u32 p, tail_u8 = tail_u8 (set_eot e p)\<rparr>"
proof -
  have "(tail_u8 (set_eot e p) XOR tail_u8 (rx_p r)) AND tail_u8 (rx_masks r) = 0"
    using assms by (intro masked_equal) (auto simp: can_simps follows_def dest: bit_u8D)
  moreover have "tail_u8 (set_eot e p) AND BadTailState \<noteq> BadTailState"
    using assms by (intro not_bad_tail) (auto simp: can_simps follows_def tail_sot_def)
  ultimately show "frame_matches \<lparr>id_u32 = id_u32 p, tail_u8 = tail_u8 (set_eot e p)\<rparr> r"
    using assms by (simp add: frame_matches_def follows_def)
  show "tail_transfer_id \<lparr>id_u32 = id_u32 p, tail_u8 = tail_u8 (set_eot e p)\<rparr> = tail_transfer_id (rx_p r)"
    using assms by (auto intro!: bit_word_eqI simp: tail_transfer_id_def bit_get_field can_simps follows_def)
  show "\<not> tail_sot \<lparr>id_u32 = id_u32 p, tail_u8 = tail_u8 (set_eot e p)\<rparr>"
    using assms by (simp add: tail_sot_def can_simps follows_def)
qed

definition took :: "u8 list \<Rightarrow> rx_state \<Rightarrow> rx_state \<Rightarrow> bool" where
  "took bs r r' \<longleftrightarrow> unat (rx_total r') = unat (rx_total r) + length bs \<and>
     take (unat (rx_total r')) (rx_transfer r') = take (unat (rx_total r)) (rx_transfer r) @ bs \<and>
     length (rx_transfer r') = length (rx_transfer r) \<and> rx_crc r' = rx_crc r \<and> rx_masks r' = rx_masks r \<and>
     id_u32 (rx_p r') = id_u32 (rx_p r)"

lemma took_rx_p: "id_u32 q = id_u32 (rx_p r') \<Longrightarrow> took bs r (r'\<lparr>rx_p := q\<rparr>) = took bs r r'"
  by (simp add: took_def)

lemma took_trans: "took as r r1 \<Longrightarrow> took bs r1 r2 \<Longrightarrow> took (as @ bs) r r2"
  unfolding took_def by (metis append.assoc length_append add.assoc)

lemma rx_copy_took:
  assumes "unat (rx_total r) + length bs \<le> unat in_len" and "unat in_len \<le> length (rx_transfer r)"
    and "take (length bs) (drop j payload) = bs"
  shows "took bs r (rx_copy payload j (word_of_nat (length bs)) in_len r)"
    "rx_p (rx_copy payload j (word_of_nat (length bs)) in_len r) = rx_p r"
proof -
  have "unat in_len < 2 ^ LENGTH(32)" by (rule unsigned_less)
  then have b: "unat (rx_total r) + length bs < 2 ^ 32" using assms(1) by simp
  have l: "unat (word_of_nat (length bs) :: u32) = length bs" using b by (simp add: unat_of_nat take_bit_nat_eq_self)
  have s: "unat (rx_total r + word_of_nat (length bs)) = unat (rx_total r) + length bs"
    using b l by (simp add: unat_word_ariths)
  then have "rx_total r + word_of_nat (length bs) \<le> in_len" using assms(1) by (simp add: word_le_nat_alt)
  then show "took bs r (rx_copy payload j (word_of_nat (length bs)) in_len r)"
    "rx_p (rx_copy payload j (word_of_nat (length bs)) in_len r) = rx_p r"
    using assms l s by (simp_all add: took_def rx_copy_def)
qed

text \<open>One frame behind the first.\<close>

lemma accept_follows:
  assumes "follows r p" and "length bs \<le> 7" and "0 < length bs" and "unat (rx_total r) + length bs \<le> unat in_len"
    and "unat in_len \<le> length (rx_transfer r)"
  shows "\<exists>r'. rx_accept in_len \<lparr>id_u32 = id_u32 p, tail_u8 = tail_u8 (set_eot e p)\<rparr> (pad (bs @ [tail_u8 (set_eot e p)])) (word_of_nat (length bs)) r = (e, r')
    \<and> took bs r r' \<and> follows r' (next_frame p)"
proof -
  let ?rx = "\<lparr>id_u32 = id_u32 p, tail_u8 = tail_u8 (set_eot e p)\<rparr>"
  let ?r = "rx_copy (pad (bs @ [tail_u8 (set_eot e p)])) 0 (word_of_nat (length bs)) in_len r"
  note f = follows_matches [OF assms(1), of e]
  have t: "took bs r ?r" "rx_p ?r = rx_p r" by (rule rx_copy_took [OF assms(4,5)]; simp add: pad_def)+
  have "\<not> rx_total r \<ge> in_len" unfolding word_le_nat_alt using assms(3,4) by linarith
  then have "rx_accept in_len ?rx (pad (bs @ [tail_u8 (set_eot e p)])) (word_of_nat (length bs)) r =
      (e, ?r\<lparr>rx_p := set_toggle (\<not> tail_toggle (rx_p r)) (rx_p r)\<rparr>)"
    using f(2,3) t(2) by (simp add: rx_accept_def rx_start_def Let_def tail_eot_def can_simps)
  moreover have "took bs r (?r\<lparr>rx_p := set_toggle (\<not> tail_toggle (rx_p r)) (rx_p r)\<rparr>)"
    using t by (simp add: took_rx_p can_simps)
  moreover have "follows (?r\<lparr>rx_p := set_toggle (\<not> tail_toggle (rx_p r)) (rx_p r)\<rparr>) (next_frame p)"
    using assms(1) t by (auto simp: follows_def next_frame_def can_simps took_def tail_toggle_def tail_sot_def)
  ultimately show ?thesis by blast
qed

lemma rx_rest:
  assumes "0 < ms"
  shows "follows r p \<Longrightarrow> bs \<noteq> [] \<Longrightarrow> unat (rx_total r) + length bs \<le> unat in_len \<Longrightarrow> unat in_len \<le> length (rx_transfer r) \<Longrightarrow>
    queue (can (bl_env s)) ff = frames p bs @ q \<Longrightarrow> unat timer < length (timers s) \<Longrightarrow>
    \<exists>rx r' s'. rx_loop bus_driver Some ff in_len timer ms r s = Some (Some rx, r', s') \<and> \<not> tail_sot rx \<and> took bs r r' \<and>
      queue (can (bl_env s')) ff = q"
proof (induction p bs arbitrary: r s rule: frames.induct)
  case (1 p bs)
  let ?e = "length bs \<le> 7"
  let ?hd = "take 7 bs"
  let ?rx = "\<lparr>id_u32 = id_u32 p, tail_u8 = tail_u8 (set_eot ?e p)\<rparr>"
  have q: "queue (can (bl_env s)) ff = (id_u32 p, ?hd @ [tail_u8 (set_eot ?e p)]) # (if ?e then [] else frames (next_frame p) (drop 7 bs)) @ q"
    using "1.prems"(5) frames.simps [of p bs] by simp
  have hd: "length ?hd \<le> 7" "0 < length ?hd" "unat (rx_total r) + length ?hd \<le> unat in_len" using "1.prems"(2,3) by auto
  obtain r1 where r1: "rx_accept in_len ?rx (pad (?hd @ [tail_u8 (set_eot ?e p)])) (word_of_nat (length ?hd)) r = (?e, r1)"
      "took ?hd r r1" "follows r1 (next_frame p)"
    using accept_follows [OF "1.prems"(1) hd "1.prems"(4)] by blast
  let ?s = "timer_restart timer ms (pop ff s)"
  have turn: "rx_turn bus_driver Some ff in_len timer ms r s = Some (if ?e then Some ?rx else None, r1, ?s)"
    using rx_turn_frame [OF q] follows_matches(1) [OF "1.prems"(1)] hd(1) r1(1) by simp
  have nexp: "\<not> timer_expired timer ?s" using not_expired_restarted [of timer "pop ff s" ms] "1.prems"(6) assms by simp
  have qs: "queue (can (bl_env ?s)) ff = (if ?e then [] else frames (next_frame p) (drop 7 bs)) @ q" using q by simp
  show ?case
  proof (cases ?e)
    case True
    then have "rx_loop bus_driver Some ff in_len timer ms r s = Some (Some ?rx, r1, ?s)" using turn by (subst rx_loop.simps) simp
    then show ?thesis using r1(2) qs True follows_matches(3) [OF "1.prems"(1)] by auto
  next
    case False
    have t: "unat (rx_total r1) = unat (rx_total r) + 7" "length (rx_transfer r1) = length (rx_transfer r)" using r1(2) False by (simp_all add: took_def)
    have "rx_loop bus_driver Some ff in_len timer ms r s = rx_loop bus_driver Some ff in_len timer ms r1 ?s"
      using turn nexp False by (subst rx_loop.simps) simp
    moreover obtain rx r' s' where "rx_loop bus_driver Some ff in_len timer ms r1 ?s = Some (Some rx, r', s')" "\<not> tail_sot rx" "took (drop 7 bs) r1 r'"
        "queue (can (bl_env s')) ff = q"
      using "1.IH" [OF False r1(3), of ?s] False "1.prems"(3,4,6) t qs by auto
    ultimately show ?thesis using took_trans [OF r1(2)] by (metis append_take_drop_id)
  qed
qed

text \<open>The first frame: the receiver waits for a start with the toggle bit clear.\<close>

definition starts :: "rx_state \<Rightarrow> uavcan_protocol \<Rightarrow> bool" where
  "starts r p \<longleftrightarrow> tail_sot p \<and> \<not> tail_toggle p \<and> tail_sot (rx_p r) \<and> \<not> tail_toggle (rx_p r) \<and>
     tail_u8 (rx_masks r) = MaskUavCanToggle OR MaskUavCanStartOfTransfer \<and>
     (id_u32 p XOR id_u32 (rx_p r)) AND id_u32 (rx_masks r) = 0"

lemma can_mask_bits:
  "bit MaskUavCanToggle k \<longleftrightarrow> k = 5" "bit MaskUavCanStartOfTransfer k \<longleftrightarrow> k = 7" "bit MaskUavCanTransferID k \<longleftrightarrow> k < 5"
  "bit MaskUavCanMessageSourceNodeID k \<longleftrightarrow> k < 7"
  by (auto simp: MaskUavCanToggle_def MaskUavCanStartOfTransfer_def MaskUavCanTransferID_def MaskUavCanMessageSourceNodeID_def bit_field_mask)

lemma source_bits: "bit (source_node_id p) k \<longleftrightarrow> k < 7 \<and> bit (id_u32 p) k"
  by (auto simp: source_node_id_def bit_get_field bit_simps)

lemma masked_bits: "(a XOR b) AND m = 0 \<Longrightarrow> bit m k \<Longrightarrow> bit a k = bit b k" for a b m :: "'a::len word"
  by (metis bit_and_iff bit_xor_iff bit_0_eq bot_apply bot_bool_def)

lemma starts_matches:
  assumes "starts r p"
  shows "frame_matches \<lparr>id_u32 = id_u32 p, tail_u8 = tail_u8 (set_eot e p)\<rparr> r"
proof -
  have "(tail_u8 (set_eot e p) XOR tail_u8 (rx_p r)) AND tail_u8 (rx_masks r) = 0"
    using assms by (intro masked_equal) (auto simp: can_simps starts_def tail_sot_def tail_toggle_def can_mask_bits bit_or_iff)
  moreover have "tail_u8 (set_eot e p) AND BadTailState \<noteq> BadTailState"
    using assms by (intro not_bad_tail) (auto simp: can_simps starts_def tail_toggle_def)
  ultimately show ?thesis using assms by (simp add: frame_matches_def starts_def)
qed

text \<open>The state after the start of a transfer.\<close>

definition started :: "uavcan_protocol \<Rightarrow> rx_state \<Rightarrow> rx_state" where
  "started rx r =
     (let p = set_transfer_id (tail_transfer_id rx) (set_source_node_id (source_node_id rx) (set_sot False (rx_p r)))
      in r\<lparr>rx_p := p, rx_total := 0, rx_masks := uavcan_init_comapare_masks OnStartOfTransfer p (rx_masks r)\<rparr>)"

lemma started_follows:
  fixes p r e
  defines "rx \<equiv> \<lparr>id_u32 = id_u32 p, tail_u8 = tail_u8 (set_eot e p)\<rparr>"
  assumes "starts r p" and "r' = r''\<lparr>rx_p := set_toggle (\<not> tail_toggle (rx_p r'')) (rx_p r'')\<rparr>"
    and "rx_p r'' = rx_p (started rx r)" and "rx_masks r'' = rx_masks (started rx r)"
  shows "follows r' (next_frame p)"
proof -
  let ?p = "set_transfer_id (tail_transfer_id rx) (set_source_node_id (source_node_id rx) (set_sot False (rx_p r)))"
  have p: "rx_p r' = set_toggle (\<not> tail_toggle ?p) ?p" and m: "rx_masks r' = uavcan_init_comapare_masks OnStartOfTransfer ?p (rx_masks r)"
    using assms(3-5) by (simp_all add: started_def Let_def)
  have i: "(id_u32 p XOR id_u32 ?p) AND (id_u32 (rx_masks r) OR MaskUavCanMessageSourceNodeID) = 0"
  proof (rule masked_equal)
    fix k assume "bit (id_u32 (rx_masks r) OR MaskUavCanMessageSourceNodeID) k"
    then show "bit (id_u32 p) k = bit (id_u32 ?p) k"
      using masked_bits [of "id_u32 p" "id_u32 (rx_p r)" "id_u32 (rx_masks r)" k] assms(2)
      by (auto simp: rx_def starts_def can_simps source_bits bit_or_iff can_mask_bits dest: bit_imp_le_length)
  qed
  have t: "bit (tail_u8 (rx_p r')) k = bit (tail_u8 (next_frame p)) k" if "k < 8" "k \<noteq> 6" for k
  proof -
    consider "k < 5" | "k = 5" | "k = 7" using \<open>k < 8\<close> \<open>k \<noteq> 6\<close> by linarith
    then show ?thesis
      using assms(2) by cases (auto simp: p next_frame_def can_simps tail_toggle_def starts_def tail_transfer_id_def bit_get_field rx_def)
  qed
  then show ?thesis using i by (auto simp: follows_def m p can_simps next_frame_def starts_def can_mask_bits bit_or_iff assms(2) [unfolded starts_def])
qed

lemma accept_start:
  assumes "starts r p" and "length pl \<le> 7" and "e \<or> 2 \<le> length pl" and "bs = (if e then pl else drop 2 pl)"
    and "length bs \<le> unat in_len" and "0 < in_len" and "unat in_len \<le> length (rx_transfer r)"
  shows "\<exists>r'. rx_accept in_len \<lparr>id_u32 = id_u32 p, tail_u8 = tail_u8 (set_eot e p)\<rparr> (pad (pl @ [tail_u8 (set_eot e p)])) (word_of_nat (length pl)) r = (e, r')
    \<and> follows r' (next_frame p) \<and> unat (rx_total r') = length bs \<and> take (length bs) (rx_transfer r') = bs \<and>
    length (rx_transfer r') = length (rx_transfer r) \<and> (e \<or> rx_crc r' = uavcan_make_uint16 (pl ! 0) (pl ! 1)) \<and>
    source_node_id (rx_p r') = source_node_id p"
proof -
  let ?rx = "\<lparr>id_u32 = id_u32 p, tail_u8 = tail_u8 (set_eot e p)\<rparr>"
  let ?pay = "pad (pl @ [tail_u8 (set_eot e p)])"
  define S where "S = (if e then started ?rx r else (started ?rx r)\<lparr>rx_crc := uavcan_make_uint16 (pl ! 0) (pl ! 1)\<rparr>)"
  define j :: nat where "j = (if e then 0 else 2)"
  define R where "R = rx_copy ?pay j (word_of_nat (length bs)) in_len S"
  let ?r' = "R\<lparr>rx_p := set_toggle (\<not> tail_toggle (rx_p R)) (rx_p R)\<rparr>"
  have "?pay ! 0 = pl ! 0" "?pay ! 1 = pl ! 1" if "\<not> e" using that assms(3) by (auto simp: pad_def nth_append)
  moreover have "word_of_nat (length pl) - 2 = (word_of_nat (length bs) :: u32)" if "\<not> e"
    using that assms(3,4) by (simp add: of_nat_diff)
  ultimately have st: "rx_start ?rx ?pay (word_of_nat (length pl)) r = (S, j, word_of_nat (length bs))"
    using assms(1,4) by (auto simp: S_def j_def rx_start_def started_def Let_def starts_def can_simps tail_sot_def tail_eot_def)
  have S: "rx_total S = 0" "rx_transfer S = rx_transfer r" "rx_p S = rx_p (started ?rx r)" "rx_masks S = rx_masks (started ?rx r)"
    "e \<or> rx_crc S = uavcan_make_uint16 (pl ! 0) (pl ! 1)"
    by (simp_all add: S_def started_def Let_def)
  have "tail_transfer_id ?rx = tail_transfer_id (rx_p S)"
    unfolding S by (auto intro!: bit_word_eqI simp: started_def Let_def tail_transfer_id_def bit_get_field can_simps)
  moreover have "tail_eot ?rx = e" by (simp add: tail_eot_def can_simps)
  ultimately have a: "rx_accept in_len ?rx ?pay (word_of_nat (length pl)) r = (e, ?r')"
    using st S(1) assms(6) by (simp add: rx_accept_def Let_def linorder_not_le [symmetric] R_def)
  have d: "take (length bs) (drop j ?pay) = bs" using assms(3,4) by (auto simp: pad_def j_def)
  have t: "took bs S R" "rx_p R = rx_p S"
    unfolding R_def by (rule rx_copy_took; use assms(5,7) S d in simp)+
  have "follows ?r' (next_frame p)"
    by (rule started_follows [where e = e, OF assms(1) refl]) (use t S in \<open>simp_all add: took_def\<close>)
  moreover have "took bs S ?r'" using t by (simp add: took_rx_p can_simps)
  then have "unat (rx_total ?r') = length bs" "take (length bs) (rx_transfer ?r') = bs" "length (rx_transfer ?r') = length (rx_transfer r)"
    "rx_crc ?r' = rx_crc S" unfolding took_def S(1,2) by auto
  moreover have "source_node_id (rx_p ?r') = source_node_id p"
    using t(2) S(3) by (auto intro!: bit_word_eqI simp: source_bits can_simps started_def Let_def)
  ultimately show ?thesis using a S(5) by auto
qed

lemma rx_frames:
  assumes "starts r p" and "pl = (if 7 < length data then lo # hi # data else data)" and "0 < length data"
    and "length data \<le> unat in_len" and "unat in_len \<le> length (rx_transfer r)"
    and "queue (can (bl_env s)) ff = frames p pl @ q" and "unat timer < length (timers s)" and "0 < ms \<or> length data \<le> 7"
  shows "\<exists>rx r' s'. rx_loop bus_driver Some ff in_len timer ms r s = Some (Some rx, r', s') \<and> (tail_sot rx \<longleftrightarrow> length data \<le> 7) \<and>
    unat (rx_total r') = length data \<and> take (length data) (rx_transfer r') = data \<and>
    (7 < length data \<longrightarrow> rx_crc r' = uavcan_make_uint16 lo hi) \<and> source_node_id (rx_p r') = source_node_id p \<and>
    queue (can (bl_env s')) ff = q"
proof -
  let ?e = "length data \<le> 7"
  let ?hd = "take 7 pl"
  let ?bs = "if ?e then ?hd else drop 2 ?hd"
  let ?rx = "\<lparr>id_u32 = id_u32 p, tail_u8 = tail_u8 (set_eot ?e p)\<rparr>"
  let ?rest = "if ?e then [] else frames (next_frame p) (drop 5 data)"
  have e: "length pl \<le> 7 \<longleftrightarrow> ?e" using assms(2) by auto
  have bs: "?bs = (if ?e then data else take 5 data)" using assms(2) by auto
  have q: "queue (can (bl_env s)) ff = (id_u32 p, ?hd @ [tail_u8 (set_eot ?e p)]) # ?rest @ q"
    using assms(2,6) frames.simps [of p pl] e by auto
  have "0 < unat in_len" using assms(3,4) by linarith
  then have n: "0 < in_len" by (simp add: word_less_nat_alt)
  have pre: "length ?hd \<le> 7" "?e \<or> 2 \<le> length ?hd" "length ?bs \<le> unat in_len" using assms(2,4) unfolding bs by auto
  obtain r1 where r1: "rx_accept in_len ?rx (pad (?hd @ [tail_u8 (set_eot ?e p)])) (word_of_nat (length ?hd)) r = (?e, r1)"
      "follows r1 (next_frame p)" "unat (rx_total r1) = length ?bs" "take (length ?bs) (rx_transfer r1) = ?bs"
      "length (rx_transfer r1) = length (rx_transfer r)" "?e \<or> rx_crc r1 = uavcan_make_uint16 (?hd ! 0) (?hd ! 1)"
      "source_node_id (rx_p r1) = source_node_id p"
    using accept_start [OF assms(1) pre(1,2) refl pre(3) n assms(5)] by blast
  let ?s = "timer_restart timer ms (pop ff s)"
  have turn: "rx_turn bus_driver Some ff in_len timer ms r s = Some (if ?e then Some ?rx else None, r1, ?s)"
    using rx_turn_frame [OF q] starts_matches [OF assms(1), of ?e] r1(1) by simp
  show ?thesis
  proof (cases ?e)
    case True
    then have "rx_loop bus_driver Some ff in_len timer ms r s = Some (Some ?rx, r1, ?s)" using turn by (subst rx_loop.simps) simp
    moreover have "tail_sot ?rx" using assms(1) by (simp add: tail_sot_def can_simps starts_def)
    moreover have "queue (can (bl_env ?s)) ff = q" using q True by simp
    ultimately show ?thesis using r1(3,4) [unfolded bs] r1(7) True by auto
  next
    case False
    have "\<not> timer_expired timer ?s" using not_expired_restarted [of timer "pop ff s" ms] assms(7,8) False by simp
    then have l: "rx_loop bus_driver Some ff in_len timer ms r s = rx_loop bus_driver Some ff in_len timer ms r1 ?s"
      using turn False by (subst rx_loop.simps) simp
    have c: "rx_crc r1 = uavcan_make_uint16 lo hi" using r1(6) False assms(2) by simp
    have b: "unat (rx_total r1) = 5" "take 5 (rx_transfer r1) = take 5 data" using r1(3,4) [unfolded bs] False by simp_all
    obtain rx r' s' where r': "rx_loop bus_driver Some ff in_len timer ms r1 ?s = Some (Some rx, r', s')" "\<not> tail_sot rx"
        "took (drop 5 data) r1 r'" "queue (can (bl_env s')) ff = q"
      using rx_rest [OF _ r1(2), of ms "drop 5 data" in_len ?s ff q timer] assms(4,5,7,8) False b r1(5) q by auto
    have "unat (rx_total r') = length data" using r'(3) b(1) False by (simp add: took_def)
    moreover have "take (unat (rx_total r')) (rx_transfer r') = data" using r'(3) b unfolding took_def by (metis append_take_drop_id)
    moreover have "source_node_id (rx_p r') = source_node_id (rx_p r1)" using r'(3) by (simp add: took_def source_node_id_def)
    ultimately show ?thesis using l r'(1,2,4) c r1(7) False r'(3) by (auto simp: took_def)
  qed
qed

lemma make_uint16_bytes: "uavcan_make_uint16 (ucast c) (ucast (drop_bit 8 c)) = c"
proof (rule bit_word_eqI)
  fix k assume "k < LENGTH(16)"
  then have k: "k < 16" by simp
  then show "bit (uavcan_make_uint16 (ucast c) (ucast (drop_bit 8 c))) k = bit c k"
    by (cases "k < 8") (auto simp: uavcan_make_uint16_def bit_simps)
qed

section \<open>Transfers between nodes\<close>

text \<open>Two nodes agree on a transfer: the receiver listens for it.\<close>

definition tx_header :: "uavcan_dsdl \<Rightarrow> uavcan_protocol \<Rightarrow> ('cb, 'w, 'x) can_state \<Rightarrow> uavcan_protocol" where
  "tx_header dsdl p s = snd (load_dsdl_protocol dsdl False p (source_node_id p) s)"

definition rx_header :: "uavcan_dsdl \<Rightarrow> uavcan_protocol \<Rightarrow> ('cb, 'w, 'x) can_state \<Rightarrow> uavcan_protocol" where
  "rx_header dsdl p s = snd (load_dsdl_protocol dsdl True p (source_node_id p) s)"

definition addressed :: "uavcan_dsdl \<Rightarrow> uavcan_protocol \<Rightarrow> ('a, 'w, 'x) can_state \<Rightarrow> uavcan_protocol \<Rightarrow> ('b, 'v, 'y) can_state \<Rightarrow> bool" where
  "addressed dsdl p s q t \<longleftrightarrow>
     (bit (prototype_id (dsdl_table dsdl)) 7 \<longrightarrow>
        source_node_id p = g_this_node_id (bl_env t) \<and>
        (source_node_id q = ANY_NODE_ID \<or> source_node_id q = g_this_node_id (bl_env s)))"

lemma load_fst [simp]: "fst (load_dsdl_protocol dsdl b p n s) = dsdl_table dsdl"
  by (simp add: load_dsdl_protocol_def Let_def)

lemma table_tails:
  "dsdl \<noteq> DSDLMsgLogMessage \<Longrightarrow> bit (intail (dsdl_table dsdl)) 7 \<and> \<not> bit (intail (dsdl_table dsdl)) 5"
  "bit (outtail (dsdl_table dsdl)) 7 \<and> \<not> bit (outtail (dsdl_table dsdl)) 5"
  by (cases dsdl; simp add: UAVCAN_DSDL_MESG_DEF_def UAVCAN_DSDL_SREQ_DEF_def UAVCAN_DSDL_SRSP_DEF_def SingleFrameTailInit_def MultiFrameTailInit_def
      bit_or_iff can_mask_bits MaskUavCanEndOfTransfer_def bit_field_mask)+

lemma header_tails:
  "bit (tail_u8 (tx_header dsdl p s)) k \<longleftrightarrow> (k < 5 \<and> bit (tail_u8 p) k) \<or> bit (outtail (dsdl_table dsdl)) k"
  "bit (tail_u8 (rx_header dsdl p s)) k \<longleftrightarrow> (k < 5 \<and> bit (tail_u8 p) k) \<or> bit (intail (dsdl_table dsdl)) k"
  by (auto simp: tx_header_def rx_header_def load_dsdl_protocol_def Let_def can_simps bit_or_iff bit_and_iff can_mask_bits)

lemma table_ids: "k < 7 \<Longrightarrow> \<not> bit (prototype_id (dsdl_table dsdl)) k"
  by (cases dsdl) (simp_all add: UAVCAN_DSDL_MESG_DEF_def UAVCAN_DSDL_SREQ_DEF_def UAVCAN_DSDL_SRSP_DEF_def bit_put_field)

lemma header_ids:
  "bit (id_u32 (tx_header dsdl p s)) k \<longleftrightarrow> k < 32 \<and>
     (if k < 7 then bit (g_this_node_id (bl_env s)) k
      else if bit (prototype_id (dsdl_table dsdl)) 7 \<and> 8 \<le> k \<and> k < 15 then bit (source_node_id p) (k - 8)
      else if 24 \<le> k \<and> k < 29 then bit (g_uavcan_priority (bl_env s)) (k - 24) else bit (prototype_id (dsdl_table dsdl)) k)"
  "bit (id_u32 (rx_header dsdl p s)) k \<longleftrightarrow> k < 32 \<and>
     (if k < 7 then bit (prototype_id (dsdl_table dsdl)) 7 \<and> bit (source_node_id p) k
      else if bit (prototype_id (dsdl_table dsdl)) 7 \<and> 8 \<le> k \<and> k < 15 then bit (g_this_node_id (bl_env s)) (k - 8)
      else if 24 \<le> k \<and> k < 29 then bit (g_uavcan_priority (bl_env s)) (k - 24) else bit (prototype_id (dsdl_table dsdl)) k)"
  using table_ids [of k dsdl] by (auto simp: tx_header_def rx_header_def load_dsdl_protocol_def Let_def can_simps)

lemma id_mask_bits:
  "bit MaskUavCanServiceTypeID k \<longleftrightarrow> 16 \<le> k \<and> k < 24" "bit MaskUavCanServiceRequestNotResponse k \<longleftrightarrow> k = 15"
  "bit MaskUavCanServiceDestinationNodeID k \<longleftrightarrow> 8 \<le> k \<and> k < 15" "bit MaskUavCanMessageServiceNotMessage k \<longleftrightarrow> k = 7"
  "bit MaskUavCanMessageTypeID k \<longleftrightarrow> 8 \<le> k \<and> k < 24"
  by (auto simp: MaskUavCanServiceTypeID_def MaskUavCanServiceRequestNotResponse_def MaskUavCanServiceDestinationNodeID_def
      MaskUavCanMessageServiceNotMessage_def MaskUavCanMessageTypeID_def bit_field_mask)

lemma rx_header_source:
  "source_node_id (rx_header dsdl q t) = (if bit (prototype_id (dsdl_table dsdl)) 7 then source_node_id q else ANY_NODE_ID)"
  by (rule bit_word_eqI) (auto simp: source_bits header_ids)

lemma rx_header_service: "service_not_message (rx_header dsdl q t) \<longleftrightarrow> bit (prototype_id (dsdl_table dsdl)) 7"
  by (auto simp: service_not_message_def header_ids)

lemma ids_agree:
  assumes "addressed dsdl p s q t"
  shows "(id_u32 (tx_header dsdl p s) XOR id_u32 (rx_header dsdl q t)) AND
    id_u32 (uavcan_init_comapare_masks Initialization (rx_header dsdl q t) m) = 0"
proof (rule masked_equal)
  let ?svc = "bit (prototype_id (dsdl_table dsdl)) 7"
  fix k assume "bit (id_u32 (uavcan_init_comapare_masks Initialization (rx_header dsdl q t) m)) k"
  then consider "?svc" "7 \<le> k" "k < 24" | "?svc" "k < 7" "source_node_id q \<noteq> ANY_NODE_ID" | "\<not> ?svc" "7 \<le> k" "k < 24"
    by (auto simp: rx_header_service rx_header_source bit_or_iff id_mask_bits can_mask_bits split: if_splits)
  then show "bit (id_u32 (tx_header dsdl p s)) k = bit (id_u32 (rx_header dsdl q t)) k"
    using assms by cases (auto simp: header_ids addressed_def)
qed

lemma headers_start:
  assumes "addressed dsdl p s q t" and "dsdl \<noteq> DSDLMsgLogMessage"
  shows "starts \<lparr>rx_p = rx_header dsdl q t, rx_masks = uavcan_init_comapare_masks Initialization (rx_header dsdl q t) m,
      rx_transfer = buf, rx_crc = c, rx_total = n\<rparr> (tx_header dsdl p s)"
  using ids_agree [OF assms(1)] table_tails [of dsdl] assms(2)
  by (auto simp: starts_def tail_sot_def tail_toggle_def header_tails)

lemma allocated_timer:
  assumes "free_timer (timers s) (length (timers s)) \<noteq> None" and "length (timers s) \<le> 255"
    and "timer_allocate mode ms fc s = (timer, s')"
  shows "unat timer < length (timers s')" "bl_env s' = bl_env s"
proof -
  obtain t where t: "free_timer (timers s) (length (timers s)) = Some t" using assms(1) by blast
  then have "t < length (timers s)" by (simp add: free_timer_Some)
  then show "unat timer < length (timers s')" "bl_env s' = bl_env s"
    using assms(2,3) t by (auto simp: timer_allocate_def unat_of_nat take_bit_nat_eq_self)
qed

text \<open>The frames that a transfer with a given checksum is sent in.\<close>

definition transfer_frames :: "uavcan_protocol \<Rightarrow> u16 \<Rightarrow> u8 list \<Rightarrow> (u32 \<times> u8 list) list" where
  "transfer_frames p c data = frames p (if 7 < length data then ucast c # ucast (drop_bit 8 c) # data else data)"

lemma tx_dsdl_frames:
  assumes "0 < length data"
  shows "\<exists>p'. uavcan_tx_dsdl bus_driver dsdl p data s =
    (UavcanOk, p', add_sent (transfer_frames (tx_header dsdl p s) (crc16_signature (signature_crc16 (dsdl_table dsdl)) (length data) data) data) s)"
proof -
  have "load_dsdl_protocol dsdl False p (source_node_id p) s = (dsdl_table dsdl, tx_header dsdl p s)"
    by (simp add: tx_header_def prod_eq_iff)
  then show ?thesis using assms tx_loop_frames [of "[]" data "mailbox (dsdl_table dsdl)" "tx_header dsdl p s" s]
      tx_loop_frames [of "[_, _]" data "mailbox (dsdl_table dsdl)" "tx_header dsdl p s" s]
    by (auto simp: uavcan_tx_dsdl_def transfer_frames_def Let_def)
qed

lemma rx_dsdl_frames:
  assumes "addressed dsdl p s q t" and "dsdl \<noteq> DSDLMsgLogMessage" and "0 < length data" and "length data \<le> unat in_len" and "unat in_len \<le> length buf"
    and "0 < ms \<or> length data \<le> 7" and "queue (can (bl_env t)) (fifo (dsdl_table dsdl)) = transfer_frames (tx_header dsdl p s) c data @ rest"
    and "free_timer (timers t) (length (timers t)) \<noteq> None" and "length (timers t) \<le> 255"
  shows "\<exists>q' buf' t'. uavcan_rx_dsdl bus_driver Some dsdl q buf in_len ms t =
      Some ((if length data \<le> 7 \<or> c = crc16_signature (signature_crc16 (dsdl_table dsdl)) (length data) data then UavcanOk else UavcanError,
             q', buf', word_of_nat (length data)), t') \<and>
    take (length data) buf' = data \<and> source_node_id q' = source_node_id (tx_header dsdl p s)"
proof -
  let ?D = "dsdl_table dsdl"
  obtain timer t1 where t1: "timer_allocate (modeTimeout OR modeStarted) ms None t = (timer, t1)" by fastforce
  note ta = allocated_timer [OF assms(8,9) t1]
  let ?r = "\<lparr>rx_p = rx_header dsdl q t, rx_masks = uavcan_init_comapare_masks Initialization (rx_header dsdl q t) \<lparr>id_u32 = 0, tail_u8 = 0\<rparr>,
      rx_transfer = buf, rx_crc = 0, rx_total = 0\<rparr>"
  have st: "starts ?r (tx_header dsdl p s)" by (rule headers_start [OF assms(1,2)])
  obtain rx r' t2 where r': "rx_loop bus_driver Some (fifo ?D) in_len timer ms ?r t1 = Some (Some rx, r', t2)" "tail_sot rx \<longleftrightarrow> length data \<le> 7"
      "unat (rx_total r') = length data" "take (length data) (rx_transfer r') = data"
      "7 < length data \<longrightarrow> rx_crc r' = uavcan_make_uint16 (ucast c) (ucast (drop_bit 8 c))"
      "source_node_id (rx_p r') = source_node_id (tx_header dsdl p s)"
    using rx_frames [OF st refl assms(3,4), where s = t1 and ff = "fifo ?D" and lo = "ucast c" and
        hi = "ucast (drop_bit 8 c)" and q = rest and timer = timer and ms = ms]
      assms(5-7) ta unfolding transfer_frames_def by fastforce
  have l: "load_dsdl_protocol dsdl True q (source_node_id q) t = (?D, rx_header dsdl q t)" by (simp add: rx_header_def prod_eq_iff)
  have tot: "rx_total r' = word_of_nat (length data)" using arg_cong [OF r'(3), of "word_of_nat :: nat \<Rightarrow> u32"] by simp
  have crc: "crc16_signature (signature_crc16 ?D) (length data) (rx_transfer r') = crc16_signature (signature_crc16 ?D) (length data) data"
    using r'(4) by (simp add: crc16_signature_def)
  have "uavcan_rx_dsdl bus_driver Some dsdl q buf in_len ms t =
      Some ((if length data \<le> 7 \<or> c = crc16_signature (signature_crc16 ?D) (length data) data then UavcanOk else UavcanError,
             rx_p r', rx_transfer r', word_of_nat (length data)), timer_free timer t2)"
    using r'(1,2,3,5) l t1 tot crc by (auto simp: uavcan_rx_dsdl_def Let_def make_uint16_bytes)
  then show ?thesis using r'(4,6) by blast
qed

section \<open>Properties\<close>

text \<open>
  C32. A transfer arrives: the frames that \<open>uavcan_tx_dsdl\<close> of one node sends, for every data type but the
  log message, which the bootloader never receives, are put together by \<open>uavcan_rx_dsdl\<close> of the node that they are
  addressed to, whatever follows in the queue: it returns the data, their length and the node that sent them,
  if they fit into the buffer and a timer is free.
\<close>

theorem transfer_round_trip:
  assumes "addressed dsdl p s q t" and "dsdl \<noteq> DSDLMsgLogMessage" and "0 < length data" and "length data \<le> unat in_len"
    and "unat in_len \<le> length buf" and "0 < ms \<or> length data \<le> 7" and "g_this_node_id (bl_env s) < 128"
    and "free_timer (timers t) (length (timers t)) \<noteq> None" and "length (timers t) \<le> 255"
    and "uavcan_tx_dsdl bus_driver dsdl p data s = (rv, p', s')" and "sent (can (bl_env s)) = []"
    and "queue (can (bl_env t)) (fifo (dsdl_table dsdl)) = sent (can (bl_env s')) @ rest"
  shows "rv = UavcanOk \<and> (\<exists>q' buf' t'. uavcan_rx_dsdl bus_driver Some dsdl q buf in_len ms t =
      Some ((UavcanOk, q', buf', word_of_nat (length data)), t') \<and> take (length data) buf' = data \<and>
      source_node_id q' = g_this_node_id (bl_env s))"
proof -
  let ?c = "crc16_signature (signature_crc16 (dsdl_table dsdl)) (length data) data"
  have tx: "rv = UavcanOk" "s' = add_sent (transfer_frames (tx_header dsdl p s) ?c data) s"
    using tx_dsdl_frames [OF assms(3), of dsdl p s] assms(10) by auto
  then have "queue (can (bl_env t)) (fifo (dsdl_table dsdl)) = transfer_frames (tx_header dsdl p s) ?c data @ rest"
    using assms(11,12) by (simp add: add_sent_def upd_env_def)
  note rx = rx_dsdl_frames [OF assms(1-6) this assms(8,9)]
  have "source_node_id (tx_header dsdl p s) = g_this_node_id (bl_env s)"
  proof (rule bit_word_eqI)
    fix k
    have "unat (g_this_node_id (bl_env s)) < 2 ^ 7" using assms(7) by (simp add: word_less_nat_alt)
    then have "unat (take_bit 7 (g_this_node_id (bl_env s))) = unat (g_this_node_id (bl_env s))"
      by (simp add: unsigned_take_bit_eq take_bit_nat_eq_self)
    then have "take_bit 7 (g_this_node_id (bl_env s)) = g_this_node_id (bl_env s)" by (simp only: word_unat_eq_iff)
    then have "bit (g_this_node_id (bl_env s)) k \<Longrightarrow> k < 7" by (metis bit_take_bit_iff)
    then show "bit (source_node_id (tx_header dsdl p s)) k = bit (g_this_node_id (bl_env s)) k" by (auto simp: source_bits header_ids)
  qed
  then show ?thesis using tx(1) rx by auto
qed

text \<open>
  A damaged transfer is refused: when the frames of a transfer of more than one frame arrive with up to two adjacent bytes
  of the data changed, \<open>uavcan_rx_dsdl\<close> returns an error.
\<close>

theorem damaged_transfer_refused:
  assumes "addressed dsdl p s q t" and "dsdl \<noteq> DSDLMsgLogMessage" and "7 < length (xs @ as @ ys)" and "length (xs @ as @ ys) \<le> unat in_len"
    and "unat in_len \<le> length buf" and "0 < ms" and "length as = length bs" and "length bs \<le> 2" and "as \<noteq> bs"
    and "free_timer (timers t) (length (timers t)) \<noteq> None" and "length (timers t) \<le> 255"
    and "queue (can (bl_env t)) (fifo (dsdl_table dsdl)) =
      transfer_frames (tx_header dsdl p s) (crc16_signature (signature_crc16 (dsdl_table dsdl)) (length (xs @ as @ ys)) (xs @ as @ ys)) (xs @ bs @ ys) @ rest"
  shows "\<exists>q' buf' n t'. uavcan_rx_dsdl bus_driver Some dsdl q buf in_len ms t = Some ((UavcanError, q', buf', n), t')"
proof -
  have "0 < length (xs @ bs @ ys)" "length (xs @ bs @ ys) \<le> unat in_len" "\<not> length (xs @ bs @ ys) \<le> 7" using assms(3,4,7) by auto
  note rx = rx_dsdl_frames [OF assms(1,2) this(1,2) assms(5) disjI1 [OF assms(6)] assms(12,10,11)]
  have "crc16_signature (signature_crc16 (dsdl_table dsdl)) (length (xs @ as @ ys)) (xs @ as @ ys)
      \<noteq> crc16_signature (signature_crc16 (dsdl_table dsdl)) (length (xs @ bs @ ys)) (xs @ bs @ ys)"
    using crc16_detects_burst [of as bs] assms(7-9) by simp
  then show ?thesis using rx \<open>\<not> length (xs @ bs @ ys) \<le> 7\<close> by auto
qed

definition demo_node :: "u8 \<Rightarrow> (u32 \<times> u8 list) list \<Rightarrow> (unit, bus uavcan) bl_sched" where
  "demo_node n fs = \<lparr>sys_tic = 0, timers = [zero_timer, zero_timer],
     bl_env = \<lparr>g_uavcan_priority = 30, g_this_node_id = n, g_server_node_id = 0, log_transfer_id = 0, allocation_transfer_id = 0,
       can = \<lparr>sent = [], queue = (\<lambda>_. fs)\<rparr>\<rparr>\<rparr>"

abbreviation demo_p :: "u8 \<Rightarrow> uavcan_protocol" where
  "demo_p n \<equiv> \<lparr>id_u32 = ucast n, tail_u8 = 3\<rparr>"

lemma demo_simps:
  "free_timer (timers (demo_node n fs)) (length (timers (demo_node n fs))) \<noteq> None" "length (timers (demo_node n fs)) \<le> 255"
  "g_this_node_id (bl_env (demo_node n fs)) = n" "queue (can (bl_env (demo_node n fs))) ff = fs" "sent (can (bl_env (demo_node n fs))) = []"
  by (simp_all add: demo_node_def zero_timer_def inuse_def)

lemma demo_addressed: "addressed DSDLReqRead (demo_p 9) (demo_node 5 []) (demo_p 0) (demo_node 9 fs)"
  by (simp add: addressed_def demo_simps source_node_id_def get_field_def take_bit_eq_mod)

lemma transfer_round_trip_witness:
  "\<exists>q' buf' t'. uavcan_rx_dsdl bus_driver Some DSDLReqRead (demo_p 0) (replicate 16 0) 16 1000
      (demo_node 9 (sent (can (bl_env (snd (snd (uavcan_tx_dsdl bus_driver DSDLReqRead (demo_p 9) [1, 2, 3, 4, 5, 6, 7, 8, 9] (demo_node 5 [])))))))) =
      Some ((UavcanOk, q', buf', 9), t') \<and> take (length [1 :: u8, 2, 3, 4, 5, 6, 7, 8, 9]) buf' = [1, 2, 3, 4, 5, 6, 7, 8, 9] \<and> source_node_id q' = 5"
  using transfer_round_trip [OF demo_addressed, where data = "[1, 2, 3, 4, 5, 6, 7, 8, 9]" and in_len = 16 and buf = "replicate 16 0" and ms = 1000 and rest = "[]"
      and rv = "fst (uavcan_tx_dsdl bus_driver DSDLReqRead (demo_p 9) [1, 2, 3, 4, 5, 6, 7, 8, 9] (demo_node 5 []))"
      and p' = "fst (snd (uavcan_tx_dsdl bus_driver DSDLReqRead (demo_p 9) [1, 2, 3, 4, 5, 6, 7, 8, 9] (demo_node 5 [])))"
      and s' = "snd (snd (uavcan_tx_dsdl bus_driver DSDLReqRead (demo_p 9) [1, 2, 3, 4, 5, 6, 7, 8, 9] (demo_node 5 [])))"]
  by (simp add: demo_simps)

lemma damaged_transfer_refused_witness:
  "\<exists>q' buf' n t'. uavcan_rx_dsdl bus_driver Some DSDLReqRead (demo_p 0) (replicate 16 0) 16 1000
      (demo_node 9 (transfer_frames (tx_header DSDLReqRead (demo_p 9) (demo_node 5 []))
         (crc16_signature (signature_crc16 (dsdl_table DSDLReqRead)) (length [1 :: u8, 2, 3, 4, 5, 6, 7, 8, 9]) [1, 2, 3, 4, 5, 6, 7, 8, 9]) [1, 2, 0xff, 4, 5, 6, 7, 8, 9])) =
      Some ((UavcanError, q', buf', n), t')"
  using damaged_transfer_refused [OF demo_addressed [of "transfer_frames (tx_header DSDLReqRead (demo_p 9) (demo_node 5 []))
         (crc16_signature (signature_crc16 (dsdl_table DSDLReqRead)) (length [1 :: u8, 2, 3, 4, 5, 6, 7, 8, 9]) [1, 2, 3, 4, 5, 6, 7, 8, 9]) [1, 2, 0xff, 4, 5, 6, 7, 8, 9]"], where xs = "[1, 2]" and as = "[3]" and bs = "[0xff]" and ys = "[4, 5, 6, 7, 8, 9]" and
      in_len = 16 and buf = "replicate 16 0" and ms = 1000 and rest = "[]"]
  by (simp add: demo_simps)

end
