(* ===== verification/Can_Driver.thy ===== *)
theory Can_Driver
  imports Can_Uavcan
begin

text \<open>
  The CAN driver of the bootloader on the STM32F4: \<open>canbootloader/arch/stm/stm32f4/drivers/can/driver.c\<close>, with the
  inline functions for the cycle counter of \<open>include/timer.h\<close>.

  The controller is hardware: reading and writing its registers are the operations of the record \<open>can_regs\<close> on a state of
  type \<open>'w\<close>, where reading may change the state (time passes, the wrap flag is cleared).  The record also holds the
  clock settings of the board.  \<open>None\<close> is a wait that never ends or a read outside a table.
\<close>

section \<open>Registers\<close>

datatype can_reg = CAN1_MCR | CAN1_MSR | CAN1_TSR | CAN1_RFR nat | CAN1_ESR | CAN1_BTR
  | CAN1_TIR nat | CAN1_TDTR nat | CAN1_TDLR nat | CAN1_TDHR nat
  | CAN1_RIR nat | CAN1_RDTR nat | CAN1_RDLR nat | CAN1_RDHR nat
  | CAN1_FMR | CAN1_FM1R | CAN1_FS1R | CAN1_FFA1R | CAN1_FA1R | CAN1_FIR nat nat
  | NVIC_SYSTICK_CURRENT | NVIC_SYSTICK_CTRL | NVIC_SYSTICK_RELOAD

record 'w can_regs =
  getreg32 :: "can_reg \<Rightarrow> 'w \<Rightarrow> u32 \<times> 'w"
  putreg32 :: "u32 \<Rightarrow> can_reg \<Rightarrow> 'w \<Rightarrow> 'w"
  STM32_PCLK1_FREQUENCY :: nat
  CONFIG_USEC_PER_TICK :: nat
  TIMER_HRT_CYCLES_PER_US :: u32

definition CAN_MCR_INRQ :: u32 where "CAN_MCR_INRQ = push_bit 0 1"
definition CAN_MCR_TXFP :: u32 where "CAN_MCR_TXFP = push_bit 2 1"
definition CAN_MCR_AWUM :: u32 where "CAN_MCR_AWUM = push_bit 5 1"
definition CAN_MCR_ABOM :: u32 where "CAN_MCR_ABOM = push_bit 6 1"
definition CAN_MCR_DBF :: u32 where "CAN_MCR_DBF = push_bit 16 1"
definition CAN_MSR_INAK :: u32 where "CAN_MSR_INAK = push_bit 0 1"
definition CAN_MSR_RX :: u32 where "CAN_MSR_RX = push_bit 11 1"
definition CAN_TSR_ABRQ0 :: u32 where "CAN_TSR_ABRQ0 = push_bit 7 1"
definition CAN_TSR_TME0 :: u32 where "CAN_TSR_TME0 = push_bit 26 1"
definition CAN_RFR_FMP_MASK :: u32 where "CAN_RFR_FMP_MASK = 3"
definition CAN_RFR_RFOM :: u32 where "CAN_RFR_RFOM = push_bit 5 1"
definition CAN_ESR_LEC_MASK :: u32 where "CAN_ESR_LEC_MASK = push_bit 4 7"
definition CAN_TIR_TXRQ :: u32 where "CAN_TIR_TXRQ = push_bit 0 1"
definition CAN_TIR_IDE :: u32 where "CAN_TIR_IDE = push_bit 2 1"
definition CAN_DLC_MASK :: u32 where "CAN_DLC_MASK = 0x0f"
definition CAN_RIR_EXID_MASK :: u32 where "CAN_RIR_EXID_MASK = push_bit 3 0x1fffffff"
definition NVIC_SYSTICK_CTRL_COUNTFLAG :: u32 where "NVIC_SYSTICK_CTRL_COUNTFLAG = push_bit 16 1"

abbreviation CAN_EXID_SHIFT :: nat where "CAN_EXID_SHIFT \<equiv> 3"

lemmas can_reg_bits = CAN_MCR_INRQ_def CAN_MCR_TXFP_def CAN_MCR_AWUM_def CAN_MCR_ABOM_def CAN_MCR_DBF_def CAN_MSR_INAK_def
  CAN_MSR_RX_def CAN_TSR_ABRQ0_def CAN_TSR_TME0_def CAN_RFR_FMP_MASK_def CAN_RFR_RFOM_def CAN_ESR_LEC_MASK_def CAN_TIR_TXRQ_def
  CAN_TIR_IDE_def CAN_DLC_MASK_def CAN_RIR_EXID_MASK_def NVIC_SYSTICK_CTRL_COUNTFLAG_def

definition CAN_OK :: u8 where "CAN_OK = 0"
definition CAN_BOOT_TIMEOUT :: u8 where "CAN_BOOT_TIMEOUT = 1"
definition CAN_ERROR :: u8 where "CAN_ERROR = 2"

lemmas can_errors = CAN_OK_def CAN_BOOT_TIMEOUT_def CAN_ERROR_def

definition CAN_UNKNOWN :: u32 where "CAN_UNKNOWN = 0"
definition CAN_125KBAUD :: u32 where "CAN_125KBAUD = 1"
definition CAN_250KBAUD :: u32 where "CAN_250KBAUD = 2"
definition CAN_500KBAUD :: u32 where "CAN_500KBAUD = 3"
definition CAN_1MBAUD :: u32 where "CAN_1MBAUD = 4"
definition CAN_UNDEFINED :: u32 where "CAN_UNDEFINED = 999"

lemmas can_speeds = CAN_UNKNOWN_def CAN_125KBAUD_def CAN_250KBAUD_def CAN_500KBAUD_def CAN_1MBAUD_def CAN_UNDEFINED_def

definition CAN_Mode_Normal :: u32 where "CAN_Mode_Normal = 0"
definition CAN_Mode_Silent :: u32 where "CAN_Mode_Silent = 2"

section \<open>The cycle counter\<close>

definition timer_hrt_read :: "'w can_regs \<Rightarrow> 'w \<Rightarrow> u32 \<times> 'w" where
  "timer_hrt_read H = getreg32 H NVIC_SYSTICK_CURRENT"

definition timer_hrt_clear_wrap :: "'w can_regs \<Rightarrow> 'w \<Rightarrow> 'w" where
  "timer_hrt_clear_wrap H w = snd (timer_hrt_read H w)"

definition timer_hrt_wrap :: "'w can_regs \<Rightarrow> 'w \<Rightarrow> bool \<times> 'w" where
  "timer_hrt_wrap H w = (case getreg32 H NVIC_SYSTICK_CTRL w of (rv, w) \<Rightarrow> (rv AND NVIC_SYSTICK_CTRL_COUNTFLAG \<noteq> 0, w))"

definition timer_hrt_max :: "'w can_regs \<Rightarrow> 'w \<Rightarrow> u32 \<times> 'w" where
  "timer_hrt_max H w = (case getreg32 H NVIC_SYSTICK_RELOAD w of (rv, w) \<Rightarrow> (rv + 1, w))"

definition timer_hrt_elapsed :: "'w can_regs \<Rightarrow> u32 \<Rightarrow> u32 \<Rightarrow> 'w \<Rightarrow> u32 \<times> 'w" where
  "timer_hrt_elapsed H begin end w =
     (let elapsed = begin - end
      in case timer_hrt_max H w of (reload, w) \<Rightarrow> (if elapsed > reload then elapsed + reload else elapsed, w))"

section \<open>Bit rates\<close>

definition can_speed2freq :: "u32 \<Rightarrow> u32" where
  "can_speed2freq speed = drop_bit (unat (CAN_1MBAUD - speed)) 1000000"

definition can_freq2speed :: "u32 \<Rightarrow> u32" where
  "can_freq2speed freq =
     (if freq = 1000000 then CAN_1MBAUD else if freq = 500000 then CAN_500KBAUD
      else if freq = 250000 then CAN_250KBAUD else CAN_125KBAUD)"

definition QUANTA :: "'w can_regs \<Rightarrow> nat" where
  "QUANTA H = (let f = STM32_PCLK1_FREQUENCY H in if f = 48000000 then 16 else if f = 45000000 \<or> f = 36000000 then 9 else 14)"

definition BS1_VALUE :: "'w can_regs \<Rightarrow> nat" where
  "BS1_VALUE H = (let f = STM32_PCLK1_FREQUENCY H in if f = 48000000 then 12 else if f = 45000000 \<or> f = 36000000 then 6 else 10)"

definition BS2_VALUE :: "'w can_regs \<Rightarrow> nat" where
  "BS2_VALUE H = (let f = STM32_PCLK1_FREQUENCY H in if f = 48000000 then 1 else if f = 45000000 \<or> f = 36000000 then 0 else 1)"

definition can_prescaler :: "'w can_regs \<Rightarrow> nat \<Rightarrow> nat" where
  "can_prescaler H baud = STM32_PCLK1_FREQUENCY H div baud div QUANTA H"

definition bitrate :: "'w can_regs \<Rightarrow> nat \<Rightarrow> u32" where
  "bitrate H baud =
     push_bit 24 0 OR push_bit 16 (word_of_nat (BS1_VALUE H)) OR push_bit 20 (word_of_nat (BS2_VALUE H)) OR (word_of_nat (can_prescaler H baud) - 1)"

definition bitrates :: "'w can_regs \<Rightarrow> u32 list" where
  "bitrates H = [bitrate H 125000, bitrate H 250000, bitrate H 500000, bitrate H 1000000]"

section \<open>Initialisation\<close>

abbreviation CAN_EINVAL :: int where "CAN_EINVAL \<equiv> 22"
abbreviation CAN_ETIME :: int where "CAN_ETIME \<equiv> 62"
abbreviation INAK_TIMEOUT :: nat where "INAK_TIMEOUT \<equiv> 65535"

text \<open>The wait for the acknowledge bit: whether it came before the count ran out.\<close>

fun inak_wait :: "'w can_regs \<Rightarrow> bool \<Rightarrow> nat \<Rightarrow> 'w \<Rightarrow> bool \<times> 'w" where
  "inak_wait H acked 0 w = (False, w)"
| "inak_wait H acked (Suc timeout) w =
     (case getreg32 H CAN1_MSR w of
        (msr, w) \<Rightarrow> if (msr AND CAN_MSR_INAK \<noteq> 0) = acked then (True, w) else inak_wait H acked timeout w)"

declare inak_wait.simps [simp del]

definition filter_id :: u32 where
  "filter_id = put_field 15 1 1 (put_field 7 1 1 (put_field 16 8 1 0))"

definition filter_mask :: u32 where
  "filter_mask = put_field 16 8 (mask 8) filter_id"

definition can_filters :: "'w can_regs \<Rightarrow> 'w \<Rightarrow> 'w" where
  "can_filters H w =
     fold (\<lambda>(v, r). putreg32 H v r)
       [(1, CAN1_FMR), (0, CAN1_FA1R), (3, CAN1_FS1R),
        (push_bit CAN_EXID_SHIFT filter_id, CAN1_FIR 0 1), (push_bit CAN_EXID_SHIFT filter_mask, CAN1_FIR 0 2),
        (0, CAN1_FIR 1 1), (0, CAN1_FIR 1 2), (0, CAN1_FM1R), (1, CAN1_FFA1R), (3, CAN1_FA1R), (0, CAN1_FMR)] w"

definition can_init :: "'w can_regs \<Rightarrow> u32 \<Rightarrow> u32 \<Rightarrow> 'w \<Rightarrow> (int \<times> 'w) option" where
  "can_init H speed mode w =
     (let speedndx = sint (speed - 1)
      in if speedndx < 0 \<or> speedndx > int (length (bitrates H)) then Some (- CAN_EINVAL, w)
         else
           case inak_wait H True INAK_TIMEOUT (putreg32 H (CAN_MCR_DBF OR CAN_MCR_INRQ) CAN1_MCR w) of
             (acked, w) \<Rightarrow>
               if \<not> acked then Some (- CAN_ETIME, w)
               else if nat speedndx \<ge> length (bitrates H) then None
               else
                 let w = putreg32 H (bitrates H ! nat speedndx OR push_bit 30 mode) CAN1_BTR w;
                     w = putreg32 H (CAN_MCR_ABOM OR CAN_MCR_AWUM OR CAN_MCR_DBF OR CAN_MCR_TXFP) CAN1_MCR w
                 in case inak_wait H False INAK_TIMEOUT w of
                      (left, w) \<Rightarrow> if \<not> left then Some (- CAN_ETIME, w) else Some (0, can_filters H w))"

section \<open>Frames\<close>

definition CAN_TX_TIMEOUT_MS :: "'w can_regs \<Rightarrow> nat" where
  "CAN_TX_TIMEOUT_MS H = 200 div (1000 div (1000000 div CONFIG_USEC_PER_TICK H))"

text \<open>The wait for an empty mailbox; the count is a 32-bit number, so from zero it goes on from \<open>2 ^ 32 - 1\<close>.\<close>

partial_function (option) tx_wait :: "'w can_regs \<Rightarrow> u32 \<Rightarrow> u32 \<Rightarrow> 'w \<Rightarrow> (bool \<times> 'w) option" where
  "tx_wait H msk cnt w =
     (case getreg32 H CAN1_TSR w of
        (tsr, w) \<Rightarrow>
          if tsr AND msk \<noteq> 0 then Some (True, w)
          else case timer_hrt_wrap H w of
            (wrapped, w) \<Rightarrow>
              if wrapped then
                let w = timer_hrt_clear_wrap H w
                in if cnt - 1 = 0 then Some (False, w) else tx_wait H msk (cnt - 1) w
              else tx_wait H msk cnt w)"

text \<open>A message is eight bytes, of which \<open>len\<close> are sent.\<close>

definition stm32_can_tx :: "'w can_regs \<Rightarrow> u32 \<Rightarrow> u32 \<Rightarrow> u8 list \<Rightarrow> u8 \<Rightarrow> 'w \<Rightarrow> (u8 \<times> 'w) option" where
  "stm32_can_tx H message_id len message mb w =
     (let n = unat mb;
          w = timer_hrt_clear_wrap H w
      in do {
        (empty, w) \<leftarrow> tx_wait H (push_bit n CAN_TSR_TME0) (word_of_nat (CAN_TX_TIMEOUT_MS H)) w;
        if \<not> empty then Some (CAN_ERROR, w)
        else
          let w = putreg32 H CAN_ESR_LEC_MASK CAN1_ESR w;
              w = putreg32 H (len AND CAN_DLC_MASK) (CAN1_TDTR n) w;
              w = putreg32 H (u32_of_bytes (take 4 message)) (CAN1_TDLR n) w;
              w = putreg32 H (u32_of_bytes (take 4 (drop 4 message))) (CAN1_TDHR n) w;
              w = putreg32 H (push_bit CAN_EXID_SHIFT message_id OR CAN_TIR_IDE OR CAN_TIR_TXRQ) (CAN1_TIR n) w
          in Some (CAN_OK, w)
      })"

definition stm32_can_rx :: "'w can_regs \<Rightarrow> u8 \<Rightarrow> 'w \<Rightarrow> (u32 \<times> nat \<times> u8 list) option \<times> 'w" where
  "stm32_can_rx H ff w =
     (let n = unat ff
      in case getreg32 H (CAN1_RFR (n mod 2)) w of
           (rfr, w) \<Rightarrow>
             if rfr AND CAN_RFR_FMP_MASK = 0 then (None, w)
             else
               case getreg32 H (CAN1_RIR n) w of (rir, w) \<Rightarrow>
               case getreg32 H (CAN1_RDTR n) w of (rdtr, w) \<Rightarrow>
               case getreg32 H (CAN1_RDLR n) w of (lo, w) \<Rightarrow>
               case getreg32 H (CAN1_RDHR n) w of (hi, w) \<Rightarrow>
                 (Some (drop_bit CAN_EXID_SHIFT (rir AND CAN_RIR_EXID_MASK), unat (rdtr AND CAN_DLC_MASK), bytes_of_u32 lo @ bytes_of_u32 hi),
                  putreg32 H CAN_RFR_RFOM (CAN1_RFR (n mod 2)) w))"

partial_function (option) lec_wait :: "'w can_regs \<Rightarrow> 'w \<Rightarrow> (u32 \<times> 'w) option" where
  "lec_wait H w =
     (case getreg32 H CAN1_ESR w of
        (esr, w) \<Rightarrow>
          let rvalue = esr AND CAN_ESR_LEC_MASK
          in if CAN_ESR_LEC_MASK = rvalue then lec_wait H w else Some (rvalue, w))"

definition stm32_can_cancel_on_error :: "'w can_regs \<Rightarrow> u8 \<Rightarrow> 'w \<Rightarrow> 'w option" where
  "stm32_can_cancel_on_error H mb w =
     do {
       (rvalue, w) \<leftarrow> lec_wait H w;
       Some (if rvalue \<noteq> 0
         then putreg32 H (push_bit (unat mb * 8) CAN_TSR_ABRQ0) CAN1_TSR (putreg32 H 0 CAN1_ESR w)
         else w)
     }"

text \<open>
  The driver as the transfers see it: \<open>fill\<close> is what stands in memory behind the bytes of a message.  The waits end on every board
  whose system timer runs; a wait that does not end is shown as an error here.
\<close>

definition driver_of :: "'w can_regs \<Rightarrow> u8 list \<Rightarrow> 'w can_driver" where
  "driver_of H fill =
     \<lparr>can_rx = stm32_can_rx H,
      can_tx = (\<lambda>i d mb w. case stm32_can_tx H i (word_of_nat (length d)) (take 8 (d @ fill)) mb w of Some r \<Rightarrow> r | None \<Rightarrow> (CAN_ERROR, w)),
      can_cancel_on_error = (\<lambda>mb w. case stm32_can_cancel_on_error H mb w of Some w \<Rightarrow> w | None \<Rightarrow> w)\<rparr>"

section \<open>Detection of the bit rate\<close>

definition read_msr :: "'w can_regs \<Rightarrow> 'w \<Rightarrow> (u32 \<times> u32) \<times> 'w" where
  "read_msr H w = (case timer_hrt_read H w of (now, w) \<Rightarrow> case getreg32 H CAN1_MSR w of (msr, w) \<Rightarrow> ((msr AND CAN_MSR_RX, now), w))"

type_synonym ('cb, 'w, 'x) can_isr = "('cb, 'w, 'x) can_state \<Rightarrow> ('cb, 'w, 'x) can_state option"

text \<open>The inner loop waits for an edge, the outer one collects the times of the edges.\<close>

partial_function (option) edge_loop ::
  "'w can_regs \<Rightarrow> ('cb, 'w, 'x) can_isr \<Rightarrow> nat \<Rightarrow> u32 \<Rightarrow> ('cb, 'w, 'x) can_state \<Rightarrow> ((u32 \<times> u32) \<times> ('cb, 'w, 'x) can_state) option" where
  "edge_loop H isr ab_ref last_msr s =
     do {
       s \<leftarrow> isr s;
       case with_can (read_msr H) s of
         ((msr, now), s) \<Rightarrow>
           if msr XOR last_msr = 0 \<and> \<not> timer_ref_expired ab_ref s then edge_loop H isr ab_ref last_msr s
           else Some ((msr, now), s)
     }"

partial_function (option) bits_loop ::
  "'w can_regs \<Rightarrow> ('cb, 'w, 'x) can_isr \<Rightarrow> nat \<Rightarrow> u32 \<Rightarrow> nat \<Rightarrow> u32 list \<Rightarrow> ('cb, 'w, 'x) can_state \<Rightarrow>
   ((nat \<times> u32 list) \<times> ('cb, 'w, 'x) can_state) option" where
  "bits_loop H isr ab_ref last_msr samplecnt stamps s =
     (if samplecnt < length stamps \<and> \<not> timer_ref_expired ab_ref s then
        do {
          ((msr, now), s) \<leftarrow> edge_loop H isr ab_ref last_msr s;
          bits_loop H isr ab_ref msr (samplecnt + 1) (stamps[samplecnt := now]) s
        }
      else Some ((samplecnt, stamps), s))"

abbreviation CAN_BAUD_TIME_IN_MS :: u32 where "CAN_BAUD_TIME_IN_MS \<equiv> 200"
abbreviation CAN_BAUD_SAMPLES_NEEDED :: nat where "CAN_BAUD_SAMPLES_NEEDED \<equiv> 32"
abbreviation CAN_BAUD_SAMPLES_DISCARDED :: nat where "CAN_BAUD_SAMPLES_DISCARDED \<equiv> 8"

definition read_bits_times ::
  "'w can_regs \<Rightarrow> ('cb, 'w, 'x) can_isr \<Rightarrow> u32 list \<Rightarrow> ('cb, 'w, 'x) can_state \<Rightarrow> ((nat \<times> u32 list) \<times> ('cb, 'w, 'x) can_state) option" where
  "read_bits_times H isr stamps s =
     (case timer_allocate (modeTimeout OR modeStarted) CAN_BAUD_TIME_IN_MS None s of
        (ab_timer, s) \<Rightarrow>
          case with_can (read_msr H) s of
            ((last_msr, now), s) \<Rightarrow>
              do {
                (r, s) \<leftarrow> bits_loop H isr (timer_ref ab_timer) last_msr 0 (stamps[0 := now]) s;
                Some (r, timer_free ab_timer s)
              })"

text \<open>The shortest time between two edges.\<close>

fun measure_loop :: "'w can_regs \<Rightarrow> nat list \<Rightarrow> u32 \<Rightarrow> u32 list \<Rightarrow> 'w \<Rightarrow> (u32 \<times> u32 list) \<times> 'w" where
  "measure_loop H [] min_cycles samples w = ((min_cycles, samples), w)"
| "measure_loop H (sample # rest) min_cycles samples w =
     (case timer_hrt_elapsed H (samples ! sample) (samples ! (sample + 1)) w of
        (bit_time, w) \<Rightarrow>
          measure_loop H rest
            (if sample > CAN_BAUD_SAMPLES_DISCARDED \<and> bit_time < min_cycles then bit_time else min_cycles)
            (samples[sample := bit_time]) w)"

definition measure_bit_time :: "'w can_regs \<Rightarrow> nat \<Rightarrow> u32 list \<Rightarrow> 'w \<Rightarrow> (u32 \<times> u32 list) \<times> 'w" where
  "measure_bit_time H samplecnt samples w =
     measure_loop H (filter even [0..<samplecnt]) 0xffffffff samples w"

definition CAN_125KBAUD_BIT_CYCLES :: "'w can_regs \<Rightarrow> u32" where
  "CAN_125KBAUD_BIT_CYCLES H = 8 * TIMER_HRT_CYCLES_PER_US H"

function speed_loop :: "u32 \<Rightarrow> u32 \<Rightarrow> u32 \<Rightarrow> u32" where
  "speed_loop min_cycles bit34 speed =
     (if min_cycles < bit34 \<and> speed < CAN_1MBAUD then speed_loop min_cycles (bit34 div 2) (speed + 1) else speed)"
  by pat_completeness auto
termination
proof (relation "measure (\<lambda>(m, b, speed). 4 - unat speed)")
  fix m b speed :: u32
  assume "m < b \<and> speed < CAN_1MBAUD"
  then have "unat speed < 4" by (simp add: CAN_1MBAUD_def word_less_nat_alt)
  then show "((m, b div 2, speed + 1), m, b, speed) \<in> measure (\<lambda>(m, b, speed). 4 - unat speed)"
    by (simp add: unat_word_ariths)
qed simp

declare speed_loop.simps [simp del]

definition speed_of_bit :: "'w can_regs \<Rightarrow> u32 \<Rightarrow> u32" where
  "speed_of_bit H min_cycles =
     speed_loop min_cycles (CAN_125KBAUD_BIT_CYCLES H - CAN_125KBAUD_BIT_CYCLES H div 4) CAN_125KBAUD"

definition try_can :: "('w \<Rightarrow> ('r \<times> 'w) option) \<Rightarrow> ('cb, 'w, 'x) can_state \<Rightarrow> ('r \<times> ('cb, 'w, 'x) can_state) option" where
  "try_can f s = do { (r, w) \<leftarrow> f (can (bl_env s)); Some (r, upd_env (\<lambda>e. e\<lparr>can := w\<rparr>) s) }"

text \<open>Some frame is in one of the two fifos.\<close>

definition frame_pending :: "'w can_regs \<Rightarrow> 'w \<Rightarrow> bool \<times> 'w" where
  "frame_pending H w =
     (case getreg32 H (CAN1_RFR 0) w of (a, w) \<Rightarrow> case getreg32 H (CAN1_RFR 1) w of (b, w) \<Rightarrow> ((a OR b) AND CAN_RFR_FMP_MASK \<noteq> 0, w))"

partial_function (option) autobaud_loop ::
  "'w can_regs \<Rightarrow> ('cb, 'w, 'x) can_isr \<Rightarrow> u8 \<Rightarrow> u32 \<Rightarrow> u32 list \<Rightarrow> ('cb, 'w, 'x) can_state \<Rightarrow> ((u8 \<times> u32) \<times> ('cb, 'w, 'x) can_state) option" where
  "autobaud_loop H isr timeout speed samples s =
     do {
       ((samplecnt, samples), s) \<leftarrow> read_bits_times H isr samples s;
       if timer_expired timeout s then Some ((CAN_BOOT_TIMEOUT, CAN_UNKNOWN), s)
       else
         case with_can (frame_pending H) s of
           (pending, s) \<Rightarrow>
             if pending then do { (_, s) \<leftarrow> try_can (can_init H speed CAN_Mode_Normal) s; Some ((CAN_OK, speed), s) }
             else if samplecnt < CAN_BAUD_SAMPLES_NEEDED then autobaud_loop H isr timeout speed samples s
             else
               case with_can (measure_bit_time H samplecnt samples) s of
                 ((min_cycles, samples), s) \<Rightarrow>
                   let speed = speed_of_bit H min_cycles
                   in do {
                     (_, s) \<leftarrow> try_can (can_init H speed CAN_Mode_Silent) s;
                     autobaud_loop H isr timeout speed (samples[1 := min_cycles]) s
                   }
     }"

text \<open>The array of samples has 128 elements, at first with whatever was on the stack.\<close>

definition can_autobaud ::
  "'w can_regs \<Rightarrow> ('cb, 'w, 'x) can_isr \<Rightarrow> u32 \<Rightarrow> u8 \<Rightarrow> ('cb, 'w, 'x) can_state \<Rightarrow> ((u8 \<times> u32) \<times> ('cb, 'w, 'x) can_state) option" where
  "can_autobaud H isr stack timeout s = autobaud_loop H isr timeout CAN_125KBAUD (replicate 128 stack) s"

section \<open>Lemmas\<close>

lemma speed_loop_cases:
  fixes c :: nat
  assumes "unat (b :: u32) = 6 * c"
  shows "speed_loop m b CAN_125KBAUD =
    (if unat m \<ge> 6 * c then CAN_125KBAUD else if unat m \<ge> 3 * c then CAN_250KBAUD else if unat m \<ge> 3 * c div 2 then CAN_500KBAUD else CAN_1MBAUD)"
proof -
  have u: "unat (b div 2) = 3 * c" "unat (b div 2 div 2) = 3 * c div 2" using assms by (simp_all add: unat_div)
  show ?thesis
    using u assms by (simp add: speed_loop.simps [of m b] speed_loop.simps [of m "b div 2"] speed_loop.simps [of m "b div 2 div 2"]
        speed_loop.simps [of m "b div 2 div 2 div 2"] can_speeds word_less_nat_alt)
qed

text \<open>The bit rate of the controller for a value of its bit timing register, from the reference manual of the chip.\<close>

definition btr_rate :: "nat \<Rightarrow> u32 \<Rightarrow> nat" where
  "btr_rate clock btr =
     clock div ((unat (get_field 0 10 btr) + 1) * (1 + (unat (get_field 16 4 btr) + 1) + (unat (get_field 20 3 btr) + 1)))"

text \<open>A bus of two controllers whose registers are plain memory: a frame goes from a mailbox to a fifo.\<close>

definition plain_regs :: "(can_reg \<Rightarrow> u32) can_regs" where
  "plain_regs = \<lparr>getreg32 = (\<lambda>r w. (w r, w)), putreg32 = (\<lambda>v r w. w(r := v)), STM32_PCLK1_FREQUENCY = 42000000,
     CONFIG_USEC_PER_TICK = 10000, TIMER_HRT_CYCLES_PER_US = 168\<rparr>"

definition carry :: "nat \<Rightarrow> nat \<Rightarrow> (can_reg \<Rightarrow> u32) \<Rightarrow> (can_reg \<Rightarrow> u32) \<Rightarrow> can_reg \<Rightarrow> u32" where
  "carry mb ff w v = v(CAN1_RFR (ff mod 2) := 1, CAN1_RIR ff := w (CAN1_TIR mb), CAN1_RDTR ff := w (CAN1_TDTR mb),
     CAN1_RDLR ff := w (CAN1_TDLR mb), CAN1_RDHR ff := w (CAN1_TDHR mb))"

lemma exid_field: "drop_bit 3 ((push_bit 3 i OR CAN_TIR_IDE OR CAN_TIR_TXRQ) AND CAN_RIR_EXID_MASK) = (take_bit 29 i :: u32)"
proof (rule bit_word_eqI)
  fix n assume "n < LENGTH(32)"
  moreover have m: "(0x1fffffff :: u32) = mask 29" by (simp add: mask_eq_exp_minus_1)
  ultimately show "bit (drop_bit 3 ((push_bit 3 i OR CAN_TIR_IDE OR CAN_TIR_TXRQ) AND CAN_RIR_EXID_MASK)) n = bit (take_bit 29 i :: u32) n"
    unfolding can_reg_bits m by (auto simp: bit_simps)
qed

lemma field_below_mode: "pos + n \<le> 30 \<Longrightarrow> get_field pos n (x OR push_bit 30 (mode :: u32)) = get_field pos n x"
  by (rule bit_word_eqI) (auto simp: get_field_def bit_simps)

lemma bitrate_exact:
  assumes "STM32_PCLK1_FREQUENCY H \<in> {36000000, 42000000, 45000000, 48000000}"
  shows "btr_rate (STM32_PCLK1_FREQUENCY H) (bitrate H 125000) = 125000" "btr_rate (STM32_PCLK1_FREQUENCY H) (bitrate H 250000) = 250000"
    "btr_rate (STM32_PCLK1_FREQUENCY H) (bitrate H 500000) = 500000" "btr_rate (STM32_PCLK1_FREQUENCY H) (bitrate H 1000000) = 1000000"
  using assms
  by (auto simp: bitrate_def BS1_VALUE_def BS2_VALUE_def can_prescaler_def QUANTA_def btr_rate_def get_field_def)

section \<open>Properties\<close>

text \<open>
  The bit timing that \<open>can_init\<close> writes is exact: at each of the four clocks the driver knows and for each speed, the register
  value, whatever the mode bits, makes the controller run at the bit rate that \<open>can_speed2freq\<close> gives.
\<close>

theorem bit_timing_exact:
  assumes "STM32_PCLK1_FREQUENCY H \<in> {36000000, 42000000, 45000000, 48000000}"
    and "speed \<in> {CAN_125KBAUD, CAN_250KBAUD, CAN_500KBAUD, CAN_1MBAUD}" and "mode < 4"
  shows "btr_rate (STM32_PCLK1_FREQUENCY H) (bitrates H ! nat (sint (speed - 1)) OR push_bit 30 mode) = unat (can_speed2freq speed)"
proof -
  have r: "btr_rate k (x OR push_bit 30 mode) = btr_rate k x" for k x
    by (simp add: btr_rate_def field_below_mode)
  have "speed = 1 \<and> bitrates H ! nat (sint (speed - 1)) = bitrate H 125000 \<or> speed = 2 \<and> bitrates H ! nat (sint (speed - 1)) = bitrate H 250000 \<or>
      speed = 3 \<and> bitrates H ! nat (sint (speed - 1)) = bitrate H 500000 \<or> speed = 4 \<and> bitrates H ! nat (sint (speed - 1)) = bitrate H 1000000"
    using assms(2) by (auto simp: can_speeds bitrates_def)
  then show ?thesis using bitrate_exact [OF assms(1)] unfolding r by (auto simp: can_speed2freq_def can_speeds)
qed

theorem bit_timing_exact_witness:
  "btr_rate 42000000 (bitrates plain_regs ! 3 OR push_bit 30 CAN_Mode_Normal) = 1000000"
  using bit_timing_exact [of plain_regs CAN_1MBAUD CAN_Mode_Normal]
  by (simp add: plain_regs_def can_speeds CAN_Mode_Normal_def can_speed2freq_def)

text \<open>
  The detection of the bit rate classifies a bus correctly: when the shortest time between two edges is at least three
  quarters of the bit time of one of the four speeds and less than one and a half of it, the result is that speed.
\<close>

theorem autobaud_classifies:
  assumes "unat (TIMER_HRT_CYCLES_PER_US H) = c" and "8 * c < 2 ^ 32" and "k < 4"
    and "3 * (8 * c div 2 ^ k) \<le> 4 * unat m" and "2 * unat m + 2 \<le> 3 * (8 * c div 2 ^ k)"
  shows "speed_of_bit H m = word_of_nat (k + 1)"
proof -
  have c8: "unat (CAN_125KBAUD_BIT_CYCLES H) = 8 * c" using assms(1,2) by (simp add: CAN_125KBAUD_BIT_CYCLES_def unat_word_ariths)
  then have c2: "unat (CAN_125KBAUD_BIT_CYCLES H div 4) = 2 * c" by (simp add: unat_div)
  then have c: "unat (CAN_125KBAUD_BIT_CYCLES H - CAN_125KBAUD_BIT_CYCLES H div 4) = 6 * c" using c8 by (simp add: unat_sub word_le_nat_alt)
  have "k = 0 \<or> k = 1 \<or> k = 2 \<or> k = 3" using assms(3) by linarith
  then show ?thesis unfolding speed_of_bit_def speed_loop_cases [OF c] using assms(2,4,5)
    by (elim disjE) (auto simp: can_speeds)
qed

theorem autobaud_classifies_witness:
  "speed_of_bit plain_regs 330 = CAN_500KBAUD"
  using autobaud_classifies [of plain_regs 168 2 330] by (simp add: plain_regs_def can_speeds)

text \<open>
  A frame survives the registers: what \<open>can_tx\<close> puts into a mailbox and the bus carries into a fifo comes out of \<open>can_rx\<close> with
  the 29 bits of the identifier, the length and the eight bytes, and the fifo is released.
\<close>

theorem frame_through_registers:
  assumes "w CAN1_TSR AND push_bit (unat mb) CAN_TSR_TME0 \<noteq> 0" and "length message = 8" and "len < 16"
  shows "\<exists>w'. stm32_can_tx plain_regs i len message mb w = Some (CAN_OK, w') \<and>
    stm32_can_rx plain_regs ff (carry (unat mb) (unat ff) w' v) =
      (Some (take_bit 29 i, unat len, message), (carry (unat mb) (unat ff) w' v)(CAN1_RFR (unat ff mod 2) := CAN_RFR_RFOM))"
proof -
  have t: "tx_wait plain_regs (push_bit (unat mb) CAN_TSR_TME0) cnt w = Some (True, w)" for cnt
    using assms(1) by (subst tx_wait.simps) (simp add: plain_regs_def)
  have l: "len AND CAN_DLC_MASK = len"
  proof -
    have "CAN_DLC_MASK = mask 4" by (simp add: CAN_DLC_MASK_def mask_eq_exp_minus_1)
    then have "len AND CAN_DLC_MASK = take_bit 4 len" by (simp only: take_bit_eq_mask)
    then show ?thesis using assms(3) by (simp add: word_unat_eq_iff word_less_nat_alt unsigned_take_bit_eq take_bit_nat_eq_self)
  qed
  have b: "bytes_of_u32 (u32_of_bytes (take 4 message)) @ bytes_of_u32 (u32_of_bytes (take 4 (drop 4 message))) = message"
    using assms(2) by (simp add: bytes_of_u32_of_bytes)
  have "timer_hrt_clear_wrap plain_regs w = w" by (simp add: timer_hrt_clear_wrap_def timer_hrt_read_def plain_regs_def)
  then show ?thesis
    by (simp add: stm32_can_tx_def t Let_def) (simp add: stm32_can_rx_def carry_def plain_regs_def exid_field [simplified] l b CAN_RFR_FMP_MASK_def Let_def)
qed

theorem frame_through_registers_witness:
  "\<exists>w'. stm32_can_tx plain_regs 0x155 3 [1, 2, 3, 0, 0, 0, 0, 0] 1 (\<lambda>_. 0xffffffff) = Some (CAN_OK, w') \<and>
    fst (stm32_can_rx plain_regs 0 (carry 1 0 w' (\<lambda>_. 0))) = Some (0x155, 3, [1, 2, 3, 0, 0, 0, 0, 0])"
proof -
  have t: "take_bit 29 (0x155 :: u32) = 0x155" "(0xffffffff :: u32) AND push_bit (unat (1 :: u8)) CAN_TSR_TME0 \<noteq> 0"
    by (simp_all add: CAN_TSR_TME0_def)
  show ?thesis
    using frame_through_registers [of "\<lambda>_. 0xffffffff" 1 "[1, 2, 3, 0, 0, 0, 0, 0]" 3 "0x155" 0 "\<lambda>_. 0"] t by fastforce
qed

text \<open>
  The filter for the second fifo passes exactly the requests for node information.
\<close>

theorem filter_passes_node_info:
  "x AND filter_mask = filter_id AND filter_mask \<longleftrightarrow> get_field 16 8 x = 1 \<and> bit x 15 \<and> bit x 7"
proof -
  have v: "filter_mask = 0xff8080" "filter_id AND filter_mask = 0x018080"
    by (simp_all add: filter_mask_def filter_id_def put_field_def field_mask_def mask_eq_exp_minus_1)
  have ext: "a = b \<longleftrightarrow> (\<forall>n < 32. bit a n = bit b n)" for a b :: u32 by (auto intro: bit_word_eqI)
  have "x AND filter_mask = filter_id AND filter_mask \<longleftrightarrow> (\<forall>n < 32. (bit x n \<and> bit (0xff8080 :: u32) n) = bit (0x018080 :: u32) n)"
    unfolding v(2) by (simp only: v(1) ext bit_and_iff)
  also have "\<dots> \<longleftrightarrow> bit x 7 \<and> bit x 15 \<and> bit x 16 \<and> \<not> bit x 17 \<and> \<not> bit x 18 \<and> \<not> bit x 19 \<and> \<not> bit x 20 \<and> \<not> bit x 21 \<and> \<not> bit x 22 \<and> \<not> bit x 23"
    by (simp add: All_less_Suc numeral_eq_Suc) blast
  also have "bit x 16 \<and> \<not> bit x 17 \<and> \<not> bit x 18 \<and> \<not> bit x 19 \<and> \<not> bit x 20 \<and> \<not> bit x 21 \<and> \<not> bit x 22 \<and> \<not> bit x 23 \<longleftrightarrow> get_field 16 8 x = 1"
  proof -
    have "get_field 16 8 x = 1 \<longleftrightarrow> (\<forall>n < 32. (n < 8 \<and> bit x (16 + n)) = (n = 0))"
      by (simp add: ext get_field_def bit_simps)
    then show ?thesis by (simp add: All_less_Suc numeral_eq_Suc) blast
  qed
  finally show ?thesis by blast
qed

end
