(* ===== verification/Can_Node.thy ===== *)
theory Can_Node
  imports Can_Driver App_Shared Stm32f4_Flash
begin

text \<open>
  The CAN bootloader: \<open>canbootloader/uavcan/main.c\<close> with its helpers \<open>fs/flash.c\<close> and \<open>util/random.c\<close>.  It checks
  the application in flash, gets a node id, answers node information requests, takes a firmware image from a file
  server, programs it and starts it.

  The global structure \<open>bootloader\<close> and the static variables are the record \<open>bootloader_t\<close>, the environment of the
  timers; the state of the CAN peripheral and of the flash array are its fields \<open>can\<close> and \<open>flash\<close>.  The board is the record
  \<open>can_board\<close>.  Interrupts come at every turn of a waiting loop, as many ticks as \<open>elapse\<close> says.  A pointer is a natural number,
  the null pointer 0.  The build modelled is that of the STM32F4: one word is programmed last, no jumper, no second shared
  memory format, no debug switches.
\<close>

section \<open>State\<close>

datatype can_cb = uptime_cb | node_info_cb | node_status_cb

record ('w, 'd) bootloader_t = "'w uavcan" +
  bus_speed :: u32
  health :: u8
  mode :: u8
  sub_mode :: u8
  app_valid :: bool
  uptime :: u32
  fw_image_descriptor :: nat
  wait_for_getnodeinfo :: bool
  app_bl_request :: bool
  sent_node_info_response :: bool
  percentage_done :: u16
  fw_word0 :: u32
  rseed :: u32
  status_transfer_id :: u8
  flash :: 'd
  shared_mem :: shared_regs
  hung :: bool

type_synonym ('w, 'd) node = "(can_cb, ('w, 'd) bootloader_t) bl_sched"

record ('w, 'd) can_board =
  dev :: "'d f4_dev"
  elapse :: "'w \<Rightarrow> nat \<times> 'w"
  ms_elapsed :: u32
  regs :: "'w can_regs"
  hw_version :: "u8 list"
  unique_id :: "u8 list"
  certificate_length :: nat
  product_name :: "u8 list"
  uninit :: u8
  APPLICATION_LOAD_ADDRESS :: nat
  APPLICATION_SIZE :: nat
  APPLICATION_LAST_8BIT_ADDRRESS :: nat
  APPLICATION_LAST_64BIT_ADDRRESS :: nat
  OPT_APPLICATION_IMAGE_LENGTH :: u32
  OPT_WAIT_FOR_GETNODEINFO :: bool
  OPT_NODE_INFO_RATE_MS :: u32
  OPT_NODE_STATUS_RATE_MS :: u32
  OPT_TBOOT_MS :: u32
  OPT_RESTART_TIMEOUT_MS :: u32
  OPT_PREFERRED_NODE_ID :: u32
  OPT_USE_YIELD :: bool

definition drv :: "('w, 'd) can_board \<Rightarrow> 'w can_driver" where
  "drv C = driver_of (regs C) (replicate 8 (uninit C))"

definition node_mem :: "('w, 'd) can_board \<Rightarrow> ('w, 'd) node \<Rightarrow> nat \<Rightarrow> u8" where
  "node_mem C s = f4_read (dev C) (flash (bl_env s))"

definition blank_p :: "('w, 'd) can_board \<Rightarrow> uavcan_protocol" where
  "blank_p C = \<lparr>id_u32 = 0, tail_u8 = uninit C\<rparr>"

section \<open>Random numbers\<close>

definition util_srand :: "u16 \<Rightarrow> ('w, 'd) node \<Rightarrow> ('w, 'd) node" where
  "util_srand seed = upd_env (\<lambda>e. e\<lparr>rseed := ucast seed\<rparr>)"

definition util_random :: "nat \<Rightarrow> nat \<Rightarrow> ('w, 'd) node \<Rightarrow> nat \<times> ('w, 'd) node" where
  "util_random lo hi s =
     (let seed = (rseed (bl_env s) * 214013 + 2531011) AND 0x7fffffff;
          rand = unat (drop_bit 16 seed)
      in (rand mod (hi - lo) + lo, upd_env (\<lambda>e. e\<lparr>rseed := seed\<rparr>) s))"

section \<open>Timer processes\<close>

definition uptime_process :: "('w, 'd) node \<Rightarrow> ('w, 'd) node" where
  "uptime_process = upd_env (\<lambda>e. e\<lparr>uptime := uptime e + 1\<rparr>)"

definition pack_status :: "('w, 'd) bootloader_t \<Rightarrow> u8" where
  "pack_status e = (sub_mode e AND field_mask 0 3) OR (push_bit 3 (mode e) AND field_mask 3 3) OR (push_bit 6 (health e) AND field_mask 6 2)"

definition descriptor_version :: "('w, 'd) can_board \<Rightarrow> ('w, 'd) node \<Rightarrow> u8 list" where
  "descriptor_version C s =
     (let d = fw_image_descriptor (bl_env s); m = node_mem C s
      in [m (d + 24), m (d + 25), 3] @ mem_list m (d + 20) 4 @ mem_list m (d + 8) 8)"

definition node_info_response :: "('w, 'd) can_board \<Rightarrow> ('w, 'd) node \<Rightarrow> uavcan_GetNodeInfo_response" where
  "node_info_response C s =
     \<lparr>nodes_status = bytes_of_u32 (uptime (bl_env s)) @ [pack_status (bl_env s), 0, 0],
      software_version = (if app_valid (bl_env s) then descriptor_version C s else replicate 15 0),
      hardware_version = hw_version C, certificate_of_authenticity_length = certificate_length C,
      node_name = product_name C, name_length = length (product_name C)\<rparr>"

definition node_info_process :: "('w, 'd) can_board \<Rightarrow> ('w, 'd) node \<Rightarrow> ('w, 'd) node option" where
  "node_info_process C s =
     (let response = uavcan_pack_GetNodeInfo_response (node_info_response C s)
      in do {
        ((rv, p, _, _), s) \<leftarrow> uavcan_rx_dsdl (drv C) Some DSDLReqGetNodeInfo (blank_p C) (replicate 8 (uninit C)) 8 0 s;
        if rv = UavcanOk then
          case uavcan_tx_dsdl (drv C) DSDLRspGetNodeInfo p response s of
            (rv, _, s) \<Rightarrow> Some (if rv = UavcanOk then upd_env (\<lambda>e. e\<lparr>sent_node_info_response := True\<rparr>) s else s)
        else Some s
      })"

definition node_status_process :: "('w, 'd) can_board \<Rightarrow> ('w, 'd) node \<Rightarrow> ('w, 'd) node" where
  "node_status_process C s =
     (let p = set_transfer_id (status_transfer_id (bl_env s)) (blank_p C);
          s = upd_env (\<lambda>e. e\<lparr>status_transfer_id := status_transfer_id e + 1\<rparr>) s;
          e = bl_env s;
          message = bytes_of_u32 (uptime e) @ [pack_status e] @ bytes_of_u16 (percentage_done e)
      in snd (snd (uavcan_tx_dsdl (drv C) DSDLMsgNodeStatus p message s)))"

text \<open>A process that does not return leaves the mark \<open>hung\<close>.\<close>

fun run_cb :: "('w, 'd) can_board \<Rightarrow> (can_cb, ('w, 'd) bootloader_t) cb_call" where
  "run_cb C uptime_cb t ctx s = uptime_process s"
| "run_cb C node_info_cb t ctx s =
     (case node_info_process C s of None \<Rightarrow> upd_env (\<lambda>e. e\<lparr>hung := True\<rparr>) s | Some s \<Rightarrow> s)"
| "run_cb C node_status_cb t ctx s = node_status_process C s"

definition interrupts :: "('w, 'd) can_board \<Rightarrow> ('w, 'd) node \<Rightarrow> ('w, 'd) node option" where
  "interrupts C s =
     (case with_can (elapse C) s of
        (n, s) \<Rightarrow> let s = (nxsched_process_timer (run_cb C) (ms_elapsed C) ^^ n) s
                 in if hung (bl_env s) then None else Some s)"

section \<open>Flash\<close>

datatype flash_error = FLASH_OK | FLASH_ERROR | FLASH_ERASE_ERROR | FLASH_ERASE_VERIFY_ERROR | FLASH_ERROR_SUICIDE | FLASH_ERROR_AFU

definition bl_sched_yield :: "('w, 'd) can_board \<Rightarrow> ('w, 'd) node \<Rightarrow> ('w, 'd) node" where
  "bl_sched_yield C s = (if OPT_USE_YIELD C then node_status_process C s else s)"

fun erase_loop :: "('w, 'd) can_board \<Rightarrow> nat list \<Rightarrow> ('w, 'd) node \<Rightarrow> flash_error \<times> ('w, 'd) node" where
  "erase_loop C [] s = (FLASH_OK, s)"
| "erase_loop C (page # pages) s =
     (let s = bl_sched_yield C s
      in case up_progmem_eraseblock_f4 (dev C) page (flash (bl_env s)) of
           (ps, d) \<Rightarrow>
             let s = upd_env (\<lambda>e. e\<lparr>flash := d\<rparr>) s
             in if ps \<le> 0 then (FLASH_ERASE_ERROR, s) else erase_loop C pages s)"

definition bl_flash_erase :: "('w, 'd) can_board \<Rightarrow> nat \<Rightarrow> nat \<Rightarrow> ('w, 'd) node \<Rightarrow> flash_error \<times> ('w, 'd) node" where
  "bl_flash_erase C address nbytes s =
     (let bllastpage = up_progmem_getpage_f4 (dev C) (address - 1)
      in if bllastpage < 0 then (FLASH_ERROR_AFU, s)
         else
           let appstartpage = up_progmem_getpage_f4 (dev C) address;
               appendpage = up_progmem_getpage_f4 (dev C) (address + nbytes - 4)
           in if appendpage < 0 \<or> appstartpage < 0 then (FLASH_ERROR_AFU, s)
              else if appstartpage > bllastpage then erase_loop C [nat appstartpage..<nat appendpage + 1] s
              else (FLASH_ERROR_SUICIDE, s))"

definition bl_flash_write :: "('w, 'd) can_board \<Rightarrow> nat \<Rightarrow> u8 list \<Rightarrow> ('w, 'd) node \<Rightarrow> flash_error \<times> ('w, 'd) node" where
  "bl_flash_write C flash_address data s =
     (if flash_address \<ge> APPLICATION_LOAD_ADDRESS C \<and> flash_address + length data \<le> APPLICATION_LAST_8BIT_ADDRRESS C then
        case up_progmem_write_f4 (dev C) flash_address data (flash (bl_env s)) of
          (rv, d) \<Rightarrow> (if rv = int (length data) then FLASH_OK else FLASH_ERROR, upd_env (\<lambda>e. e\<lparr>flash := d\<rparr>) s)
      else (FLASH_ERROR, s))"

section \<open>The application image\<close>

definition APP_DESCRIPTOR_SIGNATURE :: "u8 list" where
  "APP_DESCRIPTOR_SIGNATURE = [0x40, 0xa2, 0xe4, 0xf1, 0x64, 0x68, 0x91, 0x06]"

function find_signature :: "(nat \<Rightarrow> u8) \<Rightarrow> nat \<Rightarrow> nat \<Rightarrow> nat" where
  "find_signature m last_address p =
     (if mem_list m p 8 = APP_DESCRIPTOR_SIGNATURE then p
      else if p + 8 < last_address then find_signature m last_address (p + 8)
      else 0)"
  by pat_completeness auto
termination by (relation "measure (\<lambda>(m, l, p). l - p)") auto

declare find_signature.simps [simp del]

definition find_descriptor :: "('w, 'd) can_board \<Rightarrow> ('w, 'd) node \<Rightarrow> ('w, 'd) node" where
  "find_descriptor C s =
     upd_env (\<lambda>e. e\<lparr>fw_image_descriptor := find_signature (node_mem C s) (APPLICATION_LAST_64BIT_ADDRRESS C) (APPLICATION_LOAD_ADDRESS C)\<rparr>) s"

definition desc_crc32_block1 :: "(nat \<Rightarrow> u8) \<Rightarrow> nat \<Rightarrow> u32" where "desc_crc32_block1 m d = w32 m (d + 8)"
definition desc_crc32_block2 :: "(nat \<Rightarrow> u8) \<Rightarrow> nat \<Rightarrow> u32" where "desc_crc32_block2 m d = w32 m (d + 12)"
definition desc_image_size :: "(nat \<Rightarrow> u8) \<Rightarrow> nat \<Rightarrow> u32" where "desc_image_size m d = w32 m (d + 16)"

text \<open>The test of an image: its base address, the memory, the descriptor and the first word.\<close>

definition image_valid :: "nat \<Rightarrow> nat \<Rightarrow> (nat \<Rightarrow> u8) \<Rightarrow> nat \<Rightarrow> u32 \<Rightarrow> bool" where
  "image_valid base app_size m d first_word =
     (if d = 0 \<or> first_word = 0xffffffff then False
      else
        let len = unat (desc_image_size m d)
        in if len > app_size \<or> len = 0 then False
           else
             let block2_len = unat (desc_image_size m d - word_of_nat (d + 24 - base))
             in if block2_len > app_size \<or> block2_len = 0 then False
                else
                  let block_crc1 = crc32_signature 0 4 (bytes_of_u32 first_word);
                      n1 = d + 8 - (base + 4);
                      block_crc1 = crc32_signature block_crc1 n1 (mem_list m (base + 4) n1);
                      block_crc2 = crc32_signature 0 block2_len (mem_list m (d + 24) block2_len)
                  in block_crc1 = desc_crc32_block1 m d \<and> block_crc2 = desc_crc32_block2 m d)"

definition is_app_valid :: "('w, 'd) can_board \<Rightarrow> u32 \<Rightarrow> ('w, 'd) node \<Rightarrow> bool \<times> ('w, 'd) node" where
  "is_app_valid C first_word s =
     (let s = find_descriptor C s
      in (image_valid (APPLICATION_LOAD_ADDRESS C) (APPLICATION_SIZE C) (node_mem C s) (fw_image_descriptor (bl_env s)) first_word, s))"

section \<open>Node id allocation\<close>

record allocation =
  al_p :: uavcan_protocol
  al_server :: u8
  al_msg :: "u8 list"
  al_id :: u32

datatype alloc_next = AllocRestart | AllocAgain | AllocDone

abbreviation MIN_REQUEST_PERIOD_MS :: nat where "MIN_REQUEST_PERIOD_MS \<equiv> 600"
abbreviation MAX_REQUEST_PERIOD_MS :: nat where "MAX_REQUEST_PERIOD_MS \<equiv> 1400"
abbreviation MAX_FOLLOWUP_DELAY_MS :: nat where "MAX_FOLLOWUP_DELAY_MS \<equiv> 400"

definition restart_request :: "u8 \<Rightarrow> ('w, 'd) node \<Rightarrow> ('w, 'd) node" where
  "restart_request trequest s =
     (case util_random MIN_REQUEST_PERIOD_MS MAX_REQUEST_PERIOD_MS s of (ms, s) \<Rightarrow> timer_restart trequest (word_of_nat ms) s)"

text \<open>Rule B, or the label \<open>restart\<close>, which skips the request.\<close>

definition alloc_request ::
  "('w, 'd) can_board \<Rightarrow> u16 \<Rightarrow> u8 \<Rightarrow> bool \<Rightarrow> allocation \<Rightarrow> ('w, 'd) node \<Rightarrow> allocation \<times> ('w, 'd) node" where
  "alloc_request C random trequest restart a s =
     (if restart \<or> timer_expired trequest s then
        let s = (if restart then s else uavcan_tx_allocation_message (drv C) (ucast (al_id a)) (unique_id C) 0 random s)
        in (a\<lparr>al_server := ANY_NODE_ID\<rparr>, restart_request trequest s)
      else (a, s))"

definition unique_id_matched :: "u8 list \<Rightarrow> u8 list \<Rightarrow> nat \<Rightarrow> nat" where
  "unique_id_matched mine theirs max_compare = length (takeWhile (\<lambda>(a, b). a = b) (take max_compare (zip mine theirs)))"

text \<open>Rules C, D and E.\<close>

definition alloc_receive ::
  "('w, 'd) can_board \<Rightarrow> u16 \<Rightarrow> u8 \<Rightarrow> allocation \<Rightarrow> ('w, 'd) node \<Rightarrow> (alloc_next \<times> allocation \<times> ('w, 'd) node) option" where
  "alloc_receive C random trequest a s =
     do {
       ((rv, p, msg, rx_len), s) \<leftarrow> uavcan_rx_dsdl (drv C) (interrupts C) DSDLMsgAllocation (set_source_node_id (al_server a) (al_p a)) (al_msg a) 17 50 s;
       let a = a\<lparr>al_p := p, al_msg := msg\<rparr>;
       if rv \<noteq> UavcanOk then Some (AllocAgain, a, s)
       else
         let rx_len = rx_len - 1;
             s = restart_request trequest s
         in if source_node_id p = ANY_NODE_ID then Some (AllocAgain, a, s)
            else
              let a = (if al_server a = ANY_NODE_ID then a\<lparr>al_server := source_node_id p\<rparr> else a);
                  matched = unique_id_matched (unique_id C) (drop 1 msg) (min 16 (unat rx_len))
              in if matched < unat rx_len then Some (AllocRestart, a, s)
                 else if matched = 16 then Some (AllocDone, a\<lparr>al_id := ucast (get_field 1 7 (msg ! 0))\<rparr>, s)
                 else
                   case util_random 0 MAX_FOLLOWUP_DELAY_MS s of
                     (ms, s) \<Rightarrow>
                       do {
                         ((rv, p, _, _), s) \<leftarrow> uavcan_rx_dsdl (drv C) (interrupts C) DSDLMsgAllocation ((al_p a)\<lparr>id_u32 := 0\<rparr>)
                            (replicate (unat rx_len) (uninit C)) rx_len (word_of_nat ms) s;
                         let a = a\<lparr>al_p := p\<rparr>;
                         if rv = UavcanOk then Some (AllocRestart, a, s)
                         else Some (AllocAgain, a, uavcan_tx_allocation_message (drv C) (ucast (al_id a)) (unique_id C) matched random s)
                       }
     }"

partial_function (option) alloc_loop ::
  "('w, 'd) can_board \<Rightarrow> u16 \<Rightarrow> u8 \<Rightarrow> u8 \<Rightarrow> bool \<Rightarrow> allocation \<Rightarrow> ('w, 'd) node \<Rightarrow> (allocation \<times> ('w, 'd) node) option" where
  "alloc_loop C random trequest tboot restart a s =
     (case alloc_request C random trequest restart a s of
        (a, s) \<Rightarrow>
          do {
            (next, a, s) \<leftarrow> alloc_receive C random trequest a s;
            if next = AllocRestart then alloc_loop C random trequest tboot True a s
            else if next = AllocDone \<or> timer_expired tboot s then Some (a, s)
            else alloc_loop C random trequest tboot False a s
          })"

definition get_dynamic_node_id :: "('w, 'd) can_board \<Rightarrow> u8 \<Rightarrow> u32 \<Rightarrow> ('w, 'd) node \<Rightarrow> ((u8 \<times> u32) \<times> ('w, 'd) node) option" where
  "get_dynamic_node_id C tboot allocated_node_id s =
     (case with_can (timer_hrt_read (regs C)) s of
        (now, s) \<Rightarrow>
      let random = crc16_signature (ucast now) (length (unique_id C)) (unique_id C);
          s = util_srand random s
      in case util_random MIN_REQUEST_PERIOD_MS MAX_REQUEST_PERIOD_MS s of
           (ms, s) \<Rightarrow>
             case timer_allocate (modeTimeout OR modeStarted) (word_of_nat ms) None s of
               (trequest, s) \<Rightarrow>
                 do {
                   (a, s) \<leftarrow> alloc_loop C random trequest tboot False
                     \<lparr>al_p = blank_p C, al_server = 0, al_msg = replicate 17 0, al_id = allocated_node_id\<rparr> s;
                   let s = timer_free trequest s;
                   Some ((if al_id a = 0 then CAN_BOOT_TIMEOUT else CAN_OK, al_id a), s)
                 })"

text \<open>The result, the bus speed and the node id.\<close>

definition autobaud_and_get_dynamic_node_id ::
  "('w, 'd) can_board \<Rightarrow> u8 \<Rightarrow> u32 \<Rightarrow> u32 \<Rightarrow> ('w, 'd) node \<Rightarrow> ((u8 \<times> u32 \<times> u32) \<times> ('w, 'd) node) option" where
  "autobaud_and_get_dynamic_node_id C tboot speed node_id s =
     (let autobaud_only = (speed = CAN_UNDEFINED)
      in do {
        ((rv, speed), s) \<leftarrow> can_autobaud (regs C) (interrupts C) (ucast (uninit C)) tboot s;
        if rv = CAN_BOOT_TIMEOUT \<or> autobaud_only then Some ((rv, speed, node_id), s)
        else do {
          ((rv, node_id), s) \<leftarrow> get_dynamic_node_id C tboot node_id s;
          Some ((rv, speed, node_id), s)
        }
      })"

section \<open>Firmware update\<close>

abbreviation LOGMESSAGE_STAGE_INIT :: u8 where "LOGMESSAGE_STAGE_INIT \<equiv> 0x49"
abbreviation LOGMESSAGE_STAGE_GET_INFO :: u8 where "LOGMESSAGE_STAGE_GET_INFO \<equiv> 0x47"
abbreviation LOGMESSAGE_STAGE_ERASE :: u8 where "LOGMESSAGE_STAGE_ERASE \<equiv> 0x45"
abbreviation LOGMESSAGE_STAGE_PROGRAM :: u8 where "LOGMESSAGE_STAGE_PROGRAM \<equiv> 0x50"
abbreviation LOGMESSAGE_STAGE_VALIDATE :: u8 where "LOGMESSAGE_STAGE_VALIDATE \<equiv> 0x56"
abbreviation LOGMESSAGE_STAGE_FINALIZE :: u8 where "LOGMESSAGE_STAGE_FINALIZE \<equiv> 0x46"

abbreviation UavcanServiceTimeOutMs :: u32 where "UavcanServiceTimeOutMs \<equiv> 1000"
abbreviation UavcanServiceRetries :: nat where "UavcanServiceRetries \<equiv> 3"

text \<open>Waiting for the request: the protocol, the request and its length, or a time-out.\<close>

partial_function (option) begin_loop ::
  "('w, 'd) can_board \<Rightarrow> u8 \<Rightarrow> u8 list \<Rightarrow> ('w, 'd) node \<Rightarrow> ((uavcan_protocol \<times> u8 list \<times> u32) option \<times> ('w, 'd) node) option" where
  "begin_loop C tboot request s =
     (if timer_expired tboot s then Some (None, s)
      else do {
        ((rv, p, request, rx_length), s) \<leftarrow> uavcan_rx_dsdl (drv C) (interrupts C) DSDLReqBeginFirmwareUpdate (blank_p C) request 201 UavcanServiceTimeOutMs s;
        if rv = UavcanOk then Some (Some (p, request, rx_length), s) else begin_loop C tboot request s
      })"

text \<open>The error, the path and its length.\<close>

definition wait_for_beginfirmwareupdate ::
  "('w, 'd) can_board \<Rightarrow> u8 \<Rightarrow> ('w, 'd) node \<Rightarrow> ((u8 \<times> u8 list \<times> u32) \<times> ('w, 'd) node) option" where
  "wait_for_beginfirmwareupdate C tboot s =
     (let s = upd_env (\<lambda>e. e\<lparr>g_server_node_id := ANY_NODE_ID\<rparr>) s
      in do {
        (r, s) \<leftarrow> begin_loop C tboot (replicate 201 (uninit C)) s;
        Some (case r of
          None \<Rightarrow> ((UavcanBootTimeout, 0 # replicate 199 (uninit C), 0), s)
        | Some (p, request, rx_length) \<Rightarrow>
            let s = upd_env (\<lambda>e. e\<lparr>g_uavcan_priority := ser_priority p\<rparr>) s;
                s = snd (snd (uavcan_tx_dsdl (drv C) DSDLRspBeginFirmwareUpdate p [0] s));
                s = upd_env (\<lambda>e. e\<lparr>g_server_node_id := request ! 0\<rparr>) s
            in ((UavcanOk, drop 1 request, rx_length - 1), s))
      })"

definition FILE_FLAGS :: u8 where "FILE_FLAGS = 1 OR 8"

fun getinfo_loop ::
  "('w, 'd) can_board \<Rightarrow> u8 list \<Rightarrow> nat \<Rightarrow> uavcan_protocol \<Rightarrow> u8 list \<Rightarrow> ('w, 'd) node \<Rightarrow> (u32 \<times> ('w, 'd) node) option" where
  "getinfo_loop C path 0 p response s = Some (0, s)"
| "getinfo_loop C path (Suc retries) p response s =
     (let server = g_server_node_id (bl_env s)
      in case uavcan_tx_dsdl (drv C) DSDLReqGetInfo (set_source_node_id server p) path s of
           (rv, p, s) \<Rightarrow>
             if rv \<noteq> UavcanOk then getinfo_loop C path retries p response s
             else do {
               ((rv, p, response, _), s) \<leftarrow> uavcan_rx_dsdl (drv C) (interrupts C) DSDLRspGetInfo (set_source_node_id server p) response 8 UavcanServiceTimeOutMs s;
               let p = set_transfer_id (tail_transfer_id p + 1) p;
               let file_size = u32_of_bytes (take 4 response);
               if rv = UavcanOk \<and> u16_of_bytes (drop 5 response) = 0 \<and> response ! 7 AND FILE_FLAGS \<noteq> 0 \<and>
                  0 < file_size \<and> file_size < OPT_APPLICATION_IMAGE_LENGTH C
               then Some (file_size, s)
               else getinfo_loop C path retries p response s
             })"

text \<open>A path that is longer than its array is read behind it.\<close>

definition file_getinfo :: "('w, 'd) can_board \<Rightarrow> u8 list \<Rightarrow> u32 \<Rightarrow> ('w, 'd) node \<Rightarrow> (u32 \<times> ('w, 'd) node) option" where
  "file_getinfo C fw_path fw_path_length s =
     (if unat fw_path_length > length fw_path then None
      else getinfo_loop C (take (unat fw_path_length) fw_path) UavcanServiceRetries \<lparr>id_u32 = 0, tail_u8 = 0\<rparr> (replicate 8 (uninit C)) s)"

text \<open>One read with its retries: the status, the number of bytes, the protocol and the response.\<close>

fun read_loop ::
  "('w, 'd) can_board \<Rightarrow> u8 list \<Rightarrow> nat \<Rightarrow> uavcan_protocol \<Rightarrow> u8 list \<Rightarrow> ('w, 'd) node \<Rightarrow>
   ((u8 \<times> u32 \<times> uavcan_protocol \<times> u8 list) \<times> ('w, 'd) node) option" where
  "read_loop C request 0 p response s = Some ((UavcanError, 0, p, response), s)"
| "read_loop C request (Suc retries) p response s =
     (let server = g_server_node_id (bl_env s)
      in case uavcan_tx_dsdl (drv C) DSDLReqRead (set_source_node_id server p) request s of
           (rv, p, s) \<Rightarrow>
             if rv \<noteq> UavcanOk then read_loop C request retries p response s
             else do {
               ((rv, p, response, n), s) \<leftarrow> uavcan_rx_dsdl (drv C) (interrupts C) DSDLRspRead (set_source_node_id server p) response 258 UavcanServiceTimeOutMs s;
               let p = set_transfer_id (tail_transfer_id p + 1) p;
               if rv \<noteq> UavcanOk then read_loop C request retries p response s
               else if n > 2 then Some ((UavcanOk, n - 2, p, response), s)
               else if u16_of_bytes response \<noteq> 0
                 then read_loop C request retries p response (uavcan_tx_log_message (drv C) 3 LOGMESSAGE_STAGE_PROGRAM 0x66 s)
               else Some ((UavcanOk, n, p, response), s)
             })"

text \<open>
  What is done with the data of a read: an odd number of bytes gets a filler, the first word of the image is kept
  back.  The result are the bytes to program and the response as it stands in memory.
\<close>

definition pad_odd :: "nat \<Rightarrow> u8 list \<Rightarrow> u8 list" where
  "pad_odd n data = (if odd n then data[n := 0xff] else data)"

definition keep_first :: "u32 \<Rightarrow> u8 list \<Rightarrow> ('w, 'd) node \<Rightarrow> u8 list \<times> ('w, 'd) node" where
  "keep_first offset data s =
     (if offset = 0
      then (bytes_of_u32 0xffffffff @ drop 4 data, upd_env (\<lambda>e. e\<lparr>fw_word0 := u32_of_bytes (take 4 data)\<rparr>) s)
      else (data, s))"

partial_function (option) program_loop ::
  "('w, 'd) can_board \<Rightarrow> u8 list \<Rightarrow> u32 \<Rightarrow> u32 \<Rightarrow> uavcan_protocol \<Rightarrow> u8 list \<Rightarrow> ('w, 'd) node \<Rightarrow> (flash_error \<times> ('w, 'd) node) option" where
  "program_loop C path fw_image_size offset p response s =
     do {
       ((rv, n, p, response), s) \<leftarrow> read_loop C (bytes_of_u32 offset @ [0] @ path) UavcanServiceRetries p response s;
       if rv \<noteq> UavcanOk then Some (FLASH_ERROR, s)
       else
         case keep_first offset (pad_odd (unat n) (drop 2 response)) s of
           (data, s) \<Rightarrow>
             case bl_flash_write C (APPLICATION_LOAD_ADDRESS C + unat offset) (take (unat n + unat n mod 2) data) s of
               (flash_status, s) \<Rightarrow>
                 let offset = offset + n;
                     a_percent = unat fw_image_size div 100
                 in if a_percent = 0 then None
                    else
                      let s = upd_env (\<lambda>e. e\<lparr>percentage_done := word_of_nat (unat offset div a_percent)\<rparr>) s
                      in if offset < fw_image_size \<and> n = 256 \<and> flash_status = FLASH_OK
                         then program_loop C path fw_image_size offset p (take 2 response @ data) s
                         else Some (if flash_status = FLASH_OK \<and> offset = fw_image_size \<and> n \<noteq> 0 then FLASH_OK else FLASH_ERROR, s)
     }"

definition file_read_and_program ::
  "('w, 'd) can_board \<Rightarrow> u8 list \<Rightarrow> u8 \<Rightarrow> u32 \<Rightarrow> ('w, 'd) node \<Rightarrow> (flash_error \<times> ('w, 'd) node) option" where
  "file_read_and_program C fw_path fw_path_length fw_image_size s =
     (if unat fw_path_length > length fw_path then None
      else program_loop C (take (unat fw_path_length) fw_path) fw_image_size 0 \<lparr>id_u32 = 0, tail_u8 = 0\<rparr> (replicate 258 0)
        (upd_env (\<lambda>e. e\<lparr>percentage_done := 0\<rparr>) s))"

section \<open>Starting the application\<close>

datatype can_outcome = Jump u32 u32 | SystemReset

definition fw_image :: "('w, 'd) can_board \<Rightarrow> nat \<Rightarrow> ('w, 'd) node \<Rightarrow> u32" where
  "fw_image C i s = w32 (node_mem C s) (APPLICATION_LOAD_ADDRESS C + 4 * i)"

text \<open>The shared structure and whether its contents come from the bus.\<close>

definition application_run ::
  "('w, 'd) can_board \<Rightarrow> u32 \<Rightarrow> bool \<times> bootloader_app_shared \<Rightarrow> ('w, 'd) node \<Rightarrow> can_outcome option \<times> ('w, 'd) node" where
  "application_run C fw_image_size common s =
     (if fw_image C 0 s \<noteq> 0xffffffff \<and> unat (fw_image C 1 s) > APPLICATION_LOAD_ADDRESS C
         \<and> unat (fw_image C 1 s) < APPLICATION_LOAD_ADDRESS C + unat fw_image_size
      then (Some (Jump (fw_image C 0 s) (fw_image C 1 s)),
            if fst common then upd_env (\<lambda>e. e\<lparr>shared_mem := bootloader_app_shared_write (snd common) BootLoader (shared_mem e)\<rparr>) s else s)
      else (None, s))"

partial_function (option) wait_expired :: "('w, 'd) can_board \<Rightarrow> u8 \<Rightarrow> ('w, 'd) node \<Rightarrow> ('w, 'd) node option" where
  "wait_expired C timer s = (if timer_expired timer s then Some s else do { s \<leftarrow> interrupts C s; wait_expired C timer s })"

text \<open>The label \<open>failure\<close>.\<close>

definition failure :: "('w, 'd) can_board \<Rightarrow> u8 \<Rightarrow> ('w, 'd) node \<Rightarrow> (can_outcome \<times> ('w, 'd) node) option" where
  "failure C error_log_stage s =
     (let s = uavcan_tx_log_message (drv C) 3 error_log_stage 0x66 s;
          s = upd_env (\<lambda>e. e\<lparr>health := 3\<rparr>) s
      in case timer_allocate (modeTimeout OR modeStarted) (OPT_RESTART_TIMEOUT_MS C) None s of
           (tmr, s) \<Rightarrow> do { s \<leftarrow> wait_expired C tmr s; Some (SystemReset, timer_free tmr s) })"

text \<open>The label \<open>boot\<close>.\<close>

definition boot_app ::
  "('w, 'd) can_board \<Rightarrow> u8 \<Rightarrow> bool \<times> bootloader_app_shared \<Rightarrow> ('w, 'd) node \<Rightarrow> (can_outcome \<times> ('w, 'd) node) option" where
  "boot_app C error_log_stage common s =
     (case application_run C (desc_image_size (node_mem C s) (fw_image_descriptor (bl_env s))) common s of
        (Some r, s) \<Rightarrow> Some (r, s)
      | (None, s) \<Rightarrow> failure C error_log_stage s)"

section \<open>The main program\<close>

definition main_init :: "('w, 'd) can_board \<Rightarrow> ('w, 'd) node \<Rightarrow> ('w, 'd) node" where
  "main_init C = upd_env (\<lambda>e. e\<lparr>g_this_node_id := ANY_NODE_ID, bus_speed := 0, health := 0, mode := 1, sub_mode := 0, app_valid := False,
     uptime := 0, fw_image_descriptor := 0, wait_for_getnodeinfo := OPT_WAIT_FOR_GETNODEINFO C, app_bl_request := False,
     sent_node_info_response := False, percentage_done := 0, fw_word0 := 0\<rparr>)"

record can_vars =
  tinfo :: u8
  tstatus :: u8
  tboot :: u8
  common :: bootloader_app_shared
  common_valid :: bool

text \<open>Up to the choice between the two ways to get a node id.\<close>

definition main_setup :: "('w, 'd) can_board \<Rightarrow> ('w, 'd) node \<Rightarrow> can_vars \<times> ('w, 'd) node" where
  "main_setup C s =
     (let s = main_init C s
      in case is_app_valid C (fw_image C 0 s) s of (v, s) \<Rightarrow>
         let s = upd_env (\<lambda>e. e\<lparr>app_valid := v\<rparr>) s
         in case bootloader_app_shared_read (bootloader_app_shared_init Invalid) App (shared_mem (bl_env s)) of (ok, com) \<Rightarrow>
         let s = upd_env (\<lambda>e. e\<lparr>app_bl_request := ok \<and> sh_bus_speed com \<noteq> 0 \<and> sh_node_id com \<noteq> 0\<rparr>) s;
             s = upd_env (\<lambda>e. e\<lparr>shared_mem := bootloader_app_shared_invalidate (shared_mem e)\<rparr>) s
         in case timer_allocate (modeRepeating OR modeStarted) 1000 (Some (uptime_cb, 0)) s of (_, s) \<Rightarrow>
            case timer_allocate modeRepeating (OPT_NODE_INFO_RATE_MS C) (Some (node_info_cb, 0)) s of (tinf, s) \<Rightarrow>
            case timer_allocate modeRepeating (OPT_NODE_STATUS_RATE_MS C) (Some (node_status_cb, 0)) s of (tstat, s) \<Rightarrow>
            case timer_allocate modeTimeout (OPT_TBOOT_MS C) None s of (tbt, s) \<Rightarrow>
              (\<lparr>tinfo = tinf, tstatus = tstat, tboot = tbt, common = com, common_valid = False\<rparr>,
               if app_valid (bl_env s) \<and> \<not> wait_for_getnodeinfo (bl_env s) \<and> \<not> app_bl_request (bl_env s) then timer_start tbt s else s))"

text \<open>Bus speed and node id; the boolean is false for a jump to the label \<open>boot\<close>.\<close>

definition main_request :: "('w, 'd) can_board \<Rightarrow> can_vars \<Rightarrow> ('w, 'd) node \<Rightarrow> (bool \<times> can_vars \<times> ('w, 'd) node) option" where
  "main_request C v s =
     (let s = upd_env (\<lambda>e. e\<lparr>bus_speed := sh_bus_speed (common v)\<rparr>) s;
          go = (\<lambda>v s. do {
                  (_, s) \<leftarrow> try_can (can_init (regs C) (can_freq2speed (sh_bus_speed (common v))) CAN_Mode_Normal) s;
                  Some (True, v\<lparr>common_valid := True\<rparr>, s)
                })
      in if sh_bus_speed (common v) = CAN_UNDEFINED then
           do {
             ((rv, speed, node_id), s) \<leftarrow> autobaud_and_get_dynamic_node_id C (tboot v) (bus_speed (bl_env s)) (sh_node_id (common v)) s;
             let s = upd_env (\<lambda>e. e\<lparr>bus_speed := speed\<rparr>) s;
             let v = v\<lparr>common := (common v)\<lparr>sh_node_id := node_id\<rparr>\<rparr>;
             if rv \<noteq> CAN_OK then Some (False, v, s) else go v s
           }
         else go v s)"

definition main_regular :: "('w, 'd) can_board \<Rightarrow> can_vars \<Rightarrow> ('w, 'd) node \<Rightarrow> (bool \<times> can_vars \<times> ('w, 'd) node) option" where
  "main_regular C v s =
     do {
       ((rv, speed, node_id), s) \<leftarrow> autobaud_and_get_dynamic_node_id C (tboot v) (bus_speed (bl_env s)) (OPT_PREFERRED_NODE_ID C) s;
       let s = upd_env (\<lambda>e. e\<lparr>bus_speed := speed\<rparr>) s;
       let v = v\<lparr>common := (common v)\<lparr>sh_node_id := node_id\<rparr>\<rparr>;
       if rv \<noteq> CAN_OK then Some (False, v, s)
       else
         let s = upd_env (\<lambda>e. e\<lparr>uptime := 0\<rparr>) s;
             v = v\<lparr>common := (common v)\<lparr>sh_bus_speed := can_speed2freq (bus_speed (bl_env s))\<rparr>, common_valid := True\<rparr>
         in Some (True, v, if app_valid (bl_env s) \<and> \<not> wait_for_getnodeinfo (bl_env s) then timer_start (tboot v) s else s)
     }"

partial_function (option) wait_info :: "('w, 'd) can_board \<Rightarrow> u8 \<Rightarrow> ('w, 'd) node \<Rightarrow> (bool \<times> ('w, 'd) node) option" where
  "wait_info C tbt s =
     (if sent_node_info_response (bl_env s) then Some (True, s)
      else if timer_expired tbt s then Some (False, s)
      else do { s \<leftarrow> interrupts C s; wait_info C tbt s })"

partial_function (option) wait_path :: "('w, 'd) can_board \<Rightarrow> u8 \<Rightarrow> ('w, 'd) node \<Rightarrow> ((u8 list \<times> u32) option \<times> ('w, 'd) node) option" where
  "wait_path C tbt s =
     do {
       ((rv, path, n), s) \<leftarrow> wait_for_beginfirmwareupdate C tbt s;
       if rv = UavcanBootTimeout then Some (None, s)
       else if n = 0 then wait_path C tbt s
       else Some (Some (path, n), s)
     }"

text \<open>The update: the stage of a failure, or none.\<close>

definition main_update :: "('w, 'd) can_board \<Rightarrow> u8 \<Rightarrow> u8 list \<Rightarrow> u32 \<Rightarrow> ('w, 'd) node \<Rightarrow> (u8 option \<times> ('w, 'd) node) option" where
  "main_update C tbt path path_length s =
     do {
       let s = upd_env (\<lambda>e. e\<lparr>mode := 3\<rparr>) (timer_stop tbt s);
       (fw_image_size, s) \<leftarrow> file_getinfo C path path_length s;
       if unat fw_image_size < 36 then Some (Some LOGMESSAGE_STAGE_GET_INFO, s)
       else
         let s = uavcan_tx_log_message (drv C) 1 LOGMESSAGE_STAGE_ERASE 0x73 s;
             s = upd_env (\<lambda>e. e\<lparr>app_valid := False\<rparr>) s
         in case bl_flash_erase C (APPLICATION_LOAD_ADDRESS C) (APPLICATION_SIZE C) s of (status, s) \<Rightarrow>
            if status \<noteq> FLASH_OK then Some (Some LOGMESSAGE_STAGE_ERASE, s)
            else do {
              (status, s) \<leftarrow> file_read_and_program C path (ucast path_length) fw_image_size s;
              if status \<noteq> FLASH_OK then Some (Some LOGMESSAGE_STAGE_PROGRAM, s)
              else
                case is_app_valid C (fw_word0 (bl_env s)) s of (valid, s) \<Rightarrow>
                if \<not> valid then Some (Some LOGMESSAGE_STAGE_VALIDATE, upd_env (\<lambda>e. e\<lparr>app_valid := False\<rparr>) s)
                else
                  case bl_flash_write C (APPLICATION_LOAD_ADDRESS C) (bytes_of_u32 (fw_word0 (bl_env s))) s of (status, s) \<Rightarrow>
                  if status \<noteq> FLASH_OK then Some (Some LOGMESSAGE_STAGE_FINALIZE, s)
                  else
                    let s = upd_env (\<lambda>e. e\<lparr>percentage_done := 100\<rparr>) s
                    in Some (None, uavcan_tx_log_message (drv C) 1 LOGMESSAGE_STAGE_FINALIZE 0x6f s)
            }
     }"

definition can_main :: "('w, 'd) can_board \<Rightarrow> ('w, 'd) node \<Rightarrow> (can_outcome \<times> ('w, 'd) node) option" where
  "can_main C s =
     (case main_setup C s of
        (v, s) \<Rightarrow>
          do {
            (go, v, s) \<leftarrow> (if app_bl_request (bl_env s) then main_request C v s else main_regular C v s);
            if \<not> go then boot_app C LOGMESSAGE_STAGE_INIT (common_valid v, common v) s
            else do {
              let s = upd_env (\<lambda>e. e\<lparr>g_this_node_id := ucast (sh_node_id (common v))\<rparr>) s;
              (seen, s) \<leftarrow> wait_info C (tboot v) (timer_start (tstatus v) (timer_start (tinfo v) s));
              if \<not> seen then boot_app C LOGMESSAGE_STAGE_INIT (common_valid v, common v) s
              else do {
                let s = (if app_valid (bl_env s) \<and> (wait_for_getnodeinfo (bl_env s) \<or> app_bl_request (bl_env s)) then timer_start (tboot v) s else s);
                (path, s) \<leftarrow> wait_path C (tboot v) s;
                case path of
                  None \<Rightarrow> boot_app C LOGMESSAGE_STAGE_INIT (common_valid v, common v) s
                | Some (fw_path, fw_path_length) \<Rightarrow>
                    do {
                      (stage, s) \<leftarrow> main_update C (tboot v) fw_path fw_path_length s;
                      case stage of
                        None \<Rightarrow> boot_app C LOGMESSAGE_STAGE_INIT (common_valid v, common v) s
                      | Some stage \<Rightarrow> failure C stage s
                    }
              }
            }
          })"

end
