(* ===== verification/Can_Waiting.thy ===== *)
theory Can_Waiting
  imports Can_Node
begin

text \<open>
  The part of the state that decides about the application, and the control words of the timers in use, do not change
  while the bootloader talks, waits and is interrupted.
\<close>

definition app_core :: "('w, 'd) bootloader_t \<Rightarrow> u8 \<times> 'd \<times> nat \<times> bool \<times> u32 \<times> bool \<times> bool \<times> shared_regs" where
  "app_core e = (g_this_node_id e, flash e, fw_image_descriptor e, app_valid e, fw_word0 e, wait_for_getnodeinfo e, app_bl_request e, shared_mem e)"

definition used :: "'cb bl_timer \<Rightarrow> bool" where
  "used tm \<longleftrightarrow> has_flag (tm_ctl tm) inuse \<and> tm_ctl tm AND NOT (inuse OR running) \<noteq> modeOneShot"

definition calm :: "('w, 'd) node \<Rightarrow> ('w, 'd) node \<Rightarrow> bool" where
  "calm s s' \<longleftrightarrow> app_core (bl_env s') = app_core (bl_env s) \<and> length (timers s') = length (timers s) \<and>
     (\<forall>t < length (timers s). used (timers s ! t) \<longrightarrow> tm_ctl (timers s' ! t) = tm_ctl (timers s ! t))"

named_theorems calm_intros \<open>steps that leave the application and the timers in use alone\<close>

lemma calm_refl [calm_intros]: "calm s s"
  by (simp add: calm_def)

lemma used_ctl: "tm_ctl a = tm_ctl b \<Longrightarrow> used a = used b"
  by (simp add: used_def)

lemma calm_trans: "calm s s1 \<Longrightarrow> calm s1 s2 \<Longrightarrow> calm s s2"
  unfolding calm_def by (metis used_ctl)

lemma calm_env [calm_intros]: "app_core (f (bl_env s)) = app_core (bl_env s) \<Longrightarrow> calm s (upd_env f s)"
  by (simp add: calm_def upd_env_def)

lemma calm_can [calm_intros]: "with_can f s = (r, s') \<Longrightarrow> calm s s'"
  by (auto simp: with_can_def split: prod.splits intro!: calm_env simp: app_core_def)

lemma calm_put:
  assumes "t < length (timers s) \<Longrightarrow> used (timers s ! t) \<Longrightarrow> tm_ctl (f (timers s ! t)) = tm_ctl (timers s ! t)"
  shows "calm s (put_timer t f s)"
proof -
  have "tm_ctl ((timers s)[t := f (timers s ! t)] ! u) = tm_ctl (timers s ! u)" if "u < length (timers s)" "used (timers s ! u)" for u
    using that assms by (cases "u = t") auto
  then show ?thesis by (simp add: calm_def)
qed

lemma calm_tx [calm_intros]: "calm s (snd (uavcan_tx K p d mb s))"
  unfolding uavcan_tx_def by (rule calm_can) (rule prod.collapse [symmetric])

lemma calm_tx_loop: "calm s (snd (snd (tx_loop K mb payload bs p s)))"
proof (induction bs arbitrary: payload p s)
  case (Cons b bs)
  obtain rv s1 where t: "uavcan_tx K (set_eot (bs = []) p) (payload @ [b]) mb s = (rv, s1)" by fastforce
  have "calm s s1" using calm_tx [of s K "set_eot (bs = []) p" "payload @ [b]" mb] t by simp
  then show ?case using Cons.IH calm_trans t by (auto simp: Let_def intro: calm_trans)
qed (simp add: calm_refl)

lemma calm_tx_dsdl [calm_intros]: "calm s (snd (snd (uavcan_tx_dsdl K dsdl p data s)))"
  by (simp add: uavcan_tx_dsdl_def Let_def calm_tx_loop split: prod.splits)

lemma calm_tx_dsdl_eq: "uavcan_tx_dsdl K dsdl p data s = (rv, p', s') \<Longrightarrow> calm s s'"
  using calm_tx_dsdl [of s K dsdl p data] by simp

lemma calm_log [calm_intros]: "calm s (uavcan_tx_log_message K level stage status s)"
  unfolding uavcan_tx_log_message_def Let_def
  by (auto split: prod.splits intro!: calm_trans [OF calm_env calm_tx] simp: app_core_def)

lemma calm_alloc_msg [calm_intros]: "calm s (uavcan_tx_allocation_message K n uid off r s)"
proof -
  let ?s = "upd_env (\<lambda>e. e\<lparr>allocation_transfer_id := allocation_transfer_id e + 1\<rparr>) s"
  have "calm s ?s" by (rule calm_env) (simp add: app_core_def)
  then show ?thesis unfolding uavcan_tx_allocation_message_def Let_def
    by (auto split: prod.splits intro!: calm_trans [OF _ calm_env] calm_trans [OF _ calm_tx] simp: app_core_def)
qed

text \<open>Timers: an allocated one was not in use before.\<close>

lemma allocate_calm:
  assumes "timer_allocate m ms fc s = (timer, s')" and "length (timers s) \<le> 255"
  shows "calm s s'" "\<And>t. t < length (timers s) \<Longrightarrow> used (timers s ! t) \<Longrightarrow> t \<noteq> unat timer"
    "unat timer < length (timers s') \<Longrightarrow> tm_ctl (timers s' ! unat timer) = m AND (modeMsk OR running) OR inuse"
proof -
  have m1: "unat (- 1 :: u8) = 255" by (simp add: unsigned_minus_1_eq_mask mask_eq_exp_minus_1)
  show "calm s s'" using assms
    by (auto simp: timer_allocate_def free_timer_Some used_def has_flag_def split: option.splits intro!: calm_refl calm_put)
  show "t \<noteq> unat timer" if "t < length (timers s)" "used (timers s ! t)" for t
    using assms that by (auto simp: timer_allocate_def free_timer_Some used_def has_flag_def unat_of_nat take_bit_nat_eq_self m1 split: option.splits)
  show "tm_ctl (timers s' ! unat timer) = m AND (modeMsk OR running) OR inuse" if "unat timer < length (timers s')"
    using assms that by (auto simp: timer_allocate_def free_timer_Some unat_of_nat take_bit_nat_eq_self m1 split: option.splits)
qed

lemma free_calm:
  assumes "calm s s'" and "\<And>t. t < length (timers s) \<Longrightarrow> used (timers s ! t) \<Longrightarrow> t \<noteq> unat timer"
  shows "calm s (timer_free timer s')"
proof -
  have "tm_ctl (timers (timer_free timer s') ! t) = tm_ctl (timers s ! t)" if "t < length (timers s)" "used (timers s ! t)" for t
    using that assms(1) assms(2) [of t] by (simp add: calm_def timer_free_def)
  then show ?thesis using assms(1) by (simp add: calm_def timer_free_def)
qed

text \<open>A started timer stays one.\<close>

definition started_timer :: "u8 \<Rightarrow> ('w, 'd) node \<Rightarrow> bool" where
  "started_timer timer s \<longleftrightarrow> (unat timer < length (timers s) \<longrightarrow> tm_ctl (timers s ! unat timer) = modeTimeout OR inuse OR running)"

lemma started_calm:
  assumes "started_timer timer s" and "calm s s'"
  shows "started_timer timer s'"
proof -
  have "used tm" if "tm_ctl tm = modeTimeout OR inuse OR running" for tm :: "can_cb bl_timer"
    using that by (simp add: used_def has_flag_def timer_flags)
  then show ?thesis using assms by (auto simp: started_timer_def calm_def)
qed

lemma restart_calm:
  assumes "started_timer timer s"
  shows "calm s (timer_restart timer ms s)"
  unfolding timer_restart_def by (rule calm_put) (use assms in \<open>auto simp: started_timer_def set_flag_def timer_flags\<close>)

lemma allocate_started:
  assumes "timer_allocate (modeTimeout OR modeStarted) ms fc s = (timer, s')" and "length (timers s) \<le> 255"
  shows "started_timer timer s'"
  using allocate_calm(3) [OF assms] by (simp add: started_timer_def timer_flags modeStarted_def)

section \<open>Receiving\<close>

abbreviation few_timers :: "('w, 'd) node \<Rightarrow> bool" where "few_timers s \<equiv> length (timers s) \<le> 255"

lemma calm_length: "calm s s' \<Longrightarrow> length (timers s') = length (timers s)"
  by (simp add: calm_def)

locale calm_isr =
  fixes isr :: "('w, 'd) node \<Rightarrow> ('w, 'd) node option"
  assumes isr_calm: "isr s = Some s' \<Longrightarrow> few_timers s \<Longrightarrow> calm s s'"
begin

lemma turn_calm:
  assumes "rx_turn K isr ff n timer ms r s = Some (rx, r', s')" and "few_timers s" and "started_timer timer s"
  shows "calm s s'"
proof -
  obtain s1 where s1: "isr s = Some s1" using assms(1) by (auto simp: rx_turn_def bind_eq_Some_conv)
  obtain x s2 where s2: "with_can (can_rx K ff) s1 = (x, s2)" by fastforce
  have c: "calm s s2" using isr_calm [OF s1 assms(2)] calm_can [OF s2] by (rule calm_trans)
  have "s' = s2 \<or> s' = timer_restart timer ms s2"
    using assms(1) s1 s2 by (auto simp: rx_turn_def Let_def split: option.splits prod.splits if_splits)
  then show ?thesis using c calm_trans [OF c restart_calm [OF started_calm [OF assms(3) c]]] by blast
qed

lemma loop_calm:
  assumes "rx_loop K isr ff n timer ms r s = Some (rx, r', s')" and "few_timers s" and "started_timer timer s"
  shows "calm s s'"
proof -
  have "rx_loop K isr' ff n timer ms r s = Some y \<Longrightarrow> isr' = isr \<Longrightarrow> few_timers s \<Longrightarrow> started_timer timer s \<Longrightarrow> calm s (snd (snd y))"
    for isr' y
  proof (induction rule: rx_loop.raw_induct [rotated, consumes 1, case_names body])
    case (body loop K isr' ff n timer ms r s y)
    obtain rx r1 s1 where t: "rx_turn K isr ff n timer ms r s = Some (rx, r1, s1)"
      using body.hyps body.prems(1) by (auto simp: bind_eq_Some_conv)
    have c: "calm s s1" by (rule turn_calm [OF t body.prems(2,3)])
    show ?case
    proof (cases "rx \<noteq> None \<or> timer_expired timer s1")
      case True
      then have "y = (rx, r1, s1)" using body.hyps t body.prems(1) by auto
      then show ?thesis using c by simp
    next
      case False
      then have "loop K isr' ff n timer ms r1 s1 = Some y" using body.hyps t body.prems(1) by auto
      then have "calm s1 (snd (snd y))"
        using body.IH body.prems(1,2) calm_length [OF c] started_calm [OF body.prems(3) c] by simp
      then show ?thesis using calm_trans [OF c] by blast
    qed
  qed
  from this [OF assms(1) refl assms(2,3)] show ?thesis by simp
qed

lemma receive_calm:
  assumes "uavcan_rx_dsdl K isr dsdl p tr n ms s = Some (x, s')" and "few_timers s"
  shows "calm s s'"
proof -
  obtain D q where D: "load_dsdl_protocol dsdl True p (source_node_id p) s = (D, q)" by fastforce
  obtain timer s1 where t: "timer_allocate (modeTimeout OR modeStarted) ms None s = (timer, s1)" by fastforce
  obtain rx r s2 where l: "rx_loop K isr (fifo D) n timer ms
      \<lparr>rx_p = q, rx_masks = uavcan_init_comapare_masks Initialization q \<lparr>id_u32 = 0, tail_u8 = 0\<rparr>,
       rx_transfer = tr, rx_crc = 0, rx_total = 0\<rparr> s1 = Some (rx, r, s2)" and s': "s' = timer_free timer s2"
    using assms(1) by (auto simp: uavcan_rx_dsdl_def D t Let_def bind_eq_Some_conv split: option.splits)
  have a: "calm s s1" by (rule allocate_calm(1) [OF t assms(2)])
  then have "calm s s2"
    using calm_trans [OF a loop_calm [OF l]] calm_length [OF a] assms(2) allocate_started [OF t assms(2)] by simp
  then show ?thesis unfolding s' by (rule free_calm) (rule allocate_calm(2) [OF t assms(2)])
qed

end

interpretation no_isr: calm_isr Some
  by unfold_locales (simp add: calm_refl)

lemma node_info_calm:
  assumes "node_info_process C s = Some s'" and "few_timers s"
  shows "calm s s'"
proof -
  obtain rv p b n s1 where r: "uavcan_rx_dsdl (drv C) Some DSDLReqGetNodeInfo (blank_p C) (replicate 8 (uninit C)) 8 0 s = Some ((rv, p, b, n), s1)"
    using assms(1) by (auto simp: node_info_process_def bind_eq_Some_conv)
  let ?resp = "uavcan_pack_GetNodeInfo_response (node_info_response C s)"
  obtain rv2 q s2 where t: "uavcan_tx_dsdl (drv C) DSDLRspGetNodeInfo p ?resp s1 = (rv2, q, s2)" by (metis prod_cases3)
  have c1: "calm s s1" by (rule no_isr.receive_calm [OF r assms(2)])
  have c2: "calm s s2" by (rule calm_trans [OF c1 calm_tx_dsdl_eq [OF t]])
  have c3: "calm s (upd_env (\<lambda>e. e\<lparr>sent_node_info_response := True\<rparr>) s2)"
    by (rule calm_trans [OF c2 calm_env]) (simp add: app_core_def)
  show ?thesis using assms(1) c1 c2 c3 by (auto simp: node_info_process_def r t split: if_splits)
qed

lemma node_status_calm [calm_intros]: "calm s (node_status_process C s)"
  unfolding node_status_process_def Let_def
  by (rule calm_trans [OF calm_env calm_tx_dsdl]) (simp add: app_core_def)

lemma run_cb_calm: "few_timers s \<Longrightarrow> calm s (run_cb C cb t ctx s)"
  by (cases cb) (auto simp: uptime_process_def node_info_calm split: option.splits intro!: calm_env node_status_calm simp: app_core_def)

lemma process_calm:
  assumes "t < length (timers s)" and "few_timers s"
  shows "calm s (process_timer (run_cb C) ms t s)"
proof -
  obtain tm c where k: "slot_tick ms (timers s ! t) = (tm, c)" by fastforce
  have "calm s (put_timer t (\<lambda>_. tm) s)"
    by (rule calm_put) (use k in \<open>auto simp: slot_tick_def Let_def used_def split: if_splits\<close>)
  moreover have "calm s2 (issue (run_cb C) t c s2)" if "few_timers s2" for s2
    using that by (auto simp: issue_def run_cb_calm calm_refl split: option.splits)
  ultimately have "calm s (issue (run_cb C) t c (put_timer t (\<lambda>_. tm) s))" by (rule calm_trans) (simp add: assms)
  then show ?thesis using assms k by (simp add: process_timer_slot)
qed

lemma tick_calm:
  assumes "few_timers s"
  shows "calm s (nxsched_process_timer (run_cb C) ms s)"
proof -
  have "calm s2 (foldl (\<lambda>s t. process_timer (run_cb C) ms t s) s2 ts)"
    if "\<forall>t \<in> set ts. t < length (timers s2)" "few_timers s2" for ts s2
    using that
  proof (induction ts arbitrary: s2)
    case (Cons t ts)
    have c: "calm s2 (process_timer (run_cb C) ms t s2)" using Cons.prems by (simp add: process_calm)
    show ?case using calm_trans [OF c Cons.IH] Cons.prems calm_length [OF c] by simp
  qed (simp add: calm_refl)
  then have "calm (s\<lparr>sys_tic := sys_tic s + 1\<rparr>) (nxsched_process_timer (run_cb C) ms s)"
    using assms by (simp add: nxsched_process_timer_def)
  moreover have "calm s (s\<lparr>sys_tic := sys_tic s + 1\<rparr>)" by (simp add: calm_def)
  ultimately show ?thesis using calm_trans by blast
qed

lemma interrupts_calm:
  assumes "interrupts C s = Some s'" and "few_timers s"
  shows "calm s s'"
proof -
  obtain n s1 where e: "with_can (elapse C) s = (n, s1)" by fastforce
  have c: "calm s s1" by (rule calm_can [OF e])
  have "calm s ((nxsched_process_timer (run_cb C) (ms_elapsed C) ^^ n) s1)" for n
  proof (induction n)
    case (Suc n)
    then show ?case using calm_trans [OF Suc tick_calm] calm_length [OF Suc] assms(2) by simp
  qed (simp add: c)
  then show ?thesis using assms(1) e by (auto simp: interrupts_def Let_def split: if_splits)
qed

interpretation bus: calm_isr "interrupts C" for C
  by unfold_locales (rule interrupts_calm)

section \<open>The bit rate\<close>

lemma try_can_calm: "try_can f s = Some (r, s') \<Longrightarrow> calm s s'"
  by (auto simp: try_can_def bind_eq_Some_conv intro!: calm_env simp: app_core_def)

lemma free_after:
  assumes "timer_allocate m ms fc s = (timer, s1)" and "few_timers s" and "calm s1 s2"
  shows "calm s (timer_free timer s2)"
  using calm_trans [OF allocate_calm(1) [OF assms(1,2)] assms(3)] allocate_calm(2) [OF assms(1,2)] by (rule free_calm)

context calm_isr
begin

lemma edge_calm: "edge_loop H isr' ref m s = Some y \<Longrightarrow> isr' = isr \<Longrightarrow> few_timers s \<Longrightarrow> calm s (snd y)"
proof (induction rule: edge_loop.raw_induct [rotated, consumes 1, case_names body])
  case (body loop H isr' ref m s y)
  obtain s1 where s1: "isr s = Some s1" using body.hyps body.prems(1) by (auto simp: bind_eq_Some_conv)
  obtain msr now s2 where s2: "with_can (read_msr H) s1 = ((msr, now), s2)" by (metis prod.collapse)
  have c: "calm s s2" using isr_calm [OF s1 body.prems(2)] calm_can [OF s2] by (rule calm_trans)
  show ?case
  proof (cases "msr XOR m = 0 \<and> \<not> timer_ref_expired ref s2")
    case True
    then have "loop H isr' ref m s2 = Some y" using body.hyps body.prems(1) s1 s2 by simp
    then have "calm s2 (snd y)" using body.IH body.prems calm_length [OF c] by simp
    then show ?thesis using calm_trans [OF c] by blast
  next
    case False
    then have "y = ((msr, now), s2)" using body.hyps body.prems(1) s1 s2 by auto
    then show ?thesis using c by simp
  qed
qed

lemma bits_calm: "bits_loop H isr' ref m n ts s = Some y \<Longrightarrow> isr' = isr \<Longrightarrow> few_timers s \<Longrightarrow> calm s (snd y)"
proof (induction rule: bits_loop.raw_induct [rotated, consumes 1, case_names body])
  case (body loop H isr' ref m n ts s y)
  show ?case
  proof (cases "n < length ts \<and> \<not> timer_ref_expired ref s")
    case True
    then obtain msr now s1 where e: "edge_loop H isr ref m s = Some ((msr, now), s1)" and l: "loop H isr' ref msr (n + 1) (ts[n := now]) s1 = Some y"
      using body.hyps body.prems(1) by (auto simp: bind_eq_Some_conv)
    have c: "calm s s1" using edge_calm [OF e refl body.prems(2)] by simp
    have "calm s1 (snd y)" using body.IH [OF l body.prems(1)] body.prems(2) calm_length [OF c] by simp
    then show ?thesis using calm_trans [OF c] by blast
  next
    case False
    then show ?thesis using body.hyps by (auto simp: calm_refl)
  qed
qed

lemma bits_times_calm:
  assumes "read_bits_times H isr ts s = Some (x, s')" and "few_timers s"
  shows "calm s s'"
proof -
  obtain timer s1 where t: "timer_allocate (modeTimeout OR modeStarted) CAN_BAUD_TIME_IN_MS None s = (timer, s1)" by fastforce
  obtain m now s2 where s2: "with_can (read_msr H) s1 = ((m, now), s2)" by (metis prod.collapse)
  obtain s3 where l: "bits_loop H isr (timer_ref timer) m 0 (ts[0 := now]) s2 = Some (x, s3)" and s': "s' = timer_free timer s3"
    using assms(1) by (auto simp: read_bits_times_def t s2 bind_eq_Some_conv)
  have c: "calm s1 s2" by (rule calm_can [OF s2])
  have "few_timers s2" using calm_length [OF c] calm_length [OF allocate_calm(1) [OF t assms(2)]] assms(2) by simp
  then have "calm s1 s3" using calm_trans [OF c bits_calm [OF l refl]] by simp
  then show ?thesis unfolding s' by (rule free_after [OF t assms(2)])
qed

text \<open>Detection of the bit rate ends with a frame at one of the four rates, or because the time is over.\<close>

lemma autobaud_loop_result:
  "autobaud_loop H isr' timeout speed ts s = Some y \<Longrightarrow> isr' = isr \<Longrightarrow> few_timers s \<Longrightarrow>
   calm s (snd y) \<and> (fst (fst y) = CAN_OK \<or> fst (fst y) = CAN_BOOT_TIMEOUT \<and> timer_expired timeout (snd y))"
proof (induction rule: autobaud_loop.raw_induct [rotated, consumes 1, case_names body])
  case (body loop H isr' timeout speed ts s y)
  obtain n ts1 s1 where b: "read_bits_times H isr ts s = Some ((n, ts1), s1)"
    using body.hyps body.prems(1) by (auto simp: bind_eq_Some_conv)
  have c1: "calm s s1" by (rule bits_times_calm [OF b body.prems(2)])
  obtain pending s2 where p: "with_can (frame_pending H) s1 = (pending, s2)" by fastforce
  obtain m ts3 s3 where me: "with_can (measure_bit_time H n ts1) s2 = ((m, ts3), s3)" by (metis prod.collapse)
  have c2: "calm s s2" by (rule calm_trans [OF c1 calm_can [OF p]])
  have c3: "calm s s3" by (rule calm_trans [OF c2 calm_can [OF me]])
  have again: ?case if "loop H isr' timeout v ts' s' = Some y" "calm s s'" for v ts' s'
    using body.IH [OF that(1) body.prems(1)] body.prems(2) calm_length [OF that(2)] calm_trans [OF that(2)] by auto
  consider "timer_expired timeout s1" | "\<not> timer_expired timeout s1" "pending"
    | "\<not> timer_expired timeout s1" "\<not> pending" "n < CAN_BAUD_SAMPLES_NEEDED"
    | "\<not> timer_expired timeout s1" "\<not> pending" "\<not> n < CAN_BAUD_SAMPLES_NEEDED" by blast
  then show ?case
  proof cases
    case 1
    then have "y = ((CAN_BOOT_TIMEOUT, CAN_UNKNOWN), s1)" using body.hyps body.prems(1) b by auto
    then show ?thesis using c1 1 by simp
  next
    case 2
    then obtain r s4 where i: "try_can (can_init H speed CAN_Mode_Normal) s2 = Some (r, s4)" and y: "y = ((CAN_OK, speed), s4)"
      using body.hyps body.prems(1) b p by (auto simp: bind_eq_Some_conv)
    then show ?thesis using calm_trans [OF c2 try_can_calm [OF i]] by simp
  next
    case 3
    then show ?thesis using again [OF _ c2] body.hyps body.prems(1) b p by auto
  next
    case 4
    then obtain r s4 where i: "try_can (can_init H (speed_of_bit H m) CAN_Mode_Silent) s3 = Some (r, s4)"
      and l: "loop H isr' timeout (speed_of_bit H m) (ts3[1 := m]) s4 = Some y"
      using body.hyps body.prems(1) b p me by (auto simp: bind_eq_Some_conv Let_def)
    show ?thesis using again [OF l] calm_trans [OF c3 try_can_calm [OF i]] by blast
  qed
qed

lemma autobaud_result:
  assumes "can_autobaud H isr stack timeout s = Some ((rv, speed), s')" and "few_timers s"
  shows "calm s s'" "rv = CAN_OK \<or> rv = CAN_BOOT_TIMEOUT \<and> timer_expired timeout s'"
  using autobaud_loop_result [OF assms(1) [unfolded can_autobaud_def] refl assms(2)] by simp_all

end

section \<open>The node id\<close>

lemma random_calm: "util_random lo hi s = (r, s') \<Longrightarrow> calm s s'"
  by (auto simp: util_random_def Let_def intro!: calm_env simp: app_core_def)

lemma restart_request_calm:
  assumes "started_timer t s"
  shows "calm s (restart_request t s)"
proof -
  obtain ms s1 where r: "util_random MIN_REQUEST_PERIOD_MS MAX_REQUEST_PERIOD_MS s = (ms, s1)" by fastforce
  show ?thesis
    using calm_trans [OF random_calm [OF r] restart_calm [OF started_calm [OF assms random_calm [OF r]]]]
    by (simp add: restart_request_def r)
qed

lemma alloc_request_calm:
  assumes "alloc_request C random t restart a s = (a', s')" and "started_timer t s"
  shows "calm s s'"
proof -
  let ?s = "uavcan_tx_allocation_message (drv C) (ucast (al_id a)) (unique_id C) 0 random s"
  have c: "calm s ?s" by (rule calm_alloc_msg)
  then have "calm s (restart_request t ?s)"
    using calm_trans [OF c restart_request_calm [OF started_calm [OF assms(2) c]]] by blast
  then show ?thesis using assms restart_request_calm [OF assms(2)]
    by (auto simp: alloc_request_def Let_def calm_refl split: if_splits)
qed

lemma alloc_receive_calm:
  assumes "alloc_receive C random t a s = Some (next, a', s')" and "started_timer t s" and "few_timers s"
  shows "calm s s'"
proof -
  obtain rv p msg n s1 where r: "uavcan_rx_dsdl (drv C) (interrupts C) DSDLMsgAllocation (set_source_node_id (al_server a) (al_p a)) (al_msg a) 17 50 s
      = Some ((rv, p, msg, n), s1)"
    using assms(1) by (auto simp: alloc_receive_def bind_eq_Some_conv)
  have c1: "calm s s1" by (rule bus.receive_calm [OF r assms(3)])
  have c2: "calm s (restart_request t s1)" by (rule calm_trans [OF c1 restart_request_calm [OF started_calm [OF assms(2) c1]]])
  obtain ms s3 where u: "util_random 0 MAX_FOLLOWUP_DELAY_MS (restart_request t s1) = (ms, s3)" by fastforce
  have c3: "calm s s3" by (rule calm_trans [OF c2 random_calm [OF u]])
  have c4: "calm s s4"
    if "uavcan_rx_dsdl (drv C) (interrupts C) DSDLMsgAllocation q b k m s3 = Some (x, s4)" for q b k m x s4
    using calm_trans [OF c3 bus.receive_calm [OF that]] assms(3) calm_length [OF c3] by simp
  have c5: "calm s (uavcan_tx_allocation_message K i uid off rnd s4)"
    if "uavcan_rx_dsdl (drv C) (interrupts C) DSDLMsgAllocation q b k m s3 = Some (x, s4)" for q b k m x s4 K i uid off rnd
    by (rule calm_trans [OF c4 [OF that] calm_alloc_msg])
  show ?thesis
    using assms(1) r u c1 c2 c4 c5 unfolding alloc_receive_def
    by (auto simp: Let_def bind_eq_Some_conv split: if_splits)
qed

lemma alloc_loop_result:
  "alloc_loop C random t tbt restart a s = Some y \<Longrightarrow> started_timer t s \<Longrightarrow> few_timers s \<Longrightarrow> calm s (snd y)"
proof (induction rule: alloc_loop.raw_induct [rotated, consumes 1, case_names body])
  case (body loop C random t tbt restart a s y)
  obtain a1 s1 where q: "alloc_request C random t restart a s = (a1, s1)" by fastforce
  obtain nx a2 s2 where r: "alloc_receive C random t a1 s1 = Some (nx, a2, s2)"
    using body.hyps q by (auto simp: bind_eq_Some_conv)
  have c1: "calm s s1" by (rule alloc_request_calm [OF q body.prems(1)])
  have c12: "calm s1 s2"
    by (rule alloc_receive_calm [OF r started_calm [OF body.prems(1) c1]]) (simp add: calm_length [OF c1] body.prems(2))
  have c2: "calm s s2" by (rule calm_trans [OF c1 c12])
  have again: ?case if "loop C random t tbt b a2 s2 = Some y" for b
    using body.IH [OF that started_calm [OF body.prems(1) c2]] calm_length [OF c2] body.prems(2) calm_trans [OF c2] by simp
  have "loop C random t tbt True a2 s2 = Some y \<or> loop C random t tbt False a2 s2 = Some y \<or> y = (a2, s2)"
    using body.hyps by (auto simp: q r split: if_splits)
  then show ?case using again c2 by auto
qed

lemma dynamic_node_id_result:
  assumes "get_dynamic_node_id C tbt i s = Some ((rv, node), s')" and "few_timers s"
  shows "calm s s'" "rv = CAN_OK \<or> rv = CAN_BOOT_TIMEOUT"
proof -
  obtain now s0 where h: "with_can (timer_hrt_read (regs C)) s = (now, s0)" by fastforce
  define random where "random = crc16_signature (ucast now) (length (unique_id C)) (unique_id C)"
  obtain ms s1 where u: "util_random MIN_REQUEST_PERIOD_MS MAX_REQUEST_PERIOD_MS (util_srand random s0) = (ms, s1)" by fastforce
  obtain t s2 where t: "timer_allocate (modeTimeout OR modeStarted) (word_of_nat ms) None s1 = (t, s2)" by fastforce
  let ?a = "\<lparr>al_p = blank_p C, al_server = 0, al_msg = replicate 17 0, al_id = i\<rparr>"
  obtain a s3 where l: "alloc_loop C random t tbt False ?a s2 = Some (a, s3)" and s': "s' = timer_free t s3"
    and rv: "rv = (if al_id a = 0 then CAN_BOOT_TIMEOUT else CAN_OK)"
    using assms(1) by (auto simp: get_dynamic_node_id_def h u t random_def [symmetric] bind_eq_Some_conv Let_def)
  have c0: "calm s (util_srand random s0)"
    using calm_can [OF h] by (rule calm_trans) (simp add: util_srand_def calm_env app_core_def)
  have c1: "calm s s1" by (rule calm_trans [OF c0 random_calm [OF u]])
  then have f1: "few_timers s1" using assms(2) calm_length by metis
  then have f2: "few_timers s2" using allocate_calm(1) [OF t] calm_length by metis
  have "calm s2 s3" using alloc_loop_result [OF l allocate_started [OF t f1] f2] by simp
  then show "calm s s'" unfolding s' using calm_trans [OF c1 free_after [OF t f1]] by blast
  show "rv = CAN_OK \<or> rv = CAN_BOOT_TIMEOUT" using rv by simp
qed

lemma autobaud_and_get_result:
  assumes "autobaud_and_get_dynamic_node_id C tbt speed i s = Some ((rv, speed', node), s')" and "few_timers s"
  shows "calm s s'"
proof -
  obtain rv1 sp s1 where a: "can_autobaud (regs C) (interrupts C) (ucast (uninit C)) tbt s = Some ((rv1, sp), s1)"
    using assms(1) by (auto simp: autobaud_and_get_dynamic_node_id_def bind_eq_Some_conv Let_def)
  have c1: "calm s s1" by (rule bus.autobaud_result(1) [OF a assms(2)])
  then have f1: "few_timers s1" using assms(2) calm_length by metis
  show ?thesis using assms(1) c1 calm_trans [OF c1 dynamic_node_id_result(1) [OF _ f1]]
    by (auto simp: autobaud_and_get_dynamic_node_id_def a bind_eq_Some_conv Let_def split: if_splits)
qed

section \<open>The requests of an update\<close>

lemma begin_calm:
  "begin_loop C tbt req s = Some y \<Longrightarrow> few_timers s \<Longrightarrow> calm s (snd y) \<and> (fst y = None \<longrightarrow> timer_expired tbt (snd y))"
proof (induction rule: begin_loop.raw_induct [rotated, consumes 1, case_names body])
  case (body loop C tbt req s y)
  show ?case
  proof (cases "timer_expired tbt s")
    case True
    then show ?thesis using body.hyps by (auto simp: calm_refl)
  next
    case False
    obtain rv p req1 n s1 where r: "uavcan_rx_dsdl (drv C) (interrupts C) DSDLReqBeginFirmwareUpdate (blank_p C) req 201 UavcanServiceTimeOutMs s
        = Some ((rv, p, req1, n), s1)" using body.hyps False by (auto simp: bind_eq_Some_conv)
    have c: "calm s s1" by (rule bus.receive_calm [OF r body.prems])
    have "loop C tbt req1 s1 = Some y \<or> y = (Some (p, req1, n), s1)" using body.hyps False r by (auto split: if_splits)
    then show ?thesis using c body.IH [of C tbt req1 s1 y] body.prems calm_length [OF c] calm_trans [OF c] by auto
  qed
qed

lemma wait_begin_calm:
  assumes "wait_for_beginfirmwareupdate C tbt s = Some ((rv, path, n), s')" and "few_timers s"
  shows "calm s s'" "rv = UavcanBootTimeout \<Longrightarrow> timer_expired tbt s'"
proof -
  let ?s = "upd_env (\<lambda>e. e\<lparr>g_server_node_id := ANY_NODE_ID\<rparr>) s"
  have c0: "calm s ?s" by (rule calm_env) (simp add: app_core_def)
  obtain r s1 where b: "begin_loop C tbt (replicate 201 (uninit C)) ?s = Some (r, s1)"
    using assms(1) by (auto simp: wait_for_beginfirmwareupdate_def bind_eq_Some_conv Let_def)
  have "few_timers ?s" using assms(2) calm_length [OF c0] by simp
  note b1 = begin_calm [OF b this, simplified]
  have c1: "calm s s1" using calm_trans [OF c0] b1 by blast
  have x: "calm s (upd_env (\<lambda>e. e\<lparr>g_server_node_id := x\<rparr>) (snd (snd (uavcan_tx_dsdl (drv C) D p d (upd_env (\<lambda>e. e\<lparr>g_uavcan_priority := y\<rparr>) s1)))))"
    for x D p d y
    by (intro calm_trans [OF calm_trans [OF calm_trans [OF c1 calm_env] calm_tx_dsdl] calm_env]) (simp_all add: app_core_def)
  show "calm s s'" using assms(1) c1 x by (auto simp: wait_for_beginfirmwareupdate_def Let_def b split: option.splits)
  show "timer_expired tbt s'" if "rv = UavcanBootTimeout"
    using assms(1) b1 that
    by (auto simp: wait_for_beginfirmwareupdate_def Let_def b UavcanOk_def UavcanBootTimeout_def split: option.splits)
qed

lemma getinfo_calm: "getinfo_loop C path k p resp s = Some (n, s') \<Longrightarrow> few_timers s \<Longrightarrow> calm s s'"
proof (induction k arbitrary: p resp s)
  case (Suc k)
  obtain rv q s1 where t: "uavcan_tx_dsdl (drv C) DSDLReqGetInfo (set_source_node_id (g_server_node_id (bl_env s)) p) path s = (rv, q, s1)"
    by (metis prod_cases3)
  have c: "calm s s1" by (rule calm_tx_dsdl_eq [OF t])
  have f: "few_timers s1" using Suc.prems(2) calm_length [OF c] by simp
  have again: "calm s s'" if "getinfo_loop C path k p' r' s2 = Some (n, s')" "calm s s2" for p' r' s2
    using Suc.IH [OF that(1)] Suc.prems(2) calm_length [OF that(2)] calm_trans [OF that(2)] by simp
  show ?case
  proof (cases "rv = UavcanOk")
    case False
    then show ?thesis using Suc.prems(1) again [OF _ c] by (auto simp: t Let_def)
  next
    case True
    obtain rv2 p2 r2 n2 s2 where r: "uavcan_rx_dsdl (drv C) (interrupts C) DSDLRspGetInfo (set_source_node_id (g_server_node_id (bl_env s)) q)
        resp 8 UavcanServiceTimeOutMs s1 = Some ((rv2, p2, r2, n2), s2)"
      using Suc.prems(1) True by (auto simp: t Let_def bind_eq_Some_conv)
    have c2: "calm s s2" by (rule calm_trans [OF c bus.receive_calm [OF r f]])
    show ?thesis using Suc.prems(1) True again [OF _ c2] c2 by (auto simp: t r Let_def split: if_splits)
  qed
qed (simp add: calm_refl)

lemma read_calm: "read_loop C req k p resp s = Some (y, s') \<Longrightarrow> few_timers s \<Longrightarrow> calm s s'"
proof (induction k arbitrary: p resp s)
  case (Suc k)
  obtain rv q s1 where t: "uavcan_tx_dsdl (drv C) DSDLReqRead (set_source_node_id (g_server_node_id (bl_env s)) p) req s = (rv, q, s1)"
    by (metis prod_cases3)
  have c: "calm s s1" by (rule calm_tx_dsdl_eq [OF t])
  have f: "few_timers s1" using Suc.prems(2) calm_length [OF c] by simp
  have again: "calm s s'" if "read_loop C req k p' r' s2 = Some (y, s')" "calm s s2" for p' r' s2
    using Suc.IH [OF that(1)] Suc.prems(2) calm_length [OF that(2)] calm_trans [OF that(2)] by simp
  show ?case
  proof (cases "rv = UavcanOk")
    case False
    then show ?thesis using Suc.prems(1) again [OF _ c] by (auto simp: t Let_def)
  next
    case True
    obtain rv2 p2 r2 n2 s2 where r: "uavcan_rx_dsdl (drv C) (interrupts C) DSDLRspRead (set_source_node_id (g_server_node_id (bl_env s)) q)
        resp 258 UavcanServiceTimeOutMs s1 = Some ((rv2, p2, r2, n2), s2)"
      using Suc.prems(1) True by (auto simp: t Let_def bind_eq_Some_conv)
    have c2: "calm s s2" by (rule calm_trans [OF c bus.receive_calm [OF r f]])
    have c3: "calm s (uavcan_tx_log_message (drv C) 3 0x50 0x66 s2)" by (rule calm_trans [OF c2 calm_log])
    show ?thesis using Suc.prems(1) True again [OF _ c2] again [OF _ c3] c2 by (auto simp: t r Let_def split: if_splits)
  qed
qed (simp add: calm_refl)

lemma wait_info_calm:
  "wait_info C tbt s = Some y \<Longrightarrow> few_timers s \<Longrightarrow> calm s (snd y) \<and> (\<not> fst y \<longrightarrow> timer_expired tbt (snd y))"
proof (induction rule: wait_info.raw_induct [rotated, consumes 1, case_names body])
  case (body loop C tbt s y)
  show ?case
  proof (cases "sent_node_info_response (bl_env s) \<or> timer_expired tbt s")
    case True
    then show ?thesis using body.hyps by (auto simp: calm_refl split: if_splits)
  next
    case False
    then obtain s1 where i: "interrupts C s = Some s1" "loop C tbt s1 = Some y" using body.hyps by (auto simp: bind_eq_Some_conv)
    have c: "calm s s1" by (rule interrupts_calm [OF i(1) body.prems])
    show ?thesis using body.IH [OF i(2)] body.prems calm_length [OF c] calm_trans [OF c] by auto
  qed
qed

lemma wait_path_calm:
  "wait_path C tbt s = Some y \<Longrightarrow> few_timers s \<Longrightarrow> calm s (snd y) \<and> (fst y = None \<longrightarrow> timer_expired tbt (snd y))"
proof (induction rule: wait_path.raw_induct [rotated, consumes 1, case_names body])
  case (body loop C tbt s y)
  obtain rv path n s1 where w: "wait_for_beginfirmwareupdate C tbt s = Some ((rv, path, n), s1)"
    using body.hyps by (auto simp: bind_eq_Some_conv)
  have c: "calm s s1" by (rule wait_begin_calm(1) [OF w body.prems])
  have "rv = UavcanBootTimeout \<and> y = (None, s1) \<or> loop C tbt s1 = Some y \<or> y = (Some (path, n), s1)"
    using body.hyps w by (auto split: if_splits)
  then show ?case
    using c wait_begin_calm(2) [OF w body.prems] body.IH [of C tbt s1 y] body.prems calm_length [OF c] calm_trans [OF c] by auto
qed

end
