(* ===== verification/Can_Update.thy ===== *)
theory Can_Update
  imports Can_Waiting
begin

text \<open>
  What the CAN bootloader does to the flash, and when it starts an application.
\<close>

section \<open>The application area\<close>

definition can_board_ok :: "('w, 'd) can_board \<Rightarrow> bool" where
  "can_board_ok C \<longleftrightarrow> f4_ok (dev C) \<and> STM32_FLASH_BASE < APPLICATION_LOAD_ADDRESS C \<and> even (APPLICATION_LOAD_ADDRESS C) \<and>
     APPLICATION_LAST_8BIT_ADDRRESS C < 2 ^ 31 \<and> 4 \<le> APPLICATION_SIZE C \<and> (\<forall>z \<in> set (FLASH_SIZES (dev C)). 4 \<le> z)"

text \<open>The part of the flash below the application is the same.\<close>

definition same_below :: "('w, 'd) can_board \<Rightarrow> ('w, 'd) node \<Rightarrow> ('w, 'd) node \<Rightarrow> bool" where
  "same_below C s s' \<longleftrightarrow> (few_timers s \<longrightarrow> few_timers s') \<and> (\<forall>x < APPLICATION_LOAD_ADDRESS C. node_mem C s' x = node_mem C s x)"

text \<open>The first word of the application is erased.\<close>

definition first_blank :: "('w, 'd) can_board \<Rightarrow> ('w, 'd) node \<Rightarrow> bool" where
  "first_blank C s \<longleftrightarrow> holds (node_mem C s) (APPLICATION_LOAD_ADDRESS C) (replicate 4 0xff)"

lemma same_below_trans: "same_below C s s1 \<Longrightarrow> same_below C s1 s2 \<Longrightarrow> same_below C s s2"
  by (auto simp: same_below_def)

lemma calm_flash: "calm s s' \<Longrightarrow> flash (bl_env s') = flash (bl_env s)"
  by (simp add: calm_def app_core_def)

lemma calm_mem: "calm s s' \<Longrightarrow> node_mem C s' = node_mem C s"
  by (simp add: calm_flash node_mem_def)

lemma calm_below: "calm s s' \<Longrightarrow> same_below C s s'"
  by (simp add: same_below_def calm_mem calm_length)

lemma calm_blank: "calm s s' \<Longrightarrow> first_blank C s' = first_blank C s"
  by (simp add: first_blank_def calm_mem)

lemma node_mem_flash [simp]: "node_mem C (upd_env (\<lambda>e. e\<lparr>flash := d\<rparr>) s) = f4_read (dev C) d"
  by (simp add: node_mem_def upd_env_def)

lemma timers_upd_env [simp]: "timers (upd_env f s) = timers s"
  by (simp add: upd_env_def)

lemma ones_bytes: "bytes_of_u32 0xffffffff = replicate 4 0xff"
proof -
  have "ucast (0xffffffff :: u32) = (0xff :: u8)" "ucast (drop_bit 8 (0xffffffff :: u32)) = (0xff :: u8)"
    "ucast (drop_bit 16 (0xffffffff :: u32)) = (0xff :: u8)" "ucast (drop_bit 24 (0xffffffff :: u32)) = (0xff :: u8)"
    by simp_all
  moreover have "replicate 4 x = [x, x, x, x]" for x :: u8 by (simp add: numeral_eq_Suc)
  ultimately show ?thesis by (simp only: bytes_of_u32_def)
qed

lemma blank_word: "first_blank C s \<Longrightarrow> fw_image C 0 s = 0xffffffff"
  using w32_holds [of "node_mem C s" "APPLICATION_LOAD_ADDRESS C" "0xffffffff"] ones_bytes
  by (simp add: first_blank_def fw_image_def)

subsection \<open>Erase\<close>

lemma yield_calm: "calm s (bl_sched_yield C s)"
  by (simp add: bl_sched_yield_def calm_refl node_status_calm)

lemma erase_loop_mem:
  assumes "f4_ok (dev C)" and "\<forall>p \<in> set pages. p < STM32_FLASH_NPAGES (dev C)"
  shows "length (timers (snd (erase_loop C pages s))) = length (timers s) \<and>
    ((\<forall>p \<in> set pages. \<not> in_page (dev C) p x) \<longrightarrow> node_mem C (snd (erase_loop C pages s)) x = node_mem C s x) \<and>
    (fst (erase_loop C pages s) = FLASH_OK \<longrightarrow> (\<exists>p \<in> set pages. in_page (dev C) p x) \<longrightarrow>
       node_mem C (snd (erase_loop C pages s)) x = 0xff)"
  using assms(2)
proof (induction pages arbitrary: s)
  case (Cons p pages)
  let ?s = "bl_sched_yield C s"
  have p: "p < STM32_FLASH_NPAGES (dev C)" using Cons.prems by simp
  obtain d where e: "up_progmem_eraseblock_f4 (dev C) p (flash (bl_env ?s)) = (int (up_progmem_pagesize_f4 (dev C) p), d)"
    "\<And>x. f4_read (dev C) d x = (if in_page (dev C) p x then 0xff else f4_read (dev C) (flash (bl_env ?s)) x)"
    by (rule erase_ok [OF assms(1) p, of "flash (bl_env ?s)"]) simp
  have d: "f4_read (dev C) d x = (if in_page (dev C) p x then 0xff else node_mem C s x)"
    using e(2) calm_mem [OF yield_calm [of s C], of C] by (simp add: node_mem_def)
  let ?t = "upd_env (\<lambda>e. e\<lparr>flash := d\<rparr>) ?s"
  have t: "length (timers ?t) = length (timers s)" using calm_length [OF yield_calm [of s C]] by simp
  show ?case
  proof (cases "up_progmem_pagesize_f4 (dev C) p = 0")
    case True
    then have "\<not> in_page (dev C) p x" by (simp add: in_page_def)
    then show ?thesis using d e(1) t True by (simp add: Let_def)
  next
    case False
    then have "erase_loop C (p # pages) s = erase_loop C pages ?t" using e(1) by (simp add: Let_def)
    then show ?thesis using Cons.IH [of ?t] Cons.prems d t by auto
  qed
qed simp

lemma erase_result:
  assumes "can_board_ok C" and "bl_flash_erase C (APPLICATION_LOAD_ADDRESS C) (APPLICATION_SIZE C) s = (st, s')"
  shows "same_below C s s'" "st = FLASH_OK \<Longrightarrow> first_blank C s'"
proof -
  let ?a = "APPLICATION_LOAD_ADDRESS C" and ?D = "dev C"
  have b: "f4_ok ?D" "STM32_FLASH_BASE \<le> ?a - 1" "STM32_FLASH_BASE < ?a" "4 \<le> APPLICATION_SIZE C"
    using assms(1) by (auto simp: can_board_ok_def)
  have skip: "same_below C s s' \<and> (st = FLASH_OK \<longrightarrow> first_blank C s')" if "st \<noteq> FLASH_OK" "s' = s"
    using that by (simp add: same_below_def)
  have go: "same_below C s s' \<and> (st = FLASH_OK \<longrightarrow> first_blank C s')"
    if l: "up_progmem_getpage_f4 ?D (?a - 1) = int lp" and f: "up_progmem_getpage_f4 ?D ?a = int fp" and le: "lp < fp"
      and q: "up_progmem_getpage_f4 ?D (?a + APPLICATION_SIZE C - 4) = int ep"
      and e: "erase_loop C [fp..<ep + 1] s = (st, s')" for lp fp ep
  proof -
    note pl = getpage_in_page [OF l b(2)] and pf = getpage_in_page [OF f less_imp_le [OF b(3)]]
    have pe: "ep < STM32_FLASH_NPAGES ?D" "in_page ?D ep (?a + APPLICATION_SIZE C - 4)" using getpage_in_page [OF q] b(3,4) by auto
    have start: "up_progmem_getaddress_f4 ?D fp = ?a"
      using pages_in_order(1) [OF le pf(1) pl(2) pf(2)] pf(2) b(3) by (auto simp: in_page_def)
    have "fp \<le> ep"
    proof (rule ccontr)
      assume "\<not> fp \<le> ep"
      then show False using pages_in_order(2) [of ep fp ?D, OF _ pf(1) pe(2) pf(2)] b(4) by simp
    qed
    have out: "\<forall>p \<in> set [fp..<ep + 1]. \<not> in_page ?D p x" if "x < ?a" for x
    proof
      fix p assume p: "p \<in> set [fp..<ep + 1]"
      show "\<not> in_page ?D p x"
      proof
        assume i: "in_page ?D p x"
        then have "lp < p" "p < STM32_FLASH_NPAGES ?D" using p le pe(1) by auto
        then show False using pages_in_order(2) [OF _ _ pl(2) i] that by simp
      qed
    qed
    have r: "\<forall>p \<in> set [fp..<ep + 1]. p < STM32_FLASH_NPAGES ?D" using pe(1) by auto
    note m = erase_loop_mem [OF b(1) r, of s, unfolded e, simplified]
    have "4 \<le> up_progmem_pagesize_f4 ?D fp"
      using assms(1) pf(1) by (simp add: can_board_ok_def up_progmem_pagesize_f4_def STM32_FLASH_NPAGES_def)
    then have i: "in_page ?D fp (?a + k)" if "k < 4" for k using that start by (simp add: in_page_def)
    have "node_mem C s' (?a + k) = 0xff" if "k < 4" "st = FLASH_OK" for k
      using m [of "?a + k"] i [OF that(1)] that(2) \<open>fp \<le> ep\<close> by auto
    then show ?thesis using m out by (auto simp: same_below_def first_blank_def holds_nth)
  qed
  define lp fp ep where pages: "lp = up_progmem_getpage_f4 ?D (?a - 1)" "fp = up_progmem_getpage_f4 ?D ?a"
    "ep = up_progmem_getpage_f4 ?D (?a + APPLICATION_SIZE C - 4)"
  have "st \<noteq> FLASH_OK \<and> s' = s \<or> 0 \<le> lp \<and> 0 \<le> fp \<and> 0 \<le> ep \<and> lp < fp \<and> erase_loop C [nat fp..<nat ep + 1] s = (st, s')"
    using assms(2) unfolding bl_flash_erase_def Let_def pages [symmetric] by (auto split: if_splits simp del: upt_Suc)
  then have "same_below C s s' \<and> (st = FLASH_OK \<longrightarrow> first_blank C s')"
    using skip go [of "nat lp" "nat fp" "nat ep"] by (auto simp: pages simp del: upt_Suc)
  then show "same_below C s s'" "st = FLASH_OK \<Longrightarrow> first_blank C s'" by blast+
qed

subsection \<open>Programming\<close>

lemma write_result:
  assumes "can_board_ok C" and "bl_flash_write C a data s = (st, s')"
  shows "same_below C s s'" "app_core (bl_env s') = app_core ((bl_env s)\<lparr>flash := flash (bl_env s')\<rparr>)"
    "st = FLASH_OK \<Longrightarrow> holds (node_mem C s') a data \<and> a + length data < 2 ^ 31 \<and> APPLICATION_LOAD_ADDRESS C \<le> a"
    "\<And>x. x < a \<or> a + length data \<le> x \<Longrightarrow> node_mem C s' x = node_mem C s x"
    "first_blank C s \<Longrightarrow> a = APPLICATION_LOAD_ADDRESS C \<Longrightarrow> \<forall>i < min 4 (length data). data ! i = 0xff \<Longrightarrow> first_blank C s'"
proof -
  let ?D = "dev C" and ?d = "flash (bl_env s)"
  have b: "f4_ok ?D" "STM32_FLASH_BASE \<le> APPLICATION_LOAD_ADDRESS C" "even (APPLICATION_LOAD_ADDRESS C)" "APPLICATION_LAST_8BIT_ADDRRESS C < 2 ^ 31"
    using assms(1) by (auto simp: can_board_ok_def)
  obtain rv d where w: "up_progmem_write_f4 ?D a data ?d = (rv, d)" by fastforce
  consider "s' = s" "st = FLASH_ERROR"
    | "APPLICATION_LOAD_ADDRESS C \<le> a" "a + length data \<le> APPLICATION_LAST_8BIT_ADDRRESS C"
      "s' = upd_env (\<lambda>e. e\<lparr>flash := d\<rparr>) s" "st = (if rv = int (length data) then FLASH_OK else FLASH_ERROR)"
    using assms(2) w by (auto simp: bl_flash_write_def split: if_splits)
  then have "same_below C s s' \<and> app_core (bl_env s') = app_core ((bl_env s)\<lparr>flash := flash (bl_env s')\<rparr>) \<and>
    (st = FLASH_OK \<longrightarrow> holds (node_mem C s') a data \<and> a + length data < 2 ^ 31 \<and> APPLICATION_LOAD_ADDRESS C \<le> a) \<and>
    (\<forall>x. x < a \<or> a + length data \<le> x \<longrightarrow> node_mem C s' x = node_mem C s x) \<and>
    (first_blank C s \<longrightarrow> a = APPLICATION_LOAD_ADDRESS C \<longrightarrow> (\<forall>i < min 4 (length data). data ! i = 0xff) \<longrightarrow> first_blank C s')"
  proof cases
    case 1
    then show ?thesis by (simp add: same_below_def)
  next
    case 2
    have a: "STM32_FLASH_BASE \<le> a" using b(2) 2(1) by simp
    have fr: "f4_read ?D d x = node_mem C s x" if "x < a \<or> a + length data \<le> x" for x
      using write_frame [OF b(1) a, of x data ?d] that w by (auto simp: node_mem_def)
    have "holds (f4_read ?D d) a data" if "rv = int (length data)"
      using write_holds [OF b(1) a] w that by simp
    moreover have "holds (f4_read ?D d) a (replicate 4 0xff)"
      if "first_blank C s" "a = APPLICATION_LOAD_ADDRESS C" "\<forall>i < min 4 (length data). data ! i = 0xff"
      using write_blank [OF b(1) a, of ?d data] that b(3) w by (simp add: first_blank_def node_mem_def even_iff_mod_2_eq_zero)
    ultimately show ?thesis using 2 b(4) fr
      by (auto simp: same_below_def app_core_def upd_env_def first_blank_def node_mem_def)
  qed
  then show "same_below C s s'" "app_core (bl_env s') = app_core ((bl_env s)\<lparr>flash := flash (bl_env s')\<rparr>)"
    "st = FLASH_OK \<Longrightarrow> holds (node_mem C s') a data \<and> a + length data < 2 ^ 31 \<and> APPLICATION_LOAD_ADDRESS C \<le> a"
    "\<And>x. x < a \<or> a + length data \<le> x \<Longrightarrow> node_mem C s' x = node_mem C s x"
    "first_blank C s \<Longrightarrow> a = APPLICATION_LOAD_ADDRESS C \<Longrightarrow> \<forall>i < min 4 (length data). data ! i = 0xff \<Longrightarrow> first_blank C s'"
    by blast+
qed

lemma first_data_blank:
  assumes "keep_first 0 data s = (data', s1)"
  shows "\<forall>i < min 4 (length (take n data')). take n data' ! i = 0xff"
  using assms by (auto simp: keep_first_def ones_bytes nth_append)

lemma keep_first_state:
  assumes "keep_first offset data s = (data', s1)"
  shows "flash (bl_env s1) = flash (bl_env s)" "timers s1 = timers s"
  using assms by (auto simp: keep_first_def upd_env_def split: if_splits)

lemma offset_step:
  assumes "unat offset < 2 ^ 31"
  shows "4 \<le> unat (offset + 256 :: u32)"
  using assms by (simp add: unat_word_ariths)

lemma program_step:
  assumes "can_board_ok C" and "few_timers s" and "first_blank C s" and "offset = 0 \<or> 4 \<le> unat offset"
    and "read_loop C req UavcanServiceRetries p resp s = Some (x, s1)"
    and "keep_first offset data s1 = (data', s2)"
    and "bl_flash_write C (APPLICATION_LOAD_ADDRESS C + unat offset) (take n data') s2 = (st, s3)"
  shows "same_below C s s3" "first_blank C s3"
proof -
  have c: "calm s s1" by (rule read_calm [OF assms(5,2)])
  have m: "node_mem C s2 = node_mem C s" "same_below C s s2"
    using keep_first_state [OF assms(6)] calm_mem [OF c, of C] calm_length [OF c] by (simp_all add: node_mem_def same_below_def)
  then have b: "first_blank C s2" using assms(3) by (simp add: first_blank_def)
  show "same_below C s s3" by (rule same_below_trans [OF m(2) write_result(1) [OF assms(1,7)]])
  show "first_blank C s3"
  proof (cases "offset = 0")
    case True
    then show ?thesis using write_result(5) [OF assms(1,7) b] first_data_blank [of data s1 data' s2 n] assms(6) by simp
  next
    case False
    then have "4 \<le> unat offset" using assms(4) by blast
    then have "node_mem C s3 (APPLICATION_LOAD_ADDRESS C + i) = node_mem C s2 (APPLICATION_LOAD_ADDRESS C + i)" if "i < 4" for i
      using write_result(4) [OF assms(1,7), of "APPLICATION_LOAD_ADDRESS C + i"] that by simp
    then show ?thesis using b by (simp add: first_blank_def holds_nth)
  qed
qed

lemma program_loop_result:
  "program_loop C path len offset p resp s = Some y \<Longrightarrow> can_board_ok C \<Longrightarrow> few_timers s \<Longrightarrow> first_blank C s \<Longrightarrow>
   offset = 0 \<or> 4 \<le> unat offset \<Longrightarrow> same_below C s (snd y) \<and> first_blank C (snd y)"
proof (induction rule: program_loop.raw_induct [rotated, consumes 1, case_names body])
  case (body loop C path len offset p resp s y)
  obtain rv n q r s1 where rd: "read_loop C (bytes_of_u32 offset @ [0] @ path) UavcanServiceRetries p resp s = Some ((rv, n, q, r), s1)"
    using body.hyps by (auto simp: bind_eq_Some_conv)
  have c: "calm s s1" by (rule read_calm [OF rd body.prems(2)])
  show ?case
  proof (cases "rv = UavcanOk")
    case False
    then have "y = (FLASH_ERROR, s1)" using body.hyps rd by auto
    then show ?thesis using calm_below [OF c] calm_blank [OF c] body.prems(3) by simp
  next
    case True
    obtain data s2 where k: "keep_first offset (pad_odd (unat n) (drop 2 r)) s1 = (data, s2)" by fastforce
    obtain st s3 where w: "bl_flash_write C (APPLICATION_LOAD_ADDRESS C + unat offset) (take (unat n + unat n mod 2) data) s2 = (st, s3)" by fastforce
    note ok = program_step [OF body.prems(1-4) rd k w]
    let ?t = "upd_env (\<lambda>e. e\<lparr>percentage_done := word_of_nat (unat (offset + n) div (unat len div 100))\<rparr>) s3"
    have t: "same_below C s ?t" "first_blank C ?t" "few_timers ?t"
      using ok body.prems(2) by (simp_all add: same_below_def first_blank_def node_mem_def upd_env_def)
    have "y = (if st = FLASH_OK \<and> offset + n = len \<and> n \<noteq> 0 then FLASH_OK else FLASH_ERROR, ?t) \<or>
        st = FLASH_OK \<and> n = 256 \<and> loop C path len (offset + n) q (take 2 r @ data) ?t = Some y"
      using body.hyps rd True k w by (auto simp: Let_def split: if_splits)
    then show ?thesis
    proof
      assume "st = FLASH_OK \<and> n = 256 \<and> loop C path len (offset + n) q (take 2 r @ data) ?t = Some y"
      then have g: "st = FLASH_OK" "n = 256" "loop C path len (offset + n) q (take 2 r @ data) ?t = Some y" by auto
      have "unat offset < 2 ^ 31" using write_result(3) [OF body.prems(1) w g(1)] by linarith
      then have "offset + n = 0 \<or> 4 \<le> unat (offset + n)" using offset_step g(2) by blast
      then show ?thesis using body.IH [OF g(3) body.prems(1) t(3,2)] same_below_trans [OF t(1)] by blast
    qed (use t in simp)
  qed
qed

section \<open>The update\<close>

definition image_ok :: "('w, 'd) can_board \<Rightarrow> ('w, 'd) node \<Rightarrow> bool" where
  "image_ok C s \<longleftrightarrow> image_valid (APPLICATION_LOAD_ADDRESS C) (APPLICATION_SIZE C) (node_mem C s) (fw_image_descriptor (bl_env s)) (fw_image C 0 s)"

lemma find_signature_found: "find_signature m l p = 0 \<or> p \<le> find_signature m l p \<and> mem_list m (find_signature m l p) 8 = APP_DESCRIPTOR_SIGNATURE \<and>
    8 dvd find_signature m l p - p"
proof (induction m l p rule: find_signature.induct)
  case (1 m l p)
  show ?case
  proof (cases "mem_list m p 8 \<noteq> APP_DESCRIPTOR_SIGNATURE \<and> p + 8 < l")
    case True
    then have "find_signature m l p = find_signature m l (p + 8)" by (subst find_signature.simps) simp
    moreover have "8 dvd d - p" if "p + 8 \<le> d" "8 dvd d - (p + 8)" for d
    proof -
      have "d - p = (d - (p + 8)) + 8" using that(1) by simp
      then show ?thesis using that(2) by (metis dvd_add dvd_refl)
    qed
    ultimately show ?thesis using 1 True by auto
  next
    case False
    then show ?thesis by (auto simp: find_signature.simps [of m l p])
  qed
qed

lemma mem_list_cong: "(\<And>x. a \<le> x \<Longrightarrow> m x = m' x) \<Longrightarrow> mem_list m a n = mem_list m' a n"
  by (simp add: mem_list_def)

lemma image_valid_cong:
  assumes "\<And>x. base + 4 \<le> x \<Longrightarrow> m x = m' x" and "d = 0 \<or> base + 4 \<le> d"
  shows "image_valid base sz m d fw = image_valid base sz m' d fw"
proof (cases "d = 0")
  case False
  then have eq: "mem_list m a n = mem_list m' a n" if "base + 4 \<le> a" for a n
    using assms(1) that by (intro mem_list_cong) simp
  have d: "base + 4 \<le> d + k" for k using False assms(2) by simp
  show ?thesis
    by (simp add: image_valid_def desc_image_size_def desc_crc32_block1_def desc_crc32_block2_def w32_def eq eq [OF d])
qed (simp add: image_valid_def)

text \<open>The descriptor is behind the first word as long as that one is erased.\<close>

lemma descriptor_behind:
  assumes "first_blank C s"
  shows "find_signature (node_mem C s) l (APPLICATION_LOAD_ADDRESS C) = 0 \<or>
    APPLICATION_LOAD_ADDRESS C + 4 \<le> find_signature (node_mem C s) l (APPLICATION_LOAD_ADDRESS C)"
proof -
  let ?a = "APPLICATION_LOAD_ADDRESS C" and ?m = "node_mem C s"
  define d where "d = find_signature ?m l ?a"
  have "d \<noteq> ?a" if "d \<noteq> 0"
  proof
    assume "d = ?a"
    then have "mem_list ?m ?a 8 = APP_DESCRIPTOR_SIGNATURE" using find_signature_found [of ?m l ?a] that by (auto simp: d_def)
    then have "?m ?a = 0x40" by (simp add: mem_list_def APP_DESCRIPTOR_SIGNATURE_def upt_conv_Cons)
    moreover have "?m ?a = 0xff" using assms by (auto simp: first_blank_def holds_nth dest: spec [of _ 0])
    ultimately show False by simp
  qed
  moreover have "d = 0 \<or> ?a \<le> d \<and> 8 dvd d - ?a" using find_signature_found [of ?m l ?a] by (auto simp: d_def)
  ultimately have "d = 0 \<or> ?a + 4 \<le> d" using dvd_imp_le [of 8 "d - ?a"] by (cases "d = 0") auto
  then show ?thesis by (simp add: d_def)
qed

lemma env_upd [simp]: "bl_env (upd_env f s) = f (bl_env s)"
  by (simp add: upd_env_def)

lemma finish_result:
  assumes "can_board_ok C" and "first_blank C s" and "is_app_valid C (fw_word0 (bl_env s)) s = (True, s1)"
    and "bl_flash_write C (APPLICATION_LOAD_ADDRESS C) (bytes_of_u32 (fw_word0 (bl_env s1))) s1 = (FLASH_OK, s2)"
  shows "image_ok C s2"
proof -
  let ?a = "APPLICATION_LOAD_ADDRESS C" and ?w = "fw_word0 (bl_env s)"
  define d where "d = find_signature (node_mem C s) (APPLICATION_LAST_64BIT_ADDRRESS C) ?a"
  have s1: "s1 = upd_env (\<lambda>e. e\<lparr>fw_image_descriptor := d\<rparr>) s"
    and v: "image_valid ?a (APPLICATION_SIZE C) (node_mem C s) d ?w"
    using assms(3) by (auto simp: is_app_valid_def Let_def find_descriptor_def d_def node_mem_def)
  have w: "fw_word0 (bl_env s1) = ?w" "node_mem C s1 = node_mem C s" by (simp_all add: s1 node_mem_def)
  have h: "holds (node_mem C s2) ?a (bytes_of_u32 ?w)" using write_result(3) [OF assms(1,4)] w by simp
  have m: "node_mem C s x = node_mem C s2 x" if "?a + 4 \<le> x" for x
    using write_result(4) [OF assms(1,4), of x] that w by simp
  have "fw_image_descriptor (bl_env s2) = d" using write_result(2) [OF assms(1,4)] by (simp add: app_core_def s1)
  moreover have "fw_image C 0 s2 = ?w" using w32_holds [OF h] by (simp add: fw_image_def)
  moreover have "image_valid ?a (APPLICATION_SIZE C) (node_mem C s2) d ?w"
    using v image_valid_cong [of ?a "node_mem C s" "node_mem C s2" d, OF m] descriptor_behind [OF assms(2)] by (simp add: d_def)
  ultimately show ?thesis by (simp add: image_ok_def)
qed

lemma image_ok_calm: "calm s s' \<Longrightarrow> image_ok C s' = image_ok C s"
  by (simp add: image_ok_def fw_image_def calm_mem) (simp add: calm_def app_core_def)

lemma valid_state:
  assumes "is_app_valid C w s = (v, s1)"
  shows "same_below C s s1" "first_blank C s1 = first_blank C s" "timers s1 = timers s"
  using assms by (auto simp: is_app_valid_def Let_def find_descriptor_def same_below_def first_blank_def node_mem_def)

text \<open>The update step by step: what it has done when it ends with a stage, or with none.\<close>

lemma main_update_result:
  assumes "can_board_ok C" and "few_timers s" and "main_update C tbt path n s = Some (stage, s')"
  shows "same_below C s s'" "stage = None \<Longrightarrow> image_ok C s'" "stage = Some LOGMESSAGE_STAGE_PROGRAM \<or> stage = Some LOGMESSAGE_STAGE_VALIDATE \<Longrightarrow> first_blank C s'"
    "stage = Some LOGMESSAGE_STAGE_GET_INFO \<Longrightarrow> node_mem C s' = node_mem C s"
proof -
  let ?s0 = "upd_env (\<lambda>e. e\<lparr>mode := 3\<rparr>) (timer_stop tbt s)"
  have b0: "same_below C s ?s0" by (simp add: same_below_def node_mem_def timer_stop_def)
  have f0: "few_timers ?s0" using assms(2) by (simp add: timer_stop_def)
  obtain sz s1 where g: "file_getinfo C path n ?s0 = Some (sz, s1)"
    using assms(3) by (auto simp: main_update_def bind_eq_Some_conv Let_def)
  have c1: "calm ?s0 s1" using g getinfo_calm [OF _ f0] by (auto simp: file_getinfo_def split: if_splits)
  have m1: "node_mem C s1 = node_mem C s" using calm_mem [OF c1, of C] by (simp add: node_mem_def timer_stop_def)
  from c1 have b1: "same_below C s s1" "few_timers s1" using same_below_trans [OF b0 calm_below] f0 calm_length by (blast, metis)
  define s2 where "s2 = upd_env (\<lambda>e. e\<lparr>app_valid := False\<rparr>) (uavcan_tx_log_message (drv C) 1 0x45 0x73 s1)"
  have cl: "calm s1 (uavcan_tx_log_message (drv C) 1 0x45 0x73 s1)" by (rule calm_log)
  have b2: "same_below C s s2" "few_timers s2"
    using same_below_trans [OF b1(1) calm_below [OF cl]] calm_length [OF cl] b1(2)
    by (simp_all add: s2_def same_below_def node_mem_def)
  obtain st3 s3 where e: "bl_flash_erase C (APPLICATION_LOAD_ADDRESS C) (APPLICATION_SIZE C) s2 = (st3, s3)" by fastforce
  have b3: "same_below C s s3" by (rule same_below_trans [OF b2(1) erase_result(1) [OF assms(1) e]])
  have f3: "few_timers s3" using b3 assms(2) by (simp add: same_below_def)
  have "same_below C s s' \<and> (stage = None \<longrightarrow> image_ok C s') \<and> (stage = Some LOGMESSAGE_STAGE_PROGRAM \<or> stage = Some LOGMESSAGE_STAGE_VALIDATE \<longrightarrow> first_blank C s') \<and>
        (stage = Some LOGMESSAGE_STAGE_GET_INFO \<longrightarrow> node_mem C s' = node_mem C s)"
  proof (cases "unat sz < 36 \<or> st3 \<noteq> FLASH_OK")
    case True
    then have "(stage = Some LOGMESSAGE_STAGE_GET_INFO \<and> s' = s1) \<or> (stage = Some 0x45 \<and> s' = s3)"
      using assms(3) g e by (auto simp: main_update_def Let_def s2_def split: if_splits)
    then show ?thesis
      using b1 b3 m1 by auto
  next
    case False
    then have k3: "first_blank C s3" using erase_result(2) [OF assms(1) e] by simp
    obtain st4 s4 where p: "file_read_and_program C path (ucast n) sz s3 = Some (st4, s4)"
      using assms(3) g e False by (auto simp: main_update_def Let_def s2_def bind_eq_Some_conv)
    have b4: "same_below C s s4" "first_blank C s4"
    proof -
      let ?t = "upd_env (\<lambda>e. e\<lparr>percentage_done := 0\<rparr>) s3"
      have l: "program_loop C (take (unat (ucast n :: u8)) path) sz 0 \<lparr>id_u32 = 0, tail_u8 = 0\<rparr> (replicate 258 0) ?t = Some (st4, s4)"
        using p by (auto simp: file_read_and_program_def split: if_splits)
      have t: "same_below C s3 ?t" "few_timers ?t" "first_blank C ?t" using k3 f3 by (simp_all add: same_below_def first_blank_def node_mem_def)
      have r: "same_below C ?t s4" "first_blank C s4" using program_loop_result [OF l assms(1) t(2,3)] by simp_all
      show "same_below C s s4" by (rule same_below_trans [OF same_below_trans [OF b3 t(1)] r(1)])
      show "first_blank C s4" by (rule r(2))
    qed
    obtain v s5 where q: "is_app_valid C (fw_word0 (bl_env s4)) s4 = (v, s5)" by fastforce
    note q5 = valid_state [OF q]
    obtain st6 s6 where w: "bl_flash_write C (APPLICATION_LOAD_ADDRESS C) (bytes_of_u32 (fw_word0 (bl_env s5))) s5 = (st6, s6)" by fastforce
    have b6: "same_below C s s6" by (rule same_below_trans [OF same_below_trans [OF b4(1) q5(1)] write_result(1) [OF assms(1) w]])
    let ?t5 = "upd_env (\<lambda>e. e\<lparr>app_valid := False\<rparr>) s5" and ?t6 = "upd_env (\<lambda>e. e\<lparr>percentage_done := 100\<rparr>) s6"
    have b5: "same_below C s ?t5" "first_blank C ?t5"
      using same_below_trans [OF b4(1) q5(1)] q5(2) b4(2) by (simp_all add: same_below_def first_blank_def node_mem_def)
    have c7: "calm s6 (uavcan_tx_log_message (drv C) 1 0x46 0x6f ?t6)"
      by (rule calm_trans [OF calm_env calm_log]) (simp add: app_core_def)
    have "stage = Some LOGMESSAGE_STAGE_PROGRAM \<and> s' = s4 \<or> stage = Some LOGMESSAGE_STAGE_VALIDATE \<and> s' = ?t5 \<or> stage = Some 0x46 \<and> s' = s6 \<or>
        stage = None \<and> v \<and> st6 = FLASH_OK \<and> s' = uavcan_tx_log_message (drv C) 1 0x46 0x6f ?t6"
      using assms(3) g e p q w False by (auto simp: main_update_def Let_def s2_def split: if_splits)
    then show ?thesis
      using b4 b5 b6 same_below_trans [OF b6 calm_below [OF c7]] finish_result [OF assms(1) b4(2)] q w image_ok_calm [OF c7]
      by (elim disjE) auto
  qed
  then show "same_below C s s'" "stage = None \<Longrightarrow> image_ok C s'" "stage = Some LOGMESSAGE_STAGE_PROGRAM \<or> stage = Some LOGMESSAGE_STAGE_VALIDATE \<Longrightarrow> first_blank C s'"
    "stage = Some LOGMESSAGE_STAGE_GET_INFO \<Longrightarrow> node_mem C s' = node_mem C s" by blast+
qed

section \<open>When the application is started\<close>

text \<open>The boot timer runs only for an application that has passed the test.\<close>

definition boot_inv :: "('w, 'd) can_board \<Rightarrow> u8 \<Rightarrow> ('w, 'd) node \<Rightarrow> bool" where
  "boot_inv C t s \<longleftrightarrow> few_timers s \<and> unat t < length (timers s) \<and> (app_valid (bl_env s) \<longrightarrow> image_ok C s) \<and>
     (tm_ctl (timers s ! unat t) = modeTimeout OR inuse \<or>
      tm_ctl (timers s ! unat t) = modeTimeout OR inuse OR running \<and> app_valid (bl_env s))"

lemma boot_inv_calm:
  assumes "boot_inv C t s" and "calm s s'"
  shows "boot_inv C t s'"
proof -
  have "used (timers s ! unat t)" using assms(1) by (auto simp: boot_inv_def used_def has_flag_def timer_flags)
  then have "tm_ctl (timers s' ! unat t) = tm_ctl (timers s ! unat t)" using assms by (simp add: calm_def boot_inv_def)
  moreover have "app_valid (bl_env s') = app_valid (bl_env s)" using assms(2) by (simp add: calm_def app_core_def)
  ultimately show ?thesis
    using assms(1) calm_length [OF assms(2)] image_ok_calm [OF assms(2)] by (simp add: boot_inv_def)
qed

lemma boot_inv_upd:
  assumes "boot_inv C t s" and "flash (f (bl_env s)) = flash (bl_env s)" and "app_valid (f (bl_env s)) = app_valid (bl_env s)"
    and "fw_image_descriptor (f (bl_env s)) = fw_image_descriptor (bl_env s)"
  shows "boot_inv C t (upd_env f s)"
  using assms by (simp add: boot_inv_def image_ok_def fw_image_def node_mem_def)

lemma boot_inv_start:
  assumes "boot_inv C t s" and "unat u = unat t \<Longrightarrow> app_valid (bl_env s)"
  shows "boot_inv C t (timer_start u s)"
proof (cases "unat u = unat t")
  case True
  then have "tm_ctl (timers (timer_start u s) ! unat t) = modeTimeout OR inuse OR running"
    using assms(1) by (auto simp: boot_inv_def timer_start_def set_flag_def timer_flags)
  then show ?thesis using assms True by (simp add: boot_inv_def image_ok_def fw_image_def node_mem_def timer_start_def)
qed (use assms(1) in \<open>simp add: boot_inv_def image_ok_def fw_image_def node_mem_def timer_start_def\<close>)

lemma boot_inv_expired: "boot_inv C t s \<Longrightarrow> timer_expired t s \<Longrightarrow> image_ok C s"
  by (auto simp: boot_inv_def timer_expired_def Let_def has_flag_def timer_flags)

text \<open>The four timers of the main program take the four highest slots.\<close>

definition fresh :: "nat \<Rightarrow> nat \<Rightarrow> ('w, 'd) node \<Rightarrow> bool" where
  "fresh n k s \<longleftrightarrow> length (timers s) = n \<and> (\<forall>u < n. if u < k then tm_ctl (timers s ! u) = 0 else tm_ctl (timers s ! u) AND inuse \<noteq> 0)"

lemma allocate_fresh:
  assumes "fresh n (Suc k) s" and "Suc k \<le> n" and "n \<le> 255"
  obtains s' where "timer_allocate m ms fc s = (word_of_nat k, s')" and "unat (word_of_nat k :: u8) = k" and "fresh n k s'"
    and "bl_env s' = bl_env s" and "tm_ctl (timers s' ! k) = m AND (modeMsk OR running) OR inuse"
    and "\<And>u. u \<noteq> k \<Longrightarrow> timers s' ! u = timers s ! u"
proof -
  have l: "length (timers s) = n" and c: "tm_ctl (timers s ! k) = 0" using assms(1,2) by (auto simp: fresh_def)
  have u: "tm_ctl (timers s ! v) AND inuse \<noteq> 0" if "v < n" "k < v" for v using assms(1) that by (simp add: fresh_def)
  have fr: "free_timer (timers s) (length (timers s)) = Some k"
    using c u l assms(2) by (simp add: free_timer_Some)
  let ?tm = "\<lparr>tm_cb = map_option fst fc, tm_context = (case fc of None \<Rightarrow> 0 | Some f \<Rightarrow> snd f), tm_count = ms, tm_reload = ms,
      tm_ctl = m AND (modeMsk OR running) OR inuse\<rparr>"
  have nz: "(m AND (modeMsk OR running) OR inuse) AND inuse \<noteq> 0"
    by (rule notI, drule arg_cong [of _ _ "\<lambda>w. bit w 7"]) (simp add: bit_simps timer_flags)
  have "fresh n k (put_timer k (\<lambda>_. ?tm) s)"
    using assms(1) nz l by (auto simp: fresh_def nth_list_update)
  then show thesis
    using that [of "put_timer k (\<lambda>_. ?tm) s"] fr assms(2,3) l by (simp add: timer_allocate_def unat_of_nat take_bit_nat_eq_self)
qed

lemma main_setup_result:
  assumes "timers s = replicate n zero_timer" and "4 \<le> n" and "n \<le> 255" and "main_setup C s = (v, s')"
  shows "boot_inv C (tboot v) s'" "unat (tinfo v) \<noteq> unat (tboot v)" "unat (tstatus v) \<noteq> unat (tboot v)"
    "same_below C s s'" "g_this_node_id (bl_env s') = ANY_NODE_ID"
proof -
  define s0 where "s0 = main_init C s"
  obtain ok s1 where a: "is_app_valid C (fw_image C 0 s0) s0 = (ok, s1)" by fastforce
  define s2 where "s2 = upd_env (\<lambda>e. e\<lparr>app_valid := ok\<rparr>) s1"
  obtain rd com where r: "bootloader_app_shared_read (bootloader_app_shared_init Invalid) App (shared_mem (bl_env s2)) = (rd, com)" by fastforce
  define s3 where "s3 = upd_env (\<lambda>e. e\<lparr>shared_mem := bootloader_app_shared_invalidate (shared_mem e)\<rparr>)
      (upd_env (\<lambda>e. e\<lparr>app_bl_request := rd \<and> sh_bus_speed com \<noteq> 0 \<and> sh_node_id com \<noteq> 0\<rparr>) s2)"
  have t3: "timers s3 = timers s" using valid_state(3) [OF a] by (simp add: s3_def s2_def s0_def main_init_def)
  have d3: "node_mem C s3 = node_mem C s" "g_this_node_id (bl_env s3) = ANY_NODE_ID" "app_valid (bl_env s3) \<longrightarrow> image_ok C s3"
    using a by (auto simp: s3_def s2_def s0_def main_init_def is_app_valid_def Let_def find_descriptor_def node_mem_def image_ok_def fw_image_def)
  have "n - 1 + 1 = n" "n - 2 + 1 = n - 1" "n - 3 + 1 = n - 2" "n - 4 + 1 = n - 3" using assms(2) by simp_all
  then have k: "Suc (n - 1) = n" "Suc (n - 2) = n - 1" "Suc (n - 3) = n - 2" "Suc (n - 4) = n - 3" by simp_all
  have "fresh n (Suc (n - 1)) s3" unfolding k by (simp add: fresh_def t3 assms(1) zero_timer_def)
  then obtain s4 where 4: "timer_allocate (modeRepeating OR modeStarted) 1000 (Some (uptime_cb, 0)) s3 = (word_of_nat (n - 1), s4)"
      "fresh n (Suc (n - 2)) s4" "bl_env s4 = bl_env s3"
    using allocate_fresh [of n "n - 1" s3 "modeRepeating OR modeStarted" 1000 "Some (uptime_cb, 0)"] assms(3) k by auto
  obtain s5 where 5: "timer_allocate modeRepeating (OPT_NODE_INFO_RATE_MS C) (Some (node_info_cb, 0)) s4 = (word_of_nat (n - 2), s5)"
      "fresh n (Suc (n - 3)) s5" "bl_env s5 = bl_env s4" "unat (word_of_nat (n - 2) :: u8) = n - 2"
    using allocate_fresh [OF 4(2), of modeRepeating "OPT_NODE_INFO_RATE_MS C" "Some (node_info_cb, 0)"] assms(3) k by auto
  obtain s6 where 6: "timer_allocate modeRepeating (OPT_NODE_STATUS_RATE_MS C) (Some (node_status_cb, 0)) s5 = (word_of_nat (n - 3), s6)"
      "fresh n (Suc (n - 4)) s6" "bl_env s6 = bl_env s5" "unat (word_of_nat (n - 3) :: u8) = n - 3"
    using allocate_fresh [OF 5(2), of modeRepeating "OPT_NODE_STATUS_RATE_MS C" "Some (node_status_cb, 0)"] assms(3) k by auto
  obtain s7 where 7: "timer_allocate modeTimeout (OPT_TBOOT_MS C) None s6 = (word_of_nat (n - 4), s7)"
      "fresh n (n - 4) s7" "bl_env s7 = bl_env s6" "unat (word_of_nat (n - 4) :: u8) = n - 4"
      "tm_ctl (timers s7 ! (n - 4)) = modeTimeout AND (modeMsk OR running) OR inuse"
    using allocate_fresh [OF 6(2), of modeTimeout "OPT_TBOOT_MS C" None] assms(3) k by auto
  have v: "v = \<lparr>tinfo = word_of_nat (n - 2), tstatus = word_of_nat (n - 3), tboot = word_of_nat (n - 4), common = com, common_valid = False\<rparr>"
    "s' = (if app_valid (bl_env s7) \<and> \<not> wait_for_getnodeinfo (bl_env s7) \<and> \<not> app_bl_request (bl_env s7)
           then timer_start (word_of_nat (n - 4)) s7 else s7)"
    using assms(4) unfolding main_setup_def Let_def s0_def [symmetric] a prod.case s2_def [symmetric] r s3_def [symmetric] 4(1) 5(1) 6(1) 7(1)
    by auto
  have e: "bl_env s7 = bl_env s3" using 4(3) 5(3) 6(3) 7(3) by simp
  have i7: "boot_inv C (tboot v) s7"
    using 7 d3(3) assms(2,3) e by (simp add: v(1) boot_inv_def fresh_def timer_flags image_ok_def fw_image_def node_mem_def)
  then show "boot_inv C (tboot v) s'" by (auto simp: v intro!: boot_inv_start)
  show "unat (tinfo v) \<noteq> unat (tboot v)" "unat (tstatus v) \<noteq> unat (tboot v)" using assms(2) 5(4) 6(4) 7(4) by (simp_all add: v(1))
  have "bl_env s' = bl_env s3" "length (timers s') = n" using e 7(2) by (auto simp: v(2) timer_start_def fresh_def)
  then show "same_below C s s'" "g_this_node_id (bl_env s') = ANY_NODE_ID"
    using d3 assms(1,3) by (simp_all add: same_below_def node_mem_def)
qed

lemma calm_node: "calm s s' \<Longrightarrow> g_this_node_id (bl_env s') = g_this_node_id (bl_env s)"
  by (simp add: calm_def app_core_def)

text \<open>Both ways to a node id keep the invariant, the flash and the timers of the main program.\<close>

definition node_step :: "('w, 'd) can_board \<Rightarrow> can_vars \<Rightarrow> ('w, 'd) node \<Rightarrow> can_vars \<Rightarrow> ('w, 'd) node \<Rightarrow> bool" where
  "node_step C v s v' s' \<longleftrightarrow> tboot v' = tboot v \<and> tinfo v' = tinfo v \<and> tstatus v' = tstatus v \<and> boot_inv C (tboot v) s' \<and>
     same_below C s s' \<and> g_this_node_id (bl_env s') = g_this_node_id (bl_env s)"

lemma node_step_calm:
  assumes "calm s s'" and "boot_inv C (tboot v) s" and "tboot v' = tboot v" and "tinfo v' = tinfo v" and "tstatus v' = tstatus v"
  shows "node_step C v s v' s'"
  using assms boot_inv_calm [OF assms(2,1)] calm_below [OF assms(1)] calm_node [OF assms(1)] by (simp add: node_step_def)

lemma main_request_step:
  assumes "main_request C v s = Some (go, v', s')" and "boot_inv C (tboot v) s"
  shows "node_step C v s v' s'"
proof -
  define s0 where "s0 = upd_env (\<lambda>e. e\<lparr>bus_speed := sh_bus_speed (common v)\<rparr>) s"
  have c0: "calm s s0" unfolding s0_def by (rule calm_env) (simp add: app_core_def)
  have f: "few_timers s0" using assms(2) by (simp add: boot_inv_def s0_def)
  have init: "calm s s2" if "calm s s1" "try_can g s1 = Some (r, s2)" for s1 s2 g and r :: int
    by (rule calm_trans [OF that(1) try_can_calm [OF that(2)]])
  have speed: "calm s (upd_env (\<lambda>e. e\<lparr>bus_speed := x\<rparr>) s1)"
    if "autobaud_and_get_dynamic_node_id C t sp i s0 = Some ((rv, sp', node), s1)" for t sp i rv sp' node s1 x
    by (rule calm_trans [OF calm_trans [OF c0 autobaud_and_get_result [OF that f]] calm_env]) (simp add: app_core_def)
  have "calm s s' \<and> tboot v' = tboot v \<and> tinfo v' = tinfo v \<and> tstatus v' = tstatus v"
    using assms(1) unfolding main_request_def Let_def s0_def [symmetric]
    by (auto simp: bind_eq_Some_conv split: if_splits dest: init [OF c0] speed init [OF speed])
  then show ?thesis using node_step_calm [OF _ assms(2)] by blast
qed

lemma main_regular_step:
  assumes "main_regular C v s = Some (go, v', s')" and "boot_inv C (tboot v) s"
  shows "node_step C v s v' s'"
proof -
  have f: "few_timers s" using assms(2) by (simp add: boot_inv_def)
  obtain rv speed node s1 where a: "autobaud_and_get_dynamic_node_id C (tboot v) (bus_speed (bl_env s)) (OPT_PREFERRED_NODE_ID C) s
      = Some ((rv, speed, node), s1)"
    using assms(1) by (auto simp: main_regular_def bind_eq_Some_conv)
  let ?s2 = "upd_env (\<lambda>e. e\<lparr>bus_speed := speed\<rparr>) s1"
  let ?s3 = "upd_env (\<lambda>e. e\<lparr>uptime := 0\<rparr>) ?s2"
  have c: "calm s ?s2" "calm s ?s3"
    by (intro calm_trans [OF autobaud_and_get_result [OF a f]] calm_env calm_trans [OF calm_env calm_env]; simp add: app_core_def)+
  have n: "node_step C v s w ?s2" "node_step C v s w ?s3" if "tboot w = tboot v" "tinfo w = tinfo v" "tstatus w = tstatus v" for w
    using node_step_calm [OF c(1) assms(2) that] node_step_calm [OF c(2) assms(2) that] by simp_all
  have st: "node_step C v s w (timer_start (tboot v) ?s3)"
    if "tboot w = tboot v" "tinfo w = tinfo v" "tstatus w = tstatus v" "app_valid (bl_env ?s3)" for w
    using n(2) [OF that(1-3)] boot_inv_start [of C "tboot v" ?s3 "tboot v"] that
    by (simp add: node_step_def same_below_def node_mem_def timer_start_def)
  show ?thesis using assms(1) a n st by (auto simp: main_regular_def Let_def split: if_splits)
qed

lemma wait_expired_calm: "wait_expired C t s = Some s' \<Longrightarrow> few_timers s \<Longrightarrow> calm s s'"
proof (induction rule: wait_expired.raw_induct [rotated, consumes 1, case_names body])
  case (body loop C t s s')
  show ?case
  proof (cases "timer_expired t s")
    case True
    then show ?thesis using body.hyps by (auto simp: calm_refl)
  next
    case False
    then obtain s1 where i: "interrupts C s = Some s1" "loop C t s1 = Some s'" using body.hyps by (auto simp: bind_eq_Some_conv)
    have c: "calm s s1" by (rule interrupts_calm [OF i(1) body.prems])
    show ?thesis using body.IH [OF i(2)] body.prems calm_length [OF c] calm_trans [OF c] by auto
  qed
qed

lemma failure_result:
  assumes "failure C stage s = Some (r, s')" and "few_timers s"
  shows "r = SystemReset" "same_below C s s'" "node_mem C s' = node_mem C s"
proof -
  let ?s = "upd_env (\<lambda>e. e\<lparr>health := 3\<rparr>) (uavcan_tx_log_message (drv C) 3 stage 0x66 s)"
  have c: "calm s ?s" by (rule calm_trans [OF calm_log calm_env]) (simp add: app_core_def)
  obtain t s1 where t: "timer_allocate (modeTimeout OR modeStarted) (OPT_RESTART_TIMEOUT_MS C) None ?s = (t, s1)" by fastforce
  obtain s2 where w: "wait_expired C t s1 = Some s2" and r: "r = SystemReset" "s' = timer_free t s2"
    using assms(1) by (auto simp: failure_def t Let_def bind_eq_Some_conv)
  have f: "few_timers ?s" using calm_length [OF c] assms(2) by simp
  then have f1: "few_timers s1" using calm_length [OF allocate_calm(1) [OF t f]] by simp
  have "calm s s'" unfolding r(2) by (rule calm_trans [OF c free_after [OF t f wait_expired_calm [OF w f1]]])
  then show "r = SystemReset" "same_below C s s'" "node_mem C s' = node_mem C s"
    using r(1) calm_below calm_mem by blast+
qed

lemma boot_result:
  assumes "boot_app C stage com s = Some (r, s')" and "few_timers s"
  shows "same_below C s s'"
    "r = Jump sp pc \<Longrightarrow> sp = fw_image C 0 s' \<and> pc = fw_image C 1 s' \<and> sp \<noteq> 0xffffffff \<and> APPLICATION_LOAD_ADDRESS C < unat pc \<and>
       image_ok C s' = image_ok C s \<and> g_this_node_id (bl_env s') = g_this_node_id (bl_env s) \<and> timers s' = timers s"
  using assms failure_result [OF _ assms(2)]
  by (auto simp: boot_app_def application_run_def same_below_def image_ok_def fw_image_def node_mem_def split: if_splits)

definition start_ok :: "('w, 'd) can_board \<Rightarrow> ('w, 'd) node \<Rightarrow> can_outcome \<Rightarrow> ('w, 'd) node \<Rightarrow> bool" where
  "start_ok C s r s' \<longleftrightarrow> (\<forall>sp pc. r = Jump sp pc \<longrightarrow>
     sp = fw_image C 0 s' \<and> pc = fw_image C 1 s' \<and> sp \<noteq> 0xffffffff \<and> APPLICATION_LOAD_ADDRESS C < unat pc \<and>
     (image_ok C s' \<or> g_this_node_id (bl_env s') = ANY_NODE_ID \<and> \<not> timer_expired (tboot (fst (main_setup C s))) s'))"

lemma can_main_result:
  assumes "can_board_ok C" and "timers s = replicate n zero_timer" and "4 \<le> n" and "n \<le> 255" and "can_main C s = Some (r, s')"
  shows "same_below C s s' \<and> start_ok C s r s'"
proof -
  obtain v0 s0 where m: "main_setup C s = (v0, s0)" by fastforce
  note m0 = main_setup_result [OF assms(2-4) m]
  obtain go v s1 where n: "(if app_bl_request (bl_env s0) then main_request C v0 s0 else main_regular C v0 s0) = Some (go, v, s1)"
    using assms(5) by (auto simp: can_main_def m bind_eq_Some_conv)
  have ns: "node_step C v0 s0 v s1" using n main_request_step [OF _ m0(1)] main_regular_step [OF _ m0(1)] by (auto split: if_splits)
  then have b1: "same_below C s s1" "boot_inv C (tboot v0) s1" "g_this_node_id (bl_env s1) = ANY_NODE_ID"
    and v: "tboot v = tboot v0" "tinfo v = tinfo v0" "tstatus v = tstatus v0"
    using same_below_trans [OF m0(4)] m0(5) by (auto simp: node_step_def)
  have few: "few_timers t" if "boot_inv C (tboot v0) t" for t using that by (simp add: boot_inv_def)
  have boot: "same_below C s s' \<and> start_ok C s r s'"
    if "boot_app C stage com t = Some (r, s')" "few_timers t" "same_below C s t" "image_ok C t" for stage com t
    using boot_result [OF that(1,2)] same_below_trans [OF that(3)] that(4) by (auto simp: start_ok_def)
  show ?thesis
  proof (cases go)
    case False
    then have "boot_app C LOGMESSAGE_STAGE_INIT (common_valid v, common v) s1 = Some (r, s')" using assms(5) m n by (auto simp: can_main_def)
    note b = boot_result [OF this few [OF b1(2)]]
    have "image_ok C s1 \<or> \<not> timer_expired (tboot v0) s1" using boot_inv_expired [OF b1(2)] by blast
    then show ?thesis using b same_below_trans [OF b1(1)] b1(3) m by (auto simp: start_ok_def timer_expired_def)
  next
    case True
    let ?s2 = "timer_start (tstatus v) (timer_start (tinfo v) (upd_env (\<lambda>e. e\<lparr>g_this_node_id := ucast (sh_node_id (common v))\<rparr>) s1))"
    have i2: "boot_inv C (tboot v0) ?s2" using m0(2,3) v by (intro boot_inv_start boot_inv_upd b1(2)) auto
    have b2: "same_below C s ?s2" using b1(1) by (simp add: same_below_def node_mem_def timer_start_def)
    obtain seen s3 where w3: "wait_info C (tboot v) ?s2 = Some (seen, s3)"
      using assms(5) m n True by (auto simp: can_main_def bind_eq_Some_conv)
    note c3 = wait_info_calm [OF w3 few [OF i2], simplified]
    have i3: "boot_inv C (tboot v0) s3" "same_below C s s3"
      using boot_inv_calm [OF i2] same_below_trans [OF b2 calm_below] c3 by blast+
    show ?thesis
    proof (cases seen)
      case False
      then have "boot_app C LOGMESSAGE_STAGE_INIT (common_valid v, common v) s3 = Some (r, s')" using assms(5) m n True w3 by (auto simp: can_main_def)
      then show ?thesis using boot few i3 boot_inv_expired [OF i3(1)] c3 False v by simp
    next
      case seen: True
      define s4 where "s4 = (if app_valid (bl_env s3) \<and> (wait_for_getnodeinfo (bl_env s3) \<or> app_bl_request (bl_env s3)) then timer_start (tboot v) s3 else s3)"
      have i4: "boot_inv C (tboot v0) s4" using boot_inv_start [OF i3(1)] i3(1) by (auto simp: s4_def)
      have b4: "same_below C s s4" using i3(2) by (simp add: s4_def same_below_def node_mem_def timer_start_def)
      obtain path s5 where w5: "wait_path C (tboot v) s4 = Some (path, s5)"
        using assms(5) m n True w3 seen by (auto simp: can_main_def bind_eq_Some_conv s4_def Let_def)
      note c5 = wait_path_calm [OF w5 few [OF i4], simplified]
      have i5: "boot_inv C (tboot v0) s5" "same_below C s s5"
        using boot_inv_calm [OF i4] same_below_trans [OF b4 calm_below] c5 by blast+
      have tail: "(case path of None \<Rightarrow> boot_app C LOGMESSAGE_STAGE_INIT (common_valid v, common v) s5
          | Some (fw_path, fw_path_length) \<Rightarrow> do {
              (stage, s) \<leftarrow> main_update C (tboot v) fw_path fw_path_length s5;
              case stage of None \<Rightarrow> boot_app C LOGMESSAGE_STAGE_INIT (common_valid v, common v) s | Some stage \<Rightarrow> failure C stage s }) = Some (r, s')"
        using assms(5) m n True w3 seen w5 by (simp add: can_main_def s4_def Let_def)
      show ?thesis
      proof (cases path)
        case None
        then show ?thesis using tail boot [OF _ few [OF i5(1)] i5(2)] boot_inv_expired [OF i5(1)] c5 v by simp
      next
        case (Some fw)
        then obtain stage s6 where u: "main_update C (tboot v) (fst fw) (snd fw) s5 = Some (stage, s6)"
          using tail by (auto simp: bind_eq_Some_conv split: prod.splits)
        note r6 = main_update_result [OF assms(1) few [OF i5(1)] u]
        have b6: "same_below C s s6" by (rule same_below_trans [OF i5(2) r6(1)])
        have f6: "few_timers s6" using r6(1) few [OF i5(1)] by (simp add: same_below_def)
        show ?thesis
        proof (cases stage)
          case None
          then have "boot_app C LOGMESSAGE_STAGE_INIT (common_valid v, common v) s6 = Some (r, s')" using tail Some u by (simp add: split_beta)
          then show ?thesis using boot f6 b6 r6(2) None by blast
        next
          case stage: (Some st)
          then have "failure C st s6 = Some (r, s')" using tail Some u by (simp add: split_beta)
          note f = failure_result [OF this f6]
          then show ?thesis using same_below_trans [OF b6] by (simp add: start_ok_def)
        qed
      qed
    qed
  qed
qed

section \<open>An example\<close>

text \<open>A board without a bus: two pages of flash, the second with a small application, and a tick that is longer than every wait.\<close>

definition demo_regs :: "unit can_regs" where
  "demo_regs = \<lparr>getreg32 = (\<lambda>r w. (if r = NVIC_SYSTICK_CTRL then NVIC_SYSTICK_CTRL_COUNTFLAG else 0, w)), putreg32 = (\<lambda>v r w. w), STM32_PCLK1_FREQUENCY = 42000000, CONFIG_USEC_PER_TICK = 10000,
     TIMER_HRT_CYCLES_PER_US = 168\<rparr>"

definition demo_can :: "(unit, nat \<Rightarrow> u8) can_board" where
  "demo_can = \<lparr>dev = ram_f4 [32, 64], elapse = (\<lambda>w. (1, w)), ms_elapsed = 1000, regs = demo_regs,
     hw_version = replicate 19 0, unique_id = replicate 16 7, certificate_length = 0, product_name = [0x61], uninit = 0,
     APPLICATION_LOAD_ADDRESS = 0x08000020, APPLICATION_SIZE = 64, APPLICATION_LAST_8BIT_ADDRRESS = 0x0800005f,
     APPLICATION_LAST_64BIT_ADDRRESS = 0x08000058, OPT_APPLICATION_IMAGE_LENGTH = 64, OPT_WAIT_FOR_GETNODEINFO = False,
     OPT_NODE_INFO_RATE_MS = 50, OPT_NODE_STATUS_RATE_MS = 800, OPT_TBOOT_MS = 1000, OPT_RESTART_TIMEOUT_MS = 1000,
     OPT_PREFERRED_NODE_ID = 0, OPT_USE_YIELD = False\<rparr>"

definition demo_head :: "u8 list" where
  "demo_head = bytes_of_u32 0x08000031 @ APP_DESCRIPTOR_SIGNATURE"

definition demo_app :: "u8 list" where
  "demo_app = bytes_of_u32 0x20001000 @ demo_head
     @ bytes_of_u32 (crc32_signature (crc32_signature 0 4 (bytes_of_u32 0x20001000)) 12 demo_head)
     @ bytes_of_u32 (crc32_signature 0 4 [1, 2, 3, 4]) @ bytes_of_u32 36 @ [0, 0, 0, 0] @ [1, 2, 3, 4]"

definition demo_can_flash :: "nat \<Rightarrow> u8" where
  "demo_can_flash x = (if 0x08000020 \<le> x \<and> x < 0x08000020 + length demo_app then demo_app ! (x - 0x08000020) else 0xff)"

definition demo_power_up :: "(unit, nat \<Rightarrow> u8) node" where
  "demo_power_up = \<lparr>sys_tic = 0, timers = replicate 6 zero_timer,
     bl_env = \<lparr>g_uavcan_priority = 0, g_this_node_id = 0, g_server_node_id = 0, log_transfer_id = 0, allocation_transfer_id = 0, can = (),
       bus_speed = 0, health = 0, mode = 0, sub_mode = 0, app_valid = False, uptime = 0, fw_image_descriptor = 0,
       wait_for_getnodeinfo = False, app_bl_request = False, sent_node_info_response = False, percentage_done = 0, fw_word0 = 0,
       rseed = 0, status_transfer_id = 0, flash = demo_can_flash, shared_mem = \<lparr>signature_LOC = 0, bus_speed_LOC = 0, node_id_LOC = 0, crc_LoLOC = 0, crc_HiLOC = 0\<rparr>, hung = False\<rparr>\<rparr>"

lemma demo_fields [simp]: "dev demo_can = ram_f4 [32, 64]" "elapse demo_can = (\<lambda>w. (1, w))" "ms_elapsed demo_can = 1000"
  "regs demo_can = demo_regs" "APPLICATION_LOAD_ADDRESS demo_can = 0x08000020" "APPLICATION_SIZE demo_can = 64"
  "APPLICATION_LAST_8BIT_ADDRRESS demo_can = 0x0800005f" "APPLICATION_LAST_64BIT_ADDRRESS demo_can = 0x08000058"
  "OPT_WAIT_FOR_GETNODEINFO demo_can = False" "OPT_NODE_INFO_RATE_MS demo_can = 50" "OPT_NODE_STATUS_RATE_MS demo_can = 800"
  "OPT_TBOOT_MS demo_can = 1000" "uninit demo_can = 0" "OPT_PREFERRED_NODE_ID demo_can = 0"
  by (simp_all add: demo_can_def)

lemma demo_board: "can_board_ok demo_can"
  by (simp add: can_board_ok_def ram_f4_ok STM32_FLASH_BASE_def)

lemma demo_mem: "flash (bl_env s) = demo_can_flash \<Longrightarrow> node_mem demo_can s = demo_can_flash"
  by (simp add: node_mem_def ram_f4_def)

lemma demo_holds: "holds demo_can_flash 0x08000020 demo_app"
  by (simp add: holds_nth demo_can_flash_def)

lemma demo_parts:
  "holds demo_can_flash 0x08000020 (bytes_of_u32 0x20001000)" "holds demo_can_flash 0x08000024 demo_head"
  "holds demo_can_flash 0x08000030 (bytes_of_u32 (crc32_signature (crc32_signature 0 4 (bytes_of_u32 0x20001000)) 12 demo_head))"
  "holds demo_can_flash 0x08000034 (bytes_of_u32 (crc32_signature 0 4 [1, 2, 3, 4]))"
  "holds demo_can_flash 0x08000038 (bytes_of_u32 36)" "holds demo_can_flash 0x08000040 [1, 2, 3, 4]"
proof -
  have "length demo_head = 12" by (simp add: demo_head_def APP_DESCRIPTOR_SIGNATURE_def)
  note p = demo_holds [unfolded demo_app_def, simplified holds_append this, simplified]
  show "holds demo_can_flash 0x08000020 (bytes_of_u32 0x20001000)" "holds demo_can_flash 0x08000024 demo_head"
    "holds demo_can_flash 0x08000030 (bytes_of_u32 (crc32_signature (crc32_signature 0 4 (bytes_of_u32 0x20001000)) 12 demo_head))"
    "holds demo_can_flash 0x08000034 (bytes_of_u32 (crc32_signature 0 4 [1, 2, 3, 4]))"
    "holds demo_can_flash 0x08000038 (bytes_of_u32 36)" "holds demo_can_flash 0x08000040 [1, 2, 3, 4]"
    using p by simp_all
qed

lemma demo_words: "w32 demo_can_flash 0x08000020 = 0x20001000" "w32 demo_can_flash 0x08000024 = 0x08000031" "w32 demo_can_flash 0x08000038 = 36"
  using demo_parts demo_parts(2) [unfolded demo_head_def holds_append] by (auto intro: w32_holds)

lemma signature_length: "length APP_DESCRIPTOR_SIGNATURE = 8"
  by (simp add: APP_DESCRIPTOR_SIGNATURE_def)

lemma demo_signature: "find_signature demo_can_flash 0x08000058 0x08000020 = 0x08000028"
proof -
  have "demo_can_flash 0x08000020 = 0" by (simp add: demo_can_flash_def demo_app_def bytes_of_u32_def)
  then have "mem_list demo_can_flash 0x08000020 8 \<noteq> APP_DESCRIPTOR_SIGNATURE"
    by (simp add: mem_list_def APP_DESCRIPTOR_SIGNATURE_def upt_conv_Cons)
  moreover have "mem_list demo_can_flash 0x08000028 8 = APP_DESCRIPTOR_SIGNATURE"
    using mem_list_holds [of demo_can_flash "0x08000028" APP_DESCRIPTOR_SIGNATURE, unfolded signature_length]
      demo_parts(2) [unfolded demo_head_def holds_append] by simp
  ultimately show ?thesis by (simp add: find_signature.simps [of demo_can_flash _ "0x08000020"] find_signature.simps [of demo_can_flash _ "0x08000028"])
qed

lemma demo_image: "image_valid 0x08000020 64 demo_can_flash 0x08000028 0x20001000"
proof -
  have four: "length [1, 2, 3, 4 :: u8] = 4" by simp
  have h: "mem_list demo_can_flash 0x08000024 12 = demo_head" "mem_list demo_can_flash 0x08000040 4 = [1, 2, 3, 4]"
    using mem_list_holds [OF demo_parts(2)] mem_list_holds [OF demo_parts(6), unfolded four] by (simp_all add: demo_head_def signature_length)
  have c: "w32 demo_can_flash 0x08000030 = crc32_signature (crc32_signature 0 4 (bytes_of_u32 0x20001000)) 12 demo_head"
    "w32 demo_can_flash 0x08000034 = crc32_signature 0 4 [1, 2, 3, 4]"
    using demo_parts by (auto intro: w32_holds)
  show ?thesis using h c demo_words by (simp add: image_valid_def desc_image_size_def desc_crc32_block1_def desc_crc32_block2_def Let_def)
qed

lemma six: "replicate 6 x = [x, x, x, x, x, x]"
  by (simp add: numeral_eq_Suc)

definition demo_vars :: can_vars where
  "demo_vars = \<lparr>tinfo = 4, tstatus = 3, tboot = 2, common = bootloader_app_shared_init Invalid, common_valid = False\<rparr>"

text \<open>The state after \<open>ticks\<close> ticks, with the count that is left of the boot timer.\<close>

definition demo_state :: "u32 \<Rightarrow> u32 \<Rightarrow> (unit, nat \<Rightarrow> u8) node" where
  "demo_state ticks left = \<lparr>sys_tic = ticks,
     timers = [zero_timer, zero_timer,
       \<lparr>tm_cb = None, tm_context = 0, tm_count = left, tm_reload = 1000, tm_ctl = 195\<rparr>,
       \<lparr>tm_cb = Some node_status_cb, tm_context = 0, tm_count = 800, tm_reload = 800, tm_ctl = 130\<rparr>,
       \<lparr>tm_cb = Some node_info_cb, tm_context = 0, tm_count = 50, tm_reload = 50, tm_ctl = 130\<rparr>,
       \<lparr>tm_cb = Some uptime_cb, tm_context = 0, tm_count = 1000, tm_reload = 1000, tm_ctl = 194\<rparr>],
     bl_env = (bl_env demo_power_up)\<lparr>mode := 1, app_valid := True, fw_image_descriptor := 134217768, uptime := ticks,
       shared_mem := bootloader_app_shared_invalidate (shared_mem (bl_env demo_power_up))\<rparr>\<rparr>"

lemma demo_setup: "main_setup demo_can demo_power_up = (demo_vars, demo_state 0 1000)"
  unfolding main_setup_def
  by (simp add: main_init_def is_app_valid_def find_descriptor_def Let_def demo_mem demo_power_up_def upd_env_def fw_image_def demo_words demo_signature demo_image)
    (simp add: timer_allocate_def six zero_timer_def put_timer_def timer_start_def bootloader_app_shared_read_def shared_read_def Let_def
      BOOTLOADER_COMMON_APP_SIGNATURE_def timer_flags set_flag_def modeStarted_def demo_vars_def demo_state_def demo_power_up_def)

definition demo_wait :: "u32 \<Rightarrow> u32 \<Rightarrow> u32 \<Rightarrow> (unit, nat \<Rightarrow> u8) node" where
  "demo_wait ticks left ab = put_timer 1 (\<lambda>_. \<lparr>tm_cb = None, tm_context = 0, tm_count = ab, tm_reload = 200, tm_ctl = 195\<rparr>) (demo_state ticks left)"

lemma demo_tick: "interrupts demo_can (demo_wait 0 1000 200) = Some (demo_wait 1 0 0)"
proof -
  have "nxsched_process_timer (run_cb demo_can) 1000 (demo_wait 0 1000 200) = demo_wait 1 0 0"
    by (simp add: demo_wait_def demo_state_def put_timer_def nxsched_process_timer_def process_timer_def Let_def call_user_def timer_flags
       uptime_process_def demo_power_up_def upd_env_def upt_conv_Cons zero_timer_def)
  moreover have "with_can (elapse demo_can) (demo_wait 0 1000 200) = (1, demo_wait 0 1000 200)" by (simp add: with_can_def upd_env_def)
  moreover have "\<not> hung (bl_env (demo_wait 1 0 0))" by (simp add: demo_wait_def demo_state_def demo_power_up_def)
  ultimately show ?thesis by (simp add: interrupts_def)
qed

lemma demo_bits: "\<exists>x. read_bits_times demo_regs (interrupts demo_can) (replicate 128 0) (demo_state 0 1000) = Some ((1, x), demo_state 1 0)"
proof -
  have a: "timer_allocate (modeTimeout OR modeStarted) CAN_BAUD_TIME_IN_MS None (demo_state 0 1000) = (1, demo_wait 0 1000 200)"
    by (simp add: timer_allocate_def demo_state_def demo_wait_def zero_timer_def timer_flags modeStarted_def)
  have m: "with_can (read_msr demo_regs) s = ((0, 0), s)" for s :: "(unit, nat \<Rightarrow> u8) node"
    by (simp add: with_can_def read_msr_def timer_hrt_read_def demo_regs_def upd_env_def)
  have x: "timer_ref_expired 1 (demo_wait t l ab) \<longleftrightarrow> ab = 0" for t l ab
    by (simp add: timer_ref_expired_def demo_wait_def demo_state_def)
  have e: "edge_loop demo_regs (interrupts demo_can) 1 0 (demo_wait 0 1000 200) = Some ((0, 0), demo_wait 1 0 0)"
    by (subst edge_loop.simps) (simp add: demo_tick m x del: One_nat_def)
  have b1: "bits_loop demo_regs (interrupts demo_can) 1 0 1 ts (demo_wait 1 0 0) = Some ((1, ts), demo_wait 1 0 0)" for ts
    by (subst bits_loop.simps) (simp add: x del: One_nat_def)
  have "bits_loop demo_regs (interrupts demo_can) 1 0 0 ts (demo_wait 0 1000 200) = Some ((1, ts[0 := 0]), demo_wait 1 0 0)" if "0 < length ts" for ts
    using that b1 e by (subst bits_loop.simps) (simp add: x del: One_nat_def)
  moreover have "timer_free 1 (demo_wait 1 0 0) = demo_state 1 0"
    by (simp add: timer_free_def put_timer_def demo_wait_def demo_state_def)
  ultimately show ?thesis by (simp add: read_bits_times_def a m timer_ref_def del: One_nat_def)
qed

lemma demo_run: "can_main demo_can demo_power_up = Some (Jump 0x20001000 0x08000031, demo_state 1 0)"
proof -
  obtain x where b: "read_bits_times demo_regs (interrupts demo_can) (replicate 128 0) (demo_state 0 1000) = Some ((1, x), demo_state 1 0)"
    using demo_bits by blast
  have "timer_expired 2 (demo_state 1 0)" by (simp add: timer_expired_def demo_state_def has_flag_def timer_flags)
  then have "can_autobaud demo_regs (interrupts demo_can) 0 2 (demo_state 0 1000) = Some ((CAN_BOOT_TIMEOUT, CAN_UNKNOWN), demo_state 1 0)"
    unfolding can_autobaud_def by (subst autobaud_loop.simps) (simp add: b)
  moreover have "upd_env (\<lambda>e. e\<lparr>bus_speed := 0\<rparr>) (demo_state 1 0) = demo_state 1 0"
    by (simp add: upd_env_def demo_state_def demo_power_up_def)
  ultimately have r: "main_regular demo_can demo_vars (demo_state 0 1000) = Some (False, demo_vars\<lparr>common := (common demo_vars)\<lparr>sh_node_id := 0\<rparr>\<rparr>, demo_state 1 0)"
    by (simp add: main_regular_def autobaud_and_get_dynamic_node_id_def demo_vars_def can_errors can_speeds Let_def)
  have "flash (bl_env (demo_state 1 0)) = demo_can_flash" "fw_image_descriptor (bl_env (demo_state 1 0)) = 0x08000028"
    by (simp_all add: demo_state_def demo_power_up_def)
  then have "boot_app demo_can LOGMESSAGE_STAGE_INIT (False, com) (demo_state 1 0) = Some (Jump 0x20001000 0x08000031, demo_state 1 0)" for com
    by (simp add: boot_app_def application_run_def fw_image_def demo_mem demo_words desc_image_size_def)
  moreover have "\<not> app_bl_request (bl_env (demo_state 0 1000))" by (simp add: demo_state_def demo_power_up_def)
  moreover have "\<not> common_valid demo_vars" by (simp add: demo_vars_def)
  ultimately show ?thesis by (simp add: can_main_def demo_setup r)
qed

lemma demo_tx_wait: "cnt \<noteq> 0 \<Longrightarrow> tx_wait demo_regs msk cnt w = Some (False, w)"
proof (induction "unat cnt" arbitrary: cnt)
  case 0
  then show ?case by (simp add: unat_eq_0)
next
  case (Suc n)
  have step: "tx_wait demo_regs msk cnt w = (if cnt - 1 = 0 then Some (False, w) else tx_wait demo_regs msk (cnt - 1) w)"
    by (subst tx_wait.simps) (simp add: demo_regs_def timer_hrt_wrap_def timer_hrt_clear_wrap_def timer_hrt_read_def NVIC_SYSTICK_CTRL_COUNTFLAG_def Let_def)
  have "n = unat (cnt - 1)" using Suc(2,3) by (simp add: unat_minus_one)
  then show ?case using Suc(1) step by auto
qed

lemma silent_tx: "uavcan_tx (drv demo_can) p d mb s = (CAN_ERROR, s)"
proof -
  have "CAN_TX_TIMEOUT_MS demo_regs = 20" by (simp add: CAN_TX_TIMEOUT_MS_def demo_regs_def)
  moreover have "timer_hrt_clear_wrap demo_regs w = w" for w by (simp add: timer_hrt_clear_wrap_def timer_hrt_read_def demo_regs_def)
  ultimately show ?thesis
    by (simp add: uavcan_tx_def with_can_def drv_def driver_of_def stm32_can_tx_def demo_tx_wait upd_env_def Let_def)
qed

lemma silent_tx_dsdl: "\<exists>p'. uavcan_tx_dsdl (drv demo_can) dsdl p [b] s = (CAN_ERROR, p', s)"
  by (simp add: uavcan_tx_dsdl_def Let_def silent_tx tail_eot_def set_eot_def put_field_def bit_simps CAN_ERROR_def UavcanOk_def split: prod.split)

lemma silent_getinfo: "getinfo_loop demo_can [b] k p r s = Some (0, s)"
proof (induction k arbitrary: p)
  case (Suc k)
  obtain p' where "uavcan_tx_dsdl (drv demo_can) DSDLReqGetInfo (set_source_node_id (g_server_node_id (bl_env s)) p) [b] s = (CAN_ERROR, p', s)"
    using silent_tx_dsdl by blast
  then show ?case using Suc by (simp add: Let_def CAN_ERROR_def UavcanOk_def)
qed simp

lemma demo_update: "main_update demo_can 2 [0x61] 1 (demo_state 0 1000) =
    Some (Some LOGMESSAGE_STAGE_GET_INFO, upd_env (\<lambda>e. e\<lparr>mode := 3\<rparr>) (timer_stop 2 (demo_state 0 1000)))"
  by (simp add: main_update_def file_getinfo_def silent_getinfo)

section \<open>Properties\<close>







lemma matched_take:
  "unique_id_matched mine theirs k = k \<Longrightarrow> take k mine = take k theirs \<or> length (zip mine theirs) < k"
proof (induction mine theirs arbitrary: k rule: list_induct2')
  case (4 x xs y ys)
  then show ?case by (cases k) (auto simp: unique_id_matched_def split: if_splits)
qed (auto simp: unique_id_matched_def)

text \<open>
  A node id is taken only from a message that carries the whole unique id of the node, all sixteen bytes, and it is the node
  id of that message.
\<close>

theorem node_id_needs_whole_id:
  "case alloc_receive C random trequest a s of
     Some (AllocDone, a', s') \<Rightarrow> take 16 (drop 1 (al_msg a')) = take 16 (unique_id C) \<and> al_id a' = ucast (get_field 1 7 (al_msg a' ! 0))
   | _ \<Rightarrow> True"
proof -
  have "take 16 (drop 1 (al_msg a')) = take 16 (unique_id C) \<and> al_id a' = ucast (get_field 1 7 (al_msg a' ! 0))"
    if fin: "alloc_receive C random trequest a s = Some (AllocDone, a', s')" for a' s'
  proof -
    obtain rv p msg n s1 where r: "uavcan_rx_dsdl (drv C) (interrupts C) DSDLMsgAllocation (set_source_node_id (al_server a) (al_p a)) (al_msg a) 17 50 s
        = Some ((rv, p, msg, n), s1)" using fin by (auto simp: alloc_receive_def bind_eq_Some_conv)
    have m: "al_msg a' = msg" "al_id a' = ucast (get_field 1 7 (msg ! 0))"
        "unique_id_matched (unique_id C) (drop 1 msg) (min 16 (unat (n - 1))) = 16"
      using fin unfolding alloc_receive_def r
      by (auto simp: bind_eq_Some_conv Let_def split: if_splits prod.splits)
    have "length (take (min 16 (unat (n - 1))) (zip (unique_id C) (drop 1 msg))) \<ge> 16"
      using m(3) by (metis unique_id_matched_def length_takeWhile_le)
    then show ?thesis using matched_take [of "unique_id C" "drop 1 msg" 16] m by auto
  qed
  then show ?thesis by (auto split: option.split alloc_next.split prod.split)
qed

lemma util_random_bounds: "util_random lo hi s = (r, s') \<Longrightarrow> lo < hi \<Longrightarrow> lo \<le> r \<and> r < hi"
  using mod_less_divisor [of "hi - lo"] by (auto simp: util_random_def Let_def less_diff_conv)

text \<open>
  The interval between two allocation requests is random but bounded: from 600 up to, not including, 1400 milliseconds.
\<close>

theorem request_interval:
  assumes "unat t < length (timers s)"
  shows "600 \<le> unat (tm_count (timers (restart_request t s) ! unat t)) \<and> unat (tm_count (timers (restart_request t s) ! unat t)) < 1400"
proof -
  obtain ms s1 where r: "util_random MIN_REQUEST_PERIOD_MS MAX_REQUEST_PERIOD_MS s = (ms, s1)" by fastforce
  have ms: "600 \<le> ms \<and> ms < 1400" using util_random_bounds [OF r] by simp
  have "timers s1 = timers s" using r by (auto simp: util_random_def Let_def)
  then have "tm_count (timers (restart_request t s) ! unat t) = word_of_nat ms" using assms by (simp add: restart_request_def r timer_restart_def)
  moreover have "unat (word_of_nat ms :: u32) = ms" using ms by (simp add: unat_of_nat take_bit_nat_eq_self)
  ultimately show ?thesis using ms by simp
qed

theorem request_interval_witness:
  "unat (tm_count (timers (restart_request 2 (demo_state 0 1000)) ! 2)) < 1400"
  using request_interval [of 2 "demo_state 0 1000"] by (simp add: demo_state_def)

lemma bits_bounds:
  "bits_loop H isr ref m n ts s = Some y \<Longrightarrow> n \<le> length ts \<Longrightarrow> fst (fst y) \<le> length ts \<and> length (snd (fst y)) = length ts"
proof (induction rule: bits_loop.raw_induct [rotated, consumes 1, case_names body])
  case (body loop H isr ref m n ts s y)
  show ?case
  proof (cases "n < length ts \<and> \<not> timer_ref_expired ref s")
    case True
    then obtain msr now s1 where "loop H isr ref msr (n + 1) (ts[n := now]) s1 = Some y"
      using body.hyps by (auto simp: bind_eq_Some_conv)
    then show ?thesis using body.IH True by fastforce
  next
    case False
    then show ?thesis using body.hyps body.prems by auto
  qed
qed



end
