(* ===== verification/Px4io_State.thy ===== *)
theory Px4io_State
  imports Px4_Prelude
begin

text \<open>
  The state of the PX4IO coprocessor (\<open>src/modules/px4iofirmware\<close>): the register pages of
  \<open>registers.c\<close>, the system state of \<open>px4io.c\<close>, the mixer hand-over flags of \<open>mixer.cpp\<close> and
  the log of what the firmware does to its pins and to the libraries below it.  The register
  numbers and flags are those of \<open>protocol.h\<close> and \<open>px4io.h\<close>.  A page is a list of its length in
  the source, so a write out of a page would show as a write that has no effect; that no
  operation makes one is the well-formedness part of the theories that follow.
\<close>

declare One_nat_def [simp del]

section \<open>Constants of the protocol\<close>

abbreviation PX4IO_SERVO_COUNT :: nat where "PX4IO_SERVO_COUNT \<equiv> 8"
abbreviation PX4IO_CONTROL_CHANNELS :: nat where "PX4IO_CONTROL_CHANNELS \<equiv> 8"
abbreviation PX4IO_CONTROL_GROUPS :: nat where "PX4IO_CONTROL_GROUPS \<equiv> 4"
abbreviation PX4IO_RC_INPUT_CHANNELS :: nat where "PX4IO_RC_INPUT_CHANNELS \<equiv> 18"
abbreviation PX4IO_RC_MAPPED_CONTROL_CHANNELS :: nat where "PX4IO_RC_MAPPED_CONTROL_CHANNELS \<equiv> 8"

abbreviation PX4IO_PAGE_CONFIG :: u8 where "PX4IO_PAGE_CONFIG \<equiv> 0"
abbreviation PX4IO_PAGE_STATUS :: u8 where "PX4IO_PAGE_STATUS \<equiv> 1"
abbreviation PX4IO_PAGE_ACTUATORS :: u8 where "PX4IO_PAGE_ACTUATORS \<equiv> 2"
abbreviation PX4IO_PAGE_SERVOS :: u8 where "PX4IO_PAGE_SERVOS \<equiv> 3"
abbreviation PX4IO_PAGE_RAW_RC_INPUT :: u8 where "PX4IO_PAGE_RAW_RC_INPUT \<equiv> 4"
abbreviation PX4IO_PAGE_RC_INPUT :: u8 where "PX4IO_PAGE_RC_INPUT \<equiv> 5"
abbreviation PX4IO_PAGE_RAW_ADC_INPUT :: u8 where "PX4IO_PAGE_RAW_ADC_INPUT \<equiv> 6"
abbreviation PX4IO_PAGE_PWM_INFO :: u8 where "PX4IO_PAGE_PWM_INFO \<equiv> 7"
abbreviation PX4IO_PAGE_SETUP :: u8 where "PX4IO_PAGE_SETUP \<equiv> 50"
abbreviation PX4IO_PAGE_CONTROLS :: u8 where "PX4IO_PAGE_CONTROLS \<equiv> 51"
abbreviation PX4IO_PAGE_MIXERLOAD :: u8 where "PX4IO_PAGE_MIXERLOAD \<equiv> 52"
abbreviation PX4IO_PAGE_RC_CONFIG :: u8 where "PX4IO_PAGE_RC_CONFIG \<equiv> 53"
abbreviation PX4IO_PAGE_DIRECT_PWM :: u8 where "PX4IO_PAGE_DIRECT_PWM \<equiv> 54"
abbreviation PX4IO_PAGE_FAILSAFE_PWM :: u8 where "PX4IO_PAGE_FAILSAFE_PWM \<equiv> 55"
abbreviation PX4IO_PAGE_CONTROL_MIN_PWM :: u8 where "PX4IO_PAGE_CONTROL_MIN_PWM \<equiv> 106"
abbreviation PX4IO_PAGE_CONTROL_MAX_PWM :: u8 where "PX4IO_PAGE_CONTROL_MAX_PWM \<equiv> 107"
abbreviation PX4IO_PAGE_CONTROL_TRIM_PWM :: u8 where "PX4IO_PAGE_CONTROL_TRIM_PWM \<equiv> 108"
abbreviation PX4IO_PAGE_DISARMED_PWM :: u8 where "PX4IO_PAGE_DISARMED_PWM \<equiv> 109"
abbreviation PX4IO_PAGE_TEST :: u8 where "PX4IO_PAGE_TEST \<equiv> 127"

text \<open>Registers of the status page, then of the setup page, then of a channel configuration.\<close>

abbreviation PX4IO_P_STATUS_FREEMEM :: nat where "PX4IO_P_STATUS_FREEMEM \<equiv> 0"
abbreviation PX4IO_P_STATUS_FLAGS :: nat where "PX4IO_P_STATUS_FLAGS \<equiv> 2"
abbreviation PX4IO_P_STATUS_ALARMS :: nat where "PX4IO_P_STATUS_ALARMS \<equiv> 3"
abbreviation PX4IO_P_STATUS_VSERVO :: nat where "PX4IO_P_STATUS_VSERVO \<equiv> 6"
abbreviation PX4IO_P_STATUS_VRSSI :: nat where "PX4IO_P_STATUS_VRSSI \<equiv> 7"
abbreviation PX4IO_P_STATUS_MIXER :: nat where "PX4IO_P_STATUS_MIXER \<equiv> 9"

abbreviation PX4IO_P_SETUP_FEATURES :: nat where "PX4IO_P_SETUP_FEATURES \<equiv> 0"
abbreviation PX4IO_P_SETUP_ARMING :: nat where "PX4IO_P_SETUP_ARMING \<equiv> 1"
abbreviation PX4IO_P_SETUP_PWM_RATES :: nat where "PX4IO_P_SETUP_PWM_RATES \<equiv> 2"
abbreviation PX4IO_P_SETUP_PWM_DEFAULTRATE :: nat where "PX4IO_P_SETUP_PWM_DEFAULTRATE \<equiv> 3"
abbreviation PX4IO_P_SETUP_PWM_ALTRATE :: nat where "PX4IO_P_SETUP_PWM_ALTRATE \<equiv> 4"
abbreviation PX4IO_P_SETUP_VSERVO_SCALE :: nat where "PX4IO_P_SETUP_VSERVO_SCALE \<equiv> 6"
abbreviation PX4IO_P_SETUP_DSM :: nat where "PX4IO_P_SETUP_DSM \<equiv> 7"
abbreviation PX4IO_P_SETUP_SET_DEBUG :: nat where "PX4IO_P_SETUP_SET_DEBUG \<equiv> 9"
abbreviation PX4IO_P_SETUP_REBOOT_BL :: nat where "PX4IO_P_SETUP_REBOOT_BL \<equiv> 10"
abbreviation PX4IO_P_SETUP_CRC :: nat where "PX4IO_P_SETUP_CRC \<equiv> 11"
abbreviation PX4IO_P_SETUP_FORCE_SAFETY_OFF :: nat where "PX4IO_P_SETUP_FORCE_SAFETY_OFF \<equiv> 12"
abbreviation PX4IO_P_SETUP_RC_THR_FAILSAFE_US :: nat where "PX4IO_P_SETUP_RC_THR_FAILSAFE_US \<equiv> 13"
abbreviation PX4IO_P_SETUP_FORCE_SAFETY_ON :: nat where "PX4IO_P_SETUP_FORCE_SAFETY_ON \<equiv> 14"
abbreviation PX4IO_P_SETUP_PWM_REVERSE :: nat where "PX4IO_P_SETUP_PWM_REVERSE \<equiv> 15"
abbreviation PX4IO_P_SETUP_TRIM_ROLL :: nat where "PX4IO_P_SETUP_TRIM_ROLL \<equiv> 16"
abbreviation PX4IO_P_SETUP_TRIM_PITCH :: nat where "PX4IO_P_SETUP_TRIM_PITCH \<equiv> 17"
abbreviation PX4IO_P_SETUP_TRIM_YAW :: nat where "PX4IO_P_SETUP_TRIM_YAW \<equiv> 18"
abbreviation PX4IO_P_SETUP_SCALE_ROLL :: nat where "PX4IO_P_SETUP_SCALE_ROLL \<equiv> 19"
abbreviation PX4IO_P_SETUP_SCALE_PITCH :: nat where "PX4IO_P_SETUP_SCALE_PITCH \<equiv> 20"
abbreviation PX4IO_P_SETUP_SCALE_YAW :: nat where "PX4IO_P_SETUP_SCALE_YAW \<equiv> 21"
abbreviation PX4IO_P_SETUP_SBUS_RATE :: nat where "PX4IO_P_SETUP_SBUS_RATE \<equiv> 22"
abbreviation PX4IO_P_SETUP_MOTOR_SLEW_MAX :: nat where "PX4IO_P_SETUP_MOTOR_SLEW_MAX \<equiv> 24"
abbreviation PX4IO_P_SETUP_THR_MDL_FAC :: nat where "PX4IO_P_SETUP_THR_MDL_FAC \<equiv> 25"
abbreviation PX4IO_P_SETUP_THERMAL :: nat where "PX4IO_P_SETUP_THERMAL \<equiv> 26"
abbreviation PX4IO_P_SETUP_AIRMODE :: nat where "PX4IO_P_SETUP_AIRMODE \<equiv> 27"
abbreviation PX4IO_P_SETUP_ENABLE_FLIGHTTERMINATION :: nat where
  "PX4IO_P_SETUP_ENABLE_FLIGHTTERMINATION \<equiv> 28"

abbreviation PX4IO_P_RAW_RC_COUNT :: nat where "PX4IO_P_RAW_RC_COUNT \<equiv> 0"
abbreviation PX4IO_P_RAW_RC_FLAGS :: nat where "PX4IO_P_RAW_RC_FLAGS \<equiv> 1"
abbreviation PX4IO_P_RAW_RC_NRSSI :: nat where "PX4IO_P_RAW_RC_NRSSI \<equiv> 2"
abbreviation PX4IO_P_RAW_RC_DATA :: nat where "PX4IO_P_RAW_RC_DATA \<equiv> 3"
abbreviation PX4IO_P_RAW_RC_BASE :: nat where "PX4IO_P_RAW_RC_BASE \<equiv> 6"
abbreviation PX4IO_P_RC_VALID :: nat where "PX4IO_P_RC_VALID \<equiv> 0"
abbreviation PX4IO_P_RC_BASE :: nat where "PX4IO_P_RC_BASE \<equiv> 1"

abbreviation PX4IO_P_RC_CONFIG_MIN :: nat where "PX4IO_P_RC_CONFIG_MIN \<equiv> 0"
abbreviation PX4IO_P_RC_CONFIG_CENTER :: nat where "PX4IO_P_RC_CONFIG_CENTER \<equiv> 1"
abbreviation PX4IO_P_RC_CONFIG_MAX :: nat where "PX4IO_P_RC_CONFIG_MAX \<equiv> 2"
abbreviation PX4IO_P_RC_CONFIG_DEADZONE :: nat where "PX4IO_P_RC_CONFIG_DEADZONE \<equiv> 3"
abbreviation PX4IO_P_RC_CONFIG_ASSIGNMENT :: nat where "PX4IO_P_RC_CONFIG_ASSIGNMENT \<equiv> 4"
abbreviation PX4IO_P_RC_CONFIG_OPTIONS :: nat where "PX4IO_P_RC_CONFIG_OPTIONS \<equiv> 5"
abbreviation PX4IO_P_RC_CONFIG_STRIDE :: nat where "PX4IO_P_RC_CONFIG_STRIDE \<equiv> 6"
abbreviation PX4IO_P_RC_CONFIG_ASSIGNMENT_MODESWITCH :: u16 where
  "PX4IO_P_RC_CONFIG_ASSIGNMENT_MODESWITCH \<equiv> 100"
abbreviation PX4IO_P_RC_CONFIG_OPTIONS_ENABLED :: u16 where "PX4IO_P_RC_CONFIG_OPTIONS_ENABLED \<equiv> 1"
abbreviation PX4IO_P_RC_CONFIG_OPTIONS_REVERSE :: u16 where "PX4IO_P_RC_CONFIG_OPTIONS_REVERSE \<equiv> 2"

text \<open>Flags.\<close>

abbreviation PX4IO_P_STATUS_FLAGS_OUTPUTS_ARMED :: u16 where "PX4IO_P_STATUS_FLAGS_OUTPUTS_ARMED \<equiv> 0x1"
abbreviation PX4IO_P_STATUS_FLAGS_OVERRIDE :: u16 where "PX4IO_P_STATUS_FLAGS_OVERRIDE \<equiv> 0x2"
abbreviation PX4IO_P_STATUS_FLAGS_RC_OK :: u16 where "PX4IO_P_STATUS_FLAGS_RC_OK \<equiv> 0x4"
abbreviation PX4IO_P_STATUS_FLAGS_RC_PPM :: u16 where "PX4IO_P_STATUS_FLAGS_RC_PPM \<equiv> 0x8"
abbreviation PX4IO_P_STATUS_FLAGS_RC_DSM :: u16 where "PX4IO_P_STATUS_FLAGS_RC_DSM \<equiv> 0x10"
abbreviation PX4IO_P_STATUS_FLAGS_RC_SBUS :: u16 where "PX4IO_P_STATUS_FLAGS_RC_SBUS \<equiv> 0x20"
abbreviation PX4IO_P_STATUS_FLAGS_FMU_OK :: u16 where "PX4IO_P_STATUS_FLAGS_FMU_OK \<equiv> 0x40"
abbreviation PX4IO_P_STATUS_FLAGS_RAW_PWM :: u16 where "PX4IO_P_STATUS_FLAGS_RAW_PWM \<equiv> 0x80"
abbreviation PX4IO_P_STATUS_FLAGS_MIXER_OK :: u16 where "PX4IO_P_STATUS_FLAGS_MIXER_OK \<equiv> 0x100"
abbreviation PX4IO_P_STATUS_FLAGS_ARM_SYNC :: u16 where "PX4IO_P_STATUS_FLAGS_ARM_SYNC \<equiv> 0x200"
abbreviation PX4IO_P_STATUS_FLAGS_INIT_OK :: u16 where "PX4IO_P_STATUS_FLAGS_INIT_OK \<equiv> 0x400"
abbreviation PX4IO_P_STATUS_FLAGS_FAILSAFE :: u16 where "PX4IO_P_STATUS_FLAGS_FAILSAFE \<equiv> 0x800"
abbreviation PX4IO_P_STATUS_FLAGS_SAFETY_OFF :: u16 where "PX4IO_P_STATUS_FLAGS_SAFETY_OFF \<equiv> 0x1000"
abbreviation PX4IO_P_STATUS_FLAGS_RC_ST24 :: u16 where "PX4IO_P_STATUS_FLAGS_RC_ST24 \<equiv> 0x4000"
abbreviation PX4IO_P_STATUS_FLAGS_RC_SUMD :: u16 where "PX4IO_P_STATUS_FLAGS_RC_SUMD \<equiv> 0x8000"
abbreviation PX4IO_P_STATUS_ALARMS_RC_LOST :: u16 where "PX4IO_P_STATUS_ALARMS_RC_LOST \<equiv> 0x20"
abbreviation PX4IO_P_STATUS_ALARMS_PWM_ERROR :: u16 where "PX4IO_P_STATUS_ALARMS_PWM_ERROR \<equiv> 0x40"

abbreviation PX4IO_P_RAW_RC_FLAGS_FRAME_DROP :: u16 where "PX4IO_P_RAW_RC_FLAGS_FRAME_DROP \<equiv> 0x1"
abbreviation PX4IO_P_RAW_RC_FLAGS_FAILSAFE :: u16 where "PX4IO_P_RAW_RC_FLAGS_FAILSAFE \<equiv> 0x2"
abbreviation PX4IO_P_RAW_RC_FLAGS_RC_DSM11 :: u16 where "PX4IO_P_RAW_RC_FLAGS_RC_DSM11 \<equiv> 0x4"
abbreviation PX4IO_P_RAW_RC_FLAGS_MAPPING_OK :: u16 where "PX4IO_P_RAW_RC_FLAGS_MAPPING_OK \<equiv> 0x8"
abbreviation PX4IO_P_RAW_RC_FLAGS_RC_OK :: u16 where "PX4IO_P_RAW_RC_FLAGS_RC_OK \<equiv> 0x10"

abbreviation PX4IO_P_SETUP_FEATURES_SBUS1_OUT :: u16 where "PX4IO_P_SETUP_FEATURES_SBUS1_OUT \<equiv> 0x1"
abbreviation PX4IO_P_SETUP_FEATURES_SBUS2_OUT :: u16 where "PX4IO_P_SETUP_FEATURES_SBUS2_OUT \<equiv> 0x2"
abbreviation PX4IO_P_SETUP_FEATURES_PWM_RSSI :: u16 where "PX4IO_P_SETUP_FEATURES_PWM_RSSI \<equiv> 0x4"
abbreviation PX4IO_P_SETUP_FEATURES_ADC_RSSI :: u16 where "PX4IO_P_SETUP_FEATURES_ADC_RSSI \<equiv> 0x8"

abbreviation PX4IO_P_SETUP_ARMING_IO_ARM_OK :: u16 where "PX4IO_P_SETUP_ARMING_IO_ARM_OK \<equiv> 0x1"
abbreviation PX4IO_P_SETUP_ARMING_FMU_ARMED :: u16 where "PX4IO_P_SETUP_ARMING_FMU_ARMED \<equiv> 0x2"
abbreviation PX4IO_P_SETUP_ARMING_FMU_PREARMED :: u16 where "PX4IO_P_SETUP_ARMING_FMU_PREARMED \<equiv> 0x4"
abbreviation PX4IO_P_SETUP_ARMING_MANUAL_OVERRIDE_OK :: u16 where "PX4IO_P_SETUP_ARMING_MANUAL_OVERRIDE_OK \<equiv> 0x8"
abbreviation PX4IO_P_SETUP_ARMING_FAILSAFE_CUSTOM :: u16 where "PX4IO_P_SETUP_ARMING_FAILSAFE_CUSTOM \<equiv> 0x10"
abbreviation PX4IO_P_SETUP_ARMING_INAIR_RESTART_OK :: u16 where "PX4IO_P_SETUP_ARMING_INAIR_RESTART_OK \<equiv> 0x20"
abbreviation PX4IO_P_SETUP_ARMING_ALWAYS_PWM_ENABLE :: u16 where "PX4IO_P_SETUP_ARMING_ALWAYS_PWM_ENABLE \<equiv> 0x40"
abbreviation PX4IO_P_SETUP_ARMING_RC_HANDLING_DISABLED :: u16 where "PX4IO_P_SETUP_ARMING_RC_HANDLING_DISABLED \<equiv> 0x80"
abbreviation PX4IO_P_SETUP_ARMING_LOCKDOWN :: u16 where "PX4IO_P_SETUP_ARMING_LOCKDOWN \<equiv> 0x100"
abbreviation PX4IO_P_SETUP_ARMING_FORCE_FAILSAFE :: u16 where "PX4IO_P_SETUP_ARMING_FORCE_FAILSAFE \<equiv> 0x200"
abbreviation PX4IO_P_SETUP_ARMING_TERMINATION_FAILSAFE :: u16 where "PX4IO_P_SETUP_ARMING_TERMINATION_FAILSAFE \<equiv> 0x400"
abbreviation PX4IO_P_SETUP_ARMING_OVERRIDE_IMMEDIATE :: u16 where "PX4IO_P_SETUP_ARMING_OVERRIDE_IMMEDIATE \<equiv> 0x800"

abbreviation PX4IO_REBOOT_BL_MAGIC :: u16 where "PX4IO_REBOOT_BL_MAGIC \<equiv> 14662"
abbreviation PX4IO_FORCE_SAFETY_MAGIC :: u16 where "PX4IO_FORCE_SAFETY_MAGIC \<equiv> 22027"
abbreviation PX4IO_THERMAL_IGNORE :: u16 where "PX4IO_THERMAL_IGNORE \<equiv> 0xFFFF"
abbreviation PX4IO_THERMAL_FULL :: u16 where "PX4IO_THERMAL_FULL \<equiv> 10000"

abbreviation PWM_LOWEST_MIN :: u16 where "PWM_LOWEST_MIN \<equiv> 90"
abbreviation PWM_DEFAULT_MIN :: u16 where "PWM_DEFAULT_MIN \<equiv> 1000"
abbreviation PWM_HIGHEST_MIN :: u16 where "PWM_HIGHEST_MIN \<equiv> 1600"
abbreviation PWM_HIGHEST_MAX :: u16 where "PWM_HIGHEST_MAX \<equiv> 2500"
abbreviation PWM_DEFAULT_MAX :: u16 where "PWM_DEFAULT_MAX \<equiv> 2000"
abbreviation PWM_DEFAULT_TRIM :: u16 where "PWM_DEFAULT_TRIM \<equiv> 0"
abbreviation PWM_LOWEST_MAX :: u16 where "PWM_LOWEST_MAX \<equiv> 200"
abbreviation PWM_IGNORE_THIS_CHANNEL :: u16 where "PWM_IGNORE_THIS_CHANNEL \<equiv> 0xFFFF"

section \<open>State\<close>

text \<open>
  What the firmware does to the world: PWM timers, the S.Bus and DSM libraries, the lights,
  the console, the reset.  A debug message is kept as its format with its arguments.
\<close>

datatype debug_msg = Dbg_set_debug u16 | Dbg_rc_config u8 nat | Dbg_mix_txt nat | Dbg_mix_reset
  | Dbg_mix_append nat | Dbg_mix_buflen nat | Dbg_state u16 u16 u16 u16 u32

datatype io_event = Pwm_update | Rate_group nat u16 | Sbus_enable bool | Sbus_rate u16
  | Dsm_bind u16 u16 | Led_amber bool | Led_blue bool | Led_safety bool | Led_ring bool
  | Debug_out "debug_msg option" | System_reset

record px4io =
  r_page_status :: "u16 list"
  r_page_actuators :: "u16 list"
  r_page_servos :: "u16 list"
  r_page_raw_rc_input :: "u16 list"
  r_page_rc_input :: "u16 list"
  r_page_scratch :: "u16 list"
  r_page_direct_pwm :: "u16 list"
  r_page_setup :: "u16 list"
  r_page_controls :: "u16 list"
  r_page_rc_input_config :: "u16 list"
  r_page_servo_failsafe :: "u16 list"
  r_page_servo_control_min :: "u16 list"
  r_page_servo_control_max :: "u16 list"
  r_page_servo_control_trim :: "u16 list"
  r_page_servo_disarmed :: "u16 list"
  rc_channels_timestamp_received :: u64
  rc_channels_timestamp_valid :: u64
  fmu_data_received_time :: u64
  update_mc_thrust_param :: bool
  update_trims :: bool
  mix_failsafe :: bool
  mixer_reset_pending :: bool
  mixer_update_pending :: bool
  mixer_text :: "u8 list"
  reboot_time :: u64
  last_page :: u8
  last_offset :: u8
  msg :: "debug_msg option list"
  msg_counter :: u32
  last_msg_counter :: u32
  msg_next_in :: nat
  msg_next_out :: nat
  io_log :: "io_event list"

text \<open>What a call reads from the hardware and the libraries below.\<close>

record io_inputs =
  now :: u64
  adc_measure :: "nat \<Rightarrow> u16"
  up_pwm_servo_get_rate_group :: "nat \<Rightarrow> u32"
  set_rate_group_ok :: "nat \<Rightarrow> u16 \<Rightarrow> bool"

definition r_page_config :: "u16 list" where
  "r_page_config = [4, 2, 3, 64, 8, 8, 18, 2, 0]"

definition px4io_reset :: px4io where
  "px4io_reset = \<lparr>
     r_page_status = replicate 10 0, r_page_actuators = replicate 8 0, r_page_servos = replicate 8 0,
     r_page_raw_rc_input = replicate 25 0, r_page_rc_input = replicate 10 0,
     r_page_scratch = replicate 32 0, r_page_direct_pwm = replicate 8 0,
     r_page_setup = [PX4IO_P_SETUP_FEATURES_ADC_RSSI, PX4IO_P_SETUP_ARMING_OVERRIDE_IMMEDIATE, 0, 50, 200,
       0, 10000, 0, 0, 0, 0, 0, 0, 0, 0, 0, 0, 0, 0, 10000, 10000, 10000, 72, 0, 0, 0,
       PX4IO_THERMAL_IGNORE, 0, 0],
     r_page_controls = replicate 32 0, r_page_rc_input_config = replicate 108 0,
     r_page_servo_failsafe = replicate 8 0, r_page_servo_control_min = replicate 8 PWM_DEFAULT_MIN,
     r_page_servo_control_max = replicate 8 PWM_DEFAULT_MAX,
     r_page_servo_control_trim = replicate 8 PWM_DEFAULT_TRIM, r_page_servo_disarmed = replicate 8 0,
     rc_channels_timestamp_received = 0, rc_channels_timestamp_valid = 0, fmu_data_received_time = 0,
     update_mc_thrust_param = False, update_trims = False, mix_failsafe = False,
     mixer_reset_pending = False, mixer_update_pending = False, mixer_text = [], reboot_time = 0,
     last_page = 0, last_offset = 0, msg = [None], msg_counter = 0, last_msg_counter = 0,
     msg_next_in = 0, msg_next_out = 0, io_log = []\<rparr>"

text \<open>The register aliases of \<open>px4io.h\<close>.\<close>

abbreviation r_status_flags :: "px4io \<Rightarrow> u16" where "r_status_flags s \<equiv> r_page_status s ! PX4IO_P_STATUS_FLAGS"
abbreviation r_status_alarms :: "px4io \<Rightarrow> u16" where "r_status_alarms s \<equiv> r_page_status s ! PX4IO_P_STATUS_ALARMS"
abbreviation r_setup_features :: "px4io \<Rightarrow> u16" where "r_setup_features s \<equiv> r_page_setup s ! PX4IO_P_SETUP_FEATURES"
abbreviation r_setup_arming :: "px4io \<Rightarrow> u16" where "r_setup_arming s \<equiv> r_page_setup s ! PX4IO_P_SETUP_ARMING"
abbreviation r_setup_pwm_rates :: "px4io \<Rightarrow> u16" where "r_setup_pwm_rates s \<equiv> r_page_setup s ! PX4IO_P_SETUP_PWM_RATES"
abbreviation r_setup_pwm_defaultrate :: "px4io \<Rightarrow> u16" where
  "r_setup_pwm_defaultrate s \<equiv> r_page_setup s ! PX4IO_P_SETUP_PWM_DEFAULTRATE"
abbreviation r_setup_pwm_altrate :: "px4io \<Rightarrow> u16" where
  "r_setup_pwm_altrate s \<equiv> r_page_setup s ! PX4IO_P_SETUP_PWM_ALTRATE"
abbreviation r_setup_rc_thr_failsafe :: "px4io \<Rightarrow> u16" where
  "r_setup_rc_thr_failsafe s \<equiv> r_page_setup s ! PX4IO_P_SETUP_RC_THR_FAILSAFE_US"
abbreviation r_raw_rc_count :: "px4io \<Rightarrow> u16" where "r_raw_rc_count s \<equiv> r_page_raw_rc_input s ! PX4IO_P_RAW_RC_COUNT"
abbreviation r_raw_rc_flags :: "px4io \<Rightarrow> u16" where "r_raw_rc_flags s \<equiv> r_page_raw_rc_input s ! PX4IO_P_RAW_RC_FLAGS"
abbreviation r_rc_valid :: "px4io \<Rightarrow> u16" where "r_rc_valid s \<equiv> r_page_rc_input s ! PX4IO_P_RC_VALID"

definition put_status :: "nat \<Rightarrow> u16 \<Rightarrow> px4io \<Rightarrow> px4io" where
  "put_status i v s = s\<lparr>r_page_status := (r_page_status s)[i := v]\<rparr>"
definition put_setup :: "nat \<Rightarrow> u16 \<Rightarrow> px4io \<Rightarrow> px4io" where
  "put_setup i v s = s\<lparr>r_page_setup := (r_page_setup s)[i := v]\<rparr>"
definition put_raw_rc :: "nat \<Rightarrow> u16 \<Rightarrow> px4io \<Rightarrow> px4io" where
  "put_raw_rc i v s = s\<lparr>r_page_raw_rc_input := (r_page_raw_rc_input s)[i := v]\<rparr>"
definition put_rc :: "nat \<Rightarrow> u16 \<Rightarrow> px4io \<Rightarrow> px4io" where
  "put_rc i v s = s\<lparr>r_page_rc_input := (r_page_rc_input s)[i := v]\<rparr>"
definition put_rc_conf :: "nat \<Rightarrow> u16 \<Rightarrow> px4io \<Rightarrow> px4io" where
  "put_rc_conf i v s = s\<lparr>r_page_rc_input_config := (r_page_rc_input_config s)[i := v]\<rparr>"
definition emit :: "io_event \<Rightarrow> px4io \<Rightarrow> px4io" where
  "emit e s = s\<lparr>io_log := e # io_log s\<rparr>"

lemmas put_defs = put_status_def put_setup_def put_raw_rc_def put_rc_def put_rc_conf_def emit_def

section \<open>Atomic flag updates and debug messages\<close>

text \<open>
  The three helpers of \<open>px4io.c\<close> write only when the value would change, and the write is in a
  critical section; what they leave in the register is given here.
\<close>

definition atomic_modify_or :: "u16 \<Rightarrow> u16 \<Rightarrow> u16" where
  "atomic_modify_or target modification =
     (if (target OR modification) \<noteq> target then set_flag target modification else target)"

definition atomic_modify_clear :: "u16 \<Rightarrow> u16 \<Rightarrow> u16" where
  "atomic_modify_clear target modification =
     (if (target AND NOT modification) \<noteq> target then clr_flag target modification else target)"

definition atomic_modify_and :: "u16 \<Rightarrow> u16 \<Rightarrow> u16" where
  "atomic_modify_and target modification =
     (if (target AND modification) \<noteq> target then target AND modification else target)"

lemma atomic_modify_or [flag_simps]: "atomic_modify_or t m = set_flag t m"
  by (simp add: atomic_modify_or_def set_flag_def)

lemma atomic_modify_clear [flag_simps]: "atomic_modify_clear t m = clr_flag t m"
  by (simp add: atomic_modify_clear_def clr_flag_def)

lemma atomic_modify_and [flag_simps]: "atomic_modify_and t m = t AND m"
  by (simp add: atomic_modify_and_def)

definition NUM_MSG :: nat where "NUM_MSG = 1"

definition isr_debug :: "u8 \<Rightarrow> debug_msg \<Rightarrow> px4io \<Rightarrow> px4io" where
  "isr_debug level m s =
     (if ucast level > r_page_setup s ! PX4IO_P_SETUP_SET_DEBUG then s
      else s\<lparr>msg := (msg s)[msg_next_in s := Some m], msg_next_in := (msg_next_in s + 1) mod NUM_MSG,
             msg_counter := msg_counter s + 1\<rparr>)"

definition show_debug_messages :: "px4io \<Rightarrow> px4io" where
  "show_debug_messages s =
     (if msg_counter s \<noteq> last_msg_counter s then
        let n = msg_counter s - last_msg_counter s;
            n = (if n > word_of_nat NUM_MSG then word_of_nat NUM_MSG else n);
            s = s\<lparr>last_msg_counter := msg_counter s\<rparr>
        in ((\<lambda>s. (emit (Debug_out (msg s ! msg_next_out s)) s)
               \<lparr>msg_next_out := (msg_next_out s + 1) mod NUM_MSG\<rparr>) ^^ unat n) s
      else s)"

definition schedule_reboot :: "u32 \<Rightarrow> io_inputs \<Rightarrow> px4io \<Rightarrow> px4io" where
  "schedule_reboot time_delta_usec inp s = s\<lparr>reboot_time := now inp + ucast time_delta_usec\<rparr>"

definition check_reboot :: "io_inputs \<Rightarrow> px4io \<Rightarrow> px4io" where
  "check_reboot inp s =
     (if reboot_time s \<noteq> 0 \<and> now inp > reboot_time s then emit System_reset s else s)"

section \<open>Well-formed register files\<close>

definition px4io_wf :: "px4io \<Rightarrow> bool" where
  "px4io_wf s \<longleftrightarrow>
     length (r_page_status s) = 10 \<and> length (r_page_actuators s) = 8 \<and> length (r_page_servos s) = 8 \<and>
     length (r_page_raw_rc_input s) = 25 \<and> length (r_page_rc_input s) = 10 \<and>
     length (r_page_scratch s) = 32 \<and> length (r_page_direct_pwm s) = 8 \<and>
     length (r_page_setup s) = 29 \<and> length (r_page_controls s) = 32 \<and>
     length (r_page_rc_input_config s) = 108 \<and> length (r_page_servo_failsafe s) = 8 \<and>
     length (r_page_servo_control_min s) = 8 \<and> length (r_page_servo_control_max s) = 8 \<and>
     length (r_page_servo_control_trim s) = 8 \<and> length (r_page_servo_disarmed s) = 8 \<and>
     length (msg s) = NUM_MSG \<and> msg_next_in s < NUM_MSG \<and> msg_next_out s < NUM_MSG \<and>
     length (mixer_text s) < 330"

lemma px4io_wf_reset: "px4io_wf px4io_reset"
  by (simp add: px4io_wf_def px4io_reset_def NUM_MSG_def)

lemma px4io_wf_puts [simp]:
  "px4io_wf (put_status i v s) = px4io_wf s" "px4io_wf (put_setup i v s) = px4io_wf s"
  "px4io_wf (put_raw_rc i v s) = px4io_wf s" "px4io_wf (put_rc i v s) = px4io_wf s"
  "px4io_wf (put_rc_conf i v s) = px4io_wf s" "px4io_wf (emit e s) = px4io_wf s"
  by (simp_all add: px4io_wf_def put_defs)

lemma px4io_wf_isr_debug [simp]: "px4io_wf s \<Longrightarrow> px4io_wf (isr_debug l m s)"
  by (simp add: px4io_wf_def isr_debug_def NUM_MSG_def)

lemma isr_debug_pages [simp]:
  "r_page_status (isr_debug l m s) = r_page_status s" "r_page_setup (isr_debug l m s) = r_page_setup s"
  "r_page_rc_input_config (isr_debug l m s) = r_page_rc_input_config s"
  "r_page_servo_failsafe (isr_debug l m s) = r_page_servo_failsafe s"
  "r_page_servo_control_min (isr_debug l m s) = r_page_servo_control_min s"
  "r_page_servo_control_max (isr_debug l m s) = r_page_servo_control_max s"
  "r_page_servo_disarmed (isr_debug l m s) = r_page_servo_disarmed s"
  "io_log (isr_debug l m s) = io_log s" "reboot_time (isr_debug l m s) = reboot_time s"
  by (simp_all add: isr_debug_def)

lemma put_pages [simp]:
  "r_page_status (put_status i v s) = (r_page_status s)[i := v]" "r_page_status (put_setup i v s) = r_page_status s"
  "r_page_status (put_rc_conf i v s) = r_page_status s" "r_page_status (emit e s) = r_page_status s"
  "r_page_status (put_raw_rc i v s) = r_page_status s" "r_page_status (put_rc i v s) = r_page_status s"
  "r_page_setup (put_status i v s) = r_page_setup s" "r_page_setup (put_setup i v s) = (r_page_setup s)[i := v]"
  "r_page_setup (put_rc_conf i v s) = r_page_setup s" "r_page_setup (emit e s) = r_page_setup s"
  "r_page_setup (put_raw_rc i v s) = r_page_setup s" "r_page_setup (put_rc i v s) = r_page_setup s"
  "r_page_rc_input_config (put_status i v s) = r_page_rc_input_config s"
  "r_page_rc_input_config (put_setup i v s) = r_page_rc_input_config s"
  "r_page_rc_input_config (put_rc_conf i v s) = (r_page_rc_input_config s)[i := v]"
  "r_page_rc_input_config (emit e s) = r_page_rc_input_config s"
  by (simp_all add: put_defs)

end
