(* ===== verification/Px4io_Registers.thy ===== *)
theory Px4io_Registers
  imports Px4io_State
begin

text \<open>
  The register file that the flight management unit writes and reads:
  \<open>px4iofirmware/registers.c\<close>, with the two entry points of \<open>mixer.cpp\<close> it calls
  (\<open>interrupt_mixer_handle_text\<close>, \<open>interrupt_mixer_set_failsafe\<close>).  A handler takes the state
  and returns it; the integer result is that of the source (0, -1 or 1).  The arguments
  \<open>inp\<close> hold what the handler reads from the clock, the ADC and the PWM driver.
\<close>

section \<open>Definitions\<close>

text \<open>
  The loops that copy channel data run while the offset is inside the page and values are
  left; \<open>body\<close> is what one round does with the offset and the value.
\<close>

fun copy_loop :: "nat \<Rightarrow> (nat \<Rightarrow> u16 \<Rightarrow> 's \<Rightarrow> 's) \<Rightarrow> nat \<Rightarrow> u16 list \<Rightarrow> 's \<Rightarrow> 's" where
  "copy_loop lim body off [] s = s"
| "copy_loop lim body off (v # vs) s =
     (if off < lim then copy_loop lim body (Suc off) vs (body off v s) else s)"

definition controls_body :: "nat \<Rightarrow> u16 \<Rightarrow> px4io \<Rightarrow> px4io" where
  "controls_body off v s = s\<lparr>r_page_controls := (r_page_controls s)[off := v]\<rparr>"

definition direct_pwm_body :: "nat \<Rightarrow> u16 \<Rightarrow> px4io \<Rightarrow> px4io" where
  "direct_pwm_body off v s =
     (if v \<noteq> PWM_IGNORE_THIS_CHANNEL then s\<lparr>r_page_direct_pwm := (r_page_direct_pwm s)[off := v]\<rparr> else s)"

definition failsafe_pwm_body :: "nat \<Rightarrow> u16 \<Rightarrow> px4io \<Rightarrow> px4io" where
  "failsafe_pwm_body off v s =
     (let w = (\<lambda>x. s\<lparr>r_page_servo_failsafe := (r_page_servo_failsafe s)[off := x]\<rparr>);
          s = (if v = 0 then s
               else if v < PWM_LOWEST_MIN then w PWM_LOWEST_MIN
               else if v > PWM_HIGHEST_MAX then w PWM_HIGHEST_MAX
               else w v)
      in put_setup PX4IO_P_SETUP_ARMING
           (set_flag (r_setup_arming s) PX4IO_P_SETUP_ARMING_FAILSAFE_CUSTOM) s)"

definition control_min_body :: "nat \<Rightarrow> u16 \<Rightarrow> px4io \<Rightarrow> px4io" where
  "control_min_body off v s =
     (let w = (\<lambda>x. s\<lparr>r_page_servo_control_min := (r_page_servo_control_min s)[off := x]\<rparr>)
      in if v = 0 then s
         else if v > PWM_HIGHEST_MIN then w PWM_HIGHEST_MIN
         else if v < PWM_LOWEST_MIN then w PWM_LOWEST_MIN
         else w v)"

definition control_max_body :: "nat \<Rightarrow> u16 \<Rightarrow> px4io \<Rightarrow> px4io" where
  "control_max_body off v s =
     (let w = (\<lambda>x. s\<lparr>r_page_servo_control_max := (r_page_servo_control_max s)[off := x]\<rparr>)
      in if v = 0 then s
         else if v > PWM_HIGHEST_MAX then w PWM_HIGHEST_MAX
         else if v < PWM_LOWEST_MAX then w PWM_LOWEST_MAX
         else w v)"

definition control_trim_body :: "nat \<Rightarrow> u16 \<Rightarrow> px4io \<Rightarrow> px4io" where
  "control_trim_body off v s =
     s\<lparr>r_page_servo_control_trim := (r_page_servo_control_trim s)[off := v]\<rparr>"

text \<open>The second component is the local variable \<open>all_disarmed_off\<close>.\<close>

definition disarmed_pwm_body :: "nat \<Rightarrow> u16 \<Rightarrow> px4io \<times> bool \<Rightarrow> px4io \<times> bool" where
  "disarmed_pwm_body off v sb =
     (case sb of (s, off_all) \<Rightarrow>
        let w = (\<lambda>x. s\<lparr>r_page_servo_disarmed := (r_page_servo_disarmed s)[off := x]\<rparr>)
        in if v = 0 then (w 0, off_all)
           else if v < PWM_LOWEST_MIN then (w PWM_LOWEST_MIN, False)
           else if v > PWM_HIGHEST_MAX then (w PWM_HIGHEST_MAX, False)
           else (w v, False))"

text \<open>
  The mixer text arrives as the bytes of the register values, low byte first: two bytes of
  magic, the action, then the text.
\<close>

definition bytes_of_regs :: "u16 list \<Rightarrow> u8 list" where
  "bytes_of_regs vs = concat (map (\<lambda>v. [ucast v, ucast (drop_bit 8 v)]) vs)"

definition interrupt_mixer_handle_text :: "u8 list \<Rightarrow> px4io \<Rightarrow> int \<times> px4io" where
  "interrupt_mixer_handle_text buffer s =
     (let len = length buffer in
      if has_flag (r_status_flags s) PX4IO_P_STATUS_FLAGS_SAFETY_OFF
         \<and> has_flag (r_setup_arming s) PX4IO_P_SETUP_ARMING_FMU_ARMED then (1, s)
      else
        let s = put_status PX4IO_P_STATUS_FLAGS
                  (atomic_modify_clear (r_status_flags s) PX4IO_P_STATUS_FLAGS_MIXER_OK) s;
            s = isr_debug 2 (Dbg_mix_txt len) s in
        if len < 3 then (0, s)
        else
          let action = buffer ! 2; txt = drop 3 buffer;
              s = (if action = 0
                   then (isr_debug 2 Dbg_mix_reset s)\<lparr>mixer_reset_pending := True, mixer_text := []\<rparr> else s) in
          if action = 0 \<or> action = 1 then
            let s = isr_debug 2 (Dbg_mix_append len) s in
            if length (mixer_text s) + length txt + 1 > 330 then
              (0, put_status PX4IO_P_STATUS_FLAGS
                    (atomic_modify_clear (r_status_flags s) PX4IO_P_STATUS_FLAGS_MIXER_OK) s)
            else if mixer_update_pending s then (1, s)
            else
              let s = s\<lparr>mixer_text := mixer_text s @ txt\<rparr>;
                  s = isr_debug 2 (Dbg_mix_buflen (length (mixer_text s))) s
              in (0, s\<lparr>mixer_update_pending := True\<rparr>)
          else (0, s))"

definition interrupt_mixer_set_failsafe :: "px4io \<Rightarrow> px4io" where
  "interrupt_mixer_set_failsafe s = s\<lparr>mix_failsafe := True\<rparr>"

text \<open>
  The PWM rates.  The first pass looks for a rate group that would be split between the two
  rates; the second one programs the groups, with the rates that are in the registers at that
  time; then the registers are written.
\<close>

definition pwm_preflight :: "io_inputs \<Rightarrow> u16 \<Rightarrow> bool" where
  "pwm_preflight inp rmap \<longleftrightarrow>
     (\<forall>g \<in> set [0..<PX4IO_SERVO_COUNT].
        let mask = up_pwm_servo_get_rate_group inp g; alt = ucast rmap AND mask
        in mask = 0 \<or> alt = 0 \<or> alt = mask)"

definition pwm_set_group :: "io_inputs \<Rightarrow> u16 \<Rightarrow> nat \<Rightarrow> px4io \<Rightarrow> px4io" where
  "pwm_set_group inp rmap g s =
     (let mask = up_pwm_servo_get_rate_group inp g; alt = ucast rmap AND mask in
      if mask = 0 then s
      else
        let rate = (if alt \<noteq> 0 then r_setup_pwm_altrate s else r_setup_pwm_defaultrate s);
            s = emit (Rate_group g rate) s
        in if set_rate_group_ok inp g rate then s
           else put_status PX4IO_P_STATUS_ALARMS
                  (set_flag (r_status_alarms s) PX4IO_P_STATUS_ALARMS_PWM_ERROR) s)"

definition pwm_configure_rates :: "io_inputs \<Rightarrow> u16 \<Rightarrow> u16 \<Rightarrow> u16 \<Rightarrow> px4io \<Rightarrow> px4io" where
  "pwm_configure_rates inp rmap defaultrate altrate s =
     (if \<not> pwm_preflight inp rmap then
        put_status PX4IO_P_STATUS_ALARMS
          (set_flag (r_status_alarms s) PX4IO_P_STATUS_ALARMS_PWM_ERROR) s
      else
        let s = fold (pwm_set_group inp rmap) [0..<PX4IO_SERVO_COUNT] s
        in put_setup PX4IO_P_SETUP_PWM_ALTRATE altrate
             (put_setup PX4IO_P_SETUP_PWM_DEFAULTRATE defaultrate
               (put_setup PX4IO_P_SETUP_PWM_RATES rmap s)))"

section \<open>Writing one register\<close>

definition set_one_status :: "nat \<Rightarrow> u16 \<Rightarrow> px4io \<Rightarrow> int \<times> px4io" where
  "set_one_status offset value s =
     (if offset = PX4IO_P_STATUS_ALARMS then
        (0, put_status PX4IO_P_STATUS_ALARMS (clr_flag (r_status_alarms s) value) s)
      else if offset = PX4IO_P_STATUS_FLAGS then
        let s = (if has_flag value PX4IO_P_STATUS_FLAGS_MIXER_OK
                 then put_status PX4IO_P_STATUS_FLAGS
                        (set_flag (r_status_flags s) PX4IO_P_STATUS_FLAGS_MIXER_OK) s
                 else if \<not> has_flag (r_status_flags s) PX4IO_P_STATUS_FLAGS_ARM_SYNC
                 then put_status PX4IO_P_STATUS_FLAGS value s
                 else s)
        in (0, if has_flag (r_status_flags s) PX4IO_P_STATUS_FLAGS_MIXER_OK
               then interrupt_mixer_set_failsafe s else s)
      else (0, s))"

definition PX4IO_P_SETUP_FEATURES_VALID :: u16 where "PX4IO_P_SETUP_FEATURES_VALID = 0xF"
definition PX4IO_P_SETUP_ARMING_VALID :: u16 where "PX4IO_P_SETUP_ARMING_VALID = 0xFFF"
definition PX4IO_P_SETUP_RATES_VALID :: u16 where "PX4IO_P_SETUP_RATES_VALID = 0xFF"
definition PX4IO_P_RC_CONFIG_OPTIONS_VALID :: u16 where "PX4IO_P_RC_CONFIG_OPTIONS_VALID = 0x3"

definition features_value :: "u16 \<Rightarrow> u16" where
  "features_value value =
     (let v = value AND PX4IO_P_SETUP_FEATURES_VALID;
          v = (if has_flag v PX4IO_P_SETUP_FEATURES_SBUS1_OUT
               then clr_flag v (PX4IO_P_SETUP_FEATURES_PWM_RSSI OR PX4IO_P_SETUP_FEATURES_ADC_RSSI
                      OR PX4IO_P_SETUP_FEATURES_SBUS2_OUT) else v);
          v = (if has_flag v PX4IO_P_SETUP_FEATURES_SBUS2_OUT
               then clr_flag v (PX4IO_P_SETUP_FEATURES_PWM_RSSI OR PX4IO_P_SETUP_FEATURES_ADC_RSSI
                      OR PX4IO_P_SETUP_FEATURES_SBUS1_OUT) else v);
          v = (if has_flag v PX4IO_P_SETUP_FEATURES_ADC_RSSI
               then clr_flag v (PX4IO_P_SETUP_FEATURES_PWM_RSSI OR PX4IO_P_SETUP_FEATURES_SBUS1_OUT
                      OR PX4IO_P_SETUP_FEATURES_SBUS2_OUT) else v);
          v = (if has_flag v PX4IO_P_SETUP_FEATURES_PWM_RSSI
               then clr_flag v (PX4IO_P_SETUP_FEATURES_ADC_RSSI OR PX4IO_P_SETUP_FEATURES_SBUS1_OUT
                      OR PX4IO_P_SETUP_FEATURES_SBUS2_OUT) else v)
      in v)"

definition set_one_features :: "u16 \<Rightarrow> px4io \<Rightarrow> int \<times> px4io" where
  "set_one_features value s =
     (let s = emit (Sbus_enable (has_flag (value AND PX4IO_P_SETUP_FEATURES_VALID)
                (PX4IO_P_SETUP_FEATURES_SBUS1_OUT OR PX4IO_P_SETUP_FEATURES_SBUS2_OUT))) s
      in (0, put_setup PX4IO_P_SETUP_FEATURES (features_value value) s))"

definition set_one_arming :: "u16 \<Rightarrow> px4io \<Rightarrow> int \<times> px4io" where
  "set_one_arming value s =
     (let value = value AND PX4IO_P_SETUP_ARMING_VALID;
          s = (if has_flag value PX4IO_P_SETUP_ARMING_RC_HANDLING_DISABLED
               then put_status PX4IO_P_STATUS_FLAGS
                      (set_flag (r_status_flags s) PX4IO_P_STATUS_FLAGS_INIT_OK) s else s);
          value = value OR (r_setup_arming s AND PX4IO_P_SETUP_ARMING_TERMINATION_FAILSAFE);
          value = (if has_flag (r_setup_arming s) PX4IO_P_SETUP_ARMING_TERMINATION_FAILSAFE
                   then value OR (r_setup_arming s AND PX4IO_P_SETUP_ARMING_FORCE_FAILSAFE) else value)
      in (0, put_setup PX4IO_P_SETUP_ARMING value s))"

definition clamp_rate :: "u16 \<Rightarrow> u16" where
  "clamp_rate value = (let v = (if value < 25 then 25 else value) in if v > 400 then 400 else v)"

definition set_one_reboot :: "io_inputs \<Rightarrow> u16 \<Rightarrow> px4io \<Rightarrow> int \<times> px4io" where
  "set_one_reboot inp value s =
     (if has_flag (r_status_flags s) PX4IO_P_STATUS_FLAGS_SAFETY_OFF then (0, s)
      else if value \<noteq> PX4IO_REBOOT_BL_MAGIC then (0, s)
      else (0, schedule_reboot 100000 inp s))"

definition set_one_setup :: "io_inputs \<Rightarrow> nat \<Rightarrow> u16 \<Rightarrow> px4io \<Rightarrow> int \<times> px4io" where
  "set_one_setup inp offset value s =
     (if offset = PX4IO_P_SETUP_FEATURES then set_one_features value s
      else if offset = PX4IO_P_SETUP_ARMING then set_one_arming value s
      else if offset = PX4IO_P_SETUP_PWM_RATES then
        (0, pwm_configure_rates inp (value AND PX4IO_P_SETUP_RATES_VALID)
              (r_setup_pwm_defaultrate s) (r_setup_pwm_altrate s) s)
      else if offset = PX4IO_P_SETUP_PWM_DEFAULTRATE then
        (0, pwm_configure_rates inp (r_setup_pwm_rates s) (clamp_rate value) (r_setup_pwm_altrate s) s)
      else if offset = PX4IO_P_SETUP_PWM_ALTRATE then
        (0, pwm_configure_rates inp (r_setup_pwm_rates s) (r_setup_pwm_defaultrate s)
              (if value \<noteq> 0 then clamp_rate value else value) s)
      else if offset = PX4IO_P_SETUP_SET_DEBUG then
        (0, isr_debug 0 (Dbg_set_debug value) (put_setup PX4IO_P_SETUP_SET_DEBUG value s))
      else if offset = PX4IO_P_SETUP_REBOOT_BL then set_one_reboot inp value s
      else if offset = PX4IO_P_SETUP_DSM then
        (0, emit (Dsm_bind (value AND 0xf) (drop_bit 4 value AND 0xF)) s)
      else if offset = PX4IO_P_SETUP_FORCE_SAFETY_ON then
        if value = PX4IO_FORCE_SAFETY_MAGIC then
          (0, put_status PX4IO_P_STATUS_FLAGS
                (clr_flag (r_status_flags s) PX4IO_P_STATUS_FLAGS_SAFETY_OFF) s)
        else (-1, s)
      else if offset = PX4IO_P_SETUP_FORCE_SAFETY_OFF then
        if value = PX4IO_FORCE_SAFETY_MAGIC then
          (0, put_status PX4IO_P_STATUS_FLAGS
                (set_flag (r_status_flags s) PX4IO_P_STATUS_FLAGS_SAFETY_OFF) s)
        else (-1, s)
      else if offset = PX4IO_P_SETUP_RC_THR_FAILSAFE_US then
        (0, if value > 650 \<and> value < 2350 then put_setup PX4IO_P_SETUP_RC_THR_FAILSAFE_US value s else s)
      else if offset = PX4IO_P_SETUP_SBUS_RATE then
        (0, emit (Sbus_rate value) (put_setup offset value s))
      else if offset = PX4IO_P_SETUP_THR_MDL_FAC then
        (0, put_setup offset value (s\<lparr>update_mc_thrust_param := True\<rparr>))
      else if offset \<in> {PX4IO_P_SETUP_PWM_REVERSE, PX4IO_P_SETUP_TRIM_ROLL, PX4IO_P_SETUP_TRIM_PITCH,
          PX4IO_P_SETUP_TRIM_YAW, PX4IO_P_SETUP_SCALE_ROLL, PX4IO_P_SETUP_SCALE_PITCH,
          PX4IO_P_SETUP_SCALE_YAW, PX4IO_P_SETUP_MOTOR_SLEW_MAX, PX4IO_P_SETUP_AIRMODE,
          PX4IO_P_SETUP_THERMAL, PX4IO_P_SETUP_ENABLE_FLIGHTTERMINATION} then
        (0, put_setup offset value s)
      else (-1, s))"

text \<open>
  Channel configuration: \<open>conf\<close> is the base index of the channel in the page.  The number of
  sanity checks that fail is the local variable \<open>count\<close>.
\<close>

definition rc_conf_errors :: "u16 list \<Rightarrow> nat \<Rightarrow> u8" where
  "rc_conf_errors page conf =
     (if page ! (conf + PX4IO_P_RC_CONFIG_MIN) < 500 then 1 else 0)
     + (if page ! (conf + PX4IO_P_RC_CONFIG_MAX) > 2500 then 1 else 0)
     + (if page ! (conf + PX4IO_P_RC_CONFIG_CENTER) < page ! (conf + PX4IO_P_RC_CONFIG_MIN) then 1 else 0)
     + (if page ! (conf + PX4IO_P_RC_CONFIG_CENTER) > page ! (conf + PX4IO_P_RC_CONFIG_MAX) then 1 else 0)
     + (if page ! (conf + PX4IO_P_RC_CONFIG_DEADZONE) > 500 then 1 else 0)
     + (if page ! (conf + PX4IO_P_RC_CONFIG_ASSIGNMENT) = 0xFF then 0
        else if page ! (conf + PX4IO_P_RC_CONFIG_ASSIGNMENT) \<ge> word_of_nat PX4IO_RC_MAPPED_CONTROL_CHANNELS
          \<and> page ! (conf + PX4IO_P_RC_CONFIG_ASSIGNMENT) \<noteq> PX4IO_P_RC_CONFIG_ASSIGNMENT_MODESWITCH then 1
        else 0)"

definition set_one_rc_options :: "nat \<Rightarrow> u16 \<Rightarrow> px4io \<Rightarrow> px4io" where
  "set_one_rc_options channel value s =
     (let conf = channel * PX4IO_P_RC_CONFIG_STRIDE;
          value = value AND PX4IO_P_RC_CONFIG_OPTIONS_VALID;
          s = put_status PX4IO_P_STATUS_FLAGS
                (set_flag (r_status_flags s) PX4IO_P_STATUS_FLAGS_INIT_OK) s;
          s = put_setup PX4IO_P_SETUP_ARMING
                (clr_flag (r_setup_arming s) PX4IO_P_SETUP_ARMING_RC_HANDLING_DISABLED) s;
          s = put_rc_conf (conf + PX4IO_P_RC_CONFIG_OPTIONS)
                (clr_flag value PX4IO_P_RC_CONFIG_OPTIONS_ENABLED) s in
      if has_flag value PX4IO_P_RC_CONFIG_OPTIONS_ENABLED then
        let count = rc_conf_errors (r_page_rc_input_config s) conf;
            disabled = (r_page_rc_input_config s ! (conf + PX4IO_P_RC_CONFIG_ASSIGNMENT) = 0xFF) in
        if count \<noteq> 0 then
          let s = isr_debug 0 (Dbg_rc_config count (channel + 1)) s
          in put_status PX4IO_P_STATUS_FLAGS
               (clr_flag (r_status_flags s) PX4IO_P_STATUS_FLAGS_INIT_OK) s
        else if \<not> disabled then
          put_rc_conf (conf + PX4IO_P_RC_CONFIG_OPTIONS)
            (set_flag (r_page_rc_input_config s ! (conf + PX4IO_P_RC_CONFIG_OPTIONS))
               PX4IO_P_RC_CONFIG_OPTIONS_ENABLED) s
        else s
      else s)"

definition set_one_rc_config :: "nat \<Rightarrow> u16 \<Rightarrow> px4io \<Rightarrow> int \<times> px4io" where
  "set_one_rc_config offset value s =
     (if has_flag (r_status_flags s) PX4IO_P_STATUS_FLAGS_SAFETY_OFF then (0, s)
      else
        let channel = offset div PX4IO_P_RC_CONFIG_STRIDE;
            index = offset - channel * PX4IO_P_RC_CONFIG_STRIDE;
            conf = channel * PX4IO_P_RC_CONFIG_STRIDE in
        if channel \<ge> PX4IO_RC_INPUT_CHANNELS then (-1, s)
        else
          let s = put_rc_conf (conf + PX4IO_P_RC_CONFIG_OPTIONS)
                    (r_page_rc_input_config s ! (conf + PX4IO_P_RC_CONFIG_OPTIONS)
                       AND PX4IO_P_RC_CONFIG_OPTIONS_ENABLED) s in
          if index \<in> {PX4IO_P_RC_CONFIG_MIN, PX4IO_P_RC_CONFIG_CENTER, PX4IO_P_RC_CONFIG_MAX,
               PX4IO_P_RC_CONFIG_DEADZONE, PX4IO_P_RC_CONFIG_ASSIGNMENT} then
            (0, put_rc_conf (conf + index) value s)
          else if index = PX4IO_P_RC_CONFIG_OPTIONS then (0, set_one_rc_options channel value s)
          else (0, s))"

definition registers_set_one :: "io_inputs \<Rightarrow> u8 \<Rightarrow> u8 \<Rightarrow> u16 \<Rightarrow> px4io \<Rightarrow> int \<times> px4io" where
  "registers_set_one inp page offset value s =
     (if page = PX4IO_PAGE_STATUS then set_one_status (unat offset) value s
      else if page = PX4IO_PAGE_SETUP then set_one_setup inp (unat offset) value s
      else if page = PX4IO_PAGE_RC_CONFIG then set_one_rc_config (unat offset) value s
      else if page = PX4IO_PAGE_TEST then
        (0, if offset = 0 then emit (Led_amber (has_flag value 1)) s else s)
      else (-1, s))"

section \<open>Writing and reading blocks\<close>

fun set_each :: "io_inputs \<Rightarrow> u8 \<Rightarrow> u8 \<Rightarrow> u16 list \<Rightarrow> px4io \<Rightarrow> int \<times> px4io" where
  "set_each inp page offset [] s = (0, s)"
| "set_each inp page offset (v # vs) s =
     (case registers_set_one inp page offset v s of
        (r, s) \<Rightarrow> if r \<noteq> 0 then (-1, s) else set_each inp page (offset + 1) vs s)"

definition registers_set ::
  "io_inputs \<Rightarrow> u8 \<Rightarrow> u8 \<Rightarrow> u16 list \<Rightarrow> nat \<Rightarrow> px4io \<Rightarrow> int \<times> px4io" where
  "registers_set inp page offset values num_values s =
     (let off = unat offset; vs = take num_values values in
      if page = PX4IO_PAGE_CONTROLS then
        let s = copy_loop (PX4IO_CONTROL_GROUPS * PX4IO_CONTROL_CHANNELS) controls_body off vs s;
            s = put_status PX4IO_P_STATUS_FLAGS
                  (clr_flag (r_status_flags s) PX4IO_P_STATUS_FLAGS_RAW_PWM) s
        in (0, s\<lparr>fmu_data_received_time := now inp\<rparr>)
      else if page = PX4IO_PAGE_DIRECT_PWM then
        let s = copy_loop PX4IO_CONTROL_CHANNELS direct_pwm_body off vs s;
            s = s\<lparr>fmu_data_received_time := now inp\<rparr>;
            s = put_status PX4IO_P_STATUS_FLAGS
                  (set_flag (r_status_flags s) PX4IO_P_STATUS_FLAGS_RAW_PWM) s
        in (0, emit Pwm_update s)
      else if page = PX4IO_PAGE_FAILSAFE_PWM then
        (0, copy_loop PX4IO_SERVO_COUNT failsafe_pwm_body off vs s)
      else if page = PX4IO_PAGE_CONTROL_MIN_PWM then
        (0, copy_loop PX4IO_SERVO_COUNT control_min_body off vs s)
      else if page = PX4IO_PAGE_CONTROL_MAX_PWM then
        (0, copy_loop PX4IO_SERVO_COUNT control_max_body off vs s)
      else if page = PX4IO_PAGE_CONTROL_TRIM_PWM then
        (0, (copy_loop PX4IO_SERVO_COUNT control_trim_body off vs s)\<lparr>update_trims := True\<rparr>)
      else if page = PX4IO_PAGE_DISARMED_PWM then
        (case copy_loop PX4IO_SERVO_COUNT disarmed_pwm_body off vs (s, True) of
           (s, all_disarmed_off) \<Rightarrow>
             (0, put_setup PX4IO_P_SETUP_ARMING
                   (if all_disarmed_off
                    then clr_flag (r_setup_arming s) PX4IO_P_SETUP_ARMING_ALWAYS_PWM_ENABLE
                    else set_flag (r_setup_arming s) PX4IO_P_SETUP_ARMING_ALWAYS_PWM_ENABLE) s))
      else if page = PX4IO_PAGE_MIXERLOAD then interrupt_mixer_handle_text (bytes_of_regs vs) s
      else
        set_each inp page offset
          (take (if off + num_values > 255 then 255 - off else num_values) values) s)"

text \<open>
  Reading refreshes the pages that are built as they are read.  A measurement of \<open>0xffff\<close> is an
  error of the ADC and leaves the register as it was.
\<close>

definition refresh_status :: "io_inputs \<Rightarrow> px4io \<Rightarrow> px4io" where
  "refresh_status inp s =
     (let counts = adc_measure inp 4;
          s = (if counts \<noteq> 0xffff
               then put_status PX4IO_P_STATUS_VSERVO (word_of_nat (unat counts * 9900 div 4096)) s else s);
          counts = adc_measure inp 5
      in (if counts \<noteq> 0xffff
          then put_status PX4IO_P_STATUS_VRSSI (word_of_nat (unat counts * 3300 div 4096)) s else s))"

definition refresh_adc :: "io_inputs \<Rightarrow> px4io \<Rightarrow> px4io" where
  "refresh_adc inp s =
     s\<lparr>r_page_scratch := (replicate 32 0)[0 := adc_measure inp 4, 1 := adc_measure inp 5]\<rparr>"

definition refresh_pwm_info :: "io_inputs \<Rightarrow> px4io \<Rightarrow> px4io" where
  "refresh_pwm_info inp s =
     s\<lparr>r_page_scratch := map (\<lambda>i. ucast (up_pwm_servo_get_rate_group inp i)) [0..<PX4IO_SERVO_COUNT]
        @ replicate (32 - PX4IO_SERVO_COUNT) 0\<rparr>"

definition select_page :: "io_inputs \<Rightarrow> u8 \<Rightarrow> px4io \<Rightarrow> (u16 list \<times> px4io) option" where
  "select_page inp page s =
     (if page = PX4IO_PAGE_STATUS then let s = refresh_status inp s in Some (r_page_status s, s)
      else if page = PX4IO_PAGE_RAW_ADC_INPUT then let s = refresh_adc inp s in Some (r_page_scratch s, s)
      else if page = PX4IO_PAGE_PWM_INFO then let s = refresh_pwm_info inp s in Some (r_page_scratch s, s)
      else if page = PX4IO_PAGE_CONFIG then Some (r_page_config, s)
      else if page = PX4IO_PAGE_ACTUATORS then Some (r_page_actuators s, s)
      else if page = PX4IO_PAGE_SERVOS then Some (r_page_servos s, s)
      else if page = PX4IO_PAGE_RAW_RC_INPUT then Some (r_page_raw_rc_input s, s)
      else if page = PX4IO_PAGE_RC_INPUT then Some (r_page_rc_input s, s)
      else if page = PX4IO_PAGE_SETUP then Some (r_page_setup s, s)
      else if page = PX4IO_PAGE_CONTROLS then Some (r_page_controls s, s)
      else if page = PX4IO_PAGE_RC_CONFIG then Some (r_page_rc_input_config s, s)
      else if page = PX4IO_PAGE_DIRECT_PWM then Some (r_page_direct_pwm s, s)
      else if page = PX4IO_PAGE_FAILSAFE_PWM then Some (r_page_servo_failsafe s, s)
      else if page = PX4IO_PAGE_CONTROL_MIN_PWM then Some (r_page_servo_control_min s, s)
      else if page = PX4IO_PAGE_CONTROL_MAX_PWM then Some (r_page_servo_control_max s, s)
      else if page = PX4IO_PAGE_CONTROL_TRIM_PWM then Some (r_page_servo_control_trim s, s)
      else if page = PX4IO_PAGE_DISARMED_PWM then Some (r_page_servo_disarmed s, s)
      else None)"

text \<open>
  The result is the registers from the offset to the end of the page; \<open>None\<close> is the return
  value -1.
\<close>

definition registers_get :: "io_inputs \<Rightarrow> u8 \<Rightarrow> u8 \<Rightarrow> px4io \<Rightarrow> u16 list option \<times> px4io" where
  "registers_get inp page offset s =
     (case select_page inp page s of
        None \<Rightarrow> (None, s)
      | Some (regs, s) \<Rightarrow>
          let s = s\<lparr>last_page := page, last_offset := offset\<rparr>
          in if unat offset \<ge> length regs then (None, s) else (Some (drop (unat offset) regs), s))"

section \<open>What every write keeps\<close>

text \<open>
  The limits of the PWM registers: minimum, maximum, failsafe and disarmed pulse widths, and
  the two update rates, where a rate of 0 selects oneshot.
\<close>

definition rates_ok :: "px4io \<Rightarrow> bool" where
  "rates_ok s \<longleftrightarrow> 25 \<le> r_setup_pwm_defaultrate s \<and> r_setup_pwm_defaultrate s \<le> 400 \<and>
     (r_setup_pwm_altrate s = 0 \<or> 25 \<le> r_setup_pwm_altrate s \<and> r_setup_pwm_altrate s \<le> 400)"

definition pwm_limits :: "px4io \<Rightarrow> bool" where
  "pwm_limits s \<longleftrightarrow>
     (\<forall>v \<in> set (r_page_servo_control_min s). PWM_LOWEST_MIN \<le> v \<and> v \<le> PWM_HIGHEST_MIN) \<and>
     (\<forall>v \<in> set (r_page_servo_control_max s). PWM_LOWEST_MAX \<le> v \<and> v \<le> PWM_HIGHEST_MAX) \<and>
     (\<forall>v \<in> set (r_page_servo_failsafe s). v = 0 \<or> PWM_LOWEST_MIN \<le> v \<and> v \<le> PWM_HIGHEST_MAX) \<and>
     (\<forall>v \<in> set (r_page_servo_disarmed s). v = 0 \<or> PWM_LOWEST_MIN \<le> v \<and> v \<le> PWM_HIGHEST_MAX) \<and>
     rates_ok s"

definition px4io_ok :: "px4io \<Rightarrow> bool" where
  "px4io_ok s \<longleftrightarrow> px4io_wf s \<and> pwm_limits s"

text \<open>
  The flight termination latch: a termination flag stays, and with it a forced failsafe.
\<close>

definition latch_kept :: "u16 \<Rightarrow> u16 \<Rightarrow> bool" where
  "latch_kept a b \<longleftrightarrow>
     (has_flag a PX4IO_P_SETUP_ARMING_TERMINATION_FAILSAFE \<longrightarrow>
        has_flag b PX4IO_P_SETUP_ARMING_TERMINATION_FAILSAFE \<and>
        (has_flag a PX4IO_P_SETUP_ARMING_FORCE_FAILSAFE \<longrightarrow>
           has_flag b PX4IO_P_SETUP_ARMING_FORCE_FAILSAFE))"

definition latched :: "u16 \<Rightarrow> px4io \<Rightarrow> bool" where
  "latched a s \<longleftrightarrow> px4io_ok s \<and> latch_kept a (r_setup_arming s)"

lemma latch_kept_refl [simp]: "latch_kept a a"
  by (simp add: latch_kept_def)

lemma latch_kept_trans: "latch_kept a b \<Longrightarrow> latch_kept b c \<Longrightarrow> latch_kept a c"
  by (auto simp: latch_kept_def)

lemma copy_loop_inv:
  assumes "\<And>off v s. off < lim \<Longrightarrow> P s \<Longrightarrow> P (body off v s)" and "P s"
  shows "P (copy_loop lim body off vs s)"
  using assms(2) by (induction vs arbitrary: off s) (auto intro: assms(1))

lemma latch_arming:
  "has_flag a PX4IO_P_SETUP_ARMING_TERMINATION_FAILSAFE \<Longrightarrow>
     latch_kept a ((v OR a AND PX4IO_P_SETUP_ARMING_TERMINATION_FAILSAFE) OR a AND PX4IO_P_SETUP_ARMING_FORCE_FAILSAFE)"
  "\<not> has_flag a PX4IO_P_SETUP_ARMING_TERMINATION_FAILSAFE \<Longrightarrow> latch_kept a v'"
  using has_flag_bit [of _ 10, where 'a = 16] has_flag_bit [of _ 9, where 'a = 16]
  by (simp_all add: latch_kept_def bit_simps)

text \<open>
  An invariant of the register file is proved for the primitive writes; the locale carries it
  through every handler, block write and sequence of block writes.
\<close>

locale register_invariant =
  fixes I :: "px4io \<Rightarrow> bool"
  assumes rates: "I s \<Longrightarrow> rates_ok s"
    and status: "I s \<Longrightarrow> I (put_status i v s)"
    and rc_conf: "I s \<Longrightarrow> I (put_rc_conf i v s)"
    and event: "I s \<Longrightarrow> I (emit e s)"
    and debug: "I s \<Longrightarrow> I (isr_debug l m s)"
    and flags: "I s \<Longrightarrow> I (s\<lparr>fmu_data_received_time := t\<rparr>)" "I s \<Longrightarrow> I (s\<lparr>update_trims := b\<rparr>)"
      "I s \<Longrightarrow> I (s\<lparr>update_mc_thrust_param := b\<rparr>)" "I s \<Longrightarrow> I (s\<lparr>mix_failsafe := b\<rparr>)"
      "I s \<Longrightarrow> I (s\<lparr>reboot_time := t\<rparr>)" "I s \<Longrightarrow> I (s\<lparr>mixer_reset_pending := b\<rparr>)"
      "I s \<Longrightarrow> I (s\<lparr>mixer_update_pending := b\<rparr>)"
    and mixer_text: "I s \<Longrightarrow> length x < 330 \<Longrightarrow> I (s\<lparr>mixer_text := x\<rparr>)"
    and pages: "I s \<Longrightarrow> I (controls_body off v s)" "I s \<Longrightarrow> I (direct_pwm_body off v s)"
      "I s \<Longrightarrow> I (control_trim_body off v s)" "I s \<Longrightarrow> I (control_min_body off v s)"
      "I s \<Longrightarrow> I (control_max_body off v s)" "I s \<Longrightarrow> I (failsafe_pwm_body off v s)"
      "I (fst sb) \<Longrightarrow> I (fst (disarmed_pwm_body off v sb))"
    and setup_free: "I s \<Longrightarrow> i \<notin> {1, 3, 4} \<Longrightarrow> I (put_setup i v s)"
    and setup_arming: "I s \<Longrightarrow> latch_kept (r_setup_arming s) v \<Longrightarrow> I (put_setup PX4IO_P_SETUP_ARMING v s)"
    and setup_default: "I s \<Longrightarrow> 25 \<le> d \<Longrightarrow> d \<le> 400 \<Longrightarrow> I (put_setup PX4IO_P_SETUP_PWM_DEFAULTRATE d s)"
    and setup_alt: "I s \<Longrightarrow> a = 0 \<or> 25 \<le> a \<and> a \<le> 400 \<Longrightarrow> I (put_setup PX4IO_P_SETUP_PWM_ALTRATE a s)"
begin

lemma rates_group: "I s \<Longrightarrow> I (pwm_set_group inp m g s)"
  by (simp add: pwm_set_group_def Let_def event status)

lemma configure_rates:
  assumes "I s" and "25 \<le> d" "d \<le> 400" and "a = 0 \<or> 25 \<le> a \<and> a \<le> 400"
  shows "I (pwm_configure_rates inp m d a s)"
proof -
  have "I (fold (pwm_set_group inp m) gs s)" for gs
    using assms(1) by (induction gs arbitrary: s) (simp_all add: rates_group)
  then show ?thesis
    using assms by (simp add: pwm_configure_rates_def Let_def status setup_free setup_default setup_alt)
qed

lemma one_status: "I s \<Longrightarrow> I (snd (set_one_status off v s))"
  by (simp add: set_one_status_def Let_def status flags interrupt_mixer_set_failsafe_def)

lemma one_arming: "I s \<Longrightarrow> I (snd (set_one_arming v s))"
  by (simp add: set_one_arming_def Let_def setup_arming status latch_arming)

lemma one_setup:
  assumes "I s" shows "I (snd (set_one_setup inp off v s))"
proof -
  have r: "25 \<le> r_setup_pwm_defaultrate s" "r_setup_pwm_defaultrate s \<le> 400"
    "r_setup_pwm_altrate s = 0 \<or> 25 \<le> r_setup_pwm_altrate s \<and> r_setup_pwm_altrate s \<le> 400"
    using rates [OF assms] by (simp_all add: rates_ok_def)
  have c: "25 \<le> clamp_rate v" "clamp_rate v \<le> 400"
    by (auto simp: clamp_rate_def Let_def not_less)
  show ?thesis
    using assms
    by (simp add: set_one_setup_def set_one_features_def set_one_reboot_def schedule_reboot_def Let_def
        one_arming configure_rates r c debug event flags status setup_free)
qed

lemma one_rc_config:
  assumes "I s" shows "I (snd (set_one_rc_config off v s))"
proof -
  have "latch_kept a (clr_flag a PX4IO_P_SETUP_ARMING_RC_HANDLING_DISABLED)" for a
    by (simp add: latch_kept_def has_flag_clr_disjoint)
  then show ?thesis
    using assms
    by (simp add: set_one_rc_config_def set_one_rc_options_def Let_def rc_conf status debug setup_arming)
qed

lemma set_one: "I s \<Longrightarrow> I (snd (registers_set_one inp page off v s))"
  by (simp add: registers_set_one_def one_status one_setup one_rc_config event)

lemma each: "I s \<Longrightarrow> I (snd (set_each inp page off vs s))"
proof (induction vs arbitrary: off s)
  case (Cons v vs)
  then show ?case using set_one [of s inp page off v]
    by (cases "registers_set_one inp page off v s") simp
qed simp

lemma handle_text: "I s \<Longrightarrow> I (snd (interrupt_mixer_handle_text bs s))"
  by (auto simp: interrupt_mixer_handle_text_def Let_def intro!: debug flags mixer_text status)

lemma disarmed_loop:
  "I s \<Longrightarrow> I (fst (copy_loop lim disarmed_pwm_body off vs (s, b)))"
  by (rule copy_loop_inv [where P = "\<lambda>sb. I (fst sb)"]) (auto intro: pages)

lemma disarmed_page:
  assumes "I s"
  shows "I (snd (case copy_loop lim disarmed_pwm_body off vs (s, b) of (s, d) \<Rightarrow>
      (0 :: int, put_setup PX4IO_P_SETUP_ARMING
            (if d then clr_flag (r_setup_arming s) PX4IO_P_SETUP_ARMING_ALWAYS_PWM_ENABLE
             else set_flag (r_setup_arming s) PX4IO_P_SETUP_ARMING_ALWAYS_PWM_ENABLE) s)))"
proof -
  have "latch_kept a (clr_flag a PX4IO_P_SETUP_ARMING_ALWAYS_PWM_ENABLE)"
    "latch_kept a (set_flag a PX4IO_P_SETUP_ARMING_ALWAYS_PWM_ENABLE)" for a
    by (simp_all add: latch_kept_def has_flag_clr_disjoint has_flag_set)
  then show ?thesis using disarmed_loop [OF assms, of lim off vs b]
    by (simp add: split_beta setup_arming)
qed

theorem write_keeps: "I s \<Longrightarrow> I (snd (registers_set inp page off vs n s))"
  using disarmed_page [of s 8 "unat off" "take n vs" True]
  by (simp add: registers_set_def Let_def handle_text each copy_loop_inv pages status flags event)

end


lemma set_updateD: "v \<in> set (xs[i := x]) \<Longrightarrow> v = x \<or> v \<in> set xs"
  using set_update_subset_insert by fastforce

lemma pwm_limits_frame [simp]:
  "pwm_limits (put_status i v s) = pwm_limits s" "pwm_limits (put_rc_conf i v s) = pwm_limits s"
  "pwm_limits (emit e s) = pwm_limits s" "pwm_limits (isr_debug l m s) = pwm_limits s"
  by (simp_all add: pwm_limits_def rates_ok_def put_defs)

lemma rates_ok_put_setup:
  "rates_ok s \<Longrightarrow> i \<notin> {3, 4} \<Longrightarrow> rates_ok (put_setup i v s)"
  by (simp add: rates_ok_def)

lemma page_bodies_ok:
  assumes "px4io_ok s"
  shows "px4io_ok (control_min_body off v s)" "px4io_ok (control_max_body off v s)"
    "px4io_ok (failsafe_pwm_body off v s)" "px4io_ok (fst (disarmed_pwm_body off v (s, b)))"
  using assms
  by (auto simp: px4io_ok_def px4io_wf_def pwm_limits_def rates_ok_def control_min_body_def
      control_max_body_def failsafe_pwm_body_def disarmed_pwm_body_def Let_def put_setup_def not_less
      dest!: set_updateD)

lemma page_bodies_setup [simp]:
  "r_page_setup (control_min_body off v s) = r_page_setup s"
  "r_page_setup (control_max_body off v s) = r_page_setup s"
  "r_page_setup (fst (disarmed_pwm_body off v sb)) = r_page_setup (fst sb)"
  by (simp_all add: control_min_body_def control_max_body_def disarmed_pwm_body_def Let_def split_beta)

lemma latched_bodies:
  assumes "latched a s"
  shows "latched a (control_min_body off v s)" "latched a (control_max_body off v s)"
    "latched a (failsafe_pwm_body off v s)" "latched a (fst (disarmed_pwm_body off v (s, b)))"
proof -
  have "latch_kept x (set_flag x PX4IO_P_SETUP_ARMING_FAILSAFE_CUSTOM)" for x
    by (simp add: latch_kept_def has_flag_set)
  moreover have "r_setup_arming (failsafe_pwm_body off v s)
      = set_flag (r_setup_arming s) PX4IO_P_SETUP_ARMING_FAILSAFE_CUSTOM"
    using assms by (simp add: failsafe_pwm_body_def Let_def latched_def px4io_ok_def px4io_wf_def)
  ultimately show "latched a (failsafe_pwm_body off v s)"
    using assms by (metis latched_def latch_kept_trans page_bodies_ok(3))
qed (use assms page_bodies_ok in \<open>simp_all add: latched_def\<close>)

interpretation latch_inv: register_invariant "latched a" for a
proof (unfold_locales, goal_cases)
  case (17 s off v) then show ?case by (rule latched_bodies)
next
  case (18 s off v) then show ?case by (rule latched_bodies)
next
  case (19 s off v) then show ?case by (rule latched_bodies)
next
  case (20 sb off v) then show ?case using latched_bodies(4) [of a "fst sb" off v "snd sb"] by simp
next
  case (22 s v) then show ?case
    using latch_kept_trans by (auto simp: latched_def px4io_ok_def pwm_limits_def px4io_wf_def rates_ok_def put_setup_def)
qed (auto simp: latched_def px4io_ok_def pwm_limits_def px4io_wf_def rates_ok_def put_defs isr_debug_def NUM_MSG_def
      controls_body_def direct_pwm_body_def control_trim_body_def)

interpretation ok_inv: register_invariant px4io_ok
proof -
  have "px4io_ok = latched 0"
    by (auto simp: fun_eq_iff latched_def latch_kept_def has_flag_def)
  then show "register_invariant px4io_ok" using latch_inv.register_invariant_axioms [of 0] by simp
qed

section \<open>Sequences of writes, rates and channel options\<close>

type_synonym reg_write = "io_inputs \<times> u8 \<times> u8 \<times> u16 list \<times> nat"

definition write_regs :: "reg_write \<Rightarrow> px4io \<Rightarrow> px4io" where
  "write_regs w s = (case w of (inp, page, off, vs, n) \<Rightarrow> snd (registers_set inp page off vs n s))"

lemma px4io_ok_reset: "px4io_ok px4io_reset"
  unfolding px4io_ok_def by (intro conjI px4io_wf_reset) (simp add: pwm_limits_def rates_ok_def px4io_reset_def)

lemma latched_writes: "latched a s \<Longrightarrow> latched a (fold write_regs ws s)"
  by (induction ws arbitrary: s) (auto simp: write_regs_def latch_inv.write_keeps split: prod.split)

lemma ok_writes: "px4io_ok s \<Longrightarrow> px4io_ok (fold write_regs ws s)"
  by (induction ws arbitrary: s) (auto simp: write_regs_def ok_inv.write_keeps split: prod.split)

lemma copy_loop_controls:
  "r_page_controls (copy_loop lim controls_body off vs s) =
     (if lim \<le> length (r_page_controls s)
      then take off (r_page_controls s) @ take (lim - off) vs
         @ drop (off + min (lim - off) (length vs)) (r_page_controls s)
      else r_page_controls (copy_loop lim controls_body off vs s))"
proof (induction vs arbitrary: off s)
  case (Cons v vs)
  show ?case
  proof (cases "off < lim \<and> lim \<le> length (r_page_controls s)")
    case True
    then obtain d where "lim - off = Suc d" by (metis Suc_diff_Suc)
    with True show ?thesis using Cons.IH [of "Suc off" "controls_body off v s"]
      by (simp add: controls_body_def take_Suc_conv_app_nth diff_Suc split: nat.splits)
  qed auto
qed simp

lemma rate_groups_logged:
  "io_log (fold (pwm_set_group inp m) gs s) =
     rev (map (\<lambda>g. Rate_group g (if ucast m AND up_pwm_servo_get_rate_group inp g \<noteq> 0
            then r_setup_pwm_altrate s else r_setup_pwm_defaultrate s))
        (filter (\<lambda>g. up_pwm_servo_get_rate_group inp g \<noteq> 0) gs)) @ io_log s
   \<and> r_page_setup (fold (pwm_set_group inp m) gs s) = r_page_setup s"
proof (induction gs arbitrary: s)
  case (Cons g gs)
  have "r_page_setup (pwm_set_group inp m g s) = r_page_setup s"
    by (simp add: pwm_set_group_def Let_def)
  then show ?case using Cons [of "pwm_set_group inp m g s"]
    by (simp add: pwm_set_group_def Let_def emit_def put_status_def)
qed simp

lemma low_nibble_cases:
  fixes v :: u16
  shows "v AND 0xF \<in> {0, 1, 2, 3, 4, 5, 6, 7, 8, 9, 10, 11, 12, 13, 14, 15}"
proof -
  have "v AND 0xF = take_bit 4 v"
    by (simp add: take_bit_eq_mask mask_eq_exp_minus_1)
  then have "unat (v AND 0xF) < 16" by (simp add: unsigned_take_bit_eq take_bit_nat_less_exp [of 4, simplified])
  then have "unat (v AND 0xF) \<in> set [0..<16]" by simp
  then have "v AND 0xF \<in> word_of_nat ` set [0..<16]"
    by (intro image_eqI [where x = "unat (v AND 0xF)"]) simp_all
  then show ?thesis by (simp add: upt_rec)
qed

lemma features_nibble:
  assumes "n \<in> {0, 1, 2, 3, 4, 5, 6, 7, 8, 9, 10, 11, 12, 13, 14, 15}"
  shows "features_value n =
     (if has_flag n PX4IO_P_SETUP_FEATURES_SBUS1_OUT then PX4IO_P_SETUP_FEATURES_SBUS1_OUT
      else if has_flag n PX4IO_P_SETUP_FEATURES_SBUS2_OUT then PX4IO_P_SETUP_FEATURES_SBUS2_OUT
      else if has_flag n PX4IO_P_SETUP_FEATURES_ADC_RSSI then PX4IO_P_SETUP_FEATURES_ADC_RSSI
      else if has_flag n PX4IO_P_SETUP_FEATURES_PWM_RSSI then PX4IO_P_SETUP_FEATURES_PWM_RSSI
      else 0)"
  using assms
  by (elim insertE emptyE)
     (simp_all add: features_value_def PX4IO_P_SETUP_FEATURES_VALID_def has_flag_def clr_flag_def Let_def)

lemma controls_registers:
  assumes "px4io_wf s" and "unat offset < 32"
  shows "fst (registers_get inp' PX4IO_PAGE_CONTROLS offset
           (snd (registers_set inp PX4IO_PAGE_CONTROLS offset values n s)))
    = Some (take (32 - unat offset) (take n values)
        @ drop (unat offset + min (32 - unat offset) (length (take n values))) (r_page_controls s))"
proof -
  let ?c = "copy_loop 32 controls_body (unat offset) (take n values) s"
  have len: "length (r_page_controls s) = 32" using assms(1) by (simp add: px4io_wf_def)
  then have "r_page_controls ?c = take (unat offset) (r_page_controls s)
      @ take (32 - unat offset) (take n values)
      @ drop (unat offset + min (32 - unat offset) (length (take n values))) (r_page_controls s)"
    using copy_loop_controls [of 32 "unat offset" "take n values" s] by simp
  then show ?thesis using assms(2) len
    by (simp add: registers_get_def registers_set_def select_page_def Let_def put_status_def)
qed

text \<open>The safety flag through the handlers of one register.\<close>

lemma unat_offset_eq: "unat (o' :: u8) = 12 \<longleftrightarrow> o' = 12" "unat o' = 2 \<longleftrightarrow> o' = 2"
  by (simp_all add: word_unat_eq_iff)

lemma safety_off_status:
  assumes "px4io_wf s" and "\<not> has_flag (r_status_flags s) PX4IO_P_STATUS_FLAGS_SAFETY_OFF"
  shows "has_flag (r_status_flags (snd (set_one_status off v s))) PX4IO_P_STATUS_FLAGS_SAFETY_OFF \<longleftrightarrow>
    off = 2 \<and> has_flag v PX4IO_P_STATUS_FLAGS_SAFETY_OFF \<and> \<not> has_flag v PX4IO_P_STATUS_FLAGS_MIXER_OK
      \<and> \<not> has_flag (r_status_flags s) PX4IO_P_STATUS_FLAGS_ARM_SYNC"
  using assms
  by (auto simp: set_one_status_def Let_def interrupt_mixer_set_failsafe_def px4io_wf_def has_flag_set)
     (simp_all add: has_flag_def)

lemma configure_rates_flags:
  "px4io_wf s \<Longrightarrow> r_status_flags (pwm_configure_rates inp m d a s) = r_status_flags s"
proof -
  have "px4io_wf (pwm_set_group inp m g s)" if "px4io_wf s" for g s
    using that by (simp add: pwm_set_group_def Let_def)
  moreover have "r_status_flags (pwm_set_group inp m g s) = r_status_flags s" for g s
    by (simp add: pwm_set_group_def Let_def)
  ultimately have "r_status_flags (fold (pwm_set_group inp m) gs s) = r_status_flags s" for gs
    by (induction gs arbitrary: s) simp_all
  then show "px4io_wf s \<Longrightarrow> ?thesis" by (simp add: pwm_configure_rates_def Let_def)
qed

lemma safety_off_setup:
  assumes "px4io_wf s" and "\<not> has_flag (r_status_flags s) PX4IO_P_STATUS_FLAGS_SAFETY_OFF"
  shows "has_flag (r_status_flags (snd (set_one_setup inp off v s))) PX4IO_P_STATUS_FLAGS_SAFETY_OFF \<longleftrightarrow>
    off = 12 \<and> v = PX4IO_FORCE_SAFETY_MAGIC"
proof (cases "off = 1 \<or> off = 12 \<or> off = 14")
  case True
  have "has_flag (0x1000 :: u16) 0x1000" "\<not> has_flag (0x400 :: u16) 0x1000" by (simp_all add: has_flag_def)
  with True show ?thesis using assms
    by (auto simp: set_one_setup_def set_one_arming_def Let_def px4io_wf_def has_flag_set has_flag_clr_same)
next
  case False
  then show ?thesis using assms
    by (simp add: set_one_setup_def set_one_features_def set_one_reboot_def schedule_reboot_def Let_def
        configure_rates_flags)
qed

lemma safety_off_rc:
  assumes "px4io_wf s" and "\<not> has_flag (r_status_flags s) PX4IO_P_STATUS_FLAGS_SAFETY_OFF"
  shows "\<not> has_flag (r_status_flags (snd (set_one_rc_config off v s))) PX4IO_P_STATUS_FLAGS_SAFETY_OFF"
proof -
  have "\<not> has_flag (0x400 :: u16) 0x1000" by (simp add: has_flag_def)
  then show ?thesis using assms
    by (auto simp: set_one_rc_config_def set_one_rc_options_def Let_def px4io_wf_def has_flag_set
        dest!: has_flag_clr_mono)
qed

text \<open>A channel configuration that passes every check.\<close>

definition rc_conf_sane :: "u16 list \<Rightarrow> nat \<Rightarrow> bool" where
  "rc_conf_sane page conf \<longleftrightarrow>
     500 \<le> page ! (conf + PX4IO_P_RC_CONFIG_MIN) \<and>
     page ! (conf + PX4IO_P_RC_CONFIG_MIN) \<le> page ! (conf + PX4IO_P_RC_CONFIG_CENTER) \<and>
     page ! (conf + PX4IO_P_RC_CONFIG_CENTER) \<le> page ! (conf + PX4IO_P_RC_CONFIG_MAX) \<and>
     page ! (conf + PX4IO_P_RC_CONFIG_MAX) \<le> 2500 \<and>
     page ! (conf + PX4IO_P_RC_CONFIG_DEADZONE) \<le> 500 \<and>
     (page ! (conf + PX4IO_P_RC_CONFIG_ASSIGNMENT) < 8
      \<or> page ! (conf + PX4IO_P_RC_CONFIG_ASSIGNMENT) = PX4IO_P_RC_CONFIG_ASSIGNMENT_MODESWITCH
      \<or> page ! (conf + PX4IO_P_RC_CONFIG_ASSIGNMENT) = 0xFF)"

lemma sum_of_bits_zero:
  fixes a b c d e f :: bool
  shows "(if a then 1 else 0) + (if b then 1 else 0) + (if c then 1 else 0) + (if d then 1 else 0)
     + (if e then 1 else 0) + (if f then 1 else 0) = (0 :: u8) \<longleftrightarrow> \<not> (a \<or> b \<or> c \<or> d \<or> e \<or> f)"
  by (cases a; cases b; cases c; cases d; cases e; cases f) simp_all

lemma rc_conf_errors_0: "rc_conf_errors page conf = 0 \<longleftrightarrow> rc_conf_sane page conf"
proof -
  have nest: "(if p then 0 else if q then 1 else 0) = (if \<not> p \<and> q then 1 else (0 :: u8))" for p q
    by simp
  show ?thesis
    unfolding rc_conf_errors_def nest sum_of_bits_zero rc_conf_sane_def by (auto simp: not_less not_le)
qed

lemma rc_conf_sane_options [simp]:
  "rc_conf_sane (page[conf + PX4IO_P_RC_CONFIG_OPTIONS := v]) conf = rc_conf_sane page conf"
  by (simp add: rc_conf_sane_def)

section \<open>Properties\<close>

text \<open>
  C3. No sequence of register writes, from whatever page, offset and length, brings the
  coprocessor out of its limits: starting from the reset state every page keeps its size, the
  mixer text stays inside its buffer, and the minimum, maximum, failsafe and disarmed pulse
  widths and the two PWM rates stay inside the ranges of the PWM driver.
\<close>

theorem writes_keep_pwm_limits: "px4io_ok (fold write_regs ws px4io_reset)"
  by (rule ok_writes) (rule px4io_ok_reset)

text \<open>
  C2. Flight termination latches: once the termination failsafe is set in the arming register,
  no sequence of writes clears it, and none clears a forced failsafe that was set with it.
\<close>

theorem termination_latches:
  assumes "px4io_ok s" and "has_flag (r_setup_arming s) PX4IO_P_SETUP_ARMING_TERMINATION_FAILSAFE"
  shows "has_flag (r_setup_arming (fold write_regs ws s)) PX4IO_P_SETUP_ARMING_TERMINATION_FAILSAFE
    \<and> (has_flag (r_setup_arming s) PX4IO_P_SETUP_ARMING_FORCE_FAILSAFE \<longrightarrow>
        has_flag (r_setup_arming (fold write_regs ws s)) PX4IO_P_SETUP_ARMING_FORCE_FAILSAFE)"
proof -
  have "latched (r_setup_arming s) (fold write_regs ws s)"
    by (rule latched_writes) (simp add: latched_def assms(1))
  then show ?thesis using assms(2) by (simp add: latched_def latch_kept_def)
qed

definition demo_inputs :: io_inputs where
  "demo_inputs = \<lparr>now = 1000, adc_measure = (\<lambda>c. 0), up_pwm_servo_get_rate_group = (\<lambda>g. if g < 4 then push_bit (2 * g) 3 else 0),
     set_rate_group_ok = (\<lambda>g r. True)\<rparr>"

theorem termination_latches_witness:
  "has_flag (r_setup_arming (write_regs (demo_inputs, PX4IO_PAGE_SETUP, 1, [0], 1)
     (put_setup PX4IO_P_SETUP_ARMING 0x600 px4io_reset))) PX4IO_P_SETUP_ARMING_FORCE_FAILSAFE"
proof -
  let ?s = "put_setup PX4IO_P_SETUP_ARMING 0x600 px4io_reset"
  have "px4io_ok ?s" by (rule ok_inv.setup_arming [OF px4io_ok_reset])
      (simp add: latch_kept_def has_flag_def px4io_reset_def)
  moreover have "r_setup_arming ?s = 0x600" by (simp add: px4io_reset_def One_nat_def)
  ultimately show ?thesis
    using termination_latches [of ?s "[(demo_inputs, PX4IO_PAGE_SETUP, 1, [0], 1)]"]
    by (simp add: has_flag_def)
qed

text \<open>
  C8. How the safety can go off by a register write: exactly by the magic number in the force
  safety off register, or, while the arming state is not in sync, by a restore of the status
  flags that carries the flag and not the mixer flag.
\<close>

theorem safety_off_only_by:
  assumes "px4io_wf s" and "\<not> has_flag (r_status_flags s) PX4IO_P_STATUS_FLAGS_SAFETY_OFF"
  shows "has_flag (r_status_flags (snd (registers_set_one inp page offset value s)))
      PX4IO_P_STATUS_FLAGS_SAFETY_OFF \<longleftrightarrow>
    page = PX4IO_PAGE_SETUP \<and> offset = 12 \<and> value = PX4IO_FORCE_SAFETY_MAGIC
    \<or> page = PX4IO_PAGE_STATUS \<and> offset = 2 \<and> has_flag value PX4IO_P_STATUS_FLAGS_SAFETY_OFF
      \<and> \<not> has_flag value PX4IO_P_STATUS_FLAGS_MIXER_OK
      \<and> \<not> has_flag (r_status_flags s) PX4IO_P_STATUS_FLAGS_ARM_SYNC"
proof -
  consider (status) "page = PX4IO_PAGE_STATUS" | (set_up) "page = PX4IO_PAGE_SETUP"
    | (rc) "page = PX4IO_PAGE_RC_CONFIG"
    | (other) "page \<noteq> PX4IO_PAGE_STATUS" "page \<noteq> PX4IO_PAGE_SETUP" "page \<noteq> PX4IO_PAGE_RC_CONFIG" by blast
  then show ?thesis
  proof cases
    case status
    then show ?thesis using assms safety_off_status [OF assms, of "unat offset" "value"]
      by (simp add: registers_set_one_def unat_offset_eq)
  next
    case set_up
    then show ?thesis using assms safety_off_setup [OF assms, of inp "unat offset" "value"]
      by (simp add: registers_set_one_def unat_offset_eq)
  next
    case rc
    then show ?thesis using assms safety_off_rc [OF assms, of "unat offset" "value"]
      by (simp add: registers_set_one_def)
  qed (use assms in \<open>simp add: registers_set_one_def\<close>)
qed

theorem safety_off_only_by_witness:
  "px4io_wf px4io_reset
   \<and> \<not> has_flag (r_status_flags px4io_reset) PX4IO_P_STATUS_FLAGS_SAFETY_OFF
   \<and> has_flag (r_status_flags (snd (registers_set_one demo_inputs PX4IO_PAGE_SETUP 12 22027 px4io_reset)))
       PX4IO_P_STATUS_FLAGS_SAFETY_OFF
   \<and> \<not> has_flag (r_status_flags (snd (registers_set_one demo_inputs PX4IO_PAGE_SETUP 12 22026 px4io_reset)))
       PX4IO_P_STATUS_FLAGS_SAFETY_OFF"
proof -
  have s: "px4io_wf px4io_reset" "\<not> has_flag (r_status_flags px4io_reset) PX4IO_P_STATUS_FLAGS_SAFETY_OFF"
    by (simp_all add: px4io_wf_reset) (simp add: px4io_reset_def has_flag_def)
  show ?thesis using s safety_off_only_by [OF s, of demo_inputs PX4IO_PAGE_SETUP 12] by simp
qed

text \<open>
  The features register holds at most one option, chosen by precedence: S.Bus 1, then
  S.Bus 2, then the ADC RSSI, then the PWM RSSI.
\<close>

theorem features_exclusive:
  "features_value v =
     (if has_flag v PX4IO_P_SETUP_FEATURES_SBUS1_OUT then PX4IO_P_SETUP_FEATURES_SBUS1_OUT
      else if has_flag v PX4IO_P_SETUP_FEATURES_SBUS2_OUT then PX4IO_P_SETUP_FEATURES_SBUS2_OUT
      else if has_flag v PX4IO_P_SETUP_FEATURES_ADC_RSSI then PX4IO_P_SETUP_FEATURES_ADC_RSSI
      else if has_flag v PX4IO_P_SETUP_FEATURES_PWM_RSSI then PX4IO_P_SETUP_FEATURES_PWM_RSSI
      else 0)"
proof -
  let ?n = "v AND 0xF"
  have flags: "has_flag v 1 = has_flag ?n 1" "has_flag v 2 = has_flag ?n 2"
    "has_flag v 4 = has_flag ?n 4" "has_flag v 8 = has_flag ?n 8"
    by (simp_all add: has_flag_def and.assoc)
  have "features_value v = features_value ?n"
    by (simp add: features_value_def PX4IO_P_SETUP_FEATURES_VALID_def and.assoc)
  then show ?thesis
    unfolding flags using features_nibble [OF low_nibble_cases [of v]] by (rule trans)
qed

text \<open>
  Controls written by the flight management unit read back: after a write of the controls
  page the read from the same offset returns the written values, as far as they fit in the page,
  followed by what the page held beyond them.
\<close>

lemma controls_read_back:
  assumes "px4io_wf s" and "unat offset < 32"
  shows "fst (registers_get inp' PX4IO_PAGE_CONTROLS offset
           (snd (registers_set inp PX4IO_PAGE_CONTROLS offset values n s)))
    = Some (take (32 - unat offset) (take n values)
        @ drop (unat offset + min (32 - unat offset) (length (take n values))) (r_page_controls s))"
  by (rule controls_registers [OF assms])

text \<open>
  The PWM rates change together or not at all.  A map that would split a rate group leaves
  the three registers and the timers alone and raises the PWM alarm.  A legal map is stored with
  the two rates, and each rate group is programmed once, with the rates that the registers held
  before the write.
\<close>

theorem pwm_rates_transaction:
  assumes "px4io_wf s"
  shows "if pwm_preflight inp m
    then r_setup_pwm_rates (pwm_configure_rates inp m d a s) = m
      \<and> r_setup_pwm_defaultrate (pwm_configure_rates inp m d a s) = d
      \<and> r_setup_pwm_altrate (pwm_configure_rates inp m d a s) = a
      \<and> io_log (pwm_configure_rates inp m d a s) =
          rev (map (\<lambda>g. Rate_group g (if ucast m AND up_pwm_servo_get_rate_group inp g \<noteq> 0
                 then r_setup_pwm_altrate s else r_setup_pwm_defaultrate s))
            (filter (\<lambda>g. up_pwm_servo_get_rate_group inp g \<noteq> 0) [0..<PX4IO_SERVO_COUNT])) @ io_log s
    else pwm_configure_rates inp m d a s = put_status PX4IO_P_STATUS_ALARMS
           (set_flag (r_status_alarms s) PX4IO_P_STATUS_ALARMS_PWM_ERROR) s"
proof -
  have "length (r_page_setup (fold (pwm_set_group inp m) [0..<PX4IO_SERVO_COUNT] s)) = 29"
    using rate_groups_logged [of inp m "[0..<PX4IO_SERVO_COUNT]" s] assms by (simp add: px4io_wf_def)
  then show ?thesis
    using rate_groups_logged [of inp m "[0..<PX4IO_SERVO_COUNT]" s]
    by (auto simp: pwm_configure_rates_def Let_def put_setup_def simp del: upt.simps)
qed

theorem pwm_rates_transaction_witness:
  "px4io_wf px4io_reset \<and>
   r_setup_pwm_defaultrate (pwm_configure_rates demo_inputs 3 100 200 px4io_reset) = 100 \<and>
   io_log (pwm_configure_rates demo_inputs 3 100 200 px4io_reset) =
     [Rate_group 3 50, Rate_group 2 50, Rate_group 1 50, Rate_group 0 200]"
proof -
  have "pwm_preflight demo_inputs 3"
    by (simp add: pwm_preflight_def demo_inputs_def upt_rec Let_def One_nat_def)
  then show ?thesis
    using pwm_rates_transaction [OF px4io_wf_reset, of demo_inputs 3 100 200] px4io_wf_reset
    by (simp add: demo_inputs_def px4io_reset_def upt_rec One_nat_def)
qed

text \<open>
  A remote control channel is enabled only after its checks: with the safety on, a write of
  the options register of a channel leaves it enabled exactly when the write asks for it, the
  limits are ordered and in range, the dead zone is sane and the assignment is one the firmware
  knows and not the unassigned one.
\<close>

theorem rc_channel_enabled_iff_sane:
  assumes "px4io_wf s" and "\<not> has_flag (r_status_flags s) PX4IO_P_STATUS_FLAGS_SAFETY_OFF"
    and "c < PX4IO_RC_INPUT_CHANNELS"
  shows "has_flag (r_page_rc_input_config (snd (set_one_rc_config (6 * c + 5) v s)) ! (6 * c + 5))
      PX4IO_P_RC_CONFIG_OPTIONS_ENABLED
    \<longleftrightarrow> has_flag v PX4IO_P_RC_CONFIG_OPTIONS_ENABLED
      \<and> rc_conf_sane (r_page_rc_input_config s) (6 * c)
      \<and> r_page_rc_input_config s ! (6 * c + PX4IO_P_RC_CONFIG_ASSIGNMENT) \<noteq> 0xFF"
proof -
  let ?v = "v AND PX4IO_P_RC_CONFIG_OPTIONS_VALID"
  have idx: "(6 * c + 5) div 6 = c" "6 * c + 5 < 108" using assms(3) by auto
  have v: "has_flag ?v 1 = has_flag v 1"
    by (simp add: has_flag_def PX4IO_P_RC_CONFIG_OPTIONS_VALID_def and.assoc)
  have one: "has_flag (1 :: u16) 1" by (simp add: has_flag_def)
  show ?thesis
    using assms idx v one
    by (simp add: set_one_rc_config_def set_one_rc_options_def Let_def px4io_wf_def mult.commute
        rc_conf_errors_0 has_flag_clr_same has_flag_set)
qed

theorem rc_channel_enabled_iff_sane_witness:
  "\<not> has_flag (r_page_rc_input_config (snd (set_one_rc_config (6 * 2 + 5) 1 px4io_reset)) ! (6 * 2 + 5))
     PX4IO_P_RC_CONFIG_OPTIONS_ENABLED"
  using rc_channel_enabled_iff_sane [of px4io_reset 2 1] px4io_wf_reset
  by (simp add: px4io_reset_def has_flag_def rc_conf_sane_def)

text \<open>
  The checks are not repeated when a limit changes: with the safety on, a write of the
  minimum, centre, maximum, dead zone or assignment of an enabled channel stores the value
  unchecked and leaves the channel enabled, although the comment at that point says that the
  channel is disabled until its values have been checked.
\<close>

theorem rc_limit_change_keeps_channel_enabled:
  assumes "px4io_wf s" and "\<not> has_flag (r_status_flags s) PX4IO_P_STATUS_FLAGS_SAFETY_OFF"
    and "c < PX4IO_RC_INPUT_CHANNELS" and "i < PX4IO_P_RC_CONFIG_OPTIONS"
    and "has_flag (r_page_rc_input_config s ! (6 * c + 5)) PX4IO_P_RC_CONFIG_OPTIONS_ENABLED"
  shows "has_flag (r_page_rc_input_config (snd (set_one_rc_config (6 * c + i) v s)) ! (6 * c + 5))
      PX4IO_P_RC_CONFIG_OPTIONS_ENABLED
    \<and> r_page_rc_input_config (snd (set_one_rc_config (6 * c + i) v s)) ! (6 * c + i) = v"
proof -
  have idx: "(6 * c + i) div 6 = c" "6 * c + 5 < 108" "i \<in> {0, 1, 2, 3, 4}" using assms(3,4) by auto
  then show ?thesis
    using assms by (auto simp: set_one_rc_config_def Let_def px4io_wf_def mult.commute has_flag_def and.assoc)
qed

theorem rc_limit_change_keeps_channel_enabled_witness:
  "has_flag (r_page_rc_input_config (snd (set_one_rc_config (6 * 2 + 0) 9999
       (put_rc_conf 17 PX4IO_P_RC_CONFIG_OPTIONS_ENABLED px4io_reset))) ! (6 * 2 + 5))
     PX4IO_P_RC_CONFIG_OPTIONS_ENABLED"
  using rc_limit_change_keeps_channel_enabled
    [of "put_rc_conf 17 PX4IO_P_RC_CONFIG_OPTIONS_ENABLED px4io_reset" 2 0 9999] px4io_wf_reset
  by (simp add: px4io_reset_def has_flag_def)

end
