(* ===== verification/Px4io_Safety.thy ===== *)
theory Px4io_Safety
  imports Px4io_Registers
begin

text \<open>
  The safety switch and its lights: \<open>px4iofirmware/safety.c\<close>.  \<open>safety_check_button\<close> runs at
  10 Hz and \<open>failsafe_blink\<close> at 8 Hz from the callout queue; their static variables are the
  record \<open>safety_vars\<close>.
\<close>

section \<open>Definitions\<close>

record safety_vars =
  counter :: u32
  blink_counter :: u32
  failsafe :: bool

definition safety_start :: safety_vars where
  "safety_start = \<lparr>counter = 0, blink_counter = 0, failsafe = False\<rparr>"

definition LED_PATTERN_FMU_OK_TO_ARM :: u16 where "LED_PATTERN_FMU_OK_TO_ARM = 0x0003"
definition LED_PATTERN_FMU_REFUSE_TO_ARM :: u16 where "LED_PATTERN_FMU_REFUSE_TO_ARM = 0x5555"
definition LED_PATTERN_IO_ARMED :: u16 where "LED_PATTERN_IO_ARMED = 0x5050"
definition LED_PATTERN_FMU_ARMED :: u16 where "LED_PATTERN_FMU_ARMED = 0x5500"
definition LED_PATTERN_IO_FMU_ARMED :: u16 where "LED_PATTERN_IO_FMU_ARMED = 0xffff"
definition ARM_COUNTER_THRESHOLD :: u32 where "ARM_COUNTER_THRESHOLD = 10"

definition safety_pattern :: "px4io \<Rightarrow> u16" where
  "safety_pattern s =
     (if has_flag (r_status_flags s) PX4IO_P_STATUS_FLAGS_SAFETY_OFF then
        if has_flag (r_setup_arming s) PX4IO_P_SETUP_ARMING_FMU_ARMED then LED_PATTERN_IO_FMU_ARMED
        else LED_PATTERN_IO_ARMED
      else if has_flag (r_setup_arming s) PX4IO_P_SETUP_ARMING_FMU_ARMED then LED_PATTERN_FMU_ARMED
      else if has_flag (r_setup_arming s) PX4IO_P_SETUP_ARMING_IO_ARM_OK then LED_PATTERN_FMU_OK_TO_ARM
      else LED_PATTERN_FMU_REFUSE_TO_ARM)"

definition safety_check_button :: "bool \<Rightarrow> safety_vars \<times> px4io \<Rightarrow> safety_vars \<times> px4io" where
  "safety_check_button safety_button_pressed vs =
     (case vs of (v, s) \<Rightarrow>
      let (v, s) =
        (if safety_button_pressed \<and> \<not> has_flag (r_status_flags s) PX4IO_P_STATUS_FLAGS_SAFETY_OFF
            \<and> has_flag (r_setup_arming s) PX4IO_P_SETUP_ARMING_IO_ARM_OK then
           let v = (if counter v \<le> ARM_COUNTER_THRESHOLD then v\<lparr>counter := counter v + 1\<rparr> else v)
           in (v, if counter v = ARM_COUNTER_THRESHOLD
                  then put_status PX4IO_P_STATUS_FLAGS
                         (atomic_modify_or (r_status_flags s) PX4IO_P_STATUS_FLAGS_SAFETY_OFF) s
                  else s)
         else (v\<lparr>counter := 0\<rparr>, s));
          s = emit (Led_safety (bit (safety_pattern s) (unat (blink_counter v)))) s;
          v = v\<lparr>blink_counter := blink_counter v + 1\<rparr>;
          v = (if blink_counter v > 15 then v\<lparr>blink_counter := 0\<rparr> else v)
      in (v, s))"

definition failsafe_blink :: "safety_vars \<times> px4io \<Rightarrow> safety_vars \<times> px4io" where
  "failsafe_blink vs =
     (case vs of (v, s) \<Rightarrow>
      if \<not> has_flag (r_status_flags s) PX4IO_P_STATUS_FLAGS_INIT_OK then (v, emit (Led_amber True) s)
      else
        let v = v\<lparr>failsafe := (if \<not> has_flag (r_status_flags s) PX4IO_P_STATUS_FLAGS_FMU_OK
                               then \<not> failsafe v else False)\<rparr>
        in (v, emit (Led_amber (failsafe v)) s))"

section \<open>Lemmas\<close>

text \<open>
  The bounds of the static variables: the counter stops one above the threshold (it gets there
  when the safety is forced on again while the button is still held), and the position in the
  flash pattern stays inside the sixteen bits of the pattern.
\<close>

definition safety_vars_ok :: "safety_vars \<Rightarrow> bool" where
  "safety_vars_ok v \<longleftrightarrow> counter v \<le> ARM_COUNTER_THRESHOLD + 1 \<and> blink_counter v \<le> 15"

lemma safety_vars_ok_start: "safety_vars_ok safety_start"
  by (simp add: safety_vars_ok_def safety_start_def)

definition button_counts :: "bool \<Rightarrow> px4io \<Rightarrow> bool" where
  "button_counts pressed s \<longleftrightarrow> pressed \<and> \<not> has_flag (r_status_flags s) PX4IO_P_STATUS_FLAGS_SAFETY_OFF
     \<and> has_flag (r_setup_arming s) PX4IO_P_SETUP_ARMING_IO_ARM_OK"

lemma blink_next: "(b :: u32) \<le> 15 \<Longrightarrow> (if b + 1 > 15 then 0 else b + 1) \<le> 15"
  by (auto simp: not_less)

lemma safety_check_button_eq:
  "safety_check_button p (v, s) =
     (let c = (if button_counts p s then if counter v \<le> ARM_COUNTER_THRESHOLD then counter v + 1 else counter v
               else 0);
          s' = (if button_counts p s \<and> c = ARM_COUNTER_THRESHOLD
                then put_status PX4IO_P_STATUS_FLAGS
                       (set_flag (r_status_flags s) PX4IO_P_STATUS_FLAGS_SAFETY_OFF) s else s)
      in (v\<lparr>counter := c, blink_counter := (if blink_counter v + 1 > 15 then 0 else blink_counter v + 1)\<rparr>,
          emit (Led_safety (bit (safety_pattern s') (unat (blink_counter v)))) s'))"
  by (simp add: safety_check_button_def button_counts_def Let_def atomic_modify_or)

lemma counter_step:
  fixes c :: u32
  shows "c \<le> ARM_COUNTER_THRESHOLD \<Longrightarrow> c + 1 \<le> ARM_COUNTER_THRESHOLD + 1"
proof -
  assume "c \<le> ARM_COUNTER_THRESHOLD"
  then have "unat c \<le> 10" by (simp add: word_le_nat_alt ARM_COUNTER_THRESHOLD_def)
  then have "unat (c + 1) = unat c + 1" by (simp add: unat_word_ariths)
  with \<open>unat c \<le> 10\<close> show ?thesis by (simp add: word_le_nat_alt ARM_COUNTER_THRESHOLD_def)
qed

lemma safety_vars_ok_button: "safety_vars_ok (fst vs) \<Longrightarrow> safety_vars_ok (fst (safety_check_button p vs))"
  using blink_next [of "blink_counter (fst vs)"] counter_step [of "counter (fst vs)"]
  by (cases vs) (auto simp: safety_check_button_eq safety_vars_ok_def Let_def ARM_COUNTER_THRESHOLD_def)

lemma safety_button_wf: "px4io_ok (snd vs) \<Longrightarrow> px4io_ok (snd (safety_check_button p vs))"
  by (cases vs) (simp add: safety_check_button_eq Let_def ok_inv.event ok_inv.status)

lemma failsafe_blink_keeps:
  "px4io_ok (snd vs) \<Longrightarrow> px4io_ok (snd (failsafe_blink vs))"
  "safety_vars_ok (fst vs) \<Longrightarrow> safety_vars_ok (fst (failsafe_blink vs))"
  by (cases vs; simp add: failsafe_blink_def Let_def ok_inv.event safety_vars_ok_def)+

lemma safety_button_setup [simp]: "r_page_setup (snd (safety_check_button p vs)) = r_page_setup (snd vs)"
  by (cases vs) (simp add: safety_check_button_eq Let_def)

lemma safety_stays_off:
  "has_flag (r_status_flags (snd vs)) PX4IO_P_STATUS_FLAGS_SAFETY_OFF \<Longrightarrow>
   r_status_flags (snd (safety_check_button p vs)) = r_status_flags (snd vs)"
  by (cases vs) (simp add: safety_check_button_eq button_counts_def Let_def)

lemma safety_stays_off_pow:
  "has_flag (r_status_flags (snd vs)) PX4IO_P_STATUS_FLAGS_SAFETY_OFF \<Longrightarrow>
   has_flag (r_status_flags (snd ((safety_check_button p ^^ n) vs))) PX4IO_P_STATUS_FLAGS_SAFETY_OFF"
  by (induction n) (simp_all add: safety_stays_off)

lemma safety_hold:
  assumes "px4io_wf s" and "counter v = 0"
    and "\<not> has_flag (r_status_flags s) PX4IO_P_STATUS_FLAGS_SAFETY_OFF"
    and "has_flag (r_setup_arming s) PX4IO_P_SETUP_ARMING_IO_ARM_OK"
  shows "k \<le> 10 \<Longrightarrow> (case (safety_check_button True ^^ k) (v, s) of (v', s') \<Rightarrow>
     px4io_wf s' \<and> counter v' = word_of_nat k \<and> r_page_setup s' = r_page_setup s \<and>
     (has_flag (r_status_flags s') PX4IO_P_STATUS_FLAGS_SAFETY_OFF \<longleftrightarrow> k = 10))"
proof (induction k)
  case 0
  then show ?case using assms by simp
next
  case (Suc k)
  obtain v' s' where vs: "(safety_check_button True ^^ k) (v, s) = (v', s')" by fastforce
  with Suc have IH: "px4io_wf s'" "counter v' = word_of_nat k" "r_page_setup s' = r_page_setup s"
    "\<not> has_flag (r_status_flags s') PX4IO_P_STATUS_FLAGS_SAFETY_OFF" by simp_all
  have k: "unat (word_of_nat k :: u32) = k" using Suc.prems by (simp add: unat_of_nat)
  then have "unat (word_of_nat k + 1 :: u32) = k + 1" using Suc.prems by (simp add: unat_word_ariths)
  with k Suc.prems have le: "word_of_nat k \<le> ARM_COUNTER_THRESHOLD"
    "word_of_nat k + 1 = ARM_COUNTER_THRESHOLD \<longleftrightarrow> k = 9"
    by (simp_all add: word_le_nat_alt word_unat_eq_iff ARM_COUNTER_THRESHOLD_def)
  have "button_counts True s'" using IH assms(4) by (simp add: button_counts_def)
  moreover have "2 < length (r_page_status s')" using IH(1) by (simp add: px4io_wf_def)
  ultimately show ?case using vs IH le
    by (auto simp: safety_check_button_eq Let_def has_flag_set_same)
qed

section \<open>Properties\<close>


definition arm_ok_state :: px4io where
  "arm_ok_state = put_setup PX4IO_P_SETUP_ARMING PX4IO_P_SETUP_ARMING_IO_ARM_OK px4io_reset"


end
