(* ===== verification/Px4io_Serial.thy ===== *)
theory Px4io_Serial
  imports Px4io_Registers Crc
begin

text \<open>
  The serial link to the flight management unit: \<open>px4iofirmware/serial.c\<close> with the packet
  layout and checksum of \<open>protocol.h\<close>.  A packet announces up to 63 registers in its six bit
  count while the buffer \<open>dma_packet\<close> holds 32; what lies behind the buffer in memory is the
  argument \<open>adj\<close> of the operations that may read it.  The UART registers, the DMA channels and
  the bytes handed to the transmitter are the record \<open>serial\<close>.
\<close>

section \<open>Definitions\<close>

definition crc8_tab :: "u8 list" where
  "crc8_tab = [
    0x00, 0x07, 0x0E, 0x09, 0x1C, 0x1B, 0x12, 0x15, 0x38, 0x3F, 0x36, 0x31, 0x24, 0x23, 0x2A, 0x2D,
    0x70, 0x77, 0x7E, 0x79, 0x6C, 0x6B, 0x62, 0x65, 0x48, 0x4F, 0x46, 0x41, 0x54, 0x53, 0x5A, 0x5D,
    0xE0, 0xE7, 0xEE, 0xE9, 0xFC, 0xFB, 0xF2, 0xF5, 0xD8, 0xDF, 0xD6, 0xD1, 0xC4, 0xC3, 0xCA, 0xCD,
    0x90, 0x97, 0x9E, 0x99, 0x8C, 0x8B, 0x82, 0x85, 0xA8, 0xAF, 0xA6, 0xA1, 0xB4, 0xB3, 0xBA, 0xBD,
    0xC7, 0xC0, 0xC9, 0xCE, 0xDB, 0xDC, 0xD5, 0xD2, 0xFF, 0xF8, 0xF1, 0xF6, 0xE3, 0xE4, 0xED, 0xEA,
    0xB7, 0xB0, 0xB9, 0xBE, 0xAB, 0xAC, 0xA5, 0xA2, 0x8F, 0x88, 0x81, 0x86, 0x93, 0x94, 0x9D, 0x9A,
    0x27, 0x20, 0x29, 0x2E, 0x3B, 0x3C, 0x35, 0x32, 0x1F, 0x18, 0x11, 0x16, 0x03, 0x04, 0x0D, 0x0A,
    0x57, 0x50, 0x59, 0x5E, 0x4B, 0x4C, 0x45, 0x42, 0x6F, 0x68, 0x61, 0x66, 0x73, 0x74, 0x7D, 0x7A,
    0x89, 0x8E, 0x87, 0x80, 0x95, 0x92, 0x9B, 0x9C, 0xB1, 0xB6, 0xBF, 0xB8, 0xAD, 0xAA, 0xA3, 0xA4,
    0xF9, 0xFE, 0xF7, 0xF0, 0xE5, 0xE2, 0xEB, 0xEC, 0xC1, 0xC6, 0xCF, 0xC8, 0xDD, 0xDA, 0xD3, 0xD4,
    0x69, 0x6E, 0x67, 0x60, 0x75, 0x72, 0x7B, 0x7C, 0x51, 0x56, 0x5F, 0x58, 0x4D, 0x4A, 0x43, 0x44,
    0x19, 0x1E, 0x17, 0x10, 0x05, 0x02, 0x0B, 0x0C, 0x21, 0x26, 0x2F, 0x28, 0x3D, 0x3A, 0x33, 0x34,
    0x4E, 0x49, 0x40, 0x47, 0x52, 0x55, 0x5C, 0x5B, 0x76, 0x71, 0x78, 0x7F, 0x6A, 0x6D, 0x64, 0x63,
    0x3E, 0x39, 0x30, 0x37, 0x22, 0x25, 0x2C, 0x2B, 0x06, 0x01, 0x08, 0x0F, 0x1A, 0x1D, 0x14, 0x13,
    0xAE, 0xA9, 0xA0, 0xA7, 0xB2, 0xB5, 0xBC, 0xBB, 0x96, 0x91, 0x98, 0x9F, 0x8A, 0x8D, 0x84, 0x83,
    0xDE, 0xD9, 0xD0, 0xD7, 0xC2, 0xC5, 0xCC, 0xCB, 0xE6, 0xE1, 0xE8, 0xEF, 0xFA, 0xFD, 0xF4, 0xF3]"

record iopacket =
  count_code :: u8
  pk_crc :: u8
  pk_page :: u8
  pk_offset :: u8
  pk_regs :: "u16 list"

abbreviation PKT_MAX_REGS :: nat where "PKT_MAX_REGS \<equiv> 32"
abbreviation PKT_CODE_READ :: u8 where "PKT_CODE_READ \<equiv> 0x00"
abbreviation PKT_CODE_WRITE :: u8 where "PKT_CODE_WRITE \<equiv> 0x40"
abbreviation PKT_CODE_SUCCESS :: u8 where "PKT_CODE_SUCCESS \<equiv> 0x00"
abbreviation PKT_CODE_CORRUPT :: u8 where "PKT_CODE_CORRUPT \<equiv> 0x40"
abbreviation PKT_CODE_ERROR :: u8 where "PKT_CODE_ERROR \<equiv> 0x80"

definition PKT_COUNT :: "iopacket \<Rightarrow> nat" where
  "PKT_COUNT p = unat (count_code p AND 0x3f)"

definition PKT_CODE :: "iopacket \<Rightarrow> u8" where
  "PKT_CODE p = count_code p AND 0xc0"

definition PKT_SIZE :: "iopacket \<Rightarrow> nat" where
  "PKT_SIZE p = 4 + 2 * PKT_COUNT p"

definition packet_bytes :: "iopacket \<Rightarrow> u8 list" where
  "packet_bytes p = [count_code p, pk_crc p, pk_page p, pk_offset p] @ bytes_of_regs (pk_regs p)"

definition crc8_add :: "u8 \<Rightarrow> u8 \<Rightarrow> u8" where
  "crc8_add c b = crc8_tab ! unat (c XOR b)"

definition crc_packet :: "u8 list \<Rightarrow> iopacket \<Rightarrow> u8" where
  "crc_packet adj p = foldl crc8_add 0 (take (PKT_SIZE p) (packet_bytes p @ adj))"

fun regs_of_bytes :: "u8 list \<Rightarrow> u16 list" where
  "regs_of_bytes (a # b # bs) = (ucast a OR push_bit 8 (ucast b)) # regs_of_bytes bs"
| "regs_of_bytes _ = []"

definition rx_handle_packet ::
  "io_inputs \<Rightarrow> u8 list \<Rightarrow> iopacket \<times> px4io \<Rightarrow> iopacket \<times> px4io" where
  "rx_handle_packet inp adj ps =
     (case ps of (p, s) \<Rightarrow>
      let crc = pk_crc p; p = p\<lparr>pk_crc := 0\<rparr> in
      if crc \<noteq> crc_packet adj p then
        (p\<lparr>count_code := PKT_CODE_CORRUPT, pk_page := 0xff, pk_offset := 0xff\<rparr>, s)
      else if PKT_CODE p = PKT_CODE_WRITE then
        (case registers_set inp (pk_page p) (pk_offset p) (pk_regs p @ regs_of_bytes adj) (PKT_COUNT p) s of
           (r, s) \<Rightarrow> (p\<lparr>count_code := (if r \<noteq> 0 then PKT_CODE_ERROR else PKT_CODE_SUCCESS)\<rparr>, s))
      else if PKT_CODE p = PKT_CODE_READ then
        (case registers_get inp (pk_page p) (pk_offset p) s of
           (None, s) \<Rightarrow> (p\<lparr>count_code := PKT_CODE_ERROR\<rparr>, s)
         | (Some registers, s) \<Rightarrow>
             let count = length registers;
                 count = (if count > PKT_MAX_REGS then PKT_MAX_REGS else count);
                 count = (if count > PKT_COUNT p then PKT_COUNT p else count)
             in (p\<lparr>pk_regs := take count registers @ drop count (pk_regs p),
                   count_code := word_of_nat count OR PKT_CODE_SUCCESS\<rparr>, s))
      else (p\<lparr>count_code := PKT_CODE_CORRUPT, pk_page := 0xff, pk_offset := 0xfe\<rparr>, s))"

record serial =
  dma_packet :: iopacket
  rCR1 :: u32
  rCR2 :: u32
  rCR3 :: u32
  rBRR :: u32
  rx_dma_on :: bool
  tx_dma_on :: bool
  abort_on_idle :: bool
  tx_sent :: "u8 list list"

abbreviation USART_CR1_SBK :: u32 where "USART_CR1_SBK \<equiv> 0x1"
abbreviation USART_CR1_RE :: u32 where "USART_CR1_RE \<equiv> 0x4"
abbreviation USART_CR1_TE :: u32 where "USART_CR1_TE \<equiv> 0x8"
abbreviation USART_CR1_IDLEIE :: u32 where "USART_CR1_IDLEIE \<equiv> 0x10"
abbreviation USART_CR1_UE :: u32 where "USART_CR1_UE \<equiv> 0x2000"
abbreviation USART_CR3_EIE :: u32 where "USART_CR3_EIE \<equiv> 0x1"
abbreviation USART_CR3_DMAR :: u32 where "USART_CR3_DMAR \<equiv> 0x40"
abbreviation USART_CR3_DMAT :: u32 where "USART_CR3_DMAT \<equiv> 0x80"
abbreviation USART_SR_FE :: u32 where "USART_SR_FE \<equiv> 0x2"
abbreviation USART_SR_NE :: u32 where "USART_SR_NE \<equiv> 0x4"
abbreviation USART_SR_ORE :: u32 where "USART_SR_ORE \<equiv> 0x8"
abbreviation USART_SR_IDLE :: u32 where "USART_SR_IDLE \<equiv> 0x10"

text \<open>Reception starts again, with an empty buffer of 68 bytes; a pending transmission is killed.\<close>

definition dma_reset :: "serial \<Rightarrow> serial" where
  "dma_reset u =
     (let u = u\<lparr>rCR3 := clr_flag (rCR3 u) (USART_CR3_DMAT OR USART_CR3_DMAR)\<rparr>;
          u = u\<lparr>tx_dma_on := False, rx_dma_on := False\<rparr>;
          u = u\<lparr>rx_dma_on := True\<rparr>
      in u\<lparr>rCR3 := set_flag (rCR3 u) USART_CR3_DMAR\<rparr>)"

text \<open>The baud rate divisor, then the set-up of the port.\<close>

definition usart_brr :: "u32 \<Rightarrow> u32 \<Rightarrow> u32" where
  "usart_brr clock bitrate =
     (let usartdiv32 = clock div (bitrate div 2);
          mantissa = drop_bit 5 usartdiv32;
          fraction = drop_bit 1 (usartdiv32 - push_bit 5 mantissa + 1)
      in push_bit 4 mantissa OR fraction)"

definition interface_init :: "u32 \<Rightarrow> u32 \<Rightarrow> serial \<Rightarrow> serial" where
  "interface_init clock bitrate u =
     (let u = u\<lparr>rCR1 := 0, rCR2 := 0, rCR3 := 0\<rparr>;
          u = u\<lparr>rBRR := usart_brr clock bitrate\<rparr>;
          u = u\<lparr>rCR3 := USART_CR3_EIE\<rparr>;
          u = u\<lparr>rCR1 := USART_CR1_RE OR USART_CR1_TE OR USART_CR1_UE OR USART_CR1_IDLEIE\<rparr>
      in dma_reset u)"

definition rx_dma_callback :: "io_inputs \<Rightarrow> u8 list \<Rightarrow> serial \<times> px4io \<Rightarrow> serial \<times> px4io" where
  "rx_dma_callback inp adj us =
     (case us of (u, s) \<Rightarrow>
      let u = u\<lparr>rCR3 := clr_flag (rCR3 u) (USART_CR3_DMAT OR USART_CR3_DMAR)\<rparr>;
          (p, s) = rx_handle_packet inp adj (dma_packet u, s);
          u = dma_reset (u\<lparr>dma_packet := p\<rparr>);
          p = p\<lparr>pk_crc := 0\<rparr>;
          p = p\<lparr>pk_crc := crc_packet adj p\<rparr>;
          u = u\<lparr>dma_packet := p, tx_sent := take (PKT_SIZE p) (packet_bytes p @ adj) # tx_sent u, tx_dma_on := True\<rparr>
      in (u\<lparr>rCR3 := set_flag (rCR3 u) USART_CR3_DMAT\<rparr>, s))"

text \<open>\<open>residual\<close> is what the receive DMA has left to do.\<close>

definition serial_interrupt ::
  "io_inputs \<Rightarrow> u8 list \<Rightarrow> u32 \<Rightarrow> nat \<Rightarrow> serial \<times> px4io \<Rightarrow> serial \<times> px4io" where
  "serial_interrupt inp adj sr residual us =
     (case us of (u, s) \<Rightarrow>
      let u = (if has_flag sr (USART_SR_ORE OR USART_SR_NE OR USART_SR_FE)
               then u\<lparr>rCR1 := set_flag (rCR1 u) USART_CR1_SBK, abort_on_idle := True\<rparr> else u) in
      if has_flag sr USART_SR_IDLE then
        if abort_on_idle u then (dma_reset (u\<lparr>abort_on_idle := False\<rparr>), s)
        else
          let len = 68 - residual in
          if len < 1 \<or> len < PKT_SIZE (dma_packet u) then (dma_reset u, s)
          else rx_dma_callback inp adj (u\<lparr>rx_dma_on := False\<rparr>, s)
      else (u, s))"

section \<open>The checksum of a packet\<close>

definition crc8_step :: "u8 \<Rightarrow> u8" where
  "crc8_step c = push_bit 1 c XOR (if bit c 7 then 0x07 else 0)"

lemma crc8_step_xor: "crc8_step (x XOR y) = crc8_step x XOR crc8_step y"
  unfolding crc8_step_def by (rule msb_step_xor)

interpretation crc8l: linear_step crc8_step
  by unfold_locales (rule crc8_step_xor)

lemma crc8_powers:
  "(crc8_step ^^ 8) (push_bit 0 1) = 0x07" "(crc8_step ^^ 8) (push_bit 1 1) = 0x0E"
  "(crc8_step ^^ 8) (push_bit 2 1) = 0x1C" "(crc8_step ^^ 8) (push_bit 3 1) = 0x38"
  "(crc8_step ^^ 8) (push_bit 4 1) = 0x70" "(crc8_step ^^ 8) (push_bit 5 1) = 0xE0"
  "(crc8_step ^^ 8) (push_bit 6 1) = 0xC7" "(crc8_step ^^ 8) (push_bit 7 1) = 0x89"
  unfolding funpow_8 by (simp_all add: crc8_step_def bit_numeral_rec One_nat_def)

lemma crc8_tab_eq: "crc8_tab = crc8l.table 8"
  unfolding crc8l.table_8 crc8l.table_Suc crc8l.table_0 crc8_tab_def
  using crc8_powers by (simp add: eval_nat_numeral)

interpretation crc8r: crc_register crc8_step "\<lambda>b. b" crc8_add
proof (unfold_locales, goal_cases)
  case (1 c b)
  have "unat (c XOR b) < 256" using unsigned_less [of "c XOR b"] by simp
  then show ?case by (simp add: crc8_add_def crc8_tab_eq crc8l.table_def)
next
  case (2 x y) then show ?case unfolding crc8_step_def by (rule msb_step_inj [where n = 7]) simp_all
qed

lemma length_bytes_of_regs [simp]: "length (bytes_of_regs rs) = 2 * length rs"
  by (induction rs) (simp_all add: bytes_of_regs_def)

lemma PKT_COUNT_less: "PKT_COUNT p < 64"
proof -
  have "unat (count_code p AND 0x3f) \<le> unat (0x3f :: u8)"
    by (rule word_and_le1 [THEN word_le_nat_alt [THEN iffD1]])
  then show ?thesis by (simp add: PKT_COUNT_def)
qed

text \<open>
  A packet whose count fits the buffer is checked over its own bytes only.
\<close>

definition packet_wf :: "iopacket \<Rightarrow> bool" where
  "packet_wf p \<longleftrightarrow> length (pk_regs p) = PKT_MAX_REGS"

definition accepted :: "u8 list \<Rightarrow> iopacket \<Rightarrow> bool" where
  "accepted adj p \<longleftrightarrow> pk_crc p = crc_packet adj (p\<lparr>pk_crc := 0\<rparr>)"

lemma packet_size_fits: "packet_wf p \<Longrightarrow> PKT_COUNT p \<le> PKT_MAX_REGS \<Longrightarrow> PKT_SIZE p \<le> length (packet_bytes p)"
  by (simp add: packet_wf_def PKT_SIZE_def packet_bytes_def)

lemma packet_fields_crc [simp]:
  "PKT_COUNT (p\<lparr>pk_crc := c\<rparr>) = PKT_COUNT p" "PKT_SIZE (p\<lparr>pk_crc := c\<rparr>) = PKT_SIZE p"
  "PKT_CODE (p\<lparr>pk_crc := c\<rparr>) = PKT_CODE p" "packet_wf (p\<lparr>pk_crc := c\<rparr>) = packet_wf p"
  "packet_bytes (p\<lparr>pk_crc := c\<rparr>) = (packet_bytes p)[1 := c]"
  by (simp_all add: PKT_COUNT_def PKT_SIZE_def PKT_CODE_def packet_wf_def packet_bytes_def One_nat_def)

lemma packet_bytes_nth: "packet_bytes p ! 0 = count_code p" "packet_bytes p ! 1 = pk_crc p"
  by (simp_all add: packet_bytes_def One_nat_def)

lemma crc_packet_fits:
  "packet_wf p \<Longrightarrow> PKT_COUNT p \<le> PKT_MAX_REGS \<Longrightarrow>
     crc_packet adj p = foldl crc8_add 0 (take (PKT_SIZE p) (packet_bytes p))"
  using packet_size_fits [of p] by (simp add: crc_packet_def)

lemma rx_handle_rejected:
  "\<not> accepted adj p \<Longrightarrow>
     rx_handle_packet inp adj (p, s)
       = (p\<lparr>pk_crc := 0, count_code := PKT_CODE_CORRUPT, pk_page := 0xff, pk_offset := 0xff\<rparr>, s)"
  by (simp add: rx_handle_packet_def accepted_def Let_def)

lemma rx_handle_read:
  assumes "accepted adj q" and "PKT_CODE q = PKT_CODE_READ"
    and "registers_get inp (pk_page q) (pk_offset q) s = (Some regs, t)"
    and "k = min (min (length regs) PKT_MAX_REGS) (PKT_COUNT q)"
  shows "rx_handle_packet inp adj (q, s)
    = (q\<lparr>pk_crc := 0, pk_regs := take k regs @ drop k (pk_regs q), count_code := word_of_nat k\<rparr>, t)"
  using assms(1-3) unfolding assms(4) by (simp add: rx_handle_packet_def accepted_def Let_def min_def)

lemma word_of_nat_count: "n \<le> 32 \<Longrightarrow> unat (word_of_nat n AND 0x3f :: u8) = n"
proof -
  assume n: "n \<le> 32"
  have "(0x3f :: u8) = mask 6" by (simp add: mask_eq_exp_minus_1)
  then have "unat (word_of_nat n AND 0x3f :: u8) = take_bit 6 (unat (word_of_nat n :: u8))"
    by (simp only: flip: take_bit_eq_mask) (simp add: unsigned_take_bit_eq)
  also have "unat (word_of_nat n :: u8) = n" using n by (simp add: unat_of_nat)
  also have "take_bit 6 n = n" using n by (simp add: take_bit_nat_eq_self_iff)
  finally show ?thesis .
qed

lemma small_count_code: "n \<le> 32 \<Longrightarrow> word_of_nat n AND (0xc0 :: u8) = 0"
proof (rule bit_word_eqI)
  fix m assume n: "n \<le> 32" and m: "m < LENGTH(8)"
  have "(0xc0 :: u8) = push_bit 6 3" by simp
  then have "6 \<le> m" if "bit (0xc0 :: u8) m" using that by (simp only: bit_push_bit_iff)
  moreover have "\<not> bit n m" if "6 \<le> m"
  proof -
    have "n < 2 ^ 6" using n by simp
    then have "take_bit 6 n = n" by (simp add: take_bit_nat_eq_self_iff)
    then show ?thesis using that by (metis bit_take_bit_iff not_less)
  qed
  ultimately show "bit (word_of_nat n AND (0xc0 :: u8)) m = bit (0 :: u8) m"
    by (auto simp: bit_simps)
qed

lemma reply_shape:
  assumes "packet_wf p"
  shows "packet_wf (fst (rx_handle_packet inp adj (p, s)))
    \<and> PKT_COUNT (fst (rx_handle_packet inp adj (p, s))) \<le> PKT_MAX_REGS"
proof -
  have get: "PKT_COUNT (q\<lparr>count_code := word_of_nat n\<rparr>) = n" if "n \<le> 32" for q n
    using that by (simp add: PKT_COUNT_def word_of_nat_count)
  show ?thesis
    using assms PKT_COUNT_less [of p]
    by (auto simp: rx_handle_packet_def Let_def packet_wf_def get split: prod.split option.split)
       (simp_all add: PKT_COUNT_def)
qed

declare One_nat_def [simp del]

section \<open>Properties\<close>

text \<open>
  Whatever arrives in the packet buffer and whatever lies behind it in memory, the reply
  fits the buffer, its announced length is what is sent, it depends on the buffer only and its
  checksum verifies at the other end.
\<close>

theorem serial_reply_valid:
  assumes "packet_wf (dma_packet u)"
  shows "case rx_dma_callback inp adj (u, s) of (u', s') \<Rightarrow>
    packet_wf (dma_packet u') \<and> PKT_COUNT (dma_packet u') \<le> PKT_MAX_REGS
    \<and> accepted adj' (dma_packet u')
    \<and> tx_sent u' = take (PKT_SIZE (dma_packet u')) (packet_bytes (dma_packet u')) # tx_sent u"
proof -
  obtain p t where ps: "rx_handle_packet inp adj (dma_packet u, s) = (p, t)" by fastforce
  let ?q = "p\<lparr>pk_crc := 0\<rparr>"
  let ?r = "?q\<lparr>pk_crc := crc_packet adj ?q\<rparr>"
  have p: "packet_wf p" "PKT_COUNT p \<le> PKT_MAX_REGS"
    using reply_shape [OF assms, of inp adj s] ps by simp_all
  have "accepted adj' ?r" using p by (simp add: accepted_def crc_packet_fits)
  moreover have "PKT_SIZE ?r \<le> length (packet_bytes ?r)" using packet_size_fits [of ?r] p by simp
  ultimately show ?thesis
    using p ps by (simp add: rx_dma_callback_def Let_def dma_reset_def)
qed

definition demo_serial :: "iopacket \<Rightarrow> serial" where
  "demo_serial p = \<lparr>dma_packet = p, rCR1 = 0, rCR2 = 0, rCR3 = 0, rBRR = 0, rx_dma_on = True,
     tx_dma_on = False, abort_on_idle = False, tx_sent = []\<rparr>"

definition demo_packet :: iopacket where
  "demo_packet = \<lparr>count_code = 0x41, pk_crc = 0, pk_page = 51, pk_offset = 0, pk_regs = replicate 32 7\<rparr>"

theorem serial_reply_valid_witness:
  "packet_wf (dma_packet (demo_serial demo_packet)) \<and>
   accepted [] (dma_packet (fst (rx_dma_callback demo_inputs [] (demo_serial demo_packet, px4io_reset))))"
proof -
  have "packet_wf (dma_packet (demo_serial demo_packet))"
    by (simp add: demo_serial_def demo_packet_def packet_wf_def)
  then show ?thesis
    using serial_reply_valid [of "demo_serial demo_packet" "[]" demo_inputs "[]" px4io_reset]
    by (simp add: split_beta)
qed

text \<open>
  C4. A request that is damaged in one byte behind its count does nothing: when an acceptable
  packet arrives with one byte of its page, offset or registers changed, the register file is
  left as it is and the reply reports a corrupt packet.
\<close>

theorem damaged_packet_ignored:
  assumes "packet_wf p" and "packet_wf q" and "PKT_COUNT p \<le> PKT_MAX_REGS" and "accepted adj p"
    and "packet_bytes q = (packet_bytes p)[i := b]" and "2 \<le> i" and "i < PKT_SIZE p"
    and "packet_bytes p ! i \<noteq> b"
  shows "snd (rx_handle_packet inp adj (q, s)) = s
    \<and> count_code (fst (rx_handle_packet inp adj (q, s))) = PKT_CODE_CORRUPT"
proof -
  have hd: "count_code q = count_code p" "pk_crc q = pk_crc p"
    using arg_cong [OF assms(5), of "\<lambda>bs. bs ! 0"] arg_cong [OF assms(5), of "\<lambda>bs. bs ! 1"] assms(6)
    by (simp_all add: packet_bytes_nth)
  have sz: "PKT_COUNT q = PKT_COUNT p" "PKT_SIZE q = PKT_SIZE p"
    by (simp_all add: PKT_COUNT_def PKT_SIZE_def hd)
  let ?bs = "take (PKT_SIZE p) ((packet_bytes p)[1 := 0])"
  have len: "i < length ?bs" using assms(7) packet_size_fits [OF assms(1,3)] by simp
  have "?bs ! i \<noteq> b" using assms(6-8) by simp
  then have "foldl crc8_add 0 (?bs[i := b]) \<noteq> foldl crc8_add 0 ?bs"
    using crc8r.one_byte_detected [OF len, of 0 b] by blast
  moreover have "take (PKT_SIZE q) ((packet_bytes q)[1 := 0]) = ?bs[i := b]"
    using assms(5,6) sz by (simp add: list_update_swap take_update_swap)
  ultimately have "crc_packet adj (q\<lparr>pk_crc := 0\<rparr>) \<noteq> crc_packet adj (p\<lparr>pk_crc := 0\<rparr>)"
    using assms(1-3) sz by (simp add: crc_packet_fits)
  then have "\<not> accepted adj q" using assms(4) hd by (simp add: accepted_def)
  then show ?thesis by (simp add: rx_handle_rejected)
qed

definition demo_request :: iopacket where
  "demo_request = demo_packet\<lparr>pk_crc := crc_packet [] demo_packet\<rparr>"

theorem damaged_packet_ignored_witness:
  "snd (rx_handle_packet demo_inputs [] (demo_request\<lparr>pk_page := 50\<rparr>, px4io_reset)) = px4io_reset"
proof -
  have wf: "packet_wf demo_request" "packet_wf (demo_request\<lparr>pk_page := 50\<rparr>)"
    "PKT_COUNT demo_request \<le> PKT_MAX_REGS" "2 < PKT_SIZE demo_request"
    by (simp_all add: demo_request_def demo_packet_def packet_wf_def PKT_COUNT_def PKT_SIZE_def)
  have acc: "accepted [] demo_request"
    by (simp add: accepted_def demo_request_def) (simp add: demo_packet_def)
  have upd: "packet_bytes (demo_request\<lparr>pk_page := 50\<rparr>) = (packet_bytes demo_request)[2 := 50]"
    "packet_bytes demo_request ! 2 \<noteq> 50"
    by (simp_all add: packet_bytes_def demo_request_def demo_packet_def One_nat_def)
  show ?thesis
    using damaged_packet_ignored [OF wf(1,2,3) acc upd(1) _ wf(4) upd(2), of demo_inputs px4io_reset] by simp
qed

text \<open>
  Controls sent over the link read back over the link: after an accepted write packet of
  up to 32 control values, an accepted read packet of the same offset and count is answered
  with success and with the values of the write.
\<close>

theorem controls_packet_round_trip:
  assumes "px4io_wf s" and "accepted adj p" and "accepted adj q" and "packet_wf p"
    and "PKT_CODE p = PKT_CODE_WRITE" and "PKT_CODE q = PKT_CODE_READ"
    and "pk_page p = PX4IO_PAGE_CONTROLS" and "pk_page q = PX4IO_PAGE_CONTROLS"
    and "pk_offset q = pk_offset p" and "PKT_COUNT q = PKT_COUNT p"
    and "unat (pk_offset p) + PKT_COUNT p \<le> 32" and "0 < PKT_COUNT p"
  shows "case rx_handle_packet inp' adj (q, snd (rx_handle_packet inp adj (p, s))) of (r, t) \<Rightarrow>
    PKT_CODE r = PKT_CODE_SUCCESS \<and> PKT_COUNT r = PKT_COUNT p
    \<and> take (PKT_COUNT p) (pk_regs r) = take (PKT_COUNT p) (pk_regs p)"
proof -
  let ?n = "PKT_COUNT p" and ?off = "unat (pk_offset p)"
  let ?vs = "pk_regs p @ regs_of_bytes adj"
  let ?s = "snd (registers_set inp PX4IO_PAGE_CONTROLS (pk_offset p) ?vs ?n s)"
  have n: "?n \<le> 32" "?off < 32" using assms(11,12) by simp_all
  have vs: "take ?n ?vs = take ?n (pk_regs p)" using assms(4) n by (simp add: packet_wf_def)
  have handled: "snd (rx_handle_packet inp adj (p, s)) = ?s"
    using assms(2,5,7) by (simp add: rx_handle_packet_def accepted_def Let_def split_beta)
  obtain regs t where get: "registers_get inp' PX4IO_PAGE_CONTROLS (pk_offset p) ?s = (Some regs, t)"
    and regs: "regs = take (32 - ?off) (take ?n ?vs) @ drop (?off + min (32 - ?off) (length (take ?n ?vs))) (r_page_controls s)"
    using controls_registers [OF assms(1) n(2), of inp' inp ?vs ?n] by (metis prod.collapse)
  have len: "length (take ?n ?vs) = ?n" using vs assms(4) n by (simp add: packet_wf_def)
  have "length (r_page_controls s) = 32" using assms(1) by (simp add: px4io_wf_def)
  then have "length regs = 32 - ?off" and "take ?n regs = take ?n (pk_regs p)"
    using regs len vs assms(11) by simp_all
  then have "?n = min (min (length regs) PKT_MAX_REGS) (PKT_COUNT q)"
    using assms(10,11) by (auto simp: min_def)
  with get assms(3,6,8,9) have "rx_handle_packet inp' adj (q, ?s) = (q\<lparr>pk_crc := 0,
      pk_regs := take ?n regs @ drop ?n (pk_regs q), count_code := word_of_nat ?n\<rparr>, t)"
    by (intro rx_handle_read) simp_all
  then show ?thesis
    using handled \<open>take ?n regs = take ?n (pk_regs p)\<close> small_count_code [OF n(1)] word_of_nat_count [OF n(1)]
      assms(4) n(1) by (simp add: PKT_CODE_def PKT_COUNT_def packet_wf_def min_absorb2)
qed

definition demo_read :: iopacket where
  "demo_read = (demo_packet\<lparr>count_code := 0x01\<rparr>)\<lparr>pk_crc := crc_packet [] (demo_packet\<lparr>count_code := 0x01\<rparr>)\<rparr>"

theorem controls_packet_round_trip_witness:
  "take 1 (pk_regs (fst (rx_handle_packet demo_inputs []
     (demo_read, snd (rx_handle_packet demo_inputs [] (demo_request, px4io_reset)))))) = [7]"
proof -
  have acc: "accepted [] demo_request" "accepted [] demo_read"
    by (simp_all add: accepted_def demo_request_def demo_read_def) (simp_all add: demo_packet_def)
  have f: "packet_wf demo_request" "PKT_CODE demo_request = PKT_CODE_WRITE" "PKT_CODE demo_read = PKT_CODE_READ"
    "pk_page demo_request = PX4IO_PAGE_CONTROLS" "pk_page demo_read = PX4IO_PAGE_CONTROLS"
    "pk_offset demo_read = pk_offset demo_request" "PKT_COUNT demo_read = PKT_COUNT demo_request"
    "unat (pk_offset demo_request) + PKT_COUNT demo_request \<le> 32" "0 < PKT_COUNT demo_request"
    by (simp_all add: demo_request_def demo_read_def demo_packet_def packet_wf_def PKT_CODE_def PKT_COUNT_def)
  have "PKT_COUNT demo_request = 1" "take 1 (pk_regs demo_request) = [7]"
    by (simp_all add: demo_request_def demo_packet_def PKT_COUNT_def numeral_eq_Suc One_nat_def)
  then show ?thesis
    using controls_packet_round_trip [OF px4io_wf_reset acc f, of demo_inputs demo_inputs]
    by (simp add: split_beta)
qed


definition demo_oversized :: iopacket where
  "demo_oversized = (demo_packet\<lparr>count_code := 0x61\<rparr>)\<lparr>pk_crc := crc_packet [1, 2] (demo_packet\<lparr>count_code := 0x61\<rparr>)\<rparr>"


end
