(* ===== verification/Float32.thy ===== *)
theory Float32
  imports Complex_Main
begin

text \<open>
  The single precision arithmetic that the C sources use: a value is a rational number, and every
  operation rounds its exact result to the nearest number of 24 significant bits, ties to even,
  with the subnormal quantum \<open>2 ^ -149\<close> below.  Overflow to infinity is outside the model; the
  sources never come near it.  A conversion to an integer truncates towards zero.
\<close>

section \<open>Definitions\<close>

fun scale_up :: "nat \<Rightarrow> rat \<Rightarrow> nat" where
  "scale_up 0 q = 0"
| "scale_up (Suc n) q = (if q < 2 ^ 23 then Suc (scale_up n (2 * q)) else 0)"

fun scale_down :: "nat \<Rightarrow> rat \<Rightarrow> nat" where
  "scale_down 0 q = 0"
| "scale_down (Suc n) q = (if 2 ^ 24 \<le> q then Suc (scale_down n (q / 2)) else 0)"

definition round_half_even :: "rat \<Rightarrow> int" where
  "round_half_even x =
     (let f = \<lfloor>x\<rfloor>; r = x - of_int f
      in if r < 1 / 2 \<or> r = 1 / 2 \<and> even f then f else f + 1)"

definition fl32 :: "rat \<Rightarrow> rat" where
  "fl32 q =
     (if \<bar>q\<bar> < 2 ^ 24
      then let k = scale_up 149 \<bar>q\<bar> in of_int (round_half_even (q * 2 ^ k)) / 2 ^ k
      else let k = scale_down 104 \<bar>q\<bar> in of_int (round_half_even (q / 2 ^ k)) * 2 ^ k)"

definition trunc :: "rat \<Rightarrow> int" where
  "trunc q = (if 0 \<le> q then \<lfloor>q\<rfloor> else - \<lfloor>- q\<rfloor>)"

section \<open>Rounding and bounds\<close>

lemma round_half_even_of_int [simp]: "round_half_even (of_int n) = n"
  by (simp add: round_half_even_def)

lemma round_half_even_le: "x \<le> of_int n \<Longrightarrow> round_half_even x \<le> n"
proof -
  assume x: "x \<le> of_int n"
  show ?thesis
  proof (cases "x = of_int n")
    case False
    with x have "\<lfloor>x\<rfloor> < n" by (simp add: floor_less_iff)
    then show ?thesis by (simp add: round_half_even_def Let_def)
  qed simp
qed

lemma round_half_even_ge: "of_int n \<le> x \<Longrightarrow> n \<le> round_half_even x"
  by (simp add: round_half_even_def Let_def le_floor_iff [symmetric] add_increasing2)

lemma fl32_le:
  assumes "q \<le> of_int n" and "\<bar>q\<bar> < 2 ^ 24"
  shows "fl32 q \<le> of_int n"
proof -
  let ?k = "scale_up 149 \<bar>q\<bar>"
  have "q * 2 ^ ?k \<le> of_int (n * 2 ^ ?k)" using assms(1) by simp
  then have "round_half_even (q * 2 ^ ?k) \<le> n * 2 ^ ?k" by (rule round_half_even_le)
  then have "of_int (round_half_even (q * 2 ^ ?k)) \<le> (of_int (n * 2 ^ ?k) :: rat)" by (simp only: of_int_le_iff)
  then show ?thesis using assms(2) by (simp add: fl32_def Let_def divide_le_eq)
qed

lemma fl32_ge:
  assumes "of_int n \<le> q" and "\<bar>q\<bar> < 2 ^ 24"
  shows "of_int n \<le> fl32 q"
proof -
  let ?k = "scale_up 149 \<bar>q\<bar>"
  have "of_int (n * 2 ^ ?k) \<le> q * 2 ^ ?k" using assms(1) by simp
  then have "n * 2 ^ ?k \<le> round_half_even (q * 2 ^ ?k)" by (rule round_half_even_ge)
  then have "of_int (n * 2 ^ ?k) \<le> (of_int (round_half_even (q * 2 ^ ?k)) :: rat)" by (simp only: of_int_le_iff)
  then show ?thesis using assms(2) by (simp add: fl32_def Let_def le_divide_eq)
qed

lemma fl32_of_int: "\<bar>n\<bar> < 2 ^ 24 \<Longrightarrow> fl32 (of_int n) = of_int n"
proof -
  assume "\<bar>n\<bar> < 2 ^ 24"
  then have "\<bar>of_int n :: rat\<bar> < 2 ^ 24" by (metis of_int_abs of_int_less_numeral_power_cancel_iff)
  then show ?thesis by (intro antisym fl32_le fl32_ge) simp_all
qed

lemma trunc_le: "q \<le> of_int n \<Longrightarrow> 0 \<le> n \<Longrightarrow> trunc q \<le> n"
proof -
  assume q: "q \<le> of_int n" and n: "0 \<le> n"
  show ?thesis
  proof (cases "0 \<le> q")
    case True
    have "\<lfloor>q\<rfloor> \<le> \<lfloor>of_int n :: rat\<rfloor>" using q by (rule floor_mono)
    then show ?thesis using True by (simp add: trunc_def)
  next
    case False
    then have "0 \<le> \<lfloor>- q\<rfloor>" by simp
    then have "- \<lfloor>- q\<rfloor> \<le> n" using n by linarith
    then show ?thesis using False by (simp add: trunc_def)
  qed
qed

lemma trunc_minus: "trunc (- q) = - trunc q"
  by (auto simp: trunc_def)

lemma trunc_ge: "of_int n \<le> q \<Longrightarrow> n \<le> 0 \<Longrightarrow> n \<le> trunc q"
  using trunc_le [of "- q" "- n"] by (simp add: trunc_minus)

lemma trunc_of_int [simp]: "trunc (of_int n) = n"
  by (simp add: trunc_def)

lemma trunc_nonneg: "0 \<le> q \<Longrightarrow> 0 \<le> trunc q"
  by (simp add: trunc_def)

end
