(* ===== verification/Px4io_Controls.thy ===== *)
theory Px4io_Controls
  imports Px4io_Registers Float32
begin

text \<open>
  Remote control input of the coprocessor: \<open>px4iofirmware/controls.c\<close>.  The receiver protocols
  (S.Bus, DSM, ST24, SUMD in \<open>src/lib/rc\<close>, C++) are arguments: the record \<open>rc_link\<close> holds what
  their decoders do in this call, as functions on the channel values they are handed.  The PPM
  frame of the timer interrupt, the signal strength filter and the other static variables are the
  record \<open>controls_vars\<close>.  The scaling of a channel uses the single precision arithmetic of the
  source.
\<close>

declare One_nat_def [simp del]

section \<open>Definitions\<close>

record rc_link =
  sbus_input :: "u16 list \<times> u16 \<Rightarrow> bool \<times> (u16 list \<times> u16) \<times> bool \<times> bool"
  dsm_input :: "u16 list \<times> u16 \<Rightarrow> bool \<times> (u16 list \<times> u16) \<times> bool \<times> u8 list \<times> int \<times> u32"
  st24_decode :: "nat \<Rightarrow> u8 \<Rightarrow> u8 \<times> u8 \<times> u16 \<times> u16 list \<Rightarrow> bool \<times> u8 \<times> u8 \<times> u16 \<times> u16 list"
  sumd_decode :: "nat \<Rightarrow> u8 \<Rightarrow> bool \<times> u16 \<times> u16 list \<Rightarrow> bool \<times> bool \<times> u16 \<times> u16 list"
  stack_lost_count :: u8
  stack_failsafe :: bool
  t_ppm :: u64
  t_received :: u64
  t_check :: u64

record controls_vars =
  rc_value_override :: u16
  rssi_adc_counts :: u32
  c_rssi :: u16
  c_frame_drops :: u32
  ppm_last_valid_decode :: u64
  ppm_decoded_channels :: u32
  ppm_buffer :: "u16 list"
  ppm_frame_length :: u16

definition raw_values :: "px4io \<Rightarrow> u16 list" where
  "raw_values s = take PX4IO_RC_INPUT_CHANNELS (drop PX4IO_P_RAW_RC_BASE (r_page_raw_rc_input s))"

definition put_raw_values :: "u16 list \<Rightarrow> px4io \<Rightarrow> px4io" where
  "put_raw_values vs s = s\<lparr>r_page_raw_rc_input :=
     take PX4IO_P_RAW_RC_BASE (r_page_raw_rc_input s) @ vs
     @ drop (PX4IO_P_RAW_RC_BASE + length vs) (r_page_raw_rc_input s)\<rparr>"

definition status_or :: "u16 \<Rightarrow> px4io \<Rightarrow> px4io" where
  "status_or m s = put_status PX4IO_P_STATUS_FLAGS (atomic_modify_or (r_status_flags s) m) s"
definition status_clear :: "u16 \<Rightarrow> px4io \<Rightarrow> px4io" where
  "status_clear m s = put_status PX4IO_P_STATUS_FLAGS (atomic_modify_clear (r_status_flags s) m) s"
definition raw_flag_set :: "u16 \<Rightarrow> px4io \<Rightarrow> px4io" where
  "raw_flag_set m s = put_raw_rc PX4IO_P_RAW_RC_FLAGS (set_flag (r_raw_rc_flags s) m) s"
definition raw_flag_clr :: "u16 \<Rightarrow> px4io \<Rightarrow> px4io" where
  "raw_flag_clr m s = put_raw_rc PX4IO_P_RAW_RC_FLAGS (clr_flag (r_raw_rc_flags s) m) s"

lemmas rc_flag_ops = status_or_def status_clear_def raw_flag_set_def raw_flag_clr_def

text \<open>The bytes that the DSM port delivered are tried with the ST24 and with the SUMD decoder.\<close>

fun st24_bytes :: "rc_link \<Rightarrow> nat \<Rightarrow> u8 list \<Rightarrow> bool \<times> u8 \<times> u8 \<times> u16 \<times> u16 list \<Rightarrow> bool \<times> u8 \<times> u8 \<times> u16 \<times> u16 list" where
  "st24_bytes l i [] r = r"
| "st24_bytes l i (b # bs) (upd, rssi, lost, cnt, vs) =
     (case st24_decode l i b (100, lost, cnt, vs) of
        (ok, r) \<Rightarrow> st24_bytes l (Suc i) bs (upd \<or> ok, r))"

fun sumd_bytes :: "rc_link \<Rightarrow> nat \<Rightarrow> u8 list \<Rightarrow> bool \<times> bool \<times> u16 \<times> u16 list \<Rightarrow> bool \<times> bool \<times> u16 \<times> u16 list" where
  "sumd_bytes l i [] r = r"
| "sumd_bytes l i (b # bs) (upd, fs, cnt, vs) =
     (case sumd_decode l i b (fs, cnt, vs) of
        (ok, r) \<Rightarrow> sumd_bytes l (Suc i) bs (upd \<or> ok, r))"

definition dsm_stage ::
  "rc_link \<Rightarrow> controls_vars \<times> px4io \<Rightarrow> bool \<times> u8 list \<times> controls_vars \<times> px4io" where
  "dsm_stage l cs =
     (case cs of (c, s) \<Rightarrow>
      case dsm_input l (raw_values s, r_raw_rc_count s) of (dsm_updated, (vs, cnt), dsm_11_bit, bytes, spektrum_rssi, frame_drops) \<Rightarrow>
      let s = put_raw_rc PX4IO_P_RAW_RC_COUNT cnt (put_raw_values vs s) in
      if dsm_updated then
        let s = (if dsm_11_bit then raw_flag_set PX4IO_P_RAW_RC_FLAGS_RC_DSM11 s
                 else raw_flag_clr PX4IO_P_RAW_RC_FLAGS_RC_DSM11 s);
            s = (if frame_drops = c_frame_drops c then raw_flag_clr PX4IO_P_RAW_RC_FLAGS_FRAME_DROP s
                 else raw_flag_set PX4IO_P_RAW_RC_FLAGS_FRAME_DROP s);
            c = c\<lparr>c_frame_drops := frame_drops\<rparr>;
            s = raw_flag_clr PX4IO_P_RAW_RC_FLAGS_FAILSAFE s
        in if 0 \<le> spektrum_rssi \<and> spektrum_rssi \<le> 100
           then (True, bytes, c\<lparr>c_rssi := word_of_int spektrum_rssi\<rparr>,
                 put_setup PX4IO_P_SETUP_FEATURES
                   (clr_flag (r_setup_features s) PX4IO_P_SETUP_FEATURES_ADC_RSSI) s)
           else (True, bytes, c, s)
      else (False, bytes, c, s))"

definition st24_stage ::
  "rc_link \<Rightarrow> u8 list \<Rightarrow> controls_vars \<times> px4io \<Rightarrow> bool \<times> controls_vars \<times> px4io" where
  "st24_stage l bytes cs =
     (case cs of (c, s) \<Rightarrow>
      case (if \<not> has_flag (r_status_flags s) (PX4IO_P_STATUS_FLAGS_RC_DSM OR PX4IO_P_STATUS_FLAGS_RC_SUMD)
            then st24_bytes l 0 bytes (False, 0, stack_lost_count l, 0, raw_values s)
            else (False, 0, stack_lost_count l, 0, raw_values s)) of (st24_updated, st24_rssi, lost_count, st24_count, vs) \<Rightarrow>
      let s = put_raw_values vs s in
      if st24_updated \<and> lost_count = 0 then
        let s = put_setup PX4IO_P_SETUP_FEATURES
                  (clr_flag (r_setup_features s) PX4IO_P_SETUP_FEATURES_ADC_RSSI) s;
            c = c\<lparr>c_rssi := ucast st24_rssi\<rparr>;
            s = put_raw_rc PX4IO_P_RAW_RC_COUNT st24_count s;
            s = status_or PX4IO_P_STATUS_FLAGS_RC_ST24 s;
            s = raw_flag_clr PX4IO_P_RAW_RC_FLAGS_FRAME_DROP s
        in (True, c, raw_flag_clr PX4IO_P_RAW_RC_FLAGS_FAILSAFE s)
      else (st24_updated, c, s))"

definition sumd_stage :: "rc_link \<Rightarrow> u8 list \<Rightarrow> px4io \<Rightarrow> bool \<times> px4io" where
  "sumd_stage l bytes s =
     (case (if \<not> has_flag (r_status_flags s) (PX4IO_P_STATUS_FLAGS_RC_DSM OR PX4IO_P_STATUS_FLAGS_RC_ST24)
            then sumd_bytes l 0 bytes (False, stack_failsafe l, 0, raw_values s)
            else (False, stack_failsafe l, 0, raw_values s)) of (sumd_updated, sumd_failsafe_state, sumd_count, vs) \<Rightarrow>
      let s = put_raw_values vs s in
      if sumd_updated then
        let s = put_raw_rc PX4IO_P_RAW_RC_COUNT sumd_count s;
            s = status_or PX4IO_P_STATUS_FLAGS_RC_SUMD s;
            s = raw_flag_clr PX4IO_P_RAW_RC_FLAGS_FRAME_DROP s
        in (True, if sumd_failsafe_state then raw_flag_set PX4IO_P_RAW_RC_FLAGS_FAILSAFE s
                  else raw_flag_clr PX4IO_P_RAW_RC_FLAGS_FAILSAFE s)
      else (False, s))"

definition dsm_port_input ::
  "rc_link \<Rightarrow> controls_vars \<times> px4io \<Rightarrow> (bool \<times> bool \<times> bool) \<times> controls_vars \<times> px4io" where
  "dsm_port_input l cs =
     (let (dsm_updated, bytes, cs) = dsm_stage l cs;
          (st24_updated, c, s) = st24_stage l bytes cs;
          (sumd_updated, s) = sumd_stage l bytes s
      in ((dsm_updated, st24_updated, sumd_updated), c, s))"

definition ppm_input :: "rc_link \<Rightarrow> controls_vars \<times> px4io \<Rightarrow> bool \<times> controls_vars \<times> px4io" where
  "ppm_input l cs =
     (case cs of (c, s) \<Rightarrow>
      if t_ppm l - ppm_last_valid_decode c < 200000 then
        let n = (ucast (ppm_decoded_channels c) :: u16);
            n = (if n > word_of_nat PX4IO_RC_INPUT_CHANNELS then word_of_nat PX4IO_RC_INPUT_CHANNELS else n);
            s = put_raw_rc PX4IO_P_RAW_RC_COUNT n s;
            s = put_raw_values (take (min (unat n) 12) (ppm_buffer c)) s;
            c = c\<lparr>ppm_last_valid_decode := 0\<rparr>;
            s = put_raw_rc PX4IO_P_RAW_RC_DATA (ppm_frame_length c) s
        in (n > 0, c, s)
      else (False, c, s))"

text \<open>The default channel map of \<open>controls_init\<close>: every channel enabled, one to one.\<close>

definition controls_init_config :: "u16 list" where
  "controls_init_config = concat (map (\<lambda>i. [1000, 1500, 2000, 30, word_of_nat i, PX4IO_P_RC_CONFIG_OPTIONS_ENABLED])
     [0..<PX4IO_RC_INPUT_CHANNELS])"

definition controls_init :: "px4io \<Rightarrow> px4io" where
  "controls_init s = (put_raw_rc PX4IO_P_RAW_RC_COUNT 0 s)
     \<lparr>rc_channels_timestamp_received := 0, rc_channels_timestamp_valid := 0,
      r_page_rc_input_config := controls_init_config\<rparr>"

text \<open>Signal strength from the ADC, low passed, on a scale of 0 to 100.\<close>

definition rssi_filter :: "u32 \<Rightarrow> u16 \<Rightarrow> u32" where
  "rssi_filter old counts =
     word_of_int (trunc (fl32 (fl32 (fl32 (of_nat (unat old)) * fl32 (998 / 1000))
                             + fl32 (of_nat (unat counts) * fl32 (2 / 1000)))))"

definition rssi_step :: "io_inputs \<Rightarrow> controls_vars \<times> px4io \<Rightarrow> controls_vars \<times> px4io" where
  "rssi_step inp cs =
     (case cs of (c, s) \<Rightarrow>
      let c = (if has_flag (r_setup_features s) PX4IO_P_SETUP_FEATURES_ADC_RSSI \<and> adc_measure inp 5 \<noteq> 0xffff then
                 let c = c\<lparr>rssi_adc_counts := rssi_filter (rssi_adc_counts c) (adc_measure inp 5)\<rparr>;
                     mV = rssi_adc_counts c * 3300 div 4095;
                     r = (ucast (mV * 100 div 3300) :: u16)
                 in c\<lparr>c_rssi := (if r > 100 then 100 else r)\<rparr>
               else c)
      in (if \<not> has_flag (r_raw_rc_flags s) PX4IO_P_RAW_RC_FLAGS_RC_OK then c\<lparr>c_rssi := 0\<rparr> else c, s))"

section \<open>Scaling and mapping a channel\<close>

definition constrain_raw :: "u16 \<Rightarrow> u16 \<Rightarrow> u16 \<Rightarrow> u16" where
  "constrain_raw mn mx raw = (let r = (if raw < mn then mn else raw) in if r > mx then mx else r)"

definition scale_raw :: "u16 \<Rightarrow> u16 \<Rightarrow> u16 \<Rightarrow> u16 \<Rightarrow> u16 \<Rightarrow> int" where
  "scale_raw mn center mx dz raw =
     (if uint raw > uint center + uint dz then
        trunc (fl32 (10000 * fl32 (of_int (uint raw - uint center - uint dz)
                                   / of_int (uint mx - uint center - uint dz))))
      else if uint raw < uint center - uint dz then
        trunc (fl32 (10000 * fl32 (of_int (uint raw - uint center + uint dz)
                                   / of_int (uint center - uint dz - uint mn))))
      else 0)"

abbreviation rc_conf :: "px4io \<Rightarrow> nat \<Rightarrow> nat \<Rightarrow> u16" where
  "rc_conf s i f \<equiv> r_page_rc_input_config s ! (i * PX4IO_P_RC_CONFIG_STRIDE + f)"

text \<open>The raw value after step 1 of the source, and the scaled value after a reversal.\<close>

definition channel_raw :: "px4io \<Rightarrow> nat \<Rightarrow> u16" where
  "channel_raw s i = constrain_raw (rc_conf s i PX4IO_P_RC_CONFIG_MIN) (rc_conf s i PX4IO_P_RC_CONFIG_MAX)
     (r_page_raw_rc_input s ! (PX4IO_P_RAW_RC_BASE + i))"

definition channel_scaled :: "px4io \<Rightarrow> nat \<Rightarrow> int" where
  "channel_scaled s i =
     (let scaled = scale_raw (rc_conf s i PX4IO_P_RC_CONFIG_MIN) (rc_conf s i PX4IO_P_RC_CONFIG_CENTER)
            (rc_conf s i PX4IO_P_RC_CONFIG_MAX) (rc_conf s i PX4IO_P_RC_CONFIG_DEADZONE) (channel_raw s i)
      in if has_flag (rc_conf s i PX4IO_P_RC_CONFIG_OPTIONS) PX4IO_P_RC_CONFIG_OPTIONS_REVERSE
         then - scaled else scaled)"

definition throttle_failsafe :: "nat \<Rightarrow> px4io \<Rightarrow> px4io" where
  "throttle_failsafe i s =
     (if channel_raw s i < rc_conf s i PX4IO_P_RC_CONFIG_MIN \<and> channel_raw s i < r_setup_rc_thr_failsafe s
         \<or> channel_raw s i > rc_conf s i PX4IO_P_RC_CONFIG_MAX \<and> channel_raw s i > r_setup_rc_thr_failsafe s
      then raw_flag_set PX4IO_P_RAW_RC_FLAGS_FAILSAFE s
      else raw_flag_clr PX4IO_P_RAW_RC_FLAGS_FAILSAFE s)"

text \<open>
  One round of the mapping loop; the third component is the local bit mask
  \<open>assigned_channels\<close>.
\<close>

definition map_channel :: "nat \<Rightarrow> controls_vars \<times> px4io \<times> u32 \<Rightarrow> controls_vars \<times> px4io \<times> u32" where
  "map_channel i csa =
     (case csa of (c, s, assigned_channels) \<Rightarrow>
      if has_flag (rc_conf s i PX4IO_P_RC_CONFIG_OPTIONS) PX4IO_P_RC_CONFIG_OPTIONS_ENABLED then
        let scaled = channel_scaled s i; mapped = rc_conf s i PX4IO_P_RC_CONFIG_ASSIGNMENT in
        if mapped < word_of_nat PX4IO_CONTROL_CHANNELS then
          let scaled = (if mapped = 1 then - scaled else scaled);
              s = (if mapped = 3 \<and> r_setup_rc_thr_failsafe s \<noteq> 0 then throttle_failsafe i s else s)
          in (c, put_rc (PX4IO_P_RC_BASE + unat mapped) (word_of_int scaled) s,
              assigned_channels OR push_bit (unat mapped) 1)
        else if mapped = PX4IO_P_RC_CONFIG_ASSIGNMENT_MODESWITCH then
          (c\<lparr>rc_value_override := word_of_int scaled\<rparr>, s, assigned_channels)
        else csa
      else csa)"

definition zero_unassigned :: "u32 \<Rightarrow> px4io \<Rightarrow> px4io" where
  "zero_unassigned assigned s =
     fold (\<lambda>i s. if \<not> bit assigned i then put_rc (PX4IO_P_RC_BASE + i) 0 s else s) [0..<PX4IO_CONTROL_CHANNELS] s"

definition process_frame :: "rc_link \<Rightarrow> controls_vars \<times> px4io \<Rightarrow> controls_vars \<times> px4io" where
  "process_frame l cs =
     (case cs of (c, s) \<Rightarrow>
      let s = s\<lparr>rc_channels_timestamp_received := t_received l\<rparr>;
          s = s\<lparr>rc_channels_timestamp_valid := rc_channels_timestamp_received s\<rparr>;
          (c, s, assigned) = fold map_channel [0..<unat (r_raw_rc_count s)] (c, s, 0);
          s = zero_unassigned assigned s;
          s = status_or PX4IO_P_STATUS_FLAGS_RC_OK s;
          s = raw_flag_set PX4IO_P_RAW_RC_FLAGS_RC_OK s;
          s = (if assigned > 4 then raw_flag_set PX4IO_P_RAW_RC_FLAGS_MAPPING_OK s
               else raw_flag_clr PX4IO_P_RAW_RC_FLAGS_MAPPING_OK s)
      in (c, put_rc PX4IO_P_RC_VALID (ucast assigned) s))"

section \<open>The tick\<close>

definition gather_sbus :: "rc_link \<Rightarrow> controls_vars \<times> px4io \<Rightarrow> bool \<times> controls_vars \<times> px4io" where
  "gather_sbus l cs =
     (case cs of (c, s) \<Rightarrow>
      if \<not> has_flag (r_status_flags s) (PX4IO_P_STATUS_FLAGS_RC_DSM OR PX4IO_P_STATUS_FLAGS_RC_ST24
            OR PX4IO_P_STATUS_FLAGS_RC_SUMD) then
        case sbus_input l (raw_values s, r_raw_rc_count s) of (upd, (vs, cnt), sbus_failsafe, frame_drop) \<Rightarrow>
        let s = put_raw_rc PX4IO_P_RAW_RC_COUNT cnt (put_raw_values vs s) in
        if upd then
          let s = status_or PX4IO_P_STATUS_FLAGS_RC_SBUS s;
              s = (if frame_drop then raw_flag_set PX4IO_P_RAW_RC_FLAGS_FRAME_DROP s
                   else raw_flag_clr PX4IO_P_RAW_RC_FLAGS_FRAME_DROP s);
              sbus_rssi = (if frame_drop then 50 else 100);
              s = (if sbus_failsafe then raw_flag_set PX4IO_P_RAW_RC_FLAGS_FAILSAFE s
                   else raw_flag_clr PX4IO_P_RAW_RC_FLAGS_FAILSAFE s)
          in (True,
              if \<not> has_flag (r_setup_features s) PX4IO_P_SETUP_FEATURES_ADC_RSSI then c\<lparr>c_rssi := sbus_rssi\<rparr> else c,
              s)
        else (False, c, s)
      else (False, c, s))"

definition gather_ppm :: "rc_link \<Rightarrow> controls_vars \<times> px4io \<Rightarrow> bool \<times> controls_vars \<times> px4io" where
  "gather_ppm l cs =
     (case ppm_input l cs of (upd, c, s) \<Rightarrow>
      (upd, c, if upd then raw_flag_clr PX4IO_P_RAW_RC_FLAGS_FAILSAFE
                 (raw_flag_clr PX4IO_P_RAW_RC_FLAGS_FRAME_DROP (status_or PX4IO_P_STATUS_FLAGS_RC_PPM s)) else s))"

definition gather_dsm :: "rc_link \<Rightarrow> controls_vars \<times> px4io \<Rightarrow> bool \<times> controls_vars \<times> px4io" where
  "gather_dsm l cs =
     (case cs of (c, s) \<Rightarrow>
      if \<not> has_flag (r_status_flags s) (PX4IO_P_STATUS_FLAGS_RC_SBUS OR PX4IO_P_STATUS_FLAGS_RC_PPM) then
        case dsm_port_input l (c, s) of ((dsm, st24, sumd), c, s) \<Rightarrow>
        let s = (if dsm then status_or PX4IO_P_STATUS_FLAGS_RC_DSM s else s);
            s = (if st24 then status_or PX4IO_P_STATUS_FLAGS_RC_ST24 s else s);
            s = (if sumd then status_or PX4IO_P_STATUS_FLAGS_RC_SUMD s else s)
        in (dsm \<or> st24 \<or> sumd, c, s)
      else (False, c, s))"

definition handle_rc_loss :: "rc_link \<Rightarrow> px4io \<Rightarrow> px4io" where
  "handle_rc_loss l s =
     (let rc_input_lost = (t_check l - rc_channels_timestamp_received s > 200000);
          s = (if rc_input_lost
               then status_clear (PX4IO_P_STATUS_FLAGS_RC_PPM OR PX4IO_P_STATUS_FLAGS_RC_DSM
                      OR PX4IO_P_STATUS_FLAGS_RC_SBUS OR PX4IO_P_STATUS_FLAGS_RC_ST24
                      OR PX4IO_P_STATUS_FLAGS_RC_SUMD) s else s);
          s = (if has_flag (r_raw_rc_flags s) PX4IO_P_RAW_RC_FLAGS_FAILSAFE
               then status_clear PX4IO_P_STATUS_FLAGS_OVERRIDE s else s) in
      if rc_input_lost then
        let s = status_clear (PX4IO_P_STATUS_FLAGS_OVERRIDE OR PX4IO_P_STATUS_FLAGS_RC_OK) s;
            s = raw_flag_clr PX4IO_P_RAW_RC_FLAGS_RC_OK s;
            s = put_rc PX4IO_P_RC_VALID 0 s;
            s = put_raw_rc PX4IO_P_RAW_RC_COUNT 0 s
        in put_status PX4IO_P_STATUS_ALARMS
             (atomic_modify_or (r_status_alarms s) PX4IO_P_STATUS_ALARMS_RC_LOST) s
      else s)"

definition RC_CHANNEL_LOW_THRESH :: int where "RC_CHANNEL_LOW_THRESH = -8000"

definition check_override :: "controls_vars \<Rightarrow> px4io \<Rightarrow> px4io" where
  "check_override c s =
     (if has_flag (r_setup_arming s) PX4IO_P_SETUP_ARMING_MANUAL_OVERRIDE_OK
         \<and> has_flag (r_status_flags s) PX4IO_P_STATUS_FLAGS_RC_OK
         \<and> \<not> has_flag (r_raw_rc_flags s) PX4IO_P_RAW_RC_FLAGS_FAILSAFE
         \<and> \<not> has_flag (r_setup_arming s) PX4IO_P_SETUP_ARMING_RC_HANDLING_DISABLED
         \<and> has_flag (r_status_flags s) PX4IO_P_STATUS_FLAGS_MIXER_OK then
        let override = (has_flag (r_status_flags s) PX4IO_P_STATUS_FLAGS_RC_OK
              \<and> sint (rc_value_override c) < RC_CHANNEL_LOW_THRESH);
            override = (if \<not> has_flag (r_status_flags s) PX4IO_P_STATUS_FLAGS_FMU_OK
               \<and> has_flag (r_setup_arming s) PX4IO_P_SETUP_ARMING_OVERRIDE_IMMEDIATE
               \<and> \<not> has_flag (r_setup_arming s) PX4IO_P_SETUP_ARMING_TERMINATION_FAILSAFE
               then True else override)
        in if override then status_or PX4IO_P_STATUS_FLAGS_OVERRIDE s
           else status_clear PX4IO_P_STATUS_FLAGS_OVERRIDE s
      else status_clear PX4IO_P_STATUS_FLAGS_OVERRIDE s)"

definition controls_tick :: "io_inputs \<Rightarrow> rc_link \<Rightarrow> controls_vars \<times> px4io \<Rightarrow> controls_vars \<times> px4io" where
  "controls_tick inp l cs =
     (let (sbus_updated, cs) = gather_sbus l (rssi_step inp cs);
          (ppm_updated, cs) = gather_ppm l cs;
          (dsm_updated, (c, s)) = gather_dsm l cs;
          s = (if r_raw_rc_count s > word_of_nat PX4IO_RC_INPUT_CHANNELS
               then put_raw_rc PX4IO_P_RAW_RC_COUNT (word_of_nat PX4IO_RC_INPUT_CHANNELS) s else s);
          s = put_raw_rc PX4IO_P_RAW_RC_NRSSI (c_rssi c) s;
          (c, s) = (if dsm_updated \<or> sbus_updated \<or> ppm_updated then process_frame l (c, s) else (c, s));
          s = handle_rc_loss l s
      in (c, check_override c s))"

section \<open>Lemmas\<close>

lemma constrain_raw_range: "mn \<le> mx \<Longrightarrow> mn \<le> constrain_raw mn mx raw \<and> constrain_raw mn mx raw \<le> mx"
  by (auto simp: constrain_raw_def Let_def)

lemma fl32_unit: "0 \<le> q \<Longrightarrow> q \<le> 1 \<Longrightarrow> 0 \<le> fl32 q \<and> fl32 q \<le> 1"
  using fl32_le [of q 1] fl32_ge [of 0 q] by simp

lemma fl32_unit_neg: "- 1 \<le> q \<Longrightarrow> q \<le> 0 \<Longrightarrow> - 1 \<le> fl32 q \<and> fl32 q \<le> 0"
  using fl32_le [of q 0] fl32_ge [of "- 1" q] by simp

lemma scaled_up: "0 \<le> q \<Longrightarrow> q \<le> 1 \<Longrightarrow> 0 \<le> trunc (fl32 (10000 * fl32 q)) \<and> trunc (fl32 (10000 * fl32 q)) \<le> 10000"
  using fl32_unit [of q] fl32_le [of "10000 * fl32 q" 10000] fl32_ge [of 0 "10000 * fl32 q"]
  by (auto intro: trunc_le trunc_nonneg)

lemma scaled_down: "- 1 \<le> q \<Longrightarrow> q \<le> 0 \<Longrightarrow>
    - 10000 \<le> trunc (fl32 (10000 * fl32 q)) \<and> trunc (fl32 (10000 * fl32 q)) \<le> 0"
  using fl32_unit_neg [of q] fl32_le [of "10000 * fl32 q" 0] fl32_ge [of "- 10000" "10000 * fl32 q"]
  by (auto intro: trunc_le trunc_ge)

lemma scaled_ends: "trunc (fl32 (10000 * fl32 1)) = 10000" "trunc (fl32 (10000 * fl32 (- 1))) = - 10000"
  using fl32_of_int [of 1] fl32_of_int [of "- 1"] fl32_of_int [of 10000] fl32_of_int [of "- 10000"]
    trunc_of_int [of 10000] trunc_of_int [of "- 10000"] by simp_all

lemma ratio_unit:
  fixes n d :: int
  assumes "0 < n" and "n \<le> d"
  shows "0 \<le> (of_int n / of_int d :: rat)" "(of_int n / of_int d :: rat) \<le> 1"
    "- 1 \<le> (of_int (- n) / of_int d :: rat)" "(of_int (- n) / of_int d :: rat) \<le> 0"
  using assms by (simp_all add: divide_le_eq le_divide_eq)

lemma scale_raw_bounds:
  assumes "mn \<le> raw" and "raw \<le> mx"
  shows "\<bar>scale_raw mn center mx dz raw\<bar> \<le> 10000"
proof -
  let ?n = "uint raw - uint center" 
  have le: "uint mn \<le> uint raw" "uint raw \<le> uint mx" using assms by (simp_all add: word_le_def)
  consider (up) "uint raw > uint center + uint dz" | (down) "uint raw < uint center - uint dz" "\<not> uint raw > uint center + uint dz"
    | (dead) "\<not> uint raw > uint center + uint dz" "\<not> uint raw < uint center - uint dz" by blast
  then show ?thesis
  proof cases
    case up
    have "0 < ?n - uint dz" "?n - uint dz \<le> uint mx - uint center - uint dz" using up le by linarith+
    from scaled_up [OF ratio_unit(1,2) [OF this]] up show ?thesis by (simp add: scale_raw_def del: of_int_diff)
  next
    case down
    have "0 < - (?n + uint dz)" "- (?n + uint dz) \<le> uint center - uint dz - uint mn" using down le by linarith+
    from scaled_down [OF ratio_unit(3,4) [OF this, unfolded minus_minus]] down show ?thesis
      by (simp add: scale_raw_def del: of_int_diff of_int_add of_int_minus)
  qed (simp add: scale_raw_def)
qed

lemma sint_word_of_int_16: "\<bar>x\<bar> \<le> 10000 \<Longrightarrow> sint (word_of_int x :: u16) = x"
  by (simp add: sint_sbintrunc' signed_take_bit_int_eq_self)

text \<open>
  The mapping loop leaves the configuration alone and, where every enabled channel has its
  minimum below its maximum, keeps the mapped controls inside their range.
\<close>

definition rc_values_in_range :: "px4io \<Rightarrow> bool" where
  "rc_values_in_range s \<longleftrightarrow> (\<forall>k<PX4IO_CONTROL_CHANNELS. \<bar>sint (r_page_rc_input s ! (PX4IO_P_RC_BASE + k))\<bar> \<le> 10000)"

definition rc_limits_ordered :: "u16 list \<Rightarrow> nat \<Rightarrow> bool" where
  "rc_limits_ordered conf n \<longleftrightarrow> (\<forall>i<n.
     has_flag (conf ! (i * PX4IO_P_RC_CONFIG_STRIDE + PX4IO_P_RC_CONFIG_OPTIONS)) PX4IO_P_RC_CONFIG_OPTIONS_ENABLED \<longrightarrow>
     conf ! (i * PX4IO_P_RC_CONFIG_STRIDE + PX4IO_P_RC_CONFIG_MIN) \<le> conf ! (i * PX4IO_P_RC_CONFIG_STRIDE + PX4IO_P_RC_CONFIG_MAX))"

lemma rc_flag_ops_frame [simp]:
  "r_page_rc_input_config (raw_flag_set m s) = r_page_rc_input_config s"
  "r_page_rc_input_config (raw_flag_clr m s) = r_page_rc_input_config s"
  "r_page_rc_input (raw_flag_set m s) = r_page_rc_input s" "r_page_rc_input (raw_flag_clr m s) = r_page_rc_input s"
  "r_page_rc_input (status_or m s) = r_page_rc_input s" "r_page_rc_input (status_clear m s) = r_page_rc_input s"
  "r_page_status (raw_flag_set m s) = r_page_status s" "r_page_status (raw_flag_clr m s) = r_page_status s"
  "r_page_setup (raw_flag_set m s) = r_page_setup s" "r_page_setup (raw_flag_clr m s) = r_page_setup s"
  "r_page_setup (status_or m s) = r_page_setup s" "r_page_setup (status_clear m s) = r_page_setup s"
  "r_page_raw_rc_input (status_or m s) = r_page_raw_rc_input s"
  "r_page_raw_rc_input (status_clear m s) = r_page_raw_rc_input s"
  "r_page_raw_rc_input (put_rc i v s) = r_page_raw_rc_input s"
  "r_page_rc_input (put_rc i v s) = (r_page_rc_input s)[i := v]"
  "r_page_rc_input_config (put_rc i v s) = r_page_rc_input_config s"
  "r_page_rc_input (put_raw_rc i v s) = r_page_rc_input s"
  "r_page_raw_rc_input (put_raw_rc i v s) = (r_page_raw_rc_input s)[i := v]"
  by (simp_all add: rc_flag_ops put_defs)

lemma map_channel_keeps:
  assumes "map_channel i (c, s, a) = (c', s', a')"
    and "rc_limits_ordered (r_page_rc_input_config s) n" and "i < n"
    and "rc_values_in_range s" and "length (r_page_rc_input s) = 10"
  shows "r_page_rc_input_config s' = r_page_rc_input_config s \<and> rc_values_in_range s' \<and> length (r_page_rc_input s') = 10"
proof -
  have b: "\<bar>channel_scaled s i\<bar> \<le> 10000" if "has_flag (rc_conf s i 5) 1"
  proof -
    have "\<bar>scale_raw (rc_conf s i 0) d (rc_conf s i 2) e (channel_raw s i)\<bar> \<le> 10000" for d e
      using that assms(2,3) constrain_raw_range [of "rc_conf s i 0" "rc_conf s i 2"]
      unfolding channel_raw_def by (intro scale_raw_bounds) (auto simp: rc_limits_ordered_def)
    then show ?thesis by (simp add: channel_scaled_def Let_def)
  qed
  have put: "rc_values_in_range (put_rc (1 + k) (word_of_int v) t)"
    if "\<bar>v\<bar> \<le> 10000" "r_page_rc_input t = r_page_rc_input s" for v k t
    using that assms(4,5) by (auto simp: rc_values_in_range_def nth_update_if sint_word_of_int_16)
  have tf: "r_page_rc_input (throttle_failsafe i s) = r_page_rc_input s"
    "r_page_rc_input_config (throttle_failsafe i s) = r_page_rc_input_config s"
    by (simp_all add: throttle_failsafe_def)
  show ?thesis
  proof (cases "has_flag (rc_conf s i 5) 1 \<and> rc_conf s i 4 < word_of_nat 8")
    case True
    define v where "v = (if rc_conf s i 4 = 1 then - channel_scaled s i else channel_scaled s i)"
    define t where "t = (if rc_conf s i 4 = 3 \<and> r_setup_rc_thr_failsafe s \<noteq> 0 then throttle_failsafe i s else s)"
    have "s' = put_rc (1 + unat (rc_conf s i 4)) (word_of_int v) t"
      using assms(1) True unfolding map_channel_def Let_def v_def [symmetric] t_def [symmetric] prod.case
      by (simp only: if_True HOL.simp_thms prod.inject)
    moreover have "\<bar>v\<bar> \<le> 10000" using b True by (simp add: v_def)
    moreover have "r_page_rc_input t = r_page_rc_input s" "r_page_rc_input_config t = r_page_rc_input_config s"
      by (simp_all add: t_def tf)
    ultimately show ?thesis using put assms(5) by simp
  next
    case False
    then have "s' = s" using assms(1) by (auto simp: map_channel_def Let_def split: if_split_asm)
    then show ?thesis using assms(4,5) by simp
  qed
qed

lemma map_channels_keep:
  "rc_limits_ordered (r_page_rc_input_config s) n \<Longrightarrow> rc_values_in_range s \<Longrightarrow> length (r_page_rc_input s) = 10 \<Longrightarrow>
   m \<le> n \<Longrightarrow> fold map_channel [0..<m] (c, s, a) = (c', s', a') \<Longrightarrow>
   r_page_rc_input_config s' = r_page_rc_input_config s \<and> rc_values_in_range s' \<and> length (r_page_rc_input s') = 10"
proof (induction m arbitrary: c' s' a')
  case (Suc m)
  obtain c1 s1 a1 where one: "fold map_channel [0..<m] (c, s, a) = (c1, s1, a1)" by (metis prod_cases3)
  with Suc have IH: "r_page_rc_input_config s1 = r_page_rc_input_config s" "rc_values_in_range s1"
    "length (r_page_rc_input s1) = 10" by (metis Suc_leD)+
  have "map_channel m (c1, s1, a1) = (c', s', a')" using Suc.prems(5) one by simp
  from map_channel_keeps [OF this, of n] IH Suc.prems(1,4) show ?case by simp
qed simp

lemma zero_unassigned_keeps:
  "rc_values_in_range s \<Longrightarrow> length (r_page_rc_input s) = 10 \<Longrightarrow>
     rc_values_in_range (zero_unassigned a s) \<and> length (r_page_rc_input (zero_unassigned a s)) = 10"
proof -
  have "rc_values_in_range s \<Longrightarrow> length (r_page_rc_input s) = 10 \<Longrightarrow>
      rc_values_in_range (fold (\<lambda>i s. if \<not> bit a i then put_rc (1 + i) 0 s else s) ks s)
      \<and> length (r_page_rc_input (fold (\<lambda>i s. if \<not> bit a i then put_rc (1 + i) 0 s else s) ks s)) = 10" for ks
    by (induction ks arbitrary: s) (auto simp: rc_values_in_range_def nth_update_if)
  then show "rc_values_in_range s \<Longrightarrow> length (r_page_rc_input s) = 10 \<Longrightarrow> ?thesis"
    by (simp only: zero_unassigned_def)
qed

lemma status_ops_flags:
  assumes "2 < length (r_page_status s)"
  shows "r_status_flags (status_or m s) = set_flag (r_status_flags s) m"
    "r_status_flags (status_clear m s) = clr_flag (r_status_flags s) m"
    "length (r_page_status (status_or m s)) = length (r_page_status s)"
    "length (r_page_status (status_clear m s)) = length (r_page_status s)"
  using assms by (simp_all add: rc_flag_ops flag_simps)

text \<open>
  The decoders are handed a buffer of 18 channels and fill no more than that; this is the only
  thing the coprocessor relies on.
\<close>

definition rc_link_ok :: "rc_link \<Rightarrow> bool" where
  "rc_link_ok l \<longleftrightarrow>
     (\<forall>vs n. length vs = 18 \<longrightarrow> length (fst (fst (snd (sbus_input l (vs, n))))) = 18) \<and>
     (\<forall>vs n. length vs = 18 \<longrightarrow> length (fst (fst (snd (dsm_input l (vs, n))))) = 18) \<and>
     (\<forall>i b r p q vs. length vs = 18 \<longrightarrow> length (snd (snd (snd (snd (st24_decode l i b (r, p, q, vs)))))) = 18) \<and>
     (\<forall>i b f q vs. length vs = 18 \<longrightarrow> length (snd (snd (snd (sumd_decode l i b (f, q, vs))))) = 18)"

lemma px4io_ok_controls [simp]:
  "px4io_ok (put_raw_rc i v s) = px4io_ok s" "px4io_ok (put_rc i v s) = px4io_ok s"
  "px4io_ok (status_or m s) = px4io_ok s" "px4io_ok (status_clear m s) = px4io_ok s"
  "px4io_ok (raw_flag_set m s) = px4io_ok s" "px4io_ok (raw_flag_clr m s) = px4io_ok s"
  "px4io_ok (put_status i v s) = px4io_ok s"
  by (simp_all add: rc_flag_ops px4io_ok_def pwm_limits_def rates_ok_def px4io_wf_def put_defs)

lemma px4io_ok_raw_values:
  "px4io_ok s \<Longrightarrow> length vs \<le> 18 \<Longrightarrow> px4io_ok (put_raw_values vs s)"
  by (simp add: put_raw_values_def px4io_ok_def pwm_limits_def rates_ok_def px4io_wf_def)

lemma length_raw_values: "px4io_ok s \<Longrightarrow> length (raw_values s) = 18"
  by (simp add: raw_values_def px4io_ok_def px4io_wf_def)

lemma st24_bytes_length:
  "rc_link_ok l \<Longrightarrow> length vs = 18 \<Longrightarrow> length (snd (snd (snd (snd (st24_bytes l i bs (u, r, p, q, vs)))))) = 18"
proof (induction bs arbitrary: i u r p q vs)
  case (Cons b bs)
  obtain ok r' p' q' vs' where d: "st24_decode l i b (100, p, q, vs) = (ok, r', p', q', vs')" by (metis prod_cases5)
  with Cons.prems have "length vs' = 18" by (metis rc_link_ok_def snd_conv)
  then show ?case using Cons d by simp
qed simp

lemma sumd_bytes_length:
  "rc_link_ok l \<Longrightarrow> length vs = 18 \<Longrightarrow> length (snd (snd (snd (sumd_bytes l i bs (u, f, q, vs))))) = 18"
proof (induction bs arbitrary: i u f q vs)
  case (Cons b bs)
  obtain ok f' q' vs' where d: "sumd_decode l i b (f, q, vs) = (ok, f', q', vs')" by (metis prod_cases4)
  with Cons.prems have "length vs' = 18" by (metis rc_link_ok_def snd_conv)
  then show ?case using Cons d by simp
qed simp

lemma gather_sbus_ok:
  assumes "rc_link_ok l" and "px4io_ok (snd cs)" shows "px4io_ok (snd (snd (gather_sbus l cs)))"
proof -
  have "length (fst (fst (snd (sbus_input l (raw_values (snd cs), n))))) = 18" for n
    using assms length_raw_values [of "snd cs"] by (simp add: rc_link_ok_def)
  then show ?thesis using assms(2)
    by (simp add: gather_sbus_def split_beta Let_def px4io_ok_raw_values)
qed

lemma gather_ppm_ok: "px4io_ok (snd cs) \<Longrightarrow> px4io_ok (snd (snd (gather_ppm l cs)))"
  by (simp add: gather_ppm_def ppm_input_def split_beta Let_def px4io_ok_raw_values)

lemma px4io_ok_features: "px4io_ok s \<Longrightarrow> px4io_ok (put_setup PX4IO_P_SETUP_FEATURES v s)"
  by (rule ok_inv.setup_free) simp_all

lemma dsm_stage_ok:
  assumes "rc_link_ok l" and "px4io_ok (snd cs)" shows "px4io_ok (snd (snd (snd (dsm_stage l cs))))"
proof -
  have "length (fst (fst (snd (dsm_input l (raw_values (snd cs), n))))) = 18" for n
    using assms length_raw_values [of "snd cs"] by (simp add: rc_link_ok_def)
  then show ?thesis using assms(2)
    by (simp add: dsm_stage_def split_beta Let_def px4io_ok_raw_values px4io_ok_features)
qed

lemma st24_stage_ok:
  assumes "rc_link_ok l" and "px4io_ok (snd cs)" shows "px4io_ok (snd (snd (st24_stage l bs cs)))"
proof -
  have "length (snd (snd (snd (snd (st24_bytes l 0 bs (u, r, p, q, raw_values (snd cs))))))) = 18" for u r p q
    using assms by (simp add: st24_bytes_length length_raw_values)
  then show ?thesis using assms(2)
    by (simp add: st24_stage_def split_beta Let_def px4io_ok_raw_values px4io_ok_features length_raw_values)
qed

lemma sumd_stage_ok:
  assumes "rc_link_ok l" and "px4io_ok s" shows "px4io_ok (snd (sumd_stage l bs s))"
proof -
  have "length (snd (snd (snd (sumd_bytes l 0 bs (u, f, q, raw_values s))))) = 18" for u f q
    using assms by (simp add: sumd_bytes_length length_raw_values)
  then show ?thesis using assms(2)
    by (simp add: sumd_stage_def split_beta Let_def px4io_ok_raw_values length_raw_values)
qed

lemma gather_dsm_ok:
  assumes "rc_link_ok l" and "px4io_ok (snd cs)" shows "px4io_ok (snd (snd (gather_dsm l cs)))"
proof -
  have "px4io_ok (snd (snd (dsm_port_input l cs)))"
    using dsm_stage_ok [OF assms] assms(1) st24_stage_ok [of l] sumd_stage_ok [of l]
    by (simp add: dsm_port_input_def split_beta Let_def)
  then show ?thesis using assms(2) by (simp add: gather_dsm_def split_beta Let_def)
qed

lemma map_channels_ok: "px4io_ok (fst (snd (fold map_channel is csa))) = px4io_ok (fst (snd csa))"
proof (induction "is" arbitrary: csa)
  case (Cons i "is")
  have "px4io_ok (fst (snd (map_channel i csa))) = px4io_ok (fst (snd csa))"
    by (simp add: map_channel_def split_beta Let_def throttle_failsafe_def)
  then show ?case using Cons by simp
qed simp

lemma zero_unassigned_ok: "px4io_ok s \<Longrightarrow> px4io_ok (zero_unassigned a s)"
proof -
  have "px4io_ok s \<Longrightarrow> px4io_ok (fold (\<lambda>i s. if \<not> bit a i then put_rc (1 + i) 0 s else s) ks s)" for ks
    by (induction ks arbitrary: s) simp_all
  then show "px4io_ok s \<Longrightarrow> ?thesis" by (simp only: zero_unassigned_def)
qed

lemma process_frame_ok: "px4io_ok (snd cs) \<Longrightarrow> px4io_ok (snd (process_frame l cs))"
proof -
  assume ok: "px4io_ok (snd cs)"
  then have "px4io_ok (snd cs\<lparr>rc_channels_timestamp_received := t, rc_channels_timestamp_valid := u\<rparr>)" for t u
    by (simp add: px4io_ok_def pwm_limits_def rates_ok_def px4io_wf_def)
  then show ?thesis
    using map_channels_ok
    by (simp add: process_frame_def split_beta Let_def zero_unassigned_ok)
qed

lemma controls_tick_ok:
  assumes "rc_link_ok l" and "px4io_ok (snd cs)"
  shows "px4io_ok (snd (controls_tick inp l cs))"
proof -
  have "px4io_ok (snd (rssi_step inp cs))" using assms(2) by (simp add: rssi_step_def split_beta Let_def)
  then have "px4io_ok (snd (snd (gather_dsm l (snd (gather_ppm l (snd (gather_sbus l (rssi_step inp cs))))))))"
    using assms(1) by (simp add: gather_sbus_ok gather_ppm_ok gather_dsm_ok)
  then show ?thesis
    by (simp add: controls_tick_def handle_rc_loss_def check_override_def split_beta Let_def process_frame_ok)
qed

text \<open>What a tick leaves behind is decided by its last two steps.\<close>

lemma controls_tick_last:
  assumes "rc_link_ok l" and "px4io_ok (snd cs)"
  obtains c s where "controls_tick inp l cs = (c, check_override c (handle_rc_loss l s))" and "px4io_ok s"
proof -
  obtain c s where eq: "controls_tick inp l cs = (c, check_override c (handle_rc_loss l s))"
    by (simp add: controls_tick_def Let_def split_beta)
  moreover have "px4io_ok (check_override c (handle_rc_loss l s)) = px4io_ok s"
    by (simp add: handle_rc_loss_def check_override_def Let_def)
  ultimately show ?thesis using that controls_tick_ok [OF assms, of inp] by simp
qed

lemma stamp_frame [simp]:
  "rc_channels_timestamp_received (put_raw_rc i v s) = rc_channels_timestamp_received s"
  "rc_channels_timestamp_received (put_rc i v s) = rc_channels_timestamp_received s"
  "rc_channels_timestamp_received (put_setup i v s) = rc_channels_timestamp_received s"
  "rc_channels_timestamp_received (put_status i v s) = rc_channels_timestamp_received s"
  "rc_channels_timestamp_received (put_raw_values vs s) = rc_channels_timestamp_received s"
  "rc_channels_timestamp_received (status_or m s) = rc_channels_timestamp_received s"
  "rc_channels_timestamp_received (status_clear m s) = rc_channels_timestamp_received s"
  "rc_channels_timestamp_received (raw_flag_set m s) = rc_channels_timestamp_received s"
  "rc_channels_timestamp_received (raw_flag_clr m s) = rc_channels_timestamp_received s"
  by (simp_all add: rc_flag_ops put_defs put_raw_values_def)

lemma dsm_port_stamp:
  "rc_channels_timestamp_received (snd (snd (snd (dsm_stage l cs)))) = rc_channels_timestamp_received (snd cs)"
  "rc_channels_timestamp_received (snd (snd (st24_stage l bs cs))) = rc_channels_timestamp_received (snd cs)"
  "rc_channels_timestamp_received (snd (sumd_stage l bs s)) = rc_channels_timestamp_received s"
  by (simp_all add: dsm_stage_def st24_stage_def sumd_stage_def Let_def split_beta)

lemma gather_stamp:
  "rc_channels_timestamp_received (snd (rssi_step inp cs)) = rc_channels_timestamp_received (snd cs)"
  "rc_channels_timestamp_received (snd (snd (gather_sbus l cs))) = rc_channels_timestamp_received (snd cs)"
  "rc_channels_timestamp_received (snd (snd (gather_ppm l cs))) = rc_channels_timestamp_received (snd cs)"
  "rc_channels_timestamp_received (snd (snd (gather_dsm l cs))) = rc_channels_timestamp_received (snd cs)"
  by (simp_all add: rssi_step_def gather_sbus_def gather_ppm_def ppm_input_def gather_dsm_def dsm_port_input_def
      dsm_port_stamp Let_def split_beta)

lemma handle_loss_stamp:
  "rc_channels_timestamp_received (handle_rc_loss l s) = rc_channels_timestamp_received s"
  by (simp add: handle_rc_loss_def Let_def)

lemma controls_init_wf: "px4io_wf s \<Longrightarrow> px4io_wf (controls_init s)"
  by (simp add: px4io_wf_def controls_init_def put_raw_rc_def controls_init_config_def upt_rec)

lemma status_len: "px4io_ok s \<Longrightarrow> 2 < length (r_page_status s)" "px4io_ok s \<Longrightarrow> 3 < length (r_page_status s)"
  by (simp_all add: px4io_ok_def px4io_wf_def)

definition override_wanted :: "controls_vars \<Rightarrow> px4io \<Rightarrow> bool" where
  "override_wanted c s \<longleftrightarrow>
     has_flag (r_setup_arming s) PX4IO_P_SETUP_ARMING_MANUAL_OVERRIDE_OK
     \<and> has_flag (r_status_flags s) PX4IO_P_STATUS_FLAGS_RC_OK
     \<and> \<not> has_flag (r_raw_rc_flags s) PX4IO_P_RAW_RC_FLAGS_FAILSAFE
     \<and> \<not> has_flag (r_setup_arming s) PX4IO_P_SETUP_ARMING_RC_HANDLING_DISABLED
     \<and> has_flag (r_status_flags s) PX4IO_P_STATUS_FLAGS_MIXER_OK
     \<and> (sint (rc_value_override c) < - 8000
        \<or> \<not> has_flag (r_status_flags s) PX4IO_P_STATUS_FLAGS_FMU_OK
          \<and> has_flag (r_setup_arming s) PX4IO_P_SETUP_ARMING_OVERRIDE_IMMEDIATE
          \<and> \<not> has_flag (r_setup_arming s) PX4IO_P_SETUP_ARMING_TERMINATION_FAILSAFE)"

lemma check_override_eq:
  "check_override c s =
     (if override_wanted c s then status_or PX4IO_P_STATUS_FLAGS_OVERRIDE s
      else status_clear PX4IO_P_STATUS_FLAGS_OVERRIDE s)"
  by (auto simp: check_override_def override_wanted_def Let_def RC_CHANNEL_LOW_THRESH_def)

lemma check_override_flag:
  assumes "px4io_ok s"
  shows "has_flag (r_status_flags (check_override c s)) PX4IO_P_STATUS_FLAGS_OVERRIDE = override_wanted c s"
    and "2 AND m = 0 \<Longrightarrow> has_flag (r_status_flags (check_override c s)) m = has_flag (r_status_flags s) m"
proof -
  note ops = status_ops_flags(1,2) [OF status_len(1) [OF assms]]
  show "has_flag (r_status_flags (check_override c s)) PX4IO_P_STATUS_FLAGS_OVERRIDE = override_wanted c s"
    by (simp add: check_override_eq ops has_flag_set_same has_flag_clr_same)
  show "has_flag (r_status_flags (check_override c s)) m = has_flag (r_status_flags s) m" if "2 AND m = 0"
    using that by (simp add: check_override_eq ops has_flag_set has_flag_clr_disjoint) (simp add: has_flag_def)
qed

lemma check_override_frame [simp]:
  "r_page_setup (check_override c s) = r_page_setup s"
  "r_page_raw_rc_input (check_override c s) = r_page_raw_rc_input s"
  "r_page_rc_input (check_override c s) = r_page_rc_input s"
  "rc_channels_timestamp_received (check_override c s) = rc_channels_timestamp_received s"
  "r_status_alarms (check_override c s) = r_status_alarms s"
  by (simp_all add: check_override_eq rc_flag_ops put_status_def)

lemma rc_loss_effect:
  assumes "px4io_ok s" and "t_check l - rc_channels_timestamp_received s > 200000"
  shows "\<not> has_flag (r_status_flags (check_override c (handle_rc_loss l s))) 6
    \<and> \<not> has_flag (r_status_flags (check_override c (handle_rc_loss l s))) 0xC038
    \<and> \<not> has_flag (r_raw_rc_flags (handle_rc_loss l s)) PX4IO_P_RAW_RC_FLAGS_RC_OK
    \<and> r_rc_valid (handle_rc_loss l s) = 0 \<and> r_raw_rc_count (handle_rc_loss l s) = 0
    \<and> has_flag (r_status_alarms (handle_rc_loss l s)) PX4IO_P_STATUS_ALARMS_RC_LOST"
proof -
  let ?s = "handle_rc_loss l s"
  have len: "2 < length (r_page_status s)" "3 < length (r_page_status s)" "1 < length (r_page_raw_rc_input s)"
    "0 < length (r_page_rc_input s)" "0 < length (r_page_raw_rc_input s)"
    using assms(1) by (simp_all only: px4io_ok_def px4io_wf_def)
  have alarm: "has_flag (0x20 :: u16) 0x20" by (simp add: has_flag_def)
  have ok: "px4io_ok ?s" using assms(1) by (simp add: handle_rc_loss_def Let_def)
  have f: "\<not> has_flag (r_status_flags ?s) 6" "\<not> has_flag (r_status_flags ?s) 0xC038"
    using assms(2) len
    by (simp_all add: handle_rc_loss_def Let_def rc_flag_ops flag_simps has_flag_clr_disjoint)
  then have rc: "\<not> has_flag (r_status_flags ?s) 4"
    using has_flag_mono [of "r_status_flags ?s" 4 6] by auto
  then have "\<not> override_wanted c ?s" by (simp add: override_wanted_def)
  then have "r_status_flags (check_override c ?s) = clr_flag (r_status_flags ?s) 2"
    using status_ops_flags(2) [OF status_len(1) [OF ok]] by (simp add: check_override_eq)
  moreover have "\<not> has_flag (clr_flag x 2) m" if "\<not> has_flag x m" for x m :: u16
    using that has_flag_clr_mono by blast
  moreover have "\<not> has_flag (r_raw_rc_flags ?s) PX4IO_P_RAW_RC_FLAGS_RC_OK \<and> r_rc_valid ?s = 0
      \<and> r_raw_rc_count ?s = 0 \<and> has_flag (r_status_alarms ?s) PX4IO_P_STATUS_ALARMS_RC_LOST"
    using assms(2) len alarm by (simp add: handle_rc_loss_def Let_def rc_flag_ops flag_simps put_defs)
  ultimately show ?thesis using f by simp
qed

section \<open>Properties\<close>

text \<open>
  The scaling of a remote control channel is what its comment promises: with the minimum not
  above the maximum, the constrained input scales into -10000..10000 in the arithmetic of the
  source; the two ends of the range scale to the ends exactly, and inside the dead zone the
  result is 0.
\<close>

theorem rc_scaling:
  assumes "mn \<le> mx"
  shows "\<bar>scale_raw mn center mx dz (constrain_raw mn mx raw)\<bar> \<le> 10000
    \<and> (uint center + uint dz < uint mx \<longrightarrow> scale_raw mn center mx dz mx = 10000)
    \<and> (uint mn < uint center - uint dz \<longrightarrow> scale_raw mn center mx dz mn = - 10000)
    \<and> (\<bar>uint raw - uint center\<bar> \<le> uint dz \<longrightarrow> scale_raw mn center mx dz raw = 0)"
proof (intro conjI impI)
  show "\<bar>scale_raw mn center mx dz (constrain_raw mn mx raw)\<bar> \<le> 10000"
    using constrain_raw_range [OF assms] by (intro scale_raw_bounds) auto
next
  assume a: "uint center + uint dz < uint mx"
  then have "of_int (uint mx - uint center - uint dz) \<noteq> (0 :: rat)" by linarith
  then show "scale_raw mn center mx dz mx = 10000"
    using a scaled_ends(1) by (simp add: scale_raw_def del: of_int_diff)
next
  assume a: "uint mn < uint center - uint dz"
  have eq: "uint mn - uint center + uint dz = - (uint center - uint dz - uint mn)" by simp
  have "of_int (- d) / of_int d = (- 1 :: rat)" if "d \<noteq> 0" for d :: int using that by simp
  from this [of "uint center - uint dz - uint mn"] a
  have "of_int (uint mn - uint center + uint dz) / of_int (uint center - uint dz - uint mn) = (- 1 :: rat)"
    unfolding eq by linarith
  moreover have "\<not> uint center + uint dz < uint mn" using a uint_ge_0 [of dz] by linarith
  ultimately show "scale_raw mn center mx dz mn = - 10000"
    using a scaled_ends(2) by (simp add: scale_raw_def del: of_int_diff of_int_add)
next
  assume "\<bar>uint raw - uint center\<bar> \<le> uint dz"
  then show "scale_raw mn center mx dz raw = 0" by (simp add: scale_raw_def abs_le_iff)
qed

theorem rc_scaling_witness:
  "scale_raw 1000 1500 2000 30 2000 = 10000 \<and> scale_raw 1000 1500 2000 30 1000 = - 10000
   \<and> scale_raw 1000 1500 2000 30 1510 = 0"
  using rc_scaling [of 1000 2000 1500 30 1510] by simp


definition demo_link :: rc_link where
  "demo_link = \<lparr>sbus_input = (\<lambda>(vs, n). (False, (vs, n), False, False)),
     dsm_input = (\<lambda>(vs, n). (False, (vs, n), False, [], -1, 0)),
     st24_decode = (\<lambda>i b r. (False, r)), sumd_decode = (\<lambda>i b r. (False, r)),
     stack_lost_count = 0, stack_failsafe = False, t_ppm = 900000, t_received = 900000, t_check = 900000\<rparr>"

definition demo_controls :: controls_vars where
  "demo_controls = \<lparr>rc_value_override = 0, rssi_adc_counts = 0, c_rssi = 0, c_frame_drops = 0,
     ppm_last_valid_decode = 0, ppm_decoded_channels = 0, ppm_buffer = replicate 12 0, ppm_frame_length = 0\<rparr>"

lemma demo_link_ok: "rc_link_ok demo_link"
  by (simp add: rc_link_ok_def demo_link_def)




text \<open>
  C6. A lost receiver is noticed: when the last frame is more than 200 ms old at the end of a
  tick, the tick leaves no remote control flag and no override behind, no valid channel and a
  channel count of 0, and the alarm is raised.
\<close>

theorem rc_loss_detected:
  assumes "rc_link_ok l" and "px4io_ok (snd cs)"
    and "t_check l - rc_channels_timestamp_received (snd (controls_tick inp l cs)) > 200000"
  shows "case controls_tick inp l cs of (c, s) \<Rightarrow>
    \<not> has_flag (r_status_flags s) (PX4IO_P_STATUS_FLAGS_OVERRIDE OR PX4IO_P_STATUS_FLAGS_RC_OK)
    \<and> \<not> has_flag (r_status_flags s) (PX4IO_P_STATUS_FLAGS_RC_PPM OR PX4IO_P_STATUS_FLAGS_RC_DSM
          OR PX4IO_P_STATUS_FLAGS_RC_SBUS OR PX4IO_P_STATUS_FLAGS_RC_ST24 OR PX4IO_P_STATUS_FLAGS_RC_SUMD)
    \<and> \<not> has_flag (r_raw_rc_flags s) PX4IO_P_RAW_RC_FLAGS_RC_OK
    \<and> r_rc_valid s = 0 \<and> r_raw_rc_count s = 0
    \<and> has_flag (r_status_alarms s) PX4IO_P_STATUS_ALARMS_RC_LOST"
proof -
  obtain c s where t: "controls_tick inp l cs = (c, check_override c (handle_rc_loss l s))" "px4io_ok s"
    using controls_tick_last [OF assms(1,2)] by blast
  have "t_check l - rc_channels_timestamp_received s > 200000"
    using assms(3) t(1) by (simp add: handle_loss_stamp)
  then show ?thesis using t rc_loss_effect [OF t(2), of l c] by simp
qed

theorem rc_loss_detected_witness:
  "has_flag (r_status_alarms (snd (controls_tick demo_inputs demo_link (demo_controls, px4io_reset))))
     PX4IO_P_STATUS_ALARMS_RC_LOST"
proof -
  have "fst (gather_sbus demo_link cs) = False" "fst (gather_dsm demo_link cs) = False" for cs
    by (simp_all add: gather_sbus_def gather_dsm_def dsm_port_input_def dsm_stage_def st24_stage_def
        sumd_stage_def Let_def split_beta demo_link_def)
  moreover have "fst (gather_ppm demo_link cs) = False" if "ppm_last_valid_decode (fst cs) = 0" for cs
    using that by (simp add: gather_ppm_def ppm_input_def split_beta demo_link_def)
  moreover have "ppm_last_valid_decode (fst (snd (gather_sbus demo_link (rssi_step inp (demo_controls, px4io_reset))))) = 0" for inp
    by (simp add: gather_sbus_def rssi_step_def Let_def split_beta demo_link_def demo_controls_def)
  ultimately have "rc_channels_timestamp_received (snd (controls_tick demo_inputs demo_link (demo_controls, px4io_reset)))
      = rc_channels_timestamp_received px4io_reset"
    by (simp add: controls_tick_def split_beta Let_def gather_stamp put_raw_rc_def handle_loss_stamp)
  then have "rc_channels_timestamp_received (snd (controls_tick demo_inputs demo_link (demo_controls, px4io_reset))) = 0"
    by (simp add: px4io_reset_def)
  then show ?thesis
    using rc_loss_detected [OF demo_link_ok, of "(demo_controls, px4io_reset)" demo_inputs] px4io_ok_reset
    by (simp add: split_beta demo_link_def)
qed

text \<open>
  The throttle failsafe value has no effect: the comparison runs on the value that step 1
  has already constrained to the channel limits, so with the minimum not above the maximum a
  throttle channel always clears the receiver failsafe flag, whatever the receiver sent and
  whatever threshold is configured.
\<close>

theorem throttle_failsafe_never_detected:
  assumes "px4io_wf s"
    and "rc_conf s i PX4IO_P_RC_CONFIG_MIN \<le> rc_conf s i PX4IO_P_RC_CONFIG_MAX"
    and "has_flag (rc_conf s i PX4IO_P_RC_CONFIG_OPTIONS) PX4IO_P_RC_CONFIG_OPTIONS_ENABLED"
    and "rc_conf s i PX4IO_P_RC_CONFIG_ASSIGNMENT = 3" and "r_setup_rc_thr_failsafe s \<noteq> 0"
  shows "\<not> has_flag (r_raw_rc_flags (fst (snd (map_channel i (c, s, a))))) PX4IO_P_RAW_RC_FLAGS_FAILSAFE"
proof -
  have "rc_conf s i PX4IO_P_RC_CONFIG_MIN \<le> channel_raw s i" "channel_raw s i \<le> rc_conf s i PX4IO_P_RC_CONFIG_MAX"
    unfolding channel_raw_def using constrain_raw_range [OF assms(2)] by blast+
  then have "throttle_failsafe i s = raw_flag_clr PX4IO_P_RAW_RC_FLAGS_FAILSAFE s"
    unfolding throttle_failsafe_def by (simp only: not_less [symmetric]) simp
  moreover have "1 < length (r_page_raw_rc_input s)" using assms(1) by (simp add: px4io_wf_def)
  ultimately show ?thesis
    using assms(3-5) by (simp add: map_channel_def Let_def raw_flag_clr_def has_flag_clr_same)
qed

theorem throttle_failsafe_never_detected_witness:
  "\<not> has_flag (r_raw_rc_flags (fst (snd (map_channel 3 (demo_controls,
      put_setup PX4IO_P_SETUP_RC_THR_FAILSAFE_US 900 (controls_init px4io_reset), 0)))))
      PX4IO_P_RAW_RC_FLAGS_FAILSAFE"
proof -
  let ?s = "put_setup PX4IO_P_SETUP_RC_THR_FAILSAFE_US 900 (controls_init px4io_reset)"
  have "px4io_wf ?s" using px4io_wf_reset by (simp add: controls_init_wf)
  moreover have "rc_conf ?s 3 PX4IO_P_RC_CONFIG_MIN = 1000" "rc_conf ?s 3 PX4IO_P_RC_CONFIG_MAX = 2000"
    "rc_conf ?s 3 PX4IO_P_RC_CONFIG_OPTIONS = 1" "rc_conf ?s 3 PX4IO_P_RC_CONFIG_ASSIGNMENT = 3"
    by (simp_all add: controls_init_def put_setup_def controls_init_config_def upt_rec)
  moreover have "r_setup_rc_thr_failsafe ?s \<noteq> 0"
    by (simp add: controls_init_def put_raw_rc_def px4io_reset_def One_nat_def)
  ultimately show ?thesis
    using throttle_failsafe_never_detected [of ?s 3 demo_controls 0] by (simp add: has_flag_def)
qed

end
