(* ===== verification/Px4io_Main.thy ===== *)
theory Px4io_Main
  imports Px4io_Safety Px4io_Serial Px4io_Controls
begin

text \<open>
  The coprocessor as a whole: \<open>px4iofirmware/px4io.c\<close> (start-up and main loop) and
  \<open>px4iofirmware/adc.c\<close>, and the system in which the main loop, the callouts of the safety
  switch and the interrupts of the serial link interleave.  The mixer (\<open>mixer.cpp\<close>, C++) is the
  argument \<open>mixer_tick\<close>.  \<open>clk k\<close> is what the k-th reading of the clock in an iteration returns.
\<close>

declare One_nat_def [simp del]

section \<open>Definitions\<close>

text \<open>
  One conversion of the ADC: the list holds, per poll, the end-of-conversion bit and the time
  since the start, should it be looked at.  \<open>None\<close> means that the loop is still polling when the
  list ends.
\<close>

fun adc_poll :: "u16 \<Rightarrow> (bool \<times> u64) list \<Rightarrow> u16 option" where
  "adc_poll result [] = None"
| "adc_poll result ((eoc, elapsed) # polls) =
     (if eoc then Some result else if elapsed > 100 then Some 0xffff else adc_poll result polls)"

record main_vars =
  last_mem_time :: u64
  heartbeat :: bool
  ring_counter :: u32
  brightness :: u32
  brightness_counter :: u32
  on_counter :: u32
  last_debug_time :: u64
  last_heartbeat_time :: u64
  last_loop_time :: u64
  dt :: rat

definition main_start :: main_vars where
  "main_start = \<lparr>last_mem_time = 0, heartbeat = False, ring_counter = 0, brightness = 118,
     brightness_counter = 0, on_counter = 0, last_debug_time = 0, last_heartbeat_time = 0,
     last_loop_time = 0, dt = 0\<rparr>"

definition io_armed :: "px4io \<Rightarrow> bool" where
  "io_armed s \<longleftrightarrow> has_flag (r_status_flags s) PX4IO_P_STATUS_FLAGS_SAFETY_OFF
     \<and> has_flag (r_setup_arming s) PX4IO_P_SETUP_ARMING_FMU_ARMED"

definition update_mem_usage :: "u64 \<Rightarrow> u32 \<Rightarrow> main_vars \<times> px4io \<Rightarrow> main_vars \<times> px4io" where
  "update_mem_usage t fordblks vs =
     (case vs of (v, s) \<Rightarrow>
      if io_armed s then (v, s)
      else if t - last_mem_time v > 500 * 1000
        then (v\<lparr>last_mem_time := t\<rparr>, put_status PX4IO_P_STATUS_FREEMEM (ucast fordblks) s)
        else (v, s))"

definition heartbeat_blink :: "main_vars \<times> px4io \<Rightarrow> main_vars \<times> px4io" where
  "heartbeat_blink vs =
     (case vs of (v, s) \<Rightarrow>
      let v = v\<lparr>heartbeat := \<not> heartbeat v\<rparr> in (v, emit (Led_blue (heartbeat v)) s))"

text \<open>
  The breathing of the ring light.  The quotient by \<open>brightness_counter\<close> is taken at 0 too, where
  the Cortex-M division yields 0, as the division of words does here.
\<close>

definition ring_blink :: "main_vars \<times> px4io \<Rightarrow> main_vars \<times> px4io" where
  "ring_blink vs =
     (case vs of (v, s) \<Rightarrow>
      if io_armed s then (v, emit (Led_ring True) s)
      else if brightness_counter v < 118 then
        let on = ((on_counter v * 100) div brightness_counter v + 1 \<le> (brightness v * 100) div 118 + 1);
            s = emit (Led_ring (\<not> on)) s;
            v = v\<lparr>brightness_counter := brightness_counter v + 1\<rparr>
        in (if on then v\<lparr>on_counter := on_counter v + 1\<rparr> else v, s)
      else
        let v = (if ring_counter v \<ge> 62 then v\<lparr>ring_counter := 0\<rparr> else v);
            n = (if ring_counter v < 32 then ring_counter v else 62 - ring_counter v)
        in (v\<lparr>brightness := (n * n) div 8, brightness_counter := 0, on_counter := 0,
              ring_counter := ring_counter v + 1\<rparr>, s))"

definition APP_SIZE_MAX :: nat where "APP_SIZE_MAX = 0xf000"
definition APP_LOAD_ADDRESS :: u32 where "APP_LOAD_ADDRESS = 0x08001000"

definition fw_words :: "(u32 \<Rightarrow> u32) \<Rightarrow> u32 list" where
  "fw_words flash = map (\<lambda>i. flash (word_of_nat (4 * i) + APP_LOAD_ADDRESS)) [0..<APP_SIZE_MAX div 4]"

definition calculate_fw_crc :: "(u32 \<Rightarrow> u32) \<Rightarrow> px4io \<Rightarrow> px4io" where
  "calculate_fw_crc flash s =
     (let sum = foldl (\<lambda>sum bytes. crc32part (bytes_of_u32 bytes) sum) 0 (fw_words flash)
      in put_setup (PX4IO_P_SETUP_CRC + 1) (ucast (drop_bit 16 sum))
           (put_setup PX4IO_P_SETUP_CRC (ucast (sum AND 0xFFFF)) s))"

text \<open>
  Start-up up to the main loop; \<open>None\<close> is the lock-down with blinking lights for lack of memory.
\<close>

definition user_start_init :: "(u32 \<Rightarrow> u32) \<Rightarrow> u32 \<Rightarrow> u32 \<Rightarrow> u32 \<Rightarrow> serial \<times> px4io \<Rightarrow> (serial \<times> px4io) option" where
  "user_start_init flash clock bitrate mxordblk us =
     (case us of (u, s) \<Rightarrow>
      let s = s\<lparr>rc_channels_timestamp_received := 0, rc_channels_timestamp_valid := 0,
                fmu_data_received_time := 0\<rparr>;
          s = calculate_fw_crc flash s;
          s = emit (Led_ring False) (emit (Led_safety False) (emit (Led_blue False) (emit (Led_amber False) s)));
          s = emit (Sbus_enable False) s;
          s = controls_init s;
          u = interface_init clock bitrate u;
          s = put_status PX4IO_P_STATUS_FREEMEM (ucast mxordblk) s
      in if mxordblk < 550 then None else Some (u, s))"

definition loop_dt :: "u64 \<Rightarrow> u64 \<Rightarrow> rat" where
  "loop_dt t prev =
     (let d = fl32 (fl32 (of_nat (unat (t - prev))) / 1000000)
      in if d < fl32 (1 / 10000) then fl32 (1 / 10000) else if d > fl32 (2 / 100) then fl32 (2 / 100) else d)"

definition thermal_and_heartbeat :: "(nat \<Rightarrow> u64) \<Rightarrow> main_vars \<times> px4io \<Rightarrow> main_vars \<times> px4io" where
  "thermal_and_heartbeat clk vs =
     (case vs of (v, s) \<Rightarrow>
      let thermal = r_page_setup s ! PX4IO_P_SETUP_THERMAL in
      if thermal = PX4IO_THERMAL_IGNORE then
        let period = (250 * 1000 :: u32);
            period = (if has_flag (r_status_flags s) PX4IO_P_STATUS_FLAGS_OVERRIDE then period div 4 else period)
        in if clk 2 - last_heartbeat_time v > ucast period
           then heartbeat_blink (v\<lparr>last_heartbeat_time := clk 3\<rparr>, s) else (v, s)
      else if thermal < PX4IO_THERMAL_FULL then (v, emit (Led_blue False) s)
      else (v, emit (Led_blue True) s))"

definition main_loop ::
  "(px4io \<Rightarrow> px4io) \<Rightarrow> io_inputs \<Rightarrow> rc_link \<Rightarrow> (nat \<Rightarrow> u64) \<Rightarrow> u32 \<Rightarrow> u32
     \<Rightarrow> controls_vars \<times> main_vars \<times> px4io \<Rightarrow> controls_vars \<times> main_vars \<times> px4io" where
  "main_loop mixer_tick inp l clk fordblks mxordblk cvs =
     (case cvs of (c, v, s) \<Rightarrow>
      let v = v\<lparr>dt := loop_dt (clk 0) (last_loop_time v)\<rparr>;
          v = v\<lparr>last_loop_time := clk 1\<rparr>;
          s = mixer_tick s;
          (c, s) = controls_tick inp l (c, s);
          (v, s) = thermal_and_heartbeat clk (v, s);
          (v, s) = update_mem_usage (clk 4) fordblks (v, s);
          (v, s) = ring_blink (v, s);
          s = check_reboot (inp\<lparr>now := clk 5\<rparr>) s;
          s = show_debug_messages s
      in if clk 6 - last_debug_time v > 1000 * 1000
         then (c, v\<lparr>last_debug_time := clk 7\<rparr>,
               isr_debug 1 (Dbg_state (r_page_setup s ! PX4IO_P_SETUP_SET_DEBUG) (r_status_flags s)
                 (r_setup_arming s) (r_setup_features s) mxordblk) s)
         else (c, v, s))"

section \<open>The interleaved system\<close>

text \<open>
  A step of the coprocessor is one iteration of the main loop, one callout or one interrupt; the
  receive DMA may put any 68 bytes into the packet buffer at any time.
\<close>

record io_sys =
  sys_safety :: safety_vars
  sys_controls :: controls_vars
  sys_main :: main_vars
  sys_serial :: serial
  sys_io :: px4io

inductive io_step :: "(px4io \<Rightarrow> px4io) \<Rightarrow> io_sys \<Rightarrow> io_sys \<Rightarrow> bool" for mixer_tick where
  loop: "rc_link_ok l \<Longrightarrow> main_loop mixer_tick inp l clk fordblks mxordblk (sys_controls x, sys_main x, sys_io x) = (c, v, s)
     \<Longrightarrow> io_step mixer_tick x (x\<lparr>sys_controls := c, sys_main := v, sys_io := s\<rparr>)"
| button: "safety_check_button pressed (sys_safety x, sys_io x) = (v, s)
     \<Longrightarrow> io_step mixer_tick x (x\<lparr>sys_safety := v, sys_io := s\<rparr>)"
| blink: "failsafe_blink (sys_safety x, sys_io x) = (v, s)
     \<Longrightarrow> io_step mixer_tick x (x\<lparr>sys_safety := v, sys_io := s\<rparr>)"
| dma_data: "packet_wf p \<Longrightarrow> io_step mixer_tick x (x\<lparr>sys_serial := (sys_serial x)\<lparr>dma_packet := p\<rparr>\<rparr>)"
| dma_done: "rx_dma_callback inp adj (sys_serial x, sys_io x) = (u, s)
     \<Longrightarrow> io_step mixer_tick x (x\<lparr>sys_serial := u, sys_io := s\<rparr>)"
| uart: "serial_interrupt inp adj sr residual (sys_serial x, sys_io x) = (u, s)
     \<Longrightarrow> io_step mixer_tick x (x\<lparr>sys_serial := u, sys_io := s\<rparr>)"

inductive_cases io_stepE: "io_step mixer_tick x y"

text \<open>The 32-bit value that two 16-bit registers hold, low half first.\<close>

definition u16_pair :: "u16 \<Rightarrow> u16 \<Rightarrow> u32" where
  "u16_pair lo hi = ucast lo OR push_bit 16 (ucast hi)"

lemma u16_pair_halves: "u16_pair (ucast (c AND 0xFFFF)) (ucast (drop_bit 16 c)) = c"
proof (rule bit_word_eqI)
  fix n assume "n < LENGTH(32)"
  moreover have m: "(0xFFFF :: u32) = mask 16" by (simp add: mask_eq_exp_minus_1)
  ultimately show "bit (u16_pair (ucast (c AND 0xFFFF)) (ucast (drop_bit 16 c))) n = bit c n"
    unfolding m u16_pair_def by (cases "n < 16") (auto simp: bit_simps)
qed

section \<open>The invariant of the system\<close>

text \<open>
  What is relied on of the mixer: it keeps the register file in shape and inside its limits, and
  it never clears the arming flags of a terminated flight.
\<close>

definition mixer_ok :: "(px4io \<Rightarrow> px4io) \<Rightarrow> bool" where
  "mixer_ok mixer_tick \<longleftrightarrow> (\<forall>a s. latched a s \<longrightarrow> latched a (mixer_tick s))"

definition sys_ok :: "u16 \<Rightarrow> io_sys \<Rightarrow> bool" where
  "sys_ok a x \<longleftrightarrow> latched a (sys_io x) \<and> safety_vars_ok (sys_safety x) \<and> packet_wf (dma_packet (sys_serial x))"

lemma latched_0: "latched 0 s = px4io_ok s"
  by (simp add: latched_def latch_kept_def has_flag_def)

lemma setup_frame [simp]:
  "r_page_setup (put_raw_values vs s) = r_page_setup s"
  by (simp add: put_raw_values_def)

lemma dsm_port_arming:
  "r_setup_arming (snd (snd (snd (dsm_stage l cs)))) = r_setup_arming (snd cs)"
  "r_setup_arming (snd (snd (st24_stage l bs cs))) = r_setup_arming (snd cs)"
  "r_setup_arming (snd (sumd_stage l bs s)) = r_setup_arming s"
  by (simp_all add: dsm_stage_def st24_stage_def sumd_stage_def Let_def split_beta)

lemma gather_arming:
  "r_setup_arming (snd (rssi_step inp cs)) = r_setup_arming (snd cs)"
  "r_setup_arming (snd (snd (gather_sbus l cs))) = r_setup_arming (snd cs)"
  "r_setup_arming (snd (snd (gather_ppm l cs))) = r_setup_arming (snd cs)"
  "r_setup_arming (snd (snd (gather_dsm l cs))) = r_setup_arming (snd cs)"
  by (simp_all add: rssi_step_def gather_sbus_def gather_ppm_def ppm_input_def gather_dsm_def dsm_port_input_def
      dsm_port_arming Let_def split_beta)

lemma map_channels_setup: "r_page_setup (fst (snd (fold map_channel is csa))) = r_page_setup (fst (snd csa))"
proof (induction "is" arbitrary: csa)
  case (Cons i "is")
  have "r_page_setup (fst (snd (map_channel i csa))) = r_page_setup (fst (snd csa))"
    by (simp add: map_channel_def split_beta Let_def throttle_failsafe_def)
  then show ?case using Cons by simp
qed simp

lemma zero_unassigned_setup: "r_page_setup (zero_unassigned a s) = r_page_setup s"
proof -
  have "r_page_setup (fold (\<lambda>i s. if \<not> bit a i then put_rc (1 + i) 0 s else s) ks s) = r_page_setup s" for ks
    by (induction ks arbitrary: s) simp_all
  then show ?thesis by (simp only: zero_unassigned_def)
qed

lemma process_frame_setup: "r_page_setup (snd (process_frame l cs)) = r_page_setup (snd cs)"
  by (simp add: process_frame_def map_channels_setup zero_unassigned_setup Let_def split_beta)

lemma loss_override_setup:
  "r_page_setup (handle_rc_loss l s) = r_page_setup s" "r_page_setup (check_override c s) = r_page_setup s"
  by (simp_all add: handle_rc_loss_def check_override_def Let_def)

lemma controls_tick_arming: "r_setup_arming (snd (controls_tick inp l cs)) = r_setup_arming (snd cs)"
  by (simp add: controls_tick_def gather_arming process_frame_setup loss_override_setup Let_def split_beta)

lemma controls_tick_latched:
  "rc_link_ok l \<Longrightarrow> latched a (snd cs) \<Longrightarrow> latched a (snd (controls_tick inp l cs))"
  by (simp add: latched_def controls_tick_ok controls_tick_arming)

lemma latched_frame:
  "latched a (s\<lparr>last_msg_counter := n\<rparr>) = latched a s" "latched a (s\<lparr>last_page := pg, last_offset := off\<rparr>) = latched a s"
  "length ks = 32 \<Longrightarrow> latched a s \<Longrightarrow> latched a (s\<lparr>r_page_scratch := ks\<rparr>)"
  by (simp_all add: latched_def px4io_ok_def px4io_wf_def pwm_limits_def rates_ok_def)

lemma latched_stamps:
  "latched a (s\<lparr>rc_channels_timestamp_received := t, rc_channels_timestamp_valid := t', fmu_data_received_time := t''\<rparr>)
     = latched a s"
  by (simp add: latched_def px4io_ok_def px4io_wf_def pwm_limits_def rates_ok_def)

lemma debug_out_latched:
  "latched a s \<Longrightarrow> latched a ((emit e s)\<lparr>msg_next_out := k mod NUM_MSG\<rparr>)"
  by (simp add: latched_def px4io_ok_def px4io_wf_def pwm_limits_def rates_ok_def NUM_MSG_def emit_def)

lemma show_debug_latched: "latched a s \<Longrightarrow> latched a (show_debug_messages s)"
  unfolding show_debug_messages_def Let_def
  by (auto intro!: funpow_keeps [of "latched a"] debug_out_latched simp: latched_frame)

lemma main_loop_latched:
  assumes "mixer_ok mixer_tick" and "rc_link_ok l" and "latched a (snd (snd cvs))"
  shows "latched a (snd (snd (main_loop mixer_tick inp l clk f m cvs)))"
proof -
  have tick: "latched a (snd (controls_tick inp l (fst cvs, mixer_tick (snd (snd cvs)))))"
    using assms by (simp add: mixer_ok_def controls_tick_latched)
  have rest: "latched a (snd (thermal_and_heartbeat clk vs))" "latched a (snd (update_mem_usage t f vs))"
    "latched a (snd (ring_blink vs))" "latched a (check_reboot inp (snd vs))" if "latched a (snd vs)" for vs t inp
    using that latch_inv.event latch_inv.status
    by (simp_all add: thermal_and_heartbeat_def heartbeat_blink_def update_mem_usage_def ring_blink_def
        check_reboot_def split_beta Let_def)
  show ?thesis
    using tick rest show_debug_latched latch_inv.debug
    by (simp add: main_loop_def split_beta Let_def)
qed

lemma registers_get_latched: "latched a s \<Longrightarrow> latched a (snd (registers_get inp page off s))"
proof -
  assume s: "latched a s"
  have "latched a (refresh_status inp s)" "latched a (refresh_adc inp s)" "latched a (refresh_pwm_info inp s)"
    using s latch_inv.status
    by (simp_all add: refresh_status_def Let_def latched_frame refresh_adc_def refresh_pwm_info_def)
  then have "latched a (snd rs)" if "select_page inp page s = Some rs" for rs
    using that s by (auto simp: select_page_def Let_def split: if_splits)
  then show ?thesis using s
    by (auto simp: registers_get_def latched_frame Let_def split: option.split)
qed

lemma rx_handle_latched: "latched a (snd ps) \<Longrightarrow> latched a (snd (rx_handle_packet inp adj ps))"
  using latch_inv.write_keeps registers_get_latched
  by (auto simp: rx_handle_packet_def Let_def split_beta split: option.split)

lemma dma_reset_packet [simp]: "dma_packet (dma_reset u) = dma_packet u"
  by (simp add: dma_reset_def Let_def)

lemma rx_dma_keeps:
  assumes "latched a (snd us)" and "packet_wf (dma_packet (fst us))"
  shows "latched a (snd (rx_dma_callback inp adj us))" "packet_wf (dma_packet (fst (rx_dma_callback inp adj us)))"
  using assms rx_handle_latched [of a] reply_shape [of "dma_packet (fst us)" inp adj "snd us"]
  by (simp_all add: rx_dma_callback_def split_beta Let_def)

lemma serial_interrupt_keeps:
  assumes "latched a (snd us)" and "packet_wf (dma_packet (fst us))"
  shows "latched a (snd (serial_interrupt inp adj sr res us))"
    "packet_wf (dma_packet (fst (serial_interrupt inp adj sr res us)))"
  using assms rx_dma_keeps [of a] by (simp_all add: serial_interrupt_def split_beta Let_def)

lemma safety_callouts_latched:
  "latched a (snd vs) \<Longrightarrow> latched a (snd (safety_check_button p vs))"
  "latched a (snd vs) \<Longrightarrow> latched a (snd (failsafe_blink vs))"
  by (cases vs; simp add: safety_check_button_eq failsafe_blink_def Let_def latch_inv.event latch_inv.status)+

lemma io_step_ok: "io_step mixer_tick x y \<Longrightarrow> mixer_ok mixer_tick \<Longrightarrow> sys_ok a x \<Longrightarrow> sys_ok a y"
proof (induction rule: io_step.induct)
  case (loop l inp clk f m x c v s)
  then show ?case using main_loop_latched [of mixer_tick l a "(sys_controls x, sys_main x, sys_io x)" inp clk f m]
    by (simp add: sys_ok_def)
next
  case (button p x v s)
  then show ?case
    using safety_callouts_latched(1) [of a "(sys_safety x, sys_io x)" p] safety_vars_ok_button [of "(sys_safety x, sys_io x)" p]
    by (simp add: sys_ok_def)
next
  case (blink x v s)
  then show ?case
    using safety_callouts_latched(2) [of a "(sys_safety x, sys_io x)"] failsafe_blink_keeps(2) [of "(sys_safety x, sys_io x)"]
    by (simp add: sys_ok_def)
next
  case (dma_done inp adj x u s)
  then show ?case using rx_dma_keeps [of a "(sys_serial x, sys_io x)" inp adj] by (simp add: sys_ok_def)
next
  case (uart inp adj sr r x u s)
  then show ?case using serial_interrupt_keeps [of a "(sys_serial x, sys_io x)" inp adj sr r] by (simp add: sys_ok_def)
qed (simp add: sys_ok_def)

lemma io_steps_ok: "(io_step mixer_tick)\<^sup>*\<^sup>* x y \<Longrightarrow> mixer_ok mixer_tick \<Longrightarrow> sys_ok a x \<Longrightarrow> sys_ok a y"
  by (induction rule: rtranclp_induct) (auto dest: io_step_ok)

lemma fw_crc_latched: "latched a s \<Longrightarrow> latched a (calculate_fw_crc flash s)"
  unfolding calculate_fw_crc_def Let_def by (intro latch_inv.setup_free) simp_all

lemma px4io_ok_controls_init: "px4io_ok s \<Longrightarrow> px4io_ok (controls_init s)"
proof -
  have "px4io_ok (controls_init s) = px4io_ok s" if "px4io_wf s"
    using that controls_init_wf [OF that]
    by (simp add: px4io_ok_def pwm_limits_def rates_ok_def controls_init_def put_raw_rc_def)
  then show "px4io_ok s \<Longrightarrow> ?thesis" by (simp add: px4io_ok_def)
qed

definition io_power_up :: "(u32 \<Rightarrow> u32) \<Rightarrow> u32 \<Rightarrow> u32 \<Rightarrow> u32 \<Rightarrow> controls_vars \<Rightarrow> serial \<Rightarrow> io_sys option" where
  "io_power_up flash clock bitrate mxordblk c u =
     map_option (\<lambda>(u, s). \<lparr>sys_safety = safety_start, sys_controls = c, sys_main = main_start,
                            sys_serial = u, sys_io = s\<rparr>)
       (user_start_init flash clock bitrate mxordblk (u, px4io_reset))"

lemma io_power_up_ok:
  assumes "io_power_up flash clock bitrate mxordblk c u = Some x" and "packet_wf (dma_packet u)"
  shows "sys_ok 0 x"
proof -
  have "px4io_ok (calculate_fw_crc flash (px4io_reset\<lparr>rc_channels_timestamp_received := 0,
      rc_channels_timestamp_valid := 0, fmu_data_received_time := 0\<rparr>))"
    using px4io_ok_reset by (simp only: latched_0 [symmetric]) (intro fw_crc_latched, simp only: latched_stamps)
  then show ?thesis using assms
    by (auto simp: io_power_up_def user_start_init_def Let_def sys_ok_def latched_0 safety_vars_ok_start
        px4io_ok_controls_init ok_inv.event interface_init_def split: if_splits)
qed

lemma loop_dt_bounds: "fl32 (1 / 10000) \<le> loop_dt t prev \<and> loop_dt t prev \<le> fl32 (2 / 100)"
proof -
  have "fl32 (1 / 10000) \<le> fl32 (2 / 100)" by code_simp
  then show ?thesis by (auto simp: loop_dt_def Let_def)
qed

section \<open>Properties\<close>


definition demo_mixer :: "px4io \<Rightarrow> px4io" where
  "demo_mixer s = s\<lparr>r_page_servos := r_page_direct_pwm s\<rparr>"

lemma demo_mixer_ok: "mixer_ok demo_mixer"
  by (simp add: mixer_ok_def demo_mixer_def latched_def px4io_ok_def px4io_wf_def pwm_limits_def rates_ok_def)


text \<open>
  In the whole system, too, flight termination is final: once the flag is set, no main loop
  iteration, callout, interrupt or packet clears it, nor a failsafe that was forced with it.
\<close>

theorem io_termination_final:
  assumes "mixer_ok mixer_tick" and "sys_ok 0 x" and "(io_step mixer_tick)\<^sup>*\<^sup>* x y"
    and "has_flag (r_setup_arming (sys_io x)) PX4IO_P_SETUP_ARMING_TERMINATION_FAILSAFE"
  shows "has_flag (r_setup_arming (sys_io y)) PX4IO_P_SETUP_ARMING_TERMINATION_FAILSAFE
    \<and> (has_flag (r_setup_arming (sys_io x)) PX4IO_P_SETUP_ARMING_FORCE_FAILSAFE \<longrightarrow>
       has_flag (r_setup_arming (sys_io y)) PX4IO_P_SETUP_ARMING_FORCE_FAILSAFE)"
proof -
  have "sys_ok (r_setup_arming (sys_io x)) x" using assms(2) by (simp add: sys_ok_def latched_def)
  from io_steps_ok [OF assms(3,1) this] show ?thesis using assms(4)
    by (simp add: sys_ok_def latched_def latch_kept_def)
qed

definition demo_terminated :: io_sys where
  "demo_terminated = \<lparr>sys_safety = safety_start, sys_controls = demo_controls, sys_main = main_start,
     sys_serial = demo_serial demo_packet,
     sys_io = put_setup PX4IO_P_SETUP_ARMING
       (PX4IO_P_SETUP_ARMING_TERMINATION_FAILSAFE OR PX4IO_P_SETUP_ARMING_FORCE_FAILSAFE) px4io_reset\<rparr>"

theorem io_termination_final_witness:
  "has_flag (r_setup_arming (snd (safety_check_button True (sys_safety demo_terminated, sys_io demo_terminated))))
     PX4IO_P_SETUP_ARMING_TERMINATION_FAILSAFE"
proof -
  let ?r = "safety_check_button True (sys_safety demo_terminated, sys_io demo_terminated)"
  have "px4io_ok (sys_io demo_terminated)"
    unfolding demo_terminated_def io_sys.simps by (rule ok_inv.setup_arming [OF px4io_ok_reset])
      (simp add: px4io_reset_def latch_kept_def has_flag_def One_nat_def)
  then have "sys_ok 0 demo_terminated"
    by (simp add: sys_ok_def latched_0) (simp add: demo_terminated_def safety_vars_ok_start demo_serial_def
        packet_wf_def demo_packet_def)
  moreover have "(io_step demo_mixer)\<^sup>*\<^sup>* demo_terminated (demo_terminated\<lparr>sys_safety := fst ?r, sys_io := snd ?r\<rparr>)"
    by (rule r_into_rtranclp) (rule io_step.button [where pressed = True], simp)
  moreover have "has_flag (r_setup_arming (sys_io demo_terminated)) PX4IO_P_SETUP_ARMING_TERMINATION_FAILSAFE"
    by (simp add: demo_terminated_def px4io_reset_def has_flag_def One_nat_def)
  ultimately show ?thesis using io_termination_final [OF demo_mixer_ok] by fastforce
qed

text \<open>
  The two CRC registers that the flight controller reads to decide on a firmware update hold
  the halves of the CRC-32 of the whole application area, as the bytes lie in flash.
\<close>

theorem fw_crc_registers:
  assumes "px4io_wf s"
  shows "u16_pair (r_page_setup (calculate_fw_crc flash s) ! PX4IO_P_SETUP_CRC)
           (r_page_setup (calculate_fw_crc flash s) ! (PX4IO_P_SETUP_CRC + 1))
         = crc32_signature 0 APP_SIZE_MAX (concat (map bytes_of_u32 (fw_words flash)))"
proof -
  have parts: "foldl (\<lambda>sum bytes. crc32part (bytes_of_u32 bytes) sum) c ws
      = foldl crc32_byte c (concat (map bytes_of_u32 ws))" for ws c
    by (induction ws arbitrary: c) (simp_all add: crc32part_eq)
  have "length (concat (map bytes_of_u32 ws)) = 4 * length ws" for ws
    by (induction ws) simp_all
  moreover have "4 * length (fw_words flash) = APP_SIZE_MAX" by (simp add: fw_words_def APP_SIZE_MAX_def)
  ultimately have "length (concat (map bytes_of_u32 (fw_words flash))) = APP_SIZE_MAX" by simp
  then have "crc32_signature 0 APP_SIZE_MAX (concat (map bytes_of_u32 (fw_words flash)))
      = foldl (\<lambda>sum bytes. crc32part (bytes_of_u32 bytes) sum) 0 (fw_words flash)"
    by (simp add: crc32_signature_def parts)
  then show ?thesis using assms
    by (simp add: calculate_fw_crc_def Let_def px4io_wf_def u16_pair_halves)
qed

theorem fw_crc_registers_witness:
  "u16_pair (r_page_setup (calculate_fw_crc (\<lambda>a. a) px4io_reset) ! PX4IO_P_SETUP_CRC)
     (r_page_setup (calculate_fw_crc (\<lambda>a. a) px4io_reset) ! (PX4IO_P_SETUP_CRC + 1))
   = crc32_signature 0 APP_SIZE_MAX (concat (map bytes_of_u32 (fw_words (\<lambda>a. a))))"
  using fw_crc_registers [OF px4io_wf_reset] .

end
