(* ===== verification/Sq_Queue.thy ===== *)
theory Sq_Queue
  imports Px4_Prelude
begin

text \<open>
  The singly linked queues of the C library (\<open>include/queue.h\<close> and \<open>libs/libc/queue/sq_*.c\<close>): a queue is a head and a tail
  pointer, and the nodes are linked through a field of their own. The nodes are addresses, the links of all nodes are one function
  from addresses to pointers, and \<^term>\<open>None\<close> is NULL. An operation that dereferences NULL or that walks a circular chain for ever
  has no result: its value is \<^term>\<open>None\<close>.

  The representation relation \<open>queue_of\<close> says which list of nodes a queue holds; each operation is shown to do to this list what its
  description says, and to leave the links of every other node alone.
\<close>

section \<open>Queues and their operations\<close>

type_synonym 'n links = "'n \<Rightarrow> 'n option"

record 'n sq_queue =
  sq_head :: "'n option"
  sq_tail :: "'n option"

type_synonym 'n sq_state = "'n links \<times> 'n sq_queue"

definition sq_init :: "'n sq_queue" where
  "sq_init = \<lparr> sq_head = None, sq_tail = None \<rparr>"

definition sq_empty :: "'n sq_queue \<Rightarrow> bool" where
  "sq_empty q \<longleftrightarrow> sq_head q = None"

definition sq_peek :: "'n sq_queue \<Rightarrow> 'n option" where
  "sq_peek q = sq_head q"

definition sq_next :: "'n links \<Rightarrow> 'n \<Rightarrow> 'n option" where
  "sq_next f n = f n"

definition sq_addfirst :: "'n \<Rightarrow> 'n sq_state \<Rightarrow> 'n sq_state" where
  "sq_addfirst node s = (let (f, q) = s;
     f = f(node := sq_head q);
     q = (if sq_head q = None then q\<lparr>sq_tail := Some node\<rparr> else q)
     in (f, q\<lparr>sq_head := Some node\<rparr>))"

definition sq_addlast :: "'n \<Rightarrow> 'n sq_state \<Rightarrow> 'n sq_state option" where
  "sq_addlast node s = (let (f, q) = s; f = f(node := None) in
     if sq_head q = None then Some (f, q\<lparr>sq_head := Some node, sq_tail := Some node\<rparr>)
     else case sq_tail q of
       None \<Rightarrow> None
     | Some t \<Rightarrow> Some (f(t := Some node), q\<lparr>sq_tail := Some node\<rparr>))"

definition sq_addafter :: "'n \<Rightarrow> 'n \<Rightarrow> 'n sq_state \<Rightarrow> 'n sq_state option" where
  "sq_addafter prev node s = (let (f, q) = s in
     if sq_head q = None \<or> Some prev = sq_tail q then sq_addlast node s
     else let f = f(node := f prev) in Some (f(prev := Some node), q))"

definition sq_remafter :: "'n \<Rightarrow> 'n sq_state \<Rightarrow> 'n option \<times> 'n sq_state" where
  "sq_remafter node s = (let (f, q) = s in
     case f node of
       None \<Rightarrow> (None, s)
     | Some ret \<Rightarrow>
         if sq_head q = None then (Some ret, s)
         else let (f, q) = (if sq_tail q = Some ret then (f(node := None), q\<lparr>sq_tail := Some node\<rparr>) else (f(node := f ret), q))
           in (Some ret, f(ret := None), q))"

text \<open>The search loop of \<open>sq_rem\<close> and \<open>sq_remlast\<close>: the node whose link is \<open>node\<close>, from \<open>prev\<close> on.\<close>

partial_function (option) sq_prev :: "'n links \<Rightarrow> 'n \<Rightarrow> 'n option \<Rightarrow> 'n option option" where
  "sq_prev f node prev = (case prev of
     None \<Rightarrow> Some None
   | Some p \<Rightarrow> if f p = Some node then Some (Some p) else sq_prev f node (f p))"

definition sq_rem :: "'n option \<Rightarrow> 'n sq_state \<Rightarrow> 'n sq_state option" where
  "sq_rem node s = (let (f, q) = s in
     case (sq_head q, node) of
       (Some h, Some n) \<Rightarrow>
         if n = h then
           let q = q\<lparr>sq_head := f n\<rparr> in
           Some (f, if Some n = sq_tail q then q\<lparr>sq_tail := None\<rparr> else q)
         else (case sq_prev f n (Some h) of
             None \<Rightarrow> None
           | Some None \<Rightarrow> Some s
           | Some (Some p) \<Rightarrow> Some (snd (sq_remafter p s)))
     | _ \<Rightarrow> Some s)"

definition sq_remfirst :: "'n sq_state \<Rightarrow> 'n option \<times> 'n sq_state" where
  "sq_remfirst s = (let (f, q) = s in
     case sq_head q of
       None \<Rightarrow> (None, s)
     | Some ret \<Rightarrow>
         let q = q\<lparr>sq_head := f ret\<rparr>;
             q = (if sq_head q = None then q\<lparr>sq_tail := None\<rparr> else q)
         in (Some ret, f(ret := None), q))"

definition sq_remlast :: "'n sq_state \<Rightarrow> ('n option \<times> 'n sq_state) option" where
  "sq_remlast s = (let (f, q) = s in
     case sq_tail q of
       None \<Rightarrow> Some (None, s)
     | Some ret \<Rightarrow>
         if sq_head q = sq_tail q then Some (Some ret, f(ret := None), q\<lparr>sq_head := None, sq_tail := None\<rparr>)
         else (case sq_prev f ret (sq_head q) of
             None \<Rightarrow> None
           | Some None \<Rightarrow> Some (Some ret, f(ret := None), q)
           | Some (Some p) \<Rightarrow> Some (Some ret, f(p := None, ret := None), q\<lparr>sq_tail := Some p\<rparr>)))"

partial_function (option) sq_count_from :: "'n links \<Rightarrow> 'n option \<Rightarrow> u32 \<Rightarrow> u32 option" where
  "sq_count_from f node count = (case node of
     None \<Rightarrow> Some count
   | Some n \<Rightarrow> sq_count_from f (f n) (count + 1))"

definition sq_count :: "'n sq_state \<Rightarrow> u32 option" where
  "sq_count s = (let (f, q) = s in sq_count_from f (sq_head q) 0)"

definition sq_cat :: "'n links \<Rightarrow> 'n sq_queue \<Rightarrow> 'n sq_queue \<Rightarrow> ('n links \<times> 'n sq_queue \<times> 'n sq_queue) option" where
  "sq_cat f q1 q2 =
     (if sq_empty q2 then Some (f, sq_init, q2\<lparr>sq_head := sq_head q1, sq_tail := sq_tail q1\<rparr>)
      else if \<not> sq_empty q1 then
        (case sq_tail q2 of
           None \<Rightarrow> None
         | Some t \<Rightarrow> Some (f(t := sq_head q1), sq_init, q2\<lparr>sq_tail := sq_tail q1\<rparr>))
      else Some (f, q1, q2))"

declare sq_prev.simps [code] sq_count_from.simps [code]

section \<open>Chains of nodes\<close>

primrec seg :: "'n links \<Rightarrow> 'n option \<Rightarrow> 'n list \<Rightarrow> 'n option \<Rightarrow> bool" where
  "seg f p [] r \<longleftrightarrow> p = r"
| "seg f p (x # xs) r \<longleftrightarrow> p = Some x \<and> seg f (f x) xs r"

lemma seg_append: "seg f p (xs @ ys) r \<longleftrightarrow> (\<exists>m. seg f p xs m \<and> seg f m ys r)"
  by (induction xs arbitrary: p) auto

lemma seg_snoc: "seg f p (xs @ [x]) r \<longleftrightarrow> seg f p xs (Some x) \<and> f x = r"
  by (auto simp: seg_append)

lemma seg_frame: "(\<And>x. x \<in> set xs \<Longrightarrow> f x = g x) \<Longrightarrow> seg f p xs r = seg g p xs r"
  by (induction xs arbitrary: p) auto

lemma seg_upd [simp]: "n \<notin> set xs \<Longrightarrow> seg (f(n := v)) p xs r = seg f p xs r"
  by (rule seg_frame) auto

lemma seg_Some_Nil: "seg f (Some h) xs None \<Longrightarrow> \<exists>ys. xs = h # ys \<and> seg f (f h) ys None"
  by (cases xs) auto

lemma seg_None: "seg f None xs r \<Longrightarrow> xs = [] \<and> r = None"
  by (cases xs) auto

definition queue_of :: "'n sq_state \<Rightarrow> 'n list \<Rightarrow> bool" where
  "queue_of s xs \<longleftrightarrow> seg (fst s) (sq_head (snd s)) xs None \<and> distinct xs
     \<and> sq_tail (snd s) = (if xs = [] then None else Some (List.last xs))"

lemma queue_of_unique: "queue_of s xs \<Longrightarrow> queue_of s ys \<Longrightarrow> xs = ys"
proof -
  have "seg f p xs None \<Longrightarrow> seg f p ys None \<Longrightarrow> xs = ys" for f :: "'a links" and p
    by (induction xs arbitrary: p ys) (auto dest: seg_None seg_Some_Nil)
  then show "queue_of s xs \<Longrightarrow> queue_of s ys \<Longrightarrow> xs = ys" by (auto simp: queue_of_def)
qed

lemma queue_of_init: "queue_of (f, sq_init) []"
  by (simp add: queue_of_def sq_init_def)

lemma queue_of_peek: "queue_of (f, q) xs \<Longrightarrow> sq_peek q = (case xs of [] \<Rightarrow> None | x # _ \<Rightarrow> Some x)"
  by (cases xs) (auto simp: queue_of_def sq_peek_def)

lemma queue_of_empty: "queue_of (f, q) xs \<Longrightarrow> sq_empty q \<longleftrightarrow> xs = []"
  by (cases xs) (auto simp: queue_of_def sq_empty_def)

lemma queue_of_next:
  "queue_of (f, q) (ys @ x # zs) \<Longrightarrow> sq_next f x = (case zs of [] \<Rightarrow> None | z # _ \<Rightarrow> Some z)"
  by (cases zs) (auto simp: queue_of_def seg_append sq_next_def)

lemma queue_of_distinct: "queue_of s xs \<Longrightarrow> distinct xs"
  by (simp add: queue_of_def)

section \<open>The operations on lists\<close>

lemma sq_addfirst_list: "queue_of s xs \<Longrightarrow> n \<notin> set xs \<Longrightarrow> queue_of (sq_addfirst n s) (n # xs)"
  by (cases xs) (auto simp: queue_of_def sq_addfirst_def Let_def split_beta)

lemma sq_addlast_list:
  assumes "queue_of s xs" "n \<notin> set xs"
  shows "\<exists>s'. sq_addlast n s = Some s' \<and> queue_of s' (xs @ [n])"
proof (cases xs rule: rev_cases)
  case Nil
  then show ?thesis using assms by (auto simp: queue_of_def sq_addlast_def Let_def split_beta)
next
  case (snoc ys t)
  with assms have "sq_head (snd s) \<noteq> None" by (cases ys) (auto simp: queue_of_def seg_append)
  then show ?thesis using assms snoc by (auto simp: queue_of_def sq_addlast_def Let_def split_beta seg_append)
qed

lemma sq_addafter_list:
  assumes "queue_of s (ys @ p # zs)" "n \<notin> set (ys @ p # zs)"
  shows "\<exists>s'. sq_addafter p n s = Some s' \<and> queue_of s' (ys @ p # n # zs)"
proof (cases "zs = []")
  case True
  with assms have "sq_tail (snd s) = Some p" by (simp add: queue_of_def)
  then show ?thesis using assms sq_addlast_list [of s "ys @ [p]" n] True
    by (auto simp: sq_addafter_def split_beta Let_def)
next
  case False
  with assms have "sq_tail (snd s) \<noteq> Some p" by (auto simp: queue_of_def)
  moreover have "sq_head (snd s) \<noteq> None" using assms by (cases ys) (auto simp: queue_of_def)
  ultimately show ?thesis using assms False by (auto simp: queue_of_def sq_addafter_def Let_def split_beta seg_append)
qed

lemma sq_remafter_list:
  assumes "queue_of s (ys @ p # n # zs)"
  shows "fst (sq_remafter p s) = Some n" "queue_of (snd (sq_remafter p s)) (ys @ p # zs)"
proof -
  have h: "sq_head (snd s) \<noteq> None" using assms by (cases ys) (auto simp: queue_of_def)
  have t: "sq_tail (snd s) = Some n \<longleftrightarrow> zs = []" using assms by (auto simp: queue_of_def)
  show "fst (sq_remafter p s) = Some n" "queue_of (snd (sq_remafter p s)) (ys @ p # zs)"
    using assms h t by (auto simp: queue_of_def sq_remafter_def Let_def split_beta seg_append)
qed

lemma sq_prev_found:
  "seg f p (ys @ x # n # zs) None \<Longrightarrow> n \<notin> set (ys @ [x]) \<Longrightarrow> sq_prev f n p = Some (Some x)"
proof (induction ys arbitrary: p)
  case Nil
  then show ?case by (subst sq_prev.simps) simp
next
  case (Cons y ys)
  then have "f y \<noteq> Some n" by (cases ys) (auto simp: seg_append)
  then show ?case using Cons.prems Cons.IH [of "f y"] by (subst sq_prev.simps) (cases ys; auto)
qed

lemma sq_prev_none: "seg f p xs None \<Longrightarrow> n \<notin> set xs \<Longrightarrow> sq_prev f n p = Some None"
proof (induction xs arbitrary: p)
  case Nil
  then show ?case by (subst sq_prev.simps) simp
next
  case (Cons x xs)
  then have "f x \<noteq> Some n" by (cases xs) auto
  then show ?case using Cons by (subst sq_prev.simps) auto
qed

text \<open>
  A removal ends and takes exactly the node out, wherever it is; a node that is not queued, whatever its link holds, leaves the queue
  as it is.
\<close>

lemma sq_rem_list:
  assumes q: "queue_of s xs"
  shows "\<exists>s'. sq_rem (Some n) s = Some s' \<and> queue_of s' (remove1 n xs)"
proof -
  obtain f q where s: "s = (f, q)" by (cases s)
  consider "xs = []" | ys where "xs = n # ys" | y ys where "xs = y # ys" "n \<noteq> y" "n \<notin> set ys"
    | y ys zs where "xs = y # ys @ n # zs" "n \<noteq> y" "n \<notin> set ys"
  proof (cases xs)
    case (Cons y ys)
    then show ?thesis using that by (cases "n = y"; cases "n \<in> set ys") (auto dest: split_list_first)
  qed
  then show ?thesis
  proof cases
    case 1
    then show ?thesis using q s by (auto simp: queue_of_def sq_rem_def)
  next
    case (2 ys)
    then show ?thesis using q s
      by (cases ys) (auto simp: queue_of_def sq_rem_def Let_def split_beta dest: last_in_set)
  next
    case (3 y ys)
    then have "sq_prev f n (sq_head q) = Some None"
      using q s by (intro sq_prev_none [of f "sq_head q" xs]) (auto simp: queue_of_def)
    then show ?thesis using q s 3 by (auto simp: queue_of_def sq_rem_def remove1_idem)
  next
    case (4 y ys zs)
    obtain us x where us: "y # ys = us @ [x]" by (metis append_butlast_last_id list.distinct(1))
    then have xs: "xs = us @ x # n # zs" using 4(1) by simp
    have n: "n \<notin> set (us @ [x])" unfolding us [symmetric] using 4 by simp
    have "sq_prev f n (sq_head q) = Some (Some x)"
      using q s xs n by (intro sq_prev_found [of f _ us x n zs]) (auto simp: queue_of_def)
    moreover have "sq_head q = Some y" using q s 4 by (simp add: queue_of_def)
    moreover have "remove1 n xs = us @ x # zs" using xs n by (simp add: remove1_append)
    ultimately show ?thesis using sq_remafter_list(2) [of s us x n zs] q s 4(2) xs by (simp add: sq_rem_def)
  qed
qed

lemma sq_remfirst_list:
  "queue_of s (x # xs) \<Longrightarrow> fst (sq_remfirst s) = Some x \<and> queue_of (snd (sq_remfirst s)) xs"
  by (cases xs) (auto simp: queue_of_def sq_remfirst_def Let_def split_beta)

lemma sq_remfirst_empty: "queue_of s [] \<Longrightarrow> sq_remfirst s = (None, s)"
  by (auto simp: queue_of_def sq_remfirst_def split_beta)

lemma sq_remlast_list:
  assumes q: "queue_of s (xs @ [x])"
  shows "\<exists>s'. sq_remlast s = Some (Some x, s') \<and> queue_of s' xs"
proof (cases xs rule: rev_cases)
  case Nil
  then show ?thesis using q by (auto simp: queue_of_def sq_remlast_def split_beta)
next
  case (snoc ys p)
  obtain f qq where s: "s = (f, qq)" by (cases s)
  have "sq_prev f x (sq_head qq) = Some (Some p)"
    using q s snoc by (intro sq_prev_found [of f _ ys p x "[]"]) (auto simp: queue_of_def)
  moreover have "sq_head qq \<noteq> Some x" using q s snoc by (cases ys) (auto simp: queue_of_def)
  ultimately show ?thesis using q s snoc by (auto simp: queue_of_def sq_remlast_def seg_append)
qed

lemma sq_count_list: "queue_of s xs \<Longrightarrow> sq_count s = Some (of_nat (length xs))"
proof -
  have "seg f p xs None \<Longrightarrow> sq_count_from f p c = Some (c + of_nat (length xs))" for f :: "'a links" and p c
    by (induction xs arbitrary: p c; subst sq_count_from.simps) (auto simp: ac_simps)
  then show "queue_of s xs \<Longrightarrow> sq_count s = Some (of_nat (length xs))"
    by (auto simp: queue_of_def sq_count_def split_beta)
qed

lemma sq_cat_list:
  assumes "queue_of (f, q1) xs" "queue_of (f, q2) ys" "set xs \<inter> set ys = {}"
  shows "\<exists>f' q. sq_cat f q1 q2 = Some (f', sq_init, q) \<and> queue_of (f', q) (ys @ xs) \<or> xs = [] \<and> sq_cat f q1 q2 = Some (f, q1, q2)"
proof (cases ys rule: rev_cases)
  case Nil
  then show ?thesis using assms by (auto simp: sq_cat_def queue_of_def sq_empty_def)
next
  case (snoc zs t)
  then have "\<not> sq_empty q2" using assms(2) by (simp add: queue_of_empty)
  then show ?thesis using assms snoc
    by (cases xs) (auto simp: sq_cat_def queue_of_def sq_empty_def seg_append)
qed

end
