(* ===== verification/Hrt.thy ===== *)
theory Hrt
  imports Sq_Queue "HOL-Library.Signed_Division" "HOL-Library.Monad_Syntax"
begin

text \<open>
  The high resolution timer of the STM32 boards (\<open>stm/stm32_common/hrt/hrt.c\<close>): the never wrapping time made from a 16 bit counter,
  the queue of callouts ordered by their deadlines, the compare interrupt that runs them, the latency histogram, and the decoder of
  PPM radio signals that shares the timer's interrupt.

  The counter register \<open>rCNT\<close> is volatile: every read finds a later value. The hardware is a parameter \<open>cnt\<close> of the operations, the
  time in microseconds since the timer was enabled at each read of the register, counted by the field \<open>cnt_reads\<close>; what the register
  shows of it are its low 16 bits. The field \<open>hrt_match\<close> is the time at which the hardware will next find the counter equal to the
  compare register, from the last write of that register on. The callouts are code of other modules: the parameter \<open>run\<close> gives what calling a function with an
  argument does to the state, and \<^term>\<open>None\<close> stands for a call that does not return.
\<close>

section \<open>Configuration and registers\<close>

record hrt_board =
  HRT_TIMER_CLOCK :: nat
  HRT_TIMER_CHANNEL :: nat
  HRT_PPM_CHANNEL :: "nat option"
  ARCH_CORTEXM3 :: bool
  HRT_TIMER_POWER_BIT :: u32

text \<open>The \<open>#error\<close> conditions of the file: the clock is a multiple of 1 MHz above 1 MHz and the channels are 1 to 4.\<close>

definition hrt_board_ok :: "hrt_board \<Rightarrow> bool" where
  "hrt_board_ok B \<longleftrightarrow> HRT_TIMER_CLOCK B mod 1000000 = 0 \<and> HRT_TIMER_CLOCK B > 1000000
     \<and> HRT_TIMER_CHANNEL B \<in> {1, 2, 3, 4} \<and> (\<forall>c. HRT_PPM_CHANNEL B = Some c \<longrightarrow> c \<in> {1, 2, 3, 4})"

definition HRT_INTERVAL_MIN :: u64 where "HRT_INTERVAL_MIN = 50"
definition HRT_INTERVAL_MAX :: u64 where "HRT_INTERVAL_MAX = 50000"
definition HRT_COUNTER_PERIOD :: u64 where "HRT_COUNTER_PERIOD = 65536"

definition DIER_HRT :: "hrt_board \<Rightarrow> u32" where
  "DIER_HRT B = push_bit (HRT_TIMER_CHANNEL B) 1"

definition SR_INT_HRT :: "hrt_board \<Rightarrow> u32" where
  "SR_INT_HRT B = push_bit (HRT_TIMER_CHANNEL B) 1"

definition DIER_PPM :: "hrt_board \<Rightarrow> u32" where
  "DIER_PPM B = (case HRT_PPM_CHANNEL B of None \<Rightarrow> 0 | Some c \<Rightarrow> push_bit c 1)"

definition SR_INT_PPM :: "hrt_board \<Rightarrow> u32" where
  "SR_INT_PPM B = (case HRT_PPM_CHANNEL B of None \<Rightarrow> 0 | Some c \<Rightarrow> push_bit c 1)"

definition SR_OVF_PPM :: "hrt_board \<Rightarrow> u32" where
  "SR_OVF_PPM B = (case HRT_PPM_CHANNEL B of None \<Rightarrow> 0 | Some c \<Rightarrow> push_bit (8 + c) 1)"

definition CCMR1_PPM :: "hrt_board \<Rightarrow> u32" where
  "CCMR1_PPM B = (if HRT_PPM_CHANNEL B = Some 1 then 1 else if HRT_PPM_CHANNEL B = Some 2 then 2 else 0)"

definition CCMR2_PPM :: "hrt_board \<Rightarrow> u32" where
  "CCMR2_PPM B = (if HRT_PPM_CHANNEL B = Some 3 then 1 else if HRT_PPM_CHANNEL B = Some 4 then 2 else 0)"

definition CCER_PPM :: "hrt_board \<Rightarrow> u32" where
  "CCER_PPM B = (case HRT_PPM_CHANNEL B of None \<Rightarrow> 0
     | Some c \<Rightarrow> push_bit (4 * (c - 1)) (1 OR 2 OR (if ARCH_CORTEXM3 B then 0 else 8)))"

definition CCER_PPM_FLIP :: "hrt_board \<Rightarrow> u32" where
  "CCER_PPM_FLIP B = (case HRT_PPM_CHANNEL B of None \<Rightarrow> 0 | Some c \<Rightarrow> push_bit (4 * (c - 1)) 2)"

record tim_regs =
  tim_power :: u32
  tim_CR1 :: u32
  tim_CR2 :: u32
  tim_SMCR :: u32
  tim_DIER :: u32
  tim_SR :: u32
  tim_EGR :: u32
  tim_CCMR1 :: u32
  tim_CCMR2 :: u32
  tim_CCER :: u32
  tim_PSC :: u32
  tim_ARR :: u32
  rCCR_HRT :: u32
  rCCR_PPM :: u32
  tim_DCR :: u32

section \<open>State\<close>

record hrt_call =
  deadline :: u64
  period :: u64
  callout :: "nat option"
  call_arg :: u32

datatype ppm_phase = UNSYNCH | ARM | ACTIVE | INACTIVE

record ppm_decoder =
  last_edge :: u16
  last_mark :: u16
  frame_start :: u16
  next_channel :: u32
  phase :: ppm_phase
  new_channel_count :: u32
  new_channel_holdoff :: u32
  ppm_temp :: "u16 list"
  ppm_out :: "u16 list"
  ppm_length :: u16
  ppm_channels :: u32
  ppm_last_valid :: u64

text \<open>The addresses of the call structures are numbers; their \<open>link\<close> fields are the links of the queue.\<close>

record hrt =
  call_links :: "nat links"
  callout_queue :: "nat sq_queue"
  calls :: "nat \<Rightarrow> hrt_call"
  latency_baseline :: u16
  latency_actual :: u16
  latency_counters :: "u32 list"
  base_time :: u64
  last_count :: u32
  tim :: tim_regs
  hrt_irq :: bool
  ppm :: ppm_decoder
  cnt_reads :: nat
  hrt_match :: nat

section \<open>Time\<close>

definition rCNT :: "(nat \<Rightarrow> nat) \<Rightarrow> hrt \<Rightarrow> u32 \<times> hrt" where
  "rCNT cnt h = (of_nat (cnt (cnt_reads h) mod 65536), h\<lparr>cnt_reads := cnt_reads h + 1\<rparr>)"

definition hrt_absolute_time :: "(nat \<Rightarrow> nat) \<Rightarrow> hrt \<Rightarrow> u64 \<times> hrt" where
  "hrt_absolute_time cnt h = (let (count, h) = rCNT cnt h;
     h = (if count < last_count h then h\<lparr>base_time := base_time h + HRT_COUNTER_PERIOD\<rparr> else h);
     h = h\<lparr>last_count := count\<rparr>
     in (base_time h + ucast count, h))"

record timespec =
  tv_sec :: u32
  tv_nsec :: u32

definition ts_to_abstime :: "timespec \<Rightarrow> u64" where
  "ts_to_abstime ts = ucast (tv_sec ts) * 1000000 + of_int (sint (tv_nsec ts) sdiv 1000)"

definition abstime_to_ts :: "u64 \<Rightarrow> timespec" where
  "abstime_to_ts abstime = (let sec = ucast (abstime div 1000000);
     abstime = abstime - ucast (sec * 1000000)
     in \<lparr> tv_sec = sec, tv_nsec = ucast (abstime * 1000) \<rparr>)"

definition hrt_elapsed_time_atomic :: "(nat \<Rightarrow> nat) \<Rightarrow> u64 \<Rightarrow> hrt \<Rightarrow> u64 \<times> hrt" where
  "hrt_elapsed_time_atomic cnt t0 h = (let (now, h) = hrt_absolute_time cnt h in (now - t0, h))"

definition hrt_store_absolute_time :: "(nat \<Rightarrow> nat) \<Rightarrow> hrt \<Rightarrow> u64 \<times> hrt" where
  "hrt_store_absolute_time cnt h = hrt_absolute_time cnt h"

section \<open>The next interrupt and its latency\<close>

text \<open>
  The compare register matches the next time the counter comes to its value. The register is written less than the minimal interval
  after the counter was read, so the next match can be counted from that read.
\<close>

definition next_match :: "nat \<Rightarrow> u16 \<Rightarrow> nat" where
  "next_match T v = (let d = (unat v + 65536 - T mod 65536) mod 65536 in T + (if d = 0 then 65536 else d))"

definition hrt_call_reschedule :: "(nat \<Rightarrow> nat) \<Rightarrow> hrt \<Rightarrow> hrt" where
  "hrt_call_reschedule cnt h = (let (now, h) = hrt_absolute_time cnt h;
     deadline0 = now + HRT_INTERVAL_MAX;
     dl = (case sq_peek (callout_queue h) of
         None \<Rightarrow> deadline0
       | Some nxt \<Rightarrow>
           if deadline (calls h nxt) \<le> now + HRT_INTERVAL_MIN then now + HRT_INTERVAL_MIN
           else if deadline (calls h nxt) < deadline0 then deadline (calls h nxt)
           else deadline0);
     base = ucast (dl AND 0xffff)
     in h\<lparr>latency_baseline := base, tim := (tim h)\<lparr>rCCR_HRT := ucast base\<rparr>,
          hrt_match := next_match (cnt (cnt_reads h - 1)) base\<rparr>)"

definition LATENCY_BUCKET_COUNT :: nat where "LATENCY_BUCKET_COUNT = 8"

definition latency_buckets :: "u16 list" where
  "latency_buckets = [1, 2, 5, 10, 20, 50, 100, 1000]"

fun latency_index :: "u16 \<Rightarrow> u16 list \<Rightarrow> nat \<Rightarrow> nat" where
  "latency_index latency [] index = index"
| "latency_index latency (b # bs) index = (if latency \<le> b then index else latency_index latency bs (index + 1))"

definition hrt_latency_update :: "hrt \<Rightarrow> hrt" where
  "hrt_latency_update h = (let
     latency = latency_actual h - latency_baseline h;
     index = latency_index latency latency_buckets 0
     in h\<lparr>latency_counters := (latency_counters h)[index := latency_counters h ! index + 1]\<rparr>)"

section \<open>The queue of callouts\<close>

definition upd_call :: "nat \<Rightarrow> (hrt_call \<Rightarrow> hrt_call) \<Rightarrow> hrt \<Rightarrow> hrt" where
  "upd_call e g h = h\<lparr>calls := (calls h)(e := g (calls h e))\<rparr>"

definition set_queue :: "nat sq_state \<Rightarrow> hrt \<Rightarrow> hrt" where
  "set_queue s h = h\<lparr>call_links := fst s, callout_queue := snd s\<rparr>"

abbreviation queue :: "hrt \<Rightarrow> nat sq_state" where
  "queue h \<equiv> (call_links h, callout_queue h)"

text \<open>The walk of \<open>hrt_call_enter\<close>: the entry behind which one with the deadline \<open>dl\<close> goes.\<close>

partial_function (option) enter_after :: "hrt \<Rightarrow> u64 \<Rightarrow> nat \<Rightarrow> nat option" where
  "enter_after h dl call = (case sq_next (call_links h) call of
     None \<Rightarrow> Some call
   | Some nxt \<Rightarrow> if dl < deadline (calls h nxt) then Some call else enter_after h dl nxt)"

definition hrt_call_enter :: "(nat \<Rightarrow> nat) \<Rightarrow> nat \<Rightarrow> hrt \<Rightarrow> hrt option" where
  "hrt_call_enter cnt entry h = (let dl = deadline (calls h entry) in
     case sq_peek (callout_queue h) of
       None \<Rightarrow> Some (hrt_call_reschedule cnt (set_queue (sq_addfirst entry (queue h)) h))
     | Some call \<Rightarrow>
         if dl < deadline (calls h call) then
           Some (hrt_call_reschedule cnt (set_queue (sq_addfirst entry (queue h)) h))
         else do {
           prev \<leftarrow> enter_after h dl call;
           s \<leftarrow> sq_addafter prev entry (queue h);
           Some (set_queue s h)
         })"

definition hrt_call_internal :: "(nat \<Rightarrow> nat) \<Rightarrow> nat \<Rightarrow> u64 \<Rightarrow> u64 \<Rightarrow> nat option \<Rightarrow> u32 \<Rightarrow> hrt \<Rightarrow> hrt option" where
  "hrt_call_internal cnt entry dl interval fn a h = do {
     h \<leftarrow> (if deadline (calls h entry) \<noteq> 0
          then do { s \<leftarrow> sq_rem (Some entry) (queue h); Some (set_queue s h) }
          else Some h);
     let h = upd_call entry (\<lambda>c. c\<lparr>deadline := dl, period := interval, callout := fn, call_arg := a\<rparr>) h;
     hrt_call_enter cnt entry h
   }"

definition hrt_call_after :: "(nat \<Rightarrow> nat) \<Rightarrow> nat \<Rightarrow> u64 \<Rightarrow> nat option \<Rightarrow> u32 \<Rightarrow> hrt \<Rightarrow> hrt option" where
  "hrt_call_after cnt entry delay fn a h = (let (now, h) = hrt_absolute_time cnt h in
     hrt_call_internal cnt entry (now + delay) 0 fn a h)"

definition hrt_call_at :: "(nat \<Rightarrow> nat) \<Rightarrow> nat \<Rightarrow> u64 \<Rightarrow> nat option \<Rightarrow> u32 \<Rightarrow> hrt \<Rightarrow> hrt option" where
  "hrt_call_at cnt entry calltime fn a h = hrt_call_internal cnt entry calltime 0 fn a h"

definition hrt_call_every :: "(nat \<Rightarrow> nat) \<Rightarrow> nat \<Rightarrow> u64 \<Rightarrow> u64 \<Rightarrow> nat option \<Rightarrow> u32 \<Rightarrow> hrt \<Rightarrow> hrt option" where
  "hrt_call_every cnt entry delay interval fn a h = (let (now, h) = hrt_absolute_time cnt h in
     hrt_call_internal cnt entry (now + delay) interval fn a h)"

definition hrt_called :: "nat \<Rightarrow> hrt \<Rightarrow> bool" where
  "hrt_called entry h \<longleftrightarrow> deadline (calls h entry) = 0"

definition hrt_cancel :: "nat \<Rightarrow> hrt \<Rightarrow> hrt option" where
  "hrt_cancel entry h = do {
     s \<leftarrow> sq_rem (Some entry) (queue h);
     Some (upd_call entry (\<lambda>c. c\<lparr>deadline := 0, period := 0\<rparr>) (set_queue s h))
   }"

definition hrt_call_init :: "nat \<Rightarrow> hrt \<Rightarrow> hrt" where
  "hrt_call_init entry h = h\<lparr>call_links := (call_links h)(entry := None),
     calls := (calls h)(entry := \<lparr> deadline = 0, period = 0, callout = None, call_arg = 0 \<rparr>)\<rparr>"

definition hrt_call_delay :: "(nat \<Rightarrow> nat) \<Rightarrow> nat \<Rightarrow> u64 \<Rightarrow> hrt \<Rightarrow> hrt" where
  "hrt_call_delay cnt entry delay h = (let (now, h) = hrt_absolute_time cnt h in
     upd_call entry (\<lambda>c. c\<lparr>deadline := now + delay\<rparr>) h)"

text \<open>
  The dispatcher: an entry is taken out of the queue with its deadline cleared, its callout is called, and a periodic entry is entered
  again. One pass of the loop gives \<^term>\<open>Inl h\<close> when it breaks out, \<^term>\<open>Inr h\<close> when a callout was run and the loop goes on.
\<close>

type_synonym callouts = "nat \<Rightarrow> u32 \<Rightarrow> hrt \<Rightarrow> hrt option"

definition pop_call :: "nat \<Rightarrow> hrt \<Rightarrow> hrt option" where
  "pop_call call h = do {
     s \<leftarrow> sq_rem (Some call) (queue h);
     Some (upd_call call (\<lambda>c. c\<lparr>deadline := 0\<rparr>) (set_queue s h))
   }"

definition call_out :: "callouts \<Rightarrow> nat \<Rightarrow> hrt \<Rightarrow> hrt option" where
  "call_out run call h = (case callout (calls h call) of
     None \<Rightarrow> Some h
   | Some fn \<Rightarrow> run fn (call_arg (calls h call)) h)"

definition reenter_call :: "(nat \<Rightarrow> nat) \<Rightarrow> u64 \<Rightarrow> u64 \<Rightarrow> nat \<Rightarrow> hrt \<Rightarrow> hrt option" where
  "reenter_call cnt now dl call h =
     (if period (calls h call) \<noteq> 0 then
        let h = (if deadline (calls h call) \<le> now then upd_call call (\<lambda>c. c\<lparr>deadline := dl + period c\<rparr>) h else h)
        in hrt_call_enter cnt call h
      else Some h)"

definition invoke_one :: "callouts \<Rightarrow> (nat \<Rightarrow> nat) \<Rightarrow> hrt \<Rightarrow> (hrt + hrt) option" where
  "invoke_one run cnt h = (let (now, h) = hrt_absolute_time cnt h in
     case sq_peek (callout_queue h) of
       None \<Rightarrow> Some (Inl h)
     | Some call \<Rightarrow>
         if deadline (calls h call) > now then Some (Inl h)
         else do {
           let dl = deadline (calls h call);
           h \<leftarrow> pop_call call h;
           h \<leftarrow> call_out run call h;
           h \<leftarrow> reenter_call cnt now dl call h;
           Some (Inr h)
         })"

partial_function (option) hrt_call_invoke :: "callouts \<Rightarrow> (nat \<Rightarrow> nat) \<Rightarrow> hrt \<Rightarrow> hrt option" where
  "hrt_call_invoke run cnt h = (case invoke_one run cnt h of
     None \<Rightarrow> None
   | Some (Inl h) \<Rightarrow> Some h
   | Some (Inr h) \<Rightarrow> hrt_call_invoke run cnt h)"

declare enter_after.simps [code] hrt_call_invoke.simps [code]

section \<open>The PPM decoder\<close>

definition PPM_MIN_PULSE_WIDTH :: u16 where "PPM_MIN_PULSE_WIDTH = 200"
definition PPM_MAX_PULSE_WIDTH :: u16 where "PPM_MAX_PULSE_WIDTH = 600"
definition PPM_MIN_CHANNEL_VALUE :: u16 where "PPM_MIN_CHANNEL_VALUE = 800"
definition PPM_MAX_CHANNEL_VALUE :: u16 where "PPM_MAX_CHANNEL_VALUE = 2200"
definition PPM_MIN_START :: u16 where "PPM_MIN_START = 2300"
definition PPM_MIN_CHANNELS :: u32 where "PPM_MIN_CHANNELS = 5"
definition PPM_MAX_CHANNELS :: u32 where "PPM_MAX_CHANNELS = 20"
definition PPM_CHANNEL_LOCK :: u32 where "PPM_CHANNEL_LOCK = 4"

lemmas ppm_limits = PPM_MIN_PULSE_WIDTH_def PPM_MAX_PULSE_WIDTH_def PPM_MIN_CHANNEL_VALUE_def PPM_MAX_CHANNEL_VALUE_def
  PPM_MIN_START_def PPM_MIN_CHANNELS_def PPM_MAX_CHANNELS_def PPM_CHANNEL_LOCK_def

fun copy_channels :: "nat \<Rightarrow> u16 list \<Rightarrow> u16 list \<Rightarrow> u16 list" where
  "copy_channels 0 src dst = dst"
| "copy_channels (Suc i) src dst = (copy_channels i src dst)[i := src ! i]"

text \<open>The decoder's reset at the label \<open>error\<close>.\<close>

definition ppm_error :: "ppm_decoder \<Rightarrow> ppm_decoder" where
  "ppm_error p = p\<lparr>phase := UNSYNCH, ppm_channels := 0\<rparr>"

text \<open>The end of a frame: the lock counter, or the values of the frame, then the reset for the next one.\<close>

definition ppm_channel_count :: "ppm_decoder \<Rightarrow> ppm_decoder" where
  "ppm_channel_count p =
     (if new_channel_count p \<noteq> next_channel p
      then p\<lparr>new_channel_count := next_channel p, new_channel_holdoff := PPM_CHANNEL_LOCK\<rparr>
      else if new_channel_holdoff p > 0 then p\<lparr>new_channel_holdoff := new_channel_holdoff p - 1\<rparr>
      else p\<lparr>ppm_channels := new_channel_count p, new_channel_count := 0\<rparr>)"

definition ppm_start :: "(nat \<Rightarrow> nat) \<Rightarrow> u16 \<Rightarrow> hrt \<Rightarrow> hrt" where
  "ppm_start cnt count h = (let
     h = (if next_channel (ppm h) \<noteq> ppm_channels (ppm h) then h\<lparr>ppm := ppm_channel_count (ppm h)\<rparr>
          else if next_channel (ppm h) \<ge> PPM_MIN_CHANNELS then
            let h = h\<lparr>ppm := (ppm h)\<lparr>ppm_out := copy_channels (unat (next_channel (ppm h))) (ppm_temp (ppm h)) (ppm_out (ppm h))\<rparr>\<rparr>;
                (now, h) = hrt_absolute_time cnt h
            in h\<lparr>ppm := (ppm h)\<lparr>ppm_last_valid := now\<rparr>\<rparr>
          else h)
     in h\<lparr>ppm := (ppm h)\<lparr>next_channel := 0, phase := ARM, last_edge := count\<rparr>\<rparr>)"

text \<open>An edge inside a frame.\<close>

definition ppm_edge :: "u16 \<Rightarrow> u16 \<Rightarrow> ppm_decoder \<Rightarrow> ppm_decoder" where
  "ppm_edge count width p = (case phase p of
     UNSYNCH \<Rightarrow> p\<lparr>last_edge := count\<rparr>
   | ARM \<Rightarrow>
       if width < PPM_MIN_PULSE_WIDTH \<or> width > PPM_MAX_PULSE_WIDTH then ppm_error p
       else p\<lparr>last_mark := last_edge p, ppm_length := last_edge p - frame_start p, frame_start := last_edge p,
         phase := ACTIVE, last_edge := count\<rparr>
   | INACTIVE \<Rightarrow>
       if width < PPM_MIN_PULSE_WIDTH \<or> width > PPM_MAX_PULSE_WIDTH then ppm_error p
       else p\<lparr>phase := ACTIVE, last_edge := count\<rparr>
   | ACTIVE \<Rightarrow>
       let interval = count - last_mark p; p = p\<lparr>last_mark := count\<rparr> in
       if interval < PPM_MIN_CHANNEL_VALUE \<or> interval > PPM_MAX_CHANNEL_VALUE then ppm_error p
       else let p = (if next_channel p < PPM_MAX_CHANNELS
                     then p\<lparr>ppm_temp := (ppm_temp p)[unat (next_channel p) := interval], next_channel := next_channel p + 1\<rparr>
                     else p)
         in p\<lparr>phase := INACTIVE, last_edge := count\<rparr>)"

definition hrt_ppm_decode :: "hrt_board \<Rightarrow> (nat \<Rightarrow> nat) \<Rightarrow> u32 \<Rightarrow> hrt \<Rightarrow> hrt" where
  "hrt_ppm_decode B cnt status h = (let count = ucast (rCCR_PPM (tim h)) in
     if has_flag status (SR_OVF_PPM B) then h\<lparr>ppm := ppm_error (ppm h)\<rparr>
     else let width = count - last_edge (ppm h) in
       if width \<ge> PPM_MIN_START then ppm_start cnt count h
       else h\<lparr>ppm := ppm_edge count width (ppm h)\<rparr>)"

section \<open>Interrupt and initialisation\<close>

text \<open>
  The interrupt reads and acknowledges the status (a write to the status register clears the bits that are written as zero), decodes a
  PPM edge, and on a timer tick runs the callouts and schedules the next interrupt.
\<close>

definition isr_ack :: "(nat \<Rightarrow> nat) \<Rightarrow> hrt \<Rightarrow> u32 \<times> hrt" where
  "isr_ack cnt h = (let (count, h) = rCNT cnt h;
     h = h\<lparr>latency_actual := ucast count\<rparr>;
     status = tim_SR (tim h)
     in (status, h\<lparr>tim := (tim h)\<lparr>tim_SR := tim_SR (tim h) AND NOT status\<rparr>\<rparr>))"

definition isr_edge :: "hrt_board \<Rightarrow> (nat \<Rightarrow> nat) \<Rightarrow> u32 \<Rightarrow> hrt \<Rightarrow> hrt" where
  "isr_edge B cnt status h =
     (if HRT_PPM_CHANNEL B \<noteq> None \<and> has_flag status (SR_INT_PPM B OR SR_OVF_PPM B) then
        let h = (if ARCH_CORTEXM3 B then h\<lparr>tim := (tim h)\<lparr>tim_CCER := tim_CCER (tim h) XOR CCER_PPM_FLIP B\<rparr>\<rparr> else h)
        in hrt_ppm_decode B cnt status h
      else h)"

definition hrt_tim_isr :: "hrt_board \<Rightarrow> callouts \<Rightarrow> (nat \<Rightarrow> nat) \<Rightarrow> hrt \<Rightarrow> hrt option" where
  "hrt_tim_isr B run cnt h = (let
     (status, h) = isr_ack cnt h;
     h = isr_edge B cnt status h
     in if has_flag status (SR_INT_HRT B) then do {
          let h = hrt_latency_update h;
          h \<leftarrow> hrt_call_invoke run cnt h;
          Some (hrt_call_reschedule cnt h)
        } else Some h)"

definition hrt_tim_init :: "hrt_board \<Rightarrow> hrt \<Rightarrow> hrt" where
  "hrt_tim_init B h = h\<lparr>hrt_irq := True, hrt_match := 1000,
     tim := (tim h)\<lparr>tim_power := tim_power (tim h) OR HRT_TIMER_POWER_BIT B,
       tim_CR2 := 0, tim_SMCR := 0, tim_DIER := DIER_HRT B OR DIER_PPM B,
       tim_CCMR1 := CCMR1_PPM B, tim_CCMR2 := CCMR2_PPM B, tim_CCER := CCER_PPM B, tim_DCR := 0,
       tim_PSC := of_nat (HRT_TIMER_CLOCK B div 1000000 - 1), tim_ARR := 0xffff, rCCR_HRT := 1000,
       tim_EGR := 1, tim_CR1 := 1\<rparr>\<rparr>"

definition hrt_init :: "hrt_board \<Rightarrow> hrt \<Rightarrow> hrt" where
  "hrt_init B h = hrt_tim_init B (h\<lparr>callout_queue := sq_init\<rparr>)"

text \<open>The memory at a reset: the static variables are zero, the call structures hold whatever they hold.\<close>

definition hrt_reset :: "(nat \<Rightarrow> hrt_call) \<Rightarrow> nat links \<Rightarrow> tim_regs \<Rightarrow> hrt" where
  "hrt_reset c f r = \<lparr> call_links = f, callout_queue = \<lparr> sq_head = None, sq_tail = None \<rparr>, calls = c,
     latency_baseline = 0, latency_actual = 0, latency_counters = replicate (LATENCY_BUCKET_COUNT + 1) 0,
     base_time = 0, last_count = 0, tim = r, hrt_irq = False,
     ppm = \<lparr> last_edge = 0, last_mark = 0, frame_start = 0, next_channel = 0, phase = UNSYNCH, new_channel_count = 0,
       new_channel_holdoff = 0, ppm_temp = replicate 20 0, ppm_out = replicate 20 0, ppm_length = 0, ppm_channels = 0,
       ppm_last_valid = 0 \<rparr>, cnt_reads = 0, hrt_match = 0 \<rparr>"

end
