(* ===== verification/Hrt_Time.thy ===== *)
theory Hrt_Time
  imports Hrt
begin

text \<open>
  Time keeping of the high resolution timer: the pair of \<open>base_time\<close> and \<open>last_count\<close> stands for a time that never wraps, a read within
  one counter period of the last one gives it exactly, and the interrupt that each call of \<open>hrt_call_reschedule\<close> asks for comes in
  time for the next read.
\<close>

section \<open>Reading the time\<close>

definition clock_at :: "hrt \<Rightarrow> nat \<Rightarrow> bool" where
  "clock_at h t \<longleftrightarrow> base_time h = of_nat (t div 65536 * 65536) \<and> last_count h = of_nat (t mod 65536)"

lemma wrap_test:
  fixes t T :: nat
  assumes "t \<le> T" "T < t + 65536"
  shows "T div 65536 = (if T mod 65536 < t mod 65536 then Suc (t div 65536) else t div 65536)"
proof -
  define q r Q R where d: "q = t div 65536" "r = t mod 65536" "Q = T div 65536" "R = T mod 65536"
  have e: "t = q * 65536 + r" "T = Q * 65536 + R" "r < 65536" "R < 65536" by (simp_all add: d)
  have "Q = (if R < r then Suc q else q)"
  proof (cases "Q = q \<or> Q = Suc q")
    case True
    then show ?thesis using assms e by auto
  next
    case False
    then have "Q < q \<or> Suc (Suc q) \<le> Q" by linarith
    then show ?thesis using assms e by linarith
  qed
  then show ?thesis by (simp only: d)
qed

lemma cnt_word_less: "(of_nat (T mod 65536) :: u32) < of_nat (t mod 65536) \<longleftrightarrow> T mod 65536 < t mod 65536"
  by (simp add: word_less_nat_alt unat_of_nat)

lemma ucast_cnt: "ucast (of_nat (T mod 65536) :: u32) = (of_nat (T mod 65536) :: u64)"
  by (rule word_unat_eq_iff [THEN iffD2]) (simp add: unsigned_ucast_eq unat_of_nat take_bit_eq_mod)

lemma hrt_absolute_time_exact:
  assumes "clock_at h t" "t \<le> cnt (cnt_reads h)" "cnt (cnt_reads h) < t + 65536"
  shows "fst (hrt_absolute_time cnt h) = of_nat (cnt (cnt_reads h))"
    and "clock_at (snd (hrt_absolute_time cnt h)) (cnt (cnt_reads h))"
proof -
  define T where "T = cnt (cnt_reads h)"
  have T: "t \<le> T" "T < t + 65536" using assms by (simp_all add: T_def)
  have "base_time (snd (hrt_absolute_time cnt h)) =
      (if T mod 65536 < t mod 65536 then of_nat (t div 65536 * 65536) + 65536 else of_nat (t div 65536 * 65536))"
    using assms(1) by (simp add: hrt_absolute_time_def rCNT_def clock_at_def HRT_COUNTER_PERIOD_def T_def [symmetric] cnt_word_less)
  also have "\<dots> = of_nat (T div 65536 * 65536)"
    by (simp only: wrap_test [OF T]) simp
  finally have b: "base_time (snd (hrt_absolute_time cnt h)) = of_nat (T div 65536 * 65536)" .
  have c: "last_count (snd (hrt_absolute_time cnt h)) = of_nat (T mod 65536)"
    by (simp add: hrt_absolute_time_def rCNT_def Let_def T_def)
  have "fst (hrt_absolute_time cnt h) = base_time (snd (hrt_absolute_time cnt h)) + ucast (last_count (snd (hrt_absolute_time cnt h)))"
    by (simp add: hrt_absolute_time_def rCNT_def Let_def)
  also have "\<dots> = of_nat (T div 65536 * 65536 + T mod 65536)" by (simp only: b c ucast_cnt of_nat_add)
  finally show "fst (hrt_absolute_time cnt h) = of_nat (cnt (cnt_reads h))" by (simp add: T_def)
  show "clock_at (snd (hrt_absolute_time cnt h)) (cnt (cnt_reads h))" using b c by (simp add: clock_at_def T_def)
qed

text \<open>What a read of the time leaves alone.\<close>

lemma hrt_absolute_time_frame [simp]:
  "cnt_reads (snd (hrt_absolute_time cnt h)) = cnt_reads h + 1"
  "hrt_match (snd (hrt_absolute_time cnt h)) = hrt_match h"
  "calls (snd (hrt_absolute_time cnt h)) = calls h"
  "call_links (snd (hrt_absolute_time cnt h)) = call_links h"
  "callout_queue (snd (hrt_absolute_time cnt h)) = callout_queue h"
  "tim (snd (hrt_absolute_time cnt h)) = tim h"
  "ppm (snd (hrt_absolute_time cnt h)) = ppm h"
  by (simp_all add: hrt_absolute_time_def rCNT_def Let_def)

text \<open>The prescaler makes the counter run at exactly 1 MHz from every clock that the file accepts.\<close>

lemma counter_at_one_mhz:
  assumes "hrt_board_ok B" "HRT_TIMER_CLOCK B < 2 ^ 32"
  shows "(unat (tim_PSC (tim (hrt_init B h))) + 1) * 1000000 = HRT_TIMER_CLOCK B"
proof -
  define q where "q = HRT_TIMER_CLOCK B div 1000000"
  have q: "q * 1000000 = HRT_TIMER_CLOCK B" using assms(1) by (auto simp: hrt_board_ok_def q_def)
  then have "1 \<le> q" "q < 2 ^ 32" using assms by (auto simp: hrt_board_ok_def)
  moreover have "unat (of_nat m :: u32) = m" if "m < 2 ^ 32" for m using that by (simp add: unat_of_nat)
  ultimately have u: "unat (of_nat (q - 1) :: u32) + 1 = q" by (metis One_nat_def Suc_eq_plus1 Suc_pred' diff_le_self le_less_trans less_one not_le)
  have p: "tim_PSC (tim (hrt_init B h)) = of_nat (q - 1)" by (simp add: hrt_init_def hrt_tim_init_def q_def)
  show ?thesis using q by (simp only: p u)
qed

text \<open>The histogram: one of its nine counters is incremented, the first whose bound the latency does not exceed.\<close>

lemma latency_index_spec:
  "latency_index l bs k = k + length (takeWhile (\<lambda>b. b < l) bs)"
  by (induction bs arbitrary: k) (auto simp: not_le)

lemma latency_counted:
  assumes "length (latency_counters h) = 9"
  defines "i \<equiv> length (takeWhile (\<lambda>b. b < latency_actual h - latency_baseline h) latency_buckets)"
  shows "i < 9" "latency_counters (hrt_latency_update h) = (latency_counters h)[i := latency_counters h ! i + 1]"
proof -
  have "i \<le> length latency_buckets" unfolding i_def by (rule length_takeWhile_le)
  then show "i < 9" by (simp add: latency_buckets_def)
  show "latency_counters (hrt_latency_update h) = (latency_counters h)[i := latency_counters h ! i + 1]"
    by (simp add: hrt_latency_update_def latency_index_spec i_def Let_def)
qed

section \<open>Seconds and nanoseconds\<close>

text \<open>
  The product of the seconds with 1000000 is computed in 32 bits and wraps after 71 minutes, but so does the number of nanoseconds
  that is made from it: the time comes out right for as long as the seconds fit.
\<close>

lemma u32_mult_wrap: "unat (ucast (s * 1000000 :: u32) :: u64) = unat s * 1000000 mod 2 ^ 32" for s :: u32
  by (simp add: unsigned_ucast_eq unat_word_ariths take_bit_eq_mod mod_mod_cancel)

lemma abstime_to_ts_fields:
  assumes a: "unat a < 2 ^ 32 * 1000000"
  shows "unat (tv_sec (abstime_to_ts a)) = unat a div 1000000"
    and "unat (tv_nsec (abstime_to_ts a)) = unat a mod 1000000 * 1000"
proof -
  define s where "s = (ucast (a div 1000000) :: u32)"
  have s: "unat s = unat a div 1000000"
    using a by (simp add: s_def unsigned_ucast_eq unat_div take_bit_nat_eq_self less_mult_imp_div_less)
  show "unat (tv_sec (abstime_to_ts a)) = unat a div 1000000" using s by (simp add: abstime_to_ts_def Let_def s_def)
  define k where "k = unat s * 1000000 div 2 ^ 32"
  define w where "w = (ucast (s * 1000000) :: u64)"
  have w: "unat w = unat s * 1000000 mod 2 ^ 32" by (simp only: w_def u32_mult_wrap)
  have le: "unat w \<le> unat a" using w s by simp
  have "unat s * 1000000 = k * 2 ^ 32 + unat w" by (simp only: w k_def div_mult_mod_eq)
  moreover have "unat a = unat s * 1000000 + unat a mod 1000000" by (simp only: s div_mult_mod_eq)
  ultimately have "unat a = unat w + (unat a mod 1000000 + k * 2 ^ 32)" by (simp only: ac_simps)
  then have "unat a - unat w = unat a mod 1000000 + k * 2 ^ 32" by (metis add_diff_cancel_left')
  then have "unat (a - w) = unat a mod 1000000 + k * 2 ^ 32" using le by (simp add: unat_sub word_le_nat_alt)
  moreover have "unat (ucast (z * 1000) :: u32) = unat z * 1000 mod 2 ^ 64 mod 2 ^ 32" for z :: u64
    by (simp add: unsigned_ucast_eq unat_word_ariths take_bit_eq_mod)
  ultimately have "unat (ucast ((a - w) * 1000) :: u32) = (unat a mod 1000000 + k * 2 ^ 32) * 1000 mod 2 ^ 64 mod 2 ^ 32" by (simp only:)
  also have "\<dots> = (unat a mod 1000000 + k * 2 ^ 32) * 1000 mod 2 ^ 32" by (simp add: mod_mod_cancel)
  also have "\<dots> = (unat a mod 1000000 * 1000 + (k * 1000) * 2 ^ 32) mod 2 ^ 32" by (simp add: algebra_simps)
  also have "\<dots> = unat a mod 1000000 * 1000 mod 2 ^ 32" by (rule mod_mult_self1)
  also have "\<dots> = unat a mod 1000000 * 1000"
  proof (rule mod_less)
    have "unat a mod 1000000 < 1000000" by simp
    then have "unat a mod 1000000 * 1000 < 1000000 * 1000" by (rule mult_strict_right_mono) simp
    then show "unat a mod 1000000 * 1000 < 2 ^ 32" by simp
  qed
  finally show "unat (tv_nsec (abstime_to_ts a)) = unat a mod 1000000 * 1000"
    by (simp add: abstime_to_ts_def Let_def s_def w_def)
qed

lemma timespec_round_trip:
  assumes a: "unat a < 2 ^ 32 * 1000000"
  shows "ts_to_abstime (abstime_to_ts a) = a"
proof -
  let ?n = "tv_nsec (abstime_to_ts a)"
  have lt: "unat a mod 1000000 * 1000 < 2 ^ 31"
  proof -
    have "unat a mod 1000000 < 1000000" by simp
    then have "unat a mod 1000000 * 1000 < 1000000 * 1000" by (rule mult_strict_right_mono) simp
    then show ?thesis by simp
  qed
  have "sint ?n = int (unat ?n)"
    using lt abstime_to_ts_fields(2) [OF a] by (simp add: sint_uint signed_take_bit_int_eq_self_iff uint_nat)
  then have "sint ?n sdiv 1000 = int (unat a mod 1000000)"
    by (simp add: abstime_to_ts_fields(2) [OF a] signed_divide_int_def sgn_if)
  moreover have "(ucast (tv_sec (abstime_to_ts a)) :: u64) = of_nat (unat a div 1000000)"
    by (simp add: abstime_to_ts_fields(1) [OF a, symmetric])
  ultimately have "ts_to_abstime (abstime_to_ts a) = of_nat (unat a div 1000000 * 1000000 + unat a mod 1000000)"
    by (simp only: ts_to_abstime_def of_nat_add of_nat_mult of_int_of_nat_eq) simp
  then show ?thesis by (simp only: div_mult_mod_eq of_nat_unat ucast_id)
qed

section \<open>The next interrupt\<close>

lemma next_match_hits:
  assumes "T < D" "D \<le> T + 65536" "unat v = D mod 65536"
  shows "next_match T v = D"
proof -
  define x where "x = D - T"
  have D: "D = T + x" and x: "0 < x" "x \<le> 65536" using assms(1,2) by (simp_all add: x_def)
  have le: "T mod 65536 < 65536" by simp
  have "(unat v + 65536 - T mod 65536) mod 65536 = (D mod 65536 + (65536 - T mod 65536)) mod 65536"
    using assms(3) le by simp
  also have "\<dots> = (D + (65536 - T mod 65536)) mod 65536" by (rule mod_add_left_eq)
  also have "D + (65536 - T mod 65536) = x + (T div 65536 + 1) * 65536"
  proof -
    define m q where mq: "m = T mod 65536" "q = T div 65536"
    have "T = q * 65536 + m" "m < 65536" by (simp_all add: mq)
    then show ?thesis using D unfolding mq [symmetric] by (simp add: algebra_simps)
  qed
  also have "\<dots> mod 65536 = x mod 65536" by (rule mod_mult_self1)
  finally have d: "(unat v + 65536 - T mod 65536) mod 65536 = x mod 65536" .
  show ?thesis
  proof (cases "x = 65536")
    case True
    then show ?thesis using d D by (simp add: next_match_def Let_def)
  next
    case False
    then have "x mod 65536 = x" using x by simp
    then show ?thesis using d D x by (simp add: next_match_def Let_def)
  qed
qed

lemma low_half: "unat (ucast (w AND 0xffff) :: u16) = unat w mod 65536" for w :: u64
proof -
  have "(0xffff :: u64) = mask 16" by (simp add: mask_eq_exp_minus_1)
  then have "(ucast (w AND 0xffff) :: u16) = ucast w"
    by (auto simp: bit_eq_iff bit_simps)
  then show ?thesis by (simp add: unsigned_ucast_eq take_bit_eq_mod)
qed

text \<open>The time that the next interrupt is asked for, over unbounded time: the first deadline, kept within the two limits.\<close>

definition wake_up :: "nat \<Rightarrow> nat option \<Rightarrow> nat" where
  "wake_up T d = (case d of None \<Rightarrow> T + 50000 | Some d \<Rightarrow> max (T + 50) (min d (T + 50000)))"

lemma wake_up_bounds: "T + 50 \<le> wake_up T d" "wake_up T d \<le> T + 50000"
  by (auto simp: wake_up_def split: option.split)

definition first_deadline :: "hrt \<Rightarrow> nat option" where
  "first_deadline h = map_option (\<lambda>e. unat (deadline (calls h e))) (sq_peek (callout_queue h))"

lemma reschedule_wakes:
  assumes c: "clock_at h t" "t \<le> cnt (cnt_reads h)" "cnt (cnt_reads h) < t + 65536" and b: "cnt (cnt_reads h) + 50000 < 2 ^ 64"
  shows "hrt_match (hrt_call_reschedule cnt h) = wake_up (cnt (cnt_reads h)) (first_deadline h)"
proof -
  define T where "T = cnt (cnt_reads h)"
  define D where "D = wake_up T (first_deadline h)"
  have now: "fst (hrt_absolute_time cnt h) = of_nat T" using hrt_absolute_time_exact(1) [of h t cnt, OF c] by (simp add: T_def)
  have uT: "unat (of_nat T :: u64) = T" using b by (simp add: T_def unat_of_nat)
  have u: "unat (of_nat T + 50 :: u64) = T + 50" "unat (of_nat T + 50000 :: u64) = T + 50000"
    using b uT by (simp_all add: T_def unat_word_ariths)
  define dl where "dl = (case sq_peek (callout_queue h) of
         None \<Rightarrow> of_nat T + HRT_INTERVAL_MAX
       | Some nxt \<Rightarrow>
           if deadline (calls h nxt) \<le> of_nat T + HRT_INTERVAL_MIN then of_nat T + HRT_INTERVAL_MIN
           else if deadline (calls h nxt) < of_nat T + HRT_INTERVAL_MAX then deadline (calls h nxt)
           else of_nat T + HRT_INTERVAL_MAX)"
  have dl: "unat dl = D"
    by (auto simp: dl_def D_def wake_up_def first_deadline_def HRT_INTERVAL_MAX_def HRT_INTERVAL_MIN_def u word_le_nat_alt
        word_less_nat_alt split: option.split)
  have "T < D" "D \<le> T + 65536" using wake_up_bounds [of T "first_deadline h"] by (auto simp: D_def)
  moreover have "unat (ucast (dl AND 0xffff) :: u16) = D mod 65536" by (simp only: low_half dl)
  ultimately have "next_match T (ucast (dl AND 0xffff)) = D" by (rule next_match_hits)
  moreover have "hrt_match (hrt_call_reschedule cnt h) = next_match T (ucast (dl AND 0xffff))"
    using now by (simp add: hrt_call_reschedule_def split_beta Let_def dl_def T_def split: option.split)
  ultimately show ?thesis by (simp add: D_def T_def)
qed

lemma reschedule_frame [simp]:
  "cnt_reads (hrt_call_reschedule cnt h) = cnt_reads h + 1"
  "base_time (hrt_call_reschedule cnt h) = base_time (snd (hrt_absolute_time cnt h))"
  "last_count (hrt_call_reschedule cnt h) = last_count (snd (hrt_absolute_time cnt h))"
  "calls (hrt_call_reschedule cnt h) = calls h"
  "call_links (hrt_call_reschedule cnt h) = call_links h"
  "callout_queue (hrt_call_reschedule cnt h) = callout_queue h"
  "ppm (hrt_call_reschedule cnt h) = ppm h"
  by (simp_all add: hrt_call_reschedule_def Let_def split_beta)

section \<open>Steps of the clock\<close>

text \<open>
  What an operation can do to the clock: nothing, or read the time, after which the next interrupt may have been rescheduled. Every
  operation of the module is a sequence of such steps, and the callouts are required to be.
\<close>

definition same_clock :: "hrt \<Rightarrow> hrt \<Rightarrow> bool" where
  "same_clock h h' \<longleftrightarrow> base_time h' = base_time h \<and> last_count h' = last_count h \<and> cnt_reads h' = cnt_reads h"

definition read_clock :: "(nat \<Rightarrow> nat) \<Rightarrow> hrt \<Rightarrow> hrt \<Rightarrow> bool" where
  "read_clock cnt h h' \<longleftrightarrow> same_clock (snd (hrt_absolute_time cnt h)) h' \<and>
     (hrt_match h' = hrt_match h \<or> (\<exists>g. hrt_match h' = hrt_match (hrt_call_reschedule cnt g) \<and> same_clock h g))"

inductive clock_steps :: "(nat \<Rightarrow> nat) \<Rightarrow> hrt \<Rightarrow> hrt \<Rightarrow> bool" for cnt where
  still: "same_clock h h' \<Longrightarrow> hrt_match h' = hrt_match h \<Longrightarrow> clock_steps cnt h h'"
| step: "clock_steps cnt h g \<Longrightarrow> read_clock cnt g h' \<Longrightarrow> clock_steps cnt h h'"

lemma same_clock_refl [simp]: "same_clock h h"
  by (simp add: same_clock_def)

lemma clock_steps_refl [simp]: "clock_steps cnt h h"
  by (rule clock_steps.still) simp_all

lemma clock_steps_reads: "clock_steps cnt h h' \<Longrightarrow> cnt_reads h \<le> cnt_reads h'"
  by (induction rule: clock_steps.induct) (auto simp: same_clock_def read_clock_def)

lemma same_clock_time:
  "same_clock h g \<Longrightarrow> same_clock (snd (hrt_absolute_time cnt h)) (snd (hrt_absolute_time cnt g))"
  by (auto simp: same_clock_def hrt_absolute_time_def rCNT_def Let_def)

lemma same_clock_trans: "same_clock a b \<Longrightarrow> same_clock b c \<Longrightarrow> same_clock a c"
  by (simp add: same_clock_def)

lemma same_clock_sym: "same_clock a b \<Longrightarrow> same_clock b a"
  by (simp add: same_clock_def)

lemma read_clock_cong: "same_clock g h \<Longrightarrow> hrt_match h = hrt_match g \<Longrightarrow> read_clock cnt h h' \<Longrightarrow> read_clock cnt g h'"
  unfolding read_clock_def by (metis same_clock_time same_clock_trans)

lemma clock_steps_trans: "clock_steps cnt h2 h3 \<Longrightarrow> clock_steps cnt h1 h2 \<Longrightarrow> clock_steps cnt h1 h3"
proof (induction rule: clock_steps.induct)
  case (still h h')
  from still(3) show ?case
  proof cases
    case still2: still
    then show ?thesis using still by (auto intro!: clock_steps.still intro: same_clock_trans)
  next
    case (step g)
    have "read_clock cnt g h'" using step(2) still(1,2) by (auto simp: read_clock_def intro: same_clock_trans)
    then show ?thesis using step(1) by (rule clock_steps.step [rotated])
  qed
next
  case (step h g h')
  then show ?case by (blast intro: clock_steps.step)
qed

lemma clock_steps_read: "clock_steps cnt h (snd (hrt_absolute_time cnt h))"
  by (rule clock_steps.step [OF clock_steps_refl]) (simp add: read_clock_def)

lemma clock_steps_reschedule: "clock_steps cnt h (hrt_call_reschedule cnt h)"
  by (rule clock_steps.step [OF clock_steps_refl]) (auto simp: read_clock_def same_clock_def intro!: exI [of _ h])

text \<open>
  A clock that is right and whose next interrupt is at most 50 ms ahead stays so, when every read comes in time after the one before.
\<close>

definition clock_ok :: "(nat \<Rightarrow> nat) \<Rightarrow> hrt \<Rightarrow> nat \<Rightarrow> bool" where
  "clock_ok cnt h t \<longleftrightarrow> clock_at h t \<and> hrt_match h \<le> t + 50000"

lemma clock_at_same: "same_clock h h' \<Longrightarrow> clock_at h' t = clock_at h t"
  by (simp add: same_clock_def clock_at_def)

lemma read_clock_ok:
  assumes r: "read_clock cnt h h'" and c: "clock_ok cnt h t" and T: "t \<le> cnt (cnt_reads h)" "cnt (cnt_reads h) < t + 65536"
    and b: "cnt (cnt_reads h) + 50000 < 2 ^ 64"
  shows "clock_ok cnt h' (cnt (cnt_reads h))" "cnt_reads h' = cnt_reads h + 1"
proof -
  have at: "clock_at h t" using c by (simp add: clock_ok_def)
  have 1: "clock_at h' (cnt (cnt_reads h))"
    using r hrt_absolute_time_exact(2) [of h t cnt, OF at T] by (auto simp: read_clock_def clock_at_same)
  have 2: "hrt_match h' \<le> cnt (cnt_reads h) + 50000" if "hrt_match h' = hrt_match (hrt_call_reschedule cnt g)" "same_clock h g" for g
  proof -
    have "clock_at g t" "cnt_reads g = cnt_reads h" using at that(2) by (simp_all add: clock_at_same) (simp add: same_clock_def)
    then have "hrt_match h' = wake_up (cnt (cnt_reads h)) (first_deadline g)"
      using reschedule_wakes [of g t cnt] that(1) T b by simp
    then show ?thesis using wake_up_bounds(2) by simp
  qed
  show "clock_ok cnt h' (cnt (cnt_reads h))" using r c T 1 2 by (auto simp: read_clock_def clock_ok_def)
  show "cnt_reads h' = cnt_reads h + 1" using r by (simp add: read_clock_def same_clock_def)
qed

end
