(* ===== verification/Hrt_Calls.thy ===== *)
theory Hrt_Calls
  imports Hrt_Time
begin

text \<open>
  The queue of callouts of the high resolution timer. Abstractly it is a list of entries with their call structures, ordered by
  deadline, entries of the same deadline in the order in which they were entered. The operations on the linked queue are shown to do
  to this list what their descriptions say; the interface of the callouts that the dispatcher runs is a locale.
\<close>

section \<open>The abstract queue\<close>

type_synonym pending = "(nat \<times> hrt_call) list"

definition drop_entry :: "nat \<Rightarrow> pending \<Rightarrow> pending" where
  "drop_entry e p = filter (\<lambda>x. fst x \<noteq> e) p"

definition add_entry :: "nat \<Rightarrow> hrt_call \<Rightarrow> pending \<Rightarrow> pending" where
  "add_entry e c p = takeWhile (\<lambda>x. deadline (snd x) \<le> deadline c) p @ (e, c) # dropWhile (\<lambda>x. deadline (snd x) \<le> deadline c) p"

definition pending_ok :: "pending \<Rightarrow> bool" where
  "pending_ok p \<longleftrightarrow> distinct (map fst p) \<and> sorted (map (deadline \<circ> snd) p)
     \<and> (\<forall>x \<in> set p. deadline (snd x) \<noteq> 0 \<and> period (snd x) < 2 ^ 63)"

lemma set_add_entry [simp]: "set (add_entry e c p) = insert (e, c) (set p)"
proof -
  define P where "P = (\<lambda>x :: nat \<times> hrt_call. deadline (snd x) \<le> deadline c)"
  have "set p = set (takeWhile P p @ dropWhile P p)" by simp
  then have "set p = set (takeWhile P p) \<union> set (dropWhile P p)" by (simp only: set_append)
  then show ?thesis by (simp add: add_entry_def P_def [symmetric])
qed

lemma add_entry_ok:
  assumes p: "pending_ok p" and e: "e \<notin> fst ` set p" and c: "deadline c \<noteq> 0" "period c < 2 ^ 63"
  shows "pending_ok (add_entry e c p)"
proof -
  define P where "P = (\<lambda>x :: nat \<times> hrt_call. deadline (snd x) \<le> deadline c)"
  define d where "d = (deadline \<circ> snd :: nat \<times> hrt_call \<Rightarrow> u64)"
  have a: "add_entry e c p = takeWhile P p @ (e, c) # dropWhile P p" by (simp add: add_entry_def P_def)
  have s: "sorted (map d (takeWhile P p @ dropWhile P p))" using p by (simp add: pending_ok_def d_def)
  have t: "d x \<le> deadline c" if "x \<in> set (takeWhile P p)" for x
    using set_takeWhileD [OF that] by (simp add: P_def d_def)
  have u: "deadline c \<le> d x" if x: "x \<in> set (dropWhile P p)" for x
  proof (cases "dropWhile P p")
    case (Cons y ys)
    then have "\<not> P y" by (metis dropWhile_eq_Cons_conv)
    moreover have "d y \<le> d x" using s x Cons by (auto simp: sorted_append)
    ultimately show ?thesis by (simp add: P_def d_def)
  next
    case Nil
    then show ?thesis using x unfolding Nil by simp
  qed
  obtain us vs where us: "us = takeWhile P p" and vs: "vs = dropWhile P p" by blast
  have "sorted (map d us @ deadline c # map d vs)"
    using s t u unfolding map_append us [symmetric] vs [symmetric] sorted_append by (auto intro: order_trans)
  then have "sorted (map d (add_entry e c p))" by (simp add: a us vs d_def)
  moreover have "distinct (map fst (add_entry e c p))"
  proof -
    have "p = us @ vs" by (simp add: us vs)
    then show ?thesis unfolding a us [symmetric] vs [symmetric] using p e by (auto simp: pending_ok_def)
  qed
  ultimately show ?thesis using p c by (auto simp: pending_ok_def d_def)
qed

lemma drop_entry_ok: "pending_ok p \<Longrightarrow> pending_ok (drop_entry e p)"
  unfolding pending_ok_def drop_entry_def
  by (auto simp: sorted_filter distinct_map_filter)

lemma drop_entry_gone: "e \<notin> fst ` set (drop_entry e p)"
  by (auto simp: drop_entry_def)

section \<open>The linked queue as the abstract one\<close>

definition queued :: "hrt \<Rightarrow> pending \<Rightarrow> bool" where
  "queued h p \<longleftrightarrow> queue_of (queue h) (map fst p) \<and> (\<forall>x \<in> set p. snd x = calls h (fst x)) \<and> pending_ok p"

lemma queued_unique: "queued h p \<Longrightarrow> queued h q \<Longrightarrow> p = q"
proof -
  assume h: "queued h p" "queued h q"
  then have m: "map fst p = map fst q" unfolding queued_def using queue_of_unique by blast
  have "r = map (\<lambda>e. (e, calls h e)) (map fst r)" if "queued h r" for r
    using that by (auto simp: queued_def prod_eq_iff intro!: map_idI [symmetric])
  then show "p = q" using h m by metis
qed

lemma queued_cong:
  "call_links h' = call_links h \<Longrightarrow> callout_queue h' = callout_queue h \<Longrightarrow> calls h' = calls h \<Longrightarrow> queued h' p = queued h p"
  by (simp add: queued_def)

lemma queued_peek: "queued h p \<Longrightarrow> sq_peek (callout_queue h) = (case p of [] \<Rightarrow> None | x # _ \<Rightarrow> Some (fst x))"
  by (auto simp: queued_def queue_of_peek [of "call_links h"] split: list.split)

lemma queued_call: "queued h p \<Longrightarrow> (e, c) \<in> set p \<Longrightarrow> calls h e = c"
  by (auto simp: queued_def)

text \<open>Changing the structure of an entry that is not queued.\<close>

lemma upd_call_fields [simp]:
  "call_links (upd_call e g h) = call_links h" "callout_queue (upd_call e g h) = callout_queue h"
  "calls (upd_call e g h) = (calls h)(e := g (calls h e))" "cnt_reads (upd_call e g h) = cnt_reads h"
  "base_time (upd_call e g h) = base_time h" "last_count (upd_call e g h) = last_count h" "hrt_match (upd_call e g h) = hrt_match h"
  "ppm (upd_call e g h) = ppm h"
  by (simp_all add: upd_call_def)

lemma set_queue_fields [simp]:
  "call_links (set_queue s h) = fst s" "callout_queue (set_queue s h) = snd s" "calls (set_queue s h) = calls h"
  "cnt_reads (set_queue s h) = cnt_reads h" "base_time (set_queue s h) = base_time h" "last_count (set_queue s h) = last_count h"
  "hrt_match (set_queue s h) = hrt_match h" "ppm (set_queue s h) = ppm h"
  by (simp_all add: set_queue_def)

lemma queued_upd_call: "queued h p \<Longrightarrow> e \<notin> fst ` set p \<Longrightarrow> queued (upd_call e g h) p"
  by (auto simp: queued_def)

section \<open>Entering and removing an entry\<close>

lemma remove1_drop_entry: "distinct (map fst p) \<Longrightarrow> remove1 e (map fst p) = map fst (drop_entry e p)"
  by (simp add: distinct_remove1_removeAll removeAll_filter_not_eq drop_entry_def filter_map comp_def) metis

lemma rem_entry:
  assumes "queued h p"
  shows "\<exists>s. sq_rem (Some e) (queue h) = Some s \<and> queued (set_queue s h) (drop_entry e p)"
proof -
  have q: "queue_of (queue h) (map fst p)" "pending_ok p" using assms by (simp_all add: queued_def)
  obtain s where s: "sq_rem (Some e) (queue h) = Some s" "queue_of s (remove1 e (map fst p))"
    using sq_rem_list [OF q(1)] by blast
  have "remove1 e (map fst p) = map fst (drop_entry e p)" using q(2) by (intro remove1_drop_entry) (simp add: pending_ok_def)
  then have "queued (set_queue s h) (drop_entry e p)"
    using s(2) drop_entry_ok [OF q(2)] assms by (auto simp: queued_def drop_entry_def)
  then show ?thesis using s(1) by blast
qed

lemma enter_after_walk:
  "queue_of (queue h) (ys @ x # zs) \<Longrightarrow>
     enter_after h dl x = Some (List.last (x # takeWhile (\<lambda>z. deadline (calls h z) \<le> dl) zs))"
proof (induction zs arbitrary: ys x)
  case Nil
  then show ?case by (subst enter_after.simps) (simp add: queue_of_next [where zs = "[]"])
next
  case (Cons z zs)
  have n: "sq_next (call_links h) x = Some z" using queue_of_next [OF Cons.prems] by simp
  have "enter_after h dl z = Some (List.last (z # takeWhile (\<lambda>z. deadline (calls h z) \<le> dl) zs))"
    using Cons.IH [of "ys @ [x]" z] Cons.prems by simp
  then show ?case by (subst enter_after.simps) (auto simp: n not_less)
qed

lemma enter_list:
  assumes h: "queued h p" and e: "e \<notin> fst ` set p"
  shows "\<exists>h'. hrt_call_enter cnt e h = Some h' \<and> calls h' = calls h \<and>
     queue_of (queue h') (map fst (add_entry e (calls h e) p)) \<and>
     (h' = hrt_call_reschedule cnt (set_queue (queue h') h) \<or> h' = set_queue (queue h') h)"
proof -
  define P where "P = (\<lambda>x :: nat \<times> hrt_call. deadline (snd x) \<le> deadline (calls h e))"
  have q: "queue_of (queue h) (map fst p)" using h by (simp add: queued_def)
  have e': "e \<notin> set (map fst p)" using e by auto
  have pk: "sq_peek (callout_queue h) = (case p of [] \<Rightarrow> None | x # _ \<Rightarrow> Some (fst x))" using h by (rule queued_peek)
  have first: ?thesis if f: "hrt_call_enter cnt e h = Some (hrt_call_reschedule cnt (set_queue (sq_addfirst e (queue h)) h))"
    and a: "add_entry e (calls h e) p = (e, calls h e) # p"
  proof -
    have "queue_of (sq_addfirst e (queue h)) (e # map fst p)" using q e' by (rule sq_addfirst_list)
    then show ?thesis using f a by (auto intro!: exI [of _ "hrt_call_reschedule cnt (set_queue (sq_addfirst e (queue h)) h)"])
  qed
  show ?thesis
  proof (cases p)
    case Nil
    then show ?thesis using pk by (intro first) (simp_all add: hrt_call_enter_def add_entry_def Let_def)
  next
    case (Cons x r)
    have cx: "calls h (fst y) = snd y" if "y \<in> set p" for y using h that by (simp add: queued_def)
    show ?thesis
    proof (cases "P x")
      case False
      then show ?thesis using pk Cons cx
        by (intro first) (auto simp: hrt_call_enter_def add_entry_def Let_def P_def not_le)
    next
      case True
      define us where "us = x # takeWhile P r"
      define vs where "vs = dropWhile P r"
      have p: "p = us @ vs" by (simp add: us_def vs_def Cons)
      have a: "add_entry e (calls h e) p = us @ (e, calls h e) # vs"
        using True by (simp add: add_entry_def P_def [symmetric] Cons us_def vs_def)
      have "takeWhile (\<lambda>z. deadline (calls h z) \<le> deadline (calls h e)) (map fst r) = map fst (takeWhile P r)"
      proof -
        have "takeWhile ((\<lambda>z. deadline (calls h z) \<le> deadline (calls h e)) \<circ> fst) r = takeWhile P r"
          by (rule takeWhile_cong) (use cx Cons in \<open>simp_all add: P_def\<close>)
        then show ?thesis by (simp only: takeWhile_map)
      qed
      then have w: "enter_after h (deadline (calls h e)) (fst x) = Some (fst (List.last us))"
        using enter_after_walk [of h "[]" "fst x" "map fst r" "deadline (calls h e)"] q Cons
        by (simp add: us_def last_map)
      have "us \<noteq> []" by (simp add: us_def)
      then obtain ws y where us: "us = ws @ [y]" by (metis rev_exhaust)
      have "queue_of (queue h) (map fst ws @ fst y # map fst vs)" "e \<notin> set (map fst ws @ fst y # map fst vs)"
        using q e' p us by simp_all
      then obtain s where s: "sq_addafter (fst y) e (queue h) = Some s" "queue_of s (map fst ws @ fst y # e # map fst vs)"
        using sq_addafter_list [of "queue h" "map fst ws" "fst y" "map fst vs" e] by auto
      have "hrt_call_enter cnt e h = Some (set_queue s h)"
        using pk Cons True w s(1) us cx by (simp add: hrt_call_enter_def Let_def P_def)
      then show ?thesis using s(2) a us by (auto intro!: exI [of _ "set_queue s h"])
    qed
  qed
qed

lemma enter_entry:
  assumes h: "queued h p" and e: "e \<notin> fst ` set p" and c: "deadline (calls h e) \<noteq> 0" "period (calls h e) < 2 ^ 63"
  shows "\<exists>h'. hrt_call_enter cnt e h = Some h' \<and> queued h' (add_entry e (calls h e) p) \<and> calls h' = calls h \<and> ppm h' = ppm h"
proof -
  obtain h' where h': "hrt_call_enter cnt e h = Some h'" "calls h' = calls h"
    "queue_of (queue h') (map fst (add_entry e (calls h e) p))"
    "h' = hrt_call_reschedule cnt (set_queue (queue h') h) \<or> h' = set_queue (queue h') h"
    using enter_list [OF h e] by blast
  have "snd x = calls h' (fst x)" if "x \<in> set (add_entry e (calls h e) p)" for x
    using that h h'(2) by (auto simp: queued_def)
  moreover have "ppm h' = ppm h" using h'(4) by (elim disjE ssubst) simp_all
  ultimately show ?thesis using h' add_entry_ok [OF _ e c] h by (auto simp: queued_def)
qed


section \<open>Operations of the clients\<close>

datatype hrt_op =
    Op_Time
  | Op_After nat u64 "nat option" u32
  | Op_At nat u64 "nat option" u32
  | Op_Every nat u64 u64 "nat option" u32
  | Op_Cancel nat
  | Op_Delay nat u64
  | Op_Init nat

fun hrt_do :: "(nat \<Rightarrow> nat) \<Rightarrow> hrt_op \<Rightarrow> hrt \<Rightarrow> hrt option" where
  "hrt_do cnt Op_Time h = Some (snd (hrt_absolute_time cnt h))"
| "hrt_do cnt (Op_After e d fn a) h = hrt_call_after cnt e d fn a h"
| "hrt_do cnt (Op_At e t fn a) h = hrt_call_at cnt e t fn a h"
| "hrt_do cnt (Op_Every e d i fn a) h = hrt_call_every cnt e d i fn a h"
| "hrt_do cnt (Op_Cancel e) h = hrt_cancel e h"
| "hrt_do cnt (Op_Delay e d) h = Some (hrt_call_delay cnt e d h)"
| "hrt_do cnt (Op_Init e) h = Some (hrt_call_init e h)"

text \<open>
  What they do to the abstract queue at the time \<open>now\<close>, and what they require: a deadline is never 0, the mark of an entry that is not
  queued, a period is below half the range of the time, and an entry that is delayed or cleared is not queued.
\<close>

fun spec_do :: "u64 \<Rightarrow> hrt_op \<Rightarrow> pending \<Rightarrow> pending" where
  "spec_do now Op_Time p = p"
| "spec_do now (Op_After e d fn a) p =
     add_entry e \<lparr> deadline = now + d, period = 0, callout = fn, call_arg = a \<rparr> (drop_entry e p)"
| "spec_do now (Op_At e t fn a) p = add_entry e \<lparr> deadline = t, period = 0, callout = fn, call_arg = a \<rparr> (drop_entry e p)"
| "spec_do now (Op_Every e d i fn a) p =
     add_entry e \<lparr> deadline = now + d, period = i, callout = fn, call_arg = a \<rparr> (drop_entry e p)"
| "spec_do now (Op_Cancel e) p = drop_entry e p"
| "spec_do now (Op_Delay e d) p = p"
| "spec_do now (Op_Init e) p = p"

fun op_fine :: "u64 \<Rightarrow> pending \<Rightarrow> hrt_op \<Rightarrow> bool" where
  "op_fine now p Op_Time = True"
| "op_fine now p (Op_After e d fn a) = (now + d \<noteq> 0)"
| "op_fine now p (Op_At e t fn a) = (t \<noteq> 0)"
| "op_fine now p (Op_Every e d i fn a) = (now + d \<noteq> 0 \<and> i < 2 ^ 63)"
| "op_fine now p (Op_Cancel e) = True"
| "op_fine now p (Op_Delay e d) = (e \<notin> fst ` set p)"
| "op_fine now p (Op_Init e) = (e \<notin> fst ` set p)"

lemma drop_entry_absent: "e \<notin> fst ` set p \<Longrightarrow> drop_entry e p = p"
  by (auto simp: drop_entry_def filter_id_conv)

lemma queued_zero_absent: "queued h p \<Longrightarrow> deadline (calls h e) = 0 \<Longrightarrow> e \<notin> fst ` set p"
  unfolding queued_def pending_ok_def by force

lemma call_internal_holds:
  assumes h: "queued h p" and d: "dl \<noteq> 0" "i < 2 ^ 63"
  shows "\<exists>h'. hrt_call_internal cnt e dl i fn a h = Some h' \<and>
     queued h' (add_entry e \<lparr> deadline = dl, period = i, callout = fn, call_arg = a \<rparr> (drop_entry e p)) \<and>
     calls h' = (calls h)(e := \<lparr> deadline = dl, period = i, callout = fn, call_arg = a \<rparr>)"
proof -
  let ?c = "\<lparr> deadline = dl, period = i, callout = fn, call_arg = a \<rparr>"
  let ?u = "upd_call e (\<lambda>c. c\<lparr>deadline := dl, period := i, callout := fn, call_arg := a\<rparr>)"
  have "\<exists>g. (if deadline (calls h e) \<noteq> 0 then do { s \<leftarrow> sq_rem (Some e) (queue h); Some (set_queue s h) } else Some h) = Some g
      \<and> queued g (drop_entry e p) \<and> calls g = calls h"
  proof (cases "deadline (calls h e) = 0")
    case True
    then show ?thesis using h queued_zero_absent [OF h True] by (simp add: drop_entry_absent)
  next
    case False
    then show ?thesis using rem_entry [OF h, of e] by auto
  qed
  then obtain g where g: "(if deadline (calls h e) \<noteq> 0 then do { s \<leftarrow> sq_rem (Some e) (queue h); Some (set_queue s h) } else Some h) = Some g"
    "queued g (drop_entry e p)" "calls g = calls h" by blast
  have u: "queued (?u g) (drop_entry e p)" using g(2) drop_entry_gone by (rule queued_upd_call)
  have c: "calls (?u g) e = ?c" by (simp add: hrt_call.equality)
  have cs: "calls (?u g) = (calls h)(e := ?c)" using c g(3) by (auto simp: fun_eq_iff)
  obtain h' where "hrt_call_enter cnt e (?u g) = Some h'" "queued h' (add_entry e (calls (?u g) e) (drop_entry e p))"
    "calls h' = calls (?u g)" using enter_entry [OF u drop_entry_gone, of cnt] d unfolding c by auto
  then show ?thesis using g(1) unfolding c cs by (simp add: hrt_call_internal_def)
qed

text \<open>The simulation: an operation returns, and changes the linked queue as it changes the abstract one.\<close>

lemma hrt_do_holds:
  assumes h: "queued h p" and f: "op_fine (fst (hrt_absolute_time cnt h)) p op"
  shows "\<exists>h'. hrt_do cnt op h = Some h' \<and> queued h' (spec_do (fst (hrt_absolute_time cnt h)) op p)"
proof -
  have t: "queued (snd (hrt_absolute_time cnt h)) p" using h by (subst queued_cong) simp_all
  show ?thesis
  proof (cases op)
    case Op_Time
    then show ?thesis using t by simp
  next
    case (Op_After e d fn a)
    then show ?thesis using call_internal_holds [OF t, of "fst (hrt_absolute_time cnt h) + d" 0 cnt e fn a] f
      by (auto simp: hrt_call_after_def split_beta Let_def)
  next
    case (Op_At e d fn a)
    then show ?thesis using call_internal_holds [OF h, of d 0 cnt e fn a] f by (auto simp: hrt_call_at_def)
  next
    case (Op_Every e d i fn a)
    then show ?thesis using call_internal_holds [OF t, of "fst (hrt_absolute_time cnt h) + d" i cnt e fn a] f
      by (auto simp: hrt_call_every_def split_beta Let_def)
  next
    case (Op_Cancel e)
    obtain s where "sq_rem (Some e) (queue h) = Some s" "queued (set_queue s h) (drop_entry e p)" using rem_entry [OF h] by blast
    then show ?thesis using Op_Cancel by (simp add: hrt_cancel_def queued_upd_call drop_entry_gone)
  next
    case (Op_Delay e d)
    then show ?thesis using f queued_upd_call [OF t] by (simp add: hrt_call_delay_def split_beta Let_def)
  next
    case (Op_Init e)
    have "e \<notin> set (map fst p)" using f Op_Init by auto
    then have "queue_of ((call_links h)(e := None), callout_queue h) (map fst p)"
      using h by (simp add: queued_def queue_of_def)
    then show ?thesis using Op_Init f h by (auto simp: queued_def hrt_call_init_def)
  qed
qed

text \<open>Every operation that returns is a sequence of clock steps.\<close>

lemma clock_steps_same:
  assumes "same_clock h h'" "hrt_match h' = hrt_match h"
  shows "clock_steps cnt g h' = clock_steps cnt g h" "clock_steps cnt h' g = clock_steps cnt h g"
proof -
  have "clock_steps cnt h h'" "clock_steps cnt h' h" using assms by (auto intro: clock_steps.still simp: same_clock_def)
  then show "clock_steps cnt g h' = clock_steps cnt g h" "clock_steps cnt h' g = clock_steps cnt h g"
    by (blast intro: clock_steps_trans)+
qed

lemma clock_steps_upd [simp]: "clock_steps cnt h (upd_call e g h')  = clock_steps cnt h h'" "clock_steps cnt (upd_call e g h) h' = clock_steps cnt h h'"
  by (rule clock_steps_same; simp add: same_clock_def)+

lemma clock_steps_set_queue [simp]: "clock_steps cnt h (set_queue s h') = clock_steps cnt h h'" "clock_steps cnt (set_queue s h) h' = clock_steps cnt h h'"
  by (rule clock_steps_same; simp add: same_clock_def)+

lemma clock_steps_enter: "hrt_call_enter cnt e h = Some h' \<Longrightarrow> clock_steps cnt h h'"
  using clock_steps_reschedule [of cnt "set_queue (sq_addfirst e (queue h)) h"]
  by (auto simp: hrt_call_enter_def Let_def split: option.splits if_splits bind_splits)

lemma clock_steps_internal: "hrt_call_internal cnt e dl i fn a h = Some h' \<Longrightarrow> clock_steps cnt h h'"
  by (auto simp: hrt_call_internal_def Let_def split: if_splits bind_splits dest!: clock_steps_enter)

lemma clock_steps_do: "hrt_do cnt op h = Some h' \<Longrightarrow> clock_steps cnt h h'"
  by (cases op) (auto simp: hrt_call_after_def hrt_call_at_def hrt_call_every_def hrt_cancel_def hrt_call_delay_def hrt_call_init_def
      split_beta Let_def clock_steps_read same_clock_def split: bind_splits intro: clock_steps_trans [OF clock_steps_internal clock_steps_read]
      clock_steps_internal clock_steps.still)

end
