(* ===== verification/Hrt_Dispatch.thy ===== *)
theory Hrt_Dispatch
  imports Hrt_Calls
begin

text \<open>
  The dispatcher and the interrupt of the high resolution timer: what the callouts promise, what the dispatcher's loop keeps and
  achieves, and when it ends.
\<close>

section \<open>A clock that is read in time\<close>

definition steady :: "(nat \<Rightarrow> nat) \<Rightarrow> bool" where
  "steady cnt \<longleftrightarrow> (\<forall>k. cnt k \<le> cnt (Suc k)) \<and> (\<forall>k. cnt k + 50000 < 2 ^ 63)"

definition gaps :: "nat \<Rightarrow> (nat \<Rightarrow> nat) \<Rightarrow> nat \<Rightarrow> nat \<Rightarrow> bool" where
  "gaps G cnt i j \<longleftrightarrow> (\<forall>k. i \<le> k \<and> Suc k < j \<longrightarrow> cnt (Suc k) < cnt k + G)"

lemma gaps_sub: "gaps G cnt i j \<Longrightarrow> i \<le> i' \<Longrightarrow> j' \<le> j \<Longrightarrow> gaps G cnt i' j'"
  by (auto simp: gaps_def)

lemma steadyD: "steady cnt \<Longrightarrow> cnt k \<le> cnt (Suc k)" "steady cnt \<Longrightarrow> cnt k + 50000 < 2 ^ 63"
  by (auto simp: steady_def)

lemma gaps_mono: "gaps G cnt i j \<Longrightarrow> G \<le> G' \<Longrightarrow> gaps G' cnt i j"
  by (fastforce simp: gaps_def)

text \<open>The read with the number \<open>j\<close>, when the clock stands at \<open>t'\<close> after the reads from \<open>i\<close> to \<open>j\<close>.\<close>

lemma next_read_near:
  assumes "t' = (if i = j then t else cnt (j - 1))" "i \<le> j" "cnt i < t + 65536" "gaps 65536 cnt i n" "j < n"
  shows "cnt j < t' + 65536"
proof (cases "i = j")
  case False
  then have "i \<le> j - 1" "Suc (j - 1) = j" using assms(2) by simp_all
  then show ?thesis using assms False by (auto simp: gaps_def dest: spec [of _ "j - 1"])
qed (use assms in simp)

lemma clock_steps_ok:
  assumes "clock_steps cnt h h'" "steady cnt" "clock_ok cnt h t" "t \<le> cnt (cnt_reads h)"
    "cnt_reads h < cnt_reads h' \<Longrightarrow> cnt (cnt_reads h) < t + 65536" "gaps 65536 cnt (cnt_reads h) (cnt_reads h')"
  shows "\<exists>t'. clock_ok cnt h' t' \<and> t \<le> t' \<and> t' \<le> cnt (cnt_reads h') \<and>
     t' = (if cnt_reads h = cnt_reads h' then t else cnt (cnt_reads h' - 1))"
  using assms
proof (induction rule: clock_steps.induct)
  case (still h h')
  then show ?case by (auto simp: clock_ok_def clock_at_same) (simp_all add: same_clock_def)
next
  case (step h g h')
  have r: "cnt_reads h' = cnt_reads g + 1" using step.hyps(2) by (simp add: read_clock_def same_clock_def)
  obtain t1 where t1: "clock_ok cnt g t1" "t \<le> t1" "t1 \<le> cnt (cnt_reads g)"
    "t1 = (if cnt_reads h = cnt_reads g then t else cnt (cnt_reads g - 1))"
    using step.IH step.prems r gaps_sub [OF step.prems(5), of "cnt_reads h" "cnt_reads g"] clock_steps_reads [OF step.hyps(1)] by auto
  have near: "cnt (cnt_reads g) < t1 + 65536"
    using t1(4) clock_steps_reads [OF step.hyps(1)] step.prems(4) step.prems(5) r by (intro next_read_near [of t1]) auto
  have b: "cnt (cnt_reads g) + 50000 < 2 ^ 64" using steadyD(2) [OF step.prems(1), of "cnt_reads g"] by simp
  have "clock_ok cnt h' (cnt (cnt_reads g))" using step.hyps(2) t1(1) t1(3) near b by (rule read_clock_ok(1))
  then show ?case using r t1 steadyD(1) [OF step.prems(1), of "cnt_reads g"] clock_steps_reads [OF step.hyps(1)]
    by (auto intro!: exI [of _ "cnt (cnt_reads g)"])
qed

text \<open>Induction over the passes of the dispatcher's loop.\<close>

lemma invoke_induct [consumes 1, case_names leave again]:
  assumes "hrt_call_invoke run cnt h = Some h'"
    and leave: "\<And>h h'. invoke_one run cnt h = Some (Inl h') \<Longrightarrow> P h h'"
    and again: "\<And>h g h'. invoke_one run cnt h = Some (Inr g) \<Longrightarrow> hrt_call_invoke run cnt g = Some h' \<Longrightarrow> P g h' \<Longrightarrow> P h h'"
  shows "P h h'"
proof -
  have "hrt_call_invoke r c h = Some h' \<Longrightarrow> r = run \<Longrightarrow> c = cnt \<Longrightarrow> hrt_call_invoke run cnt h = Some h' \<and> P h h'" for r c
  proof (induction rule: hrt_call_invoke.raw_induct [rotated, consumes 1, case_names body])
    case (body rec r c h h')
    have h: "hrt_call_invoke run cnt h = Some h'" if "invoke_one run cnt h = Some (Inl h')"
      using that by (subst hrt_call_invoke.simps) simp
    have g: "hrt_call_invoke run cnt h = hrt_call_invoke run cnt g" if "invoke_one run cnt h = Some (Inr g)" for g
      using that by (subst hrt_call_invoke.simps) simp
    from body.hyps show ?case unfolding body.prems
    proof (auto split: option.splits sum.splits, goal_cases)
      case 1
      then show ?case by (rule h)
    next
      case 2
      then show ?case by (rule leave)
    next
      case (3 g)
      then show ?case using g body.IH [of run cnt g h'] by simp
    next
      case (4 g)
      then show ?case using again [of h g h'] body.IH [of run cnt g h'] by simp
    qed
  qed
  then show ?thesis using assms(1) by blast
qed

section \<open>Other steps of the clock\<close>

lemma clock_steps_ppm_upd [simp]: "clock_steps cnt g (h\<lparr>ppm := p\<rparr>) = clock_steps cnt g h" "clock_steps cnt (h\<lparr>ppm := p\<rparr>) g = clock_steps cnt h g"
  by (rule clock_steps_same; simp add: same_clock_def)+

lemma clock_steps_ppm: "clock_steps cnt h (hrt_ppm_decode B cnt status h)"
proof -
  have "clock_steps cnt h (snd (hrt_absolute_time cnt (h\<lparr>ppm := p\<rparr>)))" for p
    using clock_steps_read [of cnt "h\<lparr>ppm := p\<rparr>"] by simp
  then show ?thesis by (auto simp: hrt_ppm_decode_def ppm_start_def Let_def split_beta)
qed

lemma clock_steps_tim [simp]: "clock_steps cnt g (h\<lparr>tim := p\<rparr>) = clock_steps cnt g h" "clock_steps cnt (h\<lparr>tim := p\<rparr>) g = clock_steps cnt h g"
  by (rule clock_steps_same; simp add: same_clock_def)+

lemma clock_steps_edge: "clock_steps cnt h (isr_edge B cnt status h)"
  using clock_steps_ppm [of cnt "h\<lparr>tim := r\<rparr>" B status for r] clock_steps_ppm [of cnt h B status]
  by (auto simp: isr_edge_def Let_def)

lemma clock_steps_latency [simp]: "clock_steps cnt (hrt_latency_update h) h' = clock_steps cnt h h'"
  by (rule clock_steps_same; simp add: same_clock_def hrt_latency_update_def Let_def)

text \<open>The interrupt's own operations leave the queue of callouts alone.\<close>

definition same_calls :: "hrt \<Rightarrow> hrt \<Rightarrow> bool" where
  "same_calls h h' \<longleftrightarrow> call_links h' = call_links h \<and> callout_queue h' = callout_queue h \<and> calls h' = calls h"

lemma same_calls_holds: "same_calls h h' \<Longrightarrow> queued h' p = queued h p"
  unfolding same_calls_def by (intro queued_cong) simp_all

lemma same_calls_ack: "same_calls h (snd (isr_ack cnt h))"
  by (simp add: same_calls_def isr_ack_def rCNT_def Let_def)

lemma same_calls_edge: "same_calls h (isr_edge B cnt status h)"
  by (simp add: same_calls_def isr_edge_def hrt_ppm_decode_def ppm_start_def Let_def split_beta)

lemma same_calls_latency: "same_calls h (hrt_latency_update h)"
  by (simp add: same_calls_def hrt_latency_update_def Let_def)

lemma ack_clock:
  "base_time (snd (isr_ack cnt h)) = base_time h" "last_count (snd (isr_ack cnt h)) = last_count h"
  "hrt_match (snd (isr_ack cnt h)) = hrt_match h" "cnt_reads (snd (isr_ack cnt h)) = cnt_reads h + 1"
  by (simp_all add: isr_ack_def rCNT_def Let_def)

lemma next_deadline_nonzero:
  fixes dl now i :: u64
  assumes "dl \<le> now" "now < 2 ^ 63" "i < 2 ^ 63" "i \<noteq> 0"
  shows "dl + i \<noteq> 0"
proof -
  have "unat dl < 2 ^ 63" "unat i < 2 ^ 63" "unat i \<noteq> 0"
    using assms by (simp_all add: word_less_nat_alt word_le_nat_alt unat_eq_0)
  then have "unat (dl + i) \<noteq> 0" by (simp add: unat_word_ariths)
  then show ?thesis by auto
qed

lemma steady_mono: "steady cnt \<Longrightarrow> i \<le> j \<Longrightarrow> cnt i \<le> cnt j"
  by (auto simp: steady_def intro: lift_Suc_mono_le)

lemma not_due:
  assumes "queued h p" "p = [] \<or> fst (hrt_absolute_time cnt h) < deadline (snd (hd p))"
  shows "invoke_one run cnt h = Some (Inl (snd (hrt_absolute_time cnt h)))"
proof -
  obtain n g where g: "hrt_absolute_time cnt h = (n, g)" by force
  have "queued g p" using assms(1) hrt_absolute_time_frame(3-5) [of cnt h] g by (subst queued_cong) simp_all
  then show ?thesis using queued_peek [of g p] assms(2) by (cases p) (auto simp: invoke_one_def g queued_def)
qed

section \<open>The callouts\<close>

text \<open>
  A callout goes through the interface of the module, so it leaves the clock right and the queue whole; and when its own entry is
  periodic afterwards, it has not queued it itself: the dispatcher will.
\<close>

locale callout_contract =
  fixes run :: callouts and cnt :: "nat \<Rightarrow> nat"
  assumes run_clock: "run fn a h = Some h' \<Longrightarrow> clock_steps cnt h h'"
    and run_queue: "queued h p \<Longrightarrow> c \<notin> fst ` set p \<Longrightarrow> callout (calls h c) = Some fn \<Longrightarrow> period (calls h c) < 2 ^ 63 \<Longrightarrow>
      run fn (call_arg (calls h c)) h = Some h' \<Longrightarrow>
      \<exists>q. queued h' q \<and> (period (calls h' c) \<noteq> 0 \<longrightarrow> c \<notin> fst ` set q \<and> period (calls h' c) < 2 ^ 63)"
begin

lemma reenter_clock: "reenter_call cnt now dl c h = Some h' \<Longrightarrow> clock_steps cnt h h'"
  by (auto simp: reenter_call_def Let_def split: if_splits dest: clock_steps_enter)

lemma invoke_one_clock:
  assumes "invoke_one run cnt h = Some r"
  shows "clock_steps cnt (snd (hrt_absolute_time cnt h)) (case r of Inl h' \<Rightarrow> h' | Inr h' \<Rightarrow> h')"
proof (cases r)
  case (Inl h')
  then show ?thesis using assms
    by (auto simp: invoke_one_def split_beta Let_def split: option.splits if_splits bind_splits)
next
  case (Inr h')
  obtain now g where g: "hrt_absolute_time cnt h = (now, g)" by force
  from assms obtain c dl g1 g2 where "pop_call c g = Some g1" "call_out run c g1 = Some g2" "reenter_call cnt now dl c g2 = Some h'"
    unfolding Inr by (auto simp: invoke_one_def g Let_def split: option.splits if_splits bind_splits)
  moreover from this(1) have "clock_steps cnt g g1" by (auto simp: pop_call_def split: bind_splits)
  moreover have "clock_steps cnt g1 g2" if "call_out run c g1 = Some g2"
    using that by (auto simp: call_out_def split: option.splits dest: run_clock)
  ultimately show ?thesis unfolding Inr by (auto simp: g intro: clock_steps_trans dest!: reenter_clock)
qed

lemma invoke_clock: "hrt_call_invoke run cnt h = Some h' \<Longrightarrow> clock_steps cnt h h'"
  by (induction rule: invoke_induct)
    (auto dest!: invoke_one_clock intro: clock_steps_trans [OF _ clock_steps_read] clock_steps_trans
      [OF _ clock_steps_trans [OF _ clock_steps_read]])

lemma invoke_reads: "hrt_call_invoke run cnt h = Some h' \<Longrightarrow> cnt_reads h < cnt_reads h'"
  by (induction rule: invoke_induct) (fastforce dest!: invoke_one_clock clock_steps_reads)+

text \<open>One pass keeps the queue whole, and leaves the loop only when nothing is due.\<close>

lemma reenter_holds:
  assumes h: "queued h q" "period (calls h c) \<noteq> 0 \<Longrightarrow> c \<notin> fst ` set q \<and> period (calls h c) < 2 ^ 63"
    and d: "dl \<le> now" "now < 2 ^ 63" and r: "reenter_call cnt now dl c h = Some h'"
  shows "\<exists>q'. queued h' q'"
proof (cases "period (calls h c) = 0")
  case True
  then show ?thesis using r h(1) by (auto simp: reenter_call_def)
next
  case False
  define g where "g = (if deadline (calls h c) \<le> now then upd_call c (\<lambda>c. c\<lparr>deadline := dl + period c\<rparr>) h else h)"
  have c: "c \<notin> fst ` set q" "period (calls h c) < 2 ^ 63" using h(2) False by simp_all
  have "queued g q" using h(1) c(1) by (simp add: g_def queued_upd_call)
  moreover have "deadline (calls g c) \<noteq> 0"
  proof (cases "deadline (calls h c) \<le> now")
    case True
    then show ?thesis using next_deadline_nonzero [OF d c(2) False] by (simp add: g_def)
  next
    case False
    then show ?thesis by (auto simp: g_def)
  qed
  moreover have "period (calls g c) < 2 ^ 63" using c(2) by (simp add: g_def)
  ultimately obtain h'' where "hrt_call_enter cnt c g = Some h''" "queued h'' (add_entry c (calls g c) q)"
    using enter_entry [of g q c cnt] c(1) by blast
  then show ?thesis using r False by (auto simp: reenter_call_def g_def Let_def)
qed

lemma invoke_one_holds:
  assumes h: "queued h p" and now: "fst (hrt_absolute_time cnt h) < 2 ^ 63" and r: "invoke_one run cnt h = Some r"
  shows "case r of Inl h' \<Rightarrow> queued h' p \<and> h' = snd (hrt_absolute_time cnt h) \<and> (\<forall>x \<in> set p. fst (hrt_absolute_time cnt h) < deadline (snd x))
    | Inr h' \<Rightarrow> \<exists>q. queued h' q"
proof -
  obtain now g where g: "hrt_absolute_time cnt h = (now, g)" by force
  have hg: "queued g p" using h hrt_absolute_time_frame(3-5) [of cnt h] g by (subst queued_cong) simp_all
  show ?thesis
  proof (cases p)
    case Nil
    then show ?thesis using r hg queued_peek [OF hg] by (auto simp: invoke_one_def g)
  next
    case (Cons x ps)
    have pk: "sq_peek (callout_queue g) = Some (fst x)" using queued_peek [OF hg] Cons by simp
    have cx: "calls g (fst x) = snd x" using hg Cons by (simp add: queued_def)
    have "pending_ok p" using h by (simp add: queued_def)
    then have px: "period (snd x) < 2 ^ 63" "\<forall>y \<in> set p. deadline (snd x) \<le> deadline (snd y)"
      using Cons by (auto simp: pending_ok_def)
    show ?thesis
    proof (cases "now < deadline (snd x)")
      case True
      then show ?thesis using r hg pk cx less_le_trans [OF True] px(2) by (auto simp: invoke_one_def g)
    next
      case False
      then obtain g1 g2 h' where s: "pop_call (fst x) g = Some g1" "call_out run (fst x) g1 = Some g2"
        "reenter_call cnt now (deadline (snd x)) (fst x) g2 = Some h'" "r = Inr h'"
        using r pk cx by (auto simp: invoke_one_def g split: bind_splits)
      have q: "queued g1 (drop_entry (fst x) p)"
        using s(1) rem_entry [OF hg, of "fst x"] by (auto simp: pop_call_def queued_upd_call drop_entry_gone)
      have c1: "calls g1 (fst x) = (snd x)\<lparr>deadline := 0\<rparr>" using s(1) cx by (auto simp: pop_call_def split: bind_splits)
      have "\<exists>q'. queued g2 q' \<and> (period (calls g2 (fst x)) \<noteq> 0 \<longrightarrow> fst x \<notin> fst ` set q' \<and> period (calls g2 (fst x)) < 2 ^ 63)"
      proof (cases "callout (calls g1 (fst x))")
        case None
        then show ?thesis using s(2) q drop_entry_gone [of "fst x" p] c1 px(1) by (auto simp: call_out_def)
      next
        case (Some fn)
        then show ?thesis using run_queue [OF q drop_entry_gone Some, of g2] s(2) c1 px(1) by (simp add: call_out_def)
      qed
      then obtain q' where q': "queued g2 q'"
        "period (calls g2 (fst x)) \<noteq> 0 \<Longrightarrow> fst x \<notin> fst ` set q' \<and> period (calls g2 (fst x)) < 2 ^ 63" by blast
      have "deadline (snd x) \<le> now" "now < 2 ^ 63" using now False by (simp_all add: g)
      then show ?thesis using reenter_holds [OF q' _ _ s(3)] s(4) by simp
    qed
  qed
qed

lemma invoke_holds:
  assumes "hrt_call_invoke run cnt h = Some h'" "steady cnt" "queued h p" "clock_ok cnt h t" "t \<le> cnt (cnt_reads h)"
    "cnt (cnt_reads h) < t + 65536" "gaps 65536 cnt (cnt_reads h) (cnt_reads h')"
  shows "cnt_reads h < cnt_reads h' \<and> (\<exists>q. queued h' q \<and> (\<forall>x \<in> set q. cnt (cnt_reads h' - 1) < unat (deadline (snd x))))"
  using assms
proof (induction arbitrary: p t rule: invoke_induct)
  case (leave h h')
  have now: "fst (hrt_absolute_time cnt h) = of_nat (cnt (cnt_reads h))"
    using leave.prems(3-5) by (intro hrt_absolute_time_exact(1) [of h t]) (simp_all add: clock_ok_def)
  have b: "cnt (cnt_reads h) < 2 ^ 63" using steadyD(2) [OF leave.prems(1), of "cnt_reads h"] by simp
  then have u: "unat (fst (hrt_absolute_time cnt h)) = cnt (cnt_reads h)" by (simp add: now unat_of_nat)
  then have "fst (hrt_absolute_time cnt h) < 2 ^ 63" using b by (simp add: word_less_nat_alt)
  from invoke_one_holds [OF leave.prems(2) this leave.hyps] show ?case
    by (auto simp: u [symmetric] word_less_nat_alt)
next
  case (again h g h')
  have now: "fst (hrt_absolute_time cnt h) = of_nat (cnt (cnt_reads h))"
    using again.prems(3-5) by (intro hrt_absolute_time_exact(1) [of h t]) (simp_all add: clock_ok_def)
  have b: "cnt (cnt_reads h) < 2 ^ 63" using steadyD(2) [OF again.prems(1), of "cnt_reads h"] by simp
  then have "fst (hrt_absolute_time cnt h) < 2 ^ 63" by (simp add: now unat_of_nat word_less_nat_alt)
  from invoke_one_holds [OF again.prems(2) this again.hyps(1)] obtain q where q: "queued g q" by auto
  have cs0: "clock_steps cnt (snd (hrt_absolute_time cnt h)) g" using invoke_one_clock [OF again.hyps(1)] by simp
  have cs: "clock_steps cnt h g" using cs0 clock_steps_read by (rule clock_steps_trans)
  have r: "cnt_reads h < cnt_reads g" using clock_steps_reads [OF cs0] by simp
  have r': "cnt_reads g \<le> cnt_reads h'" using invoke_clock [OF again.hyps(2)] by (rule clock_steps_reads)
  obtain t' where t': "clock_ok cnt g t'" "t' \<le> cnt (cnt_reads g)" "t' = cnt (cnt_reads g - 1)"
    using clock_steps_ok [OF cs again.prems(1,3,4,5) gaps_sub [OF again.prems(6)]] r r' by auto
  have ih: "cnt_reads g < cnt_reads h' \<and> (\<exists>q. queued h' q \<and> (\<forall>x \<in> set q. cnt (cnt_reads h' - 1) < unat (deadline (snd x))))"
    if "cnt_reads g < cnt_reads h'"
  proof (rule again.IH [OF again.prems(1) q t'(1,2)])
    show "cnt (cnt_reads g) < t' + 65536"
      using again.prems(6) that r t'(3) by (auto simp: gaps_def dest: spec [of _ "cnt_reads g - 1"])
    show "gaps 65536 cnt (cnt_reads g) (cnt_reads h')" using again.prems(6) by (rule gaps_sub) (use r in simp_all)
  qed
  have "cnt_reads g < cnt_reads h'"
    using again.hyps(2) by (rule invoke_reads)
  then show ?case using ih r by simp
qed

text \<open>The interrupt as a whole.\<close>

lemma isr_clock: "hrt_tim_isr B run cnt h = Some h' \<Longrightarrow> clock_steps cnt (snd (isr_ack cnt h)) h'"
proof -
  assume i: "hrt_tim_isr B run cnt h = Some h'"
  obtain status g where g: "isr_ack cnt h = (status, g)" by force
  let ?e = "isr_edge B cnt status g"
  have e: "clock_steps cnt g ?e" by (rule clock_steps_edge)
  have "clock_steps cnt ?e h'" if v: "hrt_call_invoke run cnt (hrt_latency_update ?e) = Some v" "h' = hrt_call_reschedule cnt v" for v
  proof -
    have "clock_steps cnt (hrt_latency_update ?e) v" using v(1) by (rule invoke_clock)
    then show ?thesis using clock_steps_reschedule [of cnt v] v(2) by (auto intro: clock_steps_trans)
  qed
  then show ?thesis using i e by (auto simp: hrt_tim_isr_def g Let_def split: if_splits bind_splits intro: clock_steps_trans)
qed

lemma tick_holds:
  assumes v: "hrt_call_invoke run cnt l = Some v" and c: "steady cnt" "clock_ok cnt l t" "t \<le> cnt (cnt_reads l)"
    "cnt (cnt_reads l) < t + 65536" and g: "gaps 65536 cnt (cnt_reads l) (cnt_reads v + 1)" and h: "queued l p"
  shows "\<exists>q. queued (hrt_call_reschedule cnt v) q \<and> (\<forall>x \<in> set q. cnt (cnt_reads v - 1) < unat (deadline (snd x)))"
    and "hrt_match (hrt_call_reschedule cnt v) = wake_up (cnt (cnt_reads v)) (first_deadline v)"
proof -
  have gv: "gaps 65536 cnt (cnt_reads l) (cnt_reads v)" using g by (rule gaps_sub) simp_all
  obtain q where q: "queued v q" "\<forall>x \<in> set q. cnt (cnt_reads v - 1) < unat (deadline (snd x))"
    using invoke_holds [OF v c(1) h c(2-4) gv] by blast
  have "queued (hrt_call_reschedule cnt v) q" using q(1) by (simp add: queued_def)
  then show "\<exists>q. queued (hrt_call_reschedule cnt v) q \<and> (\<forall>x \<in> set q. cnt (cnt_reads v - 1) < unat (deadline (snd x)))"
    using q(2) by blast
  have sv: "clock_steps cnt l v" using v by (rule invoke_clock)
  obtain tv where tv: "clock_ok cnt v tv" "tv \<le> cnt (cnt_reads v)" "tv = (if cnt_reads l = cnt_reads v then t else cnt (cnt_reads v - 1))"
    using clock_steps_ok [OF sv c(1-3) _ gv] c(4) by auto
  have "cnt (cnt_reads v) < tv + 65536"
    using tv(3) clock_steps_reads [OF sv] c(4) g by (rule next_read_near) simp
  then show "hrt_match (hrt_call_reschedule cnt v) = wake_up (cnt (cnt_reads v)) (first_deadline v)"
    using tv steadyD(2) [OF c(1), of "cnt_reads v"] by (intro reschedule_wakes) (simp_all add: clock_ok_def)
qed

lemma isr_holds:
  assumes i: "hrt_tim_isr B run cnt h = Some h'" and c: "steady cnt" "clock_ok cnt h t" "t \<le> cnt (cnt_reads h)"
    "cnt (cnt_reads h) + G \<le> t + 65536" "G \<le> 65536" and g: "gaps G cnt (cnt_reads h) (cnt_reads h')" and h: "queued h p"
  shows "\<exists>q t'. queued h' q \<and> clock_ok cnt h' t' \<and> t' \<le> cnt (cnt_reads h') \<and>
    (has_flag (tim_SR (tim h)) (SR_INT_HRT B) \<longrightarrow> cnt_reads h + 2 < cnt_reads h' \<and>
      (\<forall>x \<in> set q. cnt (cnt_reads h' - 2) < unat (deadline (snd x))) \<and>
      hrt_match h' = wake_up (cnt (cnt_reads h' - 1)) (first_deadline h'))"
proof -
  obtain status g where a: "isr_ack cnt h = (status, g)" by force
  have st: "status = tim_SR (tim h)" using a by (auto simp: isr_ack_def rCNT_def Let_def)
  define e where "e = isr_edge B cnt status g"
  have rg: "cnt_reads g = cnt_reads h + 1" and kg: "clock_ok cnt g t"
    using ack_clock [of cnt h] c(2) a by (simp_all add: clock_ok_def clock_at_def)
  have tg: "t \<le> cnt (cnt_reads g)" using c(3) steadyD(1) [OF c(1), of "cnt_reads h"] rg by simp
  have gg: "gaps 65536 cnt (cnt_reads g) (cnt_reads h')"
    using gaps_mono [OF g c(5)] by (rule gaps_sub) (simp_all add: rg)
  have near: "cnt (cnt_reads g) < t + 65536" if "cnt_reads g < cnt_reads h'"
    using g that c(4) rg by (auto simp: gaps_def dest: spec [of _ "cnt_reads h"])
  have sg: "clock_steps cnt g h'" using isr_clock [OF i] a by simp
  obtain t' where t': "clock_ok cnt h' t'" "t' \<le> cnt (cnt_reads h')" using clock_steps_ok [OF sg c(1) kg tg near gg] by blast
  have he: "queued e p" using h same_calls_holds [OF same_calls_ack, of cnt h] same_calls_holds [OF same_calls_edge, of B cnt status g] a
    by (simp add: e_def)
  show ?thesis
  proof (cases "has_flag status (SR_INT_HRT B)")
    case False
    then have "h' = e" using i by (simp add: hrt_tim_isr_def a e_def)
    then show ?thesis using he t' False st by auto
  next
    case True
    define l where "l = hrt_latency_update e"
    obtain v where v: "hrt_call_invoke run cnt l = Some v" "h' = hrt_call_reschedule cnt v"
      using i True by (auto simp: hrt_tim_isr_def a e_def l_def split: bind_splits)
    have se: "clock_steps cnt g e" unfolding e_def by (rule clock_steps_edge)
    have l: "same_clock e l" "hrt_match l = hrt_match e" "queued l p"
      using he same_calls_holds [OF same_calls_latency] by (simp_all add: l_def same_clock_def hrt_latency_update_def Let_def)
    have rv: "cnt_reads e < cnt_reads v" "cnt_reads h' = cnt_reads v + 1"
      using invoke_reads [OF v(1)] l(1) v(2) by (simp_all add: same_clock_def)
    have rge: "cnt_reads g \<le> cnt_reads e" using se by (rule clock_steps_reads)
    have ge: "gaps 65536 cnt (cnt_reads g) (cnt_reads e)" using gg by (rule gaps_sub) (use rv in simp_all)
    have near': "cnt (cnt_reads g) < t + 65536" using near rge rv by simp
    obtain te where te: "clock_ok cnt e te" "te \<le> cnt (cnt_reads e)" "te = (if cnt_reads g = cnt_reads e then t else cnt (cnt_reads e - 1))"
      using clock_steps_ok [OF se c(1) kg tg near' ge] by blast
    have ne: "cnt (cnt_reads e) < te + 65536" using te(3) rge near' gg by (rule next_read_near) (use rv in simp)
    have cl: "clock_ok cnt l te" "cnt_reads l = cnt_reads e" using te(1) l(1,2) by (simp_all add: clock_ok_def clock_at_same) (simp add: same_clock_def)
    have gl: "gaps 65536 cnt (cnt_reads l) (cnt_reads v + 1)" using gg by (rule gaps_sub) (use rv rge cl in simp_all)
    have w: "te \<le> cnt (cnt_reads l)" "cnt (cnt_reads l) < te + 65536" using te(2) ne cl(2) by simp_all
    obtain q where q: "queued h' q" "\<forall>x \<in> set q. cnt (cnt_reads v - 1) < unat (deadline (snd x))"
      using tick_holds(1) [OF v(1) c(1) cl(1) w gl l(3)] v(2) by blast
    moreover have "hrt_match h' = wake_up (cnt (cnt_reads v)) (first_deadline h')"
      using tick_holds(2) [OF v(1) c(1) cl(1) w gl l(3)] v(2) by (simp add: first_deadline_def)
    ultimately show ?thesis using q(2) t' rv rge rg by auto
  qed
qed

end

section \<open>Callouts that leave the timer alone\<close>

text \<open>
  The passes of the loop one by one, and the number of passes that the entries due until a time \<open>T\<close> ask for.
\<close>

fun passes :: "callouts \<Rightarrow> (nat \<Rightarrow> nat) \<Rightarrow> nat \<Rightarrow> hrt \<Rightarrow> (hrt + hrt) option" where
  "passes run cnt 0 h = Some (Inr h)"
| "passes run cnt (Suc n) h = (case invoke_one run cnt h of
     None \<Rightarrow> None
   | Some (Inl h) \<Rightarrow> Some (Inl h)
   | Some (Inr h) \<Rightarrow> passes run cnt n h)"

lemma passes_end: "passes run cnt n h = Some (Inl h') \<Longrightarrow> hrt_call_invoke run cnt h = Some h'"
proof (induction n arbitrary: h)
  case (Suc n)
  then show ?case by (subst hrt_call_invoke.simps) (auto split: option.splits sum.splits)
qed simp

definition due_runs :: "nat \<Rightarrow> hrt_call \<Rightarrow> nat" where
  "due_runs T c = (if T < unat (deadline c) then 0
     else if period c = 0 then 1 else (T - unat (deadline c)) div unat (period c) + 1)"

definition workload :: "nat \<Rightarrow> pending \<Rightarrow> nat" where
  "workload T p = (\<Sum>x \<leftarrow> p. due_runs T (snd x))"

lemma workload_add: "workload T (add_entry e c p) = due_runs T c + workload T p"
proof -
  define P where "P = (\<lambda>x :: nat \<times> hrt_call. deadline (snd x) \<le> deadline c)"
  have "workload T p = workload T (takeWhile P p @ dropWhile P p)" by simp
  then have "workload T p = workload T (takeWhile P p) + workload T (dropWhile P p)" by (simp only: workload_def map_append sum_list_append)
  then show ?thesis by (simp add: add_entry_def P_def [symmetric] workload_def)
qed

text \<open>The queue after the first entry was run: a periodic one comes back a period after the deadline it had.\<close>

definition run_first :: "pending \<Rightarrow> pending" where
  "run_first p = (case p of [] \<Rightarrow> []
     | x # ps \<Rightarrow> if period (snd x) = 0 then ps else add_entry (fst x) ((snd x)\<lparr>deadline := deadline (snd x) + period (snd x)\<rparr>) ps)"

lemma due_runs_next:
  assumes "unat (deadline c) \<le> T" "unat (deadline c) < 2 ^ 63" "period c < 2 ^ 63" "period c \<noteq> 0"
  shows "due_runs T c = Suc (due_runs T (c\<lparr>deadline := deadline c + period c\<rparr>))"
proof -
  define d i where d: "d = unat (deadline c)" "i = unat (period c)"
  have u: "unat (deadline c + period c) = d + i" using assms by (simp add: d unat_word_ariths word_less_nat_alt)
  have i: "0 < i" using assms(4) by (simp add: d unat_gt_0)
  have "(T - d) div i = Suc ((T - (d + i)) div i)" if "d + i \<le> T"
  proof -
    have "T - d = i + (T - (d + i))" using that by simp
    then show ?thesis using i by (metis div_add_self1 Suc_eq_plus1 less_not_refl)
  qed
  moreover have "(T - d) div i = 0" if "T < d + i" using that assms(1) d by simp
  ultimately show ?thesis using assms(1,4) by (auto simp: due_runs_def u d [symmetric] not_less)
qed

lemma workload_run_first:
  assumes "pending_ok (x # ps)" "unat (deadline (snd x)) \<le> T" "unat (deadline (snd x)) < 2 ^ 63"
  shows "workload T (x # ps) = Suc (workload T (run_first (x # ps)))"
proof (cases "period (snd x) = 0")
  case True
  then show ?thesis using assms(2) by (simp add: run_first_def workload_def due_runs_def)
next
  case False
  have "period (snd x) < 2 ^ 63" using assms(1) by (simp add: pending_ok_def)
  then show ?thesis using due_runs_next [OF assms(2,3) _ False] False by (simp add: run_first_def workload_add) (simp add: workload_def)
qed

text \<open>The clock is right and is read at least once per counter period from here on.\<close>

definition punctual :: "(nat \<Rightarrow> nat) \<Rightarrow> hrt \<Rightarrow> bool" where
  "punctual cnt h \<longleftrightarrow> steady cnt \<and> (\<exists>t. clock_ok cnt h t \<and> t \<le> cnt (cnt_reads h) \<and> cnt (cnt_reads h) < t + 65536)
     \<and> (\<forall>j. gaps 65536 cnt (cnt_reads h) j)"

locale quiet_callouts =
  fixes run :: callouts and cnt :: "nat \<Rightarrow> nat"
  assumes run_quiet: "\<exists>h'. run fn a h = Some h' \<and> same_calls h h' \<and> clock_steps cnt h h'"
begin

lemma quiet_call_out:
  "\<exists>g. call_out run c h = Some g \<and> same_calls h g"
  using run_quiet by (auto simp: call_out_def same_calls_def split: option.split) metis

lemma quiet_pass:
  assumes h: "queued h (x # ps)" and d: "deadline (snd x) \<le> fst (hrt_absolute_time cnt h)" and now: "fst (hrt_absolute_time cnt h) < 2 ^ 63"
  shows "\<exists>g. invoke_one run cnt h = Some (Inr g) \<and> queued g (run_first (x # ps))"
proof -
  obtain n g where g: "hrt_absolute_time cnt h = (n, g)" by force
  have hg: "queued g (x # ps)" using h hrt_absolute_time_frame(3-5) [of cnt h] g by (subst queued_cong) simp_all
  have pk: "sq_peek (callout_queue g) = Some (fst x)" using queued_peek [OF hg] by simp
  have cx: "calls g (fst x) = snd x" using hg by (simp add: queued_def)
  have ok: "pending_ok (x # ps)" using h by (simp add: queued_def)
  then have px: "period (snd x) < 2 ^ 63" and fresh: "fst x \<notin> fst ` set ps" by (simp_all add: pending_ok_def)
  have dx: "drop_entry (fst x) (x # ps) = ps" using drop_entry_absent [OF fresh] by (simp add: drop_entry_def)
  obtain s where s: "sq_rem (Some (fst x)) (queue g) = Some s" "queued (set_queue s g) ps" using rem_entry [OF hg, of "fst x"] dx by auto
  define g1 where "g1 = upd_call (fst x) (\<lambda>c. c\<lparr>deadline := 0\<rparr>) (set_queue s g)"
  have g1: "pop_call (fst x) g = Some g1" "queued g1 ps" "calls g1 (fst x) = (snd x)\<lparr>deadline := 0\<rparr>"
    using s fresh cx by (simp_all add: pop_call_def g1_def queued_upd_call)
  obtain g2 where g2: "call_out run (fst x) g1 = Some g2" "same_calls g1 g2" using quiet_call_out by blast
  then have q: "queued g2 ps" "calls g2 (fst x) = (snd x)\<lparr>deadline := 0\<rparr>" using g1 by (simp_all add: same_calls_holds) (simp add: same_calls_def)
  have "\<exists>g3. reenter_call cnt n (deadline (snd x)) (fst x) g2 = Some g3 \<and> queued g3 (run_first (x # ps))"
  proof (cases "period (snd x) = 0")
    case True
    then show ?thesis using q by (simp add: reenter_call_def run_first_def)
  next
    case False
    let ?u = "upd_call (fst x) (\<lambda>c. c\<lparr>deadline := deadline (snd x) + period c\<rparr>) g2"
    have "deadline (snd x) + period (snd x) \<noteq> 0" using d now px False by (intro next_deadline_nonzero) simp_all
    then show ?thesis using enter_entry [of ?u ps "fst x" cnt] fresh q px False
      by (auto simp: reenter_call_def run_first_def queued_upd_call Let_def)
  qed
  then show ?thesis using g1(1) g2(1) pk cx d by (auto simp: invoke_one_def g)
qed

end

sublocale quiet_callouts \<subseteq> callout_contract
proof
  show "clock_steps cnt h h'" if "run fn a h = Some h'" for fn a h h'
    using that run_quiet [of fn a h] by auto
  show "\<exists>q. queued h' q \<and> (period (calls h' c) \<noteq> 0 \<longrightarrow> c \<notin> fst ` set q \<and> period (calls h' c) < 2 ^ 63)"
    if "queued h p" "c \<notin> fst ` set p" "period (calls h c) < 2 ^ 63" "run fn (call_arg (calls h c)) h = Some h'" for h p c fn h'
    using that run_quiet [of fn "call_arg (calls h c)" h] same_calls_holds [of h h' p] by (auto simp: same_calls_def)
qed

context quiet_callouts
begin

lemma passes_reads: "passes run cnt n h = Some (Inr g) \<Longrightarrow> cnt_reads h \<le> cnt_reads g"
proof (induction n arbitrary: h)
  case (Suc n)
  then obtain g1 where "invoke_one run cnt h = Some (Inr g1)" "cnt_reads g1 \<le> cnt_reads g" by (auto split: option.splits sum.splits)
  then show ?case using clock_steps_reads [OF invoke_one_clock, of h "Inr g1"] by simp
qed simp

lemma quiet_step:
  assumes h: "queued h p" and k: "punctual cnt h"
  shows "(\<exists>h'. invoke_one run cnt h = Some (Inl h')) \<or> (\<exists>g x ps. invoke_one run cnt h = Some (Inr g) \<and> p = x # ps \<and>
    unat (deadline (snd x)) \<le> cnt (cnt_reads h) \<and> queued g (run_first p) \<and> punctual cnt g)"
proof (cases "p = [] \<or> fst (hrt_absolute_time cnt h) < deadline (snd (hd p))")
  case True
  then show ?thesis using not_due [OF h] by blast
next
  case False
  then obtain x ps where p: "p = x # ps" "deadline (snd x) \<le> fst (hrt_absolute_time cnt h)" by (cases p) auto
  obtain t where t: "steady cnt" "clock_ok cnt h t" "t \<le> cnt (cnt_reads h)" "cnt (cnt_reads h) < t + 65536"
    "\<And>j. gaps 65536 cnt (cnt_reads h) j" using k by (auto simp: punctual_def)
  have now: "fst (hrt_absolute_time cnt h) = of_nat (cnt (cnt_reads h))"
    using t(2-4) by (intro hrt_absolute_time_exact(1) [of h t]) (simp_all add: clock_ok_def)
  have b: "cnt (cnt_reads h) < 2 ^ 63" using steadyD(2) [OF t(1), of "cnt_reads h"] by simp
  then have u: "unat (fst (hrt_absolute_time cnt h)) = cnt (cnt_reads h)" by (simp add: now unat_of_nat)
  then have "fst (hrt_absolute_time cnt h) < 2 ^ 63" using b by (simp add: word_less_nat_alt)
  then obtain g where g: "invoke_one run cnt h = Some (Inr g)" "queued g (run_first p)" using quiet_pass [of h x ps] h p by auto
  have "clock_steps cnt (snd (hrt_absolute_time cnt h)) g" using invoke_one_clock [OF g(1)] by simp
  then have cs: "clock_steps cnt h g" using clock_steps_read by (rule clock_steps_trans)
  obtain t' where t': "clock_ok cnt g t'" "t' \<le> cnt (cnt_reads g)" "t' = (if cnt_reads h = cnt_reads g then t else cnt (cnt_reads g - 1))"
    using clock_steps_ok [OF cs t] by blast
  have "cnt (cnt_reads g) < t' + 65536"
    using t'(3) clock_steps_reads [OF cs] t(4,5) by (rule next_read_near) (rule lessI)
  then have "punctual cnt g" using t' t(1) gaps_sub [OF t(5) clock_steps_reads [OF cs] order_refl] by (auto simp: punctual_def)
  moreover have "unat (deadline (snd x)) \<le> cnt (cnt_reads h)" using p(2) u by (simp add: word_le_nat_alt)
  ultimately show ?thesis using g p(1) by blast
qed

text \<open>Before the time \<open>T\<close> there are no more passes than the entries due until \<open>T\<close> ask for, and so the loop ends.\<close>

lemma passes_bounded:
  "passes run cnt n h = Some (Inr g) \<Longrightarrow> queued h p \<Longrightarrow> punctual cnt h \<Longrightarrow> cnt (cnt_reads g) \<le> T \<Longrightarrow> n \<le> workload T p"
proof (induction n arbitrary: h p)
  case (Suc n)
  obtain g1 x ps where g1: "invoke_one run cnt h = Some (Inr g1)" "p = x # ps" "unat (deadline (snd x)) \<le> cnt (cnt_reads h)"
    "queued g1 (run_first p)" "punctual cnt g1" using quiet_step [OF Suc.prems(2,3)] Suc.prems(1) by auto
  have r: "steady cnt" using Suc.prems(3) by (simp add: punctual_def)
  have "cnt (cnt_reads h) \<le> T" using steady_mono [OF r passes_reads [OF Suc.prems(1)]] Suc.prems(4) by simp
  moreover have "cnt (cnt_reads h) < 2 ^ 63" using steadyD(2) [OF r, of "cnt_reads h"] by simp
  ultimately have "workload T p = Suc (workload T (run_first p))"
    using workload_run_first [of x ps T] g1(2,3) Suc.prems(2) by (simp add: queued_def)
  then show ?case using Suc.IH [of g1] g1(1,4,5) Suc.prems(1,4) by simp
qed simp

lemma passes_return: "queued h p \<Longrightarrow> punctual cnt h \<Longrightarrow> \<exists>r. passes run cnt n h = Some r"
proof (induction n arbitrary: h p)
  case (Suc n)
  then show ?case using quiet_step [OF Suc.prems] by fastforce
qed simp

lemma invoke_ends:
  assumes h: "queued h p" "punctual cnt h"
    and T: "\<And>g. passes run cnt (Suc (workload T p)) h = Some (Inr g) \<Longrightarrow> cnt (cnt_reads g) \<le> T"
  shows "\<exists>h'. hrt_call_invoke run cnt h = Some h'"
proof -
  obtain r where r: "passes run cnt (Suc (workload T p)) h = Some r" using passes_return [OF h] by blast
  show ?thesis
  proof (cases r)
    case (Inl h')
    then show ?thesis using passes_end r by blast
  next
    case (Inr g)
    then have "Suc (workload T p) \<le> workload T p" using passes_bounded [OF _ h] r T by blast
    then show ?thesis by simp
  qed
qed

end

end
