(* ===== verification/Hrt_System.thy ===== *)
theory Hrt_System
  imports Hrt_Dispatch
begin

text \<open>
  The high resolution timer at work: callouts that are sequences of operations of the module itself, the runs of the whole module from
  its start, and the properties of its time, of its queue and of its interrupt.
\<close>

section \<open>Callouts made of operations\<close>

text \<open>
  A callout that schedules one-shot calls and cancels calls, its own entry included. A callout that would enter a deadline of 0, or
  that changes an entry behind the back of the queue, is outside of the contract: it has no result here.
\<close>

fun one_shot_ok :: "(nat \<Rightarrow> nat) \<Rightarrow> hrt_op \<Rightarrow> hrt \<Rightarrow> bool" where
  "one_shot_ok cnt Op_Time h = True"
| "one_shot_ok cnt (Op_After e d fn a) h = (fst (hrt_absolute_time cnt h) + d \<noteq> 0)"
| "one_shot_ok cnt (Op_At e t fn a) h = (t \<noteq> 0)"
| "one_shot_ok cnt (Op_Cancel e) h = True"
| "one_shot_ok cnt _ h = False"

fun run_script :: "(nat \<Rightarrow> nat) \<Rightarrow> hrt_op list \<Rightarrow> hrt \<Rightarrow> hrt option" where
  "run_script cnt [] h = Some h"
| "run_script cnt (op # ops) h = (if one_shot_ok cnt op h then do { h \<leftarrow> hrt_do cnt op h; run_script cnt ops h } else None)"

definition script_callouts :: "(nat \<Rightarrow> u32 \<Rightarrow> hrt_op list) \<Rightarrow> (nat \<Rightarrow> nat) \<Rightarrow> callouts" where
  "script_callouts S cnt fn a h = run_script cnt (S fn a) h"

definition own_entry_ok :: "nat \<Rightarrow> hrt \<Rightarrow> pending \<Rightarrow> bool" where
  "own_entry_ok c h p \<longleftrightarrow> queued h p \<and> period (calls h c) < 2 ^ 63 \<and> (c \<in> fst ` set p \<longrightarrow> period (calls h c) = 0)"

lemma fst_add_entry: "fst ` set (add_entry e c p) = insert e (fst ` set p)"
  by simp

lemma fst_drop_entry: "fst ` set (drop_entry e p) = fst ` set p - {e}"
  by (auto simp: drop_entry_def)

lemma one_shot_step:
  assumes o: "one_shot_ok cnt op h" and i: "own_entry_ok c h p" and r: "hrt_do cnt op h = Some h'"
  shows "\<exists>q. own_entry_ok c h' q"
proof -
  have h: "queued h p" and c: "period (calls h c) < 2 ^ 63" "c \<in> fst ` set p \<Longrightarrow> period (calls h c) = 0"
    using i by (simp_all add: own_entry_ok_def)
  have t: "queued (snd (hrt_absolute_time cnt h)) p" using h by (subst queued_cong) simp_all
  have internal: "\<exists>q. own_entry_ok c h' q" if "queued g p" "calls g = calls h" "hrt_call_internal cnt e dl 0 fn a g = Some h'" "dl \<noteq> 0" for g e dl fn a
  proof -
    let ?q = "add_entry e \<lparr> deadline = dl, period = 0, callout = fn, call_arg = a \<rparr> (drop_entry e p)"
    have "queued h' ?q" "calls h' = (calls h)(e := \<lparr> deadline = dl, period = 0, callout = fn, call_arg = a \<rparr>)"
      using call_internal_holds [OF that(1,4), of 0 cnt e fn a] that(2,3) by auto
    then have "own_entry_ok c h' ?q" using c unfolding own_entry_ok_def fst_add_entry fst_drop_entry by auto
    then show ?thesis by blast
  qed
  show ?thesis
  proof (cases op)
    case Op_Time
    then have "h' = snd (hrt_absolute_time cnt h)" using r by simp
    then have "own_entry_ok c h' p" using t c by (simp add: own_entry_ok_def)
    then show ?thesis by blast
  next
    case (Op_After e d fn a)
    then show ?thesis using internal [OF t] r o by (simp add: hrt_call_after_def split_beta Let_def)
  next
    case (Op_At e d fn a)
    then show ?thesis using internal [OF h] r o by (simp add: hrt_call_at_def)
  next
    case (Op_Cancel e)
    obtain s where "sq_rem (Some e) (queue h) = Some s" "queued (set_queue s h) (drop_entry e p)" using rem_entry [OF h] by blast
    moreover from this(1) have "h' = upd_call e (\<lambda>c. c\<lparr>deadline := 0, period := 0\<rparr>) (set_queue s h)"
      using Op_Cancel r by (simp add: hrt_cancel_def)
    ultimately have "own_entry_ok c h' (drop_entry e p)" using c
      by (cases "c = e") (simp_all add: own_entry_ok_def queued_upd_call drop_entry_gone fst_drop_entry)
    then show ?thesis by blast
  qed (use o in simp_all)
qed

lemma run_script_ok: "own_entry_ok c h p \<Longrightarrow> run_script cnt ops h = Some h' \<Longrightarrow> \<exists>q. own_entry_ok c h' q"
  by (induction ops arbitrary: h p) (fastforce dest: one_shot_step split: if_splits bind_splits)+

lemma run_script_clock: "run_script cnt ops h = Some h' \<Longrightarrow> clock_steps cnt h h'"
  by (induction ops arbitrary: h) (auto split: if_splits bind_splits dest: clock_steps_do intro: clock_steps_trans)

interpretation scripts: callout_contract "script_callouts S cnt" cnt
  for S cnt
proof
  show "clock_steps cnt h h'" if "script_callouts S cnt fn a h = Some h'" for fn a h h'
    using that by (simp add: script_callouts_def run_script_clock)
  show "\<exists>q. queued h' q \<and> (period (calls h' c) \<noteq> 0 \<longrightarrow> c \<notin> fst ` set q \<and> period (calls h' c) < 2 ^ 63)"
    if "queued h p" "c \<notin> fst ` set p" "period (calls h c) < 2 ^ 63" "script_callouts S cnt fn (call_arg (calls h c)) h = Some h'" for h p c fn h'
  proof -
    have "own_entry_ok c h p" using that(1-3) by (simp add: own_entry_ok_def)
    from run_script_ok [OF this, of cnt "S fn (call_arg (calls h c))" h'] that(4)
    obtain q where "own_entry_ok c h' q" by (auto simp: script_callouts_def)
    then show ?thesis by (auto simp: own_entry_ok_def intro!: exI [of _ q])
  qed
qed

text \<open>The callouts of PX4IO (the safety button and the two lamps) do not use the timer at all.\<close>

definition idle_callouts :: callouts where
  "idle_callouts fn a h = Some h"

interpretation idle: quiet_callouts idle_callouts cnt
  for cnt
  by unfold_locales (simp add: idle_callouts_def same_calls_def)

section \<open>Runs of the module\<close>

text \<open>
  The clients and the interrupt in any order. The interrupt comes with a status and a captured value that the hardware has set. The
  processor serves the compare interrupt at most \<open>L\<close> microseconds after the match, so no operation starts later than that, and the
  reads of one operation are less than \<open>G\<close> microseconds apart.
\<close>

definition in_time :: "nat \<Rightarrow> nat \<Rightarrow> (nat \<Rightarrow> nat) \<Rightarrow> hrt \<Rightarrow> hrt \<Rightarrow> bool" where
  "in_time L G cnt h h' \<longleftrightarrow> (cnt_reads h < cnt_reads h' \<longrightarrow> cnt (cnt_reads h) \<le> hrt_match h + L) \<and> gaps G cnt (cnt_reads h) (cnt_reads h')"

definition signal :: "u32 \<Rightarrow> u32 \<Rightarrow> hrt \<Rightarrow> hrt" where
  "signal sr v h = h\<lparr>tim := (tim h)\<lparr>tim_SR := sr, rCCR_PPM := v\<rparr>\<rparr>"

inductive hrt_reach :: "hrt_board \<Rightarrow> callouts \<Rightarrow> (nat \<Rightarrow> nat) \<Rightarrow> nat \<Rightarrow> nat \<Rightarrow> hrt \<Rightarrow> bool" for B run cnt L G where
  start: "hrt_reach B run cnt L G (hrt_init B (hrt_reset c f r))"
| client: "hrt_reach B run cnt L G h \<Longrightarrow> queued h p \<Longrightarrow> op_fine (fst (hrt_absolute_time cnt h)) p op \<Longrightarrow>
    hrt_do cnt op h = Some h' \<Longrightarrow> in_time L G cnt h h' \<Longrightarrow> hrt_reach B run cnt L G h'"
| interrupt: "hrt_reach B run cnt L G h \<Longrightarrow> hrt_tim_isr B run cnt (signal sr v h) = Some h' \<Longrightarrow> in_time L G cnt h h' \<Longrightarrow>
    hrt_reach B run cnt L G h'"

lemma signal_fields [simp]:
  "cnt_reads (signal sr v h) = cnt_reads h" "hrt_match (signal sr v h) = hrt_match h" "queued (signal sr v h) p = queued h p"
  "clock_at (signal sr v h) t = clock_at h t" "tim_SR (tim (signal sr v h)) = sr"
  by (simp_all add: signal_def queued_def clock_at_def)

context callout_contract
begin

lemma hrt_reach_ok:
  assumes "hrt_reach B run cnt L G h" and c: "steady cnt" "L + G < 15536"
  shows "\<exists>p t. queued h p \<and> clock_ok cnt h t \<and> t \<le> cnt (cnt_reads h)"
  using assms(1)
proof (induction rule: hrt_reach.induct)
  case (start d f r)
  have "queued (hrt_init B (hrt_reset d f r)) []"
    by (simp add: hrt_init_def hrt_tim_init_def hrt_reset_def queued_def queue_of_init pending_ok_def)
  moreover have "clock_ok cnt (hrt_init B (hrt_reset d f r)) 0"
    by (simp add: hrt_init_def hrt_tim_init_def hrt_reset_def clock_ok_def clock_at_def)
  ultimately show ?case by blast
next
  case (client h p op h')
  obtain t where t: "clock_ok cnt h t" "t \<le> cnt (cnt_reads h)" using client.IH by blast
  have cs: "clock_steps cnt h h'" using client.hyps(4) by (rule clock_steps_do)
  have "cnt (cnt_reads h) < t + 65536" if "cnt_reads h < cnt_reads h'"
    using client.hyps(5) that t(1) c(2) by (simp add: in_time_def clock_ok_def)
  moreover have "gaps 65536 cnt (cnt_reads h) (cnt_reads h')"
    using client.hyps(5) c(2) by (auto simp: in_time_def intro: gaps_mono)
  ultimately obtain t' where "clock_ok cnt h' t'" "t' \<le> cnt (cnt_reads h')" using clock_steps_ok [OF cs c(1) t] by blast
  then show ?case using hrt_do_holds [OF client.hyps(2,3)] client.hyps(4) by auto
next
  case (interrupt h sr v h')
  obtain t p where t: "clock_ok cnt h t" "t \<le> cnt (cnt_reads h)" "queued h p" using interrupt.IH by blast
  have "cnt_reads h < cnt_reads h'"
    using clock_steps_reads [OF isr_clock [OF interrupt.hyps(2)]] by (simp add: ack_clock)
  then have n: "cnt (cnt_reads h) + G \<le> t + 65536" "G \<le> 65536"
    using interrupt.hyps(3) t(1) c(2) by (simp_all add: in_time_def clock_ok_def)
  show ?case using isr_holds [OF interrupt.hyps(2) c(1), of t G p] t n interrupt.hyps(3)
    by (auto simp: clock_ok_def in_time_def)
qed

end

section \<open>Time, queue and interrupt\<close>

text \<open>
  The demonstration: a board with the timer on channel 1, a counter that is read every 100 microseconds for one second, and the module
  after its start and after a first call of a client.
\<close>

definition demo_hrt_board :: hrt_board where
  "demo_hrt_board = \<lparr> HRT_TIMER_CLOCK = 84000000, HRT_TIMER_CHANNEL = 1, HRT_PPM_CHANNEL = Some 3, ARCH_CORTEXM3 = False,
     HRT_TIMER_POWER_BIT = 1 \<rparr>"

definition demo_cnt :: "nat \<Rightarrow> nat" where
  "demo_cnt k = min (100 * k) 1000000"

definition demo_call :: hrt_call where
  "demo_call = \<lparr> deadline = 0, period = 0, callout = None, call_arg = 0 \<rparr>"

definition demo_tim :: tim_regs where
  "demo_tim = \<lparr> tim_power = 0, tim_CR1 = 0, tim_CR2 = 0, tim_SMCR = 0, tim_DIER = 0, tim_SR = 0, tim_EGR = 0, tim_CCMR1 = 0, tim_CCMR2 = 0,
     tim_CCER = 0, tim_PSC = 0, tim_ARR = 0, rCCR_HRT = 0, rCCR_PPM = 0, tim_DCR = 0 \<rparr>"

definition demo_hrt :: hrt where
  "demo_hrt = hrt_init demo_hrt_board (hrt_reset (\<lambda>_. demo_call) (\<lambda>_. None) demo_tim)"

lemma demo_steady: "steady demo_cnt"
  by (auto simp: steady_def demo_cnt_def)

lemma demo_reach: "hrt_reach demo_hrt_board run demo_cnt 10000 5000 demo_hrt"
  unfolding demo_hrt_def by (rule hrt_reach.start)

lemma demo_memory: "calls demo_hrt e = demo_call" "callout_queue demo_hrt = sq_init"
  by (simp_all add: demo_hrt_def hrt_init_def hrt_tim_init_def hrt_reset_def)

lemma demo_hrt_fields: "cnt_reads demo_hrt = 0" "hrt_match demo_hrt = 1000" "queued demo_hrt []" "clock_at demo_hrt 0" "tim_SR (tim demo_hrt) = 0"
  by (simp_all add: demo_hrt_def hrt_init_def hrt_tim_init_def hrt_reset_def queued_def queue_of_init pending_ok_def clock_at_def demo_tim_def)

text \<open>
  C15. In every run of the module, as long as the compare interrupt is served in time, the time that is read is exactly the time since
  the start: the 16 bit counter is extended without ever losing or gaining a period.
\<close>

theorem hrt_time_exact:
  assumes "steady cnt" "L + G < 15536" "hrt_reach B (script_callouts S cnt) cnt L G h" "cnt (cnt_reads h) \<le> hrt_match h + L"
  shows "fst (hrt_absolute_time cnt h) = of_nat (cnt (cnt_reads h))"
proof -
  obtain t where "clock_ok cnt h t" "t \<le> cnt (cnt_reads h)" using scripts.hrt_reach_ok [OF assms(3,1,2)] by blast
  then show ?thesis using assms(2,4) by (intro hrt_absolute_time_exact(1) [of h t]) (simp_all add: clock_ok_def)
qed

theorem hrt_time_exact_witness: "fst (hrt_absolute_time demo_cnt demo_hrt) = of_nat (demo_cnt 0)"
  using hrt_time_exact [OF demo_steady _ demo_reach [of "script_callouts (\<lambda>_ _. []) demo_cnt"]] demo_hrt_fields
  by (simp add: demo_cnt_def)



text \<open>
  C17. When the timer interrupt returns, no callout in the queue was due when the queue was last looked at, and the next interrupt comes
  at the first deadline, but at least 50 and at most 50000 microseconds after the last look at the time.
\<close>

theorem hrt_interrupt_serves:
  assumes c: "steady cnt" "L + G < 15536" and h: "hrt_reach B (script_callouts S cnt) cnt L G h" "has_flag sr (SR_INT_HRT B)"
    and i: "hrt_tim_isr B (script_callouts S cnt) cnt (signal sr v h) = Some h'" "in_time L G cnt h h'"
  shows "\<exists>q. queued h' q \<and> (\<forall>x \<in> set q. cnt (cnt_reads h' - 2) < unat (deadline (snd x))) \<and>
    hrt_match h' = wake_up (cnt (cnt_reads h' - 1)) (first_deadline h')"
proof -
  obtain t p where t: "clock_ok cnt h t" "t \<le> cnt (cnt_reads h)" "queued h p" using scripts.hrt_reach_ok [OF h(1) c] by blast
  have "cnt_reads h < cnt_reads h'" using clock_steps_reads [OF scripts.isr_clock [OF i(1)]] by (simp add: ack_clock)
  then have n: "cnt (cnt_reads h) + G \<le> t + 65536" "G \<le> 65536" using i(2) t(1) c(2) by (simp_all add: in_time_def clock_ok_def)
  show ?thesis using scripts.isr_holds [OF i(1) c(1), of t G p] t n i(2) h(2) by (auto simp: clock_ok_def in_time_def)
qed

lemma demo_hrt_tick:
  "hrt_tim_isr demo_hrt_board run demo_cnt (signal 2 0 demo_hrt) =
     Some (hrt_call_reschedule demo_cnt (snd (hrt_absolute_time demo_cnt (hrt_latency_update (snd (isr_ack demo_cnt (signal 2 0 demo_hrt)))))))"
proof -
  obtain g where a: "isr_ack demo_cnt (signal 2 0 demo_hrt) = (2, g)" by (simp add: isr_ack_def rCNT_def Let_def signal_def)
  have e: "isr_edge demo_hrt_board demo_cnt 2 g = g"
    by (simp add: isr_edge_def demo_hrt_board_def SR_INT_PPM_def SR_OVF_PPM_def has_flag_def)
  have t: "has_flag 2 (SR_INT_HRT demo_hrt_board)" by (simp add: has_flag_def SR_INT_HRT_def demo_hrt_board_def)
  have "queued (hrt_latency_update g) []"
    using demo_hrt_fields(3) same_calls_holds [OF same_calls_latency, of g] same_calls_holds [OF same_calls_ack, of demo_cnt "signal 2 0 demo_hrt"]
    by (simp add: a)
  then have "hrt_call_invoke run demo_cnt (hrt_latency_update g) = Some (snd (hrt_absolute_time demo_cnt (hrt_latency_update g)))"
    by (subst hrt_call_invoke.simps) (simp add: not_due)
  then show ?thesis using e t by (simp add: hrt_tim_isr_def a Let_def)
qed

theorem hrt_interrupt_serves_witness:
  "\<exists>h'. hrt_tim_isr demo_hrt_board (script_callouts (\<lambda>_ _. []) demo_cnt) demo_cnt (signal 2 0 demo_hrt) = Some h' \<and> hrt_match h' = 50200"
proof -
  define h' where "h' = hrt_call_reschedule demo_cnt (snd (hrt_absolute_time demo_cnt (hrt_latency_update (snd (isr_ack demo_cnt (signal 2 0 demo_hrt))))))"
  have i: "hrt_tim_isr demo_hrt_board (script_callouts (\<lambda>_ _. []) demo_cnt) demo_cnt (signal 2 0 demo_hrt) = Some h'"
    unfolding h'_def by (rule demo_hrt_tick)
  have r: "cnt_reads h' = 3" by (simp add: h'_def ack_clock demo_hrt_fields hrt_latency_update_def Let_def)
  have t: "in_time 10000 5000 demo_cnt demo_hrt h'"
    using demo_hrt_fields r by (auto simp: in_time_def gaps_def demo_cnt_def)
  have q: "callout_queue h' = sq_init"
    by (simp add: h'_def hrt_latency_update_def isr_ack_def rCNT_def Let_def signal_def demo_memory)
  have "\<exists>q. queued h' q \<and> (\<forall>x \<in> set q. demo_cnt (cnt_reads h' - 2) < unat (deadline (snd x))) \<and>
      hrt_match h' = wake_up (demo_cnt (cnt_reads h' - 1)) (first_deadline h')"
    using demo_steady _ demo_reach _ i t by (rule hrt_interrupt_serves) (simp_all add: has_flag_def SR_INT_HRT_def demo_hrt_board_def)
  then have "hrt_match h' = 50200"
    using r q by (auto simp: wake_up_def first_deadline_def sq_peek_def sq_init_def demo_cnt_def)
  then show ?thesis using i by blast
qed


definition demo_busy :: "nat option \<Rightarrow> u32 \<Rightarrow> hrt" where
  "demo_busy fn a = the (hrt_do demo_cnt (Op_Every 7 50 1000 fn a) demo_hrt)"

lemma demo_busy_entered: "hrt_do demo_cnt (Op_Every 7 50 1000 fn a) demo_hrt = Some (demo_busy fn a)"
  and demo_busy_holds: "queued (demo_busy fn a) [(7, \<lparr> deadline = 50, period = 1000, callout = fn, call_arg = a \<rparr>)]"
proof -
  have n: "fst (hrt_absolute_time demo_cnt demo_hrt) = 0"
    using hrt_absolute_time_exact(1) [of demo_hrt 0 demo_cnt] demo_hrt_fields by (simp add: demo_cnt_def)
  then show "hrt_do demo_cnt (Op_Every 7 50 1000 fn a) demo_hrt = Some (demo_busy fn a)"
    "queued (demo_busy fn a) [(7, \<lparr> deadline = 50, period = 1000, callout = fn, call_arg = a \<rparr>)]"
    using hrt_do_holds [OF demo_hrt_fields(3), of demo_cnt "Op_Every 7 50 1000 fn a"] by (auto simp: demo_busy_def drop_entry_def add_entry_def)
qed

lemma demo_punctual: "clock_steps demo_cnt demo_hrt g \<Longrightarrow> punctual demo_cnt g"
proof -
  assume cs: "clock_steps demo_cnt demo_hrt g"
  have gp: "gaps 65536 demo_cnt i j" for i j by (auto simp: gaps_def demo_cnt_def)
  have z: "clock_ok demo_cnt demo_hrt 0" using demo_hrt_fields by (simp add: clock_ok_def)
  have n: "demo_cnt (cnt_reads demo_hrt) < 0 + 65536" by (simp add: demo_hrt_fields demo_cnt_def)
  obtain t where t: "clock_ok demo_cnt g t" "t \<le> demo_cnt (cnt_reads g)"
    "t = (if cnt_reads demo_hrt = cnt_reads g then 0 else demo_cnt (cnt_reads g - 1))"
    using clock_steps_ok [OF cs demo_steady z _ n gp] by auto
  have "demo_cnt (cnt_reads g) < t + 65536" using t(3) clock_steps_reads [OF cs] n gp by (rule next_read_near) (rule lessI)
  then show "punctual demo_cnt g" using t gp demo_steady by (auto simp: punctual_def)
qed


text \<open>
  The calls of a periodic entry do not drift: however late its callout was run, it is entered again exactly one period after the
  deadline that it had, behind the calls with the same or an earlier deadline, and a one-shot entry is gone.
\<close>

theorem hrt_every_no_drift:
  assumes "queued h (x # ps)" "deadline (snd x) \<le> fst (hrt_absolute_time cnt h)" "fst (hrt_absolute_time cnt h) < 2 ^ 63"
  shows "\<exists>g. invoke_one idle_callouts cnt h = Some (Inr g) \<and>
    queued g (if period (snd x) = 0 then ps else add_entry (fst x) ((snd x)\<lparr>deadline := deadline (snd x) + period (snd x)\<rparr>) ps)"
  using idle.quiet_pass [OF assms] by (simp add: run_first_def)

lemma demo_busy_clock:
  "\<exists>t. clock_at (demo_busy fn a) t \<and> t \<le> 200 \<and> 200 < t + 65536" "cnt_reads (demo_busy fn a) = 2"
  "fst (hrt_absolute_time demo_cnt (demo_busy fn a)) = 200"
proof -
  obtain t where t: "clock_ok demo_cnt (demo_busy fn a) t" "t \<le> demo_cnt (cnt_reads (demo_busy fn a))"
    "demo_cnt (cnt_reads (demo_busy fn a)) < t + 65536"
    using demo_punctual [OF clock_steps_do [OF demo_busy_entered [of fn a]]] by (auto simp: punctual_def)
  show r: "cnt_reads (demo_busy fn a) = 2"
    using demo_busy_entered [of fn a] demo_hrt_fields(1) demo_memory
    by (auto simp: hrt_call_every_def hrt_call_internal_def hrt_call_enter_def split_beta Let_def demo_call_def sq_peek_def sq_init_def
        dest!: arg_cong [of _ "demo_busy fn a" cnt_reads])
  then show "fst (hrt_absolute_time demo_cnt (demo_busy fn a)) = 200"
    using hrt_absolute_time_exact(1) [of "demo_busy fn a" t demo_cnt] t by (simp add: clock_ok_def demo_cnt_def)
  show "\<exists>t. clock_at (demo_busy fn a) t \<and> t \<le> 200 \<and> 200 < t + 65536"
    using t r by (auto simp: clock_ok_def demo_cnt_def)
qed

theorem hrt_every_no_drift_witness:
  "\<exists>g. invoke_one idle_callouts demo_cnt (demo_busy None 0) = Some (Inr g) \<and>
     queued g [(7, \<lparr> deadline = 1050, period = 1000, callout = None, call_arg = 0 \<rparr>)]"
  using hrt_every_no_drift [OF demo_busy_holds [of None 0], of demo_cnt] demo_busy_clock(3) [of None 0] by (simp add: add_entry_def)

section \<open>A callout that arms itself again\<close>

text \<open>A callout that calls \<open>hrt_call_every\<close> for its own entry, whose address is its argument.\<close>

definition rearm_callouts :: "(nat \<Rightarrow> nat) \<Rightarrow> callouts" where
  "rearm_callouts cnt fn a h = hrt_call_every cnt (unat a) 1000 1000 (Some fn) a h"

lemma enter_after_circle:
  assumes "call_links h e = Some e" "\<not> dl < deadline (calls h e)"
  shows "enter_after h dl e = None"
proof -
  have "enter_after h' dl' e' = Some y \<Longrightarrow> call_links h' e' = Some e' \<Longrightarrow> \<not> dl' < deadline (calls h' e') \<Longrightarrow> False" for h' dl' e' y
    by (induction rule: enter_after.raw_induct [rotated, consumes 1, case_names body]) (auto simp: sq_next_def)
  then show ?thesis using assms by (cases "enter_after h dl e") auto
qed

lemma rearm_hangs:
  assumes l: "call_links h e = Some e" "sq_head (callout_queue h) = Some e" and e: "e < 2 ^ 32" "call_arg (calls h e) = of_nat e" "callout (calls h e) = Some fn"
    and d: "deadline (calls h e) \<le> fst (hrt_absolute_time cnt h)"
  shows "hrt_call_invoke (rearm_callouts cnt) cnt h = None"
proof -
  obtain n g where g: "hrt_absolute_time cnt h = (n, g)" by force
  have f: "calls g = calls h" "call_links g = call_links h" "callout_queue g = callout_queue h"
    using hrt_absolute_time_frame(3-5) [of cnt h] g by simp_all
  obtain q where p: "pop_call e g = Some (upd_call e (\<lambda>c. c\<lparr>deadline := 0\<rparr>) (set_queue (call_links h, q) g))" "sq_head q = Some e"
    using l f by (auto simp: pop_call_def sq_rem_def Let_def)
  define g1 where "g1 = upd_call e (\<lambda>c. c\<lparr>deadline := 0\<rparr>) (set_queue (call_links h, q) g)"
  have g1: "deadline (calls g1 e) = 0" "callout (calls g1 e) = Some fn" "call_arg (calls g1 e) = of_nat e" "call_links g1 e = Some e"
    "sq_peek (callout_queue g1) = Some e" using e f l p(2) by (simp_all add: g1_def sq_peek_def)
  have u: "unat (of_nat e :: u32) = e" using e(1) by (simp add: unat_of_nat)
  have "hrt_call_internal cnt e dl 1000 (Some fn) (of_nat e) (snd (hrt_absolute_time cnt g1)) = None" for dl
    using g1 by (simp add: hrt_call_internal_def hrt_call_enter_def Let_def) (subst enter_after_circle; simp)
  then have "call_out (rearm_callouts cnt) e g1 = None"
    using g1 u by (simp add: call_out_def rearm_callouts_def hrt_call_every_def split_beta Let_def)
  then have "invoke_one (rearm_callouts cnt) cnt h = None"
    using d f l p(1) by (simp add: invoke_one_def g sq_peek_def g1_def [symmetric])
  then show ?thesis by (subst hrt_call_invoke.simps) simp
qed

lemma rearm_circle:
  assumes h: "queued h [(e, c)]" "callout c = Some fn" "call_arg c = of_nat e" "e < 2 ^ 32"
    and k: "steady cnt" "clock_at h t" "t \<le> cnt (cnt_reads h)" "cnt (cnt_reads h) < t + 65536" "cnt (cnt_reads h + 1) < cnt (cnt_reads h) + 65536"
    and d: "unat (deadline c) \<le> cnt (cnt_reads h)"
  shows "\<exists>g. invoke_one (rearm_callouts cnt) cnt h = Some (Inr g) \<and> call_links g e = Some e \<and> sq_head (callout_queue g) = Some e \<and>
    callout (calls g e) = Some fn \<and> call_arg (calls g e) = of_nat e"
proof -
  define T0 T1 where T: "T0 = cnt (cnt_reads h)" "T1 = cnt (cnt_reads h + 1)"
  obtain n g where g: "hrt_absolute_time cnt h = (n, g)" by force
  have n: "n = of_nat T0" "clock_at g T0" "cnt_reads g = cnt_reads h + 1"
    using hrt_absolute_time_exact [of h t cnt, OF k(2-4)] hrt_absolute_time_frame(1) [of cnt h] g by (simp_all add: T)
  have f: "calls g = calls h" "call_links g = call_links h" "callout_queue g = callout_queue h"
    using hrt_absolute_time_frame(3-5) [of cnt h] g by simp_all
  have q: "sq_head (callout_queue h) = Some e" "sq_tail (callout_queue h) = Some e" "call_links h e = None" "calls h e = c"
    using h(1) by (simp_all add: queued_def queue_of_def)
  have b: "T0 \<le> T1" "T1 + 50000 < 2 ^ 63" using k(1) by (auto simp: T steady_def)
  define g1 where "g1 = upd_call e (\<lambda>c. c\<lparr>deadline := 0\<rparr>) (set_queue (call_links h, sq_init) g)"
  have "(callout_queue h)\<lparr>sq_head := None, sq_tail := None\<rparr> = sq_init" by (simp add: sq_init_def)
  then have p: "pop_call e g = Some g1" using q f by (simp add: pop_call_def sq_rem_def Let_def g1_def)
  have t1: "fst (hrt_absolute_time cnt g1) = of_nat T1"
    using hrt_absolute_time_exact(1) [of g1 T0 cnt] n k(5) b T by (simp add: g1_def clock_at_def)
  define d1 where "d1 = (of_nat T1 + 1000 :: u64)"
  define g2 where "g2 = hrt_call_reschedule cnt (set_queue (sq_addfirst e (call_links h, sq_init))
    (upd_call e (\<lambda>c. c\<lparr>deadline := d1, period := 1000, callout := Some fn, call_arg := of_nat e\<rparr>) (snd (hrt_absolute_time cnt g1))))"
  have m: "deadline (calls g1 e) = 0" "callout (calls g1 e) = Some fn" "call_arg (calls g1 e) = of_nat e" "call_links g1 = call_links h"
    "callout_queue g1 = sq_init" "sq_peek (sq_init :: nat sq_queue) = None" using h(2,3) q f by (simp_all add: g1_def sq_peek_def sq_init_def)
  have "hrt_call_internal cnt e d1 1000 (Some fn) (of_nat e) (snd (hrt_absolute_time cnt g1)) = Some g2"
    using m by (simp add: hrt_call_internal_def hrt_call_enter_def Let_def g2_def)
  then have o: "call_out (rearm_callouts cnt) e g1 = Some g2"
    using m t1 h(4) by (simp add: call_out_def rearm_callouts_def hrt_call_every_def split_beta Let_def d1_def unat_of_nat)
  have g2: "calls g2 e = \<lparr> deadline = d1, period = 1000, callout = Some fn, call_arg = of_nat e \<rparr>" "call_links g2 e = None"
    "sq_head (callout_queue g2) = Some e" "sq_tail (callout_queue g2) = Some e"
    by (simp_all add: g2_def sq_addfirst_def sq_init_def hrt_call.equality)
  have "unat n = T0" "unat d1 = T1 + 1000" using b by (simp_all add: n d1_def unat_of_nat unat_word_ariths)
  then have "\<not> d1 \<le> n" using b by (simp add: word_le_nat_alt)
  moreover have "enter_after g2 d1 e = Some e" using g2(2) by (subst enter_after.simps) (simp add: sq_next_def)
  ultimately obtain g3 where g3: "reenter_call cnt n (deadline c) e g2 = Some g3" "calls g3 = calls g2" "call_links g3 e = Some e" "sq_head (callout_queue g3) = Some e"
    using g2 by (auto simp: reenter_call_def hrt_call_enter_def sq_peek_def sq_addafter_def sq_addlast_def Let_def)
  have "deadline c \<le> n" using d T \<open>unat n = T0\<close> by (simp add: word_le_nat_alt)
  then have "invoke_one (rearm_callouts cnt) cnt h = Some (Inr g3)"
    using p o g3(1) q f by (simp add: invoke_one_def g sq_peek_def)
  then show ?thesis using g3 g2(1) by simp
qed

text \<open>
  C19. A periodic callout that calls \<open>hrt_call_every\<close> for its own entry makes the queue circular: the dispatcher enters the entry a second
  time behind itself, and when it is due again the interrupt never returns.
\<close>

theorem rearm_in_callout_hangs:
  assumes h: "queued h [(e, c)]" "callout c = Some fn" "call_arg c = of_nat e" "e < 2 ^ 32"
    and k: "steady cnt" "clock_at h t" "t \<le> cnt (cnt_reads h)" "cnt (cnt_reads h) < t + 65536" "cnt (cnt_reads h + 1) < cnt (cnt_reads h) + 65536"
    and d: "unat (deadline c) \<le> cnt (cnt_reads h)"
  shows "\<exists>g. invoke_one (rearm_callouts cnt) cnt h = Some (Inr g) \<and> call_links g e = Some e \<and>
    (\<forall>g'. same_calls g g' \<and> deadline (calls g e) \<le> fst (hrt_absolute_time cnt g') \<longrightarrow> hrt_call_invoke (rearm_callouts cnt) cnt g' = None)"
  using rearm_circle [OF h k d] rearm_hangs [OF _ _ h(4), of _ fn cnt] by (fastforce simp: same_calls_def)

theorem rearm_in_callout_hangs_witness:
  "\<exists>g. invoke_one (rearm_callouts demo_cnt) demo_cnt (demo_busy (Some 1) 7) = Some (Inr g) \<and> call_links g 7 = Some 7"
proof -
  obtain t where t: "clock_at (demo_busy (Some 1) 7) t" "t \<le> 200" "200 < t + 65536" using demo_busy_clock(1) by blast
  show ?thesis
    using rearm_in_callout_hangs [OF demo_busy_holds [of "Some 1" 7], of 1 demo_cnt t] t demo_steady demo_busy_clock(2) [of "Some 1" 7]
    by (auto simp: demo_cnt_def)
qed

end
