(* ===== verification/Hrt_Ppm.thy ===== *)
theory Hrt_Ppm
  imports Hrt_Time
begin

text \<open>
  The decoder of PPM radio signals in the timer's interrupt. A PPM frame is a train of pulses: the time from one rising edge to the next
  is the value of a channel, and a long gap ends the frame. The decoder is shown to stay within its buffers and limits whatever edges
  arrive, and to give the values of a well-formed signal from whatever state it was in.
\<close>

section \<open>The decoder alone\<close>

text \<open>What an edge does to the decoder's variables, when the time is \<open>now\<close>.\<close>

definition start_frame :: "u64 \<Rightarrow> u16 \<Rightarrow> ppm_decoder \<Rightarrow> ppm_decoder" where
  "start_frame now count p = (let
     p = (if next_channel p \<noteq> ppm_channels p then ppm_channel_count p
          else if next_channel p \<ge> PPM_MIN_CHANNELS
          then p\<lparr>ppm_out := copy_channels (unat (next_channel p)) (ppm_temp p) (ppm_out p), ppm_last_valid := now\<rparr>
          else p)
     in p\<lparr>next_channel := 0, phase := ARM, last_edge := count\<rparr>)"

definition decode_edge :: "u64 \<Rightarrow> u16 \<Rightarrow> ppm_decoder \<Rightarrow> ppm_decoder" where
  "decode_edge now count p = (let width = count - last_edge p in
     if width \<ge> PPM_MIN_START then start_frame now count p else ppm_edge count width p)"

lemma ppm_field_time: "fst (hrt_absolute_time cnt (h\<lparr>ppm := p\<rparr>)) = fst (hrt_absolute_time cnt h)"
  by (simp add: hrt_absolute_time_def rCNT_def Let_def)

lemma ppm_decode:
  "ppm (hrt_ppm_decode B cnt status h) = (if has_flag status (SR_OVF_PPM B) then ppm_error (ppm h)
     else decode_edge (fst (hrt_absolute_time cnt h)) (ucast (rCCR_PPM (tim h))) (ppm h))"
  by (simp add: hrt_ppm_decode_def ppm_start_def decode_edge_def start_frame_def Let_def split_beta ppm_field_time)

section \<open>Buffers and limits\<close>

definition channel_ok :: "u16 \<Rightarrow> bool" where
  "channel_ok v \<longleftrightarrow> PPM_MIN_CHANNEL_VALUE \<le> v \<and> v \<le> PPM_MAX_CHANNEL_VALUE"

definition ppm_ok :: "ppm_decoder \<Rightarrow> bool" where
  "ppm_ok p \<longleftrightarrow> length (ppm_temp p) = 20 \<and> length (ppm_out p) = 20 \<and> next_channel p \<le> 20 \<and> ppm_channels p \<le> 20 \<and>
     new_channel_count p \<le> 20 \<and> new_channel_holdoff p \<le> 4 \<and>
     (\<forall>i < unat (next_channel p). channel_ok (ppm_temp p ! i)) \<and> (\<forall>v \<in> set (ppm_out p). v = 0 \<or> channel_ok v)"

lemma length_copy_channels [simp]: "length (copy_channels n src dst) = length dst"
  by (induction n) simp_all

lemma copy_channels_take: "n \<le> length src \<Longrightarrow> n \<le> length dst \<Longrightarrow> copy_channels n src dst = take n src @ drop n dst"
proof (induction n)
  case (Suc n)
  then have "dst ! n # drop (Suc n) dst = drop n dst" by (intro Cons_nth_drop_Suc) simp
  then show ?case using Suc by (simp add: list_update_append take_Suc_conv_app_nth) (metis list_update_code(2))
qed simp

lemma ppm_ok_error: "ppm_ok p \<Longrightarrow> ppm_ok (ppm_error p)"
  by (simp add: ppm_ok_def ppm_error_def)

lemma ppm_ok_count: "ppm_ok p \<Longrightarrow> ppm_ok (ppm_channel_count p)"
  by (auto simp: ppm_ok_def ppm_channel_count_def ppm_limits word_less_nat_alt word_le_nat_alt unat_sub_if')

lemma ppm_ok_start:
  assumes "ppm_ok p"
  shows "ppm_ok (start_frame now count p)"
proof -
  have l: "unat (next_channel p) \<le> 20" using assms by (simp add: ppm_ok_def word_le_nat_alt)
  have "\<forall>v \<in> set (copy_channels (unat (next_channel p)) (ppm_temp p) (ppm_out p)). v = 0 \<or> channel_ok v"
    using assms l by (auto simp: copy_channels_take ppm_ok_def in_set_conv_nth dest: in_set_dropD)
  then show ?thesis using assms ppm_ok_count [OF assms] by (auto simp: start_frame_def Let_def ppm_ok_def)
qed

lemma ppm_ok_edge:
  assumes "ppm_ok p"
  shows "ppm_ok (ppm_edge count width p)"
proof -
  have "ppm_ok (p\<lparr>last_mark := m\<rparr>)" for m using assms by (simp add: ppm_ok_def)
  note ppm_ok_error [OF this] ppm_ok_error [OF assms]
  moreover have "unat (next_channel p + 1) = Suc (unat (next_channel p))" if "next_channel p < 20"
    using that by (simp add: unat_word_ariths word_less_nat_alt)
  ultimately show ?thesis using assms
    by (auto simp: ppm_edge_def Let_def ppm_ok_def ppm_limits channel_ok_def nth_list_update less_Suc_eq word_le_nat_alt word_less_nat_alt
        split: ppm_phase.split)
qed

lemma ppm_ok_decode: "ppm_ok p \<Longrightarrow> ppm_ok (decode_edge now count p)"
  by (simp add: decode_edge_def Let_def ppm_ok_start ppm_ok_edge)

text \<open>Edges as they come: the status and the capture register of each, and the time of the interrupt.\<close>

definition ppm_interrupt :: "hrt_board \<Rightarrow> (nat \<Rightarrow> nat) \<Rightarrow> u32 \<times> u32 \<Rightarrow> hrt \<Rightarrow> hrt" where
  "ppm_interrupt B cnt ev h = hrt_ppm_decode B cnt (fst ev) (h\<lparr>tim := (tim h)\<lparr>rCCR_PPM := snd ev\<rparr>\<rparr>)"

lemma ppm_interrupt_ok: "ppm_ok (ppm h) \<Longrightarrow> ppm_ok (ppm (ppm_interrupt B cnt ev h))"
  by (simp add: ppm_interrupt_def ppm_decode ppm_ok_error ppm_ok_decode)

section \<open>A signal\<close>

text \<open>
  A frame is a list of channels, each with the width of its pulse and its value, the width of the last pulse and the gap behind it.
\<close>

record ppm_frame =
  fr_channels :: "(u16 \<times> u16) list"
  fr_pulse :: u16
  fr_gap :: u16

definition pulse_ok :: "u16 \<Rightarrow> bool" where
  "pulse_ok w \<longleftrightarrow> PPM_MIN_PULSE_WIDTH \<le> w \<and> w \<le> PPM_MAX_PULSE_WIDTH"

definition frame_ok :: "nat \<Rightarrow> ppm_frame \<Rightarrow> bool" where
  "frame_ok n f \<longleftrightarrow> length (fr_channels f) = n \<and> (\<forall>c \<in> set (fr_channels f). pulse_ok (fst c) \<and> channel_ok (snd c)) \<and>
     pulse_ok (fr_pulse f) \<and> PPM_MIN_START \<le> fr_gap f"

text \<open>The captured times of the edges of the channels, from the rising edge at \<open>m\<close> on, and the last rising edge.\<close>

fun channel_edges :: "u16 \<Rightarrow> (u16 \<times> u16) list \<Rightarrow> u16 list" where
  "channel_edges m [] = []"
| "channel_edges m (c # cs) = (m + fst c) # (m + snd c) # channel_edges (m + snd c) cs"

definition last_mark_of :: "u16 \<Rightarrow> (u16 \<times> u16) list \<Rightarrow> u16" where
  "last_mark_of m cs = m + sum_list (map snd cs)"

definition frame_edges :: "u16 \<Rightarrow> ppm_frame \<Rightarrow> u16 list" where
  "frame_edges m f = (let e = last_mark_of m (fr_channels f) in
     channel_edges m (fr_channels f) @ [e + fr_pulse f, e + fr_pulse f + fr_gap f])"

definition frame_end :: "u16 \<Rightarrow> ppm_frame \<Rightarrow> u16" where
  "frame_end m f = last_mark_of m (fr_channels f) + fr_pulse f + fr_gap f"

section \<open>Decoding a frame\<close>

text \<open>The decoder at a rising edge \<open>m\<close> of a frame, when \<open>vs\<close> are the values so far.\<close>

definition at_mark :: "u16 \<Rightarrow> u16 list \<Rightarrow> ppm_decoder \<Rightarrow> bool" where
  "at_mark m vs p \<longleftrightarrow> last_edge p = m \<and> (phase p = ARM \<or> phase p = INACTIVE \<and> last_mark p = m) \<and>
     unat (next_channel p) = length vs \<and> length vs \<le> 20 \<and> length (ppm_temp p) = 20 \<and> take (length vs) (ppm_temp p) = vs"

text \<open>What the edges inside a frame leave alone.\<close>

definition same_lock :: "ppm_decoder \<Rightarrow> ppm_decoder \<Rightarrow> bool" where
  "same_lock p p' \<longleftrightarrow> new_channel_count p' = new_channel_count p \<and> new_channel_holdoff p' = new_channel_holdoff p \<and>
     ppm_out p' = ppm_out p \<and> ppm_channels p' = ppm_channels p \<and> ppm_last_valid p' = ppm_last_valid p"

definition after_pulse :: "u16 \<Rightarrow> u16 \<Rightarrow> u16 list \<Rightarrow> ppm_decoder \<Rightarrow> bool" where
  "after_pulse m w vs p \<longleftrightarrow> last_edge p = m + w \<and> phase p = ACTIVE \<and> last_mark p = m \<and>
     unat (next_channel p) = length vs \<and> length vs \<le> 20 \<and> length (ppm_temp p) = 20 \<and> take (length vs) (ppm_temp p) = vs"

lemma pulse_edge:
  assumes "at_mark m vs p" "pulse_ok w"
  shows "after_pulse m w vs (decode_edge now (m + w) p)" "same_lock p (decode_edge now (m + w) p)"
proof -
  have "\<not> PPM_MIN_START \<le> w" "\<not> w < PPM_MIN_PULSE_WIDTH" "\<not> w > PPM_MAX_PULSE_WIDTH"
    using assms(2) by (auto simp: pulse_ok_def ppm_limits word_le_nat_alt word_less_nat_alt)
  then show "after_pulse m w vs (decode_edge now (m + w) p)" "same_lock p (decode_edge now (m + w) p)"
    using assms(1) by (auto simp: at_mark_def after_pulse_def same_lock_def decode_edge_def ppm_edge_def Let_def)
qed

lemma value_edge:
  assumes "after_pulse m w vs p" "pulse_ok w" "channel_ok v" "length vs < 20"
  shows "at_mark (m + v) (vs @ [v]) (decode_edge now (m + v) p)" "same_lock p (decode_edge now (m + v) p)"
proof -
  have "unat v \<ge> 800" "unat v \<le> 2200" "unat w \<ge> 200" "unat w \<le> 600"
    using assms(2,3) by (auto simp: pulse_ok_def channel_ok_def ppm_limits word_le_nat_alt)
  then have "unat (v - w) < 2300" by (simp add: unat_sub_if')
  then have w: "\<not> PPM_MIN_START \<le> v - w" by (simp add: ppm_limits word_le_nat_alt)
  have v: "\<not> v < PPM_MIN_CHANNEL_VALUE" "\<not> v > PPM_MAX_CHANNEL_VALUE" using assms(3) by (auto simp: channel_ok_def)
  have n: "next_channel p < PPM_MAX_CHANNELS" "unat (next_channel p + 1) = Suc (length vs)" "unat (next_channel p) = length vs"
    using assms(1,4) by (auto simp: after_pulse_def ppm_limits word_less_nat_alt unat_word_ariths)
  have "take (Suc (length vs)) ((ppm_temp p)[length vs := v]) = vs @ [v]"
    using assms(1,4) by (simp add: after_pulse_def take_Suc_conv_app_nth)
  moreover have e: "m + v - last_edge p = v - w" "m + v - last_mark p = v" using assms(1) by (simp_all add: after_pulse_def)
  ultimately show "at_mark (m + v) (vs @ [v]) (decode_edge now (m + v) p)" "same_lock p (decode_edge now (m + v) p)"
    using assms(1,4) w v n by (auto simp: at_mark_def after_pulse_def same_lock_def decode_edge_def ppm_edge_def Let_def)
qed

section \<open>Decoding a signal\<close>

definition ppm_edges :: "hrt_board \<Rightarrow> (nat \<Rightarrow> nat) \<Rightarrow> u32 \<Rightarrow> u16 list \<Rightarrow> hrt \<Rightarrow> hrt" where
  "ppm_edges B cnt status es h = fold (\<lambda>v. ppm_interrupt B cnt (status, ucast v)) es h"

lemma ppm_edges_append: "ppm_edges B cnt status (xs @ ys) h = ppm_edges B cnt status ys (ppm_edges B cnt status xs h)"
  by (simp add: ppm_edges_def)

lemma ppm_edges_Cons: "ppm_edges B cnt status (v # vs) h = ppm_edges B cnt status vs (ppm_interrupt B cnt (status, ucast v) h)"
  by (simp add: ppm_edges_def)

lemma ppm_edges_Nil [simp]: "ppm_edges B cnt status [] h = h"
  by (simp add: ppm_edges_def)

lemma ppm_edges_ok: "ppm_ok (ppm h) \<Longrightarrow> ppm_ok (ppm (ppm_edges B cnt status es h))"
  by (induction es arbitrary: h) (simp_all add: ppm_edges_Cons ppm_interrupt_ok)

lemma ucast_u16_u32: "ucast (ucast v :: u32) = (v :: u16)"
  by (rule bit_word_eqI) (auto simp: bit_simps)

lemma ppm_interrupt_edge:
  "\<not> has_flag status (SR_OVF_PPM B) \<Longrightarrow> \<exists>now. ppm (ppm_interrupt B cnt (status, ucast v) h) = decode_edge now v (ppm h)"
  by (auto simp: ppm_interrupt_def ppm_decode ucast_u16_u32)

lemma same_lock_trans: "same_lock p q \<Longrightarrow> same_lock q r \<Longrightarrow> same_lock p r"
  by (simp add: same_lock_def)

lemma channels_decoded:
  assumes s: "\<not> has_flag status (SR_OVF_PPM B)"
  shows "at_mark m vs (ppm h) \<Longrightarrow> \<forall>c \<in> set cs. pulse_ok (fst c) \<and> channel_ok (snd c) \<Longrightarrow> length vs + length cs \<le> 20 \<Longrightarrow>
    at_mark (last_mark_of m cs) (vs @ map snd cs) (ppm (ppm_edges B cnt status (channel_edges m cs) h)) \<and>
    same_lock (ppm h) (ppm (ppm_edges B cnt status (channel_edges m cs) h))"
proof (induction cs arbitrary: m vs h)
  case Nil
  then show ?case by (simp add: last_mark_of_def same_lock_def)
next
  case (Cons c cs)
  define h1 where "h1 = ppm_interrupt B cnt (status, ucast (m + fst c)) h"
  define h2 where "h2 = ppm_interrupt B cnt (status, ucast (m + snd c)) h1"
  obtain now1 where 1: "ppm h1 = decode_edge now1 (m + fst c) (ppm h)" using ppm_interrupt_edge [OF s] unfolding h1_def by blast
  obtain now2 where 2: "ppm h2 = decode_edge now2 (m + snd c) (ppm h1)" using ppm_interrupt_edge [OF s] unfolding h2_def by blast
  have p1: "after_pulse m (fst c) vs (ppm h1)" "same_lock (ppm h) (ppm h1)" using pulse_edge [OF Cons.prems(1)] Cons.prems(2) 1 by simp_all
  have p2: "at_mark (m + snd c) (vs @ [snd c]) (ppm h2)" "same_lock (ppm h1) (ppm h2)"
    using value_edge [OF p1(1), of "snd c" now2] Cons.prems(2,3) 2 by simp_all
  have "ppm_edges B cnt status (channel_edges m (c # cs)) h = ppm_edges B cnt status (channel_edges (m + snd c) cs) h2"
    by (simp add: ppm_edges_Cons h1_def h2_def)
  moreover have "last_mark_of (m + snd c) cs = last_mark_of m (c # cs)" by (simp add: last_mark_of_def algebra_simps)
  ultimately show ?case using Cons.IH [OF p2(1)] Cons.prems(2,3) same_lock_trans [OF same_lock_trans [OF p1(2) p2(2)]] by simp
qed

text \<open>How many frames with \<open>n\<close> channels it takes until such frames are used.\<close>

definition lock_need :: "nat \<Rightarrow> ppm_decoder \<Rightarrow> nat" where
  "lock_need n p = (if ppm_channels p = of_nat n then 0
     else if new_channel_count p = of_nat n then unat (new_channel_holdoff p) + 1 else 6)"

lemma start_frame_lock:
  assumes "next_channel p = of_nat n" "0 < n" "n \<le> 20"
  shows "lock_need n (start_frame now count p) = lock_need n p - 1"
proof -
  have n: "(of_nat n :: u32) \<noteq> 0" using assms(2,3) by (simp add: word_unat_eq_iff unat_of_nat)
  have "Suc (unat (new_channel_holdoff p - 1)) = unat (new_channel_holdoff p)" if "0 < new_channel_holdoff p"
    using that by (simp add: unat_minus_one word_gt_0 unat_gt_0)
  then show ?thesis using assms(1) n
    by (auto simp: lock_need_def start_frame_def ppm_channel_count_def Let_def ppm_limits word_gt_0 unat_eq_0)
qed

lemma start_frame_out:
  assumes "next_channel p = of_nat n" "5 \<le> n" "n \<le> 20" "ppm_channels p = of_nat n" "length (ppm_temp p) = 20" "length (ppm_out p) = 20"
  shows "ppm_out (start_frame now count p) = take n (ppm_temp p) @ drop n (ppm_out p)" "ppm_last_valid (start_frame now count p) = now"
proof -
  have "unat (of_nat n :: u32) = n" using assms(3) by (simp add: unat_of_nat)
  moreover from this have "PPM_MIN_CHANNELS \<le> of_nat n" using assms(2) by (simp add: ppm_limits word_le_nat_alt)
  ultimately show "ppm_out (start_frame now count p) = take n (ppm_temp p) @ drop n (ppm_out p)" "ppm_last_valid (start_frame now count p) = now"
    using assms by (simp_all add: start_frame_def Let_def copy_channels_take)
qed

lemma frame_decoded:
  fixes cnt :: "nat \<Rightarrow> nat"
  assumes s: "\<not> has_flag status (SR_OVF_PPM B)" and m: "at_mark m [] (ppm h)" and f: "frame_ok n f" "5 \<le> n" "n \<le> 20" and o: "length (ppm_out (ppm h)) = 20"
  defines "h' \<equiv> ppm_edges B cnt status (frame_edges m f) h"
  shows "at_mark (frame_end m f) [] (ppm h') \<and> lock_need n (ppm h') = lock_need n (ppm h) - 1 \<and> length (ppm_out (ppm h')) = 20 \<and>
    (lock_need n (ppm h) = 0 \<longrightarrow> take n (ppm_out (ppm h')) = map snd (fr_channels f))"
proof -
  define e where "e = last_mark_of m (fr_channels f)"
  define h1 where "h1 = ppm_edges B cnt status (channel_edges m (fr_channels f)) h"
  define h2 where "h2 = ppm_interrupt B cnt (status, ucast (e + fr_pulse f)) h1"
  have h': "h' = ppm_interrupt B cnt (status, ucast (e + fr_pulse f + fr_gap f)) h2"
    by (simp add: h'_def frame_edges_def e_def [symmetric] ppm_edges_append ppm_edges_Cons h1_def h2_def Let_def)
  have 1: "at_mark e (map snd (fr_channels f)) (ppm h1)" "same_lock (ppm h) (ppm h1)"
    using channels_decoded [OF s m, of "fr_channels f" cnt] f by (simp_all add: frame_ok_def e_def h1_def)
  obtain now1 where "ppm h2 = decode_edge now1 (e + fr_pulse f) (ppm h1)" using ppm_interrupt_edge [OF s] unfolding h2_def by blast
  then have 2: "after_pulse e (fr_pulse f) (map snd (fr_channels f)) (ppm h2)" "same_lock (ppm h) (ppm h2)"
    using pulse_edge [OF 1(1)] f(1) same_lock_trans [OF 1(2)] by (simp_all add: frame_ok_def)
  obtain now where "ppm h' = decode_edge now (e + fr_pulse f + fr_gap f) (ppm h2)" using ppm_interrupt_edge [OF s] unfolding h' by blast
  then have 3: "ppm h' = start_frame now (frame_end m f) (ppm h2)"
    using 2(1) f(1) by (simp add: decode_edge_def after_pulse_def frame_ok_def frame_end_def e_def [symmetric] Let_def)
  have n: "next_channel (ppm h2) = of_nat n" "length (ppm_temp (ppm h2)) = 20" "take n (ppm_temp (ppm h2)) = map snd (fr_channels f)"
    using 2(1) f(1) by (auto simp: after_pulse_def frame_ok_def) (metis of_nat_unat ucast_id)
  have l: "lock_need n (ppm h2) = lock_need n (ppm h)" "length (ppm_out (ppm h2)) = 20" using 2(2) o by (simp_all add: lock_need_def same_lock_def)
  have "at_mark (frame_end m f) [] (ppm h')"
    using n(2) by (auto simp: 3 at_mark_def start_frame_def ppm_channel_count_def Let_def)
  moreover have "length (ppm_out (ppm h')) = 20"
    using l(2) by (auto simp: 3 start_frame_def ppm_channel_count_def Let_def)
  moreover have "take n (ppm_out (ppm h')) = map snd (fr_channels f)" if "lock_need n (ppm h) = 0"
  proof -
    have "ppm_channels (ppm h2) = of_nat n" using that l(1) by (auto simp: lock_need_def split: if_splits)
    then show ?thesis using start_frame_out(1) [OF n(1) f(2,3) _ n(2) l(2)] n(2,3) f(1,3) by (simp add: 3 frame_ok_def)
  qed
  moreover have "lock_need n (ppm h') = lock_need n (ppm h) - 1" using start_frame_lock [OF n(1)] f(2,3) l(1) by (simp add: 3)
  ultimately show ?thesis by blast
qed

fun ppm_signal :: "u16 \<Rightarrow> ppm_frame list \<Rightarrow> u16 list" where
  "ppm_signal m [] = []"
| "ppm_signal m (f # fs) = frame_edges m f @ ppm_signal (frame_end m f) fs"

lemma signal_decoded:
  assumes s: "\<not> has_flag status (SR_OVF_PPM B)" and n: "5 \<le> n" "n \<le> 20"
  shows "at_mark m [] (ppm h) \<Longrightarrow> length (ppm_out (ppm h)) = 20 \<Longrightarrow> \<forall>f \<in> set fs. frame_ok n f \<Longrightarrow> lock_need n (ppm h) < length fs \<Longrightarrow>
    lock_need n (ppm (ppm_edges B cnt status (ppm_signal m fs) h)) = 0 \<and>
    take n (ppm_out (ppm (ppm_edges B cnt status (ppm_signal m fs) h))) = map snd (fr_channels (List.last fs))"
proof (induction fs arbitrary: m h)
  case (Cons f fs)
  define h' where "h' = ppm_edges B cnt status (frame_edges m f) h"
  have f: "at_mark (frame_end m f) [] (ppm h')" "lock_need n (ppm h') = lock_need n (ppm h) - 1" "length (ppm_out (ppm h')) = 20"
    "lock_need n (ppm h) = 0 \<Longrightarrow> take n (ppm_out (ppm h')) = map snd (fr_channels f)"
    using frame_decoded [OF s Cons.prems(1) _ n Cons.prems(2), of f cnt] Cons.prems(3) by (simp_all add: h'_def)
  show ?case
  proof (cases "fs = []")
    case True
    then show ?thesis using f Cons.prems(4) by (simp add: h'_def [symmetric])
  next
    case False
    then have "lock_need n (ppm h') < length fs" using f(2) Cons.prems(4) by (cases fs) auto
    then show ?thesis using Cons.IH [OF f(1,3)] Cons.prems(3) False by (simp add: ppm_edges_append h'_def [symmetric])
  qed
qed simp

lemma sync_edge:
  assumes "\<not> has_flag status (SR_OVF_PPM B)" "ppm_ok (ppm h)" "PPM_MIN_START \<le> m - last_edge (ppm h)"
  shows "at_mark m [] (ppm (ppm_interrupt B cnt (status, ucast m) h))"
proof -
  obtain now where "ppm (ppm_interrupt B cnt (status, ucast m) h) = decode_edge now m (ppm h)" using ppm_interrupt_edge [OF assms(1)] by blast
  then show ?thesis using assms(2,3) by (auto simp: decode_edge_def at_mark_def start_frame_def ppm_channel_count_def ppm_ok_def Let_def)
qed

lemma lock_need_le: "ppm_ok p \<Longrightarrow> lock_need n p \<le> 6"
  by (auto simp: ppm_ok_def lock_need_def word_le_nat_alt)

lemma ppm_decoded_values:
  assumes s: "\<not> has_flag status (SR_OVF_PPM B)" and h: "ppm_ok (ppm h)" "PPM_MIN_START \<le> m - last_edge (ppm h)"
    and f: "\<forall>f \<in> set fs. frame_ok n f" "7 \<le> length fs" "5 \<le> n" "n \<le> 20"
  shows "ppm_channels (ppm (ppm_edges B cnt status (m # ppm_signal m fs) h)) = of_nat n \<and>
    take n (ppm_out (ppm (ppm_edges B cnt status (m # ppm_signal m fs) h))) = map snd (fr_channels (List.last fs))"
proof -
  define g where "g = ppm_interrupt B cnt (status, ucast m) h"
  have g: "at_mark m [] (ppm g)" "ppm_ok (ppm g)" using sync_edge [OF s h] ppm_interrupt_ok [OF h(1)] by (simp_all add: g_def)
  have "lock_need n (ppm g) < length fs" using lock_need_le [OF g(2), of n] f(2) by simp
  then show ?thesis using signal_decoded [OF s f(3,4) g(1) _ f(1), of cnt] g(2)
    by (auto simp: ppm_edges_Cons g_def [symmetric] ppm_ok_def lock_need_def split: if_splits)
qed

section \<open>Properties of the decoder\<close>

text \<open>
  C21. Whatever edges the receiver input delivers, with or without lost captures, the decoder never indexes behind its two buffers of 20
  values, and every value that it publishes is within 800 and 2200 microseconds or was never written.
\<close>

theorem ppm_stays_in_bounds:
  "ppm_ok (ppm (fold (ppm_interrupt B cnt) evs (hrt_init B (hrt_reset c f r))))"
proof -
  have "ppm_ok (ppm (hrt_init B (hrt_reset c f r)))" by (simp add: hrt_init_def hrt_tim_init_def hrt_reset_def ppm_ok_def)
  then show ?thesis by (induction evs arbitrary: c f r rule: rev_induct) (simp_all add: ppm_interrupt_ok)
qed

text \<open>
  C20. From whatever state the decoder is in, noise and half frames included, seven frames of a well-formed signal of 5 to 20 channels
  behind a gap are enough: the decoder then publishes the number of channels and the values of the last frame. The 16 bit capture
  times may wrap anywhere.
\<close>

theorem ppm_decodes_signal:
  assumes s: "\<not> has_flag status (SR_OVF_PPM B)" and h: "ppm_ok (ppm h)" "PPM_MIN_START \<le> m - last_edge (ppm h)"
    and f: "\<forall>f \<in> set fs. frame_ok n f" "7 \<le> length fs" "5 \<le> n" "n \<le> 20"
  shows "ppm_channels (ppm (ppm_edges B cnt status (m # ppm_signal m fs) h)) = of_nat n \<and>
    take n (ppm_out (ppm (ppm_edges B cnt status (m # ppm_signal m fs) h))) = map snd (fr_channels (List.last fs))"
  using assms by (rule ppm_decoded_values)

definition demo_ppm_board :: hrt_board where
  "demo_ppm_board = \<lparr> HRT_TIMER_CLOCK = 24000000, HRT_TIMER_CHANNEL = 1, HRT_PPM_CHANNEL = Some 3, ARCH_CORTEXM3 = True,
     HRT_TIMER_POWER_BIT = 1 \<rparr>"

definition demo_ppm :: hrt where
  "demo_ppm = hrt_init demo_ppm_board (hrt_reset (\<lambda>_. \<lparr> deadline = 0, period = 0, callout = None, call_arg = 0 \<rparr>) (\<lambda>_. None)
     \<lparr> tim_power = 0, tim_CR1 = 0, tim_CR2 = 0, tim_SMCR = 0, tim_DIER = 0, tim_SR = 0, tim_EGR = 0, tim_CCMR1 = 0, tim_CCMR2 = 0,
       tim_CCER = 0, tim_PSC = 0, tim_ARR = 0, rCCR_HRT = 0, rCCR_PPM = 0, tim_DCR = 0 \<rparr>)"

definition demo_frame :: "u16 list \<Rightarrow> ppm_frame" where
  "demo_frame vs = \<lparr> fr_channels = map (\<lambda>v. (400, v)) vs, fr_pulse = 400, fr_gap = 6000 \<rparr>"

lemma demo_ppm_start: "ppm_ok (ppm demo_ppm)" "last_edge (ppm demo_ppm) = 0" "\<not> has_flag 8 (SR_OVF_PPM demo_ppm_board)"
  by (simp_all add: demo_ppm_def hrt_init_def hrt_tim_init_def hrt_reset_def ppm_ok_def has_flag_def SR_OVF_PPM_def demo_ppm_board_def)

lemma demo_frame_ok: "length vs = n \<Longrightarrow> \<forall>v \<in> set vs. channel_ok v \<Longrightarrow> frame_ok n (demo_frame vs)"
  by (auto simp: frame_ok_def demo_frame_def pulse_ok_def ppm_limits word_le_nat_alt)

theorem ppm_decodes_signal_witness:
  "take 5 (ppm_out (ppm (ppm_edges demo_ppm_board (\<lambda>_. 0) 8 (3000 # ppm_signal 3000 (replicate 7 (demo_frame [1000, 1100, 1500, 2000, 900]))) demo_ppm)))
     = [1000, 1100, 1500, 2000, 900]"
proof -
  have "frame_ok 5 (demo_frame [1000, 1100, 1500, 2000, 900])"
    by (rule demo_frame_ok) (simp_all add: channel_ok_def ppm_limits word_le_nat_alt)
  then have "\<forall>f \<in> set (replicate 7 (demo_frame [1000, 1100, 1500, 2000, 900])). frame_ok 5 f" by simp
  from ppm_decodes_signal [OF demo_ppm_start(3) demo_ppm_start(1) _ this, of 3000 "\<lambda>_. 0"]
  show ?thesis using demo_ppm_start(2) by (simp add: ppm_limits word_le_nat_alt demo_frame_def)
qed

text \<open>
  The lock takes longer than its name says: after a start, five frames of the same size do not lock the decoder, the sixth does,
  and the values of the seventh are the first to be published.
\<close>

theorem ppm_lock_takes_six:
  assumes s: "\<not> has_flag status (SR_OVF_PPM B)" and m: "at_mark m [] (ppm h)" "length (ppm_out (ppm h)) = 20" "ppm_channels (ppm h) = 0" "new_channel_count (ppm h) = 0"
    and f: "\<forall>f \<in> set fs. frame_ok n f" "5 \<le> n" "n \<le> 20"
  shows "lock_need n (ppm (ppm_edges B cnt status (ppm_signal m fs) h)) = 6 - length fs"
proof -
  have "at_mark m [] (ppm h) \<Longrightarrow> length (ppm_out (ppm h)) = 20 \<Longrightarrow> \<forall>f \<in> set fs. frame_ok n f \<Longrightarrow>
      lock_need n (ppm (ppm_edges B cnt status (ppm_signal m fs) h)) = lock_need n (ppm h) - length fs" for m h
  proof (induction fs arbitrary: m h)
    case (Cons f fs)
    then show ?case using frame_decoded [OF s Cons.prems(1) _ f(2,3) Cons.prems(2), of f cnt] by (simp add: ppm_edges_append)
  qed simp
  moreover have "(of_nat n :: u32) \<noteq> 0" using f(2,3) by (simp add: word_unat_eq_iff unat_of_nat)
  ultimately show ?thesis using m f(1) by (simp add: lock_need_def)
qed

end
