(* ===== verification/Hrt_Rc.thy ===== *)
theory Hrt_Rc
  imports Hrt_Ppm Px4io_Controls
begin

text \<open>
  The PPM decoder of the timer and its client in PX4IO: the decoder's exported variables are what \<open>ppm_input\<close> of the radio control
  input copies into the register page of the raw channels.
\<close>

section \<open>The exported variables\<close>

definition ppm_globals :: "ppm_decoder \<Rightarrow> controls_vars \<Rightarrow> controls_vars" where
  "ppm_globals p c = c\<lparr>ppm_last_valid_decode := ppm_last_valid p, ppm_decoded_channels := ppm_channels p, ppm_buffer := ppm_out p,
     ppm_frame_length := ppm_length p\<rparr>"

lemma ppm_input_registers:
  assumes p: "ppm_channels p = of_nat n" "length (ppm_out p) = 20" "0 < n" "n \<le> 20" and t: "t_ppm l - ppm_last_valid p < 200000"
    and s: "px4io_wf s"
    and r: "ppm_input l (ppm_globals p c, s) = (upd, c', s')"
  shows "upd" "r_page_raw_rc_input s' ! PX4IO_P_RAW_RC_COUNT = of_nat (min n 18)"
    "raw_values s' = take (min n 12) (ppm_out p) @ drop (min n 12) (raw_values s)" "ppm_last_valid_decode c' = 0"
proof -
  define k where "k = (if (of_nat n :: u16) > 18 then 18 else of_nat n :: u16)"
  have k: "k = of_nat (min n 18)" "unat k = min n 18" "min (unat k) 12 = min n 12"
    using p(4) by (auto simp: k_def word_less_nat_alt unat_of_nat)
  have n: "ucast (of_nat n :: u32) = (of_nat n :: u16)" using p(4) by (simp add: word_unat_eq_iff unsigned_ucast_eq unat_of_nat take_bit_eq_mod)
  have r': "upd = (k > 0)" "c' = (ppm_globals p c)\<lparr>ppm_last_valid_decode := 0\<rparr>"
    "s' = put_raw_rc PX4IO_P_RAW_RC_DATA (ppm_length p) (put_raw_values (take (min n 12) (ppm_out p)) (put_raw_rc PX4IO_P_RAW_RC_COUNT k s))"
    using r t p(1) k(3) n by (auto simp: ppm_input_def ppm_globals_def Let_def k_def)
  show "upd" "ppm_last_valid_decode c' = 0" using r'(1,2) k(2) p(3) by (simp_all add: word_gt_0_no unat_gt_0 [symmetric] word_less_nat_alt)
  have sl: "length (r_page_raw_rc_input s) = 25" using s by (simp add: px4io_wf_def)
  define v where "v = take (min n 12) (ppm_out p)"
  have v: "length v = min n 12" using p(2) by (simp add: v_def)
  have page: "r_page_raw_rc_input s' = (take 6 ((r_page_raw_rc_input s)[0 := k]) @ v @ drop (6 + length v) (r_page_raw_rc_input s))[3 := ppm_length p]"
    by (simp add: r'(3) v_def [symmetric] put_raw_values_def put_defs)
  show "r_page_raw_rc_input s' ! PX4IO_P_RAW_RC_COUNT = of_nat (min n 18)" using sl k(1) by (simp add: page nth_append)
  have "raw_values s' = v @ take (18 - length v) (drop (6 + length v) (r_page_raw_rc_input s))" using sl v by (simp add: raw_values_def page)
  then show "raw_values s' = take (min n 12) (ppm_out p) @ drop (min n 12) (raw_values s)"
    using sl v by (simp add: raw_values_def v_def [symmetric] drop_take add.commute)
qed

section \<open>From the receiver to the registers\<close>


definition demo_decoder :: "u16 list \<Rightarrow> ppm_decoder" where
  "demo_decoder vs = ppm (ppm_edges demo_ppm_board (\<lambda>_. 0) 8 (3000 # ppm_signal 3000 (replicate 7 (demo_frame vs))) demo_ppm)"

definition demo_ppm_link :: "ppm_decoder \<Rightarrow> rc_link" where
  "demo_ppm_link p = demo_link\<lparr>t_ppm := ppm_last_valid p + 100000\<rparr>"

lemma demo_ppm_facts:
  "PPM_MIN_START \<le> 3000 - last_edge (ppm demo_ppm)" "t_ppm (demo_ppm_link p) - ppm_last_valid p < 200000"
  "px4io_wf px4io_reset"
  by (simp_all add: px4io_wf_reset demo_ppm_start ppm_limits word_le_nat_alt demo_ppm_link_def word_less_nat_alt)


text \<open>
  A signal of more than 12 channels is announced with its number of channels, up to 18, but only the first 12 values are copied:
  the registers of the others keep whatever values they had.
\<close>

theorem ppm_channels_beyond_twelve_stale:
  assumes "\<not> has_flag status (SR_OVF_PPM B)" "ppm_ok (ppm h)" "PPM_MIN_START \<le> m - last_edge (ppm h)"
    "\<forall>f \<in> set fs. frame_ok n f" "7 \<le> length fs" "12 < n" "n \<le> 20"
    and p: "p = ppm (ppm_edges B cnt status (m # ppm_signal m fs) h)"
    and t: "t_ppm l - ppm_last_valid p < 200000" and s: "px4io_wf s"
    and r: "ppm_input l (ppm_globals p c, s) = (upd, c', s')"
  shows "upd \<and> unat (r_raw_rc_count s') = min n 18 \<and> drop 12 (raw_values s') = drop 12 (raw_values s)"
proof -
  have d: "ppm_channels p = of_nat n" using ppm_decoded_values [OF assms(1-5)] assms(6,7) by (simp add: p)
  have "ppm_ok p" using ppm_edges_ok [OF assms(2)] by (simp add: p)
  then have o: "length (ppm_out p) = 20" by (simp add: ppm_ok_def)
  from ppm_input_registers [OF d o _ _ t _ r] show ?thesis using s o assms(6,7) by (simp add: unat_of_nat)
qed

theorem ppm_channels_beyond_twelve_stale_witness:
  "drop 12 (raw_values (snd (snd (ppm_input (demo_ppm_link (demo_decoder (replicate 16 1500)))
      (ppm_globals (demo_decoder (replicate 16 1500)) demo_controls, px4io_reset))))) = drop 12 (raw_values px4io_reset)"
proof -
  have f: "frame_ok 16 (demo_frame (replicate 16 1500))"
    by (rule demo_frame_ok) (simp_all add: channel_ok_def ppm_limits word_le_nat_alt)
  obtain upd c' s' where r: "ppm_input (demo_ppm_link (demo_decoder (replicate 16 1500)))
      (ppm_globals (demo_decoder (replicate 16 1500)) demo_controls, px4io_reset) = (upd, c', s')" by (rule prod_cases3)
  have "\<forall>g \<in> set (replicate 7 (demo_frame (replicate 16 1500))). frame_ok 16 g" using f by simp
  from ppm_channels_beyond_twelve_stale [OF demo_ppm_start(3,1) demo_ppm_facts(1) this _ _ _ demo_decoder_def demo_ppm_facts(2,3) r]
  show ?thesis by (simp add: r)
qed

end
