(* ===== verification/Io_Timer.thy ===== *)
theory Io_Timer
  imports Px4_Prelude
begin

text \<open>
  The driver of the timers that make the PWM, OneShot and DShot outputs and read the capture inputs of the STM32 boards
  (\<open>stm/stm32_common/io_pins/io_timer.c\<close>): the allocation of channels to modes, the initialisation of timers and channels, the
  rate of a group of channels, the enabling of outputs and the capture interrupt.

  The tables of timers and channels come from a board's files, which the repository does not hold: they are the parameter \<open>bd\<close>,
  with \<open>MAX_IO_TIMERS\<close> and \<open>MAX_TIMER_IO_CHANNELS\<close> as the lengths of the tables. A peripheral register is addressed by the base of
  its timer and its offset, as \<open>_REG32\<close> does; a register holds what was written to it last, but the event register keeps
  nothing (a write is recorded in \<open>io_events\<close>), and a write of the status register only clears bits. The state is an
  extensible record: the drivers above this one add their own variables to it.
\<close>

section \<open>Constants\<close>

abbreviation IO_EIO :: int where "IO_EIO \<equiv> 5"
abbreviation IO_ENXIO :: int where "IO_ENXIO \<equiv> 6"
abbreviation IO_ENOMEM :: int where "IO_ENOMEM \<equiv> 12"
abbreviation IO_EBUSY :: int where "IO_EBUSY \<equiv> 16"
abbreviation IO_EINVAL :: int where "IO_EINVAL \<equiv> 22"
abbreviation IO_ERANGE :: int where "IO_ERANGE \<equiv> 34"

abbreviation GTIM_CR1 :: u32 where "GTIM_CR1 \<equiv> 0x00"
abbreviation GTIM_CR2 :: u32 where "GTIM_CR2 \<equiv> 0x04"
abbreviation GTIM_SMCR :: u32 where "GTIM_SMCR \<equiv> 0x08"
abbreviation GTIM_DIER :: u32 where "GTIM_DIER \<equiv> 0x0c"
abbreviation GTIM_SR :: u32 where "GTIM_SR \<equiv> 0x10"
abbreviation GTIM_EGR :: u32 where "GTIM_EGR \<equiv> 0x14"
abbreviation GTIM_CCMR1 :: u32 where "GTIM_CCMR1 \<equiv> 0x18"
abbreviation GTIM_CCMR2 :: u32 where "GTIM_CCMR2 \<equiv> 0x1c"
abbreviation GTIM_CCER :: u32 where "GTIM_CCER \<equiv> 0x20"
abbreviation GTIM_CNT :: u32 where "GTIM_CNT \<equiv> 0x24"
abbreviation GTIM_PSC :: u32 where "GTIM_PSC \<equiv> 0x28"
abbreviation GTIM_ARR :: u32 where "GTIM_ARR \<equiv> 0x2c"
abbreviation GTIM_CCR1 :: u32 where "GTIM_CCR1 \<equiv> 0x34"
abbreviation GTIM_CCR2 :: u32 where "GTIM_CCR2 \<equiv> 0x38"
abbreviation GTIM_CCR3 :: u32 where "GTIM_CCR3 \<equiv> 0x3c"
abbreviation GTIM_CCR4 :: u32 where "GTIM_CCR4 \<equiv> 0x40"
abbreviation ATIM_BDTR :: u32 where "ATIM_BDTR \<equiv> 0x44"
abbreviation GTIM_DCR :: u32 where "GTIM_DCR \<equiv> 0x48"
abbreviation GTIM_DMAR :: u32 where "GTIM_DMAR \<equiv> 0x4c"

abbreviation GTIM_CCER_CC1E :: u32 where "GTIM_CCER_CC1E \<equiv> 0x1"
abbreviation GTIM_CCER_CC1P :: u32 where "GTIM_CCER_CC1P \<equiv> 0x2"
abbreviation GTIM_CCER_CC1NP :: u32 where "GTIM_CCER_CC1NP \<equiv> 0x8"
abbreviation GTIM_CCER_CCxE :: u32 where "GTIM_CCER_CCxE \<equiv> 0x1111"
abbreviation GTIM_CR1_CEN :: u32 where "GTIM_CR1_CEN \<equiv> 0x1"
abbreviation GTIM_CR1_ARPE :: u32 where "GTIM_CR1_ARPE \<equiv> 0x80"
abbreviation GTIM_EGR_UG :: u32 where "GTIM_EGR_UG \<equiv> 0x1"
abbreviation GTIM_DIER_CC1IE :: u32 where "GTIM_DIER_CC1IE \<equiv> 0x2"
abbreviation ATIM_DIER_UDE :: u32 where "ATIM_DIER_UDE \<equiv> 0x100"
abbreviation ATIM_BDTR_MOE :: u32 where "ATIM_BDTR_MOE \<equiv> 0x8000"

definition GTIM_SR_CCIF :: u16 where "GTIM_SR_CCIF = 0x1e"
definition GTIM_SR_CCOF :: u16 where "GTIM_SR_CCOF = 0x1e00"

definition CCMR_C1_RESET :: u32 where "CCMR_C1_RESET = 0xff"
definition CCMR_C1_CAPTURE_INIT :: u32 where "CCMR_C1_CAPTURE_INIT = 1"
definition CCMR_C1_PWMOUT_INIT :: u32 where "CCMR_C1_PWMOUT_INIT = push_bit 4 6 OR 8"
definition CCMR_C1_PWMIN_INIT :: u32 where "CCMR_C1_PWMIN_INIT = 0"

abbreviation MAX_CHANNELS_PER_TIMER :: nat where "MAX_CHANNELS_PER_TIMER \<equiv> 4"
abbreviation IO_TIMER_ALL_MODES_CHANNELS :: u16 where "IO_TIMER_ALL_MODES_CHANNELS \<equiv> 0"
abbreviation PWM_RATE_ONESHOT :: u32 where "PWM_RATE_ONESHOT \<equiv> 0"
abbreviation DSHOT_MOTOR_PWM_BIT_WIDTH :: u32 where "DSHOT_MOTOR_PWM_BIT_WIDTH \<equiv> 20"

section \<open>The board and the state\<close>

datatype io_timer_channel_mode =
    IOTimerChanMode_NotUsed
  | IOTimerChanMode_PWMOut
  | IOTimerChanMode_PWMIn
  | IOTimerChanMode_Capture
  | IOTimerChanMode_OneShot
  | IOTimerChanMode_Trigger
  | IOTimerChanMode_Dshot
  | IOTimerChanModeSize

definition chan_modes :: "io_timer_channel_mode list" where
  "chan_modes = [IOTimerChanMode_NotUsed, IOTimerChanMode_PWMOut, IOTimerChanMode_PWMIn, IOTimerChanMode_Capture,
     IOTimerChanMode_OneShot, IOTimerChanMode_Trigger, IOTimerChanMode_Dshot]"

record io_timers_t =
  io_base :: u32
  io_clock_register :: u32
  io_clock_bit :: u32
  io_clock_freq :: u32
  io_vectorno :: u32
  io_dma_base :: u32
  io_dmamap :: u32

record channel_mapping_element =
  first_channel_index :: nat
  channel_count :: nat

record timer_io_channels_t =
  gpio_out :: u32
  gpio_in :: u32
  timer_index :: u8
  timer_channel :: u8
  chan_masks :: u16
  ccr_offset :: u8

record pwm_board =
  io_timers :: "io_timers_t list"
  io_timers_channel_mapping :: "channel_mapping_element list"
  timer_io_channels :: "timer_io_channels_t list"
  BOARD_HAS_CAPTURE :: bool
  HAVE_GTIM_CCXNP :: bool
  BOARD_PWM_DRIVE_ACTIVE_LOW :: bool
  BOARD_PWM_FREQ :: u32
  BOARD_ONESHOT_FREQ :: u32
  STM32_TIM1_BASE :: u32
  STM32_TIM8_BASE :: u32
  gpio_keep_bits :: u32
  gpio_output_bits :: u32

abbreviation MAX_IO_TIMERS :: "pwm_board \<Rightarrow> nat" where "MAX_IO_TIMERS bd \<equiv> length (io_timers bd)"
abbreviation MAX_TIMER_IO_CHANNELS :: "pwm_board \<Rightarrow> nat" where "MAX_TIMER_IO_CHANNELS bd \<equiv> length (timer_io_channels bd)"

definition CCER_C1_INIT :: "pwm_board \<Rightarrow> u32" where
  "CCER_C1_INIT bd = (if BOARD_PWM_DRIVE_ACTIVE_LOW bd then GTIM_CCER_CC1P OR GTIM_CCER_CC1E else GTIM_CCER_CC1E)"

definition HW_GTIM_CCER_CC1NP :: "pwm_board \<Rightarrow> u32" where
  "HW_GTIM_CCER_CC1NP bd = (if HAVE_GTIM_CCXNP bd then GTIM_CCER_CC1NP else 0)"

text \<open>
  \<open>io_regs\<close> holds the timers' registers, by base and offset, \<open>io_events\<close> the writes of their event registers, \<open>io_gpios\<close> the
  pins configured, \<open>io_clocks\<close> the clock enable registers and \<open>io_irqs\<close> the interrupt vectors attached with the number of the
  handler; the newest entry of each list is first.
\<close>

record channel_stat =
  isr_cout :: u32
  stat_overflows :: u32

record io_state =
  channel_allocations :: "io_timer_channel_mode \<Rightarrow> u16"
  once :: u8
  channels_cache :: "u32 list"
  io_timer_channel_stats :: "channel_stat list"
  io_channel_handlers :: "(nat option \<times> u32) list"
  io_regs :: "u32 \<Rightarrow> u32 \<Rightarrow> u32"
  io_events :: "(u32 \<times> u32) list"
  io_gpios :: "u32 list"
  io_clocks :: "u32 \<Rightarrow> u32"
  io_irqs :: "(u32 \<times> nat) list"

definition io_reset :: "pwm_board \<Rightarrow> io_state" where
  "io_reset bd = \<lparr>channel_allocations = (\<lambda>_. 0)(IOTimerChanMode_NotUsed := 0xffff), once = 0,
     channels_cache = replicate (MAX_IO_TIMERS bd) 0,
     io_timer_channel_stats = replicate (MAX_TIMER_IO_CHANNELS bd) \<lparr>isr_cout = 0, stat_overflows = 0\<rparr>,
     io_channel_handlers = replicate (MAX_TIMER_IO_CHANNELS bd) (None, 0),
     io_regs = (\<lambda>_ _. 0), io_events = [], io_gpios = [], io_clocks = (\<lambda>_. 0), io_irqs = []\<rparr>"

section \<open>Registers\<close>

definition REG32_write :: "u32 \<Rightarrow> u32 \<Rightarrow> u32 \<Rightarrow> 'a io_state_scheme \<Rightarrow> 'a io_state_scheme" where
  "REG32_write b off v s =
     (if off = GTIM_EGR then s\<lparr>io_events := (b, v) # io_events s\<rparr>
      else let v = (if off = GTIM_SR then io_regs s b off AND v else v)
        in s\<lparr>io_regs := (io_regs s)(b := (io_regs s b)(off := v))\<rparr>)"

definition tmr_base :: "pwm_board \<Rightarrow> nat \<Rightarrow> u32" where
  "tmr_base bd t = io_base (io_timers bd ! t)"

definition REG :: "pwm_board \<Rightarrow> nat \<Rightarrow> u32 \<Rightarrow> 'a io_state_scheme \<Rightarrow> u32" where
  "REG bd t off s = io_regs s (tmr_base bd t) off"

definition REG_write :: "pwm_board \<Rightarrow> nat \<Rightarrow> u32 \<Rightarrow> u32 \<Rightarrow> 'a io_state_scheme \<Rightarrow> 'a io_state_scheme" where
  "REG_write bd t off v s = REG32_write (tmr_base bd t) off v s"

text \<open>\<open>r &= ~clr; r |= set\<close> in a variable of 32 and of 16 bits.\<close>

definition rmw32 :: "u32 \<Rightarrow> u32 \<Rightarrow> u32 \<Rightarrow> u32" where
  "rmw32 v clr st = (v AND NOT clr) OR st"

definition rmw16 :: "u32 \<Rightarrow> u32 \<Rightarrow> u32 \<Rightarrow> u32" where
  "rmw16 v clr st = ucast (((ucast v :: u16) AND NOT (ucast clr)) OR ucast st)"

definition px4_arch_configgpio :: "u32 \<Rightarrow> 'a io_state_scheme \<Rightarrow> 'a io_state_scheme" where
  "px4_arch_configgpio g s = s\<lparr>io_gpios := g # io_gpios s\<rparr>"

section \<open>The capture interrupt\<close>

text \<open>
  The client's handler of a channel is called through a pointer; \<open>call\<close> gives what calling it with its context, the
  channel, the time and the count does to the state.
\<close>

type_synonym 's chan_call = "nat \<Rightarrow> u32 \<Rightarrow> nat \<Rightarrow> u64 \<Rightarrow> u16 \<Rightarrow> 's \<Rightarrow> 's"

definition handle_channel ::
    "pwm_board \<Rightarrow> 'a io_state_scheme chan_call \<Rightarrow> u64 \<Rightarrow> u16 \<Rightarrow> u16 \<Rightarrow> u16 \<Rightarrow> nat \<Rightarrow> 'a io_state_scheme \<Rightarrow> 'a io_state_scheme" where
  "handle_channel bd call now count statusr enabled chan s =
     (let masks = chan_masks (timer_io_channels bd ! chan) in
      if enabled AND masks = 0 then s
      else
        let s = (if statusr AND masks AND GTIM_SR_CCIF \<noteq> 0 then
              let st = io_timer_channel_stats s ! chan;
                  s = s\<lparr>io_timer_channel_stats := (io_timer_channel_stats s)[chan := st\<lparr>isr_cout := isr_cout st + 1\<rparr>]\<rparr>
              in (case io_channel_handlers s ! chan of
                    (Some f, ctx) \<Rightarrow> call f ctx chan now count s
                  | (None, _) \<Rightarrow> s)
            else s)
        in if statusr AND masks AND GTIM_SR_CCOF \<noteq> 0 then
             let st = io_timer_channel_stats s ! chan
             in s\<lparr>io_timer_channel_stats := (io_timer_channel_stats s)[chan := st\<lparr>stat_overflows := stat_overflows st + 1\<rparr>]\<rparr>
           else s)"

definition timer_channel_range :: "pwm_board \<Rightarrow> nat \<Rightarrow> nat list" where
  "timer_channel_range bd t =
     (let e = io_timers_channel_mapping bd ! t in [first_channel_index e..<first_channel_index e + channel_count e])"

definition io_timer_handler ::
    "pwm_board \<Rightarrow> 'a io_state_scheme chan_call \<Rightarrow> u64 \<Rightarrow> nat \<Rightarrow> 'a io_state_scheme \<Rightarrow> 'a io_state_scheme" where
  "io_timer_handler bd call now t s =
     (if BOARD_HAS_CAPTURE bd then
        let count = ucast (REG bd t GTIM_CNT s) :: u16;
            statusr = ucast (REG bd t GTIM_SR s) :: u16;
            enabled = ucast (REG bd t GTIM_DIER s) AND GTIM_SR_CCIF;
            s = fold (handle_channel bd call now count statusr enabled) (timer_channel_range bd t) s
        in REG_write bd t GTIM_SR (NOT (ucast statusr AND (ucast enabled OR push_bit 8 (ucast enabled)))) s
      else s)"

section \<open>Validation and allocation\<close>

definition validate_timer_index :: "pwm_board \<Rightarrow> nat \<Rightarrow> int" where
  "validate_timer_index bd t = (if t < MAX_IO_TIMERS bd \<and> tmr_base bd t \<noteq> 0 then 0 else - IO_EINVAL)"

definition is_timer_uninitalized :: "nat \<Rightarrow> 'a io_state_scheme \<Rightarrow> int" where
  "is_timer_uninitalized t s = (if has_flag (once s) (push_bit t 1) then - IO_EBUSY else 0)"

definition set_timer_initalized :: "nat \<Rightarrow> 'a io_state_scheme \<Rightarrow> 'a io_state_scheme" where
  "set_timer_initalized t s = s\<lparr>once := set_flag (once s) (push_bit t 1)\<rparr>"

definition set_timer_deinitalized :: "nat \<Rightarrow> 'a io_state_scheme \<Rightarrow> 'a io_state_scheme" where
  "set_timer_deinitalized t s = s\<lparr>once := clr_flag (once s) (push_bit t 1)\<rparr>"

definition channels_timer :: "pwm_board \<Rightarrow> nat \<Rightarrow> nat" where
  "channels_timer bd c = unat (timer_index (timer_io_channels bd ! c))"

definition get_timer_channels :: "pwm_board \<Rightarrow> nat \<Rightarrow> 'a io_state_scheme \<Rightarrow> u32 \<times> 'a io_state_scheme" where
  "get_timer_channels bd t s =
     (if validate_timer_index bd t < 0 then (0, s)
      else
        let s = (if channels_cache s ! t = 0 then
              let channels = fold (\<lambda>c m. m OR push_bit c 1) (timer_channel_range bd t) 0
              in s\<lparr>channels_cache := (channels_cache s)[t := channels]\<rparr>
            else s)
        in (channels_cache s ! t, s))"

definition io_timer_validate_channel_index :: "pwm_board \<Rightarrow> nat \<Rightarrow> int" where
  "io_timer_validate_channel_index bd c =
     (if c < MAX_TIMER_IO_CHANNELS bd \<and> timer_channel (timer_io_channels bd ! c) \<noteq> 0
         \<and> tmr_base bd (channels_timer bd c) \<noteq> 0
         \<and> gpio_out (timer_io_channels bd ! c) \<noteq> 0 \<and> gpio_in (timer_io_channels bd ! c) \<noteq> 0
      then 0 else - IO_EINVAL)"

definition io_timer_is_channel_free :: "pwm_board \<Rightarrow> nat \<Rightarrow> 'a io_state_scheme \<Rightarrow> int" where
  "io_timer_is_channel_free bd c s =
     (let rv = io_timer_validate_channel_index bd c in
      if rv = 0 \<and> \<not> has_flag (channel_allocations s IOTimerChanMode_NotUsed) (push_bit c 1) then - IO_EBUSY else rv)"

definition io_timer_channel_get_gpio_output :: "pwm_board \<Rightarrow> nat \<Rightarrow> u32" where
  "io_timer_channel_get_gpio_output bd c =
     (if io_timer_validate_channel_index bd c \<noteq> 0 then 0
      else (gpio_out (timer_io_channels bd ! c) AND gpio_keep_bits bd) OR gpio_output_bits bd)"

definition io_timer_channel_get_as_pwm_input :: "pwm_board \<Rightarrow> nat \<Rightarrow> u32" where
  "io_timer_channel_get_as_pwm_input bd c =
     (if io_timer_validate_channel_index bd c \<noteq> 0 then 0 else gpio_in (timer_io_channels bd ! c))"

definition io_timer_get_mode_channels :: "io_timer_channel_mode \<Rightarrow> 'a io_state_scheme \<Rightarrow> u32" where
  "io_timer_get_mode_channels mode s = (if mode \<noteq> IOTimerChanModeSize then ucast (channel_allocations s mode) else 0)"

text \<open>\<^term>\<open>None\<close> is the result \<open>-1\<close>.\<close>

definition io_timer_get_channel_mode :: "nat \<Rightarrow> 'a io_state_scheme \<Rightarrow> io_timer_channel_mode option" where
  "io_timer_get_channel_mode c s = List.find (\<lambda>m. has_flag (push_bit c 1) (channel_allocations s m)) chan_modes"

definition reallocate_channel_resources ::
    "u32 \<Rightarrow> io_timer_channel_mode \<Rightarrow> io_timer_channel_mode \<Rightarrow> 'a io_state_scheme \<Rightarrow> u32 \<times> 'a io_state_scheme" where
  "reallocate_channel_resources channels mode new_mode s =
     (let mode = (if channels AND ucast (channel_allocations s IOTimerChanMode_NotUsed) = channels
                  then IOTimerChanMode_NotUsed else mode);
          s = s\<lparr>channel_allocations := (channel_allocations s)(mode := clr_flag (channel_allocations s mode) (ucast channels))\<rparr>;
          before = ucast (channel_allocations s new_mode) AND channels;
          s = s\<lparr>channel_allocations := (channel_allocations s)(new_mode := set_flag (channel_allocations s new_mode) (ucast channels))\<rparr>
      in (before XOR channels, s))"

definition allocate_channel_resource ::
    "pwm_board \<Rightarrow> nat \<Rightarrow> io_timer_channel_mode \<Rightarrow> 'a io_state_scheme \<Rightarrow> int \<times> 'a io_state_scheme" where
  "allocate_channel_resource bd c mode s =
     (let rv = io_timer_is_channel_free bd c s in
      if rv = 0 then
        let b = push_bit c 1;
            s = s\<lparr>channel_allocations := (channel_allocations s)
                   (IOTimerChanMode_NotUsed := clr_flag (channel_allocations s IOTimerChanMode_NotUsed) b)\<rparr>;
            s = s\<lparr>channel_allocations := (channel_allocations s)(mode := set_flag (channel_allocations s mode) b)\<rparr>
        in (rv, s)
      else (rv, s))"

definition free_channel_resource ::
    "nat \<Rightarrow> 'a io_state_scheme \<Rightarrow> io_timer_channel_mode option \<times> 'a io_state_scheme" where
  "free_channel_resource c s =
     (case io_timer_get_channel_mode c s of
        None \<Rightarrow> (None, s)
      | Some mode \<Rightarrow>
          if mode \<noteq> IOTimerChanMode_NotUsed then
            let b = push_bit c 1;
                s = s\<lparr>channel_allocations := (channel_allocations s)(mode := clr_flag (channel_allocations s mode) b)\<rparr>;
                s = s\<lparr>channel_allocations := (channel_allocations s)
                       (IOTimerChanMode_NotUsed := set_flag (channel_allocations s IOTimerChanMode_NotUsed) b)\<rparr>
            in (Some mode, s)
          else (Some mode, s))"

definition allocate_channel ::
    "pwm_board \<Rightarrow> nat \<Rightarrow> io_timer_channel_mode \<Rightarrow> 'a io_state_scheme \<Rightarrow> int \<times> 'a io_state_scheme" where
  "allocate_channel bd c mode s =
     (if mode = IOTimerChanMode_NotUsed then (- IO_EINVAL, s)
      else let rv = io_timer_validate_channel_index bd c
        in if rv = 0 then allocate_channel_resource bd c mode s else (rv, s))"

section \<open>Rates and timers\<close>

definition timer_set_rate :: "pwm_board \<Rightarrow> nat \<Rightarrow> u32 \<Rightarrow> 'a io_state_scheme \<Rightarrow> 'a io_state_scheme" where
  "timer_set_rate bd t rate s = REG_write bd t GTIM_ARR (BOARD_PWM_FREQ bd div rate - 1) s"

definition io_timer_set_oneshot_mode :: "pwm_board \<Rightarrow> nat \<Rightarrow> 'a io_state_scheme \<Rightarrow> 'a io_state_scheme" where
  "io_timer_set_oneshot_mode bd t s =
     (let s = REG_write bd t GTIM_ARR 0xffffffff s;
          s = REG_write bd t GTIM_PSC (io_clock_freq (io_timers bd ! t) div BOARD_ONESHOT_FREQ bd - 1) s
      in REG_write bd t GTIM_EGR GTIM_EGR_UG s)"

definition io_timer_update_dma_req :: "pwm_board \<Rightarrow> nat \<Rightarrow> bool \<Rightarrow> 'a io_state_scheme \<Rightarrow> 'a io_state_scheme" where
  "io_timer_update_dma_req bd t enable s =
     REG_write bd t GTIM_DIER
       (if enable then set_flag (REG bd t GTIM_DIER s) ATIM_DIER_UDE else clr_flag (REG bd t GTIM_DIER s) ATIM_DIER_UDE) s"

definition tim_dma_burst_length :: "u8 \<Rightarrow> u32 option" where
  "tim_dma_burst_length n =
     (if n = 1 then Some 0 else if n = 2 then Some 0x100 else if n = 3 then Some 0x200 else if n = 4 then Some 0x300 else None)"

definition lowest_timer_channel :: "pwm_board \<Rightarrow> nat \<Rightarrow> u8" where
  "lowest_timer_channel bd t =
     fold (\<lambda>c low. if timer_channel (timer_io_channels bd ! c) < low then timer_channel (timer_io_channels bd ! c) else low)
       (timer_channel_range bd t) 4"

definition start_ccr_register :: "u8 \<Rightarrow> u32" where
  "start_ccr_register low = (if low = 1 then 0xd else if low = 2 then 0xe else if low = 3 then 0xf else if low = 4 then 0x10 else 0)"

definition io_timer_set_dshot_mode ::
    "pwm_board \<Rightarrow> nat \<Rightarrow> u32 \<Rightarrow> u8 \<Rightarrow> 'a io_state_scheme \<Rightarrow> int \<times> 'a io_state_scheme" where
  "io_timer_set_dshot_mode bd t dshot_pwm_freq dma_burst_length s =
     (case tim_dma_burst_length dma_burst_length of
        None \<Rightarrow> (- 1, s)
      | Some burst \<Rightarrow>
          let s = REG_write bd t GTIM_ARR DSHOT_MOTOR_PWM_BIT_WIDTH s;
              s = REG_write bd t GTIM_PSC
                    (io_clock_freq (io_timers bd ! t) div dshot_pwm_freq div DSHOT_MOTOR_PWM_BIT_WIDTH - 1) s;
              s = REG_write bd t GTIM_EGR GTIM_EGR_UG s
          in (0, REG_write bd t GTIM_DCR (start_ccr_register (lowest_timer_channel bd t) OR burst) s))"

definition io_timer_set_PWM_mode :: "pwm_board \<Rightarrow> nat \<Rightarrow> 'a io_state_scheme \<Rightarrow> 'a io_state_scheme" where
  "io_timer_set_PWM_mode bd t s = REG_write bd t GTIM_PSC (io_clock_freq (io_timers bd ! t) div BOARD_PWM_FREQ bd - 1) s"

definition trigger_scan :: "pwm_board \<Rightarrow> u32 \<Rightarrow> nat \<Rightarrow> u32 list \<times> 'a io_state_scheme \<Rightarrow> u32 list \<times> 'a io_state_scheme" where
  "trigger_scan bd oneshots t = (\<lambda>(actions, s).
     if validate_timer_index bd t = 0 then
       let (channels, s) = get_timer_channels bd t s
       in (if oneshots AND channels \<noteq> 0 then actions @ [tmr_base bd t] else actions, s)
     else (actions, s))"

definition io_timer_trigger :: "pwm_board \<Rightarrow> 'a io_state_scheme \<Rightarrow> 'a io_state_scheme" where
  "io_timer_trigger bd s =
     (let oneshots = io_timer_get_mode_channels IOTimerChanMode_OneShot s in
      if oneshots \<noteq> 0 then
        let (actions, s) = fold (trigger_scan bd oneshots) [0..<MAX_IO_TIMERS bd] ([], s)
        in fold (\<lambda>b s. REG32_write b GTIM_EGR (io_regs s b GTIM_EGR OR GTIM_EGR_UG) s) (takeWhile (\<lambda>b. b \<noteq> 0) actions) s
      else s)"

text \<open>
  \<open>modifyreg32\<close> clears and sets bits of a clock enable register. The registers of a timer that its initialisation
  clears are written in the order of the code.
\<close>

definition io_modifyreg32 :: "u32 \<Rightarrow> u32 \<Rightarrow> u32 \<Rightarrow> 'a io_state_scheme \<Rightarrow> 'a io_state_scheme" where
  "io_modifyreg32 a clr st s = s\<lparr>io_clocks := (io_clocks s)(a := rmw32 (io_clocks s a) clr st)\<rparr>"

definition cleared_regs :: "u32 list" where
  "cleared_regs = [GTIM_CR1, GTIM_CR2, GTIM_SMCR, GTIM_DIER, GTIM_CCER, GTIM_CCMR1, GTIM_CCMR2,
     GTIM_CCR1, GTIM_CCR2, GTIM_CCR3, GTIM_CCR4, GTIM_CCER, GTIM_DCR]"

definition io_timer_init_timer :: "pwm_board \<Rightarrow> nat \<Rightarrow> 'a io_state_scheme \<Rightarrow> int \<times> 'a io_state_scheme" where
  "io_timer_init_timer bd t s =
     (let rv = is_timer_uninitalized t s in
      if rv = 0 then
        let s = set_timer_initalized t s;
            s = io_modifyreg32 (io_clock_register (io_timers bd ! t)) 0 (io_clock_bit (io_timers bd ! t)) s;
            s = fold (\<lambda>off s. REG_write bd t off 0 s) cleared_regs s;
            s = (if tmr_base bd t = STM32_TIM1_BASE bd \<or> tmr_base bd t = STM32_TIM8_BASE bd
                 then REG_write bd t ATIM_BDTR ATIM_BDTR_MOE s else s);
            s = io_timer_set_PWM_mode bd t s;
            s = timer_set_rate bd t 50 s
        in if t < 8 then (rv, s\<lparr>io_irqs := (io_vectorno (io_timers bd ! t), t) # io_irqs s\<rparr>) else (- IO_EINVAL, s)
      else (rv, s))"

definition io_timer_set_rate :: "pwm_board \<Rightarrow> nat \<Rightarrow> u32 \<Rightarrow> 'a io_state_scheme \<Rightarrow> int \<times> 'a io_state_scheme" where
  "io_timer_set_rate bd t rate s =
     (let (channels, s) = get_timer_channels bd t s in
      if channels AND (ucast (channel_allocations s IOTimerChanMode_Dshot) OR ucast (channel_allocations s IOTimerChanMode_PWMOut)
           OR ucast (channel_allocations s IOTimerChanMode_OneShot) OR ucast (channel_allocations s IOTimerChanMode_NotUsed))
         = channels then
        if rate = PWM_RATE_ONESHOT then
          let (changePWMOut, s) = reallocate_channel_resources channels IOTimerChanMode_PWMOut IOTimerChanMode_OneShot s;
              (changeDshot, s) = reallocate_channel_resources channels IOTimerChanMode_Dshot IOTimerChanMode_OneShot s
          in (0, if changePWMOut OR changeDshot \<noteq> 0 then io_timer_set_oneshot_mode bd t s else s)
        else
          let (changeOneShot, s) = reallocate_channel_resources channels IOTimerChanMode_OneShot IOTimerChanMode_PWMOut s;
              (changeDshot, s) = reallocate_channel_resources channels IOTimerChanMode_Dshot IOTimerChanMode_PWMOut s;
              s = (if changeOneShot \<noteq> 0 \<or> changeDshot \<noteq> 0 then io_timer_set_PWM_mode bd t s else s)
          in (0, timer_set_rate bd t rate s)
      else (IO_EBUSY, s))"

section \<open>Channels\<close>

text \<open>What the mode decides: the pin, the bits of the channel's mode register, of its enable register and of the interrupts.\<close>

definition channel_setup :: "pwm_board \<Rightarrow> nat \<Rightarrow> io_timer_channel_mode \<Rightarrow> (u32 \<times> u32 \<times> u32 \<times> u32) option" where
  "channel_setup bd c mode =
     (case mode of
        IOTimerChanMode_OneShot \<Rightarrow> Some (0, CCMR_C1_PWMOUT_INIT, 0, 0)
      | IOTimerChanMode_PWMOut \<Rightarrow> Some (0, CCMR_C1_PWMOUT_INIT, 0, 0)
      | IOTimerChanMode_Trigger \<Rightarrow> Some (0, CCMR_C1_PWMOUT_INIT, 0, 0)
      | IOTimerChanMode_Dshot \<Rightarrow> Some (0, CCMR_C1_PWMOUT_INIT, 0, 0)
      | IOTimerChanMode_PWMIn \<Rightarrow>
          Some (gpio_in (timer_io_channels bd ! c), CCMR_C1_PWMIN_INIT, CCER_C1_INIT bd, GTIM_DIER_CC1IE)
      | IOTimerChanMode_Capture \<Rightarrow>
          if BOARD_HAS_CAPTURE bd
          then Some (gpio_in (timer_io_channels bd ! c), CCMR_C1_CAPTURE_INIT, CCER_C1_INIT bd, GTIM_DIER_CC1IE) else None
      | IOTimerChanMode_NotUsed \<Rightarrow> Some (0, 0, CCER_C1_INIT bd, GTIM_DIER_CC1IE)
      | IOTimerChanModeSize \<Rightarrow> None)"

definition chan_shifts :: "pwm_board \<Rightarrow> nat \<Rightarrow> u32" where
  "chan_shifts bd c = ucast (timer_channel (timer_io_channels bd ! c)) - 1"

definition configure_channel ::
    "pwm_board \<Rightarrow> nat \<Rightarrow> u32 \<times> u32 \<times> u32 \<times> u32 \<Rightarrow> nat option \<times> u32 \<Rightarrow> 'a io_state_scheme \<Rightarrow> 'a io_state_scheme" where
  "configure_channel bd c = (\<lambda>(gpio, setbits, ccer_setbits, dier_setbits) handler s.
     let s = (if gpio \<noteq> 0 then px4_arch_configgpio gpio s else s);
         timer = channels_timer bd c;
         shifts = chan_shifts bd c;
         ccmr_offset = GTIM_CCMR1 + drop_bit 1 shifts * 4;
         ccr_off = GTIM_CCR1 + shifts * 4;
         byte = unat ((shifts AND 1) * 8);
         s = REG_write bd timer ccmr_offset
               (rmw16 (REG bd timer ccmr_offset s) (push_bit byte CCMR_C1_RESET) (push_bit byte setbits)) s;
         s = REG_write bd timer ccr_off 0 s;
         nibble = unat (shifts * 4);
         s = REG_write bd timer GTIM_CCER
               (rmw16 (REG bd timer GTIM_CCER s)
                  (push_bit nibble (GTIM_CCER_CC1E OR GTIM_CCER_CC1P OR HW_GTIM_CCER_CC1NP bd))
                  (push_bit nibble ccer_setbits)) s
     in if BOARD_HAS_CAPTURE bd then
          REG_write bd timer GTIM_DIER (set_flag (REG bd timer GTIM_DIER s) (push_bit (unat shifts) dier_setbits))
            (s\<lparr>io_channel_handlers := (io_channel_handlers s)[c := handler]\<rparr>)
        else s)"

definition io_timer_channel_init ::
    "pwm_board \<Rightarrow> nat \<Rightarrow> io_timer_channel_mode \<Rightarrow> nat option \<times> u32 \<Rightarrow> 'a io_state_scheme \<Rightarrow> int \<times> 'a io_state_scheme" where
  "io_timer_channel_init bd c mode handler s =
     (case channel_setup bd c mode of
        None \<Rightarrow> (- IO_EINVAL, s)
      | Some setup \<Rightarrow>
          let (rv, s) = allocate_channel bd c mode s
          in if rv \<ge> 0 then (rv, configure_channel bd c setup handler (snd (io_timer_init_timer bd (channels_timer bd c) s)))
             else (rv, s))"

record action_cache_t =
  ac_ccer_clearbits :: u32
  ac_ccer_setbits :: u32
  ac_dier_setbits :: u32
  ac_dier_clearbits :: u32
  ac_base :: u32
  ac_gpio :: "u32 list"

definition action_clear :: action_cache_t where
  "action_clear = \<lparr>ac_ccer_clearbits = 0, ac_ccer_setbits = 0, ac_dier_setbits = 0, ac_dier_clearbits = 0, ac_base = 0,
     ac_gpio = replicate MAX_CHANNELS_PER_TIMER 0\<rparr>"

definition drives_output :: "io_timer_channel_mode \<Rightarrow> bool" where
  "drives_output mode \<longleftrightarrow> mode = IOTimerChanMode_PWMOut \<or> mode = IOTimerChanMode_OneShot
     \<or> mode = IOTimerChanMode_Dshot \<or> mode = IOTimerChanMode_Trigger"

text \<open>The bits of the interrupt enable register and of the control register that the mode decides.\<close>

definition enable_bits :: "bool \<Rightarrow> io_timer_channel_mode \<Rightarrow> (u32 \<times> u32) option" where
  "enable_bits state mode =
     (case mode of
        IOTimerChanMode_NotUsed \<Rightarrow> Some (0, GTIM_CR1_CEN OR GTIM_CR1_ARPE)
      | IOTimerChanMode_OneShot \<Rightarrow> Some (0, GTIM_CR1_CEN OR GTIM_CR1_ARPE)
      | IOTimerChanMode_PWMOut \<Rightarrow> Some (0, GTIM_CR1_CEN OR GTIM_CR1_ARPE)
      | IOTimerChanMode_Trigger \<Rightarrow> Some (0, GTIM_CR1_CEN OR GTIM_CR1_ARPE)
      | IOTimerChanMode_Dshot \<Rightarrow> Some (0, if state then GTIM_CR1_CEN else 0)
      | IOTimerChanMode_PWMIn \<Rightarrow> Some (if state then GTIM_DIER_CC1IE else 0, 0)
      | IOTimerChanMode_Capture \<Rightarrow> Some (if state then GTIM_DIER_CC1IE else 0, 0)
      | IOTimerChanModeSize \<Rightarrow> None)"

definition enable_scan ::
    "pwm_board \<Rightarrow> bool \<Rightarrow> io_timer_channel_mode \<Rightarrow> u32 \<Rightarrow> nat \<Rightarrow> u16 \<times> action_cache_t list \<Rightarrow> u16 \<times> action_cache_t list" where
  "enable_scan bd state mode dier_bit c = (\<lambda>(masks, cache).
     if has_flag masks (push_bit c 1) then
       let masks = clr_flag masks (push_bit c 1);
           shifts = chan_shifts bd c;
           nibble = unat (shifts * 4);
           timer = channels_timer bd c;
           a = cache ! timer;
           a = a\<lparr>ac_base := tmr_base bd timer,
                 ac_ccer_clearbits := ac_ccer_clearbits a OR push_bit nibble (CCER_C1_INIT bd),
                 ac_ccer_setbits := ac_ccer_setbits a OR push_bit nibble (if state then CCER_C1_INIT bd else 0),
                 ac_dier_clearbits := ac_dier_clearbits a OR push_bit (unat shifts) GTIM_DIER_CC1IE,
                 ac_dier_setbits := ac_dier_setbits a OR push_bit (unat shifts) dier_bit\<rparr>;
           a = (if state \<and> drives_output mode
                then a\<lparr>ac_gpio := (ac_gpio a)[unat shifts := gpio_out (timer_io_channels bd ! c)]\<rparr> else a)
       in (masks, cache[timer := a])
     else (masks, cache))"

definition enable_apply :: "pwm_board \<Rightarrow> u32 \<Rightarrow> action_cache_t list \<Rightarrow> nat \<Rightarrow> 'a io_state_scheme \<Rightarrow> 'a io_state_scheme" where
  "enable_apply bd cr1_bit cache t s =
     (let a = cache ! t in
      if ac_base a = 0 then s
      else
        let rvalue = rmw32 (io_regs s (ac_base a) GTIM_CCER) (ac_ccer_clearbits a) (ac_ccer_setbits a);
            s = REG32_write (ac_base a) GTIM_CCER rvalue s;
            after = rvalue AND GTIM_CCER_CCxE;
            rvalue = rmw32 (io_regs s (ac_base a) GTIM_DIER) (ac_dier_clearbits a) (ac_dier_setbits a);
            s = REG32_write (ac_base a) GTIM_DIER rvalue s
        in if after \<noteq> 0 then
             let s = REG_write bd t GTIM_EGR GTIM_EGR_UG s;
                 s = fold px4_arch_configgpio (filter (\<lambda>g. g \<noteq> 0) (ac_gpio a)) s
             in REG_write bd t GTIM_CR1 (set_flag (REG bd t GTIM_CR1 s) cr1_bit) s
           else REG_write bd t GTIM_CR1 0 s)"

definition io_timer_set_enable ::
    "pwm_board \<Rightarrow> bool \<Rightarrow> io_timer_channel_mode \<Rightarrow> u16 \<Rightarrow> 'a io_state_scheme \<Rightarrow> int \<times> 'a io_state_scheme" where
  "io_timer_set_enable bd state mode masks s =
     (case enable_bits state mode of
        None \<Rightarrow> (- IO_EINVAL, s)
      | Some (dier_bit, cr1_bit) \<Rightarrow>
          let masks = (if masks = IO_TIMER_ALL_MODES_CHANNELS then channel_allocations s mode
                       else masks AND channel_allocations s mode);
              (_, cache) = fold (enable_scan bd state mode dier_bit) [0..<MAX_TIMER_IO_CHANNELS bd]
                             (masks, replicate (MAX_IO_TIMERS bd) action_clear)
          in (0, fold (enable_apply bd cr1_bit cache) [0..<MAX_IO_TIMERS bd] s))"

definition io_timer_free_channel :: "pwm_board \<Rightarrow> nat \<Rightarrow> 'a io_state_scheme \<Rightarrow> int \<times> 'a io_state_scheme" where
  "io_timer_free_channel bd c s =
     (if io_timer_validate_channel_index bd c \<noteq> 0 then (- IO_EINVAL, s)
      else (case io_timer_get_channel_mode c s of
          None \<Rightarrow> (0, s)
        | Some mode \<Rightarrow>
            if mode \<noteq> IOTimerChanMode_NotUsed
            then (0, snd (free_channel_resource c (snd (io_timer_set_enable bd False mode (push_bit c 1) s))))
            else (0, s)))"

definition io_timer_set_ccr :: "pwm_board \<Rightarrow> nat \<Rightarrow> u16 \<Rightarrow> 'a io_state_scheme \<Rightarrow> int \<times> 'a io_state_scheme" where
  "io_timer_set_ccr bd c v s =
     (let rv = io_timer_validate_channel_index bd c; mode = io_timer_get_channel_mode c s in
      if rv = 0 then
        (case mode of
           None \<Rightarrow> (- IO_EIO, s)
         | Some m \<Rightarrow>
             if \<not> drives_output m then (- IO_EIO, s)
             else (rv, REG_write bd (channels_timer bd c) (ucast (ccr_offset (timer_io_channels bd ! c))) (ucast v) s))
      else (rv, s))"

definition io_channel_get_ccr :: "pwm_board \<Rightarrow> nat \<Rightarrow> 'a io_state_scheme \<Rightarrow> u16" where
  "io_channel_get_ccr bd c s =
     (if io_timer_validate_channel_index bd c = 0 then
        (case io_timer_get_channel_mode c s of
           Some m \<Rightarrow> if m \<in> {IOTimerChanMode_PWMOut, IOTimerChanMode_OneShot, IOTimerChanMode_Trigger}
             then ucast (REG bd (channels_timer bd c) (ucast (ccr_offset (timer_io_channels bd ! c))) s) else 0
         | None \<Rightarrow> 0)
      else 0)"

definition io_timer_get_group :: "pwm_board \<Rightarrow> nat \<Rightarrow> 'a io_state_scheme \<Rightarrow> u32 \<times> 'a io_state_scheme" where
  "io_timer_get_group bd t s = get_timer_channels bd t s"

end
