(* ===== verification/Io_Channels.thy ===== *)
theory Io_Channels
  imports Io_Timer
begin

text \<open>
  The allocation of channels seen from outside: what a board's tables promise, the owner of a channel, whether its output is
  on, the invariant of the driver and what each of its operations does to them.
\<close>

section \<open>What the tables of a board promise\<close>

definition valid_channel :: "pwm_board \<Rightarrow> nat \<Rightarrow> bool" where
  "valid_channel bd c \<longleftrightarrow> io_timer_validate_channel_index bd c = 0"

definition chan_pos :: "pwm_board \<Rightarrow> nat \<Rightarrow> nat" where
  "chan_pos bd c = unat (timer_channel (timer_io_channels bd ! c)) - 1"

definition channel_entry_ok :: "pwm_board \<Rightarrow> nat \<Rightarrow> bool" where
  "channel_entry_ok bd c \<longleftrightarrow> channels_timer bd c < MAX_IO_TIMERS bd
     \<and> timer_channel (timer_io_channels bd ! c) \<in> {1, 2, 3, 4}
     \<and> ccr_offset (timer_io_channels bd ! c) = 0x34 + 4 * (timer_channel (timer_io_channels bd ! c) - 1)"

text \<open>
  At most eight timers and sixteen channels, as the widths of \<open>once\<close> and of the allocation masks require; no two timers
  share registers, no two channels an output of a timer; and the channels of a timer are the run of entries that the mapping gives.
\<close>

definition pwm_board_ok :: "pwm_board \<Rightarrow> bool" where
  "pwm_board_ok bd \<longleftrightarrow> MAX_IO_TIMERS bd \<le> 8 \<and> MAX_TIMER_IO_CHANNELS bd \<le> 16
     \<and> length (io_timers_channel_mapping bd) = MAX_IO_TIMERS bd
     \<and> (\<forall>t \<in> {..<MAX_IO_TIMERS bd}. \<forall>u \<in> {..<MAX_IO_TIMERS bd}. t \<noteq> u \<longrightarrow> tmr_base bd t \<noteq> 0 \<longrightarrow> tmr_base bd t \<noteq> tmr_base bd u)
     \<and> (\<forall>c \<in> {..<MAX_TIMER_IO_CHANNELS bd}. valid_channel bd c \<longrightarrow> channel_entry_ok bd c)
     \<and> (\<forall>c \<in> {..<MAX_TIMER_IO_CHANNELS bd}. \<forall>d \<in> {..<MAX_TIMER_IO_CHANNELS bd}. valid_channel bd c \<and> valid_channel bd d \<and> c \<noteq> d \<longrightarrow>
          channels_timer bd c = channels_timer bd d \<longrightarrow> chan_pos bd c \<noteq> chan_pos bd d)
     \<and> (\<forall>t \<in> {..<MAX_IO_TIMERS bd}. tmr_base bd t \<noteq> 0 \<longrightarrow>
          set (timer_channel_range bd t) = {c \<in> {..<MAX_TIMER_IO_CHANNELS bd}. valid_channel bd c \<and> channels_timer bd c = t})"

lemma valid_channelD:
  assumes "valid_channel bd c"
  shows "c < MAX_TIMER_IO_CHANNELS bd" and "tmr_base bd (channels_timer bd c) \<noteq> 0"
    and "gpio_out (timer_io_channels bd ! c) \<noteq> 0" and "gpio_in (timer_io_channels bd ! c) \<noteq> 0"
  using assms by (auto simp: valid_channel_def io_timer_validate_channel_index_def split: if_splits)

lemma board_entry: "pwm_board_ok bd \<Longrightarrow> valid_channel bd c \<Longrightarrow> channel_entry_ok bd c"
  using valid_channelD(1) [of bd c] by (simp add: pwm_board_ok_def)

lemma board_channel_timer: "pwm_board_ok bd \<Longrightarrow> valid_channel bd c \<Longrightarrow> channels_timer bd c < MAX_IO_TIMERS bd"
  using board_entry by (auto simp: channel_entry_ok_def)

lemma board_channel_bound: "pwm_board_ok bd \<Longrightarrow> valid_channel bd c \<Longrightarrow> c < 16"
  using valid_channelD(1) [of bd c] by (simp add: pwm_board_ok_def)

lemma board_base_inj:
  "pwm_board_ok bd \<Longrightarrow> t < MAX_IO_TIMERS bd \<Longrightarrow> u < MAX_IO_TIMERS bd \<Longrightarrow> tmr_base bd t \<noteq> 0 \<Longrightarrow>
   tmr_base bd t = tmr_base bd u \<longleftrightarrow> t = u"
  by (auto simp: pwm_board_ok_def)

lemma board_pos_inj:
  assumes "pwm_board_ok bd" "valid_channel bd c" "valid_channel bd d" "channels_timer bd c = channels_timer bd d"
  shows "chan_pos bd c = chan_pos bd d \<longleftrightarrow> c = d"
  using assms valid_channelD(1) [of bd c] valid_channelD(1) [of bd d] by (auto simp: pwm_board_ok_def)

lemma board_range:
  "pwm_board_ok bd \<Longrightarrow> t < MAX_IO_TIMERS bd \<Longrightarrow> tmr_base bd t \<noteq> 0 \<Longrightarrow>
   c \<in> set (timer_channel_range bd t) \<longleftrightarrow> valid_channel bd c \<and> channels_timer bd c = t"
  using valid_channelD(1) [of bd c] by (auto simp: pwm_board_ok_def)

lemma chan_shifts:
  assumes "pwm_board_ok bd" "valid_channel bd c"
  shows "unat (chan_shifts bd c) = chan_pos bd c" and "unat (chan_shifts bd c * 4) = 4 * chan_pos bd c"
    and "chan_pos bd c < 4" and "chan_shifts bd c = of_nat (chan_pos bd c)"
  using board_entry [OF assms] by (auto simp: channel_entry_ok_def chan_shifts_def chan_pos_def)

section \<open>Registers\<close>

lemma REG32_write_fields [simp]:
  "channel_allocations (REG32_write b off v s) = channel_allocations s"
  "once (REG32_write b off v s) = once s"
  "channels_cache (REG32_write b off v s) = channels_cache s"
  "io_timer_channel_stats (REG32_write b off v s) = io_timer_channel_stats s"
  "io_channel_handlers (REG32_write b off v s) = io_channel_handlers s"
  "io_gpios (REG32_write b off v s) = io_gpios s"
  "io_clocks (REG32_write b off v s) = io_clocks s"
  "io_irqs (REG32_write b off v s) = io_irqs s"
  "io_state.more (REG32_write b off v s) = io_state.more s"
  by (simp_all add: REG32_write_def Let_def)

lemma regs_REG32_write:
  "io_regs (REG32_write b off v s) b' off' =
     (if b' = b \<and> off' = off \<and> off \<noteq> GTIM_EGR then if off = GTIM_SR then io_regs s b off AND v else v else io_regs s b' off')"
  by (auto simp: REG32_write_def Let_def)

lemma REG_write_fields [simp]:
  "channel_allocations (REG_write bd t off v s) = channel_allocations s"
  "once (REG_write bd t off v s) = once s"
  "channels_cache (REG_write bd t off v s) = channels_cache s"
  "io_timer_channel_stats (REG_write bd t off v s) = io_timer_channel_stats s"
  "io_channel_handlers (REG_write bd t off v s) = io_channel_handlers s"
  "io_gpios (REG_write bd t off v s) = io_gpios s"
  "io_clocks (REG_write bd t off v s) = io_clocks s"
  "io_irqs (REG_write bd t off v s) = io_irqs s"
  "io_state.more (REG_write bd t off v s) = io_state.more s"
  by (simp_all add: REG_write_def)

lemma regs_REG_write:
  "io_regs (REG_write bd t off v s) b off' =
     (if b = tmr_base bd t \<and> off' = off \<and> off \<noteq> GTIM_EGR then if off = GTIM_SR then io_regs s b off AND v else v
      else io_regs s b off')"
  by (simp add: REG_write_def regs_REG32_write)

lemma configgpio_fields [simp]:
  "channel_allocations (px4_arch_configgpio g s) = channel_allocations s"
  "once (px4_arch_configgpio g s) = once s"
  "channels_cache (px4_arch_configgpio g s) = channels_cache s"
  "io_timer_channel_stats (px4_arch_configgpio g s) = io_timer_channel_stats s"
  "io_channel_handlers (px4_arch_configgpio g s) = io_channel_handlers s"
  "io_regs (px4_arch_configgpio g s) = io_regs s"
  "io_state.more (px4_arch_configgpio g s) = io_state.more s"
  by (simp_all add: px4_arch_configgpio_def)

lemma fold_configgpio_fields [simp]:
  "channel_allocations (fold px4_arch_configgpio gs s) = channel_allocations s"
  "once (fold px4_arch_configgpio gs s) = once s"
  "channels_cache (fold px4_arch_configgpio gs s) = channels_cache s"
  "io_timer_channel_stats (fold px4_arch_configgpio gs s) = io_timer_channel_stats s"
  "io_channel_handlers (fold px4_arch_configgpio gs s) = io_channel_handlers s"
  "io_regs (fold px4_arch_configgpio gs s) = io_regs s"
  "io_state.more (fold px4_arch_configgpio gs s) = io_state.more s"
  by (induction gs arbitrary: s) simp_all

section \<open>Owners\<close>

lemma mode_in_chan_modes: "m \<in> set chan_modes \<longleftrightarrow> m \<noteq> IOTimerChanModeSize"
  by (cases m) (simp_all add: chan_modes_def)

lemma has_flag_channel [flag_simps]:
  "has_flag r (push_bit c 1) \<longleftrightarrow> bit r c" "has_flag (push_bit c 1) r \<longleftrightarrow> bit r c"
  "has_flag r (2 ^ c) \<longleftrightarrow> bit r c" "has_flag (2 ^ c) r \<longleftrightarrow> bit r c"
  using has_flag_bit [of r c] by (simp_all add: has_flag_def and.commute push_bit_of_1)

text \<open>Each of the sixteen bits is in one mask: \<open>owners s f\<close> says that the masks are those of the owner map \<open>f\<close>.\<close>

definition owners :: "'a io_state_scheme \<Rightarrow> (nat \<Rightarrow> io_timer_channel_mode) \<Rightarrow> bool" where
  "owners s f \<longleftrightarrow> (\<forall>c < 16. f c \<noteq> IOTimerChanModeSize
     \<and> (\<forall>m. m \<noteq> IOTimerChanModeSize \<longrightarrow> bit (channel_allocations s m) c \<longleftrightarrow> m = f c))"

definition owner :: "'a io_state_scheme \<Rightarrow> nat \<Rightarrow> io_timer_channel_mode" where
  "owner s c = (case io_timer_get_channel_mode c s of Some m \<Rightarrow> m | None \<Rightarrow> IOTimerChanModeSize)"

lemma owners_mode: "owners s f \<Longrightarrow> c < 16 \<Longrightarrow> io_timer_get_channel_mode c s = Some (f c)"
proof -
  assume o: "owners s f" and c: "c < 16"
  have "io_timer_get_channel_mode c s \<noteq> None"
    using o c by (auto simp: io_timer_get_channel_mode_def find_None_iff has_flag_channel owners_def mode_in_chan_modes)
  then obtain m where m: "io_timer_get_channel_mode c s = Some m" by auto
  then have "m \<in> set chan_modes" "bit (channel_allocations s m) c"
    by (auto simp: io_timer_get_channel_mode_def find_Some_iff has_flag_channel)
  then show ?thesis using o c m by (auto simp: owners_def mode_in_chan_modes)
qed

lemma owners_owner: "owners s f \<Longrightarrow> c < 16 \<Longrightarrow> owner s c = f c"
  by (simp add: owner_def owners_mode)

lemma owners_cong: "owners s f \<Longrightarrow> (\<And>c. c < 16 \<Longrightarrow> f c = g c) \<Longrightarrow> owners s g"
  by (simp add: owners_def)

lemma owners_self: "owners s f \<Longrightarrow> owners s (owner s)"
  using owners_cong [of s f "owner s"] owners_owner [of s f] by simp

lemma owners_same_masks: "channel_allocations s' = channel_allocations s \<Longrightarrow> owners s' f \<longleftrightarrow> owners s f"
  by (simp add: owners_def)

lemma owner_same_masks: "channel_allocations s' = channel_allocations s \<Longrightarrow> owner s' = owner s"
  by (simp add: owner_def io_timer_get_channel_mode_def fun_eq_iff)

lemma owners_bit: "owners s f \<Longrightarrow> c < 16 \<Longrightarrow> m \<noteq> IOTimerChanModeSize \<Longrightarrow> bit (channel_allocations s m) c \<longleftrightarrow> m = f c"
  by (simp add: owners_def)

lemma owners_move:
  assumes "owners s f" "c < 16" "m \<noteq> IOTimerChanModeSize" "m \<noteq> f c"
  shows "owners (s\<lparr>channel_allocations := (channel_allocations s)
           (f c := clr_flag (channel_allocations s (f c)) (push_bit c 1), m := set_flag (channel_allocations s m) (push_bit c 1))\<rparr>)
         (f(c := m))"
  using assms by (auto simp: owners_def flag_simps bit_simps)

section \<open>The invariant\<close>

definition output_on :: "pwm_board \<Rightarrow> 'a io_state_scheme \<Rightarrow> nat \<Rightarrow> bool" where
  "output_on bd s c \<longleftrightarrow> bit (REG bd (channels_timer bd c) GTIM_CCER s) (4 * chan_pos bd c)"

definition group_mask :: "pwm_board \<Rightarrow> nat \<Rightarrow> u32" where
  "group_mask bd t = fold (\<lambda>c m. m OR push_bit c 1) (timer_channel_range bd t) 0"

text \<open>
  The invariant of the driver: the masks are those of an owner map, a channel in use is one of the board, an unused one has its output
  off, and the cache of the groups is empty or right.
\<close>

definition io_inv :: "pwm_board \<Rightarrow> 'a io_state_scheme \<Rightarrow> bool" where
  "io_inv bd s \<longleftrightarrow> pwm_board_ok bd \<and> owners s (owner s)
     \<and> (\<forall>c < 16. owner s c \<noteq> IOTimerChanMode_NotUsed \<longrightarrow> valid_channel bd c)
     \<and> (\<forall>c. valid_channel bd c \<longrightarrow> owner s c = IOTimerChanMode_NotUsed \<longrightarrow> \<not> output_on bd s c)
     \<and> length (channels_cache s) = MAX_IO_TIMERS bd
     \<and> (\<forall>t < MAX_IO_TIMERS bd. channels_cache s ! t = 0 \<or> channels_cache s ! t = group_mask bd t)"

lemma io_inv_reset: "pwm_board_ok bd \<Longrightarrow> io_inv bd (io_reset bd)"
proof -
  assume b: "pwm_board_ok bd"
  have "bit (0xffff :: u16) c" if "c < 16" for c
  proof -
    have "(0xffff :: u16) = mask 16" by (simp add: mask_eq_exp_minus_1)
    then show ?thesis using that by (simp only: bit_mask_iff) simp
  qed
  then have o: "owners (io_reset bd) (\<lambda>_. IOTimerChanMode_NotUsed)"
    by (auto simp: owners_def io_reset_def)
  then have "owner (io_reset bd) c = IOTimerChanMode_NotUsed" if "c < 16" for c using owners_owner that by blast
  then show ?thesis using b o owners_self [OF o]
    by (auto simp: io_inv_def output_on_def REG_def io_reset_def)
qed

lemmas io_invD = io_inv_def [THEN iffD1, THEN conjunct1]
  io_inv_def [THEN iffD1, THEN conjunct2, THEN conjunct1]

lemma bit_CCER_C1_INIT: "bit (CCER_C1_INIT bd) n \<longleftrightarrow> n = 0 \<or> n = 1 \<and> BOARD_PWM_DRIVE_ACTIVE_LOW bd"
proof -
  have "CCER_C1_INIT bd = mask (if BOARD_PWM_DRIVE_ACTIVE_LOW bd then 2 else 1)"
    by (simp add: CCER_C1_INIT_def mask_eq_exp_minus_1)
  then show ?thesis by (simp only: bit_mask_iff) auto
qed

lemma bit_push_C1: "bit (push_bit (4 * a) (CCER_C1_INIT bd)) (4 * b) \<longleftrightarrow> a = b \<and> b < 8"
  by (auto simp: bit_push_bit_iff bit_CCER_C1_INIT)

section \<open>Enabling outputs\<close>

text \<open>
  What the first loop of \<open>io_timer_set_enable\<close> gathers for one timer from the channels \<open>S\<close> of it, and for all timers when it has
  seen the channels below \<open>n\<close>.
\<close>

definition entry_for :: "pwm_board \<Rightarrow> bool \<Rightarrow> u32 \<Rightarrow> nat \<Rightarrow> nat set \<Rightarrow> action_cache_t \<Rightarrow> bool" where
  "entry_for bd state dier_bit t S a \<longleftrightarrow>
     ac_base a = (if S = {} then 0 else tmr_base bd t)
   \<and> (\<forall>k. bit (ac_ccer_clearbits a) k \<longleftrightarrow> (\<exists>c \<in> S. bit (push_bit (4 * chan_pos bd c) (CCER_C1_INIT bd)) k))
   \<and> (\<forall>k. bit (ac_ccer_setbits a) k \<longleftrightarrow> state \<and> (\<exists>c \<in> S. bit (push_bit (4 * chan_pos bd c) (CCER_C1_INIT bd)) k))
   \<and> (\<forall>k. bit (ac_dier_clearbits a) k \<longleftrightarrow> (\<exists>c \<in> S. bit (push_bit (chan_pos bd c) GTIM_DIER_CC1IE) k))
   \<and> (\<forall>k. bit (ac_dier_setbits a) k \<longleftrightarrow> (\<exists>c \<in> S. bit (push_bit (chan_pos bd c) dier_bit) k))"

lemma entry_forD:
  assumes "entry_for bd state dier_bit t S a"
  shows "bit (ac_ccer_clearbits a) k \<longleftrightarrow> (\<exists>c \<in> S. bit (push_bit (4 * chan_pos bd c) (CCER_C1_INIT bd)) k)"
    and "bit (ac_ccer_setbits a) k \<longleftrightarrow> state \<and> (\<exists>c \<in> S. bit (push_bit (4 * chan_pos bd c) (CCER_C1_INIT bd)) k)"
    and "bit (ac_dier_clearbits a) k \<longleftrightarrow> (\<exists>c \<in> S. bit (push_bit (chan_pos bd c) GTIM_DIER_CC1IE) k)"
    and "bit (ac_dier_setbits a) k \<longleftrightarrow> (\<exists>c \<in> S. bit (push_bit (chan_pos bd c) dier_bit) k)"
  using assms unfolding entry_for_def by blast+

definition gathered :: "pwm_board \<Rightarrow> bool \<Rightarrow> u32 \<Rightarrow> u16 \<Rightarrow> nat \<Rightarrow> u16 \<times> action_cache_t list \<Rightarrow> bool" where
  "gathered bd state dier_bit m n = (\<lambda>(m', cache).
     (\<forall>c. bit m' c \<longleftrightarrow> bit m c \<and> n \<le> c) \<and> length cache = MAX_IO_TIMERS bd
     \<and> (\<forall>t < MAX_IO_TIMERS bd. entry_for bd state dier_bit t {c. c < n \<and> bit m c \<and> channels_timer bd c = t} (cache ! t)))"

definition entry_add ::
    "pwm_board \<Rightarrow> bool \<Rightarrow> io_timer_channel_mode \<Rightarrow> u32 \<Rightarrow> nat \<Rightarrow> action_cache_t \<Rightarrow> action_cache_t" where
  "entry_add bd state mode dier_bit c a =
     (let a = a\<lparr>ac_base := tmr_base bd (channels_timer bd c),
                 ac_ccer_clearbits := ac_ccer_clearbits a OR push_bit (4 * chan_pos bd c) (CCER_C1_INIT bd),
                 ac_ccer_setbits := ac_ccer_setbits a OR push_bit (4 * chan_pos bd c) (if state then CCER_C1_INIT bd else 0),
                 ac_dier_clearbits := ac_dier_clearbits a OR push_bit (chan_pos bd c) GTIM_DIER_CC1IE,
                 ac_dier_setbits := ac_dier_setbits a OR push_bit (chan_pos bd c) dier_bit\<rparr>
      in if state \<and> drives_output mode
         then a\<lparr>ac_gpio := (ac_gpio a)[chan_pos bd c := gpio_out (timer_io_channels bd ! c)]\<rparr> else a)"

lemma enable_scan_add:
  assumes "pwm_board_ok bd" "valid_channel bd c" "bit m c"
  shows "enable_scan bd state mode dier_bit c (m, cache) =
    (clr_flag m (push_bit c 1), cache[channels_timer bd c := entry_add bd state mode dier_bit c (cache ! channels_timer bd c)])"
  using chan_shifts [OF assms(1,2)] assms(3) by (simp add: enable_scan_def entry_add_def flag_simps Let_def)

lemma entry_add_for:
  "entry_for bd state dier_bit (channels_timer bd c) S a \<Longrightarrow>
   entry_for bd state dier_bit (channels_timer bd c) (insert c S) (entry_add bd state mode dier_bit c a)"
  unfolding entry_for_def entry_add_def Let_def by (intro conjI) (auto simp: bit_or_iff)

lemma gathered_start: "gathered bd state dier_bit m 0 (m, replicate (MAX_IO_TIMERS bd) action_clear)"
  by (auto simp: gathered_def entry_for_def action_clear_def)

lemma seen_Suc:
  "{c. c < Suc n \<and> bit m c \<and> channels_timer bd c = t} =
   (if bit m n \<and> channels_timer bd n = t then insert n {c. c < n \<and> bit m c \<and> channels_timer bd c = t}
    else {c. c < n \<and> bit m c \<and> channels_timer bd c = t})"
  by (auto simp: less_Suc_eq)

lemma gathered_step:
  assumes g: "gathered bd state dier_bit m n r" and b: "pwm_board_ok bd" and v: "bit m n \<Longrightarrow> valid_channel bd n"
  shows "gathered bd state dier_bit m (Suc n) (enable_scan bd state mode dier_bit n r)"
proof -
  obtain m' cache where r: "r = (m', cache)" by (cases r)
  have m': "bit m' c \<longleftrightarrow> bit m c \<and> n \<le> c" for c using g by (simp add: r gathered_def)
  show ?thesis
  proof (cases "bit m n")
    case False
    then have "enable_scan bd state mode dier_bit n r = r" by (simp add: r enable_scan_def flag_simps m')
    then show ?thesis using g False by (auto simp: r gathered_def seen_Suc m' Suc_le_eq le_less)
  next
    case True
    let ?t = "channels_timer bd n"
    have t: "?t < MAX_IO_TIMERS bd" using board_channel_timer b v True by blast
    have "enable_scan bd state mode dier_bit n r =
        (clr_flag m' (push_bit n 1), cache[?t := entry_add bd state mode dier_bit n (cache ! ?t)])"
      unfolding r by (rule enable_scan_add [OF b v [OF True]]) (simp add: m' True)
    moreover have "bit (clr_flag m' (push_bit n 1)) c \<longleftrightarrow> bit m c \<and> Suc n \<le> c" for c
      by (auto simp: flag_simps m' bit_exp_iff push_bit_of_1 dest: bit_imp_le_length)
    moreover have "entry_for bd state dier_bit t {c. c < Suc n \<and> bit m c \<and> channels_timer bd c = t}
        (cache[?t := entry_add bd state mode dier_bit n (cache ! ?t)] ! t)" if "t < MAX_IO_TIMERS bd" for t
      using g t True that by (auto simp: r gathered_def seen_Suc nth_list_update intro: entry_add_for)
    ultimately show ?thesis using g by (simp add: r gathered_def)
  qed
qed

lemma gathered_all:
  assumes "pwm_board_ok bd" and "\<And>c. bit m c \<Longrightarrow> valid_channel bd c"
  shows "gathered bd state dier_bit m n
    (fold (enable_scan bd state mode dier_bit) [0..<n] (m, replicate (MAX_IO_TIMERS bd) action_clear))"
  by (induction n) (simp_all add: gathered_start gathered_step assms)


text \<open>The second loop writes the registers of the timers with an entry and of no other.\<close>

lemma enable_apply_fields [simp]:
  "channel_allocations (enable_apply bd cr1_bit cache t s) = channel_allocations s"
  "once (enable_apply bd cr1_bit cache t s) = once s"
  "channels_cache (enable_apply bd cr1_bit cache t s) = channels_cache s"
  "io_timer_channel_stats (enable_apply bd cr1_bit cache t s) = io_timer_channel_stats s"
  "io_channel_handlers (enable_apply bd cr1_bit cache t s) = io_channel_handlers s"
  "io_state.more (enable_apply bd cr1_bit cache t s) = io_state.more s"
  by (simp_all add: enable_apply_def Let_def)

lemma fold_enable_apply_fields [simp]:
  "channel_allocations (fold (enable_apply bd cr1_bit cache) ts s) = channel_allocations s"
  "once (fold (enable_apply bd cr1_bit cache) ts s) = once s"
  "channels_cache (fold (enable_apply bd cr1_bit cache) ts s) = channels_cache s"
  "io_timer_channel_stats (fold (enable_apply bd cr1_bit cache) ts s) = io_timer_channel_stats s"
  "io_channel_handlers (fold (enable_apply bd cr1_bit cache) ts s) = io_channel_handlers s"
  "io_state.more (fold (enable_apply bd cr1_bit cache) ts s) = io_state.more s"
  by (induction ts arbitrary: s) simp_all

definition entry_regs :: "u32 \<Rightarrow> action_cache_t \<Rightarrow> (u32 \<Rightarrow> u32) \<Rightarrow> u32 \<Rightarrow> u32" where
  "entry_regs cr1_bit a r =
     (let ccer = rmw32 (r GTIM_CCER) (ac_ccer_clearbits a) (ac_ccer_setbits a) in
      r(GTIM_CCER := ccer, GTIM_DIER := rmw32 (r GTIM_DIER) (ac_dier_clearbits a) (ac_dier_setbits a),
        GTIM_CR1 := (if ccer AND GTIM_CCER_CCxE \<noteq> 0 then set_flag (r GTIM_CR1) cr1_bit else 0)))"

lemma enable_apply_regs:
  assumes "ac_base (cache ! t) = 0 \<or> ac_base (cache ! t) = tmr_base bd t"
  shows "io_regs (enable_apply bd cr1_bit cache t s) b =
    (if b = ac_base (cache ! t) \<and> b \<noteq> 0 then entry_regs cr1_bit (cache ! t) (io_regs s b) else io_regs s b)"
proof (cases "ac_base (cache ! t) = 0")
  case False
  then have "ac_base (cache ! t) = tmr_base bd t" using assms by simp
  then show ?thesis using False
    by (auto simp: fun_eq_iff enable_apply_def entry_regs_def Let_def regs_REG32_write regs_REG_write REG_def)
qed (simp add: enable_apply_def)

lemma fold_enable_apply_regs:
  assumes "pwm_board_ok bd" "n \<le> MAX_IO_TIMERS bd" "t < MAX_IO_TIMERS bd" "tmr_base bd t \<noteq> 0"
    and "\<And>t. t < MAX_IO_TIMERS bd \<Longrightarrow> ac_base (cache ! t) = 0 \<or> ac_base (cache ! t) = tmr_base bd t"
  shows "io_regs (fold (enable_apply bd cr1_bit cache) [0..<n] s) (tmr_base bd t) =
    (if t < n \<and> ac_base (cache ! t) \<noteq> 0 then entry_regs cr1_bit (cache ! t) (io_regs s (tmr_base bd t))
     else io_regs s (tmr_base bd t))"
  using assms(2)
proof (induction n)
  case (Suc n)
  have n: "n < MAX_IO_TIMERS bd" using Suc.prems by simp
  have bn: "tmr_base bd t = tmr_base bd n \<longleftrightarrow> t = n" using board_base_inj [OF assms(1,3) n assms(4)] .
  have IH: "io_regs (fold (enable_apply bd cr1_bit cache) [0..<n] s) (tmr_base bd t) =
    (if t < n \<and> ac_base (cache ! t) \<noteq> 0 then entry_regs cr1_bit (cache ! t) (io_regs s (tmr_base bd t))
     else io_regs s (tmr_base bd t))" using Suc n by simp
  have step: "io_regs (fold (enable_apply bd cr1_bit cache) [0..<Suc n] s) (tmr_base bd t) =
    (if tmr_base bd t = ac_base (cache ! n) then entry_regs cr1_bit (cache ! n) (io_regs (fold (enable_apply bd cr1_bit cache) [0..<n] s) (tmr_base bd t))
     else io_regs (fold (enable_apply bd cr1_bit cache) [0..<n] s) (tmr_base bd t))"
    using enable_apply_regs [OF assms(5) [OF n], of cr1_bit "fold (enable_apply bd cr1_bit cache) [0..<n] s" "tmr_base bd t"] assms(4)
    by simp
  show ?case
  proof (cases "t = n")
    case True
    then show ?thesis using step IH assms(4) assms(5) [OF n] by (cases "ac_base (cache ! n) = 0") auto
  next
    case False
    then have "tmr_base bd t \<noteq> ac_base (cache ! n)" using bn assms(4) assms(5) [OF n] by auto
    then show ?thesis using step IH False by (auto simp: less_Suc_eq)
  qed
qed simp

definition selected :: "io_timer_channel_mode \<Rightarrow> u16 \<Rightarrow> 'a io_state_scheme \<Rightarrow> u16" where
  "selected mode masks s =
     (if masks = IO_TIMER_ALL_MODES_CHANNELS then channel_allocations s mode else masks AND channel_allocations s mode)"

lemma set_enable_fields [simp]:
  "channel_allocations (snd (io_timer_set_enable bd state mode masks s)) = channel_allocations s"
  "once (snd (io_timer_set_enable bd state mode masks s)) = once s"
  "channels_cache (snd (io_timer_set_enable bd state mode masks s)) = channels_cache s"
  "io_timer_channel_stats (snd (io_timer_set_enable bd state mode masks s)) = io_timer_channel_stats s"
  "io_channel_handlers (snd (io_timer_set_enable bd state mode masks s)) = io_channel_handlers s"
  "io_state.more (snd (io_timer_set_enable bd state mode masks s)) = io_state.more s"
  by (auto simp: io_timer_set_enable_def Let_def split: option.splits prod.splits)

text \<open>The registers of a timer after \<open>io_timer_set_enable\<close>: as before, or as an entry for its selected channels says.\<close>

lemma set_enable_regs:
  assumes b: "pwm_board_ok bd" and v: "\<And>c. bit (selected mode masks s) c \<Longrightarrow> valid_channel bd c"
    and e: "enable_bits state mode = Some (dier_bit, cr1_bit)" and t: "t < MAX_IO_TIMERS bd" "tmr_base bd t \<noteq> 0"
  obtains a where
    "entry_for bd state dier_bit t {c. bit (selected mode masks s) c \<and> channels_timer bd c = t} a"
    "io_regs (snd (io_timer_set_enable bd state mode masks s)) (tmr_base bd t) =
       (if \<exists>c. bit (selected mode masks s) c \<and> channels_timer bd c = t
        then entry_regs cr1_bit a (io_regs s (tmr_base bd t)) else io_regs s (tmr_base bd t))"
proof -
  let ?m = "selected mode masks s" and ?C = "MAX_TIMER_IO_CHANNELS bd"
  obtain m' cache where f: "fold (enable_scan bd state mode dier_bit) [0..<?C] (?m, replicate (MAX_IO_TIMERS bd) action_clear)
      = (m', cache)" by fastforce
  have "{c. c < ?C \<and> bit ?m c \<and> channels_timer bd c = u} = {c. bit ?m c \<and> channels_timer bd c = u}" for u
    using v valid_channelD(1) by blast
  then have g: "entry_for bd state dier_bit u {c. bit ?m c \<and> channels_timer bd c = u} (cache ! u)" if "u < MAX_IO_TIMERS bd" for u
    using gathered_all [OF b v, where m = ?m and state = state and dier_bit = dier_bit and n = ?C and mode = mode] that by (simp add: f gathered_def)
  have base: "ac_base (cache ! u) = (if \<exists>c. bit ?m c \<and> channels_timer bd c = u then tmr_base bd u else 0)"
    if "u < MAX_IO_TIMERS bd" for u using g [OF that] by (auto simp: entry_for_def)
  have eq: "snd (io_timer_set_enable bd state mode masks s) = fold (enable_apply bd cr1_bit cache) [0..<MAX_IO_TIMERS bd] s"
    using e f by (simp add: io_timer_set_enable_def flip: selected_def)
  have "ac_base (cache ! u) = 0 \<or> ac_base (cache ! u) = tmr_base bd u" if "u < MAX_IO_TIMERS bd" for u
    using base [OF that] by presburger
  then have "io_regs (snd (io_timer_set_enable bd state mode masks s)) (tmr_base bd t) =
      (if ac_base (cache ! t) \<noteq> 0 then entry_regs cr1_bit (cache ! t) (io_regs s (tmr_base bd t)) else io_regs s (tmr_base bd t))"
    unfolding eq using fold_enable_apply_regs [OF b order_refl t, of cache cr1_bit s] t(1) by simp
  then have "io_regs (snd (io_timer_set_enable bd state mode masks s)) (tmr_base bd t) =
      (if \<exists>c. bit ?m c \<and> channels_timer bd c = t
       then entry_regs cr1_bit (cache ! t) (io_regs s (tmr_base bd t)) else io_regs s (tmr_base bd t))"
    using base [OF t(1)] t(2) by auto
  then show ?thesis by (rule that [OF g [OF t(1)]])
qed

text \<open>The outputs after \<open>io_timer_set_enable\<close>: those selected are as asked for, the others as before.\<close>

lemma set_enable_output:
  assumes b: "pwm_board_ok bd" and v: "\<And>c. bit (selected mode masks s) c \<Longrightarrow> valid_channel bd c"
    and m: "mode \<noteq> IOTimerChanModeSize" and c: "valid_channel bd c"
  shows "output_on bd (snd (io_timer_set_enable bd state mode masks s)) c \<longleftrightarrow>
    (if bit (selected mode masks s) c then state else output_on bd s c)"
proof -
  obtain dier_bit cr1_bit where e: "enable_bits state mode = Some (dier_bit, cr1_bit)"
    using m by (cases mode) (auto simp: enable_bits_def)
  let ?t = "channels_timer bd c" and ?m = "selected mode masks s"
  let ?S = "{d. bit ?m d \<and> channels_timer bd d = ?t}"
  obtain a where a: "entry_for bd state dier_bit ?t ?S a"
    and r: "io_regs (snd (io_timer_set_enable bd state mode masks s)) (tmr_base bd ?t) =
       (if \<exists>d. bit ?m d \<and> channels_timer bd d = ?t then entry_regs cr1_bit a (io_regs s (tmr_base bd ?t)) else io_regs s (tmr_base bd ?t))"
    by (rule set_enable_regs [OF b v e board_channel_timer [OF b c] valid_channelD(2) [OF c]])
  have "bit (push_bit (4 * chan_pos bd d) (CCER_C1_INIT bd)) (4 * chan_pos bd c) \<longleftrightarrow> d = c" if "d \<in> ?S" for d
  proof -
    have "valid_channel bd d" "channels_timer bd d = ?t" using that v by simp_all
    then have "chan_pos bd d = chan_pos bd c \<longleftrightarrow> d = c" using board_pos_inj [OF b _ c] by blast
    then show ?thesis using chan_shifts(3) [OF b c] by (simp add: bit_push_C1)
  qed
  then have "(\<exists>d \<in> ?S. bit (push_bit (4 * chan_pos bd d) (CCER_C1_INIT bd)) (4 * chan_pos bd c)) \<longleftrightarrow> bit ?m c" by auto
  then have "bit (ac_ccer_clearbits a) (4 * chan_pos bd c) \<longleftrightarrow> bit ?m c"
    "bit (ac_ccer_setbits a) (4 * chan_pos bd c) \<longleftrightarrow> state \<and> bit ?m c"
    unfolding entry_forD [OF a] by simp_all
  moreover have "4 * chan_pos bd c < 32" using chan_shifts(3) [OF b c] by simp
  ultimately have new: "bit (rmw32 x (ac_ccer_clearbits a) (ac_ccer_setbits a)) (4 * chan_pos bd c) \<longleftrightarrow>
      (if bit ?m c then state else bit x (4 * chan_pos bd c))" for x
    unfolding rmw32_def by (simp add: bit_or_iff bit_and_iff bit_not_iff)
  show ?thesis
  proof (cases "?S = {}")
    case True
    then have "\<not> bit ?m c" and "\<not> (\<exists>d. bit ?m d \<and> channels_timer bd d = ?t)" by auto
    then show ?thesis unfolding output_on_def REG_def r by (simp only: if_False)
  next
    case False
    then have "\<exists>d. bit ?m d \<and> channels_timer bd d = ?t" by auto
    then have "REG bd ?t GTIM_CCER (snd (io_timer_set_enable bd state mode masks s)) =
        rmw32 (REG bd ?t GTIM_CCER s) (ac_ccer_clearbits a) (ac_ccer_setbits a)"
      unfolding REG_def r entry_regs_def Let_def by simp
    then show ?thesis unfolding output_on_def by (simp only: new)
  qed
qed


section \<open>Releasing and claiming a channel\<close>

lemma io_inv_owners: "io_inv bd s \<Longrightarrow> owners s (owner s)"
  by (simp add: io_inv_def)

lemma io_inv_board: "io_inv bd s \<Longrightarrow> pwm_board_ok bd"
  by (simp add: io_inv_def)

lemma io_inv_owner_bit:
  "io_inv bd s \<Longrightarrow> m \<noteq> IOTimerChanModeSize \<Longrightarrow> bit (channel_allocations s m) c \<longleftrightarrow> c < 16 \<and> owner s c = m"
  using bit_imp_le_length [of "channel_allocations s m" c] owners_bit [OF io_inv_owners, of bd s c m] by auto

lemma io_inv_mode: "io_inv bd s \<Longrightarrow> c < 16 \<Longrightarrow> io_timer_get_channel_mode c s = Some (owner s c)"
  by (simp add: owners_mode io_inv_owners)

lemma io_inv_mode_named: "io_inv bd s \<Longrightarrow> c < 16 \<Longrightarrow> owner s c \<noteq> IOTimerChanModeSize"
  using io_inv_owners by (auto simp: owners_def)

lemma io_inv_used_valid: "io_inv bd s \<Longrightarrow> c < 16 \<Longrightarrow> owner s c \<noteq> IOTimerChanMode_NotUsed \<Longrightarrow> valid_channel bd c"
  by (simp add: io_inv_def)

lemma io_inv_idle: "io_inv bd s \<Longrightarrow> valid_channel bd c \<Longrightarrow> owner s c = IOTimerChanMode_NotUsed \<Longrightarrow> \<not> output_on bd s c"
  by (simp add: io_inv_def)

lemma io_invI:
  assumes "io_inv bd s" "owners s' f" "channels_cache s' = channels_cache s"
    and "\<And>c. c < 16 \<Longrightarrow> f c \<noteq> IOTimerChanMode_NotUsed \<Longrightarrow> valid_channel bd c"
    and "\<And>c. valid_channel bd c \<Longrightarrow> f c = IOTimerChanMode_NotUsed \<Longrightarrow> \<not> output_on bd s' c"
  shows "io_inv bd s'"
proof -
  have "valid_channel bd c \<Longrightarrow> c < 16" for c using board_channel_bound io_inv_board [OF assms(1)] by blast
  then have "\<forall>c. valid_channel bd c \<longrightarrow> owner s' c = f c" "\<forall>c < 16. owner s' c = f c"
    using owners_owner [OF assms(2)] by blast+
  then show ?thesis
    using assms(1,3-5) owners_self [OF assms(2)] unfolding io_inv_def by metis
qed

lemma io_inv_selected:
  assumes "io_inv bd s" "m \<noteq> IOTimerChanModeSize"
  shows "bit (selected m masks s) c \<longleftrightarrow> c < 16 \<and> owner s c = m \<and> (masks = 0 \<or> bit masks c)"
  using io_inv_owner_bit [OF assms] by (auto simp: selected_def bit_and_iff)

lemma io_inv_selected_valid:
  assumes "io_inv bd s" "m \<noteq> IOTimerChanModeSize" "m \<noteq> IOTimerChanMode_NotUsed" "bit (selected m masks s) c"
  shows "valid_channel bd c"
  using assms io_inv_used_valid [OF assms(1)] by (auto simp: io_inv_selected)

lemma set_enable_owned:
  assumes "io_inv bd s" "m \<noteq> IOTimerChanModeSize" "m \<noteq> IOTimerChanMode_NotUsed" "valid_channel bd c"
  shows "output_on bd (snd (io_timer_set_enable bd state m masks s)) c \<longleftrightarrow>
    (if owner s c = m \<and> (masks = 0 \<or> bit masks c) then state else output_on bd s c)"
proof -
  have "c < 16" using board_channel_bound io_inv_board assms by blast
  then have "bit (selected m masks s) c \<longleftrightarrow> owner s c = m \<and> (masks = 0 \<or> bit masks c)"
    using io_inv_selected [OF assms(1,2)] by simp
  moreover have "valid_channel bd d" if "bit (selected m masks s) d" for d
    using io_inv_selected_valid [OF assms(1-3) that] .
  ultimately show ?thesis
    using set_enable_output [OF io_inv_board [OF assms(1)], of m masks s c state] assms(2,4) by simp
qed

lemma set_enable_inv:
  assumes "io_inv bd s" "m \<noteq> IOTimerChanModeSize" "m \<noteq> IOTimerChanMode_NotUsed"
  shows "io_inv bd (snd (io_timer_set_enable bd state m masks s))"
proof (rule io_invI [OF assms(1), of _ "owner s"])
  show "owners (snd (io_timer_set_enable bd state m masks s)) (owner s)"
    using io_inv_owners [OF assms(1)] by (simp add: owners_def)
  show "\<not> output_on bd (snd (io_timer_set_enable bd state m masks s)) c"
    if "valid_channel bd c" "owner s c = IOTimerChanMode_NotUsed" for c
    using set_enable_owned [OF assms that(1)] io_inv_idle [OF assms(1) that] assms(3) that(2) by simp
qed (use assms(1) io_inv_used_valid in auto)

lemma owners_release:
  assumes "owners s f" "c < 16"
  shows "owners (snd (free_channel_resource c s)) (f(c := IOTimerChanMode_NotUsed))"
  using assms owners_move [OF assms, of IOTimerChanMode_NotUsed]
  by (cases "f c = IOTimerChanMode_NotUsed")
    (auto simp: free_channel_resource_def owners_mode [OF assms] fun_upd_idem Let_def fun_upd_apply)

lemma free_resource_fields [simp]:
  "once (snd (free_channel_resource c s)) = once s"
  "channels_cache (snd (free_channel_resource c s)) = channels_cache s"
  "io_regs (snd (free_channel_resource c s)) = io_regs s"
  "io_channel_handlers (snd (free_channel_resource c s)) = io_channel_handlers s"
  "io_state.more (snd (free_channel_resource c s)) = io_state.more s"
  by (auto simp: free_channel_resource_def Let_def split: option.splits)

lemma free_channel:
  assumes i: "io_inv bd s" and c: "valid_channel bd c"
  shows "io_inv bd (snd (io_timer_free_channel bd c s))
    \<and> (\<forall>d < 16. owner (snd (io_timer_free_channel bd c s)) d = (if d = c then IOTimerChanMode_NotUsed else owner s d))
    \<and> (\<forall>d. valid_channel bd d \<longrightarrow> output_on bd (snd (io_timer_free_channel bd c s)) d \<longleftrightarrow> d \<noteq> c \<and> output_on bd s d)"
proof -
  have b: "pwm_board_ok bd" and c16: "c < 16" using io_inv_board [OF i] board_channel_bound c by blast+
  let ?m = "owner s c" and ?s = "snd (io_timer_free_channel bd c s)"
  show ?thesis
  proof (cases "?m = IOTimerChanMode_NotUsed")
    case True
    then have "?s = s" using c io_inv_mode [OF i c16] by (simp add: io_timer_free_channel_def valid_channel_def)
    then show ?thesis using i True io_inv_idle [OF i] by auto
  next
    case False
    let ?e = "snd (io_timer_set_enable bd False ?m (push_bit c 1) s)"
    have m: "?m \<noteq> IOTimerChanModeSize" using io_inv_mode_named [OF i c16] .
    have eq: "?s = snd (free_channel_resource c ?e)" using c io_inv_mode [OF i c16] False
      by (simp add: io_timer_free_channel_def valid_channel_def)
    have "owners ?e (owner s)" using io_inv_owners [OF i] by (simp add: owners_def)
    then have o: "owners ?s ((owner s)(c := IOTimerChanMode_NotUsed))" unfolding eq by (rule owners_release [OF _ c16])
    have bits: "bit (push_bit c 1 :: u16) k \<longleftrightarrow> k = c" for k using c16 by (auto simp: bit_exp_iff push_bit_of_1)
    moreover have "\<not> bit (0 :: u16) c" by simp
    ultimately have "(push_bit c 1 :: u16) \<noteq> 0" by metis
    then have on: "output_on bd ?s k \<longleftrightarrow> k \<noteq> c \<and> output_on bd s k" if "valid_channel bd k" for k
      using set_enable_owned [OF i m False that, of False "push_bit c 1"] unfolding bits eq
      by (auto simp: output_on_def REG_def)
    have "io_inv bd ?s"
    proof (rule io_invI [OF i o])
      show "channels_cache ?s = channels_cache s" by (simp add: eq)
    qed (use on io_inv_used_valid [OF i] io_inv_idle [OF i] in \<open>auto split: if_splits\<close>)
    then show ?thesis using on owners_owner [OF o] by simp
  qed
qed


lemma owners_allocate:
  assumes "owners s f" "c < 16" "f c = IOTimerChanMode_NotUsed" "m \<noteq> IOTimerChanMode_NotUsed" "m \<noteq> IOTimerChanModeSize"
    and "valid_channel bd c"
  shows "fst (allocate_channel bd c m s) = 0" and "owners (snd (allocate_channel bd c m s)) (f(c := m))"
  using assms owners_move [OF assms(1,2,5)] owners_bit [OF assms(1,2), of IOTimerChanMode_NotUsed]
  by (auto simp: allocate_channel_def allocate_channel_resource_def io_timer_is_channel_free_def valid_channel_def flag_simps Let_def)

lemma allocate_fields [simp]:
  "once (snd (allocate_channel bd c m s)) = once s"
  "channels_cache (snd (allocate_channel bd c m s)) = channels_cache s"
  "io_regs (snd (allocate_channel bd c m s)) = io_regs s"
  "io_channel_handlers (snd (allocate_channel bd c m s)) = io_channel_handlers s"
  "io_state.more (snd (allocate_channel bd c m s)) = io_state.more s"
  by (simp_all add: allocate_channel_def allocate_channel_resource_def Let_def)

lemma allocate_refused:
  assumes "owners s f" "c < 16" "f c \<noteq> IOTimerChanMode_NotUsed \<or> \<not> valid_channel bd c" "m \<noteq> IOTimerChanMode_NotUsed"
  shows "snd (allocate_channel bd c m s) = s" and "fst (allocate_channel bd c m s) < 0"
  using assms owners_bit [OF assms(1,2), of IOTimerChanMode_NotUsed]
  by (auto simp: allocate_channel_def allocate_channel_resource_def io_timer_is_channel_free_def valid_channel_def flag_simps Let_def
        io_timer_validate_channel_index_def split: if_splits)

text \<open>The initialisation of a timer switches its outputs off the first time, and does nothing the other times.\<close>

lemma init_timer_fields [simp]:
  "channel_allocations (snd (io_timer_init_timer bd t s)) = channel_allocations s"
  "channels_cache (snd (io_timer_init_timer bd t s)) = channels_cache s"
  "io_channel_handlers (snd (io_timer_init_timer bd t s)) = io_channel_handlers s"
  "io_state.more (snd (io_timer_init_timer bd t s)) = io_state.more s"
  by (simp_all add: io_timer_init_timer_def set_timer_initalized_def io_modifyreg32_def cleared_regs_def
        io_timer_set_PWM_mode_def timer_set_rate_def Let_def)

lemma init_timer_ccer:
  "io_regs (snd (io_timer_init_timer bd t s)) b GTIM_CCER =
     (if b = tmr_base bd t \<and> \<not> bit (once s) t then 0 else io_regs s b GTIM_CCER)"
proof -
  have "has_flag (once s) (push_bit t 1) \<longleftrightarrow> bit (once s) t" by (rule has_flag_bit)
  then show ?thesis
    by (auto simp: io_timer_init_timer_def is_timer_uninitalized_def set_timer_initalized_def io_modifyreg32_def cleared_regs_def
          io_timer_set_PWM_mode_def timer_set_rate_def Let_def regs_REG_write push_bit_of_1)
qed

lemma configure_fields [simp]:
  "channel_allocations (configure_channel bd c st h s) = channel_allocations s"
  "once (configure_channel bd c st h s) = once s"
  "channels_cache (configure_channel bd c st h s) = channels_cache s"
  "io_state.more (configure_channel bd c st h s) = io_state.more s"
  by (simp_all add: configure_channel_def Let_def split: prod.splits)

lemma pos_cases: "pwm_board_ok bd \<Longrightarrow> valid_channel bd c \<Longrightarrow> chan_pos bd c \<in> {0, 1, 2, 3}"
  using chan_shifts(3) [of bd c] by auto

lemma configure_ccer:
  assumes "pwm_board_ok bd" "valid_channel bd c"
  shows "io_regs (configure_channel bd c (g, sb, ccer, dier) h s) b GTIM_CCER =
    (if b = tmr_base bd (channels_timer bd c)
     then rmw16 (io_regs s b GTIM_CCER) (push_bit (4 * chan_pos bd c) (GTIM_CCER_CC1E OR GTIM_CCER_CC1P OR HW_GTIM_CCER_CC1NP bd))
            (push_bit (4 * chan_pos bd c) ccer)
     else io_regs s b GTIM_CCER)"
proof -
  have off: "GTIM_CCMR1 + drop_bit 1 (chan_shifts bd c) * 4 \<noteq> GTIM_CCER" "GTIM_CCR1 + chan_shifts bd c * 4 \<noteq> GTIM_CCER"
    using pos_cases [OF assms] unfolding chan_shifts(4) [OF assms] by auto
  then show ?thesis
    using chan_shifts [OF assms]
    by (simp add: configure_channel_def Let_def regs_REG_write REG_def del: push_bit_of_1)
qed


lemma bit_rmw16: "k < 16 \<Longrightarrow> bit (rmw16 v clr st) k \<longleftrightarrow> bit v k \<and> \<not> bit clr k \<or> bit st k"
  by (auto simp: rmw16_def bit_simps)

lemma bit_nibble_clear:
  assumes "a < 4" "b < 4"
  shows "bit (push_bit (4 * a) (GTIM_CCER_CC1E OR GTIM_CCER_CC1P OR HW_GTIM_CCER_CC1NP bd)) (4 * b) \<longleftrightarrow> a = b"
proof -
  have "a \<in> {0, 1, 2, 3}" "b \<in> {0, 1, 2, 3}" using assms by auto
  then show ?thesis by (auto simp: HW_GTIM_CCER_CC1NP_def bit_push_bit_iff bit_iff_odd)
qed

text \<open>The bits of a mode for the enable register are none, or those that switch the channel on.\<close>

lemma channel_setup_ccer:
  assumes "channel_setup bd c m = Some (g, sb, ccer, dier)"
  shows "ccer = (if drives_output m then 0 else CCER_C1_INIT bd)"
  using assms by (cases m) (auto simp: channel_setup_def drives_output_def split: if_splits)

lemma configure_output:
  assumes b: "pwm_board_ok bd" and c: "valid_channel bd c" and d: "valid_channel bd d"
    and st: "channel_setup bd c m = Some st"
  shows "output_on bd (configure_channel bd c st h s) d \<longleftrightarrow> (if d = c then \<not> drives_output m else output_on bd s d)"
proof -
  obtain g sb ccer dier where eq: "st = (g, sb, ccer, dier)" by (cases st)
  have ccer: "ccer = (if drives_output m then 0 else CCER_C1_INIT bd)" using channel_setup_ccer st eq by blast
  note pos = chan_shifts(3) [OF b c] chan_shifts(3) [OF b d]
  have same: "tmr_base bd (channels_timer bd d) = tmr_base bd (channels_timer bd c) \<longleftrightarrow> channels_timer bd d = channels_timer bd c"
    using board_base_inj [OF b board_channel_timer [OF b d] board_channel_timer [OF b c] valid_channelD(2) [OF d]] .
  show ?thesis
  proof (cases "channels_timer bd d = channels_timer bd c")
    case True
    then have "chan_pos bd d = chan_pos bd c \<longleftrightarrow> d = c" using board_pos_inj [OF b d c] by simp
    moreover have "4 * chan_pos bd d < 16" using pos by simp
    ultimately show ?thesis
      unfolding output_on_def REG_def eq configure_ccer [OF b c] True ccer
      using bit_nibble_clear [OF pos, of bd] bit_push_C1 [of "chan_pos bd c" bd "chan_pos bd d"] pos(2)
      by (auto simp: bit_rmw16)
  next
    case False
    then show ?thesis unfolding output_on_def REG_def eq configure_ccer [OF b c] same by auto
  qed
qed

lemma init_timer_output: "output_on bd (snd (io_timer_init_timer bd t s)) d \<Longrightarrow> output_on bd s d"
  by (simp add: output_on_def REG_def init_timer_ccer split: if_splits)

lemma init_timer_done: "bit (once s) t \<Longrightarrow> output_on bd (snd (io_timer_init_timer bd t s)) d \<longleftrightarrow> output_on bd s d"
  by (simp add: output_on_def REG_def init_timer_ccer)

lemma setup_some:
  "channel_setup bd c m \<noteq> None \<longleftrightarrow> m \<noteq> IOTimerChanModeSize \<and> (m = IOTimerChanMode_Capture \<longrightarrow> BOARD_HAS_CAPTURE bd)"
  by (cases m) (simp_all add: channel_setup_def)

text \<open>
  Claiming a channel for a mode succeeds exactly for an unused channel of the board. Then the channel has the mode as its owner and
  its output is off for an output mode; no other owner changes and no other output is switched on.
\<close>

lemma channel_init:
  assumes i: "io_inv bd s" and c: "valid_channel bd c" and free: "owner s c = IOTimerChanMode_NotUsed"
    and m: "m \<noteq> IOTimerChanMode_NotUsed" "channel_setup bd c m \<noteq> None"
  shows "fst (io_timer_channel_init bd c m h s) = 0
    \<and> io_inv bd (snd (io_timer_channel_init bd c m h s))
    \<and> (\<forall>d < 16. owner (snd (io_timer_channel_init bd c m h s)) d = (if d = c then m else owner s d))
    \<and> (\<forall>d. valid_channel bd d \<longrightarrow> output_on bd (snd (io_timer_channel_init bd c m h s)) d \<longrightarrow>
         (if d = c then \<not> drives_output m else output_on bd s d))
    \<and> (bit (once s) (channels_timer bd c) \<longrightarrow> (\<forall>d. valid_channel bd d \<longrightarrow>
         output_on bd (snd (io_timer_channel_init bd c m h s)) d = (if d = c then \<not> drives_output m else output_on bd s d)))"
proof -
  have b: "pwm_board_ok bd" and c16: "c < 16" using io_inv_board [OF i] board_channel_bound c by blast+
  obtain st where st: "channel_setup bd c m = Some st" using m(2) by blast
  have m': "m \<noteq> IOTimerChanModeSize" using m(2) setup_some by blast
  let ?a = "snd (allocate_channel bd c m s)" and ?s = "snd (io_timer_channel_init bd c m h s)"
  note al = owners_allocate [OF io_inv_owners [OF i] c16 free m(1) m' c]
  let ?t = "snd (io_timer_init_timer bd (channels_timer bd c) ?a)"
  have eq: "?s = configure_channel bd c st h ?t"
    and rv: "fst (io_timer_channel_init bd c m h s) = 0"
    using st al(1) by (auto simp: io_timer_channel_init_def split: prod.splits)
  have "owners ?s ((owner s)(c := m))" using al(2) by (simp add: owners_def eq)
  note o = this
  have ina: "output_on bd ?a d \<longleftrightarrow> output_on bd s d" for d by (simp add: output_on_def REG_def)
  have on: "(if d = c then \<not> drives_output m else output_on bd s d)" if "valid_channel bd d" "output_on bd ?s d" for d
    using that init_timer_output [of bd "channels_timer bd c" ?a d] ina configure_output [OF b c that(1) st, of h ?t] unfolding eq
    by (auto split: if_splits)
  moreover have "output_on bd ?s d = (if d = c then \<not> drives_output m else output_on bd s d)"
    if "bit (once s) (channels_timer bd c)" "valid_channel bd d" for d
    using that init_timer_done [of ?a "channels_timer bd c" bd d] ina configure_output [OF b c that(2) st, of h ?t] unfolding eq by simp
  moreover have "io_inv bd ?s"
  proof (rule io_invI [OF i o])
    show "channels_cache ?s = channels_cache s" by (simp add: eq)
    show "valid_channel bd d" if "d < 16" "((owner s)(c := m)) d \<noteq> IOTimerChanMode_NotUsed" for d
      using that io_inv_used_valid [OF i] c by (cases "d = c") auto
    show "\<not> output_on bd ?s d" if "valid_channel bd d" "((owner s)(c := m)) d = IOTimerChanMode_NotUsed" for d
      using that on [OF that(1)] io_inv_idle [OF i that(1)] m(1) by (cases "d = c") auto
  qed
  ultimately show ?thesis using rv owners_owner [OF o] by simp
qed

lemma channel_init_refused:
  assumes i: "io_inv bd s" and c: "c < 16"
    and "\<not> valid_channel bd c \<or> owner s c \<noteq> IOTimerChanMode_NotUsed \<or> m = IOTimerChanMode_NotUsed \<or> channel_setup bd c m = None"
  shows "snd (io_timer_channel_init bd c m h s) = s \<and> fst (io_timer_channel_init bd c m h s) < 0"
proof (cases "m = IOTimerChanMode_NotUsed")
  case True
  then show ?thesis by (simp add: io_timer_channel_init_def allocate_channel_def split: option.splits)
next
  case False
  then show ?thesis
    using assms(3) allocate_refused [OF io_inv_owners [OF i] c, of bd m]
    by (auto simp: io_timer_channel_init_def split: option.splits prod.splits)
qed

end
