(* ===== verification/Io_Rates.thy ===== *)
theory Io_Rates
  imports Io_Channels
begin

text \<open>
  The rate of a group of channels: what \<open>io_timer_set_rate\<close> does to the owners of the channels and to the registers of the
  timer, and when it keeps the masks a partition.
\<close>

section \<open>Groups and rates\<close>

lemma bit_fold_or: "bit (fold (\<lambda>c m. m OR push_bit c 1) cs x) k \<longleftrightarrow> bit x k \<or> k < LENGTH('a) \<and> k \<in> set cs"
  for x :: "'a::len word"
proof (induction cs arbitrary: x)
  case (Cons c cs)
  have "bit (push_bit c 1 :: 'a word) k \<longleftrightarrow> k < LENGTH('a) \<and> k = c"
    by (auto simp: bit_exp_iff push_bit_of_1)
  then show ?case by (simp only: fold_Cons comp_apply Cons.IH bit_or_iff list.set insert_iff) blast
qed simp

lemma bit_group_mask:
  assumes "pwm_board_ok bd" "t < MAX_IO_TIMERS bd" "tmr_base bd t \<noteq> 0"
  shows "bit (group_mask bd t) c \<longleftrightarrow> valid_channel bd c \<and> channels_timer bd c = t"
proof -
  have "bit (group_mask bd t) c \<longleftrightarrow> c < 32 \<and> c \<in> set (timer_channel_range bd t)" unfolding group_mask_def bit_fold_or by simp
  then show ?thesis using board_range [OF assms, of c] board_channel_bound [OF assms(1), of c] by force
qed

lemma get_timer_channels_fields [simp]:
  "channel_allocations (snd (get_timer_channels bd t s)) = channel_allocations s"
  "once (snd (get_timer_channels bd t s)) = once s"
  "io_regs (snd (get_timer_channels bd t s)) = io_regs s"
  "io_events (snd (get_timer_channels bd t s)) = io_events s"
  "io_channel_handlers (snd (get_timer_channels bd t s)) = io_channel_handlers s"
  "io_state.more (snd (get_timer_channels bd t s)) = io_state.more s"
  by (simp_all add: get_timer_channels_def Let_def)

lemma get_timer_channels:
  assumes "io_inv bd s"
  shows "fst (get_timer_channels bd t s) = (if t < MAX_IO_TIMERS bd \<and> tmr_base bd t \<noteq> 0 then group_mask bd t else 0)"
    and "io_inv bd (snd (get_timer_channels bd t s))"
proof -
  have cache: "length (channels_cache s) = MAX_IO_TIMERS bd"
    "u < MAX_IO_TIMERS bd \<Longrightarrow> channels_cache s ! u = 0 \<or> channels_cache s ! u = group_mask bd u" for u
    using assms by (auto simp: io_inv_def)
  show "fst (get_timer_channels bd t s) = (if t < MAX_IO_TIMERS bd \<and> tmr_base bd t \<noteq> 0 then group_mask bd t else 0)"
    using cache(2) [of t] cache(1) by (auto simp: get_timer_channels_def validate_timer_index_def Let_def group_mask_def)
  have "length (channels_cache (snd (get_timer_channels bd t s))) = MAX_IO_TIMERS bd"
    "u < MAX_IO_TIMERS bd \<Longrightarrow> channels_cache (snd (get_timer_channels bd t s)) ! u = 0
       \<or> channels_cache (snd (get_timer_channels bd t s)) ! u = group_mask bd u" for u
    using cache by (auto simp: get_timer_channels_def Let_def group_mask_def nth_update_if)
  moreover have "owner (snd (get_timer_channels bd t s)) = owner s" by (rule owner_same_masks) simp
  moreover have "output_on bd (snd (get_timer_channels bd t s)) = output_on bd s"
    by (simp add: fun_eq_iff output_on_def REG_def)
  ultimately show "io_inv bd (snd (get_timer_channels bd t s))"
    using assms owners_same_masks [of "snd (get_timer_channels bd t s)" s "owner s"] unfolding io_inv_def by simp
qed

lemma reallocate_fields [simp]:
  "once (snd (reallocate_channel_resources g m n s)) = once s"
  "channels_cache (snd (reallocate_channel_resources g m n s)) = channels_cache s"
  "io_regs (snd (reallocate_channel_resources g m n s)) = io_regs s"
  "io_events (snd (reallocate_channel_resources g m n s)) = io_events s"
  "io_channel_handlers (snd (reallocate_channel_resources g m n s)) = io_channel_handlers s"
  "io_state.more (snd (reallocate_channel_resources g m n s)) = io_state.more s"
  by (simp_all add: reallocate_channel_resources_def Let_def)

lemma and_subset: "a AND b = a \<longleftrightarrow> (\<forall>k. bit a k \<longrightarrow> bit b k)" for a b :: "'a::len word"
  by (auto simp: bit_eq_iff bit_and_iff dest: bit_imp_le_length)

text \<open>Whether all the channels of a group are unused, or none of them.\<close>

definition all_unused :: "u32 \<Rightarrow> 'a io_state_scheme \<Rightarrow> bool" where
  "all_unused g s \<longleftrightarrow> (\<forall>c. bit g c \<longrightarrow> bit (channel_allocations s IOTimerChanMode_NotUsed) c)"

lemma reallocate_bits:
  assumes "\<And>c. bit g c \<Longrightarrow> c < 16"
  shows "bit (channel_allocations (snd (reallocate_channel_resources g m n s)) k) c \<longleftrightarrow>
    (if bit g c then k = n \<or> bit (channel_allocations s k) c \<and> k \<noteq> (if all_unused g s then IOTimerChanMode_NotUsed else m)
     else bit (channel_allocations s k) c)"
proof -
  have "g AND ucast (channel_allocations s IOTimerChanMode_NotUsed) = g \<longleftrightarrow> all_unused g s"
    by (auto simp: and_subset all_unused_def bit_ucast_iff dest: bit_imp_le_length)
  moreover have "bit (ucast g :: u16) c \<longleftrightarrow> bit g c" using assms by (auto simp: bit_ucast_iff)
  ultimately show ?thesis
    by (auto simp: reallocate_channel_resources_def Let_def flag_simps)
qed


text \<open>
  The rate of a group. The two calls of \<open>reallocate_channel_resources\<close> move the whole group to the new mode, when none of its
  channels is unused or all of them are. Otherwise the unused ones stay in the mask of unused channels and are in the new
  one too.
\<close>

definition rate_mode :: "u32 \<Rightarrow> io_timer_channel_mode" where
  "rate_mode rate = (if rate = PWM_RATE_ONESHOT then IOTimerChanMode_OneShot else IOTimerChanMode_PWMOut)"

definition rate_from :: "u32 \<Rightarrow> io_timer_channel_mode" where
  "rate_from rate = (if rate = PWM_RATE_ONESHOT then IOTimerChanMode_PWMOut else IOTimerChanMode_OneShot)"

definition rate_moves :: "u32 \<Rightarrow> u32 \<Rightarrow> 'a io_state_scheme \<Rightarrow> 'a io_state_scheme" where
  "rate_moves g rate s =
     snd (reallocate_channel_resources g IOTimerChanMode_Dshot (rate_mode rate)
       (snd (reallocate_channel_resources g (rate_from rate) (rate_mode rate) s)))"

definition group_rateable :: "pwm_board \<Rightarrow> nat \<Rightarrow> 'a io_state_scheme \<Rightarrow> bool" where
  "group_rateable bd t s \<longleftrightarrow> (\<forall>c. valid_channel bd c \<and> channels_timer bd c = t \<longrightarrow>
     owner s c \<in> {IOTimerChanMode_Dshot, IOTimerChanMode_PWMOut, IOTimerChanMode_OneShot, IOTimerChanMode_NotUsed})"

definition group_unmixed :: "pwm_board \<Rightarrow> nat \<Rightarrow> 'a io_state_scheme \<Rightarrow> bool" where
  "group_unmixed bd t s \<longleftrightarrow>
     (\<forall>c. valid_channel bd c \<and> channels_timer bd c = t \<longrightarrow> owner s c = IOTimerChanMode_NotUsed)
   \<or> (\<forall>c. valid_channel bd c \<and> channels_timer bd c = t \<longrightarrow> owner s c \<noteq> IOTimerChanMode_NotUsed)"

lemma rate_moves_fields [simp]:
  "once (rate_moves g rate s) = once s" "channels_cache (rate_moves g rate s) = channels_cache s"
  "io_regs (rate_moves g rate s) = io_regs s" "io_channel_handlers (rate_moves g rate s) = io_channel_handlers s"
  "io_state.more (rate_moves g rate s) = io_state.more s"
  by (simp_all add: rate_moves_def)

lemma rate_moves_bits:
  assumes g: "\<And>c. bit g c \<Longrightarrow> c < 16" and o: "owners s f"
    and r: "\<And>c. bit g c \<Longrightarrow> f c \<in> {IOTimerChanMode_Dshot, IOTimerChanMode_PWMOut, IOTimerChanMode_OneShot, IOTimerChanMode_NotUsed}"
    and c: "c < 16" and k: "k \<noteq> IOTimerChanModeSize"
  shows "bit (channel_allocations (rate_moves g rate s) k) c \<longleftrightarrow>
    (if bit g c then k = rate_mode rate
       \<or> k = IOTimerChanMode_NotUsed \<and> f c = IOTimerChanMode_NotUsed \<and> (\<exists>d. bit g d \<and> f d \<noteq> IOTimerChanMode_NotUsed)
     else k = f c)"
proof -
  let ?s1 = "snd (reallocate_channel_resources g (rate_from rate) (rate_mode rate) s)"
  have au: "all_unused g s \<longleftrightarrow> (\<forall>d. bit g d \<longrightarrow> f d = IOTimerChanMode_NotUsed)"
    using owners_bit [OF o] g unfolding all_unused_def by fastforce
  have b1: "bit (channel_allocations ?s1 m) d \<longleftrightarrow>
    (if bit g d then m = rate_mode rate \<or> m = f d \<and> m \<noteq> (if all_unused g s then IOTimerChanMode_NotUsed else rate_from rate)
     else m = f d)" if "d < 16" "m \<noteq> IOTimerChanModeSize" for m d
    using reallocate_bits [OF g, of g "rate_from rate" "rate_mode rate" s m d] owners_bit [OF o that] by simp
  have au1: "all_unused g ?s1 \<longleftrightarrow> (\<forall>d. \<not> bit g d) \<or> \<not> all_unused g s \<and> (\<forall>d. bit g d \<longrightarrow> f d = IOTimerChanMode_NotUsed)"
  proof -
    have "bit (channel_allocations ?s1 IOTimerChanMode_NotUsed) d \<longleftrightarrow> f d = IOTimerChanMode_NotUsed \<and> \<not> all_unused g s"
      if "bit g d" for d
      using b1 [OF g [OF that], of IOTimerChanMode_NotUsed] that by (auto simp: rate_mode_def rate_from_def)
    then show ?thesis unfolding all_unused_def [of g ?s1] by blast
  qed
  have b2: "bit (channel_allocations (rate_moves g rate s) k) c \<longleftrightarrow>
      (if bit g c then k = rate_mode rate
         \<or> bit (channel_allocations ?s1 k) c \<and> k \<noteq> (if all_unused g ?s1 then IOTimerChanMode_NotUsed else IOTimerChanMode_Dshot)
       else bit (channel_allocations ?s1 k) c)"
    unfolding rate_moves_def by (rule reallocate_bits) (rule g)
  show ?thesis
  proof (cases "bit g c")
    case True
    then have "\<not> all_unused g ?s1" and ex: "(\<exists>d. bit g d \<and> f d \<noteq> IOTimerChanMode_NotUsed) \<longleftrightarrow> \<not> all_unused g s"
      using au1 au by blast+
    moreover have "f c = IOTimerChanMode_NotUsed" if "all_unused g s" using that au True by blast
    moreover have "bit (channel_allocations (rate_moves g rate s) k) c \<longleftrightarrow> k = rate_mode rate
        \<or> k = f c \<and> k \<noteq> (if all_unused g s then IOTimerChanMode_NotUsed else rate_from rate) \<and> k \<noteq> IOTimerChanMode_Dshot"
      using calculation(1) True unfolding b2 b1 [OF c k] by auto
    ultimately show ?thesis using r [OF True] True
      unfolding ex rate_mode_def rate_from_def by (cases "all_unused g s") auto
  qed (simp add: b2 b1 [OF c k])
qed

lemma rate_moves_owners:
  assumes g: "\<And>c. bit g c \<Longrightarrow> c < 16" and o: "owners s f"
    and r: "\<And>c. bit g c \<Longrightarrow> f c \<in> {IOTimerChanMode_Dshot, IOTimerChanMode_PWMOut, IOTimerChanMode_OneShot, IOTimerChanMode_NotUsed}"
  shows "owners (rate_moves g rate s) (\<lambda>c. if bit g c then rate_mode rate else f c) \<longleftrightarrow>
    (\<forall>c. bit g c \<longrightarrow> f c = IOTimerChanMode_NotUsed) \<or> (\<forall>c. bit g c \<longrightarrow> f c \<noteq> IOTimerChanMode_NotUsed)"
proof -
  have n: "rate_mode rate \<noteq> IOTimerChanModeSize" "rate_mode rate \<noteq> IOTimerChanMode_NotUsed" by (simp_all add: rate_mode_def)
  have "f c \<noteq> IOTimerChanModeSize" if "c < 16" for c using o that by (simp add: owners_def)
  then have "owners (rate_moves g rate s) (\<lambda>c. if bit g c then rate_mode rate else f c) \<longleftrightarrow>
      (\<forall>c < 16. \<forall>k. k \<noteq> IOTimerChanModeSize \<longrightarrow>
         bit (channel_allocations (rate_moves g rate s) k) c = (k = (if bit g c then rate_mode rate else f c)))"
    using n unfolding owners_def by auto
  also have "\<dots> \<longleftrightarrow> (\<forall>c < 16. bit g c \<longrightarrow>
       \<not> (f c = IOTimerChanMode_NotUsed \<and> (\<exists>d. bit g d \<and> f d \<noteq> IOTimerChanMode_NotUsed)))"
  proof -
    have "(\<forall>k. k \<noteq> IOTimerChanModeSize \<longrightarrow>
         bit (channel_allocations (rate_moves g rate s) k) c = (k = (if bit g c then rate_mode rate else f c)))
       \<longleftrightarrow> (bit g c \<longrightarrow> \<not> (f c = IOTimerChanMode_NotUsed \<and> (\<exists>d. bit g d \<and> f d \<noteq> IOTimerChanMode_NotUsed)))" if "c < 16" for c
      using n(2) by (cases "bit g c") (auto simp: rate_moves_bits [OF g o r that])
    then show ?thesis by blast
  qed
  also have "\<dots> \<longleftrightarrow> (\<forall>c. bit g c \<longrightarrow> f c = IOTimerChanMode_NotUsed) \<or> (\<forall>c. bit g c \<longrightarrow> f c \<noteq> IOTimerChanMode_NotUsed)"
    using g by blast
  finally show ?thesis .
qed


lemma reallocate_changed:
  assumes g: "\<And>c. bit g c \<Longrightarrow> c < 16" and n: "n \<noteq> IOTimerChanMode_NotUsed" "n \<noteq> m"
  shows "fst (reallocate_channel_resources g m n s) \<noteq> 0 \<longleftrightarrow> (\<exists>c. bit g c \<and> \<not> bit (channel_allocations s n) c)"
proof -
  have "fst (reallocate_channel_resources g m n s) = (ucast (channel_allocations s n) AND g) XOR g"
    using n by (simp add: reallocate_channel_resources_def Let_def)
  also have "\<dots> \<noteq> 0 \<longleftrightarrow> g AND ucast (channel_allocations s n) \<noteq> g"
    using xor_right_cancel [of "ucast (channel_allocations s n) AND g" g g] by (simp add: and.commute)
  also have "\<dots> \<longleftrightarrow> (\<exists>c. bit g c \<and> \<not> bit (channel_allocations s n) c)"
    using g by (auto simp: and_subset bit_ucast_iff) force
  finally show ?thesis .
qed

text \<open>The registers that \<open>io_timer_set_rate\<close> writes when it moves a group.\<close>

definition rate_regs :: "pwm_board \<Rightarrow> nat \<Rightarrow> u32 \<Rightarrow> bool \<Rightarrow> 'a io_state_scheme \<Rightarrow> 'a io_state_scheme" where
  "rate_regs bd t rate changed s =
     (if rate = PWM_RATE_ONESHOT then if changed then io_timer_set_oneshot_mode bd t s else s
      else timer_set_rate bd t rate (if changed then io_timer_set_PWM_mode bd t s else s))"

lemma rate_regs_fields [simp]:
  "channel_allocations (rate_regs bd t rate ch s) = channel_allocations s" "once (rate_regs bd t rate ch s) = once s"
  "channels_cache (rate_regs bd t rate ch s) = channels_cache s"
  "io_channel_handlers (rate_regs bd t rate ch s) = io_channel_handlers s"
  "io_state.more (rate_regs bd t rate ch s) = io_state.more s"
  by (simp_all add: rate_regs_def io_timer_set_oneshot_mode_def timer_set_rate_def io_timer_set_PWM_mode_def Let_def)

lemma rate_regs_regs:
  "io_regs (rate_regs bd t rate ch s) b off =
     (if b \<noteq> tmr_base bd t then io_regs s b off
      else if off = GTIM_ARR \<and> (ch \<or> rate \<noteq> 0) then if rate = 0 then 0xffffffff else BOARD_PWM_FREQ bd div rate - 1
      else if off = GTIM_PSC \<and> ch
        then io_clock_freq (io_timers bd ! t) div (if rate = 0 then BOARD_ONESHOT_FREQ bd else BOARD_PWM_FREQ bd) - 1
      else io_regs s b off)"
  by (simp add: rate_regs_def io_timer_set_oneshot_mode_def timer_set_rate_def io_timer_set_PWM_mode_def Let_def regs_REG_write)

lemma group_cond:
  fixes g :: u32
  assumes "\<And>c. bit g c \<Longrightarrow> c < 16"
  shows "g AND (ucast (channel_allocations s IOTimerChanMode_Dshot) OR ucast (channel_allocations s IOTimerChanMode_PWMOut)
           OR ucast (channel_allocations s IOTimerChanMode_OneShot) OR ucast (channel_allocations s IOTimerChanMode_NotUsed)) = g
    \<longleftrightarrow> (\<forall>c. bit g c \<longrightarrow> (\<exists>m \<in> {IOTimerChanMode_Dshot, IOTimerChanMode_PWMOut, IOTimerChanMode_OneShot, IOTimerChanMode_NotUsed}.
          bit (channel_allocations s m) c))"
proof -
  have "bit (ucast (channel_allocations s IOTimerChanMode_Dshot) OR ucast (channel_allocations s IOTimerChanMode_PWMOut)
           OR ucast (channel_allocations s IOTimerChanMode_OneShot) OR ucast (channel_allocations s IOTimerChanMode_NotUsed) :: u32) c
      \<longleftrightarrow> (\<exists>m \<in> {IOTimerChanMode_Dshot, IOTimerChanMode_PWMOut, IOTimerChanMode_OneShot, IOTimerChanMode_NotUsed}.
          bit (channel_allocations s m) c)" if "bit g c" for c
    using assms [OF that] by (simp add: bit_or_iff bit_ucast_iff disj_assoc)
  then show ?thesis unfolding and_subset by blast
qed

lemma set_rate_eq:
  fixes s :: "'a io_state_scheme"
  assumes i: "io_inv bd s" and t: "t < MAX_IO_TIMERS bd" "tmr_base bd t \<noteq> 0"
  defines "g \<equiv> group_mask bd t" and "s1 \<equiv> snd (get_timer_channels bd t s)"
  shows "io_timer_set_rate bd t rate s =
    (if group_rateable bd t s
     then (0, rate_regs bd t rate (\<exists>c. bit g c \<and> owner s c \<noteq> rate_mode rate) (rate_moves g rate s1))
     else (IO_EBUSY, s1))"
proof -
  note b = io_inv_board [OF i]
  have bg: "bit g c \<longleftrightarrow> valid_channel bd c \<and> channels_timer bd c = t" for c unfolding g_def by (rule bit_group_mask [OF b t])
  then have g: "c < 16" if "bit g c" for c using that board_channel_bound [OF b] by blast
  have get: "get_timer_channels bd t s = (g, s1)"
    using get_timer_channels(1) [OF i, of t] t by (simp add: s1_def g_def prod_eq_iff)
  have al: "channel_allocations s1 = channel_allocations s" by (simp add: s1_def)
  have cond: "g AND (ucast (channel_allocations s1 IOTimerChanMode_Dshot) OR ucast (channel_allocations s1 IOTimerChanMode_PWMOut)
           OR ucast (channel_allocations s1 IOTimerChanMode_OneShot) OR ucast (channel_allocations s1 IOTimerChanMode_NotUsed)) = g
      \<longleftrightarrow> group_rateable bd t s"
  proof (subst group_cond)
    show "c < 16" if "bit g c" for c by (rule g [OF that])
    show "(\<forall>c. bit g c \<longrightarrow> (\<exists>m \<in> {IOTimerChanMode_Dshot, IOTimerChanMode_PWMOut, IOTimerChanMode_OneShot, IOTimerChanMode_NotUsed}.
        bit (channel_allocations s1 m) c)) \<longleftrightarrow> group_rateable bd t s"
      unfolding al group_rateable_def bg [symmetric] using g io_inv_owner_bit [OF i] by auto
  qed
  have n: "rate_mode rate \<noteq> IOTimerChanMode_NotUsed" "rate_mode rate \<noteq> rate_from rate" "rate_mode rate \<noteq> IOTimerChanMode_Dshot"
    "rate_mode rate \<noteq> IOTimerChanModeSize"
    by (simp_all add: rate_mode_def rate_from_def)
  let ?r1 = "reallocate_channel_resources g (rate_from rate) (rate_mode rate) s1"
  let ?r2 = "reallocate_channel_resources g IOTimerChanMode_Dshot (rate_mode rate) (snd ?r1)"
  have "fst ?r1 \<noteq> 0 \<longleftrightarrow> (\<exists>c. bit g c \<and> owner s c \<noteq> rate_mode rate)"
  proof -
    have "bit (channel_allocations s1 (rate_mode rate)) c \<longleftrightarrow> owner s c = rate_mode rate" if "bit g c" for c
      using io_inv_owner_bit [OF i n(4), of c] g [OF that] by (simp add: al)
    then show ?thesis using reallocate_changed [OF g n(1,2), of g s1] by auto
  qed
  moreover have "fst ?r2 = 0"
  proof -
    have "bit (channel_allocations (snd ?r1) (rate_mode rate)) c" if "bit g c" for c
      using reallocate_bits [OF g, of g "rate_from rate" "rate_mode rate" s1 "rate_mode rate" c] that by simp
    then show ?thesis using reallocate_changed [OF g n(1,3), of g "snd ?r1"] by auto
  qed
  ultimately show ?thesis
    unfolding io_timer_set_rate_def get
    by (auto simp: cond rate_regs_def rate_moves_def rate_mode_def rate_from_def split: prod.splits)
qed


lemma set_rate:
  assumes i: "io_inv bd s" and t: "t < MAX_IO_TIMERS bd" "tmr_base bd t \<noteq> 0"
    and r: "group_rateable bd t s" and u: "group_unmixed bd t s"
  shows "fst (io_timer_set_rate bd t rate s) = 0
    \<and> io_inv bd (snd (io_timer_set_rate bd t rate s))
    \<and> (\<forall>c < 16. owner (snd (io_timer_set_rate bd t rate s)) c =
         (if valid_channel bd c \<and> channels_timer bd c = t then rate_mode rate else owner s c))
    \<and> (\<forall>c. output_on bd (snd (io_timer_set_rate bd t rate s)) c = output_on bd s c)
    \<and> (\<forall>b off. io_regs (snd (io_timer_set_rate bd t rate s)) b off =
         io_regs (rate_regs bd t rate (\<exists>c. valid_channel bd c \<and> channels_timer bd c = t \<and> owner s c \<noteq> rate_mode rate) s) b off)"
proof -
  let ?s1 = "snd (get_timer_channels bd t s)" and ?g = "group_mask bd t"
  let ?f = "\<lambda>c. if bit ?g c then rate_mode rate else owner s c"
  let ?s = "snd (io_timer_set_rate bd t rate s)"
  note b = io_inv_board [OF i] and i1 = get_timer_channels(2) [OF i, of t]
  have g: "bit ?g c \<longleftrightarrow> valid_channel bd c \<and> channels_timer bd c = t" for c by (rule bit_group_mask [OF b t])
  have eq: "io_timer_set_rate bd t rate s =
      (0, rate_regs bd t rate (\<exists>c. bit ?g c \<and> owner s c \<noteq> rate_mode rate) (rate_moves ?g rate ?s1))"
    using set_rate_eq [OF i t, of rate] r by simp
  have "owners ?s1 (owner s)" using io_inv_owners [OF i] by (simp add: owners_def)
  then have "owners (rate_moves ?g rate ?s1) ?f \<longleftrightarrow>
      (\<forall>c. bit ?g c \<longrightarrow> owner s c = IOTimerChanMode_NotUsed) \<or> (\<forall>c. bit ?g c \<longrightarrow> owner s c \<noteq> IOTimerChanMode_NotUsed)"
    by (rule rate_moves_owners [rotated]) (use g r board_channel_bound [OF b] in \<open>auto simp: group_rateable_def\<close>)
  then have "owners (rate_moves ?g rate ?s1) ?f" using u unfolding group_unmixed_def g by simp
  then have o: "owners ?s ?f" by (simp add: owners_def eq)
  have on: "output_on bd ?s c = output_on bd s c" for c
    by (simp add: output_on_def REG_def eq rate_regs_regs)
  have "io_inv bd ?s"
  proof (rule io_invI [OF i1 o])
    show "channels_cache ?s = channels_cache ?s1" by (simp add: eq)
    show "valid_channel bd c" if "c < 16" "?f c \<noteq> IOTimerChanMode_NotUsed" for c
      using that g [of c] io_inv_used_valid [OF i] by (auto split: if_splits)
    show "\<not> output_on bd ?s c" if "valid_channel bd c" "?f c = IOTimerChanMode_NotUsed" for c
      using that on io_inv_idle [OF i] by (auto simp: rate_mode_def split: if_splits)
  qed
  moreover have "owner ?s c = (if valid_channel bd c \<and> channels_timer bd c = t then rate_mode rate else owner s c)" if "c < 16" for c
    using owners_owner [OF o that] g by simp
  moreover have "io_regs ?s b off =
      io_regs (rate_regs bd t rate (\<exists>c. valid_channel bd c \<and> channels_timer bd c = t \<and> owner s c \<noteq> rate_mode rate) s) b off" for b off
    unfolding eq snd_conv rate_regs_regs g conj_assoc by (simp only: rate_moves_fields get_timer_channels_fields)
  ultimately show ?thesis using on eq by simp
qed

text \<open>A group with a channel in another mode is refused, and its masks and registers stay.\<close>

lemma set_rate_busy:
  assumes "io_inv bd s" "t < MAX_IO_TIMERS bd" "tmr_base bd t \<noteq> 0" "\<not> group_rateable bd t s"
  shows "fst (io_timer_set_rate bd t rate s) = IO_EBUSY"
    and "channel_allocations (snd (io_timer_set_rate bd t rate s)) = channel_allocations s"
    and "io_regs (snd (io_timer_set_rate bd t rate s)) = io_regs s"
    and "io_inv bd (snd (io_timer_set_rate bd t rate s))"
  using set_rate_eq [OF assms(1-3), of rate] assms(4) get_timer_channels(2) [OF assms(1)] by auto

text \<open>A group that is partly unused loses the property that each channel has one owner.\<close>

lemma set_rate_mixed:
  assumes i: "io_inv bd s" and t: "t < MAX_IO_TIMERS bd" "tmr_base bd t \<noteq> 0"
    and r: "group_rateable bd t s" and u: "\<not> group_unmixed bd t s"
  shows "\<not> io_inv bd (snd (io_timer_set_rate bd t rate s))"
    and "valid_channel bd c \<Longrightarrow> channels_timer bd c = t \<Longrightarrow> owner s c = IOTimerChanMode_NotUsed \<Longrightarrow>
      bit (channel_allocations (snd (io_timer_set_rate bd t rate s)) IOTimerChanMode_NotUsed) c
      \<and> bit (channel_allocations (snd (io_timer_set_rate bd t rate s)) (rate_mode rate)) c"
proof -
  let ?s1 = "snd (get_timer_channels bd t s)" and ?g = "group_mask bd t" and ?s = "snd (io_timer_set_rate bd t rate s)"
  note b = io_inv_board [OF i]
  have g: "bit ?g c \<longleftrightarrow> valid_channel bd c \<and> channels_timer bd c = t" for c by (rule bit_group_mask [OF b t])
  have g16: "bit ?g c \<Longrightarrow> c < 16" for c using g board_channel_bound [OF b] by blast
  have o: "owners ?s1 (owner s)" using io_inv_owners [OF i] by (simp add: owners_def)
  have al: "channel_allocations ?s = channel_allocations (rate_moves ?g rate ?s1)"
    using set_rate_eq [OF i t, of rate] r by simp
  obtain d where d: "bit ?g d" "owner s d \<noteq> IOTimerChanMode_NotUsed" using u unfolding group_unmixed_def g by blast
  obtain e where e: "bit ?g e" "owner s e = IOTimerChanMode_NotUsed" using u unfolding group_unmixed_def g by blast
  have n: "rate_mode rate \<noteq> IOTimerChanModeSize" "rate_mode rate \<noteq> IOTimerChanMode_NotUsed" by (simp_all add: rate_mode_def)
  have both: "bit (channel_allocations ?s IOTimerChanMode_NotUsed) c \<and> bit (channel_allocations ?s (rate_mode rate)) c"
    if "bit ?g c" "owner s c = IOTimerChanMode_NotUsed" for c
    unfolding al using rate_moves_bits [OF g16 o _ g16 [OF that(1)], of ?g _ rate] r g d that n
    by (auto simp: group_rateable_def)
  show "valid_channel bd c \<Longrightarrow> channels_timer bd c = t \<Longrightarrow> owner s c = IOTimerChanMode_NotUsed \<Longrightarrow>
      bit (channel_allocations ?s IOTimerChanMode_NotUsed) c \<and> bit (channel_allocations ?s (rate_mode rate)) c"
    using both [of c] g [of c] by blast
  show "\<not> io_inv bd ?s"
  proof
    assume i': "io_inv bd ?s"
    have "owner ?s e = IOTimerChanMode_NotUsed" "owner ?s e = rate_mode rate"
      using both [OF e] io_inv_owner_bit [OF i'] n by auto
    then show False using n by simp
  qed
qed

end
