(* ===== verification/Pwm_Output.thy ===== *)
theory Pwm_Output
  imports Io_Rates
begin

text \<open>
  The PWM outputs (\<open>stm/stm32_common/io_pins/pwm_servo.c\<close>) and the camera trigger outputs (\<open>pwm_trigger.c\<close>) on top of the
  timers: the channels a client asks for are taken from whoever has them, the rates are set by groups, and the outputs are
  armed and disarmed. The interface of the pool of channels is stated as a locale; what both drivers rely on is proved in it.
\<close>

section \<open>PWM outputs\<close>

definition up_pwm_servo_set :: "pwm_board \<Rightarrow> nat \<Rightarrow> u16 \<Rightarrow> 'a io_state_scheme \<Rightarrow> int \<times> 'a io_state_scheme" where
  "up_pwm_servo_set bd c v s = io_timer_set_ccr bd c v s"

definition up_pwm_servo_get :: "pwm_board \<Rightarrow> nat \<Rightarrow> 'a io_state_scheme \<Rightarrow> u16" where
  "up_pwm_servo_get bd c s = io_channel_get_ccr bd c s"

definition free_masked :: "pwm_board \<Rightarrow> nat \<Rightarrow> u32 \<times> 'a io_state_scheme \<Rightarrow> u32 \<times> 'a io_state_scheme" where
  "free_masked bd c = (\<lambda>(current, s).
     if has_flag current (push_bit c 1) then (clr_flag current (push_bit c 1), snd (io_timer_free_channel bd c s))
     else (current, s))"

definition take_masked ::
    "pwm_board \<Rightarrow> io_timer_channel_mode \<Rightarrow> nat \<Rightarrow> u32 \<times> 'a io_state_scheme \<Rightarrow> u32 \<times> 'a io_state_scheme" where
  "take_masked bd mode c = (\<lambda>(channel_mask, s).
     if has_flag channel_mask (push_bit c 1) then
       let s = (if io_timer_is_channel_free bd c s = - IO_EBUSY then snd (io_timer_free_channel bd c s) else s);
           s = snd (io_timer_channel_init bd c mode (None, 0) s)
       in (clr_flag channel_mask (push_bit c 1), s)
     else (channel_mask, s))"

definition up_pwm_servo_init :: "pwm_board \<Rightarrow> u32 \<Rightarrow> 'a io_state_scheme \<Rightarrow> int \<times> 'a io_state_scheme" where
  "up_pwm_servo_init bd channel_mask s =
     (let current = io_timer_get_mode_channels IOTimerChanMode_PWMOut s OR io_timer_get_mode_channels IOTimerChanMode_OneShot s;
          s = snd (fold (free_masked bd) [0..<MAX_TIMER_IO_CHANNELS bd] (current, s));
          s = snd (fold (take_masked bd IOTimerChanMode_PWMOut) [0..<MAX_TIMER_IO_CHANNELS bd] (channel_mask, s))
      in (0, s))"

definition up_pwm_servo_arm :: "pwm_board \<Rightarrow> bool \<Rightarrow> u32 \<Rightarrow> 'a io_state_scheme \<Rightarrow> 'a io_state_scheme" where
  "up_pwm_servo_arm bd armed channel_mask s =
     (let s = snd (io_timer_set_enable bd armed IOTimerChanMode_OneShot (ucast channel_mask) s)
      in snd (io_timer_set_enable bd armed IOTimerChanMode_PWMOut (ucast channel_mask) s))"

definition up_pwm_servo_deinit :: "pwm_board \<Rightarrow> u32 \<Rightarrow> 'a io_state_scheme \<Rightarrow> 'a io_state_scheme" where
  "up_pwm_servo_deinit bd channel_mask s = up_pwm_servo_arm bd False channel_mask s"

definition up_pwm_servo_set_rate_group_update ::
    "pwm_board \<Rightarrow> nat \<Rightarrow> u32 \<Rightarrow> 'a io_state_scheme \<Rightarrow> int \<times> 'a io_state_scheme" where
  "up_pwm_servo_set_rate_group_update bd grp rate s =
     (if grp \<ge> MAX_IO_TIMERS bd \<or> tmr_base bd grp = 0 then (- 1, s)
      else if rate \<noteq> PWM_RATE_ONESHOT \<and> (rate < 1 \<or> rate > 10000) then (- IO_ERANGE, s)
      else io_timer_set_rate bd grp rate s)"

definition up_pwm_update :: "pwm_board \<Rightarrow> 'a io_state_scheme \<Rightarrow> 'a io_state_scheme" where
  "up_pwm_update bd s = io_timer_trigger bd s"

definition up_pwm_servo_set_rate :: "pwm_board \<Rightarrow> u32 \<Rightarrow> 'a io_state_scheme \<Rightarrow> int \<times> 'a io_state_scheme" where
  "up_pwm_servo_set_rate bd rate s =
     (0, fold (\<lambda>i s. snd (up_pwm_servo_set_rate_group_update bd i rate s)) [0..<MAX_IO_TIMERS bd] s)"

definition servo_get_rate_group :: "pwm_board \<Rightarrow> nat \<Rightarrow> 'a io_state_scheme \<Rightarrow> u32 \<times> 'a io_state_scheme" where
  "servo_get_rate_group bd grp s =
     (let owned = io_timer_get_mode_channels IOTimerChanMode_PWMOut s OR io_timer_get_mode_channels IOTimerChanMode_OneShot s;
          (channels, s) = io_timer_get_group bd grp s
      in (owned AND channels, s))"

section \<open>Trigger outputs\<close>

definition up_pwm_trigger_set :: "pwm_board \<Rightarrow> nat \<Rightarrow> u16 \<Rightarrow> 'a io_state_scheme \<Rightarrow> int \<times> 'a io_state_scheme" where
  "up_pwm_trigger_set bd c v s = io_timer_set_ccr bd c v s"

definition up_pwm_trigger_arm :: "pwm_board \<Rightarrow> bool \<Rightarrow> 'a io_state_scheme \<Rightarrow> 'a io_state_scheme" where
  "up_pwm_trigger_arm bd armed s =
     snd (io_timer_set_enable bd armed IOTimerChanMode_Trigger IO_TIMER_ALL_MODES_CHANNELS s)"

definition up_pwm_trigger_init :: "pwm_board \<Rightarrow> u32 \<Rightarrow> 'a io_state_scheme \<Rightarrow> int \<times> 'a io_state_scheme" where
  "up_pwm_trigger_init bd channel_mask s =
     (let s = snd (fold (take_masked bd IOTimerChanMode_Trigger) [0..<MAX_TIMER_IO_CHANNELS bd] (channel_mask, s))
      in (0, up_pwm_trigger_arm bd True s))"

definition unuse_masked :: "pwm_board \<Rightarrow> nat \<Rightarrow> u32 \<times> 'a io_state_scheme \<Rightarrow> u32 \<times> 'a io_state_scheme" where
  "unuse_masked bd c = (\<lambda>(current, s).
     if has_flag current (push_bit c 1)
     then (clr_flag current (push_bit c 1), snd (io_timer_channel_init bd c IOTimerChanMode_NotUsed (None, 0) s))
     else (current, s))"

definition up_pwm_trigger_deinit :: "pwm_board \<Rightarrow> 'a io_state_scheme \<Rightarrow> 'a io_state_scheme" where
  "up_pwm_trigger_deinit bd s =
     (let s = up_pwm_trigger_arm bd False s;
          current = io_timer_get_mode_channels IOTimerChanMode_Trigger s
      in snd (fold (unuse_masked bd) [0..<MAX_TIMER_IO_CHANNELS bd] (current, s)))"

section \<open>The pool of channels\<close>

text \<open>
  What a client of the timers relies on: releasing a channel leaves it without an owner and touches no other, claiming a channel that
  has none makes the client its owner and touches no other, and both do nothing on a channel the board does not have. The
  second locale adds the outputs: releasing and claiming switch the channel off and switch no other on.
\<close>

locale channel_pool =
  fixes inv :: "'s \<Rightarrow> bool"
    and valid :: "nat \<Rightarrow> bool"
    and own :: "'s \<Rightarrow> nat \<Rightarrow> 'm"
    and nobody :: 'm
    and me :: 'm
    and release :: "nat \<Rightarrow> 's \<Rightarrow> 's"
    and claim :: "nat \<Rightarrow> 's \<Rightarrow> 's"
  assumes release_valid: "inv s \<Longrightarrow> valid c \<Longrightarrow>
      inv (release c s) \<and> (\<forall>d < 16. own (release c s) d = (if d = c then nobody else own s d))"
    and claim_valid: "inv s \<Longrightarrow> valid c \<Longrightarrow> own s c = nobody \<Longrightarrow>
      inv (claim c s) \<and> (\<forall>d < 16. own (claim c s) d = (if d = c then me else own s d))"
    and release_invalid: "inv s \<Longrightarrow> \<not> valid c \<Longrightarrow> release c s = s"
    and claim_invalid: "inv s \<Longrightarrow> c < 16 \<Longrightarrow> \<not> valid c \<Longrightarrow> claim c s = s"
begin

lemma take_channel:
  assumes "inv s" "c < 16"
  shows "inv (claim c (release c s))
    \<and> (\<forall>d < 16. own (claim c (release c s)) d = (if d = c \<and> valid c then me else own s d))"
proof (cases "valid c")
  case True
  then show ?thesis using release_valid [OF assms(1) True] claim_valid [of "release c s" c] assms(2) by auto
qed (use assms in \<open>simp add: release_invalid claim_invalid\<close>)

lemma release_all:
  "inv s \<Longrightarrow> inv (fold release cs s)
    \<and> (\<forall>d < 16. own (fold release cs s) d = (if d \<in> set cs \<and> valid d then nobody else own s d))"
proof (induction cs arbitrary: s)
  case (Cons c cs)
  have "inv (release c s) \<and> (\<forall>d < 16. own (release c s) d = (if d = c \<and> valid c then nobody else own s d))"
    using release_valid [OF Cons.prems] release_invalid [OF Cons.prems] Cons.prems by (cases "valid c") auto
  then show ?case using Cons.IH [of "release c s"] by auto
qed simp

lemma take_all:
  "inv s \<Longrightarrow> \<forall>c \<in> set cs. c < 16 \<Longrightarrow> inv (fold (\<lambda>c s. claim c (release c s)) cs s)
    \<and> (\<forall>d < 16. own (fold (\<lambda>c s. claim c (release c s)) cs s) d = (if d \<in> set cs \<and> valid d then me else own s d))"
proof (induction cs arbitrary: s)
  case (Cons c cs)
  have "c < 16" using Cons.prems(2) by simp
  then show ?case using take_channel [OF Cons.prems(1), of c] Cons.IH [of "claim c (release c s)"] Cons.prems(2) by auto
qed simp

end

locale output_pool = channel_pool +
  fixes on :: "'a \<Rightarrow> nat \<Rightarrow> bool"
  assumes release_on: "inv s \<Longrightarrow> valid c \<Longrightarrow> valid d \<Longrightarrow> on (release c s) d \<Longrightarrow> d \<noteq> c \<and> on s d"
    and claim_on: "inv s \<Longrightarrow> valid c \<Longrightarrow> own s c = nobody \<Longrightarrow> valid d \<Longrightarrow> on (claim c s) d \<Longrightarrow> d \<noteq> c \<and> on s d"
    and valid_bound: "inv s \<Longrightarrow> valid c \<Longrightarrow> c < 16"
begin

lemma release_all_on: "inv s \<Longrightarrow> valid d \<Longrightarrow> on (fold release cs s) d \<Longrightarrow> d \<notin> set cs \<and> on s d"
proof (induction cs arbitrary: s)
  case (Cons c cs)
  have "inv (release c s)" using release_valid [OF Cons.prems(1)] release_invalid [OF Cons.prems(1)] Cons.prems(1) by (cases "valid c") auto
  then have "d \<notin> set cs \<and> on (release c s) d" using Cons by simp
  then show ?case using release_on [OF Cons.prems(1) _ Cons.prems(2)] release_invalid [OF Cons.prems(1)] Cons.prems(2)
    by (cases "valid c") auto
qed simp

lemma take_all_on:
  "inv s \<Longrightarrow> \<forall>c \<in> set cs. c < 16 \<Longrightarrow> valid d \<Longrightarrow> on (fold (\<lambda>c s. claim c (release c s)) cs s) d \<Longrightarrow> d \<notin> set cs \<and> on s d"
proof (induction cs arbitrary: s)
  case (Cons c cs)
  have c: "c < 16" using Cons.prems(2) by simp
  have *: "d \<notin> set cs \<and> on (claim c (release c s)) d"
    using Cons.IH [of "claim c (release c s)"] take_channel [OF Cons.prems(1) c] Cons.prems by simp
  show ?case
  proof (cases "valid c")
    case True
    have "inv (release c s)" "own (release c s) c = nobody" using release_valid [OF Cons.prems(1) True] c by auto
    then show ?thesis using * claim_on [OF _ True _ Cons.prems(3)] release_on [OF Cons.prems(1) True Cons.prems(3)] by auto
  next
    case False
    then show ?thesis using * Cons.prems release_invalid claim_invalid c by auto
  qed
qed simp

end

end
