(* ===== verification/Pwm_Laws.thy ===== *)
theory Pwm_Laws
  imports Pwm_Output
begin

text \<open>
  The drivers of the outputs on the model of the timers: the pool of channels is interpreted for each of them, and what each of their
  operations does to the owners and the outputs is derived.
\<close>

section \<open>The timers are a pool of channels\<close>

lemma timers_pool:
  assumes "m \<in> {IOTimerChanMode_PWMOut, IOTimerChanMode_Trigger, IOTimerChanMode_Dshot}"
  shows "output_pool (io_inv bd) (valid_channel bd) owner IOTimerChanMode_NotUsed m
    (\<lambda>c s. snd (io_timer_free_channel bd c s)) (\<lambda>c s. snd (io_timer_channel_init bd c m (None, 0) s)) (output_on bd)"
proof
  have m: "m \<noteq> IOTimerChanMode_NotUsed" "channel_setup bd c m \<noteq> None" "drives_output m" for c
    using assms by (auto simp: channel_setup_def drives_output_def)
  fix s :: "'b io_state_scheme" and c d
  assume i: "io_inv bd s"
  show "io_inv bd (snd (io_timer_free_channel bd c s)) \<and> (\<forall>d < 16. owner (snd (io_timer_free_channel bd c s)) d =
      (if d = c then IOTimerChanMode_NotUsed else owner s d))" if "valid_channel bd c"
    using free_channel [OF i that] by simp
  show "io_inv bd (snd (io_timer_channel_init bd c m (None, 0) s)) \<and> (\<forall>d < 16. owner (snd (io_timer_channel_init bd c m (None, 0) s)) d =
      (if d = c then m else owner s d))" if "valid_channel bd c" "owner s c = IOTimerChanMode_NotUsed"
    using channel_init [OF i that m(1,2), of "(None, 0)"] by simp
  show "snd (io_timer_free_channel bd c s) = s" if "\<not> valid_channel bd c"
    using that by (simp add: io_timer_free_channel_def valid_channel_def)
  show "snd (io_timer_channel_init bd c m (None, 0) s) = s" if "c < 16" "\<not> valid_channel bd c"
    using channel_init_refused [OF i that(1)] that(2) by simp
  show "d \<noteq> c \<and> output_on bd s d" if "valid_channel bd c" "valid_channel bd d" "output_on bd (snd (io_timer_free_channel bd c s)) d"
    using free_channel [OF i that(1)] that(2,3) by simp
  show "d \<noteq> c \<and> output_on bd s d" if "valid_channel bd c" "owner s c = IOTimerChanMode_NotUsed" "valid_channel bd d"
      "output_on bd (snd (io_timer_channel_init bd c m (None, 0) s)) d"
    using channel_init [OF i that(1,2) m(1,2), of "(None, 0)"] that(3,4) m(3) by (metis (full_types))
  show "c < 16" if "valid_channel bd c" using board_channel_bound [OF io_inv_board [OF i] that] .
qed

interpretation servo: output_pool "io_inv bd" "valid_channel bd" owner IOTimerChanMode_NotUsed IOTimerChanMode_PWMOut
  "\<lambda>c s. snd (io_timer_free_channel bd c s)"
  "\<lambda>c s. snd (io_timer_channel_init bd c IOTimerChanMode_PWMOut (None, 0) s)" "output_on bd"
  for bd by (rule timers_pool) simp

interpretation trigger: output_pool "io_inv bd" "valid_channel bd" owner IOTimerChanMode_NotUsed IOTimerChanMode_Trigger
  "\<lambda>c s. snd (io_timer_free_channel bd c s)"
  "\<lambda>c s. snd (io_timer_channel_init bd c IOTimerChanMode_Trigger (None, 0) s)" "output_on bd"
  for bd by (rule timers_pool) simp

section \<open>Loops over a mask\<close>

lemma masked_loop:
  fixes m :: u32
  assumes "\<And>c m s. F c (m, s) = (if has_flag m (push_bit c 1) then (clr_flag m (push_bit c 1), G c s) else (m, s))"
  shows "snd (fold F [0..<n] (m, s)) = fold G (filter (bit m) [0..<n]) s"
    and "bit (fst (fold F [0..<n] (m, s))) k \<longleftrightarrow> bit m k \<and> n \<le> k"
proof (induction n arbitrary: k)
  case (Suc n)
  obtain m' s' where f: "fold F [0..<n] (m, s) = (m', s')" by fastforce
  have b: "bit (clr_flag m' (push_bit n 1)) k \<longleftrightarrow> bit m' k \<and> k \<noteq> n" for k
    by (auto simp: flag_simps bit_exp_iff push_bit_of_1 dest: bit_imp_le_length)
  {
    case 1
    show ?case using Suc(1) Suc(2) [of n] by (simp add: f assms has_flag_bit del: push_bit_of_1)
  next
    case 2
    have h: "bit m' j \<longleftrightarrow> bit m j \<and> n \<le> j" for j using Suc(2) [of j] by (simp add: f)
    have "fst (fold F [0..<Suc n] (m, s)) = (if bit m' n then clr_flag m' (push_bit n 1) else m')"
      by (simp add: f assms has_flag_bit del: push_bit_of_1)
    moreover have "bit m k \<and> Suc n \<le> k \<longleftrightarrow> bit m' k \<and> k \<noteq> n" using h [of k] by (auto simp: Suc_le_eq le_less)
    ultimately show ?case using b [of k] by (cases "k = n") simp_all
  }
qed simp_all

definition take_one :: "pwm_board \<Rightarrow> io_timer_channel_mode \<Rightarrow> nat \<Rightarrow> 'a io_state_scheme \<Rightarrow> 'a io_state_scheme" where
  "take_one bd mode c s = snd (io_timer_channel_init bd c mode (None, 0)
     (if io_timer_is_channel_free bd c s = - IO_EBUSY then snd (io_timer_free_channel bd c s) else s))"

lemma take_one_eq:
  assumes i: "io_inv bd s" and c: "c < 16"
  shows "take_one bd m c s = snd (io_timer_channel_init bd c m (None, 0) (snd (io_timer_free_channel bd c s)))"
proof -
  have "snd (io_timer_free_channel bd c s) = s" if "io_timer_is_channel_free bd c s \<noteq> - IO_EBUSY"
  proof -
    have "\<not> valid_channel bd c \<or> bit (channel_allocations s IOTimerChanMode_NotUsed) c"
      using that by (auto simp: io_timer_is_channel_free_def valid_channel_def Let_def flag_simps split: if_splits)
    then show ?thesis
      using io_inv_mode [OF i c] io_inv_owner_bit [OF i, of IOTimerChanMode_NotUsed c]
      by (auto simp: io_timer_free_channel_def valid_channel_def)
  qed
  then show ?thesis by (simp add: take_one_def)
qed

lemma take_masked_loop:
  "snd (fold (take_masked bd mode) [0..<n] (m, s)) = fold (take_one bd mode) (filter (bit m) [0..<n]) s"
  by (rule masked_loop) (simp add: take_masked_def take_one_def Let_def)

lemma free_masked_loop:
  "snd (fold (free_masked bd) [0..<n] (m, s)) = fold (\<lambda>c s. snd (io_timer_free_channel bd c s)) (filter (bit m) [0..<n]) s"
  by (rule masked_loop) (simp add: free_masked_def)

lemma fold_take_one:
  fixes s :: "'a io_state_scheme"
  assumes "\<And>(s :: 'a io_state_scheme) c. io_inv bd s \<Longrightarrow> c < 16 \<Longrightarrow> io_inv bd (snd (io_timer_channel_init bd c m (None, 0) (snd (io_timer_free_channel bd c s))))"
    and "io_inv bd s" "\<forall>c \<in> set cs. c < 16"
  shows "fold (take_one bd m) cs s = fold (\<lambda>c s. snd (io_timer_channel_init bd c m (None, 0) (snd (io_timer_free_channel bd c s)))) cs s"
  using assms(2,3) by (induction cs arbitrary: s) (simp_all add: take_one_eq assms(1))

definition board_channels :: "pwm_board \<Rightarrow> u32 \<Rightarrow> nat list" where
  "board_channels bd m = filter (bit m) [0..<MAX_TIMER_IO_CHANNELS bd]"

lemma board_channels_bound: "pwm_board_ok bd \<Longrightarrow> \<forall>c \<in> set (board_channels bd m). c < 16"
  by (auto simp: board_channels_def pwm_board_ok_def)

lemma board_channels_valid: "valid_channel bd c \<Longrightarrow> c \<in> set (board_channels bd m) \<longleftrightarrow> bit m c"
  using valid_channelD(1) [of bd c] by (auto simp: board_channels_def)

section \<open>Taking the channels of a mask\<close>

lemma take_servo:
  fixes m :: u32
  assumes i: "io_inv bd s"
  defines "s' \<equiv> snd (fold (take_masked bd IOTimerChanMode_PWMOut) [0..<MAX_TIMER_IO_CHANNELS bd] (m, s))"
  shows "io_inv bd s' \<and> (\<forall>c < 16. owner s' c = (if valid_channel bd c \<and> bit m c then IOTimerChanMode_PWMOut else owner s c))
    \<and> (\<forall>c. valid_channel bd c \<longrightarrow> output_on bd s' c \<longrightarrow> \<not> bit m c \<and> output_on bd s c)"
proof -
  note bound = board_channels_bound [OF io_inv_board [OF i], of m]
  have "s' = fold (\<lambda>c s. snd (io_timer_channel_init bd c IOTimerChanMode_PWMOut (None, 0) (snd (io_timer_free_channel bd c s))))
      (board_channels bd m) s"
    unfolding s'_def take_masked_loop board_channels_def [symmetric]
    by (rule fold_take_one [OF _ i bound]) (use servo.take_channel in blast)
  then show ?thesis
    using servo.take_all [OF i bound] servo.take_all_on [OF i bound] board_channels_valid [of bd _ m] by (simp) metis
qed

lemma take_trigger:
  fixes m :: u32
  assumes i: "io_inv bd s"
  defines "s' \<equiv> snd (fold (take_masked bd IOTimerChanMode_Trigger) [0..<MAX_TIMER_IO_CHANNELS bd] (m, s))"
  shows "io_inv bd s' \<and> (\<forall>c < 16. owner s' c = (if valid_channel bd c \<and> bit m c then IOTimerChanMode_Trigger else owner s c))
    \<and> (\<forall>c. valid_channel bd c \<longrightarrow> output_on bd s' c \<longrightarrow> \<not> bit m c \<and> output_on bd s c)"
proof -
  note bound = board_channels_bound [OF io_inv_board [OF i], of m]
  have "s' = fold (\<lambda>c s. snd (io_timer_channel_init bd c IOTimerChanMode_Trigger (None, 0) (snd (io_timer_free_channel bd c s))))
      (board_channels bd m) s"
    unfolding s'_def take_masked_loop board_channels_def [symmetric]
    by (rule fold_take_one [OF _ i bound]) (use trigger.take_channel in blast)
  then show ?thesis
    using trigger.take_all [OF i bound] trigger.take_all_on [OF i bound] board_channels_valid [of bd _ m] by (simp) metis
qed


lemma bit_mode_channels:
  "io_inv bd s \<Longrightarrow> m \<noteq> IOTimerChanModeSize \<Longrightarrow> bit (io_timer_get_mode_channels m s) c \<longleftrightarrow> c < 16 \<and> owner s c = m"
  using io_inv_owner_bit [of bd s m c] by (auto simp: io_timer_get_mode_channels_def bit_ucast_iff)

lemma servo_init_laws:
  assumes i: "io_inv bd s"
  shows "fst (up_pwm_servo_init bd m s) = 0
    \<and> io_inv bd (snd (up_pwm_servo_init bd m s))
    \<and> (\<forall>c < 16. owner (snd (up_pwm_servo_init bd m s)) c =
         (if valid_channel bd c \<and> bit m c then IOTimerChanMode_PWMOut
          else if owner s c \<in> {IOTimerChanMode_PWMOut, IOTimerChanMode_OneShot} then IOTimerChanMode_NotUsed else owner s c))
    \<and> (\<forall>c. valid_channel bd c \<longrightarrow> output_on bd (snd (up_pwm_servo_init bd m s)) c \<longrightarrow>
         \<not> bit m c \<and> owner s c \<notin> {IOTimerChanMode_PWMOut, IOTimerChanMode_OneShot} \<and> output_on bd s c)"
proof -
  let ?cur = "io_timer_get_mode_channels IOTimerChanMode_PWMOut s OR io_timer_get_mode_channels IOTimerChanMode_OneShot s"
  let ?f = "snd (fold (free_masked bd) [0..<MAX_TIMER_IO_CHANNELS bd] (?cur, s))"
  let ?pwm = "{IOTimerChanMode_PWMOut, IOTimerChanMode_OneShot}"
  have cur: "bit ?cur c \<longleftrightarrow> c < 16 \<and> owner s c \<in> ?pwm" for c
    by (auto simp: bit_or_iff bit_mode_channels [OF i])
  have eq: "?f = fold (\<lambda>c s. snd (io_timer_free_channel bd c s)) (board_channels bd ?cur) s"
    unfolding free_masked_loop board_channels_def ..
  have mem: "c \<in> set (board_channels bd ?cur) \<longleftrightarrow> owner s c \<in> ?pwm" if "valid_channel bd c" for c
    using board_channels_valid [OF that] board_channel_bound [OF io_inv_board [OF i] that] cur by simp
  note rel = servo.release_all [OF i, of "board_channels bd ?cur", folded eq]
  have own: "owner ?f c = (if owner s c \<in> ?pwm then IOTimerChanMode_NotUsed else owner s c)" if "c < 16" for c
  proof (cases "valid_channel bd c")
    case False
    then have "owner s c = IOTimerChanMode_NotUsed" using io_inv_used_valid [OF i that] by blast
    then show ?thesis using rel that False by simp
  qed (use rel that mem in simp)
  have on: "owner s c \<notin> ?pwm \<and> output_on bd s c" if "valid_channel bd c" "output_on bd ?f c" for c
    using servo.release_all_on [OF i that(1), of "board_channels bd ?cur", folded eq] that(2) mem [OF that(1)] by blast
  have "snd (up_pwm_servo_init bd m s) = snd (fold (take_masked bd IOTimerChanMode_PWMOut) [0..<MAX_TIMER_IO_CHANNELS bd] (m, ?f))"
    by (simp add: up_pwm_servo_init_def Let_def)
  moreover have "fst (up_pwm_servo_init bd m s) = 0" by (simp add: up_pwm_servo_init_def Let_def)
  ultimately show ?thesis using take_servo [of bd ?f m] rel own on by auto
qed

lemma servo_arm_laws:
  assumes i: "io_inv bd s"
  shows "io_inv bd (up_pwm_servo_arm bd armed m s)"
    and "channel_allocations (up_pwm_servo_arm bd armed m s) = channel_allocations s"
    and "valid_channel bd c \<Longrightarrow> output_on bd (up_pwm_servo_arm bd armed m s) c =
      (if owner s c \<in> {IOTimerChanMode_PWMOut, IOTimerChanMode_OneShot} \<and> ((ucast m :: u16) = 0 \<or> bit m c) then armed
       else output_on bd s c)"
proof -
  let ?a = "snd (io_timer_set_enable bd armed IOTimerChanMode_OneShot (ucast m) s)"
  have ia: "io_inv bd ?a" using set_enable_inv [OF i] by simp
  have o: "owner ?a = owner s" by (rule owner_same_masks) simp
  show "io_inv bd (up_pwm_servo_arm bd armed m s)" using set_enable_inv [OF ia] by (simp add: up_pwm_servo_arm_def Let_def)
  show "channel_allocations (up_pwm_servo_arm bd armed m s) = channel_allocations s"
    by (simp add: up_pwm_servo_arm_def Let_def)
  show "output_on bd (up_pwm_servo_arm bd armed m s) c =
      (if owner s c \<in> {IOTimerChanMode_PWMOut, IOTimerChanMode_OneShot} \<and> ((ucast m :: u16) = 0 \<or> bit m c) then armed
       else output_on bd s c)" if c: "valid_channel bd c"
  proof -
    have "bit (ucast m :: u16) c \<longleftrightarrow> bit m c" using board_channel_bound [OF io_inv_board [OF i] c] by (simp add: bit_ucast_iff)
    then show ?thesis
      using set_enable_owned [OF i _ _ c, of IOTimerChanMode_OneShot armed "ucast m"]
        set_enable_owned [OF ia _ _ c, of IOTimerChanMode_PWMOut armed "ucast m"] o
      by (auto simp: up_pwm_servo_arm_def Let_def)
  qed
qed

lemma trigger_arm_laws:
  assumes i: "io_inv bd s"
  shows "io_inv bd (up_pwm_trigger_arm bd armed s)"
    and "channel_allocations (up_pwm_trigger_arm bd armed s) = channel_allocations s"
    and "valid_channel bd c \<Longrightarrow> output_on bd (up_pwm_trigger_arm bd armed s) c =
      (if owner s c = IOTimerChanMode_Trigger then armed else output_on bd s c)"
  using set_enable_inv [OF i] set_enable_owned [OF i, of IOTimerChanMode_Trigger c armed 0]
  by (simp_all add: up_pwm_trigger_arm_def)

lemma trigger_init_laws:
  assumes i: "io_inv bd s"
  shows "io_inv bd (snd (up_pwm_trigger_init bd m s))"
    and "c < 16 \<Longrightarrow> owner (snd (up_pwm_trigger_init bd m s)) c =
      (if valid_channel bd c \<and> bit m c then IOTimerChanMode_Trigger else owner s c)"
    and "valid_channel bd c \<Longrightarrow> owner (snd (up_pwm_trigger_init bd m s)) c = IOTimerChanMode_Trigger \<Longrightarrow>
      output_on bd (snd (up_pwm_trigger_init bd m s)) c"
proof -
  let ?t = "snd (fold (take_masked bd IOTimerChanMode_Trigger) [0..<MAX_TIMER_IO_CHANNELS bd] (m, s))"
  have eq: "snd (up_pwm_trigger_init bd m s) = up_pwm_trigger_arm bd True ?t" by (simp add: up_pwm_trigger_init_def Let_def)
  have t: "io_inv bd ?t" using take_trigger [OF i, of m] by simp
  have o: "owner (up_pwm_trigger_arm bd True ?t) = owner ?t" by (rule owner_same_masks [OF trigger_arm_laws(2) [OF t]])
  show "io_inv bd (snd (up_pwm_trigger_init bd m s))" unfolding eq by (rule trigger_arm_laws(1) [OF t])
  show "c < 16 \<Longrightarrow> owner (snd (up_pwm_trigger_init bd m s)) c =
      (if valid_channel bd c \<and> bit m c then IOTimerChanMode_Trigger else owner s c)"
    unfolding eq o using take_trigger [OF i, of m] by simp
  show "valid_channel bd c \<Longrightarrow> owner (snd (up_pwm_trigger_init bd m s)) c = IOTimerChanMode_Trigger \<Longrightarrow>
      output_on bd (snd (up_pwm_trigger_init bd m s)) c"
    unfolding eq o using trigger_arm_laws(3) [OF t] by simp
qed

text \<open>The loop of \<open>up_pwm_trigger_deinit\<close> asks for the mode \<open>NotUsed\<close>, which is refused: it changes nothing.\<close>

lemma init_NotUsed: "snd (io_timer_channel_init bd c IOTimerChanMode_NotUsed h s) = s"
  by (simp add: io_timer_channel_init_def channel_setup_def allocate_channel_def)

lemma trigger_deinit_eq: "up_pwm_trigger_deinit bd s = up_pwm_trigger_arm bd False s"
proof -
  have "snd (fold (unuse_masked bd) cs (m, t)) = t" for cs m and t :: "'a io_state_scheme"
    by (induction cs arbitrary: m) (simp_all add: unuse_masked_def init_NotUsed)
  then show ?thesis by (simp add: up_pwm_trigger_deinit_def Let_def)
qed


section \<open>Updates and pulse widths\<close>

definition has_oneshot :: "pwm_board \<Rightarrow> 'a io_state_scheme \<Rightarrow> nat \<Rightarrow> bool" where
  "has_oneshot bd s t \<longleftrightarrow> (\<exists>c. valid_channel bd c \<and> channels_timer bd c = t \<and> owner s c = IOTimerChanMode_OneShot)"

lemma oneshot_group:
  assumes i: "io_inv bd s" and t: "t < MAX_IO_TIMERS bd" "tmr_base bd t \<noteq> 0"
  shows "io_timer_get_mode_channels IOTimerChanMode_OneShot s AND group_mask bd t \<noteq> 0 \<longleftrightarrow> has_oneshot bd s t"
proof -
  have "io_timer_get_mode_channels IOTimerChanMode_OneShot s AND group_mask bd t \<noteq> 0 \<longleftrightarrow>
      (\<exists>c. bit (io_timer_get_mode_channels IOTimerChanMode_OneShot s) c \<and> bit (group_mask bd t) c)"
    unfolding has_flag_def [symmetric] by (rule has_flag_bits)
  also have "\<dots> \<longleftrightarrow> has_oneshot bd s t"
    unfolding has_oneshot_def bit_group_mask [OF io_inv_board [OF i] t]
    using bit_mode_channels [OF i, of IOTimerChanMode_OneShot] board_channel_bound [OF io_inv_board [OF i]] by auto
  finally show ?thesis .
qed

lemma trigger_scan_fold:
  assumes "io_inv bd s" "\<forall>t \<in> set ts. t < MAX_IO_TIMERS bd"
  shows "fst (fold (trigger_scan bd (io_timer_get_mode_channels IOTimerChanMode_OneShot s)) ts (acts, s)) =
      acts @ map (tmr_base bd) (filter (\<lambda>t. tmr_base bd t \<noteq> 0 \<and> has_oneshot bd s t) ts)
    \<and> io_inv bd (snd (fold (trigger_scan bd (io_timer_get_mode_channels IOTimerChanMode_OneShot s)) ts (acts, s)))
    \<and> channel_allocations (snd (fold (trigger_scan bd (io_timer_get_mode_channels IOTimerChanMode_OneShot s)) ts (acts, s))) = channel_allocations s
    \<and> io_regs (snd (fold (trigger_scan bd (io_timer_get_mode_channels IOTimerChanMode_OneShot s)) ts (acts, s))) = io_regs s
    \<and> io_events (snd (fold (trigger_scan bd (io_timer_get_mode_channels IOTimerChanMode_OneShot s)) ts (acts, s))) = io_events s"
  using assms
proof (induction ts arbitrary: s acts)
  case (Cons t ts)
  have t: "t < MAX_IO_TIMERS bd" using Cons.prems(2) by simp
  show ?case
  proof (cases "tmr_base bd t = 0")
    case True
    then have "trigger_scan bd (io_timer_get_mode_channels IOTimerChanMode_OneShot s) t (acts, s) = (acts, s)"
      by (simp add: trigger_scan_def validate_timer_index_def)
    then show ?thesis using Cons True by simp
  next
    case False
    let ?s = "snd (get_timer_channels bd t s)"
    let ?acts = "if has_oneshot bd s t then acts @ [tmr_base bd t] else acts"
    have "trigger_scan bd (io_timer_get_mode_channels IOTimerChanMode_OneShot s) t (acts, s) = (?acts, ?s)"
      using t False get_timer_channels(1) [OF Cons.prems(1), of t] oneshot_group [OF Cons.prems(1) t False]
      by (simp add: trigger_scan_def validate_timer_index_def case_prod_beta)
    moreover have "io_timer_get_mode_channels IOTimerChanMode_OneShot ?s = io_timer_get_mode_channels IOTimerChanMode_OneShot s"
      by (simp add: io_timer_get_mode_channels_def)
    moreover have "has_oneshot bd ?s = has_oneshot bd s"
      using owner_same_masks [of ?s s] by (simp add: has_oneshot_def fun_eq_iff)
    ultimately show ?thesis
      using Cons.IH [of ?s ?acts] get_timer_channels(2) [OF Cons.prems(1), of t] Cons.prems(2) False by simp
  qed
qed simp

lemma events_fold:
  "io_regs (fold (\<lambda>b s. REG32_write b GTIM_EGR (f b s) s) bs s) = io_regs s
   \<and> channel_allocations (fold (\<lambda>b s. REG32_write b GTIM_EGR (f b s) s) bs s) = channel_allocations s
   \<and> channels_cache (fold (\<lambda>b s. REG32_write b GTIM_EGR (f b s) s) bs s) = channels_cache s
   \<and> map fst (io_events (fold (\<lambda>b s. REG32_write b GTIM_EGR (f b s) s) bs s)) = rev bs @ map fst (io_events s)"
  by (induction bs arbitrary: s) (simp_all add: REG32_write_def)

lemma io_inv_same:
  assumes "io_inv bd s" "channel_allocations s' = channel_allocations s" "channels_cache s' = channels_cache s"
    and "\<And>b. io_regs s' b GTIM_CCER = io_regs s b GTIM_CCER"
  shows "io_inv bd s'"
proof (rule io_invI [OF assms(1), of _ "owner s"])
  show "owners s' (owner s)" using io_inv_owners [OF assms(1)] assms(2) by (simp add: owners_def)
  show "\<not> output_on bd s' c" if "valid_channel bd c" "owner s c = IOTimerChanMode_NotUsed" for c
    using io_inv_idle [OF assms(1) that] assms(4) by (simp add: output_on_def REG_def)
qed (use assms io_inv_used_valid in auto)

text \<open>One update event for each timer that has a channel in OneShot mode, in the order of the timers, and nothing else.\<close>

lemma pwm_update_laws:
  assumes i: "io_inv bd s"
  shows "map fst (io_events (up_pwm_update bd s)) =
      rev (map (tmr_base bd) (filter (\<lambda>t. tmr_base bd t \<noteq> 0 \<and> has_oneshot bd s t) [0..<MAX_IO_TIMERS bd])) @ map fst (io_events s)"
    and "io_inv bd (up_pwm_update bd s)" and "channel_allocations (up_pwm_update bd s) = channel_allocations s"
    and "io_regs (up_pwm_update bd s) = io_regs s"
proof -
  let ?o = "io_timer_get_mode_channels IOTimerChanMode_OneShot s"
  let ?ts = "filter (\<lambda>t. tmr_base bd t \<noteq> 0 \<and> has_oneshot bd s t) [0..<MAX_IO_TIMERS bd]"
  let ?r = "fold (trigger_scan bd ?o) [0..<MAX_IO_TIMERS bd] ([], s)"
  note sc = trigger_scan_fold [OF i, of "[0..<MAX_IO_TIMERS bd]" "[]", simplified]
  have none: "?ts = []" if "?o = 0"
    using that oneshot_group [OF i] by (auto simp: filter_empty_conv)
  have tw: "takeWhile (\<lambda>b. b \<noteq> 0) (map (tmr_base bd) ?ts) = map (tmr_base bd) ?ts"
    by (simp add: takeWhile_eq_all_conv)
  have eq: "up_pwm_update bd s = (if ?o = 0 then s else
      fold (\<lambda>b s. REG32_write b GTIM_EGR (io_regs s b GTIM_EGR OR GTIM_EGR_UG) s) (map (tmr_base bd) ?ts) (snd ?r))"
    using sc by (simp add: up_pwm_update_def io_timer_trigger_def Let_def case_prod_beta tw)
  note ev = events_fold [where f = "\<lambda>b s. io_regs s b GTIM_EGR OR GTIM_EGR_UG" and bs = "map (tmr_base bd) ?ts" and s = "snd ?r"]
  show "map fst (io_events (up_pwm_update bd s)) = rev (map (tmr_base bd) ?ts) @ map fst (io_events s)"
    "channel_allocations (up_pwm_update bd s) = channel_allocations s" "io_regs (up_pwm_update bd s) = io_regs s"
    using ev sc none unfolding eq by auto
  show "io_inv bd (up_pwm_update bd s)"
    using i io_inv_same [of bd "snd ?r" "up_pwm_update bd s"] ev sc unfolding eq by auto
qed

end
