(* ===== verification/Pwm_System.thy ===== *)
theory Pwm_System
  imports Pwm_Laws
begin

text \<open>
  The states that the drivers of the outputs reach and the properties of the outputs: who owns a channel, what is armed, the
  rates, the pulse widths.
\<close>

section \<open>Pulse widths\<close>

lemma set_ccr_eq:
  assumes i: "io_inv bd s" and c: "valid_channel bd c"
  shows "io_timer_set_ccr bd c v s =
    (if drives_output (owner s c) then (0, REG_write bd (channels_timer bd c) (ucast (ccr_offset (timer_io_channels bd ! c))) (ucast v) s)
     else (- IO_EIO, s))"
  using io_inv_mode [OF i board_channel_bound [OF io_inv_board [OF i] c]] c
  by (simp add: io_timer_set_ccr_def valid_channel_def)

lemma ccr_offset_pos:
  assumes "pwm_board_ok bd" "valid_channel bd c"
  shows "(ucast (ccr_offset (timer_io_channels bd ! c)) :: u32) = GTIM_CCR1 + 4 * of_nat (chan_pos bd c)"
  using board_entry [OF assms] by (auto simp: channel_entry_ok_def chan_pos_def)

lemma ccr_not_ccer:
  assumes "pwm_board_ok bd" "valid_channel bd c"
  shows "(ucast (ccr_offset (timer_io_channels bd ! c)) :: u32) \<notin> {GTIM_EGR, GTIM_SR, GTIM_CCER}"
  using pos_cases [OF assms] unfolding ccr_offset_pos [OF assms] by auto

lemma set_ccr_laws:
  assumes i: "io_inv bd s"
  shows "io_inv bd (snd (io_timer_set_ccr bd c v s))"
    and "channel_allocations (snd (io_timer_set_ccr bd c v s)) = channel_allocations s"
    and "output_on bd (snd (io_timer_set_ccr bd c v s)) = output_on bd s"
proof -
  have ccer: "io_regs (snd (io_timer_set_ccr bd c v s)) b GTIM_CCER = io_regs s b GTIM_CCER" for b
  proof (cases "valid_channel bd c")
    case True
    then show ?thesis using ccr_not_ccer [OF io_inv_board [OF i] True] by (auto simp: set_ccr_eq [OF i True] regs_REG_write)
  qed (simp add: io_timer_set_ccr_def valid_channel_def Let_def)
  show a: "channel_allocations (snd (io_timer_set_ccr bd c v s)) = channel_allocations s"
    by (simp add: io_timer_set_ccr_def Let_def split: option.splits)
  show "io_inv bd (snd (io_timer_set_ccr bd c v s))"
    by (rule io_inv_same [OF i a _ ccer]) (simp add: io_timer_set_ccr_def Let_def split: option.splits)
  show "output_on bd (snd (io_timer_set_ccr bd c v s)) = output_on bd s"
    by (simp add: fun_eq_iff output_on_def REG_def ccer)
qed

section \<open>Rates\<close>

lemma rate_update_eq:
  "up_pwm_servo_set_rate_group_update bd g rate s =
     (if \<not> (g < MAX_IO_TIMERS bd \<and> tmr_base bd g \<noteq> 0) then (- 1, s)
      else if rate > 10000 then (- IO_ERANGE, s) else io_timer_set_rate bd g rate s)"
proof -
  have "rate < 1 \<longleftrightarrow> rate = 0" unfolding word_less_nat_alt by (simp add: unat_eq_zero)
  then show ?thesis by (auto simp: up_pwm_servo_set_rate_group_update_def not_less)
qed

lemma rate_update_inv:
  assumes i: "io_inv bd s" and u: "group_unmixed bd g s"
  shows "io_inv bd (snd (up_pwm_servo_set_rate_group_update bd g rate s))"
proof (cases "g < MAX_IO_TIMERS bd \<and> tmr_base bd g \<noteq> 0")
  case True
  then show ?thesis using set_rate [OF i _ _ _ u] set_rate_busy(4) [OF i] i
    by (cases "group_rateable bd g s") (auto simp: rate_update_eq)
qed (use i in \<open>simp add: rate_update_eq\<close>)

lemma get_rate_group_laws:
  assumes i: "io_inv bd s"
  shows "io_inv bd (snd (servo_get_rate_group bd g s))"
    and "bit (fst (servo_get_rate_group bd g s)) c \<longleftrightarrow>
      valid_channel bd c \<and> channels_timer bd c = g \<and> owner s c \<in> {IOTimerChanMode_PWMOut, IOTimerChanMode_OneShot}"
proof -
  show "io_inv bd (snd (servo_get_rate_group bd g s))"
    using get_timer_channels(2) [OF i] by (simp add: servo_get_rate_group_def io_timer_get_group_def case_prod_beta Let_def)
  have "valid_channel bd c \<and> channels_timer bd c = g \<Longrightarrow> c < 16 \<and> g < MAX_IO_TIMERS bd \<and> tmr_base bd g \<noteq> 0"
    using board_channel_bound board_channel_timer valid_channelD(2) io_inv_board [OF i] by blast
  then show "bit (fst (servo_get_rate_group bd g s)) c \<longleftrightarrow>
      valid_channel bd c \<and> channels_timer bd c = g \<and> owner s c \<in> {IOTimerChanMode_PWMOut, IOTimerChanMode_OneShot}"
    using bit_mode_channels [OF i, of _ c] bit_group_mask [OF io_inv_board [OF i], of g c] get_timer_channels(1) [OF i, of g]
    by (auto simp: servo_get_rate_group_def io_timer_get_group_def case_prod_beta Let_def bit_and_iff bit_or_iff)
qed

section \<open>Reachable states\<close>

text \<open>
  The calls of the output drivers in any order, on a board with sound tables. The rate of a group is set when the group is not
  partly unused.
\<close>

inductive pwm_reach :: "pwm_board \<Rightarrow> io_state \<Rightarrow> bool" for bd where
  pwm_boot: "pwm_board_ok bd \<Longrightarrow> pwm_reach bd (io_reset bd)"
| pwm_init: "pwm_reach bd s \<Longrightarrow> pwm_reach bd (snd (up_pwm_servo_init bd m s))"
| pwm_arm: "pwm_reach bd s \<Longrightarrow> pwm_reach bd (up_pwm_servo_arm bd armed m s)"
| pwm_rate: "pwm_reach bd s \<Longrightarrow> group_unmixed bd g s \<Longrightarrow> pwm_reach bd (snd (up_pwm_servo_set_rate_group_update bd g rate s))"
| pwm_group: "pwm_reach bd s \<Longrightarrow> pwm_reach bd (snd (servo_get_rate_group bd g s))"
| pwm_set: "pwm_reach bd s \<Longrightarrow> pwm_reach bd (snd (up_pwm_servo_set bd c v s))"
| pwm_update: "pwm_reach bd s \<Longrightarrow> pwm_reach bd (up_pwm_update bd s)"
| pwm_trigger_init: "pwm_reach bd s \<Longrightarrow> pwm_reach bd (snd (up_pwm_trigger_init bd m s))"
| pwm_trigger_arm: "pwm_reach bd s \<Longrightarrow> pwm_reach bd (up_pwm_trigger_arm bd armed s)"
| pwm_trigger_deinit: "pwm_reach bd s \<Longrightarrow> pwm_reach bd (up_pwm_trigger_deinit bd s)"
| pwm_trigger_set: "pwm_reach bd s \<Longrightarrow> pwm_reach bd (snd (up_pwm_trigger_set bd c v s))"

lemma pwm_reach_inv: "pwm_reach bd s \<Longrightarrow> io_inv bd s"
proof (induction rule: pwm_reach.induct)
  case (pwm_trigger_deinit s)
  then show ?case using trigger_arm_laws(1) by (simp add: trigger_deinit_eq)
qed (simp_all add: io_inv_reset servo_init_laws servo_arm_laws rate_update_inv get_rate_group_laws up_pwm_servo_set_def
      up_pwm_trigger_set_def set_ccr_laws pwm_update_laws trigger_init_laws trigger_arm_laws)


section \<open>A board\<close>

text \<open>Three timers with two, two and four outputs, as the eight servo outputs of the IO processor have them; the second is not set up for DShot.\<close>

definition eight_servos :: pwm_board where
  "eight_servos = \<lparr>
     io_timers = map (\<lambda>(b, v, d). \<lparr>io_base = b, io_clock_register = 0x4002101c, io_clock_bit = 1, io_clock_freq = 24000000,
        io_vectorno = v, io_dma_base = d, io_dmamap = d\<rparr>)
        [(0x40000000, 28, 0x40020000), (0x40000800, 30, 0), (0x40000400, 29, 0x40020000)],
     io_timers_channel_mapping = [\<lparr>first_channel_index = 0, channel_count = 2\<rparr>, \<lparr>first_channel_index = 2, channel_count = 2\<rparr>,
        \<lparr>first_channel_index = 4, channel_count = 4\<rparr>],
     timer_io_channels = map (\<lambda>(g, t, c). \<lparr>gpio_out = g, gpio_in = g, timer_index = t, timer_channel = c,
        chan_masks = push_bit (unat c) 1 OR push_bit (unat c + 8) 1, ccr_offset = 0x34 + 4 * (c - 1)\<rparr>)
        [(1, 0, 1), (2, 0, 2), (3, 1, 3), (4, 1, 4), (5, 2, 1), (6, 2, 2), (7, 2, 3), (8, 2, 4)],
     BOARD_HAS_CAPTURE = False, HAVE_GTIM_CCXNP = False, BOARD_PWM_DRIVE_ACTIVE_LOW = False,
     BOARD_PWM_FREQ = 1000000, BOARD_ONESHOT_FREQ = 8000000,
     STM32_TIM1_BASE = 0x40012c00, STM32_TIM8_BASE = 0x40013400, gpio_keep_bits = 0xff, gpio_output_bits = 0x100\<rparr>"

lemma eight_sizes [simp]:
  "MAX_IO_TIMERS eight_servos = 3" "MAX_TIMER_IO_CHANNELS eight_servos = 8" "length (io_timers_channel_mapping eight_servos) = 3"
  by (simp_all add: eight_servos_def)

lemma eight_bases [simp]:
  "tmr_base eight_servos 0 = 0x40000000" "tmr_base eight_servos (Suc 0) = 0x40000800" "tmr_base eight_servos 2 = 0x40000400"
  by (simp_all add: eight_servos_def tmr_base_def)

lemma eight_timers [simp]:
  "channels_timer eight_servos 0 = 0" "channels_timer eight_servos (Suc 0) = 0" "channels_timer eight_servos 2 = 1" "channels_timer eight_servos 3 = 1"
  "channels_timer eight_servos 4 = 2" "channels_timer eight_servos 5 = 2" "channels_timer eight_servos 6 = 2" "channels_timer eight_servos 7 = 2"
  by (simp_all add: eight_servos_def channels_timer_def)

lemma eight_positions [simp]:
  "chan_pos eight_servos 0 = 0" "chan_pos eight_servos (Suc 0) = 1" "chan_pos eight_servos 2 = 2" "chan_pos eight_servos 3 = 3"
  "chan_pos eight_servos 4 = 0" "chan_pos eight_servos 5 = 1" "chan_pos eight_servos 6 = 2" "chan_pos eight_servos 7 = 3"
  by (simp_all add: eight_servos_def chan_pos_def)

lemma eight_entries: "c < 8 \<Longrightarrow> valid_channel eight_servos c \<and> channel_entry_ok eight_servos c"
proof -
  assume "c < 8"
  then have "c \<in> {0, 1, 2, 3, 4, 5, 6, 7}" by auto
  then show ?thesis
    by (auto simp: valid_channel_def io_timer_validate_channel_index_def channel_entry_ok_def) (simp_all add: eight_servos_def)
qed

lemma eight_valid: "valid_channel eight_servos c \<longleftrightarrow> c < 8"
  using eight_entries [of c] valid_channelD(1) [of eight_servos c] by auto

lemma eight_ranges [simp]:
  "timer_channel_range eight_servos 0 = [0, 1]" "timer_channel_range eight_servos (Suc 0) = [2, 3]"
  "timer_channel_range eight_servos 2 = [4, 5, 6, 7]"
  by (simp_all add: timer_channel_range_def eight_servos_def upt_rec)

lemma less_8_cases: "(\<forall>c \<in> {..<8}. P c) \<longleftrightarrow> P 0 \<and> P (Suc 0) \<and> P 2 \<and> P 3 \<and> P 4 \<and> P 5 \<and> P 6 \<and> P (7 :: nat)"
proof -
  have "{..<8} = {0, Suc 0, 2, 3, 4, 5, 6, 7 :: nat}" by auto
  then show ?thesis by simp
qed

lemma less_3_cases: "(\<forall>c \<in> {..<3}. P c) \<longleftrightarrow> P 0 \<and> P (Suc 0) \<and> P (2 :: nat)"
proof -
  have "{..<3} = {0, Suc 0, 2 :: nat}" by auto
  then show ?thesis by simp
qed

lemma pwm_board_ok_eight_servos: "pwm_board_ok eight_servos"
proof -
  have c: "\<forall>c \<in> {..<8}. valid_channel eight_servos c \<longrightarrow> channel_entry_ok eight_servos c" using eight_entries by simp
  have d: "\<forall>c \<in> {..<8}. \<forall>d \<in> {..<8}. valid_channel eight_servos c \<and> valid_channel eight_servos d \<and> c \<noteq> d \<longrightarrow>
      channels_timer eight_servos c = channels_timer eight_servos d \<longrightarrow> chan_pos eight_servos c \<noteq> chan_pos eight_servos d"
    unfolding less_8_cases by simp
  have eight: "{..<8} = {0, Suc 0, 2, 3, 4, 5, 6, 7 :: nat}" by auto
  have "\<forall>t \<in> {..<3}. tmr_base eight_servos t \<noteq> 0 \<longrightarrow> set (timer_channel_range eight_servos t) =
      {c \<in> {..<8}. valid_channel eight_servos c \<and> channels_timer eight_servos c = t}"
    unfolding less_3_cases eight eight_valid by (auto simp: eight_ranges)
  then show ?thesis using c d unfolding pwm_board_ok_def eight_sizes less_3_cases by simp
qed


lemma owner_reset: "c < 16 \<Longrightarrow> owner (io_reset bd) c = IOTimerChanMode_NotUsed"
proof -
  assume c: "c < 16"
  have "(0xffff :: u16) = mask 16" by (simp add: mask_eq_exp_minus_1)
  then have "bit (0xffff :: u16) c" using c by (simp only: bit_mask_iff) simp
  then show ?thesis by (simp add: owner_def io_timer_get_channel_mode_def io_reset_def chan_modes_def flag_simps)
qed

lemma eight_init_inv: "io_inv eight_servos (snd (up_pwm_servo_init eight_servos m (io_reset eight_servos)))"
  using servo_init_laws [OF io_inv_reset [OF pwm_board_ok_eight_servos]] by blast

lemma eight_init_owner:
  "c < 16 \<Longrightarrow> owner (snd (up_pwm_servo_init eight_servos m (io_reset eight_servos))) c =
     (if c < 8 \<and> bit m c then IOTimerChanMode_PWMOut else IOTimerChanMode_NotUsed)"
  using servo_init_laws [OF io_inv_reset [OF pwm_board_ok_eight_servos], of m] owner_reset [of c eight_servos] by (simp add: eight_valid)

section \<open>Properties\<close>



text \<open>
  C28. Setting the rate of a group keeps each channel with one owner exactly when the group is not partly unused. In a partly
  unused group, each unused channel stays in the mask of the unused channels and is in the mask of the outputs too.
\<close>

theorem rate_needs_whole_group:
  assumes "io_inv bd s" "t < MAX_IO_TIMERS bd" "tmr_base bd t \<noteq> 0" "group_rateable bd t s"
  shows "(io_inv bd (snd (io_timer_set_rate bd t rate s)) \<longleftrightarrow> group_unmixed bd t s)
    \<and> (\<not> group_unmixed bd t s \<longrightarrow> (\<forall>c. valid_channel bd c \<and> channels_timer bd c = t \<and> owner s c = IOTimerChanMode_NotUsed \<longrightarrow>
        bit (channel_allocations (snd (io_timer_set_rate bd t rate s)) IOTimerChanMode_NotUsed) c
        \<and> bit (channel_allocations (snd (io_timer_set_rate bd t rate s)) (rate_mode rate)) c))"
  using set_rate [OF assms] set_rate_mixed [OF assms] by blast

theorem rate_needs_whole_group_witness:
  "io_inv eight_servos (snd (up_pwm_servo_init eight_servos 1 (io_reset eight_servos)))
   \<and> \<not> io_inv eight_servos (snd (io_timer_set_rate eight_servos 0 400 (snd (up_pwm_servo_init eight_servos 1 (io_reset eight_servos)))))"
proof -
  let ?s = "snd (up_pwm_servo_init eight_servos 1 (io_reset eight_servos))"
  have o: "owner ?s c = (if c = 0 then IOTimerChanMode_PWMOut else IOTimerChanMode_NotUsed)" if "c < 16" for c
    using eight_init_owner [OF that, of 1] by (auto simp: bit_1_iff)
  have "group_rateable eight_servos 0 ?s" using o by (simp add: group_rateable_def eight_valid)
  moreover have "\<not> group_unmixed eight_servos 0 ?s"
  proof
    assume "group_unmixed eight_servos 0 ?s"
    then consider "owner ?s 0 = IOTimerChanMode_NotUsed" | "owner ?s (Suc 0) \<noteq> IOTimerChanMode_NotUsed"
      unfolding group_unmixed_def eight_valid by (metis eight_timers(1,2) One_nat_def one_less_numeral_iff semiring_norm(76) zero_less_numeral)
    then show False using o [of 0] o [of "Suc 0"] by cases simp_all
  qed
  ultimately show ?thesis
    using rate_needs_whole_group [OF eight_init_inv, where t = 0 and m1 = 1 and rate = 400] eight_init_inv by simp
qed

text \<open>
  Taking outputs for PWM: afterwards the channels of the mask that the board has are PWM outputs, whoever had them before,
  the PWM and OneShot channels outside the mask are unused, and all others are as they were. No output is switched on, and the outputs
  of the channels taken or given up are off.
\<close>

theorem servo_init_takes:
  assumes "io_inv bd s"
  shows "fst (up_pwm_servo_init bd m s) = 0
    \<and> io_inv bd (snd (up_pwm_servo_init bd m s))
    \<and> (\<forall>c < 16. owner (snd (up_pwm_servo_init bd m s)) c =
         (if valid_channel bd c \<and> bit m c then IOTimerChanMode_PWMOut
          else if owner s c \<in> {IOTimerChanMode_PWMOut, IOTimerChanMode_OneShot} then IOTimerChanMode_NotUsed else owner s c))
    \<and> (\<forall>c. valid_channel bd c \<longrightarrow> output_on bd (snd (up_pwm_servo_init bd m s)) c \<longrightarrow>
         \<not> bit m c \<and> owner s c \<notin> {IOTimerChanMode_PWMOut, IOTimerChanMode_OneShot} \<and> output_on bd s c)"
  by (rule servo_init_laws [OF assms])

theorem servo_init_takes_witness:
  "io_inv eight_servos (io_reset eight_servos)
   \<and> owner (snd (up_pwm_servo_init eight_servos 0x21 (io_reset eight_servos))) 5 = IOTimerChanMode_PWMOut
   \<and> owner (snd (up_pwm_servo_init eight_servos 0x21 (io_reset eight_servos))) 4 = IOTimerChanMode_NotUsed"
  using servo_init_takes [OF io_inv_reset [OF pwm_board_ok_eight_servos], where m = "0x21"] io_inv_reset [OF pwm_board_ok_eight_servos]
    owner_reset [of 4 eight_servos]
  by (simp add: eight_valid bit_numeral_rec)

text \<open>
  C26. Arming: the outputs switched are those of the PWM and OneShot channels in the mask, or all of them when the mask is 0 in its
  low 16 bits; every other output stays as it was, and no channel changes its owner.
\<close>

theorem servo_arm_exact:
  assumes "io_inv bd s" "valid_channel bd c"
  shows "output_on bd (up_pwm_servo_arm bd armed m s) c =
      (if owner s c \<in> {IOTimerChanMode_PWMOut, IOTimerChanMode_OneShot} \<and> ((ucast m :: u16) = 0 \<or> bit m c) then armed
       else output_on bd s c)
    \<and> owner (up_pwm_servo_arm bd armed m s) c = owner s c
    \<and> io_inv bd (up_pwm_servo_arm bd armed m s)"
  using servo_arm_laws [OF assms(1)] assms(2) owner_same_masks [of "up_pwm_servo_arm bd armed m s" s] by simp

theorem servo_arm_exact_witness:
  "output_on eight_servos (up_pwm_servo_arm eight_servos True 0 (snd (up_pwm_servo_init eight_servos 0xff (io_reset eight_servos)))) 7"
  using servo_arm_exact [OF eight_init_inv, where c = 7 and armed = True and m = 0 and m1 = "0xff"] eight_init_owner [of 7 "0xff"]
  by (simp add: eight_valid bit_numeral_rec)


text \<open>
  A pulse width written is read back, and the widths of the other channels stay; on a channel without an output mode the write is
  refused.
\<close>

lemma get_ccr_eq:
  assumes "io_inv bd s" "valid_channel bd c"
  shows "io_channel_get_ccr bd c s =
    (if owner s c \<in> {IOTimerChanMode_PWMOut, IOTimerChanMode_OneShot, IOTimerChanMode_Trigger}
     then ucast (REG bd (channels_timer bd c) (ucast (ccr_offset (timer_io_channels bd ! c))) s) else 0)"
  using io_inv_mode [OF assms(1) board_channel_bound [OF io_inv_board [OF assms(1)] assms(2)]] assms(2)
  by (simp add: io_channel_get_ccr_def valid_channel_def)

theorem servo_set_get:
  assumes i: "io_inv bd s" and c: "valid_channel bd c" and d: "valid_channel bd d"
    and o: "owner s c \<in> {IOTimerChanMode_PWMOut, IOTimerChanMode_OneShot, IOTimerChanMode_Trigger}"
  shows "fst (up_pwm_servo_set bd c v s) = 0
    \<and> up_pwm_servo_get bd d (snd (up_pwm_servo_set bd c v s)) = (if d = c then v else up_pwm_servo_get bd d s)"
proof -
  note b = io_inv_board [OF i]
  have dr: "drives_output (owner s c)" using o by (auto simp: drives_output_def)
  let ?s = "snd (io_timer_set_ccr bd c v s)"
  have ow: "owner ?s = owner s" by (rule owner_same_masks [OF set_ccr_laws(2) [OF i]])
  have "REG bd (channels_timer bd d) (ucast (ccr_offset (timer_io_channels bd ! d))) ?s =
      (if d = c then ucast v else REG bd (channels_timer bd d) (ucast (ccr_offset (timer_io_channels bd ! d))) s)"
  proof -
    have "tmr_base bd (channels_timer bd d) = tmr_base bd (channels_timer bd c) \<longleftrightarrow> channels_timer bd d = channels_timer bd c"
      using board_base_inj [OF b board_channel_timer [OF b d] board_channel_timer [OF b c] valid_channelD(2) [OF d]] .
    moreover have "(ucast (ccr_offset (timer_io_channels bd ! d)) :: u32) = ucast (ccr_offset (timer_io_channels bd ! c))
        \<longleftrightarrow> chan_pos bd d = chan_pos bd c"
      unfolding ccr_offset_pos [OF b d] ccr_offset_pos [OF b c] using pos_cases [OF b d] pos_cases [OF b c] by auto
    ultimately show ?thesis
      using ccr_not_ccer [OF b c] board_pos_inj [OF b d c] dr by (auto simp: set_ccr_eq [OF i c] regs_REG_write REG_def)
  qed
  note reg = this
  have "ucast (ucast v :: u32) = v" by (rule bit_word_eqI) (simp add: bit_ucast_iff)
  then have "io_channel_get_ccr bd d ?s = (if d = c then v else io_channel_get_ccr bd d s)"
    unfolding get_ccr_eq [OF set_ccr_laws(1) [OF i] d] get_ccr_eq [OF i d] ow reg using o by auto
  moreover have "fst (io_timer_set_ccr bd c v s) = 0" using dr by (simp add: set_ccr_eq [OF i c])
  ultimately show ?thesis by (simp add: up_pwm_servo_set_def up_pwm_servo_get_def)
qed

theorem servo_set_refused:
  assumes "io_inv bd s" "valid_channel bd c" "\<not> drives_output (owner s c)"
  shows "up_pwm_servo_set bd c v s = (- IO_EIO, s)"
  using assms(3) by (simp add: up_pwm_servo_set_def set_ccr_eq [OF assms(1,2)])

text \<open>
  \<open>up_pwm_trigger_deinit\<close> switches the trigger outputs off but gives no channel back: its loop asks for the mode \<open>NotUsed\<close>,
  which \<open>io_timer_channel_init\<close> refuses.
\<close>

theorem trigger_deinit_keeps_channels:
  assumes "io_inv bd s" "valid_channel bd c" "owner s c = IOTimerChanMode_Trigger"
  shows "owner (up_pwm_trigger_deinit bd s) c = IOTimerChanMode_Trigger \<and> \<not> output_on bd (up_pwm_trigger_deinit bd s) c"
  using trigger_arm_laws [OF assms(1)] owner_same_masks [of "up_pwm_trigger_arm bd False s" s] assms(2,3)
  by (simp add: trigger_deinit_eq)

text \<open>
  The results of \<open>up_pwm_servo_set_rate_group_update\<close>: no such timer, a rate above 10 kHz, a group with a channel in another mode, or
  the group moved to the mode of the rate and its period set to the rate rounded to whole ticks of the PWM clock.
\<close>

theorem rate_update_results:
  assumes i: "io_inv bd s" and u: "group_unmixed bd g s"
  shows "fst (up_pwm_servo_set_rate_group_update bd g rate s) =
      (if \<not> (g < MAX_IO_TIMERS bd \<and> tmr_base bd g \<noteq> 0) then - 1
       else if rate > 10000 then - IO_ERANGE else if \<not> group_rateable bd g s then IO_EBUSY else 0)"
    and "fst (up_pwm_servo_set_rate_group_update bd g rate s) = 0 \<Longrightarrow> rate \<noteq> 0 \<Longrightarrow>
      REG bd g GTIM_ARR (snd (up_pwm_servo_set_rate_group_update bd g rate s)) = BOARD_PWM_FREQ bd div rate - 1"
proof -
  show r: "fst (up_pwm_servo_set_rate_group_update bd g rate s) =
      (if \<not> (g < MAX_IO_TIMERS bd \<and> tmr_base bd g \<noteq> 0) then - 1
       else if rate > 10000 then - IO_ERANGE else if \<not> group_rateable bd g s then IO_EBUSY else 0)"
    using set_rate [OF i _ _ _ u, of rate] set_rate_busy(1) [OF i, of g rate] by (auto simp: rate_update_eq)
  show "REG bd g GTIM_ARR (snd (up_pwm_servo_set_rate_group_update bd g rate s)) = BOARD_PWM_FREQ bd div rate - 1"
    if "fst (up_pwm_servo_set_rate_group_update bd g rate s) = 0" "rate \<noteq> 0"
  proof -
    have g: "g < MAX_IO_TIMERS bd" "tmr_base bd g \<noteq> 0" "group_rateable bd g s" "\<not> rate > 10000"
      using that(1) unfolding r by (auto split: if_splits)
    then show ?thesis using set_rate [OF i g(1,2,3) u, of rate] that(2) by (simp add: rate_update_eq REG_def rate_regs_regs)
  qed
qed

section \<open>The prescaler of a timer that was in OneShot mode\<close>

lemma enable_other:
  assumes "off \<notin> {GTIM_CCER, GTIM_DIER, GTIM_CR1}"
  shows "io_regs (snd (io_timer_set_enable bd state mode masks s)) b off = io_regs s b off"
proof -
  have "io_regs (enable_apply bd cr1 cache t s) b off = io_regs s b off" for cr1 cache t and s :: "'a io_state_scheme"
    using assms by (auto simp: enable_apply_def Let_def regs_REG32_write regs_REG_write)
  then have "io_regs (fold (enable_apply bd cr1 cache) ts s) b off = io_regs s b off" for cr1 cache ts and s :: "'a io_state_scheme"
    by (induction ts arbitrary: s) simp_all
  then show ?thesis by (simp add: io_timer_set_enable_def Let_def split: option.splits prod.splits)
qed

text \<open>Once a timer is initialised, taking channels does not touch its prescaler: it is written by the rate of the group only.\<close>

definition prescaler_kept :: "pwm_board \<Rightarrow> nat \<Rightarrow> 'a io_state_scheme \<Rightarrow> 'a io_state_scheme \<Rightarrow> bool" where
  "prescaler_kept bd t s s' \<longleftrightarrow> (bit (once s) t \<longrightarrow> bit (once s') t \<and> REG bd t GTIM_PSC s' = REG bd t GTIM_PSC s)"

lemma prescaler_kept_refl [simp]: "prescaler_kept bd t s s"
  by (simp add: prescaler_kept_def)

lemma prescaler_kept_trans: "prescaler_kept bd t s1 s2 \<Longrightarrow> prescaler_kept bd t s2 s3 \<Longrightarrow> prescaler_kept bd t s1 s3"
  by (simp add: prescaler_kept_def)

lemma free_prescaler: "prescaler_kept bd t s (snd (io_timer_free_channel bd c s))"
  by (auto simp: prescaler_kept_def io_timer_free_channel_def REG_def enable_other split: option.splits)

lemma configure_psc:
  assumes "pwm_board_ok bd" "valid_channel bd c"
  shows "io_regs (configure_channel bd c st h s) b GTIM_PSC = io_regs s b GTIM_PSC"
proof -
  have "GTIM_CCMR1 + drop_bit 1 (chan_shifts bd c) * 4 \<noteq> GTIM_PSC" "GTIM_CCR1 + chan_shifts bd c * 4 \<noteq> GTIM_PSC"
    using pos_cases [OF assms] unfolding chan_shifts(4) [OF assms] by auto
  then show ?thesis by (simp add: configure_channel_def Let_def regs_REG_write split: prod.splits)
qed

lemma init_timer_prescaler:
  assumes "tmr_base bd u = tmr_base bd t \<longleftrightarrow> u = t"
  shows "prescaler_kept bd t s (snd (io_timer_init_timer bd u s))"
proof -
  have "has_flag (once s) (push_bit u 1) \<longleftrightarrow> bit (once s) u" by (rule has_flag_bit)
  then show ?thesis using assms
    by (auto simp: prescaler_kept_def REG_def io_timer_init_timer_def is_timer_uninitalized_def set_timer_initalized_def io_modifyreg32_def
          cleared_regs_def io_timer_set_PWM_mode_def timer_set_rate_def Let_def regs_REG_write flag_simps push_bit_of_1)
qed

lemma init_prescaler:
  assumes i: "io_inv bd s" and c: "c < 16" and t: "t < MAX_IO_TIMERS bd" "tmr_base bd t \<noteq> 0"
  shows "prescaler_kept bd t s (snd (io_timer_channel_init bd c m h s))"
proof (cases "valid_channel bd c \<and> owner s c = IOTimerChanMode_NotUsed \<and> m \<noteq> IOTimerChanMode_NotUsed \<and> channel_setup bd c m \<noteq> None")
  case True
  then obtain st where st: "channel_setup bd c m = Some st" by blast
  have m: "m \<noteq> IOTimerChanModeSize" using True setup_some [of bd c m] by simp
  note b = io_inv_board [OF i]
  note al = owners_allocate(1) [OF io_inv_owners [OF i] c, of m bd]
  let ?a = "snd (allocate_channel bd c m s)" and ?u = "channels_timer bd c"
  have eq: "snd (io_timer_channel_init bd c m h s) = configure_channel bd c st h (snd (io_timer_init_timer bd ?u ?a))"
    using st al m True by (auto simp: io_timer_channel_init_def split: prod.splits)
  have "tmr_base bd ?u = tmr_base bd t \<longleftrightarrow> ?u = t"
    using board_base_inj [OF b board_channel_timer [OF b] t(1) valid_channelD(2)] True by blast
  then have "prescaler_kept bd t ?a (snd (io_timer_init_timer bd ?u ?a))" by (rule init_timer_prescaler)
  then show ?thesis using True by (simp add: eq prescaler_kept_def REG_def configure_psc [OF b])
next
  case False
  then have "snd (io_timer_channel_init bd c m h s) = s" using channel_init_refused [OF i c, of m h] by blast
  then show ?thesis by simp
qed

lemma free_all_prescaler: "prescaler_kept bd t s (fold (\<lambda>c s. snd (io_timer_free_channel bd c s)) cs s)"
  by (induction cs arbitrary: s) (auto intro: prescaler_kept_trans free_prescaler)

lemma take_all_prescaler:
  assumes "io_inv bd s" "\<forall>c \<in> set cs. c < 16" "t < MAX_IO_TIMERS bd" "tmr_base bd t \<noteq> 0"
  shows "prescaler_kept bd t s (fold (take_one bd IOTimerChanMode_PWMOut) cs s)"
  using assms(1,2)
proof (induction cs arbitrary: s)
  case (Cons c cs)
  let ?f = "snd (io_timer_free_channel bd c s)"
  have c: "c < 16" using Cons.prems(2) by simp
  have f: "io_inv bd ?f" using free_channel [OF Cons.prems(1), of c] Cons.prems(1) servo.release_invalid [OF Cons.prems(1), of c]
    by (cases "valid_channel bd c") auto
  have "prescaler_kept bd t s (take_one bd IOTimerChanMode_PWMOut c s)"
    unfolding take_one_eq [OF Cons.prems(1) c]
    by (rule prescaler_kept_trans [OF free_prescaler init_prescaler [OF f c assms(3,4)]])
  moreover have "io_inv bd (take_one bd IOTimerChanMode_PWMOut c s)"
    unfolding take_one_eq [OF Cons.prems(1) c] using servo.take_channel [OF Cons.prems(1) c] by blast
  ultimately show ?case using Cons.IH Cons.prems(2) by (auto intro: prescaler_kept_trans)
qed simp

lemma init_sets_once:
  assumes i: "io_inv bd s" and c: "valid_channel bd c" and free: "owner s c = IOTimerChanMode_NotUsed"
    and m: "m \<noteq> IOTimerChanMode_NotUsed" "channel_setup bd c m \<noteq> None"
  shows "bit (once (snd (io_timer_channel_init bd c m h s))) (channels_timer bd c)"
proof -
  have b: "pwm_board_ok bd" and c16: "c < 16" using io_inv_board [OF i] board_channel_bound c by blast+
  obtain st where st: "channel_setup bd c m = Some st" using m(2) by blast
  have m': "m \<noteq> IOTimerChanModeSize" using m(2) setup_some by blast
  let ?u = "channels_timer bd c" and ?a = "snd (allocate_channel bd c m s)"
  have eq: "snd (io_timer_channel_init bd c m h s) = configure_channel bd c st h (snd (io_timer_init_timer bd ?u ?a))"
    using st owners_allocate(1) [OF io_inv_owners [OF i] c16 free m(1) m' c] by (auto simp: io_timer_channel_init_def split: prod.splits)
  have "?u < 8" using board_channel_timer [OF b c] b by (simp add: pwm_board_ok_def)
  moreover have "has_flag (once ?a) (push_bit ?u 1) \<longleftrightarrow> bit (once ?a) ?u" by (rule has_flag_bit)
  ultimately show ?thesis
    by (auto simp: eq io_timer_init_timer_def is_timer_uninitalized_def set_timer_initalized_def io_modifyreg32_def cleared_regs_def
          io_timer_set_PWM_mode_def timer_set_rate_def Let_def flag_simps push_bit_of_1 bit_exp_iff)
qed

lemma take_all_once:
  assumes "io_inv bd s" "\<forall>c \<in> set cs. c < 16" "d \<in> set cs" "valid_channel bd d"
  shows "bit (once (fold (take_one bd IOTimerChanMode_PWMOut) cs s)) (channels_timer bd d)"
  using assms(1,2,3)
proof (induction cs arbitrary: s)
  case (Cons c cs)
  note t = board_channel_timer [OF io_inv_board [OF Cons.prems(1)] assms(4)] valid_channelD(2) [OF assms(4)]
  have c: "c < 16" using Cons.prems(2) by simp
  let ?s = "take_one bd IOTimerChanMode_PWMOut c s" and ?f = "snd (io_timer_free_channel bd c s)"
  have inv: "io_inv bd ?s"
    unfolding take_one_eq [OF Cons.prems(1) c] using servo.take_channel [OF Cons.prems(1) c] by blast
  show ?case
  proof (cases "d = c")
    case True
    have "io_inv bd ?f" "owner ?f c = IOTimerChanMode_NotUsed" using free_channel [OF Cons.prems(1) assms(4)] True c by auto
    then have "bit (once ?s) (channels_timer bd c)"
      unfolding take_one_eq [OF Cons.prems(1) c] using assms(4) True by (intro init_sets_once) (auto simp: channel_setup_def)
    then show ?thesis using take_all_prescaler [OF inv _ t, of cs] Cons.prems(2) True by (simp add: prescaler_kept_def)
  next
    case False
    then show ?thesis using Cons.IH [OF inv] Cons.prems by simp
  qed
qed simp

lemma eight_init_once:
  assumes "d < 8" "bit m d"
  shows "bit (once (snd (up_pwm_servo_init eight_servos m (io_reset eight_servos)))) (channels_timer eight_servos d)"
proof -
  let ?s = "io_reset eight_servos"
  have i: "io_inv eight_servos ?s" by (rule io_inv_reset [OF pwm_board_ok_eight_servos])
  let ?cur = "io_timer_get_mode_channels IOTimerChanMode_PWMOut ?s OR io_timer_get_mode_channels IOTimerChanMode_OneShot ?s"
  let ?f = "fold (\<lambda>c s. snd (io_timer_free_channel eight_servos c s)) (board_channels eight_servos ?cur) ?s"
  have "io_inv eight_servos ?f" using servo.release_all [OF i] by blast
  moreover have "snd (up_pwm_servo_init eight_servos m ?s) = fold (take_one eight_servos IOTimerChanMode_PWMOut) (board_channels eight_servos m) ?f"
    by (simp add: up_pwm_servo_init_def Let_def free_masked_loop take_masked_loop board_channels_def)
  moreover have "valid_channel eight_servos d" using assms(1) by (simp add: eight_valid)
  ultimately show ?thesis
    using take_all_once board_channels_bound [OF pwm_board_ok_eight_servos] board_channels_valid assms(2) by metis
qed

lemma servo_init_prescaler:
  assumes i: "io_inv bd s" and t: "t < MAX_IO_TIMERS bd" "tmr_base bd t \<noteq> 0"
  shows "prescaler_kept bd t s (snd (up_pwm_servo_init bd m s))"
proof -
  let ?cur = "io_timer_get_mode_channels IOTimerChanMode_PWMOut s OR io_timer_get_mode_channels IOTimerChanMode_OneShot s"
  let ?f = "fold (\<lambda>c s. snd (io_timer_free_channel bd c s)) (board_channels bd ?cur) s"
  have "io_inv bd ?f" using servo.release_all [OF i] by blast
  then have "prescaler_kept bd t ?f (fold (take_one bd IOTimerChanMode_PWMOut) (board_channels bd m) ?f)"
    using board_channels_bound [OF io_inv_board [OF i]] t by (rule take_all_prescaler)
  moreover have "snd (up_pwm_servo_init bd m s) = fold (take_one bd IOTimerChanMode_PWMOut) (board_channels bd m) ?f"
    by (simp add: up_pwm_servo_init_def Let_def free_masked_loop take_masked_loop board_channels_def)
  ultimately show ?thesis using prescaler_kept_trans [OF free_all_prescaler] by metis
qed

text \<open>
  C29. The prescaler of OneShot survives. When a group of PWM outputs has been in OneShot mode and its outputs are then taken again
  for PWM, setting an ordinary rate finds no channel to move and leaves the prescaler of OneShot: the auto-reload value is that
  of the rate for the PWM clock, but the counter still runs at the OneShot clock.
\<close>

theorem oneshot_prescaler_survives:
  assumes i: "io_inv bd s" and t: "t < MAX_IO_TIMERS bd" "tmr_base bd t \<noteq> 0" and once: "bit (once s) t"
    and pwm: "\<forall>c. valid_channel bd c \<and> channels_timer bd c = t \<longrightarrow> owner s c = IOTimerChanMode_PWMOut \<and> bit m c"
    and some: "\<exists>c. valid_channel bd c \<and> channels_timer bd c = t" and rate: "rate \<noteq> 0" "rate \<le> 10000"
  defines "s1 \<equiv> snd (up_pwm_servo_set_rate_group_update bd t PWM_RATE_ONESHOT s)"
  defines "s2 \<equiv> snd (up_pwm_servo_init bd m s1)"
  defines "s3 \<equiv> snd (up_pwm_servo_set_rate_group_update bd t rate s2)"
  shows "REG bd t GTIM_PSC s3 = io_clock_freq (io_timers bd ! t) div BOARD_ONESHOT_FREQ bd - 1
    \<and> REG bd t GTIM_ARR s3 = BOARD_PWM_FREQ bd div rate - 1
    \<and> (\<forall>c. valid_channel bd c \<and> channels_timer bd c = t \<longrightarrow> owner s3 c = IOTimerChanMode_PWMOut)"
proof -
  let ?in = "\<lambda>c. valid_channel bd c \<and> channels_timer bd c = t"
  have bound: "c < 16" if "?in c" for c using that board_channel_bound io_inv_board [OF i] by blast
  have 1: "group_rateable bd t s" "group_unmixed bd t s" using pwm by (auto simp: group_rateable_def group_unmixed_def)
  note r1 = set_rate [OF i t 1, of 0]
  have s1: "s1 = snd (io_timer_set_rate bd t 0 s)" using t by (simp add: s1_def rate_update_eq)
  have psc1: "REG bd t GTIM_PSC s1 = io_clock_freq (io_timers bd ! t) div BOARD_ONESHOT_FREQ bd - 1"
    using r1 pwm some by (auto simp: s1 REG_def rate_regs_regs rate_mode_def)
  have once1: "bit (once s1) t"
    using once set_rate_eq [OF i t, of 0] 1 by (simp add: s1)
  have i1: "io_inv bd s1" using r1 by (simp add: s1)
  have i2: "io_inv bd s2" and o2: "owner s2 c = IOTimerChanMode_PWMOut" if "?in c" for c
    using servo_init_laws [OF i1, of m] pwm bound [OF that] that by (auto simp: s2_def)
  have i2: "io_inv bd s2" using some i2 by blast
  have psc2: "REG bd t GTIM_PSC s2 = REG bd t GTIM_PSC s1"
    using servo_init_prescaler [OF i1 t, of m] once1 by (simp add: s2_def prescaler_kept_def)
  have 2: "group_rateable bd t s2" "group_unmixed bd t s2" using o2 by (auto simp: group_rateable_def group_unmixed_def)
  have s3: "s3 = snd (io_timer_set_rate bd t rate s2)" using t rate by (simp add: s3_def rate_update_eq not_less)
  have "REG bd t off s3 = io_regs (rate_regs bd t rate False s2) (tmr_base bd t) off" for off
  proof -
    have e: "(\<exists>c. valid_channel bd c \<and> channels_timer bd c = t \<and> owner s2 c \<noteq> rate_mode rate) = False"
      using o2 rate(1) by (auto simp: rate_mode_def)
    have "io_regs (snd (io_timer_set_rate bd t rate s2)) (tmr_base bd t) off = io_regs (rate_regs bd t rate
        (\<exists>c. valid_channel bd c \<and> channels_timer bd c = t \<and> owner s2 c \<noteq> rate_mode rate) s2) (tmr_base bd t) off"
      using set_rate [OF i2 t 2, of rate] by blast
    then show ?thesis unfolding s3 REG_def e .
  qed
  then have "REG bd t GTIM_PSC s3 = REG bd t GTIM_PSC s2" "REG bd t GTIM_ARR s3 = BOARD_PWM_FREQ bd div rate - 1"
    using rate(1) by (simp_all add: rate_regs_regs REG_def)
  moreover have "owner s3 c = IOTimerChanMode_PWMOut" if "?in c" for c
    using set_rate [OF i2 t 2, of rate] rate(1) that bound [OF that] by (simp add: s3 rate_mode_def)
  ultimately show ?thesis using psc1 psc2 by simp
qed


theorem oneshot_prescaler_survives_witness:
  "REG eight_servos 0 GTIM_PSC
     (snd (up_pwm_servo_set_rate_group_update eight_servos 0 50 (snd (up_pwm_servo_init eight_servos 0xff
        (snd (up_pwm_servo_set_rate_group_update eight_servos 0 PWM_RATE_ONESHOT
           (snd (up_pwm_servo_init eight_servos 0xff (io_reset eight_servos)))))))))
   = 2 \<and> io_clock_freq (io_timers eight_servos ! 0) div BOARD_PWM_FREQ eight_servos - 1 = 23"
proof -
  let ?s = "snd (up_pwm_servo_init eight_servos 0xff (io_reset eight_servos))"
  have ff: "bit (0xff :: u32) c \<longleftrightarrow> c < 8" for c by (rule bit_0xff)
  have "bit (once ?s) 0" using eight_init_once [of 0 "0xff"] by (simp add: ff)
  moreover have "\<forall>c. valid_channel eight_servos c \<and> channels_timer eight_servos c = 0 \<longrightarrow>
      owner ?s c = IOTimerChanMode_PWMOut \<and> bit (0xff :: u32) c"
  proof -
    have "owner ?s c = IOTimerChanMode_PWMOut" if "c < 8" for c using eight_init_owner [of c "0xff"] that unfolding ff by simp
    then show ?thesis unfolding eight_valid ff by blast
  qed
  moreover have "io_clock_freq (io_timers eight_servos ! 0) = 24000000" "BOARD_PWM_FREQ eight_servos = 1000000"
    "BOARD_ONESHOT_FREQ eight_servos = 8000000" by (simp_all add: eight_servos_def)
  moreover have "\<exists>c. valid_channel eight_servos c \<and> channels_timer eight_servos c = 0" by (rule exI [of _ 0]) (simp add: eight_valid)
  ultimately show ?thesis
    using oneshot_prescaler_survives [OF eight_init_inv, where t = 0 and rate = 50 and m = "0xff" and m1 = "0xff"]
    by simp
qed

end
