(* ===== verification/Input_Capture.thy ===== *)
theory Input_Capture
  imports Pwm_Output
begin

text \<open>
  Input capture on the timers' channels (\<open>stm/stm32_common/io_pins/input_capture.c\<close>): the handler of an edge, and the
  filter, the edge, the callback and the statistics of a channel. The callback of a client is the parameter \<open>notify\<close>, the level
  of a pin the parameter \<open>pin\<close>.
\<close>

section \<open>State\<close>

datatype input_capture_edge = Disabled | Rising | Falling | Both

record input_capture_stats =
  chan_in_edges_out :: u32
  cap_overflows :: u32
  cap_last_edge :: u32
  cap_last_time :: u64
  latnecy :: u16

record capture_state = io_state +
  capture_stats :: "input_capture_stats list"
  capture_handlers :: "(nat option \<times> u32) list"

definition stats_clear :: input_capture_stats where
  "stats_clear = \<lparr>chan_in_edges_out = 0, cap_overflows = 0, cap_last_edge = 0, cap_last_time = 0, latnecy = 0\<rparr>"

abbreviation GTIM_CCMR1_IC1F_MASK :: u16 where "GTIM_CCMR1_IC1F_MASK \<equiv> 0xf0"

section \<open>The handler of an edge\<close>

type_synonym capture_callback = "nat \<Rightarrow> u32 \<Rightarrow> nat \<Rightarrow> u64 \<Rightarrow> u32 \<Rightarrow> u32 \<Rightarrow> capture_state \<Rightarrow> capture_state"

definition input_capture_chan_handler ::
    "pwm_board \<Rightarrow> (u32 \<Rightarrow> bool) \<Rightarrow> capture_callback \<Rightarrow> nat \<Rightarrow> u64 \<Rightarrow> u16 \<Rightarrow> capture_state \<Rightarrow> capture_state" where
  "input_capture_chan_handler bd pin notify c isrs_time isrs_rcnt s =
     (let chan = timer_io_channels bd ! c; t = channels_timer bd c;
          capture = ucast (REG bd t (ucast (ccr_offset chan)) s) :: u16;
          st = capture_stats s ! c;
          st = st\<lparr>cap_last_edge := (if pin (gpio_in chan) then 1 else 0)\<rparr>;
          delay = uint isrs_rcnt - uint capture;
          st = (if delay > uint (latnecy st) then st\<lparr>latnecy := of_int delay\<rparr> else st);
          st = st\<lparr>chan_in_edges_out := chan_in_edges_out st + 1, cap_last_time := isrs_time - of_int delay\<rparr>;
          overflow = REG bd t GTIM_SR s AND ucast (chan_masks chan) AND ucast GTIM_SR_CCOF;
          st = (if overflow \<noteq> 0 then st\<lparr>cap_overflows := cap_overflows st + 1\<rparr> else st);
          s = s\<lparr>capture_stats := (capture_stats s)[c := st]\<rparr>
      in (case capture_handlers s ! c of
            (Some f, ctx) \<Rightarrow> notify f ctx c (cap_last_time st) (cap_last_edge st) overflow s
          | (None, _) \<Rightarrow> s))"

definition capture_interrupt ::
    "pwm_board \<Rightarrow> (u32 \<Rightarrow> bool) \<Rightarrow> capture_callback \<Rightarrow> u64 \<Rightarrow> nat \<Rightarrow> capture_state \<Rightarrow> capture_state" where
  "capture_interrupt bd pin notify now t s =
     io_timer_handler bd (\<lambda>f ctx c now count. input_capture_chan_handler bd pin notify c now count) now t s"

section \<open>Configuration of a channel\<close>

definition input_capture_bind :: "nat \<Rightarrow> nat option \<times> u32 \<Rightarrow> capture_state \<Rightarrow> capture_state" where
  "input_capture_bind c cb s = s\<lparr>capture_handlers := (capture_handlers s)[c := cb]\<rparr>"

definition input_capture_unbind :: "nat \<Rightarrow> capture_state \<Rightarrow> capture_state" where
  "input_capture_unbind c s = input_capture_bind c (None, 0) s"

text \<open>The register with the filter of a channel of the timer, and its place there.\<close>

definition filter_place :: "u8 \<Rightarrow> (u32 \<times> nat) option" where
  "filter_place tc = (if tc = 1 then Some (GTIM_CCMR1, 4) else if tc = 2 then Some (GTIM_CCMR1, 12)
     else if tc = 3 then Some (GTIM_CCMR2, 4) else if tc = 4 then Some (GTIM_CCMR2, 12) else None)"

definition edge_place :: "u8 \<Rightarrow> nat option" where
  "edge_place tc = (if tc = 1 then Some 0 else if tc = 2 then Some 4 else if tc = 3 then Some 8 else if tc = 4 then Some 12 else None)"

definition in_capture_mode :: "nat \<Rightarrow> 'a io_state_scheme \<Rightarrow> bool" where
  "in_capture_mode c s \<longleftrightarrow> io_timer_get_channel_mode c s = Some IOTimerChanMode_Capture"

definition up_input_capture_get_filter :: "pwm_board \<Rightarrow> nat \<Rightarrow> 'a io_state_scheme \<Rightarrow> int \<times> u16 option" where
  "up_input_capture_get_filter bd c s =
     (let rv = io_timer_validate_channel_index bd c in
      if rv \<noteq> 0 then (rv, None)
      else if \<not> in_capture_mode c s then (- IO_ENXIO, None)
      else (case filter_place (timer_channel (timer_io_channels bd ! c)) of
          None \<Rightarrow> (- IO_EIO, None)
        | Some (off, sh) \<Rightarrow>
            let rvalue = ucast (REG bd (channels_timer bd c) off s AND push_bit sh 0xf) :: u16
            in (0, Some (drop_bit sh rvalue))))"

definition up_input_capture_set_filter :: "pwm_board \<Rightarrow> nat \<Rightarrow> u16 \<Rightarrow> 'a io_state_scheme \<Rightarrow> int \<times> 'a io_state_scheme" where
  "up_input_capture_set_filter bd c flt s =
     (if flt > GTIM_CCMR1_IC1F_MASK then (- IO_EINVAL, s)
      else
        let rv = io_timer_validate_channel_index bd c in
        if rv \<noteq> 0 then (rv, s)
        else if \<not> in_capture_mode c s then (- IO_ENXIO, s)
        else (case filter_place (timer_channel (timer_io_channels bd ! c)) of
            None \<Rightarrow> (- IO_EIO, s)
          | Some (off, sh) \<Rightarrow>
              (0, REG_write bd (channels_timer bd c) off
                    (rmw16 (REG bd (channels_timer bd c) off s) (push_bit sh 0xf) (push_bit sh (ucast flt))) s)))"

definition up_input_capture_get_trigger :: "pwm_board \<Rightarrow> nat \<Rightarrow> 'a io_state_scheme \<Rightarrow> int \<times> input_capture_edge option" where
  "up_input_capture_get_trigger bd c s =
     (let rv = io_timer_validate_channel_index bd c in
      if rv \<noteq> 0 then (rv, None)
      else if \<not> in_capture_mode c s then (- IO_ENXIO, None)
      else (case edge_place (timer_channel (timer_io_channels bd ! c)) of
          None \<Rightarrow> (- IO_EIO, None)
        | Some sh \<Rightarrow>
            let rvalue = drop_bit sh (ucast (REG bd (channels_timer bd c) GTIM_CCER s AND push_bit sh (GTIM_CCER_CC1P OR GTIM_CCER_CC1NP)) :: u16)
            in if rvalue = 0 then (0, Some Rising)
               else if rvalue = 0xa then (0, Some Both)
               else if rvalue = 0x2 then (0, Some Falling)
               else (- IO_EIO, None)))"

definition edge_bits :: "input_capture_edge \<Rightarrow> u32" where
  "edge_bits edge = (case edge of Disabled \<Rightarrow> 0xffff | Rising \<Rightarrow> 0 | Falling \<Rightarrow> GTIM_CCER_CC1P
     | Both \<Rightarrow> GTIM_CCER_CC1P OR GTIM_CCER_CC1NP)"

definition up_input_capture_set_trigger ::
    "pwm_board \<Rightarrow> nat \<Rightarrow> input_capture_edge \<Rightarrow> 'a io_state_scheme \<Rightarrow> int \<times> 'a io_state_scheme" where
  "up_input_capture_set_trigger bd c edge s =
     (let rv = io_timer_validate_channel_index bd c in
      if rv \<noteq> 0 then (rv, s)
      else if \<not> in_capture_mode c s then (- IO_ENXIO, s)
      else (case edge_place (timer_channel (timer_io_channels bd ! c)) of
          None \<Rightarrow> (- IO_EIO, s)
        | Some sh \<Rightarrow>
            (0, REG_write bd (channels_timer bd c) GTIM_CCER
                  (rmw16 (REG bd (channels_timer bd c) GTIM_CCER s) (push_bit sh (GTIM_CCER_CC1P OR GTIM_CCER_CC1NP))
                     (push_bit sh (edge_bits edge))) s)))"

definition up_input_capture_get_callback :: "pwm_board \<Rightarrow> nat \<Rightarrow> capture_state \<Rightarrow> int \<times> (nat option \<times> u32) option" where
  "up_input_capture_get_callback bd c s =
     (let rv = io_timer_validate_channel_index bd c in
      if rv \<noteq> 0 then (rv, None)
      else if \<not> in_capture_mode c s then (- IO_ENXIO, None)
      else (0, Some (capture_handlers s ! c)))"

definition up_input_capture_set_callback :: "pwm_board \<Rightarrow> nat \<Rightarrow> nat option \<times> u32 \<Rightarrow> capture_state \<Rightarrow> int \<times> capture_state" where
  "up_input_capture_set_callback bd c cb s =
     (let rv = io_timer_validate_channel_index bd c in
      if rv \<noteq> 0 then (rv, s)
      else if \<not> in_capture_mode c s then (- IO_ENXIO, s)
      else (0, input_capture_bind c cb s))"

definition up_input_capture_get_stats ::
    "pwm_board \<Rightarrow> nat \<Rightarrow> bool \<Rightarrow> capture_state \<Rightarrow> int \<times> input_capture_stats option \<times> capture_state" where
  "up_input_capture_get_stats bd c clear s =
     (let rv = io_timer_validate_channel_index bd c in
      if rv \<noteq> 0 then (rv, None, s)
      else (0, Some (capture_stats s ! c),
            if clear then s\<lparr>capture_stats := (capture_stats s)[c := stats_clear]\<rparr> else s))"

definition up_input_capture_set ::
    "pwm_board \<Rightarrow> nat \<Rightarrow> input_capture_edge \<Rightarrow> u16 \<Rightarrow> nat option \<times> u32 \<Rightarrow> capture_state \<Rightarrow> int \<times> capture_state" where
  "up_input_capture_set bd c edge flt cb s =
     (if flt > GTIM_CCMR1_IC1F_MASK then (- IO_EINVAL, s)
      else
        let rv = io_timer_validate_channel_index bd c in
        if rv \<noteq> 0 then (rv, s)
        else if edge = Disabled then
          (rv, input_capture_unbind c (snd (io_timer_set_enable bd False IOTimerChanMode_Capture (push_bit c 1) s)))
        else
          let s = (if io_timer_is_channel_free bd c s = - IO_EBUSY then snd (io_timer_free_channel bd c s) else s);
              s = input_capture_bind c cb s;
              (rv, s) = io_timer_channel_init bd c IOTimerChanMode_Capture (Some 0, snd cb) s
          in if rv \<noteq> 0 then (rv, s)
             else
               let (rv, s) = up_input_capture_set_filter bd c flt s
               in if rv \<noteq> 0 then (rv, s)
                  else
                    let (rv, s) = up_input_capture_set_trigger bd c edge s
                    in if rv \<noteq> 0 then (rv, s)
                       else io_timer_set_enable bd True IOTimerChanMode_Capture (push_bit c 1) s)"

end
