(* ===== verification/Capture_Laws.thy ===== *)
theory Capture_Laws
  imports Pwm_System Input_Capture
begin

text \<open>
  What configuring a capture channel does: the filter, the edge and the callback asked for are those read back, the channel belongs to
  the capture driver, and the other channels of the timer keep theirs; what a filter above 15 and the edge
  \<open>Disabled\<close> do instead; and the time that the handler gives to an edge.
\<close>

section \<open>Fields of the registers\<close>

lemma fifteen: "(0xf :: u32) = mask 4"
  by (simp add: mask_eq_exp_minus_1)

lemma bit_rmw16_iff: "bit (rmw16 v clr st) k \<longleftrightarrow> k < 16 \<and> (bit v k \<and> \<not> bit clr k \<or> bit st k)"
  by (auto simp: rmw16_def bit_simps dest: bit_imp_le_length)

lemma filter_bits: "flt \<le> 15 \<Longrightarrow> bit (flt :: u16) k \<Longrightarrow> k < 4"
proof -
  assume "flt \<le> 15" and b: "bit flt k"
  then have "unat flt < 2 ^ 4" by (simp add: word_le_nat_alt)
  then have "take_bit 4 (unat flt) = unat flt" by (rule take_bit_nat_eq_self)
  then have "take_bit 4 flt = flt" by (metis unsigned_take_bit_eq unsigned_word_eqI word_eq_iff_unsigned)
  then show ?thesis using b by (metis bit_take_bit_iff)
qed

lemma read_filter:
  assumes "sh + 4 \<le> 16"
  shows "bit (drop_bit sh (ucast (v AND push_bit sh 0xf :: u32) :: u16)) k \<longleftrightarrow> k < 4 \<and> bit v (sh + k)"
  using assms unfolding fifteen by (auto simp: bit_simps)

lemma write_filter:
  assumes "flt \<le> 15" "sh + 4 \<le> 16"
  shows "bit (rmw16 v (push_bit sh 0xf) (push_bit sh (ucast (flt :: u16)))) j \<longleftrightarrow>
    j < 16 \<and> (if sh \<le> j \<and> j < sh + 4 then bit flt (j - sh) else bit v j)"
  using assms filter_bits [OF assms(1), of "j - sh"] unfolding fifteen bit_rmw16_iff
  by (auto simp: bit_push_bit_iff bit_mask_iff bit_ucast_iff)

lemma filter_place_pos:
  assumes "pwm_board_ok bd" "valid_channel bd c"
  shows "filter_place (timer_channel (timer_io_channels bd ! c)) =
    Some (if chan_pos bd c < 2 then GTIM_CCMR1 else GTIM_CCMR2, 4 + 8 * (chan_pos bd c mod 2))"
  using board_entry [OF assms] by (auto simp: channel_entry_ok_def chan_pos_def filter_place_def)

lemma edge_place_pos:
  assumes "pwm_board_ok bd" "valid_channel bd c"
  shows "edge_place (timer_channel (timer_io_channels bd ! c)) = Some (4 * chan_pos bd c)"
  using board_entry [OF assms] by (auto simp: channel_entry_ok_def chan_pos_def edge_place_def)

lemma bit_edge_mask: "bit (GTIM_CCER_CC1P OR GTIM_CCER_CC1NP :: u32) k \<longleftrightarrow> k = 1 \<or> k = 3"
proof -
  have "(GTIM_CCER_CC1P OR GTIM_CCER_CC1NP :: u32) = push_bit 1 1 OR push_bit 3 1" by simp
  then show ?thesis by (simp only: bit_or_iff bit_push_bit_iff bit_1_iff) auto
qed

lemma bit_edge_bits:
  "edge \<noteq> Disabled \<Longrightarrow> bit (edge_bits edge) k \<longleftrightarrow> k = 1 \<and> edge \<noteq> Rising \<or> k = 3 \<and> edge = Both"
proof -
  have "(2 :: u32) = push_bit 1 1" by simp
  then have two: "bit (2 :: u32) k \<longleftrightarrow> k = 1" by (simp only: bit_push_bit_iff bit_1_iff) auto
  assume "edge \<noteq> Disabled"
  then show ?thesis using two bit_edge_mask [of k] by (cases edge) (simp_all add: edge_bits_def)
qed

lemma write_edge:
  assumes "edge \<noteq> Disabled" "sh + 4 \<le> 16"
  shows "bit (rmw16 v (push_bit sh (GTIM_CCER_CC1P OR GTIM_CCER_CC1NP)) (push_bit sh (edge_bits edge))) j \<longleftrightarrow>
    j < 16 \<and> (if j = sh + 1 then edge \<noteq> Rising else if j = sh + 3 then edge = Both else bit v j)"
proof -
  have e: "bit (push_bit sh (GTIM_CCER_CC1P OR GTIM_CCER_CC1NP :: u32)) j \<longleftrightarrow> j = sh + 1 \<or> j = sh + 3"
    using assms(2) by (auto simp only: bit_push_bit_iff bit_edge_mask) auto
  have f: "bit (push_bit sh (edge_bits edge)) j \<longleftrightarrow> j = sh + 1 \<and> edge \<noteq> Rising \<or> j = sh + 3 \<and> edge = Both"
    using assms(2) by (auto simp: bit_push_bit_iff bit_edge_bits [OF assms(1)])
  show ?thesis unfolding bit_rmw16_iff e f by auto
qed

definition read_edge :: "nat \<Rightarrow> u32 \<Rightarrow> u16" where
  "read_edge sh v = drop_bit sh (ucast (v AND push_bit sh (GTIM_CCER_CC1P OR GTIM_CCER_CC1NP)))"

lemma bit_read_edge:
  assumes "sh + 4 \<le> 16"
  shows "bit (read_edge sh v) k \<longleftrightarrow> (k = 1 \<or> k = 3) \<and> bit v (sh + k)"
  using assms unfolding read_edge_def
  by (auto simp only: bit_drop_bit_eq bit_ucast_iff bit_and_iff bit_push_bit_iff bit_edge_mask comp_apply) auto

lemma read_edge_value:
  assumes "sh + 4 \<le> 16"
  shows "read_edge sh v = (if bit v (sh + 1) then push_bit 1 1 else 0) OR (if bit v (sh + 3) then push_bit 3 1 else 0)"
proof (rule bit_word_eqI)
  fix k assume "k < LENGTH(16)"
  have "bit (push_bit 1 1 :: u16) k \<longleftrightarrow> k = 1" "bit (push_bit 3 1 :: u16) k \<longleftrightarrow> k = 3"
    by (auto simp only: bit_push_bit_iff bit_1_iff) auto
  then show "bit (read_edge sh v) k =
      bit ((if bit v (sh + 1) then push_bit 1 1 else 0) OR (if bit v (sh + 3) then push_bit 3 1 else 0) :: u16) k"
    unfolding bit_read_edge [OF assms] bit_or_iff by (auto simp del: push_bit_of_1)
qed


section \<open>The operations\<close>

lemma in_capture_owner: "in_capture_mode c s \<longleftrightarrow> owner s c = IOTimerChanMode_Capture"
  by (auto simp: in_capture_mode_def owner_def split: option.splits)

abbreviation filter_reg :: "pwm_board \<Rightarrow> nat \<Rightarrow> u32" where
  "filter_reg bd c \<equiv> (if chan_pos bd c < 2 then GTIM_CCMR1 else GTIM_CCMR2)"

abbreviation filter_shift :: "pwm_board \<Rightarrow> nat \<Rightarrow> nat" where
  "filter_shift bd c \<equiv> 4 + 8 * (chan_pos bd c mod 2)"

definition filter_of :: "pwm_board \<Rightarrow> nat \<Rightarrow> 'a io_state_scheme \<Rightarrow> u16" where
  "filter_of bd c s = drop_bit (filter_shift bd c)
     (ucast (REG bd (channels_timer bd c) (filter_reg bd c) s AND push_bit (filter_shift bd c) 0xf))"

lemma get_filter_eq:
  assumes "pwm_board_ok bd" "valid_channel bd c" "owner s c = IOTimerChanMode_Capture"
  shows "up_input_capture_get_filter bd c s = (0, Some (filter_of bd c s))"
  using assms filter_place_pos [OF assms(1,2)]
  by (simp add: up_input_capture_get_filter_def valid_channel_def in_capture_owner Let_def filter_of_def)

lemma filter_shift_bound: "filter_shift bd c + 4 \<le> 16"
  by (cases "even (chan_pos bd c)") (simp_all add: even_iff_mod_2_eq_zero odd_iff_mod_2_eq_one)

lemma bit_filter_of:
  "bit (filter_of bd c s) k \<longleftrightarrow> k < 4 \<and> bit (REG bd (channels_timer bd c) (filter_reg bd c) s) (filter_shift bd c + k)"
  unfolding filter_of_def by (rule read_filter [OF filter_shift_bound])

lemma set_filter_eq:
  assumes "pwm_board_ok bd" "valid_channel bd c" "owner s c = IOTimerChanMode_Capture" "flt \<le> GTIM_CCMR1_IC1F_MASK"
  shows "up_input_capture_set_filter bd c flt s =
     (0, REG_write bd (channels_timer bd c) (filter_reg bd c)
           (rmw16 (REG bd (channels_timer bd c) (filter_reg bd c) s) (push_bit (filter_shift bd c) 0xf)
              (push_bit (filter_shift bd c) (ucast flt))) s)"
  using assms filter_place_pos [OF assms(1,2)]
  by (simp add: up_input_capture_set_filter_def valid_channel_def in_capture_owner Let_def not_less)

lemma get_trigger_eq:
  assumes "pwm_board_ok bd" "valid_channel bd c" "owner s c = IOTimerChanMode_Capture"
  shows "up_input_capture_get_trigger bd c s =
     (0, Some (if bit (REG bd (channels_timer bd c) GTIM_CCER s) (4 * chan_pos bd c + 1)
               then if bit (REG bd (channels_timer bd c) GTIM_CCER s) (4 * chan_pos bd c + 3) then Both else Falling
               else Rising))
   \<or> \<not> bit (REG bd (channels_timer bd c) GTIM_CCER s) (4 * chan_pos bd c + 1)
     \<and> bit (REG bd (channels_timer bd c) GTIM_CCER s) (4 * chan_pos bd c + 3)"
proof -
  have "4 * chan_pos bd c + 4 \<le> 16" using chan_shifts(3) [OF assms(1,2)] by simp
  note r = read_edge_value [OF this, of "REG bd (channels_timer bd c) GTIM_CCER s"]
  have "up_input_capture_get_trigger bd c s =
      (let rvalue = read_edge (4 * chan_pos bd c) (REG bd (channels_timer bd c) GTIM_CCER s)
       in if rvalue = 0 then (0, Some Rising) else if rvalue = 0xa then (0, Some Both)
          else if rvalue = 0x2 then (0, Some Falling) else (- IO_EIO, None))"
    using assms edge_place_pos [OF assms(1,2)]
    by (simp add: up_input_capture_get_trigger_def valid_channel_def in_capture_owner read_edge_def Let_def)
  then show ?thesis unfolding r by auto
qed

lemma set_trigger_eq:
  assumes "pwm_board_ok bd" "valid_channel bd c" "owner s c = IOTimerChanMode_Capture"
  shows "up_input_capture_set_trigger bd c edge s =
     (0, REG_write bd (channels_timer bd c) GTIM_CCER
           (rmw16 (REG bd (channels_timer bd c) GTIM_CCER s) (push_bit (4 * chan_pos bd c) (GTIM_CCER_CC1P OR GTIM_CCER_CC1NP))
              (push_bit (4 * chan_pos bd c) (edge_bits edge))) s)"
  using assms edge_place_pos [OF assms(1,2)]
  by (simp add: up_input_capture_set_trigger_def valid_channel_def in_capture_owner Let_def)

lemma filter_regs:
  assumes b: "pwm_board_ok bd" and c: "valid_channel bd c" and d: "valid_channel bd d"
    and o: "owner s c = IOTimerChanMode_Capture" and f: "flt \<le> 15"
  shows "bit (REG bd (channels_timer bd d) (filter_reg bd d) (snd (up_input_capture_set_filter bd c flt s))) j \<longleftrightarrow>
    (if channels_timer bd d = channels_timer bd c \<and> filter_reg bd d = filter_reg bd c
     then j < 16 \<and> (if filter_shift bd c \<le> j \<and> j < filter_shift bd c + 4 then bit flt (j - filter_shift bd c)
                     else bit (REG bd (channels_timer bd c) (filter_reg bd c) s) j)
     else bit (REG bd (channels_timer bd d) (filter_reg bd d) s) j)"
proof -
  have "flt \<le> GTIM_CCMR1_IC1F_MASK" using f by (rule order_trans) simp
  then show ?thesis
    using board_base_inj [OF b board_channel_timer [OF b d] board_channel_timer [OF b c] valid_channelD(2) [OF d]]
      write_filter [OF f filter_shift_bound, of "REG bd (channels_timer bd c) (filter_reg bd c) s" bd c j]
    by (auto simp: set_filter_eq [OF b c o] REG_def regs_REG_write)
qed

lemma filter_shift_apart:
  assumes "pwm_board_ok bd" "valid_channel bd c" "valid_channel bd d" "channels_timer bd d = channels_timer bd c"
    and "filter_reg bd d = filter_reg bd c" "d \<noteq> c" "k < 4"
  shows "\<not> (filter_shift bd c \<le> filter_shift bd d + k \<and> filter_shift bd d + k < filter_shift bd c + 4)"
proof -
  have "chan_pos bd d \<noteq> chan_pos bd c" using board_pos_inj [OF assms(1,3,2,4)] assms(6) by simp
  then have "filter_shift bd d \<noteq> filter_shift bd c"
    using assms(5) pos_cases [OF assms(1,3)] pos_cases [OF assms(1,2)] by (auto split: if_splits)
  then show ?thesis using assms(7)
    by (cases "even (chan_pos bd c)"; cases "even (chan_pos bd d)") (auto simp: even_iff_mod_2_eq_zero odd_iff_mod_2_eq_one)
qed

lemma filter_written:
  assumes b: "pwm_board_ok bd" and c: "valid_channel bd c" and d: "valid_channel bd d"
    and o: "owner s c = IOTimerChanMode_Capture" and f: "flt \<le> 15"
  shows "filter_of bd d (snd (up_input_capture_set_filter bd c flt s)) = (if d = c then flt else filter_of bd d s)"
proof (rule bit_word_eqI)
  fix k
  note reg = filter_regs [OF b c d o f, of "filter_shift bd d + k"]
  have "filter_shift bd d + k < 16" if "k < 4" using filter_shift_bound [of bd d] that by simp
  then show "bit (filter_of bd d (snd (up_input_capture_set_filter bd c flt s))) k = bit (if d = c then flt else filter_of bd d s) k"
    using filter_bits [OF f, of k] filter_shift_apart [OF b c d _ _ _, of k] unfolding bit_filter_of reg
    by (cases "d = c"; cases "k < 4") (auto simp: bit_filter_of REG_def)
qed

text \<open>Setting a filter of at most 15 changes the filter of the channel and nothing else.\<close>

lemma set_filter_laws:
  assumes i: "io_inv bd s" and c: "valid_channel bd c" and o: "owner s c = IOTimerChanMode_Capture" and f: "flt \<le> 15"
  shows "fst (up_input_capture_set_filter bd c flt s) = 0"
    and "io_inv bd (snd (up_input_capture_set_filter bd c flt s))"
    and "channel_allocations (snd (up_input_capture_set_filter bd c flt s)) = channel_allocations s"
    and "io_state.more (snd (up_input_capture_set_filter bd c flt s)) = io_state.more s"
    and "\<And>b. io_regs (snd (up_input_capture_set_filter bd c flt s)) b GTIM_CCER = io_regs s b GTIM_CCER"
proof -
  let ?s = "snd (up_input_capture_set_filter bd c flt s)"
  have "flt \<le> GTIM_CCMR1_IC1F_MASK" using f by (rule order_trans) simp
  note eq = set_filter_eq [OF io_inv_board [OF i] c o this]
  show "fst (up_input_capture_set_filter bd c flt s) = 0" "io_state.more ?s = io_state.more s" by (simp_all add: eq)
  show al: "channel_allocations ?s = channel_allocations s" by (simp add: eq)
  show ccer: "\<And>b. io_regs ?s b GTIM_CCER = io_regs s b GTIM_CCER" by (simp add: eq regs_REG_write)
  show "io_inv bd ?s" by (rule io_inv_same [OF i al _ ccer]) (simp add: eq)
qed

text \<open>Setting an edge changes the polarity bits of the channel; the outputs stay as they are.\<close>

lemma set_trigger_laws:
  assumes i: "io_inv bd s" and c: "valid_channel bd c" and o: "owner s c = IOTimerChanMode_Capture" and e: "edge \<noteq> Disabled"
  shows "fst (up_input_capture_set_trigger bd c edge s) = 0"
    and "io_inv bd (snd (up_input_capture_set_trigger bd c edge s))"
    and "channel_allocations (snd (up_input_capture_set_trigger bd c edge s)) = channel_allocations s"
    and "io_state.more (snd (up_input_capture_set_trigger bd c edge s)) = io_state.more s"
    and "off \<noteq> GTIM_CCER \<Longrightarrow> io_regs (snd (up_input_capture_set_trigger bd c edge s)) b off = io_regs s b off"
    and "bit (REG bd (channels_timer bd c) GTIM_CCER (snd (up_input_capture_set_trigger bd c edge s))) k \<longleftrightarrow>
      k < 16 \<and> (if k = 4 * chan_pos bd c + 1 then edge \<noteq> Rising else if k = 4 * chan_pos bd c + 3 then edge = Both
                 else bit (REG bd (channels_timer bd c) GTIM_CCER s) k)"
    and "valid_channel bd d \<Longrightarrow> output_on bd (snd (up_input_capture_set_trigger bd c edge s)) d \<longleftrightarrow> output_on bd s d"
proof -
  note b = io_inv_board [OF i] and eq = set_trigger_eq [OF io_inv_board [OF i] c o]
  let ?s = "snd (up_input_capture_set_trigger bd c edge s)"
  have sh: "4 * chan_pos bd c + 4 \<le> 16" using chan_shifts(3) [OF b c] by simp
  show "fst (up_input_capture_set_trigger bd c edge s) = 0" "io_state.more ?s = io_state.more s" by (simp_all add: eq)
  show al: "channel_allocations ?s = channel_allocations s" by (simp add: eq)
  show "off \<noteq> GTIM_CCER \<Longrightarrow> io_regs ?s b off = io_regs s b off" by (simp add: eq regs_REG_write)
  show "bit (REG bd (channels_timer bd c) GTIM_CCER ?s) k \<longleftrightarrow>
      k < 16 \<and> (if k = 4 * chan_pos bd c + 1 then edge \<noteq> Rising else if k = 4 * chan_pos bd c + 3 then edge = Both
                 else bit (REG bd (channels_timer bd c) GTIM_CCER s) k)"
    using write_edge [OF e sh, of "REG bd (channels_timer bd c) GTIM_CCER s" k] by (simp add: eq REG_def regs_REG_write)
  have on: "output_on bd ?s d \<longleftrightarrow> output_on bd s d" if d: "valid_channel bd d" for d
  proof -
    have "4 * chan_pos bd d \<noteq> 4 * chan_pos bd c + 1" "4 * chan_pos bd d \<noteq> 4 * chan_pos bd c + 3" by presburger+
    moreover have "4 * chan_pos bd d < 16" using chan_shifts(3) [OF b d] by simp
    ultimately show ?thesis
      using write_edge [OF e sh, of _ "4 * chan_pos bd d"] by (auto simp: output_on_def eq REG_def regs_REG_write)
  qed
  then show "valid_channel bd d \<Longrightarrow> output_on bd ?s d \<longleftrightarrow> output_on bd s d" .
  show "io_inv bd ?s"
  proof (rule io_invI [OF i, of _ "owner s"])
    show "owners ?s (owner s)" using io_inv_owners [OF i] al by (simp add: owners_def)
    show "channels_cache ?s = channels_cache s" by (simp add: eq)
  qed (use on io_inv_idle [OF i] io_inv_used_valid [OF i] in auto)
qed

lemma enable_ccer_other:
  assumes i: "io_inv bd s" and m: "m \<noteq> IOTimerChanModeSize" "m \<noteq> IOTimerChanMode_NotUsed" and c: "valid_channel bd c"
    and h: "\<not> BOARD_PWM_DRIVE_ACTIVE_LOW bd" and k: "k mod 4 \<noteq> 0" "k < 32"
  shows "bit (REG bd (channels_timer bd c) GTIM_CCER (snd (io_timer_set_enable bd state m masks s))) k \<longleftrightarrow>
    bit (REG bd (channels_timer bd c) GTIM_CCER s) k"
proof -
  note b = io_inv_board [OF i]
  obtain db cb where e: "enable_bits state m = Some (db, cb)" using m(1) by (cases m) (auto simp: enable_bits_def)
  let ?t = "channels_timer bd c"
  have v: "valid_channel bd d" if "bit (selected m masks s) d" for d using io_inv_selected_valid [OF i m that] .
  obtain a where a: "entry_for bd state db ?t {d. bit (selected m masks s) d \<and> channels_timer bd d = ?t} a"
    and r: "io_regs (snd (io_timer_set_enable bd state m masks s)) (tmr_base bd ?t) =
       (if \<exists>d. bit (selected m masks s) d \<and> channels_timer bd d = ?t
        then entry_regs cb a (io_regs s (tmr_base bd ?t)) else io_regs s (tmr_base bd ?t))"
    by (rule set_enable_regs [OF b v e board_channel_timer [OF b c] valid_channelD(2) [OF c]])
  have "\<not> bit (push_bit (4 * p) (CCER_C1_INIT bd)) k" for p
    using h k(1) by (auto simp: bit_push_bit_iff bit_CCER_C1_INIT)
  then have "\<not> bit (ac_ccer_clearbits a) k" "\<not> bit (ac_ccer_setbits a) k" unfolding entry_forD [OF a] by simp_all
  then have "bit (rmw32 x (ac_ccer_clearbits a) (ac_ccer_setbits a)) k \<longleftrightarrow> bit x k" for x
    using k(2) by (simp add: rmw32_def bit_or_iff bit_and_iff bit_not_iff)
  then show ?thesis unfolding REG_def r entry_regs_def Let_def by simp
qed


section \<open>Configuring a channel\<close>

lemma more_handlers:
  fixes s s' :: capture_state
  assumes "io_state.more s' = io_state.more s"
  shows "capture_handlers s' = capture_handlers s \<and> capture_stats s' = capture_stats s"
  using assms by (cases s; cases s') simp

lemma bind_fields [simp]:
  "channel_allocations (input_capture_bind c cb s) = channel_allocations s"
  "channels_cache (input_capture_bind c cb s) = channels_cache s"
  "io_regs (input_capture_bind c cb s) = io_regs s" "once (input_capture_bind c cb s) = once s"
  "capture_handlers (input_capture_bind c cb s) = (capture_handlers s)[c := cb]"
  by (simp_all add: input_capture_bind_def)

lemma init_more: "io_state.more (snd (io_timer_channel_init bd c m h s)) = io_state.more s"
  by (simp add: io_timer_channel_init_def case_prod_beta split: option.splits)

lemma free_more: "io_state.more (snd (io_timer_free_channel bd c s)) = io_state.more s"
  by (simp add: io_timer_free_channel_def split: option.splits)

text \<open>The channel is taken from its owner and claimed for capture.\<close>

lemma capture_claim:
  fixes s :: capture_state and cb :: "nat option \<times> u32"
  assumes i: "io_inv bd s" and c: "valid_channel bd c" and cap: "BOARD_HAS_CAPTURE bd"
  defines "f \<equiv> if io_timer_is_channel_free bd c s = - IO_EBUSY then snd (io_timer_free_channel bd c s) else s"
  defines "r \<equiv> io_timer_channel_init bd c IOTimerChanMode_Capture (Some 0, snd cb) (input_capture_bind c cb f)"
  shows "fst r = 0" and "io_inv bd (snd r)"
    and "d < 16 \<Longrightarrow> owner (snd r) d = (if d = c then IOTimerChanMode_Capture else owner s d)"
    and "capture_handlers (snd r) = (capture_handlers s)[c := cb]"
proof -
  have c16: "c < 16" using board_channel_bound [OF io_inv_board [OF i] c] .
  have ff: "f = snd (io_timer_free_channel bd c s)"
  proof (cases "io_timer_is_channel_free bd c s = - IO_EBUSY")
    case False
    then have "owner s c = IOTimerChanMode_NotUsed"
      using c io_inv_owner_bit [OF i, of IOTimerChanMode_NotUsed c]
      by (auto simp: io_timer_is_channel_free_def valid_channel_def Let_def flag_simps split: if_splits)
    then show ?thesis using False io_inv_mode [OF i c16] by (simp add: f_def io_timer_free_channel_def)
  qed (simp add: f_def)
  note fr = free_channel [OF i c, folded ff]
  let ?b = "input_capture_bind c cb f"
  have o: "owner ?b = owner f" by (rule owner_same_masks) simp
  have b: "io_inv bd ?b" by (rule io_inv_same [of bd f]) (use fr in simp_all)
  have "owner ?b c = IOTimerChanMode_NotUsed" using fr c16 o by simp
  note ci = channel_init [OF b c this, of IOTimerChanMode_Capture "(Some 0, snd cb)", folded r_def]
  have st: "channel_setup bd c IOTimerChanMode_Capture \<noteq> None" using cap by (simp add: channel_setup_def)
  show "fst r = 0" "io_inv bd (snd r)" using ci st by simp_all
  show "d < 16 \<Longrightarrow> owner (snd r) d = (if d = c then IOTimerChanMode_Capture else owner s d)" using ci st fr o by simp
  have "capture_handlers (snd r) = capture_handlers ?b" using more_handlers init_more unfolding r_def by blast
  moreover have "capture_handlers f = capture_handlers s" unfolding ff using more_handlers free_more by blast
  ultimately show "capture_handlers (snd r) = (capture_handlers s)[c := cb]" by simp
qed



definition capture_reset :: "pwm_board \<Rightarrow> capture_state" where
  "capture_reset bd = io_state.extend (io_reset bd)
     (capture_state.fields (replicate (MAX_TIMER_IO_CHANNELS bd) stats_clear) (replicate (MAX_TIMER_IO_CHANNELS bd) (None, 0)))"

definition eight_captures :: pwm_board where
  "eight_captures = eight_servos\<lparr>BOARD_HAS_CAPTURE := True\<rparr>"

lemma eight_captures_simps:
  "tmr_base eight_captures = tmr_base eight_servos" "channels_timer eight_captures = channels_timer eight_servos"
  "chan_pos eight_captures = chan_pos eight_servos" "timer_channel_range eight_captures = timer_channel_range eight_servos"
  "io_timers eight_captures = io_timers eight_servos" "timer_io_channels eight_captures = timer_io_channels eight_servos"
  "io_timers_channel_mapping eight_captures = io_timers_channel_mapping eight_servos"
  by (simp_all add: eight_captures_def fun_eq_iff tmr_base_def channels_timer_def chan_pos_def timer_channel_range_def)

lemma eight_captures_valid: "valid_channel eight_captures = valid_channel eight_servos"
  "channel_entry_ok eight_captures = channel_entry_ok eight_servos"
  by (simp_all add: fun_eq_iff valid_channel_def io_timer_validate_channel_index_def channel_entry_ok_def eight_captures_simps)

lemma board_ok_eight_captures: "pwm_board_ok eight_captures"
  using pwm_board_ok_eight_servos unfolding pwm_board_ok_def eight_captures_simps eight_captures_valid .

lemma capture_reset_inv: "pwm_board_ok bd \<Longrightarrow> io_inv bd (capture_reset bd)"
  by (rule io_inv_same [OF io_inv_reset]) (simp_all add: capture_reset_def io_state.extend_def io_reset_def)


section \<open>What the limits let through\<close>

text \<open>
  The bound on the filter is the mask of its field, 240, and not its largest value, 15. A filter with bit 4 set is accepted on the
  first and the third channel of a timer and sets the direction bit of the next channel, which makes an input of it.
\<close>

theorem capture_filter_spills:
  assumes "io_inv bd s" "valid_channel bd c" "owner s c = IOTimerChanMode_Capture"
    and "even (chan_pos bd c)" "bit flt 4" "flt \<le> GTIM_CCMR1_IC1F_MASK"
  shows "fst (up_input_capture_set_filter bd c flt s) = 0
    \<and> bit (REG bd (channels_timer bd c) (filter_reg bd c) (snd (up_input_capture_set_filter bd c flt s))) 8"
  using assms(4,5)
  by (simp add: set_filter_eq [OF io_inv_board [OF assms(1)] assms(2,3,6)] REG_def regs_REG_write bit_rmw16_iff bit_push_bit_iff bit_ucast_iff
        even_iff_mod_2_eq_zero)

text \<open>
  The edge \<open>Disabled\<close> sets all the bits of the enable register from the channel's own up: on the first channel of a timer it switches
  on every output of the timer.
\<close>

theorem capture_trigger_disabled_enables:
  assumes "io_inv bd s" "valid_channel bd c" "owner s c = IOTimerChanMode_Capture" "chan_pos bd c = 0"
    and "valid_channel bd d" "channels_timer bd d = channels_timer bd c"
  shows "fst (up_input_capture_set_trigger bd c Disabled s) = 0 \<and> output_on bd (snd (up_input_capture_set_trigger bd c Disabled s)) d"
proof -
  have "(0xffff :: u32) = mask 16" by (simp add: mask_eq_exp_minus_1)
  then have "bit (edge_bits Disabled) k \<longleftrightarrow> k < 16" for k by (simp only: edge_bits_def input_capture_edge.case bit_mask_iff) auto
  then show ?thesis
    using chan_shifts(3) [OF io_inv_board [OF assms(1)] assms(5)] assms(4,6)
    by (simp add: set_trigger_eq [OF io_inv_board [OF assms(1)] assms(2,3)] output_on_def REG_def regs_REG_write bit_rmw16_iff)
qed

text \<open>
  The time of an edge is the time of the interrupt less the count since the capture. When the counter has wrapped between the
  capture and the interrupt the difference is negative, and the edge is dated after the interrupt.
\<close>

theorem capture_edge_time:
  assumes "c < length (capture_stats s)" "capture_handlers s ! c = (None, ctx)"
  shows "cap_last_time (capture_stats (input_capture_chan_handler bd pin notify c now count s) ! c) =
      now - of_int (uint count - uint (ucast (REG bd (channels_timer bd c) (ucast (ccr_offset (timer_io_channels bd ! c))) s) :: u16))
    \<and> chan_in_edges_out (capture_stats (input_capture_chan_handler bd pin notify c now count s) ! c) =
      chan_in_edges_out (capture_stats s ! c) + 1"
  using assms by (simp add: input_capture_chan_handler_def Let_def)

text \<open>Enabling a capture channel does not start the counter of its timer.\<close>

theorem capture_enable_keeps_counter:
  assumes i: "io_inv bd s" and c: "valid_channel bd c" and stopped: "\<not> has_flag (REG bd (channels_timer bd c) GTIM_CR1 s) GTIM_CR1_CEN"
  shows "\<not> has_flag (REG bd (channels_timer bd c) GTIM_CR1 (snd (io_timer_set_enable bd state IOTimerChanMode_Capture masks s))) GTIM_CR1_CEN"
proof -
  note b = io_inv_board [OF i]
  have v: "valid_channel bd d" if "bit (selected IOTimerChanMode_Capture masks s) d" for d
    using io_inv_selected_valid [OF i _ _ that] by simp
  have e: "enable_bits state IOTimerChanMode_Capture = Some (if state then GTIM_DIER_CC1IE else 0, 0)" by (simp add: enable_bits_def)
  show ?thesis
    by (rule set_enable_regs [OF b v e board_channel_timer [OF b c] valid_channelD(2) [OF c]])
      (use stopped in \<open>auto simp: REG_def entry_regs_def Let_def set_flag_def has_flag_def\<close>)
qed


text \<open>
  On a board whose PWM outputs are active low, switching a capture channel on sets its polarity bit too: after
  \<open>up_input_capture_set\<close> with the edge \<open>Rising\<close> the channel captures falling edges.
\<close>

theorem capture_active_low_falling:
  assumes i: "io_inv bd s" and c: "valid_channel bd c" and o: "owner s c = IOTimerChanMode_Capture" and low: "BOARD_PWM_DRIVE_ACTIVE_LOW bd"
  shows "up_input_capture_get_trigger bd c (snd (io_timer_set_enable bd True IOTimerChanMode_Capture (push_bit c 1) s)) \<noteq> (0, Some Rising)"
proof -
  note b = io_inv_board [OF i]
  let ?m = "push_bit c 1 :: u16" and ?M = IOTimerChanMode_Capture
  let ?s = "snd (io_timer_set_enable bd True ?M ?m s)" and ?k = "4 * chan_pos bd c + 1" and ?t = "channels_timer bd c"
  have c16: "c < 16" using board_channel_bound [OF b c] .
  have v: "valid_channel bd d" if "bit (selected ?M ?m s) d" for d using io_inv_selected_valid [OF i _ _ that] by simp
  have sel: "bit (selected ?M ?m s) c" using io_inv_selected [OF i] o c16 by (simp add: bit_exp_iff push_bit_of_1)
  have e: "enable_bits True ?M = Some (GTIM_DIER_CC1IE, 0)" by (simp add: enable_bits_def)
  obtain a where a: "entry_for bd True GTIM_DIER_CC1IE ?t {d. bit (selected ?M ?m s) d \<and> channels_timer bd d = ?t} a"
    and r: "io_regs ?s (tmr_base bd ?t) = (if \<exists>d. bit (selected ?M ?m s) d \<and> channels_timer bd d = ?t
        then entry_regs 0 a (io_regs s (tmr_base bd ?t)) else io_regs s (tmr_base bd ?t))"
    by (rule set_enable_regs [OF b v e board_channel_timer [OF b c] valid_channelD(2) [OF c]])
  have "bit (push_bit (4 * chan_pos bd c) (CCER_C1_INIT bd)) ?k"
    using low chan_shifts(3) [OF b c] by (simp add: bit_push_bit_iff bit_CCER_C1_INIT)
  then have "bit (ac_ccer_setbits a) ?k" unfolding entry_forD [OF a] using sel by blast
  then have "bit (REG bd ?t GTIM_CCER ?s) ?k"
    using sel unfolding REG_def r by (auto simp: entry_regs_def Let_def rmw32_def bit_or_iff)
  moreover have "owner ?s c = ?M" using owner_same_masks [of ?s s] o by simp
  ultimately show ?thesis using get_trigger_eq [OF b c, of ?s] by (auto split: if_splits)
qed

end
