(* ===== verification/Dshot.thy ===== *)
theory Dshot
  imports Pwm_Output
begin

text \<open>
  The DShot outputs (\<open>stm/stm32_common/dshot/dshot.c\<close>): the packet of a motor with its checksum as a train of pulse widths in
  the motors' buffer, the interleaving of the trains of a timer's motors in its burst buffer, and the DMA transfers that feed them to
  the compare registers.

  The number of motors, the cache line of the DMA buffers and the assignment of motors to outputs come from the board's files:
  \<open>dc\<close>. \<open>malloc\<close> gives what the allocation of the motors' buffer returns, and \<open>dma_ok\<close> whether the DMA channel of a timer is to be had.
  The burst buffers are parts of one array of words, a buffer is given by its offset there in bytes. \<open>dma_log\<close> records the transfers
  started: the peripheral address, the buffer and the number of words, newest first.
\<close>

section \<open>Configuration and state\<close>

record dshot_config =
  MOTORS_NUMBER :: nat
  DCACHE_LINESIZE :: nat
  motor_assignment :: "nat list option"

abbreviation ONE_MOTOR_DATA_SIZE :: nat where "ONE_MOTOR_DATA_SIZE \<equiv> 16"
abbreviation ONE_MOTOR_BUFF_SIZE :: nat where "ONE_MOTOR_BUFF_SIZE \<equiv> 17"
abbreviation DSHOT_END_OF_STREAM :: nat where "DSHOT_END_OF_STREAM \<equiv> 16"
abbreviation MOTOR_PWM_BIT_1 :: u16 where "MOTOR_PWM_BIT_1 \<equiv> 14"
abbreviation MOTOR_PWM_BIT_0 :: u16 where "MOTOR_PWM_BIT_0 \<equiv> 7"
abbreviation DShot_cmd_MIN_throttle :: u16 where "DShot_cmd_MIN_throttle \<equiv> 48"

definition ALL_MOTORS_BUF_SIZE :: "dshot_config \<Rightarrow> nat" where
  "ALL_MOTORS_BUF_SIZE dc = MOTORS_NUMBER dc * ONE_MOTOR_BUFF_SIZE"

definition DMA_ALIGN_UP :: "dshot_config \<Rightarrow> nat \<Rightarrow> nat" where
  "DMA_ALIGN_UP dc n = (n + (DCACHE_LINESIZE dc - 1)) div DCACHE_LINESIZE dc * DCACHE_LINESIZE dc"

definition DSHOT_BURST_BUFFER_SIZE :: "dshot_config \<Rightarrow> nat \<Rightarrow> nat" where
  "DSHOT_BURST_BUFFER_SIZE dc motors_number = DMA_ALIGN_UP dc (4 * ONE_MOTOR_BUFF_SIZE * motors_number)"

record dshot_handler =
  dshot_init :: bool
  dma_handle :: bool
  dma_size :: nat

record dshot_state = io_state +
  dshot_handlers :: "dshot_handler list"
  motor_buffer :: "u16 list option"
  dshot_burst_buffer :: "nat option list"
  dshot_burst_array :: "u32 list"
  dma_log :: "(u32 \<times> nat \<times> nat) list"

definition dshot_reset :: "pwm_board \<Rightarrow> dshot_config \<Rightarrow> dshot_state" where
  "dshot_reset bd dc = io_state.extend (io_reset bd)
     (dshot_state.fields (replicate (MAX_IO_TIMERS bd) \<lparr>dshot_init = False, dma_handle = False, dma_size = 0\<rparr>) None
        (replicate (MAX_IO_TIMERS bd) None) (replicate (MAX_IO_TIMERS bd * DSHOT_BURST_BUFFER_SIZE dc 4 div 4) 0) [])"

section \<open>Initialisation\<close>

definition timer_motors :: "pwm_board \<Rightarrow> nat \<Rightarrow> nat" where
  "timer_motors bd t = channel_count (io_timers_channel_mapping bd ! t)"

fun dshot_buffers :: "pwm_board \<Rightarrow> dshot_config \<Rightarrow> nat list \<Rightarrow> nat \<Rightarrow> dshot_state \<Rightarrow> bool \<times> dshot_state" where
  "dshot_buffers bd dc [] off s = (True, s)"
| "dshot_buffers bd dc (t # ts) off s =
     (if tmr_base bd t = 0 then (True, s)
      else
        let s = s\<lparr>dshot_burst_buffer := (dshot_burst_buffer s)[t := Some off]\<rparr>;
            off = off + DSHOT_BURST_BUFFER_SIZE dc (timer_motors bd t)
        in if off > MAX_IO_TIMERS bd * DSHOT_BURST_BUFFER_SIZE dc 4 then (False, s)
           else dshot_buffers bd dc ts off s)"

definition dshot_take_channel :: "pwm_board \<Rightarrow> nat \<Rightarrow> int \<times> u32 \<times> dshot_state \<Rightarrow> int \<times> u32 \<times> dshot_state" where
  "dshot_take_channel bd c = (\<lambda>(ret, channel_mask, s).
     if ret = 0 \<and> has_flag channel_mask (push_bit c 1) then
       let t = channels_timer bd c in
       if io_dma_base (io_timers bd ! t) = 0 then (ret, channel_mask, s)
       else
         let s = (if io_timer_is_channel_free bd c s = - IO_EBUSY then snd (io_timer_free_channel bd c s) else s);
             (ret, s) = io_timer_channel_init bd c IOTimerChanMode_Dshot (None, 0) s
         in if ret = 0 then (ret, clr_flag channel_mask (push_bit c 1),
                             s\<lparr>dshot_handlers := (dshot_handlers s)[t := (dshot_handlers s ! t)\<lparr>dshot_init := True\<rparr>]\<rparr>)
            else (ret, channel_mask, s)
     else (ret, channel_mask, s))"

definition dshot_init_timer ::
    "pwm_board \<Rightarrow> (u32 \<Rightarrow> bool) \<Rightarrow> u32 \<Rightarrow> nat \<Rightarrow> int \<times> dshot_state \<Rightarrow> int \<times> dshot_state" where
  "dshot_init_timer bd dma_ok dshot_pwm_freq t = (\<lambda>(ret, s).
     if ret = 0 \<and> dshot_init (dshot_handlers s ! t) then
       let s = s\<lparr>dshot_handlers := (dshot_handlers s)[t := (dshot_handlers s ! t)\<lparr>dma_size := timer_motors bd t * ONE_MOTOR_BUFF_SIZE\<rparr>]\<rparr>;
           s = snd (io_timer_set_dshot_mode bd t dshot_pwm_freq (of_nat (timer_motors bd t)) s);
           got = dma_ok (io_dmamap (io_timers bd ! t));
           s = s\<lparr>dshot_handlers := (dshot_handlers s)[t := (dshot_handlers s ! t)\<lparr>dma_handle := got\<rparr>]\<rparr>
       in (if got then ret else - 1, s)
     else (ret, s))"

definition up_dshot_init ::
    "pwm_board \<Rightarrow> dshot_config \<Rightarrow> (nat \<Rightarrow> u16 list option) \<Rightarrow> (u32 \<Rightarrow> bool) \<Rightarrow> u32 \<Rightarrow> u32 \<Rightarrow> dshot_state \<Rightarrow> int \<times> dshot_state" where
  "up_dshot_init bd dc malloc dma_ok channel_mask dshot_pwm_freq s =
     (let s = (if motor_buffer s = None then s\<lparr>motor_buffer := malloc (ALL_MOTORS_BUF_SIZE dc)\<rparr> else s) in
      if motor_buffer s = None then (- IO_ENOMEM, s)
      else
        let (ok, s) = dshot_buffers bd dc [0..<MAX_IO_TIMERS bd] 0 s
        in if \<not> ok then (- IO_EINVAL, s)
           else
             let (ret, _, s) = fold (dshot_take_channel bd) [0..<MAX_TIMER_IO_CHANNELS bd] (0, channel_mask, s)
             in fold (dshot_init_timer bd dma_ok dshot_pwm_freq) [0..<MAX_IO_TIMERS bd] (ret, s))"

section \<open>Packets\<close>

definition dshot_packet :: "u16 \<Rightarrow> bool \<Rightarrow> u16" where
  "dshot_packet throttle telemetry =
     (let packet = push_bit 5 throttle OR push_bit 4 (if telemetry then 1 else 0);
          csum_data = drop_bit 4 packet;
          (checksum, _) = ((\<lambda>(checksum, csum_data). (checksum XOR (csum_data AND 0xf), drop_bit 4 csum_data)) ^^ 3) (0, csum_data)
      in packet OR (checksum AND 0xf))"

definition put_pulses :: "nat \<Rightarrow> u16 \<Rightarrow> u16 list \<Rightarrow> u16 list" where
  "put_pulses motor packet buf =
     (let (buf, _) = fold (\<lambda>i (buf, packet).
            (buf[motor * ONE_MOTOR_BUFF_SIZE + i := (if packet AND 0x8000 \<noteq> 0 then MOTOR_PWM_BIT_1 else MOTOR_PWM_BIT_0)], push_bit 1 packet))
          [0..<ONE_MOTOR_DATA_SIZE] (buf, packet)
      in buf[motor * ONE_MOTOR_BUFF_SIZE + DSHOT_END_OF_STREAM := 0])"

definition dshot_motor_data_set :: "dshot_config \<Rightarrow> nat \<Rightarrow> u16 \<Rightarrow> bool \<Rightarrow> dshot_state \<Rightarrow> dshot_state" where
  "dshot_motor_data_set dc motor_number throttle telemetry s =
     (let motor_number = (case motor_assignment dc of None \<Rightarrow> motor_number | Some asg \<Rightarrow> asg ! motor_number)
      in s\<lparr>motor_buffer := map_option (put_pulses motor_number (dshot_packet throttle telemetry)) (motor_buffer s)\<rparr>)"

definition up_dshot_motor_data_set :: "dshot_config \<Rightarrow> nat \<Rightarrow> u16 \<Rightarrow> bool \<Rightarrow> dshot_state \<Rightarrow> dshot_state" where
  "up_dshot_motor_data_set dc motor_number throttle telemetry s =
     dshot_motor_data_set dc motor_number (throttle + DShot_cmd_MIN_throttle) telemetry s"

definition up_dshot_motor_command :: "dshot_config \<Rightarrow> nat \<Rightarrow> u16 \<Rightarrow> bool \<Rightarrow> dshot_state \<Rightarrow> dshot_state" where
  "up_dshot_motor_command dc channel command telemetry s = dshot_motor_data_set dc channel command telemetry s"

section \<open>Transfers\<close>

definition dshot_dmar_data_prepare :: "nat \<Rightarrow> nat \<Rightarrow> nat \<Rightarrow> dshot_state \<Rightarrow> dshot_state" where
  "dshot_dmar_data_prepare t first_motor motors_number s =
     (let b = the (dshot_burst_buffer s ! t) div 4; mb = the (motor_buffer s) in
      s\<lparr>dshot_burst_array := fold (\<lambda>i. fold (\<lambda>m a. a[b + (i * motors_number + m) := ucast (mb ! ((m + first_motor) * ONE_MOTOR_BUFF_SIZE + i))])
           [0..<motors_number]) [0..<ONE_MOTOR_BUFF_SIZE] (dshot_burst_array s)\<rparr>)"

definition dshot_trigger_timer :: "pwm_board \<Rightarrow> nat \<Rightarrow> nat \<times> dshot_state \<Rightarrow> nat \<times> dshot_state" where
  "dshot_trigger_timer bd t = (\<lambda>(first_motor, s).
     if dshot_init (dshot_handlers s ! t) then
       let motors_number = timer_motors bd t;
           s = dshot_dmar_data_prepare t first_motor motors_number s;
           xfer = (tmr_base bd t + GTIM_DMAR, the (dshot_burst_buffer s ! t), dma_size (dshot_handlers s ! t));
           s = io_timer_update_dma_req bd t False s;
           s = s\<lparr>dma_log := xfer # dma_log s\<rparr>
       in (first_motor + motors_number, io_timer_update_dma_req bd t True s)
     else (first_motor, s))"

definition up_dshot_trigger :: "pwm_board \<Rightarrow> dshot_state \<Rightarrow> dshot_state" where
  "up_dshot_trigger bd s = snd (fold (dshot_trigger_timer bd) [0..<MAX_IO_TIMERS bd] (0, s))"

definition up_dshot_arm :: "pwm_board \<Rightarrow> bool \<Rightarrow> dshot_state \<Rightarrow> int \<times> dshot_state" where
  "up_dshot_arm bd armed s = io_timer_set_enable bd armed IOTimerChanMode_Dshot IO_TIMER_ALL_MODES_CHANNELS s"

end
