(* ===== verification/Dshot_Laws.thy ===== *)
theory Dshot_Laws
  imports Pwm_System Dshot
begin

text \<open>
  What the DShot driver sends: a receiver that reads the pulses of an output finds the throttle and the telemetry bit that were set
  for its motor and a right checksum. The packet, the motors' buffer, the interleaving and the transfers are taken one after the other.
\<close>

section \<open>The receiver\<close>

text \<open>
  The specification is the format in the comment of the source: eleven bits of throttle, one bit of telemetry request and the four bit
  exclusive or of the nibbles before, most significant bit first; a pulse longer than half of the bit's twenty ticks is a one.
\<close>

definition dshot_value :: "u16 list \<Rightarrow> u16" where
  "dshot_value ps = foldl (\<lambda>v p. push_bit 1 v OR (if p > 10 then 1 else 0)) 0 ps"

definition dshot_decode :: "u16 list \<Rightarrow> (u16 \<times> bool) option" where
  "dshot_decode ps =
     (let v = dshot_value (take 16 ps) in
      if (drop_bit 4 v XOR drop_bit 8 v XOR drop_bit 12 v) AND 0xf = v AND 0xf then Some (drop_bit 5 v, bit v 4) else None)"

definition pulses :: "u16 \<Rightarrow> u16 list" where
  "pulses p = map (\<lambda>i. if bit p (15 - i) then MOTOR_PWM_BIT_1 else MOTOR_PWM_BIT_0) [0..<16] @ [0]"

lemma dshot_value_prefix:
  "n \<le> 16 \<Longrightarrow> dshot_value (map (\<lambda>i. if bit p (15 - i) then MOTOR_PWM_BIT_1 else MOTOR_PWM_BIT_0) [0..<n]) = drop_bit (16 - n) p"
proof (induction n)
  case 0
  show ?case by (simp add: dshot_value_def)
next
  case (Suc n)
  have "push_bit 1 (drop_bit (16 - n) p) OR (if bit p (15 - n) then 1 else 0) = drop_bit (15 - n) p"
  proof (rule bit_word_eqI)
    fix k assume "k < LENGTH(16)"
    moreover have "16 - n + (k - 1) = 15 - n + k" if "k > 0" using that Suc.prems by simp
    ultimately show "bit (push_bit 1 (drop_bit (16 - n) p) OR (if bit p (15 - n) then 1 else 0)) k = bit (drop_bit (15 - n) p) k"
      unfolding bit_or_iff bit_push_bit_iff bit_drop_bit_eq comp_apply
      by (cases "k = 0") (auto simp: bit_1_iff)
  qed
  then show ?case using Suc by (cases "bit p (15 - n)") (simp_all add: dshot_value_def)
qed

lemma dshot_value_pulses: "dshot_value (take 16 (pulses p)) = p"
  using dshot_value_prefix [of 16 p] by (simp add: pulses_def)

section \<open>The packet\<close>

lemma fifteen16: "(0xf :: u16) = mask 4"
  by (simp add: mask_eq_exp_minus_1)

text \<open>The twelve bits of throttle and telemetry, and the packet with the checksum of them.\<close>

definition dshot_data :: "u16 \<Rightarrow> bool \<Rightarrow> u16" where
  "dshot_data thr tel = push_bit 5 thr OR push_bit 4 (if tel then 1 else 0)"

lemma bit_dshot_data: "bit (dshot_data thr tel) j \<longleftrightarrow> j < 16 \<and> (5 \<le> j \<and> bit thr (j - 5) \<or> j = 4 \<and> tel)"
  by (auto simp: dshot_data_def bit_simps)

lemma dshot_packet_eq:
  "dshot_packet thr tel = dshot_data thr tel OR
     (((drop_bit 4 (dshot_data thr tel) AND mask 4) XOR (drop_bit 8 (dshot_data thr tel) AND mask 4)
        XOR (drop_bit 12 (dshot_data thr tel) AND mask 4)) AND mask 4)"
  unfolding dshot_packet_def fifteen16 dshot_data_def [symmetric]
  by (simp add: numeral_3_eq_3 Let_def xor.assoc del: mask_numeral)

lemma bit_dshot_packet:
  "bit (dshot_packet thr tel) k \<longleftrightarrow> (if k < 4 then (bit (dshot_data thr tel) (4 + k) \<noteq> bit (dshot_data thr tel) (8 + k))
       \<noteq> bit (dshot_data thr tel) (12 + k)
     else bit (dshot_data thr tel) k)"
proof (cases "k < 4")
  case True
  then have "\<not> bit (dshot_data thr tel) k" by (simp add: bit_dshot_data)
  then show ?thesis using True
    unfolding dshot_packet_eq bit_or_iff bit_and_iff bit_xor_iff bit_drop_bit_eq comp_apply bit_mask_iff by simp argo
next
  case False
  then show ?thesis unfolding dshot_packet_eq bit_or_iff bit_and_iff bit_mask_iff by simp
qed

lemma dshot_checksum:
  "(drop_bit 4 (dshot_packet thr tel) XOR drop_bit 8 (dshot_packet thr tel) XOR drop_bit 12 (dshot_packet thr tel)) AND 0xf
     = dshot_packet thr tel AND 0xf"
proof (rule bit_word_eqI)
  fix k
  show "bit ((drop_bit 4 (dshot_packet thr tel) XOR drop_bit 8 (dshot_packet thr tel) XOR drop_bit 12 (dshot_packet thr tel)) AND 0xf) k
      = bit (dshot_packet thr tel AND 0xf) k"
    unfolding fifteen16 bit_and_iff bit_xor_iff bit_drop_bit_eq comp_apply bit_mask_iff
    by (cases "k < 4") (simp_all add: bit_dshot_packet, argo)
qed

lemma dshot_decode_pulses:
  assumes "thr < 2048"
  shows "dshot_decode (pulses (dshot_packet thr tel)) = Some (thr, tel)"
proof -
  have "bit thr k \<Longrightarrow> k < 11" for k
  proof -
    have "unat thr < 2 ^ 11" using assms by (simp add: word_less_nat_alt)
    then have "take_bit 11 (unat thr) = unat thr" by (rule take_bit_nat_eq_self)
    then have "take_bit 11 thr = thr" by (metis unsigned_take_bit_eq unsigned_word_eqI)
    then show "bit thr k \<Longrightarrow> k < 11" by (metis bit_take_bit_iff)
  qed
  then have "drop_bit 5 (dshot_packet thr tel) = thr"
    by (intro bit_word_eqI) (auto simp: bit_drop_bit_eq bit_dshot_packet bit_dshot_data)
  moreover have "bit (dshot_packet thr tel) 4 = tel" by (simp add: bit_dshot_packet bit_dshot_data)
  ultimately show ?thesis by (simp add: dshot_decode_def dshot_value_pulses dshot_checksum Let_def)
qed


section \<open>The motors' buffer\<close>

lemma bit_8000: "packet AND 0x8000 \<noteq> 0 \<longleftrightarrow> bit packet 15" for packet :: u16
  using has_flag_bit [of packet 15] by (simp add: has_flag_def)

lemma put_pulses_fold:
  fixes p :: u16
  assumes "n \<le> 16" "b + 16 \<le> length buf"
  shows "fold (\<lambda>i (buf, packet). (buf[b + i := (if packet AND 0x8000 \<noteq> 0 then MOTOR_PWM_BIT_1 else MOTOR_PWM_BIT_0)], push_bit 1 packet))
      [0..<n] (buf, p) =
    (map (\<lambda>j. if b \<le> j \<and> j < b + n then if bit p (15 - (j - b)) then MOTOR_PWM_BIT_1 else MOTOR_PWM_BIT_0 else buf ! j) [0..<length buf],
     push_bit n p)"
  using assms(1)
proof (induction n)
  case 0
  then show ?case by (auto intro!: nth_equalityI)
next
  case (Suc n)
  have "bit (push_bit n p) 15 \<longleftrightarrow> bit p (15 - n)" using Suc.prems by (simp add: bit_push_bit_iff)
  moreover have "push_bit 1 (push_bit n p) = push_bit (Suc n) p" by (simp only: push_bit_push_bit) simp
  moreover have "(map (\<lambda>j. if b \<le> j \<and> j < b + n then if bit p (15 - (j - b)) then MOTOR_PWM_BIT_1 else MOTOR_PWM_BIT_0 else buf ! j)
        [0..<length buf])[b + n := v] =
      map (\<lambda>j. if b \<le> j \<and> j < b + Suc n then if bit p (15 - (j - b)) then MOTOR_PWM_BIT_1 else MOTOR_PWM_BIT_0 else buf ! j)
        [0..<length buf]" if "v = (if bit p (15 - n) then MOTOR_PWM_BIT_1 else MOTOR_PWM_BIT_0)" for v
    by (rule nth_equalityI) (use that in \<open>auto simp: nth_list_update less_Suc_eq\<close>)
  ultimately show ?case using Suc by (simp add: bit_8000 del: push_bit_push_bit map_eq_conv)
qed

definition motor_frame :: "u16 list \<Rightarrow> nat \<Rightarrow> u16 list" where
  "motor_frame buf m = take ONE_MOTOR_BUFF_SIZE (drop (m * ONE_MOTOR_BUFF_SIZE) buf)"

lemma put_pulses_nth:
  assumes "m * 17 + 17 \<le> length buf" "j < length buf"
  shows "put_pulses m p buf ! j = (if m * 17 \<le> j \<and> j < m * 17 + 16 then if bit p (15 - (j - m * 17)) then MOTOR_PWM_BIT_1 else MOTOR_PWM_BIT_0
     else if j = m * 17 + 16 then 0 else buf ! j)"
  using assms put_pulses_fold [of 16 "m * 17" buf p] by (simp add: put_pulses_def nth_list_update)

lemma length_put_pulses [simp]: "m * 17 + 17 \<le> length buf \<Longrightarrow> length (put_pulses m p buf) = length buf"
  using put_pulses_fold [of 16 "m * 17" buf p] by (simp add: put_pulses_def)

lemma put_pulses_frame:
  assumes "m * 17 + 17 \<le> length buf" "k * 17 + 17 \<le> length buf"
  shows "motor_frame (put_pulses m p buf) k = (if k = m then pulses p else motor_frame buf k)"
proof (rule nth_equalityI)
  show "length (motor_frame (put_pulses m p buf) k) = length (if k = m then pulses p else motor_frame buf k)"
    using assms by (simp add: motor_frame_def pulses_def)
  fix i assume "i < length (motor_frame (put_pulses m p buf) k)"
  then have i: "i < 17" by (simp add: motor_frame_def)
  have "k * 17 + i < length buf" using assms(2) i by simp
  moreover have "\<not> (m * 17 \<le> k * 17 + i \<and> k * 17 + i < m * 17 + 17)" if "k \<noteq> m" using that i by presburger
  ultimately show "motor_frame (put_pulses m p buf) k ! i = (if k = m then pulses p else motor_frame buf k) ! i"
    using assms i by (auto simp: motor_frame_def put_pulses_nth pulses_def nth_append)
qed

section \<open>Interleaving\<close>

lemma nested_fold_length: "length (fold (\<lambda>i. fold (\<lambda>m a. a[g i m := f i m]) (ms i)) is a) = length a"
proof -
  have "length (fold (\<lambda>m a. a[g i m := f i m]) xs a) = length a" for i xs a by (induction xs arbitrary: a) simp_all
  then show ?thesis by (induction "is" arbitrary: a) simp_all
qed

lemma row_fold:
  assumes "b + n \<le> length a"
  shows "fold (\<lambda>m a. a[b + m := f m]) [0..<n] a ! j = (if b \<le> j \<and> j < b + n then f (j - b) else a ! j)"
  using assms
proof (induction n)
  case (Suc n)
  have "length (fold (\<lambda>m a. a[b + m := f m]) xs a) = length a" for xs by (induction xs arbitrary: a) simp_all
  then show ?case using Suc by (auto simp: nth_list_update less_Suc_eq)
qed auto

lemma interleave:
  assumes "b + r * n \<le> length a"
  shows "fold (\<lambda>i. fold (\<lambda>m a. a[b + (i * n + m) := f i m]) [0..<n]) [0..<r] a ! j =
    (if b \<le> j \<and> j < b + r * n then f ((j - b) div n) ((j - b) mod n) else a ! j)"
  using assms
proof (induction r)
  case (Suc r)
  let ?a = "fold (\<lambda>i. fold (\<lambda>m a. a[b + (i * n + m) := f i m]) [0..<n]) [0..<r] a"
  have len: "length ?a = length a" by (rule nested_fold_length)
  have "fold (\<lambda>m a. a[b + (r * n + m) := f r m]) [0..<n] ?a ! j =
      (if b + r * n \<le> j \<and> j < b + r * n + n then f r (j - (b + r * n)) else ?a ! j)"
    using row_fold [of "b + r * n" n ?a "f r" j] Suc.prems len by (simp add: add.assoc)
  moreover have "(j - b) div n = r \<and> (j - b) mod n = j - (b + r * n)" if "b + r * n \<le> j" "j < b + r * n + n"
  proof -
    note jb = that
    obtain q where q: "j = b + r * n + q" using le_Suc_ex [OF jb(1)] by blast
    then have "q < n" using jb(2) by simp
    moreover have "j - b = q + r * n" "j - (b + r * n) = q" using q by simp_all
    ultimately show ?thesis by simp
  qed
  ultimately have step: "fold (\<lambda>m a. a[b + (r * n + m) := f r m]) [0..<n] ?a ! j =
      (if b + r * n \<le> j \<and> j < b + r * n + n then f ((j - b) div n) ((j - b) mod n) else ?a ! j)" by simp
  have IH: "?a ! j = (if b \<le> j \<and> j < b + r * n then f ((j - b) div n) ((j - b) mod n) else a ! j)" using Suc by simp
  show ?case
  proof (cases "b + r * n \<le> j \<and> j < b + r * n + n")
    case True
    then have "b \<le> j \<and> j < b + Suc r * n" by simp
    then show ?thesis using step True by simp
  next
    case False
    then have "b \<le> j \<and> j < b + Suc r * n \<longleftrightarrow> b \<le> j \<and> j < b + r * n" by auto
    then show ?thesis using step IH False by simp
  qed
qed auto


section \<open>The transfers\<close>

definition dshot_on :: "dshot_state \<Rightarrow> nat \<Rightarrow> bool" where
  "dshot_on s t \<longleftrightarrow> dshot_init (dshot_handlers s ! t)"

definition burst_word :: "dshot_state \<Rightarrow> nat \<Rightarrow> nat" where
  "burst_word s t = the (dshot_burst_buffer s ! t) div 4"

definition first_motor_of :: "pwm_board \<Rightarrow> dshot_state \<Rightarrow> nat \<Rightarrow> nat" where
  "first_motor_of bd s t = sum_list (map (timer_motors bd) (filter (dshot_on s) [0..<t]))"

text \<open>The buffers of the timers in use are inside the array and apart from each other.\<close>

definition buffers_apart :: "pwm_board \<Rightarrow> dshot_state \<Rightarrow> bool" where
  "buffers_apart bd s \<longleftrightarrow>
     (\<forall>t < MAX_IO_TIMERS bd. dshot_on s t \<longrightarrow> burst_word s t + 17 * timer_motors bd t \<le> length (dshot_burst_array s))
   \<and> (\<forall>u < MAX_IO_TIMERS bd. \<forall>t < u. dshot_on s t \<longrightarrow> dshot_on s u \<longrightarrow> burst_word s t + 17 * timer_motors bd t \<le> burst_word s u)"

definition column :: "nat \<Rightarrow> nat \<Rightarrow> u32 list \<Rightarrow> u16 list" where
  "column n j ws = map (\<lambda>i. ucast (ws ! (i * n + j))) [0..<ONE_MOTOR_BUFF_SIZE]"

text \<open>What the loop over the timers below \<open>n\<close> has done.\<close>

definition sent :: "pwm_board \<Rightarrow> u16 list \<Rightarrow> dshot_state \<Rightarrow> nat \<Rightarrow> nat \<times> dshot_state \<Rightarrow> bool" where
  "sent bd buf s n = (\<lambda>(fm, s'). fm = first_motor_of bd s n
     \<and> dshot_handlers s' = dshot_handlers s \<and> dshot_burst_buffer s' = dshot_burst_buffer s \<and> motor_buffer s' = motor_buffer s
     \<and> length (dshot_burst_array s') = length (dshot_burst_array s)
     \<and> dma_log s' = rev (map (\<lambda>t. (tmr_base bd t + GTIM_DMAR, the (dshot_burst_buffer s ! t), dma_size (dshot_handlers s ! t)))
         (filter (dshot_on s) [0..<n])) @ dma_log s
     \<and> (\<forall>t < n. dshot_on s t \<longrightarrow> (\<forall>k < 17 * timer_motors bd t. dshot_burst_array s' ! (burst_word s t + k) =
          ucast (buf ! ((k mod timer_motors bd t + first_motor_of bd s t) * 17 + k div timer_motors bd t)))))"

lemma dma_req_fields [simp]:
  "dshot_handlers (io_timer_update_dma_req bd t e s) = dshot_handlers s"
  "dshot_burst_buffer (io_timer_update_dma_req bd t e s) = dshot_burst_buffer s"
  "motor_buffer (io_timer_update_dma_req bd t e s) = motor_buffer s"
  "dshot_burst_array (io_timer_update_dma_req bd t e s) = dshot_burst_array s"
  "dma_log (io_timer_update_dma_req bd t e s) = dma_log s"
  by (simp_all add: io_timer_update_dma_req_def REG_write_def REG32_write_def Let_def)

lemma prepare_array:
  assumes "motor_buffer s = Some buf" "burst_word s t + 17 * n \<le> length (dshot_burst_array s)"
  shows "dshot_burst_array (dshot_dmar_data_prepare t fm n s) ! j =
      (if burst_word s t \<le> j \<and> j < burst_word s t + 17 * n
       then ucast (buf ! (((j - burst_word s t) mod n + fm) * 17 + (j - burst_word s t) div n)) else dshot_burst_array s ! j)"
    and "length (dshot_burst_array (dshot_dmar_data_prepare t fm n s)) = length (dshot_burst_array s)"
  using assms interleave [of "burst_word s t" 17 n "dshot_burst_array s" "\<lambda>i m. ucast (buf ! ((m + fm) * 17 + i))" j]
  by (simp_all add: dshot_dmar_data_prepare_def Let_def burst_word_def nested_fold_length)

lemma prepare_fields [simp]:
  "dshot_handlers (dshot_dmar_data_prepare t fm n s) = dshot_handlers s"
  "dshot_burst_buffer (dshot_dmar_data_prepare t fm n s) = dshot_burst_buffer s"
  "motor_buffer (dshot_dmar_data_prepare t fm n s) = motor_buffer s"
  "dma_log (dshot_dmar_data_prepare t fm n s) = dma_log s"
  by (simp_all add: dshot_dmar_data_prepare_def Let_def)

lemma trigger_timer_eq:
  "dshot_trigger_timer bd t (fm, s) =
     (if dshot_on s t then (fm + timer_motors bd t, io_timer_update_dma_req bd t True
        ((io_timer_update_dma_req bd t False (dshot_dmar_data_prepare t fm (timer_motors bd t) s))
           \<lparr>dma_log := (tmr_base bd t + GTIM_DMAR, the (dshot_burst_buffer s ! t), dma_size (dshot_handlers s ! t)) # dma_log s\<rparr>))
      else (fm, s))"
  by (simp add: dshot_trigger_timer_def dshot_on_def Let_def)

lemma sent_step:
  assumes r: "sent bd buf s n r" and mb: "motor_buffer s = Some buf" and ap: "buffers_apart bd s" and n: "n < MAX_IO_TIMERS bd"
  shows "sent bd buf s (Suc n) (dshot_trigger_timer bd n r)"
proof -
  obtain fm s' where rr: "r = (fm, s')" by (cases r)
  have on: "dshot_on s' = dshot_on s" and bw: "burst_word s' = burst_word s" and fm: "fm = first_motor_of bd s n"
    and mb': "motor_buffer s' = Some buf" and len: "length (dshot_burst_array s') = length (dshot_burst_array s)"
    using r mb by (simp_all add: rr sent_def dshot_on_def burst_word_def fun_eq_iff)
  show ?thesis
  proof (cases "dshot_on s n")
    case False
    then show ?thesis using r by (auto simp: rr sent_def trigger_timer_eq on first_motor_of_def less_Suc_eq)
  next
    case True
    let ?a = "dshot_burst_array (dshot_dmar_data_prepare n fm (timer_motors bd n) s')"
    have fit: "burst_word s' n + 17 * timer_motors bd n \<le> length (dshot_burst_array s')"
      using ap n True by (simp add: buffers_apart_def bw len)
    note pr = prepare_array [OF mb' fit, where fm = fm]
    have "?a ! (burst_word s t + k) =
        ucast (buf ! ((k mod timer_motors bd t + first_motor_of bd s t) * 17 + k div timer_motors bd t))"
      if t: "t < Suc n" "dshot_on s t" and k: "k < 17 * timer_motors bd t" for t k
    proof (cases "t = n")
      case True
      then show ?thesis using k unfolding True pr(1) bw by (simp add: fm)
    next
      case False
      then have "t < n" using t(1) by simp
      then have "burst_word s t + k < burst_word s n" using ap n t(2) True k unfolding buffers_apart_def by fastforce
      then show ?thesis using r \<open>t < n\<close> t(2) k by (simp add: pr(1) bw) (simp add: rr sent_def)
    qed
    then show ?thesis using r True pr(2) by (simp add: rr sent_def trigger_timer_eq on first_motor_of_def len)
  qed
qed

lemma trigger_sent:
  assumes "motor_buffer s = Some buf" "buffers_apart bd s"
  shows "sent bd buf s (MAX_IO_TIMERS bd) (fold (dshot_trigger_timer bd) [0..<MAX_IO_TIMERS bd] (0, s))"
proof -
  have "n \<le> MAX_IO_TIMERS bd \<Longrightarrow> sent bd buf s n (fold (dshot_trigger_timer bd) [0..<n] (0, s))" for n
  proof (induction n)
    case 0
    show ?case by (simp add: sent_def first_motor_of_def)
  next
    case (Suc n)
    then show ?case using sent_step [OF _ assms] by simp
  qed
  then show ?thesis by blast
qed

text \<open>The burst buffer of a timer holds the frames of its motors side by side.\<close>

lemma trigger_columns:
  assumes mb: "motor_buffer s = Some buf" and ap: "buffers_apart bd s" and t: "t < MAX_IO_TIMERS bd" "dshot_on s t"
    and j: "j < timer_motors bd t" and m: "(first_motor_of bd s t + j) * 17 + 17 \<le> length buf"
  shows "column (timer_motors bd t) j (drop (burst_word s t) (dshot_burst_array (up_dshot_trigger bd s))) = motor_frame buf (first_motor_of bd s t + j)"
proof (rule nth_equalityI)
  let ?n = "timer_motors bd t" and ?a = "dshot_burst_array (up_dshot_trigger bd s)"
  show "length (column ?n j (drop (burst_word s t) ?a)) = length (motor_frame buf (first_motor_of bd s t + j))"
    using m by (simp add: column_def motor_frame_def)
  fix i assume "i < length (column ?n j (drop (burst_word s t) ?a))"
  then have i: "i < 17" by (simp add: column_def)
  note tr = trigger_sent [OF mb ap]
  have len: "length ?a = length (dshot_burst_array s)" using tr by (simp add: sent_def up_dshot_trigger_def split: prod.splits)
  have "i * ?n + j < Suc i * ?n" using j by simp
  also have "\<dots> \<le> 17 * ?n" using i by (intro mult_le_mono1) simp
  finally have k: "i * ?n + j < 17 * ?n" .
  have fit: "burst_word s t \<le> length ?a" using ap t len by (auto simp: buffers_apart_def)
  have "?a ! (burst_word s t + (i * ?n + j)) = ucast (buf ! (((i * ?n + j) mod ?n + first_motor_of bd s t) * 17 + (i * ?n + j) div ?n))"
    using tr t k by (simp add: sent_def up_dshot_trigger_def split: prod.splits)
  also have "\<dots> = ucast (buf ! ((first_motor_of bd s t + j) * 17 + i))" using j by (simp add: add.commute)
  finally have "drop (burst_word s t) ?a ! (i * ?n + j) = ucast (buf ! ((first_motor_of bd s t + j) * 17 + i))" using fit by simp
  moreover have "ucast (ucast v :: u32) = v" for v :: u16 by (rule bit_word_eqI) (simp add: bit_ucast_iff)
  ultimately show "column ?n j (drop (burst_word s t) ?a) ! i = motor_frame buf (first_motor_of bd s t + j) ! i"
    using i m by (simp add: column_def motor_frame_def)
qed


section \<open>Initialisation\<close>

text \<open>
  What the driver relies on in the board's files: the cache line is a multiple of a word, a timer has at most four motors, the timers in
  use come first in the table, and there is room for the motors of all of them.
\<close>

definition dshot_config_ok :: "pwm_board \<Rightarrow> dshot_config \<Rightarrow> bool" where
  "dshot_config_ok bd dc \<longleftrightarrow> (DCACHE_LINESIZE dc = 1 \<or> 4 dvd DCACHE_LINESIZE dc \<and> 0 < DCACHE_LINESIZE dc)
     \<and> (\<forall>t \<in> {..<MAX_IO_TIMERS bd}. timer_motors bd t \<le> 4)
     \<and> (\<forall>t \<in> {..<MAX_IO_TIMERS bd}. tmr_base bd t \<noteq> 0 \<longrightarrow> (\<forall>u \<in> {..<t}. tmr_base bd u \<noteq> 0))
     \<and> sum_list (map (timer_motors bd) [0..<MAX_IO_TIMERS bd]) \<le> MOTORS_NUMBER dc"

definition dshot_inv :: "pwm_board \<Rightarrow> dshot_config \<Rightarrow> dshot_state \<Rightarrow> bool" where
  "dshot_inv bd dc s \<longleftrightarrow> io_inv bd s
     \<and> length (dshot_handlers s) = MAX_IO_TIMERS bd \<and> length (dshot_burst_buffer s) = MAX_IO_TIMERS bd
     \<and> length (dshot_burst_array s) = MAX_IO_TIMERS bd * DSHOT_BURST_BUFFER_SIZE dc 4 div 4
     \<and> (\<forall>t < MAX_IO_TIMERS bd. dshot_on s t \<longrightarrow> tmr_base bd t \<noteq> 0)
     \<and> (\<forall>buf. motor_buffer s = Some buf \<longrightarrow> length buf = ALL_MOTORS_BUF_SIZE dc)"

definition buf_off :: "pwm_board \<Rightarrow> dshot_config \<Rightarrow> nat \<Rightarrow> nat" where
  "buf_off bd dc t = sum_list (map (\<lambda>u. DSHOT_BURST_BUFFER_SIZE dc (timer_motors bd u)) [0..<t])"

lemma buf_off_Suc [simp]: "buf_off bd dc (Suc t) = buf_off bd dc t + DSHOT_BURST_BUFFER_SIZE dc (timer_motors bd t)"
  by (simp add: buf_off_def)

lemma align_up:
  assumes "DCACHE_LINESIZE dc = 1 \<or> 4 dvd DCACHE_LINESIZE dc \<and> 0 < DCACHE_LINESIZE dc"
  shows "n \<le> DMA_ALIGN_UP dc n" and "4 dvd n \<Longrightarrow> 4 dvd DMA_ALIGN_UP dc n" and "n \<le> m \<Longrightarrow> DMA_ALIGN_UP dc n \<le> DMA_ALIGN_UP dc m"
proof -
  let ?L = "DCACHE_LINESIZE dc"
  have L: "0 < ?L" using assms by auto
  have "(n + (?L - 1)) mod ?L \<le> ?L - 1" using L by (metis Suc_diff_1 less_Suc_eq_le mod_less_divisor)
  moreover have "(n + (?L - 1)) div ?L * ?L + (n + (?L - 1)) mod ?L = n + (?L - 1)" by (rule div_mult_mod_eq)
  ultimately show "n \<le> DMA_ALIGN_UP dc n" unfolding DMA_ALIGN_UP_def by linarith
  show "4 dvd n \<Longrightarrow> 4 dvd DMA_ALIGN_UP dc n" using assms by (auto simp: DMA_ALIGN_UP_def)
  show "n \<le> m \<Longrightarrow> DMA_ALIGN_UP dc n \<le> DMA_ALIGN_UP dc m"
    unfolding DMA_ALIGN_UP_def by (intro mult_le_mono1 div_le_mono) simp
qed

lemma burst_size:
  assumes "dshot_config_ok bd dc"
  shows "68 * n \<le> DSHOT_BURST_BUFFER_SIZE dc n" and "4 dvd DSHOT_BURST_BUFFER_SIZE dc n"
    and "t < MAX_IO_TIMERS bd \<Longrightarrow> DSHOT_BURST_BUFFER_SIZE dc (timer_motors bd t) \<le> DSHOT_BURST_BUFFER_SIZE dc 4"
proof -
  have L: "DCACHE_LINESIZE dc = 1 \<or> 4 dvd DCACHE_LINESIZE dc \<and> 0 < DCACHE_LINESIZE dc" using assms by (simp add: dshot_config_ok_def)
  show "68 * n \<le> DSHOT_BURST_BUFFER_SIZE dc n" using align_up(1) [OF L, of "68 * n"] by (simp add: DSHOT_BURST_BUFFER_SIZE_def)
  show "4 dvd DSHOT_BURST_BUFFER_SIZE dc n" unfolding DSHOT_BURST_BUFFER_SIZE_def by (rule align_up(2) [OF L]) simp
  show "t < MAX_IO_TIMERS bd \<Longrightarrow> DSHOT_BURST_BUFFER_SIZE dc (timer_motors bd t) \<le> DSHOT_BURST_BUFFER_SIZE dc 4"
    unfolding DSHOT_BURST_BUFFER_SIZE_def by (rule align_up(3) [OF L]) (use assms in \<open>simp add: dshot_config_ok_def\<close>)
qed

lemma buf_off_bounds:
  assumes "dshot_config_ok bd dc"
  shows "4 dvd buf_off bd dc t" and "t \<le> MAX_IO_TIMERS bd \<Longrightarrow> buf_off bd dc t \<le> t * DSHOT_BURST_BUFFER_SIZE dc 4"
    and "t < u \<Longrightarrow> buf_off bd dc t + 68 * timer_motors bd t \<le> buf_off bd dc u"
proof -
  show "4 dvd buf_off bd dc t" by (induction t) (simp_all add: burst_size(2) [OF assms] dvd_add, simp add: buf_off_def)
  show "t \<le> MAX_IO_TIMERS bd \<Longrightarrow> buf_off bd dc t \<le> t * DSHOT_BURST_BUFFER_SIZE dc 4"
  proof (induction t)
    case (Suc t)
    then show ?case using burst_size(3) [OF assms, of t] by simp
  qed (simp add: buf_off_def)
  show "t < u \<Longrightarrow> buf_off bd dc t + 68 * timer_motors bd t \<le> buf_off bd dc u"
  proof (induction u)
    case (Suc u)
    then show ?case using burst_size(1) [OF assms, of "timer_motors bd t"] by (cases "t = u") auto
  qed simp
qed

lemma dshot_buffers_laws:
  assumes ok: "dshot_config_ok bd dc" and "a \<le> MAX_IO_TIMERS bd" and "length (dshot_burst_buffer s) = MAX_IO_TIMERS bd"
  shows "\<exists>bs. dshot_buffers bd dc [a..<MAX_IO_TIMERS bd] (buf_off bd dc a) s = (True, s\<lparr>dshot_burst_buffer := bs\<rparr>)
    \<and> length bs = MAX_IO_TIMERS bd \<and> (\<forall>t < a. bs ! t = dshot_burst_buffer s ! t)
    \<and> (\<forall>t. a \<le> t \<longrightarrow> t < MAX_IO_TIMERS bd \<longrightarrow> tmr_base bd t \<noteq> 0 \<longrightarrow> bs ! t = Some (buf_off bd dc t))"
  using assms(2,3)
proof (induction "MAX_IO_TIMERS bd - a" arbitrary: a s)
  case 0
  then show ?case by (intro exI [of _ "dshot_burst_buffer s"]) simp
next
  case (Suc d)
  let ?T = "MAX_IO_TIMERS bd"
  have a: "a < ?T" and up: "[a..<?T] = a # [Suc a..<?T]" using Suc.hyps(2) by (simp_all add: upt_rec)
  show ?case
  proof (cases "tmr_base bd a = 0")
    case True
    then have "tmr_base bd t = 0" if "a \<le> t" "t < ?T" for t
      using ok that True unfolding dshot_config_ok_def by (cases "t = a") auto
    then show ?thesis using True Suc.prems(2) by (intro exI [of _ "dshot_burst_buffer s"]) (auto simp: up)
  next
    case False
    let ?s = "s\<lparr>dshot_burst_buffer := (dshot_burst_buffer s)[a := Some (buf_off bd dc a)]\<rparr>"
    have "buf_off bd dc (Suc a) \<le> Suc a * DSHOT_BURST_BUFFER_SIZE dc 4" using buf_off_bounds(2) [OF ok, of "Suc a"] a by simp
    also have "\<dots> \<le> ?T * DSHOT_BURST_BUFFER_SIZE dc 4" using a by (intro mult_le_mono1) simp
    finally have "dshot_buffers bd dc [a..<?T] (buf_off bd dc a) s = dshot_buffers bd dc [Suc a..<?T] (buf_off bd dc (Suc a)) ?s"
      using False by (simp add: up Let_def not_less)
    moreover obtain bs where bs: "dshot_buffers bd dc [Suc a..<?T] (buf_off bd dc (Suc a)) ?s = (True, ?s\<lparr>dshot_burst_buffer := bs\<rparr>)"
        "length bs = ?T" "\<forall>t < Suc a. bs ! t = dshot_burst_buffer ?s ! t"
        "\<forall>t. Suc a \<le> t \<longrightarrow> t < ?T \<longrightarrow> tmr_base bd t \<noteq> 0 \<longrightarrow> bs ! t = Some (buf_off bd dc t)"
    proof -
      have "d = ?T - Suc a" using Suc.hyps(2) by simp
      then show thesis using Suc.hyps(1) [of "Suc a" ?s] a Suc.prems(2) that by auto
    qed
    moreover have "bs ! t = Some (buf_off bd dc t)" if "a \<le> t" "t < ?T" "tmr_base bd t \<noteq> 0" for t
      using bs(3,4) that a Suc.prems(2) by (cases "t = a") auto
    ultimately show ?thesis using a by (intro exI [of _ bs]) auto
  qed
qed


interpretation dshot: output_pool "io_inv bd" "valid_channel bd" owner IOTimerChanMode_NotUsed IOTimerChanMode_Dshot
  "\<lambda>c s. snd (io_timer_free_channel bd c s)"
  "\<lambda>c s. snd (io_timer_channel_init bd c IOTimerChanMode_Dshot (None, 0) s)" "output_on bd"
  for bd by (rule timers_pool) simp

lemma more_dshot:
  fixes s s' :: dshot_state
  assumes "io_state.more s' = io_state.more s"
  shows "dshot_handlers s' = dshot_handlers s \<and> motor_buffer s' = motor_buffer s \<and> dshot_burst_buffer s' = dshot_burst_buffer s
    \<and> dshot_burst_array s' = dshot_burst_array s \<and> dma_log s' = dma_log s"
  using assms by (cases s; cases s') simp

lemma take_one_more: "io_state.more (take_one bd m c s) = io_state.more s"
  by (simp add: take_one_def io_timer_channel_init_def io_timer_free_channel_def case_prod_beta split: option.splits)

definition set_on :: "nat \<Rightarrow> dshot_state \<Rightarrow> dshot_state" where
  "set_on t s = s\<lparr>dshot_handlers := (dshot_handlers s)[t := (dshot_handlers s ! t)\<lparr>dshot_init := True\<rparr>]\<rparr>"

lemma dshot_take_eq:
  assumes i: "io_inv bd s" and c: "c < 16"
  shows "dshot_take_channel bd c (0, cm, s) =
    (if bit cm c \<and> io_dma_base (io_timers bd ! channels_timer bd c) \<noteq> 0
     then if valid_channel bd c
       then (0, clr_flag cm (push_bit c 1), set_on (channels_timer bd c) (take_one bd IOTimerChanMode_Dshot c s))
       else (- IO_EINVAL, cm, s)
     else (0, cm, s))"
proof -
  let ?f = "if io_timer_is_channel_free bd c s = - IO_EBUSY then snd (io_timer_free_channel bd c s) else s"
  let ?r = "io_timer_channel_init bd c IOTimerChanMode_Dshot (None, 0) ?f"
  have f: "has_flag cm (push_bit c 1) \<longleftrightarrow> bit cm c" by (rule has_flag_bit)
  have st: "channel_setup bd c IOTimerChanMode_Dshot \<noteq> None" by (simp add: channel_setup_def)
  have "?r = (0, take_one bd IOTimerChanMode_Dshot c s)" if v: "valid_channel bd c"
  proof -
    have "?f = snd (io_timer_free_channel bd c s)"
    proof (cases "io_timer_is_channel_free bd c s = - IO_EBUSY")
      case False
      then have "owner s c = IOTimerChanMode_NotUsed"
        using v io_inv_owner_bit [OF i, of IOTimerChanMode_NotUsed c]
        by (auto simp: io_timer_is_channel_free_def valid_channel_def Let_def flag_simps split: if_splits)
      then show ?thesis using False io_inv_mode [OF i c] by (simp add: io_timer_free_channel_def)
    qed simp
    then show ?thesis
      using channel_init [of bd ?f c IOTimerChanMode_Dshot "(None, 0)"] free_channel [OF i v] v c st
      by (simp add: prod_eq_iff take_one_def)
  qed
  moreover have "?r = (- IO_EINVAL, s)" if "\<not> valid_channel bd c"
    using that
    by (auto simp: valid_channel_def io_timer_validate_channel_index_def io_timer_is_channel_free_def io_timer_channel_init_def
          channel_setup_def allocate_channel_def Let_def split: if_splits)
  ultimately show ?thesis
    using f by (simp add: dshot_take_channel_def set_on_def Let_def del: push_bit_of_1)
qed


text \<open>The channels of a mask that the driver takes: those on a timer the board has set up for DShot.\<close>

definition dshot_wanted :: "pwm_board \<Rightarrow> u32 \<Rightarrow> nat \<Rightarrow> bool" where
  "dshot_wanted bd cm c \<longleftrightarrow> bit cm c \<and> io_dma_base (io_timers bd ! channels_timer bd c) \<noteq> 0"

definition same_buffers :: "dshot_state \<Rightarrow> dshot_state \<Rightarrow> bool" where
  "same_buffers s s' \<longleftrightarrow> motor_buffer s' = motor_buffer s \<and> dshot_burst_buffer s' = dshot_burst_buffer s
     \<and> dshot_burst_array s' = dshot_burst_array s"

lemma set_on_fields [simp]:
  "motor_buffer (set_on t s) = motor_buffer s" "dshot_burst_buffer (set_on t s) = dshot_burst_buffer s"
  "dshot_burst_array (set_on t s) = dshot_burst_array s" "channel_allocations (set_on t s) = channel_allocations s"
  "channels_cache (set_on t s) = channels_cache s" "io_regs (set_on t s) = io_regs s"
  "length (dshot_handlers (set_on t s)) = length (dshot_handlers s)"
  by (simp_all add: set_on_def)

lemma dshot_take_one:
  assumes i: "dshot_inv bd dc s" and v: "valid_channel bd c"
  defines "s' \<equiv> set_on (channels_timer bd c) (take_one bd IOTimerChanMode_Dshot c s)"
  shows "dshot_inv bd dc s'" and "same_buffers s s'"
    and "\<And>t. t < MAX_IO_TIMERS bd \<Longrightarrow> dshot_on s' t \<longleftrightarrow> t = channels_timer bd c \<or> dshot_on s t"
    and "\<And>d. d < 16 \<Longrightarrow> owner s' d = (if d = c then IOTimerChanMode_Dshot else owner s d)"
proof -
  have io: "io_inv bd s" using i by (simp add: dshot_inv_def)
  have b: "pwm_board_ok bd" and c: "c < 16" using io_inv_board [OF io] board_channel_bound v by blast+
  let ?t = "take_one bd IOTimerChanMode_Dshot c s"
  note more = more_dshot [OF take_one_more [of bd IOTimerChanMode_Dshot c s]]
  have tk: "io_inv bd ?t \<and> (\<forall>d < 16. owner ?t d = (if d = c then IOTimerChanMode_Dshot else owner s d))"
    unfolding take_one_eq [OF io c] using dshot.take_channel [OF io c] v by simp
  have "io_inv bd s'" unfolding s'_def by (rule io_inv_same [of bd ?t]) (use tk in simp_all)
  moreover show on: "dshot_on s' t \<longleftrightarrow> t = channels_timer bd c \<or> dshot_on s t" if "t < MAX_IO_TIMERS bd" for t
    using that more i board_channel_timer [OF b v] by (simp add: s'_def dshot_on_def set_on_def nth_list_update dshot_inv_def)
  moreover show "same_buffers s s'" using more by (simp add: same_buffers_def s'_def)
  ultimately show "dshot_inv bd dc s'"
    using i more valid_channelD(2) [OF v] by (auto simp: dshot_inv_def same_buffers_def s'_def)
  show "owner s' d = (if d = c then IOTimerChanMode_Dshot else owner s d)" if "d < 16" for d
    using tk that owner_same_masks [of s' ?t] by (simp add: s'_def)
qed

lemma same_buffers_trans: "same_buffers a b \<Longrightarrow> same_buffers b c \<Longrightarrow> same_buffers a c"
  by (simp add: same_buffers_def)

lemma bit_clr: "bit (clr_flag cm (push_bit c 1)) d \<longleftrightarrow> bit cm d \<and> d \<noteq> c" for cm :: u32
  by (auto simp: flag_simps bit_exp_iff push_bit_of_1 dest: bit_imp_le_length)

lemma dshot_take_loop:
  assumes "dshot_inv bd dc s" "distinct cs" "\<forall>c \<in> set cs. c < 16" "\<forall>c \<in> set cs. dshot_wanted bd cm c \<longrightarrow> valid_channel bd c"
  shows "\<exists>cm' s'. fold (dshot_take_channel bd) cs (0, cm, s) = (0, cm', s') \<and> dshot_inv bd dc s' \<and> same_buffers s s'
    \<and> (\<forall>t < MAX_IO_TIMERS bd. dshot_on s' t \<longleftrightarrow> dshot_on s t \<or> (\<exists>c \<in> set cs. dshot_wanted bd cm c \<and> channels_timer bd c = t))
    \<and> (\<forall>d < 16. owner s' d = (if d \<in> set cs \<and> dshot_wanted bd cm d then IOTimerChanMode_Dshot else owner s d))"
  using assms
proof (induction cs arbitrary: cm s)
  case Nil
  then show ?case by (simp add: same_buffers_def)
next
  case (Cons c cs)
  have io: "io_inv bd s" using Cons.prems(1) by (simp add: dshot_inv_def)
  note eq = dshot_take_eq [OF io, of c cm]
  show ?case
  proof (cases "dshot_wanted bd cm c")
    case False
    then have "dshot_take_channel bd c (0, cm, s) = (0, cm, s)" using eq Cons.prems(3) by (auto simp: dshot_wanted_def)
    then show ?thesis using Cons.IH [of s cm] Cons.prems False by auto
  next
    case True
    let ?s = "set_on (channels_timer bd c) (take_one bd IOTimerChanMode_Dshot c s)" and ?cm = "clr_flag cm (push_bit c 1)"
    have v: "valid_channel bd c" using Cons.prems(4) True by simp
    note st = dshot_take_one [OF Cons.prems(1) v]
    have step: "dshot_take_channel bd c (0, cm, s) = (0, ?cm, ?s)" using eq Cons.prems(3) True v by (simp add: dshot_wanted_def)
    have w: "dshot_wanted bd ?cm d \<longleftrightarrow> dshot_wanted bd cm d \<and> d \<noteq> c" for d by (auto simp: dshot_wanted_def bit_clr simp del: push_bit_of_1)
    have v': "\<forall>d \<in> set cs. dshot_wanted bd ?cm d \<longrightarrow> valid_channel bd d" using Cons.prems(4) w by simp
    obtain cm' s' where IH: "fold (dshot_take_channel bd) cs (0, ?cm, ?s) = (0, cm', s')" "dshot_inv bd dc s'" "same_buffers ?s s'"
        "\<forall>t < MAX_IO_TIMERS bd. dshot_on s' t \<longleftrightarrow> dshot_on ?s t \<or> (\<exists>c \<in> set cs. dshot_wanted bd ?cm c \<and> channels_timer bd c = t)"
        "\<forall>d < 16. owner s' d = (if d \<in> set cs \<and> dshot_wanted bd ?cm d then IOTimerChanMode_Dshot else owner ?s d)"
      using Cons.IH [OF st(1) _ _ v'] Cons.prems(2,3) by auto
    have "fold (dshot_take_channel bd) (c # cs) (0, cm, s) = (0, cm', s')" using step IH(1) by simp
    moreover have "dshot_on s' t \<longleftrightarrow> dshot_on s t \<or> (\<exists>c \<in> set (c # cs). dshot_wanted bd cm c \<and> channels_timer bd c = t)"
      if "t < MAX_IO_TIMERS bd" for t using IH(4) st(3) that True Cons.prems(2) w by auto
    moreover have "owner s' d = (if d \<in> set (c # cs) \<and> dshot_wanted bd cm d then IOTimerChanMode_Dshot else owner s d)" if "d < 16" for d
      using IH(5) st(4) that True Cons.prems(2) w by auto
    ultimately show ?thesis using IH(2) same_buffers_trans [OF st(2) IH(3)] by blast
  qed
qed

end
