(* ===== verification/Dshot_System.thy ===== *)
theory Dshot_System
  imports Dshot_Laws
begin

text \<open>
  The DShot driver from its initialisation to the transfers: \<open>up_dshot_init\<close> succeeds on a right board and leaves the buffers as the
  trigger needs them, and the value set for a motor reaches the receiver on the motor's output.
\<close>

section \<open>The timers\<close>

lemma dshot_mode_fields:
  fixes s :: dshot_state and bd and t and freq and n
  defines "s' \<equiv> snd (io_timer_set_dshot_mode bd t freq n s)"
  shows "dshot_handlers s' = dshot_handlers s" and "same_buffers s s'" and "channel_allocations s' = channel_allocations s"
    and "channels_cache s' = channels_cache s" and "io_regs s' b GTIM_CCER = io_regs s b GTIM_CCER"
  by (simp_all add: s'_def io_timer_set_dshot_mode_def same_buffers_def Let_def REG_write_def REG32_write_def split: option.splits)

definition sized :: "pwm_board \<Rightarrow> dshot_state \<Rightarrow> nat \<Rightarrow> bool" where
  "sized bd s t \<longleftrightarrow> dma_size (dshot_handlers s ! t) = timer_motors bd t * ONE_MOTOR_BUFF_SIZE"

text \<open>What the set-up of a timer keeps.\<close>

definition timers_kept :: "pwm_board \<Rightarrow> dshot_config \<Rightarrow> dshot_state \<Rightarrow> dshot_state \<Rightarrow> bool" where
  "timers_kept bd dc s s' \<longleftrightarrow> dshot_inv bd dc s' \<and> same_buffers s s' \<and> channel_allocations s' = channel_allocations s
     \<and> (\<forall>u < MAX_IO_TIMERS bd. dshot_on s' u = dshot_on s u \<and> (sized bd s u \<longrightarrow> sized bd s' u))"

lemma init_timer_step:
  assumes i: "dshot_inv bd dc s" and t: "t < MAX_IO_TIMERS bd" and ok: "dshot_on s t \<longrightarrow> dma_ok (io_dmamap (io_timers bd ! t))"
  shows "\<exists>s'. dshot_init_timer bd dma_ok freq t (0, s) = (0, s') \<and> timers_kept bd dc s s' \<and> (dshot_on s t \<longrightarrow> sized bd s' t)"
proof (cases "dshot_on s t")
  case False
  then show ?thesis using i by (simp add: dshot_init_timer_def dshot_on_def timers_kept_def same_buffers_def)
next
  case True
  let ?h = "\<lambda>s. s\<lparr>dshot_handlers := (dshot_handlers s)[t := (dshot_handlers s ! t)\<lparr>dma_size := timer_motors bd t * ONE_MOTOR_BUFF_SIZE\<rparr>]\<rparr>"
  let ?m = "snd (io_timer_set_dshot_mode bd t freq (of_nat (timer_motors bd t)) (?h s))"
  let ?s = "?m\<lparr>dshot_handlers := (dshot_handlers ?m)[t := (dshot_handlers ?m ! t)\<lparr>dma_handle := True\<rparr>]\<rparr>"
  note m = dshot_mode_fields [where s = "?h s" and bd = bd and t = t and freq = freq and n = "of_nat (timer_motors bd t)"]
  have len: "length (dshot_handlers s) = MAX_IO_TIMERS bd" using i by (simp add: dshot_inv_def)
  have eq: "dshot_init_timer bd dma_ok freq t (0, s) = (0, ?s)"
    using True ok by (simp add: dshot_init_timer_def dshot_on_def Let_def)
  have buf: "same_buffers s ?s" using m(2) by (simp add: same_buffers_def)
  have on: "dshot_on ?s u = dshot_on s u" "sized bd s u \<Longrightarrow> sized bd ?s u" if "u < MAX_IO_TIMERS bd" for u
    using that t len m(1) by (auto simp: dshot_on_def sized_def nth_list_update)
  have "io_inv bd ?s" by (rule io_inv_same [of bd s]) (use i m(3-5) in \<open>simp_all add: dshot_inv_def\<close>)
  moreover have "length (dshot_handlers ?s) = length (dshot_handlers s)" using m(1) by simp
  ultimately have "dshot_inv bd dc ?s" using i on buf by (simp add: dshot_inv_def same_buffers_def)
  moreover have "channel_allocations ?s = channel_allocations s" using m(3) by simp
  moreover have "sized bd ?s t" using t len m(1) by (simp add: sized_def nth_list_update)
  ultimately show ?thesis using eq buf on unfolding timers_kept_def by blast
qed

lemma timers_kept_trans: "timers_kept bd dc a b \<Longrightarrow> timers_kept bd dc b c \<Longrightarrow> timers_kept bd dc a c"
  by (auto simp: timers_kept_def dest: same_buffers_trans)

lemma init_timer_loop:
  assumes "dshot_inv bd dc s" "\<forall>t \<in> set ts. t < MAX_IO_TIMERS bd"
    "\<forall>t \<in> set ts. dshot_on s t \<longrightarrow> dma_ok (io_dmamap (io_timers bd ! t))"
  shows "\<exists>s'. fold (dshot_init_timer bd dma_ok freq) ts (0, s) = (0, s') \<and> timers_kept bd dc s s'
    \<and> (\<forall>t \<in> set ts. dshot_on s t \<longrightarrow> sized bd s' t)"
  using assms
proof (induction ts arbitrary: s)
  case Nil
  then show ?case by (simp add: timers_kept_def same_buffers_def)
next
  case (Cons t ts)
  obtain s1 where s1: "dshot_init_timer bd dma_ok freq t (0, s) = (0, s1)" "timers_kept bd dc s s1" "dshot_on s t \<longrightarrow> sized bd s1 t"
    using init_timer_step [of bd dc s t dma_ok freq] Cons.prems by auto
  then have on: "dshot_inv bd dc s1" "\<And>u. u < MAX_IO_TIMERS bd \<Longrightarrow> dshot_on s1 u = dshot_on s u" by (simp_all add: timers_kept_def)
  obtain s2 where s2: "fold (dshot_init_timer bd dma_ok freq) ts (0, s1) = (0, s2)" "timers_kept bd dc s1 s2"
      "\<forall>t \<in> set ts. dshot_on s1 t \<longrightarrow> sized bd s2 t"
    using Cons.IH [OF on(1)] Cons.prems(2,3) on(2) by auto
  have "sized bd s2 u" if "u \<in> set (t # ts)" "dshot_on s u" for u
    using that s1(3) s2(2,3) on(2) Cons.prems(2) by (auto simp: timers_kept_def)
  then show ?case using s1(1) s2(1) timers_kept_trans [OF s1(2) s2(2)] by auto
qed

section \<open>Initialisation\<close>

lemma first_motor_fits:
  assumes "t < MAX_IO_TIMERS bd" "j < timer_motors bd t"
  shows "first_motor_of bd s t + j < sum_list (map (timer_motors bd) [0..<MAX_IO_TIMERS bd])"
proof -
  have le: "first_motor_of bd s n \<le> sum_list (map (timer_motors bd) [0..<n])" for n
    unfolding first_motor_of_def by (induction n) auto
  have "[0..<MAX_IO_TIMERS bd] = [0..<t] @ t # [Suc t..<MAX_IO_TIMERS bd]"
    using assms(1) upt_add_eq_append [of 0 t "MAX_IO_TIMERS bd - t"] by (simp add: upt_conv_Cons)
  then show ?thesis using assms(2) le [of t] by simp
qed

text \<open>
  On a right board, with the memory and the DMA channels to be had, the initialisation succeeds: the channels of the mask on the timers
  with DShot are owned by the driver, no other owner changes, exactly their timers are added to those in use, and the buffers are set.
\<close>

lemma dshot_init_laws:
  assumes ok: "dshot_config_ok bd dc" and i: "dshot_inv bd dc s"
    and mem: "motor_buffer s = None \<longrightarrow> (\<exists>buf. malloc (ALL_MOTORS_BUF_SIZE dc) = Some buf \<and> length buf = ALL_MOTORS_BUF_SIZE dc)"
    and v: "\<forall>c < MAX_TIMER_IO_CHANNELS bd. dshot_wanted bd cm c \<longrightarrow> valid_channel bd c"
    and dma: "\<forall>t < MAX_IO_TIMERS bd. dma_ok (io_dmamap (io_timers bd ! t))"
    and s': "s' = snd (up_dshot_init bd dc malloc dma_ok cm freq s)"
  shows "fst (up_dshot_init bd dc malloc dma_ok cm freq s) = 0" and "dshot_inv bd dc s'"
    and "\<exists>buf. motor_buffer s' = Some buf \<and> length buf = ALL_MOTORS_BUF_SIZE dc"
    and "\<And>t. t < MAX_IO_TIMERS bd \<Longrightarrow> dshot_on s' t \<longleftrightarrow> dshot_on s t \<or> (\<exists>c < MAX_TIMER_IO_CHANNELS bd. dshot_wanted bd cm c \<and> channels_timer bd c = t)"
    and "\<And>t. t < MAX_IO_TIMERS bd \<Longrightarrow> dshot_on s' t \<Longrightarrow> sized bd s' t \<and> dshot_burst_buffer s' ! t = Some (buf_off bd dc t)"
    and "\<And>c. c < 16 \<Longrightarrow> owner s' c = (if c < MAX_TIMER_IO_CHANNELS bd \<and> dshot_wanted bd cm c then IOTimerChanMode_Dshot else owner s c)"
proof -
  let ?N = "MAX_IO_TIMERS bd" and ?C = "MAX_TIMER_IO_CHANNELS bd"
  let ?a = "if motor_buffer s = None then s\<lparr>motor_buffer := malloc (ALL_MOTORS_BUF_SIZE dc)\<rparr> else s"
  have io: "io_inv bd s" using i by (simp add: dshot_inv_def)
  have C: "?C \<le> 16" using io_inv_board [OF io] by (simp add: pwm_board_ok_def)
  have mem': "\<exists>buf. motor_buffer ?a = Some buf \<and> length buf = ALL_MOTORS_BUF_SIZE dc" using i mem by (auto simp: dshot_inv_def)
  obtain bs where bs: "dshot_buffers bd dc [0..<?N] 0 ?a = (True, ?a\<lparr>dshot_burst_buffer := bs\<rparr>)" "length bs = ?N"
      "\<forall>t < ?N. tmr_base bd t \<noteq> 0 \<longrightarrow> bs ! t = Some (buf_off bd dc t)"
  proof -
    have "length (dshot_burst_buffer ?a) = ?N" "buf_off bd dc 0 = 0" using i by (simp_all add: dshot_inv_def buf_off_def)
    then show thesis using dshot_buffers_laws [OF ok, of 0 ?a] that by (metis le0)
  qed
  let ?b = "?a\<lparr>dshot_burst_buffer := bs\<rparr>"
  have iob: "io_inv bd ?b" by (rule io_inv_same [OF io]) simp_all
  have ib: "dshot_inv bd dc ?b" using i iob mem' bs(2) by (auto simp: dshot_inv_def dshot_on_def)
  have owb: "owner ?b = owner s" and onb: "dshot_on ?b = dshot_on s"
    by (rule owner_same_masks, simp) (simp add: dshot_on_def fun_eq_iff)
  obtain cm' c1 where c1: "fold (dshot_take_channel bd) [0..<?C] (0, cm, ?b) = (0, cm', c1)" "dshot_inv bd dc c1" "same_buffers ?b c1"
      "\<forall>t < ?N. dshot_on c1 t \<longleftrightarrow> dshot_on ?b t \<or> (\<exists>c \<in> set [0..<?C]. dshot_wanted bd cm c \<and> channels_timer bd c = t)"
      "\<forall>d < 16. owner c1 d = (if d \<in> set [0..<?C] \<and> dshot_wanted bd cm d then IOTimerChanMode_Dshot else owner ?b d)"
    using dshot_take_loop [OF ib, of "[0..<?C]" cm] v C by auto
  obtain e where e: "fold (dshot_init_timer bd dma_ok freq) [0..<?N] (0, c1) = (0, e)" "timers_kept bd dc c1 e"
      "\<forall>t \<in> set [0..<?N]. dshot_on c1 t \<longrightarrow> sized bd e t"
    using init_timer_loop [OF c1(2), of "[0..<?N]" dma_ok freq] dma by auto
  have eq: "up_dshot_init bd dc malloc dma_ok cm freq s = (0, e)"
    using mem' bs(1) c1(1) e(1) unfolding up_dshot_init_def Let_def by auto
  then have s': "s' = e" by (simp add: s')
  show "fst (up_dshot_init bd dc malloc dma_ok cm freq s) = 0" using eq by simp
  show inv: "dshot_inv bd dc s'" using e(2) by (simp add: s' timers_kept_def)
  have bufs: "same_buffers ?b s'" using c1(3) e(2) by (auto simp: s' timers_kept_def dest: same_buffers_trans)
  then show "\<exists>buf. motor_buffer s' = Some buf \<and> length buf = ALL_MOTORS_BUF_SIZE dc" using mem' by (simp add: same_buffers_def)
  have on: "dshot_on s' t = dshot_on c1 t" if "t < ?N" for t using e(2) that by (simp add: s' timers_kept_def)
  then show "dshot_on s' t \<longleftrightarrow> dshot_on s t \<or> (\<exists>c < ?C. dshot_wanted bd cm c \<and> channels_timer bd c = t)" if "t < ?N" for t
    using that c1(4) onb by auto
  show "sized bd s' t \<and> dshot_burst_buffer s' ! t = Some (buf_off bd dc t)" if "t < ?N" "dshot_on s' t" for t
    using that e(3) on inv bs(3) bufs by (simp add: s' dshot_inv_def same_buffers_def)
  show "owner s' c = (if c < ?C \<and> dshot_wanted bd cm c then IOTimerChanMode_Dshot else owner s c)" if "c < 16" for c
    using that c1(5) owb owner_same_masks [of e c1] e(2) by (simp add: s' timers_kept_def)
qed


lemma buffers_apartI:
  assumes ok: "dshot_config_ok bd dc" and i: "dshot_inv bd dc s"
    and off: "\<And>t. t < MAX_IO_TIMERS bd \<Longrightarrow> dshot_on s t \<Longrightarrow> dshot_burst_buffer s ! t = Some (buf_off bd dc t)"
  shows "buffers_apart bd s"
proof -
  let ?N = "MAX_IO_TIMERS bd" and ?B = "DSHOT_BURST_BUFFER_SIZE dc 4"
  have w: "burst_word s t = buf_off bd dc t div 4" if "t < ?N" "dshot_on s t" for t using off [OF that] by (simp add: burst_word_def)
  have nxt: "buf_off bd dc t div 4 + 17 * timer_motors bd t \<le> buf_off bd dc u div 4" if "t < u" for t u
    using buf_off_bounds(3) [OF ok that] by linarith
  have "buf_off bd dc ?N \<le> ?N * ?B" using buf_off_bounds(2) [OF ok, of ?N] by simp
  then have "buf_off bd dc ?N div 4 \<le> length (dshot_burst_array s)" using i by (simp add: dshot_inv_def div_le_mono)
  then show ?thesis unfolding buffers_apart_def using w nxt order_trans [OF nxt] by fastforce
qed

lemma first_motor_inj:
  assumes "u < MAX_IO_TIMERS bd" "t < MAX_IO_TIMERS bd" "dshot_on s u" "dshot_on s t" "k < timer_motors bd u" "j < timer_motors bd t"
  shows "first_motor_of bd s u + k = first_motor_of bd s t + j \<longleftrightarrow> (u, k) = (t, j)"
proof -
  have nxt: "first_motor_of bd s a + timer_motors bd a \<le> first_motor_of bd s b" if "a < b" "dshot_on s a" for a b
    using that by (induction b) (auto simp: first_motor_of_def less_Suc_eq)
  consider "u < t" | "t < u" | "u = t" by linarith
  then show ?thesis using nxt [of u t] nxt [of t u] assms(3-6) by cases auto
qed

section \<open>From the driver's interface to the output\<close>

lemma data_set_fields:
  "motor_assignment dc = None \<Longrightarrow> motor_buffer (up_dshot_motor_data_set dc m thr tel s) = map_option (put_pulses m (dshot_packet (thr + 48) tel)) (motor_buffer s)"
  "dshot_handlers (up_dshot_motor_data_set dc m thr tel s) = dshot_handlers s"
  "dshot_burst_buffer (up_dshot_motor_data_set dc m thr tel s) = dshot_burst_buffer s"
  "dshot_burst_array (up_dshot_motor_data_set dc m thr tel s) = dshot_burst_array s"
  "dma_log (up_dshot_motor_data_set dc m thr tel s) = dma_log s"
  by (simp_all add: up_dshot_motor_data_set_def dshot_motor_data_set_def Let_def)

lemma data_set_same:
  "dshot_on (up_dshot_motor_data_set dc m thr tel s) = dshot_on s"
  "burst_word (up_dshot_motor_data_set dc m thr tel s) = burst_word s"
  "first_motor_of bd (up_dshot_motor_data_set dc m thr tel s) = first_motor_of bd s"
  "buffers_apart bd (up_dshot_motor_data_set dc m thr tel s) = buffers_apart bd s"
proof -
  show on: "dshot_on (up_dshot_motor_data_set dc m thr tel s) = dshot_on s"
    by (simp add: fun_eq_iff dshot_on_def data_set_fields)
  show bw: "burst_word (up_dshot_motor_data_set dc m thr tel s) = burst_word s" by (simp add: fun_eq_iff burst_word_def data_set_fields)
  show "first_motor_of bd (up_dshot_motor_data_set dc m thr tel s) = first_motor_of bd s" by (simp add: fun_eq_iff first_motor_of_def on)
  show "buffers_apart bd (up_dshot_motor_data_set dc m thr tel s) = buffers_apart bd s"
    by (simp add: buffers_apart_def on bw data_set_fields)
qed

text \<open>Arming switches the outputs of the driver's channels, all of them and no other, and keeps the invariant.\<close>

theorem dshot_arm_exact:
  assumes "io_inv bd s" "valid_channel bd c"
  shows "io_inv bd (snd (up_dshot_arm bd armed s))"
    and "output_on bd (snd (up_dshot_arm bd armed s)) c = (if owner s c = IOTimerChanMode_Dshot then armed else output_on bd s c)"
  using set_enable_inv [OF assms(1)] set_enable_owned [OF assms(1) _ _ assms(2), of IOTimerChanMode_Dshot armed 0]
  by (simp_all add: up_dshot_arm_def)

text \<open>The words of the burst that reach the output \<open>j\<close> of a timer, as the receiver there reads them.\<close>

definition received :: "pwm_board \<Rightarrow> nat \<Rightarrow> nat \<Rightarrow> dshot_state \<Rightarrow> (u16 \<times> bool) option" where
  "received bd t j s = dshot_decode (column (timer_motors bd t) j (drop (the (dshot_burst_buffer s ! t) div 4) (dshot_burst_array s)))"

lemma trigger_keeps:
  assumes "motor_buffer s = Some buf" "buffers_apart bd s"
  shows "dshot_burst_buffer (up_dshot_trigger bd s) = dshot_burst_buffer s"
    and "dma_log (up_dshot_trigger bd s) = rev (map (\<lambda>t. (tmr_base bd t + GTIM_DMAR, the (dshot_burst_buffer s ! t), dma_size (dshot_handlers s ! t)))
         (filter (dshot_on s) [0..<MAX_IO_TIMERS bd])) @ dma_log s"
  using trigger_sent [OF assms] by (simp_all add: sent_def up_dshot_trigger_def split: prod.splits)

text \<open>
  C24. A throttle set for a motor reaches the motor's output. On a board set up for DShot, with memory and DMA channels to be had, the
  initialisation succeeds. Then setting a throttle of at most 1999 and a telemetry request for a motor and triggering starts a
  transfer to the burst register of the motor's timer, of all the words of the timer's motors, and the receiver on the
  output of that motor reads a packet with a right checksum, the throttle counted from 48 and the telemetry request; every other
  motor of the timers in use is sent what is in the motors' buffer for it.
\<close>

theorem dshot_motor_reaches_output:
  assumes ok: "dshot_config_ok bd dc" "motor_assignment dc = None" and i: "dshot_inv bd dc s"
    and mem: "motor_buffer s = None \<longrightarrow> (\<exists>buf. malloc (ALL_MOTORS_BUF_SIZE dc) = Some buf \<and> length buf = ALL_MOTORS_BUF_SIZE dc)"
    and v: "\<forall>c < MAX_TIMER_IO_CHANNELS bd. dshot_wanted bd cm c \<longrightarrow> valid_channel bd c"
    and dma: "\<forall>t < MAX_IO_TIMERS bd. dma_ok (io_dmamap (io_timers bd ! t))"
    and c: "c < MAX_TIMER_IO_CHANNELS bd" "dshot_wanted bd cm c" "t = channels_timer bd c" and j: "j < timer_motors bd t"
    and thr: "thr < 2000"
    and s1: "s1 = snd (up_dshot_init bd dc malloc dma_ok cm freq s)"
    and s2: "s2 = up_dshot_trigger bd (up_dshot_motor_data_set dc (first_motor_of bd s1 t + j) thr tel s1)"
  shows "fst (up_dshot_init bd dc malloc dma_ok cm freq s) = 0
    \<and> owner s1 c = IOTimerChanMode_Dshot
    \<and> (\<exists>xs off. dma_log s2 = xs @ dma_log s1 \<and> dshot_burst_buffer s2 ! t = Some off
         \<and> (tmr_base bd t + GTIM_DMAR, off, 17 * timer_motors bd t) \<in> set xs)
    \<and> received bd t j s2 = Some (thr + 48, tel)
    \<and> (\<forall>u < MAX_IO_TIMERS bd. \<forall>k < timer_motors bd u. dshot_on s1 u \<longrightarrow> (u, k) \<noteq> (t, j) \<longrightarrow>
         received bd u k s2 = dshot_decode (motor_frame (the (motor_buffer s1)) (first_motor_of bd s1 u + k)))"
proof -
  let ?m = "first_motor_of bd s1 t + j" and ?d = "up_dshot_motor_data_set dc (first_motor_of bd s1 t + j) thr tel s1"
  note ini = dshot_init_laws [OF ok(1) i mem v dma s1]
  have io: "pwm_board_ok bd" using i io_inv_board by (auto simp: dshot_inv_def)
  have t: "t < MAX_IO_TIMERS bd" using c v board_channel_timer [OF io] by auto
  have on: "dshot_on s1 t" using ini(4) [OF t] c by auto
  obtain buf where buf: "motor_buffer s1 = Some buf" "length buf = ALL_MOTORS_BUF_SIZE dc" using ini(3) by auto
  let ?buf = "put_pulses ?m (dshot_packet (thr + 48) tel) buf"
  have fit: "(first_motor_of bd s1 u + k) * 17 + 17 \<le> length buf" if "u < MAX_IO_TIMERS bd" "k < timer_motors bd u" for u k
  proof -
    have "first_motor_of bd s1 u + k < MOTORS_NUMBER dc" using first_motor_fits [OF that, of s1] ok(1) unfolding dshot_config_ok_def by linarith
    then show ?thesis using buf(2) by (simp add: ALL_MOTORS_BUF_SIZE_def)
  qed
  have ap: "buffers_apart bd s1" using buffers_apartI [OF ok(1) ini(2)] ini(5) by blast
  have mb: "motor_buffer ?d = Some ?buf" using buf(1) by (simp add: data_set_fields(1) [OF ok(2)])
  have apd: "buffers_apart bd ?d" using ap by (simp add: data_set_same)
  have rec: "received bd u k s2 = dshot_decode (motor_frame ?buf (first_motor_of bd s1 u + k))"
    if "u < MAX_IO_TIMERS bd" "dshot_on s1 u" "k < timer_motors bd u" for u k
  proof -
    have "(first_motor_of bd s1 u + k) * 17 + 17 \<le> length ?buf" using fit [OF that(1,3)] fit [OF t j] by simp
    then show ?thesis
      using trigger_columns [OF mb apd that(1) _ that(3)] that(2) trigger_keeps(1) [OF mb apd]
      by (simp add: received_def s2 data_set_same burst_word_def data_set_fields)
  qed
  have "unat thr < 2000" using thr by (simp add: word_less_nat_alt)
  then have "thr + 48 < 2048" by (simp add: word_less_nat_alt unat_word_ariths)
  then have "received bd t j s2 = Some (thr + 48, tel)"
    using rec [OF t on j] fit [OF t j] by (simp add: put_pulses_frame dshot_decode_pulses)
  moreover have "received bd u k s2 = dshot_decode (motor_frame (the (motor_buffer s1)) (first_motor_of bd s1 u + k))"
    if "u < MAX_IO_TIMERS bd" "k < timer_motors bd u" "dshot_on s1 u" "(u, k) \<noteq> (t, j)" for u k
    using rec [OF that(1,3,2)] fit [OF t j] fit [OF that(1,2)] first_motor_inj [OF that(1) t that(3) on that(2) j] that(4) buf(1)
    by (auto simp: put_pulses_frame)
  moreover have "\<exists>xs off. dma_log s2 = xs @ dma_log s1 \<and> dshot_burst_buffer s2 ! t = Some off
      \<and> (tmr_base bd t + GTIM_DMAR, off, 17 * timer_motors bd t) \<in> set xs"
    using trigger_keeps [OF mb apd] ini(5) [OF t on] t on
    by (force simp: s2 data_set_fields data_set_same sized_def mult.commute)
  moreover have "owner s1 c = IOTimerChanMode_Dshot" using ini(6) [of c] c io by (simp add: pwm_board_ok_def)
  ultimately show ?thesis using ini(1) by blast
qed


lemma dshot_inv_reset: "pwm_board_ok bd \<Longrightarrow> dshot_inv bd dc (dshot_reset bd dc)"
proof -
  assume "pwm_board_ok bd"
  then have "io_inv bd (dshot_reset bd dc)"
    by (rule io_inv_same [OF io_inv_reset]) (simp_all add: dshot_reset_def io_state.defs io_reset_def)
  then show ?thesis by (simp add: dshot_inv_def dshot_reset_def io_state.defs dshot_state.defs dshot_on_def)
qed

definition eight_motors :: dshot_config where
  "eight_motors = \<lparr>MOTORS_NUMBER = 8, DCACHE_LINESIZE = 32, motor_assignment = None\<rparr>"

lemma eight_timer_motors [simp]:
  "timer_motors eight_servos 0 = 2" "timer_motors eight_servos (Suc 0) = 2" "timer_motors eight_servos 2 = 4"
  by (simp_all add: timer_motors_def eight_servos_def)

lemma eight_config_ok: "dshot_config_ok eight_servos eight_motors"
proof -
  have "\<forall>u \<in> {..<2}. tmr_base eight_servos u \<noteq> 0" by (auto simp: less_2_cases_iff)
  moreover have "[0..<3] = [0, Suc 0, 2]" by (simp add: upt_rec)
  ultimately show ?thesis unfolding dshot_config_ok_def eight_sizes less_3_cases by (simp add: eight_motors_def)
qed

lemma eight_wanted: "dshot_wanted eight_servos 0xff 5"
  by (simp add: dshot_wanted_def) (simp add: eight_servos_def)

theorem dshot_motor_reaches_output_witness:
  "let s1 = snd (up_dshot_init eight_servos eight_motors (\<lambda>n. Some (replicate n 0)) (\<lambda>_. True) 0xff 300000 (dshot_reset eight_servos eight_motors));
       s2 = up_dshot_trigger eight_servos (up_dshot_motor_data_set eight_motors (first_motor_of eight_servos s1 2 + 1) 1000 True s1)
   in owner s1 5 = IOTimerChanMode_Dshot \<and> received eight_servos 2 1 s2 = Some (1048, True)"
proof -
  have "\<forall>c < MAX_TIMER_IO_CHANNELS eight_servos. dshot_wanted eight_servos 0xff c \<longrightarrow> valid_channel eight_servos c"
    by (simp add: eight_valid)
  then show ?thesis
    using dshot_motor_reaches_output [OF eight_config_ok _ dshot_inv_reset [OF pwm_board_ok_eight_servos], where c = 5 and t = 2 and j = 1 and thr = 1000
        and tel = True and cm = "0xff" and malloc = "\<lambda>n. Some (replicate n 0)" and dma_ok = "\<lambda>_. True" and freq = 300000]
      eight_wanted
    by (simp add: eight_motors_def)
qed

end
