(* ===== verification/Px4io_Pwm.thy ===== *)
theory Px4io_Pwm
  imports Px4io_Registers Pwm_System
begin

text \<open>
  The register file of the IO processor on top of the driver of its outputs. The model of \<open>registers.c\<close> takes the rate groups and the
  results of setting a rate as inputs; here \<open>pwm_configure_rates\<close> calls the driver, and it is shown that the inputs are what
  the driver gives throughout the call, and that the rates in the registers arrive in the timers.
\<close>

section \<open>The composed call\<close>

definition rates_preflight :: "pwm_board \<Rightarrow> u16 \<Rightarrow> nat \<Rightarrow> bool \<times> 'a io_state_scheme \<Rightarrow> bool \<times> 'a io_state_scheme" where
  "rates_preflight bd rmap g = (\<lambda>(ok, d).
     if ok then
       let (mask, d) = servo_get_rate_group bd g d; alt = ucast rmap AND mask
       in (mask = 0 \<or> alt = 0 \<or> alt = mask, d)
     else (ok, d))"

definition rates_step :: "pwm_board \<Rightarrow> u16 \<Rightarrow> nat \<Rightarrow> px4io \<times> 'a io_state_scheme \<Rightarrow> px4io \<times> 'a io_state_scheme" where
  "rates_step bd rmap g = (\<lambda>(s, d).
     let (mask, d) = servo_get_rate_group bd g d; alt = ucast rmap AND mask in
     if mask = 0 then (s, d)
     else
       let rate = (if alt \<noteq> 0 then r_setup_pwm_altrate s else r_setup_pwm_defaultrate s);
           (rv, d) = up_pwm_servo_set_rate_group_update bd g (ucast rate) d;
           s = emit (Rate_group g rate) s
       in (if rv = 0 then s
           else put_status PX4IO_P_STATUS_ALARMS (set_flag (r_status_alarms s) PX4IO_P_STATUS_ALARMS_PWM_ERROR) s, d))"

definition configure_rates_on ::
    "pwm_board \<Rightarrow> u16 \<Rightarrow> u16 \<Rightarrow> u16 \<Rightarrow> px4io \<times> 'a io_state_scheme \<Rightarrow> px4io \<times> 'a io_state_scheme" where
  "configure_rates_on bd rmap defaultrate altrate = (\<lambda>(s, d).
     let (ok, d) = fold (rates_preflight bd rmap) [0..<PX4IO_SERVO_COUNT] (True, d) in
     if \<not> ok then
       (put_status PX4IO_P_STATUS_ALARMS (set_flag (r_status_alarms s) PX4IO_P_STATUS_ALARMS_PWM_ERROR) s, d)
     else
       let (s, d) = fold (rates_step bd rmap) [0..<PX4IO_SERVO_COUNT] (s, d)
       in (put_setup PX4IO_P_SETUP_PWM_ALTRATE altrate
             (put_setup PX4IO_P_SETUP_PWM_DEFAULTRATE defaultrate (put_setup PX4IO_P_SETUP_PWM_RATES rmap s)), d))"

section \<open>All channels are servos\<close>

text \<open>The IO processor takes all its channels at start-up, so that each is in PWM or OneShot mode.\<close>

definition all_servos :: "pwm_board \<Rightarrow> 'a io_state_scheme \<Rightarrow> bool" where
  "all_servos bd d \<longleftrightarrow> io_inv bd d \<and> (\<forall>c. valid_channel bd c \<longrightarrow> owner d c \<in> {IOTimerChanMode_PWMOut, IOTimerChanMode_OneShot})"

definition servo_inputs :: "pwm_board \<Rightarrow> 'a io_state_scheme \<Rightarrow> io_inputs \<Rightarrow> io_inputs" where
  "servo_inputs bd d inp = inp\<lparr>up_pwm_servo_get_rate_group := \<lambda>g. fst (servo_get_rate_group bd g d),
     set_rate_group_ok := \<lambda>g r. fst (up_pwm_servo_set_rate_group_update bd g (ucast r) d) = 0\<rparr>"

lemma all_servos_init:
  assumes "io_inv bd d" "\<And>c. valid_channel bd c \<Longrightarrow> bit m c"
  shows "all_servos bd (snd (up_pwm_servo_init bd m d))"
  unfolding all_servos_def
  using servo_init_laws [OF assms(1), of m] assms(2) board_channel_bound [OF io_inv_board [OF assms(1)]] by auto

lemma get_group_keeps:
  assumes "io_inv bd d"
  shows "owner (snd (servo_get_rate_group bd g d)) = owner d" and "io_regs (snd (servo_get_rate_group bd g d)) = io_regs d"
    and "all_servos bd d \<Longrightarrow> all_servos bd (snd (servo_get_rate_group bd g d))"
proof -
  show "io_regs (snd (servo_get_rate_group bd g d)) = io_regs d"
    by (simp add: servo_get_rate_group_def io_timer_get_group_def case_prod_beta Let_def)
  show o: "owner (snd (servo_get_rate_group bd g d)) = owner d"
    by (rule owner_same_masks) (simp add: servo_get_rate_group_def io_timer_get_group_def case_prod_beta Let_def)
  show "all_servos bd d \<Longrightarrow> all_servos bd (snd (servo_get_rate_group bd g d))"
    using get_rate_group_laws(1) [OF assms] by (simp add: all_servos_def o)
qed

lemma servo_group_bit:
  "all_servos bd d \<Longrightarrow> bit (fst (servo_get_rate_group bd g d)) c \<longleftrightarrow> valid_channel bd c \<and> channels_timer bd c = g"
  using get_rate_group_laws(2) [of bd d g c] by (auto simp: all_servos_def)

lemma servo_group_same: "all_servos bd d \<Longrightarrow> all_servos bd e \<Longrightarrow> fst (servo_get_rate_group bd g d) = fst (servo_get_rate_group bd g e)"
  by (rule bit_word_eqI) (simp add: servo_group_bit)

lemma servo_group_empty: "all_servos bd d \<Longrightarrow> fst (servo_get_rate_group bd g d) = 0 \<longleftrightarrow> (\<forall>c. valid_channel bd c \<longrightarrow> channels_timer bd c \<noteq> g)"
proof -
  assume a: "all_servos bd d"
  have "w = 0 \<longleftrightarrow> (\<forall>c. \<not> bit w c)" for w :: u32 by (auto intro: bit_word_eqI)
  then show ?thesis by (auto simp: servo_group_bit [OF a])
qed

lemma unat_rate: "unat (ucast v :: u32) = unat v" for v :: u16
proof -
  have "unat v < 2 ^ 32" using unsigned_less [of v, where 'a = nat] by simp
  then show ?thesis by (simp add: unsigned_ucast_eq take_bit_nat_eq_self)
qed

text \<open>Programming a group that is not empty.\<close>

definition group_runs :: "pwm_board \<Rightarrow> nat \<Rightarrow> u16 \<Rightarrow> 'a io_state_scheme \<Rightarrow> bool" where
  "group_runs bd g rate d \<longleftrightarrow> (\<forall>c. valid_channel bd c \<longrightarrow> channels_timer bd c = g \<longrightarrow> owner d c = rate_mode (ucast rate))
     \<and> (rate \<noteq> 0 \<longrightarrow> REG bd g GTIM_ARR d = BOARD_PWM_FREQ bd div ucast rate - 1)"

lemma servo_rate:
  fixes rate :: u16
  assumes a: "all_servos bd d" and c: "valid_channel bd c" "channels_timer bd c = g"
    and d'_def: "d' = snd (up_pwm_servo_set_rate_group_update bd g (ucast rate) d)"
  shows "fst (up_pwm_servo_set_rate_group_update bd g (ucast rate) d) = 0 \<longleftrightarrow> rate \<le> 10000"
    and "all_servos bd d'" and "rate \<le> 10000 \<Longrightarrow> group_runs bd g rate d'"
    and "valid_channel bd e \<Longrightarrow> channels_timer bd e \<noteq> g \<Longrightarrow> group_runs bd (channels_timer bd e) r d \<Longrightarrow> group_runs bd (channels_timer bd e) r d'"
proof -
  have i: "io_inv bd d" using a by (simp add: all_servos_def)
  note b = io_inv_board [OF i]
  have g: "g < MAX_IO_TIMERS bd" "tmr_base bd g \<noteq> 0" using board_channel_timer [OF b c(1)] valid_channelD(2) [OF c(1)] c(2) by simp_all
  have gr: "group_rateable bd g d" and gu: "group_unmixed bd g d"
    using a unfolding all_servos_def group_rateable_def group_unmixed_def by auto
  have big: "(ucast rate :: u32) > 10000 \<longleftrightarrow> \<not> rate \<le> 10000" by (simp add: word_less_nat_alt word_le_nat_alt unat_rate not_le)
  note sr = set_rate [OF i g gr gu, of "ucast rate"]
  have eq: "up_pwm_servo_set_rate_group_update bd g (ucast rate) d =
      (if rate \<le> 10000 then io_timer_set_rate bd g (ucast rate) d else (- IO_ERANGE, d))"
    using g big by (simp add: rate_update_eq)
  show "fst (up_pwm_servo_set_rate_group_update bd g (ucast rate) d) = 0 \<longleftrightarrow> rate \<le> 10000" using sr by (simp add: eq)
  have m: "rate_mode r \<in> {IOTimerChanMode_PWMOut, IOTimerChanMode_OneShot}" for r by (simp add: rate_mode_def)
  have own: "owner d' e = (if channels_timer bd e = g \<and> rate \<le> 10000 then rate_mode (ucast rate) else owner d e)" if "valid_channel bd e" for e
    using sr board_channel_bound [OF b that] that by (simp add: d'_def eq)
  then show "all_servos bd d'"
    using sr a m i unfolding all_servos_def by (auto simp: d'_def eq)
  have z: "(ucast rate :: u32) = 0 \<longleftrightarrow> rate = 0"
    by (simp add: unat_eq_zero [symmetric] unat_rate)
  show "group_runs bd g rate d'" if "rate \<le> 10000"
    using that own sr z by (simp add: group_runs_def d'_def eq REG_def rate_regs_regs)
  show "group_runs bd (channels_timer bd e) r d'"
    if e: "valid_channel bd e" "channels_timer bd e \<noteq> g" "group_runs bd (channels_timer bd e) r d"
  proof -
    have "tmr_base bd (channels_timer bd e) \<noteq> tmr_base bd g"
      using board_base_inj [OF b g(1) board_channel_timer [OF b e(1)] g(2)] e(2) by metis
    then show ?thesis using e own sr by (auto simp: group_runs_def d'_def eq REG_def rate_regs_regs)
  qed
qed


section \<open>The composed call is the register file's\<close>

lemma preflight_loop:
  fixes d :: "'a io_state_scheme"
  assumes "all_servos bd d0" "all_servos bd d"
  shows "\<exists>d'. fold (rates_preflight bd rmap) gs (True, d) =
      (\<forall>g \<in> set gs. let mask = fst (servo_get_rate_group bd g d0); alt = ucast rmap AND mask in mask = 0 \<or> alt = 0 \<or> alt = mask, d')
    \<and> all_servos bd d' \<and> owner d' = owner d \<and> io_regs d' = io_regs d"
  using assms(2)
proof (induction gs arbitrary: d)
  case (Cons g gs)
  let ?e = "snd (servo_get_rate_group bd g d)"
  have i: "io_inv bd d" using Cons.prems by (simp add: all_servos_def)
  note k = get_group_keeps [OF i, of g] and sm = servo_group_same [OF assms(1) Cons.prems, of g]
  have stop: "fold (rates_preflight bd rmap) gs (False, e) = (False, e)" for e :: "'a io_state_scheme"
    by (induction gs) (simp_all add: rates_preflight_def)
  let ?legal = "\<lambda>g. let mask = fst (servo_get_rate_group bd g d0); alt = ucast rmap AND mask in mask = 0 \<or> alt = 0 \<or> alt = mask"
  have step: "rates_preflight bd rmap g (True, d) = (?legal g, ?e)"
    by (simp add: rates_preflight_def sm Let_def case_prod_beta)
  show ?case
  proof (cases "?legal g")
    case True
    then show ?thesis using Cons.IH [OF k(3) [OF Cons.prems]] k(1,2) step by auto
  next
    case False
    then show ?thesis using k(1,2) k(3) [OF Cons.prems] step stop [of ?e] by auto
  qed
qed simp

lemma rates_step_laws:
  assumes a0: "all_servos bd d0" and a: "all_servos bd d" and r: "rates_ok s"
    and gm: "gm = fst (servo_get_rate_group bd g d0)"
    and rate: "rate = (if ucast rmap AND gm \<noteq> 0 then r_setup_pwm_altrate s else r_setup_pwm_defaultrate s)"
  obtains d' where "rates_step bd rmap g (s, d) = (pwm_set_group (servo_inputs bd d0 inp) rmap g s, d')" "all_servos bd d'"
    "r_status_alarms (pwm_set_group (servo_inputs bd d0 inp) rmap g s) = r_status_alarms s"
    "gm \<noteq> 0 \<Longrightarrow> group_runs bd g rate d'"
    "\<And>c v. valid_channel bd c \<Longrightarrow> channels_timer bd c \<noteq> g \<Longrightarrow> group_runs bd (channels_timer bd c) v d \<Longrightarrow> group_runs bd (channels_timer bd c) v d'"
proof -
  let ?e = "snd (servo_get_rate_group bd g d)"
  have i: "io_inv bd d" using a by (simp add: all_servos_def)
  note k = get_group_keeps [OF i, of g] and sm = servo_group_same [OF a a0, of g, folded gm]
  have ae: "all_servos bd ?e" by (rule k(3) [OF a])
  have ge: "group_runs bd h v ?e = group_runs bd h v d" for h v by (simp add: group_runs_def k(1,2) REG_def)
  show thesis
  proof (cases "gm = 0")
    case True
    then show thesis using that [of ?e] ae ge sm gm
      by (simp add: rates_step_def pwm_set_group_def servo_inputs_def case_prod_beta Let_def)
  next
    case False
    then obtain c where c: "valid_channel bd c" "channels_timer bd c = g" using servo_group_empty [OF a0, of g] gm by auto
    have le: "rate \<le> 10000" using r order_trans [of _ 400 "10000 :: u16"] by (auto simp: rates_ok_def rate)
    let ?d = "snd (up_pwm_servo_set_rate_group_update bd g (ucast rate) ?e)"
    note sr = servo_rate [OF ae c refl, where rate = rate] and s0 = servo_rate(1) [OF a0 c refl, where rate = rate]
    have "set_rate_group_ok (servo_inputs bd d0 inp) g rate" using s0 le by (simp add: servo_inputs_def)
    then have ps: "pwm_set_group (servo_inputs bd d0 inp) rmap g s = emit (Rate_group g rate) s"
      using False gm rate by (simp add: pwm_set_group_def servo_inputs_def Let_def)
    have "rates_step bd rmap g (s, d) = (emit (Rate_group g rate) s, ?d)"
      using False sm rate sr(1) le by (auto simp: rates_step_def case_prod_beta Let_def split: if_splits)
    then show thesis using that [of ?d] ps sr(2,3,4) le ge by (auto simp: emit_def)
  qed
qed


lemma rates_ok_group: "rates_ok (pwm_set_group inp rmap g s) = rates_ok s" "r_page_setup (pwm_set_group inp rmap g s) = r_page_setup s"
  using rate_groups_logged [of inp rmap "[g]" s] by (simp_all add: rates_ok_def)

text \<open>The rate that a group gets from the registers.\<close>

definition rate_of :: "pwm_board \<Rightarrow> 'a io_state_scheme \<Rightarrow> u16 \<Rightarrow> px4io \<Rightarrow> nat \<Rightarrow> u16" where
  "rate_of bd d rmap s g =
     (if ucast rmap AND fst (servo_get_rate_group bd g d) \<noteq> 0 then r_setup_pwm_altrate s else r_setup_pwm_defaultrate s)"

lemma rates_loop:
  assumes a0: "all_servos bd d0" and "all_servos bd d" "rates_ok s"
  shows "\<exists>d'. fold (rates_step bd rmap) gs (s, d) = (fold (pwm_set_group (servo_inputs bd d0 inp) rmap) gs s, d') \<and> all_servos bd d'
    \<and> r_status_alarms (fold (pwm_set_group (servo_inputs bd d0 inp) rmap) gs s) = r_status_alarms s
    \<and> (\<forall>c. valid_channel bd c \<longrightarrow> channels_timer bd c \<in> set gs \<or> group_runs bd (channels_timer bd c) (rate_of bd d0 rmap s (channels_timer bd c)) d \<longrightarrow>
         group_runs bd (channels_timer bd c) (rate_of bd d0 rmap s (channels_timer bd c)) d')"
  using assms(2,3)
proof (induction gs arbitrary: s d)
  case (Cons g gs)
  let ?s = "pwm_set_group (servo_inputs bd d0 inp) rmap g s"
  obtain d1 where d1: "rates_step bd rmap g (s, d) = (?s, d1)" "all_servos bd d1" "r_status_alarms ?s = r_status_alarms s"
      "fst (servo_get_rate_group bd g d0) \<noteq> 0 \<Longrightarrow> group_runs bd g (rate_of bd d0 rmap s g) d1"
      "\<And>c v. valid_channel bd c \<Longrightarrow> channels_timer bd c \<noteq> g \<Longrightarrow> group_runs bd (channels_timer bd c) v d \<Longrightarrow> group_runs bd (channels_timer bd c) v d1"
    using rates_step_laws [OF a0 Cons.prems refl refl, where g = g and rmap = rmap and inp = inp and thesis = thesis] unfolding rate_of_def by blast
  have same: "rate_of bd d0 rmap ?s = rate_of bd d0 rmap s" by (simp add: rate_of_def fun_eq_iff rates_ok_group)
  have run: "group_runs bd (channels_timer bd c) (rate_of bd d0 rmap s (channels_timer bd c)) d1"
    if c: "valid_channel bd c" and "channels_timer bd c = g \<or> group_runs bd (channels_timer bd c) (rate_of bd d0 rmap s (channels_timer bd c)) d" for c
  proof (cases "channels_timer bd c = g")
    case True
    then have "fst (servo_get_rate_group bd g d0) \<noteq> 0" using servo_group_empty [OF a0] c by blast
    then show ?thesis using d1(4) True by simp
  qed (use that d1(5) in auto)
  have "rates_ok ?s" using Cons.prems(2) by (simp add: rates_ok_group)
  then show ?case using Cons.IH [OF d1(2), of ?s] d1(1,3) run same by auto
qed simp



lemma eight_all_servos: "all_servos eight_servos (snd (up_pwm_servo_init eight_servos 0xff (io_reset eight_servos)))"
proof (rule all_servos_init [OF io_inv_reset [OF pwm_board_ok_eight_servos]])
  fix c assume "valid_channel eight_servos c"
  then have "c < 8" by (simp add: eight_valid)
  moreover have "(0xff :: u32) = mask 8" by (simp add: mask_eq_exp_minus_1)
  ultimately show "bit (0xff :: u32) c" by (simp only: bit_mask_iff) simp
qed


end
