(* ===== verification/Spec2Isabelle.thy ===== *)
theory Spec2Isabelle
  imports Crc App_Shared Bl_Timer Bl_Ring Bl_Start Flashfs_Store Can_Transfer Can_Update Px4io_Main Hrt_System Hrt_Rc Capture_Laws Dshot_System Px4io_Pwm
begin

text \<open>
  Verification of the C components of the PX4 firmware that are decisive for safety and have no
  operating system between them and the hardware: the firmware of the PX4IO co-processor, the
  serial bootloader of the STM32H7 boards, the CAN bootloader of the STM32F4 nodes, the storage of
  parameters in flash, the high resolution timer that gives all of them their time, and the drivers of the outputs and inputs on the
  timers of the processor.  Paths are relative to \<open>src/platform/px4/Firmware\<close>.

  \<^bold>\<open>The program.\<close>  The flight controller talks to a co-processor (PX4IO) over a serial link; the
  co-processor drives the servos, reads the radio control receiver and the safety button, and keeps
  all of its state in pages of registers that the link reads and writes.  Both processors, and the
  nodes on the CAN bus, start in a bootloader that receives firmware, programs it into flash, and
  starts it if it is complete (and signed, on boards with security).

  \<^bold>\<open>PX4IO\<close> (\<open>src/modules/px4iofirmware\<close>).
  \<^item> \<open>Px4io_State\<close>: the register pages and globals of \<open>px4io.h\<close> as the record \<open>px4io\<close>, the constants of
    \<open>protocol.h\<close>, the outputs (lights, PWM, reboot) as a log of events.
  \<^item> \<open>Px4io_Registers\<close>: \<open>registers_set\<close>, \<open>registers_set_one\<close>, \<open>registers_get\<close> and \<open>pwm_configure_rates\<close> of
    \<open>registers.c\<close>, page by page and branch by branch.  Shown: the limits of every PWM register
    and the sizes of the pages are invariant under all writes; the termination flag latches; what
    takes the safety off; which calibrations enable a channel; that features exclude each other; how
    PWM rates change.
  \<^item> \<open>Px4io_Safety\<close>: the callouts of \<open>safety.c\<close>.  Shown: ten callouts of the pressed button, and
    nothing less, take the safety off.
  \<^item> \<open>Px4io_Serial\<close>: packets, checksum, DMA callback and interrupt of \<open>serial.c\<close>.  Shown: damaged
    packets change nothing; every reply verifies; what a packet writes the next one reads; what an
    oversized count does.
  \<^item> \<open>Float32\<close>, \<open>Px4io_Controls\<close>: \<open>controls.c\<close> with single-precision arithmetic over the rationals.  Shown: loss
    of the link is detected and drops the override; exactly when the override is on; scaling and bounds
    of the channels.
  \<^item> \<open>Px4io_Main\<close>: \<open>px4io.c\<close> and the converter of \<open>adc.c\<close>, and the whole system as an inductive relation
    that interleaves the main loop, callouts and interrupts.  Shown: the invariants of all components hold
    in every reachable state, termination is final, and the checksum registers are right.

  \<^bold>\<open>Serial bootloader\<close> (\<open>platforms/nuttx/src/bootloader\<close>).
  \<^item> \<open>Bl_Flash\<close>: the flash driver of the STM32H7 (\<open>stm32_flash.c\<close>), the write-back cache of two lines
    (\<open>flash_cache.c\<close>) and the access functions of \<open>main.c\<close>, over a flash controller that is a parameter
    (\<open>flash_dev\<close>, with its laws in \<open>dev_ok\<close> and \<open>dev_local\<close>).  The locale \<open>word_store\<close> is what
    the programming loop relies on.  Shown: an image programmed in packets is in flash after the
    first word is committed, and the tail of an image that does not fill its last line is lost.
  \<^item> \<open>Bl_Ring\<close>: the receive ring of \<open>bl.c\<close>, as an implementation of the locale \<open>bounded_queue\<close>.
  \<^item> \<open>Bl_Serial\<close>: the protocol of \<open>bl.c\<close>, every command with every exit (\<open>outcome\<close>), and the command loop.  The
    outside world is the list \<open>happenings\<close> of ticks and bytes; a poll in vain lets the next one happen.
    A wait that outlasts the list yields \<open>None\<close>.
  \<^item> \<open>Bl_Session\<close>: sessions as runs of the command loop (\<open>bl_run\<close>).  Shown: the order of commands that the
    protocol demands is enforced.
  \<^item> \<open>Bl_Wait\<close>: the loop without a host ends exactly at its time-out; without one it is left only
    by a boot command.
  \<^item> \<open>Sw_Crypto\<close>: key store, key cache and signature check of \<open>px4_sw_crypto\<close>; the locale \<open>verifier\<close> is what the loader
    relies on.
  \<^item> \<open>Bl_Toc\<close>: \<open>find_toc\<close> of \<open>image_toc.c\<close>, \<open>verify_app\<close> of \<open>crypto.c\<close>, and the loop of \<open>jump_to_app\<close>.
  \<^item> \<open>Bl_Boot\<close>, \<open>Bl_Start\<close>: \<open>jump_to_app\<close>, the board tests and \<open>bootloader_main\<close>.  Shown: the decision at start-up on
    every branch; only complete images with an entry point in their area, or only signed ones,
    are started, whatever happened before; an interrupted upload is never started; a request to stay
    in the bootloader is honoured.

  \<^bold>\<open>CAN bootloader\<close> (\<open>platforms/nuttx/src/canbootloader\<close>).
  \<^item> \<open>Bl_Timer\<close>: the timer service (\<open>sched/timer.c\<close>).  Shown: when a timer expires, that a tick is a step of every slot on
    its own, and how slots are allocated.
  \<^item> \<open>Can_Uavcan\<close>: identifiers, tail bytes, the table of data types, and sending and receiving of transfers (\<open>protocol/uavcan.c\<close>), over
    a driver and an interrupt service that are arguments.
  \<^item> \<open>Can_Transfer\<close>: a transfer that one node sends is received by another as it was sent, in one frame or in many;
    a damaged one is refused.
  \<^item> \<open>Can_Driver\<close>: the driver (\<open>arch/stm/stm32f4/drivers/can/driver.c\<close>) over the registers of the controller, which are
    a parameter (\<open>can_regs\<close>).  Shown: the bit timing is exact, the bit rate of the bus is classified correctly, a frame
    survives the way through the registers, and what the filter passes.
  \<^item> \<open>Can_Node\<close>: the main program (\<open>uavcan/main.c\<close>) with the flash access and the random numbers: node id allocation, file
    download, image test, start of the application.
  \<^item> \<open>Can_Waiting\<close>: everything that talks and waits leaves alone what decides about the application (the relation
    \<open>calm\<close>); the locale \<open>calm_isr\<close> is what the receiver and the driver rely on of the interrupts, interpreted with none and with those of the
    bootloader.
  \<^item> \<open>Can_Update\<close>: the bootloader does not overwrite itself, an update is all or nothing, and only an image that has
    passed its checksums is started, but for one hole of the node id allocation that the theorem names.

  \<^bold>\<open>Parameter storage\<close> (\<open>src/lib/parameters/flashparams\<close>).
  \<^item> \<open>Stm32f4_Flash\<close>: the flash driver of the STM32F4 (\<open>stm32f20xxf40xx_flash.c\<close>) over a flash array that is a parameter
    (\<open>f4_dev\<close>, with its laws in \<open>f4_ok\<close>); the CAN bootloader uses it too.
  \<^item> \<open>Flashfs\<close>, \<open>Flashfs_Log\<close>: \<open>flashfs.c\<close>, and its sectors as logs of entries.
  \<^item> \<open>Flashfs_Store\<close>: the storage as an implementation of the locale \<open>file_store\<close>.  Shown: the last file written is the one read, through
    full sectors and restarts; a torn entry hides those behind it.

  \<^bold>\<open>High resolution timer\<close> (\<open>platforms/nuttx/src/px4/stm/stm32_common/hrt/hrt.c\<close>).
  \<^item> \<open>Sq_Queue\<close>: the singly linked queues of the C library (\<open>queue.h\<close>, \<open>sq_*.c\<close>) on links in memory, related to lists by
    \<open>queue_of\<close>.  Shown: what each operation does to the list, and that a removal ends.
  \<^item> \<open>Hrt\<close>: the module as it is written, over a counter (\<open>cnt\<close>, the time at each read of its register) and callouts (\<open>run\<close>) that
    are arguments.
  \<^item> \<open>Hrt_Time\<close>: the extension of the 16 bit counter, the next interrupt (\<open>wake_up\<close>), the steps that an operation can do to the
    clock (\<open>clock_steps\<close>), seconds and nanoseconds, the prescaler and the histogram.
  \<^item> \<open>Hrt_Calls\<close>: the abstract queue ordered by deadline, and that the operations of the clients refine it.
  \<^item> \<open>Hrt_Dispatch\<close>: the locale \<open>callout_contract\<close> is what the dispatcher relies on of the callouts, \<open>quiet_callouts\<close> gives it for those that
    leave the timer alone.  Shown: what the interrupt keeps and achieves, and when the dispatcher ends.
  \<^item> \<open>Hrt_System\<close>: callouts made of the module's own operations, and the runs of clients and interrupts from the start.  Shown: the time is
    exact, the queue is whole, nothing due is left behind, periodic calls do not drift; and what happens when a callout arms itself again.
  \<^item> \<open>Hrt_Ppm\<close>, \<open>Hrt_Rc\<close>: the PPM decoder in the interrupt, and its client \<open>ppm_input\<close> in PX4IO.  Shown: the decoder stays in its buffers,
    gives the values of a signal from any state, they reach the registers, and those behind the twelfth do not.

  \<^bold>\<open>Outputs and inputs on timers\<close> (\<open>platforms/nuttx/src/px4/stm/stm32_common/io_pins\<close> and \<open>dshot\<close>).  The tables of timers and channels are those of a
  board, the parameter \<open>pwm_board\<close>; what they have to satisfy is \<open>pwm_board_ok\<close>.  The state of \<open>io_timer.c\<close> is the extensible record \<open>io_state\<close>,
  to which the drivers add their variables.
  \<^item> \<open>Io_Timer\<close>: \<open>io_timer.c\<close> over the registers of the timers.  \<open>Io_Channels\<close>, \<open>Io_Rates\<close>: the invariant \<open>io_inv\<close> (the masks are those of an owner of each
    channel, unused outputs are off) and what each operation does to owners, outputs and periods.
  \<^item> \<open>Pwm_Output\<close>: \<open>pwm_servo.c\<close> and \<open>pwm_trigger.c\<close>; the locales \<open>channel_pool\<close> and \<open>output_pool\<close> are what they (and DShot) rely on of the timers, interpreted
    for each mode in \<open>Pwm_Laws\<close> and \<open>Dshot_Laws\<close>.
  \<^item> \<open>Pwm_System\<close>: the calls in any order.  Shown: each channel has one owner, taking and arming affect exactly the channels asked for, pulse widths
    read back; setting the rate of a group that is partly unused breaks the masks, and the prescaler of OneShot survives.
  \<^item> \<open>Input_Capture\<close>, \<open>Capture_Laws\<close>: \<open>input_capture.c\<close>.  Shown: the configuration of a channel reads back; where the time of an edge, a large filter and the
    disabled trigger go wrong.
  \<^item> \<open>Dshot\<close>, \<open>Dshot_Laws\<close>, \<open>Dshot_System\<close>: \<open>dshot.c\<close> with its buffers and transfers.  The specification is a receiver (\<open>dshot_decode\<close>) written from the
    format in the source.  Shown: initialisation succeeds on a right board, and what is set for a motor is what the receiver on its output reads.
  \<^item> \<open>Px4io_Pwm\<close>: the register file of PX4IO on top of the driver.  Shown: the composed call is the one of \<open>Px4io_Registers\<close>, and
    the rates in the registers are those of the timers.

  \<^bold>\<open>Shared.\<close>
  \<^item> \<open>Px4_Prelude\<close>: words, flags, little-endian bytes, and the locale \<open>countdown\<close> of software timers.
  \<^item> \<open>Crc\<close>: the checksums of \<open>systemlib/crc.c\<close>, of the C library and of the bootloader; that they agree and
    which errors they detect.
  \<^item> \<open>App_Shared\<close>: the mailbox between bootloader and application on CAN nodes (\<open>boot_app_shared.c\<close>).

  \<^bold>\<open>Bounds and loops.\<close>  No theorem fixes a bound that the code does not have.  Loops that the code bounds are
  structural recursion or functions with a measure; loops of the serial bootloader that wait for the outside recurse on
  the list of happenings; those that need not end (\<open>bl_loop\<close>, \<open>boot_loop\<close>, the waiting loops of the CAN bootloader, the walks over linked queues and the
  dispatcher of the timer) are partial
  functions whose value is \<open>None\<close> when they do not, and where a theorem says that they return it says so.  There is no fuel.
  The number of motors of the DShot trigger is a natural number where the code has a byte: it is bounded by the number of channels, sixteen.
  In the CAN bootloader interrupts come at every turn of a waiting loop, as many ticks as the board record says.

  \<^bold>\<open>Not modelled.\<close>  Set-up of clocks, pins and interrupt controllers; the arithmetic of Ed25519
  (Monocypher) and the decoders of radio protocols (C++), which are arguments; the mixer (C++) but
  for its two entry points; the NuttX kernel and drivers other than the two flash drivers and the queues; DMA and data cache (transfers are a log); the LED timers; the USB and UART drivers of the serial bootloader; the flight stack (C++);
  generated message headers; simulation tools.  The board configuration headers are not part
  of the repository: what they define are fields of the board records.
\<close>

end
